(* ===== verification/Prelude.thy ===== *)
theory Prelude
  imports Main "HOL-Library.Word"
begin

unbundle bit_operations_syntax

section \<open>Prelude: machine types, errors, bit slices and list lemmas\<close>

text \<open>
  Shared vocabulary of the development: the C integer types, the errno values the driver
  returns, the bit-slice operations the register and descriptor models are written with,
  and the generic lemmas on words and lists that the component theories use.
  A C function that returns an \<open>int\<close> error code is modelled with an \<open>int\<close> result
  (0 is success, a negative value an errno). \<open>unsigned int\<close> and \<open>u32\<close> are
  \<open>32 word\<close>, so that additions and subtractions wrap as they do in C.
\<close>

type_synonym u8 = "8 word"
type_synonym u16 = "16 word"
type_synonym u32 = "32 word"
type_synonym u64 = "64 word"

named_theorems hw_simps \<open>unfolding of register access functions\<close>

subsection \<open>Error numbers\<close>

definition ENOENT :: int where "ENOENT = 2"
definition EIO :: int where "EIO = 5"
definition ENXIO :: int where "ENXIO = 6"
definition ENOMEM :: int where "ENOMEM = 12"
definition EEXIST :: int where "EEXIST = 17"
definition EINVAL :: int where "EINVAL = 22"
definition EBADRQC :: int where "EBADRQC = 56"
definition ETIME :: int where "ETIME = 62"
definition EMSGSIZE :: int where "EMSGSIZE = 90"
definition EOPNOTSUPP :: int where "EOPNOTSUPP = 95"

lemmas errno_defs = ENOENT_def EIO_def ENXIO_def ENOMEM_def EEXIST_def EINVAL_def
  EBADRQC_def ETIME_def EMSGSIZE_def EOPNOTSUPP_def

text \<open>The kernel's \<open>BIT(n)\<close> and the C operator \<open>!!\<close> on a 32-bit value.\<close>

definition BIT :: "nat \<Rightarrow> u32" where
  "BIT n = push_bit n 1"

definition of_flag :: "bool \<Rightarrow> 'a::len word" where
  "of_flag b = (if b then 1 else 0)"

lemma of_flag_simps [simp]: "of_flag True = 1" "of_flag False = 0"
  by (simp_all add: of_flag_def)

lemma of_flag_eq_0_iff [simp]: "of_flag b = (0::'a::len word) \<longleftrightarrow> \<not> b"
  by (simp add: of_flag_def)

subsection \<open>Bit slices\<close>

text \<open>
  \<open>slice_get p n w\<close> is the \<open>n\<close> bits of \<open>w\<close> from bit \<open>p\<close> up;
  \<open>slice_set p n v w\<close> is \<open>w\<close> with that slice replaced by the low bits of \<open>v\<close>.
\<close>

definition slice_get :: "nat \<Rightarrow> nat \<Rightarrow> 'a::len word \<Rightarrow> 'a word" where
  "slice_get p n w = take_bit n (drop_bit p w)"

definition slice_set :: "nat \<Rightarrow> nat \<Rightarrow> 'a::len word \<Rightarrow> 'a word \<Rightarrow> 'a word" where
  "slice_set p n v w = (w AND NOT (push_bit p (mask n))) OR push_bit p (take_bit n v)"

lemma bit_slice_get: "bit (slice_get p n w) k \<longleftrightarrow> k < n \<and> bit w (p + k)"
  by (auto simp: slice_get_def bit_take_bit_iff bit_drop_bit_eq)

lemma bit_slice_set:
  fixes w :: "'a::len word"
  shows "bit (slice_set p n v w) k \<longleftrightarrow>
    k < LENGTH('a) \<and> (if p \<le> k \<and> k < p + n then bit v (k - p) else bit w k)"
  by (auto simp: slice_set_def bit_or_iff bit_and_iff bit_not_iff bit_push_bit_iff
      bit_take_bit_iff bit_mask_iff dest: bit_imp_le_length)

lemma slice_get_set_same:
  fixes w :: "'a::len word"
  assumes "p + n \<le> LENGTH('a)"
  shows "slice_get p n (slice_set p n v w) = take_bit n v"
  using assms by (intro bit_word_eqI) (auto simp: bit_slice_get bit_slice_set bit_take_bit_iff)

lemma slice_get_set_disjoint:
  fixes w :: "'a::len word"
  assumes "p + n \<le> q \<or> q + m \<le> p"
  shows "slice_get p n (slice_set q m v w) = slice_get p n w"
  using assms
  by (intro bit_word_eqI) (auto simp: bit_slice_get bit_slice_set dest: bit_imp_le_length)

lemma push_bit_mask_disjoint:
  fixes v w :: "'a::len word"
  assumes "v AND m = v" "w AND NOT m = w"
  shows "(v OR w) AND m = v" and "(v OR w) AND NOT m = w"
proof -
  have v: "\<And>k. bit v k \<Longrightarrow> bit m k"
    using assms(1) by (metis bit_and_iff)
  have w: "\<And>k. bit w k \<Longrightarrow> \<not> bit m k"
    using assms(2) by (metis bit_and_iff bit_not_iff)
  show "(v OR w) AND m = v"
    using v w by (intro bit_word_eqI) (auto simp: bit_and_iff bit_or_iff)
  show "(v OR w) AND NOT m = w"
    using v w by (intro bit_word_eqI) (auto simp: bit_and_iff bit_or_iff bit_not_iff)
qed

lemma unat_u32_less: "unat (w :: u32) < 4294967296"
  using unsigned_less [of w] by simp

lemma unat_u16_less: "unat (w :: u16) < 65536"
  using unsigned_less [of w] by simp

lemma unat_u8_less: "unat (w :: u8) < 256"
  using unsigned_less [of w] by simp

text \<open>Distances around a circle of \<open>n\<close> places.\<close>

lemma circ_split:
  fixes a b c n :: nat
  assumes "a < n" "b < n" "c < n"
    and "(if a \<le> b then b - a else b + n - a) \<le> (if a \<le> c then c - a else c + n - a)"
  shows "(if b \<le> c then c - b else c + n - b) =
    (if a \<le> c then c - a else c + n - a) - (if a \<le> b then b - a else b + n - a)"
  using assms by (cases "a \<le> b"; cases "a \<le> c"; cases "b \<le> c") simp_all

subsection \<open>Lists\<close>

lemma length_foldl_update:
  "length (foldl (\<lambda>xs i. xs[i := f i]) ys is) = length ys"
  by (induction "is" arbitrary: ys) auto

end
