(* ===== verification/Hw_Access.thy ===== *)
theory Hw_Access
  imports Prelude "HOL-Library.Monad_Syntax"
begin

section \<open>Register access (aq_hw_utils.c, aq_hw_utils.h, aq_utils.h, aq_hw.h, aq_nic.h)\<close>

text \<open>
  The hardware context \<open>aq_hw_s\<close>, its status flags, and the functions every hardware
  access of the driver goes through: \<open>aq_hw_read_reg\<close>, \<open>aq_hw_write_reg\<close>,
  their bit-field variants, \<open>aq_hw_err_from_flags\<close> and the polling macro
  \<open>AQ_HW_WAIT_FOR\<close>.

  The chip itself is not part of the sources, so it is a parameter of the model: a value of
  the codatatype \<open>device\<close>, any object that answers a 32-bit read at an offset, and that
  may change at every read and every write. \<open>reg_file\<close> is the particular device that
  behaves as plain memory; theorems about what a register holds are stated for it, theorems
  about error flags, polling and the sequence of writes hold for every device.
  \<open>hw_log\<close> is a ghost field: the register writes issued so far, oldest first.
\<close>

codatatype device =
  Device (dev_val: "u32 \<Rightarrow> u32") (dev_read: "u32 \<Rightarrow> device") (dev_write: "u32 \<Rightarrow> u32 \<Rightarrow> device")

primcorec reg_file :: "(u32 \<Rightarrow> u32) \<Rightarrow> device" where
  "dev_val (reg_file regs) = regs"
| "dev_read (reg_file regs) = (\<lambda>a. reg_file regs)"
| "dev_write (reg_file regs) = (\<lambda>a v. reg_file (regs(a := v)))"

subsection \<open>Constants\<close>

definition AQ_HW_FLAG_STARTED :: u32 where "AQ_HW_FLAG_STARTED = 0x00000004"
definition AQ_HW_FLAG_STOPPING :: u32 where "AQ_HW_FLAG_STOPPING = 0x00000008"
definition AQ_HW_FLAG_RESETTING :: u32 where "AQ_HW_FLAG_RESETTING = 0x00000010"
definition AQ_HW_FLAG_CLOSING :: u32 where "AQ_HW_FLAG_CLOSING = 0x00000020"
definition AQ_HW_PTP_AVAILABLE :: u32 where "AQ_HW_PTP_AVAILABLE = 0x01000000"
definition AQ_HW_PTP_DPATH_UP :: u32 where "AQ_HW_PTP_DPATH_UP = 0x02000000"
definition AQ_HW_LINK_DOWN :: u32 where "AQ_HW_LINK_DOWN = 0x04000000"
definition AQ_HW_FLAG_ERR_UNPLUG :: u32 where "AQ_HW_FLAG_ERR_UNPLUG = 0x40000000"
definition AQ_HW_FLAG_ERR_HW :: u32 where "AQ_HW_FLAG_ERR_HW = 0x80000000"

definition AQ_CFG_RX_FRAME_MAX :: u32 where "AQ_CFG_RX_FRAME_MAX = 2 * 1024"
definition AQ_CFG_TX_FRAME_MAX :: u32 where "AQ_CFG_TX_FRAME_MAX = 16 * 1024"
definition AQ_CFG_TX_CLEAN_BUDGET :: u32 where "AQ_CFG_TX_CLEAN_BUDGET = 256"
definition AQ_CFG_SKB_FRAGS_MAX :: u32 where "AQ_CFG_SKB_FRAGS_MAX = 32"
definition AQ_CFG_RESTART_DESC_THRES :: u32 where
  "AQ_CFG_RESTART_DESC_THRES = AQ_CFG_SKB_FRAGS_MAX * 2"
definition AQ_CFG_TCS_MAX :: u32 where "AQ_CFG_TCS_MAX = 8"
definition AQ_CFG_VECS_DEF :: u32 where "AQ_CFG_VECS_DEF = 8"
definition AQ_CFG_NUM_RSS_QUEUES_DEF :: u32 where "AQ_CFG_NUM_RSS_QUEUES_DEF = AQ_CFG_VECS_DEF"
definition AQ_CFG_RSS_INDIRECTION_TABLE_MAX :: nat where "AQ_CFG_RSS_INDIRECTION_TABLE_MAX = 64"

subsection \<open>State\<close>

record aq_hw_caps_s =
  caps_hw_features :: u64
  caps_link_speed_msk :: u64
  caps_hw_priv_flags :: u32
  caps_media_type :: u32
  caps_rxds_max :: u32
  caps_txds_max :: u32
  caps_rxds_min :: u32
  caps_txds_min :: u32
  caps_txhwb_alignment :: u32
  caps_irq_mask :: u32
  caps_vecs :: u32
  caps_mtu :: u32
  caps_mac_regs_count :: u32
  caps_hw_alive_check_addr :: u32
  caps_msix_irqs :: u8
  caps_tcs :: u8
  caps_rxd_alignment :: u8
  caps_rxd_size :: u8
  caps_txd_alignment :: u8
  caps_txd_size :: u8
  caps_tx_rings :: u8
  caps_rx_rings :: u8
  caps_flow_control :: bool
  caps_is_64_dma :: bool
  caps_quirks :: u32

record aq_rss_parameters =
  base_cpu_number :: u16
  indirection_table_size :: u16
  hash_secret_key_size :: u16
  hash_secret_key :: "u32 list"
  indirection_table :: "u8 list"

record aq_nic_cfg_s =
  aq_hw_caps :: aq_hw_caps_s
  features :: u64
  rxds :: u32
  txds :: u32
  vecs :: u32
  link_irq_vec :: u32
  irq_type :: u32
  itr :: u32
  rx_itr :: u16
  tx_itr :: u16
  rxpageorder :: u32
  num_rss_queues :: u32
  mtu :: u32
  flow_control :: u32
  link_speed_msk :: u32
  wol :: u32
  is_vlan_rx_strip :: bool
  is_vlan_tx_insert :: bool
  is_mc_list_enabled :: u16
  mc_list_count :: u16
  is_autoneg :: bool
  is_polling :: bool
  is_rss :: bool
  is_lro :: bool
  test_loopback :: u32
  tcs :: u8
  eee_speeds :: u32
  aq_rss :: aq_rss_parameters

text \<open>The statistics of the firmware's mailbox, and those the driver keeps.\<close>

record hw_atl_stats_s =
  hs_uprc :: u32
  hs_mprc :: u32
  hs_bprc :: u32
  hs_erpt :: u32
  hs_uptc :: u32
  hs_mptc :: u32
  hs_bptc :: u32
  hs_erpr :: u32
  hs_mbtc :: u32
  hs_bbtc :: u32
  hs_mbrc :: u32
  hs_bbrc :: u32
  hs_ubrc :: u32
  hs_ubtc :: u32
  hs_dpc :: u32

record aq_stats_s =
  cs_uprc :: u64
  cs_mprc :: u64
  cs_bprc :: u64
  cs_erpt :: u64
  cs_uptc :: u64
  cs_mptc :: u64
  cs_bptc :: u64
  cs_erpr :: u64
  cs_mbtc :: u64
  cs_bbtc :: u64
  cs_mbrc :: u64
  cs_bbrc :: u64
  cs_ubrc :: u64
  cs_ubtc :: u64
  cs_dpc :: u64
  cs_dma_pkt_rc :: u64
  cs_dma_pkt_tc :: u64
  cs_dma_oct_rc :: u64
  cs_dma_oct_tc :: u64

text \<open>
  The two tables of firmware operations a card can have; \<open>aq_fw_ops\<close> is the pointer to
  one of them, NULL before \<open>hw_atl_utils_initfw\<close>.
\<close>

datatype fw_table = aq_fw_1x_ops | aq_fw_2x_ops

record aq_hw_s =
  flags :: u32
  mmio :: device
  aq_nic_cfg :: aq_nic_cfg_s
  link_mbps :: u32
  chip_features :: u32
  dpc :: u32
  phy_id :: u16
  rbl_enabled :: bool
  fast_start_enabled :: bool
  aq_fw_ops :: "fw_table option"
  fw_ver_actual :: u32
  mbox_addr :: u32
  rpc_addr :: u32
  rpc_tid :: u32
  fw_rpc :: "u32 list"
  last_stats :: hw_atl_stats_s
  curr_stats :: aq_stats_s
  hw_log :: "(u32 \<times> u32) list"

subsection \<open>Flags (aq_utils.h)\<close>

text \<open>
  The compare-and-swap loops of aq_utils.h run here without a concurrent writer, so the
  first exchange succeeds.
\<close>

definition aq_utils_obj_set :: "u32 \<Rightarrow> aq_hw_s \<Rightarrow> aq_hw_s" where
  "aq_utils_obj_set msk hw = hw\<lparr>flags := flags hw OR msk\<rparr>"

definition aq_utils_obj_clear :: "u32 \<Rightarrow> aq_hw_s \<Rightarrow> aq_hw_s" where
  "aq_utils_obj_clear msk hw = hw\<lparr>flags := flags hw AND NOT msk\<rparr>"

definition aq_utils_obj_test :: "aq_hw_s \<Rightarrow> u32 \<Rightarrow> bool" where
  "aq_utils_obj_test hw msk \<longleftrightarrow> flags hw AND msk \<noteq> 0"

subsection \<open>Register access (aq_hw_utils.c)\<close>

definition readl :: "aq_hw_s \<Rightarrow> u32 \<Rightarrow> u32 \<times> aq_hw_s" where
  "readl hw reg = (dev_val (mmio hw) reg, hw\<lparr>mmio := dev_read (mmio hw) reg\<rparr>)"

definition writel :: "aq_hw_s \<Rightarrow> u32 \<Rightarrow> u32 \<Rightarrow> aq_hw_s" where
  "writel hw reg v = hw\<lparr>mmio := dev_write (mmio hw) reg v, hw_log := hw_log hw @ [(reg, v)]\<rparr>"

definition aq_hw_read_reg :: "aq_hw_s \<Rightarrow> u32 \<Rightarrow> u32 \<times> aq_hw_s" where
  "aq_hw_read_reg hw reg =
     (let (v, hw) = readl hw reg in
      if v = NOT 0
      then let (alive, hw) = readl hw (caps_hw_alive_check_addr (aq_hw_caps (aq_nic_cfg hw)))
           in (v, if alive = NOT 0 then aq_utils_obj_set AQ_HW_FLAG_ERR_UNPLUG hw else hw)
      else (v, hw))"

definition aq_hw_write_reg :: "aq_hw_s \<Rightarrow> u32 \<Rightarrow> u32 \<Rightarrow> aq_hw_s" where
  "aq_hw_write_reg hw reg v = writel hw reg v"

declare readl_def [hw_simps] writel_def [hw_simps]
  aq_hw_read_reg_def [hw_simps] aq_hw_write_reg_def [hw_simps]

text \<open>
  A shift amount of the C code is below 32 in every call, so \<open>push_bit\<close> and
  \<open>drop_bit\<close> are C's shifts of a 32-bit value. The new value is not masked: bits of
  \<open>val\<close> beyond the field's width spill into the neighbouring fields.
\<close>

definition aq_hw_write_reg_bit :: "aq_hw_s \<Rightarrow> u32 \<Rightarrow> u32 \<Rightarrow> nat \<Rightarrow> u32 \<Rightarrow> aq_hw_s" where
  "aq_hw_write_reg_bit hw addr msk shift val =
     (if msk XOR NOT 0 \<noteq> 0
      then let (reg_old, hw) = aq_hw_read_reg hw addr;
               reg_new = (reg_old AND NOT msk) OR push_bit shift val
           in if reg_old \<noteq> reg_new then aq_hw_write_reg hw addr reg_new else hw
      else aq_hw_write_reg hw addr val)"

definition aq_hw_read_reg_bit :: "aq_hw_s \<Rightarrow> u32 \<Rightarrow> u32 \<Rightarrow> nat \<Rightarrow> u32 \<times> aq_hw_s" where
  "aq_hw_read_reg_bit hw addr msk shift =
     (let (v, hw) = aq_hw_read_reg hw addr in (drop_bit shift (v AND msk), hw))"

definition aq_hw_err_from_flags :: "aq_hw_s \<Rightarrow> int" where
  "aq_hw_err_from_flags hw =
     (if aq_utils_obj_test hw AQ_HW_FLAG_ERR_UNPLUG then - ENXIO
      else if aq_utils_obj_test hw AQ_HW_FLAG_ERR_HW then - EIO
      else 0)"

text \<open>
  \<open>AQ_HW_WAIT_FOR(_B_, _US_, _N_)\<close>: the condition is evaluated before the counter is
  tested, so it is polled up to \<open>N + 1\<close> times, and the result says whether the macro sets
  \<open>err = -ETIME\<close>: the counter is 0, whatever the last poll said.
\<close>

fun AQ_HW_WAIT_FOR :: "('s \<Rightarrow> bool \<times> 's) \<Rightarrow> nat \<Rightarrow> 's \<Rightarrow> bool \<times> 's" where
  "AQ_HW_WAIT_FOR B 0 s = (True, snd (B s))"
| "AQ_HW_WAIT_FOR B (Suc i) s =
     (let (b, s') = B s in if b then (False, s') else AQ_HW_WAIT_FOR B i s')"


subsection \<open>What an access leaves unchanged, for every device\<close>

text \<open>
  A register access changes the device, the ghost log and (a read only) the unplug flag;
  \<open>same_sw\<close> says that everything else of the context is as it was.
\<close>

definition same_sw :: "aq_hw_s \<Rightarrow> aq_hw_s \<Rightarrow> bool" where
  "same_sw hw hw' \<longleftrightarrow> aq_nic_cfg hw' = aq_nic_cfg hw \<and> link_mbps hw' = link_mbps hw \<and>
     chip_features hw' = chip_features hw \<and> dpc hw' = dpc hw \<and> phy_id hw' = phy_id hw \<and>
     aq_fw_ops hw' = aq_fw_ops hw \<and> fw_ver_actual hw' = fw_ver_actual hw \<and>
     mbox_addr hw' = mbox_addr hw \<and> rpc_addr hw' = rpc_addr hw \<and> rpc_tid hw' = rpc_tid hw \<and>
     fw_rpc hw' = fw_rpc hw \<and> last_stats hw' = last_stats hw \<and> curr_stats hw' = curr_stats hw \<and>
     (flags hw' = flags hw \<or> flags hw' = flags hw OR AQ_HW_FLAG_ERR_UNPLUG)"

lemma same_sw_refl [simp, intro]: "same_sw hw hw"
  by (simp add: same_sw_def)

lemma same_sw_trans [trans]: "same_sw a b \<Longrightarrow> same_sw b c \<Longrightarrow> same_sw a c"
  by (auto simp: same_sw_def or.assoc)

lemma same_sw_readl [simp]: "same_sw hw (snd (readl hw reg))"
  by (simp add: same_sw_def readl_def)

lemma same_sw_read_reg [simp]: "same_sw hw (snd (aq_hw_read_reg hw reg))"
  by (simp add: hw_simps aq_utils_obj_set_def same_sw_def Let_def)

lemma same_sw_write_reg [simp]: "same_sw hw (aq_hw_write_reg hw reg v)"
  by (simp add: hw_simps same_sw_def)

lemma same_sw_read_reg_bit [simp]: "same_sw hw (snd (aq_hw_read_reg_bit hw a m s))"
  by (simp add: aq_hw_read_reg_bit_def split_beta)

lemma same_sw_write_reg_bit [simp]: "same_sw hw (aq_hw_write_reg_bit hw a m s v)"
proof -
  have "same_sw hw (aq_hw_write_reg (snd (aq_hw_read_reg hw a)) a w)" for w
    by (rule same_sw_trans [OF same_sw_read_reg same_sw_write_reg])
  then show ?thesis
    by (simp add: aq_hw_write_reg_bit_def split_beta Let_def)
qed

lemma same_sw_cfg: "same_sw hw hw' \<Longrightarrow> aq_nic_cfg hw' = aq_nic_cfg hw"
  by (simp add: same_sw_def)

lemma err_from_flags_range: "aq_hw_err_from_flags hw \<in> {0, - EIO, - ENXIO}"
  by (simp add: aq_hw_err_from_flags_def)

text \<open>An error once flagged stays reported, whatever the driver does with registers.\<close>

lemma obj_test_mono:
  assumes "same_sw hw hw'" "aq_utils_obj_test hw m"
  shows "aq_utils_obj_test hw' m"
proof -
  obtain k where k: "bit (flags hw AND m) k"
    using assms(2) by (auto simp: aq_utils_obj_test_def bit_eq_iff)
  then have "bit (flags hw' AND m) k"
    using assms(1) by (auto simp: same_sw_def bit_and_iff bit_or_iff)
  then show ?thesis by (auto simp: aq_utils_obj_test_def)
qed

lemma err_from_flags_sticky:
  "same_sw hw hw' \<Longrightarrow> aq_hw_err_from_flags hw \<noteq> 0 \<Longrightarrow> aq_hw_err_from_flags hw' \<noteq> 0"
  by (auto simp: aq_hw_err_from_flags_def errno_defs dest: obj_test_mono split: if_splits)

subsection \<open>The device as a register file\<close>

definition regs :: "aq_hw_s \<Rightarrow> u32 \<Rightarrow> u32" where
  "regs hw = dev_val (mmio hw)"

text \<open>
  \<open>plain_hw\<close>: the chip holds what was written to it and answers its alive-check
  register, so no read can look like an unplugged card.
\<close>

definition alive_adr :: "aq_hw_s \<Rightarrow> u32" where
  "alive_adr hw = caps_hw_alive_check_addr (aq_hw_caps (aq_nic_cfg hw))"

definition plain_hw :: "aq_hw_s \<Rightarrow> bool" where
  "plain_hw hw \<longleftrightarrow> mmio hw = reg_file (regs hw) \<and> regs hw (alive_adr hw) \<noteq> NOT 0"

lemma plain_read_reg: "plain_hw hw \<Longrightarrow> aq_hw_read_reg hw a = (regs hw a, hw)"
proof -
  assume p: "plain_hw hw"
  have "dev_read (mmio hw) b = mmio hw" for b
    using p by (metis plain_hw_def reg_file.sel(2))
  then show ?thesis
    using p by (simp add: hw_simps regs_def plain_hw_def alive_adr_def Let_def)
qed

lemma plain_write_reg:
  assumes "plain_hw hw"
  shows "regs (aq_hw_write_reg hw a v) = (regs hw)(a := v)"
    and "a \<noteq> alive_adr hw \<or> v \<noteq> NOT 0 \<Longrightarrow> plain_hw (aq_hw_write_reg hw a v)"
    and "alive_adr (aq_hw_write_reg hw a v) = alive_adr hw"
proof -
  have d: "dev_write (mmio hw) a v = reg_file ((regs hw)(a := v))"
    using assms by (metis plain_hw_def reg_file.sel(3))
  then show r: "regs (aq_hw_write_reg hw a v) = (regs hw)(a := v)"
    by (simp add: regs_def aq_hw_write_reg_def writel_def)
  show al: "alive_adr (aq_hw_write_reg hw a v) = alive_adr hw"
    by (simp add: alive_adr_def aq_hw_write_reg_def writel_def)
  have "mmio (aq_hw_write_reg hw a v) = reg_file ((regs hw)(a := v))"
    using d by (simp add: hw_simps)
  then show "a \<noteq> alive_adr hw \<or> v \<noteq> NOT 0 \<Longrightarrow> plain_hw (aq_hw_write_reg hw a v)"
    using assms r al by (auto simp: plain_hw_def)
qed

lemma plain_read_reg_bit:
  "plain_hw hw \<Longrightarrow> aq_hw_read_reg_bit hw a m s = (drop_bit s (regs hw a AND m), hw)"
  by (simp add: aq_hw_read_reg_bit_def plain_read_reg)

lemma plain_write_reg_bit:
  assumes "plain_hw hw" "m = NOT 0 \<Longrightarrow> s = 0"
  shows "regs (aq_hw_write_reg_bit hw a m s v) =
    (regs hw)(a := (regs hw a AND NOT m) OR push_bit s v)"
proof (cases "m = NOT 0")
  case True
  then show ?thesis
    using assms by (simp add: aq_hw_write_reg_bit_def plain_write_reg)
next
  case False
  then have "NOT m \<noteq> 0" by (metis bit.compl_zero bit.double_compl)
  then show ?thesis
    using assms(1) by (auto simp: aq_hw_write_reg_bit_def plain_read_reg plain_write_reg Let_def)
qed

lemma plain_write_reg_bit_inv:
  assumes "plain_hw hw" "a \<noteq> alive_adr hw"
  shows "plain_hw (aq_hw_write_reg_bit hw a m s v)"
    and "alive_adr (aq_hw_write_reg_bit hw a m s v) = alive_adr hw"
  using assms by (auto simp: aq_hw_write_reg_bit_def plain_read_reg plain_write_reg Let_def)

subsection \<open>Register banks as an interface\<close>

text \<open>
  What the register definitions need of the access layer: reads that return the register
  and change nothing, writes that replace one register, bit-field writes that replace the
  masked bits of one register. \<open>ok a\<close> are the registers the client may write.
\<close>

locale reg_bank =
  fixes rd :: "'s \<Rightarrow> u32 \<Rightarrow> u32 \<times> 's"
    and rdb :: "'s \<Rightarrow> u32 \<Rightarrow> u32 \<Rightarrow> nat \<Rightarrow> u32 \<times> 's"
    and wr :: "'s \<Rightarrow> u32 \<Rightarrow> u32 \<Rightarrow> 's"
    and wrb :: "'s \<Rightarrow> u32 \<Rightarrow> u32 \<Rightarrow> nat \<Rightarrow> u32 \<Rightarrow> 's"
    and contents :: "'s \<Rightarrow> u32 \<Rightarrow> u32"
    and good :: "'s \<Rightarrow> bool"
    and ok :: "'s \<Rightarrow> u32 \<Rightarrow> bool"
  assumes rd: "good s \<Longrightarrow> rd s a = (contents s a, s)"
    and rdb: "good s \<Longrightarrow> rdb s a m sh = (drop_bit sh (contents s a AND m), s)"
    and wr: "good s \<Longrightarrow> ok s a \<Longrightarrow> contents (wr s a v) = (contents s)(a := v)"
    and wrb: "good s \<Longrightarrow> ok s a \<Longrightarrow> (m = NOT 0 \<Longrightarrow> sh = 0) \<Longrightarrow>
      contents (wrb s a m sh v) = (contents s)(a := (contents s a AND NOT m) OR push_bit sh v)"
    and good_wr: "good s \<Longrightarrow> ok s a \<Longrightarrow> good (wr s a v)"
    and good_wrb: "good s \<Longrightarrow> ok s a \<Longrightarrow> good (wrb s a m sh v)"
    and ok_wr: "ok s a \<Longrightarrow> good s \<Longrightarrow> ok (wr s a v) b = ok s b"
    and ok_wrb: "ok s a \<Longrightarrow> good s \<Longrightarrow> ok (wrb s a m sh v) b = ok s b"
begin

text \<open>A value fits a field when shifting it into place keeps it under the mask.\<close>

lemma field_readback:
  assumes "good s" "ok s a" "m = NOT 0 \<Longrightarrow> sh = 0"
    and fit: "push_bit sh v AND m = push_bit sh v" "drop_bit sh (push_bit sh v) = v"
  shows "fst (rdb (wrb s a m sh v) a m sh) = v"
proof -
  have "((contents s a AND NOT m) OR push_bit sh v) AND m = push_bit sh v"
    using fit(1) by (metis (no_types, lifting) and.assoc and.right_neutral and_zero_eq
        bit.conj_cancel_left bit.conj_disj_distrib2 or.left_neutral)
  then show ?thesis
    using assms by (simp add: rdb good_wrb wrb)
qed

lemma field_frame:
  assumes "good s" "ok s a" "m = NOT 0 \<Longrightarrow> sh = 0"
    and "push_bit sh v AND m = push_bit sh v" and "m AND m' = 0 \<or> a' \<noteq> a"
  shows "fst (rdb (wrb s a m sh v) a' m' sh') = fst (rdb s a' m' sh')"
proof -
  have "bit (push_bit sh v) k \<Longrightarrow> bit m k" for k
    using assms(4) by (metis bit_and_iff)
  moreover have "m AND m' = 0 \<Longrightarrow> bit m k \<Longrightarrow> \<not> bit m' k" for k
    by (metis bit_0_eq bit_and_iff bot_apply bot_bool_def)
  ultimately have "a' = a \<Longrightarrow> ((contents s a AND NOT m) OR push_bit sh v) AND m' = contents s a AND m'"
    using assms(5) by (intro bit_word_eqI) (auto simp: bit_and_iff bit_or_iff bit_not_iff)
  then show ?thesis
    using assms by (cases "a' = a") (auto simp: rdb good_wrb wrb simp del: drop_bit_and)
qed

end

interpretation hw: reg_bank aq_hw_read_reg aq_hw_read_reg_bit aq_hw_write_reg aq_hw_write_reg_bit
  regs plain_hw "\<lambda>hw a. a \<noteq> alive_adr hw"
  by unfold_locales
    (auto simp: plain_read_reg plain_read_reg_bit plain_write_reg plain_write_reg_bit
      plain_write_reg_bit_inv)

subsection \<open>Polling\<close>

definition polls :: "('s \<Rightarrow> bool \<times> 's) \<Rightarrow> nat \<Rightarrow> 's \<Rightarrow> 's" where
  "polls B k = (\<lambda>s. snd (B s)) ^^ k"

lemma polls_0 [simp]: "polls B 0 s = s"
  by (simp add: polls_def)

lemma polls_Suc: "polls B (Suc k) s = polls B k (snd (B s))"
  unfolding polls_def by (simp only: funpow_Suc_right o_apply)

lemma wait_for_ok_iff: "\<not> fst (AQ_HW_WAIT_FOR B n s) \<longleftrightarrow> (\<exists>k<n. fst (B (polls B k s)))"
proof (induction n arbitrary: s)
  case 0
  then show ?case by simp
next
  case (Suc n)
  have "(\<exists>k<Suc n. fst (B (polls B k s))) \<longleftrightarrow>
    fst (B s) \<or> (\<exists>k<n. fst (B (polls B k (snd (B s)))))"
    by (auto simp: less_Suc_eq_0_disj polls_Suc)
  then show ?case using Suc.IH[of "snd (B s)"] by (simp add: split_beta Let_def)
qed

lemma wait_for_polls: "\<exists>k\<le>Suc n. snd (AQ_HW_WAIT_FOR B n s) = polls B k s"
proof (induction n arbitrary: s)
  case 0
  have "snd (AQ_HW_WAIT_FOR B 0 s) = polls B 1 s" by (simp add: polls_Suc)
  then show ?case by auto
next
  case (Suc n)
  obtain k where k: "k \<le> Suc n" "snd (AQ_HW_WAIT_FOR B n (snd (B s))) = polls B (Suc k) s"
    using Suc.IH[of "snd (B s)"] by (auto simp: polls_Suc)
  have "snd (AQ_HW_WAIT_FOR B (Suc n) s) = (if fst (B s) then polls B 1 s else polls B (Suc k) s)"
    using k(2) by (simp add: split_beta Let_def polls_Suc)
  then show ?case using k(1) by (metis Suc_le_mono le_SucI le_add1 plus_1_eq_Suc)
qed

lemma same_sw_wait_for:
  assumes "\<And>s. same_sw s (snd (B s))"
  shows "same_sw s (snd (AQ_HW_WAIT_FOR B n s))"
proof (induction n arbitrary: s)
  case 0
  then show ?case using assms by simp
next
  case (Suc n)
  have "same_sw s (snd (AQ_HW_WAIT_FOR B n (snd (B s))))"
    by (rule same_sw_trans [OF assms Suc.IH])
  then show ?case using assms by (simp add: split_beta Let_def)
qed

end
