(* ===== verification/Llh_Regs.thy ===== *)
theory Llh_Regs
  imports Hw_Access
begin

section \<open>The register map (hw_atl_llh_internal.h)\<close>

text \<open>
  Every bit-field of the header as a value of \<open>reg_field\<close>: the address of instance 0 and
  the stride of the \<open>_ADR\<close> macro, the number of instances its comment documents
  (\<open>None\<close> where no range is given), and the \<open>_MSK\<close>, \<open>_MSKN\<close>, \<open>_SHIFT\<close>,
  \<open>_WIDTH\<close> and \<open>_DEFAULT\<close> macros (\<open>None\<close> where the header has none). Whole
  registers are plain addresses. The last part shows that the header is consistent: every
  mask is the contiguous mask its width and shift describe, inverted masks are complements,
  and two fields of one register either are the same field under two names or are disjoint.
\<close>

record reg_field =
  fld_base :: u32
  fld_stride :: u32
  fld_count :: "nat option"
  fld_msk :: u32
  fld_mskn :: "u32 option"
  fld_shift :: nat
  fld_width :: "nat option"
  fld_dflt :: "nat option"

definition fld_adr :: "reg_field \<Rightarrow> u32 \<Rightarrow> u32" where
  "fld_adr f i = fld_base f + i * fld_stride f"

subsection \<open>Whole registers\<close>

definition HW_ATL_STATS_RX_DMA_GOOD_OCTET_COUNTERLSW :: u32 where
  "HW_ATL_STATS_RX_DMA_GOOD_OCTET_COUNTERLSW = 0x00006808"

definition HW_ATL_STATS_RX_DMA_GOOD_PKT_COUNTERLSW :: u32 where
  "HW_ATL_STATS_RX_DMA_GOOD_PKT_COUNTERLSW = 0x00006800"

definition HW_ATL_STATS_TX_DMA_GOOD_OCTET_COUNTERLSW :: u32 where
  "HW_ATL_STATS_TX_DMA_GOOD_OCTET_COUNTERLSW = 0x00008808"

definition HW_ATL_STATS_TX_DMA_GOOD_PKT_COUNTERLSW :: u32 where
  "HW_ATL_STATS_TX_DMA_GOOD_PKT_COUNTERLSW = 0x00008800"

definition HW_ATL_STATS_RX_DMA_GOOD_OCTET_COUNTERMSW :: u32 where
  "HW_ATL_STATS_RX_DMA_GOOD_OCTET_COUNTERMSW = 0x0000680c"

definition HW_ATL_STATS_RX_DMA_GOOD_PKT_COUNTERMSW :: u32 where
  "HW_ATL_STATS_RX_DMA_GOOD_PKT_COUNTERMSW = 0x00006804"

definition HW_ATL_STATS_TX_DMA_GOOD_OCTET_COUNTERMSW :: u32 where
  "HW_ATL_STATS_TX_DMA_GOOD_OCTET_COUNTERMSW = 0x0000880c"

definition HW_ATL_STATS_TX_DMA_GOOD_PKT_COUNTERMSW :: u32 where
  "HW_ATL_STATS_TX_DMA_GOOD_PKT_COUNTERMSW = 0x00008804"

definition HW_ATL_GLB_CPU_SEM_ADR :: "u32 \<Rightarrow> u32" where
  "HW_ATL_GLB_CPU_SEM_ADR semaphore = 0x000003a0 + semaphore * 0x4"

definition HW_ATL_MAC_MSM_RX_ERRS_CNT_ADR :: u32 where
  "HW_ATL_MAC_MSM_RX_ERRS_CNT_ADR = 0x00000120"

definition HW_ATL_MAC_MSM_TX_LPI_DELAY_ADR :: u32 where
  "HW_ATL_MAC_MSM_TX_LPI_DELAY_ADR = 0x00000078"

definition HW_ATL_MAC_MSM_RX_UCST_FRM_CNT_ADR :: u32 where
  "HW_ATL_MAC_MSM_RX_UCST_FRM_CNT_ADR = 0x000000e0"

definition HW_ATL_MAC_MSM_RX_MCST_FRM_CNT_ADR :: u32 where
  "HW_ATL_MAC_MSM_RX_MCST_FRM_CNT_ADR = 0x000000e8"

definition HW_ATL_MAC_MSM_RX_BCST_FRM_CNT_ADR :: u32 where
  "HW_ATL_MAC_MSM_RX_BCST_FRM_CNT_ADR = 0x000000f0"

definition HW_ATL_MAC_MSM_RX_BCST_OCTETS_COUNTER1_ADR :: u32 where
  "HW_ATL_MAC_MSM_RX_BCST_OCTETS_COUNTER1_ADR = 0x000001b0"

definition HW_ATL_MAC_MSM_RX_BCST_OCTETS_COUNTER2_ADR :: u32 where
  "HW_ATL_MAC_MSM_RX_BCST_OCTETS_COUNTER2_ADR = 0x000001b4"

definition HW_ATL_MAC_MSM_RX_UCST_OCTETS_COUNTER0_ADR :: u32 where
  "HW_ATL_MAC_MSM_RX_UCST_OCTETS_COUNTER0_ADR = 0x000001b8"

definition HW_ATL_MAC_MSM_TX_UCST_FRM_CNT_ADR :: u32 where
  "HW_ATL_MAC_MSM_TX_UCST_FRM_CNT_ADR = 0x00000108"

definition HW_ATL_MAC_MSM_TX_MCST_FRM_CNT_ADR :: u32 where
  "HW_ATL_MAC_MSM_TX_MCST_FRM_CNT_ADR = 0x00000110"

definition HW_ATL_GLB_MIF_ID_ADR :: u32 where
  "HW_ATL_GLB_MIF_ID_ADR = 0x0000001c"

definition HW_ATL_ITR_IAMRLSW_ADR :: u32 where
  "HW_ATL_ITR_IAMRLSW_ADR = 0x00002090"

definition HW_ATL_RPB_RX_DMA_DROP_PKT_CNT_ADR :: u32 where
  "HW_ATL_RPB_RX_DMA_DROP_PKT_CNT_ADR = 0x00006818"

definition HW_ATL_ITR_IMCRLSW_ADR :: u32 where
  "HW_ATL_ITR_IMCRLSW_ADR = 0x00002070"

definition HW_ATL_ITR_IMSRLSW_ADR :: u32 where
  "HW_ATL_ITR_IMSRLSW_ADR = 0x00002060"

definition HW_ATL_ITR_ISCRLSW_ADR :: u32 where
  "HW_ATL_ITR_ISCRLSW_ADR = 0x00002050"

definition HW_ATL_ITR_ISRLSW_ADR :: u32 where
  "HW_ATL_ITR_ISRLSW_ADR = 0x00002000"

definition HW_ATL_ITR_RSC_EN_ADR :: u32 where
  "HW_ATL_ITR_RSC_EN_ADR = 0x00002200"

definition HW_ATL_GEN_INTR_MAP_ADR :: "u32 \<Rightarrow> u32" where
  "HW_ATL_GEN_INTR_MAP_ADR regidx = 0x00002180 + regidx * 0x4"

definition HW_ATL_GEN_INTR_STAT_ADR :: u32 where
  "HW_ATL_GEN_INTR_STAT_ADR = 0x000021A4"

definition HW_ATL_INTR_GLB_CTL_ADR :: u32 where
  "HW_ATL_INTR_GLB_CTL_ADR = 0x00002300"

definition HW_ATL_INTR_THR_ADR :: "u32 \<Rightarrow> u32" where
  "HW_ATL_INTR_THR_ADR throttle = 0x00002800 + throttle * 0x4"

definition HW_ATL_RX_DMA_DESC_BASE_ADDRLSW_ADR :: "u32 \<Rightarrow> u32" where
  "HW_ATL_RX_DMA_DESC_BASE_ADDRLSW_ADR descriptor = 0x00005b00 + descriptor * 0x20"

definition HW_ATL_RX_DMA_DESC_BASE_ADDRMSW_ADR :: "u32 \<Rightarrow> u32" where
  "HW_ATL_RX_DMA_DESC_BASE_ADDRMSW_ADR descriptor = 0x00005b04 + descriptor * 0x20"

definition HW_ATL_RX_DMA_DESC_STAT_ADR :: "u32 \<Rightarrow> u32" where
  "HW_ATL_RX_DMA_DESC_STAT_ADR descriptor = 0x00005b14 + descriptor * 0x20"

definition HW_ATL_RX_DMA_DESC_TAIL_PTR_ADR :: "u32 \<Rightarrow> u32" where
  "HW_ATL_RX_DMA_DESC_TAIL_PTR_ADR descriptor = 0x00005b10 + descriptor * 0x20"

definition HW_ATL_RX_INTR_MODERATION_CTL_ADR :: "u32 \<Rightarrow> u32" where
  "HW_ATL_RX_INTR_MODERATION_CTL_ADR rim = 0x00005A40 + rim * 0x4"

definition HW_ATL_RX_FLR_MCST_FLR_MSK_ADR :: u32 where
  "HW_ATL_RX_FLR_MCST_FLR_MSK_ADR = 0x00005270"

definition HW_ATL_RX_FLR_MCST_FLR_ADR :: "u32 \<Rightarrow> u32" where
  "HW_ATL_RX_FLR_MCST_FLR_ADR flt = 0x00005250 + flt * 0x4"

definition HW_ATL_RX_FLR_RSS_CONTROL1_ADR :: u32 where
  "HW_ATL_RX_FLR_RSS_CONTROL1_ADR = 0x000054C0"

definition HW_ATL_RX_FLR_CONTROL2_ADR :: u32 where
  "HW_ATL_RX_FLR_CONTROL2_ADR = 0x00005104"

definition HW_ATL_TX_DMA_DESC_BASE_ADDRLSW_ADR :: "u32 \<Rightarrow> u32" where
  "HW_ATL_TX_DMA_DESC_BASE_ADDRLSW_ADR descriptor = 0x00007c00 + descriptor * 0x40"

definition HW_ATL_TX_DMA_DESC_TAIL_PTR_ADR :: "u32 \<Rightarrow> u32" where
  "HW_ATL_TX_DMA_DESC_TAIL_PTR_ADR descriptor = 0x00007c10 + descriptor * 0x40"

definition HW_ATL_RPFL2UC_DAFLSW_ADR :: "u32 \<Rightarrow> u32" where
  "HW_ATL_RPFL2UC_DAFLSW_ADR flt = 0x00005110 + flt * 0x8"

definition HW_ATL_PCS_PTP_TS_VAL_ADDR :: "u32 \<Rightarrow> u32" where
  "HW_ATL_PCS_PTP_TS_VAL_ADDR index = 0x00004900 + index * 0x4"

definition HW_ATL_TX_DMA_DEBUG_CTL_ADR :: u32 where
  "HW_ATL_TX_DMA_DEBUG_CTL_ADR = 0x00008920"

definition HW_ATL_TX_DMA_DESC_BASE_ADDRMSW_ADR :: "u32 \<Rightarrow> u32" where
  "HW_ATL_TX_DMA_DESC_BASE_ADDRMSW_ADR descriptor = 0x00007c04 + descriptor * 0x40"

definition HW_ATL_TX_DMA_TOTAL_REQ_LIMIT_ADR :: u32 where
  "HW_ATL_TX_DMA_TOTAL_REQ_LIMIT_ADR = 0x00007b20"

definition HW_ATL_TX_INTR_MODERATION_CTL_ADR :: "u32 \<Rightarrow> u32" where
  "HW_ATL_TX_INTR_MODERATION_CTL_ADR queue = 0x00008980 + queue * 0x4"

definition HW_ATL_PCI_REG_CONTROL6_ADR :: u32 where
  "HW_ATL_PCI_REG_CONTROL6_ADR = 0x1014"

definition HW_ATL_GLB_CPU_SCRATCH_SCP_ADR :: "u32 \<Rightarrow> u32" where
  "HW_ATL_GLB_CPU_SCRATCH_SCP_ADR scratch_scp = 0x00000300 + scratch_scp * 0x4"

definition HW_ATL_RX_CTRL_ADDR_BEGIN_FL3L4 :: u32 where
  "HW_ATL_RX_CTRL_ADDR_BEGIN_FL3L4 = 0x00005380"

definition HW_ATL_RX_SRCA_ADDR_BEGIN_FL3L4 :: u32 where
  "HW_ATL_RX_SRCA_ADDR_BEGIN_FL3L4 = 0x000053B0"

definition HW_ATL_RX_DESTA_ADDR_BEGIN_FL3L4 :: u32 where
  "HW_ATL_RX_DESTA_ADDR_BEGIN_FL3L4 = 0x000053D0"

definition HW_ATL_GLB_MDIO_IFACE_ADDR_BEGIN :: u32 where
  "HW_ATL_GLB_MDIO_IFACE_ADDR_BEGIN = 0x00000276"

definition HW_ATL_RX_GET_ADDR_CTRL_FL3L4 :: "u32 \<Rightarrow> u32" where
  "HW_ATL_RX_GET_ADDR_CTRL_FL3L4 location = HW_ATL_RX_CTRL_ADDR_BEGIN_FL3L4 + location * 0x4"

definition HW_ATL_RX_GET_ADDR_SRCA_FL3L4 :: "u32 \<Rightarrow> u32" where
  "HW_ATL_RX_GET_ADDR_SRCA_FL3L4 location = HW_ATL_RX_SRCA_ADDR_BEGIN_FL3L4 + location * 0x4"

definition HW_ATL_RX_GET_ADDR_DESTA_FL3L4 :: "u32 \<Rightarrow> u32" where
  "HW_ATL_RX_GET_ADDR_DESTA_FL3L4 location = HW_ATL_RX_DESTA_ADDR_BEGIN_FL3L4 + location * 0x4"

definition HW_ATL_GLB_MDIO_IFACE_N_ADR :: "u32 \<Rightarrow> u32" where
  "HW_ATL_GLB_MDIO_IFACE_N_ADR number = HW_ATL_GLB_MDIO_IFACE_ADDR_BEGIN + number * 0x4"

subsection \<open>Bit-fields\<close>

definition HW_ATL_ITR_REG_RES_DSBL :: reg_field where
  "HW_ATL_ITR_REG_RES_DSBL = \<lparr>fld_base = 0x00002300, fld_stride = 0, fld_count = Some 1,
     fld_msk = 0x20000000, fld_mskn = None, fld_shift = 29, fld_width = None, fld_dflt = None\<rparr>"

definition HW_ATL_ITR_RES :: reg_field where
  "HW_ATL_ITR_RES = \<lparr>fld_base = 0x00002300, fld_stride = 0, fld_count = Some 1,
     fld_msk = 0x80000000, fld_mskn = None, fld_shift = 31, fld_width = None, fld_dflt = None\<rparr>"

definition HW_ATL_ITR_RSC_DELAY :: reg_field where
  "HW_ATL_ITR_RSC_DELAY = \<lparr>fld_base = 0x00002204, fld_stride = 0, fld_count = Some 1,
     fld_msk = 0x0000000f, fld_mskn = None, fld_shift = 0, fld_width = Some 4, fld_dflt = None\<rparr>"

definition HW_ATL_RDM_DCADCPUID :: reg_field where
  "HW_ATL_RDM_DCADCPUID = \<lparr>fld_base = 0x00006100, fld_stride = 0x4, fld_count = None,
     fld_msk = 0x000000ff, fld_mskn = None, fld_shift = 0, fld_width = None, fld_dflt = None\<rparr>"

definition HW_ATL_RDM_DCA_EN :: reg_field where
  "HW_ATL_RDM_DCA_EN = \<lparr>fld_base = 0x00006180, fld_stride = 0, fld_count = Some 1,
     fld_msk = 0x80000000, fld_mskn = Some 0x7fffffff, fld_shift = 31, fld_width = Some 1, fld_dflt = Some 1\<rparr>"

definition HW_ATL_RDM_DCA_MODE :: reg_field where
  "HW_ATL_RDM_DCA_MODE = \<lparr>fld_base = 0x00006180, fld_stride = 0, fld_count = Some 1,
     fld_msk = 0x0000000f, fld_mskn = Some 0xfffffff0, fld_shift = 0, fld_width = Some 4, fld_dflt = Some 0\<rparr>"

definition HW_ATL_RDM_DESCDDATA_SIZE :: reg_field where
  "HW_ATL_RDM_DESCDDATA_SIZE = \<lparr>fld_base = 0x00005b18, fld_stride = 0x20, fld_count = Some 32,
     fld_msk = 0x0000001f, fld_mskn = Some 0xffffffe0, fld_shift = 0, fld_width = Some 5, fld_dflt = Some 0\<rparr>"

definition HW_ATL_RDM_DCADDESC_EN :: reg_field where
  "HW_ATL_RDM_DCADDESC_EN = \<lparr>fld_base = 0x00006100, fld_stride = 0x4, fld_count = Some 32,
     fld_msk = 0x80000000, fld_mskn = Some 0x7fffffff, fld_shift = 31, fld_width = Some 1, fld_dflt = Some 0\<rparr>"

definition HW_ATL_RDM_DESCDEN :: reg_field where
  "HW_ATL_RDM_DESCDEN = \<lparr>fld_base = 0x00005b08, fld_stride = 0x20, fld_count = Some 32,
     fld_msk = 0x80000000, fld_mskn = Some 0x7fffffff, fld_shift = 31, fld_width = Some 1, fld_dflt = Some 0\<rparr>"

definition HW_ATL_RDM_DESCDHDR_SIZE :: reg_field where
  "HW_ATL_RDM_DESCDHDR_SIZE = \<lparr>fld_base = 0x00005b18, fld_stride = 0x20, fld_count = Some 32,
     fld_msk = 0x00001f00, fld_mskn = Some 0xffffe0ff, fld_shift = 8, fld_width = Some 5, fld_dflt = Some 0\<rparr>"

definition HW_ATL_RDM_DESCDHDR_SPLIT :: reg_field where
  "HW_ATL_RDM_DESCDHDR_SPLIT = \<lparr>fld_base = 0x00005b08, fld_stride = 0x20, fld_count = Some 32,
     fld_msk = 0x10000000, fld_mskn = Some 0xefffffff, fld_shift = 28, fld_width = Some 1, fld_dflt = Some 0\<rparr>"

definition HW_ATL_RDM_DESCDHD :: reg_field where
  "HW_ATL_RDM_DESCDHD = \<lparr>fld_base = 0x00005b0c, fld_stride = 0x20, fld_count = Some 32,
     fld_msk = 0x00001fff, fld_mskn = Some 0xffffe000, fld_shift = 0, fld_width = Some 13, fld_dflt = None\<rparr>"

definition HW_ATL_RDM_DESCDLEN :: reg_field where
  "HW_ATL_RDM_DESCDLEN = \<lparr>fld_base = 0x00005b08, fld_stride = 0x20, fld_count = Some 32,
     fld_msk = 0x00001ff8, fld_mskn = Some 0xffffe007, fld_shift = 3, fld_width = Some 10, fld_dflt = Some 0\<rparr>"

definition HW_ATL_RDM_DESCDRESET :: reg_field where
  "HW_ATL_RDM_DESCDRESET = \<lparr>fld_base = 0x00005b08, fld_stride = 0x20, fld_count = Some 32,
     fld_msk = 0x02000000, fld_mskn = Some 0xfdffffff, fld_shift = 25, fld_width = Some 1, fld_dflt = Some 0\<rparr>"

definition HW_ATL_RDM_RX_DMA_DESC_CACHE_INIT :: reg_field where
  "HW_ATL_RDM_RX_DMA_DESC_CACHE_INIT = \<lparr>fld_base = 0x00005a00, fld_stride = 0, fld_count = Some 1,
     fld_msk = 0xffffffff, fld_mskn = Some 0x00000000, fld_shift = 0, fld_width = Some 32, fld_dflt = Some 0\<rparr>"

definition HW_ATL_RDM_INT_DESC_WRB_EN :: reg_field where
  "HW_ATL_RDM_INT_DESC_WRB_EN = \<lparr>fld_base = 0x00005a30, fld_stride = 0, fld_count = Some 1,
     fld_msk = 0x00000004, fld_mskn = Some 0xfffffffb, fld_shift = 2, fld_width = Some 1, fld_dflt = Some 0\<rparr>"

definition HW_ATL_RDM_DCADHDR_EN :: reg_field where
  "HW_ATL_RDM_DCADHDR_EN = \<lparr>fld_base = 0x00006100, fld_stride = 0x4, fld_count = Some 32,
     fld_msk = 0x40000000, fld_mskn = Some 0xbfffffff, fld_shift = 30, fld_width = Some 1, fld_dflt = Some 0\<rparr>"

definition HW_ATL_RDM_DCADPAY_EN :: reg_field where
  "HW_ATL_RDM_DCADPAY_EN = \<lparr>fld_base = 0x00006100, fld_stride = 0x4, fld_count = Some 32,
     fld_msk = 0x20000000, fld_mskn = Some 0xdfffffff, fld_shift = 29, fld_width = Some 1, fld_dflt = Some 0\<rparr>"

definition HW_ATL_RDM_INT_RIM_EN :: reg_field where
  "HW_ATL_RDM_INT_RIM_EN = \<lparr>fld_base = 0x00005A30, fld_stride = 0, fld_count = Some 1,
     fld_msk = 0x00000008, fld_mskn = Some 0xFFFFFFF7, fld_shift = 3, fld_width = Some 1, fld_dflt = Some 0\<rparr>"

definition HW_ATL_TDM_TX_DMA_DEBUG_CTL :: reg_field where
  "HW_ATL_TDM_TX_DMA_DEBUG_CTL = \<lparr>fld_base = 0x00008920, fld_stride = 0, fld_count = Some 1,
     fld_msk = 0xffffffff, fld_mskn = Some 0x00000000, fld_shift = 0, fld_width = Some 32, fld_dflt = Some 0\<rparr>"

definition HW_ATL_RPB_DMA_SYS_LBK :: reg_field where
  "HW_ATL_RPB_DMA_SYS_LBK = \<lparr>fld_base = 0x00005000, fld_stride = 0, fld_count = Some 1,
     fld_msk = 0x00000040, fld_mskn = Some 0xffffffbf, fld_shift = 6, fld_width = Some 1, fld_dflt = Some 0\<rparr>"

definition HW_ATL_RPB_DMA_NET_LBK :: reg_field where
  "HW_ATL_RPB_DMA_NET_LBK = \<lparr>fld_base = 0x00005000, fld_stride = 0, fld_count = Some 1,
     fld_msk = 0x00000010, fld_mskn = Some 0xffffffef, fld_shift = 4, fld_width = Some 1, fld_dflt = Some 0\<rparr>"

definition HW_ATL_RPB_RPF_RX_TC_MODE :: reg_field where
  "HW_ATL_RPB_RPF_RX_TC_MODE = \<lparr>fld_base = 0x00005700, fld_stride = 0, fld_count = Some 1,
     fld_msk = 0x00000100, fld_mskn = Some 0xfffffeff, fld_shift = 8, fld_width = Some 1, fld_dflt = Some 0\<rparr>"

definition HW_ATL_RPB_RX_BUF_EN :: reg_field where
  "HW_ATL_RPB_RX_BUF_EN = \<lparr>fld_base = 0x00005700, fld_stride = 0, fld_count = Some 1,
     fld_msk = 0x00000001, fld_mskn = Some 0xfffffffe, fld_shift = 0, fld_width = Some 1, fld_dflt = Some 0\<rparr>"

definition HW_ATL_RPB_RXBHI_THRESH :: reg_field where
  "HW_ATL_RPB_RXBHI_THRESH = \<lparr>fld_base = 0x00005714, fld_stride = 0x10, fld_count = Some 8,
     fld_msk = 0x3fff0000, fld_mskn = Some 0xc000ffff, fld_shift = 16, fld_width = Some 14, fld_dflt = Some 0\<rparr>"

definition HW_ATL_RPB_RXBLO_THRESH :: reg_field where
  "HW_ATL_RPB_RXBLO_THRESH = \<lparr>fld_base = 0x00005714, fld_stride = 0x10, fld_count = Some 8,
     fld_msk = 0x00003fff, fld_mskn = Some 0xffffc000, fld_shift = 0, fld_width = Some 14, fld_dflt = Some 0\<rparr>"

definition HW_ATL_RPB_RX_FC_MODE :: reg_field where
  "HW_ATL_RPB_RX_FC_MODE = \<lparr>fld_base = 0x00005700, fld_stride = 0, fld_count = Some 1,
     fld_msk = 0x00000030, fld_mskn = Some 0xffffffcf, fld_shift = 4, fld_width = Some 2, fld_dflt = Some 0\<rparr>"

definition HW_ATL_RPB_RXBBUF_SIZE :: reg_field where
  "HW_ATL_RPB_RXBBUF_SIZE = \<lparr>fld_base = 0x00005710, fld_stride = 0x10, fld_count = Some 8,
     fld_msk = 0x000001ff, fld_mskn = Some 0xfffffe00, fld_shift = 0, fld_width = Some 9, fld_dflt = Some 0\<rparr>"

definition HW_ATL_RPB_RXBXOFF_EN :: reg_field where
  "HW_ATL_RPB_RXBXOFF_EN = \<lparr>fld_base = 0x00005714, fld_stride = 0x10, fld_count = Some 8,
     fld_msk = 0x80000000, fld_mskn = Some 0x7fffffff, fld_shift = 31, fld_width = Some 1, fld_dflt = Some 0\<rparr>"

definition HW_ATL_RPFL2BC_THRESH :: reg_field where
  "HW_ATL_RPFL2BC_THRESH = \<lparr>fld_base = 0x00005100, fld_stride = 0, fld_count = Some 1,
     fld_msk = 0xffff0000, fld_mskn = Some 0x0000ffff, fld_shift = 16, fld_width = Some 16, fld_dflt = Some 0\<rparr>"

definition HW_ATL_RPFL2BC_EN :: reg_field where
  "HW_ATL_RPFL2BC_EN = \<lparr>fld_base = 0x00005100, fld_stride = 0, fld_count = Some 1,
     fld_msk = 0x00000001, fld_mskn = Some 0xfffffffe, fld_shift = 0, fld_width = Some 1, fld_dflt = Some 0\<rparr>"

definition HW_ATL_RPFL2BC_ACT :: reg_field where
  "HW_ATL_RPFL2BC_ACT = \<lparr>fld_base = 0x00005100, fld_stride = 0, fld_count = Some 1,
     fld_msk = 0x00007000, fld_mskn = Some 0xffff8fff, fld_shift = 12, fld_width = Some 3, fld_dflt = Some 0\<rparr>"

definition HW_ATL_RPFL2MC_ENF :: reg_field where
  "HW_ATL_RPFL2MC_ENF = \<lparr>fld_base = 0x00005250, fld_stride = 0x4, fld_count = Some 8,
     fld_msk = 0x80000000, fld_mskn = Some 0x7fffffff, fld_shift = 31, fld_width = Some 1, fld_dflt = Some 0\<rparr>"

definition HW_ATL_RPFL2PROMIS_MODE :: reg_field where
  "HW_ATL_RPFL2PROMIS_MODE = \<lparr>fld_base = 0x00005100, fld_stride = 0, fld_count = Some 1,
     fld_msk = 0x00000008, fld_mskn = Some 0xfffffff7, fld_shift = 3, fld_width = Some 1, fld_dflt = Some 0\<rparr>"

definition HW_ATL_RPFL2UC_ACTF :: reg_field where
  "HW_ATL_RPFL2UC_ACTF = \<lparr>fld_base = 0x00005114, fld_stride = 0x8, fld_count = Some 38,
     fld_msk = 0x00070000, fld_mskn = Some 0xfff8ffff, fld_shift = 16, fld_width = Some 3, fld_dflt = Some 0\<rparr>"

definition HW_ATL_RPFL2UC_ENF :: reg_field where
  "HW_ATL_RPFL2UC_ENF = \<lparr>fld_base = 0x00005114, fld_stride = 0x8, fld_count = Some 38,
     fld_msk = 0x80000000, fld_mskn = Some 0x7fffffff, fld_shift = 31, fld_width = Some 1, fld_dflt = Some 0\<rparr>"

definition HW_ATL_RPFL2UC_DAFMSW :: reg_field where
  "HW_ATL_RPFL2UC_DAFMSW = \<lparr>fld_base = 0x00005114, fld_stride = 0x8, fld_count = None,
     fld_msk = 0x0000ffff, fld_mskn = None, fld_shift = 0, fld_width = None, fld_dflt = None\<rparr>"

definition HW_ATL_RPFL2MC_ACCEPT_ALL :: reg_field where
  "HW_ATL_RPFL2MC_ACCEPT_ALL = \<lparr>fld_base = 0x00005270, fld_stride = 0, fld_count = Some 1,
     fld_msk = 0x00004000, fld_mskn = Some 0xFFFFBFFF, fld_shift = 14, fld_width = Some 1, fld_dflt = Some 0\<rparr>"

definition HW_ATL_RPF_RSS_KEY_ADDR :: reg_field where
  "HW_ATL_RPF_RSS_KEY_ADDR = \<lparr>fld_base = 0x000054d0, fld_stride = 0, fld_count = Some 1,
     fld_msk = 0x0000001f, fld_mskn = Some 0xffffffe0, fld_shift = 0, fld_width = Some 5, fld_dflt = Some 0\<rparr>"

definition HW_ATL_RPF_RSS_KEY_WR_DATA :: reg_field where
  "HW_ATL_RPF_RSS_KEY_WR_DATA = \<lparr>fld_base = 0x000054d4, fld_stride = 0, fld_count = Some 1,
     fld_msk = 0xffffffff, fld_mskn = Some 0x00000000, fld_shift = 0, fld_width = Some 32, fld_dflt = Some 0\<rparr>"

definition HW_ATL_RPF_RSS_KEY_WR_ENI :: reg_field where
  "HW_ATL_RPF_RSS_KEY_WR_ENI = \<lparr>fld_base = 0x000054d0, fld_stride = 0, fld_count = Some 1,
     fld_msk = 0x00000020, fld_mskn = Some 0xffffffdf, fld_shift = 5, fld_width = Some 1, fld_dflt = Some 0\<rparr>"

definition HW_ATL_RPF_RSS_REDIR_ADDR :: reg_field where
  "HW_ATL_RPF_RSS_REDIR_ADDR = \<lparr>fld_base = 0x000054e0, fld_stride = 0, fld_count = Some 1,
     fld_msk = 0x0000000f, fld_mskn = Some 0xfffffff0, fld_shift = 0, fld_width = Some 4, fld_dflt = Some 0\<rparr>"

definition HW_ATL_RPF_RSS_REDIR_WR_DATA :: reg_field where
  "HW_ATL_RPF_RSS_REDIR_WR_DATA = \<lparr>fld_base = 0x000054e4, fld_stride = 0, fld_count = Some 1,
     fld_msk = 0x0000ffff, fld_mskn = Some 0xffff0000, fld_shift = 0, fld_width = Some 16, fld_dflt = Some 0\<rparr>"

definition HW_ATL_RPF_RSS_REDIR_WR_ENI :: reg_field where
  "HW_ATL_RPF_RSS_REDIR_WR_ENI = \<lparr>fld_base = 0x000054e0, fld_stride = 0, fld_count = Some 1,
     fld_msk = 0x00000010, fld_mskn = Some 0xffffffef, fld_shift = 4, fld_width = Some 1, fld_dflt = Some 0\<rparr>"

definition HW_ATL_RPF_TPO_RPF_SYS_LBK :: reg_field where
  "HW_ATL_RPF_TPO_RPF_SYS_LBK = \<lparr>fld_base = 0x00005000, fld_stride = 0, fld_count = Some 1,
     fld_msk = 0x00000100, fld_mskn = Some 0xfffffeff, fld_shift = 8, fld_width = Some 1, fld_dflt = Some 0\<rparr>"

definition HW_ATL_RPF_VL_INNER_TPID :: reg_field where
  "HW_ATL_RPF_VL_INNER_TPID = \<lparr>fld_base = 0x00005284, fld_stride = 0, fld_count = Some 1,
     fld_msk = 0x0000ffff, fld_mskn = Some 0xffff0000, fld_shift = 0, fld_width = Some 16, fld_dflt = Some 33024\<rparr>"

definition HW_ATL_RPF_VL_OUTER_TPID :: reg_field where
  "HW_ATL_RPF_VL_OUTER_TPID = \<lparr>fld_base = 0x00005284, fld_stride = 0, fld_count = Some 1,
     fld_msk = 0xffff0000, fld_mskn = Some 0x0000ffff, fld_shift = 16, fld_width = Some 16, fld_dflt = Some 34984\<rparr>"

definition HW_ATL_RPF_VL_PROMIS_MODE :: reg_field where
  "HW_ATL_RPF_VL_PROMIS_MODE = \<lparr>fld_base = 0x00005280, fld_stride = 0, fld_count = Some 1,
     fld_msk = 0x00000002, fld_mskn = Some 0xfffffffd, fld_shift = 1, fld_width = Some 1, fld_dflt = Some 0\<rparr>"

definition HW_ATL_RPF_VL_ACCEPT_UNTAGGED_MODE :: reg_field where
  "HW_ATL_RPF_VL_ACCEPT_UNTAGGED_MODE = \<lparr>fld_base = 0x00005280, fld_stride = 0, fld_count = Some 1,
     fld_msk = 0x00000004, fld_mskn = Some 0xFFFFFFFB, fld_shift = 2, fld_width = Some 1, fld_dflt = Some 0\<rparr>"

definition HW_ATL_RPF_VL_UNTAGGED_ACT :: reg_field where
  "HW_ATL_RPF_VL_UNTAGGED_ACT = \<lparr>fld_base = 0x00005280, fld_stride = 0, fld_count = Some 1,
     fld_msk = 0x00000038, fld_mskn = Some 0xFFFFFFC7, fld_shift = 3, fld_width = Some 3, fld_dflt = Some 0\<rparr>"

definition HW_ATL_RPF_VL_EN_F :: reg_field where
  "HW_ATL_RPF_VL_EN_F = \<lparr>fld_base = 0x00005290, fld_stride = 0x4, fld_count = Some 16,
     fld_msk = 0x80000000, fld_mskn = Some 0x7FFFFFFF, fld_shift = 31, fld_width = Some 1, fld_dflt = Some 0\<rparr>"

definition HW_ATL_RPF_VL_ACT_F :: reg_field where
  "HW_ATL_RPF_VL_ACT_F = \<lparr>fld_base = 0x00005290, fld_stride = 0x4, fld_count = Some 16,
     fld_msk = 0x00070000, fld_mskn = Some 0xFFF8FFFF, fld_shift = 16, fld_width = Some 3, fld_dflt = Some 0\<rparr>"

definition HW_ATL_RPF_VL_ID_F :: reg_field where
  "HW_ATL_RPF_VL_ID_F = \<lparr>fld_base = 0x00005290, fld_stride = 0x4, fld_count = Some 16,
     fld_msk = 0x00000FFF, fld_mskn = Some 0xFFFFF000, fld_shift = 0, fld_width = Some 12, fld_dflt = Some 0\<rparr>"

definition HW_ATL_RPF_VL_RXQ_EN_F :: reg_field where
  "HW_ATL_RPF_VL_RXQ_EN_F = \<lparr>fld_base = 0x00005290, fld_stride = 0x4, fld_count = Some 16,
     fld_msk = 0x10000000, fld_mskn = Some 0xEFFFFFFF, fld_shift = 28, fld_width = Some 1, fld_dflt = Some 0\<rparr>"

definition HW_ATL_RPF_VL_RXQ_F :: reg_field where
  "HW_ATL_RPF_VL_RXQ_F = \<lparr>fld_base = 0x00005290, fld_stride = 0x4, fld_count = Some 16,
     fld_msk = 0x01F00000, fld_mskn = Some 0xFE0FFFFF, fld_shift = 20, fld_width = Some 5, fld_dflt = Some 0\<rparr>"

definition HW_ATL_RPF_ET_ENF :: reg_field where
  "HW_ATL_RPF_ET_ENF = \<lparr>fld_base = 0x00005300, fld_stride = 0x4, fld_count = Some 16,
     fld_msk = 0x80000000, fld_mskn = Some 0x7fffffff, fld_shift = 31, fld_width = Some 1, fld_dflt = Some 0\<rparr>"

definition HW_ATL_RPF_ET_UPFEN :: reg_field where
  "HW_ATL_RPF_ET_UPFEN = \<lparr>fld_base = 0x00005300, fld_stride = 0x4, fld_count = Some 16,
     fld_msk = 0x40000000, fld_mskn = Some 0xbfffffff, fld_shift = 30, fld_width = Some 1, fld_dflt = Some 0\<rparr>"

definition HW_ATL_RPF_ET_RXQFEN :: reg_field where
  "HW_ATL_RPF_ET_RXQFEN = \<lparr>fld_base = 0x00005300, fld_stride = 0x4, fld_count = Some 16,
     fld_msk = 0x20000000, fld_mskn = Some 0xdfffffff, fld_shift = 29, fld_width = Some 1, fld_dflt = Some 0\<rparr>"

definition HW_ATL_RPF_ET_UPF :: reg_field where
  "HW_ATL_RPF_ET_UPF = \<lparr>fld_base = 0x00005300, fld_stride = 0x4, fld_count = Some 16,
     fld_msk = 0x1c000000, fld_mskn = Some 0xe3ffffff, fld_shift = 26, fld_width = Some 3, fld_dflt = Some 0\<rparr>"

definition HW_ATL_RPF_ET_RXQF :: reg_field where
  "HW_ATL_RPF_ET_RXQF = \<lparr>fld_base = 0x00005300, fld_stride = 0x4, fld_count = Some 16,
     fld_msk = 0x01f00000, fld_mskn = Some 0xfe0fffff, fld_shift = 20, fld_width = Some 5, fld_dflt = Some 0\<rparr>"

definition HW_ATL_RPF_ET_MNG_RXQF :: reg_field where
  "HW_ATL_RPF_ET_MNG_RXQF = \<lparr>fld_base = 0x00005300, fld_stride = 0x4, fld_count = Some 16,
     fld_msk = 0x00080000, fld_mskn = Some 0xfff7ffff, fld_shift = 19, fld_width = Some 1, fld_dflt = Some 0\<rparr>"

definition HW_ATL_RPF_ET_ACTF :: reg_field where
  "HW_ATL_RPF_ET_ACTF = \<lparr>fld_base = 0x00005300, fld_stride = 0x4, fld_count = Some 16,
     fld_msk = 0x00070000, fld_mskn = Some 0xfff8ffff, fld_shift = 16, fld_width = Some 3, fld_dflt = Some 0\<rparr>"

definition HW_ATL_RPF_ET_VALF :: reg_field where
  "HW_ATL_RPF_ET_VALF = \<lparr>fld_base = 0x00005300, fld_stride = 0x4, fld_count = Some 16,
     fld_msk = 0x0000ffff, fld_mskn = Some 0xffff0000, fld_shift = 0, fld_width = Some 16, fld_dflt = Some 0\<rparr>"

definition HW_ATL_RPF_L3_L4_ENF :: reg_field where
  "HW_ATL_RPF_L3_L4_ENF = \<lparr>fld_base = 0x00005380, fld_stride = 0x4, fld_count = Some 8,
     fld_msk = 0x80000000, fld_mskn = Some 0x7FFFFFFF, fld_shift = 31, fld_width = Some 1, fld_dflt = Some 0\<rparr>"

definition HW_ATL_RPF_L3_V6_ENF :: reg_field where
  "HW_ATL_RPF_L3_V6_ENF = \<lparr>fld_base = 0x00005380, fld_stride = 0x4, fld_count = Some 8,
     fld_msk = 0x40000000, fld_mskn = Some 0xBFFFFFFF, fld_shift = 30, fld_width = Some 1, fld_dflt = Some 0\<rparr>"

definition HW_ATL_RPF_L3_SAF_EN :: reg_field where
  "HW_ATL_RPF_L3_SAF_EN = \<lparr>fld_base = 0x00005380, fld_stride = 0x4, fld_count = Some 8,
     fld_msk = 0x20000000, fld_mskn = Some 0xDFFFFFFF, fld_shift = 29, fld_width = Some 1, fld_dflt = Some 0\<rparr>"

definition HW_ATL_RPF_L3_DAF_EN :: reg_field where
  "HW_ATL_RPF_L3_DAF_EN = \<lparr>fld_base = 0x00005380, fld_stride = 0x4, fld_count = Some 8,
     fld_msk = 0x10000000, fld_mskn = Some 0xEFFFFFFF, fld_shift = 28, fld_width = Some 1, fld_dflt = Some 0\<rparr>"

definition HW_ATL_RPF_L4_SPF_EN :: reg_field where
  "HW_ATL_RPF_L4_SPF_EN = \<lparr>fld_base = 0x00005380, fld_stride = 0x4, fld_count = Some 8,
     fld_msk = 0x08000000, fld_mskn = Some 0xF7FFFFFF, fld_shift = 27, fld_width = Some 1, fld_dflt = Some 0\<rparr>"

definition HW_ATL_RPF_L4_DPF_EN :: reg_field where
  "HW_ATL_RPF_L4_DPF_EN = \<lparr>fld_base = 0x00005380, fld_stride = 0x4, fld_count = Some 8,
     fld_msk = 0x04000000, fld_mskn = Some 0xFBFFFFFF, fld_shift = 26, fld_width = Some 1, fld_dflt = Some 0\<rparr>"

definition HW_ATL_RPF_L4_PROTF_EN :: reg_field where
  "HW_ATL_RPF_L4_PROTF_EN = \<lparr>fld_base = 0x00005380, fld_stride = 0x4, fld_count = Some 8,
     fld_msk = 0x02000000, fld_mskn = Some 0xFDFFFFFF, fld_shift = 25, fld_width = Some 1, fld_dflt = Some 0\<rparr>"

definition HW_ATL_RPF_L3_ARPF_EN :: reg_field where
  "HW_ATL_RPF_L3_ARPF_EN = \<lparr>fld_base = 0x00005380, fld_stride = 0x4, fld_count = Some 8,
     fld_msk = 0x01000000, fld_mskn = Some 0xFEFFFFFF, fld_shift = 24, fld_width = Some 1, fld_dflt = Some 0\<rparr>"

definition HW_ATL_RPF_L3_L4_RXQF_EN :: reg_field where
  "HW_ATL_RPF_L3_L4_RXQF_EN = \<lparr>fld_base = 0x00005380, fld_stride = 0x4, fld_count = Some 8,
     fld_msk = 0x00800000, fld_mskn = Some 0xFF7FFFFF, fld_shift = 23, fld_width = Some 1, fld_dflt = Some 0\<rparr>"

definition HW_ATL_RPF_L3_L4_MNG_RXQF :: reg_field where
  "HW_ATL_RPF_L3_L4_MNG_RXQF = \<lparr>fld_base = 0x00005380, fld_stride = 0x4, fld_count = Some 8,
     fld_msk = 0x00400000, fld_mskn = Some 0xFFBFFFFF, fld_shift = 22, fld_width = Some 1, fld_dflt = Some 0\<rparr>"

definition HW_ATL_RPF_L3_L4_ACTF :: reg_field where
  "HW_ATL_RPF_L3_L4_ACTF = \<lparr>fld_base = 0x00005380, fld_stride = 0x4, fld_count = Some 8,
     fld_msk = 0x00070000, fld_mskn = Some 0xFFF8FFFF, fld_shift = 16, fld_width = Some 3, fld_dflt = Some 0\<rparr>"

definition HW_ATL_RPF_L3_L4_RXQF :: reg_field where
  "HW_ATL_RPF_L3_L4_RXQF = \<lparr>fld_base = 0x00005380, fld_stride = 0x4, fld_count = Some 8,
     fld_msk = 0x00001F00, fld_mskn = Some 0xFFFFE0FF, fld_shift = 8, fld_width = Some 5, fld_dflt = Some 0\<rparr>"

definition HW_ATL_RPF_L4_PROTF :: reg_field where
  "HW_ATL_RPF_L4_PROTF = \<lparr>fld_base = 0x00005380, fld_stride = 0x4, fld_count = Some 8,
     fld_msk = 0x00000007, fld_mskn = Some 0xFFFFFFF8, fld_shift = 0, fld_width = Some 3, fld_dflt = Some 0\<rparr>"

definition HW_ATL_RPF_L4_SPD :: reg_field where
  "HW_ATL_RPF_L4_SPD = \<lparr>fld_base = 0x00005400, fld_stride = 0x4, fld_count = Some 8,
     fld_msk = 0x0000FFFF, fld_mskn = Some 0xFFFF0000, fld_shift = 0, fld_width = Some 16, fld_dflt = Some 0\<rparr>"

definition HW_ATL_RPF_L4_DPD :: reg_field where
  "HW_ATL_RPF_L4_DPD = \<lparr>fld_base = 0x00005420, fld_stride = 0x4, fld_count = Some 8,
     fld_msk = 0x0000FFFF, fld_mskn = Some 0xFFFF0000, fld_shift = 0, fld_width = Some 16, fld_dflt = Some 0\<rparr>"

definition HW_ATL_RPO_IPV4CHK_EN :: reg_field where
  "HW_ATL_RPO_IPV4CHK_EN = \<lparr>fld_base = 0x00005580, fld_stride = 0, fld_count = Some 1,
     fld_msk = 0x00000002, fld_mskn = Some 0xfffffffd, fld_shift = 1, fld_width = Some 1, fld_dflt = Some 0\<rparr>"

definition HW_ATL_RPO_DESCDVL_STRIP :: reg_field where
  "HW_ATL_RPO_DESCDVL_STRIP = \<lparr>fld_base = 0x00005b08, fld_stride = 0x20, fld_count = Some 32,
     fld_msk = 0x20000000, fld_mskn = Some 0xdfffffff, fld_shift = 29, fld_width = Some 1, fld_dflt = Some 0\<rparr>"

definition HW_ATL_RPOL4CHK_EN :: reg_field where
  "HW_ATL_RPOL4CHK_EN = \<lparr>fld_base = 0x00005580, fld_stride = 0, fld_count = Some 1,
     fld_msk = 0x00000001, fld_mskn = Some 0xfffffffe, fld_shift = 0, fld_width = Some 1, fld_dflt = Some 0\<rparr>"

definition HW_ATL_RPO_OUTER_VL_INS_MODE :: reg_field where
  "HW_ATL_RPO_OUTER_VL_INS_MODE = \<lparr>fld_base = 0x00005580, fld_stride = 0, fld_count = Some 1,
     fld_msk = 0x00000004, fld_mskn = Some 0xFFFFFFFB, fld_shift = 2, fld_width = Some 1, fld_dflt = Some 0\<rparr>"

definition HW_ATL_RX_REG_RES_DSBL :: reg_field where
  "HW_ATL_RX_REG_RES_DSBL = \<lparr>fld_base = 0x00005000, fld_stride = 0, fld_count = Some 1,
     fld_msk = 0x20000000, fld_mskn = Some 0xdfffffff, fld_shift = 29, fld_width = Some 1, fld_dflt = Some 1\<rparr>"

definition HW_ATL_TDM_DCADCPUID :: reg_field where
  "HW_ATL_TDM_DCADCPUID = \<lparr>fld_base = 0x00008400, fld_stride = 0x4, fld_count = Some 32,
     fld_msk = 0x000000ff, fld_mskn = Some 0xffffff00, fld_shift = 0, fld_width = Some 8, fld_dflt = Some 0\<rparr>"

definition HW_ATL_TDM_LSO_EN :: reg_field where
  "HW_ATL_TDM_LSO_EN = \<lparr>fld_base = 0x00007810, fld_stride = 0, fld_count = Some 1,
     fld_msk = 0xffffffff, fld_mskn = Some 0x00000000, fld_shift = 0, fld_width = Some 32, fld_dflt = Some 0\<rparr>"

definition HW_ATL_TDM_DCA_EN :: reg_field where
  "HW_ATL_TDM_DCA_EN = \<lparr>fld_base = 0x00008480, fld_stride = 0, fld_count = Some 1,
     fld_msk = 0x80000000, fld_mskn = Some 0x7fffffff, fld_shift = 31, fld_width = Some 1, fld_dflt = Some 1\<rparr>"

definition HW_ATL_TDM_DCA_MODE :: reg_field where
  "HW_ATL_TDM_DCA_MODE = \<lparr>fld_base = 0x00008480, fld_stride = 0, fld_count = Some 1,
     fld_msk = 0x0000000f, fld_mskn = Some 0xfffffff0, fld_shift = 0, fld_width = Some 4, fld_dflt = Some 0\<rparr>"

definition HW_ATL_TDM_DCADDESC_EN :: reg_field where
  "HW_ATL_TDM_DCADDESC_EN = \<lparr>fld_base = 0x00008400, fld_stride = 0x4, fld_count = Some 32,
     fld_msk = 0x80000000, fld_mskn = Some 0x7fffffff, fld_shift = 31, fld_width = Some 1, fld_dflt = Some 0\<rparr>"

definition HW_ATL_TDM_DESCDEN :: reg_field where
  "HW_ATL_TDM_DESCDEN = \<lparr>fld_base = 0x00007c08, fld_stride = 0x40, fld_count = Some 32,
     fld_msk = 0x80000000, fld_mskn = Some 0x7fffffff, fld_shift = 31, fld_width = Some 1, fld_dflt = Some 0\<rparr>"

definition HW_ATL_TDM_DESCDHD :: reg_field where
  "HW_ATL_TDM_DESCDHD = \<lparr>fld_base = 0x00007c0c, fld_stride = 0x40, fld_count = Some 32,
     fld_msk = 0x00001fff, fld_mskn = Some 0xffffe000, fld_shift = 0, fld_width = Some 13, fld_dflt = None\<rparr>"

definition HW_ATL_TDM_DESCDLEN :: reg_field where
  "HW_ATL_TDM_DESCDLEN = \<lparr>fld_base = 0x00007c08, fld_stride = 0x40, fld_count = Some 32,
     fld_msk = 0x00001ff8, fld_mskn = Some 0xffffe007, fld_shift = 3, fld_width = Some 10, fld_dflt = Some 0\<rparr>"

definition HW_ATL_TDM_INT_DESC_WRB_EN :: reg_field where
  "HW_ATL_TDM_INT_DESC_WRB_EN = \<lparr>fld_base = 0x00007b40, fld_stride = 0, fld_count = Some 1,
     fld_msk = 0x00000002, fld_mskn = Some 0xfffffffd, fld_shift = 1, fld_width = Some 1, fld_dflt = Some 0\<rparr>"

definition HW_ATL_TDM_DESCDWRB_THRESH :: reg_field where
  "HW_ATL_TDM_DESCDWRB_THRESH = \<lparr>fld_base = 0x00007c18, fld_stride = 0x40, fld_count = Some 32,
     fld_msk = 0x00007f00, fld_mskn = Some 0xffff80ff, fld_shift = 8, fld_width = Some 7, fld_dflt = Some 0\<rparr>"

definition HW_ATL_THM_LSO_TCP_FLAG_FIRST :: reg_field where
  "HW_ATL_THM_LSO_TCP_FLAG_FIRST = \<lparr>fld_base = 0x00007820, fld_stride = 0, fld_count = Some 1,
     fld_msk = 0x00000fff, fld_mskn = Some 0xfffff000, fld_shift = 0, fld_width = Some 12, fld_dflt = Some 0\<rparr>"

definition HW_ATL_THM_LSO_TCP_FLAG_LAST :: reg_field where
  "HW_ATL_THM_LSO_TCP_FLAG_LAST = \<lparr>fld_base = 0x00007824, fld_stride = 0, fld_count = Some 1,
     fld_msk = 0x00000fff, fld_mskn = Some 0xfffff000, fld_shift = 0, fld_width = Some 12, fld_dflt = Some 0\<rparr>"

definition HW_ATL_RPO_LRO_RSC_MAX :: reg_field where
  "HW_ATL_RPO_LRO_RSC_MAX = \<lparr>fld_base = 0x00005598, fld_stride = 0, fld_count = Some 1,
     fld_msk = 0xFFFFFFFF, fld_mskn = Some 0x00000000, fld_shift = 0, fld_width = Some 32, fld_dflt = Some 0\<rparr>"

definition HW_ATL_RPO_LRO_EN :: reg_field where
  "HW_ATL_RPO_LRO_EN = \<lparr>fld_base = 0x00005590, fld_stride = 0, fld_count = Some 1,
     fld_msk = 0xFFFFFFFF, fld_mskn = Some 0x00000000, fld_shift = 0, fld_width = Some 32, fld_dflt = Some 0\<rparr>"

definition HW_ATL_RPO_LRO_PTOPT_EN :: reg_field where
  "HW_ATL_RPO_LRO_PTOPT_EN = \<lparr>fld_base = 0x00005594, fld_stride = 0, fld_count = Some 1,
     fld_msk = 0x00008000, fld_mskn = Some 0xFFFF7FFF, fld_shift = 15, fld_width = Some 1, fld_dflt = Some 1\<rparr>"

definition HW_ATL_RPO_LRO_QSES_LMT :: reg_field where
  "HW_ATL_RPO_LRO_QSES_LMT = \<lparr>fld_base = 0x00005594, fld_stride = 0, fld_count = Some 1,
     fld_msk = 0x00003000, fld_mskn = Some 0xFFFFCFFF, fld_shift = 12, fld_width = Some 2, fld_dflt = Some 1\<rparr>"

definition HW_ATL_RPO_LRO_TOT_DSC_LMT :: reg_field where
  "HW_ATL_RPO_LRO_TOT_DSC_LMT = \<lparr>fld_base = 0x00005594, fld_stride = 0, fld_count = Some 1,
     fld_msk = 0x00000060, fld_mskn = Some 0xFFFFFF9F, fld_shift = 5, fld_width = Some 2, fld_dflt = Some 1\<rparr>"

definition HW_ATL_RPO_LRO_PKT_MIN :: reg_field where
  "HW_ATL_RPO_LRO_PKT_MIN = \<lparr>fld_base = 0x00005594, fld_stride = 0, fld_count = Some 1,
     fld_msk = 0x0000001F, fld_mskn = Some 0xFFFFFFE0, fld_shift = 0, fld_width = Some 5, fld_dflt = Some 8\<rparr>"

definition HW_ATL_RPO_LRO_TB_DIV :: reg_field where
  "HW_ATL_RPO_LRO_TB_DIV = \<lparr>fld_base = 0x00005620, fld_stride = 0, fld_count = Some 1,
     fld_msk = 0xFFF00000, fld_mskn = Some 0x000FFFFF, fld_shift = 20, fld_width = Some 12, fld_dflt = Some 3125\<rparr>"

definition HW_ATL_RPO_LRO_INA_IVAL :: reg_field where
  "HW_ATL_RPO_LRO_INA_IVAL = \<lparr>fld_base = 0x00005620, fld_stride = 0, fld_count = Some 1,
     fld_msk = 0x000FFC00, fld_mskn = Some 0xFFF003FF, fld_shift = 10, fld_width = Some 10, fld_dflt = Some 10\<rparr>"

definition HW_ATL_RPO_LRO_MAX_IVAL :: reg_field where
  "HW_ATL_RPO_LRO_MAX_IVAL = \<lparr>fld_base = 0x00005620, fld_stride = 0, fld_count = Some 1,
     fld_msk = 0x000003FF, fld_mskn = Some 0xFFFFFC00, fld_shift = 0, fld_width = Some 10, fld_dflt = Some 25\<rparr>"

definition HW_ATL_TDM_DCA_DCPUID :: reg_field where
  "HW_ATL_TDM_DCA_DCPUID = \<lparr>fld_base = 0x00008400, fld_stride = 0x4, fld_count = Some 32,
     fld_msk = 0x000000FF, fld_mskn = Some 0xFFFFFF00, fld_shift = 0, fld_width = Some 8, fld_dflt = Some 0\<rparr>"

definition HW_ATL_TDM_DCA_DDESC_EN :: reg_field where
  "HW_ATL_TDM_DCA_DDESC_EN = \<lparr>fld_base = 0x00008400, fld_stride = 0x4, fld_count = Some 32,
     fld_msk = 0x80000000, fld_mskn = Some 0x7FFFFFFF, fld_shift = 31, fld_width = Some 1, fld_dflt = Some 0\<rparr>"

definition HW_ATL_TDM_DESC_DEN :: reg_field where
  "HW_ATL_TDM_DESC_DEN = \<lparr>fld_base = 0x00007C08, fld_stride = 0x40, fld_count = Some 32,
     fld_msk = 0x80000000, fld_mskn = Some 0x7FFFFFFF, fld_shift = 31, fld_width = Some 1, fld_dflt = Some 0\<rparr>"

definition HW_ATL_TDM_DESC_DHD :: reg_field where
  "HW_ATL_TDM_DESC_DHD = \<lparr>fld_base = 0x00007C0C, fld_stride = 0x40, fld_count = Some 32,
     fld_msk = 0x00001FFF, fld_mskn = Some 0xFFFFE000, fld_shift = 0, fld_width = Some 13, fld_dflt = None\<rparr>"

definition HW_ATL_TDM_DESC_DLEN :: reg_field where
  "HW_ATL_TDM_DESC_DLEN = \<lparr>fld_base = 0x00007C08, fld_stride = 0x40, fld_count = Some 32,
     fld_msk = 0x00001FF8, fld_mskn = Some 0xFFFFE007, fld_shift = 3, fld_width = Some 10, fld_dflt = Some 0\<rparr>"

definition HW_ATL_TDM_DESC_DWRB_THRESH :: reg_field where
  "HW_ATL_TDM_DESC_DWRB_THRESH = \<lparr>fld_base = 0x00007C18, fld_stride = 0x40, fld_count = Some 32,
     fld_msk = 0x00007F00, fld_mskn = Some 0xFFFF80FF, fld_shift = 8, fld_width = Some 7, fld_dflt = Some 0\<rparr>"

definition HW_ATL_TDM_INT_MOD_EN :: reg_field where
  "HW_ATL_TDM_INT_MOD_EN = \<lparr>fld_base = 0x00007B40, fld_stride = 0, fld_count = Some 1,
     fld_msk = 0x00000010, fld_mskn = Some 0xFFFFFFEF, fld_shift = 4, fld_width = Some 1, fld_dflt = Some 0\<rparr>"

definition HW_ATL_THM_LSO_TCP_FLAG_MID :: reg_field where
  "HW_ATL_THM_LSO_TCP_FLAG_MID = \<lparr>fld_base = 0x00007820, fld_stride = 0, fld_count = Some 1,
     fld_msk = 0x0fff0000, fld_mskn = Some 0xf000ffff, fld_shift = 16, fld_width = Some 12, fld_dflt = Some 0\<rparr>"

definition HW_ATL_TPB_TX_BUF_EN :: reg_field where
  "HW_ATL_TPB_TX_BUF_EN = \<lparr>fld_base = 0x00007900, fld_stride = 0, fld_count = Some 1,
     fld_msk = 0x00000001, fld_mskn = Some 0xfffffffe, fld_shift = 0, fld_width = Some 1, fld_dflt = Some 0\<rparr>"

definition HW_ATL_TPB_TX_TC_MODE :: reg_field where
  "HW_ATL_TPB_TX_TC_MODE = \<lparr>fld_base = 0x00007900, fld_stride = 0, fld_count = Some 1,
     fld_msk = 0x00000100, fld_mskn = Some 0xFFFFFEFF, fld_shift = 8, fld_width = Some 1, fld_dflt = Some 0\<rparr>"

definition HW_ATL_TPB_TXBHI_THRESH :: reg_field where
  "HW_ATL_TPB_TXBHI_THRESH = \<lparr>fld_base = 0x00007914, fld_stride = 0x10, fld_count = Some 8,
     fld_msk = 0x1fff0000, fld_mskn = Some 0xe000ffff, fld_shift = 16, fld_width = Some 13, fld_dflt = Some 0\<rparr>"

definition HW_ATL_TPB_TXBLO_THRESH :: reg_field where
  "HW_ATL_TPB_TXBLO_THRESH = \<lparr>fld_base = 0x00007914, fld_stride = 0x10, fld_count = Some 8,
     fld_msk = 0x00001fff, fld_mskn = Some 0xffffe000, fld_shift = 0, fld_width = Some 13, fld_dflt = Some 0\<rparr>"

definition HW_ATL_TPB_DMA_SYS_LBK :: reg_field where
  "HW_ATL_TPB_DMA_SYS_LBK = \<lparr>fld_base = 0x00007000, fld_stride = 0, fld_count = Some 1,
     fld_msk = 0x00000040, fld_mskn = Some 0xffffffbf, fld_shift = 6, fld_width = Some 1, fld_dflt = Some 0\<rparr>"

definition HW_ATL_TPB_DMA_NET_LBK :: reg_field where
  "HW_ATL_TPB_DMA_NET_LBK = \<lparr>fld_base = 0x00007000, fld_stride = 0, fld_count = Some 1,
     fld_msk = 0x00000010, fld_mskn = Some 0xffffffef, fld_shift = 4, fld_width = Some 1, fld_dflt = Some 0\<rparr>"

definition HW_ATL_TPB_TXBBUF_SIZE :: reg_field where
  "HW_ATL_TPB_TXBBUF_SIZE = \<lparr>fld_base = 0x00007910, fld_stride = 0x10, fld_count = Some 8,
     fld_msk = 0x000000ff, fld_mskn = Some 0xffffff00, fld_shift = 0, fld_width = Some 8, fld_dflt = Some 0\<rparr>"

definition HW_ATL_TPB_TX_SCP_INS_EN :: reg_field where
  "HW_ATL_TPB_TX_SCP_INS_EN = \<lparr>fld_base = 0x00007900, fld_stride = 0, fld_count = Some 1,
     fld_msk = 0x00000004, fld_mskn = Some 0xfffffffb, fld_shift = 2, fld_width = Some 1, fld_dflt = Some 0\<rparr>"

definition HW_ATL_TPO_IPV4CHK_EN :: reg_field where
  "HW_ATL_TPO_IPV4CHK_EN = \<lparr>fld_base = 0x00007800, fld_stride = 0, fld_count = Some 1,
     fld_msk = 0x00000002, fld_mskn = Some 0xfffffffd, fld_shift = 1, fld_width = Some 1, fld_dflt = Some 0\<rparr>"

definition HW_ATL_TPOL4CHK_EN :: reg_field where
  "HW_ATL_TPOL4CHK_EN = \<lparr>fld_base = 0x00007800, fld_stride = 0, fld_count = Some 1,
     fld_msk = 0x00000001, fld_mskn = Some 0xfffffffe, fld_shift = 0, fld_width = Some 1, fld_dflt = Some 0\<rparr>"

definition HW_ATL_TPO_PKT_SYS_LBK :: reg_field where
  "HW_ATL_TPO_PKT_SYS_LBK = \<lparr>fld_base = 0x00007000, fld_stride = 0, fld_count = Some 1,
     fld_msk = 0x00000080, fld_mskn = Some 0xffffff7f, fld_shift = 7, fld_width = Some 1, fld_dflt = Some 0\<rparr>"

definition HW_ATL_TPS_DATA_TC_ARB_MODE :: reg_field where
  "HW_ATL_TPS_DATA_TC_ARB_MODE = \<lparr>fld_base = 0x00007100, fld_stride = 0, fld_count = Some 1,
     fld_msk = 0x00000001, fld_mskn = Some 0xfffffffe, fld_shift = 0, fld_width = Some 1, fld_dflt = Some 0\<rparr>"

definition HW_ATL_TPS_DESC_RATE_TA_RST :: reg_field where
  "HW_ATL_TPS_DESC_RATE_TA_RST = \<lparr>fld_base = 0x00007310, fld_stride = 0, fld_count = Some 1,
     fld_msk = 0x80000000, fld_mskn = Some 0x7fffffff, fld_shift = 31, fld_width = Some 1, fld_dflt = Some 0\<rparr>"

definition HW_ATL_TPS_DESC_RATE_LIM :: reg_field where
  "HW_ATL_TPS_DESC_RATE_LIM = \<lparr>fld_base = 0x00007310, fld_stride = 0, fld_count = Some 1,
     fld_msk = 0x000007ff, fld_mskn = Some 0xfffff800, fld_shift = 0, fld_width = Some 11, fld_dflt = Some 0\<rparr>"

definition HW_ATL_TPS_DESC_TC_ARB_MODE :: reg_field where
  "HW_ATL_TPS_DESC_TC_ARB_MODE = \<lparr>fld_base = 0x00007200, fld_stride = 0, fld_count = Some 1,
     fld_msk = 0x00000003, fld_mskn = Some 0xfffffffc, fld_shift = 0, fld_width = Some 2, fld_dflt = Some 0\<rparr>"

definition HW_ATL_TPS_DESC_TCTCREDIT_MAX :: reg_field where
  "HW_ATL_TPS_DESC_TCTCREDIT_MAX = \<lparr>fld_base = 0x00007210, fld_stride = 0x4, fld_count = Some 8,
     fld_msk = 0x0fff0000, fld_mskn = Some 0xf000ffff, fld_shift = 16, fld_width = Some 12, fld_dflt = Some 0\<rparr>"

definition HW_ATL_TPS_DESC_TCTWEIGHT :: reg_field where
  "HW_ATL_TPS_DESC_TCTWEIGHT = \<lparr>fld_base = 0x00007210, fld_stride = 0x4, fld_count = Some 8,
     fld_msk = 0x000001ff, fld_mskn = Some 0xfffffe00, fld_shift = 0, fld_width = Some 9, fld_dflt = Some 0\<rparr>"

definition HW_ATL_TPS_DESC_VM_ARB_MODE :: reg_field where
  "HW_ATL_TPS_DESC_VM_ARB_MODE = \<lparr>fld_base = 0x00007300, fld_stride = 0, fld_count = Some 1,
     fld_msk = 0x00000001, fld_mskn = Some 0xfffffffe, fld_shift = 0, fld_width = Some 1, fld_dflt = Some 0\<rparr>"

definition HW_ATL_TPS_DATA_TCTCREDIT_MAX :: reg_field where
  "HW_ATL_TPS_DATA_TCTCREDIT_MAX = \<lparr>fld_base = 0x00007110, fld_stride = 0x4, fld_count = Some 8,
     fld_msk = 0x0fff0000, fld_mskn = Some 0xf000ffff, fld_shift = 16, fld_width = Some 12, fld_dflt = Some 0\<rparr>"

definition HW_ATL_TPS_DATA_TCTWEIGHT :: reg_field where
  "HW_ATL_TPS_DATA_TCTWEIGHT = \<lparr>fld_base = 0x00007110, fld_stride = 0x4, fld_count = Some 8,
     fld_msk = 0x000001ff, fld_mskn = Some 0xfffffe00, fld_shift = 0, fld_width = Some 9, fld_dflt = Some 0\<rparr>"

definition HW_ATL_TX_REG_RES_DSBL :: reg_field where
  "HW_ATL_TX_REG_RES_DSBL = \<lparr>fld_base = 0x00007000, fld_stride = 0, fld_count = Some 1,
     fld_msk = 0x20000000, fld_mskn = Some 0xdfffffff, fld_shift = 29, fld_width = Some 1, fld_dflt = Some 1\<rparr>"

definition HW_ATL_MSM_REG_ACCESS_BUSY :: reg_field where
  "HW_ATL_MSM_REG_ACCESS_BUSY = \<lparr>fld_base = 0x00004400, fld_stride = 0, fld_count = Some 1,
     fld_msk = 0x00001000, fld_mskn = Some 0xffffefff, fld_shift = 12, fld_width = Some 1, fld_dflt = None\<rparr>"

definition HW_ATL_MSM_REG_ADDR :: reg_field where
  "HW_ATL_MSM_REG_ADDR = \<lparr>fld_base = 0x00004400, fld_stride = 0, fld_count = Some 1,
     fld_msk = 0x000000ff, fld_mskn = Some 0xffffff00, fld_shift = 0, fld_width = Some 8, fld_dflt = Some 0\<rparr>"

definition HW_ATL_MSM_REG_RD_STROBE :: reg_field where
  "HW_ATL_MSM_REG_RD_STROBE = \<lparr>fld_base = 0x00004400, fld_stride = 0, fld_count = Some 1,
     fld_msk = 0x00000200, fld_mskn = Some 0xfffffdff, fld_shift = 9, fld_width = Some 1, fld_dflt = Some 0\<rparr>"

definition HW_ATL_MSM_REG_RD_DATA :: reg_field where
  "HW_ATL_MSM_REG_RD_DATA = \<lparr>fld_base = 0x00004408, fld_stride = 0, fld_count = Some 1,
     fld_msk = 0xffffffff, fld_mskn = Some 0x00000000, fld_shift = 0, fld_width = Some 32, fld_dflt = None\<rparr>"

definition HW_ATL_MSM_REG_WR_DATA :: reg_field where
  "HW_ATL_MSM_REG_WR_DATA = \<lparr>fld_base = 0x00004404, fld_stride = 0, fld_count = Some 1,
     fld_msk = 0xffffffff, fld_mskn = Some 0x00000000, fld_shift = 0, fld_width = Some 32, fld_dflt = Some 0\<rparr>"

definition HW_ATL_MSM_REG_WR_STROBE :: reg_field where
  "HW_ATL_MSM_REG_WR_STROBE = \<lparr>fld_base = 0x00004400, fld_stride = 0, fld_count = Some 1,
     fld_msk = 0x00000100, fld_mskn = Some 0xfffffeff, fld_shift = 8, fld_width = Some 1, fld_dflt = Some 0\<rparr>"

definition HW_ATL_PCS_PTP_CLOCK_READ_ENABLE :: reg_field where
  "HW_ATL_PCS_PTP_CLOCK_READ_ENABLE = \<lparr>fld_base = 0x00004628, fld_stride = 0, fld_count = Some 1,
     fld_msk = 0x00000010, fld_mskn = Some 0xFFFFFFEF, fld_shift = 4, fld_width = Some 1, fld_dflt = Some 0\<rparr>"

definition HW_ATL_GLB_SOFT_RES :: reg_field where
  "HW_ATL_GLB_SOFT_RES = \<lparr>fld_base = 0x00000000, fld_stride = 0, fld_count = Some 1,
     fld_msk = 0x00008000, fld_mskn = Some 0xffff7fff, fld_shift = 15, fld_width = Some 1, fld_dflt = Some 0\<rparr>"

definition HW_ATL_GLB_REG_RES_DIS :: reg_field where
  "HW_ATL_GLB_REG_RES_DIS = \<lparr>fld_base = 0x00000000, fld_stride = 0, fld_count = Some 1,
     fld_msk = 0x00004000, fld_mskn = Some 0xffffbfff, fld_shift = 14, fld_width = Some 1, fld_dflt = Some 1\<rparr>"

definition HW_ATL_PCI_REG_RES_DSBL :: reg_field where
  "HW_ATL_PCI_REG_RES_DSBL = \<lparr>fld_base = 0x00001000, fld_stride = 0, fld_count = Some 1,
     fld_msk = 0x20000000, fld_mskn = Some 0xdfffffff, fld_shift = 29, fld_width = Some 1, fld_dflt = Some 1\<rparr>"

definition HW_ATL_MDIO_BUSY :: reg_field where
  "HW_ATL_MDIO_BUSY = \<lparr>fld_base = 0x00000284, fld_stride = 0, fld_count = Some 1,
     fld_msk = 0x80000000, fld_mskn = Some 0x7FFFFFFF, fld_shift = 31, fld_width = Some 1, fld_dflt = None\<rparr>"

definition HW_ATL_MDIO_EXECUTE_OPERATION :: reg_field where
  "HW_ATL_MDIO_EXECUTE_OPERATION = \<lparr>fld_base = 0x00000284, fld_stride = 0, fld_count = Some 1,
     fld_msk = 0x00008000, fld_mskn = Some 0xFFFF7FFF, fld_shift = 15, fld_width = Some 1, fld_dflt = Some 0\<rparr>"

definition HW_ATL_MDIO_OP_MODE :: reg_field where
  "HW_ATL_MDIO_OP_MODE = \<lparr>fld_base = 0x00000284, fld_stride = 0, fld_count = Some 1,
     fld_msk = 0x00003000, fld_mskn = Some 0xFFFFCFFF, fld_shift = 12, fld_width = Some 2, fld_dflt = Some 0\<rparr>"

definition HW_ATL_MDIO_PHY_ADDRESS :: reg_field where
  "HW_ATL_MDIO_PHY_ADDRESS = \<lparr>fld_base = 0x00000284, fld_stride = 0, fld_count = Some 1,
     fld_msk = 0x000003FF, fld_mskn = Some 0xFFFFFC00, fld_shift = 0, fld_width = Some 10, fld_dflt = Some 0\<rparr>"

definition HW_ATL_MDIO_WRITE_DATA :: reg_field where
  "HW_ATL_MDIO_WRITE_DATA = \<lparr>fld_base = 0x00000288, fld_stride = 0, fld_count = Some 1,
     fld_msk = 0x0000FFFF, fld_mskn = Some 0xFFFF0000, fld_shift = 0, fld_width = Some 16, fld_dflt = Some 0\<rparr>"

definition HW_ATL_MDIO_ADDRESS :: reg_field where
  "HW_ATL_MDIO_ADDRESS = \<lparr>fld_base = 0x0000028C, fld_stride = 0, fld_count = Some 1,
     fld_msk = 0x0000FFFF, fld_mskn = Some 0xFFFF0000, fld_shift = 0, fld_width = Some 16, fld_dflt = Some 0\<rparr>"

definition mcp_up_force_interrupt :: reg_field where
  "mcp_up_force_interrupt = \<lparr>fld_base = 0x00000404, fld_stride = 0, fld_count = Some 1,
     fld_msk = 0x00000002, fld_mskn = Some 0xFFFFFFFD, fld_shift = 1, fld_width = Some 1, fld_dflt = Some 0\<rparr>"

text \<open>All bit-fields of the header, in its order.\<close>

definition llh_fields :: "reg_field list" where
  "llh_fields = [
    HW_ATL_ITR_REG_RES_DSBL,
    HW_ATL_ITR_RES,
    HW_ATL_ITR_RSC_DELAY,
    HW_ATL_RDM_DCADCPUID,
    HW_ATL_RDM_DCA_EN,
    HW_ATL_RDM_DCA_MODE,
    HW_ATL_RDM_DESCDDATA_SIZE,
    HW_ATL_RDM_DCADDESC_EN,
    HW_ATL_RDM_DESCDEN,
    HW_ATL_RDM_DESCDHDR_SIZE,
    HW_ATL_RDM_DESCDHDR_SPLIT,
    HW_ATL_RDM_DESCDHD,
    HW_ATL_RDM_DESCDLEN,
    HW_ATL_RDM_DESCDRESET,
    HW_ATL_RDM_RX_DMA_DESC_CACHE_INIT,
    HW_ATL_RDM_INT_DESC_WRB_EN,
    HW_ATL_RDM_DCADHDR_EN,
    HW_ATL_RDM_DCADPAY_EN,
    HW_ATL_RDM_INT_RIM_EN,
    HW_ATL_TDM_TX_DMA_DEBUG_CTL,
    HW_ATL_RPB_DMA_SYS_LBK,
    HW_ATL_RPB_DMA_NET_LBK,
    HW_ATL_RPB_RPF_RX_TC_MODE,
    HW_ATL_RPB_RX_BUF_EN,
    HW_ATL_RPB_RXBHI_THRESH,
    HW_ATL_RPB_RXBLO_THRESH,
    HW_ATL_RPB_RX_FC_MODE,
    HW_ATL_RPB_RXBBUF_SIZE,
    HW_ATL_RPB_RXBXOFF_EN,
    HW_ATL_RPFL2BC_THRESH,
    HW_ATL_RPFL2BC_EN,
    HW_ATL_RPFL2BC_ACT,
    HW_ATL_RPFL2MC_ENF,
    HW_ATL_RPFL2PROMIS_MODE,
    HW_ATL_RPFL2UC_ACTF,
    HW_ATL_RPFL2UC_ENF,
    HW_ATL_RPFL2UC_DAFMSW,
    HW_ATL_RPFL2MC_ACCEPT_ALL,
    HW_ATL_RPF_RSS_KEY_ADDR,
    HW_ATL_RPF_RSS_KEY_WR_DATA,
    HW_ATL_RPF_RSS_KEY_WR_ENI,
    HW_ATL_RPF_RSS_REDIR_ADDR,
    HW_ATL_RPF_RSS_REDIR_WR_DATA,
    HW_ATL_RPF_RSS_REDIR_WR_ENI,
    HW_ATL_RPF_TPO_RPF_SYS_LBK,
    HW_ATL_RPF_VL_INNER_TPID,
    HW_ATL_RPF_VL_OUTER_TPID,
    HW_ATL_RPF_VL_PROMIS_MODE,
    HW_ATL_RPF_VL_ACCEPT_UNTAGGED_MODE,
    HW_ATL_RPF_VL_UNTAGGED_ACT,
    HW_ATL_RPF_VL_EN_F,
    HW_ATL_RPF_VL_ACT_F,
    HW_ATL_RPF_VL_ID_F,
    HW_ATL_RPF_VL_RXQ_EN_F,
    HW_ATL_RPF_VL_RXQ_F,
    HW_ATL_RPF_ET_ENF,
    HW_ATL_RPF_ET_UPFEN,
    HW_ATL_RPF_ET_RXQFEN,
    HW_ATL_RPF_ET_UPF,
    HW_ATL_RPF_ET_RXQF,
    HW_ATL_RPF_ET_MNG_RXQF,
    HW_ATL_RPF_ET_ACTF,
    HW_ATL_RPF_ET_VALF,
    HW_ATL_RPF_L3_L4_ENF,
    HW_ATL_RPF_L3_V6_ENF,
    HW_ATL_RPF_L3_SAF_EN,
    HW_ATL_RPF_L3_DAF_EN,
    HW_ATL_RPF_L4_SPF_EN,
    HW_ATL_RPF_L4_DPF_EN,
    HW_ATL_RPF_L4_PROTF_EN,
    HW_ATL_RPF_L3_ARPF_EN,
    HW_ATL_RPF_L3_L4_RXQF_EN,
    HW_ATL_RPF_L3_L4_MNG_RXQF,
    HW_ATL_RPF_L3_L4_ACTF,
    HW_ATL_RPF_L3_L4_RXQF,
    HW_ATL_RPF_L4_PROTF,
    HW_ATL_RPF_L4_SPD,
    HW_ATL_RPF_L4_DPD,
    HW_ATL_RPO_IPV4CHK_EN,
    HW_ATL_RPO_DESCDVL_STRIP,
    HW_ATL_RPOL4CHK_EN,
    HW_ATL_RPO_OUTER_VL_INS_MODE,
    HW_ATL_RX_REG_RES_DSBL,
    HW_ATL_TDM_DCADCPUID,
    HW_ATL_TDM_LSO_EN,
    HW_ATL_TDM_DCA_EN,
    HW_ATL_TDM_DCA_MODE,
    HW_ATL_TDM_DCADDESC_EN,
    HW_ATL_TDM_DESCDEN,
    HW_ATL_TDM_DESCDHD,
    HW_ATL_TDM_DESCDLEN,
    HW_ATL_TDM_INT_DESC_WRB_EN,
    HW_ATL_TDM_DESCDWRB_THRESH,
    HW_ATL_THM_LSO_TCP_FLAG_FIRST,
    HW_ATL_THM_LSO_TCP_FLAG_LAST,
    HW_ATL_RPO_LRO_RSC_MAX,
    HW_ATL_RPO_LRO_EN,
    HW_ATL_RPO_LRO_PTOPT_EN,
    HW_ATL_RPO_LRO_QSES_LMT,
    HW_ATL_RPO_LRO_TOT_DSC_LMT,
    HW_ATL_RPO_LRO_PKT_MIN,
    HW_ATL_RPO_LRO_TB_DIV,
    HW_ATL_RPO_LRO_INA_IVAL,
    HW_ATL_RPO_LRO_MAX_IVAL,
    HW_ATL_TDM_DCA_DCPUID,
    HW_ATL_TDM_DCA_DDESC_EN,
    HW_ATL_TDM_DESC_DEN,
    HW_ATL_TDM_DESC_DHD,
    HW_ATL_TDM_DESC_DLEN,
    HW_ATL_TDM_DESC_DWRB_THRESH,
    HW_ATL_TDM_INT_MOD_EN,
    HW_ATL_THM_LSO_TCP_FLAG_MID,
    HW_ATL_TPB_TX_BUF_EN,
    HW_ATL_TPB_TX_TC_MODE,
    HW_ATL_TPB_TXBHI_THRESH,
    HW_ATL_TPB_TXBLO_THRESH,
    HW_ATL_TPB_DMA_SYS_LBK,
    HW_ATL_TPB_DMA_NET_LBK,
    HW_ATL_TPB_TXBBUF_SIZE,
    HW_ATL_TPB_TX_SCP_INS_EN,
    HW_ATL_TPO_IPV4CHK_EN,
    HW_ATL_TPOL4CHK_EN,
    HW_ATL_TPO_PKT_SYS_LBK,
    HW_ATL_TPS_DATA_TC_ARB_MODE,
    HW_ATL_TPS_DESC_RATE_TA_RST,
    HW_ATL_TPS_DESC_RATE_LIM,
    HW_ATL_TPS_DESC_TC_ARB_MODE,
    HW_ATL_TPS_DESC_TCTCREDIT_MAX,
    HW_ATL_TPS_DESC_TCTWEIGHT,
    HW_ATL_TPS_DESC_VM_ARB_MODE,
    HW_ATL_TPS_DATA_TCTCREDIT_MAX,
    HW_ATL_TPS_DATA_TCTWEIGHT,
    HW_ATL_TX_REG_RES_DSBL,
    HW_ATL_MSM_REG_ACCESS_BUSY,
    HW_ATL_MSM_REG_ADDR,
    HW_ATL_MSM_REG_RD_STROBE,
    HW_ATL_MSM_REG_RD_DATA,
    HW_ATL_MSM_REG_WR_DATA,
    HW_ATL_MSM_REG_WR_STROBE,
    HW_ATL_PCS_PTP_CLOCK_READ_ENABLE,
    HW_ATL_GLB_SOFT_RES,
    HW_ATL_GLB_REG_RES_DIS,
    HW_ATL_PCI_REG_RES_DSBL,
    HW_ATL_MDIO_BUSY,
    HW_ATL_MDIO_EXECUTE_OPERATION,
    HW_ATL_MDIO_OP_MODE,
    HW_ATL_MDIO_PHY_ADDRESS,
    HW_ATL_MDIO_WRITE_DATA,
    HW_ATL_MDIO_ADDRESS,
    mcp_up_force_interrupt]"

lemmas llh_field_defs =
  HW_ATL_ITR_REG_RES_DSBL_def
  HW_ATL_ITR_RES_def
  HW_ATL_ITR_RSC_DELAY_def
  HW_ATL_RDM_DCADCPUID_def
  HW_ATL_RDM_DCA_EN_def
  HW_ATL_RDM_DCA_MODE_def
  HW_ATL_RDM_DESCDDATA_SIZE_def
  HW_ATL_RDM_DCADDESC_EN_def
  HW_ATL_RDM_DESCDEN_def
  HW_ATL_RDM_DESCDHDR_SIZE_def
  HW_ATL_RDM_DESCDHDR_SPLIT_def
  HW_ATL_RDM_DESCDHD_def
  HW_ATL_RDM_DESCDLEN_def
  HW_ATL_RDM_DESCDRESET_def
  HW_ATL_RDM_RX_DMA_DESC_CACHE_INIT_def
  HW_ATL_RDM_INT_DESC_WRB_EN_def
  HW_ATL_RDM_DCADHDR_EN_def
  HW_ATL_RDM_DCADPAY_EN_def
  HW_ATL_RDM_INT_RIM_EN_def
  HW_ATL_TDM_TX_DMA_DEBUG_CTL_def
  HW_ATL_RPB_DMA_SYS_LBK_def
  HW_ATL_RPB_DMA_NET_LBK_def
  HW_ATL_RPB_RPF_RX_TC_MODE_def
  HW_ATL_RPB_RX_BUF_EN_def
  HW_ATL_RPB_RXBHI_THRESH_def
  HW_ATL_RPB_RXBLO_THRESH_def
  HW_ATL_RPB_RX_FC_MODE_def
  HW_ATL_RPB_RXBBUF_SIZE_def
  HW_ATL_RPB_RXBXOFF_EN_def
  HW_ATL_RPFL2BC_THRESH_def
  HW_ATL_RPFL2BC_EN_def
  HW_ATL_RPFL2BC_ACT_def
  HW_ATL_RPFL2MC_ENF_def
  HW_ATL_RPFL2PROMIS_MODE_def
  HW_ATL_RPFL2UC_ACTF_def
  HW_ATL_RPFL2UC_ENF_def
  HW_ATL_RPFL2UC_DAFMSW_def
  HW_ATL_RPFL2MC_ACCEPT_ALL_def
  HW_ATL_RPF_RSS_KEY_ADDR_def
  HW_ATL_RPF_RSS_KEY_WR_DATA_def
  HW_ATL_RPF_RSS_KEY_WR_ENI_def
  HW_ATL_RPF_RSS_REDIR_ADDR_def
  HW_ATL_RPF_RSS_REDIR_WR_DATA_def
  HW_ATL_RPF_RSS_REDIR_WR_ENI_def
  HW_ATL_RPF_TPO_RPF_SYS_LBK_def
  HW_ATL_RPF_VL_INNER_TPID_def
  HW_ATL_RPF_VL_OUTER_TPID_def
  HW_ATL_RPF_VL_PROMIS_MODE_def
  HW_ATL_RPF_VL_ACCEPT_UNTAGGED_MODE_def
  HW_ATL_RPF_VL_UNTAGGED_ACT_def
  HW_ATL_RPF_VL_EN_F_def
  HW_ATL_RPF_VL_ACT_F_def
  HW_ATL_RPF_VL_ID_F_def
  HW_ATL_RPF_VL_RXQ_EN_F_def
  HW_ATL_RPF_VL_RXQ_F_def
  HW_ATL_RPF_ET_ENF_def
  HW_ATL_RPF_ET_UPFEN_def
  HW_ATL_RPF_ET_RXQFEN_def
  HW_ATL_RPF_ET_UPF_def
  HW_ATL_RPF_ET_RXQF_def
  HW_ATL_RPF_ET_MNG_RXQF_def
  HW_ATL_RPF_ET_ACTF_def
  HW_ATL_RPF_ET_VALF_def
  HW_ATL_RPF_L3_L4_ENF_def
  HW_ATL_RPF_L3_V6_ENF_def
  HW_ATL_RPF_L3_SAF_EN_def
  HW_ATL_RPF_L3_DAF_EN_def
  HW_ATL_RPF_L4_SPF_EN_def
  HW_ATL_RPF_L4_DPF_EN_def
  HW_ATL_RPF_L4_PROTF_EN_def
  HW_ATL_RPF_L3_ARPF_EN_def
  HW_ATL_RPF_L3_L4_RXQF_EN_def
  HW_ATL_RPF_L3_L4_MNG_RXQF_def
  HW_ATL_RPF_L3_L4_ACTF_def
  HW_ATL_RPF_L3_L4_RXQF_def
  HW_ATL_RPF_L4_PROTF_def
  HW_ATL_RPF_L4_SPD_def
  HW_ATL_RPF_L4_DPD_def
  HW_ATL_RPO_IPV4CHK_EN_def
  HW_ATL_RPO_DESCDVL_STRIP_def
  HW_ATL_RPOL4CHK_EN_def
  HW_ATL_RPO_OUTER_VL_INS_MODE_def
  HW_ATL_RX_REG_RES_DSBL_def
  HW_ATL_TDM_DCADCPUID_def
  HW_ATL_TDM_LSO_EN_def
  HW_ATL_TDM_DCA_EN_def
  HW_ATL_TDM_DCA_MODE_def
  HW_ATL_TDM_DCADDESC_EN_def
  HW_ATL_TDM_DESCDEN_def
  HW_ATL_TDM_DESCDHD_def
  HW_ATL_TDM_DESCDLEN_def
  HW_ATL_TDM_INT_DESC_WRB_EN_def
  HW_ATL_TDM_DESCDWRB_THRESH_def
  HW_ATL_THM_LSO_TCP_FLAG_FIRST_def
  HW_ATL_THM_LSO_TCP_FLAG_LAST_def
  HW_ATL_RPO_LRO_RSC_MAX_def
  HW_ATL_RPO_LRO_EN_def
  HW_ATL_RPO_LRO_PTOPT_EN_def
  HW_ATL_RPO_LRO_QSES_LMT_def
  HW_ATL_RPO_LRO_TOT_DSC_LMT_def
  HW_ATL_RPO_LRO_PKT_MIN_def
  HW_ATL_RPO_LRO_TB_DIV_def
  HW_ATL_RPO_LRO_INA_IVAL_def
  HW_ATL_RPO_LRO_MAX_IVAL_def
  HW_ATL_TDM_DCA_DCPUID_def
  HW_ATL_TDM_DCA_DDESC_EN_def
  HW_ATL_TDM_DESC_DEN_def
  HW_ATL_TDM_DESC_DHD_def
  HW_ATL_TDM_DESC_DLEN_def
  HW_ATL_TDM_DESC_DWRB_THRESH_def
  HW_ATL_TDM_INT_MOD_EN_def
  HW_ATL_THM_LSO_TCP_FLAG_MID_def
  HW_ATL_TPB_TX_BUF_EN_def
  HW_ATL_TPB_TX_TC_MODE_def
  HW_ATL_TPB_TXBHI_THRESH_def
  HW_ATL_TPB_TXBLO_THRESH_def
  HW_ATL_TPB_DMA_SYS_LBK_def
  HW_ATL_TPB_DMA_NET_LBK_def
  HW_ATL_TPB_TXBBUF_SIZE_def
  HW_ATL_TPB_TX_SCP_INS_EN_def
  HW_ATL_TPO_IPV4CHK_EN_def
  HW_ATL_TPOL4CHK_EN_def
  HW_ATL_TPO_PKT_SYS_LBK_def
  HW_ATL_TPS_DATA_TC_ARB_MODE_def
  HW_ATL_TPS_DESC_RATE_TA_RST_def
  HW_ATL_TPS_DESC_RATE_LIM_def
  HW_ATL_TPS_DESC_TC_ARB_MODE_def
  HW_ATL_TPS_DESC_TCTCREDIT_MAX_def
  HW_ATL_TPS_DESC_TCTWEIGHT_def
  HW_ATL_TPS_DESC_VM_ARB_MODE_def
  HW_ATL_TPS_DATA_TCTCREDIT_MAX_def
  HW_ATL_TPS_DATA_TCTWEIGHT_def
  HW_ATL_TX_REG_RES_DSBL_def
  HW_ATL_MSM_REG_ACCESS_BUSY_def
  HW_ATL_MSM_REG_ADDR_def
  HW_ATL_MSM_REG_RD_STROBE_def
  HW_ATL_MSM_REG_RD_DATA_def
  HW_ATL_MSM_REG_WR_DATA_def
  HW_ATL_MSM_REG_WR_STROBE_def
  HW_ATL_PCS_PTP_CLOCK_READ_ENABLE_def
  HW_ATL_GLB_SOFT_RES_def
  HW_ATL_GLB_REG_RES_DIS_def
  HW_ATL_PCI_REG_RES_DSBL_def
  HW_ATL_MDIO_BUSY_def
  HW_ATL_MDIO_EXECUTE_OPERATION_def
  HW_ATL_MDIO_OP_MODE_def
  HW_ATL_MDIO_PHY_ADDRESS_def
  HW_ATL_MDIO_WRITE_DATA_def
  HW_ATL_MDIO_ADDRESS_def
  mcp_up_force_interrupt_def

subsection \<open>Consistency of the header\<close>

definition field_mask :: "nat \<Rightarrow> nat \<Rightarrow> u32" where
  "field_mask sh w = push_bit sh (mask w)"

text \<open>
  \<open>wf_field\<close>: the mask is the \<open>w\<close> contiguous bits from the shift up, inside the
  register, where \<open>w\<close> is the documented width (any width where none is documented), and
  the inverted mask, where there is one, is the complement.
\<close>

definition wf_field :: "reg_field \<Rightarrow> bool" where
  "wf_field f \<longleftrightarrow>
     (case fld_width f of
        Some w \<Rightarrow> 0 < w \<and> w + fld_shift f \<le> 32 \<and> fld_msk f = field_mask (fld_shift f) w
      | None \<Rightarrow> list_ex (\<lambda>w. w + fld_shift f \<le> 32 \<and> fld_msk f = field_mask (fld_shift f) w) [1..<33]) \<and>
     (case fld_mskn f of Some n \<Rightarrow> n = NOT (fld_msk f) | None \<Rightarrow> True)"

text \<open>Two fields of one register bank are disjoint, or one field under two names.\<close>

definition same_bank :: "reg_field \<Rightarrow> reg_field \<Rightarrow> bool" where
  "same_bank f g \<longleftrightarrow> fld_base f = fld_base g \<and> fld_stride f = fld_stride g"

definition disjoint_or_alias :: "reg_field \<Rightarrow> reg_field \<Rightarrow> bool" where
  "disjoint_or_alias f g \<longleftrightarrow>
     same_bank f g \<longrightarrow> fld_msk f AND fld_msk g = 0 \<or>
       (fld_msk f = fld_msk g \<and> fld_shift f = fld_shift g)"

fun pairwise_ok :: "reg_field list \<Rightarrow> bool" where
  "pairwise_ok [] = True"
| "pairwise_ok (f # fs) = (list_all (disjoint_or_alias f) fs \<and> pairwise_ok fs)"

lemma llh_fields_wf: "list_all wf_field llh_fields"
  by (simp add: llh_fields_def llh_field_defs wf_field_def field_mask_def mask_eq_exp_minus_1
      upt_rec)

text \<open>
  The pairwise check runs on integer keys of the fields, whose comparison is cheap.
\<close>

fun keys_ok :: "(int \<times> int \<times> u32 \<times> nat) list \<Rightarrow> bool" where
  "keys_ok [] = True"
| "keys_ok ((b, st, m, sh) # ks) =
     (list_all (\<lambda>(b', st', m', sh'). b = b' \<longrightarrow> st = st' \<longrightarrow>
        m AND m' = 0 \<or> m = m' \<and> sh = sh') ks \<and> keys_ok ks)"

definition fld_key :: "reg_field \<Rightarrow> int \<times> int \<times> u32 \<times> nat" where
  "fld_key f = (uint (fld_base f), uint (fld_stride f), fld_msk f, fld_shift f)"

lemma pairwise_ok_keys: "pairwise_ok fs \<longleftrightarrow> keys_ok (map fld_key fs)"
proof (induction fs)
  case Nil
  then show ?case by simp
next
  case (Cons f fs)
  have "list_all (disjoint_or_alias f) fs \<longleftrightarrow>
      list_all (\<lambda>(b', st', m', sh'). uint (fld_base f) = b' \<longrightarrow> uint (fld_stride f) = st' \<longrightarrow>
        fld_msk f AND m' = 0 \<or> fld_msk f = m' \<and> fld_shift f = sh') (map fld_key fs)"
    by (auto simp: list_all_iff disjoint_or_alias_def same_bank_def fld_key_def
        simp flip: word_uint_eq_iff)
  with Cons show ?case by (simp add: fld_key_def [of f])
qed

lemma llh_fields_pairwise: "pairwise_ok llh_fields"
proof -
  have "keys_ok (map fld_key llh_fields)"
    unfolding llh_fields_def
    by (simp add: fld_key_def llh_field_defs)
  then show ?thesis by (simp add: pairwise_ok_keys)
qed

text \<open>What the two checks give for any two fields of the header.\<close>

lemma pairwise_ok_nth:
  "pairwise_ok fs \<Longrightarrow> i < j \<Longrightarrow> j < length fs \<Longrightarrow> disjoint_or_alias (fs ! i) (fs ! j)"
proof (induction fs arbitrary: i j)
  case Nil
  then show ?case by simp
next
  case (Cons f fs)
  from Cons.prems obtain j' where j: "j = Suc j'" by (cases j) auto
  then show ?case
    using Cons by (cases i) (auto simp: list_all_length)
qed

lemma disjoint_or_alias_sym: "disjoint_or_alias f g \<Longrightarrow> disjoint_or_alias g f"
  by (auto simp: disjoint_or_alias_def same_bank_def and.commute)

lemma llh_fields_disjoint:
  assumes "f \<in> set llh_fields" "g \<in> set llh_fields"
  shows "disjoint_or_alias f g"
proof -
  obtain i j where ij: "i < length llh_fields" "f = llh_fields ! i"
    "j < length llh_fields" "g = llh_fields ! j"
    using assms by (metis in_set_conv_nth)
  consider "i < j" | "j < i" | "i = j" by linarith
  then show ?thesis
  proof cases
    case 3
    then show ?thesis using ij by (simp add: disjoint_or_alias_def)
  qed (use ij pairwise_ok_nth [OF llh_fields_pairwise] disjoint_or_alias_sym in \<open>auto\<close>)
qed

lemma llh_fields_mask:
  assumes "f \<in> set llh_fields"
  obtains w where "0 < w" "w + fld_shift f \<le> 32" "fld_msk f = field_mask (fld_shift f) w"
    "fld_width f = None \<or> fld_width f = Some w"
proof -
  have "wf_field f"
    using assms llh_fields_wf by (simp add: list_all_iff)
  then obtain w where "0 < w \<and> w + fld_shift f \<le> 32 \<and> fld_msk f = field_mask (fld_shift f) w \<and>
      (fld_width f = None \<or> fld_width f = Some w)"
    by (cases "fld_width f") (auto simp: wf_field_def list_ex_iff Suc_le_eq)
  then show ?thesis using that by blast
qed

lemma field_mask_bit: "bit (field_mask s w) k \<longleftrightarrow> s \<le> k \<and> k < s + w \<and> k < 32"
  by (auto simp: field_mask_def bit_push_bit_iff bit_mask_iff)

lemma field_mask_fits:
  assumes "unat v < 2 ^ w" "w + s \<le> 32"
  shows "push_bit s v AND field_mask s w = push_bit s v" "drop_bit s (push_bit s v) = v"
proof -
  have v: "k < w" if "bit v k" for k
  proof -
    have "take_bit w (unat v) = unat v"
      using assms(1) by (simp add: take_bit_nat_eq_self_iff)
    moreover have "bit (unat v) k"
      using that by (simp add: bit_unsigned_iff)
    ultimately have "bit (take_bit w (unat v)) k" by simp
    then show ?thesis by (simp add: bit_take_bit_iff)
  qed
  show "push_bit s v AND field_mask s w = push_bit s v"
    by (intro bit_word_eqI) (use v in \<open>force simp: bit_and_iff field_mask_bit bit_push_bit_iff\<close>)
  show "drop_bit s (push_bit s v) = v"
    using v assms(2) by (intro bit_word_eqI) (auto simp: bit_drop_bit_eq bit_push_bit_iff dest: v)
qed

end
