(* ===== verification/Llh_Ops.thy ===== *)
theory Llh_Ops
  imports Llh_Regs
begin

section \<open>Register access functions (hw_atl_llh.c)\<close>

text \<open>
  One definition per function of hw_atl_llh.c, in its order and with its argument order
  (context, value, instance index). Setters return the new context, getters the value and
  the new context. A table of the C code that is indexed by a queue number is a list, read
  with \<open>!\<close>: an index beyond the table is undefined in C and unspecified here; the callers'
  indices stay below the table sizes. The \<open>wmb()\<close> barrier before the transmit tail write
  orders memory accesses of other agents and has no counterpart in a sequential model.
\<close>

definition write_field :: "aq_hw_s \<Rightarrow> reg_field \<Rightarrow> u32 \<Rightarrow> u32 \<Rightarrow> aq_hw_s" where
  "write_field hw f i v = aq_hw_write_reg_bit hw (fld_adr f i) (fld_msk f) (fld_shift f) v"

definition read_field :: "aq_hw_s \<Rightarrow> reg_field \<Rightarrow> u32 \<Rightarrow> u32 \<times> aq_hw_s" where
  "read_field hw f i = aq_hw_read_reg_bit hw (fld_adr f i) (fld_msk f) (fld_shift f)"

definition hw_atl_reg_glb_cpu_sem_set :: "aq_hw_s \<Rightarrow> u32 \<Rightarrow> u32 \<Rightarrow> aq_hw_s" where
  "hw_atl_reg_glb_cpu_sem_set hw glb_cpu_sem semaphore =
     aq_hw_write_reg hw (HW_ATL_GLB_CPU_SEM_ADR semaphore) glb_cpu_sem"

definition hw_atl_reg_glb_cpu_sem_get :: "aq_hw_s \<Rightarrow> u32 \<Rightarrow> u32 \<times> aq_hw_s" where
  "hw_atl_reg_glb_cpu_sem_get hw semaphore =
     aq_hw_read_reg hw (HW_ATL_GLB_CPU_SEM_ADR semaphore)"

definition hw_atl_glb_glb_reg_res_dis_set :: "aq_hw_s \<Rightarrow> u32 \<Rightarrow> aq_hw_s" where
  "hw_atl_glb_glb_reg_res_dis_set hw glb_reg_res_dis =
     write_field hw HW_ATL_GLB_REG_RES_DIS 0 glb_reg_res_dis"

definition hw_atl_glb_soft_res_set :: "aq_hw_s \<Rightarrow> u32 \<Rightarrow> aq_hw_s" where
  "hw_atl_glb_soft_res_set hw soft_res =
     write_field hw HW_ATL_GLB_SOFT_RES 0 soft_res"

definition hw_atl_glb_soft_res_get :: "aq_hw_s \<Rightarrow> u32 \<times> aq_hw_s" where
  "hw_atl_glb_soft_res_get hw =
     read_field hw HW_ATL_GLB_SOFT_RES 0"

definition hw_atl_reg_glb_mif_id_get :: "aq_hw_s \<Rightarrow> u32 \<times> aq_hw_s" where
  "hw_atl_reg_glb_mif_id_get hw =
     aq_hw_read_reg hw HW_ATL_GLB_MIF_ID_ADR"

definition hw_atl_rpb_rx_dma_drop_pkt_cnt_get :: "aq_hw_s \<Rightarrow> u32 \<times> aq_hw_s" where
  "hw_atl_rpb_rx_dma_drop_pkt_cnt_get hw =
     aq_hw_read_reg hw HW_ATL_RPB_RX_DMA_DROP_PKT_CNT_ADR"

definition hw_atl_stats_rx_dma_good_octet_counterlsw_get :: "aq_hw_s \<Rightarrow> u32 \<times> aq_hw_s" where
  "hw_atl_stats_rx_dma_good_octet_counterlsw_get hw =
     aq_hw_read_reg hw HW_ATL_STATS_RX_DMA_GOOD_OCTET_COUNTERLSW"

definition hw_atl_stats_rx_dma_good_pkt_counterlsw_get :: "aq_hw_s \<Rightarrow> u32 \<times> aq_hw_s" where
  "hw_atl_stats_rx_dma_good_pkt_counterlsw_get hw =
     aq_hw_read_reg hw HW_ATL_STATS_RX_DMA_GOOD_PKT_COUNTERLSW"

definition hw_atl_stats_tx_dma_good_octet_counterlsw_get :: "aq_hw_s \<Rightarrow> u32 \<times> aq_hw_s" where
  "hw_atl_stats_tx_dma_good_octet_counterlsw_get hw =
     aq_hw_read_reg hw HW_ATL_STATS_TX_DMA_GOOD_OCTET_COUNTERLSW"

definition hw_atl_stats_tx_dma_good_pkt_counterlsw_get :: "aq_hw_s \<Rightarrow> u32 \<times> aq_hw_s" where
  "hw_atl_stats_tx_dma_good_pkt_counterlsw_get hw =
     aq_hw_read_reg hw HW_ATL_STATS_TX_DMA_GOOD_PKT_COUNTERLSW"

definition hw_atl_stats_rx_dma_good_octet_countermsw_get :: "aq_hw_s \<Rightarrow> u32 \<times> aq_hw_s" where
  "hw_atl_stats_rx_dma_good_octet_countermsw_get hw =
     aq_hw_read_reg hw HW_ATL_STATS_RX_DMA_GOOD_OCTET_COUNTERMSW"

definition hw_atl_stats_rx_dma_good_pkt_countermsw_get :: "aq_hw_s \<Rightarrow> u32 \<times> aq_hw_s" where
  "hw_atl_stats_rx_dma_good_pkt_countermsw_get hw =
     aq_hw_read_reg hw HW_ATL_STATS_RX_DMA_GOOD_PKT_COUNTERMSW"

definition hw_atl_stats_tx_dma_good_octet_countermsw_get :: "aq_hw_s \<Rightarrow> u32 \<times> aq_hw_s" where
  "hw_atl_stats_tx_dma_good_octet_countermsw_get hw =
     aq_hw_read_reg hw HW_ATL_STATS_TX_DMA_GOOD_OCTET_COUNTERMSW"

definition hw_atl_stats_tx_dma_good_pkt_countermsw_get :: "aq_hw_s \<Rightarrow> u32 \<times> aq_hw_s" where
  "hw_atl_stats_tx_dma_good_pkt_countermsw_get hw =
     aq_hw_read_reg hw HW_ATL_STATS_TX_DMA_GOOD_PKT_COUNTERMSW"

definition hw_atl_itr_irq_auto_masklsw_set :: "aq_hw_s \<Rightarrow> u32 \<Rightarrow> aq_hw_s" where
  "hw_atl_itr_irq_auto_masklsw_set hw irq_auto_masklsw =
     aq_hw_write_reg hw HW_ATL_ITR_IAMRLSW_ADR irq_auto_masklsw"

definition itr_imr_rxren_adr :: "u32 list" where
  "itr_imr_rxren_adr = [
     0x00002100, 0x00002100, 0x00002104, 0x00002104, 0x00002108, 0x00002108, 0x0000210C, 0x0000210C,
     0x00002110, 0x00002110, 0x00002114, 0x00002114, 0x00002118, 0x00002118, 0x0000211C, 0x0000211C,
     0x00002120, 0x00002120, 0x00002124, 0x00002124, 0x00002128, 0x00002128, 0x0000212C, 0x0000212C,
     0x00002130, 0x00002130, 0x00002134, 0x00002134, 0x00002138, 0x00002138, 0x0000213C, 0x0000213C]"

definition itr_imr_rxren_msk :: "u32 list" where
  "itr_imr_rxren_msk = [
     0x00008000, 0x00000080, 0x00008000, 0x00000080, 0x00008000, 0x00000080, 0x00008000, 0x00000080,
     0x00008000, 0x00000080, 0x00008000, 0x00000080, 0x00008000, 0x00000080, 0x00008000, 0x00000080,
     0x00008000, 0x00000080, 0x00008000, 0x00000080, 0x00008000, 0x00000080, 0x00008000, 0x00000080,
     0x00008000, 0x00000080, 0x00008000, 0x00000080, 0x00008000, 0x00000080, 0x00008000, 0x00000080]"

definition itr_imr_rxren_shift :: "nat list" where
  "itr_imr_rxren_shift = [
     15, 7, 15, 7, 15, 7, 15, 7,
     15, 7, 15, 7, 15, 7, 15, 7,
     15, 7, 15, 7, 15, 7, 15, 7,
     15, 7, 15, 7, 15, 7, 15, 7]"

definition hw_atl_itr_irq_map_en_rx_set :: "aq_hw_s \<Rightarrow> u32 \<Rightarrow> u32 \<Rightarrow> aq_hw_s" where
  "hw_atl_itr_irq_map_en_rx_set hw irq_map_en_rx rx =
     aq_hw_write_reg_bit hw (itr_imr_rxren_adr ! unat rx) (itr_imr_rxren_msk ! unat rx)
       (itr_imr_rxren_shift ! unat rx) irq_map_en_rx"

definition itr_imr_txten_adr :: "u32 list" where
  "itr_imr_txten_adr = [
     0x00002100, 0x00002100, 0x00002104, 0x00002104, 0x00002108, 0x00002108, 0x0000210C, 0x0000210C,
     0x00002110, 0x00002110, 0x00002114, 0x00002114, 0x00002118, 0x00002118, 0x0000211C, 0x0000211C,
     0x00002120, 0x00002120, 0x00002124, 0x00002124, 0x00002128, 0x00002128, 0x0000212C, 0x0000212C,
     0x00002130, 0x00002130, 0x00002134, 0x00002134, 0x00002138, 0x00002138, 0x0000213C, 0x0000213C]"

definition itr_imr_txten_msk :: "u32 list" where
  "itr_imr_txten_msk = [
     0x80000000, 0x00800000, 0x80000000, 0x00800000, 0x80000000, 0x00800000, 0x80000000, 0x00800000,
     0x80000000, 0x00800000, 0x80000000, 0x00800000, 0x80000000, 0x00800000, 0x80000000, 0x00800000,
     0x80000000, 0x00800000, 0x80000000, 0x00800000, 0x80000000, 0x00800000, 0x80000000, 0x00800000,
     0x80000000, 0x00800000, 0x80000000, 0x00800000, 0x80000000, 0x00800000, 0x80000000, 0x00800000]"

definition itr_imr_txten_shift :: "nat list" where
  "itr_imr_txten_shift = [
     31, 23, 31, 23, 31, 23, 31, 23,
     31, 23, 31, 23, 31, 23, 31, 23,
     31, 23, 31, 23, 31, 23, 31, 23,
     31, 23, 31, 23, 31, 23, 31, 23]"

definition hw_atl_itr_irq_map_en_tx_set :: "aq_hw_s \<Rightarrow> u32 \<Rightarrow> u32 \<Rightarrow> aq_hw_s" where
  "hw_atl_itr_irq_map_en_tx_set hw irq_map_en_tx tx =
     aq_hw_write_reg_bit hw (itr_imr_txten_adr ! unat tx) (itr_imr_txten_msk ! unat tx)
       (itr_imr_txten_shift ! unat tx) irq_map_en_tx"

definition itr_imr_rxr_adr :: "u32 list" where
  "itr_imr_rxr_adr = [
     0x00002100, 0x00002100, 0x00002104, 0x00002104, 0x00002108, 0x00002108, 0x0000210C, 0x0000210C,
     0x00002110, 0x00002110, 0x00002114, 0x00002114, 0x00002118, 0x00002118, 0x0000211C, 0x0000211C,
     0x00002120, 0x00002120, 0x00002124, 0x00002124, 0x00002128, 0x00002128, 0x0000212C, 0x0000212C,
     0x00002130, 0x00002130, 0x00002134, 0x00002134, 0x00002138, 0x00002138, 0x0000213C, 0x0000213C]"

definition itr_imr_rxr_msk :: "u32 list" where
  "itr_imr_rxr_msk = [
     0x00001f00, 0x0000001F, 0x00001F00, 0x0000001F, 0x00001f00, 0x0000001F, 0x00001F00, 0x0000001F,
     0x00001f00, 0x0000001F, 0x00001F00, 0x0000001F, 0x00001f00, 0x0000001F, 0x00001F00, 0x0000001F,
     0x00001f00, 0x0000001F, 0x00001F00, 0x0000001F, 0x00001f00, 0x0000001F, 0x00001F00, 0x0000001F,
     0x00001f00, 0x0000001F, 0x00001F00, 0x0000001F, 0x00001f00, 0x0000001F, 0x00001F00, 0x0000001F]"

definition itr_imr_rxr_shift :: "nat list" where
  "itr_imr_rxr_shift = [
     8, 0, 8, 0, 8, 0, 8, 0,
     8, 0, 8, 0, 8, 0, 8, 0,
     8, 0, 8, 0, 8, 0, 8, 0,
     8, 0, 8, 0, 8, 0, 8, 0]"

definition hw_atl_itr_irq_map_rx_set :: "aq_hw_s \<Rightarrow> u32 \<Rightarrow> u32 \<Rightarrow> aq_hw_s" where
  "hw_atl_itr_irq_map_rx_set hw irq_map_rx rx =
     aq_hw_write_reg_bit hw (itr_imr_rxr_adr ! unat rx) (itr_imr_rxr_msk ! unat rx)
       (itr_imr_rxr_shift ! unat rx) irq_map_rx"

definition itr_imr_txt_adr :: "u32 list" where
  "itr_imr_txt_adr = [
     0x00002100, 0x00002100, 0x00002104, 0x00002104, 0x00002108, 0x00002108, 0x0000210C, 0x0000210C,
     0x00002110, 0x00002110, 0x00002114, 0x00002114, 0x00002118, 0x00002118, 0x0000211C, 0x0000211C,
     0x00002120, 0x00002120, 0x00002124, 0x00002124, 0x00002128, 0x00002128, 0x0000212C, 0x0000212C,
     0x00002130, 0x00002130, 0x00002134, 0x00002134, 0x00002138, 0x00002138, 0x0000213C, 0x0000213C]"

definition itr_imr_txt_msk :: "u32 list" where
  "itr_imr_txt_msk = [
     0x1f000000, 0x001F0000, 0x1F000000, 0x001F0000, 0x1f000000, 0x001F0000, 0x1F000000, 0x001F0000,
     0x1f000000, 0x001F0000, 0x1F000000, 0x001F0000, 0x1f000000, 0x001F0000, 0x1F000000, 0x001F0000,
     0x1f000000, 0x001F0000, 0x1F000000, 0x001F0000, 0x1f000000, 0x001F0000, 0x1F000000, 0x001F0000,
     0x1f000000, 0x001F0000, 0x1F000000, 0x001F0000, 0x1f000000, 0x001F0000, 0x1F000000, 0x001F0000]"

definition itr_imr_txt_shift :: "nat list" where
  "itr_imr_txt_shift = [
     24, 16, 24, 16, 24, 16, 24, 16,
     24, 16, 24, 16, 24, 16, 24, 16,
     24, 16, 24, 16, 24, 16, 24, 16,
     24, 16, 24, 16, 24, 16, 24, 16]"

definition hw_atl_itr_irq_map_tx_set :: "aq_hw_s \<Rightarrow> u32 \<Rightarrow> u32 \<Rightarrow> aq_hw_s" where
  "hw_atl_itr_irq_map_tx_set hw irq_map_tx tx =
     aq_hw_write_reg_bit hw (itr_imr_txt_adr ! unat tx) (itr_imr_txt_msk ! unat tx)
       (itr_imr_txt_shift ! unat tx) irq_map_tx"

definition hw_atl_itr_irq_msk_clearlsw_set :: "aq_hw_s \<Rightarrow> u32 \<Rightarrow> aq_hw_s" where
  "hw_atl_itr_irq_msk_clearlsw_set hw irq_msk_clearlsw =
     aq_hw_write_reg hw HW_ATL_ITR_IMCRLSW_ADR irq_msk_clearlsw"

definition hw_atl_itr_irq_msk_setlsw_set :: "aq_hw_s \<Rightarrow> u32 \<Rightarrow> aq_hw_s" where
  "hw_atl_itr_irq_msk_setlsw_set hw irq_msk_setlsw =
     aq_hw_write_reg hw HW_ATL_ITR_IMSRLSW_ADR irq_msk_setlsw"

definition hw_atl_itr_irq_reg_res_dis_set :: "aq_hw_s \<Rightarrow> u32 \<Rightarrow> aq_hw_s" where
  "hw_atl_itr_irq_reg_res_dis_set hw irq_reg_res_dis =
     write_field hw HW_ATL_ITR_REG_RES_DSBL 0 irq_reg_res_dis"

definition hw_atl_itr_irq_status_clearlsw_set :: "aq_hw_s \<Rightarrow> u32 \<Rightarrow> aq_hw_s" where
  "hw_atl_itr_irq_status_clearlsw_set hw irq_status_clearlsw =
     aq_hw_write_reg hw HW_ATL_ITR_ISCRLSW_ADR irq_status_clearlsw"

definition hw_atl_itr_irq_statuslsw_get :: "aq_hw_s \<Rightarrow> u32 \<times> aq_hw_s" where
  "hw_atl_itr_irq_statuslsw_get hw =
     aq_hw_read_reg hw HW_ATL_ITR_ISRLSW_ADR"

definition hw_atl_itr_res_irq_get :: "aq_hw_s \<Rightarrow> u32 \<times> aq_hw_s" where
  "hw_atl_itr_res_irq_get hw =
     read_field hw HW_ATL_ITR_RES 0"

definition hw_atl_itr_res_irq_set :: "aq_hw_s \<Rightarrow> u32 \<Rightarrow> aq_hw_s" where
  "hw_atl_itr_res_irq_set hw res_irq =
     write_field hw HW_ATL_ITR_RES 0 res_irq"

definition hw_atl_itr_rsc_en_set :: "aq_hw_s \<Rightarrow> u32 \<Rightarrow> aq_hw_s" where
  "hw_atl_itr_rsc_en_set hw enable =
     aq_hw_write_reg hw HW_ATL_ITR_RSC_EN_ADR enable"

definition hw_atl_itr_rsc_delay_set :: "aq_hw_s \<Rightarrow> u32 \<Rightarrow> aq_hw_s" where
  "hw_atl_itr_rsc_delay_set hw delay =
     write_field hw HW_ATL_ITR_RSC_DELAY 0 delay"

definition hw_atl_rdm_cpu_id_set :: "aq_hw_s \<Rightarrow> u32 \<Rightarrow> u32 \<Rightarrow> aq_hw_s" where
  "hw_atl_rdm_cpu_id_set hw cpuid dca =
     write_field hw HW_ATL_RDM_DCADCPUID dca cpuid"

definition hw_atl_rdm_rx_dca_en_set :: "aq_hw_s \<Rightarrow> u32 \<Rightarrow> aq_hw_s" where
  "hw_atl_rdm_rx_dca_en_set hw rx_dca_en =
     write_field hw HW_ATL_RDM_DCA_EN 0 rx_dca_en"

definition hw_atl_rdm_rx_dca_mode_set :: "aq_hw_s \<Rightarrow> u32 \<Rightarrow> aq_hw_s" where
  "hw_atl_rdm_rx_dca_mode_set hw rx_dca_mode =
     write_field hw HW_ATL_RDM_DCA_MODE 0 rx_dca_mode"

definition hw_atl_rdm_rx_desc_data_buff_size_set :: "aq_hw_s \<Rightarrow> u32 \<Rightarrow> u32 \<Rightarrow> aq_hw_s" where
  "hw_atl_rdm_rx_desc_data_buff_size_set hw rx_desc_data_buff_size descriptor =
     write_field hw HW_ATL_RDM_DESCDDATA_SIZE descriptor rx_desc_data_buff_size"

definition hw_atl_rdm_rx_desc_dca_en_set :: "aq_hw_s \<Rightarrow> u32 \<Rightarrow> u32 \<Rightarrow> aq_hw_s" where
  "hw_atl_rdm_rx_desc_dca_en_set hw rx_desc_dca_en dca =
     write_field hw HW_ATL_RDM_DCADDESC_EN dca rx_desc_dca_en"

definition hw_atl_rdm_rx_desc_en_set :: "aq_hw_s \<Rightarrow> u32 \<Rightarrow> u32 \<Rightarrow> aq_hw_s" where
  "hw_atl_rdm_rx_desc_en_set hw rx_desc_en descriptor =
     write_field hw HW_ATL_RDM_DESCDEN descriptor rx_desc_en"

definition hw_atl_rdm_rx_desc_head_buff_size_set :: "aq_hw_s \<Rightarrow> u32 \<Rightarrow> u32 \<Rightarrow> aq_hw_s" where
  "hw_atl_rdm_rx_desc_head_buff_size_set hw rx_desc_head_buff_size descriptor =
     write_field hw HW_ATL_RDM_DESCDHDR_SIZE descriptor rx_desc_head_buff_size"

definition hw_atl_rdm_rx_desc_head_splitting_set :: "aq_hw_s \<Rightarrow> u32 \<Rightarrow> u32 \<Rightarrow> aq_hw_s" where
  "hw_atl_rdm_rx_desc_head_splitting_set hw rx_desc_head_splitting descriptor =
     write_field hw HW_ATL_RDM_DESCDHDR_SPLIT descriptor rx_desc_head_splitting"

definition hw_atl_rdm_rx_desc_head_ptr_get :: "aq_hw_s \<Rightarrow> u32 \<Rightarrow> u32 \<times> aq_hw_s" where
  "hw_atl_rdm_rx_desc_head_ptr_get hw descriptor =
     read_field hw HW_ATL_RDM_DESCDHD descriptor"

definition hw_atl_rdm_rx_desc_len_set :: "aq_hw_s \<Rightarrow> u32 \<Rightarrow> u32 \<Rightarrow> aq_hw_s" where
  "hw_atl_rdm_rx_desc_len_set hw rx_desc_len descriptor =
     write_field hw HW_ATL_RDM_DESCDLEN descriptor rx_desc_len"

definition hw_atl_rdm_rx_desc_res_set :: "aq_hw_s \<Rightarrow> u32 \<Rightarrow> u32 \<Rightarrow> aq_hw_s" where
  "hw_atl_rdm_rx_desc_res_set hw rx_desc_res descriptor =
     write_field hw HW_ATL_RDM_DESCDRESET descriptor rx_desc_res"

definition hw_atl_rdm_rx_desc_wr_wb_irq_en_set :: "aq_hw_s \<Rightarrow> u32 \<Rightarrow> aq_hw_s" where
  "hw_atl_rdm_rx_desc_wr_wb_irq_en_set hw rx_desc_wr_wb_irq_en =
     write_field hw HW_ATL_RDM_INT_DESC_WRB_EN 0 rx_desc_wr_wb_irq_en"

definition hw_atl_rdm_rx_head_dca_en_set :: "aq_hw_s \<Rightarrow> u32 \<Rightarrow> u32 \<Rightarrow> aq_hw_s" where
  "hw_atl_rdm_rx_head_dca_en_set hw rx_head_dca_en dca =
     write_field hw HW_ATL_RDM_DCADHDR_EN dca rx_head_dca_en"

definition hw_atl_rdm_rx_pld_dca_en_set :: "aq_hw_s \<Rightarrow> u32 \<Rightarrow> u32 \<Rightarrow> aq_hw_s" where
  "hw_atl_rdm_rx_pld_dca_en_set hw rx_pld_dca_en dca =
     write_field hw HW_ATL_RDM_DCADPAY_EN dca rx_pld_dca_en"

definition hw_atl_rdm_rdm_intr_moder_en_set :: "aq_hw_s \<Rightarrow> u32 \<Rightarrow> aq_hw_s" where
  "hw_atl_rdm_rdm_intr_moder_en_set hw rdm_intr_moder_en =
     write_field hw HW_ATL_RDM_INT_RIM_EN 0 rdm_intr_moder_en"

definition hw_atl_reg_gen_irq_map_set :: "aq_hw_s \<Rightarrow> u32 \<Rightarrow> u32 \<Rightarrow> aq_hw_s" where
  "hw_atl_reg_gen_irq_map_set hw gen_intr_map regidx =
     aq_hw_write_reg hw (HW_ATL_GEN_INTR_MAP_ADR regidx) gen_intr_map"

definition hw_atl_reg_gen_irq_status_get :: "aq_hw_s \<Rightarrow> u32 \<times> aq_hw_s" where
  "hw_atl_reg_gen_irq_status_get hw =
     aq_hw_read_reg hw HW_ATL_GEN_INTR_STAT_ADR"

definition hw_atl_reg_irq_glb_ctl_set :: "aq_hw_s \<Rightarrow> u32 \<Rightarrow> aq_hw_s" where
  "hw_atl_reg_irq_glb_ctl_set hw intr_glb_ctl =
     aq_hw_write_reg hw HW_ATL_INTR_GLB_CTL_ADR intr_glb_ctl"

definition hw_atl_reg_irq_thr_set :: "aq_hw_s \<Rightarrow> u32 \<Rightarrow> u32 \<Rightarrow> aq_hw_s" where
  "hw_atl_reg_irq_thr_set hw intr_thr throttle =
     aq_hw_write_reg hw (HW_ATL_INTR_THR_ADR throttle) intr_thr"

definition hw_atl_reg_rx_dma_desc_base_addresslswset :: "aq_hw_s \<Rightarrow> u32 \<Rightarrow> u32 \<Rightarrow> aq_hw_s" where
  "hw_atl_reg_rx_dma_desc_base_addresslswset hw rx_dma_desc_base_addrlsw descriptor =
     aq_hw_write_reg hw (HW_ATL_RX_DMA_DESC_BASE_ADDRLSW_ADR descriptor) rx_dma_desc_base_addrlsw"

definition hw_atl_reg_rx_dma_desc_base_addressmswset :: "aq_hw_s \<Rightarrow> u32 \<Rightarrow> u32 \<Rightarrow> aq_hw_s" where
  "hw_atl_reg_rx_dma_desc_base_addressmswset hw rx_dma_desc_base_addrmsw descriptor =
     aq_hw_write_reg hw (HW_ATL_RX_DMA_DESC_BASE_ADDRMSW_ADR descriptor) rx_dma_desc_base_addrmsw"

definition hw_atl_reg_rx_dma_desc_status_get :: "aq_hw_s \<Rightarrow> u32 \<Rightarrow> u32 \<times> aq_hw_s" where
  "hw_atl_reg_rx_dma_desc_status_get hw descriptor =
     aq_hw_read_reg hw (HW_ATL_RX_DMA_DESC_STAT_ADR descriptor)"

definition hw_atl_reg_rx_dma_desc_tail_ptr_set :: "aq_hw_s \<Rightarrow> u32 \<Rightarrow> u32 \<Rightarrow> aq_hw_s" where
  "hw_atl_reg_rx_dma_desc_tail_ptr_set hw rx_dma_desc_tail_ptr descriptor =
     aq_hw_write_reg hw (HW_ATL_RX_DMA_DESC_TAIL_PTR_ADR descriptor) rx_dma_desc_tail_ptr"

definition hw_atl_reg_rx_flr_mcst_flr_msk_set :: "aq_hw_s \<Rightarrow> u32 \<Rightarrow> aq_hw_s" where
  "hw_atl_reg_rx_flr_mcst_flr_msk_set hw rx_flr_mcst_flr_msk =
     aq_hw_write_reg hw HW_ATL_RX_FLR_MCST_FLR_MSK_ADR rx_flr_mcst_flr_msk"

definition hw_atl_reg_rx_flr_mcst_flr_set :: "aq_hw_s \<Rightarrow> u32 \<Rightarrow> u32 \<Rightarrow> aq_hw_s" where
  "hw_atl_reg_rx_flr_mcst_flr_set hw rx_flr_mcst_flr flt =
     aq_hw_write_reg hw (HW_ATL_RX_FLR_MCST_FLR_ADR flt) rx_flr_mcst_flr"

definition hw_atl_reg_rx_flr_rss_control1set :: "aq_hw_s \<Rightarrow> u32 \<Rightarrow> aq_hw_s" where
  "hw_atl_reg_rx_flr_rss_control1set hw rx_flr_rss_control1 =
     aq_hw_write_reg hw HW_ATL_RX_FLR_RSS_CONTROL1_ADR rx_flr_rss_control1"

definition hw_atl_reg_rx_flr_control2_set :: "aq_hw_s \<Rightarrow> u32 \<Rightarrow> aq_hw_s" where
  "hw_atl_reg_rx_flr_control2_set hw rx_filter_control2 =
     aq_hw_write_reg hw HW_ATL_RX_FLR_CONTROL2_ADR rx_filter_control2"

definition hw_atl_reg_rx_intr_moder_ctrl_set :: "aq_hw_s \<Rightarrow> u32 \<Rightarrow> u32 \<Rightarrow> aq_hw_s" where
  "hw_atl_reg_rx_intr_moder_ctrl_set hw rx_intr_moderation_ctl queue =
     aq_hw_write_reg hw (HW_ATL_RX_INTR_MODERATION_CTL_ADR queue) rx_intr_moderation_ctl"

definition hw_atl_reg_tx_dma_debug_ctl_set :: "aq_hw_s \<Rightarrow> u32 \<Rightarrow> aq_hw_s" where
  "hw_atl_reg_tx_dma_debug_ctl_set hw tx_dma_debug_ctl =
     aq_hw_write_reg hw HW_ATL_TX_DMA_DEBUG_CTL_ADR tx_dma_debug_ctl"

definition hw_atl_reg_tx_dma_desc_base_addresslswset :: "aq_hw_s \<Rightarrow> u32 \<Rightarrow> u32 \<Rightarrow> aq_hw_s" where
  "hw_atl_reg_tx_dma_desc_base_addresslswset hw tx_dma_desc_base_addrlsw descriptor =
     aq_hw_write_reg hw (HW_ATL_TX_DMA_DESC_BASE_ADDRLSW_ADR descriptor) tx_dma_desc_base_addrlsw"

definition hw_atl_reg_tx_dma_desc_base_addressmswset :: "aq_hw_s \<Rightarrow> u32 \<Rightarrow> u32 \<Rightarrow> aq_hw_s" where
  "hw_atl_reg_tx_dma_desc_base_addressmswset hw tx_dma_desc_base_addrmsw descriptor =
     aq_hw_write_reg hw (HW_ATL_TX_DMA_DESC_BASE_ADDRMSW_ADR descriptor) tx_dma_desc_base_addrmsw"

definition hw_atl_reg_tx_dma_desc_tail_ptr_set :: "aq_hw_s \<Rightarrow> u32 \<Rightarrow> u32 \<Rightarrow> aq_hw_s" where
  "hw_atl_reg_tx_dma_desc_tail_ptr_set hw tx_dma_desc_tail_ptr descriptor =
     aq_hw_write_reg hw (HW_ATL_TX_DMA_DESC_TAIL_PTR_ADR descriptor) tx_dma_desc_tail_ptr"

definition hw_atl_reg_tx_intr_moder_ctrl_set :: "aq_hw_s \<Rightarrow> u32 \<Rightarrow> u32 \<Rightarrow> aq_hw_s" where
  "hw_atl_reg_tx_intr_moder_ctrl_set hw tx_intr_moderation_ctl queue =
     aq_hw_write_reg hw (HW_ATL_TX_INTR_MODERATION_CTL_ADR queue) tx_intr_moderation_ctl"

definition hw_atl_rpb_dma_sys_lbk_set :: "aq_hw_s \<Rightarrow> u32 \<Rightarrow> aq_hw_s" where
  "hw_atl_rpb_dma_sys_lbk_set hw dma_sys_lbk =
     write_field hw HW_ATL_RPB_DMA_SYS_LBK 0 dma_sys_lbk"

definition hw_atl_rpb_dma_net_lbk_set :: "aq_hw_s \<Rightarrow> u32 \<Rightarrow> aq_hw_s" where
  "hw_atl_rpb_dma_net_lbk_set hw dma_net_lbk =
     write_field hw HW_ATL_RPB_DMA_NET_LBK 0 dma_net_lbk"

definition hw_atl_rpb_rpf_rx_traf_class_mode_set :: "aq_hw_s \<Rightarrow> u32 \<Rightarrow> aq_hw_s" where
  "hw_atl_rpb_rpf_rx_traf_class_mode_set hw rx_traf_class_mode =
     write_field hw HW_ATL_RPB_RPF_RX_TC_MODE 0 rx_traf_class_mode"

definition hw_atl_rpb_rpf_rx_traf_class_mode_get :: "aq_hw_s \<Rightarrow> u32 \<times> aq_hw_s" where
  "hw_atl_rpb_rpf_rx_traf_class_mode_get hw =
     read_field hw HW_ATL_RPB_RPF_RX_TC_MODE 0"

definition hw_atl_rpb_rx_buff_en_set :: "aq_hw_s \<Rightarrow> u32 \<Rightarrow> aq_hw_s" where
  "hw_atl_rpb_rx_buff_en_set hw rx_buff_en =
     write_field hw HW_ATL_RPB_RX_BUF_EN 0 rx_buff_en"

definition hw_atl_rpb_rx_buff_hi_threshold_per_tc_set :: "aq_hw_s \<Rightarrow> u32 \<Rightarrow> u32 \<Rightarrow> aq_hw_s" where
  "hw_atl_rpb_rx_buff_hi_threshold_per_tc_set hw rx_buff_hi_threshold_per_tc buffer =
     write_field hw HW_ATL_RPB_RXBHI_THRESH buffer rx_buff_hi_threshold_per_tc"

definition hw_atl_rpb_rx_buff_lo_threshold_per_tc_set :: "aq_hw_s \<Rightarrow> u32 \<Rightarrow> u32 \<Rightarrow> aq_hw_s" where
  "hw_atl_rpb_rx_buff_lo_threshold_per_tc_set hw rx_buff_lo_threshold_per_tc buffer =
     write_field hw HW_ATL_RPB_RXBLO_THRESH buffer rx_buff_lo_threshold_per_tc"

definition hw_atl_rpb_rx_flow_ctl_mode_set :: "aq_hw_s \<Rightarrow> u32 \<Rightarrow> aq_hw_s" where
  "hw_atl_rpb_rx_flow_ctl_mode_set hw rx_flow_ctl_mode =
     write_field hw HW_ATL_RPB_RX_FC_MODE 0 rx_flow_ctl_mode"

definition hw_atl_rdm_rx_dma_desc_cache_init_set :: "aq_hw_s \<Rightarrow> u32 \<Rightarrow> aq_hw_s" where
  "hw_atl_rdm_rx_dma_desc_cache_init_set hw init =
     write_field hw HW_ATL_RDM_RX_DMA_DESC_CACHE_INIT 0 init"

definition hw_atl_rpb_rx_pkt_buff_size_per_tc_set :: "aq_hw_s \<Rightarrow> u32 \<Rightarrow> u32 \<Rightarrow> aq_hw_s" where
  "hw_atl_rpb_rx_pkt_buff_size_per_tc_set hw rx_pkt_buff_size_per_tc buffer =
     write_field hw HW_ATL_RPB_RXBBUF_SIZE buffer rx_pkt_buff_size_per_tc"

definition hw_atl_rpb_rx_xoff_en_per_tc_set :: "aq_hw_s \<Rightarrow> u32 \<Rightarrow> u32 \<Rightarrow> aq_hw_s" where
  "hw_atl_rpb_rx_xoff_en_per_tc_set hw rx_xoff_en_per_tc buffer =
     write_field hw HW_ATL_RPB_RXBXOFF_EN buffer rx_xoff_en_per_tc"

definition hw_atl_rpfl2broadcast_count_threshold_set :: "aq_hw_s \<Rightarrow> u32 \<Rightarrow> aq_hw_s" where
  "hw_atl_rpfl2broadcast_count_threshold_set hw l2broadcast_count_threshold =
     write_field hw HW_ATL_RPFL2BC_THRESH 0 l2broadcast_count_threshold"

definition hw_atl_rpfl2broadcast_en_set :: "aq_hw_s \<Rightarrow> u32 \<Rightarrow> aq_hw_s" where
  "hw_atl_rpfl2broadcast_en_set hw l2broadcast_en =
     write_field hw HW_ATL_RPFL2BC_EN 0 l2broadcast_en"

definition hw_atl_rpfl2broadcast_flr_act_set :: "aq_hw_s \<Rightarrow> u32 \<Rightarrow> aq_hw_s" where
  "hw_atl_rpfl2broadcast_flr_act_set hw l2broadcast_flr_act =
     write_field hw HW_ATL_RPFL2BC_ACT 0 l2broadcast_flr_act"

definition hw_atl_rpfl2multicast_flr_en_set :: "aq_hw_s \<Rightarrow> u32 \<Rightarrow> u32 \<Rightarrow> aq_hw_s" where
  "hw_atl_rpfl2multicast_flr_en_set hw l2multicast_flr_en flt =
     write_field hw HW_ATL_RPFL2MC_ENF flt l2multicast_flr_en"

definition hw_atl_rpfl2promiscuous_mode_en_set :: "aq_hw_s \<Rightarrow> u32 \<Rightarrow> aq_hw_s" where
  "hw_atl_rpfl2promiscuous_mode_en_set hw l2promiscuous_mode_en =
     write_field hw HW_ATL_RPFL2PROMIS_MODE 0 l2promiscuous_mode_en"

definition hw_atl_rpfl2unicast_flr_act_set :: "aq_hw_s \<Rightarrow> u32 \<Rightarrow> u32 \<Rightarrow> aq_hw_s" where
  "hw_atl_rpfl2unicast_flr_act_set hw l2unicast_flr_act flt =
     write_field hw HW_ATL_RPFL2UC_ACTF flt l2unicast_flr_act"

definition hw_atl_rpfl2_uc_flr_en_set :: "aq_hw_s \<Rightarrow> u32 \<Rightarrow> u32 \<Rightarrow> aq_hw_s" where
  "hw_atl_rpfl2_uc_flr_en_set hw l2unicast_flr_en flt =
     write_field hw HW_ATL_RPFL2UC_ENF flt l2unicast_flr_en"

definition hw_atl_rpfl2unicast_dest_addresslsw_set :: "aq_hw_s \<Rightarrow> u32 \<Rightarrow> u32 \<Rightarrow> aq_hw_s" where
  "hw_atl_rpfl2unicast_dest_addresslsw_set hw l2unicast_dest_addresslsw flt =
     aq_hw_write_reg hw (HW_ATL_RPFL2UC_DAFLSW_ADR flt) l2unicast_dest_addresslsw"

definition hw_atl_rpfl2unicast_dest_addressmsw_set :: "aq_hw_s \<Rightarrow> u32 \<Rightarrow> u32 \<Rightarrow> aq_hw_s" where
  "hw_atl_rpfl2unicast_dest_addressmsw_set hw l2unicast_dest_addressmsw flt =
     write_field hw HW_ATL_RPFL2UC_DAFMSW flt l2unicast_dest_addressmsw"

definition hw_atl_rpfl2_accept_all_mc_packets_set :: "aq_hw_s \<Rightarrow> u32 \<Rightarrow> aq_hw_s" where
  "hw_atl_rpfl2_accept_all_mc_packets_set hw l2_accept_all_mc_packets =
     write_field hw HW_ATL_RPFL2MC_ACCEPT_ALL 0 l2_accept_all_mc_packets"

definition rpf_rpb_rx_tc_upt_adr :: "u32 list" where
  "rpf_rpb_rx_tc_upt_adr = [
     0x000054c4, 0x000054C4, 0x000054C4, 0x000054C4, 0x000054c4, 0x000054C4, 0x000054C4, 0x000054C4]"

definition rpf_rpb_rx_tc_upt_msk :: "u32 list" where
  "rpf_rpb_rx_tc_upt_msk = [
     0x00000007, 0x00000070, 0x00000700, 0x00007000, 0x00070000, 0x00700000, 0x07000000, 0x70000000]"

definition rpf_rpb_rx_tc_upt_shft :: "nat list" where
  "rpf_rpb_rx_tc_upt_shft = [
     0, 4, 8, 12, 16, 20, 24, 28]"

definition hw_atl_rpf_rpb_user_priority_tc_map_set :: "aq_hw_s \<Rightarrow> u32 \<Rightarrow> u32 \<Rightarrow> aq_hw_s" where
  "hw_atl_rpf_rpb_user_priority_tc_map_set hw user_priority_tc_map tc =
     aq_hw_write_reg_bit hw (rpf_rpb_rx_tc_upt_adr ! unat tc) (rpf_rpb_rx_tc_upt_msk ! unat tc)
       (rpf_rpb_rx_tc_upt_shft ! unat tc) user_priority_tc_map"

definition hw_atl_rpf_rss_key_addr_set :: "aq_hw_s \<Rightarrow> u32 \<Rightarrow> aq_hw_s" where
  "hw_atl_rpf_rss_key_addr_set hw rss_key_addr =
     write_field hw HW_ATL_RPF_RSS_KEY_ADDR 0 rss_key_addr"

definition hw_atl_rpf_rss_key_wr_data_set :: "aq_hw_s \<Rightarrow> u32 \<Rightarrow> aq_hw_s" where
  "hw_atl_rpf_rss_key_wr_data_set hw rss_key_wr_data =
     aq_hw_write_reg hw (fld_adr HW_ATL_RPF_RSS_KEY_WR_DATA 0) rss_key_wr_data"

definition hw_atl_rpf_rss_key_wr_en_get :: "aq_hw_s \<Rightarrow> u32 \<times> aq_hw_s" where
  "hw_atl_rpf_rss_key_wr_en_get hw =
     read_field hw HW_ATL_RPF_RSS_KEY_WR_ENI 0"

definition hw_atl_rpf_rss_key_wr_en_set :: "aq_hw_s \<Rightarrow> u32 \<Rightarrow> aq_hw_s" where
  "hw_atl_rpf_rss_key_wr_en_set hw rss_key_wr_en =
     write_field hw HW_ATL_RPF_RSS_KEY_WR_ENI 0 rss_key_wr_en"

definition hw_atl_rpf_rss_redir_tbl_addr_set :: "aq_hw_s \<Rightarrow> u32 \<Rightarrow> aq_hw_s" where
  "hw_atl_rpf_rss_redir_tbl_addr_set hw rss_redir_tbl_addr =
     write_field hw HW_ATL_RPF_RSS_REDIR_ADDR 0 rss_redir_tbl_addr"

definition hw_atl_rpf_rss_redir_tbl_wr_data_set :: "aq_hw_s \<Rightarrow> u32 \<Rightarrow> aq_hw_s" where
  "hw_atl_rpf_rss_redir_tbl_wr_data_set hw rss_redir_tbl_wr_data =
     write_field hw HW_ATL_RPF_RSS_REDIR_WR_DATA 0 rss_redir_tbl_wr_data"

definition hw_atl_rpf_rss_redir_wr_en_get :: "aq_hw_s \<Rightarrow> u32 \<times> aq_hw_s" where
  "hw_atl_rpf_rss_redir_wr_en_get hw =
     read_field hw HW_ATL_RPF_RSS_REDIR_WR_ENI 0"

definition hw_atl_rpf_rss_redir_wr_en_set :: "aq_hw_s \<Rightarrow> u32 \<Rightarrow> aq_hw_s" where
  "hw_atl_rpf_rss_redir_wr_en_set hw rss_redir_wr_en =
     write_field hw HW_ATL_RPF_RSS_REDIR_WR_ENI 0 rss_redir_wr_en"

definition hw_atl_rpf_tpo_to_rpf_sys_lbk_set :: "aq_hw_s \<Rightarrow> u32 \<Rightarrow> aq_hw_s" where
  "hw_atl_rpf_tpo_to_rpf_sys_lbk_set hw tpo_to_rpf_sys_lbk =
     write_field hw HW_ATL_RPF_TPO_RPF_SYS_LBK 0 tpo_to_rpf_sys_lbk"

definition hw_atl_rpf_vlan_inner_etht_set :: "aq_hw_s \<Rightarrow> u32 \<Rightarrow> aq_hw_s" where
  "hw_atl_rpf_vlan_inner_etht_set hw vlan_inner_etht =
     write_field hw HW_ATL_RPF_VL_INNER_TPID 0 vlan_inner_etht"

definition hw_atl_rpf_vlan_outer_etht_set :: "aq_hw_s \<Rightarrow> u32 \<Rightarrow> aq_hw_s" where
  "hw_atl_rpf_vlan_outer_etht_set hw vlan_outer_etht =
     write_field hw HW_ATL_RPF_VL_OUTER_TPID 0 vlan_outer_etht"

definition hw_atl_rpf_vlan_prom_mode_en_set :: "aq_hw_s \<Rightarrow> u32 \<Rightarrow> aq_hw_s" where
  "hw_atl_rpf_vlan_prom_mode_en_set hw vlan_prom_mode_en =
     write_field hw HW_ATL_RPF_VL_PROMIS_MODE 0 vlan_prom_mode_en"

definition hw_atl_rpf_vlan_accept_untagged_packets_set :: "aq_hw_s \<Rightarrow> u32 \<Rightarrow> aq_hw_s" where
  "hw_atl_rpf_vlan_accept_untagged_packets_set hw vlan_acc_untagged_packets =
     write_field hw HW_ATL_RPF_VL_ACCEPT_UNTAGGED_MODE 0 vlan_acc_untagged_packets"

definition hw_atl_rpf_vlan_untagged_act_set :: "aq_hw_s \<Rightarrow> u32 \<Rightarrow> aq_hw_s" where
  "hw_atl_rpf_vlan_untagged_act_set hw vlan_untagged_act =
     write_field hw HW_ATL_RPF_VL_UNTAGGED_ACT 0 vlan_untagged_act"

definition hw_atl_rpf_vlan_flr_en_set :: "aq_hw_s \<Rightarrow> u32 \<Rightarrow> u32 \<Rightarrow> aq_hw_s" where
  "hw_atl_rpf_vlan_flr_en_set hw vlan_flr_en flt =
     write_field hw HW_ATL_RPF_VL_EN_F flt vlan_flr_en"

definition hw_atl_rpf_vlan_flr_act_set :: "aq_hw_s \<Rightarrow> u32 \<Rightarrow> u32 \<Rightarrow> aq_hw_s" where
  "hw_atl_rpf_vlan_flr_act_set hw vlan_flr_act flt =
     write_field hw HW_ATL_RPF_VL_ACT_F flt vlan_flr_act"

definition hw_atl_rpf_vlan_id_flr_set :: "aq_hw_s \<Rightarrow> u32 \<Rightarrow> u32 \<Rightarrow> aq_hw_s" where
  "hw_atl_rpf_vlan_id_flr_set hw vlan_id_flr flt =
     write_field hw HW_ATL_RPF_VL_ID_F flt vlan_id_flr"

definition hw_atl_rpf_vlan_rxq_en_flr_set :: "aq_hw_s \<Rightarrow> u32 \<Rightarrow> u32 \<Rightarrow> aq_hw_s" where
  "hw_atl_rpf_vlan_rxq_en_flr_set hw vlan_rxq_en flt =
     write_field hw HW_ATL_RPF_VL_RXQ_EN_F flt vlan_rxq_en"

definition hw_atl_rpf_vlan_rxq_flr_set :: "aq_hw_s \<Rightarrow> u32 \<Rightarrow> u32 \<Rightarrow> aq_hw_s" where
  "hw_atl_rpf_vlan_rxq_flr_set hw vlan_rxq flt =
     write_field hw HW_ATL_RPF_VL_RXQ_F flt vlan_rxq"

definition hw_atl_rpf_etht_flr_en_set :: "aq_hw_s \<Rightarrow> u32 \<Rightarrow> u32 \<Rightarrow> aq_hw_s" where
  "hw_atl_rpf_etht_flr_en_set hw etht_flr_en flt =
     write_field hw HW_ATL_RPF_ET_ENF flt etht_flr_en"

definition hw_atl_rpf_etht_user_priority_en_set :: "aq_hw_s \<Rightarrow> u32 \<Rightarrow> u32 \<Rightarrow> aq_hw_s" where
  "hw_atl_rpf_etht_user_priority_en_set hw etht_user_priority_en flt =
     write_field hw HW_ATL_RPF_ET_UPFEN flt etht_user_priority_en"

definition hw_atl_rpf_etht_rx_queue_en_set :: "aq_hw_s \<Rightarrow> u32 \<Rightarrow> u32 \<Rightarrow> aq_hw_s" where
  "hw_atl_rpf_etht_rx_queue_en_set hw etht_rx_queue_en flt =
     write_field hw HW_ATL_RPF_ET_RXQFEN flt etht_rx_queue_en"

definition hw_atl_rpf_etht_user_priority_set :: "aq_hw_s \<Rightarrow> u32 \<Rightarrow> u32 \<Rightarrow> aq_hw_s" where
  "hw_atl_rpf_etht_user_priority_set hw etht_user_priority flt =
     write_field hw HW_ATL_RPF_ET_UPF flt etht_user_priority"

definition hw_atl_rpf_etht_rx_queue_set :: "aq_hw_s \<Rightarrow> u32 \<Rightarrow> u32 \<Rightarrow> aq_hw_s" where
  "hw_atl_rpf_etht_rx_queue_set hw etht_rx_queue flt =
     write_field hw HW_ATL_RPF_ET_RXQF flt etht_rx_queue"

definition hw_atl_rpf_etht_mgt_queue_set :: "aq_hw_s \<Rightarrow> u32 \<Rightarrow> u32 \<Rightarrow> aq_hw_s" where
  "hw_atl_rpf_etht_mgt_queue_set hw etht_mgt_queue flt =
     write_field hw HW_ATL_RPF_ET_MNG_RXQF flt etht_mgt_queue"

definition hw_atl_rpf_etht_flr_act_set :: "aq_hw_s \<Rightarrow> u32 \<Rightarrow> u32 \<Rightarrow> aq_hw_s" where
  "hw_atl_rpf_etht_flr_act_set hw etht_flr_act flt =
     write_field hw HW_ATL_RPF_ET_ACTF flt etht_flr_act"

definition hw_atl_rpf_etht_flr_set :: "aq_hw_s \<Rightarrow> u32 \<Rightarrow> u32 \<Rightarrow> aq_hw_s" where
  "hw_atl_rpf_etht_flr_set hw etht_flr flt =
     write_field hw HW_ATL_RPF_ET_VALF flt etht_flr"

definition hw_atl_rpf_l3_l4_enf_set :: "aq_hw_s \<Rightarrow> u32 \<Rightarrow> u32 \<Rightarrow> aq_hw_s" where
  "hw_atl_rpf_l3_l4_enf_set hw val flt =
     write_field hw HW_ATL_RPF_L3_L4_ENF flt val"

definition hw_atl_rpf_l3_v6_enf_set :: "aq_hw_s \<Rightarrow> u32 \<Rightarrow> u32 \<Rightarrow> aq_hw_s" where
  "hw_atl_rpf_l3_v6_enf_set hw val flt =
     write_field hw HW_ATL_RPF_L3_V6_ENF flt val"

definition hw_atl_rpf_l3_saf_en_set :: "aq_hw_s \<Rightarrow> u32 \<Rightarrow> u32 \<Rightarrow> aq_hw_s" where
  "hw_atl_rpf_l3_saf_en_set hw val flt =
     write_field hw HW_ATL_RPF_L3_SAF_EN flt val"

definition hw_atl_rpf_l3_daf_en_set :: "aq_hw_s \<Rightarrow> u32 \<Rightarrow> u32 \<Rightarrow> aq_hw_s" where
  "hw_atl_rpf_l3_daf_en_set hw val flt =
     write_field hw HW_ATL_RPF_L3_DAF_EN flt val"

definition hw_atl_rpf_l4_spf_en_set :: "aq_hw_s \<Rightarrow> u32 \<Rightarrow> u32 \<Rightarrow> aq_hw_s" where
  "hw_atl_rpf_l4_spf_en_set hw val flt =
     write_field hw HW_ATL_RPF_L4_SPF_EN flt val"

definition hw_atl_rpf_l4_dpf_en_set :: "aq_hw_s \<Rightarrow> u32 \<Rightarrow> u32 \<Rightarrow> aq_hw_s" where
  "hw_atl_rpf_l4_dpf_en_set hw val flt =
     write_field hw HW_ATL_RPF_L4_DPF_EN flt val"

definition hw_atl_rpf_l4_protf_en_set :: "aq_hw_s \<Rightarrow> u32 \<Rightarrow> u32 \<Rightarrow> aq_hw_s" where
  "hw_atl_rpf_l4_protf_en_set hw val flt =
     write_field hw HW_ATL_RPF_L4_PROTF_EN flt val"

definition hw_atl_rpf_l3_arpf_en_set :: "aq_hw_s \<Rightarrow> u32 \<Rightarrow> u32 \<Rightarrow> aq_hw_s" where
  "hw_atl_rpf_l3_arpf_en_set hw val flt =
     write_field hw HW_ATL_RPF_L3_ARPF_EN flt val"

definition hw_atl_rpf_l3_l4_rxqf_en_set :: "aq_hw_s \<Rightarrow> u32 \<Rightarrow> u32 \<Rightarrow> aq_hw_s" where
  "hw_atl_rpf_l3_l4_rxqf_en_set hw val flt =
     write_field hw HW_ATL_RPF_L3_L4_RXQF_EN flt val"

definition hw_atl_rpf_l3_l4_mng_rxqf_set :: "aq_hw_s \<Rightarrow> u32 \<Rightarrow> u32 \<Rightarrow> aq_hw_s" where
  "hw_atl_rpf_l3_l4_mng_rxqf_set hw val flt =
     write_field hw HW_ATL_RPF_L3_L4_MNG_RXQF flt val"

definition hw_atl_rpf_l3_l4_actf_set :: "aq_hw_s \<Rightarrow> u32 \<Rightarrow> u32 \<Rightarrow> aq_hw_s" where
  "hw_atl_rpf_l3_l4_actf_set hw val flt =
     write_field hw HW_ATL_RPF_L3_L4_ACTF flt val"

definition hw_atl_rpf_l3_l4_rxqf_set :: "aq_hw_s \<Rightarrow> u32 \<Rightarrow> u32 \<Rightarrow> aq_hw_s" where
  "hw_atl_rpf_l3_l4_rxqf_set hw val flt =
     write_field hw HW_ATL_RPF_L3_L4_RXQF flt val"

definition hw_atl_rpf_l4_protf_set :: "aq_hw_s \<Rightarrow> u32 \<Rightarrow> u32 \<Rightarrow> aq_hw_s" where
  "hw_atl_rpf_l4_protf_set hw val flt =
     write_field hw HW_ATL_RPF_L4_PROTF flt val"

definition hw_atl_rpf_l4_spd_set :: "aq_hw_s \<Rightarrow> u32 \<Rightarrow> u32 \<Rightarrow> aq_hw_s" where
  "hw_atl_rpf_l4_spd_set hw val flt =
     write_field hw HW_ATL_RPF_L4_SPD flt val"

definition hw_atl_rpf_l4_dpd_set :: "aq_hw_s \<Rightarrow> u32 \<Rightarrow> u32 \<Rightarrow> aq_hw_s" where
  "hw_atl_rpf_l4_dpd_set hw val flt =
     write_field hw HW_ATL_RPF_L4_DPD flt val"

definition hw_atl_rpo_ipv4header_crc_offload_en_set :: "aq_hw_s \<Rightarrow> u32 \<Rightarrow> aq_hw_s" where
  "hw_atl_rpo_ipv4header_crc_offload_en_set hw ipv4header_crc_offload_en =
     write_field hw HW_ATL_RPO_IPV4CHK_EN 0 ipv4header_crc_offload_en"

definition hw_atl_rpo_rx_desc_vlan_stripping_set :: "aq_hw_s \<Rightarrow> u32 \<Rightarrow> u32 \<Rightarrow> aq_hw_s" where
  "hw_atl_rpo_rx_desc_vlan_stripping_set hw rx_desc_vlan_stripping descriptor =
     write_field hw HW_ATL_RPO_DESCDVL_STRIP descriptor rx_desc_vlan_stripping"

definition hw_atl_rpo_outer_vlan_tag_mode_set :: "aq_hw_s \<Rightarrow> u32 \<Rightarrow> aq_hw_s" where
  "hw_atl_rpo_outer_vlan_tag_mode_set hw outervlantagmode =
     write_field hw HW_ATL_RPO_OUTER_VL_INS_MODE 0 outervlantagmode"

definition hw_atl_rpo_outer_vlan_tag_mode_get :: "aq_hw_s \<Rightarrow> u32 \<times> aq_hw_s" where
  "hw_atl_rpo_outer_vlan_tag_mode_get hw =
     read_field hw HW_ATL_RPO_OUTER_VL_INS_MODE 0"

definition hw_atl_rpo_tcp_udp_crc_offload_en_set :: "aq_hw_s \<Rightarrow> u32 \<Rightarrow> aq_hw_s" where
  "hw_atl_rpo_tcp_udp_crc_offload_en_set hw tcp_udp_crc_offload_en =
     write_field hw HW_ATL_RPOL4CHK_EN 0 tcp_udp_crc_offload_en"

definition hw_atl_rpo_lro_en_set :: "aq_hw_s \<Rightarrow> u32 \<Rightarrow> aq_hw_s" where
  "hw_atl_rpo_lro_en_set hw lro_en =
     aq_hw_write_reg hw (fld_adr HW_ATL_RPO_LRO_EN 0) lro_en"

definition hw_atl_rpo_lro_patch_optimization_en_set :: "aq_hw_s \<Rightarrow> u32 \<Rightarrow> aq_hw_s" where
  "hw_atl_rpo_lro_patch_optimization_en_set hw lro_patch_optimization_en =
     write_field hw HW_ATL_RPO_LRO_PTOPT_EN 0 lro_patch_optimization_en"

definition hw_atl_rpo_lro_qsessions_lim_set :: "aq_hw_s \<Rightarrow> u32 \<Rightarrow> aq_hw_s" where
  "hw_atl_rpo_lro_qsessions_lim_set hw lro_qsessions_lim =
     write_field hw HW_ATL_RPO_LRO_QSES_LMT 0 lro_qsessions_lim"

definition hw_atl_rpo_lro_total_desc_lim_set :: "aq_hw_s \<Rightarrow> u32 \<Rightarrow> aq_hw_s" where
  "hw_atl_rpo_lro_total_desc_lim_set hw lro_total_desc_lim =
     write_field hw HW_ATL_RPO_LRO_TOT_DSC_LMT 0 lro_total_desc_lim"

definition hw_atl_rpo_lro_min_pay_of_first_pkt_set :: "aq_hw_s \<Rightarrow> u32 \<Rightarrow> aq_hw_s" where
  "hw_atl_rpo_lro_min_pay_of_first_pkt_set hw lro_min_pld_of_first_pkt =
     write_field hw HW_ATL_RPO_LRO_PKT_MIN 0 lro_min_pld_of_first_pkt"

definition hw_atl_rpo_lro_pkt_lim_set :: "aq_hw_s \<Rightarrow> u32 \<Rightarrow> aq_hw_s" where
  "hw_atl_rpo_lro_pkt_lim_set hw lro_pkt_lim =
     aq_hw_write_reg hw (fld_adr HW_ATL_RPO_LRO_RSC_MAX 0) lro_pkt_lim"

definition rpo_lro_ldes_max_adr :: "u32 list" where
  "rpo_lro_ldes_max_adr = [
     0x000055A0, 0x000055A0, 0x000055A0, 0x000055A0, 0x000055A0, 0x000055A0, 0x000055A0, 0x000055A0,
     0x000055A4, 0x000055A4, 0x000055A4, 0x000055A4, 0x000055A4, 0x000055A4, 0x000055A4, 0x000055A4,
     0x000055A8, 0x000055A8, 0x000055A8, 0x000055A8, 0x000055A8, 0x000055A8, 0x000055A8, 0x000055A8,
     0x000055AC, 0x000055AC, 0x000055AC, 0x000055AC, 0x000055AC, 0x000055AC, 0x000055AC, 0x000055AC]"

definition rpo_lro_ldes_max_msk :: "u32 list" where
  "rpo_lro_ldes_max_msk = [
     0x00000003, 0x00000030, 0x00000300, 0x00003000, 0x00030000, 0x00300000, 0x03000000, 0x30000000,
     0x00000003, 0x00000030, 0x00000300, 0x00003000, 0x00030000, 0x00300000, 0x03000000, 0x30000000,
     0x00000003, 0x00000030, 0x00000300, 0x00003000, 0x00030000, 0x00300000, 0x03000000, 0x30000000,
     0x00000003, 0x00000030, 0x00000300, 0x00003000, 0x00030000, 0x00300000, 0x03000000, 0x30000000]"

definition rpo_lro_ldes_max_shift :: "nat list" where
  "rpo_lro_ldes_max_shift = [
     0, 4, 8, 12, 16, 20, 24, 28,
     0, 4, 8, 12, 16, 20, 24, 28,
     0, 4, 8, 12, 16, 20, 24, 28,
     0, 4, 8, 12, 16, 20, 24, 28]"

definition hw_atl_rpo_lro_max_num_of_descriptors_set :: "aq_hw_s \<Rightarrow> u32 \<Rightarrow> u32 \<Rightarrow> aq_hw_s" where
  "hw_atl_rpo_lro_max_num_of_descriptors_set hw lro_max_number_of_descriptors lro =
     aq_hw_write_reg_bit hw (rpo_lro_ldes_max_adr ! unat lro) (rpo_lro_ldes_max_msk ! unat lro)
       (rpo_lro_ldes_max_shift ! unat lro) lro_max_number_of_descriptors"

definition hw_atl_rpo_lro_time_base_divider_set :: "aq_hw_s \<Rightarrow> u32 \<Rightarrow> aq_hw_s" where
  "hw_atl_rpo_lro_time_base_divider_set hw lro_time_base_divider =
     write_field hw HW_ATL_RPO_LRO_TB_DIV 0 lro_time_base_divider"

definition hw_atl_rpo_lro_inactive_interval_set :: "aq_hw_s \<Rightarrow> u32 \<Rightarrow> aq_hw_s" where
  "hw_atl_rpo_lro_inactive_interval_set hw lro_inactive_interval =
     write_field hw HW_ATL_RPO_LRO_INA_IVAL 0 lro_inactive_interval"

definition hw_atl_rpo_lro_max_coalescing_interval_set :: "aq_hw_s \<Rightarrow> u32 \<Rightarrow> aq_hw_s" where
  "hw_atl_rpo_lro_max_coalescing_interval_set hw lro_max_coal_interval =
     write_field hw HW_ATL_RPO_LRO_MAX_IVAL 0 lro_max_coal_interval"

definition hw_atl_rx_rx_reg_res_dis_set :: "aq_hw_s \<Rightarrow> u32 \<Rightarrow> aq_hw_s" where
  "hw_atl_rx_rx_reg_res_dis_set hw rx_reg_res_dis =
     write_field hw HW_ATL_RX_REG_RES_DSBL 0 rx_reg_res_dis"

definition hw_atl_tdm_cpu_id_set :: "aq_hw_s \<Rightarrow> u32 \<Rightarrow> u32 \<Rightarrow> aq_hw_s" where
  "hw_atl_tdm_cpu_id_set hw cpuid dca =
     write_field hw HW_ATL_TDM_DCADCPUID dca cpuid"

definition hw_atl_tdm_large_send_offload_en_set :: "aq_hw_s \<Rightarrow> u32 \<Rightarrow> aq_hw_s" where
  "hw_atl_tdm_large_send_offload_en_set hw large_send_offload_en =
     aq_hw_write_reg hw (fld_adr HW_ATL_TDM_LSO_EN 0) large_send_offload_en"

definition hw_atl_tdm_tx_dca_en_set :: "aq_hw_s \<Rightarrow> u32 \<Rightarrow> aq_hw_s" where
  "hw_atl_tdm_tx_dca_en_set hw tx_dca_en =
     write_field hw HW_ATL_TDM_DCA_EN 0 tx_dca_en"

definition hw_atl_tdm_tx_dca_mode_set :: "aq_hw_s \<Rightarrow> u32 \<Rightarrow> aq_hw_s" where
  "hw_atl_tdm_tx_dca_mode_set hw tx_dca_mode =
     write_field hw HW_ATL_TDM_DCA_MODE 0 tx_dca_mode"

definition hw_atl_tdm_tx_desc_dca_en_set :: "aq_hw_s \<Rightarrow> u32 \<Rightarrow> u32 \<Rightarrow> aq_hw_s" where
  "hw_atl_tdm_tx_desc_dca_en_set hw tx_desc_dca_en dca =
     write_field hw HW_ATL_TDM_DCADDESC_EN dca tx_desc_dca_en"

definition hw_atl_tdm_tx_desc_en_set :: "aq_hw_s \<Rightarrow> u32 \<Rightarrow> u32 \<Rightarrow> aq_hw_s" where
  "hw_atl_tdm_tx_desc_en_set hw tx_desc_en descriptor =
     write_field hw HW_ATL_TDM_DESCDEN descriptor tx_desc_en"

definition hw_atl_tdm_tx_desc_head_ptr_get :: "aq_hw_s \<Rightarrow> u32 \<Rightarrow> u32 \<times> aq_hw_s" where
  "hw_atl_tdm_tx_desc_head_ptr_get hw descriptor =
     read_field hw HW_ATL_TDM_DESCDHD descriptor"

definition hw_atl_tdm_tx_desc_len_set :: "aq_hw_s \<Rightarrow> u32 \<Rightarrow> u32 \<Rightarrow> aq_hw_s" where
  "hw_atl_tdm_tx_desc_len_set hw tx_desc_len descriptor =
     write_field hw HW_ATL_TDM_DESCDLEN descriptor tx_desc_len"

definition hw_atl_tdm_tx_desc_wr_wb_irq_en_set :: "aq_hw_s \<Rightarrow> u32 \<Rightarrow> aq_hw_s" where
  "hw_atl_tdm_tx_desc_wr_wb_irq_en_set hw tx_desc_wr_wb_irq_en =
     write_field hw HW_ATL_TDM_INT_DESC_WRB_EN 0 tx_desc_wr_wb_irq_en"

definition hw_atl_tdm_tx_desc_wr_wb_threshold_set :: "aq_hw_s \<Rightarrow> u32 \<Rightarrow> u32 \<Rightarrow> aq_hw_s" where
  "hw_atl_tdm_tx_desc_wr_wb_threshold_set hw tx_desc_wr_wb_threshold descriptor =
     write_field hw HW_ATL_TDM_DESCDWRB_THRESH descriptor tx_desc_wr_wb_threshold"

definition hw_atl_tdm_tdm_intr_moder_en_set :: "aq_hw_s \<Rightarrow> u32 \<Rightarrow> aq_hw_s" where
  "hw_atl_tdm_tdm_intr_moder_en_set hw tdm_irq_moderation_en =
     write_field hw HW_ATL_TDM_INT_MOD_EN 0 tdm_irq_moderation_en"

definition hw_atl_thm_lso_tcp_flag_of_first_pkt_set :: "aq_hw_s \<Rightarrow> u32 \<Rightarrow> aq_hw_s" where
  "hw_atl_thm_lso_tcp_flag_of_first_pkt_set hw lso_tcp_flag_of_first_pkt =
     write_field hw HW_ATL_THM_LSO_TCP_FLAG_FIRST 0 lso_tcp_flag_of_first_pkt"

definition hw_atl_thm_lso_tcp_flag_of_last_pkt_set :: "aq_hw_s \<Rightarrow> u32 \<Rightarrow> aq_hw_s" where
  "hw_atl_thm_lso_tcp_flag_of_last_pkt_set hw lso_tcp_flag_of_last_pkt =
     write_field hw HW_ATL_THM_LSO_TCP_FLAG_LAST 0 lso_tcp_flag_of_last_pkt"

definition hw_atl_thm_lso_tcp_flag_of_middle_pkt_set :: "aq_hw_s \<Rightarrow> u32 \<Rightarrow> aq_hw_s" where
  "hw_atl_thm_lso_tcp_flag_of_middle_pkt_set hw lso_tcp_flag_of_middle_pkt =
     write_field hw HW_ATL_THM_LSO_TCP_FLAG_MID 0 lso_tcp_flag_of_middle_pkt"

definition hw_atl_tpb_tx_buff_en_set :: "aq_hw_s \<Rightarrow> u32 \<Rightarrow> aq_hw_s" where
  "hw_atl_tpb_tx_buff_en_set hw tx_buff_en =
     write_field hw HW_ATL_TPB_TX_BUF_EN 0 tx_buff_en"

definition hw_atl_rpb_tps_tx_tc_mode_get :: "aq_hw_s \<Rightarrow> u32 \<times> aq_hw_s" where
  "hw_atl_rpb_tps_tx_tc_mode_get hw =
     read_field hw HW_ATL_TPB_TX_TC_MODE 0"

definition hw_atl_rpb_tps_tx_tc_mode_set :: "aq_hw_s \<Rightarrow> u32 \<Rightarrow> aq_hw_s" where
  "hw_atl_rpb_tps_tx_tc_mode_set hw tx_traf_class_mode =
     write_field hw HW_ATL_TPB_TX_TC_MODE 0 tx_traf_class_mode"

definition hw_atl_tpb_tx_buff_hi_threshold_per_tc_set :: "aq_hw_s \<Rightarrow> u32 \<Rightarrow> u32 \<Rightarrow> aq_hw_s" where
  "hw_atl_tpb_tx_buff_hi_threshold_per_tc_set hw tx_buff_hi_threshold_per_tc buffer =
     write_field hw HW_ATL_TPB_TXBHI_THRESH buffer tx_buff_hi_threshold_per_tc"

definition hw_atl_tpb_tx_buff_lo_threshold_per_tc_set :: "aq_hw_s \<Rightarrow> u32 \<Rightarrow> u32 \<Rightarrow> aq_hw_s" where
  "hw_atl_tpb_tx_buff_lo_threshold_per_tc_set hw tx_buff_lo_threshold_per_tc buffer =
     write_field hw HW_ATL_TPB_TXBLO_THRESH buffer tx_buff_lo_threshold_per_tc"

definition hw_atl_tpb_tx_dma_sys_lbk_en_set :: "aq_hw_s \<Rightarrow> u32 \<Rightarrow> aq_hw_s" where
  "hw_atl_tpb_tx_dma_sys_lbk_en_set hw tx_dma_sys_lbk_en =
     write_field hw HW_ATL_TPB_DMA_SYS_LBK 0 tx_dma_sys_lbk_en"

definition hw_atl_tpb_tx_dma_net_lbk_en_set :: "aq_hw_s \<Rightarrow> u32 \<Rightarrow> aq_hw_s" where
  "hw_atl_tpb_tx_dma_net_lbk_en_set hw tx_dma_net_lbk_en =
     write_field hw HW_ATL_TPB_DMA_NET_LBK 0 tx_dma_net_lbk_en"

definition hw_atl_tpb_tx_pkt_buff_size_per_tc_set :: "aq_hw_s \<Rightarrow> u32 \<Rightarrow> u32 \<Rightarrow> aq_hw_s" where
  "hw_atl_tpb_tx_pkt_buff_size_per_tc_set hw tx_pkt_buff_size_per_tc buffer =
     write_field hw HW_ATL_TPB_TXBBUF_SIZE buffer tx_pkt_buff_size_per_tc"

definition hw_atl_tpb_tx_path_scp_ins_en_set :: "aq_hw_s \<Rightarrow> u32 \<Rightarrow> aq_hw_s" where
  "hw_atl_tpb_tx_path_scp_ins_en_set hw tx_path_scp_ins_en =
     write_field hw HW_ATL_TPB_TX_SCP_INS_EN 0 tx_path_scp_ins_en"

definition hw_atl_tpo_ipv4header_crc_offload_en_set :: "aq_hw_s \<Rightarrow> u32 \<Rightarrow> aq_hw_s" where
  "hw_atl_tpo_ipv4header_crc_offload_en_set hw ipv4header_crc_offload_en =
     write_field hw HW_ATL_TPO_IPV4CHK_EN 0 ipv4header_crc_offload_en"

definition hw_atl_tpo_tcp_udp_crc_offload_en_set :: "aq_hw_s \<Rightarrow> u32 \<Rightarrow> aq_hw_s" where
  "hw_atl_tpo_tcp_udp_crc_offload_en_set hw tcp_udp_crc_offload_en =
     write_field hw HW_ATL_TPOL4CHK_EN 0 tcp_udp_crc_offload_en"

definition hw_atl_tpo_tx_pkt_sys_lbk_en_set :: "aq_hw_s \<Rightarrow> u32 \<Rightarrow> aq_hw_s" where
  "hw_atl_tpo_tx_pkt_sys_lbk_en_set hw tx_pkt_sys_lbk_en =
     write_field hw HW_ATL_TPO_PKT_SYS_LBK 0 tx_pkt_sys_lbk_en"

definition hw_atl_tps_tx_pkt_shed_data_arb_mode_set :: "aq_hw_s \<Rightarrow> u32 \<Rightarrow> aq_hw_s" where
  "hw_atl_tps_tx_pkt_shed_data_arb_mode_set hw tx_pkt_shed_data_arb_mode =
     write_field hw HW_ATL_TPS_DATA_TC_ARB_MODE 0 tx_pkt_shed_data_arb_mode"

definition hw_atl_tps_tx_pkt_shed_desc_rate_curr_time_res_set :: "aq_hw_s \<Rightarrow> u32 \<Rightarrow> aq_hw_s" where
  "hw_atl_tps_tx_pkt_shed_desc_rate_curr_time_res_set hw curr_time_res =
     write_field hw HW_ATL_TPS_DESC_RATE_TA_RST 0 curr_time_res"

definition hw_atl_tps_tx_pkt_shed_desc_rate_lim_set :: "aq_hw_s \<Rightarrow> u32 \<Rightarrow> aq_hw_s" where
  "hw_atl_tps_tx_pkt_shed_desc_rate_lim_set hw tx_pkt_shed_desc_rate_lim =
     write_field hw HW_ATL_TPS_DESC_RATE_LIM 0 tx_pkt_shed_desc_rate_lim"

definition hw_atl_tps_tx_pkt_shed_desc_tc_arb_mode_set :: "aq_hw_s \<Rightarrow> u32 \<Rightarrow> aq_hw_s" where
  "hw_atl_tps_tx_pkt_shed_desc_tc_arb_mode_set hw arb_mode =
     write_field hw HW_ATL_TPS_DESC_TC_ARB_MODE 0 arb_mode"

definition hw_atl_tps_tx_pkt_shed_desc_tc_max_credit_set :: "aq_hw_s \<Rightarrow> u32 \<Rightarrow> u32 \<Rightarrow> aq_hw_s" where
  "hw_atl_tps_tx_pkt_shed_desc_tc_max_credit_set hw max_credit tc =
     write_field hw HW_ATL_TPS_DESC_TCTCREDIT_MAX tc max_credit"

definition hw_atl_tps_tx_pkt_shed_desc_tc_weight_set :: "aq_hw_s \<Rightarrow> u32 \<Rightarrow> u32 \<Rightarrow> aq_hw_s" where
  "hw_atl_tps_tx_pkt_shed_desc_tc_weight_set hw tx_pkt_shed_desc_tc_weight tc =
     write_field hw HW_ATL_TPS_DESC_TCTWEIGHT tc tx_pkt_shed_desc_tc_weight"

definition hw_atl_tps_tx_pkt_shed_desc_vm_arb_mode_set :: "aq_hw_s \<Rightarrow> u32 \<Rightarrow> aq_hw_s" where
  "hw_atl_tps_tx_pkt_shed_desc_vm_arb_mode_set hw arb_mode =
     write_field hw HW_ATL_TPS_DESC_VM_ARB_MODE 0 arb_mode"

definition hw_atl_tps_tx_pkt_shed_tc_data_max_credit_set :: "aq_hw_s \<Rightarrow> u32 \<Rightarrow> u32 \<Rightarrow> aq_hw_s" where
  "hw_atl_tps_tx_pkt_shed_tc_data_max_credit_set hw max_credit tc =
     write_field hw HW_ATL_TPS_DATA_TCTCREDIT_MAX tc max_credit"

definition hw_atl_tps_tx_pkt_shed_tc_data_weight_set :: "aq_hw_s \<Rightarrow> u32 \<Rightarrow> u32 \<Rightarrow> aq_hw_s" where
  "hw_atl_tps_tx_pkt_shed_tc_data_weight_set hw tx_pkt_shed_tc_data_weight tc =
     write_field hw HW_ATL_TPS_DATA_TCTWEIGHT tc tx_pkt_shed_tc_data_weight"

definition hw_atl_tx_tx_reg_res_dis_set :: "aq_hw_s \<Rightarrow> u32 \<Rightarrow> aq_hw_s" where
  "hw_atl_tx_tx_reg_res_dis_set hw tx_reg_res_dis =
     write_field hw HW_ATL_TX_REG_RES_DSBL 0 tx_reg_res_dis"

definition hw_atl_msm_reg_access_status_get :: "aq_hw_s \<Rightarrow> u32 \<times> aq_hw_s" where
  "hw_atl_msm_reg_access_status_get hw =
     read_field hw HW_ATL_MSM_REG_ACCESS_BUSY 0"

definition hw_atl_msm_reg_addr_for_indirect_addr_set :: "aq_hw_s \<Rightarrow> u32 \<Rightarrow> aq_hw_s" where
  "hw_atl_msm_reg_addr_for_indirect_addr_set hw reg_addr_for_indirect_addr =
     write_field hw HW_ATL_MSM_REG_ADDR 0 reg_addr_for_indirect_addr"

definition hw_atl_msm_reg_rd_strobe_set :: "aq_hw_s \<Rightarrow> u32 \<Rightarrow> aq_hw_s" where
  "hw_atl_msm_reg_rd_strobe_set hw reg_rd_strobe =
     write_field hw HW_ATL_MSM_REG_RD_STROBE 0 reg_rd_strobe"

definition hw_atl_msm_reg_rd_data_get :: "aq_hw_s \<Rightarrow> u32 \<times> aq_hw_s" where
  "hw_atl_msm_reg_rd_data_get hw =
     aq_hw_read_reg hw (fld_adr HW_ATL_MSM_REG_RD_DATA 0)"

definition hw_atl_msm_reg_wr_data_set :: "aq_hw_s \<Rightarrow> u32 \<Rightarrow> aq_hw_s" where
  "hw_atl_msm_reg_wr_data_set hw reg_wr_data =
     aq_hw_write_reg hw (fld_adr HW_ATL_MSM_REG_WR_DATA 0) reg_wr_data"

definition hw_atl_msm_reg_wr_strobe_set :: "aq_hw_s \<Rightarrow> u32 \<Rightarrow> aq_hw_s" where
  "hw_atl_msm_reg_wr_strobe_set hw reg_wr_strobe =
     write_field hw HW_ATL_MSM_REG_WR_STROBE 0 reg_wr_strobe"

definition hw_atl_pci_pci_reg_res_dis_set :: "aq_hw_s \<Rightarrow> u32 \<Rightarrow> aq_hw_s" where
  "hw_atl_pci_pci_reg_res_dis_set hw pci_reg_res_dis =
     write_field hw HW_ATL_PCI_REG_RES_DSBL 0 pci_reg_res_dis"

definition hw_atl_reg_glb_cpu_scratch_scp_set :: "aq_hw_s \<Rightarrow> u32 \<Rightarrow> u32 \<Rightarrow> aq_hw_s" where
  "hw_atl_reg_glb_cpu_scratch_scp_set hw glb_cpu_scratch_scp scratch_scp =
     aq_hw_write_reg hw (HW_ATL_GLB_CPU_SCRATCH_SCP_ADR scratch_scp) glb_cpu_scratch_scp"

definition hw_atl_pcs_ptp_clock_read_enable :: "aq_hw_s \<Rightarrow> u32 \<Rightarrow> aq_hw_s" where
  "hw_atl_pcs_ptp_clock_read_enable hw ptp_clock_read_enable =
     write_field hw HW_ATL_PCS_PTP_CLOCK_READ_ENABLE 0 ptp_clock_read_enable"

definition hw_atl_pcs_ptp_clock_get :: "aq_hw_s \<Rightarrow> u32 \<Rightarrow> u32 \<times> aq_hw_s" where
  "hw_atl_pcs_ptp_clock_get hw index =
     aq_hw_read_reg hw (HW_ATL_PCS_PTP_TS_VAL_ADDR index)"

definition mcp_up_force_intr_set :: "aq_hw_s \<Rightarrow> u32 \<Rightarrow> aq_hw_s" where
  "mcp_up_force_intr_set hw up_force_intr =
     write_field hw mcp_up_force_interrupt 0 up_force_intr"

definition hw_atl_rpfl3l4_ipv4_dest_addr_clear :: "aq_hw_s \<Rightarrow> u8 \<Rightarrow> aq_hw_s" where
  "hw_atl_rpfl3l4_ipv4_dest_addr_clear hw location =
     aq_hw_write_reg hw (HW_ATL_RX_GET_ADDR_DESTA_FL3L4 (ucast location)) 0"

definition hw_atl_rpfl3l4_ipv4_src_addr_clear :: "aq_hw_s \<Rightarrow> u8 \<Rightarrow> aq_hw_s" where
  "hw_atl_rpfl3l4_ipv4_src_addr_clear hw location =
     aq_hw_write_reg hw (HW_ATL_RX_GET_ADDR_SRCA_FL3L4 (ucast location)) 0"

definition hw_atl_rpfl3l4_cmd_clear :: "aq_hw_s \<Rightarrow> u8 \<Rightarrow> aq_hw_s" where
  "hw_atl_rpfl3l4_cmd_clear hw location =
     aq_hw_write_reg hw (HW_ATL_RX_GET_ADDR_CTRL_FL3L4 (ucast location)) 0"

definition hw_atl_rpfl3l4_ipv6_dest_addr_clear :: "aq_hw_s \<Rightarrow> u8 \<Rightarrow> aq_hw_s" where
  "hw_atl_rpfl3l4_ipv6_dest_addr_clear hw location =
     foldl (\<lambda>hw i. aq_hw_write_reg hw (HW_ATL_RX_GET_ADDR_DESTA_FL3L4 (ucast location + of_nat i)) 0)
       hw [0..<4]"

definition hw_atl_rpfl3l4_ipv6_src_addr_clear :: "aq_hw_s \<Rightarrow> u8 \<Rightarrow> aq_hw_s" where
  "hw_atl_rpfl3l4_ipv6_src_addr_clear hw location =
     foldl (\<lambda>hw i. aq_hw_write_reg hw (HW_ATL_RX_GET_ADDR_SRCA_FL3L4 (ucast location + of_nat i)) 0)
       hw [0..<4]"

definition hw_atl_rpfl3l4_ipv4_dest_addr_set :: "aq_hw_s \<Rightarrow> u8 \<Rightarrow> u32 \<Rightarrow> aq_hw_s" where
  "hw_atl_rpfl3l4_ipv4_dest_addr_set hw location ipv4_dest =
     aq_hw_write_reg hw (HW_ATL_RX_GET_ADDR_DESTA_FL3L4 (ucast location)) ipv4_dest"

definition hw_atl_rpfl3l4_ipv4_src_addr_set :: "aq_hw_s \<Rightarrow> u8 \<Rightarrow> u32 \<Rightarrow> aq_hw_s" where
  "hw_atl_rpfl3l4_ipv4_src_addr_set hw location ipv4_src =
     aq_hw_write_reg hw (HW_ATL_RX_GET_ADDR_SRCA_FL3L4 (ucast location)) ipv4_src"

definition hw_atl_rpfl3l4_cmd_set :: "aq_hw_s \<Rightarrow> u8 \<Rightarrow> u32 \<Rightarrow> aq_hw_s" where
  "hw_atl_rpfl3l4_cmd_set hw location cmd =
     aq_hw_write_reg hw (HW_ATL_RX_GET_ADDR_CTRL_FL3L4 (ucast location)) cmd"

definition hw_atl_rpfl3l4_ipv6_src_addr_set :: "aq_hw_s \<Rightarrow> u8 \<Rightarrow> u32 list \<Rightarrow> aq_hw_s" where
  "hw_atl_rpfl3l4_ipv6_src_addr_set hw location ipv6_src =
     foldl (\<lambda>hw i. aq_hw_write_reg hw (HW_ATL_RX_GET_ADDR_SRCA_FL3L4 (ucast location + of_nat i)) (ipv6_src ! i))
       hw [0..<4]"

definition hw_atl_rpfl3l4_ipv6_dest_addr_set :: "aq_hw_s \<Rightarrow> u8 \<Rightarrow> u32 list \<Rightarrow> aq_hw_s" where
  "hw_atl_rpfl3l4_ipv6_dest_addr_set hw location ipv6_dest =
     foldl (\<lambda>hw i. aq_hw_write_reg hw (HW_ATL_RX_GET_ADDR_DESTA_FL3L4 (ucast location + of_nat i)) (ipv6_dest ! i))
       hw [0..<4]"

definition hw_atl_glb_mdio_iface1_set :: "aq_hw_s \<Rightarrow> u32 \<Rightarrow> aq_hw_s" where
  "hw_atl_glb_mdio_iface1_set hw v =
     aq_hw_write_reg hw (HW_ATL_GLB_MDIO_IFACE_N_ADR 1) v"

definition hw_atl_glb_mdio_iface1_get :: "aq_hw_s \<Rightarrow> u32 \<times> aq_hw_s" where
  "hw_atl_glb_mdio_iface1_get hw =
     aq_hw_read_reg hw (HW_ATL_GLB_MDIO_IFACE_N_ADR 1)"

definition hw_atl_glb_mdio_iface2_set :: "aq_hw_s \<Rightarrow> u32 \<Rightarrow> aq_hw_s" where
  "hw_atl_glb_mdio_iface2_set hw v =
     aq_hw_write_reg hw (HW_ATL_GLB_MDIO_IFACE_N_ADR 2) v"

definition hw_atl_glb_mdio_iface2_get :: "aq_hw_s \<Rightarrow> u32 \<times> aq_hw_s" where
  "hw_atl_glb_mdio_iface2_get hw =
     aq_hw_read_reg hw (HW_ATL_GLB_MDIO_IFACE_N_ADR 2)"

definition hw_atl_glb_mdio_iface3_set :: "aq_hw_s \<Rightarrow> u32 \<Rightarrow> aq_hw_s" where
  "hw_atl_glb_mdio_iface3_set hw v =
     aq_hw_write_reg hw (HW_ATL_GLB_MDIO_IFACE_N_ADR 3) v"

definition hw_atl_glb_mdio_iface3_get :: "aq_hw_s \<Rightarrow> u32 \<times> aq_hw_s" where
  "hw_atl_glb_mdio_iface3_get hw =
     aq_hw_read_reg hw (HW_ATL_GLB_MDIO_IFACE_N_ADR 3)"

definition hw_atl_glb_mdio_iface4_set :: "aq_hw_s \<Rightarrow> u32 \<Rightarrow> aq_hw_s" where
  "hw_atl_glb_mdio_iface4_set hw v =
     aq_hw_write_reg hw (HW_ATL_GLB_MDIO_IFACE_N_ADR 4) v"

definition hw_atl_glb_mdio_iface4_get :: "aq_hw_s \<Rightarrow> u32 \<times> aq_hw_s" where
  "hw_atl_glb_mdio_iface4_get hw =
     aq_hw_read_reg hw (HW_ATL_GLB_MDIO_IFACE_N_ADR 4)"

definition hw_atl_glb_mdio_iface5_set :: "aq_hw_s \<Rightarrow> u32 \<Rightarrow> aq_hw_s" where
  "hw_atl_glb_mdio_iface5_set hw v =
     aq_hw_write_reg hw (HW_ATL_GLB_MDIO_IFACE_N_ADR 5) v"

definition hw_atl_glb_mdio_iface5_get :: "aq_hw_s \<Rightarrow> u32 \<times> aq_hw_s" where
  "hw_atl_glb_mdio_iface5_get hw =
     aq_hw_read_reg hw (HW_ATL_GLB_MDIO_IFACE_N_ADR 5)"

definition hw_atl_mdio_busy_get :: "aq_hw_s \<Rightarrow> u32 \<times> aq_hw_s" where
  "hw_atl_mdio_busy_get hw =
     read_field hw HW_ATL_MDIO_BUSY 0"

lemmas llh_set_defs =
  hw_atl_reg_glb_cpu_sem_set_def
  hw_atl_glb_glb_reg_res_dis_set_def
  hw_atl_glb_soft_res_set_def
  hw_atl_itr_irq_auto_masklsw_set_def
  hw_atl_itr_irq_map_en_rx_set_def
  hw_atl_itr_irq_map_en_tx_set_def
  hw_atl_itr_irq_map_rx_set_def
  hw_atl_itr_irq_map_tx_set_def
  hw_atl_itr_irq_msk_clearlsw_set_def
  hw_atl_itr_irq_msk_setlsw_set_def
  hw_atl_itr_irq_reg_res_dis_set_def
  hw_atl_itr_irq_status_clearlsw_set_def
  hw_atl_itr_res_irq_set_def
  hw_atl_itr_rsc_en_set_def
  hw_atl_itr_rsc_delay_set_def
  hw_atl_rdm_cpu_id_set_def
  hw_atl_rdm_rx_dca_en_set_def
  hw_atl_rdm_rx_dca_mode_set_def
  hw_atl_rdm_rx_desc_data_buff_size_set_def
  hw_atl_rdm_rx_desc_dca_en_set_def
  hw_atl_rdm_rx_desc_en_set_def
  hw_atl_rdm_rx_desc_head_buff_size_set_def
  hw_atl_rdm_rx_desc_head_splitting_set_def
  hw_atl_rdm_rx_desc_len_set_def
  hw_atl_rdm_rx_desc_res_set_def
  hw_atl_rdm_rx_desc_wr_wb_irq_en_set_def
  hw_atl_rdm_rx_head_dca_en_set_def
  hw_atl_rdm_rx_pld_dca_en_set_def
  hw_atl_rdm_rdm_intr_moder_en_set_def
  hw_atl_reg_gen_irq_map_set_def
  hw_atl_reg_irq_glb_ctl_set_def
  hw_atl_reg_irq_thr_set_def
  hw_atl_reg_rx_dma_desc_base_addresslswset_def
  hw_atl_reg_rx_dma_desc_base_addressmswset_def
  hw_atl_reg_rx_dma_desc_tail_ptr_set_def
  hw_atl_reg_rx_flr_mcst_flr_msk_set_def
  hw_atl_reg_rx_flr_mcst_flr_set_def
  hw_atl_reg_rx_flr_rss_control1set_def
  hw_atl_reg_rx_flr_control2_set_def
  hw_atl_reg_rx_intr_moder_ctrl_set_def
  hw_atl_reg_tx_dma_debug_ctl_set_def
  hw_atl_reg_tx_dma_desc_base_addresslswset_def
  hw_atl_reg_tx_dma_desc_base_addressmswset_def
  hw_atl_reg_tx_dma_desc_tail_ptr_set_def
  hw_atl_reg_tx_intr_moder_ctrl_set_def
  hw_atl_rpb_dma_sys_lbk_set_def
  hw_atl_rpb_dma_net_lbk_set_def
  hw_atl_rpb_rpf_rx_traf_class_mode_set_def
  hw_atl_rpb_rx_buff_en_set_def
  hw_atl_rpb_rx_buff_hi_threshold_per_tc_set_def
  hw_atl_rpb_rx_buff_lo_threshold_per_tc_set_def
  hw_atl_rpb_rx_flow_ctl_mode_set_def
  hw_atl_rdm_rx_dma_desc_cache_init_set_def
  hw_atl_rpb_rx_pkt_buff_size_per_tc_set_def
  hw_atl_rpb_rx_xoff_en_per_tc_set_def
  hw_atl_rpfl2broadcast_count_threshold_set_def
  hw_atl_rpfl2broadcast_en_set_def
  hw_atl_rpfl2broadcast_flr_act_set_def
  hw_atl_rpfl2multicast_flr_en_set_def
  hw_atl_rpfl2promiscuous_mode_en_set_def
  hw_atl_rpfl2unicast_flr_act_set_def
  hw_atl_rpfl2_uc_flr_en_set_def
  hw_atl_rpfl2unicast_dest_addresslsw_set_def
  hw_atl_rpfl2unicast_dest_addressmsw_set_def
  hw_atl_rpfl2_accept_all_mc_packets_set_def
  hw_atl_rpf_rpb_user_priority_tc_map_set_def
  hw_atl_rpf_rss_key_addr_set_def
  hw_atl_rpf_rss_key_wr_data_set_def
  hw_atl_rpf_rss_key_wr_en_set_def
  hw_atl_rpf_rss_redir_tbl_addr_set_def
  hw_atl_rpf_rss_redir_tbl_wr_data_set_def
  hw_atl_rpf_rss_redir_wr_en_set_def
  hw_atl_rpf_tpo_to_rpf_sys_lbk_set_def
  hw_atl_rpf_vlan_inner_etht_set_def
  hw_atl_rpf_vlan_outer_etht_set_def
  hw_atl_rpf_vlan_prom_mode_en_set_def
  hw_atl_rpf_vlan_accept_untagged_packets_set_def
  hw_atl_rpf_vlan_untagged_act_set_def
  hw_atl_rpf_vlan_flr_en_set_def
  hw_atl_rpf_vlan_flr_act_set_def
  hw_atl_rpf_vlan_id_flr_set_def
  hw_atl_rpf_vlan_rxq_en_flr_set_def
  hw_atl_rpf_vlan_rxq_flr_set_def
  hw_atl_rpf_etht_flr_en_set_def
  hw_atl_rpf_etht_user_priority_en_set_def
  hw_atl_rpf_etht_rx_queue_en_set_def
  hw_atl_rpf_etht_user_priority_set_def
  hw_atl_rpf_etht_rx_queue_set_def
  hw_atl_rpf_etht_mgt_queue_set_def
  hw_atl_rpf_etht_flr_act_set_def
  hw_atl_rpf_etht_flr_set_def
  hw_atl_rpf_l3_l4_enf_set_def
  hw_atl_rpf_l3_v6_enf_set_def
  hw_atl_rpf_l3_saf_en_set_def
  hw_atl_rpf_l3_daf_en_set_def
  hw_atl_rpf_l4_spf_en_set_def
  hw_atl_rpf_l4_dpf_en_set_def
  hw_atl_rpf_l4_protf_en_set_def
  hw_atl_rpf_l3_arpf_en_set_def
  hw_atl_rpf_l3_l4_rxqf_en_set_def
  hw_atl_rpf_l3_l4_mng_rxqf_set_def
  hw_atl_rpf_l3_l4_actf_set_def
  hw_atl_rpf_l3_l4_rxqf_set_def
  hw_atl_rpf_l4_protf_set_def
  hw_atl_rpf_l4_spd_set_def
  hw_atl_rpf_l4_dpd_set_def
  hw_atl_rpo_ipv4header_crc_offload_en_set_def
  hw_atl_rpo_rx_desc_vlan_stripping_set_def
  hw_atl_rpo_outer_vlan_tag_mode_set_def
  hw_atl_rpo_tcp_udp_crc_offload_en_set_def
  hw_atl_rpo_lro_en_set_def
  hw_atl_rpo_lro_patch_optimization_en_set_def
  hw_atl_rpo_lro_qsessions_lim_set_def
  hw_atl_rpo_lro_total_desc_lim_set_def
  hw_atl_rpo_lro_min_pay_of_first_pkt_set_def
  hw_atl_rpo_lro_pkt_lim_set_def
  hw_atl_rpo_lro_max_num_of_descriptors_set_def
  hw_atl_rpo_lro_time_base_divider_set_def
  hw_atl_rpo_lro_inactive_interval_set_def
  hw_atl_rpo_lro_max_coalescing_interval_set_def
  hw_atl_rx_rx_reg_res_dis_set_def
  hw_atl_tdm_cpu_id_set_def
  hw_atl_tdm_large_send_offload_en_set_def
  hw_atl_tdm_tx_dca_en_set_def
  hw_atl_tdm_tx_dca_mode_set_def
  hw_atl_tdm_tx_desc_dca_en_set_def
  hw_atl_tdm_tx_desc_en_set_def
  hw_atl_tdm_tx_desc_len_set_def
  hw_atl_tdm_tx_desc_wr_wb_irq_en_set_def
  hw_atl_tdm_tx_desc_wr_wb_threshold_set_def
  hw_atl_tdm_tdm_intr_moder_en_set_def
  hw_atl_thm_lso_tcp_flag_of_first_pkt_set_def
  hw_atl_thm_lso_tcp_flag_of_last_pkt_set_def
  hw_atl_thm_lso_tcp_flag_of_middle_pkt_set_def
  hw_atl_tpb_tx_buff_en_set_def
  hw_atl_rpb_tps_tx_tc_mode_set_def
  hw_atl_tpb_tx_buff_hi_threshold_per_tc_set_def
  hw_atl_tpb_tx_buff_lo_threshold_per_tc_set_def
  hw_atl_tpb_tx_dma_sys_lbk_en_set_def
  hw_atl_tpb_tx_dma_net_lbk_en_set_def
  hw_atl_tpb_tx_pkt_buff_size_per_tc_set_def
  hw_atl_tpb_tx_path_scp_ins_en_set_def
  hw_atl_tpo_ipv4header_crc_offload_en_set_def
  hw_atl_tpo_tcp_udp_crc_offload_en_set_def
  hw_atl_tpo_tx_pkt_sys_lbk_en_set_def
  hw_atl_tps_tx_pkt_shed_data_arb_mode_set_def
  hw_atl_tps_tx_pkt_shed_desc_rate_curr_time_res_set_def
  hw_atl_tps_tx_pkt_shed_desc_rate_lim_set_def
  hw_atl_tps_tx_pkt_shed_desc_tc_arb_mode_set_def
  hw_atl_tps_tx_pkt_shed_desc_tc_max_credit_set_def
  hw_atl_tps_tx_pkt_shed_desc_tc_weight_set_def
  hw_atl_tps_tx_pkt_shed_desc_vm_arb_mode_set_def
  hw_atl_tps_tx_pkt_shed_tc_data_max_credit_set_def
  hw_atl_tps_tx_pkt_shed_tc_data_weight_set_def
  hw_atl_tx_tx_reg_res_dis_set_def
  hw_atl_msm_reg_addr_for_indirect_addr_set_def
  hw_atl_msm_reg_rd_strobe_set_def
  hw_atl_msm_reg_wr_data_set_def
  hw_atl_msm_reg_wr_strobe_set_def
  hw_atl_pci_pci_reg_res_dis_set_def
  hw_atl_reg_glb_cpu_scratch_scp_set_def
  hw_atl_pcs_ptp_clock_read_enable_def
  mcp_up_force_intr_set_def
  hw_atl_rpfl3l4_ipv4_dest_addr_clear_def
  hw_atl_rpfl3l4_ipv4_src_addr_clear_def
  hw_atl_rpfl3l4_cmd_clear_def
  hw_atl_rpfl3l4_ipv6_dest_addr_clear_def
  hw_atl_rpfl3l4_ipv6_src_addr_clear_def
  hw_atl_rpfl3l4_ipv4_dest_addr_set_def
  hw_atl_rpfl3l4_ipv4_src_addr_set_def
  hw_atl_rpfl3l4_cmd_set_def
  hw_atl_rpfl3l4_ipv6_src_addr_set_def
  hw_atl_rpfl3l4_ipv6_dest_addr_set_def
  hw_atl_glb_mdio_iface1_set_def
  hw_atl_glb_mdio_iface2_set_def
  hw_atl_glb_mdio_iface3_set_def
  hw_atl_glb_mdio_iface4_set_def
  hw_atl_glb_mdio_iface5_set_def

lemmas llh_get_defs =
  hw_atl_reg_glb_cpu_sem_get_def
  hw_atl_glb_soft_res_get_def
  hw_atl_reg_glb_mif_id_get_def
  hw_atl_rpb_rx_dma_drop_pkt_cnt_get_def
  hw_atl_stats_rx_dma_good_octet_counterlsw_get_def
  hw_atl_stats_rx_dma_good_pkt_counterlsw_get_def
  hw_atl_stats_tx_dma_good_octet_counterlsw_get_def
  hw_atl_stats_tx_dma_good_pkt_counterlsw_get_def
  hw_atl_stats_rx_dma_good_octet_countermsw_get_def
  hw_atl_stats_rx_dma_good_pkt_countermsw_get_def
  hw_atl_stats_tx_dma_good_octet_countermsw_get_def
  hw_atl_stats_tx_dma_good_pkt_countermsw_get_def
  hw_atl_itr_irq_statuslsw_get_def
  hw_atl_itr_res_irq_get_def
  hw_atl_rdm_rx_desc_head_ptr_get_def
  hw_atl_reg_gen_irq_status_get_def
  hw_atl_reg_rx_dma_desc_status_get_def
  hw_atl_rpb_rpf_rx_traf_class_mode_get_def
  hw_atl_rpf_rss_key_wr_en_get_def
  hw_atl_rpf_rss_redir_wr_en_get_def
  hw_atl_rpo_outer_vlan_tag_mode_get_def
  hw_atl_tdm_tx_desc_head_ptr_get_def
  hw_atl_rpb_tps_tx_tc_mode_get_def
  hw_atl_msm_reg_access_status_get_def
  hw_atl_msm_reg_rd_data_get_def
  hw_atl_pcs_ptp_clock_get_def
  hw_atl_glb_mdio_iface1_get_def
  hw_atl_glb_mdio_iface2_get_def
  hw_atl_glb_mdio_iface3_get_def
  hw_atl_glb_mdio_iface4_get_def
  hw_atl_glb_mdio_iface5_get_def
  hw_atl_mdio_busy_get_def

subsection \<open>Reading and writing fields\<close>

lemma same_sw_write_field [simp]: "same_sw hw (write_field hw f i v)"
  by (simp add: write_field_def)

lemma same_sw_read_field [simp]: "same_sw hw (snd (read_field hw f i))"
  by (simp add: read_field_def)

lemma full_mask_shift:
  assumes "f \<in> set llh_fields" "fld_msk f = NOT 0"
  shows "fld_shift f = 0"
proof -
  obtain w where "fld_msk f = field_mask (fld_shift f) w"
    using assms(1) by (rule llh_fields_mask)
  then have "bit (field_mask (fld_shift f) w) 0"
    using assms(2) by (metis bit_minus_1_iff possible_bit_word bit.compl_zero len_gt_0)
  then show ?thesis by (simp add: field_mask_bit)
qed

text \<open>A value fits a field when it is below 2 to the number of bits of the mask.\<close>

definition field_fits :: "reg_field \<Rightarrow> u32 \<Rightarrow> bool" where
  "field_fits f v \<longleftrightarrow> push_bit (fld_shift f) v AND fld_msk f = push_bit (fld_shift f) v \<and>
     drop_bit (fld_shift f) (push_bit (fld_shift f) v) = v"

lemma field_fits_width:
  assumes "f \<in> set llh_fields" "fld_width f = Some w" "unat v < 2 ^ w"
  shows "field_fits f v"
proof -
  obtain w' where "w' + fld_shift f \<le> 32" "fld_msk f = field_mask (fld_shift f) w'"
    "fld_width f = None \<or> fld_width f = Some w'"
    using assms(1) by (rule llh_fields_mask)
  then show ?thesis
    using assms(2,3) field_mask_fits by (auto simp: field_fits_def)
qed

lemma write_field_regs:
  assumes "plain_hw hw" "f \<in> set llh_fields" "fld_adr f i \<noteq> alive_adr hw"
  shows "regs (write_field hw f i v) = (regs hw)(fld_adr f i :=
      (regs hw (fld_adr f i) AND NOT (fld_msk f)) OR push_bit (fld_shift f) v)"
    and "plain_hw (write_field hw f i v)"
    and "alive_adr (write_field hw f i v) = alive_adr hw"
  using assms full_mask_shift
  by (auto simp: write_field_def plain_write_reg_bit plain_write_reg_bit_inv)

lemma read_write_field:
  assumes "plain_hw hw" "f \<in> set llh_fields" "fld_adr f i \<noteq> alive_adr hw" "field_fits f v"
  shows "fst (read_field (write_field hw f i v) f i) = v"
  unfolding read_field_def write_field_def
  by (rule hw.field_readback) (use assms full_mask_shift in \<open>auto simp: field_fits_def\<close>)

lemma read_write_field_other:
  assumes "plain_hw hw" "f \<in> set llh_fields" "fld_adr f i \<noteq> alive_adr hw" "field_fits f v"
    and "fld_msk f AND fld_msk g = 0 \<or> fld_adr g j \<noteq> fld_adr f i"
  shows "fst (read_field (write_field hw f i v) g j) = fst (read_field hw g j)"
  unfolding read_field_def write_field_def
  by (rule hw.field_frame) (use assms full_mask_shift in \<open>auto simp: field_fits_def\<close>)

end
