(* ===== verification/Ring.thy ===== *)
theory Ring
  imports Hw_Access
begin

section \<open>Descriptor rings (aq_ring.h, aq_ring.c): indices, buffers, queue state\<close>

text \<open>
  The ring of a transmit or receive queue: its buffer descriptors, the software and hardware
  positions, and the index arithmetic on them. Positions are \<open>unsigned int\<close>s of the C
  code (32-bit words); a ring of size \<open>n\<close> holds at most \<open>n - 1\<close> pending entries, so that
  equal positions mean an empty ring.

  The descriptor \<open>aq_ring_buff_s\<close> is a packed C union. Its first eight bytes (\<open>w0\<close>) are
  the DMA address \<open>pa\<close>, or \<open>rss_hash\<close>, \<open>next\<close>, \<open>is_hash_l4\<close> of a received
  buffer, or \<open>mss\<close> and the header lengths of a context descriptor; the next eight
  (\<open>w1\<close>) are the \<open>skb\<close> pointer, or \<open>len_pkt\<close> and \<open>vlan_tx_tag\<close>, or the page
  pointer of a receive buffer. Reading one member after writing another reads the same
  bits, as on the little-endian 64-bit machines the driver runs on. Pointers are 64-bit
  addresses, with 0 for NULL.
\<close>

subsection \<open>Buffer descriptors\<close>

record aq_ring_buff_s =
  w0 :: u64
  w1 :: u64
  rx_daddr :: u64
  rx_order :: u32
  rx_pg_off :: u32
  vlan_rx_tag :: u16
  len :: u16
  is_ip_cso :: bool
  is_udp_cso :: bool
  is_tcp_cso :: bool
  is_cso_err :: bool
  is_sop :: bool
  is_eop :: bool
  is_gso :: bool
  is_mapped :: bool
  is_cleaned :: bool
  is_error :: bool
  is_vlan :: bool
  eop_index :: u16

text \<open>\<open>buff->flags = 0U\<close> clears the whole second union, the length and the EOP index too.\<close>

definition clear_flags :: "aq_ring_buff_s \<Rightarrow> aq_ring_buff_s" where
  "clear_flags b = b\<lparr>len := 0, is_ip_cso := False, is_udp_cso := False, is_tcp_cso := False,
     is_cso_err := False, is_sop := False, is_eop := False, is_gso := False, is_mapped := False,
     is_cleaned := False, is_error := False, is_vlan := False, eop_index := 0\<rparr>"

definition pa :: "aq_ring_buff_s \<Rightarrow> u64" where "pa b = w0 b"
definition set_pa :: "u64 \<Rightarrow> aq_ring_buff_s \<Rightarrow> aq_ring_buff_s" where "set_pa v b = b\<lparr>w0 := v\<rparr>"

definition rss_hash :: "aq_ring_buff_s \<Rightarrow> u32" where "rss_hash b = ucast (w0 b)"
definition set_rss_hash :: "u32 \<Rightarrow> aq_ring_buff_s \<Rightarrow> aq_ring_buff_s" where
  "set_rss_hash v b = b\<lparr>w0 := slice_set 0 32 (ucast v) (w0 b)\<rparr>"

definition next_ix :: "aq_ring_buff_s \<Rightarrow> u16" where "next_ix b = ucast (drop_bit 32 (w0 b))"
definition set_next_ix :: "u16 \<Rightarrow> aq_ring_buff_s \<Rightarrow> aq_ring_buff_s" where
  "set_next_ix v b = b\<lparr>w0 := slice_set 32 16 (ucast v) (w0 b)\<rparr>"

definition is_hash_l4 :: "aq_ring_buff_s \<Rightarrow> u8" where "is_hash_l4 b = ucast (drop_bit 48 (w0 b))"
definition set_is_hash_l4 :: "u8 \<Rightarrow> aq_ring_buff_s \<Rightarrow> aq_ring_buff_s" where
  "set_is_hash_l4 v b = b\<lparr>w0 := slice_set 48 8 (ucast v) (w0 b)\<rparr>"

definition mss :: "aq_ring_buff_s \<Rightarrow> u32" where "mss b = ucast (w0 b)"
definition set_mss :: "u32 \<Rightarrow> aq_ring_buff_s \<Rightarrow> aq_ring_buff_s" where
  "set_mss v b = b\<lparr>w0 := slice_set 0 32 (ucast v) (w0 b)\<rparr>"

definition len_l2 :: "aq_ring_buff_s \<Rightarrow> u8" where "len_l2 b = ucast (drop_bit 32 (w0 b))"
definition set_len_l2 :: "u8 \<Rightarrow> aq_ring_buff_s \<Rightarrow> aq_ring_buff_s" where
  "set_len_l2 v b = b\<lparr>w0 := slice_set 32 8 (ucast v) (w0 b)\<rparr>"

definition len_l3 :: "aq_ring_buff_s \<Rightarrow> u8" where "len_l3 b = ucast (drop_bit 40 (w0 b))"
definition set_len_l3 :: "u8 \<Rightarrow> aq_ring_buff_s \<Rightarrow> aq_ring_buff_s" where
  "set_len_l3 v b = b\<lparr>w0 := slice_set 40 8 (ucast v) (w0 b)\<rparr>"

definition len_l4 :: "aq_ring_buff_s \<Rightarrow> u8" where "len_l4 b = ucast (drop_bit 48 (w0 b))"
definition set_len_l4 :: "u8 \<Rightarrow> aq_ring_buff_s \<Rightarrow> aq_ring_buff_s" where
  "set_len_l4 v b = b\<lparr>w0 := slice_set 48 8 (ucast v) (w0 b)\<rparr>"

definition is_ipv6 :: "aq_ring_buff_s \<Rightarrow> bool" where "is_ipv6 b = bit (w0 b) 56"
definition set_is_ipv6 :: "bool \<Rightarrow> aq_ring_buff_s \<Rightarrow> aq_ring_buff_s" where
  "set_is_ipv6 v b = b\<lparr>w0 := slice_set 56 1 (of_flag v) (w0 b)\<rparr>"

definition len_pkt :: "aq_ring_buff_s \<Rightarrow> u32" where "len_pkt b = ucast (w1 b)"
definition set_len_pkt :: "u32 \<Rightarrow> aq_ring_buff_s \<Rightarrow> aq_ring_buff_s" where
  "set_len_pkt v b = b\<lparr>w1 := slice_set 0 32 (ucast v) (w1 b)\<rparr>"

definition vlan_tx_tag :: "aq_ring_buff_s \<Rightarrow> u16" where "vlan_tx_tag b = ucast (drop_bit 32 (w1 b))"
definition set_vlan_tx_tag :: "u16 \<Rightarrow> aq_ring_buff_s \<Rightarrow> aq_ring_buff_s" where
  "set_vlan_tx_tag v b = b\<lparr>w1 := slice_set 32 16 (ucast v) (w1 b)\<rparr>"

definition skb :: "aq_ring_buff_s \<Rightarrow> u64" where "skb b = w1 b"
definition set_skb :: "u64 \<Rightarrow> aq_ring_buff_s \<Rightarrow> aq_ring_buff_s" where "set_skb v b = b\<lparr>w1 := v\<rparr>"

definition page :: "aq_ring_buff_s \<Rightarrow> u64" where "page b = w1 b"
definition set_page :: "u64 \<Rightarrow> aq_ring_buff_s \<Rightarrow> aq_ring_buff_s" where "set_page v b = b\<lparr>w1 := v\<rparr>"

definition aq_buf_daddr :: "aq_ring_buff_s \<Rightarrow> u64" where
  "aq_buf_daddr b = rx_daddr b + ucast (rx_pg_off b)"

subsection \<open>Rings\<close>

record aq_ring_stats_s =
  st_errors :: u64
  st_packets :: u64
  st_bytes :: u64
  st_lro_packets :: u64
  st_jumbo_packets :: u64
  st_pg_losts :: u64
  st_pg_flips :: u64
  st_pg_reuses :: u64
  st_queue_restarts :: u64

text \<open>
  A hardware descriptor is 16 bytes shared with the chip, here two 64-bit words.
  \<open>dx_ring_pa\<close> is the bus address of the descriptor ring.
\<close>

record aq_ring_s =
  buff_ring :: "aq_ring_buff_s list"
  dx_ring :: "(u64 \<times> u64) list"
  ring_idx :: u32
  hw_head :: u32
  sw_head :: u32
  sw_tail :: u32
  ring_size :: u32
  dx_size :: u32
  page_order :: u32
  ring_stats :: aq_ring_stats_s
  dx_ring_pa :: u64

definition ring_next :: "u32 \<Rightarrow> u32 \<Rightarrow> u32" where
  "ring_next sz dx = (let dx = dx + 1 in if dx \<ge> sz then 0 else dx)"

definition aq_ring_next_dx :: "aq_ring_s \<Rightarrow> u32 \<Rightarrow> u32" where
  "aq_ring_next_dx self dx = ring_next (ring_size self) dx"

definition ring_avail :: "u32 \<Rightarrow> u32 \<Rightarrow> u32 \<Rightarrow> u32" where
  "ring_avail sz h t = (if t \<ge> h then (sz - 1) - t + h else h - t - 1)"

definition aq_ring_avail_dx :: "aq_ring_s \<Rightarrow> u32" where
  "aq_ring_avail_dx self = ring_avail (ring_size self) (sw_head self) (sw_tail self)"

definition aq_ring_dx_in_range :: "u32 \<Rightarrow> u32 \<Rightarrow> u32 \<Rightarrow> bool" where
  "aq_ring_dx_in_range h i t = (if h < t then h < i \<and> i < t else h < i \<or> i < t)"

definition aq_ring_init :: "aq_ring_s \<Rightarrow> aq_ring_s" where
  "aq_ring_init self = self\<lparr>hw_head := 0, sw_head := 0, sw_tail := 0\<rparr>"

text \<open>The transmit queues of the network device that are stopped, by queue index.\<close>

type_synonym netdev_queues = "u32 \<Rightarrow> bool"

definition aq_ring_queue_wake :: "aq_ring_s \<Rightarrow> netdev_queues \<Rightarrow> aq_ring_s \<times> netdev_queues" where
  "aq_ring_queue_wake ring q =
     (if q (ring_idx ring)
      then (ring\<lparr>ring_stats := (ring_stats ring)\<lparr>st_queue_restarts :=
              st_queue_restarts (ring_stats ring) + 1\<rparr>\<rparr>, q(ring_idx ring := False))
      else (ring, q))"

definition aq_ring_queue_stop :: "aq_ring_s \<Rightarrow> netdev_queues \<Rightarrow> aq_ring_s \<times> netdev_queues" where
  "aq_ring_queue_stop ring q =
     (if \<not> q (ring_idx ring) then (ring, q(ring_idx ring := True)) else (ring, q))"

definition aq_ring_update_queue_state ::
  "aq_ring_s \<Rightarrow> netdev_queues \<Rightarrow> aq_ring_s \<times> netdev_queues" where
  "aq_ring_update_queue_state ring q =
     (if aq_ring_avail_dx ring \<le> AQ_CFG_SKB_FRAGS_MAX then aq_ring_queue_stop ring q
      else if aq_ring_avail_dx ring > AQ_CFG_RESTART_DESC_THRES then aq_ring_queue_wake ring q
      else (ring, q))"


subsection \<open>Circular positions as an interface\<close>

text \<open>
  What every ring loop needs of the index arithmetic: a step that stays in range and moves
  one place around a circle of \<open>cap\<close> places. \<open>gap s p q\<close> is the number of steps from
  \<open>p\<close> to \<open>q\<close>.
\<close>

locale circular =
  fixes valid :: "'s \<Rightarrow> 'p \<Rightarrow> bool"
    and nxt :: "'s \<Rightarrow> 'p \<Rightarrow> 'p"
    and pos :: "'p \<Rightarrow> nat"
    and cap :: "'s \<Rightarrow> nat"
  assumes valid_nxt: "valid s p \<Longrightarrow> valid s (nxt s p)"
    and pos_less: "valid s p \<Longrightarrow> pos p < cap s"
    and pos_nxt: "valid s p \<Longrightarrow> pos (nxt s p) = Suc (pos p) mod cap s"
    and pos_inj: "valid s p \<Longrightarrow> valid s q \<Longrightarrow> pos p = pos q \<Longrightarrow> p = q"
begin

definition gap :: "'s \<Rightarrow> 'p \<Rightarrow> 'p \<Rightarrow> nat" where
  "gap s p q = (pos q + cap s - pos p) mod cap s"

lemma gap_less: "valid s p \<Longrightarrow> gap s p q < cap s"
  using pos_less [of s p] by (auto simp: gap_def)

lemma gap_cases:
  assumes "valid s p" "valid s q"
  shows "gap s p q = (if pos p \<le> pos q then pos q - pos p else pos q + cap s - pos p)"
proof (cases "pos p \<le> pos q")
  case True
  then have e: "pos q + cap s - pos p = (pos q - pos p) + cap s" by simp
  have "gap s p q = (pos q - pos p) mod cap s"
    unfolding gap_def e by simp
  then show ?thesis using True pos_less [OF assms(2)] by simp
next
  case False
  then have "pos q + cap s - pos p < cap s"
    using pos_less [OF assms(1)] by linarith
  then show ?thesis using False by (simp add: gap_def)
qed

lemma gap_0_iff: "valid s p \<Longrightarrow> valid s q \<Longrightarrow> gap s p q = 0 \<longleftrightarrow> p = q"
  using pos_less [of s p] pos_less [of s q]
  by (auto simp: gap_cases split: if_splits intro: pos_inj)

lemma nxt_cases:
  assumes "valid s p"
  shows "pos (nxt s p) = (if Suc (pos p) = cap s then 0 else Suc (pos p))"
  using pos_less [OF assms] by (simp add: pos_nxt [OF assms])

lemma gap_nxt_left:
  assumes "valid s p" "valid s q" "p \<noteq> q"
  shows "Suc (gap s (nxt s p) q) = gap s p q"
proof -
  have "pos p \<noteq> pos q"
    using assms pos_inj by blast
  then show ?thesis
    using assms pos_less [OF assms(1)] pos_less [OF assms(2)]
    by (auto simp: gap_cases valid_nxt nxt_cases)
qed

lemma gap_nxt_right:
  assumes "valid s p" "valid s q" "Suc (gap s p q) < cap s"
  shows "gap s p (nxt s q) = Suc (gap s p q)"
  using assms pos_less [OF assms(1)] pos_less [OF assms(2)]
  by (auto simp: gap_cases valid_nxt nxt_cases split: if_splits)

lemma gap_split:
  assumes "valid s p" "valid s q" "valid s r" "gap s p q \<le> gap s p r"
  shows "gap s q r = gap s p r - gap s p q"
  using circ_split [OF pos_less [OF assms(1)] pos_less [OF assms(2)] pos_less [OF assms(3)]]
    assms(4) by (simp only: gap_cases [OF assms(1,2)] gap_cases [OF assms(1,3)] gap_cases [OF assms(2,3)])

definition walk :: "'s \<Rightarrow> 'p \<Rightarrow> nat \<Rightarrow> 'p list" where
  "walk s p n = map (\<lambda>k. (nxt s ^^ k) p) [0..<n]"

lemma walk_0 [simp]: "walk s p 0 = []"
  by (simp add: walk_def)

lemma walk_Suc: "walk s p (Suc n) = p # walk s (nxt s p) n"
proof -
  have "[0..<Suc n] = 0 # map Suc [0..<n]" by (simp add: map_Suc_upt upt_conv_Cons)
  then show ?thesis
    by (simp add: walk_def o_def funpow_swap1)
qed

lemma valid_iter: "valid s p \<Longrightarrow> valid s ((nxt s ^^ k) p)"
  by (induction k) (auto intro: valid_nxt)

lemma pos_iter: "valid s p \<Longrightarrow> pos ((nxt s ^^ k) p) = (pos p + k) mod cap s"
proof (induction k)
  case 0
  then show ?case using pos_less by simp
next
  case (Suc k)
  then show ?case
    by (simp add: pos_nxt valid_iter mod_Suc_eq)
qed

lemma iter_gap:
  assumes "valid s p" "valid s q"
  shows "(nxt s ^^ gap s p q) p = q"
proof (rule pos_inj [of s])
  have "pos p + gap s p q = pos q \<or> pos p + gap s p q = pos q + cap s"
    using pos_less [OF assms(1)] by (auto simp: gap_cases [OF assms])
  then show "pos ((nxt s ^^ gap s p q) p) = pos q"
    using pos_less [OF assms(2)] by (auto simp: pos_iter [OF assms(1)])
qed (use assms valid_iter in auto)

lemma gap_iter:
  assumes "valid s p" "k < cap s"
  shows "gap s p ((nxt s ^^ k) p) = k"
proof -
  have "pos p + k < cap s \<or> (pos p + k) mod cap s = pos p + k - cap s"
    using assms pos_less [OF assms(1)] by (auto simp: mod_if)
  then show ?thesis
    using assms pos_less [OF assms(1)]
    by (auto simp: gap_cases valid_iter pos_iter mod_if)
qed

lemma walk_gap_distinct: "valid s p \<Longrightarrow> n \<le> cap s \<Longrightarrow> distinct (walk s p n)"
  by (auto simp: walk_def distinct_map inj_on_def dest: arg_cong [where f = "gap s p"]
      simp: gap_iter)

lemma in_walk_iff:
  assumes "valid s p" "valid s q" "n \<le> cap s"
  shows "q \<in> set (walk s p n) \<longleftrightarrow> gap s p q < n"
proof
  assume "q \<in> set (walk s p n)"
  then obtain k where "k < n" "q = (nxt s ^^ k) p" by (auto simp: walk_def)
  then show "gap s p q < n" using assms by (simp add: gap_iter)
next
  assume "gap s p q < n"
  then show "q \<in> set (walk s p n)"
    using iter_gap [OF assms(1,2)] by (auto simp: walk_def intro: image_eqI [where x = "gap s p q"])
qed

end

lemma ring_next_less: "p < sz \<Longrightarrow> ring_next sz p < sz"
  by (auto simp: ring_next_def Let_def not_le word_gt_0)

lemma unat_ring_next: "p < sz \<Longrightarrow> unat (ring_next sz p) = Suc (unat p) mod unat sz"
proof -
  assume p: "p < sz"
  then have u: "unat p < unat sz" by (simp add: word_less_nat_alt)
  then have "unat (p + 1) = Suc (unat p)"
    using unat_u32_less [of sz] by (simp add: unat_plus_if')
  then show ?thesis
    using u by (auto simp: ring_next_def Let_def word_le_nat_alt mod_if)
qed

interpretation ring: circular "\<lambda>sz p. p < sz" ring_next "unat :: u32 \<Rightarrow> nat" unat
  by unfold_locales (auto simp: ring_next_less unat_ring_next word_less_nat_alt word_unat_eq_iff)

subsection \<open>Occupancy\<close>

text \<open>
  \<open>ring_ok\<close>: a ring of at least two entries (and small enough for index arithmetic in
  32 bits not to wrap), whose three positions are in range and whose hardware head lies
  between the software head and tail.
\<close>

definition ring_ok :: "aq_ring_s \<Rightarrow> bool" where
  "ring_ok r \<longleftrightarrow> 2 \<le> ring_size r \<and> sw_head r < ring_size r \<and> sw_tail r < ring_size r \<and>
     hw_head r < ring_size r \<and> length (buff_ring r) = unat (ring_size r) \<and>
     length (dx_ring r) = unat (ring_size r) \<and>
     ring.gap (ring_size r) (sw_head r) (hw_head r) \<le> ring.gap (ring_size r) (sw_head r) (sw_tail r)"

definition pending :: "aq_ring_s \<Rightarrow> nat" where
  "pending r = ring.gap (ring_size r) (sw_head r) (sw_tail r)"

lemma unat_ring_avail:
  assumes "h < sz" "t < sz"
  shows "unat (ring_avail sz h t) + ring.gap sz h t = unat sz - 1"
proof -
  have h: "unat h < unat sz" and t: "unat t < unat sz"
    using assms by (simp_all add: word_less_nat_alt)
  have s1: "unat (sz - 1) = unat sz - 1"
    using h by (metis less_nat_zero_code unat_eq_zero unat_minus_one)
  show ?thesis
  proof (cases "h \<le> t")
    case True
    then have le: "unat h \<le> unat t" by (simp add: word_le_nat_alt)
    have "unat (sz - 1 - t) = unat sz - 1 - unat t"
      using t s1 by (subst unat_sub) (auto simp: word_le_nat_alt)
    moreover from this have "unat (sz - 1 - t + h) = unat (sz - 1 - t) + unat h"
      using le t unat_u32_less [of sz] by (simp add: unat_plus_if')
    ultimately show ?thesis
      using True le t h by (simp add: ring_avail_def ring.gap_cases [OF assms])
  next
    case False
    then have lt: "unat t < unat h" by (simp add: word_le_nat_alt)
    have "unat (h - t) = unat h - unat t"
      using lt by (subst unat_sub) (auto simp: word_le_nat_alt)
    moreover from this lt have "unat (h - t - 1) = unat h - unat t - 1"
      by (metis diff_is_0_eq leD unat_eq_zero unat_minus_one)
    ultimately show ?thesis
      using False lt t h by (simp add: ring_avail_def ring.gap_cases [OF assms])
  qed
qed

lemma avail_pending: "ring_ok r \<Longrightarrow> unat (aq_ring_avail_dx r) + pending r = unat (ring_size r) - 1"
  by (simp add: ring_ok_def aq_ring_avail_dx_def pending_def unat_ring_avail)

text \<open>
  \<open>aq_ring_dx_in_range\<close> on a ring position: strictly after the head and strictly before
  the tail going around; with equal head and tail it excludes only the head itself.
\<close>

lemma dx_in_range_iff:
  assumes "h < sz" "i < sz" "t < sz" "h \<noteq> t"
  shows "aq_ring_dx_in_range h i t \<longleftrightarrow> 0 < ring.gap sz h i \<and> ring.gap sz h i < ring.gap sz h t"
proof -
  have "unat h \<noteq> unat t"
    using assms(4) by (simp add: word_unat_eq_iff)
  then show ?thesis
    using ring.pos_less [OF assms(1)] ring.pos_less [OF assms(2)] ring.pos_less [OF assms(3)]
    unfolding aq_ring_dx_in_range_def ring.gap_cases [OF assms(1,2)] ring.gap_cases [OF assms(1,3)]
      word_less_nat_alt by auto
qed

lemma update_queue_state_ring:
  "buff_ring (fst (aq_ring_update_queue_state r q)) = buff_ring r \<and>
   sw_head (fst (aq_ring_update_queue_state r q)) = sw_head r \<and>
   sw_tail (fst (aq_ring_update_queue_state r q)) = sw_tail r \<and>
   hw_head (fst (aq_ring_update_queue_state r q)) = hw_head r \<and>
   ring_size (fst (aq_ring_update_queue_state r q)) = ring_size r \<and>
   dx_ring (fst (aq_ring_update_queue_state r q)) = dx_ring r \<and>
   ring_idx (fst (aq_ring_update_queue_state r q)) = ring_idx r"
  by (simp add: aq_ring_update_queue_state_def aq_ring_queue_stop_def aq_ring_queue_wake_def)

end
