(* ===== verification/Tx_Map.thy ===== *)
theory Tx_Map
  imports Ring
begin

section \<open>Posting and reclaiming transmit buffers (aq_nic_map_skb, aq_ring_tx_clean)\<close>

text \<open>
  The transmit half of a ring: \<open>aq_nic_map_skb\<close> of aq_nic.c, which maps a socket buffer for
  DMA and describes it in the ring, and \<open>aq_ring_tx_clean\<close> of aq_ring.c, which releases
  what the chip has sent.

  The kernel services they use are not in the sources. A \<open>kern\<close> value answers the calls:
  \<open>dma_answer n\<close> is the bus address the \<open>n\<close>-th DMA mapping returns, \<open>None\<close> a mapping
  error; \<open>klog\<close> records what was mapped, unmapped and freed, oldest first. The argument
  \<open>vmk\<close> of \<open>aq_nic_map_skb\<close> selects the ESXi build (\<open>__VMKLNX__\<close>), whose code splits a
  long head fragment.
\<close>

subsection \<open>The kernel services\<close>

datatype kevent =
    Map_single u64 u32            \<comment> \<open>address, length\<close>
  | Map_frag u64 nat u32 u32      \<comment> \<open>address, fragment number, offset in it, length\<close>
  | Unmap_single u64 u32
  | Unmap_page u64 u32
  | Kfree_skb u64
  | Alloc_page u64 u32            \<comment> \<open>page, order\<close>
  | Map_page u64 u64 u32          \<comment> \<open>address, page, length\<close>
  | Free_page u64 u32

record kern =
  dma_answer :: "nat \<Rightarrow> u64 option"
  dma_calls :: nat
  page_answer :: "nat \<Rightarrow> u64 option"
  page_calls :: nat
  page_refs :: "u64 \<Rightarrow> nat"
  klog :: "kevent list"

definition klogs :: "kevent \<Rightarrow> kern \<Rightarrow> kern" where
  "klogs e k = k\<lparr>klog := klog k @ [e]\<rparr>"

definition dma_map :: "(u64 \<Rightarrow> kevent) \<Rightarrow> kern \<Rightarrow> u64 option \<times> kern" where
  "dma_map ev k =
     (let a = dma_answer k (dma_calls k); k = k\<lparr>dma_calls := Suc (dma_calls k)\<rparr> in
      case a of None \<Rightarrow> (None, k) | Some p \<Rightarrow> (Some p, klogs (ev p) k))"

text \<open>
  The parts of a socket buffer the driver reads. \<open>skb_gso_size\<close> is 0 unless the packet is
  to be segmented; the frame lengths are in bytes.
\<close>

record sk_buff =
  skb_ptr :: u64
  skb_len :: u32
  skb_headlen :: u32
  skb_frags :: "u32 list"
  skb_gso_size :: u16
  skb_ip_hdrlen :: u8
  skb_tcp_hdrlen :: u8
  skb_ip_version :: u8
  skb_ip_protocol :: u8
  skb_ipv6_nexthdr :: u8
  skb_eth_p_ip :: bool
  skb_csum_partial :: bool
  skb_vlan_present :: bool
  skb_vlan_tag :: u16
  skb_queue_mapping :: u16

definition skb_is_gso :: "sk_buff \<Rightarrow> bool" where
  "skb_is_gso s \<longleftrightarrow> skb_gso_size s \<noteq> 0"

definition ETH_HLEN :: u8 where "ETH_HLEN = 14"
definition IPPROTO_TCP :: u8 where "IPPROTO_TCP = 6"
definition IPPROTO_UDP :: u8 where "IPPROTO_UDP = 17"

subsection \<open>Mapping a socket buffer (aq_nic_map_skb)\<close>

definition upd_buff :: "aq_ring_s \<Rightarrow> u32 \<Rightarrow> (aq_ring_buff_s \<Rightarrow> aq_ring_buff_s) \<Rightarrow> aq_ring_s" where
  "upd_buff ring dx f =
     ring\<lparr>buff_ring := (buff_ring ring)[unat dx := f (buff_ring ring ! unat dx)]\<rparr>"

text \<open>The context part of the first descriptor: segmentation and VLAN tag.\<close>

definition put_gso :: "sk_buff \<Rightarrow> aq_ring_buff_s \<Rightarrow> aq_ring_buff_s" where
  "put_gso s b =
     (let b = set_mss (ucast (skb_gso_size s)) b;
          b = b\<lparr>is_gso := True\<rparr>;
          b = set_len_pkt (skb_len s) b;
          b = set_len_l2 ETH_HLEN b;
          b = set_len_l3 (skb_ip_hdrlen s) b;
          b = set_len_l4 (skb_tcp_hdrlen s) b;
          b = b\<lparr>eop_index := 0xffff\<rparr>
      in set_is_ipv6 (skb_ip_version s = 6) b)"

definition put_vlan :: "sk_buff \<Rightarrow> aq_ring_buff_s \<Rightarrow> aq_ring_buff_s" where
  "put_vlan s b =
     (let b = set_vlan_tx_tag (skb_vlan_tag s) b;
          b = set_len_pkt (skb_len s) b
      in b\<lparr>is_vlan := True\<rparr>)"

definition put_csum :: "sk_buff \<Rightarrow> aq_ring_buff_s \<Rightarrow> aq_ring_buff_s" where
  "put_csum s b =
     (if skb_csum_partial s then
        let b = b\<lparr>is_ip_cso := skb_eth_p_ip s\<rparr> in
        if skb_ip_version s = 4 then
          b\<lparr>is_tcp_cso := skb_ip_protocol s = IPPROTO_TCP,
            is_udp_cso := skb_ip_protocol s = IPPROTO_UDP\<rparr>
        else if skb_ip_version s = 6 then
          b\<lparr>is_tcp_cso := skb_ipv6_nexthdr s = IPPROTO_TCP,
            is_udp_cso := skb_ipv6_nexthdr s = IPPROTO_UDP\<rparr>
        else b
      else b)"

definition put_frag :: "u16 \<Rightarrow> u64 \<Rightarrow> aq_ring_buff_s \<Rightarrow> aq_ring_buff_s" where
  "put_frag l a b =
     (let b = clear_flags b;
          b = b\<lparr>len := l\<rparr>;
          b = set_pa a b
      in b\<lparr>is_mapped := True, eop_index := 0xffff\<rparr>)"

definition frag_chunk :: "u32 \<Rightarrow> u32" where
  "frag_chunk n = (if n > AQ_CFG_TX_FRAME_MAX then AQ_CFG_TX_FRAME_MAX else n)"

lemma frag_chunk_less: "n \<noteq> 0 \<Longrightarrow> unat (n - frag_chunk n) < unat n"
proof -
  assume n: "n \<noteq> 0"
  have le: "frag_chunk n \<le> n" and pos: "frag_chunk n \<noteq> 0"
    using n by (auto simp: frag_chunk_def AQ_CFG_TX_FRAME_MAX_def)
  then have "0 < unat (frag_chunk n)" by (simp add: unat_gt_0)
  with le show ?thesis by (simp add: unat_sub word_le_nat_alt)
qed

text \<open>The head of the ESXi build: the rest of a head longer than a descriptor can carry.\<close>

function vmk_split_head :: "aq_ring_s \<Rightarrow> u32 \<Rightarrow> nat \<Rightarrow> u32 \<Rightarrow> u64 \<Rightarrow> aq_ring_s \<times> u32 \<times> nat" where
  "vmk_split_head ring dx ret frag_size frag_pa =
     (if frag_size = 0 then (ring, dx, ret)
      else
        let buff_size = frag_chunk frag_size;
            dx = aq_ring_next_dx ring dx;
            ring = upd_buff ring dx (put_frag (ucast buff_size) frag_pa)
        in vmk_split_head ring dx (Suc ret) (frag_size - buff_size) (frag_pa + ucast buff_size))"
  by pat_completeness auto
termination
  by (relation "measure (\<lambda>(ring, dx, ret, n, a). unat n)") (auto intro: frag_chunk_less)

function map_frag :: "aq_ring_s \<Rightarrow> kern \<Rightarrow> u32 \<Rightarrow> nat \<Rightarrow> nat \<Rightarrow> u32 \<Rightarrow> u32 \<Rightarrow>
    bool \<times> aq_ring_s \<times> kern \<times> u32 \<times> nat" where
  "map_frag ring k dx ret frag_no frag_len buff_offset =
     (if frag_len = 0 then (True, ring, k, dx, ret)
      else
        let buff_size = frag_chunk frag_len in
        case dma_map (\<lambda>a. Map_frag a frag_no buff_offset buff_size) k of
          (None, k) \<Rightarrow> (False, ring, k, dx, ret)
        | (Some frag_pa, k) \<Rightarrow>
            let dx = aq_ring_next_dx ring dx;
                ring = upd_buff ring dx (put_frag (ucast buff_size) frag_pa)
            in map_frag ring k dx (Suc ret) frag_no (frag_len - buff_size) (buff_offset + buff_size))"
  by pat_completeness auto
termination
  by (relation "measure (\<lambda>(ring, k, dx, ret, i, n, off). unat n)") (auto intro: frag_chunk_less)

declare vmk_split_head.simps [simp del] map_frag.simps [simp del]

fun map_frags :: "aq_ring_s \<Rightarrow> kern \<Rightarrow> u32 \<Rightarrow> nat \<Rightarrow> nat \<Rightarrow> u32 list \<Rightarrow>
    bool \<times> aq_ring_s \<times> kern \<times> u32 \<times> nat" where
  "map_frags ring k dx ret frag_count [] = (True, ring, k, dx, ret)"
| "map_frags ring k dx ret frag_count (n # ns) =
     (case map_frag ring k dx ret frag_count n 0 of
        (False, ring, k, dx, ret) \<Rightarrow> (False, ring, k, dx, ret)
      | (True, ring, k, dx, ret) \<Rightarrow> map_frags ring k dx ret (Suc frag_count) ns)"

text \<open>The \<open>mapping_error\<close> path: unmap the descriptors posted so far, from the tail.\<close>

definition unmap_ev :: "aq_ring_buff_s \<Rightarrow> kevent" where
  "unmap_ev b = (if is_sop b then Unmap_single (pa b) (ucast (len b))
                 else Unmap_page (pa b) (ucast (len b)))"

fun unmap_posted :: "nat \<Rightarrow> aq_ring_s \<Rightarrow> u32 \<Rightarrow> kern \<Rightarrow> kern" where
  "unmap_posted 0 ring dx k = k"
| "unmap_posted (Suc ret) ring dx k =
     (let b = buff_ring ring ! unat dx;
          k = (if \<not> is_gso b \<and> \<not> is_vlan b \<and> pa b \<noteq> 0 then klogs (unmap_ev b) k else k)
      in unmap_posted ret ring (aq_ring_next_dx ring dx) k)"

text \<open>
  The context descriptor, if the packet needs one: the ring, the position of the first
  data descriptor and the number of descriptors used so far. \<open>vlan_ins\<close> is
  \<open>aq_nic_cfg.is_vlan_tx_insert\<close>.
\<close>

definition map_context :: "bool \<Rightarrow> sk_buff \<Rightarrow> aq_ring_s \<Rightarrow> aq_ring_s \<times> u32 \<times> nat" where
  "map_context vlan_ins s ring =
     (let dx = sw_tail ring;
          vlan = vlan_ins \<and> skb_vlan_present s;
          ring = upd_buff ring dx clear_flags;
          ring = (if skb_is_gso s then upd_buff ring dx (put_gso s) else ring);
          ring = (if vlan then upd_buff ring dx (put_vlan s) else ring)
      in if skb_is_gso s \<or> vlan
         then let dx = aq_ring_next_dx ring dx in (upd_buff ring dx clear_flags, dx, 1)
         else (ring, dx, 0))"

definition aq_nic_map_skb ::
  "bool \<Rightarrow> bool \<Rightarrow> sk_buff \<Rightarrow> aq_ring_s \<Rightarrow> kern \<Rightarrow> nat \<times> aq_ring_s \<times> kern" where
  "aq_nic_map_skb vmk vlan_ins s ring k =
     (let (ring, dx, ret) = map_context vlan_ins s ring;
          ring = upd_buff ring dx (\<lambda>b. b\<lparr>len := ucast (skb_headlen s)\<rparr>);
          l = len (buff_ring ring ! unat dx)
      in case dma_map (\<lambda>a. Map_single a (ucast l)) k of
           (None, k) \<Rightarrow> (ret, upd_buff ring dx (set_pa (NOT 0)), k)
         | (Some a, k) \<Rightarrow>
           let first = dx;
               ring = upd_buff ring dx (\<lambda>b. (set_len_pkt (skb_len s) (set_pa a b))
                        \<lparr>is_sop := True, is_mapped := True\<rparr>);
               ret = Suc ret;
               ring = upd_buff ring dx (put_csum s);
               (ring, dx, ret) =
                 (if vmk \<and> AQ_CFG_TX_FRAME_MAX < ucast l
                  then vmk_split_head
                         (upd_buff ring dx (\<lambda>b. b\<lparr>len := ucast AQ_CFG_TX_FRAME_MAX\<rparr>)) dx ret
                         (ucast l - AQ_CFG_TX_FRAME_MAX) (a + ucast AQ_CFG_TX_FRAME_MAX)
                  else (ring, dx, ret))
           in case map_frags ring k dx ret 0 (skb_frags s) of
                (False, ring, k, dx, ret) \<Rightarrow> (0, ring, unmap_posted ret ring (sw_tail ring) k)
              | (True, ring, k, dx, ret) \<Rightarrow>
                  let ring = upd_buff ring first (\<lambda>b. b\<lparr>eop_index := ucast dx\<rparr>);
                      ring = upd_buff ring dx (\<lambda>b. set_skb (skb_ptr s) (b\<lparr>is_eop := True\<rparr>))
                  in (ret, ring, k))"

subsection \<open>Reclaiming sent buffers (aq_ring_tx_clean)\<close>

fun tx_clean_loop :: "nat \<Rightarrow> aq_ring_s \<Rightarrow> kern \<Rightarrow> nat \<times> aq_ring_s \<times> kern" where
  "tx_clean_loop 0 self k = (0, self, k)"
| "tx_clean_loop (Suc budget) self k =
     (if sw_head self = hw_head self then (Suc budget, self, k)
      else
        let b = buff_ring self ! unat (sw_head self) in
        if is_mapped b \<and> is_sop b \<and> \<not> is_eop b \<and> eop_index b \<noteq> 0xffff \<and>
           \<not> aq_ring_dx_in_range (sw_head self) (ucast (eop_index b)) (hw_head self)
        then (Suc budget, self, k)
        else
          let k = (if is_mapped b then klogs (unmap_ev b) k else k);
              k = (if is_eop b then klogs (Kfree_skb (skb b)) k else k);
              self = upd_buff self (sw_head self) (\<lambda>b. (set_pa 0 b)\<lparr>eop_index := 0xffff\<rparr>);
              self = self\<lparr>sw_head := aq_ring_next_dx self (sw_head self)\<rparr>
          in tx_clean_loop budget self k)"

definition aq_ring_tx_clean :: "aq_ring_s \<Rightarrow> kern \<Rightarrow> bool \<times> aq_ring_s \<times> kern" where
  "aq_ring_tx_clean self k =
     (case tx_clean_loop (unat AQ_CFG_TX_CLEAN_BUDGET) self k of
        (budget, self, k) \<Rightarrow> (budget \<noteq> 0, self, k))"

subsection \<open>The ring as a list\<close>

text \<open>
  \<open>posted r p n\<close> is the \<open>n\<close> buffers from position \<open>p\<close> on; \<open>window r p\<close> is the whole ring
  read from there. On a window an update of the ring is an update of a list.
\<close>

definition posted :: "aq_ring_s \<Rightarrow> u32 \<Rightarrow> nat \<Rightarrow> aq_ring_buff_s list" where
  "posted r p n = map (\<lambda>i. buff_ring r ! unat i) (ring.walk (ring_size r) p n)"

definition window :: "aq_ring_s \<Rightarrow> u32 \<Rightarrow> aq_ring_buff_s list" where
  "window r p = posted r p (unat (ring_size r))"

definition slot :: "aq_ring_s \<Rightarrow> u32 \<Rightarrow> nat \<Rightarrow> u32" where
  "slot r p k = (ring_next (ring_size r) ^^ k) p"

definition sized :: "aq_ring_s \<Rightarrow> u32 \<Rightarrow> bool" where
  "sized r p \<longleftrightarrow> p < ring_size r \<and> length (buff_ring r) = unat (ring_size r)"

lemma upd_buff_simps [simp]:
  "ring_size (upd_buff r dx f) = ring_size r" "sw_head (upd_buff r dx f) = sw_head r"
  "sw_tail (upd_buff r dx f) = sw_tail r" "hw_head (upd_buff r dx f) = hw_head r"
  "dx_ring (upd_buff r dx f) = dx_ring r" "ring_idx (upd_buff r dx f) = ring_idx r"
  "length (buff_ring (upd_buff r dx f)) = length (buff_ring r)"
  by (simp_all add: upd_buff_def)

lemma sized_upd [simp]: "sized (upd_buff r dx f) p = sized r p"
  by (simp add: sized_def)

lemma slot_0 [simp]: "slot r p 0 = p"
  by (simp add: slot_def)

lemma slot_Suc: "aq_ring_next_dx r (slot r p k) = slot r p (Suc k)"
  by (simp add: slot_def aq_ring_next_dx_def)

lemma slot_upd [simp]: "slot (upd_buff r dx f) = slot r"
  by (simp add: slot_def fun_eq_iff)

lemma slot_less: "p < ring_size r \<Longrightarrow> slot r p k < ring_size r"
  by (simp add: slot_def ring.valid_iter)

lemma slot_eq_iff:
  assumes "p < ring_size r" "j < unat (ring_size r)" "k < unat (ring_size r)"
  shows "slot r p j = slot r p k \<longleftrightarrow> j = k"
  using ring.gap_iter [OF assms(1,2)] ring.gap_iter [OF assms(1,3)] unfolding slot_def by metis

lemma length_posted [simp]: "length (posted r p n) = n"
  by (simp add: posted_def ring.walk_def)

lemma length_window [simp]: "length (window r p) = unat (ring_size r)"
  by (simp add: window_def)

lemma posted_nth: "k < n \<Longrightarrow> posted r p n ! k = buff_ring r ! unat (slot r p k)"
  by (simp add: posted_def ring.walk_def slot_def)

lemma window_nth: "k < unat (ring_size r) \<Longrightarrow> window r p ! k = buff_ring r ! unat (slot r p k)"
  by (simp add: window_def posted_nth)

lemma posted_window: "n \<le> unat (ring_size r) \<Longrightarrow> posted r p n = take n (window r p)"
  by (rule nth_equalityI) (simp_all add: posted_nth window_nth)

lemma buff_upd:
  assumes "length (buff_ring r) = unat (ring_size r)" "dx < ring_size r" "i < ring_size r"
  shows "buff_ring (upd_buff r dx f) ! unat i =
    (if i = dx then f (buff_ring r ! unat i) else buff_ring r ! unat i)"
  using assms by (auto simp: upd_buff_def nth_list_update word_less_nat_alt word_unat_eq_iff)

lemma window_upd:
  assumes "sized r p" "k < unat (ring_size r)"
  shows "window (upd_buff r (slot r p k) f) p = (window r p)[k := f (window r p ! k)]"
proof (rule nth_equalityI)
  fix j assume "j < length (window (upd_buff r (slot r p k) f) p)"
  then have j: "j < unat (ring_size r)" by simp
  have "window (upd_buff r (slot r p k) f) p ! j = buff_ring (upd_buff r (slot r p k) f) ! unat (slot r p j)"
    using j by (simp add: window_nth)
  also have "\<dots> = (if j = k then f (window r p ! j) else window r p ! j)"
    using assms j by (simp add: sized_def buff_upd slot_less slot_eq_iff window_nth)
  finally show "window (upd_buff r (slot r p k) f) p ! j = (window r p)[k := f (window r p ! k)] ! j"
    using j by (auto simp: nth_list_update)
qed simp

text \<open>Operations that only rewrite buffers leave the rest of the ring as it is.\<close>

definition ring_same :: "aq_ring_s \<Rightarrow> aq_ring_s \<Rightarrow> bool" where
  "ring_same r r' \<longleftrightarrow> (\<exists>bs. r' = r\<lparr>buff_ring := bs\<rparr> \<and> length bs = length (buff_ring r))"

lemma ring_same_refl [simp]: "ring_same r r"
  by (auto simp: ring_same_def intro: exI [of _ "buff_ring r"])

lemma ring_same_trans [trans]: "ring_same r r' \<Longrightarrow> ring_same r' r'' \<Longrightarrow> ring_same r r''"
  by (auto simp: ring_same_def)

lemma ring_same_upd [simp]: "ring_same r r' \<Longrightarrow> ring_same r (upd_buff r' dx f)"
  by (auto simp: ring_same_def upd_buff_def)

lemma ring_same_sel:
  "ring_same r r' \<Longrightarrow> ring_size r' = ring_size r \<and> sw_tail r' = sw_tail r \<and> sw_head r' = sw_head r
    \<and> hw_head r' = hw_head r \<and> slot r' = slot r \<and> sized r' = sized r \<and> dx_ring r' = dx_ring r \<and>
    ring_idx r' = ring_idx r"
  by (auto simp: ring_same_def slot_def sized_def fun_eq_iff)

subsection \<open>Posting a list of mapped pieces\<close>

fun post_all :: "(u16 \<times> u64) list \<Rightarrow> aq_ring_s \<Rightarrow> u32 \<Rightarrow> aq_ring_s \<times> u32" where
  "post_all [] r dx = (r, dx)"
| "post_all ((l, a) # ps) r dx =
     (let dx = aq_ring_next_dx r dx in post_all ps (upd_buff r dx (put_frag l a)) dx)"

lemma post_all_append:
  "post_all (ps @ qs) r dx = (case post_all ps r dx of (r, dx) \<Rightarrow> post_all qs r dx)"
  by (induction ps r dx rule: post_all.induct) (simp_all add: Let_def)

lemma post_all_window:
  assumes "sized r p" "k + length ps < unat (ring_size r)"
    and "post_all ps r (slot r p k) = (r', dx')"
  shows "dx' = slot r p (k + length ps) \<and> ring_same r r' \<and>
    window r' p = take (Suc k) (window r p) @
      map2 (\<lambda>(l, a). put_frag l a) ps (drop (Suc k) (window r p)) @
      drop (Suc k + length ps) (window r p)"
  using assms
proof (induction ps arbitrary: r k)
  case Nil
  then show ?case by auto
next
  case (Cons la ps)
  obtain l a where la: "la = (l, a)" by fastforce
  let ?r = "upd_buff r (slot r p (Suc k)) (put_frag l a)"
  let ?W = "window r p"
  have k: "Suc k < unat (ring_size r)" using Cons.prems(2) by simp
  have w: "window ?r p = ?W[Suc k := put_frag l a (?W ! Suc k)]"
    using Cons.prems(1) k by (rule window_upd)
  have IH: "dx' = slot ?r p (Suc k + length ps) \<and> ring_same ?r r' \<and>
    window r' p = take (Suc (Suc k)) (window ?r p) @
      map2 (\<lambda>(l, a). put_frag l a) ps (drop (Suc (Suc k)) (window ?r p)) @
      drop (Suc (Suc k) + length ps) (window ?r p)"
    by (rule Cons.IH) (use Cons.prems la in \<open>simp_all add: slot_Suc Let_def\<close>)
  have d: "drop (Suc k) ?W = ?W ! Suc k # drop (Suc (Suc k)) ?W"
    using k by (simp add: Cons_nth_drop_Suc)
  have t: "take (Suc (Suc k)) (window ?r p) = take (Suc k) ?W @ [put_frag l a (?W ! Suc k)]"
    using k by (simp add: w take_Suc_conv_app_nth)
  have "ring_same r r'"
    using IH by (auto intro: ring_same_trans [of r ?r])
  then show ?case
    using IH by (simp add: la t [unfolded w] d w)
qed

text \<open>How a length is cut into pieces, the offset of every piece, and their bus addresses.\<close>

function chunks :: "u32 \<Rightarrow> u32 list" where
  "chunks n = (if n = 0 then [] else frag_chunk n # chunks (n - frag_chunk n))"
  by pat_completeness auto
termination
  by (relation "measure unat") (auto intro: frag_chunk_less)

declare chunks.simps [simp del]

lemma chunks_0 [simp]: "chunks 0 = []"
  by (simp add: chunks.simps)

lemma frag_chunk_le: "frag_chunk n \<le> n" "frag_chunk n \<le> AQ_CFG_TX_FRAME_MAX"
  by (auto simp: frag_chunk_def)

lemma chunks_sum: "sum_list (map unat (chunks n)) = unat n"
proof (induction n rule: chunks.induct)
  case (1 n)
  show ?case
  proof (cases "n = 0")
    case False
    have "sum_list (map unat (chunks n)) = unat (frag_chunk n) + unat (n - frag_chunk n)"
      using 1 False by (subst chunks.simps) simp
    then show ?thesis
      using frag_chunk_le(1) [of n] by (simp add: unat_sub word_le_nat_alt)
  qed simp
qed

lemma chunks_bounds: "c \<in> set (chunks n) \<Longrightarrow> 0 < c \<and> c \<le> AQ_CFG_TX_FRAME_MAX"
proof (induction n rule: chunks.induct)
  case (1 n)
  have "n \<noteq> 0" "c = frag_chunk n \<or> c \<in> set (chunks (n - frag_chunk n))"
    using 1(2) by (simp_all add: chunks.simps [of n] split: if_splits)
  moreover have "n \<noteq> 0 \<Longrightarrow> 0 < frag_chunk n"
    by (simp add: frag_chunk_def AQ_CFG_TX_FRAME_MAX_def word_gt_0)
  ultimately show ?case
    using 1(1) frag_chunk_le(2) [of n] by blast
qed

fun chunk_offs :: "u32 \<Rightarrow> u32 list \<Rightarrow> (u32 \<times> u32) list" where
  "chunk_offs off [] = []"
| "chunk_offs off (c # cs) = (off, c) # chunk_offs (off + c) cs"

lemma length_chunk_offs [simp]: "length (chunk_offs off cs) = length cs"
  by (induction cs arbitrary: off) auto

fun pieces :: "u64 \<Rightarrow> u32 list \<Rightarrow> (u16 \<times> u64) list" where
  "pieces a [] = []"
| "pieces a (c # cs) = (ucast c, a) # pieces (a + ucast c) cs"

lemma length_pieces [simp]: "length (pieces a cs) = length cs"
  by (induction cs arbitrary: a) auto

lemma vmk_split_head_post:
  "vmk_split_head r dx ret n a =
     (case post_all (pieces a (chunks n)) r dx of (r, dx) \<Rightarrow> (r, dx, ret + length (chunks n)))"
proof (induction r dx ret n a rule: vmk_split_head.induct)
  case (1 r dx ret n a)
  show ?case
  proof (cases "n = 0")
    case False
    then show ?thesis
      using 1 [OF False refl refl refl]
      by (subst vmk_split_head.simps, subst (1 2) chunks.simps)
        (simp add: Let_def split_beta)
  qed (simp add: vmk_split_head.simps)
qed

text \<open>The piece a mapping posts, and what it says of the fragment it maps.\<close>

fun ev_piece :: "kevent \<Rightarrow> u16 \<times> u64" where
  "ev_piece (Map_frag a i off n) = (ucast n, a)"
| "ev_piece (Map_single a n) = (ucast n, a)"
| "ev_piece e = (0, 0)"

fun ev_tile :: "kevent \<Rightarrow> nat \<times> u32 \<times> u32" where
  "ev_tile (Map_frag a i off n) = (i, off, n)"
| "ev_tile e = (0, 0, 0)"

fun ev_addr :: "kevent \<Rightarrow> u64" where
  "ev_addr (Map_frag a i off n) = a"
| "ev_addr (Map_single a n) = a"
| "ev_addr e = 0"

definition tiles :: "nat \<Rightarrow> u32 \<Rightarrow> u32 list \<Rightarrow> (nat \<times> u32 \<times> u32) list" where
  "tiles i off cs = map (\<lambda>(off, c). (i, off, c)) (chunk_offs off cs)"

lemma length_tiles [simp]: "length (tiles i off cs) = length cs"
  by (simp add: tiles_def)

lemma tiles_Cons [simp]: "tiles i off (c # cs) = (i, off, c) # tiles i (off + c) cs"
  by (simp add: tiles_def)

text \<open>
  What a run of fragment mappings does: it appends \<open>evs\<close> to the log, one per descriptor
  posted, at the addresses the mappings answered, and stops early only on a refused mapping.
\<close>

definition mapped :: "aq_ring_s \<Rightarrow> kern \<Rightarrow> u32 \<Rightarrow> nat \<Rightarrow> aq_ring_s \<Rightarrow> kern \<Rightarrow> u32 \<Rightarrow> nat \<Rightarrow> kevent list \<Rightarrow> bool" where
  "mapped r k dx ret r' k' dx' ret' evs \<longleftrightarrow>
     k' = k\<lparr>dma_calls := dma_calls k', klog := klog k @ evs\<rparr> \<and>
     post_all (map ev_piece evs) r dx = (r', dx') \<and> ret' = ret + length evs \<and>
     (\<forall>e \<in> set evs. \<exists>a i off n. e = Map_frag a i off n \<and> n \<le> AQ_CFG_TX_FRAME_MAX \<and>
        (\<exists>j. dma_answer k j = Some a))"

lemma mapped_Nil [simp]: "mapped r k dx ret r k dx ret []"
  by (simp add: mapped_def)

lemma mapped_trans:
  assumes "mapped r k dx ret r1 k1 dx1 ret1 evs" "mapped r1 k1 dx1 ret1 r2 k2 dx2 ret2 evs'"
  shows "mapped r k dx ret r2 k2 dx2 ret2 (evs @ evs')"
proof -
  have k1: "k1 = k\<lparr>dma_calls := dma_calls k1, klog := klog k @ evs\<rparr>"
    using assms(1) by (simp add: mapped_def)
  have k2: "k2 = k1\<lparr>dma_calls := dma_calls k2, klog := klog k1 @ evs'\<rparr>"
    using assms(2) by (simp add: mapped_def)
  have "k2 = k\<lparr>dma_calls := dma_calls k2, klog := klog k @ evs @ evs'\<rparr>"
    by (subst k2, subst (1) k1, subst k1) simp
  moreover have "dma_answer k1 = dma_answer k" by (subst k1) simp
  ultimately show ?thesis
    using assms unfolding mapped_def by (auto simp: post_all_append)
qed

lemma mapped_refused: 
  assumes "dma_answer k (dma_calls k) = None"
  shows "mapped r k dx ret r (k\<lparr>dma_calls := Suc (dma_calls k)\<rparr>) dx ret []"
  by (simp add: mapped_def)

lemma mapped_one:
  assumes "dma_answer k (dma_calls k) = Some a" "n \<le> AQ_CFG_TX_FRAME_MAX"
  shows "mapped r k dx ret (upd_buff r (aq_ring_next_dx r dx) (put_frag (ucast n) a))
    (klogs (Map_frag a i off n) (k\<lparr>dma_calls := Suc (dma_calls k)\<rparr>)) (aq_ring_next_dx r dx) (Suc ret)
    [Map_frag a i off n]"
  using assms by (auto simp: mapped_def klogs_def Let_def)

lemma map_frag_mapped:
  assumes "map_frag r k dx ret i n off = (fin, r', k', dx', ret')"
  shows "\<exists>evs. mapped r k dx ret r' k' dx' ret' evs \<and>
    map ev_tile evs = take (length evs) (tiles i off (chunks n)) \<and>
    length evs \<le> length (chunks n) \<and> (fin \<longleftrightarrow> length evs = length (chunks n))"
  using assms
proof (induction r k dx ret i n off rule: map_frag.induct)
  case (1 r k dx ret i n off)
  show ?case
  proof (cases "n = 0")
    case True
    then show ?thesis using 1(2) by (intro exI [of _ "[]"]) (simp add: map_frag.simps)
  next
    case n: False
    let ?c = "frag_chunk n"
    have ch: "chunks n = ?c # chunks (n - ?c)"
      using n by (subst chunks.simps) simp
    show ?thesis
    proof (cases "dma_answer k (dma_calls k)")
      case None
      then have e: "dma_map (\<lambda>a. Map_frag a i off ?c) k = (None, k\<lparr>dma_calls := Suc (dma_calls k)\<rparr>)"
        by (simp add: dma_map_def)
      have "r' = r \<and> k' = k\<lparr>dma_calls := Suc (dma_calls k)\<rparr> \<and> dx' = dx \<and> ret' = ret \<and> \<not> fin"
        using 1(2) n by (simp add: map_frag.simps [of r k dx ret i n off] e)
      then show ?thesis
        using mapped_refused [OF None] ch by (intro exI [of _ "[]"]) simp
    next
      case (Some a)
      let ?k = "klogs (Map_frag a i off ?c) (k\<lparr>dma_calls := Suc (dma_calls k)\<rparr>)"
      let ?dx = "aq_ring_next_dx r dx"
      have e: "dma_map (\<lambda>a. Map_frag a i off ?c) k = (Some a, ?k)"
        using Some by (simp add: dma_map_def)
      have "map_frag (upd_buff r ?dx (put_frag (ucast ?c) a)) ?k ?dx (Suc ret) i (n - ?c) (off + ?c)
          = (fin, r', k', dx', ret')"
        using 1(2) n by (simp add: map_frag.simps [of r k dx ret i n off] e Let_def)
      then obtain evs where
        m: "mapped (upd_buff r ?dx (put_frag (ucast ?c) a)) ?k ?dx (Suc ret) r' k' dx' ret' evs" and
        t: "map ev_tile evs = take (length evs) (tiles i (off + ?c) (chunks (n - ?c)))"
           "length evs \<le> length (chunks (n - ?c))" "fin \<longleftrightarrow> length evs = length (chunks (n - ?c))"
        using 1(1) [OF n refl e [symmetric] refl refl refl] by blast
      show ?thesis
        using mapped_trans [OF mapped_one [OF Some frag_chunk_le(2) [of n]] m] t ch
        by (intro exI [of _ "Map_frag a i off ?c # evs"]) simp
    qed
  qed
qed

fun frag_tiles :: "nat \<Rightarrow> u32 list \<Rightarrow> (nat \<times> u32 \<times> u32) list" where
  "frag_tiles i [] = []"
| "frag_tiles i (n # ns) = tiles i 0 (chunks n) @ frag_tiles (Suc i) ns"

lemma map_frags_mapped:
  assumes "map_frags r k dx ret i ns = (fin, r', k', dx', ret')"
  shows "\<exists>evs. mapped r k dx ret r' k' dx' ret' evs \<and>
    map ev_tile evs = take (length evs) (frag_tiles i ns) \<and>
    length evs \<le> length (frag_tiles i ns) \<and> (fin \<longleftrightarrow> length evs = length (frag_tiles i ns))"
  using assms
proof (induction ns arbitrary: r k dx ret i)
  case Nil
  then show ?case by (intro exI [of _ "[]"]) simp
next
  case (Cons n ns)
  obtain ok r1 k1 dx1 ret1 where e: "map_frag r k dx ret i n 0 = (ok, r1, k1, dx1, ret1)"
    by (metis prod.exhaust)
  obtain evs where evs: "mapped r k dx ret r1 k1 dx1 ret1 evs"
    "map ev_tile evs = take (length evs) (tiles i 0 (chunks n))"
    "length evs \<le> length (chunks n)" "ok \<longleftrightarrow> length evs = length (chunks n)"
    using map_frag_mapped [OF e] by blast
  show ?case
  proof (cases ok)
    case False
    then have "mapped r k dx ret r' k' dx' ret' evs \<and> \<not> fin"
      using Cons.prems e evs(1) by simp
    then show ?thesis
      using evs False by (intro exI [of _ evs]) auto
  next
    case True
    then have "map_frags r1 k1 dx1 ret1 (Suc i) ns = (fin, r', k', dx', ret')"
      using Cons.prems e by simp
    then obtain evs' where "mapped r1 k1 dx1 ret1 r' k' dx' ret' evs'"
      "map ev_tile evs' = take (length evs') (frag_tiles (Suc i) ns)"
      "length evs' \<le> length (frag_tiles (Suc i) ns)"
      "fin \<longleftrightarrow> length evs' = length (frag_tiles (Suc i) ns)"
      using Cons.IH by blast
    then show ?thesis
      using mapped_trans [OF evs(1)] evs True by (intro exI [of _ "evs @ evs'"]) auto
  qed
qed

subsection \<open>What a posted buffer owes\<close>

text \<open>
  \<open>buff_release b\<close> is what the clean-up of \<open>b\<close> does to the kernel, \<open>unmap_of\<close> the unmapping
  that a mapping calls for.
\<close>

definition buff_release :: "aq_ring_buff_s \<Rightarrow> kevent list" where
  "buff_release b = (if is_mapped b then [unmap_ev b] else []) @
     (if is_eop b then [Kfree_skb (skb b)] else [])"

definition releases :: "aq_ring_buff_s list \<Rightarrow> kevent list" where
  "releases bs = concat (map buff_release bs)"

lemma releases_simps [simp]:
  "releases [] = []" "releases (b # bs) = buff_release b @ releases bs"
  "releases (as @ bs) = releases as @ releases bs"
  by (simp_all add: releases_def)

fun unmap_of :: "kevent \<Rightarrow> kevent" where
  "unmap_of (Map_single a n) = Unmap_single a n"
| "unmap_of (Map_frag a i off n) = Unmap_page a n"
| "unmap_of e = e"

lemma put_frag_sel [simp]:
  "is_mapped (put_frag l a b)" "\<not> is_sop (put_frag l a b)" "\<not> is_eop (put_frag l a b)"
  "\<not> is_gso (put_frag l a b)" "\<not> is_vlan (put_frag l a b)" "pa (put_frag l a b) = a"
  "len (put_frag l a b) = l" "eop_index (put_frag l a b) = 0xffff"
  by (simp_all add: put_frag_def clear_flags_def set_pa_def pa_def Let_def)

lemma clear_flags_sel [simp]:
  "\<not> is_mapped (clear_flags b)" "\<not> is_sop (clear_flags b)" "\<not> is_eop (clear_flags b)"
  "\<not> is_gso (clear_flags b)" "\<not> is_vlan (clear_flags b)" "eop_index (clear_flags b) = 0"
  by (simp_all add: clear_flags_def)

lemmas put_defs = put_gso_def put_vlan_def put_csum_def set_mss_def set_len_pkt_def set_len_l2_def
  set_len_l3_def set_len_l4_def set_is_ipv6_def set_vlan_tx_tag_def set_pa_def set_skb_def

lemma put_gso_sel [simp]:
  "is_mapped (put_gso s b) = is_mapped b" "is_sop (put_gso s b) = is_sop b"
  "is_eop (put_gso s b) = is_eop b" "is_gso (put_gso s b)" "is_vlan (put_gso s b) = is_vlan b"
  by (simp_all add: put_defs Let_def)

lemma put_vlan_sel [simp]:
  "is_mapped (put_vlan s b) = is_mapped b" "is_sop (put_vlan s b) = is_sop b"
  "is_eop (put_vlan s b) = is_eop b" "is_vlan (put_vlan s b)" "is_gso (put_vlan s b) = is_gso b"
  by (simp_all add: put_defs Let_def)

lemma put_csum_sel [simp]:
  "is_mapped (put_csum s b) = is_mapped b" "is_sop (put_csum s b) = is_sop b"
  "is_eop (put_csum s b) = is_eop b" "is_vlan (put_csum s b) = is_vlan b"
  "is_gso (put_csum s b) = is_gso b" "pa (put_csum s b) = pa b" "len (put_csum s b) = len b"
  "len_pkt (put_csum s b) = len_pkt b" "eop_index (put_csum s b) = eop_index b"
  by (simp_all add: put_defs Let_def pa_def len_pkt_def)

lemma release_put_frag [simp]:
  "buff_release (put_frag l a b) = [Unmap_page a (ucast l)]"
  by (simp add: buff_release_def unmap_ev_def)

lemma releases_put_frags:
  "length bs = length ps \<Longrightarrow>
   releases (map2 (\<lambda>(l, a). put_frag l a) ps bs) = map (\<lambda>(l, a). Unmap_page a (ucast l)) ps"
  by (induction ps bs rule: list_induct2') auto

lemma release_eop_index [simp]: "buff_release (b\<lparr>eop_index := e\<rparr>) = buff_release b"
  by (simp add: buff_release_def unmap_ev_def pa_def skb_def)

lemma ucast_chunk: "n \<le> AQ_CFG_TX_FRAME_MAX \<Longrightarrow> ucast (ucast n :: u16) = n"
proof -
  assume "n \<le> AQ_CFG_TX_FRAME_MAX"
  then have "unat n < 2 ^ 16"
    by (simp add: AQ_CFG_TX_FRAME_MAX_def word_le_nat_alt)
  then show ?thesis
    by (simp add: word_unat_eq_iff unsigned_ucast_eq unsigned_take_bit_eq take_bit_nat_eq_self)
qed

lemma mapped_releases:
  assumes "mapped r k dx ret r' k' dx' ret' evs"
  shows "map (\<lambda>(l, a). Unmap_page a (ucast l)) (map ev_piece evs) = map unmap_of evs"
proof -
  have "\<forall>e \<in> set evs. \<exists>a i off n. e = Map_frag a i off n \<and> n \<le> AQ_CFG_TX_FRAME_MAX"
    using assms unfolding mapped_def by blast
  then show ?thesis
    by (induction evs) (auto simp: ucast_chunk)
qed

text \<open>The context descriptor.\<close>

definition needs_context :: "bool \<Rightarrow> sk_buff \<Rightarrow> bool" where
  "needs_context vlan_ins s \<longleftrightarrow> skb_is_gso s \<or> vlan_ins \<and> skb_vlan_present s"

definition context_buff :: "bool \<Rightarrow> sk_buff \<Rightarrow> aq_ring_buff_s \<Rightarrow> bool" where
  "context_buff vi s b \<longleftrightarrow> needs_context vi s \<and> is_gso b = skb_is_gso s \<and>
     is_vlan b = (vi \<and> skb_vlan_present s) \<and> \<not> is_mapped b \<and> \<not> is_eop b \<and> \<not> is_sop b \<and>
     len_pkt b = skb_len s \<and>
     (is_gso b \<longrightarrow> mss b = ucast (skb_gso_size s) \<and> len_l2 b = ETH_HLEN \<and>
        len_l3 b = skb_ip_hdrlen s \<and> len_l4 b = skb_tcp_hdrlen s \<and>
        is_ipv6 b = (skb_ip_version s = 6)) \<and>
     (is_vlan b \<longrightarrow> vlan_tx_tag b = skb_vlan_tag s)"

lemma put_gso_fields:
  "mss (put_gso s b) = ucast (skb_gso_size s)" "len_l2 (put_gso s b) = ETH_HLEN"
  "len_l3 (put_gso s b) = skb_ip_hdrlen s" "len_l4 (put_gso s b) = skb_tcp_hdrlen s"
  "len_pkt (put_gso s b) = skb_len s"
  by (simp add: put_defs Let_def mss_def len_l2_def len_l3_def len_l4_def len_pkt_def,
      intro bit_word_eqI,
      auto simp: bit_slice_set bit_unsigned_iff bit_drop_bit_eq dest: bit_imp_le_length)+

lemma put_gso_ipv6: "is_ipv6 (put_gso s b) \<longleftrightarrow> skb_ip_version s = 6"
  by (simp add: put_defs Let_def is_ipv6_def bit_slice_set of_flag_def)

lemma put_vlan_fields:
  "mss (put_vlan s b) = mss b" "len_l2 (put_vlan s b) = len_l2 b" "len_l3 (put_vlan s b) = len_l3 b"
  "len_l4 (put_vlan s b) = len_l4 b" "is_ipv6 (put_vlan s b) = is_ipv6 b"
  "len_pkt (put_vlan s b) = skb_len s" "vlan_tx_tag (put_vlan s b) = skb_vlan_tag s"
  by ((simp add: put_defs Let_def mss_def len_l2_def len_l3_def len_l4_def is_ipv6_def len_pkt_def
      vlan_tx_tag_def, (intro bit_word_eqI)?,
      (auto simp: bit_slice_set bit_unsigned_iff bit_drop_bit_eq dest: bit_imp_le_length)?)+)

lemma context_buff_put:
  fixes b :: aq_ring_buff_s
  assumes "needs_context vi s"
  defines "b1 \<equiv> if skb_is_gso s then put_gso s (clear_flags b) else clear_flags b"
  shows "context_buff vi s (if vi \<and> skb_vlan_present s then put_vlan s b1 else b1)"
  using assms(1) unfolding b1_def
  by (auto simp: context_buff_def needs_context_def put_gso_fields put_gso_ipv6 put_vlan_fields)

lemma release_context [simp]: "context_buff vi s b \<Longrightarrow> buff_release b = []"
  by (simp add: context_buff_def buff_release_def)

lemma map_context_window:
  assumes "sized r (sw_tail r)" "2 \<le> unat (ring_size r)"
    and "map_context vi s r = (r', dx, n)"
  defines "W \<equiv> window r (sw_tail r)"
  shows "n = (if needs_context vi s then 1 else 0) \<and> dx = slot r (sw_tail r) n \<and> ring_same r r' \<and>
    (\<exists>c. window r' (sw_tail r) = c @ clear_flags (W ! n) # drop (Suc n) W \<and> length c = n \<and>
      (\<forall>b \<in> set c. context_buff vi s b))"
proof -
  let ?t = "sw_tail r"
  have z: "0 < unat (ring_size r)" using assms(2) by simp
  obtain b0 W' where W0: "W = b0 # W'"
    using z by (cases W) (auto simp: W_def dest: arg_cong [where f = length])
  obtain b1 W'' where W1: "W' = b1 # W''"
    using assms(2) W0 by (cases W') (auto simp: W_def dest: arg_cong [where f = length])
  let ?r1 = "upd_buff r ?t clear_flags"
  let ?r2 = "if skb_is_gso s then upd_buff ?r1 ?t (put_gso s) else ?r1"
  let ?r3 = "if vi \<and> skb_vlan_present s then upd_buff ?r2 ?t (put_vlan s) else ?r2"
  let ?n = "aq_ring_next_dx r ?t"
  have at0: "window (upd_buff q ?t f) ?t = (window q ?t)[0 := f (window q ?t ! 0)]"
    if "sized q ?t" "ring_size q = ring_size r" for q f
    using window_upd [of q ?t 0 f] that z by simp
  have at1: "window (upd_buff q ?n f) ?t = (window q ?t)[1 := f (window q ?t ! 1)]"
    if "sized q ?t" "ring_size q = ring_size r" for q f
    using window_upd [of q ?t 1 f] that assms(2) by (simp add: slot_def aq_ring_next_dx_def)
  have Wr: "window r ?t = b0 # b1 # W''" using W0 W1 by (simp add: W_def)
  have w1: "window ?r1 ?t = clear_flags b0 # b1 # W''"
    using assms(1) by (simp add: at0 Wr)
  define r3 where "r3 = ?r3"
  have "\<exists>b. window r3 ?t = b # b1 # W'' \<and> (needs_context vi s \<longrightarrow> context_buff vi s b) \<and>
      (\<not> needs_context vi s \<longrightarrow> b = clear_flags b0)"
    using assms(1) w1 context_buff_put [of vi s b0]
    by (cases "skb_is_gso s"; cases vi; cases "skb_vlan_present s")
      (simp_all add: r3_def at0 needs_context_def)
  then obtain b where b: "window r3 ?t = b # b1 # W''"
      "needs_context vi s \<Longrightarrow> context_buff vi s b" "\<not> needs_context vi s \<Longrightarrow> b = clear_flags b0"
    by blast
  have s3: "ring_same r r3" by (simp add: r3_def)
  have z3: "sized r3 ?t" "ring_size r3 = ring_size r" "aq_ring_next_dx r3 ?t = ?n"
    using ring_same_sel [OF s3] assms(1) by (simp_all add: aq_ring_next_dx_def)
  have eq: "map_context vi s r = (if needs_context vi s
      then (upd_buff r3 ?n clear_flags, ?n, 1) else (r3, ?t, 0))"
    by (simp add: map_context_def Let_def needs_context_def r3_def z3(3) [unfolded r3_def])
  show ?thesis
  proof (cases "needs_context vi s")
    case True
    then have r': "r' = upd_buff r3 ?n clear_flags" "dx = ?n" "n = 1"
      using assms(3) eq by auto
    have "window r' ?t = [b] @ clear_flags b1 # W''"
      unfolding r' by (simp only: at1 [OF z3(1,2)] b(1)) simp
    then show ?thesis
      using True r' s3 b(2) by (auto simp: W0 W1 slot_def aq_ring_next_dx_def intro!: exI [of _ "[b]"])
  next
    case False
    then have "r' = r3" "dx = ?t" "n = 0" using assms(3) eq by simp_all
    then show ?thesis
      using False s3 b by (auto simp: W0 W1)
  qed
qed

subsection \<open>What \<open>aq_nic_map_skb\<close> posts\<close>

definition head_split :: "bool \<Rightarrow> sk_buff \<Rightarrow> bool" where
  "head_split vmk s \<longleftrightarrow> vmk \<and> AQ_CFG_TX_FRAME_MAX < ucast (ucast (skb_headlen s) :: u16)"

definition head_map_len :: "sk_buff \<Rightarrow> u32" where
  "head_map_len s = ucast (ucast (skb_headlen s) :: u16)"

definition head_len :: "bool \<Rightarrow> sk_buff \<Rightarrow> u16" where
  "head_len vmk s = (if head_split vmk s then ucast AQ_CFG_TX_FRAME_MAX else ucast (skb_headlen s))"

definition head_rest :: "bool \<Rightarrow> sk_buff \<Rightarrow> u32 list" where
  "head_rest vmk s = (if head_split vmk s then chunks (head_map_len s - AQ_CFG_TX_FRAME_MAX) else [])"

definition head_pieces :: "bool \<Rightarrow> sk_buff \<Rightarrow> u64 \<Rightarrow> (u16 \<times> u64) list" where
  "head_pieces vmk s a = pieces (a + ucast AQ_CFG_TX_FRAME_MAX) (head_rest vmk s)"

definition put_head :: "bool \<Rightarrow> sk_buff \<Rightarrow> u64 \<Rightarrow> aq_ring_buff_s \<Rightarrow> aq_ring_buff_s" where
  "put_head vmk s a b =
     (put_csum s ((set_len_pkt (skb_len s) (set_pa a (b\<lparr>len := ucast (skb_headlen s)\<rparr>)))
        \<lparr>is_sop := True, is_mapped := True\<rparr>))\<lparr>len := head_len vmk s\<rparr>"

definition descs_needed :: "bool \<Rightarrow> bool \<Rightarrow> sk_buff \<Rightarrow> nat" where
  "descs_needed vmk vi s = (if needs_context vi s then 1 else 0) + 1 + length (head_rest vmk s) +
     length (frag_tiles 0 (skb_frags s))"

lemma upd_upd:
  "unat dx < length (buff_ring r) \<Longrightarrow> upd_buff (upd_buff r dx f) dx g = upd_buff r dx (\<lambda>b. g (f b))"
  by (simp add: upd_buff_def)

text \<open>The three stages of a mapping that is accepted: context, head, fragments.\<close>

definition head_stage :: "bool \<Rightarrow> sk_buff \<Rightarrow> u64 \<Rightarrow> aq_ring_s \<Rightarrow> u32 \<Rightarrow> nat \<Rightarrow> aq_ring_s \<times> u32 \<times> nat" where
  "head_stage vmk s a r dx ret =
     (case post_all (head_pieces vmk s a) (upd_buff r dx (put_head vmk s a)) dx of
        (r, dx) \<Rightarrow> (r, dx, Suc ret + length (head_pieces vmk s a)))"

definition finish :: "u32 \<Rightarrow> sk_buff \<Rightarrow> bool \<times> aq_ring_s \<times> kern \<times> u32 \<times> nat \<Rightarrow> nat \<times> aq_ring_s \<times> kern" where
  "finish first s = (\<lambda>(fin, r, k, dx, ret).
     if fin
     then (ret, upd_buff (upd_buff r first (\<lambda>b. b\<lparr>eop_index := ucast dx\<rparr>)) dx
             (\<lambda>b. set_skb (skb_ptr s) (b\<lparr>is_eop := True\<rparr>)), k)
     else (0, r, unmap_posted ret r (sw_tail r) k))"

lemma finish_case:
  "finish first s x = (case x of
     (False, ring, k, dx, ret) \<Rightarrow> (0, ring, unmap_posted ret ring (sw_tail ring) k)
   | (True, ring, k, dx, ret) \<Rightarrow>
       let ring = upd_buff ring first (\<lambda>b. b\<lparr>eop_index := ucast dx\<rparr>);
           ring = upd_buff ring dx (\<lambda>b. set_skb (skb_ptr s) (b\<lparr>is_eop := True\<rparr>))
       in (ret, ring, k))"
  by (auto simp: finish_def Let_def split: prod.split bool.split)

lemma head_stage_code:
  fixes s :: sk_buff
  assumes "unat dx < length (buff_ring r)"
  defines "l \<equiv> ucast (skb_headlen s) :: u16"
  shows "head_stage vmk s a r dx ret =
    (let ring = upd_buff r dx (\<lambda>b. b\<lparr>len := l\<rparr>);
         ring = upd_buff ring dx (\<lambda>b. (set_len_pkt (skb_len s) (set_pa a b))
                        \<lparr>is_sop := True, is_mapped := True\<rparr>);
         ret = Suc ret;
         ring = upd_buff ring dx (put_csum s)
     in if vmk \<and> AQ_CFG_TX_FRAME_MAX < ucast l
        then vmk_split_head
               (upd_buff ring dx (\<lambda>b. b\<lparr>len := ucast AQ_CFG_TX_FRAME_MAX\<rparr>)) dx ret
               (ucast l - AQ_CFG_TX_FRAME_MAX) (a + ucast AQ_CFG_TX_FRAME_MAX)
        else (ring, dx, ret))"
proof (cases "head_split vmk s")
  case True
  then have "put_head vmk s a = (\<lambda>b. (put_csum s ((set_len_pkt (skb_len s)
      (set_pa a (b\<lparr>len := l\<rparr>)))\<lparr>is_sop := True, is_mapped := True\<rparr>))\<lparr>len := ucast AQ_CFG_TX_FRAME_MAX\<rparr>)"
    by (simp add: put_head_def head_len_def fun_eq_iff l_def)
  moreover have "head_rest vmk s = chunks (ucast l - AQ_CFG_TX_FRAME_MAX)"
    using True by (simp add: head_rest_def head_map_len_def l_def)
  moreover have "vmk \<and> AQ_CFG_TX_FRAME_MAX < ucast l"
    using True by (simp add: head_split_def l_def)
  ultimately show ?thesis
    using assms(1)
    by (simp add: head_stage_def Let_def upd_upd vmk_split_head_post split_beta head_pieces_def)
next
  case False
  then have "put_head vmk s a = (\<lambda>b. put_csum s ((set_len_pkt (skb_len s)
      (set_pa a (b\<lparr>len := l\<rparr>)))\<lparr>is_sop := True, is_mapped := True\<rparr>))"
    by (simp add: put_head_def head_len_def fun_eq_iff l_def put_defs Let_def)
  moreover have "head_rest vmk s = []"
    using False by (simp add: head_rest_def)
  moreover have "\<not> (vmk \<and> AQ_CFG_TX_FRAME_MAX < ucast l)"
    using False by (simp add: head_split_def l_def)
  ultimately show ?thesis
    using assms(1) by (auto simp: head_stage_def Let_def upd_upd head_pieces_def)
qed

lemma map_skb_stages:
  assumes "map_context vi s r = (r1, dx, n0)" "unat dx < length (buff_ring r1)"
  shows "aq_nic_map_skb vmk vi s r k =
    (case dma_answer k (dma_calls k) of
       None \<Rightarrow> (n0, upd_buff r1 dx (\<lambda>b. set_pa (NOT 0) (b\<lparr>len := ucast (skb_headlen s)\<rparr>)),
         k\<lparr>dma_calls := Suc (dma_calls k)\<rparr>)
     | Some a \<Rightarrow>
       case head_stage vmk s a r1 dx n0 of (r2, dx2, n2) \<Rightarrow> finish dx s
         (map_frags r2 (klogs (Map_single a (head_map_len s)) (k\<lparr>dma_calls := Suc (dma_calls k)\<rparr>))
            dx2 n2 0 (skb_frags s)))"
proof -
  let ?l = "ucast (skb_headlen s) :: u16"
  have l: "len (buff_ring (upd_buff r1 dx (\<lambda>b. b\<lparr>len := ?l\<rparr>)) ! unat dx) = ?l"
    using assms(2) by (simp add: upd_buff_def)
  have e: "dma_map (\<lambda>a. Map_single a (ucast ?l)) k =
     (case dma_answer k (dma_calls k) of None \<Rightarrow> (None, k\<lparr>dma_calls := Suc (dma_calls k)\<rparr>)
      | Some a \<Rightarrow> (Some a, klogs (Map_single a (head_map_len s)) (k\<lparr>dma_calls := Suc (dma_calls k)\<rparr>)))"
    by (simp add: dma_map_def head_map_len_def Let_def split: option.split)
  show ?thesis
    unfolding aq_nic_map_skb_def assms(1) Let_def prod.case l e
    using assms(2)
    by (cases "dma_answer k (dma_calls k)")
      (simp_all only: option.case prod.case upd_upd head_stage_code [OF assms(2)] finish_case Let_def)
qed

lemma length_head_pieces [simp]: "length (head_pieces vmk s a) = length (head_rest vmk s)"
  by (simp add: head_pieces_def)

lemma ring_same_window:
  "ring_same r r' \<Longrightarrow> sized r p \<Longrightarrow> sized r' p \<and> slot r' p = slot r p"
  by (auto dest: ring_same_sel)

text \<open>
  The ring after the three stages, read from the tail: the context descriptor if there is
  one, the head, one descriptor for each further piece, and what was there before.
\<close>

lemma stages_window:
  assumes r: "sized r (sw_tail r)" "2 \<le> unat (ring_size r)"
    and fits: "descs_needed vmk vi s \<le> unat (ring_size r)"
    and c: "map_context vi s r = (r1, dx, n0)"
    and h: "head_stage vmk s a r1 dx n0 = (r2, dx2, n2)"
    and f: "map_frags r2 k1 dx2 n2 0 (skb_frags s) = (fin, r3, k3, dx3, n3)"
  obtains cs b bs evs where
    "length cs = n0" "n0 = (if needs_context vi s then 1 else 0)" "\<forall>b \<in> set cs. context_buff vi s b"
    "dx = slot r (sw_tail r) n0" "dx3 = slot r (sw_tail r) (n3 - 1)"
    "n3 = n0 + 1 + length (head_rest vmk s) + length evs"
    "length bs = length (head_rest vmk s) + length evs"
    "window r3 (sw_tail r) = cs @ put_head vmk s a (clear_flags b) #
       map2 (\<lambda>(l, a). put_frag l a) (head_pieces vmk s a @ map ev_piece evs) bs @ drop n3 (window r (sw_tail r))"
    "ring_same r r3" "mapped r2 k1 dx2 n2 r3 k3 dx3 n3 evs"
    "map ev_tile evs = take (length evs) (frag_tiles 0 (skb_frags s))"
    "length evs \<le> length (frag_tiles 0 (skb_frags s))"
    "fin \<longleftrightarrow> length evs = length (frag_tiles 0 (skb_frags s))"
proof -
  let ?t = "sw_tail r" and ?N = "unat (ring_size r)"
  let ?W = "window r ?t"
  let ?hp = "head_pieces vmk s a"
  obtain cs where cs: "n0 = (if needs_context vi s then 1 else 0)" "dx = slot r ?t n0" "ring_same r r1"
      "window r1 ?t = cs @ clear_flags (?W ! n0) # drop (Suc n0) ?W" "length cs = n0"
      "\<forall>b \<in> set cs. context_buff vi s b"
    using map_context_window [OF r c] by blast
  obtain evs where evs: "mapped r2 k1 dx2 n2 r3 k3 dx3 n3 evs"
      "map ev_tile evs = take (length evs) (frag_tiles 0 (skb_frags s))"
      "length evs \<le> length (frag_tiles 0 (skb_frags s))"
      "fin \<longleftrightarrow> length evs = length (frag_tiles 0 (skb_frags s))"
    using map_frags_mapped [OF f] by blast
  let ?ps = "?hp @ map ev_piece evs"
  let ?r = "upd_buff r1 dx (put_head vmk s a)"
  have len: "n0 + length ?ps < ?N"
    using fits evs(3) cs(1) by (simp add: descs_needed_def)
  have same1: "ring_same r ?r" using cs(3) by simp
  have w1: "sized r1 ?t" "slot r1 ?t = slot r ?t" "ring_size r1 = ring_size r"
    using ring_same_sel [OF cs(3)] r(1) by simp_all
  have w2: "sized ?r ?t" "slot ?r ?t = slot r ?t" "ring_size ?r = ring_size r"
    using ring_same_sel [OF same1] r(1) by simp_all
  have post: "post_all ?ps ?r (slot ?r ?t n0) = (r3, dx3)" and n2: "n2 = Suc n0 + length ?hp"
    using h evs(1) cs(2) w2(2)
    by (auto simp: head_stage_def mapped_def post_all_append split: prod.splits)
  have n3: "n3 = n0 + 1 + length (head_rest vmk s) + length evs"
    using evs(1) n2 by (simp add: mapped_def)
  have "window ?r ?t = (window r1 ?t)[n0 := put_head vmk s a (window r1 ?t ! n0)]"
    using window_upd [OF w1(1), of n0] len by (simp add: w1 cs(2))
  then have w: "window ?r ?t = cs @ put_head vmk s a (clear_flags (?W ! n0)) # drop (Suc n0) ?W"
    using cs(4,5) by (simp add: nth_append list_update_append)
  have res: "dx3 = slot ?r ?t (n0 + length ?ps)" "ring_same ?r r3"
      "window r3 ?t = take (Suc n0) (window ?r ?t) @ map2 (\<lambda>(l, a). put_frag l a) ?ps
         (drop (Suc n0) (window ?r ?t)) @ drop (Suc n0 + length ?ps) (window ?r ?t)"
    using post_all_window [OF w2(1) _ post] len w2(3) by simp_all
  let ?bs = "take (length ?ps) (drop (Suc n0) ?W)"
  have z: "map2 g ps (drop (Suc n0) ?W) = map2 g ps (take (length ps) (drop (Suc n0) ?W))" for g
      and ps :: "(u16 \<times> u64) list"
    by (rule nth_equalityI) auto
  have "window r3 ?t = cs @ put_head vmk s a (clear_flags (?W ! n0)) #
      map2 (\<lambda>(l, a). put_frag l a) ?ps ?bs @ drop n3 ?W"
    unfolding res(3) w z [symmetric] using cs(5) by (simp add: n3 ac_simps)
  moreover have "length ?bs = length (head_rest vmk s) + length evs"
    using len by simp
  moreover have "dx3 = slot r ?t (n3 - 1)"
    using res(1) w2(2) by (simp add: n3 ac_simps)
  moreover have "ring_same r r3"
    using same1 res(2) by (rule ring_same_trans)
  ultimately show ?thesis
    using that [OF cs(5,1,6,2) _ n3] evs by blast
qed

text \<open>A complete packet in the ring: its first descriptor carries the index of its last one.\<close>

definition packet :: "u16 \<Rightarrow> aq_ring_buff_s list \<Rightarrow> bool" where
  "packet e ps \<longleftrightarrow> ps \<noteq> [] \<and> eop_index (hd ps) = e \<and>
     (\<forall>i < length ps. is_mapped (ps ! i) \<and> \<not> is_gso (ps ! i) \<and> \<not> is_vlan (ps ! i) \<and>
        (is_sop (ps ! i) \<longleftrightarrow> i = 0) \<and> (is_eop (ps ! i) \<longleftrightarrow> Suc i = length ps))"

definition frag_like :: "aq_ring_buff_s \<Rightarrow> bool" where
  "frag_like b \<longleftrightarrow> is_mapped b \<and> \<not> is_sop b \<and> \<not> is_eop b \<and> \<not> is_gso b \<and> \<not> is_vlan b"

lemma set_skb_sel [simp]:
  "is_mapped (set_skb p b) = is_mapped b" "is_sop (set_skb p b) = is_sop b"
  "is_eop (set_skb p b) = is_eop b" "is_gso (set_skb p b) = is_gso b"
  "is_vlan (set_skb p b) = is_vlan b" "pa (set_skb p b) = pa b" "len (set_skb p b) = len b"
  "skb (set_skb p b) = p" "eop_index (set_skb p b) = eop_index b"
  by (simp_all add: set_skb_def pa_def skb_def)

lemma release_eop:
  "\<not> is_eop b \<Longrightarrow> buff_release (set_skb p (b\<lparr>is_eop := True\<rparr>)) = buff_release b @ [Kfree_skb p]"
  by (simp add: buff_release_def unmap_ev_def pa_def set_skb_def skb_def)

lemma packet_finish:
  fixes e :: u16 and p :: u64
  assumes "is_mapped h" "is_sop h" "\<not> is_eop h" "\<not> is_gso h" "\<not> is_vlan h"
    and "\<forall>b \<in> set bs. frag_like b"
  defines "xs \<equiv> h\<lparr>eop_index := e\<rparr> # bs"
  defines "ys \<equiv> xs[length bs := set_skb p ((xs ! length bs)\<lparr>is_eop := True\<rparr>)]"
  shows "packet e ys" and "releases ys = releases (h # bs) @ [Kfree_skb p]"
proof -
  have "packet e ys \<and> releases ys = releases (h # bs) @ [Kfree_skb p]"
  proof (cases bs rule: rev_cases)
    case Nil
    then show ?thesis
      using assms(1-5) by (simp add: ys_def xs_def packet_def release_eop)
  next
    case (snoc cs b)
    have ys: "ys = h\<lparr>eop_index := e\<rparr> # cs @ [set_skb p (b\<lparr>is_eop := True\<rparr>)]"
      using snoc by (simp add: ys_def xs_def)
    have "frag_like b" "\<forall>i < length cs. frag_like (cs ! i)"
      using assms(6) snoc by auto
    then show ?thesis
      using assms(1-5) snoc unfolding ys
      by (auto simp: packet_def frag_like_def release_eop nth_Cons nth_append split: nat.split)
  qed
  then show "packet e ys" "releases ys = releases (h # bs) @ [Kfree_skb p]" by auto
qed

definition no_cso :: "aq_ring_buff_s \<Rightarrow> bool" where
  "no_cso b \<longleftrightarrow> \<not> is_ip_cso b \<and> \<not> is_tcp_cso b \<and> \<not> is_udp_cso b"

definition head_cso :: "sk_buff \<Rightarrow> aq_ring_buff_s \<Rightarrow> bool" where
  "head_cso s b \<longleftrightarrow>
     is_ip_cso b = (skb_csum_partial s \<and> skb_eth_p_ip s) \<and>
     is_tcp_cso b = (skb_csum_partial s \<and>
       (skb_ip_version s = 4 \<and> skb_ip_protocol s = IPPROTO_TCP \<or>
        skb_ip_version s = 6 \<and> skb_ipv6_nexthdr s = IPPROTO_TCP)) \<and>
     is_udp_cso b = (skb_csum_partial s \<and>
       (skb_ip_version s = 4 \<and> skb_ip_protocol s = IPPROTO_UDP \<or>
        skb_ip_version s = 6 \<and> skb_ipv6_nexthdr s = IPPROTO_UDP))"

lemma packet_finish_contents:
  fixes e :: u16 and p :: u64
  assumes "head_cso s h" "\<forall>b \<in> set bs. no_cso b"
  defines "xs \<equiv> h\<lparr>eop_index := e\<rparr> # bs"
  defines "ys \<equiv> xs[length bs := set_skb p ((xs ! length bs)\<lparr>is_eop := True\<rparr>)]"
  shows "map (\<lambda>b. (len b, pa b)) ys = map (\<lambda>b. (len b, pa b)) (h # bs)"
    and "head_cso s (hd ys)" and "\<forall>b \<in> set (tl ys). no_cso b"
    and "1 < length ys \<Longrightarrow> len_pkt (hd ys) = len_pkt h"
  using assms(1,2)
  by (cases bs rule: rev_cases;
      simp add: ys_def xs_def head_cso_def no_cso_def set_skb_def pa_def len_pkt_def nth_append)+

lemma put_frag_no_cso:
  "b \<in> set (map2 (\<lambda>(l, a). put_frag l a) ps bs) \<Longrightarrow> no_cso b"
  by (auto simp: no_cso_def put_frag_def clear_flags_def set_pa_def Let_def in_set_zip)

lemma put_frags_contents:
  "length bs = length ps \<Longrightarrow> map (\<lambda>b. (len b, pa b)) (map2 (\<lambda>(l, a). put_frag l a) ps bs) = ps"
  by (induction ps bs rule: list_induct2') auto

lemma put_head_cso: "head_cso s (put_head vmk s a (clear_flags b))"
  by (auto simp: head_cso_def put_head_def put_defs Let_def clear_flags_def IPPROTO_TCP_def IPPROTO_UDP_def)

lemma put_head_sel [simp]:
  "is_mapped (put_head vmk s a b)" "is_sop (put_head vmk s a b)"
  "is_eop (put_head vmk s a b) = is_eop b" "is_gso (put_head vmk s a b) = is_gso b"
  "is_vlan (put_head vmk s a b) = is_vlan b" "pa (put_head vmk s a b) = a"
  "len (put_head vmk s a b) = head_len vmk s" "eop_index (put_head vmk s a b) = eop_index b"
  by (simp_all add: put_head_def put_defs Let_def pa_def)

lemma put_head_len_pkt [simp]: "len_pkt (put_head vmk s a b) = skb_len s"
  by (simp add: put_head_def put_defs Let_def len_pkt_def, intro bit_word_eqI)
    (auto simp: bit_slice_set bit_unsigned_iff dest: bit_imp_le_length)

text \<open>What the data descriptors of a packet carry: the pieces, the checksum requests, the length.\<close>

definition packet_data :: "sk_buff \<Rightarrow> (u16 \<times> u64) list \<Rightarrow> aq_ring_buff_s list \<Rightarrow> bool" where
  "packet_data s las ps \<longleftrightarrow> map (\<lambda>b. (len b, pa b)) ps = las \<and> head_cso s (hd ps) \<and>
     (\<forall>b \<in> set (tl ps). no_cso b) \<and> (1 < length ps \<longrightarrow> len_pkt (hd ps) = skb_len s)"

text \<open>The unmappings the head of a packet calls for: one for its first piece, one for each other.\<close>

definition head_release :: "bool \<Rightarrow> sk_buff \<Rightarrow> u64 \<Rightarrow> kevent list" where
  "head_release vmk s a = Unmap_single a (ucast (head_len vmk s)) #
     map (\<lambda>(l, a). Unmap_page a (ucast l)) (head_pieces vmk s a)"

lemma head_release_whole:
  "\<not> head_split vmk s \<Longrightarrow> head_release vmk s a = [unmap_of (Map_single a (head_map_len s))]"
  by (simp add: head_release_def head_len_def head_pieces_def head_rest_def head_map_len_def)

lemma frag_like_put_frags:
  "b \<in> set (map2 (\<lambda>(l, a). put_frag l a) ps bs) \<Longrightarrow> frag_like b"
  by (auto simp: frag_like_def in_set_zip)

lemma map_skb_success:
  assumes "sized r (sw_tail r)" "2 \<le> unat (ring_size r)"
    and "descs_needed vmk vi s \<le> unat (ring_size r)"
    and "map_context vi s r = (r1, dx, n0)" "head_stage vmk s a r1 dx n0 = (r2, dx2, n2)"
    and "map_frags r2 k1 dx2 n2 0 (skb_frags s) = (True, r3, k3, dx3, n3)"
    and "finish dx s (True, r3, k3, dx3, n3) = (n, r', k')"
  shows "\<exists>cs ps evs. ring_same r r' \<and> n = descs_needed vmk vi s \<and> k' = k3 \<and>
    mapped r2 k1 dx2 n2 r3 k3 dx3 n3 evs \<and>
    map ev_tile evs = frag_tiles 0 (skb_frags s) \<and>
    window r' (sw_tail r) = cs @ ps @ drop n (window r (sw_tail r)) \<and> length cs + length ps = n \<and>
    length cs = (if needs_context vi s then 1 else 0) \<and> (\<forall>b \<in> set cs. context_buff vi s b) \<and>
    packet (ucast (slot r (sw_tail r) (n - 1))) ps \<and>
    packet_data s ((head_len vmk s, a) # head_pieces vmk s a @ map ev_piece evs) ps \<and>
    releases ps = head_release vmk s a @ map unmap_of evs @ [Kfree_skb (skb_ptr s)]"
proof -
  let ?t = "sw_tail r"
  obtain cs b bs evs where st:
    "length cs = n0" "n0 = (if needs_context vi s then 1 else 0)" "\<forall>b \<in> set cs. context_buff vi s b"
    "dx = slot r ?t n0" "dx3 = slot r ?t (n3 - 1)"
    "n3 = n0 + 1 + length (head_rest vmk s) + length evs"
    "length bs = length (head_rest vmk s) + length evs"
    "window r3 ?t = cs @ put_head vmk s a (clear_flags b) #
       map2 (\<lambda>(l, a). put_frag l a) (head_pieces vmk s a @ map ev_piece evs) bs @ drop n3 (window r ?t)"
    "ring_same r r3" "mapped r2 k1 dx2 n2 r3 k3 dx3 n3 evs"
    "map ev_tile evs = take (length evs) (frag_tiles 0 (skb_frags s))"
    "length evs \<le> length (frag_tiles 0 (skb_frags s))"
    "True \<longleftrightarrow> length evs = length (frag_tiles 0 (skb_frags s))"
    by (rule stages_window [OF assms(1-6)])
  let ?h = "put_head vmk s a (clear_flags b)"
  let ?fs = "map2 (\<lambda>(l, a). put_frag l a) (head_pieces vmk s a @ map ev_piece evs) bs"
  let ?e = "ucast dx3 :: u16"
  define xs where "xs = ?h\<lparr>eop_index := ?e\<rparr> # ?fs"
  define ys where "ys = xs[length ?fs := set_skb (skb_ptr s) ((xs ! length ?fs)\<lparr>is_eop := True\<rparr>)]"
  let ?r4 = "upd_buff r3 dx (\<lambda>b. b\<lparr>eop_index := ?e\<rparr>)"
  have lfs: "length ?fs = length (head_rest vmk s) + length evs" using st(7) by simp
  have n: "n3 = descs_needed vmk vi s" using st(2,6,13) by (simp add: descs_needed_def)
  have out: "n = n3" "k' = k3" "r' = upd_buff ?r4 dx3 (\<lambda>b. set_skb (skb_ptr s) (b\<lparr>is_eop := True\<rparr>))"
    using assms(7) by (auto simp: finish_def)
  have s3: "sized r3 ?t" "slot r3 ?t = slot r ?t" "ring_size r3 = ring_size r"
    using ring_same_sel [OF st(9)] assms(1) by simp_all
  have "window ?r4 ?t = (window r3 ?t)[n0 := (window r3 ?t ! n0)\<lparr>eop_index := ?e\<rparr>]"
    using window_upd [OF s3(1), of n0] n assms(3) st(6) by (simp add: s3 st(4))
  then have w4: "window ?r4 ?t = cs @ xs @ drop n3 (window r ?t)"
    unfolding st(8) using st(1) by (simp add: xs_def nth_append list_update_append)
  define r4 where "r4 = ?r4"
  have s4: "sized r4 ?t" "slot r4 ?t = slot r ?t" "ring_size r4 = ring_size r"
    using s3 by (simp_all add: r4_def)
  have "window r' ?t = (window r4 ?t)[n3 - 1 := set_skb (skb_ptr s) ((window r4 ?t ! (n3 - 1))\<lparr>is_eop := True\<rparr>)]"
    unfolding out(3) [folded r4_def, unfolded st(5) s4(2) [symmetric]]
    by (rule window_upd [OF s4(1)]) (use n assms(3) st(6) s4(3) in simp)
  moreover have "n3 - 1 = length cs + length ?fs" "length xs = Suc (length ?fs)"
    using st(1,6) lfs by (simp_all add: xs_def)
  ultimately have w: "window r' ?t = cs @ ys @ drop n3 (window r ?t)"
    using w4 by (simp add: r4_def ys_def nth_append list_update_append)
  have fin: "packet ?e ys" "releases ys = releases (?h # ?fs) @ [Kfree_skb (skb_ptr s)]"
    unfolding ys_def xs_def
    by (rule packet_finish; use frag_like_put_frags in simp; blast?)+
  have pf: "length bs = length (head_pieces vmk s a @ map ev_piece evs)" using st(7) by simp
  have "\<forall>b \<in> set ?fs. no_cso b" using put_frag_no_cso by blast
  note con = packet_finish_contents [where e = ?e and p = "skb_ptr s",
      OF put_head_cso [of s vmk a b] this, folded xs_def, folded ys_def]
  have "packet_data s ((head_len vmk s, a) # head_pieces vmk s a @ map ev_piece evs) ys"
    unfolding packet_data_def
    using con put_frags_contents [OF pf] by (simp del: zip_append)
  moreover have "releases (?h # ?fs) = head_release vmk s a @ map unmap_of evs"
    using st(7) mapped_releases [OF st(10)]
    by (simp add: releases_put_frags head_release_def buff_release_def unmap_ev_def o_def)
  moreover have "map ev_tile evs = frag_tiles 0 (skb_frags s)"
    using st(11,13) by simp
  moreover have "ring_same r r'" unfolding out(3) by (simp add: st(9))
  moreover have "length ys = Suc (length ?fs)"
    unfolding ys_def xs_def by (simp only: length_list_update list.size(4))
  then have "length cs + length ys = n"
    using st(1,6) lfs by (simp add: out(1))
  ultimately show ?thesis
    using w fin st(1,2,3,5,10) n out by (intro exI conjI) (assumption | simp)+
qed

text \<open>A mapping refused half-way: everything mapped so far is unmapped, nothing is posted.\<close>

definition err_release :: "aq_ring_buff_s \<Rightarrow> kevent list" where
  "err_release b = (if \<not> is_gso b \<and> \<not> is_vlan b \<and> pa b \<noteq> 0 then [unmap_ev b] else [])"

lemma posted_Suc: "posted r p (Suc n) = buff_ring r ! unat p # posted r (aq_ring_next_dx r p) n"
  by (simp add: posted_def ring.walk_Suc aq_ring_next_dx_def)

lemma posted_0 [simp]: "posted r p 0 = []"
  by (simp add: posted_def)

lemma unmap_posted_log:
  "unmap_posted n r p k = k\<lparr>klog := klog k @ concat (map err_release (posted r p n))\<rparr>"
proof (induction n arbitrary: p k)
  case (Suc n)
  show ?case
    unfolding unmap_posted.simps Let_def Suc.IH posted_Suc
    by (simp add: err_release_def [of "buff_ring r ! unat p"] klogs_def)
qed simp

lemma mapped_addrs:
  assumes "mapped r k dx ret r' k' dx' ret' evs" "\<forall>j. dma_answer k j \<noteq> Some 0"
  shows "\<forall>p \<in> set (map ev_piece evs). snd p \<noteq> 0"
proof -
  have "\<forall>e \<in> set evs. \<exists>a i off n. e = Map_frag a i off n \<and> (\<exists>j. dma_answer k j = Some a)"
    using assms(1) unfolding mapped_def by blast
  then show ?thesis using assms(2) by fastforce
qed

lemma err_releases_put_frags:
  assumes "length bs = length ps" "\<forall>p \<in> set ps. snd p \<noteq> 0"
  shows "concat (map err_release (map2 (\<lambda>(l, a). put_frag l a) ps bs)) =
    map (\<lambda>(l, a). Unmap_page a (ucast l)) ps"
  using assms
  by (induction ps bs rule: list_induct2') (auto simp: err_release_def unmap_ev_def)

lemma map_skb_failure:
  assumes "sized r (sw_tail r)" "2 \<le> unat (ring_size r)"
    and "descs_needed vmk vi s \<le> unat (ring_size r)"
    and "map_context vi s r = (r1, dx, n0)" "head_stage vmk s a r1 dx n0 = (r2, dx2, n2)"
    and "map_frags r2 k1 dx2 n2 0 (skb_frags s) = (False, r3, k3, dx3, n3)"
    and "finish dx s (False, r3, k3, dx3, n3) = (n, r', k')"
    and nz: "\<forall>j. dma_answer k1 j \<noteq> Some 0" "a \<noteq> 0" "\<not> head_split vmk s"
  shows "\<exists>evs. ring_same r r' \<and> n = 0 \<and> mapped r2 k1 dx2 n2 r3 k3 dx3 n3 evs \<and>
    map ev_tile evs = take (length evs) (frag_tiles 0 (skb_frags s)) \<and>
    length evs < length (frag_tiles 0 (skb_frags s)) \<and>
    k' = k3\<lparr>klog := klog k3 @ Unmap_single a (head_map_len s) # map unmap_of evs\<rparr>"
proof -
  let ?t = "sw_tail r"
  obtain cs b bs evs where st:
    "length cs = n0" "n0 = (if needs_context vi s then 1 else 0)" "\<forall>b \<in> set cs. context_buff vi s b"
    "dx = slot r ?t n0" "dx3 = slot r ?t (n3 - 1)"
    "n3 = n0 + 1 + length (head_rest vmk s) + length evs"
    "length bs = length (head_rest vmk s) + length evs"
    "window r3 ?t = cs @ put_head vmk s a (clear_flags b) #
       map2 (\<lambda>(l, a). put_frag l a) (head_pieces vmk s a @ map ev_piece evs) bs @ drop n3 (window r ?t)"
    "ring_same r r3" "mapped r2 k1 dx2 n2 r3 k3 dx3 n3 evs"
    "map ev_tile evs = take (length evs) (frag_tiles 0 (skb_frags s))"
    "length evs \<le> length (frag_tiles 0 (skb_frags s))"
    "False \<longleftrightarrow> length evs = length (frag_tiles 0 (skb_frags s))"
    by (rule stages_window [OF assms(1-6)])
  have hp: "head_pieces vmk s a = []" "head_rest vmk s = []"
    using nz(3) by (simp_all add: head_pieces_def head_rest_def)
  have le: "n3 \<le> unat (ring_size r3)"
    using st(2,6,12) assms(3) ring_same_sel [OF st(9)] by (simp add: descs_needed_def)
  let ?fs = "map2 (\<lambda>(l, a). put_frag l a) (map ev_piece evs) bs"
  have "posted r3 ?t n3 = cs @ put_head vmk s a (clear_flags b) # ?fs"
    using posted_window [OF le] st(1,6,7,8) by (simp add: hp)
  moreover have "concat (map err_release cs) = []"
    using st(3) by (auto simp: err_release_def context_buff_def needs_context_def)
  moreover have "concat (map err_release ?fs) = map unmap_of evs"
    using err_releases_put_frags [OF _ mapped_addrs [OF st(10) nz(1)]] st(7) hp
      mapped_releases [OF st(10)] by (simp add: hp)
  moreover have "err_release (put_head vmk s a (clear_flags b)) = [Unmap_single a (head_map_len s)]"
    using nz by (simp add: err_release_def unmap_ev_def head_len_def head_map_len_def)
  ultimately have "k' = k3\<lparr>klog := klog k3 @ Unmap_single a (head_map_len s) # map unmap_of evs\<rparr>"
    using assms(7) ring_same_sel [OF st(9)] by (auto simp: finish_def unmap_posted_log)
  then show ?thesis
    using st(9-13) assms(7) by (intro exI [of _ evs]) (auto simp: finish_def)
qed

subsection \<open>What \<open>aq_ring_tx_clean\<close> releases\<close>

lemma slot_slot: "slot r (slot r p m) n = slot r p (m + n)"
  using funpow_add [of n m "ring_next (ring_size r)"] by (simp add: slot_def add.commute)

lemma posted_add: "posted r p (m + n) = posted r p m @ posted r (slot r p m) n"
  by (rule nth_equalityI) (auto simp: posted_nth nth_append slot_slot)

lemma next_slot: "aq_ring_next_dx r p = slot r p 1"
  by (simp add: slot_def aq_ring_next_dx_def)

lemma gap_slot: "p < ring_size r \<Longrightarrow> n < unat (ring_size r) \<Longrightarrow> ring.gap (ring_size r) p (slot r p n) = n"
  unfolding slot_def by (rule ring.gap_iter)

lemma slot_gap: "p < ring_size r \<Longrightarrow> q < ring_size r \<Longrightarrow> slot r p (ring.gap (ring_size r) p q) = q"
  unfolding slot_def by (rule ring.iter_gap)

text \<open>\<open>held r\<close>: the buffer at the head starts a packet the chip has not finished.\<close>

definition held :: "aq_ring_s \<Rightarrow> bool" where
  "held r \<longleftrightarrow> (let b = buff_ring r ! unat (sw_head r) in
     is_mapped b \<and> is_sop b \<and> \<not> is_eop b \<and> eop_index b \<noteq> 0xffff \<and>
     \<not> aq_ring_dx_in_range (sw_head r) (ucast (eop_index b)) (hw_head r))"

definition clean_one :: "aq_ring_s \<Rightarrow> aq_ring_s" where
  "clean_one r = (upd_buff r (sw_head r) (\<lambda>b. (set_pa 0 b)\<lparr>eop_index := 0xffff\<rparr>))
     \<lparr>sw_head := aq_ring_next_dx r (sw_head r)\<rparr>"

lemma tx_clean_loop_Suc:
  "tx_clean_loop (Suc m) r k =
     (if sw_head r = hw_head r \<or> held r then (Suc m, r, k)
      else tx_clean_loop m (clean_one r)
        (k\<lparr>klog := klog k @ buff_release (buff_ring r ! unat (sw_head r))\<rparr>))"
  by (simp add: held_def clean_one_def Let_def buff_release_def klogs_def aq_ring_next_dx_def)

declare tx_clean_loop.simps(2) [simp del]

lemma clean_one_sel [simp]:
  "ring_size (clean_one r) = ring_size r" "hw_head (clean_one r) = hw_head r"
  "sw_tail (clean_one r) = sw_tail r" "sw_head (clean_one r) = slot r (sw_head r) 1"
  "dx_ring (clean_one r) = dx_ring r" "slot (clean_one r) = slot r"
  "length (buff_ring (clean_one r)) = length (buff_ring r)" "ring_idx (clean_one r) = ring_idx r"
  by (simp_all add: clean_one_def next_slot slot_def fun_eq_iff)

lemma clean_one_buff:
  assumes "length (buff_ring r) = unat (ring_size r)" "i < ring_size r" "i \<noteq> sw_head r"
    "sw_head r < ring_size r"
  shows "buff_ring (clean_one r) ! unat i = buff_ring r ! unat i"
  using buff_upd [OF assms(1,4,2)] assms(3) by (simp add: clean_one_def)

lemma tx_clean_loop_spec:
  assumes "length (buff_ring r) = unat (ring_size r)" "sw_head r < ring_size r"
    "hw_head r < ring_size r" "tx_clean_loop m r k = (m', r', k')"
  shows "m' \<le> m \<and> m - m' \<le> ring.gap (ring_size r) (sw_head r) (hw_head r) \<and>
    (\<exists>bs. r' = r\<lparr>buff_ring := bs, sw_head := slot r (sw_head r) (m - m')\<rparr> \<and>
      length bs = length (buff_ring r) \<and>
      (\<forall>i < ring_size r. m - m' \<le> ring.gap (ring_size r) (sw_head r) i \<longrightarrow>
         bs ! unat i = buff_ring r ! unat i)) \<and>
    k' = k\<lparr>klog := klog k @ releases (posted r (sw_head r) (m - m'))\<rparr> \<and>
    (m' = 0 \<or> sw_head r' = hw_head r \<or> held r')"
  using assms
proof (induction m arbitrary: r k)
  case 0
  then show ?case by (auto intro!: exI [of _ "buff_ring r"])
next
  case (Suc m)
  let ?h = "sw_head r" and ?g = "ring.gap (ring_size r)"
  show ?case
  proof (cases "?h = hw_head r \<or> held r")
    case True
    then have "m' = Suc m" "r' = r" "k' = k"
      using Suc.prems(4) by (auto simp: tx_clean_loop_Suc)
    then show ?thesis using True by (auto intro!: exI [of _ "buff_ring r"])
  next
    case False
    let ?r = "clean_one r"
    let ?k = "k\<lparr>klog := klog k @ buff_release (buff_ring r ! unat ?h)\<rparr>"
    have h1: "slot r ?h 1 < ring_size r" using Suc.prems(2) by (rule slot_less)
    have IH: "m' \<le> m \<and> m - m' \<le> ?g (slot r ?h 1) (hw_head r) \<and>
      (\<exists>bs. r' = ?r\<lparr>buff_ring := bs, sw_head := slot r (slot r ?h 1) (m - m')\<rparr> \<and>
        length bs = length (buff_ring r) \<and>
        (\<forall>i < ring_size r. m - m' \<le> ?g (slot r ?h 1) i \<longrightarrow> bs ! unat i = buff_ring ?r ! unat i)) \<and>
      k' = ?k\<lparr>klog := klog ?k @ releases (posted ?r (slot r ?h 1) (m - m'))\<rparr> \<and>
      (m' = 0 \<or> sw_head r' = hw_head r \<or> held r')"
      using Suc.IH [of ?r ?k] Suc.prems False h1 by (simp add: tx_clean_loop_Suc)
    then obtain bs where bs: "r' = ?r\<lparr>buff_ring := bs, sw_head := slot r (slot r ?h 1) (m - m')\<rparr>"
      "length bs = length (buff_ring r)"
      "\<And>i. i < ring_size r \<Longrightarrow> m - m' \<le> ?g (slot r ?h 1) i \<Longrightarrow> bs ! unat i = buff_ring ?r ! unat i"
      by blast
    have n: "Suc m - m' = Suc (m - m')" using IH by (simp add: Suc_diff_le)
    have g: "Suc (?g (slot r ?h 1) i) = ?g ?h i" if "i < ring_size r" "i \<noteq> ?h" for i
      using ring.gap_nxt_left [OF Suc.prems(2) that(1)] that(2) by (simp add: slot_def)
    have lt: "Suc m - m' \<le> ?g ?h (hw_head r)"
      using IH g [OF Suc.prems(3)] False n by auto
    have "ring.gap (ring_size r) ?h (hw_head r) < unat (ring_size r)"
      using Suc.prems(2) by (rule ring.gap_less)
    then have small: "m - m' < unat (ring_size r) - 1" using lt n by simp
    have walk: "posted ?r (slot r ?h 1) (m - m') = posted r (slot r ?h 1) (m - m')"
    proof (rule nth_equalityI)
      fix j assume "j < length (posted ?r (slot r ?h 1) (m - m'))"
      then have j: "j < m - m'" by simp
      have "slot r ?h (Suc j) \<noteq> slot r ?h 0"
        using slot_eq_iff [OF Suc.prems(2), of "Suc j" 0] j small by simp
      then show "posted ?r (slot r ?h 1) (m - m') ! j = posted r (slot r ?h 1) (m - m') ! j"
        using j Suc.prems by (simp add: posted_nth slot_slot clean_one_buff slot_less)
    qed simp
    have "bs ! unat i = buff_ring r ! unat i" if "i < ring_size r" "Suc m - m' \<le> ?g ?h i" for i
    proof -
      have "i \<noteq> ?h" using that n ring.gap_0_iff [OF Suc.prems(2) that(1)] by auto
      then show ?thesis
        using bs(3) [OF that(1)] g [OF that(1)] that n clean_one_buff Suc.prems by simp
    qed
    moreover have "r' = r\<lparr>buff_ring := bs, sw_head := slot r ?h (Suc m - m')\<rparr>"
      unfolding bs(1) n by (simp add: clean_one_def upd_buff_def slot_slot)
    moreover have "k' = k\<lparr>klog := klog k @ releases (posted r ?h (Suc m - m'))\<rparr>"
      using IH unfolding n posted_Suc next_slot walk by simp
    ultimately show ?thesis
      using IH lt bs(2) by (auto intro!: exI [of _ bs])
  qed
qed

end
