(* ===== verification/Nic_Tx.thy ===== *)
theory Nic_Tx
  imports Tx_Map
begin

section \<open>The transmit path of the network device (aq_nic.c, aq_nic_xmit)\<close>

text \<open>
  \<open>aq_nic_xmit\<close>, the entry point the kernel calls for every packet. The function that
  writes the descriptors of the chip comes through \<open>aq_hw_ops\<close>, so it is an argument, and
  the interface \<open>tx_hw\<close> says what every chip's version must do. Against that interface the
  transmit ring is a first-in first-out queue of the releases it owes the kernel: \<open>owed\<close>.
\<close>

record aq_nic_s =
  aq_hw :: aq_hw_s
  aq_ring_tx :: "aq_ring_s list"
  stopped_queues :: netdev_queues
  nic_kern :: kern

definition NETDEV_TX_OK :: int where "NETDEV_TX_OK = 0"
definition NETDEV_TX_BUSY :: int where "NETDEV_TX_BUSY = 0x10"

type_synonym tx_xmit = "aq_hw_s \<Rightarrow> aq_ring_s \<Rightarrow> nat \<Rightarrow> int \<times> aq_hw_s \<times> aq_ring_s"

definition AQ_NIC_TCVEC2RING :: "u32 \<Rightarrow> u32 \<Rightarrow> u32" where
  "AQ_NIC_TCVEC2RING tc vec = tc * AQ_CFG_TCS_MAX + vec"

definition tx_count :: "sk_buff \<Rightarrow> aq_ring_s \<Rightarrow> aq_ring_s" where
  "tx_count s ring = ring\<lparr>ring_stats := (ring_stats ring)
     \<lparr>st_packets := st_packets (ring_stats ring) + 1,
      st_bytes := st_bytes (ring_stats ring) + ucast (skb_len s)\<rparr>\<rparr>"

definition aq_nic_xmit :: "bool \<Rightarrow> tx_xmit \<Rightarrow> aq_nic_s \<Rightarrow> sk_buff \<Rightarrow> int \<times> aq_nic_s" where
  "aq_nic_xmit vmk hw_ring_tx_xmit self s =
     (let cfg = aq_nic_cfg (aq_hw self);
          vec = ucast (skb_queue_mapping s) mod vecs cfg;
          ix = unat (AQ_NIC_TCVEC2RING 0 vec);
          ring = aq_ring_tx self ! ix
      in if length (skb_frags s) + 1 > unat AQ_CFG_SKB_FRAGS_MAX
         then (NETDEV_TX_OK, self\<lparr>nic_kern := klogs (Kfree_skb (skb_ptr s)) (nic_kern self)\<rparr>)
         else
           let (ring, q) = aq_ring_update_queue_state ring (stopped_queues self);
               self = self\<lparr>aq_ring_tx := (aq_ring_tx self)[ix := ring], stopped_queues := q\<rparr>
           in if q (ring_idx ring) then (NETDEV_TX_BUSY, self)
              else case aq_nic_map_skb vmk (is_vlan_tx_insert cfg) s ring (nic_kern self) of
                (frags, ring, k) \<Rightarrow>
                  if frags \<noteq> 0 then
                    case hw_ring_tx_xmit (aq_hw self) ring frags of (err, hw, ring) \<Rightarrow>
                      let ring = (if err \<ge> 0 then tx_count s ring else ring)
                      in (err, self\<lparr>aq_hw := hw, nic_kern := k,
                                     aq_ring_tx := (aq_ring_tx self)[ix := ring]\<rparr>)
                  else (NETDEV_TX_BUSY, self\<lparr>nic_kern := k, aq_ring_tx := (aq_ring_tx self)[ix := ring]\<rparr>))"

subsection \<open>The ring as a queue of releases\<close>

definition owed :: "aq_ring_s \<Rightarrow> kevent list" where
  "owed r = releases (posted r (sw_head r) (pending r))"

lemma ring_ok_sized:
  "ring_ok r \<Longrightarrow> sized r (sw_tail r) \<and> sized r (sw_head r) \<and> 2 \<le> unat (ring_size r)"
  by (auto simp: ring_ok_def sized_def word_le_nat_alt)

lemma slot_full: "p < ring_size r \<Longrightarrow> slot r p (unat (ring_size r)) = p"
  using ring.pos_iter [of p "ring_size r" "unat (ring_size r)"] ring.pos_less [of p "ring_size r"]
  by (simp add: slot_def word_unat_eq_iff)

lemma pending_less: "ring_ok r \<Longrightarrow> pending r < unat (ring_size r)"
  unfolding pending_def by (rule ring.gap_less) (simp add: ring_ok_def)

lemma slot_pending: "ring_ok r \<Longrightarrow> slot r (sw_head r) (pending r) = sw_tail r"
  unfolding pending_def by (rule slot_gap) (simp_all add: ring_ok_def)

lemma gap_add:
  assumes "p < ring_size r" "q < ring_size r" "ring.gap (ring_size r) p q + n < unat (ring_size r)"
  shows "ring.gap (ring_size r) p (slot r q n) = ring.gap (ring_size r) p q + n"
  using gap_slot [OF assms(1,3)] slot_slot [of r p "ring.gap (ring_size r) p q" n]
  by (simp add: slot_gap [OF assms(1,2)])

text \<open>Buffers before the tail are beyond the first \<open>n\<close> entries after it.\<close>

lemma window_before:
  assumes "ring_ok r" "j < pending r"
  shows "slot r (sw_head r) j = slot r (sw_tail r) (unat (ring_size r) - pending r + j)"
proof -
  have h: "sw_head r < ring_size r" using assms(1) by (simp add: ring_ok_def)
  have "slot r (sw_tail r) (unat (ring_size r) - pending r + j) =
      slot r (slot r (sw_head r) (pending r)) (unat (ring_size r) - pending r + j)"
    using slot_pending [OF assms(1)] by simp
  also have "\<dots> = slot r (slot r (sw_head r) (unat (ring_size r))) j"
    using pending_less [OF assms(1)] by (simp add: slot_slot)
  finally show ?thesis using slot_full [OF h] by simp
qed

lemma posted_before:
  assumes "ring_ok r" "ring_same r r'" "pending r + n \<le> unat (ring_size r)"
    and "drop n (window r' (sw_tail r)) = drop n (window r (sw_tail r))"
  shows "posted r' (sw_head r) (pending r) = posted r (sw_head r) (pending r)"
proof (rule nth_equalityI)
  fix j assume "j < length (posted r' (sw_head r) (pending r))"
  then have j: "j < pending r" by simp
  let ?k = "unat (ring_size r) - pending r + j"
  have k: "n \<le> ?k" "?k < unat (ring_size r)" using j pending_less [OF assms(1)] assms(3) by auto
  have s: "slot r' = slot r" "ring_size r' = ring_size r" using ring_same_sel [OF assms(2)] by auto
  have "window q (sw_tail r) ! ?k = drop n (window q (sw_tail r)) ! (?k - n)"
    if "ring_size q = ring_size r" for q
    using k that by simp
  then have "window r' (sw_tail r) ! ?k = window r (sw_tail r) ! ?k"
    using assms(4) s(2) by metis
  then have "buff_ring r' ! unat (slot r (sw_tail r) ?k) = buff_ring r ! unat (slot r (sw_tail r) ?k)"
    using k s by (simp add: window_nth)
  then show "posted r' (sw_head r) (pending r) ! j = posted r (sw_head r) (pending r) ! j"
    using j s window_before [OF assms(1) j] by (simp add: posted_nth)
qed simp

text \<open>
  Publishing \<open>n\<close> posted buffers: a ring that agrees on everything but buffers, descriptors
  and the tail, moved by \<open>n\<close>, owes what those buffers owe as well.
\<close>

definition published :: "aq_ring_s \<Rightarrow> nat \<Rightarrow> aq_ring_s \<Rightarrow> bool" where
  "published r n r' \<longleftrightarrow> (\<exists>ds st. r' = r\<lparr>dx_ring := ds, sw_tail := slot r (sw_tail r) n, ring_stats := st\<rparr> \<and>
     length ds = length (dx_ring r))"

lemma published_queue:
  assumes "ring_ok r" "ring_same r r1" "published r1 n r2" "pending r + n < unat (ring_size r)"
    and "window r1 (sw_tail r) = bs @ drop n (window r (sw_tail r))" "length bs = n"
  shows "ring_ok r2" "pending r2 = pending r + n" "owed r2 = owed r @ releases bs"
proof -
  note sel = ring_same_sel [OF assms(2)]
  have ok: "sw_head r < ring_size r" "sw_tail r < ring_size r" "hw_head r < ring_size r"
    using assms(1) by (simp_all add: ring_ok_def)
  obtain ds st where r2: "r2 = r1\<lparr>dx_ring := ds, sw_tail := slot r (sw_tail r) n, ring_stats := st\<rparr>"
      "length ds = length (dx_ring r1)"
    using assms(3) sel unfolding published_def by auto
  have len1: "length (buff_ring r1) = length (buff_ring r)"
    using assms(2) by (auto simp: ring_same_def)
  have t: "slot r (sw_tail r) n < ring_size r" using ok(2) by (rule slot_less)
  have g: "ring.gap (ring_size r) (sw_head r) (slot r (sw_tail r) n) = pending r + n"
    using gap_add [OF ok(1,2)] assms(4) by (simp add: pending_def)
  show p: "pending r2 = pending r + n" using r2(1) sel g by (simp add: pending_def)
  show "ring_ok r2"
    using assms(1) r2 sel len1 t g unfolding ring_ok_def pending_def by auto
  have "posted r2 (sw_head r) (pending r + n) = posted r1 (sw_head r) (pending r + n)"
    using r2(1) sel by (simp add: posted_def)
  also have "\<dots> = posted r1 (sw_head r) (pending r) @ posted r1 (sw_tail r) n"
    using slot_pending [OF assms(1)] sel by (simp add: posted_add)
  also have "posted r1 (sw_head r) (pending r) = posted r (sw_head r) (pending r)"
    by (rule posted_before [OF assms(1,2), where n = n]) (use assms(4-6) in auto)
  also have "posted r1 (sw_tail r) n = bs"
    using assms(4-6) sel by (simp add: posted_window)
  finally show "owed r2 = owed r @ releases bs"
    using p r2(1) sel by (simp add: owed_def)
qed

text \<open>Cleaning takes a prefix of what is owed and performs exactly those releases.\<close>

lemma tx_clean_queue:
  assumes "ring_ok r" "aq_ring_tx_clean r k = (again, r', k')"
  shows "\<exists>n rel. n \<le> 256 \<and> owed r = rel @ owed r' \<and> k' = k\<lparr>klog := klog k @ rel\<rparr> \<and>
    ring_ok r' \<and> pending r = n + pending r' \<and> sw_head r' = slot r (sw_head r) n \<and>
    rel = releases (posted r (sw_head r) n) \<and> hw_head r' = hw_head r \<and> sw_tail r' = sw_tail r \<and>
    ring_size r' = ring_size r \<and>
    posted r' (sw_head r') (pending r') = drop n (posted r (sw_head r) (pending r)) \<and>
    (n < 256 \<longrightarrow> again \<and> (sw_head r' = hw_head r \<or> held r'))"
proof -
  have ok: "length (buff_ring r) = unat (ring_size r)" "sw_head r < ring_size r"
      "hw_head r < ring_size r" "sw_tail r < ring_size r"
      "ring.gap (ring_size r) (sw_head r) (hw_head r) \<le> pending r"
    using assms(1) by (simp_all add: ring_ok_def pending_def)
  obtain m where m: "tx_clean_loop 256 r k = (m, r', k')" "again \<longleftrightarrow> m \<noteq> 0"
    using assms(2) by (auto simp: aq_ring_tx_clean_def AQ_CFG_TX_CLEAN_BUDGET_def split: prod.splits)
  define n where "n = 256 - m"
  from tx_clean_loop_spec [OF ok(1-3) m(1)] obtain bs where
    sp: "m \<le> 256" "n \<le> ring.gap (ring_size r) (sw_head r) (hw_head r)"
      "r' = r\<lparr>buff_ring := bs, sw_head := slot r (sw_head r) n\<rparr>" "length bs = length (buff_ring r)"
      "\<And>i. i < ring_size r \<Longrightarrow> n \<le> ring.gap (ring_size r) (sw_head r) i \<Longrightarrow>
         bs ! unat i = buff_ring r ! unat i"
      "k' = k\<lparr>klog := klog k @ releases (posted r (sw_head r) n)\<rparr>"
      "m = 0 \<or> sw_head r' = hw_head r \<or> held r'"
    unfolding n_def by blast
  let ?h = "slot r (sw_head r) n"
  have lt: "n < unat (ring_size r)" using sp(2) ring.gap_less [OF ok(2), of "hw_head r"] by simp
  have h: "?h < ring_size r" using ok(2) by (rule slot_less)
  have gh: "ring.gap (ring_size r) (sw_head r) ?h = n" using ok(2) lt by (rule gap_slot)
  have gap: "ring.gap (ring_size r) ?h q = ring.gap (ring_size r) (sw_head r) q - n"
    if "q < ring_size r" "n \<le> ring.gap (ring_size r) (sw_head r) q" for q
    using ring.gap_split [OF ok(2) h that(1)] gh that(2) by simp
  have sel: "sw_head r' = ?h" "hw_head r' = hw_head r" "sw_tail r' = sw_tail r"
      "ring_size r' = ring_size r" "buff_ring r' = bs" "dx_ring r' = dx_ring r" "slot r' = slot r"
    by (simp_all add: sp(3) slot_def fun_eq_iff)
  have le: "n \<le> pending r" using sp(2) ok(5) by simp
  have p: "pending r' = pending r - n"
    using gap [OF ok(4)] le by (simp add: pending_def sel)
  have "ring_ok r'"
    using assms(1) gap [OF ok(3) sp(2)] gap [OF ok(4)] le sp(4) h ok(5)
    unfolding ring_ok_def sel pending_def by simp
  moreover have "posted r' ?h (pending r - n) = posted r ?h (pending r - n)"
  proof (rule nth_equalityI)
    fix j assume "j < length (posted r' ?h (pending r - n))"
    then have j: "n + j < pending r" by simp
    then have nj: "n + j < unat (ring_size r)" using pending_less [OF assms(1)] by simp
    have "ring.gap (ring_size r) (sw_head r) (slot r (sw_head r) (n + j)) = n + j"
      using ok(2) nj by (rule gap_slot)
    then have "bs ! unat (slot r (sw_head r) (n + j)) = buff_ring r ! unat (slot r (sw_head r) (n + j))"
      by (intro sp(5)) (simp_all add: slot_less ok(2))
    then show "posted r' ?h (pending r - n) ! j = posted r ?h (pending r - n) ! j"
      using j by (simp add: posted_nth sel slot_slot)
  qed simp
  then have "owed r = releases (posted r (sw_head r) n) @ owed r'"
    and "posted r' (sw_head r') (pending r') = drop n (posted r (sw_head r) (pending r))"
    using posted_add [of r "sw_head r" n "pending r - n"] le by (simp_all add: owed_def p sel)
  ultimately show ?thesis
    using sp(1,6,7) le p m(2) sel
    by (intro exI [of _ n] exI [of _ "releases (posted r (sw_head r) n)"]) (auto simp: n_def)
qed

subsection \<open>A mapping that succeeds, one that fails half-way, one whose head is refused\<close>

lemma mapped_log: "mapped r k dx ret r' k' dx' ret' evs \<Longrightarrow> klog k' = klog k @ evs"
  by (cases k; cases k') (simp add: mapped_def)

lemma map_skb_outcomes:
  assumes r: "sized r (sw_tail r)" "2 \<le> unat (ring_size r)"
    and fits: "descs_needed vmk vi s \<le> unat (ring_size r)"
    and a: "dma_answer k (dma_calls k) = Some a"
    and m: "aq_nic_map_skb vmk vi s r k = (n, r', k')"
  obtains (posted) cs ps evs where
    "ring_same r r'" "n = descs_needed vmk vi s"
    "klog k' = klog k @ Map_single a (head_map_len s) # evs"
    "map ev_tile evs = frag_tiles 0 (skb_frags s)"
    "window r' (sw_tail r) = cs @ ps @ drop n (window r (sw_tail r))" "length cs + length ps = n"
    "length cs = (if needs_context vi s then 1 else 0)" "\<forall>b \<in> set cs. context_buff vi s b"
    "packet (ucast (slot r (sw_tail r) (n - 1))) ps"
    "packet_data s ((head_len vmk s, a) # head_pieces vmk s a @ map ev_piece evs) ps"
    "releases ps = head_release vmk s a @ map unmap_of evs @ [Kfree_skb (skb_ptr s)]"
  | (refused) evs where
    "ring_same r r'" "n = 0"
    "length evs < length (frag_tiles 0 (skb_frags s))"
    "map ev_tile evs = take (length evs) (frag_tiles 0 (skb_frags s))"
    "drop (descs_needed vmk vi s) (window r' (sw_tail r)) =
       drop (descs_needed vmk vi s) (window r (sw_tail r))"
    "\<forall>j. dma_answer k j \<noteq> Some 0 \<Longrightarrow> \<not> head_split vmk s \<Longrightarrow>
     klog k' = klog k @ (Map_single a (head_map_len s) # evs) @
       map unmap_of (Map_single a (head_map_len s) # evs)"
proof -
  obtain r1 dx n0 where c: "map_context vi s r = (r1, dx, n0)" by (metis prod.exhaust)
  obtain r2 dx2 n2 where h: "head_stage vmk s a r1 dx n0 = (r2, dx2, n2)" by (metis prod.exhaust)
  define k1 where "k1 = klogs (Map_single a (head_map_len s)) (k\<lparr>dma_calls := Suc (dma_calls k)\<rparr>)"
  have k1: "klog k1 = klog k @ [Map_single a (head_map_len s)]" "dma_answer k1 = dma_answer k"
    by (simp_all add: k1_def klogs_def)
  obtain fin r3 k3 dx3 n3 where f: "map_frags r2 k1 dx2 n2 0 (skb_frags s) = (fin, r3, k3, dx3, n3)"
    by (metis prod.exhaust)
  have "ring_same r r1" "dx = slot r (sw_tail r) n0" using map_context_window [OF r c] by auto
  then have "unat dx < length (buff_ring r1)"
    using r(1) by (auto simp: sized_def ring_same_def slot_less simp flip: word_less_nat_alt)
  then have fin: "finish dx s (fin, r3, k3, dx3, n3) = (n, r', k')"
    using m map_skb_stages [OF c, where vmk = vmk and k = k] by (simp add: a h f k1_def [symmetric])
  show ?thesis
  proof (cases fin)
    case True
    then have f': "map_frags r2 k1 dx2 n2 0 (skb_frags s) = (True, r3, k3, dx3, n3)"
      and fin': "finish dx s (True, r3, k3, dx3, n3) = (n, r', k')" using f fin by simp_all
    from map_skb_success [OF r fits c h f' fin']
    obtain cs ps evs where e: "ring_same r r'" "n = descs_needed vmk vi s" "k' = k3"
      "mapped r2 k1 dx2 n2 r3 k3 dx3 n3 evs"
      "map ev_tile evs = frag_tiles 0 (skb_frags s)"
      "window r' (sw_tail r) = cs @ ps @ drop n (window r (sw_tail r))" "length cs + length ps = n"
      "length cs = (if needs_context vi s then 1 else 0)" "\<forall>b \<in> set cs. context_buff vi s b"
      "packet (ucast (slot r (sw_tail r) (n - 1))) ps"
      "packet_data s ((head_len vmk s, a) # head_pieces vmk s a @ map ev_piece evs) ps"
      "releases ps = head_release vmk s a @ map unmap_of evs @ [Kfree_skb (skb_ptr s)]"
      by blast
    show ?thesis
      by (rule that(1) [OF e(1,2) _ e(5-12)]) (use mapped_log [OF e(4)] e(3) k1 in simp)
  next
    case False
    obtain cs b bs evs where e: "ring_same r r3"
      "mapped r2 k1 dx2 n2 r3 k3 dx3 n3 evs"
      "map ev_tile evs = take (length evs) (frag_tiles 0 (skb_frags s))"
      "length evs \<le> length (frag_tiles 0 (skb_frags s))"
      "fin \<longleftrightarrow> length evs = length (frag_tiles 0 (skb_frags s))"
      "length cs = n0" "n0 = (if needs_context vi s then 1 else 0)"
      "n3 = n0 + 1 + length (head_rest vmk s) + length evs"
      "length bs = length (head_rest vmk s) + length evs"
      "window r3 (sw_tail r) = cs @ put_head vmk s a (clear_flags b) #
        map2 (\<lambda>(l, a). put_frag l a) (head_pieces vmk s a @ map ev_piece evs) bs @
        drop n3 (window r (sw_tail r))"
      by (rule stages_window [OF r fits c h f])
    have "n3 \<le> descs_needed vmk vi s" using e(4,7,8) by (simp add: descs_needed_def)
    moreover have "drop n3 (window r3 (sw_tail r)) = drop n3 (window r (sw_tail r))"
      unfolding e(10) using e(6,8,9) by simp
    ultimately have w: "drop (descs_needed vmk vi s) (window r3 (sw_tail r)) =
        drop (descs_needed vmk vi s) (window r (sw_tail r))"
      by (metis drop_drop le_add_diff_inverse2)
    have f': "map_frags r2 k1 dx2 n2 0 (skb_frags s) = (False, r3, k3, dx3, n3)"
      and fin': "finish dx s (False, r3, k3, dx3, n3) = (n, r', k')" using f fin False by simp_all
    have out: "n = 0" "r' = r3" using fin' by (auto simp: finish_def)
    show ?thesis
    proof (rule that(2) [OF _ out(1), of evs])
      assume nz: "\<forall>j. dma_answer k j \<noteq> Some 0" "\<not> head_split vmk s"
      then have "\<forall>j. dma_answer k1 j \<noteq> Some 0" "a \<noteq> 0" using a k1(2) by auto
      from map_skb_failure [OF r fits c h f' fin' this nz(2)]
      obtain evs' where "mapped r2 k1 dx2 n2 r3 k3 dx3 n3 evs'"
        "k' = k3\<lparr>klog := klog k3 @ Unmap_single a (head_map_len s) # map unmap_of evs'\<rparr>"
        by blast
      moreover from this have "evs' = evs" using mapped_log [OF e(2)] mapped_log by fastforce
      ultimately show "klog k' = klog k @ (Map_single a (head_map_len s) # evs) @
          map unmap_of (Map_single a (head_map_len s) # evs)"
        using mapped_log [OF e(2)] k1 by simp
    qed (use e(1,3,4,5) w False out in auto)
  qed
qed

lemma map_skb_head_refused:
  assumes r: "sized r (sw_tail r)" "2 \<le> unat (ring_size r)"
    and "dma_answer k (dma_calls k) = None"
    and "aq_nic_map_skb vmk vi s r k = (n, r', k')"
  shows "n = (if needs_context vi s then 1 else 0)" "ring_same r r'" "klog k' = klog k"
    "drop 2 (window r' (sw_tail r)) = drop 2 (window r (sw_tail r))"
    "needs_context vi s \<Longrightarrow> context_buff vi s (window r' (sw_tail r) ! 0)"
proof -
  let ?t = "sw_tail r"
  obtain r1 dx n0 where c: "map_context vi s r = (r1, dx, n0)" by (metis prod.exhaust)
  let ?g = "\<lambda>b. set_pa (NOT 0) (b\<lparr>len := ucast (skb_headlen s)\<rparr>)"
  obtain cs where cs: "n0 = (if needs_context vi s then 1 else 0)" "dx = slot r ?t n0" "ring_same r r1"
      "window r1 ?t = cs @ clear_flags (window r ?t ! n0) # drop (Suc n0) (window r ?t)" "length cs = n0"
      "\<forall>b \<in> set cs. context_buff vi s b"
    using map_context_window [OF r c] by blast
  have sel: "sized r1 ?t" "slot r1 = slot r" "ring_size r1 = ring_size r"
    using ring_same_sel [OF cs(3)] r(1) by auto
  have "unat dx < length (buff_ring r1)"
    using sel r(1) cs(2) by (auto simp: sized_def slot_less simp flip: word_less_nat_alt)
  then have out: "n = n0" "r' = upd_buff r1 dx ?g" "k' = k\<lparr>dma_calls := Suc (dma_calls k)\<rparr>"
    using assms(4) map_skb_stages [OF c, where vmk = vmk and k = k] assms(3) by auto
  show "n = (if needs_context vi s then 1 else 0)" "ring_same r r'" "klog k' = klog k"
    using out cs by auto
  have "window r' ?t = (window r1 ?t)[n0 := ?g (window r1 ?t ! n0)]"
    unfolding out(2) cs(2) sel(2) [symmetric]
    by (rule window_upd [OF sel(1)]) (use cs(1) r(2) sel(3) in auto)
  then have w: "window r' ?t = cs @ ?g (clear_flags (window r ?t ! n0)) # drop (Suc n0) (window r ?t)"
    using cs(4,5) by (simp add: nth_append list_update_append)
  show "drop 2 (window r' ?t) = drop 2 (window r ?t)"
    unfolding w using cs(1,5) by (auto simp: drop_Cons' numeral_2_eq_2)
  show "needs_context vi s \<Longrightarrow> context_buff vi s (window r' ?t ! 0)"
    unfolding w using cs(1,5,6) by (cases cs) auto
qed

lemma chunks_small: "n \<le> AQ_CFG_TX_FRAME_MAX \<Longrightarrow> length (chunks n) \<le> 1"
  by (subst chunks.simps) (auto simp: frag_chunk_def)

lemma frag_tiles_small:
  "\<forall>n \<in> set ns. n \<le> AQ_CFG_TX_FRAME_MAX \<Longrightarrow> length (frag_tiles i ns) \<le> length ns"
proof (induction ns arbitrary: i)
  case (Cons n ns)
  then have "length (chunks n) \<le> 1" "length (frag_tiles (Suc i) ns) \<le> length ns"
    using chunks_small [of n] by auto
  then show ?case by simp
qed simp

text \<open>
  The guard of \<open>aq_nic_xmit\<close> leaves room for every packet whose pieces fit a descriptor each.
\<close>

definition small_pieces :: "bool \<Rightarrow> sk_buff \<Rightarrow> bool" where
  "small_pieces vmk s \<longleftrightarrow> \<not> head_split vmk s \<and> (\<forall>n \<in> set (skb_frags s). n \<le> AQ_CFG_TX_FRAME_MAX)"

lemma guard_fits:
  assumes "small_pieces vmk s" "length (skb_frags s) + 1 \<le> unat AQ_CFG_SKB_FRAGS_MAX" "ring_ok r"
    and "aq_ring_update_queue_state r q = (r', q')" "\<not> q' (ring_idx r')"
  shows "pending r + descs_needed vmk vi s < unat (ring_size r)"
proof -
  have "AQ_CFG_SKB_FRAGS_MAX < aq_ring_avail_dx r"
    using assms(4,5) by (auto simp: aq_ring_update_queue_state_def aq_ring_queue_stop_def
        aq_ring_queue_wake_def not_le split: if_splits)
  moreover have "descs_needed vmk vi s \<le> 2 + length (skb_frags s)"
    using assms(1) frag_tiles_small [of "skb_frags s" 0]
    by (auto simp: small_pieces_def descs_needed_def head_rest_def)
  ultimately show ?thesis
    using assms(2) avail_pending [OF assms(3)] by (simp add: AQ_CFG_SKB_FRAGS_MAX_def word_less_nat_alt)
qed

lemma owed_same:
  assumes "ring_ok r" "ring_same r r'" "pending r + n \<le> unat (ring_size r)"
    and "drop n (window r' (sw_tail r)) = drop n (window r (sw_tail r))"
  shows "ring_ok r'" "owed r' = owed r"
proof -
  note sel = ring_same_sel [OF assms(2)]
  have "length (buff_ring r') = length (buff_ring r)" using assms(2) by (auto simp: ring_same_def)
  then show "ring_ok r'" using assms(1) sel by (simp add: ring_ok_def)
  show "owed r' = owed r"
    using posted_before [OF assms] sel by (simp add: owed_def pending_def)
qed

lemma owed_stats [simp]:
  "owed (tx_count s r) = owed r" "ring_ok (tx_count s r) = ring_ok r"
  by (simp_all add: tx_count_def owed_def pending_def posted_def ring_ok_def)

lemma owed_queue_state:
  assumes "aq_ring_update_queue_state r q = (r', q')"
  shows "owed r' = owed r" "ring_ok r' = ring_ok r" "pending r' = pending r" "ring_size r' = ring_size r"
    "ring_idx r' = ring_idx r"
  using update_queue_state_ring [of r q] assms
  by (simp_all add: owed_def pending_def posted_def ring_ok_def)

subsection \<open>The interface to the chip\<close>

text \<open>
  What the transmit path relies on: the chip's function publishes exactly the buffers it is
  given, and leaves the rest of the ring and the software state of the device alone.
\<close>

locale tx_hw =
  fixes xmit :: tx_xmit
  assumes publishes: "sw_tail r < ring_size r \<Longrightarrow> length (dx_ring r) = unat (ring_size r) \<Longrightarrow>
      n \<le> unat (ring_size r) \<Longrightarrow> xmit hw r n = (err, hw', r') \<Longrightarrow> published r n r'"
    and keeps_sw: "xmit hw r n = (err, hw', r') \<Longrightarrow> same_sw hw hw'"
    and reports: "xmit hw r n = (err, hw', r') \<Longrightarrow> err = aq_hw_err_from_flags hw'"
begin

lemma xmit_queue:
  assumes "ring_ok r" "ring_same r r1" "pending r + n < unat (ring_size r)"
    and "window r1 (sw_tail r) = bs @ drop n (window r (sw_tail r))" "length bs = n"
    and "xmit hw r1 n = (err, hw', r2)"
  shows "ring_ok r2" "pending r2 = pending r + n" "owed r2 = owed r @ releases bs"
proof -
  note sel = ring_same_sel [OF assms(2)]
  have "published r1 n r2"
    by (rule publishes [OF _ _ _ assms(6)]) (use assms(1,3) sel in \<open>auto simp: ring_ok_def\<close>)
  then show "ring_ok r2" "pending r2 = pending r + n" "owed r2 = owed r @ releases bs"
    using published_queue [OF assms(1,2) _ assms(3-5)] by auto
qed

text \<open>
  The outcome of \<open>aq_nic_xmit\<close> on the ring it chooses: the packet is dropped and freed, or
  refused with nothing more owed and every mapping undone, or sent, and then the ring owes
  the release of exactly its mappings and of the packet.
\<close>

lemma nic_xmit_outcomes:
  assumes ok: "ring_ok (aq_ring_tx self ! ix)" and small: "small_pieces vmk s"
    and ix: "ix = unat (AQ_NIC_TCVEC2RING 0 (ucast (skb_queue_mapping s) mod vecs (aq_nic_cfg (aq_hw self))))"
      "ix < length (aq_ring_tx self)"
    and dma: "\<forall>j. dma_answer (nic_kern self) j \<noteq> Some 0"
      "dma_answer (nic_kern self) (dma_calls (nic_kern self)) = Some a"
    and x: "aq_nic_xmit vmk xmit self s = (err, self')"
  shows "ring_ok (aq_ring_tx self' ! ix) \<and>
    (err = NETDEV_TX_OK \<and> owed (aq_ring_tx self' ! ix) = owed (aq_ring_tx self ! ix) \<and>
       klog (nic_kern self') = klog (nic_kern self) @ [Kfree_skb (skb_ptr s)] \<or>
     err = NETDEV_TX_BUSY \<and> owed (aq_ring_tx self' ! ix) = owed (aq_ring_tx self ! ix) \<and>
       (\<exists>ms. klog (nic_kern self') = klog (nic_kern self) @ ms @ map unmap_of ms) \<or>
     err = aq_hw_err_from_flags (aq_hw self') \<and>
       (\<exists>ms. klog (nic_kern self') = klog (nic_kern self) @ Map_single a (head_map_len s) # ms \<and>
         map ev_tile ms = frag_tiles 0 (skb_frags s) \<and>
         owed (aq_ring_tx self' ! ix) = owed (aq_ring_tx self ! ix) @
           map unmap_of (Map_single a (head_map_len s) # ms) @ [Kfree_skb (skb_ptr s)]))"
    (is "?ok \<and> (?dropped \<or> ?busy \<or> ?sent)")
proof -
  let ?r = "aq_ring_tx self ! ix" and ?k = "nic_kern self"
  define vi where "vi = is_vlan_tx_insert (aq_nic_cfg (aq_hw self))"
  obtain r1 q1 where u: "aq_ring_update_queue_state ?r (stopped_queues self) = (r1, q1)"
    by (metis prod.exhaust)
  obtain n r2 k2 where m: "aq_nic_map_skb vmk vi s r1 ?k = (n, r2, k2)" by (metis prod.exhaust)
  obtain e hw r3 where h: "xmit (aq_hw self) r2 n = (e, hw, r3)" by (metis prod.exhaust)
  note base = owed_queue_state [OF u]
  have ok1: "ring_ok r1" using ok base by simp
  consider (drop) "unat AQ_CFG_SKB_FRAGS_MAX < length (skb_frags s) + 1"
    | (stopped) "length (skb_frags s) + 1 \<le> unat AQ_CFG_SKB_FRAGS_MAX" "q1 (ring_idx r1)"
    | (go) "length (skb_frags s) + 1 \<le> unat AQ_CFG_SKB_FRAGS_MAX" "\<not> q1 (ring_idx r1)"
    by linarith
  then show ?thesis
  proof cases
    case drop
    then have "?dropped"
      using x by (auto simp: aq_nic_xmit_def klogs_def Let_def)
    moreover have ?ok using x ok drop by (auto simp: aq_nic_xmit_def Let_def)
    ultimately show ?thesis by blast
  next
    case stopped
    then have "err = NETDEV_TX_BUSY" "aq_ring_tx self' ! ix = r1" "nic_kern self' = ?k"
      using x ix(2) unfolding aq_nic_xmit_def Let_def ix(1) [symmetric] u prod.case by auto
    then show ?thesis using base ok1 by (auto intro: exI [of _ "[]"])
  next
    case go
    have fits: "pending r1 + descs_needed vmk vi s < unat (ring_size r1)"
      using guard_fits [OF small go(1) ok u go(2)] base by simp
    then have fits': "descs_needed vmk vi s \<le> unat (ring_size r1)" by simp
    have sz: "sized r1 (sw_tail r1)" "2 \<le> unat (ring_size r1)"
      using ring_ok_sized [OF ok1] by auto
    have "aq_nic_xmit vmk xmit self s =
        (if n \<noteq> 0 then (e, self\<lparr>aq_hw := hw, nic_kern := k2, stopped_queues := q1,
           aq_ring_tx := (aq_ring_tx self)[ix := if e \<ge> 0 then tx_count s r3 else r3]\<rparr>)
         else (NETDEV_TX_BUSY, self\<lparr>nic_kern := k2, stopped_queues := q1,
           aq_ring_tx := (aq_ring_tx self)[ix := r2]\<rparr>))"
      unfolding aq_nic_xmit_def Let_def ix(1) [symmetric] u prod.case vi_def [symmetric]
      using go by (simp add: m h not_less)
    then have out: "if n \<noteq> 0 then err = e \<and> aq_ring_tx self' ! ix = (if e \<ge> 0 then tx_count s r3 else r3) \<and>
        nic_kern self' = k2 \<and> aq_hw self' = hw
      else err = NETDEV_TX_BUSY \<and> aq_ring_tx self' ! ix = r2 \<and> nic_kern self' = k2"
      using x ix(2) by (cases "n = 0") auto
    show ?thesis
    proof (rule map_skb_outcomes [OF sz fits' dma(2) m], goal_cases posted refused)
      case (posted cs ps evs)
      then have n: "n \<noteq> 0" by (simp add: descs_needed_def)
      have "window r2 (sw_tail r1) = (cs @ ps) @ drop n (window r1 (sw_tail r1))"
        using posted(5) by simp
      from xmit_queue [OF ok1 posted(1) _ this _ h] fits posted(2,6)
      have "ring_ok r3" "owed r3 = owed r1 @ releases (cs @ ps)" by simp_all
      moreover have "releases cs = []"
        using posted(8) by (induction cs) auto
      moreover have "head_release vmk s a = [unmap_of (Map_single a (head_map_len s))]"
        using small by (intro head_release_whole) (simp add: small_pieces_def)
      ultimately have "ring_ok r3" "owed r3 = owed ?r @
          map unmap_of (Map_single a (head_map_len s) # evs) @ [Kfree_skb (skb_ptr s)]"
        using posted(11) base by simp_all
      moreover have "err = aq_hw_err_from_flags (aq_hw self')"
        using out n reports [OF h] by simp
      ultimately show ?thesis
        using out n posted(3,4) by (intro conjI disjI2 exI [of _ evs]) auto
    next
      case (refused evs)
      have "ring_ok r2 \<and> owed r2 = owed r1"
        using owed_same [OF ok1 refused(1) _ refused(5)] fits by simp
      moreover have "\<not> head_split vmk s" using small by (simp add: small_pieces_def)
      ultimately show ?thesis
        using out refused(2) refused(6) [OF dma(1)] base
        by (intro conjI disjI2 disjI1 exI [of _ "Map_single a (head_map_len s) # evs"]) auto
    qed
  qed
qed

end

subsection \<open>A packet the chip has sent is not held back\<close>

text \<open>
  The descriptors of one packet, all of them between the software and the hardware head:
  none of them makes the clean-up wait.
\<close>

lemma not_held:
  assumes ok: "ring_ok r" "unat (ring_size r) \<le> 65536" "hw_head r = slot r h n" "n < unat (ring_size r)"
    and h: "h < ring_size r" "posted r h n = cs @ ps" "\<forall>b \<in> set cs. \<not> is_mapped b"
    and p: "packet (ucast (slot r h (n - 1))) ps" and j: "j < n" "sw_head r = slot r h j"
  shows "\<not> held r"
proof
  assume held: "held r"
  let ?b = "buff_ring r ! unat (sw_head r)" and ?e = "slot r h (n - 1)"
  have b: "?b = (cs @ ps) ! j" using posted_nth [OF j(1), of r h] h(2) j(2) by simp
  have lenc: "length cs + length ps = n"
    using arg_cong [OF h(2), of length] by simp
  have mb: "is_mapped ?b" "is_sop ?b" "\<not> is_eop ?b"
    "\<not> aq_ring_dx_in_range (sw_head r) (ucast (eop_index ?b)) (hw_head r)"
    using held by (auto simp: held_def Let_def)
  have jc: "length cs \<le> j"
  proof (rule ccontr)
    assume "\<not> length cs \<le> j"
    then have "?b \<in> set cs" unfolding b by (simp add: nth_append)
    then show False using h(3) mb(1) by blast
  qed
  then have bp: "?b = ps ! (j - length cs)" "j - length cs < length ps"
    using b lenc j(1) by (auto simp: nth_append)
  then have j0: "j = length cs" "length ps \<noteq> 1" using p mb jc by (auto simp: packet_def)
  then have jn: "j < n - 1" using lenc j(1) by linarith
  have "eop_index ?b = ucast ?e" using p bp j0 by (auto simp: packet_def hd_conv_nth)
  moreover have "?e < ring_size r" using h(1) by (rule slot_less)
  then have "unat ?e < 2 ^ 16" using ok(2) by (simp add: word_less_nat_alt)
  then have "ucast (ucast ?e :: u16) = ?e"
    by (simp add: word_unat_eq_iff unsigned_ucast_eq unsigned_take_bit_eq take_bit_nat_eq_self)
  ultimately have e: "ucast (eop_index ?b) = ?e" by simp
  have sz: "sw_head r < ring_size r" "hw_head r < ring_size r" "?e < ring_size r"
    using ok(1) h(1) by (auto simp: ring_ok_def slot_less)
  have "?e = slot r (sw_head r) (n - 1 - j)" "hw_head r = slot r (sw_head r) (n - j)"
    using jn ok(3) j(2) by (simp_all add: slot_slot)
  then have g: "ring.gap (ring_size r) (sw_head r) ?e = n - 1 - j"
      "ring.gap (ring_size r) (sw_head r) (hw_head r) = n - j"
    using gap_slot [OF sz(1)] ok(4) by simp_all
  then have "sw_head r \<noteq> hw_head r" using ring.gap_0_iff [OF sz(1,2)] jn by auto
  then have "aq_ring_dx_in_range (sw_head r) ?e (hw_head r)"
    using dx_in_range_iff [OF sz(1,3,2)] g jn by auto
  then show False using mb(4) e by simp
qed

lemma tx_clean_packet:
  assumes ok: "ring_ok r" "unat (ring_size r) \<le> 65536" "hw_head r = sw_tail r"
    and n: "pending r = n" "n \<le> 256"
    and w: "posted r (sw_head r) n = cs @ ps" "\<forall>b \<in> set cs. \<not> is_mapped b"
      "packet (ucast (slot r (sw_head r) (n - 1))) ps"
    and c: "aq_ring_tx_clean r k = (again, r', k')"
  shows "klog k' = klog k @ releases (cs @ ps)" "pending r' = 0"
proof -
  from tx_clean_queue [OF ok(1) c] obtain m rel where m: "m \<le> 256" "owed r = rel @ owed r'"
    "k' = k\<lparr>klog := klog k @ rel\<rparr>" "ring_ok r'" "pending r = m + pending r'"
    "sw_head r' = slot r (sw_head r) m" "rel = releases (posted r (sw_head r) m)"
    "hw_head r' = hw_head r" "sw_tail r' = sw_tail r" "ring_size r' = ring_size r"
    "posted r' (sw_head r') (pending r') = drop m (posted r (sw_head r) (pending r))"
    "m < 256 \<longrightarrow> again \<and> (sw_head r' = hw_head r \<or> held r')"
    by metis
  have "m = n"
  proof (rule ccontr)
    assume "m \<noteq> n"
    then have lt: "m < n" using m(5) n(1) by simp
    let ?h = "sw_head r'"
    have slot': "slot r' = slot r" using m(10) by (simp add: slot_def fun_eq_iff)
    have pn: "posted r' ?h (pending r') = drop m (cs @ ps)" using m(11) n(1) w(1) by simp
    have "pending r' \<noteq> 0" using lt m(5) n(1) by simp
    moreover have "sw_head r' = hw_head r \<Longrightarrow> pending r' = 0"
      using ok(3) m(4,9,10) ring.gap_0_iff [of "sw_head r'" "ring_size r'" "sw_tail r'"]
      by (auto simp: pending_def ring_ok_def)
    ultimately have "held r'" using m(12) lt n(2) by auto
    then have mb: "held r'" and sop: "is_mapped (buff_ring r' ! unat ?h)" "is_sop (buff_ring r' ! unat ?h)"
      by (auto simp: held_def Let_def)
    have "buff_ring r' ! unat ?h = (drop m (cs @ ps)) ! 0"
      using pn posted_nth [of 0 "pending r'" r' ?h] \<open>pending r' \<noteq> 0\<close> by simp
    have lenc: "length cs + length ps = n"
      using arg_cong [OF w(1), of length] by simp
    have bm: "buff_ring r' ! unat ?h = (cs @ ps) ! m"
      unfolding \<open>buff_ring r' ! unat ?h = _\<close> using lt lenc by (subst nth_drop) simp_all
    have "length cs \<le> m"
    proof (rule ccontr)
      assume "\<not> length cs \<le> m"
      then have "(cs @ ps) ! m \<in> set cs" by (simp add: nth_append)
      then show False using w(2) sop(1) bm by auto
    qed
    then have "(cs @ ps) ! m = ps ! (m - length cs)" "m - length cs < length ps"
      using lt lenc by (auto simp: nth_append)
    then have m0: "m = length cs" using w(3) sop(2) bm \<open>length cs \<le> m\<close> by (auto simp: packet_def)
    have ps': "posted r' ?h (pending r') = [] @ ps" using pn m0 by simp
    have pl: "pending r' = length ps" using m(5) n(1) m0 lenc by simp
    have e: "slot r' ?h (pending r' - 1) = slot r (sw_head r) (n - 1)"
      using slot' m(6) m0 pl lenc lt by (simp add: slot_slot)
    have hh: "hw_head r' = slot r' ?h (pending r')"
      using slot_pending [OF m(4)] m(8,9) ok(3) by simp
    show False
      using not_held [OF m(4) _ hh pending_less [OF m(4)] _ ps' _ _ _ _, of 0] ok(2) m(4,10) w(3) e mb
        \<open>pending r' \<noteq> 0\<close> by (simp add: ring_ok_def)
  qed
  then show "klog k' = klog k @ releases (cs @ ps)" "pending r' = 0"
    using m(3,5,7) n(1) w(1) by simp_all
qed

end
