(* ===== verification/Samples.thy ===== *)
theory Samples
  imports Nic_Tx
begin

section \<open>Concrete states\<close>

text \<open>
  Small concrete contexts, rings and packets, on which the properties of the development are
  instantiated to show that their hypotheses can hold.
\<close>

definition caps0 :: aq_hw_caps_s where
  "caps0 = \<lparr>caps_hw_features = 0, caps_link_speed_msk = 0, caps_hw_priv_flags = 0, caps_media_type = 1,
     caps_rxds_max = 8184, caps_txds_max = 8184, caps_rxds_min = 40, caps_txds_min = 40,
     caps_txhwb_alignment = 4096, caps_irq_mask = NOT 0, caps_vecs = 8, caps_mtu = 16352,
     caps_mac_regs_count = 88, caps_hw_alive_check_addr = 0x10, caps_msix_irqs = 8, caps_tcs = 1,
     caps_rxd_alignment = 1, caps_rxd_size = 16, caps_txd_alignment = 1, caps_txd_size = 16,
     caps_tx_rings = 4, caps_rx_rings = 4, caps_flow_control = True, caps_is_64_dma = True,
     caps_quirks = 0\<rparr>"

definition rss0 :: aq_rss_parameters where
  "rss0 = \<lparr>base_cpu_number = 0, indirection_table_size = 64, hash_secret_key_size = 40,
     hash_secret_key = replicate 10 0, indirection_table = replicate 64 0\<rparr>"

definition cfg0 :: aq_nic_cfg_s where
  "cfg0 = \<lparr>aq_hw_caps = caps0, features = 0, rxds = 1024, txds = 2048, vecs = 1, link_irq_vec = 0,
     irq_type = 0, itr = 0xFFFF, rx_itr = 0, tx_itr = 0, rxpageorder = 0, num_rss_queues = 1, mtu = 1500,
     flow_control = 0, link_speed_msk = 0, wol = 0, is_vlan_rx_strip = False,
     is_vlan_tx_insert = True, is_mc_list_enabled = 0, mc_list_count = 0, is_autoneg = True,
     is_polling = False, is_rss = True, is_lro = False, test_loopback = 0, tcs = 1, eee_speeds = 0, aq_rss = rss0\<rparr>"

definition hw_stats0 :: hw_atl_stats_s where
  "hw_stats0 = \<lparr>hs_uprc = 0, hs_mprc = 0, hs_bprc = 0, hs_erpt = 0, hs_uptc = 0, hs_mptc = 0, hs_bptc =
     0, hs_erpr = 0, hs_mbtc = 0, hs_bbtc = 0, hs_mbrc = 0, hs_bbrc = 0, hs_ubrc = 0, hs_ubtc
     = 0, hs_dpc = 0\<rparr>"

definition aq_stats0 :: aq_stats_s where
  "aq_stats0 = \<lparr>cs_uprc = 0, cs_mprc = 0, cs_bprc = 0, cs_erpt = 0, cs_uptc = 0, cs_mptc = 0, cs_bptc =
     0, cs_erpr = 0, cs_mbtc = 0, cs_bbtc = 0, cs_mbrc = 0, cs_bbrc = 0, cs_ubrc = 0, cs_ubtc
     = 0, cs_dpc = 0, cs_dma_pkt_rc = 0, cs_dma_pkt_tc = 0, cs_dma_oct_rc = 0, cs_dma_oct_tc
     = 0\<rparr>"

definition hw0 :: aq_hw_s where
  "hw0 = \<lparr>flags = 0, mmio = reg_file (\<lambda>a. 0), aq_nic_cfg = cfg0, link_mbps = 0, chip_features = 0,
     dpc = 0, phy_id = 0, rbl_enabled = False, fast_start_enabled = False, aq_fw_ops = None, fw_ver_actual = 0,
     mbox_addr = 0, rpc_addr = 0, rpc_tid = 0, fw_rpc = [], last_stats = hw_stats0,
     curr_stats = aq_stats0, hw_log = []\<rparr>"

lemma hw0_plain [simp]: "plain_hw hw0" "regs hw0 = (\<lambda>a. 0)" "alive_adr hw0 = 0x10"
  by (simp_all add: plain_hw_def regs_def alive_adr_def hw0_def cfg0_def caps0_def)

definition buff0 :: aq_ring_buff_s where
  "buff0 = \<lparr>w0 = 0, w1 = 0, rx_daddr = 0, rx_order = 0, rx_pg_off = 0, vlan_rx_tag = 0, len = 0,
     is_ip_cso = False, is_udp_cso = False, is_tcp_cso = False, is_cso_err = False, is_sop = False,
     is_eop = False, is_gso = False, is_mapped = False, is_cleaned = False, is_error = False,
     is_vlan = False, eop_index = 0\<rparr>"

definition stats0 :: aq_ring_stats_s where
  "stats0 = \<lparr>st_errors = 0, st_packets = 0, st_bytes = 0, st_lro_packets = 0, st_jumbo_packets = 0,
     st_pg_losts = 0, st_pg_flips = 0, st_pg_reuses = 0, st_queue_restarts = 0\<rparr>"

text \<open>An empty ring of \<open>n\<close> entries whose positions are all \<open>p\<close>.\<close>

definition ring0 :: "u32 \<Rightarrow> u32 \<Rightarrow> aq_ring_s" where
  "ring0 n p = \<lparr>buff_ring = replicate (unat n) buff0, dx_ring = replicate (unat n) (0, 0),
     ring_idx = 0, hw_head = p, sw_head = p, sw_tail = p, ring_size = n, dx_size = 16, page_order = 0,
     ring_stats = stats0, dx_ring_pa = 0\<rparr>"

lemma ring0_sel [simp]:
  "sw_tail (ring0 n p) = p" "sw_head (ring0 n p) = p" "hw_head (ring0 n p) = p"
  "ring_size (ring0 n p) = n" "length (buff_ring (ring0 n p)) = unat n"
  "length (dx_ring (ring0 n p)) = unat n" "ring_idx (ring0 n p) = 0"
  by (simp_all add: ring0_def)

lemma ring0_ok: "2 \<le> n \<Longrightarrow> p < n \<Longrightarrow> ring_ok (ring0 n p)"
  by (simp add: ring_ok_def)

text \<open>A kernel that grants every mapping, and one that refuses from the \<open>n\<close>-th on.\<close>

definition kern0 :: kern where
  "kern0 = \<lparr>dma_answer = (\<lambda>j. Some (0x1000)), dma_calls = 0, page_answer = (\<lambda>j. Some 0x5000),
     page_calls = 0, page_refs = (\<lambda>p. 1), klog = []\<rparr>"

definition kern_refuse :: "nat \<Rightarrow> kern" where
  "kern_refuse n = kern0\<lparr>dma_answer := (\<lambda>j. if j < n then Some 0x1000 else None)\<rparr>"

text \<open>A TCP packet to segment, tagged, with a 66-byte head and two fragments.\<close>

definition skb0 :: sk_buff where
  "skb0 = \<lparr>skb_ptr = 0xABC0, skb_len = 6066, skb_headlen = 66, skb_frags = [4000, 2000],
     skb_gso_size = 1448, skb_ip_hdrlen = 20, skb_tcp_hdrlen = 32, skb_ip_version = 4,
     skb_ip_protocol = 6, skb_ipv6_nexthdr = 0, skb_eth_p_ip = True, skb_csum_partial = True,
     skb_vlan_present = True, skb_vlan_tag = 100, skb_queue_mapping = 0\<rparr>"

definition nic0 :: aq_nic_s where
  "nic0 = \<lparr>aq_hw = hw0, aq_ring_tx = [ring0 64 60], stopped_queues = (\<lambda>i. False), nic_kern = kern0\<rparr>"

end
