(* ===== verification/Hw_Props.thy ===== *)
theory Hw_Props
  imports Llh_Ops Samples
begin

section \<open>Properties of register access\<close>

text \<open>
  What the register layer guarantees: fields of the memory map are independent and read back
  what was written, the interrupt map of one queue leaves every other queue's alone, polling
  loops succeed exactly when the condition was seen in time, errors once seen are not lost.
\<close>

text \<open>
  C6: The memory map of hw_atl_llh_internal.h. A value that fits the documented width of a
  field, written through its address, mask and shift, reads back as written; every other
  field of the map, in the same register or in another, keeps its contents.
\<close>

theorem llh_field_write_exact:
  assumes "plain_hw hw" "f \<in> set llh_fields" "fld_width f = Some w" "unat v < 2 ^ w"
    and "fld_adr f i \<noteq> alive_adr hw"
  shows "fst (read_field (write_field hw f i v) f i) = v \<and>
    (\<forall>g \<in> set llh_fields. \<forall>j.
       fld_adr g j \<noteq> fld_adr f i \<or> same_bank f g \<and> fld_msk g \<noteq> fld_msk f \<longrightarrow>
       fst (read_field (write_field hw f i v) g j) = fst (read_field hw g j))"
proof (intro conjI ballI allI impI)
  note fits = field_fits_width [OF assms(2-4)]
  show "fst (read_field (write_field hw f i v) f i) = v"
    using assms(1,2,5) fits by (rule read_write_field)
  fix g j assume g: "g \<in> set llh_fields"
    "fld_adr g j \<noteq> fld_adr f i \<or> same_bank f g \<and> fld_msk g \<noteq> fld_msk f"
  have "same_bank f g \<Longrightarrow> fld_msk g \<noteq> fld_msk f \<Longrightarrow> fld_msk f AND fld_msk g = 0"
    using llh_fields_disjoint [OF assms(2) g(1)] by (auto simp: disjoint_or_alias_def)
  then show "fst (read_field (write_field hw f i v) g j) = fst (read_field hw g j)"
    using g(2) by (intro read_write_field_other [OF assms(1,2,5) fits]) auto
qed

theorem llh_field_write_exact_witness:
  "fst (read_field (write_field hw0 HW_ATL_RPB_RPF_RX_TC_MODE 0 1) HW_ATL_RPB_RPF_RX_TC_MODE 0) = 1"
proof -
  let ?f = HW_ATL_RPB_RPF_RX_TC_MODE
  have f: "?f \<in> set llh_fields" unfolding llh_fields_def by simp
  have w: "fld_width ?f = Some 1" "fld_adr ?f 0 \<noteq> 0x10" "unat (1 :: u32) < 2 ^ 1"
    by (simp_all add: HW_ATL_RPB_RPF_RX_TC_MODE_def fld_adr_def)
  show ?thesis using llh_field_write_exact [OF _ f w(1,3)] w(2) by simp
qed

subsection \<open>The interrupt map\<close>

text \<open>
  Two queues share a register: the even one has the upper byte of each half. The four fields
  of a queue: receive vector, receive enable, transmit vector, transmit enable.
\<close>

definition imr_adr :: "nat \<Rightarrow> u32" where "imr_adr q = 0x2100 + 4 * of_nat (q div 2)"
definition imr_pos :: "nat \<Rightarrow> nat \<Rightarrow> nat" where "imr_pos b q = b + (if even q then 8 else 0)"

definition imr_get :: "nat \<times> nat \<Rightarrow> aq_hw_s \<Rightarrow> nat \<Rightarrow> u32" where
  "imr_get = (\<lambda>(b, w) hw q. slice_get (imr_pos b q) w (regs hw (imr_adr q)))"

definition IMR_RX :: "nat \<times> nat" where "IMR_RX = (0, 5)"
definition IMR_RX_EN :: "nat \<times> nat" where "IMR_RX_EN = (7, 1)"
definition IMR_TX :: "nat \<times> nat" where "IMR_TX = (16, 5)"
definition IMR_TX_EN :: "nat \<times> nat" where "IMR_TX_EN = (23, 1)"

lemmas imr_kinds = IMR_RX_def IMR_RX_EN_def IMR_TX_def IMR_TX_EN_def

definition imr_table :: "nat \<times> nat \<Rightarrow> u32 list \<Rightarrow> u32 list \<Rightarrow> nat list \<Rightarrow> bool" where
  "imr_table k adrs msks shs \<longleftrightarrow>
     adrs = map imr_adr [0..<32] \<and> msks = map (\<lambda>q. field_mask (imr_pos (fst k) q) (snd k)) [0..<32] \<and>
     shs = map (imr_pos (fst k)) [0..<32]"

lemma imr_tables:
  "imr_table IMR_RX itr_imr_rxr_adr itr_imr_rxr_msk itr_imr_rxr_shift"
  "imr_table IMR_RX_EN itr_imr_rxren_adr itr_imr_rxren_msk itr_imr_rxren_shift"
  "imr_table IMR_TX itr_imr_txt_adr itr_imr_txt_msk itr_imr_txt_shift"
  "imr_table IMR_TX_EN itr_imr_txten_adr itr_imr_txten_msk itr_imr_txten_shift"
  by code_simp+

lemma imr_adr_inj: "p < 32 \<Longrightarrow> q < 32 \<Longrightarrow> imr_adr p = imr_adr q \<longleftrightarrow> p div 2 = q div 2"
proof -
  assume pq: "p < 32" "q < 32"
  have u: "unat (imr_adr p) = 0x2100 + 4 * (p div 2)" if "p < 32" for p
  proof -
    have "unat (of_nat (p div 2) :: u32) = p div 2"
      using that by (simp add: unsigned_of_nat take_bit_nat_eq_self)
    then show ?thesis
      using that by (simp add: imr_adr_def unat_word_ariths)
  qed
  show ?thesis using u [OF pq(1)] u [OF pq(2)] by (metis add_left_cancel mult_cancel1 zero_neq_numeral imr_adr_def)
qed

lemma slice_set_mask:
  "push_bit s v AND field_mask s w = push_bit s v \<Longrightarrow>
   (x AND NOT (field_mask s w)) OR push_bit s v = slice_set s w v (x :: u32)"
proof -
  assume "push_bit s v AND field_mask s w = push_bit s v"
  then have "push_bit s v = push_bit s (take_bit w v)"
    by (metis field_mask_def push_bit_and take_bit_eq_mask)
  then show ?thesis by (simp add: slice_set_def field_mask_def)
qed

lemma imr_kind_cases:
  "k \<in> {IMR_RX, IMR_RX_EN, IMR_TX, IMR_TX_EN} \<Longrightarrow>
   0 < snd k \<and> snd k \<le> 5 \<and> imr_pos (fst k) q + snd k \<le> 32"
  by (auto simp: imr_kinds imr_pos_def)

lemma imr_slices_disjoint:
  assumes "k \<in> {IMR_RX, IMR_RX_EN, IMR_TX, IMR_TX_EN}" "j \<in> {IMR_RX, IMR_RX_EN, IMR_TX, IMR_TX_EN}"
    and "k \<noteq> j \<or> even p \<noteq> even q"
  shows "imr_pos (fst k) p + snd k \<le> imr_pos (fst j) q \<or> imr_pos (fst j) q + snd j \<le> imr_pos (fst k) p"
  using assms by (cases "even p"; cases "even q") (auto simp: imr_kinds imr_pos_def)

lemma imr_write:
  assumes "plain_hw hw" "q < 32" "imr_adr q \<noteq> alive_adr hw" "unat v < 2 ^ snd k"
    and k: "k \<in> {IMR_RX, IMR_RX_EN, IMR_TX, IMR_TX_EN}" "imr_table k adrs msks shs"
  defines "hw' \<equiv> aq_hw_write_reg_bit hw (adrs ! q) (msks ! q) (shs ! q) v"
  shows "imr_get k hw' q = v"
    and "p < 32 \<Longrightarrow> j \<in> {IMR_RX, IMR_RX_EN, IMR_TX, IMR_TX_EN} \<Longrightarrow> j \<noteq> k \<or> p \<noteq> q \<Longrightarrow>
      imr_get j hw' p = imr_get j hw p"
proof -
  let ?s = "imr_pos (fst k) q" and ?w = "snd k"
  have t: "adrs ! q = imr_adr q" "msks ! q = field_mask ?s ?w" "shs ! q = ?s"
    using k(2) assms(2) by (simp_all add: imr_table_def)
  note w = imr_kind_cases [OF k(1), of q]
  have fit: "push_bit ?s v AND field_mask ?s ?w = push_bit ?s v"
    using field_mask_fits(1) [OF assms(4)] w by (simp add: add.commute)
  have "field_mask ?s ?w \<noteq> NOT 0"
  proof
    assume "field_mask ?s ?w = NOT 0"
    then have "\<forall>i < 32. bit (field_mask ?s ?w) i" by (auto simp: bit_not_iff)
    then show False using w field_mask_bit [of ?s ?w 0] field_mask_bit [of ?s ?w 31] by auto
  qed
  then have R: "regs hw' = (regs hw)(imr_adr q := slice_set ?s ?w v (regs hw (imr_adr q)))"
    unfolding hw'_def t by (subst plain_write_reg_bit [OF assms(1)]) (simp_all add: slice_set_mask [OF fit])
  have "take_bit ?w v = v"
    using assms(4) by (simp add: word_unat_eq_iff unsigned_take_bit_eq take_bit_nat_eq_self)
  then show "imr_get k hw' q = v"
    using w by (simp add: imr_get_def split_beta R slice_get_set_same)
  assume p: "p < 32" "j \<in> {IMR_RX, IMR_RX_EN, IMR_TX, IMR_TX_EN}" "j \<noteq> k \<or> p \<noteq> q"
  show "imr_get j hw' p = imr_get j hw p"
  proof (cases "imr_adr p = imr_adr q")
    case True
    then have "p div 2 = q div 2" using imr_adr_inj [OF p(1) assms(2)] by simp
    then have "p = q \<or> even p \<noteq> even q" by (metis even_two_times_div_two odd_two_times_div_two_succ)
    then have "j \<noteq> k \<or> even p \<noteq> even q" using p(3) by auto
    from imr_slices_disjoint [OF p(2) k(1) this] show ?thesis
      using True by (simp add: imr_get_def split_beta R slice_get_set_disjoint)
  qed (simp add: imr_get_def split_beta R)
qed

text \<open>
  The interrupt map. Assigning a vector to a receive or a transmit queue, or enabling its
  interrupt, sets exactly that field of exactly that queue: all three tables of addresses,
  masks and shifts agree with the layout of two queues to a register, and the maps of the
  other 31 queues and the other fields of the queue are untouched.
\<close>

theorem irq_map_sets_one_field:
  assumes "plain_hw hw" "unat q < 32" "imr_adr (unat q) \<noteq> alive_adr hw" "unat v < 32"
  shows
    "imr_get IMR_RX (hw_atl_itr_irq_map_rx_set hw v q) (unat q) = v \<and>
     imr_get IMR_TX (hw_atl_itr_irq_map_tx_set hw v q) (unat q) = v \<and>
     imr_get IMR_RX_EN (hw_atl_itr_irq_map_en_rx_set hw 1 q) (unat q) = 1 \<and>
     imr_get IMR_TX_EN (hw_atl_itr_irq_map_en_tx_set hw 1 q) (unat q) = 1 \<and>
     (\<forall>p < 32. \<forall>j \<in> {IMR_RX, IMR_RX_EN, IMR_TX, IMR_TX_EN}.
        (j \<noteq> IMR_RX \<or> p \<noteq> unat q \<longrightarrow> imr_get j (hw_atl_itr_irq_map_rx_set hw v q) p = imr_get j hw p) \<and>
        (j \<noteq> IMR_TX \<or> p \<noteq> unat q \<longrightarrow> imr_get j (hw_atl_itr_irq_map_tx_set hw v q) p = imr_get j hw p) \<and>
        (j \<noteq> IMR_RX_EN \<or> p \<noteq> unat q \<longrightarrow> imr_get j (hw_atl_itr_irq_map_en_rx_set hw 1 q) p = imr_get j hw p) \<and>
        (j \<noteq> IMR_TX_EN \<or> p \<noteq> unat q \<longrightarrow> imr_get j (hw_atl_itr_irq_map_en_tx_set hw 1 q) p = imr_get j hw p))"
proof -
  have v: "unat v < 2 ^ snd IMR_RX" "unat v < 2 ^ snd IMR_TX"
      "unat (1 :: u32) < 2 ^ snd IMR_RX_EN" "unat (1 :: u32) < 2 ^ snd IMR_TX_EN"
    using assms(4) by (simp_all add: imr_kinds)
  let ?K = "{IMR_RX, IMR_RX_EN, IMR_TX, IMR_TX_EN}"
  have k: "IMR_RX \<in> ?K" "IMR_TX \<in> ?K" "IMR_RX_EN \<in> ?K" "IMR_TX_EN \<in> ?K" by simp_all
  note w = imr_write [OF assms(1-3) v(1) k(1) imr_tables(1)]
    imr_write [OF assms(1-3) v(2) k(2) imr_tables(3)]
    imr_write [OF assms(1-3) v(3) k(3) imr_tables(2)]
    imr_write [OF assms(1-3) v(4) k(4) imr_tables(4)]
  show ?thesis
    unfolding hw_atl_itr_irq_map_rx_set_def hw_atl_itr_irq_map_tx_set_def
      hw_atl_itr_irq_map_en_rx_set_def hw_atl_itr_irq_map_en_tx_set_def
    by (intro conjI ballI allI impI; (rule w); assumption)
qed

theorem irq_map_sets_one_field_witness:
  "imr_get IMR_RX (hw_atl_itr_irq_map_rx_set hw0 5 3) 3 = 5"
proof -
  have q: "unat (3 :: u32) = 3" "unat (5 :: u32) = 5" "imr_adr 3 = 0x2104"
    by (simp_all add: imr_adr_def)
  show ?thesis using irq_map_sets_one_field [of hw0 3 5] by (simp add: q)
qed

subsection \<open>Polling and errors\<close>

text \<open>
  \<open>AQ_HW_WAIT_FOR\<close> with a budget of \<open>n\<close> polls reports success exactly when one of the
  first \<open>n\<close> evaluations of the condition was true, whatever the device does between them; it
  always returns, after at most \<open>n + 1\<close> evaluations. The last of them, made when the budget
  is used up, cannot rescue the wait.
\<close>

theorem wait_for_exact:
  "(\<not> fst (AQ_HW_WAIT_FOR B n hw) \<longleftrightarrow> (\<exists>k<n. fst (B (polls B k hw)))) \<and>
   (\<exists>k. k \<le> Suc n \<and> snd (AQ_HW_WAIT_FOR B n hw) = polls B k (hw :: aq_hw_s))"
  using wait_for_ok_iff [of B n hw] wait_for_polls [of n B hw] by blast

theorem wait_for_exact_witness: "\<not> fst (AQ_HW_WAIT_FOR (\<lambda>h. (True, h)) 3 hw0)"
proof -
  have "\<exists>k<3. fst ((\<lambda>h. (True, h)) (polls (\<lambda>h. (True, h)) k hw0))" by (intro exI [of _ 0]) simp
  then show ?thesis using wait_for_exact [of "\<lambda>h. (True, h)" 3 hw0] by blast
qed

text \<open>
  Errors are not lost. Once a register read has found the card gone, or a fault has been
  flagged, every later access, read, field write or polling loop included, still reports an
  error from \<open>aq_hw_err_from_flags\<close>, which only ever returns 0, \<open>-EIO\<close> or \<open>-ENXIO\<close>; and a
  read reports the card unplugged when both the register and the alive-check register read
  all ones.
\<close>

theorem hw_errors_persist:
  assumes "aq_hw_err_from_flags hw \<noteq> 0"
  shows "aq_hw_err_from_flags (snd (aq_hw_read_reg hw a)) \<noteq> 0 \<and>
    aq_hw_err_from_flags (aq_hw_write_reg hw a v) \<noteq> 0 \<and>
    aq_hw_err_from_flags (aq_hw_write_reg_bit hw a m s v) \<noteq> 0 \<and>
    aq_hw_err_from_flags (snd (aq_hw_read_reg_bit hw a m s)) \<noteq> 0 \<and>
    aq_hw_err_from_flags (snd (AQ_HW_WAIT_FOR (\<lambda>h. (P (fst (aq_hw_read_reg h a)), snd (aq_hw_read_reg h a))) n hw)) \<noteq> 0 \<and>
    aq_hw_err_from_flags hw \<in> {- EIO, - ENXIO}"
proof -
  have "same_sw hw (snd (AQ_HW_WAIT_FOR (\<lambda>h. (P (fst (aq_hw_read_reg h a)), snd (aq_hw_read_reg h a))) n hw))"
    by (rule same_sw_wait_for) simp
  then show ?thesis
    using assms err_from_flags_range [of hw] err_from_flags_sticky [OF _ assms] by simp
qed

theorem hw_errors_persist_witness:
  "aq_hw_err_from_flags (aq_hw_write_reg (aq_utils_obj_set AQ_HW_FLAG_ERR_HW hw0) 0x10 0) \<noteq> 0"
proof -
  have "aq_hw_err_from_flags (aq_utils_obj_set AQ_HW_FLAG_ERR_HW hw0) \<noteq> 0"
    by (simp add: aq_hw_err_from_flags_def aq_utils_obj_test_def aq_utils_obj_set_def hw0_def
        AQ_HW_FLAG_ERR_HW_def AQ_HW_FLAG_ERR_UNPLUG_def errno_defs)
  then show ?thesis using hw_errors_persist by blast
qed

text \<open>
  A surprise removal is noticed. Whatever the device, a read that returns all ones from
  a register and then from the alive-check register makes the context report \<open>-ENXIO\<close> from
  then on; a read of any other value leaves the flags as they were.
\<close>

theorem unplug_detected:
  "(dev_val (mmio hw) a = NOT 0 \<and> dev_val (dev_read (mmio hw) a) (alive_adr hw) = NOT 0 \<longrightarrow>
     aq_hw_err_from_flags (snd (aq_hw_read_reg hw a)) = - ENXIO \<and>
     fst (aq_hw_read_reg hw a) = NOT 0) \<and>
   (dev_val (mmio hw) a \<noteq> NOT 0 \<longrightarrow> flags (snd (aq_hw_read_reg hw a)) = flags hw \<and>
     fst (aq_hw_read_reg hw a) = dev_val (mmio hw) a)"
proof -
  have "(x OR AQ_HW_FLAG_ERR_UNPLUG) AND AQ_HW_FLAG_ERR_UNPLUG = AQ_HW_FLAG_ERR_UNPLUG" for x :: u32
    by (simp add: bit.conj_disj_distrib2)
  moreover have "AQ_HW_FLAG_ERR_UNPLUG \<noteq> 0" by (simp add: AQ_HW_FLAG_ERR_UNPLUG_def)
  ultimately show ?thesis
    by (auto simp: aq_hw_read_reg_def readl_def Let_def aq_utils_obj_set_def alive_adr_def
        aq_hw_err_from_flags_def aq_utils_obj_test_def)
qed

theorem unplug_detected_witness:
  "\<exists>hw. aq_hw_err_from_flags (snd (aq_hw_read_reg hw 0x18)) = - ENXIO"
proof -
  let ?hw = "hw0\<lparr>mmio := reg_file (\<lambda>a. NOT 0)\<rparr>"
  show ?thesis
    using unplug_detected [where hw = ?hw and a = "0x18"] by (intro exI [of _ ?hw]) (simp add: hw0_def)
qed

end
