(* ===== verification/B0_Tx.thy ===== *)
theory B0_Tx
  imports Llh_Ops Nic_Tx
begin

section \<open>Transmitting on the B0 chip (hw_atl_b0.c) and \<open>aq_nic_xmit\<close> (aq_nic.c)\<close>

text \<open>
  \<open>hw_atl_b0_hw_ring_tx_xmit\<close> turns the buffers a packet was posted in into the
  16-byte descriptors the chip reads and then publishes the new tail; \<open>aq_nic_xmit\<close> is the
  driver's transmit entry point around it. A descriptor is \<open>buf_addr\<close> (64 bits) followed
  by \<open>ctl\<close> and \<open>ctl2\<close> (32 bits each), on a little-endian machine the low and the high
  half of the second word.
\<close>

subsection \<open>Descriptor layout (hw_atl_b0_internal.h)\<close>

definition HW_ATL_B0_TXD_CTL2_LEN :: u32 where "HW_ATL_B0_TXD_CTL2_LEN = 0xFFFFC000"
definition HW_ATL_B0_TXD_CTL2_CTX_EN :: u32 where "HW_ATL_B0_TXD_CTL2_CTX_EN = 0x00002000"
definition HW_ATL_B0_TXD_CTL_DESC_TYPE_TXD :: u32 where "HW_ATL_B0_TXD_CTL_DESC_TYPE_TXD = 0x00000001"
definition HW_ATL_B0_TXD_CTL_DESC_TYPE_TXC :: u32 where "HW_ATL_B0_TXD_CTL_DESC_TYPE_TXC = 0x00000002"
definition HW_ATL_B0_TXD_CTL_BLEN :: u32 where "HW_ATL_B0_TXD_CTL_BLEN = 0x000FFFF0"
definition HW_ATL_B0_TXD_CTL_EOP :: u32 where "HW_ATL_B0_TXD_CTL_EOP = 0x00200000"
definition HW_ATL_B0_TXD_CTL_CMD_VLAN :: u32 where "HW_ATL_B0_TXD_CTL_CMD_VLAN = BIT 22"
definition HW_ATL_B0_TXD_CTL_CMD_IPCSO :: u32 where "HW_ATL_B0_TXD_CTL_CMD_IPCSO = BIT 24"
definition HW_ATL_B0_TXD_CTL_CMD_TUCSO :: u32 where "HW_ATL_B0_TXD_CTL_CMD_TUCSO = BIT 25"
definition HW_ATL_B0_TXD_CTL_CMD_LSO :: u32 where "HW_ATL_B0_TXD_CTL_CMD_LSO = BIT 26"
definition HW_ATL_B0_TXD_CTL_CMD_WB :: u32 where "HW_ATL_B0_TXD_CTL_CMD_WB = BIT 27"
definition HW_ATL_B0_TXD_CTL_CMD_IPV6 :: u32 where "HW_ATL_B0_TXD_CTL_CMD_IPV6 = BIT 21"
definition HW_ATL_B0_TXD_CTL_CMD_TCP :: u32 where "HW_ATL_B0_TXD_CTL_CMD_TCP = BIT 22"

lemmas txd_consts = HW_ATL_B0_TXD_CTL2_LEN_def HW_ATL_B0_TXD_CTL2_CTX_EN_def
  HW_ATL_B0_TXD_CTL_DESC_TYPE_TXD_def HW_ATL_B0_TXD_CTL_DESC_TYPE_TXC_def
  HW_ATL_B0_TXD_CTL_BLEN_def HW_ATL_B0_TXD_CTL_EOP_def HW_ATL_B0_TXD_CTL_CMD_VLAN_def
  HW_ATL_B0_TXD_CTL_CMD_IPCSO_def HW_ATL_B0_TXD_CTL_CMD_TUCSO_def
  HW_ATL_B0_TXD_CTL_CMD_LSO_def HW_ATL_B0_TXD_CTL_CMD_WB_def HW_ATL_B0_TXD_CTL_CMD_IPV6_def
  HW_ATL_B0_TXD_CTL_CMD_TCP_def

record hw_atl_txd_s =
  buf_addr :: u64
  ctl :: u32
  ctl2 :: u32

definition txd_words :: "hw_atl_txd_s \<Rightarrow> u64 \<times> u64" where
  "txd_words d = (buf_addr d, slice_set 32 32 (ucast (ctl2 d)) (ucast (ctl d)))"

definition words_txd :: "u64 \<times> u64 \<Rightarrow> hw_atl_txd_s" where
  "words_txd w = \<lparr>buf_addr = fst w, ctl = ucast (snd w), ctl2 = ucast (drop_bit 32 (snd w))\<rparr>"

lemma words_txd_words [simp]: "words_txd (txd_words d) = d"
proof -
  have "ucast (slice_set 32 32 (ucast b :: u64) (ucast a :: u64)) = (a :: u32)"
    and "ucast (drop_bit 32 (slice_set 32 32 (ucast b :: u64) (ucast a :: u64))) = (b :: u32)"
    for a b :: u32
    by (intro bit_word_eqI; auto simp: bit_slice_set bit_unsigned_iff bit_drop_bit_eq
        dest: bit_imp_le_length)+
  then show ?thesis by (simp add: words_txd_def txd_words_def)
qed

subsection \<open>Writing the descriptors\<close>

text \<open>
  One descriptor, from the buffer and the state of the loop: the payload length still to
  announce and whether a segmentation or a VLAN context is open. The shifted header lengths
  are \<open>int\<close>s in C; only the low 32 bits reach the descriptor.
\<close>

record xmit_state =
  pkt_len :: u32
  in_gso :: bool
  in_vlan :: bool

definition txd_context_gso :: "aq_ring_buff_s \<Rightarrow> xmit_state \<times> hw_atl_txd_s \<Rightarrow> xmit_state \<times> hw_atl_txd_s" where
  "txd_context_gso buff = (\<lambda>(st, txd).
     if is_gso buff then
       let txd = txd\<lparr>ctl := ctl txd OR HW_ATL_B0_TXD_CTL_CMD_TCP\<rparr>;
           txd = txd\<lparr>ctl := ctl txd OR HW_ATL_B0_TXD_CTL_DESC_TYPE_TXC\<rparr>;
           txd = txd\<lparr>ctl := ctl txd OR
             (push_bit 31 (ucast (len_l3 buff)) OR push_bit 24 (ucast (len_l2 buff)))\<rparr>;
           txd = txd\<lparr>ctl2 := ctl2 txd OR push_bit 16 (mss buff)\<rparr>;
           st = st\<lparr>in_gso := True\<rparr>;
           st = st\<lparr>pkt_len := pkt_len st -
             (ucast (len_l4 buff) + ucast (len_l3 buff) + ucast (len_l2 buff))\<rparr>;
           txd = (if is_ipv6 buff then txd\<lparr>ctl := ctl txd OR HW_ATL_B0_TXD_CTL_CMD_IPV6\<rparr> else txd);
           txd = txd\<lparr>ctl2 := ctl2 txd OR
             (push_bit 8 (ucast (len_l4 buff)) OR drop_bit 1 (ucast (len_l3 buff)))\<rparr>
       in (st, txd)
     else (st, txd))"

definition txd_context_vlan :: "aq_ring_buff_s \<Rightarrow> xmit_state \<times> hw_atl_txd_s \<Rightarrow> xmit_state \<times> hw_atl_txd_s" where
  "txd_context_vlan buff = (\<lambda>(st, txd).
     if is_vlan buff then
       let txd = txd\<lparr>ctl := ctl txd OR HW_ATL_B0_TXD_CTL_DESC_TYPE_TXC\<rparr>;
           txd = txd\<lparr>ctl := ctl txd OR push_bit 4 (ucast (vlan_tx_tag buff))\<rparr>
       in (st\<lparr>in_vlan := True\<rparr>, txd)
     else (st, txd))"

definition or_if :: "bool \<Rightarrow> u32 \<Rightarrow> u32 \<Rightarrow> u32" where
  "or_if b m v = (if b then v OR m else v)"

definition txd_data :: "aq_ring_buff_s \<Rightarrow> xmit_state \<times> hw_atl_txd_s \<Rightarrow> xmit_state \<times> hw_atl_txd_s" where
  "txd_data buff = (\<lambda>(st, txd).
     if \<not> is_gso buff \<and> \<not> is_vlan buff then
       let buff_pa_len = ucast (len buff);
           txd = txd\<lparr>buf_addr := pa buff\<rparr>;
           txd = txd\<lparr>ctl := ctl txd OR (HW_ATL_B0_TXD_CTL_BLEN AND push_bit 4 buff_pa_len)\<rparr>;
           txd = txd\<lparr>ctl := ctl txd OR HW_ATL_B0_TXD_CTL_DESC_TYPE_TXD\<rparr>;
           txd = txd\<lparr>ctl2 := ctl2 txd OR (HW_ATL_B0_TXD_CTL2_LEN AND push_bit 14 (pkt_len st))\<rparr>;
           txd = txd\<lparr>ctl2 := or_if (in_gso st \<or> in_vlan st) HW_ATL_B0_TXD_CTL2_CTX_EN (ctl2 txd)\<rparr>;
           txd = txd\<lparr>ctl := or_if (in_gso st) HW_ATL_B0_TXD_CTL_CMD_LSO (ctl txd)\<rparr>;
           txd = txd\<lparr>ctl := or_if (is_ip_cso buff) HW_ATL_B0_TXD_CTL_CMD_IPCSO (ctl txd)\<rparr>;
           txd = txd\<lparr>ctl := or_if (is_udp_cso buff \<or> is_tcp_cso buff) HW_ATL_B0_TXD_CTL_CMD_TUCSO (ctl txd)\<rparr>;
           txd = txd\<lparr>ctl := or_if (in_vlan st) HW_ATL_B0_TXD_CTL_CMD_VLAN (ctl txd)\<rparr>
       in if is_eop buff
          then let txd = txd\<lparr>ctl := ctl txd OR HW_ATL_B0_TXD_CTL_EOP\<rparr>;
                   txd = txd\<lparr>ctl := ctl txd OR HW_ATL_B0_TXD_CTL_CMD_WB\<rparr>
               in (st\<lparr>in_gso := False, in_vlan := False\<rparr>, txd)
          else (st, txd)
     else (st, txd))"

definition txd_of :: "aq_ring_buff_s \<Rightarrow> xmit_state \<Rightarrow> xmit_state \<times> hw_atl_txd_s" where
  "txd_of buff st =
     txd_data buff (txd_context_vlan buff (txd_context_gso buff
       (st, \<lparr>buf_addr = 0, ctl = 0, ctl2 = 0\<rparr>)))"

fun b0_xmit_loop :: "nat \<Rightarrow> aq_ring_s \<Rightarrow> xmit_state \<Rightarrow> aq_ring_s" where
  "b0_xmit_loop 0 ring st = ring"
| "b0_xmit_loop (Suc frags) ring st =
     (let buff = buff_ring ring ! unat (sw_tail ring);
          (st, txd) = txd_of buff st;
          ring = ring\<lparr>dx_ring := (dx_ring ring)[unat (sw_tail ring) := txd_words txd]\<rparr>;
          ring = ring\<lparr>sw_tail := aq_ring_next_dx ring (sw_tail ring)\<rparr>
      in b0_xmit_loop frags ring st)"

definition hw_atl_b0_hw_tx_ring_tail_update :: "aq_hw_s \<Rightarrow> aq_ring_s \<Rightarrow> int \<times> aq_hw_s" where
  "hw_atl_b0_hw_tx_ring_tail_update self ring =
     (0, hw_atl_reg_tx_dma_desc_tail_ptr_set self (sw_tail ring) (ring_idx ring))"

definition hw_atl_b0_hw_ring_tx_xmit :: "aq_hw_s \<Rightarrow> aq_ring_s \<Rightarrow> nat \<Rightarrow> int \<times> aq_hw_s \<times> aq_ring_s" where
  "hw_atl_b0_hw_ring_tx_xmit self ring frags =
     (let buff = buff_ring ring ! unat (sw_tail ring);
          len0 = (if is_eop buff \<and> is_sop buff then ucast (len buff) else len_pkt buff);
          ring = b0_xmit_loop frags ring \<lparr>pkt_len = len0, in_gso = False, in_vlan = False\<rparr>;
          self = snd (hw_atl_b0_hw_tx_ring_tail_update self ring)
      in (aq_hw_err_from_flags self, self, ring))"

subsection \<open>What the chip reads\<close>

text \<open>The fields of a descriptor, as the masks of hw_atl_b0_internal.h place them.\<close>

definition txd_type :: "hw_atl_txd_s \<Rightarrow> u32" where "txd_type d = slice_get 0 3 (ctl d)"
definition txd_blen :: "hw_atl_txd_s \<Rightarrow> u16" where "txd_blen d = ucast (slice_get 4 16 (ctl d))"
definition txd_pay_len :: "hw_atl_txd_s \<Rightarrow> u32" where "txd_pay_len d = slice_get 14 18 (ctl2 d)"
definition txd_ctx_en :: "hw_atl_txd_s \<Rightarrow> bool" where "txd_ctx_en d = bit (ctl2 d) 13"
definition txd_eop :: "hw_atl_txd_s \<Rightarrow> bool" where "txd_eop d = bit (ctl d) 21"
definition txd_wb :: "hw_atl_txd_s \<Rightarrow> bool" where "txd_wb d = bit (ctl d) 27"
definition txd_lso :: "hw_atl_txd_s \<Rightarrow> bool" where "txd_lso d = bit (ctl d) 26"
definition txd_vlan :: "hw_atl_txd_s \<Rightarrow> bool" where "txd_vlan d = bit (ctl d) 22"
definition txd_ipcso :: "hw_atl_txd_s \<Rightarrow> bool" where "txd_ipcso d = bit (ctl d) 24"
definition txd_tucso :: "hw_atl_txd_s \<Rightarrow> bool" where "txd_tucso d = bit (ctl d) 25"
definition txc_mss :: "hw_atl_txd_s \<Rightarrow> u32" where "txc_mss d = slice_get 16 16 (ctl2 d)"
definition txc_l2len :: "hw_atl_txd_s \<Rightarrow> u32" where "txc_l2len d = slice_get 24 7 (ctl d)"
definition txc_l3len :: "hw_atl_txd_s \<Rightarrow> u32" where
  "txc_l3len d = push_bit 1 (slice_get 0 8 (ctl2 d)) OR slice_get 31 1 (ctl d)"
definition txc_l4len :: "hw_atl_txd_s \<Rightarrow> u32" where "txc_l4len d = slice_get 8 8 (ctl2 d)"
definition txc_vlan_tag :: "hw_atl_txd_s \<Rightarrow> u16" where "txc_vlan_tag d = ucast (slice_get 4 16 (ctl d))"
definition txc_ipv6 :: "hw_atl_txd_s \<Rightarrow> bool" where "txc_ipv6 d = bit (ctl d) 21"
definition txc_tcp :: "hw_atl_txd_s \<Rightarrow> bool" where "txc_tcp d = bit (ctl d) 22"

lemmas txd_field_defs = txd_type_def txd_blen_def txd_pay_len_def txd_ctx_en_def txd_eop_def
  txd_wb_def txd_lso_def txd_vlan_def txd_ipcso_def txd_tucso_def txc_mss_def txc_l2len_def
  txc_l3len_def txc_l4len_def txc_vlan_tag_def txc_ipv6_def txc_tcp_def

lemma txd_masks:
  "HW_ATL_B0_TXD_CTL_BLEN = push_bit 4 (mask 16)" "HW_ATL_B0_TXD_CTL2_LEN = push_bit 14 (mask 18)"
  "HW_ATL_B0_TXD_CTL2_CTX_EN = push_bit 13 1" "HW_ATL_B0_TXD_CTL_DESC_TYPE_TXD = push_bit 0 1"
  "HW_ATL_B0_TXD_CTL_DESC_TYPE_TXC = push_bit 1 1" "HW_ATL_B0_TXD_CTL_EOP = push_bit 21 1"
  "HW_ATL_B0_TXD_CTL_CMD_VLAN = push_bit 22 1" "HW_ATL_B0_TXD_CTL_CMD_IPCSO = push_bit 24 1"
  "HW_ATL_B0_TXD_CTL_CMD_TUCSO = push_bit 25 1" "HW_ATL_B0_TXD_CTL_CMD_LSO = push_bit 26 1"
  "HW_ATL_B0_TXD_CTL_CMD_WB = push_bit 27 1" "HW_ATL_B0_TXD_CTL_CMD_IPV6 = push_bit 21 1"
  "HW_ATL_B0_TXD_CTL_CMD_TCP = push_bit 22 1"
  by (simp_all add: txd_consts mask_eq_exp_minus_1 BIT_def)

lemma bit_or_if: "bit (or_if b m v) k \<longleftrightarrow> (b \<and> bit m k) \<or> bit v k"
  by (auto simp: or_if_def bit_or_iff)

lemma bit_push_one: "n < 32 \<Longrightarrow> bit (push_bit n (1 :: u32)) k \<longleftrightarrow> k = n"
  by (auto simp: bit_push_bit_iff bit_1_iff simp del: push_bit_of_1)

lemma bit_blen:
  "bit (push_bit 4 (mask 16) AND push_bit 4 (ucast (l :: u16)) :: u32) k \<longleftrightarrow>
    4 \<le> k \<and> k < 20 \<and> bit l (k - 4)"
  by (auto simp: bit_and_iff bit_push_bit_iff bit_mask_iff bit_unsigned_iff)

lemma bit_pay_len:
  "bit (push_bit 14 (mask 18) AND push_bit 14 (l :: u32)) k \<longleftrightarrow> 14 \<le> k \<and> k < 32 \<and> bit l (k - 14)"
  by (auto simp: bit_and_iff bit_push_bit_iff bit_mask_iff)

definition data_state :: "aq_ring_buff_s \<Rightarrow> xmit_state \<Rightarrow> xmit_state" where
  "data_state b st = (if is_eop b then st\<lparr>in_gso := False, in_vlan := False\<rparr> else st)"

definition data_ctl :: "aq_ring_buff_s \<Rightarrow> xmit_state \<Rightarrow> u32" where
  "data_ctl b st = or_if (is_eop b) HW_ATL_B0_TXD_CTL_CMD_WB (or_if (is_eop b) HW_ATL_B0_TXD_CTL_EOP
     (or_if (in_vlan st) HW_ATL_B0_TXD_CTL_CMD_VLAN
     (or_if (is_udp_cso b \<or> is_tcp_cso b) HW_ATL_B0_TXD_CTL_CMD_TUCSO
     (or_if (is_ip_cso b) HW_ATL_B0_TXD_CTL_CMD_IPCSO
     (or_if (in_gso st) HW_ATL_B0_TXD_CTL_CMD_LSO
       (HW_ATL_B0_TXD_CTL_BLEN AND push_bit 4 (ucast (len b)) OR HW_ATL_B0_TXD_CTL_DESC_TYPE_TXD))))))"

lemma txd_of_data_eq:
  "\<not> is_gso b \<Longrightarrow> \<not> is_vlan b \<Longrightarrow> txd_of b st = (data_state b st,
     \<lparr>buf_addr = pa b, ctl = data_ctl b st,
      ctl2 = or_if (in_gso st \<or> in_vlan st) HW_ATL_B0_TXD_CTL2_CTX_EN
        (HW_ATL_B0_TXD_CTL2_LEN AND push_bit 14 (pkt_len st))\<rparr>)"
  by (simp add: txd_of_def txd_data_def txd_context_gso_def txd_context_vlan_def Let_def
      data_state_def data_ctl_def or_if_def)

lemma bit_data_ctl:
  "bit (data_ctl b st) k \<longleftrightarrow> 4 \<le> k \<and> k < 20 \<and> bit (len b) (k - 4) \<or> k = 0 \<or>
       in_gso st \<and> k = 26 \<or> is_ip_cso b \<and> k = 24 \<or> (is_udp_cso b \<or> is_tcp_cso b) \<and> k = 25 \<or>
       in_vlan st \<and> k = 22 \<or> is_eop b \<and> (k = 21 \<or> k = 27)"
  unfolding data_ctl_def txd_masks bit_or_if bit_or_iff bit_blen
  by (simp add: bit_push_one bit_1_iff del: push_bit_of_1) blast

lemma bit_data_ctl2:
  "bit (or_if c HW_ATL_B0_TXD_CTL2_CTX_EN (HW_ATL_B0_TXD_CTL2_LEN AND push_bit 14 l)) k \<longleftrightarrow>
     14 \<le> k \<and> k < 32 \<and> bit l (k - 14) \<or> c \<and> k = 13"
  unfolding txd_masks bit_or_if bit_pay_len by (auto simp: bit_push_one simp del: push_bit_of_1)

lemma txd_of_data:
  fixes st :: xmit_state
  assumes "\<not> is_gso b" "\<not> is_vlan b"
  defines "d \<equiv> snd (txd_of b st)"
  shows "fst (txd_of b st) = data_state b st" "buf_addr d = pa b" "txd_blen d = len b"
    "txd_type d = HW_ATL_B0_TXD_CTL_DESC_TYPE_TXD" "txd_pay_len d = take_bit 18 (pkt_len st)"
    "txd_ctx_en d \<longleftrightarrow> in_gso st \<or> in_vlan st" "txd_lso d = in_gso st" "txd_vlan d = in_vlan st"
    "txd_ipcso d = is_ip_cso b" "txd_tucso d \<longleftrightarrow> is_udp_cso b \<or> is_tcp_cso b"
    "txd_eop d = is_eop b" "txd_wb d = is_eop b"
proof -
  note eq = txd_of_data_eq [OF assms(1,2), of st]
  show "fst (txd_of b st) = data_state b st" "buf_addr d = pa b" by (simp_all add: d_def eq)
  show "txd_blen d = len b"
    by (intro bit_word_eqI) (auto simp: d_def eq txd_blen_def bit_unsigned_iff bit_slice_get
        bit_data_ctl dest: bit_imp_le_length)
  show "txd_type d = HW_ATL_B0_TXD_CTL_DESC_TYPE_TXD"
    by (intro bit_word_eqI)
      (auto simp: d_def eq txd_type_def bit_slice_get bit_data_ctl txd_masks bit_1_iff)
  show "txd_pay_len d = take_bit 18 (pkt_len st)"
    by (intro bit_word_eqI)
      (auto simp: d_def eq txd_pay_len_def bit_slice_get bit_data_ctl2 bit_take_bit_iff)
qed (simp_all add: d_def txd_of_data_eq [OF assms(1,2), of st] txd_field_defs bit_data_ctl bit_data_ctl2)

definition gso_hdrs :: "aq_ring_buff_s \<Rightarrow> u32" where
  "gso_hdrs b = ucast (len_l4 b) + ucast (len_l3 b) + ucast (len_l2 b)"

definition context_state :: "aq_ring_buff_s \<Rightarrow> xmit_state \<Rightarrow> xmit_state" where
  "context_state b st = \<lparr>pkt_len = pkt_len st - (if is_gso b then gso_hdrs b else 0),
     in_gso = is_gso b \<or> in_gso st, in_vlan = is_vlan b \<or> in_vlan st\<rparr>"

lemma txd_of_context_state:
  "is_gso b \<or> is_vlan b \<Longrightarrow> fst (txd_of b st) = context_state b st"
  by (auto simp: txd_of_def txd_data_def txd_context_gso_def txd_context_vlan_def Let_def
      gso_hdrs_def context_state_def)

text \<open>The words of a context descriptor.\<close>

definition ctx_ctl :: "aq_ring_buff_s \<Rightarrow> u32" where
  "ctx_ctl b =
     or_if (is_vlan b) (push_bit 4 (ucast (vlan_tx_tag b))) (push_bit 1 1 OR
     or_if (is_gso b) (push_bit 31 (ucast (len_l3 b))) (
     or_if (is_gso b) (push_bit 24 (ucast (len_l2 b))) (
     or_if (is_gso b \<and> is_ipv6 b) (push_bit 21 1) (or_if (is_gso b) (push_bit 22 1) 0))))"

definition ctx_ctl2 :: "aq_ring_buff_s \<Rightarrow> u32" where
  "ctx_ctl2 b = (if is_gso b then push_bit 16 (mss b) OR
     (push_bit 8 (ucast (len_l4 b)) OR drop_bit 1 (ucast (len_l3 b))) else 0)"

lemma txd_of_context_eq:
  assumes "is_gso b \<or> is_vlan b"
  shows "snd (txd_of b st) = \<lparr>buf_addr = 0, ctl = ctx_ctl b, ctl2 = ctx_ctl2 b\<rparr>"
proof -
  consider "is_gso b" "is_vlan b" "is_ipv6 b" | "is_gso b" "is_vlan b" "\<not> is_ipv6 b"
    | "is_gso b" "\<not> is_vlan b" "is_ipv6 b" | "is_gso b" "\<not> is_vlan b" "\<not> is_ipv6 b"
    | "\<not> is_gso b" "is_vlan b"
    using assms by blast
  then show ?thesis
    by cases (simp_all add: txd_of_def txd_data_def txd_context_gso_def txd_context_vlan_def
        Let_def ctx_ctl_def ctx_ctl2_def or_if_def txd_consts BIT_def or.assoc or.commute or.left_commute)
qed

lemma bit_ctx_ctl:
  "bit (ctx_ctl b) k \<longleftrightarrow> k = 1 \<or> is_gso b \<and> (k = 22 \<or> is_ipv6 b \<and> k = 21 \<or>
       k = 31 \<and> bit (len_l3 b) 0 \<or> 24 \<le> k \<and> k < 32 \<and> bit (len_l2 b) (k - 24)) \<or>
       is_vlan b \<and> 4 \<le> k \<and> k < 20 \<and> bit (vlan_tx_tag b) (k - 4)"
proof -
  have "bit (push_bit 31 (ucast (len_l3 b)) :: u32) k \<longleftrightarrow> k = 31 \<and> bit (len_l3 b) 0"
    by (cases "k = 31") (auto simp: bit_push_bit_iff bit_unsigned_iff)
  moreover have "bit (push_bit 24 (ucast (len_l2 b)) :: u32) k \<longleftrightarrow> 24 \<le> k \<and> k < 32 \<and> bit (len_l2 b) (k - 24)"
    by (auto simp: bit_push_bit_iff bit_unsigned_iff)
  moreover have "bit (push_bit 4 (ucast (vlan_tx_tag b)) :: u32) k \<longleftrightarrow>
      4 \<le> k \<and> k < 20 \<and> bit (vlan_tx_tag b) (k - 4)"
    by (auto simp: bit_push_bit_iff bit_unsigned_iff dest: bit_imp_le_length)
  ultimately show ?thesis
    unfolding ctx_ctl_def bit_or_if bit_or_iff
    by (simp add: bit_push_one del: push_bit_of_1 One_nat_def) blast
qed

lemma bit_ctx_ctl2:
  "bit (ctx_ctl2 b) k \<longleftrightarrow> is_gso b \<and> (16 \<le> k \<and> k < 32 \<and> bit (mss b) (k - 16) \<or>
       8 \<le> k \<and> k < 16 \<and> bit (len_l4 b) (k - 8) \<or> bit (len_l3 b) (Suc k))"
  by (auto simp: ctx_ctl2_def bit_or_iff bit_push_bit_iff bit_unsigned_iff bit_drop_bit_eq
      dest: bit_imp_le_length)

lemma bit_TXC: "bit HW_ATL_B0_TXD_CTL_DESC_TYPE_TXC k \<longleftrightarrow> k = 1"
  unfolding txd_masks by (rule bit_push_one) simp

lemma txd_of_context:
  fixes st :: xmit_state
  assumes "is_gso b \<or> is_vlan b"
  defines "d \<equiv> snd (txd_of b st)"
  shows "txd_type d = HW_ATL_B0_TXD_CTL_DESC_TYPE_TXC" "txc_tcp d = is_gso b"
    "is_vlan b \<Longrightarrow> txc_vlan_tag d = vlan_tx_tag b"
    "is_gso b \<Longrightarrow> txc_ipv6 d = is_ipv6 b" "is_gso b \<Longrightarrow> txc_l4len d = ucast (len_l4 b)"
    "is_gso b \<Longrightarrow> txc_l2len d = take_bit 7 (ucast (len_l2 b))"
    "is_gso b \<Longrightarrow> txc_mss d = take_bit 16 (mss b)"
    "is_gso b \<Longrightarrow> len_l2 b < 128 \<Longrightarrow> txc_l3len d = ucast (len_l3 b)"
proof -
  have d: "ctl d = ctx_ctl b" "ctl2 d = ctx_ctl2 b"
    using txd_of_context_eq [OF assms(1)] by (simp_all add: d_def)
  note bits = d bit_ctx_ctl bit_ctx_ctl2 bit_slice_get bit_unsigned_iff
  show "txd_type d = HW_ATL_B0_TXD_CTL_DESC_TYPE_TXC"
    unfolding txd_type_def by (intro bit_word_eqI) (auto simp: bits bit_TXC)
  show "txc_tcp d = is_gso b" by (auto simp: txc_tcp_def bits)
  show "is_vlan b \<Longrightarrow> txc_vlan_tag d = vlan_tx_tag b"
    unfolding txc_vlan_tag_def
    by (intro bit_word_eqI) (auto simp: bits dest: bit_imp_le_length)
  show "is_gso b \<Longrightarrow> txc_ipv6 d = is_ipv6 b" by (auto simp: txc_ipv6_def bits)
  show "is_gso b \<Longrightarrow> txc_l4len d = ucast (len_l4 b)"
    unfolding txc_l4len_def by (intro bit_word_eqI) (auto simp: bits dest: bit_imp_le_length)
  show "is_gso b \<Longrightarrow> txc_l2len d = take_bit 7 (ucast (len_l2 b))"
    unfolding txc_l2len_def by (intro bit_word_eqI) (auto simp: bits bit_take_bit_iff)
  show "is_gso b \<Longrightarrow> txc_mss d = take_bit 16 (mss b)"
    unfolding txc_mss_def by (intro bit_word_eqI) (auto simp: bits bit_take_bit_iff dest: bit_imp_le_length)
  assume g: "is_gso b" and l2: "len_l2 b < 128"
  have "\<not> bit (len_l2 b) 7"
  proof
    assume "bit (len_l2 b) 7"
    then have "bit (unat (len_l2 b)) 7" by (simp add: bit_unsigned_iff)
    then show False using l2 by (auto simp: bit_iff_odd word_less_nat_alt)
  qed
  moreover have "bit (push_bit 1 x OR y) n \<longleftrightarrow> (1 \<le> n \<and> n < 32 \<and> bit x (n - 1)) \<or> bit y n"
    for x y :: u32 and n
    by (simp only: bit_or_iff bit_push_bit_iff) simp
  ultimately have "bit (txc_l3len d) n \<longleftrightarrow> bit (len_l3 b) n" if "n < 32" for n
    using g that unfolding txc_l3len_def by (cases n) (auto simp: bits dest: bit_imp_le_length)
  then show "txc_l3len d = ucast (len_l3 b)"
    by (intro bit_word_eqI) (simp add: bit_unsigned_iff)
qed

subsection \<open>The descriptors of a packet\<close>

fun txds :: "aq_ring_buff_s list \<Rightarrow> xmit_state \<Rightarrow> hw_atl_txd_s list" where
  "txds [] st = []"
| "txds (b # bs) st = snd (txd_of b st) # txds bs (fst (txd_of b st))"

lemma length_txds [simp]: "length (txds bs st) = length bs"
  by (induction bs arbitrary: st) auto

text \<open>\<open>descs r p n\<close>: the \<open>n\<close> descriptors from position \<open>p\<close> on, as the chip reads them.\<close>

definition descs :: "aq_ring_s \<Rightarrow> u32 \<Rightarrow> nat \<Rightarrow> hw_atl_txd_s list" where
  "descs r p n = map (\<lambda>k. words_txd (dx_ring r ! unat (slot r p k))) [0..<n]"

lemma gap_next_back: "p < sz \<Longrightarrow> ring.gap sz (ring_next sz p) p = unat sz - 1"
  using ring.valid_nxt [of p sz] ring.pos_less [of p sz]
  by (auto simp: ring.gap_cases ring.nxt_cases)

lemma b0_xmit_loop_spec:
  assumes "sw_tail r < ring_size r" "length (dx_ring r) = unat (ring_size r)" "n \<le> unat (ring_size r)"
  defines "t \<equiv> sw_tail r"
  shows "\<exists>ds. b0_xmit_loop n r st = r\<lparr>dx_ring := ds, sw_tail := slot r t n\<rparr> \<and>
    length ds = length (dx_ring r) \<and>
    (\<forall>j < n. ds ! unat (slot r t j) = txd_words (txds (posted r t n) st ! j)) \<and>
    (\<forall>i < ring_size r. n \<le> ring.gap (ring_size r) t i \<longrightarrow> ds ! unat i = dx_ring r ! unat i)"
  using assms(1-3) unfolding t_def
proof (induction n arbitrary: r st)
  case 0
  then show ?case by (auto intro!: exI [of _ "dx_ring r"])
next
  case (Suc n)
  let ?t = "sw_tail r" and ?N = "ring_size r"
  let ?u = "slot r ?t 1"
  define b where "b = buff_ring r ! unat ?t"
  define ws where "ws = txd_words (snd (txd_of b st))"
  define r1 where "r1 = r\<lparr>dx_ring := (dx_ring r)[unat ?t := ws], sw_tail := ?u\<rparr>"
  have step: "b0_xmit_loop (Suc n) r st = b0_xmit_loop n r1 (fst (txd_of b st))"
    by (simp add: b_def ws_def r1_def split_beta Let_def slot_def aq_ring_next_dx_def)
  have r1: "sw_tail r1 = ?u" "ring_size r1 = ?N" "slot r1 = slot r" "posted r1 = posted r"
      "dx_ring r1 = (dx_ring r)[unat ?t := ws]"
    by (simp_all add: r1_def slot_def posted_def fun_eq_iff)
  have u: "?u < ?N" using Suc.prems(1) by (rule slot_less)
  obtain ds where ds: "b0_xmit_loop n r1 (fst (txd_of b st)) = r1\<lparr>dx_ring := ds, sw_tail := slot r ?u n\<rparr>"
      "length ds = length (dx_ring r)"
      "\<And>j. j < n \<Longrightarrow> ds ! unat (slot r ?u j) = txd_words (txds (posted r ?u n) (fst (txd_of b st)) ! j)"
      "\<And>i. i < ?N \<Longrightarrow> n \<le> ring.gap ?N ?u i \<Longrightarrow> ds ! unat i = (dx_ring r)[unat ?t := ws] ! unat i"
    using Suc.IH [of r1 "fst (txd_of b st)"] Suc.prems u r1 by auto
  have gt: "n \<le> ring.gap ?N ?u ?t"
    using gap_next_back [OF Suc.prems(1)] Suc.prems(3) by (simp add: slot_def)
  have "posted r ?t (Suc n) = b # posted r ?u n"
    by (simp add: posted_Suc b_def next_slot)
  moreover have "unat ?t < length (dx_ring r)"
    using Suc.prems by (simp add: word_less_nat_alt)
  ultimately have at: "ds ! unat (slot r ?t j) = txd_words (txds (posted r ?t (Suc n)) st ! j)"
    if "j < Suc n" for j
    using that ds(3) [of "j - 1"] ds(4) [OF Suc.prems(1) gt]
    by (cases j) (simp_all add: slot_slot ws_def)
  have away: "ds ! unat i = dx_ring r ! unat i" if "i < ?N" "Suc n \<le> ring.gap ?N ?t i" for i
  proof -
    have ne: "i \<noteq> ?t" using that ring.gap_0_iff [OF Suc.prems(1) that(1)] by auto
    have "Suc (ring.gap ?N ?u i) = ring.gap ?N ?t i"
      using ring.gap_nxt_left [OF Suc.prems(1) that(1)] ne by (simp add: slot_def)
    moreover have "unat i \<noteq> unat ?t" using ne by (simp add: word_unat_eq_iff)
    ultimately show ?thesis using ds(4) [OF that(1)] that(2) by simp
  qed
  have "b0_xmit_loop (Suc n) r st = r\<lparr>dx_ring := ds, sw_tail := slot r ?t (Suc n)\<rparr>"
    unfolding step ds(1) by (simp add: r1_def slot_slot)
  then show ?case
    using ds(2) at away by blast
qed

lemma txds_append: "txds (as @ bs) st = txds as st @ txds bs (fold (\<lambda>b st. fst (txd_of b st)) as st)"
  by (induction as arbitrary: st) auto

lemma txds_packet:
  assumes "\<forall>i < length ps. \<not> is_gso (ps ! i) \<and> \<not> is_vlan (ps ! i) \<and> (is_eop (ps ! i) \<longrightarrow> Suc i = length ps)"
  shows "txds ps st = map (\<lambda>b. snd (txd_of b st)) ps"
  using assms
proof (induction ps)
  case Nil
  then show ?case by simp
next
  case (Cons b bs)
  have "\<forall>i < length bs. \<not> is_gso (bs ! i) \<and> \<not> is_vlan (bs ! i) \<and> (is_eop (bs ! i) \<longrightarrow> Suc i = length bs)"
    using Cons.prems [rule_format, of "Suc _"] by simp
  with Cons.IH have IH: "txds bs st = map (\<lambda>b. snd (txd_of b st)) bs" .
  have b: "\<not> is_gso b" "\<not> is_vlan b" "is_eop b \<longrightarrow> bs = []"
    using Cons.prems [rule_format, of 0] by auto
  then have "fst (txd_of b st) = st \<or> bs = []"
    by (auto simp: txd_of_data data_state_def)
  then show ?case using IH by auto
qed

text \<open>What the chip must read of a packet: its context and its data descriptors.\<close>

definition hdrs_len :: "sk_buff \<Rightarrow> u32" where
  "hdrs_len s = (if skb_is_gso s
     then ucast (skb_tcp_hdrlen s) + ucast (skb_ip_hdrlen s) + ucast ETH_HLEN else 0)"

definition chip_context :: "bool \<Rightarrow> sk_buff \<Rightarrow> hw_atl_txd_s \<Rightarrow> bool" where
  "chip_context vi s d \<longleftrightarrow> txd_type d = HW_ATL_B0_TXD_CTL_DESC_TYPE_TXC \<and>
     txc_tcp d = skb_is_gso s \<and>
     (skb_is_gso s \<longrightarrow> txc_mss d = ucast (skb_gso_size s) \<and> txc_l2len d = ucast ETH_HLEN \<and>
        txc_l3len d = ucast (skb_ip_hdrlen s) \<and> txc_l4len d = ucast (skb_tcp_hdrlen s) \<and>
        txc_ipv6 d = (skb_ip_version s = 6)) \<and>
     (vi \<and> skb_vlan_present s \<longrightarrow> txc_vlan_tag d = skb_vlan_tag s)"

definition chip_data :: "bool \<Rightarrow> sk_buff \<Rightarrow> u32 \<Rightarrow> (u16 \<times> u64) list \<Rightarrow> hw_atl_txd_s list \<Rightarrow> bool" where
  "chip_data vi s plen las ds \<longleftrightarrow>
     map (\<lambda>d. (txd_blen d, buf_addr d)) ds = las \<and>
     map txd_eop ds = replicate (length las - 1) False @ [True] \<and> map txd_wb ds = map txd_eop ds \<and>
     (\<forall>d \<in> set ds. txd_type d = HW_ATL_B0_TXD_CTL_DESC_TYPE_TXD \<and>
        txd_pay_len d = take_bit 18 plen \<and> txd_ctx_en d = needs_context vi s \<and>
        txd_lso d = skb_is_gso s \<and> txd_vlan d = (vi \<and> skb_vlan_present s)) \<and>
     txd_ipcso (hd ds) = (skb_csum_partial s \<and> skb_eth_p_ip s) \<and>
     txd_tucso (hd ds) = (skb_csum_partial s \<and>
       (skb_ip_version s = 4 \<and> skb_ip_protocol s \<in> {IPPROTO_TCP, IPPROTO_UDP} \<or>
        skb_ip_version s = 6 \<and> skb_ipv6_nexthdr s \<in> {IPPROTO_TCP, IPPROTO_UDP})) \<and>
     (\<forall>d \<in> set (tl ds). \<not> txd_ipcso d \<and> \<not> txd_tucso d)"

lemma chip_context_txd:
  assumes "context_buff vi s b"
  shows "chip_context vi s (snd (txd_of b st))"
proof -
  have b: "is_gso b \<or> is_vlan b" "is_gso b = skb_is_gso s" "is_vlan b = (vi \<and> skb_vlan_present s)"
    using assms by (auto simp: context_buff_def needs_context_def)
  have "take_bit 16 (ucast (skb_gso_size s) :: u32) = ucast (skb_gso_size s)"
    by (intro bit_word_eqI) (auto simp: bit_take_bit_iff bit_unsigned_iff dest: bit_imp_le_length)
  then show ?thesis
    using assms txd_of_context [OF b(1), of st] b(2,3)
    by (auto simp: chip_context_def context_buff_def ETH_HLEN_def)
qed

lemma chip_data_txds:
  assumes "packet e ps" "packet_data s las ps"
    and "in_gso st = skb_is_gso s" "in_vlan st = (vi \<and> skb_vlan_present s)"
  shows "chip_data vi s (pkt_len st) las (txds ps st)"
proof -
  let ?f = "\<lambda>b. snd (txd_of b st)"
  have ps: "ps \<noteq> []" "\<And>b. b \<in> set ps \<Longrightarrow> \<not> is_gso b \<and> \<not> is_vlan b"
      "\<And>i. i < length ps \<Longrightarrow> is_eop (ps ! i) \<longleftrightarrow> Suc i = length ps"
    using assms(1) unfolding packet_def by (auto simp: in_set_conv_nth)
  have eq: "txds ps st = map ?f ps"
    using assms(1) by (intro txds_packet) (simp add: packet_def)
  have las: "length las = length ps" "map (\<lambda>b. (len b, pa b)) ps = las"
    using assms(2) by (auto simp: packet_data_def)
  have eop: "map txd_eop (map ?f ps) = replicate (length las - 1) False @ [True]"
  proof (rule nth_equalityI)
    fix i assume "i < length (map txd_eop (map ?f ps))"
    then show "map txd_eop (map ?f ps) ! i = (replicate (length las - 1) False @ [True]) ! i"
      using ps by (auto simp: txd_of_data las(1) nth_append)
  qed (use ps(1) las(1) in \<open>cases ps; simp\<close>)
  have "hd ps \<in> set ps" "set (tl ps) \<subseteq> set ps"
    using ps(1) by (cases ps; auto)+
  then show ?thesis
    using assms(2-4) ps(2) eop unfolding chip_data_def eq
    by (auto simp: txd_of_data packet_data_def head_cso_def no_cso_def hd_map [OF ps(1)]
        map_tl [symmetric] needs_context_def subset_iff o_def cong: map_cong)
qed

subsection \<open>The chip's transmit function as an instance of the interface\<close>

definition xmit_start :: "aq_ring_s \<Rightarrow> xmit_state" where
  "xmit_start r = (let b = buff_ring r ! unat (sw_tail r) in
     \<lparr>pkt_len = (if is_eop b \<and> is_sop b then ucast (len b) else len_pkt b),
      in_gso = False, in_vlan = False\<rparr>)"

lemma b0_xmit_spec:
  assumes "sw_tail r < ring_size r" "length (dx_ring r) = unat (ring_size r)" "n \<le> unat (ring_size r)"
    and "hw_atl_b0_hw_ring_tx_xmit hw r n = (err, hw', r')"
  shows "published r n r'" "descs r' (sw_tail r) n = txds (posted r (sw_tail r) n) (xmit_start r)"
    "sw_tail r' = slot r (sw_tail r) n"
proof -
  obtain ds where ds: "b0_xmit_loop n r (xmit_start r) = r\<lparr>dx_ring := ds, sw_tail := slot r (sw_tail r) n\<rparr>"
      "length ds = length (dx_ring r)"
      "\<And>j. j < n \<Longrightarrow> ds ! unat (slot r (sw_tail r) j) =
         txd_words (txds (posted r (sw_tail r) n) (xmit_start r) ! j)"
    using b0_xmit_loop_spec [OF assms(1-3)] by metis
  have r': "r' = b0_xmit_loop n r (xmit_start r)"
    using assms(4) by (auto simp: hw_atl_b0_hw_ring_tx_xmit_def xmit_start_def Let_def)
  show "published r n r'"
    unfolding published_def r' ds(1) using ds(2)
    by (intro exI [of _ ds] exI [of _ "ring_stats r"]) simp
  have sel: "slot r' = slot r" "dx_ring r' = ds" by (simp_all add: r' ds(1) slot_def fun_eq_iff)
  show "descs r' (sw_tail r) n = txds (posted r (sw_tail r) n) (xmit_start r)"
    by (rule nth_equalityI) (simp_all add: descs_def sel ds(3))
  show "sw_tail r' = slot r (sw_tail r) n" by (simp add: r' ds(1))
qed

lemma b0_xmit_hw:
  assumes "hw_atl_b0_hw_ring_tx_xmit hw r n = (err, hw', r')"
  shows "hw' = aq_hw_write_reg hw (HW_ATL_TX_DMA_DESC_TAIL_PTR_ADR (ring_idx r')) (sw_tail r')"
    "err = aq_hw_err_from_flags hw'"
  using assms
  by (auto simp: hw_atl_b0_hw_ring_tx_xmit_def hw_atl_b0_hw_tx_ring_tail_update_def
      hw_atl_reg_tx_dma_desc_tail_ptr_set_def Let_def)

interpretation b0_tx: tx_hw hw_atl_b0_hw_ring_tx_xmit
proof unfold_locales
  fix hw hw' :: aq_hw_s and r r' n err
  assume "hw_atl_b0_hw_ring_tx_xmit hw r n = (err, hw', r')"
  from b0_xmit_hw [OF this] show "same_sw hw hw'" "err = aq_hw_err_from_flags hw'" by simp_all
qed (fact b0_xmit_spec(1))

lemma b0_packet_descs:
  assumes "posted r (sw_tail r) n = cs @ ps" "n = length cs + length ps"
    and "length cs = (if needs_context vi s then 1 else 0)" "\<forall>b \<in> set cs. context_buff vi s b"
    and "packet e ps" "packet_data s ((l, a) # las) ps"
  shows "(needs_context vi s \<longrightarrow> chip_context vi s (hd (txds (cs @ ps) (xmit_start r)))) \<and>
    chip_data vi s (if needs_context vi s \<or> las \<noteq> [] then skb_len s - hdrs_len s else ucast l)
      ((l, a) # las) (drop (length cs) (txds (cs @ ps) (xmit_start r)))"
proof -
  have ne: "ps \<noteq> []" and l: "length ps = Suc (length las)" "len (hd ps) = l"
    using assms(5,6) by (cases ps; auto simp: packet_def packet_data_def)+
  have tail: "buff_ring r ! unat (sw_tail r) = hd (cs @ ps)"
    using posted_nth [of 0 n r "sw_tail r"] assms(1,2) ne by (simp add: hd_conv_nth)
  show ?thesis
  proof (cases "needs_context vi s")
    case True
    then obtain c where c: "cs = [c]" "context_buff vi s c"
      using assms(3,4) by (cases cs) auto
    let ?st = "context_state c (xmit_start r)"
    have gv: "is_gso c \<or> is_vlan c" using c(2) by (auto simp: context_buff_def needs_context_def)
    have st: "pkt_len ?st = skb_len s - hdrs_len s" "in_gso ?st = skb_is_gso s"
      "in_vlan ?st = (vi \<and> skb_vlan_present s)"
      using c tail by (auto simp: context_state_def xmit_start_def Let_def context_buff_def
          gso_hdrs_def hdrs_len_def)
    have "chip_data vi s (pkt_len ?st) ((l, a) # las) (txds ps ?st)"
      using assms(5,6) st(2,3) by (rule chip_data_txds)
    then show ?thesis
      using True c chip_context_txd [OF c(2)] st(1) txd_of_context_state [OF gv] by simp
  next
    case False
    then have cs: "cs = []" using assms(3) by simp
    let ?st = "xmit_start r"
    have "chip_data vi s (pkt_len ?st) ((l, a) # las) (txds ps ?st)"
      using assms(5,6) False by (intro chip_data_txds) (auto simp: xmit_start_def Let_def needs_context_def)
    moreover have "pkt_len ?st = (if las = [] then ucast l else skb_len s)"
    proof -
      have "is_sop (hd ps)" "is_eop (hd ps) \<longleftrightarrow> las = []"
        using assms(5) ne l(1) by (auto simp: packet_def hd_conv_nth)
      moreover have "las \<noteq> [] \<Longrightarrow> len_pkt (hd ps) = skb_len s"
        using assms(6) l(1) by (auto simp: packet_data_def)
      ultimately show ?thesis using tail cs l(2) by (simp add: xmit_start_def Let_def)
    qed
    moreover have "hdrs_len s = 0" using False by (auto simp: hdrs_len_def needs_context_def)
    ultimately show ?thesis using False cs by (cases "las = []") simp_all
  qed
qed

subsection \<open>Mapping and transmitting one packet\<close>

lemma b0_packet_published:
  assumes ok: "ring_ok r" and fits: "pending r + descs_needed vmk vi s < unat (ring_size r)"
    and a: "dma_answer k (dma_calls k) = Some a"
    and m: "aq_nic_map_skb vmk vi s r k = (n, r1, k1)" "n \<noteq> 0"
    and x: "hw_atl_b0_hw_ring_tx_xmit hw r1 n = (err, hw', r2)"
  obtains cs ps evs where
    "klog k1 = klog k @ Map_single a (head_map_len s) # evs"
    "map ev_tile evs = frag_tiles 0 (skb_frags s)" "n = descs_needed vmk vi s"
    "posted r1 (sw_tail r) n = cs @ ps" "length cs = (if needs_context vi s then 1 else 0)"
    "\<forall>b \<in> set cs. context_buff vi s b" "packet (ucast (slot r (sw_tail r) (n - 1))) ps"
    "packet_data s ((head_len vmk s, a) # head_pieces vmk s a @ map ev_piece evs) ps"
    "releases (cs @ ps) = head_release vmk s a @ map unmap_of evs @ [Kfree_skb (skb_ptr s)]"
    "ring_ok r2" "pending r2 = pending r + n" "owed r2 = owed r @ releases (cs @ ps)"
    "length cs + length ps = n" "ring_same r r1" "published r1 n r2" "sw_tail r2 = slot r (sw_tail r) n"
    "descs r2 (sw_tail r) n = txds (cs @ ps) (xmit_start r1)"
proof -
  note sz = ring_ok_sized [OF ok]
  have sz1: "sized r (sw_tail r)" "2 \<le> unat (ring_size r)" "descs_needed vmk vi s \<le> unat (ring_size r)"
    using sz fits by auto
  show ?thesis
  proof (rule map_skb_outcomes [OF sz1 a m(1)], goal_cases posted refused)
    case (posted cs ps evs)
    note sel = ring_same_sel [OF posted(1)]
    have w: "window r1 (sw_tail r) = (cs @ ps) @ drop n (window r (sw_tail r))" using posted(5) by simp
    have le: "pending r + n < unat (ring_size r)" using fits posted(2) by simp
    note q = b0_tx.xmit_queue [OF ok posted(1) le w _ x]
    have post: "posted r1 (sw_tail r) n = cs @ ps"
      using posted_window [of n r1 "sw_tail r"] w posted(6) le sel by simp
    have pre: "sw_tail r1 < ring_size r1" "length (dx_ring r1) = unat (ring_size r1)" "n \<le> unat (ring_size r1)"
      using ok sel le by (auto simp: ring_ok_def)
    note sp = b0_xmit_spec [OF pre x]
    have "releases cs = []" using posted(8) by (induction cs) auto
    then have rel: "releases (cs @ ps) = head_release vmk s a @ map unmap_of evs @ [Kfree_skb (skb_ptr s)]"
      using posted(11) by simp
    show ?case
      by (rule that [OF posted(3,4,2) post posted(7-10) rel _ _ _ posted(6,1) sp(1)])
        (use q posted(6) sp sel post in simp_all)
  qed (use m(2) in simp)
qed

end
