(* ===== verification/Tx_Props.thy ===== *)
theory Tx_Props
  imports B0_Tx Samples
begin

section \<open>Properties of the transmit path\<close>

text \<open>
  What \<open>aq_nic_map_skb\<close>, \<open>hw_atl_b0_hw_ring_tx_xmit\<close>, \<open>aq_nic_xmit\<close> and
  \<open>aq_ring_tx_clean\<close> guarantee together: every packet is described to the chip exactly, every
  DMA mapping is undone once, every packet is freed once, and nothing is released early.
\<close>

lemma samples_tx:
  "fst (aq_nic_map_skb False True skb0 (ring0 8 6) kern0) = 4"
  "fst (aq_nic_map_skb False True skb0 (ring0 8 6) (kern_refuse 2)) = 0"
  "descs_needed False True skb0 = 4" "needs_context True skb0" "small_pieces False skb0"
  by code_simp+

lemma samples_kern:
  "dma_answer kern0 j = Some 0x1000" "dma_answer (kern_refuse n) j = (if j < n then Some 0x1000 else None)"
  "dma_calls kern0 = 0" "dma_calls (kern_refuse n) = 0" "klog kern0 = []" "klog (kern_refuse n) = []"
  by (simp_all add: kern_refuse_def kern0_def)

lemma ring0_8: "ring_ok (ring0 8 6)" "pending (ring0 8 6) = 0"
  by (simp_all add: ring0_ok pending_def ring.gap_0_iff)

lemma ring0_posted [simp]: "posted (ring0 n p) p 0 = []"
  by simp

text \<open>
  C2: Transmitting a packet on the B0 chip. When the ring has room, a packet that
  \<open>aq_nic_map_skb\<close> accepts is described to the chip completely and exactly: the context
  descriptor, when one is needed, carries the segment size, the header lengths and the VLAN
  tag; the data descriptors carry the mapped pieces in order, the fragments tiled without a
  gap, the payload length, the offload requests, and end-of-packet with write-back on the
  last descriptor only; one register write then moves the tail past them.
\<close>

theorem b0_xmit_describes_packet:
  assumes "ring_ok r" "pending r + descs_needed vmk vi s < unat (ring_size r)"
    and "dma_answer k (dma_calls k) = Some a"
    and "aq_nic_map_skb vmk vi s r k = (n, r1, k1)" "n \<noteq> 0"
    and "hw_atl_b0_hw_ring_tx_xmit hw r1 n = (err, hw', r2)"
  shows "\<exists>evs. klog k1 = klog k @ Map_single a (head_map_len s) # evs \<and>
    map ev_tile evs = frag_tiles 0 (skb_frags s) \<and>
    (needs_context vi s \<longrightarrow> chip_context vi s (hd (descs r2 (sw_tail r) n))) \<and>
    chip_data vi s
      (if n = 1 then ucast (head_len vmk s) else skb_len s - hdrs_len s)
      ((head_len vmk s, a) # head_pieces vmk s a @ map ev_piece evs)
      (drop (if needs_context vi s then 1 else 0) (descs r2 (sw_tail r) n)) \<and>
    hw_log hw' = hw_log hw @
      [(HW_ATL_TX_DMA_DESC_TAIL_PTR_ADR (ring_idx r), slot r (sw_tail r) n)]"
proof (rule b0_packet_published [OF assms], goal_cases)
  case (1 cs ps evs)
  have sel: "sw_tail r1 = sw_tail r" "ring_idx r2 = ring_idx r"
    using ring_same_sel [OF 1(14)] 1(15) by (auto simp: published_def)
  have "posted r1 (sw_tail r1) n = cs @ ps" using 1(4) sel by simp
  note d = b0_packet_descs [OF this 1(13) [symmetric] 1(5-8)]
  have "n = 1 \<longleftrightarrow> \<not> (needs_context vi s \<or> head_pieces vmk s a @ map ev_piece evs \<noteq> [])"
    using 1(5,8,13) by (cases ps) (auto simp: packet_data_def dest: arg_cong [where f = length])
  moreover have "hw_log hw' = hw_log hw @
      [(HW_ATL_TX_DMA_DESC_TAIL_PTR_ADR (ring_idx r), slot r (sw_tail r) n)]"
    using b0_xmit_hw(1) [OF assms(6)] 1(16) sel by (simp add: aq_hw_write_reg_def writel_def)
  ultimately show ?case
    using 1(1,2,5,17) d by (intro exI [of _ evs]) auto
qed

theorem b0_xmit_describes_packet_witness:
  "\<exists>n r1 k1 err hw' r2. aq_nic_map_skb False True skb0 (ring0 8 6) kern0 = (n, r1, k1) \<and> n = 4 \<and>
     hw_atl_b0_hw_ring_tx_xmit hw0 r1 n = (err, hw', r2) \<and> chip_context True skb0 (hd (descs r2 6 n))"
proof -
  obtain n r1 k1 where m: "aq_nic_map_skb False True skb0 (ring0 8 6) kern0 = (n, r1, k1)"
    by (metis prod.exhaust)
  obtain err hw' r2 where x: "hw_atl_b0_hw_ring_tx_xmit hw0 r1 n = (err, hw', r2)"
    by (metis prod.exhaust)
  have n: "n = 4" using m samples_tx(1) by simp
  show ?thesis
    using b0_xmit_describes_packet [OF ring0_8(1) _ _ m _ x] m x n
    by (auto simp: ring0_8 samples_tx samples_kern)
qed



text \<open>
  C3: The life of a packet, on an empty ring. Map it, transmit it, let the chip send every
  descriptor, clean: the kernel has seen each mapping, then the matching unmapping of each,
  in order, then one release of the packet; and the ring is empty again.
\<close>

theorem b0_packet_life_cycle:
  assumes "ring_ok r" "sw_head r = sw_tail r" "unat (ring_size r) \<le> 65536"
    and "descs_needed vmk vi s < unat (ring_size r)" "descs_needed vmk vi s \<le> 256"
    and "dma_answer k (dma_calls k) = Some a"
    and "aq_nic_map_skb vmk vi s r k = (n, r1, k1)" "n \<noteq> 0"
    and "hw_atl_b0_hw_ring_tx_xmit hw r1 n = (err, hw', r2)"
    and "aq_ring_tx_clean (r2\<lparr>hw_head := sw_tail r2\<rparr>) k1 = (again, r3, k3)"
  shows "pending r3 = 0 \<and>
    (\<exists>ms. map ev_tile ms = frag_tiles 0 (skb_frags s) \<and>
       klog k3 = klog k @ (Map_single a (head_map_len s) # ms) @
         head_release vmk s a @ map unmap_of ms @ [Kfree_skb (skb_ptr s)])"
proof -
  have p0: "pending r = 0"
    using assms(1,2) by (simp add: pending_def ring.gap_0_iff ring_ok_def)
  then have "pending r + descs_needed vmk vi s < unat (ring_size r)" using assms(4) by simp
  then show ?thesis
  proof (rule b0_packet_published [OF assms(1) _ assms(6-9)], goal_cases)
    case (1 cs ps evs)
    let ?r = "r2\<lparr>hw_head := sw_tail r2\<rparr>"
    have sel: "sw_head r2 = sw_head r" "ring_size r2 = ring_size r" "posted r2 = posted r1" "slot r2 = slot r"
      using ring_same_sel [OF 1(14)] 1(15)
      by (auto simp: published_def posted_def slot_def fun_eq_iff)
    have r: "ring_ok ?r" "pending ?r = n" "posted ?r = posted r1" "slot ?r = slot r"
      using 1(10,11) p0 sel by (auto simp: ring_ok_def pending_def posted_def slot_def fun_eq_iff)
    have cs: "\<forall>b \<in> set cs. \<not> is_mapped b" using 1(6) by (auto simp: context_buff_def)
    have "klog k3 = klog k1 @ releases (cs @ ps)" "pending r3 = 0"
      using tx_clean_packet [OF r(1) _ _ r(2) _ _ cs _ assms(10)] assms(2,3,5) 1(3,4,7) r sel by simp_all
    then show ?case using 1(1,2,9) by auto
  qed
qed

theorem b0_packet_life_cycle_witness:
  "\<exists>n r1 k1 err hw' r2 again r3 k3. aq_nic_map_skb False True skb0 (ring0 8 6) kern0 = (n, r1, k1) \<and> n = 4 \<and>
     hw_atl_b0_hw_ring_tx_xmit hw0 r1 n = (err, hw', r2) \<and>
     aq_ring_tx_clean (r2\<lparr>hw_head := sw_tail r2\<rparr>) k1 = (again, r3, k3) \<and> pending r3 = 0"
proof -
  obtain n r1 k1 where m: "aq_nic_map_skb False True skb0 (ring0 8 6) kern0 = (n, r1, k1)"
    by (metis prod.exhaust)
  obtain err hw' r2 where x: "hw_atl_b0_hw_ring_tx_xmit hw0 r1 n = (err, hw', r2)"
    by (metis prod.exhaust)
  obtain again r3 k3 where c: "aq_ring_tx_clean (r2\<lparr>hw_head := sw_tail r2\<rparr>) k1 = (again, r3, k3)"
    by (metis prod.exhaust)
  have n: "n = 4" using m samples_tx(1) by simp
  show ?thesis
    using b0_packet_life_cycle [OF ring0_8(1) _ _ _ _ _ m _ x c] m x c n
    by (simp add: samples_tx samples_kern)
qed



text \<open>
  What happens when the very first mapping is refused for a packet that needs a context
  descriptor. \<open>aq_nic_map_skb\<close> returns 1 and not 0, so \<open>aq_nic_xmit\<close> goes on: the chip
  is given a lone context descriptor, the call reports success, and the packet is neither
  freed nor owed by the ring, it is lost.
\<close>

theorem map_skb_head_error_leaks_packet:
  assumes "ring_ok r" "pending r + 1 < unat (ring_size r)" "needs_context vi s"
    and "dma_answer k (dma_calls k) = None"
    and "aq_nic_map_skb vmk vi s r k = (n, r1, k1)"
    and "hw_atl_b0_hw_ring_tx_xmit hw r1 n = (err, hw', r2)"
  shows "n = 1 \<and> klog k1 = klog k \<and> pending r2 = pending r + 1 \<and> owed r2 = owed r"
proof -
  have sz: "sized r (sw_tail r)" "2 \<le> unat (ring_size r)" using ring_ok_sized [OF assms(1)] by auto
  note h = map_skb_head_refused [OF sz assms(4,5)]
  let ?W = "window r1 (sw_tail r)"
  have n: "n = 1" using h(1) assms(3) by simp
  have sel: "ring_size r1 = ring_size r" using ring_same_sel [OF h(2)] by simp
  have W: "?W = [?W ! 0] @ drop 1 ?W"
    using sz(2) sel by (cases ?W) (auto dest: arg_cong [where f = length])
  let ?r0 = "upd_buff r (slot r (sw_tail r) 1) (\<lambda>b. ?W ! 1)"
  have pub: "published r1 1 r2"
  proof (rule b0_tx.publishes [OF _ _ _ assms(6) [unfolded n]])
    show "sw_tail r1 < ring_size r1" "length (dx_ring r1) = unat (ring_size r1)" "1 \<le> unat (ring_size r1)"
      using assms(1) sz(2) ring_same_sel [OF h(2)] by (auto simp: ring_ok_def)
  qed
  have s0: "ring_same r ?r0" by simp
  have w0: "window ?r0 (sw_tail r) = (window r (sw_tail r))[1 := ?W ! 1]"
    by (rule window_upd [OF sz(1)]) (use sz(2) in simp)
  have r0: "ring_ok ?r0" "owed ?r0 = owed r" "pending ?r0 = pending r"
    using owed_same [OF assms(1) s0, of 2] w0 assms(2) by (simp_all add: pending_def)
  have w1: "?W = [?W ! 0] @ drop 1 (window ?r0 (sw_tail ?r0))"
  proof (rule nth_equalityI)
    show "length ?W = length ([?W ! 0] @ drop 1 (window ?r0 (sw_tail ?r0)))"
      using sz(2) sel by simp
  next
    fix i assume i: "i < length ?W"
    have "2 \<le> i \<Longrightarrow> ?W ! i = window r (sw_tail r) ! i"
      using arg_cong [OF h(4), of "\<lambda>xs. xs ! (i - 2)"] i sel
      by (cases i; cases "i - 1") simp_all
    moreover have "window ?r0 (sw_tail ?r0) ! i = (if i = 1 then ?W ! 1 else window r (sw_tail r) ! i)"
      using i sz(2) sel unfolding upd_buff_simps w0 by (simp add: nth_list_update)
    moreover have "i \<noteq> 0 \<Longrightarrow> ([?W ! 0] @ drop 1 (window ?r0 (sw_tail ?r0))) ! i = window ?r0 (sw_tail ?r0) ! i"
      using i sel by (simp add: nth_append nth_Cons')
    ultimately show "?W ! i = ([?W ! 0] @ drop 1 (window ?r0 (sw_tail ?r0))) ! i"
      by (cases "i = 0"; cases "i = 1") simp_all
  qed
  then have w1': "window r1 (sw_tail ?r0) = [?W ! 0] @ drop 1 (window ?r0 (sw_tail ?r0))"
    by (simp only: upd_buff_simps)
  have same: "ring_same ?r0 r1"
    using h(2) by (auto simp: ring_same_def upd_buff_def)
  have "owed r2 = owed ?r0 @ releases [?W ! 0]" "pending r2 = pending ?r0 + 1"
    using published_queue [OF r0(1) same pub _ w1'] assms(2) r0(3) by simp_all
  then show ?thesis
    using n h(3) h(5) [OF assms(3)] r0 by simp
qed

theorem map_skb_head_error_leaks_packet_witness:
  "\<exists>n r1 k1 err hw' r2. aq_nic_map_skb False True skb0 (ring0 8 6) (kern_refuse 0) = (n, r1, k1) \<and> n = 1 \<and>
     hw_atl_b0_hw_ring_tx_xmit hw0 r1 n = (err, hw', r2) \<and> klog k1 = [] \<and> owed r2 = owed (ring0 8 6)"
proof -
  obtain n r1 k1 where m: "aq_nic_map_skb False True skb0 (ring0 8 6) (kern_refuse 0) = (n, r1, k1)"
    by (metis prod.exhaust)
  obtain err hw' r2 where x: "hw_atl_b0_hw_ring_tx_xmit hw0 r1 n = (err, hw', r2)"
    by (metis prod.exhaust)
  show ?thesis
    using map_skb_head_error_leaks_packet [OF ring0_8(1) _ samples_tx(4) _ m x] m x
    by (auto simp: ring0_8 samples_kern)
qed

text \<open>
  C4: \<open>aq_ring_tx_clean\<close> as the dequeue of the ring's queue of releases. One call takes
  at most 256 buffers from the front, performs exactly the releases they owe, in order,
  leaves everything behind them as it was, and never goes past the hardware head; if it stops
  early it says so, and either all that was sent is cleaned or the packet at the head is not
  completely sent.
\<close>

theorem tx_clean_releases_prefix:
  assumes "ring_ok r" "aq_ring_tx_clean r k = (again, r', k')"
  shows "\<exists>n \<le> 256. owed r = releases (posted r (sw_head r) n) @ owed r' \<and>
    klog k' = klog k @ releases (posted r (sw_head r) n) \<and> ring_ok r' \<and>
    sw_head r' = slot r (sw_head r) n \<and> pending r = n + pending r' \<and>
    (n < 256 \<longrightarrow> again \<and> (sw_head r' = hw_head r \<or> held r'))"
  using tx_clean_queue [OF assms] by auto

theorem tx_clean_releases_prefix_witness:
  "\<exists>again r' k'. aq_ring_tx_clean (ring0 8 6) kern0 = (again, r', k') \<and> ring_ok r'"
proof -
  obtain again r' k' where c: "aq_ring_tx_clean (ring0 8 6) kern0 = (again, r', k')"
    by (metis prod.exhaust)
  show ?thesis using tx_clean_releases_prefix [OF ring0_8(1) c] c by auto
qed

text \<open>
  Flow control of a transmit queue. After \<open>aq_ring_update_queue_state\<close> a running
  queue has more than 32 free descriptors, and a queue is left stopped only while at most 64
  are free; free and pending descriptors together are the ring less one.
\<close>

theorem queue_state_tracks_room:
  assumes "ring_ok r" "aq_ring_update_queue_state r q = (r', q')"
  shows "(\<not> q' (ring_idx r') \<longrightarrow> pending r' + 33 < unat (ring_size r')) \<and>
    (q' (ring_idx r') \<longrightarrow> unat (ring_size r') \<le> pending r' + 65) \<and>
    (\<forall>i. i \<noteq> ring_idx r' \<longrightarrow> q' i = q i)"
proof -
  let ?a = "unat (aq_ring_avail_dx r)"
  have a: "?a + pending r = unat (ring_size r) - 1" "2 \<le> unat (ring_size r)"
    using avail_pending [OF assms(1)] ring_ok_sized [OF assms(1)] by auto
  have "(\<not> q' (ring_idx r') \<longrightarrow> 32 < ?a) \<and> (q' (ring_idx r') \<longrightarrow> ?a \<le> 64) \<and>
      (\<forall>i. i \<noteq> ring_idx r' \<longrightarrow> q' i = q i)"
    using assms(2)
    by (auto simp: aq_ring_update_queue_state_def aq_ring_queue_stop_def aq_ring_queue_wake_def
        AQ_CFG_SKB_FRAGS_MAX_def AQ_CFG_RESTART_DESC_THRES_def word_le_nat_alt word_less_nat_alt
        split: if_splits)
  then show ?thesis
    using a owed_queue_state(3,4) [OF assms(2)] by auto
qed

theorem queue_state_tracks_room_witness:
  "\<exists>r' q'. aq_ring_update_queue_state (ring0 64 60) (\<lambda>i. True) = (r', q') \<and>
     (q' (ring_idx r') \<longrightarrow> unat (ring_size r') \<le> pending r' + 65)"
proof -
  obtain r' q' where u: "aq_ring_update_queue_state (ring0 64 60) (\<lambda>i. True) = (r', q')"
    by (metis prod.exhaust)
  show ?thesis using queue_state_tracks_room [OF ring0_ok u] u by simp
qed

end
