(* ===== verification/Chip.thy ===== *)
theory Chip
  imports Llh_Ops
begin

section \<open>Programming the chip's registers\<close>

text \<open>
  What a sequence of register writes leaves in a chip that behaves as a register file: banks
  of equal registers with disjoint fields, and a small calculus that computes the final
  register contents write by write.
\<close>

subsection \<open>Banks of fields\<close>

text \<open>
  A bank: an array of registers, one per filter, each holding the same disjoint fields.
  Writing one field of one register changes that field of that register only.
\<close>

definition field_bank :: "reg_field list \<Rightarrow> u32 \<Rightarrow> nat \<Rightarrow> bool" where
  "field_bank fs B n \<longleftrightarrow> 0x14 \<le> unat B \<and> unat B + 4 * n \<le> 2 ^ 32 \<and>
     (\<forall>f \<in> set fs. f \<in> set llh_fields \<and> fld_base f = B \<and> (fld_stride f = 4 \<or> n = 1)) \<and>
     (\<forall>f \<in> set fs. \<forall>g \<in> set fs. f \<noteq> g \<longrightarrow> fld_msk f AND fld_msk g = 0)"

definition chip_hw :: "aq_hw_s \<Rightarrow> bool" where
  "chip_hw hw \<longleftrightarrow> plain_hw hw \<and> alive_adr hw = 0x10"

definition fget :: "aq_hw_s \<Rightarrow> reg_field \<Rightarrow> nat \<Rightarrow> u32" where
  "fget hw f i = fst (read_field hw f (of_nat i))"

lemma bank_adr:
  assumes "unat (B :: u32) + 4 * n \<le> 2 ^ 32" "i < n"
  shows "unat (B + of_nat i * 4) = unat B + 4 * i"
proof -
  have "unat (of_nat i * 4 :: u32) = 4 * i"
    using assms by (simp add: unat_word_ariths unsigned_of_nat take_bit_nat_eq_self)
  then show ?thesis using assms by (simp add: unat_word_ariths)
qed

lemma bank_adr_inj:
  assumes "unat (B :: u32) + 4 * n \<le> 2 ^ 32" "i < n" "j < n"
  shows "B + of_nat i * 4 = B + of_nat j * 4 \<longleftrightarrow> i = j"
  using bank_adr [OF assms(1,2)] bank_adr [OF assms(1,3)] by (metis add_left_cancel mult_cancel1 zero_neq_numeral)

lemma bank_write:
  assumes "field_bank fs B n" "f \<in> set fs" "i < n" "chip_hw hw"
  shows "chip_hw (write_field hw f (of_nat i) v)"
    and "aq_hw_err_from_flags (write_field hw f (of_nat i) v) = aq_hw_err_from_flags hw"
    and "g \<in> set fs \<Longrightarrow> j < n \<Longrightarrow> field_fits f v \<Longrightarrow>
      fget (write_field hw f (of_nat i) v) g j = (if f = g \<and> i = j then v else fget hw g j)"
    and "a \<noteq> B + of_nat i * 4 \<Longrightarrow> regs (write_field hw f (of_nat i) v) a = regs hw a"
proof -
  note b = assms(1)[unfolded field_bank_def]
  have adr: "fld_adr g (of_nat k) = B + of_nat k * 4" if "g \<in> set fs" "k < n" for g k
    using b that by (auto simp: fld_adr_def)
  have "unat (B + of_nat i * 4) = unat B + 4 * i" using b assms(3) by (intro bank_adr) auto
  then have "unat (B + of_nat i * 4) \<noteq> unat (0x10 :: u32)" using b by simp
  then have ne: "fld_adr f (of_nat i) \<noteq> alive_adr hw"
    using assms(2-4) by (auto simp: adr chip_hw_def)
  have f: "f \<in> set llh_fields" "plain_hw hw" using b assms(2,4) by (auto simp: chip_hw_def)
  note w = write_field_regs [OF f(2,1) ne]
  show "chip_hw (write_field hw f (of_nat i) v)"
    using w assms(4) by (simp add: chip_hw_def)
  show "aq_hw_err_from_flags (write_field hw f (of_nat i) v) = aq_hw_err_from_flags hw"
    using f(2) by (simp add: aq_hw_err_from_flags_def aq_utils_obj_test_def write_field_def
        aq_hw_write_reg_bit_def plain_read_reg aq_hw_write_reg_def writel_def Let_def)
  show "a \<noteq> B + of_nat i * 4 \<Longrightarrow> regs (write_field hw f (of_nat i) v) a = regs hw a"
    using w adr [OF assms(2,3)] by simp
  assume g: "g \<in> set fs" "j < n" "field_fits f v"
  show "fget (write_field hw f (of_nat i) v) g j = (if f = g \<and> i = j then v else fget hw g j)"
  proof (cases "f = g \<and> i = j")
    case True
    then show ?thesis using read_write_field [OF f(2,1) ne g(3)] by (simp add: fget_def)
  next
    case False
    have "B + of_nat i * 4 = B + of_nat j * 4 \<longleftrightarrow> i = j"
      using b assms(3) g(2) by (intro bank_adr_inj) auto
    then have "fld_msk f AND fld_msk g = 0 \<or> fld_adr g (of_nat j) \<noteq> fld_adr f (of_nat i)"
      using False b assms(2,3) g(1,2) by (auto simp: adr)
    then show ?thesis
      unfolding fget_def using False by (subst read_write_field_other [OF f(2,1) ne g(3)]) auto
  qed
qed


lemma fget_cong:
  "chip_hw hw \<Longrightarrow> chip_hw hw' \<Longrightarrow> regs hw' (fld_adr f (of_nat i)) = regs hw (fld_adr f (of_nat i)) \<Longrightarrow>
   fget hw' f i = fget hw f i"
  by (simp add: fget_def read_field_def chip_hw_def plain_read_reg_bit)

definition bank_regs :: "u32 \<Rightarrow> nat \<Rightarrow> u32 set" where
  "bank_regs B n = (\<lambda>i. B + of_nat i * 4) ` {..<n}"

lemma bank_regs_range:
  "unat B + 4 * n \<le> 2 ^ 32 \<Longrightarrow> a \<in> bank_regs B n \<Longrightarrow> unat B \<le> unat a \<and> unat a < unat B + 4 * n"
  by (auto simp: bank_regs_def bank_adr)

lemma fits_width:
  assumes "field_bank fs B n" "f \<in> set fs" "fld_width f = Some w" "unat v < 2 ^ w"
  shows "field_fits f v"
  using assms field_fits_width by (auto simp: field_bank_def)

subsection \<open>The effect of a sequence of writes\<close>

lemma chip_write_reg:
  assumes "chip_hw hw" "a \<noteq> 0x10"
  shows "chip_hw (aq_hw_write_reg hw a v)" "regs (aq_hw_write_reg hw a v) = (regs hw)(a := v)"
    "aq_hw_err_from_flags (aq_hw_write_reg hw a v) = aq_hw_err_from_flags hw"
  using assms plain_write_reg [of hw a v]
  by (auto simp: chip_hw_def aq_hw_err_from_flags_def aq_utils_obj_test_def aq_hw_write_reg_def writel_def)

lemma chip_write_field:
  assumes "chip_hw hw" "f \<in> set llh_fields" "fld_adr f i \<noteq> 0x10"
  shows "chip_hw (write_field hw f i v)"
    "regs (write_field hw f i v) = (regs hw)(fld_adr f i :=
       (regs hw (fld_adr f i) AND NOT (fld_msk f)) OR push_bit (fld_shift f) v)"
    "aq_hw_err_from_flags (write_field hw f i v) = aq_hw_err_from_flags hw"
proof -
  have p: "plain_hw hw" "fld_adr f i \<noteq> alive_adr hw" using assms by (auto simp: chip_hw_def)
  note w = write_field_regs [OF p(1) assms(2) p(2)]
  show "chip_hw (write_field hw f i v)"
    "regs (write_field hw f i v) = (regs hw)(fld_adr f i :=
       (regs hw (fld_adr f i) AND NOT (fld_msk f)) OR push_bit (fld_shift f) v)"
    using w assms(1) by (simp_all add: chip_hw_def)
  show "aq_hw_err_from_flags (write_field hw f i v) = aq_hw_err_from_flags hw"
    using p(1) by (simp add: aq_hw_err_from_flags_def aq_utils_obj_test_def write_field_def
        aq_hw_write_reg_bit_def plain_read_reg aq_hw_write_reg_def writel_def Let_def)
qed

text \<open>
  \<open>effect hw hw' r\<close>: running register writes from \<open>hw\<close> led to \<open>hw'\<close>, whose registers are \<open>r\<close>.
  The rules compute \<open>r\<close> write by write.
\<close>

definition effect :: "aq_hw_s \<Rightarrow> aq_hw_s \<Rightarrow> (u32 \<Rightarrow> u32) \<Rightarrow> bool" where
  "effect hw hw' r \<longleftrightarrow> chip_hw hw' \<and> aq_hw_err_from_flags hw' = aq_hw_err_from_flags hw \<and> regs hw' = r"

lemma effect_refl: "chip_hw hw \<Longrightarrow> effect hw hw (regs hw)"
  by (simp add: effect_def)

lemma effect_reg: "effect hw h r \<Longrightarrow> a \<noteq> 0x10 \<Longrightarrow> effect hw (aq_hw_write_reg h a v) (r(a := v))"
  by (auto simp: effect_def chip_write_reg)

definition upd_field :: "(u32 \<Rightarrow> u32) \<Rightarrow> reg_field \<Rightarrow> u32 \<Rightarrow> u32 \<Rightarrow> u32 \<Rightarrow> u32" where
  "upd_field r f i v = r(fld_adr f i := (r (fld_adr f i) AND NOT (fld_msk f)) OR push_bit (fld_shift f) v)"

lemma effect_field:
  "effect hw h r \<Longrightarrow> f \<in> set llh_fields \<Longrightarrow> fld_adr f i \<noteq> 0x10 \<Longrightarrow>
   effect hw (write_field h f i v) (upd_field r f i v)"
  by (auto simp: effect_def chip_write_field upd_field_def)

lemma upd_field_other: "x \<noteq> fld_adr f i \<Longrightarrow> upd_field r f i v x = r x"
  by (simp add: upd_field_def)

end
