(* ===== verification/Filters.thy ===== *)
theory Filters
  imports Hw_Access
begin

section \<open>Receive filters (aq_filters.c, aq_filters.h)\<close>

text \<open>
  The table of receive flow rules that ethtool manages: checking a rule, inserting, replacing
  and deleting it, the VLAN table the rules share with the VLANs the kernel has registered,
  and what is handed to the hardware for a rule.

  The functions that program the chip come through \<open>aq_hw_ops\<close>; a member that is NULL is
  \<open>None\<close>. The rules are a list in the order of the C list, a rule's node is its position.
  The build modelled is the Linux one for kernels from 4.6 on (IPv6 rules included). The
  flow specification is the kernel's \<open>ethtool_rx_flow_spec\<close>: the 52-byte union \<open>h_u\<close> is a
  list of bytes read at the offsets of its members; the tag fields are in host order.
\<close>

subsection \<open>Constants\<close>

definition TCP_V4_FLOW :: u32 where "TCP_V4_FLOW = 0x01"
definition UDP_V4_FLOW :: u32 where "UDP_V4_FLOW = 0x02"
definition SCTP_V4_FLOW :: u32 where "SCTP_V4_FLOW = 0x03"
definition TCP_V6_FLOW :: u32 where "TCP_V6_FLOW = 0x05"
definition UDP_V6_FLOW :: u32 where "UDP_V6_FLOW = 0x06"
definition SCTP_V6_FLOW :: u32 where "SCTP_V6_FLOW = 0x07"
definition IP_USER_FLOW :: u32 where "IP_USER_FLOW = 0x0d"
definition IPV6_USER_FLOW :: u32 where "IPV6_USER_FLOW = 0x0e"
definition IPV4_FLOW :: u32 where "IPV4_FLOW = 0x10"
definition IPV6_FLOW :: u32 where "IPV6_FLOW = 0x11"
definition ETHER_FLOW :: u32 where "ETHER_FLOW = 0x12"
definition FLOW_EXT :: u32 where "FLOW_EXT = 0x80000000"
definition FLOW_MAC_EXT :: u32 where "FLOW_MAC_EXT = 0x40000000"

lemmas flow_defs = TCP_V4_FLOW_def UDP_V4_FLOW_def SCTP_V4_FLOW_def TCP_V6_FLOW_def
  UDP_V6_FLOW_def SCTP_V6_FLOW_def IP_USER_FLOW_def IPV6_USER_FLOW_def IPV4_FLOW_def
  IPV6_FLOW_def ETHER_FLOW_def FLOW_EXT_def FLOW_MAC_EXT_def

definition RX_CLS_FLOW_DISC :: u64 where "RX_CLS_FLOW_DISC = 0xffffffffffffffff"
definition VLAN_PRIO_MASK :: u16 where "VLAN_PRIO_MASK = 0xe000"
definition VLAN_PRIO_SHIFT :: nat where "VLAN_PRIO_SHIFT = 13"
definition VLAN_VID_MASK :: u16 where "VLAN_VID_MASK = 0x0fff"
definition VLAN_N_VID :: nat where "VLAN_N_VID = 4096"

definition AQ_RX_FIRST_LOC_FVLANID :: u32 where "AQ_RX_FIRST_LOC_FVLANID = 0"
definition AQ_RX_LAST_LOC_FVLANID :: u32 where "AQ_RX_LAST_LOC_FVLANID = 15"
definition AQ_RX_FIRST_LOC_FETHERT :: u32 where "AQ_RX_FIRST_LOC_FETHERT = 16"
definition AQ_RX_LAST_LOC_FETHERT :: u32 where "AQ_RX_LAST_LOC_FETHERT = 31"
definition AQ_RX_FIRST_LOC_FL3L4 :: u32 where "AQ_RX_FIRST_LOC_FL3L4 = 32"
definition AQ_RX_LAST_LOC_FL3L4 :: u32 where "AQ_RX_LAST_LOC_FL3L4 = 39"
definition AQ_RX_MAX_RXNFC_LOC :: u32 where "AQ_RX_MAX_RXNFC_LOC = AQ_RX_LAST_LOC_FL3L4"
definition AQ_RX_QUEUE_INVALID :: u8 where "AQ_RX_QUEUE_INVALID = 0xFF"
definition HW_ATL_VLAN_MAX_FILTERS :: nat where "HW_ATL_VLAN_MAX_FILTERS = 16"

lemmas loc_defs = AQ_RX_FIRST_LOC_FVLANID_def AQ_RX_LAST_LOC_FVLANID_def
  AQ_RX_FIRST_LOC_FETHERT_def AQ_RX_LAST_LOC_FETHERT_def AQ_RX_FIRST_LOC_FL3L4_def
  AQ_RX_LAST_LOC_FL3L4_def AQ_RX_MAX_RXNFC_LOC_def

definition HW_ATL_RX_DISCARD :: u32 where "HW_ATL_RX_DISCARD = 0"
definition HW_ATL_RX_HOST :: u32 where "HW_ATL_RX_HOST = 1"
definition HW_ATL_RX_UDP :: u32 where "HW_ATL_RX_UDP = 1"
definition HW_ATL_RX_SCTP :: u32 where "HW_ATL_RX_SCTP = 2"
definition HW_ATL_RX_ENABLE_QUEUE_L3L4 :: u32 where "HW_ATL_RX_ENABLE_QUEUE_L3L4 = BIT 23"
definition HW_ATL_RX_ENABLE_CMP_PROT_L4 :: u32 where "HW_ATL_RX_ENABLE_CMP_PROT_L4 = BIT 25"
definition HW_ATL_RX_ENABLE_CMP_DEST_PORT_L4 :: u32 where "HW_ATL_RX_ENABLE_CMP_DEST_PORT_L4 = BIT 26"
definition HW_ATL_RX_ENABLE_CMP_SRC_PORT_L4 :: u32 where "HW_ATL_RX_ENABLE_CMP_SRC_PORT_L4 = BIT 27"
definition HW_ATL_RX_ENABLE_CMP_DEST_ADDR_L3 :: u32 where "HW_ATL_RX_ENABLE_CMP_DEST_ADDR_L3 = BIT 28"
definition HW_ATL_RX_ENABLE_CMP_SRC_ADDR_L3 :: u32 where "HW_ATL_RX_ENABLE_CMP_SRC_ADDR_L3 = BIT 29"
definition HW_ATL_RX_ENABLE_L3_IPv6 :: u32 where "HW_ATL_RX_ENABLE_L3_IPv6 = BIT 30"
definition HW_ATL_RX_ENABLE_FLTR_L3L4 :: u32 where "HW_ATL_RX_ENABLE_FLTR_L3L4 = BIT 31"
definition HW_ATL_RX_BOFFSET_QUEUE_FL3L4 :: nat where "HW_ATL_RX_BOFFSET_QUEUE_FL3L4 = 8"
definition HW_ATL_RX_BOFFSET_ACTION_FL3F4 :: nat where "HW_ATL_RX_BOFFSET_ACTION_FL3F4 = 16"
definition HW_ATL_RX_CNT_REG_ADDR_IPV6 :: nat where "HW_ATL_RX_CNT_REG_ADDR_IPV6 = 4"

subsection \<open>State\<close>

record ethtool_flow_ext =
  ext_h_dest :: "u8 list"
  vlan_etype :: u16
  vlan_tci :: u16
  ext_data :: "u32 \<times> u32"

record ethtool_rx_flow_spec =
  flow_type :: u32
  h_u :: "u8 list"
  h_ext :: ethtool_flow_ext
  m_u :: "u8 list"
  m_ext :: ethtool_flow_ext
  ring_cookie :: u64
  location :: u32

definition be16 :: "u8 list \<Rightarrow> nat \<Rightarrow> u16" where
  "be16 bs i = push_bit 8 (ucast (bs ! i)) OR ucast (bs ! (i + 1))"

definition be32 :: "u8 list \<Rightarrow> nat \<Rightarrow> u32" where
  "be32 bs i = push_bit 16 (ucast (be16 bs i)) OR ucast (be16 bs (i + 2))"

text \<open>The members of the union \<open>h_u\<close> the driver reads.\<close>

definition ether_h_proto :: "u8 list \<Rightarrow> u16" where "ether_h_proto u = be16 u 12"
definition ip4src :: "u8 list \<Rightarrow> u32" where "ip4src u = be32 u 0"
definition ip4dst :: "u8 list \<Rightarrow> u32" where "ip4dst u = be32 u 4"
definition ip4_psrc :: "u8 list \<Rightarrow> u16" where "ip4_psrc u = be16 u 8"
definition ip4_pdst :: "u8 list \<Rightarrow> u16" where "ip4_pdst u = be16 u 10"
definition ip4_tos :: "u8 list \<Rightarrow> u8" where "ip4_tos u = u ! 12"
definition usr_ip4_proto :: "u8 list \<Rightarrow> u8" where "usr_ip4_proto u = u ! 14"
definition ip6src :: "u8 list \<Rightarrow> nat \<Rightarrow> u32" where "ip6src u i = be32 u (4 * i)"
definition ip6dst :: "u8 list \<Rightarrow> nat \<Rightarrow> u32" where "ip6dst u i = be32 u (16 + 4 * i)"
definition ip6_psrc :: "u8 list \<Rightarrow> u16" where "ip6_psrc u = be16 u 32"
definition ip6_pdst :: "u8 list \<Rightarrow> u16" where "ip6_pdst u = be16 u 34"
definition ip6_tclass :: "u8 list \<Rightarrow> u8" where "ip6_tclass u = u ! 36"
definition usr_ip6_proto :: "u8 list \<Rightarrow> u8" where "usr_ip6_proto u = u ! 37"

datatype aq_rx_filter_type = aq_rx_filter_ethertype | aq_rx_filter_vlan | aq_rx_filter_l3l4

record aq_rx_filter =
  rule_type :: aq_rx_filter_type
  aq_fsp :: ethtool_rx_flow_spec

record aq_rx_filter_vlan_s =
  vf_enable :: bool
  vf_location :: u8
  vlan_id :: u16
  vf_queue :: u8

record aq_rx_filter_l2 =
  l2_queue :: "8 word"
  l2_location :: u8
  user_priority_en :: bool
  user_priority :: u8
  ethertype :: u16

record aq_rx_filter_l3l4_s =
  l3_cmd :: u32
  l3_location :: u8
  ip_dst :: "u32 list"
  ip_src :: "u32 list"
  p_dst :: u16
  p_src :: u16
  l3_is_ipv6 :: bool

record aq_hw_rx_fltrs_s =
  filter_list :: "aq_rx_filter list"
  active_filters :: u16
  aq_vlans :: "aq_rx_filter_vlan_s list"
  active_ipv4 :: u8
  active_ipv6 :: "2 word"
  fl_is_ipv6 :: bool

text \<open>The members of \<open>aq_hw_ops\<close> this file uses.\<close>

record filter_ops =
  hw_filter_l2_set :: "(aq_hw_s \<Rightarrow> aq_rx_filter_l2 \<Rightarrow> int \<times> aq_hw_s) option"
  hw_filter_l2_clear :: "(aq_hw_s \<Rightarrow> aq_rx_filter_l2 \<Rightarrow> int \<times> aq_hw_s) option"
  hw_filter_l3l4_set :: "(aq_hw_s \<Rightarrow> aq_rx_filter_l3l4_s \<Rightarrow> int \<times> aq_hw_s) option"
  hw_filter_vlan_set :: "(aq_hw_s \<Rightarrow> aq_rx_filter_vlan_s list \<Rightarrow> int \<times> aq_hw_s) option"
  hw_filter_vlan_ctrl :: "(aq_hw_s \<Rightarrow> bool \<Rightarrow> int \<times> aq_hw_s) option"

text \<open>
  The part of \<open>aq_nic_s\<close> the filters use: the hardware context, the filters, the bitmap of
  VLANs registered by the kernel, and the feature flags of the network device.
\<close>

record filter_nic =
  flt_hw :: aq_hw_s
  rx_fltrs :: aq_hw_rx_fltrs_s
  active_vlans :: "nat \<Rightarrow> bool"
  ntuple_on :: bool
  vlan_filter_on :: bool
  online_cpus :: u32


subsection \<open>Checking a rule\<close>

definition aq_rule_is_approve :: "ethtool_rx_flow_spec \<Rightarrow> bool" where
  "aq_rule_is_approve fsp =
     (if flow_type fsp AND FLOW_MAC_EXT \<noteq> 0 then False
      else let t = flow_type fsp AND NOT FLOW_EXT in
        if t \<in> {ETHER_FLOW, TCP_V4_FLOW, UDP_V4_FLOW, SCTP_V4_FLOW, TCP_V6_FLOW, UDP_V6_FLOW,
                SCTP_V6_FLOW, IPV4_FLOW, IPV6_FLOW} then True
        else if t = IP_USER_FLOW then usr_ip4_proto (h_u fsp) \<in> {6, 17, 132, 0}
        else if t = IPV6_USER_FLOW then usr_ip6_proto (h_u fsp) \<in> {6, 17, 132, 0}
        else False)"

definition aq_match_filter :: "ethtool_rx_flow_spec \<Rightarrow> ethtool_rx_flow_spec \<Rightarrow> bool" where
  "aq_match_filter fsp1 fsp2 \<longleftrightarrow> flow_type fsp1 = flow_type fsp2 \<and> h_u fsp1 = h_u fsp2 \<and>
     h_ext fsp1 = h_ext fsp2 \<and> m_u fsp1 = m_u fsp2 \<and> m_ext fsp1 = m_ext fsp2"

definition aq_rule_already_exists :: "filter_nic \<Rightarrow> ethtool_rx_flow_spec \<Rightarrow> bool" where
  "aq_rule_already_exists nic fsp \<longleftrightarrow>
     list_ex (\<lambda>rule. location (aq_fsp rule) \<noteq> location fsp \<and> aq_match_filter (aq_fsp rule) fsp)
       (filter_list (rx_fltrs nic))"

definition aq_check_approve_fl3l4 ::
  "aq_hw_rx_fltrs_s \<Rightarrow> ethtool_rx_flow_spec \<Rightarrow> int \<times> aq_hw_rx_fltrs_s" where
  "aq_check_approve_fl3l4 fl fsp =
     (if fl_is_ipv6 fl \<and> active_ipv4 fl \<noteq> 0 then (- EINVAL, fl\<lparr>fl_is_ipv6 := False\<rparr>)
      else if \<not> fl_is_ipv6 fl \<and> active_ipv6 fl \<noteq> 0 then (- EINVAL, fl\<lparr>fl_is_ipv6 := True\<rparr>)
      else if fl_is_ipv6 fl \<and> location fsp \<noteq> AQ_RX_FIRST_LOC_FL3L4 + 4 \<and>
              location fsp \<noteq> AQ_RX_FIRST_LOC_FL3L4
      then (- EINVAL, fl)
      else (0, fl))"

definition aq_check_approve_fl2 :: "ethtool_rx_flow_spec \<Rightarrow> int" where
  "aq_check_approve_fl2 fsp =
     (if location fsp < AQ_RX_FIRST_LOC_FETHERT \<or> location fsp > AQ_RX_LAST_LOC_FETHERT then - EINVAL
      else if vlan_tci (m_ext fsp) = VLAN_PRIO_MASK \<and> ether_h_proto (m_u fsp) = 0 then - EINVAL
      else 0)"

definition aq_check_approve_fvlan :: "filter_nic \<Rightarrow> ethtool_rx_flow_spec \<Rightarrow> int" where
  "aq_check_approve_fvlan nic fsp =
     (if location fsp < AQ_RX_FIRST_LOC_FVLANID \<or> location fsp > AQ_RX_LAST_LOC_FVLANID then - EINVAL
      else if \<not> active_vlans nic (unat (vlan_tci (h_ext fsp))) then - EINVAL
      else if ring_cookie fsp > ucast (num_rss_queues (aq_nic_cfg (flt_hw nic))) then - EINVAL
      else 0)"

definition aq_check_filter :: "filter_nic \<Rightarrow> ethtool_rx_flow_spec \<Rightarrow> int \<times> filter_nic" where
  "aq_check_filter nic fsp =
     (if flow_type fsp AND FLOW_EXT \<noteq> 0 then
        (if vlan_tci (m_ext fsp) = VLAN_VID_MASK then (aq_check_approve_fvlan nic fsp, nic)
         else if vlan_tci (m_ext fsp) = VLAN_PRIO_MASK then (aq_check_approve_fl2 fsp, nic)
         else (- EINVAL, nic))
      else
        let t = flow_type fsp AND NOT FLOW_EXT in
        if t = ETHER_FLOW then (aq_check_approve_fl2 fsp, nic)
        else if t \<in> {TCP_V4_FLOW, UDP_V4_FLOW, SCTP_V4_FLOW, IPV4_FLOW, IP_USER_FLOW} then
          let (err, fl) = aq_check_approve_fl3l4 ((rx_fltrs nic)\<lparr>fl_is_ipv6 := False\<rparr>) fsp
          in (err, nic\<lparr>rx_fltrs := fl\<rparr>)
        else if t \<in> {TCP_V6_FLOW, UDP_V6_FLOW, SCTP_V6_FLOW, IPV6_FLOW, IPV6_USER_FLOW} then
          let (err, fl) = aq_check_approve_fl3l4 ((rx_fltrs nic)\<lparr>fl_is_ipv6 := True\<rparr>) fsp
          in (err, nic\<lparr>rx_fltrs := fl\<rparr>)
        else (- EINVAL, nic))"

definition aq_rule_is_not_support :: "filter_nic \<Rightarrow> ethtool_rx_flow_spec \<Rightarrow> bool" where
  "aq_rule_is_not_support nic fsp =
     (if \<not> ntuple_on nic then True
      else if (vlan_tci (h_ext fsp) \<noteq> 0 \<or> vlan_etype (h_ext fsp) \<noteq> 0) \<and> \<not> vlan_filter_on nic then True
      else if \<not> aq_rule_is_approve fsp then True
      else if flow_type fsp AND NOT FLOW_EXT \<noteq> ETHER_FLOW then
        ip4_tos (h_u fsp) \<noteq> 0 \<or> ip6_tclass (h_u fsp) \<noteq> 0
      else False)"

definition aq_rule_is_not_correct :: "filter_nic \<Rightarrow> ethtool_rx_flow_spec \<Rightarrow> bool \<times> filter_nic" where
  "aq_rule_is_not_correct nic fsp =
     (if flow_type fsp AND FLOW_MAC_EXT \<noteq> 0 then (True, nic)
      else if location fsp > AQ_RX_MAX_RXNFC_LOC then (True, nic)
      else case aq_check_filter nic fsp of (err, nic) \<Rightarrow>
        if err \<noteq> 0 then (True, nic)
        else if ring_cookie fsp \<noteq> RX_CLS_FLOW_DISC
        then (ring_cookie fsp \<ge> ucast (online_cpus nic), nic)
        else (False, nic))"

definition aq_check_rule :: "filter_nic \<Rightarrow> ethtool_rx_flow_spec \<Rightarrow> int \<times> filter_nic" where
  "aq_check_rule nic fsp =
     (case aq_rule_is_not_correct nic fsp of (bad, nic) \<Rightarrow>
        if bad then (- EINVAL, nic)
        else if aq_rule_is_not_support nic fsp then (- EOPNOTSUPP, nic)
        else if aq_rule_already_exists nic fsp then (- EEXIST, nic)
        else (0, nic))"

subsection \<open>Ethertype rules\<close>

definition aq_set_data_fl2 :: "aq_rx_filter \<Rightarrow> aq_rx_filter_l2" where
  "aq_set_data_fl2 rule =
     (let fsp = aq_fsp rule in
      \<lparr>l2_queue = (if ring_cookie fsp \<noteq> RX_CLS_FLOW_DISC then ucast (ring_cookie fsp) else - 1),
       l2_location = ucast (location fsp - AQ_RX_FIRST_LOC_FETHERT),
       user_priority_en = vlan_tci (m_ext fsp) = VLAN_PRIO_MASK,
       user_priority = ucast (drop_bit VLAN_PRIO_SHIFT (vlan_tci (h_ext fsp) AND VLAN_PRIO_MASK)),
       ethertype = ether_h_proto (h_u fsp)\<rparr>)"

definition aq_add_del_fether :: "filter_ops \<Rightarrow> filter_nic \<Rightarrow> aq_rx_filter \<Rightarrow> bool \<Rightarrow> int \<times> filter_nic" where
  "aq_add_del_fether ops nic rule add =
     (let d = aq_set_data_fl2 rule in
      case (hw_filter_l2_set ops, hw_filter_l2_clear ops) of
        (Some set_l2, Some clear_l2) \<Rightarrow>
          let (err, hw) = (if add then set_l2 (flt_hw nic) d else clear_l2 (flt_hw nic) d)
          in (err, nic\<lparr>flt_hw := hw\<rparr>)
      | _ \<Rightarrow> (- EOPNOTSUPP, nic))"

subsection \<open>The VLAN table\<close>

definition find_next_bit :: "(nat \<Rightarrow> bool) \<Rightarrow> nat \<Rightarrow> nat \<Rightarrow> nat" where
  "find_next_bit bm n off = (case find bm [off..<n] of Some k \<Rightarrow> k | None \<Rightarrow> n)"

definition vlan_pinned :: "aq_rx_filter_vlan_s \<Rightarrow> bool" where
  "vlan_pinned v \<longleftrightarrow> vf_enable v \<and> vf_queue v \<noteq> AQ_RX_QUEUE_INVALID"

definition vlan_busy :: "aq_rx_filter_vlan_s list \<Rightarrow> nat \<Rightarrow> bool" where
  "vlan_busy vl vlan \<longleftrightarrow> list_ex (\<lambda>v. vlan_pinned v \<and> unat (vlan_id v) = vlan) vl"

definition vlan_none :: "aq_rx_filter_vlan_s \<Rightarrow> aq_rx_filter_vlan_s" where
  "vlan_none v = v\<lparr>vf_enable := False, vf_queue := AQ_RX_QUEUE_INVALID, vlan_id := 0\<rparr>"

definition vlan_entry :: "nat \<Rightarrow> aq_rx_filter_vlan_s \<Rightarrow> aq_rx_filter_vlan_s" where
  "vlan_entry vlan v = v\<lparr>vf_enable := True, vf_queue := AQ_RX_QUEUE_INVALID, vlan_id := of_nat vlan\<rparr>"

lemma find_next_bit_found:
  "find_next_bit bm n off \<noteq> n \<Longrightarrow> off \<le> find_next_bit bm n off \<and> find_next_bit bm n off < n"
  by (auto simp: find_next_bit_def find_Some_iff split: option.splits)

text \<open>
  The inner loop of \<open>aq_fvlan_rebuild\<close>, for slot \<open>i\<close>. \<open>vlan\<close> is the last VLAN looked
  at, -1 at first and 4096 when there are no more.
\<close>

function fvlan_pick :: "(nat \<Rightarrow> bool) \<Rightarrow> nat \<Rightarrow> aq_rx_filter_vlan_s list \<Rightarrow> int \<Rightarrow>
    aq_rx_filter_vlan_s list \<times> int" where
  "fvlan_pick bm i vl vlan =
     (let next = (if vlan \<noteq> int VLAN_N_VID
                  then int (find_next_bit bm VLAN_N_VID (nat (vlan + 1))) else vlan) in
      if next = int VLAN_N_VID then (vl[i := vlan_none (vl ! i)], next)
      else if vlan_busy vl (nat next) then fvlan_pick bm i vl next
      else (vl[i := vlan_entry (nat next) (vl ! i)], next))"
  by pat_completeness auto
termination
proof (relation "measure (\<lambda>(bm, i, vl, vlan). nat (int VLAN_N_VID - vlan))", goal_cases)
  case (2 bm i vl vlan x)
  then have "find_next_bit bm VLAN_N_VID (nat (vlan + 1)) \<noteq> VLAN_N_VID"
      "x = int (find_next_bit bm VLAN_N_VID (nat (vlan + 1)))"
    by (auto split: if_splits)
  with find_next_bit_found [OF this(1)] show ?case by auto
qed simp

declare fvlan_pick.simps [simp del]

definition fvlan_slot :: "(nat \<Rightarrow> bool) \<Rightarrow> nat \<Rightarrow> aq_rx_filter_vlan_s list \<times> int \<Rightarrow>
    aq_rx_filter_vlan_s list \<times> int" where
  "fvlan_slot bm i = (\<lambda>(vl, vlan).
     if \<not> vf_enable (vl ! i) \<or> vf_queue (vl ! i) = AQ_RX_QUEUE_INVALID
     then fvlan_pick bm i vl vlan else (vl, vlan))"

definition aq_fvlan_rebuild :: "(nat \<Rightarrow> bool) \<Rightarrow> aq_rx_filter_vlan_s list \<Rightarrow> aq_rx_filter_vlan_s list" where
  "aq_fvlan_rebuild bm vl = fst (fold (fvlan_slot bm) [0..<HW_ATL_VLAN_MAX_FILTERS] (vl, - 1))"

definition hweight :: "(nat \<Rightarrow> bool) \<Rightarrow> nat" where
  "hweight bm = length (filter bm [0..<VLAN_N_VID])"

definition aq_filters_vlans_update :: "filter_ops \<Rightarrow> filter_nic \<Rightarrow> int \<times> filter_nic" where
  "aq_filters_vlans_update ops nic =
     (case (hw_filter_vlan_set ops, hw_filter_vlan_ctrl ops) of
        (Some set_vlan, Some ctrl_vlan) \<Rightarrow>
          let vl = aq_fvlan_rebuild (active_vlans nic) (aq_vlans (rx_fltrs nic));
              nic = nic\<lparr>rx_fltrs := (rx_fltrs nic)\<lparr>aq_vlans := vl\<rparr>\<rparr>;
              weight = hweight (active_vlans nic);
              (err, hw) = ctrl_vlan (flt_hw nic) False;
              nic = nic\<lparr>flt_hw := hw\<rparr>
          in if err \<noteq> 0 then (err, nic)
             else let (err, hw) = set_vlan (flt_hw nic) vl; nic = nic\<lparr>flt_hw := hw\<rparr> in
               if err \<noteq> 0 then (err, nic)
               else if weight \<le> HW_ATL_VLAN_MAX_FILTERS
               then let (err, hw) = ctrl_vlan (flt_hw nic) True in (err, nic\<lparr>flt_hw := hw\<rparr>)
               else (err, nic)
      | _ \<Rightarrow> (- EOPNOTSUPP, nic))"

definition vlan_zero :: aq_rx_filter_vlan_s where
  "vlan_zero = \<lparr>vf_enable = False, vf_location = 0, vlan_id = 0, vf_queue = 0\<rparr>"

definition aq_set_data_fvlan ::
  "aq_rx_filter \<Rightarrow> aq_rx_filter_vlan_s list \<Rightarrow> bool \<Rightarrow> aq_rx_filter_vlan_s list" where
  "aq_set_data_fvlan rule vl add =
     (let fsp = aq_fsp rule;
          loc = unat (location fsp - AQ_RX_FIRST_LOC_FVLANID);
          vid = vlan_tci (h_ext fsp) AND VLAN_VID_MASK;
          vl = vl[loc := vlan_zero]
      in if \<not> add then vl
         else let vl = map (\<lambda>v. if vlan_id v = vid then v\<lparr>vf_enable := False\<rparr> else v) vl in
           vl[loc := (vl ! loc)\<lparr>vf_location := of_nat loc, vlan_id := vid,
                vf_queue := ucast (ring_cookie fsp AND 0x1F), vf_enable := True\<rparr>])"

definition aq_add_del_fvlan :: "filter_ops \<Rightarrow> filter_nic \<Rightarrow> aq_rx_filter \<Rightarrow> bool \<Rightarrow> int \<times> filter_nic" where
  "aq_add_del_fvlan ops nic rule add =
     (if hw_filter_vlan_set ops = None then (- EOPNOTSUPP, nic)
      else aq_filters_vlans_update ops
        (nic\<lparr>rx_fltrs := (rx_fltrs nic)
           \<lparr>aq_vlans := aq_set_data_fvlan rule (aq_vlans (rx_fltrs nic)) add\<rparr>\<rparr>))"

subsection \<open>Layer 3 and 4 rules\<close>

definition l3l4_zero :: aq_rx_filter_l3l4_s where
  "l3l4_zero = \<lparr>l3_cmd = 0, l3_location = 0, ip_dst = [0, 0, 0, 0], ip_src = [0, 0, 0, 0],
     p_dst = 0, p_src = 0, l3_is_ipv6 = False\<rparr>"

definition or_cmd :: "u32 \<Rightarrow> aq_rx_filter_l3l4_s \<Rightarrow> aq_rx_filter_l3l4_s" where
  "or_cmd m d = d\<lparr>l3_cmd := l3_cmd d OR m\<rparr>"

definition upd_if :: "bool \<Rightarrow> ('a \<Rightarrow> 'a) \<Rightarrow> 'a \<Rightarrow> 'a" where
  "upd_if b f x = (if b then f x else x)"

text \<open>
  The stages of \<open>aq_set_data_fl3l4\<close> for a rule that is added: the protocol, the addresses,
  the ports, which of them to compare, and the action.
\<close>

definition l3l4_proto :: "u32 \<Rightarrow> aq_rx_filter_l3l4_s \<Rightarrow> aq_rx_filter_l3l4_s" where
  "l3l4_proto t d =
     (if t \<in> {TCP_V4_FLOW, TCP_V6_FLOW} then or_cmd HW_ATL_RX_ENABLE_CMP_PROT_L4 d
      else if t \<in> {UDP_V4_FLOW, UDP_V6_FLOW}
      then or_cmd HW_ATL_RX_ENABLE_CMP_PROT_L4 (or_cmd HW_ATL_RX_UDP d)
      else if t \<in> {SCTP_V4_FLOW, SCTP_V6_FLOW}
      then or_cmd HW_ATL_RX_ENABLE_CMP_PROT_L4 (or_cmd HW_ATL_RX_SCTP d)
      else d)"

definition l3l4_addrs :: "bool \<Rightarrow> u8 list \<Rightarrow> aq_rx_filter_l3l4_s \<Rightarrow> aq_rx_filter_l3l4_s" where
  "l3l4_addrs v6 u d =
     (if \<not> v6 then d\<lparr>ip_src := (ip_src d)[0 := ip4src u], ip_dst := (ip_dst d)[0 := ip4dst u]\<rparr>
      else or_cmd HW_ATL_RX_ENABLE_L3_IPv6
        (d\<lparr>ip_dst := map (ip6dst u) [0..<HW_ATL_RX_CNT_REG_ADDR_IPV6],
           ip_src := map (ip6src u) [0..<HW_ATL_RX_CNT_REG_ADDR_IPV6]\<rparr>))"

definition l3l4_ports :: "u32 \<Rightarrow> u8 list \<Rightarrow> aq_rx_filter_l3l4_s \<Rightarrow> aq_rx_filter_l3l4_s" where
  "l3l4_ports t u d =
     upd_if (t \<in> {TCP_V6_FLOW, UDP_V6_FLOW, SCTP_V6_FLOW})
       (\<lambda>d. d\<lparr>p_dst := ip6_pdst u, p_src := ip6_psrc u\<rparr>)
       (upd_if (t \<in> {TCP_V4_FLOW, UDP_V4_FLOW, SCTP_V4_FLOW})
         (\<lambda>d. d\<lparr>p_dst := ip4_pdst u, p_src := ip4_psrc u\<rparr>) d)"

definition l3l4_compare :: "bool \<Rightarrow> aq_rx_filter_l3l4_s \<Rightarrow> aq_rx_filter_l3l4_s" where
  "l3l4_compare v6 d =
     (let d = upd_if (ip_src d ! 0 \<noteq> 0 \<and> \<not> v6) (or_cmd HW_ATL_RX_ENABLE_CMP_SRC_ADDR_L3) d;
          d = upd_if (ip_dst d ! 0 \<noteq> 0 \<and> \<not> v6) (or_cmd HW_ATL_RX_ENABLE_CMP_DEST_ADDR_L3) d;
          d = upd_if (p_dst d \<noteq> 0) (or_cmd HW_ATL_RX_ENABLE_CMP_DEST_PORT_L4) d
      in upd_if (p_src d \<noteq> 0) (or_cmd HW_ATL_RX_ENABLE_CMP_SRC_PORT_L4) d)"

definition l3l4_action :: "u64 \<Rightarrow> aq_rx_filter_l3l4_s \<Rightarrow> aq_rx_filter_l3l4_s" where
  "l3l4_action cookie d =
     (if cookie \<noteq> RX_CLS_FLOW_DISC
      then or_cmd HW_ATL_RX_ENABLE_QUEUE_L3L4
        (or_cmd (ucast (push_bit HW_ATL_RX_BOFFSET_QUEUE_FL3L4 cookie))
          (or_cmd (push_bit HW_ATL_RX_BOFFSET_ACTION_FL3F4 HW_ATL_RX_HOST) d))
      else or_cmd (push_bit HW_ATL_RX_BOFFSET_ACTION_FL3F4 HW_ATL_RX_DISCARD) d)"

definition aq_set_data_fl3l4 ::
  "aq_hw_rx_fltrs_s \<Rightarrow> aq_rx_filter \<Rightarrow> bool \<Rightarrow> aq_rx_filter_l3l4_s \<times> aq_hw_rx_fltrs_s" where
  "aq_set_data_fl3l4 fl rule add =
     (let fsp = aq_fsp rule; t = flow_type fsp; u = h_u fsp; v6 = fl_is_ipv6 fl;
          loc = unat (ucast (location fsp - AQ_RX_FIRST_LOC_FL3L4) :: u8);
          d = l3l4_zero\<lparr>l3_is_ipv6 := v6, l3_location := of_nat loc\<rparr>
      in if \<not> add then
           (d, if \<not> v6 then fl\<lparr>active_ipv4 := active_ipv4 fl AND NOT (ucast (BIT loc))\<rparr>
               else fl\<lparr>active_ipv6 := active_ipv6 fl AND NOT (ucast (BIT (loc div 4)))\<rparr>)
         else
           (l3l4_action (ring_cookie fsp) (l3l4_compare v6 (l3l4_ports t u (l3l4_addrs v6 u
              (l3l4_proto t (or_cmd HW_ATL_RX_ENABLE_FLTR_L3L4 d))))),
            if \<not> v6 then fl\<lparr>active_ipv4 := active_ipv4 fl OR ucast (BIT loc)\<rparr>
            else fl\<lparr>active_ipv6 := active_ipv6 fl OR ucast (BIT (loc div 4))\<rparr>))"

definition aq_set_fl3l4 :: "filter_ops \<Rightarrow> aq_hw_s \<Rightarrow> aq_rx_filter_l3l4_s \<Rightarrow> int \<times> aq_hw_s" where
  "aq_set_fl3l4 ops hw d =
     (case hw_filter_l3l4_set ops of None \<Rightarrow> (- EOPNOTSUPP, hw) | Some set_l3 \<Rightarrow> set_l3 hw d)"

definition aq_add_del_fl3l4 :: "filter_ops \<Rightarrow> filter_nic \<Rightarrow> aq_rx_filter \<Rightarrow> bool \<Rightarrow> int \<times> filter_nic" where
  "aq_add_del_fl3l4 ops nic rule add =
     (let loc = location (aq_fsp rule) in
      if loc < AQ_RX_FIRST_LOC_FL3L4 \<or> loc > AQ_RX_LAST_LOC_FL3L4 then (- EINVAL, nic)
      else case aq_set_data_fl3l4 (rx_fltrs nic) rule add of (d, fl) \<Rightarrow>
        let (err, hw) = aq_set_fl3l4 ops (flt_hw nic) d
        in (err, nic\<lparr>rx_fltrs := fl, flt_hw := hw\<rparr>))"

subsection \<open>The rule table\<close>

text \<open>\<open>aq_add_del_rule\<close> also records the type of the rule in the rule itself.\<close>

definition aq_add_del_rule ::
  "filter_ops \<Rightarrow> filter_nic \<Rightarrow> aq_rx_filter \<Rightarrow> bool \<Rightarrow> int \<times> aq_rx_filter \<times> filter_nic" where
  "aq_add_del_rule ops nic rule add =
     (let fsp = aq_fsp rule in
      if flow_type fsp AND FLOW_EXT \<noteq> 0 then
        (if vlan_tci (m_ext fsp) = VLAN_VID_MASK then
           let rule = rule\<lparr>rule_type := aq_rx_filter_vlan\<rparr>;
               (err, nic) = aq_add_del_fvlan ops nic rule add in (err, rule, nic)
         else if vlan_tci (m_ext fsp) = VLAN_PRIO_MASK then
           let rule = rule\<lparr>rule_type := aq_rx_filter_ethertype\<rparr>;
               (err, nic) = aq_add_del_fether ops nic rule add in (err, rule, nic)
         else (- EINVAL, rule, nic))
      else
        let t = flow_type fsp AND NOT FLOW_EXT in
        if t = ETHER_FLOW then
          let rule = rule\<lparr>rule_type := aq_rx_filter_ethertype\<rparr>;
              (err, nic) = aq_add_del_fether ops nic rule add in (err, rule, nic)
        else if t \<in> {TCP_V4_FLOW, UDP_V4_FLOW, SCTP_V4_FLOW, IP_USER_FLOW, TCP_V6_FLOW,
                     UDP_V6_FLOW, SCTP_V6_FLOW, IPV6_USER_FLOW} then
          let rule = rule\<lparr>rule_type := aq_rx_filter_l3l4\<rparr>;
              (err, nic) = aq_add_del_fl3l4 ops nic rule add in (err, rule, nic)
        else (- EINVAL, rule, nic))"

definition rule_loc :: "aq_rx_filter \<Rightarrow> u32" where
  "rule_loc r = location (aq_fsp r)"

definition set_list :: "aq_rx_filter list \<Rightarrow> filter_nic \<Rightarrow> filter_nic" where
  "set_list rs nic = nic\<lparr>rx_fltrs := (rx_fltrs nic)\<lparr>filter_list := rs\<rparr>\<rparr>"

definition add_active :: "u16 \<Rightarrow> filter_nic \<Rightarrow> filter_nic" where
  "add_active d nic = nic\<lparr>rx_fltrs := (rx_fltrs nic)\<lparr>active_filters := active_filters (rx_fltrs nic) + d\<rparr>\<rparr>"

text \<open>
  The result of \<open>aq_update_table_filters\<close> also says where the new rule was linked in, the
  position of its node.
\<close>

definition aq_update_table_filters :: "filter_ops \<Rightarrow> filter_nic \<Rightarrow> aq_rx_filter option \<Rightarrow> u16 \<Rightarrow>
    int \<times> nat \<times> filter_nic" where
  "aq_update_table_filters ops nic new index =
     (let rs = filter_list (rx_fltrs nic);
          before = takeWhile (\<lambda>r. rule_loc r < ucast index) rs;
          rest = dropWhile (\<lambda>r. rule_loc r < ucast index) rs;
          (err, rest, nic) =
            (case rest of
               r # after \<Rightarrow>
                 if rule_loc r = ucast index then
                   let (err, r, nic) = aq_add_del_rule ops nic r False
                   in (err, after, add_active (- 1) (set_list (before @ after) nic))
                 else (- EINVAL, rest, nic)
             | [] \<Rightarrow> (- EINVAL, rest, nic))
      in case new of
           None \<Rightarrow> (err, length before, nic)
         | Some r \<Rightarrow> (0, length before, add_active 1 (set_list (before @ r # rest) nic)))"

definition aq_get_rxnfc_count_all_rules :: "filter_nic \<Rightarrow> u16" where
  "aq_get_rxnfc_count_all_rules nic = active_filters (rx_fltrs nic)"

definition hlist_del :: "nat \<Rightarrow> aq_rx_filter list \<Rightarrow> aq_rx_filter list" where
  "hlist_del p rs = take p rs @ drop (Suc p) rs"

text \<open>\<open>alloc\<close>: whether the kernel had memory for the rule.\<close>

definition aq_add_rxnfc_rule ::
  "filter_ops \<Rightarrow> bool \<Rightarrow> filter_nic \<Rightarrow> ethtool_rx_flow_spec \<Rightarrow> int \<times> filter_nic" where
  "aq_add_rxnfc_rule ops alloc nic fsp =
     (case aq_check_rule nic fsp of (err, nic) \<Rightarrow>
      if err \<noteq> 0 then (err, nic)
      else if \<not> alloc then (- ENOMEM, nic)
      else
        let rule = \<lparr>rule_type = aq_rx_filter_ethertype, aq_fsp = fsp\<rparr> in
        case aq_update_table_filters ops nic (Some rule) (ucast (location fsp)) of (err, p, nic) \<Rightarrow>
        if err \<noteq> 0 then (err, nic)
        else case aq_add_del_rule ops nic rule True of (err, rule, nic) \<Rightarrow>
          let rs = filter_list (rx_fltrs nic) in
          if err \<noteq> 0 then (err, add_active (- 1) (set_list (hlist_del p rs) nic))
          else (0, set_list (rs[p := rule]) nic))"

definition aq_del_rxnfc_rule :: "filter_ops \<Rightarrow> filter_nic \<Rightarrow> u32 \<Rightarrow> int \<times> filter_nic" where
  "aq_del_rxnfc_rule ops nic loc =
     (let rs = filter_list (rx_fltrs nic);
          p = length (takeWhile (\<lambda>r. rule_loc r \<noteq> loc) rs)
      in if p < length rs then
           let (err, r, nic) = aq_add_del_rule ops nic (rs ! p) False
           in (err, add_active (- 1) (set_list (hlist_del p rs) nic))
         else (- EINVAL, nic))"

definition aq_del_fvlan_by_vlan :: "filter_ops \<Rightarrow> filter_nic \<Rightarrow> u16 \<Rightarrow> int \<times> filter_nic" where
  "aq_del_fvlan_by_vlan ops nic vid =
     (case find (\<lambda>r. vlan_tci (h_ext (aq_fsp r)) = vid) (filter_list (rx_fltrs nic)) of
        Some r \<Rightarrow> aq_del_rxnfc_rule ops nic (rule_loc r)
      | None \<Rightarrow> (- ENOENT, nic))"

definition aq_get_rxnfc_rule :: "filter_nic \<Rightarrow> u32 \<Rightarrow> int + ethtool_rx_flow_spec" where
  "aq_get_rxnfc_rule nic loc =
     (case dropWhile (\<lambda>r. \<not> loc \<le> rule_loc r) (filter_list (rx_fltrs nic)) of
        r # _ \<Rightarrow> if loc \<noteq> rule_loc r then Inl (- EINVAL) else Inr (aq_fsp r)
      | [] \<Rightarrow> Inl (- EINVAL))"

text \<open>The locations of all rules, when the caller's array of \<open>cnt\<close> entries can hold them.\<close>

fun rule_locs_loop :: "nat \<Rightarrow> nat \<Rightarrow> aq_rx_filter list \<Rightarrow> u32 list \<Rightarrow> int + u32 list" where
  "rule_locs_loop cnt n [] locs = Inr locs"
| "rule_locs_loop cnt n (r # rs) locs =
     (if n = cnt then Inl (- EMSGSIZE) else rule_locs_loop cnt (Suc n) rs (locs @ [rule_loc r]))"

definition aq_get_rxnfc_all_rules :: "filter_nic \<Rightarrow> nat \<Rightarrow> int + u32 list" where
  "aq_get_rxnfc_all_rules nic cnt = rule_locs_loop cnt 0 (filter_list (rx_fltrs nic)) []"

fun clear_rules_loop :: "filter_ops \<Rightarrow> filter_nic \<Rightarrow> aq_rx_filter list \<Rightarrow> int \<times> filter_nic" where
  "clear_rules_loop ops nic [] = (0, nic)"
| "clear_rules_loop ops nic (r # rs) =
     (case aq_add_del_rule ops nic r False of (err, r, nic) \<Rightarrow>
        if err \<noteq> 0 then (err, set_list (r # rs) nic)
        else clear_rules_loop ops (add_active (- 1) (set_list rs nic)) rs)"

definition aq_clear_rxnfc_all_rules :: "filter_ops \<Rightarrow> filter_nic \<Rightarrow> int \<times> filter_nic" where
  "aq_clear_rxnfc_all_rules ops nic = clear_rules_loop ops nic (filter_list (rx_fltrs nic))"

subsection \<open>Switching VLAN filtering on and off\<close>

definition aq_filters_vlans_on :: "filter_ops \<Rightarrow> filter_nic \<Rightarrow> int \<times> filter_nic" where
  "aq_filters_vlans_on ops nic =
     (let nic = nic\<lparr>active_vlans := (\<lambda>v. False)\<rparr> in
      case hw_filter_vlan_ctrl ops of
        None \<Rightarrow> (- EOPNOTSUPP, nic)
      | Some ctrl_vlan \<Rightarrow>
          let (err, nic) = aq_filters_vlans_update ops nic in
          if err \<noteq> 0 then (err, nic)
          else let (err, hw) = ctrl_vlan (flt_hw nic) True in (err, nic\<lparr>flt_hw := hw\<rparr>))"

definition del_vlan_rules :: "filter_nic \<Rightarrow> filter_nic" where
  "del_vlan_rules nic =
     (let rs = filter_list (rx_fltrs nic);
          kept = filter (\<lambda>r. rule_type r \<noteq> aq_rx_filter_vlan) rs
      in add_active (- of_nat (length rs - length kept)) (set_list kept nic))"

definition aq_filters_vlans_off :: "filter_ops \<Rightarrow> filter_nic \<Rightarrow> int \<times> filter_nic" where
  "aq_filters_vlans_off ops nic =
     (let nic = del_vlan_rules nic;
          nic = nic\<lparr>active_vlans := (\<lambda>v. False),
                  rx_fltrs := (rx_fltrs nic)\<lparr>aq_vlans := replicate HW_ATL_VLAN_MAX_FILTERS vlan_zero\<rparr>\<rparr>
      in case hw_filter_vlan_ctrl ops of
           None \<Rightarrow> (- EOPNOTSUPP, nic)
         | Some ctrl_vlan \<Rightarrow>
             let (err, nic) = aq_filters_vlans_update ops nic in
             if err \<noteq> 0 then (err, nic)
             else let (err, hw) = ctrl_vlan (flt_hw nic) False in (err, nic\<lparr>flt_hw := hw\<rparr>))"

text \<open>The kernel registers and unregisters a VLAN (aq_main.c).\<close>

definition aq_ndo_vlan_rx_add_vid :: "filter_ops \<Rightarrow> filter_nic \<Rightarrow> u16 \<Rightarrow> int \<times> filter_nic" where
  "aq_ndo_vlan_rx_add_vid ops nic vid =
     (if hw_filter_vlan_set ops = None then (- EOPNOTSUPP, nic)
      else aq_filters_vlans_update ops
        (nic\<lparr>active_vlans := (active_vlans nic)(unat vid := True)\<rparr>))"

definition aq_ndo_vlan_rx_kill_vid :: "filter_ops \<Rightarrow> filter_nic \<Rightarrow> u16 \<Rightarrow> int \<times> filter_nic" where
  "aq_ndo_vlan_rx_kill_vid ops nic vid =
     (if hw_filter_vlan_set ops = None then (- EOPNOTSUPP, nic)
      else let nic = nic\<lparr>active_vlans := (active_vlans nic)(unat vid := False)\<rparr>;
               (err, nic) = aq_del_fvlan_by_vlan ops nic vid
           in if err = - ENOENT then aq_filters_vlans_update ops nic else (0, nic))"

end
