(* ===== verification/Vlan_Table.thy ===== *)
theory Vlan_Table
  imports Filters
begin

section \<open>What aq_fvlan_rebuild computes\<close>

text \<open>
  The VLAN table has sixteen slots. A slot pinned by a rule (enabled, with a queue) belongs to
  the rule; the others are shared out to the VLANs the kernel has registered and no rule has
  taken. The loop of the code is shown equal to a one-pass reference, and from that which
  VLANs the table holds.
\<close>

subsection \<open>The loop and its reference\<close>

lemma free_slot: "(\<not> vf_enable v \<or> vf_queue v = AQ_RX_QUEUE_INVALID) \<longleftrightarrow> \<not> vlan_pinned v"
  by (auto simp: vlan_pinned_def)

lemma pinned_entry [simp]: "\<not> vlan_pinned (vlan_none v)" "\<not> vlan_pinned (vlan_entry w v)"
  by (simp_all add: vlan_pinned_def vlan_none_def vlan_entry_def)

lemma vlan_busy_upd:
  "\<not> vlan_pinned (vl ! i) \<Longrightarrow> \<not> vlan_pinned x \<Longrightarrow> vlan_busy (vl[i := x]) = vlan_busy vl"
  by (cases "i < length vl")
    (auto simp: vlan_busy_def list_ex_length nth_list_update fun_eq_iff)

lemma find_next_bit_filter:
  "filter (\<lambda>w. bm w \<and> Q w) [off..<n] =
     (let k = find_next_bit bm n off in
      if n \<le> k then [] else (if Q k then [k] else []) @ filter (\<lambda>w. bm w \<and> Q w) [Suc k..<n])"
proof (induction "n - off" arbitrary: off)
  case 0
  then show ?case by (simp add: find_next_bit_def)
next
  case (Suc d)
  then have "[off..<n] = off # [Suc off..<n]" by (simp add: upt_conv_Cons)
  with Suc(1) [of "Suc off"] Suc(2) show ?case
    by (auto simp: find_next_bit_def Let_def split: option.split)
qed

definition vlans_left :: "(nat \<Rightarrow> bool) \<Rightarrow> aq_rx_filter_vlan_s list \<Rightarrow> int \<Rightarrow> nat list" where
  "vlans_left bm vl vlan = filter (\<lambda>w. bm w \<and> \<not> vlan_busy vl w) [nat (vlan + 1)..<VLAN_N_VID]"


lemma vlans_left_next:
  assumes "- 1 \<le> vlan"
  shows "vlans_left bm vl vlan =
    (let k = find_next_bit bm VLAN_N_VID (nat (vlan + 1)) in
     if VLAN_N_VID \<le> k then []
     else (if vlan_busy vl k then [] else [k]) @ vlans_left bm vl (int k))"
proof -
  have "nat (int k + 1) = Suc k" for k by simp
  then show ?thesis
    unfolding vlans_left_def
    by (subst find_next_bit_filter) (simp add: Let_def)
qed

lemma vlans_left_end [simp]: "vlans_left bm vl (int VLAN_N_VID) = []"
  by (simp add: vlans_left_def)

lemma fvlan_pick_spec:
  "- 1 \<le> vlan \<Longrightarrow> fvlan_pick bm i vl vlan =
    (case vlans_left bm vl vlan of
       [] \<Rightarrow> (vl[i := vlan_none (vl ! i)], int VLAN_N_VID)
     | w # ws \<Rightarrow> (vl[i := vlan_entry w (vl ! i)], int w))"
proof (induction bm i vl vlan rule: fvlan_pick.induct)
  case (1 bm i vl vlan)
  define k where "k = find_next_bit bm VLAN_N_VID (nat (vlan + 1))"
  have kn: "k < VLAN_N_VID" if "k \<noteq> VLAN_N_VID"
    using find_next_bit_found [of bm VLAN_N_VID "nat (vlan + 1)"] that unfolding k_def by auto
  show ?case
  proof (cases "vlan = int VLAN_N_VID \<or> k = VLAN_N_VID")
    case True
    then show ?thesis
      using 1(2) by (subst fvlan_pick.simps)
        (cases "vlan = int VLAN_N_VID", simp, simp add: vlans_left_next [of vlan] k_def [symmetric])
  next
    case False
    with 1 kn show ?thesis
      by (subst fvlan_pick.simps) (auto simp: vlans_left_next [of vlan] k_def [symmetric])
  qed
qed

lemma vlans_left_tail:
  "- 1 \<le> vlan \<Longrightarrow> vlans_left bm vl vlan = w # ws \<Longrightarrow> w < VLAN_N_VID \<and> vlans_left bm vl (int w) = ws"
proof (induction "nat (int VLAN_N_VID - vlan)" arbitrary: vlan rule: less_induct)
  case less
  define k where "k = find_next_bit bm VLAN_N_VID (nat (vlan + 1))"
  have kn: "nat (vlan + 1) \<le> k" if "k < VLAN_N_VID"
    using find_next_bit_found [of bm VLAN_N_VID "nat (vlan + 1)"] that unfolding k_def by auto
  from less(3) have k: "k < VLAN_N_VID"
    by (auto simp: vlans_left_next [OF less(2)] k_def [symmetric] Let_def split: if_splits)
  show ?case
  proof (cases "vlan_busy vl k")
    case True
    have "nat (int VLAN_N_VID - int k) < nat (int VLAN_N_VID - vlan)" using k kn by linarith
    from less(1) [OF this] less(2,3) k True show ?thesis
      by (simp add: vlans_left_next [OF less(2)] k_def [symmetric])
  next
    case False
    with less(2,3) k show ?thesis
      by (auto simp: vlans_left_next [OF less(2)] k_def [symmetric])
  qed
qed

lemma vlans_left_upd:
  "\<not> vlan_pinned (vl ! i) \<Longrightarrow> \<not> vlan_pinned x \<Longrightarrow> vlans_left bm (vl[i := x]) = vlans_left bm vl"
  by (simp add: vlans_left_def vlan_busy_upd fun_eq_iff)

text \<open>The reference: the table keeps its pinned slots, the other slots get the VLANs in turn.\<close>

fun fvlan_fill :: "nat list \<Rightarrow> aq_rx_filter_vlan_s list \<Rightarrow> aq_rx_filter_vlan_s list" where
  "fvlan_fill ws [] = []"
| "fvlan_fill ws (v # vs) =
     (if vlan_pinned v then v # fvlan_fill ws vs
      else case ws of
        [] \<Rightarrow> vlan_none v # fvlan_fill [] vs
      | w # ws \<Rightarrow> vlan_entry w v # fvlan_fill ws vs)"

lemma fvlan_slots_fill:
  "- 1 \<le> vlan \<Longrightarrow> fst (fold (fvlan_slot bm) [length xs..<length xs + length vs] (xs @ vs, vlan)) =
     xs @ fvlan_fill (vlans_left bm (xs @ vs) vlan) vs"
proof (induction vs arbitrary: xs vlan)
  case Nil
  then show ?case by simp
next
  case (Cons v vs)
  have up: "[length xs..<length xs + length (v # vs)] =
      length xs # [length (xs @ [x])..<length (xs @ [x]) + length vs]" for x :: aq_rx_filter_vlan_s
    by (simp add: upt_conv_Cons del: upt_Suc)
  show ?case
  proof (cases "vlan_pinned v")
    case True
    then have "fvlan_slot bm (length xs) (xs @ v # vs, vlan) = (xs @ v # vs, vlan)"
      by (auto simp: fvlan_slot_def vlan_pinned_def)
    with Cons(1) [of vlan "xs @ [v]"] Cons(2) True show ?thesis
      by (subst up [of v]) (simp del: upt_Suc)
  next
    case free: False
    have slot: "fvlan_slot bm (length xs) (xs @ v # vs, vlan) =
        fvlan_pick bm (length xs) (xs @ v # vs) vlan"
      using free by (auto simp: fvlan_slot_def vlan_pinned_def)
    show ?thesis
    proof (cases "vlans_left bm (xs @ v # vs) vlan")
      case Nil
      have same: "vlans_left bm (xs @ vlan_none v # vs) (int VLAN_N_VID) = []" by simp
      from Cons(1) [of "int VLAN_N_VID" "xs @ [vlan_none v]"] Nil free Cons(2) show ?thesis
        by (subst up [of "vlan_none v"]) (simp add: slot fvlan_pick_spec del: upt_Suc)
    next
      case (Cons w ws)
      note tl = vlans_left_tail [OF Cons.prems Cons]
      have same: "vlans_left bm (xs @ vlan_entry w v # vs) (int w) = ws"
        using vlans_left_upd [of "xs @ v # vs" "length xs" "vlan_entry w v" bm] free tl by simp
      from Cons.IH [of "int w" "xs @ [vlan_entry w v]"] Cons free Cons.prems same show ?thesis
        by (subst up [of "vlan_entry w v"]) (simp add: slot fvlan_pick_spec del: upt_Suc)
    qed
  qed
qed

lemma rebuild_fill:
  assumes "length vl = HW_ATL_VLAN_MAX_FILTERS"
  shows "aq_fvlan_rebuild bm vl =
    fvlan_fill (filter (\<lambda>w. bm w \<and> \<not> vlan_busy vl w) [0..<VLAN_N_VID]) vl"
  using fvlan_slots_fill [of "-1" bm "[]" vl] assms
  by (simp add: aq_fvlan_rebuild_def vlans_left_def)


subsection \<open>Which VLANs the table holds\<close>

definition vlan_ids :: "aq_rx_filter_vlan_s list \<Rightarrow> nat set" where
  "vlan_ids vl = (\<lambda>v. unat (vlan_id v)) ` {v \<in> set vl. vf_enable v}"

definition pinned_ids :: "aq_rx_filter_vlan_s list \<Rightarrow> nat list" where
  "pinned_ids vl = map (\<lambda>v. unat (vlan_id v)) (filter vlan_pinned vl)"

lemma vlan_busy_pinned: "vlan_busy vl w \<longleftrightarrow> w \<in> set (pinned_ids vl)"
  by (auto simp: vlan_busy_def pinned_ids_def list_ex_iff)

lemma fvlan_fill_length [simp]: "length (fvlan_fill ws vl) = length vl"
  by (induction ws vl rule: fvlan_fill.induct) (auto split: list.split)

lemma fvlan_fill_pinned [simp]: "pinned_ids (fvlan_fill ws vl) = pinned_ids vl"
  by (induction ws vl rule: fvlan_fill.induct) (auto simp: pinned_ids_def split: list.split)

lemma fvlan_fill_pinned_nth:
  "vlan_pinned (vl ! i) \<Longrightarrow> i < length vl \<Longrightarrow> fvlan_fill ws vl ! i = vl ! i"
proof (induction ws vl arbitrary: i rule: fvlan_fill.induct)
  case (2 ws v vs)
  then show ?case by (cases i) (auto split: list.split)
qed simp

lemma vlan_ids_Cons:
  "vlan_ids (v # vl) = (if vf_enable v then {unat (vlan_id v)} else {}) \<union> vlan_ids vl"
  by (auto simp: vlan_ids_def)

lemma vlan_none_sel [simp]: "vf_enable (vlan_none v) = False" "vf_enable (vlan_entry w v) = True"
  "w < VLAN_N_VID \<Longrightarrow> unat (vlan_id (vlan_entry w v)) = w"
  by (simp_all add: vlan_none_def vlan_entry_def VLAN_N_VID_def unsigned_of_nat take_bit_nat_eq_self)

lemma fvlan_fill_ids:
  "(\<forall>w \<in> set ws. w < VLAN_N_VID) \<Longrightarrow> vlan_ids (fvlan_fill ws vl) =
     set (pinned_ids vl) \<union> set (take (length vl - length (pinned_ids vl)) ws)"
proof (induction ws vl rule: fvlan_fill.induct)
  case (1 ws)
  then show ?case by (simp add: vlan_ids_def pinned_ids_def)
next
  case (2 ws v vs)
  have le: "length (pinned_ids vs) \<le> length vs" by (simp add: pinned_ids_def)
  show ?case
  proof (cases "vlan_pinned v")
    case True
    with 2 show ?thesis by (auto simp: vlan_ids_Cons pinned_ids_def vlan_pinned_def)
  next
    case free: False
    then have pi: "pinned_ids (v # vs) = pinned_ids vs" by (simp add: pinned_ids_def)
    show ?thesis
    proof (cases ws)
      case Nil
      with 2 free pi show ?thesis by (simp add: vlan_ids_Cons)
    next
      case (Cons w ws')
      have "length (v # vs) - length (pinned_ids vs) = Suc (length vs - length (pinned_ids vs))"
        using le by simp
      with 2 free pi Cons show ?thesis by (simp add: vlan_ids_Cons)
    qed
  qed
qed

lemma busy_count:
  assumes "distinct ps" "\<forall>w \<in> set ps. w < n \<and> bm w"
  shows "length (filter bm [0..<n]) = length ps + length (filter (\<lambda>w. bm w \<and> w \<notin> set ps) [0..<n])"
proof -
  have "filter bm [0..<n] = filter (\<lambda>w. bm w) [0..<n]" by simp
  have card: "length (filter P [0..<n]) = card {w. w < n \<and> P w}" for P
    by (simp add: distinct_card [symmetric] conj_commute)
  have "{w. w < n \<and> bm w} = set ps \<union> {w. w < n \<and> bm w \<and> w \<notin> set ps}" using assms(2) by auto
  moreover have "card (set ps \<union> {w. w < n \<and> bm w \<and> w \<notin> set ps}) =
      card (set ps) + card {w. w < n \<and> bm w \<and> w \<notin> set ps}"
    by (rule card_Un_disjoint) auto
  ultimately show ?thesis using assms(1) by (simp only: card distinct_card)
qed

lemma rebuild_ids:
  assumes "length vl = HW_ATL_VLAN_MAX_FILTERS" "distinct (pinned_ids vl)"
    and "\<forall>w \<in> set (pinned_ids vl). w < VLAN_N_VID \<and> bm w"
  shows "vlan_ids (aq_fvlan_rebuild bm vl) \<subseteq> {w. w < VLAN_N_VID \<and> bm w}"
    "hweight bm \<le> HW_ATL_VLAN_MAX_FILTERS \<Longrightarrow>
       vlan_ids (aq_fvlan_rebuild bm vl) = {w. w < VLAN_N_VID \<and> bm w}"
proof -
  let ?ws = "filter (\<lambda>w. bm w \<and> w \<notin> set (pinned_ids vl)) [0..<VLAN_N_VID]"
  have ids: "vlan_ids (aq_fvlan_rebuild bm vl) =
      set (pinned_ids vl) \<union> set (take (HW_ATL_VLAN_MAX_FILTERS - length (pinned_ids vl)) ?ws)"
    using assms(1) by (subst rebuild_fill) (simp_all add: fvlan_fill_ids vlan_busy_pinned)
  then show "vlan_ids (aq_fvlan_rebuild bm vl) \<subseteq> {w. w < VLAN_N_VID \<and> bm w}"
    using assms(3) by (auto dest!: in_set_takeD)
  assume "hweight bm \<le> HW_ATL_VLAN_MAX_FILTERS"
  then have "length ?ws \<le> HW_ATL_VLAN_MAX_FILTERS - length (pinned_ids vl)"
    using busy_count [OF assms(2,3)] by (simp add: hweight_def)
  then show "vlan_ids (aq_fvlan_rebuild bm vl) = {w. w < VLAN_N_VID \<and> bm w}"
    unfolding ids using assms(3) by auto
qed

lemma rebuild_pinned:
  assumes "length vl = HW_ATL_VLAN_MAX_FILTERS"
  shows "pinned_ids (aq_fvlan_rebuild bm vl) = pinned_ids vl"
    "length (aq_fvlan_rebuild bm vl) = HW_ATL_VLAN_MAX_FILTERS"
    "i < HW_ATL_VLAN_MAX_FILTERS \<Longrightarrow> vlan_pinned (vl ! i) \<Longrightarrow> aq_fvlan_rebuild bm vl ! i = vl ! i"
  using assms by (simp_all add: rebuild_fill fvlan_fill_pinned_nth)

end
