(* ===== verification/B0_Filters.thy ===== *)
theory B0_Filters
  imports Chip Vlan_Table
begin

section \<open>The filters of the B0 chip (hw_atl_b0.c, the hw_filter operations)\<close>

text \<open>
  The operations of \<open>hw_atl_ops_b0\<close> that program receive filters, and what the chip's
  registers hold afterwards. The VLAN operations are shown to satisfy the interface
  \<open>vlan_filter_hw\<close> that aq_filters.c is verified against.
\<close>

subsection \<open>Operations\<close>

definition hw_atl_b0_hw_fl3l4_clear :: "aq_hw_s \<Rightarrow> aq_rx_filter_l3l4_s \<Rightarrow> int \<times> aq_hw_s" where
  "hw_atl_b0_hw_fl3l4_clear self data =
     (let loc = l3_location data;
          hw = (if \<not> l3_is_ipv6 data then
                  let hw = hw_atl_rpfl3l4_cmd_clear self loc;
                      hw = hw_atl_rpf_l4_spd_set hw 0 (ucast loc);
                      hw = hw_atl_rpf_l4_dpd_set hw 0 (ucast loc);
                      hw = hw_atl_rpfl3l4_ipv4_src_addr_clear hw loc
                  in hw_atl_rpfl3l4_ipv4_dest_addr_clear hw loc
                else
                  let hw = foldl (\<lambda>hw i.
                        let hw = hw_atl_rpfl3l4_cmd_clear hw (loc + of_nat i);
                            hw = hw_atl_rpf_l4_spd_set hw 0 (ucast loc + of_nat i)
                        in hw_atl_rpf_l4_dpd_set hw 0 (ucast loc + of_nat i))
                      self [0..<HW_ATL_RX_CNT_REG_ADDR_IPV6];
                      hw = hw_atl_rpfl3l4_ipv6_src_addr_clear hw loc
                  in hw_atl_rpfl3l4_ipv6_dest_addr_clear hw loc)
      in (aq_hw_err_from_flags hw, hw))"

definition hw_atl_b0_hw_fl3l4_set :: "aq_hw_s \<Rightarrow> aq_rx_filter_l3l4_s \<Rightarrow> int \<times> aq_hw_s" where
  "hw_atl_b0_hw_fl3l4_set self data =
     (let loc = l3_location data;
          hw = snd (hw_atl_b0_hw_fl3l4_clear self data);
          hw = (if l3_cmd data \<noteq> 0 then
                  if \<not> l3_is_ipv6 data then
                    hw_atl_rpfl3l4_ipv4_src_addr_set
                      (hw_atl_rpfl3l4_ipv4_dest_addr_set hw loc (ip_dst data ! 0))
                      loc (ip_src data ! 0)
                  else
                    hw_atl_rpfl3l4_ipv6_src_addr_set
                      (hw_atl_rpfl3l4_ipv6_dest_addr_set hw loc (ip_dst data))
                      loc (ip_src data)
                else hw);
          hw = hw_atl_rpf_l4_dpd_set hw (ucast (p_dst data)) (ucast loc);
          hw = hw_atl_rpf_l4_spd_set hw (ucast (p_src data)) (ucast loc);
          hw = hw_atl_rpfl3l4_cmd_set hw loc (l3_cmd data)
      in (aq_hw_err_from_flags hw, hw))"

definition hw_atl_b0_hw_fl3l4_ctrl :: "aq_hw_s \<Rightarrow> u32 \<Rightarrow> bool \<Rightarrow> int \<times> aq_hw_s" where
  "hw_atl_b0_hw_fl3l4_ctrl self loc enable =
     (let hw = hw_atl_rpf_l3_l4_enf_set self (if enable then 1 else 0) loc
      in (aq_hw_err_from_flags hw, hw))"

definition hw_atl_b0_hw_fl2_set :: "aq_hw_s \<Rightarrow> aq_rx_filter_l2 \<Rightarrow> int \<times> aq_hw_s" where
  "hw_atl_b0_hw_fl2_set self data =
     (let loc = ucast (l2_location data);
          hw = hw_atl_rpf_etht_flr_en_set self 1 loc;
          hw = hw_atl_rpf_etht_flr_set hw (ucast (ethertype data)) loc;
          hw = hw_atl_rpf_etht_user_priority_en_set hw (of_flag (user_priority_en data)) loc;
          hw = (if user_priority_en data
                then hw_atl_rpf_etht_user_priority_set hw (ucast (user_priority data)) loc else hw);
          hw = (if l2_queue data <s 0 then
                  hw_atl_rpf_etht_rx_queue_en_set (hw_atl_rpf_etht_flr_act_set hw 0 loc) 0 loc
                else
                  let hw = hw_atl_rpf_etht_flr_act_set hw 1 loc;
                      hw = hw_atl_rpf_etht_rx_queue_en_set hw 1 loc
                  in hw_atl_rpf_etht_rx_queue_set hw (scast (l2_queue data)) loc)
      in (aq_hw_err_from_flags hw, hw))"

definition hw_atl_b0_hw_fl2_clear :: "aq_hw_s \<Rightarrow> aq_rx_filter_l2 \<Rightarrow> int \<times> aq_hw_s" where
  "hw_atl_b0_hw_fl2_clear self data =
     (let loc = ucast (l2_location data);
          hw = hw_atl_rpf_etht_flr_en_set self 0 loc;
          hw = hw_atl_rpf_etht_flr_set hw 0 loc;
          hw = hw_atl_rpf_etht_user_priority_en_set hw 0 loc
      in (aq_hw_err_from_flags hw, hw))"

text \<open>The body of the loop of \<open>hw_atl_b0_hw_vlan_set\<close>, for slot \<open>i\<close>.\<close>

definition b0_vlan_slot :: "aq_rx_filter_vlan_s list \<Rightarrow> nat \<Rightarrow> aq_hw_s \<Rightarrow> aq_hw_s" where
  "b0_vlan_slot vl i hw =
     (let v = vl ! i; flt = of_nat i;
          hw = hw_atl_rpf_vlan_flr_en_set hw 0 flt;
          hw = hw_atl_rpf_vlan_rxq_en_flr_set hw 0 flt
      in if vf_enable v then
           let hw = hw_atl_rpf_vlan_id_flr_set hw (ucast (vlan_id v)) flt;
               hw = hw_atl_rpf_vlan_flr_act_set hw 1 flt;
               hw = hw_atl_rpf_vlan_flr_en_set hw 1 flt
           in if vf_queue v \<noteq> 0xFF then
                hw_atl_rpf_vlan_rxq_en_flr_set
                  (hw_atl_rpf_vlan_rxq_flr_set hw (ucast (vf_queue v)) flt) 1 flt
              else hw
         else hw)"

definition hw_atl_b0_hw_vlan_set :: "aq_hw_s \<Rightarrow> aq_rx_filter_vlan_s list \<Rightarrow> int \<times> aq_hw_s" where
  "hw_atl_b0_hw_vlan_set self vl =
     (let hw = hw_atl_rpf_vlan_prom_mode_en_set self 1;
          hw = fold (b0_vlan_slot vl) [0..<HW_ATL_VLAN_MAX_FILTERS] hw
      in (aq_hw_err_from_flags hw, hw))"

definition hw_atl_b0_hw_vlan_ctrl :: "aq_hw_s \<Rightarrow> bool \<Rightarrow> int \<times> aq_hw_s" where
  "hw_atl_b0_hw_vlan_ctrl self enable =
     (let hw = hw_atl_rpf_vlan_prom_mode_en_set self (of_flag (\<not> enable))
      in (aq_hw_err_from_flags hw, hw))"

text \<open>The filter members of \<open>hw_atl_ops_b0\<close>.\<close>

definition b0_filter_ops :: filter_ops where
  "b0_filter_ops = \<lparr>hw_filter_l2_set = Some hw_atl_b0_hw_fl2_set,
     hw_filter_l2_clear = Some hw_atl_b0_hw_fl2_clear,
     hw_filter_l3l4_set = Some hw_atl_b0_hw_fl3l4_set,
     hw_filter_vlan_set = Some hw_atl_b0_hw_vlan_set,
     hw_filter_vlan_ctrl = Some hw_atl_b0_hw_vlan_ctrl\<rparr>"

subsection \<open>The fields of the VLAN and ethertype filters\<close>

definition vlan_fields :: "reg_field list" where
  "vlan_fields = [HW_ATL_RPF_VL_EN_F, HW_ATL_RPF_VL_ACT_F, HW_ATL_RPF_VL_ID_F,
     HW_ATL_RPF_VL_RXQ_EN_F, HW_ATL_RPF_VL_RXQ_F]"

definition etht_fields :: "reg_field list" where
  "etht_fields = [HW_ATL_RPF_ET_ENF, HW_ATL_RPF_ET_UPFEN, HW_ATL_RPF_ET_RXQFEN, HW_ATL_RPF_ET_UPF,
     HW_ATL_RPF_ET_RXQF, HW_ATL_RPF_ET_ACTF, HW_ATL_RPF_ET_VALF]"

lemma filter_banks:
  "field_bank vlan_fields 0x5290 16"
  "field_bank etht_fields 0x5300 16"
  "field_bank [HW_ATL_RPF_VL_PROMIS_MODE] 0x5280 1"
  by (simp_all add: field_bank_def vlan_fields_def etht_fields_def llh_fields_def)
    (simp_all add: HW_ATL_RPF_VL_EN_F_def HW_ATL_RPF_VL_ACT_F_def HW_ATL_RPF_VL_ID_F_def
      HW_ATL_RPF_VL_RXQ_EN_F_def HW_ATL_RPF_VL_RXQ_F_def HW_ATL_RPF_VL_PROMIS_MODE_def
      HW_ATL_RPF_ET_ENF_def HW_ATL_RPF_ET_UPFEN_def HW_ATL_RPF_ET_RXQFEN_def
      HW_ATL_RPF_ET_UPF_def HW_ATL_RPF_ET_RXQF_def HW_ATL_RPF_ET_ACTF_def HW_ATL_RPF_ET_VALF_def)

subsection \<open>The VLAN filters of the chip\<close>

text \<open>
  VLAN filter \<open>i\<close> of the chip as its register says: off, or the VLAN, the action and, where a
  queue is assigned, the queue.
\<close>

definition chip_vlan :: "aq_hw_s \<Rightarrow> nat \<Rightarrow> (u32 \<times> u32 \<times> u32 option) option" where
  "chip_vlan hw i =
     (if fget hw HW_ATL_RPF_VL_EN_F i = 0 then None
      else Some (fget hw HW_ATL_RPF_VL_ID_F i, fget hw HW_ATL_RPF_VL_ACT_F i,
        if fget hw HW_ATL_RPF_VL_RXQ_EN_F i = 0 then None else Some (fget hw HW_ATL_RPF_VL_RXQ_F i)))"

definition vlan_word :: "aq_rx_filter_vlan_s \<Rightarrow> (u32 \<times> u32 \<times> u32 option) option" where
  "vlan_word v =
     (if vf_enable v
      then Some (ucast (vlan_id v), 1, if vf_queue v = 0xFF then None else Some (ucast (vf_queue v)))
      else None)"

definition vlan_fits :: "aq_rx_filter_vlan_s \<Rightarrow> bool" where
  "vlan_fits v \<longleftrightarrow> (vf_enable v \<longrightarrow> unat (vlan_id v) < VLAN_N_VID \<and>
     (vf_queue v = 0xFF \<or> unat (vf_queue v) < 32))"

lemma vlan_fields_distinct: "distinct vlan_fields"
  by (simp add: vlan_fields_def HW_ATL_RPF_VL_EN_F_def HW_ATL_RPF_VL_ACT_F_def HW_ATL_RPF_VL_ID_F_def
      HW_ATL_RPF_VL_RXQ_EN_F_def HW_ATL_RPF_VL_RXQ_F_def)

lemma vlan_field_in [simp]:
  "HW_ATL_RPF_VL_EN_F \<in> set vlan_fields" "HW_ATL_RPF_VL_ACT_F \<in> set vlan_fields"
  "HW_ATL_RPF_VL_ID_F \<in> set vlan_fields" "HW_ATL_RPF_VL_RXQ_EN_F \<in> set vlan_fields"
  "HW_ATL_RPF_VL_RXQ_F \<in> set vlan_fields"
  by (simp_all add: vlan_fields_def)

lemma vlan_field_ne [simp]:
  "HW_ATL_RPF_VL_EN_F \<noteq> HW_ATL_RPF_VL_ACT_F" "HW_ATL_RPF_VL_EN_F \<noteq> HW_ATL_RPF_VL_ID_F"
  "HW_ATL_RPF_VL_EN_F \<noteq> HW_ATL_RPF_VL_RXQ_EN_F" "HW_ATL_RPF_VL_EN_F \<noteq> HW_ATL_RPF_VL_RXQ_F"
  "HW_ATL_RPF_VL_ACT_F \<noteq> HW_ATL_RPF_VL_ID_F" "HW_ATL_RPF_VL_ACT_F \<noteq> HW_ATL_RPF_VL_RXQ_EN_F"
  "HW_ATL_RPF_VL_ACT_F \<noteq> HW_ATL_RPF_VL_RXQ_F" "HW_ATL_RPF_VL_ID_F \<noteq> HW_ATL_RPF_VL_RXQ_EN_F"
  "HW_ATL_RPF_VL_ID_F \<noteq> HW_ATL_RPF_VL_RXQ_F" "HW_ATL_RPF_VL_RXQ_EN_F \<noteq> HW_ATL_RPF_VL_RXQ_F"
  using vlan_fields_distinct by (simp_all add: vlan_fields_def)

lemma vlan_value_fits [simp]:
  "field_fits HW_ATL_RPF_VL_EN_F 0" "field_fits HW_ATL_RPF_VL_EN_F 1"
  "field_fits HW_ATL_RPF_VL_RXQ_EN_F 0" "field_fits HW_ATL_RPF_VL_RXQ_EN_F 1"
  "field_fits HW_ATL_RPF_VL_ACT_F 1"
  "unat x < VLAN_N_VID \<Longrightarrow> field_fits HW_ATL_RPF_VL_ID_F (ucast (x :: u16))"
  "unat y < 32 \<Longrightarrow> field_fits HW_ATL_RPF_VL_RXQ_F (ucast (y :: u8))"
proof -
  note f = fits_width [OF filter_banks(1)]
  show "field_fits HW_ATL_RPF_VL_EN_F 0" "field_fits HW_ATL_RPF_VL_EN_F 1"
    by (rule f [where w = 1], simp, simp add: HW_ATL_RPF_VL_EN_F_def, simp)+
  show "field_fits HW_ATL_RPF_VL_RXQ_EN_F 0" "field_fits HW_ATL_RPF_VL_RXQ_EN_F 1"
    by (rule f [where w = 1], simp, simp add: HW_ATL_RPF_VL_RXQ_EN_F_def, simp)+
  show "field_fits HW_ATL_RPF_VL_ACT_F 1"
    by (rule f [where w = 3], simp, simp add: HW_ATL_RPF_VL_ACT_F_def, simp)
  show "unat x < VLAN_N_VID \<Longrightarrow> field_fits HW_ATL_RPF_VL_ID_F (ucast x)"
    by (rule f [where w = 12], simp, simp add: HW_ATL_RPF_VL_ID_F_def,
        simp add: VLAN_N_VID_def unsigned_ucast_eq take_bit_nat_eq_self)
  show "unat y < 32 \<Longrightarrow> field_fits HW_ATL_RPF_VL_RXQ_F (ucast y)"
    by (rule f [where w = 5], simp, simp add: HW_ATL_RPF_VL_RXQ_F_def,
        simp add: unsigned_ucast_eq take_bit_nat_eq_self)
qed

lemmas vlan_write = bank_write [OF filter_banks(1)]

lemma vlan_slot:
  assumes "chip_hw hw" "i < 16" "vlan_fits (vl ! i)"
  shows "chip_hw (b0_vlan_slot vl i hw)"
    and "aq_hw_err_from_flags (b0_vlan_slot vl i hw) = aq_hw_err_from_flags hw"
    and "j < 16 \<Longrightarrow> chip_vlan (b0_vlan_slot vl i hw) j =
      (if j = i then vlan_word (vl ! i) else chip_vlan hw j)"
    and "a \<notin> bank_regs 0x5290 16 \<Longrightarrow> regs (b0_vlan_slot vl i hw) a = regs hw a"
proof -
  note d = b0_vlan_slot_def Let_def hw_atl_rpf_vlan_flr_en_set_def hw_atl_rpf_vlan_rxq_en_flr_set_def
    hw_atl_rpf_vlan_id_flr_set_def hw_atl_rpf_vlan_flr_act_set_def hw_atl_rpf_vlan_rxq_flr_set_def
  show "chip_hw (b0_vlan_slot vl i hw)"
    using assms by (simp add: d vlan_write)
  show "aq_hw_err_from_flags (b0_vlan_slot vl i hw) = aq_hw_err_from_flags hw"
    using assms by (simp add: d vlan_write)
  show "a \<notin> bank_regs 0x5290 16 \<Longrightarrow> regs (b0_vlan_slot vl i hw) a = regs hw a"
  proof -
    assume "a \<notin> bank_regs 0x5290 16"
    then have "a \<noteq> 0x5290 + of_nat i * 4" using assms(2) by (auto simp: bank_regs_def)
    then show ?thesis using assms by (simp add: d vlan_write)
  qed
  show "j < 16 \<Longrightarrow> chip_vlan (b0_vlan_slot vl i hw) j =
      (if j = i then vlan_word (vl ! i) else chip_vlan hw j)"
  proof (cases "vf_enable (vl ! i)")
    case False
    assume "j < 16"
    with False assms show ?thesis
      by (simp add: d vlan_write chip_vlan_def vlan_word_def vlan_field_ne [symmetric])
  next
    case on: True
    assume j: "j < 16"
    have id: "unat (vlan_id (vl ! i)) < VLAN_N_VID" using on assms(3) by (simp add: vlan_fits_def)
    show ?thesis
    proof (cases "vf_queue (vl ! i) = 0xFF")
      case True
      with on id j assms show ?thesis
        by (simp add: d vlan_write chip_vlan_def vlan_word_def vlan_field_ne [symmetric])
    next
      case False
      then have "unat (vf_queue (vl ! i)) < 32" using on assms(3) by (simp add: vlan_fits_def)
      with False on id j assms(1,2) show ?thesis
        by (simp add: d vlan_write chip_vlan_def vlan_word_def vlan_field_ne [symmetric])
    qed
  qed
qed


lemma vlan_slots:
  assumes "chip_hw hw" "\<forall>i < 16. vlan_fits (vl ! i)" "n \<le> 16"
  shows "chip_hw (fold (b0_vlan_slot vl) [0..<n] hw) \<and>
    aq_hw_err_from_flags (fold (b0_vlan_slot vl) [0..<n] hw) = aq_hw_err_from_flags hw \<and>
    (\<forall>j < 16. chip_vlan (fold (b0_vlan_slot vl) [0..<n] hw) j =
       (if j < n then vlan_word (vl ! j) else chip_vlan hw j)) \<and>
    (\<forall>a. a \<notin> bank_regs 0x5290 16 \<longrightarrow> regs (fold (b0_vlan_slot vl) [0..<n] hw) a = regs hw a)"
  using assms(3)
proof (induction n)
  case 0
  then show ?case using assms(1) by simp
next
  case (Suc n)
  then have "vlan_fits (vl ! n)" "n < 16" using assms(2) by auto
  with Suc show ?case by (auto simp: vlan_slot less_Suc_eq)
qed

text \<open>Whether the chip delivers frames of VLAN \<open>w\<close>.\<close>

definition chip_promisc :: "aq_hw_s \<Rightarrow> bool" where
  "chip_promisc hw \<longleftrightarrow> fget hw HW_ATL_RPF_VL_PROMIS_MODE 0 \<noteq> 0"

definition chip_passes :: "aq_hw_s \<Rightarrow> nat \<Rightarrow> bool" where
  "chip_passes hw w \<longleftrightarrow> chip_promisc hw \<or> (\<exists>i < 16. \<exists>q. chip_vlan hw i = Some (of_nat w, 1, q))"

lemma promisc_set:
  assumes "chip_hw hw" "v = 0 \<or> v = 1"
  defines "hw' \<equiv> hw_atl_rpf_vlan_prom_mode_en_set hw v"
  shows "chip_hw hw'" "aq_hw_err_from_flags hw' = aq_hw_err_from_flags hw"
    "chip_promisc hw' \<longleftrightarrow> v = 1" "i < 16 \<Longrightarrow> chip_vlan hw' i = chip_vlan hw i"
    "a \<noteq> 0x5280 \<Longrightarrow> regs hw' a = regs hw a"
proof -
  note w = bank_write [OF filter_banks(3) _ _ assms(1), of _ 0, simplified]
  have fit: "field_fits HW_ATL_RPF_VL_PROMIS_MODE v"
    by (rule fits_width [OF filter_banks(3), where w = 1])
      (use assms(2) in \<open>auto simp: HW_ATL_RPF_VL_PROMIS_MODE_def\<close>)
  show hw': "chip_hw hw'" "aq_hw_err_from_flags hw' = aq_hw_err_from_flags hw"
    unfolding hw'_def hw_atl_rpf_vlan_prom_mode_en_set_def by (simp_all add: w)
  show "chip_promisc hw' \<longleftrightarrow> v = 1"
    unfolding hw'_def hw_atl_rpf_vlan_prom_mode_en_set_def chip_promisc_def
    using assms(2) fit by (auto simp: w)
  show r: "a \<noteq> 0x5280 \<Longrightarrow> regs hw' a = regs hw a" for a
    unfolding hw'_def hw_atl_rpf_vlan_prom_mode_en_set_def by (simp add: w)
  assume "i < 16"
  then have "unat (0x5290 + of_nat i * 4 :: u32) \<noteq> unat (0x5280 :: u32)"
    by (subst bank_adr [of _ 16]) simp_all
  then have "regs hw' (0x5290 + of_nat i * 4) = regs hw (0x5290 + of_nat i * 4)"
    by (intro r) metis
  then have "fget hw' f i = fget hw f i" if "f \<in> set vlan_fields" for f
    using that filter_banks(1) by (intro fget_cong [OF assms(1) hw'(1)]) (auto simp: field_bank_def fld_adr_def)
  then show "chip_vlan hw' i = chip_vlan hw i"
    by (simp add: chip_vlan_def)
qed

lemma b0_vlan_set:
  assumes "chip_hw hw" "\<forall>i < 16. vlan_fits (vl ! i)" "hw_atl_b0_hw_vlan_set hw vl = (e, hw')"
  shows "chip_hw hw' \<and> e = aq_hw_err_from_flags hw \<and> aq_hw_err_from_flags hw' = aq_hw_err_from_flags hw \<and>
    chip_promisc hw' \<and> (\<forall>j < 16. chip_vlan hw' j = vlan_word (vl ! j)) \<and>
    (\<forall>a. a \<noteq> 0x5280 \<and> a \<notin> bank_regs 0x5290 16 \<longrightarrow> regs hw' a = regs hw a)"
proof -
  let ?p = "hw_atl_rpf_vlan_prom_mode_en_set hw 1"
  note p = promisc_set [OF assms(1), of 1, simplified]
  have hw': "hw' = fold (b0_vlan_slot vl) [0..<16] ?p" "e = aq_hw_err_from_flags hw'"
    using assms(3) by (auto simp: hw_atl_b0_hw_vlan_set_def HW_ATL_VLAN_MAX_FILTERS_def Let_def)
  note s = vlan_slots [OF p(1) assms(2), of 16, simplified, folded hw'(1)]
  have "(0x5280 :: u32) \<notin> bank_regs 0x5290 16"
    using bank_regs_range [of "0x5290" 16 "0x5280"] by auto
  then have "regs hw' 0x5280 = regs ?p 0x5280" using s by blast
  then have "fget hw' HW_ATL_RPF_VL_PROMIS_MODE 0 = fget ?p HW_ATL_RPF_VL_PROMIS_MODE 0"
    using s by (intro fget_cong [OF p(1)]) (auto simp: fld_adr_def HW_ATL_RPF_VL_PROMIS_MODE_def)
  with s p hw'(2) show ?thesis by (auto simp: chip_promisc_def)
qed

lemma b0_vlan_ctrl:
  assumes "chip_hw hw" "hw_atl_b0_hw_vlan_ctrl hw on = (e, hw')"
  shows "chip_hw hw' \<and> e = aq_hw_err_from_flags hw \<and> aq_hw_err_from_flags hw' = aq_hw_err_from_flags hw \<and>
    chip_promisc hw' = (\<not> on) \<and> (\<forall>j < 16. chip_vlan hw' j = chip_vlan hw j) \<and>
    (\<forall>a. a \<noteq> 0x5280 \<longrightarrow> regs hw' a = regs hw a)"
  using promisc_set [OF assms(1), of "of_flag (\<not> on)"] assms(2)
  by (auto simp: hw_atl_b0_hw_vlan_ctrl_def Let_def of_flag_def split: if_splits)


subsection \<open>Updating the VLAN filters\<close>

text \<open>
  What \<open>aq_filters_vlans_update\<close> relies on: programming the table leaves the chip in
  promiscuous mode with the table installed, switching the filter changes the mode alone, and
  both report the error flags of the context.
\<close>

locale vlan_filter_hw =
  fixes set_vlan :: "aq_hw_s \<Rightarrow> aq_rx_filter_vlan_s list \<Rightarrow> int \<times> aq_hw_s"
    and ctrl_vlan :: "aq_hw_s \<Rightarrow> bool \<Rightarrow> int \<times> aq_hw_s"
    and good :: "aq_hw_s \<Rightarrow> bool"
    and entry :: "aq_hw_s \<Rightarrow> nat \<Rightarrow> (u32 \<times> u32 \<times> u32 option) option"
    and promisc :: "aq_hw_s \<Rightarrow> bool"
  assumes set_vlan: "good hw \<Longrightarrow> \<forall>i < 16. vlan_fits (vl ! i) \<Longrightarrow> set_vlan hw vl = (e, hw') \<Longrightarrow>
      good hw' \<and> e = aq_hw_err_from_flags hw \<and> aq_hw_err_from_flags hw' = aq_hw_err_from_flags hw \<and>
      promisc hw' \<and> (\<forall>j < 16. entry hw' j = vlan_word (vl ! j))"
    and ctrl_vlan: "good hw \<Longrightarrow> ctrl_vlan hw on = (e, hw') \<Longrightarrow>
      good hw' \<and> e = aq_hw_err_from_flags hw \<and> aq_hw_err_from_flags hw' = aq_hw_err_from_flags hw \<and>
      promisc hw' = (\<not> on) \<and> (\<forall>j < 16. entry hw' j = entry hw j)"
begin

lemma vlans_update:
  assumes "good (flt_hw nic)" "aq_filters_vlans_update ops nic = (err, nic')"
    and ops: "hw_filter_vlan_set ops = Some set_vlan" "hw_filter_vlan_ctrl ops = Some ctrl_vlan"
    and vl: "aq_fvlan_rebuild (active_vlans nic) (aq_vlans (rx_fltrs nic)) = vl"
    and fits: "\<forall>i < 16. vlan_fits (vl ! i)"
  shows "good (flt_hw nic') \<and> err = aq_hw_err_from_flags (flt_hw nic) \<and>
    aq_hw_err_from_flags (flt_hw nic') = aq_hw_err_from_flags (flt_hw nic) \<and>
    rx_fltrs nic' = (rx_fltrs nic)\<lparr>aq_vlans := vl\<rparr> \<and> active_vlans nic' = active_vlans nic \<and>
    (if err = 0 then (\<forall>i < 16. entry (flt_hw nic') i = vlan_word (vl ! i)) \<and>
       (promisc (flt_hw nic') \<longleftrightarrow> HW_ATL_VLAN_MAX_FILTERS < hweight (active_vlans nic))
     else promisc (flt_hw nic'))"
proof -
  obtain e1 hw1 where c1: "ctrl_vlan (flt_hw nic) False = (e1, hw1)" by fastforce
  obtain e2 hw2 where s: "set_vlan hw1 vl = (e2, hw2)" by fastforce
  obtain e3 hw3 where c2: "ctrl_vlan hw2 True = (e3, hw3)" by fastforce
  note f1 = ctrl_vlan [OF assms(1) c1]
  then have "good hw1" by simp
  note f2 = set_vlan [OF this fits s]
  then have "good hw2" by simp
  note f3 = ctrl_vlan [OF this c2]
  show ?thesis
    using assms(2) f1 f2 f3 by (auto simp: aq_filters_vlans_update_def ops vl
        Let_def c1 s c2 split: if_splits)
qed

end

interpretation b0_vlan: vlan_filter_hw hw_atl_b0_hw_vlan_set hw_atl_b0_hw_vlan_ctrl
  chip_hw chip_vlan chip_promisc
  by unfold_locales (use b0_vlan_set in blast, use b0_vlan_ctrl in blast)


subsection \<open>Which VLANs the chip passes\<close>

text \<open>
  The table as the rules leave it: sixteen slots, the pinned ones hold different VLANs, all
  registered with the kernel, and receive queues the chip has.
\<close>

definition vlan_table_ok :: "(nat \<Rightarrow> bool) \<Rightarrow> aq_rx_filter_vlan_s list \<Rightarrow> bool" where
  "vlan_table_ok bm vl \<longleftrightarrow> length vl = HW_ATL_VLAN_MAX_FILTERS \<and> distinct (pinned_ids vl) \<and>
     list_all (\<lambda>v. vlan_pinned v \<longrightarrow> unat (vlan_id v) < VLAN_N_VID \<and> bm (unat (vlan_id v)) \<and>
       unat (vf_queue v) < 32) vl"

lemma fvlan_fill_fits:
  "(\<forall>w \<in> set ws. w < VLAN_N_VID) \<Longrightarrow> (\<forall>v \<in> set vl. vlan_pinned v \<longrightarrow> vlan_fits v) \<Longrightarrow>
   \<forall>v \<in> set (fvlan_fill ws vl). vlan_fits v"
proof (induction ws vl rule: fvlan_fill.induct)
  case (2 ws v vs)
  have "vlan_fits (vlan_none v)" "w < VLAN_N_VID \<Longrightarrow> vlan_fits (vlan_entry w v)" for w
    by (simp_all add: vlan_fits_def) (simp_all add: vlan_entry_def AQ_RX_QUEUE_INVALID_def)
  with 2 show ?case by (auto split: list.split)
qed simp

lemma rebuild_table:
  assumes "vlan_table_ok bm vl"
  defines "vl' \<equiv> aq_fvlan_rebuild bm vl"
  shows "\<forall>i < 16. vlan_fits (vl' ! i)"
    and "vlan_ids vl' \<subseteq> {w. w < VLAN_N_VID \<and> bm w}"
    and "hweight bm \<le> HW_ATL_VLAN_MAX_FILTERS \<Longrightarrow> vlan_ids vl' = {w. w < VLAN_N_VID \<and> bm w}"
    and "length vl' = HW_ATL_VLAN_MAX_FILTERS"
proof -
  have vl: "length vl = HW_ATL_VLAN_MAX_FILTERS" "distinct (pinned_ids vl)"
      "\<forall>w \<in> set (pinned_ids vl). w < VLAN_N_VID \<and> bm w" "\<forall>v \<in> set vl. vlan_pinned v \<longrightarrow> vlan_fits v"
    using assms(1) by (auto simp: vlan_table_ok_def pinned_ids_def list_all_iff vlan_fits_def)
  show "length vl' = HW_ATL_VLAN_MAX_FILTERS"
    using rebuild_pinned(2) [OF vl(1)] by (simp add: vl'_def)
  moreover have "\<forall>v \<in> set vl'. vlan_fits v"
    unfolding vl'_def rebuild_fill [OF vl(1)] by (rule fvlan_fill_fits) (use vl(4) in auto)
  ultimately show "\<forall>i < 16. vlan_fits (vl' ! i)" by (simp add: HW_ATL_VLAN_MAX_FILTERS_def)
  show "vlan_ids vl' \<subseteq> {w. w < VLAN_N_VID \<and> bm w}"
    "hweight bm \<le> HW_ATL_VLAN_MAX_FILTERS \<Longrightarrow> vlan_ids vl' = {w. w < VLAN_N_VID \<and> bm w}"
    using rebuild_ids [OF vl(1-3)] by (simp_all add: vl'_def)
qed

lemma passes_table:
  assumes "length vl = HW_ATL_VLAN_MAX_FILTERS" "\<forall>i < 16. chip_vlan hw i = vlan_word (vl ! i)"
    and "w < VLAN_N_VID"
  shows "chip_passes hw w \<longleftrightarrow> chip_promisc hw \<or> w \<in> vlan_ids vl"
proof -
  have id: "(ucast x :: u32) = of_nat w \<longleftrightarrow> unat x = w" for x :: u16
    using assms(3) unat_u16_less [of x]
    by (simp add: word_unat_eq_iff unsigned_ucast_eq unsigned_of_nat take_bit_nat_eq_self VLAN_N_VID_def)
  have "(\<exists>i < 16. \<exists>q. vlan_word (vl ! i) = Some (of_nat w, 1, q)) \<longleftrightarrow>
      (\<exists>v \<in> set vl. \<exists>q. vlan_word v = Some (of_nat w, 1, q))"
    using assms(1) by (metis HW_ATL_VLAN_MAX_FILTERS_def in_set_conv_nth)
  also have "\<dots> \<longleftrightarrow> w \<in> vlan_ids vl"
    by (auto simp: vlan_word_def vlan_ids_def id)
  finally show ?thesis using assms(2) by (auto simp: chip_passes_def)
qed

lemma vlans_update_passes:
  assumes "chip_hw (flt_hw nic)" "vlan_table_ok (active_vlans nic) (aq_vlans (rx_fltrs nic))"
    and "aq_filters_vlans_update b0_filter_ops nic = (err, nic')" and "w < VLAN_N_VID"
  shows "active_vlans nic w \<Longrightarrow> chip_passes (flt_hw nic') w"
    and "err = 0 \<Longrightarrow> hweight (active_vlans nic) \<le> HW_ATL_VLAN_MAX_FILTERS \<Longrightarrow>
      chip_passes (flt_hw nic') w \<longleftrightarrow> active_vlans nic w"
    and "err = 0 \<Longrightarrow> i < HW_ATL_VLAN_MAX_FILTERS \<Longrightarrow> v = aq_vlans (rx_fltrs nic) ! i \<Longrightarrow> vlan_pinned v \<Longrightarrow>
      chip_vlan (flt_hw nic') i = Some (ucast (vlan_id v), 1, Some (ucast (vf_queue v)))"
proof -
  let ?vl = "aq_fvlan_rebuild (active_vlans nic) (aq_vlans (rx_fltrs nic))"
  note t = rebuild_table [OF assms(2)]
  note u = b0_vlan.vlans_update [OF assms(1,3) _ _ refl t(1)]
  have u: "if err = 0 then (\<forall>i < 16. chip_vlan (flt_hw nic') i = vlan_word (?vl ! i)) \<and>
       (chip_promisc (flt_hw nic') \<longleftrightarrow> HW_ATL_VLAN_MAX_FILTERS < hweight (active_vlans nic))
     else chip_promisc (flt_hw nic')"
    using u by (simp add: b0_filter_ops_def)
  note p = passes_table [OF t(4) _ assms(4)]
  show iff: "err = 0 \<Longrightarrow> hweight (active_vlans nic) \<le> HW_ATL_VLAN_MAX_FILTERS \<Longrightarrow>
      chip_passes (flt_hw nic') w \<longleftrightarrow> active_vlans nic w"
    using u p t(3) assms(4) by simp
  show "active_vlans nic w \<Longrightarrow> chip_passes (flt_hw nic') w"
  proof (cases "err = 0 \<and> hweight (active_vlans nic) \<le> HW_ATL_VLAN_MAX_FILTERS")
    case False
    then have "chip_promisc (flt_hw nic')" using u by (auto split: if_splits)
    then show ?thesis by (simp add: chip_passes_def)
  qed (use iff in blast)
  assume pin: "err = 0" "i < HW_ATL_VLAN_MAX_FILTERS" "v = aq_vlans (rx_fltrs nic) ! i" "vlan_pinned v"
  have "?vl ! i = v"
    using rebuild_pinned(3) [of "aq_vlans (rx_fltrs nic)" i "active_vlans nic"] pin assms(2)
    by (simp add: vlan_table_ok_def)
  then show "chip_vlan (flt_hw nic') i = Some (ucast (vlan_id v), 1, Some (ucast (vf_queue v)))"
    using u pin by (simp add: HW_ATL_VLAN_MAX_FILTERS_def vlan_word_def vlan_pinned_def AQ_RX_QUEUE_INVALID_def)
qed

end
