(* ===== verification/Rule_Table.thy ===== *)
theory Rule_Table
  imports Filters
begin

section \<open>The table of receive rules (aq_filters.c)\<close>

text \<open>
  The list of rules is kept sorted by location with at most one rule per location, so it is a
  finite map from locations to flow specifications. The lemmas below give every operation in
  these terms and show that all of them keep the table well formed: sorted, counted, every
  rule in the locations of its kind, and IPv4 and IPv6 rules never together. The hardware
  operations are arbitrary: whatever they return, the table stays consistent.
\<close>

subsection \<open>The table as a map\<close>

definition rule_map :: "aq_rx_filter list \<Rightarrow> u32 \<rightharpoonup> ethtool_rx_flow_spec" where
  "rule_map rs = map_of (map (\<lambda>r. (rule_loc r, aq_fsp r)) rs)"

definition rules :: "filter_nic \<Rightarrow> aq_rx_filter list" where
  "rules nic = filter_list (rx_fltrs nic)"

definition by_loc :: "aq_rx_filter list \<Rightarrow> bool" where
  "by_loc rs \<longleftrightarrow> sorted_wrt (<) (map rule_loc rs)"

definition rules_below :: "u32 \<Rightarrow> aq_rx_filter list \<Rightarrow> aq_rx_filter list" where
  "rules_below l = filter (\<lambda>r. rule_loc r < l)"

definition rules_above :: "u32 \<Rightarrow> aq_rx_filter list \<Rightarrow> aq_rx_filter list" where
  "rules_above l = filter (\<lambda>r. l < rule_loc r)"

lemma by_loc_Cons [simp]: "by_loc (r # rs) \<longleftrightarrow> (\<forall>x \<in> set rs. rule_loc r < rule_loc x) \<and> by_loc rs"
  by (simp add: by_loc_def)

lemma by_loc_Nil [simp]: "by_loc []"
  by (simp add: by_loc_def)

lemma by_loc_append:
  "by_loc (xs @ ys) \<longleftrightarrow> by_loc xs \<and> by_loc ys \<and> (\<forall>x \<in> set xs. \<forall>y \<in> set ys. rule_loc x < rule_loc y)"
  by (induction xs) auto

lemma by_loc_filter: "by_loc rs \<Longrightarrow> by_loc (filter P rs)"
  by (induction rs) auto

lemma below_takeWhile: "by_loc rs \<Longrightarrow> takeWhile (\<lambda>r. rule_loc r < l) rs = rules_below l rs"
proof (induction rs)
  case (Cons r rs)
  show ?case
  proof (cases "rule_loc r < l")
    case False
    then have "rules_below l rs = []" using Cons.prems by (auto simp: rules_below_def filter_empty_conv)
    with False show ?thesis by (simp add: rules_below_def)
  qed (use Cons in \<open>simp add: rules_below_def\<close>)
qed (simp add: rules_below_def)

lemma rest_dropWhile:
  "by_loc rs \<Longrightarrow> dropWhile (\<lambda>r. rule_loc r < l) rs = filter (\<lambda>r. rule_loc r = l) rs @ rules_above l rs"
proof (induction rs)
  case (Cons r rs)
  show ?case
  proof (cases "rule_loc r < l")
    case True
    with Cons show ?thesis by (auto simp: rules_above_def)
  next
    case False
    then have "\<forall>x \<in> set rs. l < rule_loc x" using Cons.prems by auto
    then have rest: "filter (\<lambda>r. l < rule_loc r) rs = rs" "filter (\<lambda>r. rule_loc r = l) rs = []"
      by (auto simp: rules_above_def filter_id_conv filter_empty_conv)
    from False show ?thesis by (auto simp: rest rules_above_def)
  qed
qed (simp add: rules_above_def)

lemma at_most_one:
  "by_loc rs \<Longrightarrow> (\<exists>r. filter (\<lambda>r. rule_loc r = l) rs = [r] \<and> rule_loc r = l \<and> r \<in> set rs) \<or>
   filter (\<lambda>r. rule_loc r = l) rs = []"
proof (induction rs)
  case (Cons r rs)
  show ?case
  proof (cases "rule_loc r = l")
    case True
    then have "filter (\<lambda>r. rule_loc r = l) rs = []" using Cons.prems by (auto simp: filter_empty_conv)
    with True show ?thesis by simp
  qed (use Cons in auto)
qed simp

lemma without_loc: "by_loc rs \<Longrightarrow> filter (\<lambda>r. rule_loc r \<noteq> l) rs = rules_below l rs @ rules_above l rs"
proof (induction rs)
  case (Cons r rs)
  show ?case
  proof (cases "rule_loc r < l")
    case False
    then have "\<forall>x \<in> set rs. l < rule_loc x" using Cons.prems by auto
    then have "rules_above l rs = rs" "filter (\<lambda>r. rule_loc r \<noteq> l) rs = rs" "rules_below l rs = []"
      by (auto simp: rules_above_def rules_below_def filter_id_conv filter_empty_conv)
    with False show ?thesis by (auto simp: rules_above_def rules_below_def)
  qed (use Cons in \<open>auto simp: rules_above_def rules_below_def\<close>)
qed (simp add: rules_above_def rules_below_def)

lemma rule_map_in: "by_loc rs \<Longrightarrow> r \<in> set rs \<Longrightarrow> rule_map rs (rule_loc r) = Some (aq_fsp r)"
  by (induction rs) (auto simp: rule_map_def)

lemma rule_map_none: "rule_map rs l = None \<longleftrightarrow> (\<forall>r \<in> set rs. rule_loc r \<noteq> l)"
  by (auto simp: rule_map_def map_of_eq_None_iff image_image)

lemma rule_map_append: "rule_map (xs @ ys) = rule_map ys ++ rule_map xs"
  by (simp add: rule_map_def)

lemma rule_map_Cons: "rule_map (r # rs) = (rule_map rs)(rule_loc r \<mapsto> aq_fsp r)"
  by (simp add: rule_map_def)

lemma rule_map_without: "rule_map (filter (\<lambda>r. rule_loc r \<noteq> l) rs) = (rule_map rs)(l := None)"
  by (induction rs) (auto simp: rule_map_def fun_eq_iff)

lemma rule_map_insert:
  assumes "by_loc rs" "rule_loc r = l"
  shows "rule_map (rules_below l rs @ r # rules_above l rs) = (rule_map rs)(l \<mapsto> aq_fsp r)"
proof -
  have "rule_map (rules_below l rs) l = None" by (auto simp: rule_map_none rules_below_def)
  then have "rule_map (rules_below l rs @ r # rules_above l rs) =
      (rule_map (rules_below l rs @ rules_above l rs))(l \<mapsto> aq_fsp r)"
    using assms(2) by (simp add: rule_map_append rule_map_Cons map_add_upd_left domIff)
  also have "rule_map (rules_below l rs @ rules_above l rs) = (rule_map rs)(l := None)"
    using rule_map_without [of l rs] without_loc [OF assms(1)] by simp
  finally show ?thesis by (simp add: fun_eq_iff)
qed

lemma below_above_sets:
  "set (rules_below l rs) = {r \<in> set rs. rule_loc r < l}" "set (rules_above l rs) = {r \<in> set rs. l < rule_loc r}"
  by (auto simp: rules_below_def rules_above_def)

lemma by_loc_insert: "by_loc rs \<Longrightarrow> rule_loc r = l \<Longrightarrow> by_loc (rules_below l rs @ r # rules_above l rs)"
  by (auto simp: by_loc_append below_above_sets by_loc_filter rules_below_def rules_above_def)

lemma by_loc_len: "by_loc rs \<Longrightarrow> length rs =
    length (rules_below l rs @ rules_above l rs) + length (filter (\<lambda>r. rule_loc r = l) rs)"
  unfolding without_loc [symmetric]
  using sum_length_filter_compl [of "\<lambda>r. rule_loc r = l" rs] by simp


subsection \<open>What programming a rule does to the table's state\<close>

definition v4_flows :: "u32 set" where
  "v4_flows = {TCP_V4_FLOW, UDP_V4_FLOW, SCTP_V4_FLOW, IP_USER_FLOW}"

definition v6_flows :: "u32 set" where
  "v6_flows = {TCP_V6_FLOW, UDP_V6_FLOW, SCTP_V6_FLOW, IPV6_USER_FLOW}"

text \<open>The kind of hardware filter a flow specification asks for, if any.\<close>

definition rule_kind :: "ethtool_rx_flow_spec \<Rightarrow> aq_rx_filter_type option" where
  "rule_kind fsp =
     (if flow_type fsp AND FLOW_EXT \<noteq> 0 then
        if vlan_tci (m_ext fsp) = VLAN_VID_MASK then Some aq_rx_filter_vlan
        else if vlan_tci (m_ext fsp) = VLAN_PRIO_MASK then Some aq_rx_filter_ethertype else None
      else if flow_type fsp = ETHER_FLOW then Some aq_rx_filter_ethertype
      else if flow_type fsp \<in> v4_flows \<union> v6_flows then Some aq_rx_filter_l3l4 else None)"

text \<open>The location bits of the layer 3 filters: one per filter for IPv4, one per four for IPv6.\<close>

definition l3_slot :: "ethtool_rx_flow_spec \<Rightarrow> nat" where
  "l3_slot fsp = unat (location fsp) - 32"

definition l3_active :: "aq_hw_rx_fltrs_s \<Rightarrow> ethtool_rx_flow_spec \<Rightarrow> bool" where
  "l3_active fl fsp \<longleftrightarrow>
     (if flow_type fsp \<in> v6_flows then bit (active_ipv6 fl) (l3_slot fsp div 4)
      else bit (active_ipv4 fl) (l3_slot fsp))"

text \<open>The state of the table apart from the list of rules, the VLAN slots and the IP bits.\<close>

definition same_table :: "filter_nic \<Rightarrow> filter_nic \<Rightarrow> bool" where
  "same_table nic nic' \<longleftrightarrow> rules nic' = rules nic \<and> active_vlans nic' = active_vlans nic \<and>
     active_filters (rx_fltrs nic') = active_filters (rx_fltrs nic) \<and>
     fl_is_ipv6 (rx_fltrs nic') = fl_is_ipv6 (rx_fltrs nic) \<and>
     length (aq_vlans (rx_fltrs nic')) = length (aq_vlans (rx_fltrs nic)) \<and>
     ntuple_on nic' = ntuple_on nic \<and> vlan_filter_on nic' = vlan_filter_on nic \<and>
     online_cpus nic' = online_cpus nic"

definition same_ip :: "filter_nic \<Rightarrow> filter_nic \<Rightarrow> bool" where
  "same_ip nic nic' \<longleftrightarrow> active_ipv4 (rx_fltrs nic') = active_ipv4 (rx_fltrs nic) \<and>
     active_ipv6 (rx_fltrs nic') = active_ipv6 (rx_fltrs nic)"

lemma fvlan_pick_length: "length (fst (fvlan_pick bm i vl vlan)) = length vl"
  by (induction bm i vl vlan rule: fvlan_pick.induct) (subst fvlan_pick.simps, auto simp: Let_def)

lemma fvlan_slot_length: "length (fst (fvlan_slot bm i st)) = length (fst st)"
  by (simp add: fvlan_slot_def split_beta fvlan_pick_length)

lemma rebuild_length [simp]: "length (aq_fvlan_rebuild bm vl) = length vl"
proof -
  have "length (fst (fold (fvlan_slot bm) is st)) = length (fst st)" for "is" st
    by (induction "is" arbitrary: st) (simp_all add: fvlan_slot_length)
  then show ?thesis by (simp add: aq_fvlan_rebuild_def)
qed

lemma set_data_fvlan_length [simp]: "length (aq_set_data_fvlan rule vl add) = length vl"
  by (simp add: aq_set_data_fvlan_def Let_def)

lemma vlans_update_same:
  assumes "aq_filters_vlans_update ops nic = (err, nic')"
  shows "same_table nic nic' \<and> same_ip nic nic'"
  using assms
  by (auto simp: aq_filters_vlans_update_def same_table_def same_ip_def rules_def Let_def split_beta
      split: option.splits if_splits)

lemma fvlan_same:
  assumes "aq_add_del_fvlan ops nic rule add = (err, nic')"
  shows "same_table nic nic' \<and> same_ip nic nic'"
  using assms
  by (auto simp: aq_add_del_fvlan_def same_table_def same_ip_def rules_def
      split: if_splits dest!: vlans_update_same)

lemma fether_same:
  assumes "aq_add_del_fether ops nic rule add = (err, nic')"
  shows "same_table nic nic' \<and> same_ip nic nic'"
  using assms
  by (auto simp: aq_add_del_fether_def same_table_def same_ip_def rules_def Let_def split_beta
      split: option.splits)


text \<open>The IP bits after a layer 3 rule was added or removed.\<close>

definition ip_bits :: "aq_hw_rx_fltrs_s \<Rightarrow> ethtool_rx_flow_spec \<Rightarrow> bool \<Rightarrow> aq_hw_rx_fltrs_s" where
  "ip_bits fl fsp add =
     (if \<not> fl_is_ipv6 fl then
        fl\<lparr>active_ipv4 := if add then active_ipv4 fl OR ucast (BIT (l3_slot fsp))
          else active_ipv4 fl AND NOT (ucast (BIT (l3_slot fsp)))\<rparr>
      else fl\<lparr>active_ipv6 := if add then active_ipv6 fl OR ucast (BIT (l3_slot fsp div 4))
          else active_ipv6 fl AND NOT (ucast (BIT (l3_slot fsp div 4)))\<rparr>)"

lemma l3_loc:
  assumes "\<not> (location fsp < AQ_RX_FIRST_LOC_FL3L4 \<or> location fsp > AQ_RX_LAST_LOC_FL3L4)"
  shows "unat (ucast (location fsp - AQ_RX_FIRST_LOC_FL3L4) :: u8) = l3_slot fsp" "l3_slot fsp < 8"
proof -
  have "32 \<le> unat (location fsp)" "unat (location fsp) \<le> 39"
    using assms by (simp_all add: loc_defs word_less_nat_alt word_le_nat_alt not_less)
  moreover from this have "unat (location fsp - 32) = unat (location fsp) - 32"
    by (simp add: unat_sub word_le_nat_alt)
  ultimately show "unat (ucast (location fsp - AQ_RX_FIRST_LOC_FL3L4) :: u8) = l3_slot fsp" "l3_slot fsp < 8"
    by (simp_all add: l3_slot_def loc_defs unsigned_ucast_eq take_bit_nat_eq_self)
qed

lemma set_data_fl3l4_fl:
  assumes "\<not> (location (aq_fsp rule) < AQ_RX_FIRST_LOC_FL3L4 \<or> location (aq_fsp rule) > AQ_RX_LAST_LOC_FL3L4)"
  shows "snd (aq_set_data_fl3l4 fl rule add) = ip_bits fl (aq_fsp rule) add"
  using l3_loc [OF assms] by (simp add: aq_set_data_fl3l4_def ip_bits_def Let_def)

lemma fl3l4_same:
  assumes "aq_add_del_fl3l4 ops nic rule add = (err, nic')"
  shows "same_table nic nic' \<and>
    (if location (aq_fsp rule) < AQ_RX_FIRST_LOC_FL3L4 \<or> location (aq_fsp rule) > AQ_RX_LAST_LOC_FL3L4
     then same_ip nic nic' \<and> err \<noteq> 0 else rx_fltrs nic' = ip_bits (rx_fltrs nic) (aq_fsp rule) add)"
proof (cases "location (aq_fsp rule) < AQ_RX_FIRST_LOC_FL3L4 \<or> location (aq_fsp rule) > AQ_RX_LAST_LOC_FL3L4")
  case True
  then show ?thesis using assms
    by (auto simp: aq_add_del_fl3l4_def Let_def same_table_def same_ip_def errno_defs)
next
  case False
  then have "rx_fltrs nic' = ip_bits (rx_fltrs nic) (aq_fsp rule) add \<and> active_vlans nic' = active_vlans nic \<and>
      ntuple_on nic' = ntuple_on nic \<and> vlan_filter_on nic' = vlan_filter_on nic \<and>
      online_cpus nic' = online_cpus nic"
    using assms set_data_fl3l4_fl [OF False, of "rx_fltrs nic" add]
    by (auto simp: aq_add_del_fl3l4_def Let_def split_beta)
  with False show ?thesis by (auto simp: same_table_def rules_def ip_bits_def)
qed


definition add_del_kind :: "aq_rx_filter_type \<Rightarrow> filter_ops \<Rightarrow> filter_nic \<Rightarrow> aq_rx_filter \<Rightarrow> bool \<Rightarrow> int \<times> filter_nic" where
  "add_del_kind k = (case k of aq_rx_filter_vlan \<Rightarrow> aq_add_del_fvlan
     | aq_rx_filter_ethertype \<Rightarrow> aq_add_del_fether | aq_rx_filter_l3l4 \<Rightarrow> aq_add_del_fl3l4)"

lemma not_ext: "t AND FLOW_EXT = 0 \<Longrightarrow> t AND NOT FLOW_EXT = (t :: u32)"
proof (rule bit_word_eqI)
  fix n
  assume "t AND FLOW_EXT = 0"
  then have "\<not> (bit t n \<and> bit FLOW_EXT n)" by (metis bit_0_eq bit_and_iff bot_apply bot_bool_def)
  then show "bit (t AND NOT FLOW_EXT) n = bit t n"
    by (auto simp: bit_and_iff bit_not_iff dest: bit_imp_le_length)
qed

lemma add_del_rule_kind:
  "aq_add_del_rule ops nic rule add =
    (case rule_kind (aq_fsp rule) of
       None \<Rightarrow> (- EINVAL, rule, nic)
     | Some k \<Rightarrow> let rule' = rule\<lparr>rule_type := k\<rparr>; (err, nic') = add_del_kind k ops nic rule' add
                 in (err, rule', nic'))"
proof -
  let ?t = "flow_type (aq_fsp rule)"
  have set: "{TCP_V4_FLOW, UDP_V4_FLOW, SCTP_V4_FLOW, IP_USER_FLOW, TCP_V6_FLOW,
      UDP_V6_FLOW, SCTP_V6_FLOW, IPV6_USER_FLOW} = v4_flows \<union> v6_flows"
    by (auto simp: v4_flows_def v6_flows_def)
  show ?thesis
    unfolding aq_add_del_rule_def rule_kind_def set
    by (simp add: Let_def add_del_kind_def not_ext)
qed

text \<open>What a call to \<open>aq_add_del_rule\<close> may change.\<close>

lemma add_del_rule_frame:
  assumes "aq_add_del_rule ops nic rule add = (err, rule', nic')"
  shows "same_table nic nic'" "aq_fsp rule' = aq_fsp rule"
    "\<And>k. rule_kind (aq_fsp rule) = Some k \<Longrightarrow> rule_type rule' = k"
    "rule_kind (aq_fsp rule) = None \<Longrightarrow> err \<noteq> 0 \<and> nic' = nic"
    "rule_kind (aq_fsp rule) \<noteq> Some aq_rx_filter_l3l4 \<Longrightarrow> same_ip nic nic'"
    "rule_kind (aq_fsp rule) = Some aq_rx_filter_l3l4 \<Longrightarrow>
     (if location (aq_fsp rule) < AQ_RX_FIRST_LOC_FL3L4 \<or> location (aq_fsp rule) > AQ_RX_LAST_LOC_FL3L4
      then same_ip nic nic' \<and> err \<noteq> 0 else rx_fltrs nic' = ip_bits (rx_fltrs nic) (aq_fsp rule) add)"
proof -
  note a = assms[unfolded add_del_rule_kind]
  consider (none) "rule_kind (aq_fsp rule) = None" "err = - EINVAL" "rule' = rule" "nic' = nic"
    | (some) k where "rule_kind (aq_fsp rule) = Some k" "rule' = rule\<lparr>rule_type := k\<rparr>"
        "add_del_kind k ops nic rule' add = (err, nic')"
    using a by (cases "rule_kind (aq_fsp rule)") (auto simp: Let_def split: prod.splits)
  then have "same_table nic nic' \<and> aq_fsp rule' = aq_fsp rule \<and>
      (\<forall>k. rule_kind (aq_fsp rule) = Some k \<longrightarrow> rule_type rule' = k) \<and>
      (rule_kind (aq_fsp rule) = None \<longrightarrow> err \<noteq> 0 \<and> nic' = nic) \<and>
      (rule_kind (aq_fsp rule) \<noteq> Some aq_rx_filter_l3l4 \<longrightarrow> same_ip nic nic') \<and>
      (rule_kind (aq_fsp rule) = Some aq_rx_filter_l3l4 \<longrightarrow>
     (if location (aq_fsp rule) < AQ_RX_FIRST_LOC_FL3L4 \<or> location (aq_fsp rule) > AQ_RX_LAST_LOC_FL3L4
      then same_ip nic nic' \<and> err \<noteq> 0 else rx_fltrs nic' = ip_bits (rx_fltrs nic) (aq_fsp rule) add))"
  proof cases
    case none
    then show ?thesis by (simp add: same_table_def same_ip_def errno_defs)
  next
    case some
    then show ?thesis
      using fvlan_same [of ops nic rule' add err nic'] fether_same [of ops nic rule' add err nic']
        fl3l4_same [of ops nic rule' add err nic']
      by (cases k) (simp_all add: add_del_kind_def)
  qed
  then show "same_table nic nic'" "aq_fsp rule' = aq_fsp rule"
    "\<And>k. rule_kind (aq_fsp rule) = Some k \<Longrightarrow> rule_type rule' = k"
    "rule_kind (aq_fsp rule) = None \<Longrightarrow> err \<noteq> 0 \<and> nic' = nic"
    "rule_kind (aq_fsp rule) \<noteq> Some aq_rx_filter_l3l4 \<Longrightarrow> same_ip nic nic'"
    "rule_kind (aq_fsp rule) = Some aq_rx_filter_l3l4 \<Longrightarrow>
     (if location (aq_fsp rule) < AQ_RX_FIRST_LOC_FL3L4 \<or> location (aq_fsp rule) > AQ_RX_LAST_LOC_FL3L4
      then same_ip nic nic' \<and> err \<noteq> 0 else rx_fltrs nic' = ip_bits (rx_fltrs nic) (aq_fsp rule) add)"
    by blast+
qed


subsection \<open>The invariant of the table\<close>

definition ip_excl :: "aq_hw_rx_fltrs_s \<Rightarrow> bool" where
  "ip_excl fl \<longleftrightarrow> (active_ipv4 fl \<noteq> 0 \<longrightarrow> \<not> fl_is_ipv6 fl) \<and> (active_ipv6 fl \<noteq> 0 \<longrightarrow> fl_is_ipv6 fl)"

definition kind_ok :: "aq_rx_filter_type \<Rightarrow> ethtool_rx_flow_spec \<Rightarrow> bool" where
  "kind_ok k fsp \<longleftrightarrow> (case k of
       aq_rx_filter_vlan \<Rightarrow> location fsp \<le> AQ_RX_LAST_LOC_FVLANID
     | aq_rx_filter_ethertype \<Rightarrow> AQ_RX_FIRST_LOC_FETHERT \<le> location fsp \<and> location fsp \<le> AQ_RX_LAST_LOC_FETHERT
     | aq_rx_filter_l3l4 \<Rightarrow> AQ_RX_FIRST_LOC_FL3L4 \<le> location fsp \<and> location fsp \<le> AQ_RX_LAST_LOC_FL3L4 \<and>
         (flow_type fsp \<in> v6_flows \<longrightarrow> location fsp \<in> {AQ_RX_FIRST_LOC_FL3L4, AQ_RX_FIRST_LOC_FL3L4 + 4}))"

definition rule_ok :: "aq_hw_rx_fltrs_s \<Rightarrow> aq_rx_filter \<Rightarrow> bool" where
  "rule_ok fl r \<longleftrightarrow> rule_kind (aq_fsp r) = Some (rule_type r) \<and> kind_ok (rule_type r) (aq_fsp r) \<and>
     (rule_type r = aq_rx_filter_l3l4 \<longrightarrow> l3_active fl (aq_fsp r))"

definition table_ok :: "filter_nic \<Rightarrow> bool" where
  "table_ok nic \<longleftrightarrow> by_loc (rules nic) \<and>
     active_filters (rx_fltrs nic) = of_nat (length (rules nic)) \<and>
     list_all (rule_ok (rx_fltrs nic)) (rules nic) \<and> ip_excl (rx_fltrs nic) \<and>
     length (aq_vlans (rx_fltrs nic)) = HW_ATL_VLAN_MAX_FILTERS"

lemma bit_ucast_BIT: "bit (ucast (BIT n) :: 'a::len word) k \<longleftrightarrow> k = n \<and> k < LENGTH('a) \<and> n < 32"
  by (auto simp: BIT_def bit_simps dest: bit_imp_le_length)

lemma kind_ok_slot:
  assumes "kind_ok aq_rx_filter_l3l4 fsp"
  shows "l3_slot fsp < 8" "flow_type fsp \<in> v6_flows \<Longrightarrow> l3_slot fsp \<in> {0, 4}"
    "kind_ok aq_rx_filter_l3l4 fsp' \<Longrightarrow> l3_slot fsp = l3_slot fsp' \<longleftrightarrow> location fsp = location fsp'"
    "\<not> (location fsp < AQ_RX_FIRST_LOC_FL3L4 \<or> location fsp > AQ_RX_LAST_LOC_FL3L4)"
  using assms
  by (auto simp: kind_ok_def l3_slot_def loc_defs word_le_nat_alt word_less_nat_alt word_unat_eq_iff)

lemma rule_ok_same_ip: "same_ip nic nic' \<Longrightarrow> rule_ok (rx_fltrs nic') r = rule_ok (rx_fltrs nic) r"
  by (simp add: rule_ok_def l3_active_def same_ip_def)

lemma l3_active_add:
  "l3_active fl fsp' \<Longrightarrow> l3_active (ip_bits fl fsp True) fsp'"
  by (auto simp: l3_active_def ip_bits_def bit_or_iff)

lemma rule_ok_add: "rule_ok fl r \<Longrightarrow> rule_ok (ip_bits fl fsp True) r"
  by (auto simp: rule_ok_def l3_active_add)

lemma ip_excl_bits: "ip_excl fl \<Longrightarrow> ip_excl (ip_bits fl fsp add)"
  by (auto simp: ip_excl_def ip_bits_def)

lemma active_nonzero:
  assumes "l3_active fl fsp"
  shows "(if flow_type fsp \<in> v6_flows then active_ipv6 fl \<noteq> 0 else active_ipv4 fl \<noteq> 0)"
  using assms by (auto simp: l3_active_def)

lemma rule_ok_del:
  assumes "ip_excl fl" "rule_ok fl r" "rule_type r = aq_rx_filter_l3l4"
    and "rule_ok fl r'" "rule_loc r' \<noteq> rule_loc r"
  shows "rule_ok (ip_bits fl (aq_fsp r) False) r'"
proof (cases "rule_type r' = aq_rx_filter_l3l4")
  case True
  have k: "kind_ok aq_rx_filter_l3l4 (aq_fsp r)" "kind_ok aq_rx_filter_l3l4 (aq_fsp r')"
    using assms True by (auto simp: rule_ok_def)
  have a: "l3_active fl (aq_fsp r)" "l3_active fl (aq_fsp r')" using assms True by (auto simp: rule_ok_def)
  note n = active_nonzero [OF a(1)] active_nonzero [OF a(2)]
  have ne: "l3_slot (aq_fsp r) \<noteq> l3_slot (aq_fsp r')"
    using kind_ok_slot(3) [OF k] assms(5) by (simp add: rule_loc_def)
  have "l3_active (ip_bits fl (aq_fsp r) False) (aq_fsp r')"
  proof (cases "fl_is_ipv6 fl")
    case True
    then have "flow_type (aq_fsp r) \<in> v6_flows" "flow_type (aq_fsp r') \<in> v6_flows"
      using n assms(1) by (auto simp: ip_excl_def split: if_splits)
    with kind_ok_slot(2) [OF k(1)] kind_ok_slot(2) [OF k(2)] ne a True show ?thesis
      by (auto simp: l3_active_def ip_bits_def bit_and_iff bit_not_iff bit_ucast_BIT)
  next
    case False
    then have "flow_type (aq_fsp r) \<notin> v6_flows" "flow_type (aq_fsp r') \<notin> v6_flows"
      using n assms(1) by (auto simp: ip_excl_def split: if_splits)
    with kind_ok_slot(1) [OF k(1)] kind_ok_slot(1) [OF k(2)] ne a False show ?thesis
      by (auto simp: l3_active_def ip_bits_def bit_and_iff bit_not_iff bit_ucast_BIT)
  qed
  with assms(4) show ?thesis by (simp add: rule_ok_def)
qed (use assms(4) in \<open>simp add: rule_ok_def\<close>)


lemma same_ip_excl: "same_table nic nic' \<Longrightarrow> same_ip nic nic' \<Longrightarrow> ip_excl (rx_fltrs nic') = ip_excl (rx_fltrs nic)"
  by (simp add: same_table_def same_ip_def ip_excl_def)

lemma add_keeps:
  assumes "aq_add_del_rule ops nic r True = (err, r', nic')" "ip_excl (rx_fltrs nic)"
  shows "ip_excl (rx_fltrs nic') \<and> (\<forall>x. rule_ok (rx_fltrs nic) x \<longrightarrow> rule_ok (rx_fltrs nic') x)"
proof -
  note f = add_del_rule_frame [OF assms(1)]
  consider "same_ip nic nic'" | "rx_fltrs nic' = ip_bits (rx_fltrs nic) (aq_fsp r) True"
    using f(5,6) by (metis (full_types))
  then show ?thesis
  proof cases
    case 1
    then show ?thesis using same_ip_excl [OF f(1)] assms(2) rule_ok_same_ip by blast
  next
    case 2
    then show ?thesis using ip_excl_bits [OF assms(2)] rule_ok_add by simp
  qed
qed

lemma del_keeps:
  assumes "aq_add_del_rule ops nic r False = (err, r', nic')" "ip_excl (rx_fltrs nic)"
    and "rule_ok (rx_fltrs nic) r"
  shows "ip_excl (rx_fltrs nic') \<and>
    (\<forall>x. rule_ok (rx_fltrs nic) x \<longrightarrow> rule_loc x \<noteq> rule_loc r \<longrightarrow> rule_ok (rx_fltrs nic') x)"
proof -
  note f = add_del_rule_frame [OF assms(1)]
  have k: "rule_kind (aq_fsp r) = Some (rule_type r)" using assms(3) by (simp add: rule_ok_def)
  consider "same_ip nic nic'" | "rule_type r = aq_rx_filter_l3l4"
      "rx_fltrs nic' = ip_bits (rx_fltrs nic) (aq_fsp r) False"
    using f(5,6) k by (metis option.inject)
  then show ?thesis
  proof cases
    case 1
    then show ?thesis using same_ip_excl [OF f(1)] assms(2) rule_ok_same_ip by blast
  next
    case 2
    then show ?thesis using ip_excl_bits [OF assms(2)] rule_ok_del [OF assms(2,3)] by simp
  qed
qed


subsection \<open>Checking\<close>

definition set_v6 :: "bool \<Rightarrow> filter_nic \<Rightarrow> filter_nic" where
  "set_v6 b nic = nic\<lparr>rx_fltrs := (rx_fltrs nic)\<lparr>fl_is_ipv6 := b\<rparr>\<rparr>"

lemma set_v6_sel [simp]:
  "rules (set_v6 b nic) = rules nic" "active_vlans (set_v6 b nic) = active_vlans nic"
  "flt_hw (set_v6 b nic) = flt_hw nic" "fl_is_ipv6 (rx_fltrs (set_v6 b nic)) = b"
  "active_ipv4 (rx_fltrs (set_v6 b nic)) = active_ipv4 (rx_fltrs nic)"
  "active_ipv6 (rx_fltrs (set_v6 b nic)) = active_ipv6 (rx_fltrs nic)"
  "active_filters (rx_fltrs (set_v6 b nic)) = active_filters (rx_fltrs nic)"
  "aq_vlans (rx_fltrs (set_v6 b nic)) = aq_vlans (rx_fltrs nic)"
  "rule_ok (rx_fltrs (set_v6 b nic)) r = rule_ok (rx_fltrs nic) r"
  by (simp_all add: set_v6_def rules_def rule_ok_def l3_active_def)

definition l3_flows :: "u32 set" where
  "l3_flows = v4_flows \<union> v6_flows \<union> {IPV4_FLOW, IPV6_FLOW}"

lemma check_filter_spec:
  assumes "aq_check_filter nic fsp = (err, nic')" "ip_excl (rx_fltrs nic)"
  obtains b where "nic' = set_v6 b nic" "ip_excl (rx_fltrs nic')"
    "err \<in> {0, - EINVAL}"
    "err = 0 \<Longrightarrow> case rule_kind fsp of
       Some aq_rx_filter_vlan \<Rightarrow> kind_ok aq_rx_filter_vlan fsp \<and>
         active_vlans nic (unat (vlan_tci (h_ext fsp))) \<and>
         ring_cookie fsp \<le> ucast (num_rss_queues (aq_nic_cfg (flt_hw nic)))
     | Some aq_rx_filter_ethertype \<Rightarrow> kind_ok aq_rx_filter_ethertype fsp
     | _ \<Rightarrow> flow_type fsp \<in> l3_flows \<and> flow_type fsp AND FLOW_EXT = 0 \<and>
         b = (flow_type fsp \<in> v6_flows \<union> {IPV6_FLOW}) \<and>
         (b \<longrightarrow> location fsp \<in> {AQ_RX_FIRST_LOC_FL3L4, AQ_RX_FIRST_LOC_FL3L4 + 4})"
proof -
  let ?t = "flow_type fsp"
  have id: "set_v6 (fl_is_ipv6 (rx_fltrs nic)) nic = nic" by (simp add: set_v6_def)
  show ?thesis
  proof (cases "?t AND FLOW_EXT = 0 \<and> ?t \<in> l3_flows")
    case l3: True
    define b where "b = (?t \<in> v6_flows \<union> {IPV6_FLOW})"
    have t: "?t AND NOT FLOW_EXT = ?t" using l3 not_ext by simp
    have kind: "rule_kind fsp \<in> {None, Some aq_rx_filter_l3l4}"
      using l3 by (auto simp: rule_kind_def l3_flows_def v4_flows_def v6_flows_def flow_defs)
    obtain fl where c: "aq_check_approve_fl3l4 ((rx_fltrs nic)\<lparr>fl_is_ipv6 := b\<rparr>) fsp = (err, fl)"
      and nic': "nic' = nic\<lparr>rx_fltrs := fl\<rparr>"
      using assms(1) l3 t
      by (auto simp: aq_check_filter_def Let_def b_def l3_flows_def v4_flows_def v6_flows_def flow_defs
          split: prod.splits)
    define b' where "b' = (if b \<and> active_ipv4 (rx_fltrs nic) \<noteq> 0 then False
      else if \<not> b \<and> active_ipv6 (rx_fltrs nic) \<noteq> 0 then True else b)"
    have fl: "fl = (rx_fltrs nic)\<lparr>fl_is_ipv6 := b'\<rparr>"
      using c by (auto simp: aq_check_approve_fl3l4_def b'_def split: if_splits)
    have n: "nic' = set_v6 b' nic" by (simp add: nic' fl set_v6_def)
    have e: "ip_excl (rx_fltrs nic')"
      using assms(2) by (auto simp: n ip_excl_def b'_def)
    have err: "err \<in> {0, - EINVAL}" using c by (auto simp: aq_check_approve_fl3l4_def split: if_splits)
    have ok: "b' = b \<and> (b \<longrightarrow> location fsp \<in> {AQ_RX_FIRST_LOC_FL3L4, AQ_RX_FIRST_LOC_FL3L4 + 4})" if "err = 0"
      using c that by (auto simp: aq_check_approve_fl3l4_def b'_def errno_defs split: if_splits)
    show ?thesis
      by (rule that [OF n e err]) (use ok kind l3 in \<open>auto simp: b_def\<close>)
  next
    case False
    have r: "nic' = nic \<and> err \<in> {0, - EINVAL} \<and> (err = 0 \<longrightarrow> (case rule_kind fsp of
       Some aq_rx_filter_vlan \<Rightarrow> kind_ok aq_rx_filter_vlan fsp \<and>
         active_vlans nic (unat (vlan_tci (h_ext fsp))) \<and>
         ring_cookie fsp \<le> ucast (num_rss_queues (aq_nic_cfg (flt_hw nic)))
     | Some aq_rx_filter_ethertype \<Rightarrow> kind_ok aq_rx_filter_ethertype fsp
     | _ \<Rightarrow> False))"
    proof (cases "?t AND FLOW_EXT = 0")
      case ext: False
      then show ?thesis
        using assms(1)
        by (auto simp: aq_check_filter_def rule_kind_def kind_ok_def aq_check_approve_fvlan_def
            aq_check_approve_fl2_def errno_defs loc_defs split: if_splits)
    next
      case True
      note t = not_ext [OF True]
      have "?t \<notin> l3_flows" using False True by simp
      then show ?thesis
        using assms(1) True t
        by (auto simp: aq_check_filter_def rule_kind_def kind_ok_def Let_def l3_flows_def
            v4_flows_def v6_flows_def aq_check_approve_fl2_def errno_defs loc_defs split: if_splits)
    qed
    show ?thesis
      by (rule that [of "fl_is_ipv6 (rx_fltrs nic)"])
        (use r id assms(2) in \<open>auto split: option.splits aq_rx_filter_type.splits\<close>)
  qed
qed


text \<open>What a rule that passed the checks is known to satisfy.\<close>

definition placed :: "aq_hw_rx_fltrs_s \<Rightarrow> ethtool_rx_flow_spec \<Rightarrow> bool" where
  "placed fl fsp \<longleftrightarrow> location fsp \<le> AQ_RX_MAX_RXNFC_LOC \<and>
     (case rule_kind fsp of
       Some aq_rx_filter_vlan \<Rightarrow> kind_ok aq_rx_filter_vlan fsp
     | Some aq_rx_filter_ethertype \<Rightarrow> kind_ok aq_rx_filter_ethertype fsp
     | _ \<Rightarrow> flow_type fsp \<in> l3_flows \<and> flow_type fsp AND FLOW_EXT = 0 \<and>
         fl_is_ipv6 fl = (flow_type fsp \<in> v6_flows \<union> {IPV6_FLOW}) \<and>
         (fl_is_ipv6 fl \<longrightarrow> location fsp \<in> {AQ_RX_FIRST_LOC_FL3L4, AQ_RX_FIRST_LOC_FL3L4 + 4}))"

lemma placed_v6: "fl_is_ipv6 fl = fl_is_ipv6 fl' \<Longrightarrow> placed fl fsp = placed fl' fsp"
  unfolding placed_def by (rule arg_cong2 [of _ _ _ _ "(\<and>)"]) (simp_all only:)

definition checked :: "filter_nic \<Rightarrow> ethtool_rx_flow_spec \<Rightarrow> bool" where
  "checked nic fsp \<longleftrightarrow> placed (rx_fltrs nic) fsp \<and>
     (ring_cookie fsp = RX_CLS_FLOW_DISC \<or> ring_cookie fsp < ucast (online_cpus nic)) \<and>
     (rule_kind fsp = Some aq_rx_filter_vlan \<longrightarrow> active_vlans nic (unat (vlan_tci (h_ext fsp))) \<and>
       ring_cookie fsp \<le> ucast (num_rss_queues (aq_nic_cfg (flt_hw nic)))) \<and>
     ntuple_on nic \<and> \<not> aq_rule_already_exists nic fsp"

lemma check_rule_spec:
  assumes "aq_check_rule nic fsp = (err, nic')" "ip_excl (rx_fltrs nic)"
  obtains b where "nic' = set_v6 b nic" "ip_excl (rx_fltrs nic')"
    "err \<in> {0, - EINVAL, - EOPNOTSUPP, - EEXIST}" "err = 0 \<Longrightarrow> checked nic' fsp"
proof -
  obtain e1 nic1 where c: "aq_check_filter nic fsp = (e1, nic1)" by fastforce
  obtain b where b: "nic1 = set_v6 b nic" "ip_excl (rx_fltrs nic1)" "e1 \<in> {0, - EINVAL}"
    and ok: "e1 = 0 \<Longrightarrow> case rule_kind fsp of
       Some aq_rx_filter_vlan \<Rightarrow> kind_ok aq_rx_filter_vlan fsp \<and>
         active_vlans nic (unat (vlan_tci (h_ext fsp))) \<and>
         ring_cookie fsp \<le> ucast (num_rss_queues (aq_nic_cfg (flt_hw nic)))
     | Some aq_rx_filter_ethertype \<Rightarrow> kind_ok aq_rx_filter_ethertype fsp
     | _ \<Rightarrow> flow_type fsp \<in> l3_flows \<and> flow_type fsp AND FLOW_EXT = 0 \<and>
         b = (flow_type fsp \<in> v6_flows \<union> {IPV6_FLOW}) \<and>
         (b \<longrightarrow> location fsp \<in> {AQ_RX_FIRST_LOC_FL3L4, AQ_RX_FIRST_LOC_FL3L4 + 4})"
    using check_filter_spec [OF c assms(2)] by blast
  have err: "err \<in> {0, - EINVAL, - EOPNOTSUPP, - EEXIST}"
    using assms(1) by (auto simp: aq_check_rule_def split: prod.splits if_splits)
  have id: "set_v6 (fl_is_ipv6 (rx_fltrs nic)) nic = nic" by (simp add: set_v6_def)
  show ?thesis
  proof (cases "flow_type fsp AND FLOW_MAC_EXT \<noteq> 0 \<or> location fsp > AQ_RX_MAX_RXNFC_LOC")
    case True
    then have "nic' = nic" "err \<noteq> 0"
      using assms(1) by (cases "flow_type fsp AND FLOW_MAC_EXT \<noteq> 0";
        simp add: aq_check_rule_def aq_rule_is_not_correct_def errno_defs; fail)+
    then show ?thesis using that [of "fl_is_ipv6 (rx_fltrs nic)"] id err assms(2) by simp
  next
    case False
    then have r: "nic' = nic1" "err = 0 \<Longrightarrow> e1 = 0 \<and> location fsp \<le> AQ_RX_MAX_RXNFC_LOC \<and>
        (ring_cookie fsp = RX_CLS_FLOW_DISC \<or> ring_cookie fsp < ucast (online_cpus nic1)) \<and>
        ntuple_on nic1 \<and> \<not> aq_rule_already_exists nic1 fsp"
      using assms(1)
      by (auto simp: aq_check_rule_def aq_rule_is_not_correct_def aq_rule_is_not_support_def c
          errno_defs split: if_splits)
    have "checked nic' fsp" if "err = 0"
      using r(2) [OF that] ok b(1) unfolding checked_def placed_def r(1) by (simp split: option.splits aq_rx_filter_type.splits)
    then show ?thesis using that [of b] b r(1) err by simp
  qed
qed


subsection \<open>Removing and inserting\<close>

lemma list_sel [simp]:
  "rules (set_list rs nic) = rs" "rules (add_active d nic) = rules nic"
  "active_filters (rx_fltrs (set_list rs nic)) = active_filters (rx_fltrs nic)"
  "active_filters (rx_fltrs (add_active d nic)) = active_filters (rx_fltrs nic) + d"
  "ip_excl (rx_fltrs (set_list rs nic)) = ip_excl (rx_fltrs nic)"
  "ip_excl (rx_fltrs (add_active d nic)) = ip_excl (rx_fltrs nic)"
  "rule_ok (rx_fltrs (set_list rs nic)) = rule_ok (rx_fltrs nic)"
  "rule_ok (rx_fltrs (add_active d nic)) = rule_ok (rx_fltrs nic)"
  "aq_vlans (rx_fltrs (set_list rs nic)) = aq_vlans (rx_fltrs nic)"
  "aq_vlans (rx_fltrs (add_active d nic)) = aq_vlans (rx_fltrs nic)"
  "active_vlans (set_list rs nic) = active_vlans nic" "active_vlans (add_active d nic) = active_vlans nic"
  "fl_is_ipv6 (rx_fltrs (set_list rs nic)) = fl_is_ipv6 (rx_fltrs nic)"
  "fl_is_ipv6 (rx_fltrs (add_active d nic)) = fl_is_ipv6 (rx_fltrs nic)"
  "filter_list (rx_fltrs (set_list rs nic)) = rs"
  "filter_list (rx_fltrs (add_active d nic)) = filter_list (rx_fltrs nic)"
  "active_ipv4 (rx_fltrs (set_list rs nic)) = active_ipv4 (rx_fltrs nic)"
  "active_ipv4 (rx_fltrs (add_active d nic)) = active_ipv4 (rx_fltrs nic)"
  "active_ipv6 (rx_fltrs (set_list rs nic)) = active_ipv6 (rx_fltrs nic)"
  "active_ipv6 (rx_fltrs (add_active d nic)) = active_ipv6 (rx_fltrs nic)"
  by (simp_all add: rules_def set_list_def add_active_def ip_excl_def rule_ok_def l3_active_def fun_eq_iff)

text \<open>What is left of the rules when the one at location \<open>l\<close> goes.\<close>

definition others :: "u32 \<Rightarrow> aq_rx_filter list \<Rightarrow> aq_rx_filter list" where
  "others l = filter (\<lambda>r. rule_loc r \<noteq> l)"

lemma others_split: "by_loc rs \<Longrightarrow> others l rs = rules_below l rs @ rules_above l rs"
  by (simp add: others_def without_loc)

lemma others_length:
  assumes "by_loc rs" "r \<in> set rs" "rule_loc r = l"
  shows "length rs = Suc (length (others l rs))"
proof -
  have "filter (\<lambda>r. rule_loc r = l) rs \<noteq> []" using assms by (auto simp: filter_empty_conv)
  then show ?thesis
    using at_most_one [OF assms(1), of l] by_loc_len [OF assms(1), of l]
    by (auto simp: others_split [OF assms(1)])
qed

lemma others_absent: "(\<forall>r \<in> set rs. rule_loc r \<noteq> l) \<Longrightarrow> others l rs = rs"
  by (simp add: others_def filter_id_conv)

lemma table_ok_remove:
  assumes "table_ok nic" "r \<in> set (rules nic)" "rule_loc r = l"
    and "aq_add_del_rule ops nic r False = (err, r', nic1)"
  shows "table_ok (add_active (- 1) (set_list (others l (rules nic)) nic1))"
proof -
  note t = assms(1)[unfolded table_ok_def]
  have r: "rule_ok (rx_fltrs nic) r" using t assms(2) by (simp add: list_all_iff)
  note k = del_keeps [OF assms(4) _ r]
  note f = add_del_rule_frame(1) [OF assms(4), unfolded same_table_def]
  have len: "length (rules nic) = Suc (length (others l (rules nic)))"
    using others_length t assms(2,3) by blast
  have rk: "rule_ok (rx_fltrs nic1) x" if "x \<in> set (others l (rules nic))" for x
  proof -
    have "x \<in> set (rules nic)" "rule_loc x \<noteq> rule_loc r"
      using that assms(3) by (simp_all add: others_def)
    then show ?thesis using k t by (auto simp: list_all_iff)
  qed
  have "active_filters (rx_fltrs nic1) + (- 1) = of_nat (length (others l (rules nic)))"
    using f t len by simp
  then show ?thesis
    using t f k rk by (simp add: table_ok_def list_all_iff others_def by_loc_filter)
qed

text \<open>\<open>evict\<close>: the state after the rule at a location was taken out to make room.\<close>

definition evict :: "filter_ops \<Rightarrow> u32 \<Rightarrow> filter_nic \<Rightarrow> filter_nic" where
  "evict ops l nic = (case filter (\<lambda>r. rule_loc r = l) (rules nic) of
     [] \<Rightarrow> nic
   | r # _ \<Rightarrow> add_active (- 1) (set_list (others l (rules nic)) (snd (snd (aq_add_del_rule ops nic r False)))))"

lemma evict_table:
  assumes "table_ok nic"
  shows "table_ok (evict ops l nic)" "rules (evict ops l nic) = others l (rules nic)"
    "fl_is_ipv6 (rx_fltrs (evict ops l nic)) = fl_is_ipv6 (rx_fltrs nic)"
    "active_vlans (evict ops l nic) = active_vlans nic"
proof -
  have s: "by_loc (rules nic)" using assms by (simp add: table_ok_def)
  have "table_ok (evict ops l nic) \<and> rules (evict ops l nic) = others l (rules nic) \<and>
    fl_is_ipv6 (rx_fltrs (evict ops l nic)) = fl_is_ipv6 (rx_fltrs nic) \<and>
    active_vlans (evict ops l nic) = active_vlans nic"
    using at_most_one [OF s, of l]
  proof (elim disjE exE conjE)
    fix r assume r: "filter (\<lambda>r. rule_loc r = l) (rules nic) = [r]" "rule_loc r = l" "r \<in> set (rules nic)"
    obtain err r' nic1 where d: "aq_add_del_rule ops nic r False = (err, r', nic1)" by (cases "aq_add_del_rule ops nic r False")
    show ?thesis
      using table_ok_remove [OF assms r(3,2) d] add_del_rule_frame(1) [OF d]
      by (simp add: evict_def r(1) d same_table_def)
  next
    assume n: "filter (\<lambda>r. rule_loc r = l) (rules nic) = []"
    then have "others l (rules nic) = rules nic" by (intro others_absent) (auto simp: filter_empty_conv)
    with n assms show ?thesis by (simp add: evict_def)
  qed
  then show "table_ok (evict ops l nic)" "rules (evict ops l nic) = others l (rules nic)"
    "fl_is_ipv6 (rx_fltrs (evict ops l nic)) = fl_is_ipv6 (rx_fltrs nic)"
    "active_vlans (evict ops l nic) = active_vlans nic" by blast+
qed

lemma update_table_spec:
  assumes "by_loc (rules nic)" "ucast i = l" "rule_loc r = l"
  shows "aq_update_table_filters ops nic (Some r) i =
    (0, length (rules_below l (rules nic)),
     add_active 1 (set_list (rules_below l (rules nic) @ r # rules_above l (rules nic)) (evict ops l nic)))"
proof -
  note t = below_takeWhile [OF assms(1), of l] rest_dropWhile [OF assms(1), of l]
  have same: "set_list rs (add_active d (set_list rs' n)) = add_active d (set_list rs n)" for rs rs' d n
    by (simp add: set_list_def add_active_def)
  have o: "others l (rules nic) = rules_below l (rules nic) @ rules_above l (rules nic)"
    by (rule others_split [OF assms(1)])
  have empty: "rules_above l (rules nic) = [] \<or>
      (\<exists>x xs. rules_above l (rules nic) = x # xs \<and> rule_loc x \<noteq> l)"
    by (cases "rules_above l (rules nic)") (auto simp: rules_above_def dest: filter_eq_ConsD)
  show ?thesis
    using at_most_one [OF assms(1), of l] empty
    unfolding aq_update_table_filters_def assms(2) rules_def [symmetric] Let_def t evict_def
    by (auto simp: same o split: prod.splits)
qed


subsection \<open>Adding a rule\<close>

lemma table_ok_set_v6:
  "table_ok nic \<Longrightarrow> ip_excl (rx_fltrs (set_v6 b nic)) \<Longrightarrow> table_ok (set_v6 b nic)"
  by (simp add: table_ok_def list_all_iff)

lemma l3_kind_flow: "rule_kind fsp = Some aq_rx_filter_l3l4 \<Longrightarrow> flow_type fsp \<noteq> IPV6_FLOW"
proof -
  assume "rule_kind fsp = Some aq_rx_filter_l3l4"
  then have "flow_type fsp \<in> v4_flows \<union> v6_flows" unfolding rule_kind_def by (simp split: if_splits)
  moreover have "IPV6_FLOW \<notin> v4_flows \<union> v6_flows" by (simp add: v4_flows_def v6_flows_def flow_defs)
  ultimately show ?thesis by metis
qed

lemma table_ok_add:
  assumes "table_ok nic" "placed (rx_fltrs nic) fsp" "\<forall>x \<in> set (rules nic). rule_loc x \<noteq> location fsp"
    and "aq_fsp r = fsp"
    and add: "aq_add_del_rule ops (add_active 1 (set_list rs nic)) r True = (err, r', nic1)"
    and rs: "rs = rules_below (location fsp) (rules nic) @ r # rules_above (location fsp) (rules nic)"
  shows "err = 0 \<Longrightarrow> table_ok (set_list (rs[length (rules_below (location fsp) (rules nic)) := r']) nic1)"
    "table_ok (add_active (- 1) (set_list (rules nic) nic1))"
    "aq_fsp r' = fsp" "rules nic1 = rs" "active_vlans nic1 = active_vlans nic"
proof -
  let ?l = "location fsp" and ?n = "add_active 1 (set_list rs nic)"
  note t = assms(1)[unfolded table_ok_def]
  have s: "by_loc (rules nic)" using t by simp
  have o: "others ?l (rules nic) = rules nic" by (rule others_absent [OF assms(3)])
  note f = add_del_rule_frame [OF add]
  note f1 = f(1)[unfolded same_table_def, simplified]
  show fsp: "aq_fsp r' = fsp" using f(2) assms(4) by simp
  show "rules nic1 = rs" "active_vlans nic1 = active_vlans nic" using f1 by simp_all
  have ex: "ip_excl (rx_fltrs ?n)" using t by simp
  have k: "ip_excl (rx_fltrs nic1)" "\<And>x. rule_ok (rx_fltrs nic) x \<Longrightarrow> rule_ok (rx_fltrs nic1) x"
    using add_keeps [OF add ex] by auto
  have old: "list_all (rule_ok (rx_fltrs nic1)) (rules nic)"
    using k(2) t by (auto simp: list_all_iff)
  show "table_ok (add_active (- 1) (set_list (rules nic) nic1))"
    using f1 t old k(1) by (simp add: table_ok_def)
  assume err: "err = 0"
  then obtain kd where kd: "rule_kind fsp = Some kd" "rule_type r' = kd"
    using f(3,4) assms(4) by (cases "rule_kind fsp") auto
  have "kind_ok kd fsp \<and> (kd = aq_rx_filter_l3l4 \<longrightarrow> l3_active (rx_fltrs nic1) fsp)"
  proof (cases kd)
    case aq_rx_filter_l3l4
    have loc: "\<not> (?l < AQ_RX_FIRST_LOC_FL3L4 \<or> ?l > AQ_RX_LAST_LOC_FL3L4)"
      and bits: "rx_fltrs nic1 = ip_bits (rx_fltrs ?n) fsp True"
      using f(6) kd err aq_rx_filter_l3l4 assms(4) by (auto split: if_splits)
    note l = l3_loc [OF loc]
    have v6: "fl_is_ipv6 (rx_fltrs nic) = (flow_type fsp \<in> v6_flows \<union> {IPV6_FLOW})"
        "fl_is_ipv6 (rx_fltrs nic) \<longrightarrow> ?l \<in> {AQ_RX_FIRST_LOC_FL3L4, AQ_RX_FIRST_LOC_FL3L4 + 4}"
      using assms(2) kd(1) aq_rx_filter_l3l4 by (simp_all add: placed_def)
    have "flow_type fsp \<noteq> IPV6_FLOW"
      using kd(1) aq_rx_filter_l3l4 l3_kind_flow by fastforce
    then have v6f: "flow_type fsp \<in> v6_flows \<longleftrightarrow> fl_is_ipv6 (rx_fltrs nic)" using v6(1) by simp
    have ko: "kind_ok kd fsp" using loc v6(2) v6f aq_rx_filter_l3l4 by (auto simp: kind_ok_def not_less)
    then have "fl_is_ipv6 (rx_fltrs nic) \<Longrightarrow> l3_slot fsp \<in> {0, 4}"
      using kind_ok_slot(2) v6f aq_rx_filter_l3l4 by blast
    then have "l3_active (rx_fltrs nic1) fsp"
      using v6f l(2) by (auto simp: bits l3_active_def ip_bits_def bit_or_iff bit_ucast_BIT)
    with ko show ?thesis by simp
  qed (use assms(2) kd(1) in \<open>simp_all add: placed_def\<close>)
  then have ok: "rule_ok (rx_fltrs nic1) r'" using kd fsp by (simp add: rule_ok_def)
  have upd: "rs[length (rules_below ?l (rules nic)) := r'] = rules_below ?l (rules nic) @ r' # rules_above ?l (rules nic)"
    by (simp add: rs)
  have len: "length (rules nic) = length (rules_below ?l (rules nic) @ rules_above ?l (rules nic))"
    using others_split [OF s, of ?l] o by simp
  have "by_loc (rules_below ?l (rules nic) @ r' # rules_above ?l (rules nic))"
    using s fsp by (intro by_loc_insert) (simp_all add: rule_loc_def)
  moreover have "\<forall>x \<in> set (rules_below ?l (rules nic) @ r' # rules_above ?l (rules nic)). rule_ok (rx_fltrs nic1) x"
    using ok old by (auto simp: list_all_iff below_above_sets)
  moreover have "active_filters (rx_fltrs nic1) = of_nat (length (rules_below ?l (rules nic) @ r' # rules_above ?l (rules nic)))"
    using f1 t len by simp
  moreover have "length (aq_vlans (rx_fltrs nic1)) = HW_ATL_VLAN_MAX_FILTERS" using f1 t by simp
  ultimately show "table_ok (set_list (rs[length (rules_below ?l (rules nic)) := r']) nic1)"
    using k(1) unfolding upd by (simp add: table_ok_def list_all_iff)
qed

text \<open>
  The whole of \<open>aq_add_rxnfc_rule\<close>: the table keeps its invariant; as a map it gains the
  rule, or loses the location's old rule when programming the new one fails, or is as before
  when the rule was refused.
\<close>

lemma add_rule_spec:
  assumes "table_ok nic" "aq_add_rxnfc_rule ops alloc nic fsp = (err, nic')"
  shows "table_ok nic' \<and> active_vlans nic' = active_vlans nic \<and>
    (if err = 0 then rule_map (rules nic') = (rule_map (rules nic))(location fsp \<mapsto> fsp) \<and>
       fst (aq_check_rule nic fsp) = 0
     else rule_map (rules nic') =
       (if fst (aq_check_rule nic fsp) = 0 \<and> alloc then (rule_map (rules nic))(location fsp := None)
        else rule_map (rules nic)))"
proof -
  let ?l = "location fsp"
  have ex: "ip_excl (rx_fltrs nic)" and s: "by_loc (rules nic)" using assms(1) by (simp_all add: table_ok_def)
  obtain e1 nic1 where c: "aq_check_rule nic fsp = (e1, nic1)" by fastforce
  obtain b where b: "nic1 = set_v6 b nic" "ip_excl (rx_fltrs nic1)" and ok: "e1 = 0 \<Longrightarrow> checked nic1 fsp"
    using check_rule_spec [OF c ex] by blast
  have t1: "table_ok nic1" using table_ok_set_v6 [OF assms(1)] b by simp
  have r1: "rules nic1 = rules nic" "active_vlans nic1 = active_vlans nic" by (simp_all add: b(1))
  show ?thesis
  proof (cases "e1 = 0 \<and> alloc")
    case False
    then have "nic' = nic1 \<and> err \<noteq> 0"
      using assms(2) by (auto simp: aq_add_rxnfc_rule_def c errno_defs split: if_splits)
    with False t1 r1 show ?thesis by auto (simp_all add: c)
  next
    case True
    note ck = ok [OF conjunct1 [OF True]]
    let ?r = "\<lparr>rule_type = aq_rx_filter_ethertype, aq_fsp = fsp\<rparr>"
    define n2 where "n2 = evict ops ?l nic1"
    note ev = evict_table [OF t1, of ops ?l, folded n2_def]
    have "unat ?l < 2 ^ 16" using ck by (simp add: checked_def placed_def loc_defs word_le_nat_alt)
    then have u: "ucast (ucast ?l :: u16) = ?l"
      by (simp add: word_unat_eq_iff unsigned_ucast_eq unsigned_take_bit_eq take_bit_nat_eq_self)
    have o: "rules_below ?l (rules n2) = rules_below ?l (rules nic)" "rules_above ?l (rules n2) = rules_above ?l (rules nic)"
      by (simp_all add: ev(2) r1 rules_below_def rules_above_def others_def conj_commute)
        (metis (mono_tags, lifting) filter_cong order.irrefl)+
    define rs where "rs = rules_below ?l (rules nic) @ ?r # rules_above ?l (rules nic)"
    have up: "aq_update_table_filters ops nic1 (Some ?r) (ucast ?l) =
        (0, length (rules_below ?l (rules nic)), add_active 1 (set_list rs n2))"
      using update_table_spec [of nic1 "ucast ?l" ?l ?r ops] s u
      by (simp add: r1 rule_loc_def n2_def rs_def)
    obtain e3 r' n3 where ad: "aq_add_del_rule ops (add_active 1 (set_list rs n2)) ?r True = (e3, r', n3)"
      by (cases "aq_add_del_rule ops (add_active 1 (set_list rs n2)) ?r True")
    have ck2: "placed (rx_fltrs n2) fsp" using ck placed_v6 [OF ev(3)] by (simp add: checked_def)
    note ta = table_ok_add [OF ev(1) ck2 _ _ ad, unfolded o, folded rs_def, simplified]
    have absent: "\<forall>x \<in> set (rules n2). rule_loc x \<noteq> ?l" by (simp add: ev(2) others_def)
    note ta = ta [OF absent]
    have m1: "rule_map (rules n2) = (rule_map (rules nic))(?l := None)"
      by (simp add: ev(2) r1 others_def rule_map_without)
    have m2: "rule_map (rules_below ?l (rules nic) @ r' # rules_above ?l (rules nic)) = (rule_map (rules nic))(?l \<mapsto> fsp)"
      using rule_map_insert [OF s, of r' ?l] ta(3) by (simp add: rule_loc_def)
    have o2: "rules n2 = rules_below ?l (rules nic) @ rules_above ?l (rules nic)"
      using others_split [OF s] by (simp add: ev(2) r1)
    have n3: "filter_list (rx_fltrs n3) = rs" using ta(4) by (simp add: rules_def)
    have h: "hlist_del (length (rules_below ?l (rules nic))) rs = rules n2"
      by (simp add: hlist_del_def rs_def o2)
    have final: "err = e3" "nic' = (if e3 \<noteq> 0 then add_active (- 1) (set_list (rules n2) n3)
        else set_list (rs[length (rules_below ?l (rules nic)) := r']) n3)"
      using assms(2) True unfolding aq_add_rxnfc_rule_def c
      by (auto simp: Let_def up ad n3 h split: if_splits)
    show ?thesis
      using ta m1 m2 True by (auto simp: final ev(4) r1(2) c rs_def)
  qed
qed


subsection \<open>Deleting and reading\<close>

lemma position_of:
  assumes "by_loc rs" "r \<in> set rs" "rule_loc r = l"
  defines "p \<equiv> length (takeWhile (\<lambda>r. rule_loc r \<noteq> l) rs)"
  shows "p < length rs" "rs ! p = r" "hlist_del p rs = others l rs"
proof -
  obtain xs ys where rs: "rs = xs @ r # ys" using assms(2) by (meson split_list)
  then have ne: "\<forall>x \<in> set xs. rule_loc x \<noteq> l" "\<forall>y \<in> set ys. rule_loc y \<noteq> l"
    using assms(1,3) by (auto simp: by_loc_append)
  then have "takeWhile (\<lambda>r. rule_loc r \<noteq> l) rs = xs"
    using assms(3) by (simp add: rs takeWhile_append)
  then have p: "p = length xs" by (simp add: p_def)
  show "p < length rs" "rs ! p = r" by (simp_all add: p rs)
  show "hlist_del p rs = others l rs"
    using ne assms(3) by (simp add: p rs hlist_del_def others_def filter_id_conv)
qed

lemma del_rule_spec:
  assumes "table_ok nic" "aq_del_rxnfc_rule ops nic l = (err, nic')"
  shows "table_ok nic'" "active_vlans nic' = active_vlans nic"
    "rule_map (rules nic') = (rule_map (rules nic))(l := None)"
    "rule_map (rules nic) l = None \<Longrightarrow> err = - EINVAL \<and> nic' = nic"
proof -
  have s: "by_loc (rules nic)" using assms(1) by (simp add: table_ok_def)
  have "table_ok nic' \<and> active_vlans nic' = active_vlans nic \<and>
    rule_map (rules nic') = (rule_map (rules nic))(l := None) \<and>
    (rule_map (rules nic) l = None \<longrightarrow> err = - EINVAL \<and> nic' = nic)"
  proof (cases "\<exists>r \<in> set (rules nic). rule_loc r = l")
    case True
    then obtain r where r: "r \<in> set (rules nic)" "rule_loc r = l" by blast
    obtain e r' nic1 where d: "aq_add_del_rule ops nic r False = (e, r', nic1)"
      by (cases "aq_add_del_rule ops nic r False")
    note p = position_of [OF s r, unfolded rules_def]
    have "nic' = add_active (- 1) (set_list (others l (rules nic)) nic1)"
      using assms(2) p d by (simp add: aq_del_rxnfc_rule_def Let_def rules_def)
    moreover have "rule_map (rules nic) l \<noteq> None" using r by (auto simp: rule_map_none)
    ultimately show ?thesis
      using table_ok_remove [OF assms(1) r d] add_del_rule_frame(1) [OF d]
      by (auto simp: same_table_def others_def rule_map_without)
  next
    case False
    then have all: "\<forall>r \<in> set (rules nic). rule_loc r \<noteq> l" by blast
    then have "takeWhile (\<lambda>r. rule_loc r \<noteq> l) (filter_list (rx_fltrs nic)) = filter_list (rx_fltrs nic)"
      by (simp add: rules_def takeWhile_eq_all_conv)
    then have "\<not> length (takeWhile (\<lambda>r. rule_loc r \<noteq> l) (filter_list (rx_fltrs nic))) < length (filter_list (rx_fltrs nic))"
      by (metis less_irrefl)
    then have "err = - EINVAL" "nic' = nic"
      using assms(2) by (simp_all add: aq_del_rxnfc_rule_def Let_def)
    moreover have "rule_map (rules nic) l = None" using all by (simp add: rule_map_none)
    ultimately show ?thesis using assms(1) by (simp add: fun_upd_idem)
  qed
  then show "table_ok nic'" "active_vlans nic' = active_vlans nic"
    "rule_map (rules nic') = (rule_map (rules nic))(l := None)"
    "rule_map (rules nic) l = None \<Longrightarrow> err = - EINVAL \<and> nic' = nic" by blast+
qed

lemma get_rule_spec:
  assumes "by_loc (rules nic)"
  shows "aq_get_rxnfc_rule nic l =
    (case rule_map (rules nic) l of None \<Rightarrow> Inl (- EINVAL) | Some fsp \<Rightarrow> Inr fsp)"
proof -
  have "dropWhile (\<lambda>r. \<not> l \<le> rule_loc r) (rules nic) =
      filter (\<lambda>r. rule_loc r = l) (rules nic) @ rules_above l (rules nic)"
    using rest_dropWhile [OF assms, of l] by (simp add: not_le)
  moreover have "rules_above l (rules nic) = [] \<or>
      (\<exists>x xs. rules_above l (rules nic) = x # xs \<and> l \<noteq> rule_loc x)"
    by (cases "rules_above l (rules nic)") (auto simp: rules_above_def dest: filter_eq_ConsD)
  moreover have "filter (\<lambda>r. rule_loc r = l) (rules nic) = [] \<Longrightarrow> rule_map (rules nic) l = None"
    by (simp add: rule_map_none filter_empty_conv)
  ultimately show ?thesis
    using at_most_one [OF assms, of l] rule_map_in [OF assms]
    by (auto simp: aq_get_rxnfc_rule_def rules_def)
qed

lemma rule_locs_loop_spec:
  "n \<le> cnt \<Longrightarrow> rule_locs_loop cnt n rs locs =
    (if n + length rs \<le> cnt then Inr (locs @ map rule_loc rs) else Inl (- EMSGSIZE))"
  by (induction rs arbitrary: n locs) auto

lemma get_all_spec:
  assumes "by_loc (rules nic)"
  shows "aq_get_rxnfc_all_rules nic cnt =
    (if length (rules nic) \<le> cnt then Inr (map rule_loc (rules nic)) else Inl (- EMSGSIZE))"
    "sorted_wrt (<) (map rule_loc (rules nic))"
    "set (map rule_loc (rules nic)) = dom (rule_map (rules nic))"
  using assms
  by (simp_all add: aq_get_rxnfc_all_rules_def rule_locs_loop_spec rules_def by_loc_def)
    (force simp: rule_map_def dom_map_of_conv_image_fst)

subsection \<open>Clearing and VLAN filtering\<close>

lemma table_ok_cong:
  assumes "same_table nic nic'" "same_ip nic nic'" "table_ok nic"
  shows "table_ok nic'"
proof -
  have "rule_ok (rx_fltrs nic') = rule_ok (rx_fltrs nic)"
    using rule_ok_same_ip [OF assms(2)] by (simp add: fun_eq_iff)
  then show ?thesis
    using assms same_ip_excl [OF assms(1,2)] by (simp add: table_ok_def same_table_def)
qed

lemma vlans_update_ok:
  "aq_filters_vlans_update ops nic = (err, nic') \<Longrightarrow> table_ok nic \<Longrightarrow>
   table_ok nic' \<and> rules nic' = rules nic \<and> active_vlans nic' = active_vlans nic"
  using vlans_update_same [of ops nic err nic'] table_ok_cong by (auto simp: same_table_def)

text \<open>When every rule could be taken out of the hardware the table is empty.\<close>

lemma clear_rules_keeps:
  "table_ok nic \<Longrightarrow> rules nic = rs \<Longrightarrow> clear_rules_loop ops nic rs = (0, nic') \<Longrightarrow>
   table_ok nic' \<and> active_vlans nic' = active_vlans nic \<and> rules nic' = []"
proof (induction rs arbitrary: nic)
  case (Cons r rs)
  obtain e r' nic1 where d: "aq_add_del_rule ops nic r False = (e, r', nic1)"
    by (cases "aq_add_del_rule ops nic r False")
  note f = add_del_rule_frame(1) [OF d, unfolded same_table_def]
  have e: "e = 0" "clear_rules_loop ops (add_active (- 1) (set_list rs nic1)) rs = (0, nic')"
    using Cons.prems(3) by (auto simp: d split: if_splits)
  have "by_loc (r # rs)" using Cons.prems(1,2) by (simp add: table_ok_def)
  then have o: "others (rule_loc r) (r # rs) = rs" by (auto simp: others_def filter_id_conv)
  have "table_ok (add_active (- 1) (set_list rs nic1))"
    using table_ok_remove [OF Cons.prems(1) _ refl d] Cons.prems(2) o by simp
  from Cons.IH [OF this _ e(2)] show ?case using f by simp
qed simp

lemma del_vlan_rules_ok:
  assumes "table_ok nic"
  shows "table_ok (del_vlan_rules nic)"
    "rules (del_vlan_rules nic) = filter (\<lambda>r. rule_type r \<noteq> aq_rx_filter_vlan) (rules nic)"
proof -
  show r: "rules (del_vlan_rules nic) = filter (\<lambda>r. rule_type r \<noteq> aq_rx_filter_vlan) (rules nic)"
    by (simp add: del_vlan_rules_def Let_def rules_def)
  have "length (filter P xs) \<le> length xs" for P and xs :: "aq_rx_filter list" by simp
  then show "table_ok (del_vlan_rules nic)"
    using assms
    by (simp add: table_ok_def r) (simp add: del_vlan_rules_def Let_def rules_def by_loc_filter list_all_iff)
qed

lemma set_hw_ok [simp]: "table_ok (nic\<lparr>flt_hw := hw\<rparr>) = table_ok nic"
  "rules (nic\<lparr>flt_hw := hw\<rparr>) = rules nic"
  by (simp_all add: table_ok_def rules_def)

lemma set_vlans_ok [simp]: "table_ok (nic\<lparr>active_vlans := bm\<rparr>) = table_ok nic"
  "rules (nic\<lparr>active_vlans := bm\<rparr>) = rules nic"
  by (simp_all add: table_ok_def rules_def)

lemma set_features_ok [simp]:
  "table_ok (nic\<lparr>ntuple_on := a, vlan_filter_on := b, online_cpus := c\<rparr>) = table_ok nic"
  by (simp add: table_ok_def rules_def)

lemma vlans_on_ok:
  assumes "aq_filters_vlans_on ops nic = (err, nic')" "table_ok nic"
  shows "table_ok nic'" "rules nic' = rules nic"
proof -
  obtain e n where u: "aq_filters_vlans_update ops (nic\<lparr>active_vlans := \<lambda>v. False\<rparr>) = (e, n)" by fastforce
  have "table_ok n \<and> rules n = rules nic" using vlans_update_ok [OF u] assms(2) by simp
  then show "table_ok nic'" "rules nic' = rules nic"
    using assms by (auto simp: aq_filters_vlans_on_def Let_def u split: option.splits prod.splits if_splits)
qed

lemma vlans_off_ok:
  assumes "aq_filters_vlans_off ops nic = (err, nic')" "table_ok nic"
  shows "table_ok nic'" "rules nic' = filter (\<lambda>r. rule_type r \<noteq> aq_rx_filter_vlan) (rules nic)"
proof -
  let ?n = "(del_vlan_rules nic)\<lparr>active_vlans := \<lambda>v. False,
    rx_fltrs := (rx_fltrs (del_vlan_rules nic))\<lparr>aq_vlans := replicate HW_ATL_VLAN_MAX_FILTERS vlan_zero\<rparr>\<rparr>"
  obtain e n where u: "aq_filters_vlans_update ops ?n = (e, n)" by fastforce
  have "table_ok ?n \<and> rules ?n = rules (del_vlan_rules nic)"
    using del_vlan_rules_ok(1) [OF assms(2)]
    by (auto simp: table_ok_def rules_def list_all_iff rule_ok_def l3_active_def ip_excl_def)
  then have t: "table_ok ?n" "rules ?n = rules (del_vlan_rules nic)" by blast+
  have "table_ok n \<and> rules n = rules (del_vlan_rules nic)" using vlans_update_ok [OF u t(1)] t(2) by simp
  then show "table_ok nic'" "rules nic' = filter (\<lambda>r. rule_type r \<noteq> aq_rx_filter_vlan) (rules nic)"
    using assms(1) t del_vlan_rules_ok(2) [OF assms(2)]
    by (auto simp: aq_filters_vlans_off_def Let_def u split: option.splits prod.splits if_splits)
qed

lemma add_vid_ok:
  "aq_ndo_vlan_rx_add_vid ops nic vid = (err, nic') \<Longrightarrow> table_ok nic \<Longrightarrow> table_ok nic' \<and> rules nic' = rules nic"
  by (auto simp: aq_ndo_vlan_rx_add_vid_def dest!: vlans_update_ok split: if_splits)

lemma kill_vid_ok:
  assumes "aq_ndo_vlan_rx_kill_vid ops nic vid = (err, nic')" "table_ok nic"
  shows "table_ok nic'"
proof -
  let ?n = "nic\<lparr>active_vlans := (active_vlans nic)(unat vid := False)\<rparr>"
  obtain e n where d: "aq_del_fvlan_by_vlan ops ?n vid = (e, n)" by fastforce
  have n: "table_ok n"
    using d assms(2) del_rule_spec(1) [of ?n ops]
    by (auto simp: aq_del_fvlan_by_vlan_def split: option.splits)
  show ?thesis
    using assms n vlans_update_ok [of ops n err nic']
    by (auto simp: aq_ndo_vlan_rx_kill_vid_def Let_def d split: if_splits)
qed

subsection \<open>Reachable tables\<close>

text \<open>
  Everything the driver does to the table: the ethtool requests, switching VLAN filtering, the
  kernel's VLAN registrations, and whatever else changes the hardware context or the features
  in between. Clearing all rules is a step when it succeeds.
\<close>

inductive fltr_step :: "filter_ops \<Rightarrow> filter_nic \<Rightarrow> filter_nic \<Rightarrow> bool" for ops where
  add_rule: "aq_add_rxnfc_rule ops alloc nic fsp = (err, nic') \<Longrightarrow> fltr_step ops nic nic'"
| del_rule: "aq_del_rxnfc_rule ops nic l = (err, nic') \<Longrightarrow> fltr_step ops nic nic'"
| clear_rules: "aq_clear_rxnfc_all_rules ops nic = (0, nic') \<Longrightarrow> fltr_step ops nic nic'"
| vlans_on: "aq_filters_vlans_on ops nic = (err, nic') \<Longrightarrow> fltr_step ops nic nic'"
| vlans_off: "aq_filters_vlans_off ops nic = (err, nic') \<Longrightarrow> fltr_step ops nic nic'"
| add_vid: "aq_ndo_vlan_rx_add_vid ops nic vid = (err, nic') \<Longrightarrow> fltr_step ops nic nic'"
| kill_vid: "aq_ndo_vlan_rx_kill_vid ops nic vid = (err, nic') \<Longrightarrow> fltr_step ops nic nic'"
| hw_change: "fltr_step ops nic (nic\<lparr>flt_hw := hw\<rparr>)"
| features: "fltr_step ops nic (nic\<lparr>ntuple_on := a, vlan_filter_on := b, online_cpus := c\<rparr>)"

definition fltrs0 :: aq_hw_rx_fltrs_s where
  "fltrs0 = \<lparr>filter_list = [], active_filters = 0,
     aq_vlans = replicate HW_ATL_VLAN_MAX_FILTERS vlan_zero, active_ipv4 = 0, active_ipv6 = 0,
     fl_is_ipv6 = False\<rparr>"

inductive fltr_reach :: "filter_ops \<Rightarrow> filter_nic \<Rightarrow> bool" for ops where
  init: "rx_fltrs nic = fltrs0 \<Longrightarrow> fltr_reach ops nic"
| step: "fltr_reach ops nic \<Longrightarrow> fltr_step ops nic nic' \<Longrightarrow> fltr_reach ops nic'"

inductive_cases fltr_stepE: "fltr_step ops nic nic'"

lemma fltr_step_ok: "fltr_step ops nic nic' \<Longrightarrow> table_ok nic \<Longrightarrow> table_ok nic'"
proof (induction rule: fltr_step.induct)
  case (add_rule alloc nic fsp err nic')
  then show ?case using add_rule_spec by blast
next
  case (clear_rules nic nic')
  then show ?case using clear_rules_keeps [of nic "rules nic" ops nic'] by (simp add: aq_clear_rxnfc_all_rules_def rules_def)
qed (auto dest: del_rule_spec(1) vlans_on_ok vlans_off_ok add_vid_ok kill_vid_ok)

lemma fltr_reach_ok: "fltr_reach ops nic \<Longrightarrow> table_ok nic"
proof (induction rule: fltr_reach.induct)
  case (init nic)
  then show ?case by (simp add: table_ok_def rules_def fltrs0_def ip_excl_def)
qed (blast intro: fltr_step_ok)

end
