(* ===== verification/B0_Rules.thy ===== *)
theory B0_Rules
  imports B0_Filters Rule_Table
begin

section \<open>Flow rules on the B0 chip\<close>

text \<open>
  From a rule of the table to the registers of the chip: what the layer 3/4 filter registers
  and the ethertype filter registers hold after a rule was programmed, field by field.
\<close>

subsection \<open>Layer 3 and 4 filters\<close>

text \<open>The registers of layer 3/4 filter \<open>n\<close>.\<close>

definition l3_ctrl :: "nat \<Rightarrow> u32" where "l3_ctrl n = 0x5380 + of_nat n * 4"
definition l3_srca :: "nat \<Rightarrow> u32" where "l3_srca n = 0x53B0 + of_nat n * 4"
definition l3_desta :: "nat \<Rightarrow> u32" where "l3_desta n = 0x53D0 + of_nat n * 4"
definition l4_sport :: "nat \<Rightarrow> u32" where "l4_sport n = 0x5400 + of_nat n * 4"
definition l4_dport :: "nat \<Rightarrow> u32" where "l4_dport n = 0x5420 + of_nat n * 4"

definition l3l4_regs :: "nat \<Rightarrow> u32 set" where
  "l3l4_regs n = {l3_ctrl n, l3_srca n, l3_desta n, l4_sport n, l4_dport n}"

lemmas l3_adr_defs = l3_ctrl_def l3_srca_def l3_desta_def l4_sport_def l4_dport_def

lemma l3_adrs:
  assumes "n < 8"
  shows "unat (l3_ctrl n) = 0x5380 + 4 * n" "unat (l3_srca n) = 0x53B0 + 4 * n"
    "unat (l3_desta n) = 0x53D0 + 4 * n" "unat (l4_sport n) = 0x5400 + 4 * n"
    "unat (l4_dport n) = 0x5420 + 4 * n"
  using assms by (simp_all add: l3_adr_defs bank_adr [where n = 8])

lemma l3_write_adrs:
  assumes "unat loc = n" "n < 8"
  shows "HW_ATL_RX_GET_ADDR_CTRL_FL3L4 (ucast (loc :: u8)) = l3_ctrl n"
    "HW_ATL_RX_GET_ADDR_SRCA_FL3L4 (ucast loc) = l3_srca n"
    "HW_ATL_RX_GET_ADDR_DESTA_FL3L4 (ucast loc) = l3_desta n"
    "fld_adr HW_ATL_RPF_L4_SPD (ucast loc) = l4_sport n"
    "fld_adr HW_ATL_RPF_L4_DPD (ucast loc) = l4_dport n"
proof -
  have "(ucast loc :: u32) = of_nat n"
    using assms unat_u8_less [of loc] by (simp add: word_unat_eq_iff unsigned_ucast_eq unsigned_of_nat unsigned_take_bit_eq take_bit_nat_eq_self)
  then show "HW_ATL_RX_GET_ADDR_CTRL_FL3L4 (ucast loc) = l3_ctrl n"
    "HW_ATL_RX_GET_ADDR_SRCA_FL3L4 (ucast loc) = l3_srca n"
    "HW_ATL_RX_GET_ADDR_DESTA_FL3L4 (ucast loc) = l3_desta n"
    "fld_adr HW_ATL_RPF_L4_SPD (ucast loc) = l4_sport n"
    "fld_adr HW_ATL_RPF_L4_DPD (ucast loc) = l4_dport n"
    by (simp_all add: l3_adr_defs HW_ATL_RX_GET_ADDR_CTRL_FL3L4_def HW_ATL_RX_GET_ADDR_SRCA_FL3L4_def
        HW_ATL_RX_GET_ADDR_DESTA_FL3L4_def HW_ATL_RX_CTRL_ADDR_BEGIN_FL3L4_def
        HW_ATL_RX_SRCA_ADDR_BEGIN_FL3L4_def HW_ATL_RX_DESTA_ADDR_BEGIN_FL3L4_def fld_adr_def
        HW_ATL_RPF_L4_SPD_def HW_ATL_RPF_L4_DPD_def)
qed

lemma l3_adr_ne:
  assumes "n < 8"
  shows "distinct [l3_ctrl n, l3_srca n, l3_desta n, l4_sport n, l4_dport n, 0x10]"
proof -
  have "distinct (map unat [l3_ctrl n, l3_srca n, l3_desta n, l4_sport n, l4_dport n, 0x10])"
    using assms by (simp add: l3_adrs)
  then show ?thesis unfolding distinct_map by blast
qed

lemma port_fields:
  "HW_ATL_RPF_L4_SPD \<in> set llh_fields" "HW_ATL_RPF_L4_DPD \<in> set llh_fields"
  "fld_shift HW_ATL_RPF_L4_SPD = 0" "fld_shift HW_ATL_RPF_L4_DPD = 0"
  "fld_msk HW_ATL_RPF_L4_SPD = 0xFFFF" "fld_msk HW_ATL_RPF_L4_DPD = 0xFFFF"
  by (simp_all add: llh_fields_def) (simp_all add: HW_ATL_RPF_L4_SPD_def HW_ATL_RPF_L4_DPD_def)

definition with_port :: "u32 \<Rightarrow> u16 \<Rightarrow> u32" where
  "with_port old p = (old AND NOT 0xFFFF) OR ucast p"

lemma with_port_low: "with_port old p AND 0xFFFF = ucast p"
proof -
  have m: "(0xFFFF :: u32) = mask 16" by (simp add: mask_eq_exp_minus_1)
  show ?thesis
    unfolding with_port_def m
    by (intro bit_word_eqI)
      (auto simp: bit_and_iff bit_or_iff bit_not_iff bit_mask_iff bit_ucast_iff dest: bit_imp_le_length)
qed

lemma b0_l3l4_v4:
  assumes "chip_hw hw" "\<not> l3_is_ipv6 d" "unat (l3_location d) = n" "n < 8" "l3_cmd d \<noteq> 0"
    and "hw_atl_b0_hw_fl3l4_set hw d = (err, hw')"
  shows "chip_hw hw'" "err = aq_hw_err_from_flags hw" "aq_hw_err_from_flags hw' = aq_hw_err_from_flags hw"
    "regs hw' = (regs hw)(l3_ctrl n := l3_cmd d, l3_srca n := ip_src d ! 0, l3_desta n := ip_dst d ! 0,
       l4_sport n := with_port (regs hw (l4_sport n)) (p_src d),
       l4_dport n := with_port (regs hw (l4_dport n)) (p_dst d))"
proof -
  note a = l3_write_adrs [OF assms(3,4)]
  note ne = l3_adr_ne [OF assms(4)]
  note d = hw_atl_b0_hw_fl3l4_set_def hw_atl_b0_hw_fl3l4_clear_def Let_def
    hw_atl_rpfl3l4_cmd_clear_def hw_atl_rpf_l4_spd_set_def hw_atl_rpf_l4_dpd_set_def
    hw_atl_rpfl3l4_ipv4_src_addr_clear_def hw_atl_rpfl3l4_ipv4_dest_addr_clear_def
    hw_atl_rpfl3l4_ipv4_dest_addr_set_def hw_atl_rpfl3l4_ipv4_src_addr_set_def hw_atl_rpfl3l4_cmd_set_def
  note w = chip_write_reg chip_write_field port_fields a
  show "chip_hw hw'" "err = aq_hw_err_from_flags hw" "aq_hw_err_from_flags hw' = aq_hw_err_from_flags hw"
    using assms ne by (auto simp: d w)
  show "regs hw' = (regs hw)(l3_ctrl n := l3_cmd d, l3_srca n := ip_src d ! 0, l3_desta n := ip_dst d ! 0,
       l4_sport n := with_port (regs hw (l4_sport n)) (p_src d),
       l4_dport n := with_port (regs hw (l4_dport n)) (p_dst d))"
  proof
    fix x
    show "regs hw' x = ((regs hw)(l3_ctrl n := l3_cmd d, l3_srca n := ip_src d ! 0, l3_desta n := ip_dst d ! 0,
       l4_sport n := with_port (regs hw (l4_sport n)) (p_src d),
       l4_dport n := with_port (regs hw (l4_dport n)) (p_dst d))) x"
      using assms ne by (auto simp: d w with_port_def and.assoc bit.conj_disj_distrib2)
  qed
qed


lemma upd_port:
  "\<exists>y. upd_field r HW_ATL_RPF_L4_SPD i (ucast p) (fld_adr HW_ATL_RPF_L4_SPD i) = with_port y p"
  "\<exists>y. upd_field r HW_ATL_RPF_L4_DPD i (ucast p) (fld_adr HW_ATL_RPF_L4_DPD i) = with_port y p"
  by (auto simp: upd_field_def with_port_def port_fields)

lemma b0_l3l4_v6:
  assumes "chip_hw hw" "l3_is_ipv6 d" "unat (l3_location d) = n" "n \<in> {0, 4}" "l3_cmd d \<noteq> 0"
    and "hw_atl_b0_hw_fl3l4_set hw d = (err, hw')"
  shows "\<exists>r. effect hw hw' r \<and> r (l3_ctrl n) = l3_cmd d \<and> (\<forall>i \<in> {1, 2, 3}. r (l3_ctrl (n + i)) = 0) \<and>
    (\<forall>j \<in> {0, 1, 2, 3}. r (l3_srca (n + j)) = ip_src d ! j \<and> r (l3_desta (n + j)) = ip_dst d ! j) \<and>
    (\<exists>y. r (l4_sport n) = with_port y (p_src d)) \<and> (\<exists>y. r (l4_dport n) = with_port y (p_dst d)) \<and>
    (\<forall>x. x \<notin> \<Union> (l3l4_regs ` {n, n + 1, n + 2, n + 3}) \<longrightarrow> r x = regs hw x)"
proof -
  note d = hw_atl_b0_hw_fl3l4_set_def hw_atl_b0_hw_fl3l4_clear_def Let_def
    hw_atl_rpfl3l4_cmd_clear_def hw_atl_rpf_l4_spd_set_def hw_atl_rpf_l4_dpd_set_def
    hw_atl_rpfl3l4_ipv6_src_addr_clear_def hw_atl_rpfl3l4_ipv6_dest_addr_clear_def
    hw_atl_rpfl3l4_ipv6_dest_addr_set_def hw_atl_rpfl3l4_ipv6_src_addr_set_def hw_atl_rpfl3l4_cmd_set_def
    HW_ATL_RX_CNT_REG_ADDR_IPV6_def
  have u: "[0..<4] = [0, 1, 2, 3 :: nat]" by (simp add: upt_rec)
  have spd: "fld_adr HW_ATL_RPF_L4_SPD k = 0x5400 + k * 4" "fld_adr HW_ATL_RPF_L4_DPD k = 0x5420 + k * 4" for k
    by (simp_all add: fld_adr_def HW_ATL_RPF_L4_SPD_def HW_ATL_RPF_L4_DPD_def)
  note g = HW_ATL_RX_GET_ADDR_CTRL_FL3L4_def HW_ATL_RX_GET_ADDR_SRCA_FL3L4_def
        HW_ATL_RX_GET_ADDR_DESTA_FL3L4_def HW_ATL_RX_CTRL_ADDR_BEGIN_FL3L4_def
        HW_ATL_RX_SRCA_ADDR_BEGIN_FL3L4_def HW_ATL_RX_DESTA_ADDR_BEGIN_FL3L4_def
  have loc: "l3_location d = of_nat n"
    using assms(3) by (metis of_nat_unat ucast_id)
  have e: "hw' = snd (hw_atl_b0_hw_fl3l4_set hw d)"
    using assms(6) by simp
  have n: "n = 0 \<or> n = 4" using assms(4) by simp
  have p: "\<exists>y. upd_field r HW_ATL_RPF_L4_SPD 0 (ucast k) 0x5400 = with_port y k"
      "\<exists>y. upd_field r HW_ATL_RPF_L4_DPD 0 (ucast k) 0x5420 = with_port y k"
      "\<exists>y. upd_field r HW_ATL_RPF_L4_SPD 4 (ucast k) 0x5410 = with_port y k"
      "\<exists>y. upd_field r HW_ATL_RPF_L4_DPD 4 (ucast k) 0x5430 = with_port y k" for r k
    using upd_port [of r 0 k] upd_port [of r 4 k] by (simp_all add: spd)
  from n show ?thesis
  proof
    assume "n = 0"
    then show ?thesis
      unfolding e d u using assms(2,5) loc
      apply simp
      apply (rule exI, rule conjI)
       apply (rule effect_reg effect_field effect_refl)+
      apply (simp_all add: spd g port_fields assms(1) l3_adr_defs l3l4_regs_def upd_field_other p)
      done
  next
    assume "n = 4"
    then show ?thesis
      unfolding e d u using assms(2,5) loc
      apply simp
      apply (rule exI, rule conjI)
       apply (rule effect_reg effect_field effect_refl)+
      apply (simp_all add: spd g port_fields assms(1) l3_adr_defs l3l4_regs_def upd_field_other p)
      done
  qed
qed


subsection \<open>The command word of a layer 3/4 rule\<close>

text \<open>The fields of the control register of a layer 3/4 filter.\<close>

record l3_word =
  w_enable :: bool
  w_ipv6 :: bool
  w_src_addr :: bool
  w_dest_addr :: bool
  w_src_port :: bool
  w_dest_port :: bool
  w_proto_en :: bool
  w_proto :: u32
  w_queue_en :: bool
  w_queue :: u32
  w_action :: u32

definition l3_decode :: "u32 \<Rightarrow> l3_word" where
  "l3_decode w = \<lparr>w_enable = bit w 31, w_ipv6 = bit w 30, w_src_addr = bit w 29, w_dest_addr = bit w 28,
     w_src_port = bit w 27, w_dest_port = bit w 26, w_proto_en = bit w 25, w_proto = slice_get 0 3 w,
     w_queue_en = bit w 23, w_queue = slice_get 8 5 w, w_action = slice_get 16 3 w\<rparr>"

text \<open>What the rule asks for, from the flow specification.\<close>

definition flow_proto :: "u32 \<Rightarrow> u32 option" where
  "flow_proto t = (if t \<in> {TCP_V4_FLOW, TCP_V6_FLOW} then Some 0
     else if t \<in> {UDP_V4_FLOW, UDP_V6_FLOW} then Some 1
     else if t \<in> {SCTP_V4_FLOW, SCTP_V6_FLOW} then Some 2 else None)"

definition v4_word :: "ethtool_rx_flow_spec \<Rightarrow> l3_word" where
  "v4_word fsp = (let u = h_u fsp; ports = flow_type fsp \<in> {TCP_V4_FLOW, UDP_V4_FLOW, SCTP_V4_FLOW} in
     \<lparr>w_enable = True, w_ipv6 = False, w_src_addr = ip4src u \<noteq> 0, w_dest_addr = ip4dst u \<noteq> 0,
      w_src_port = (ports \<and> ip4_psrc u \<noteq> 0), w_dest_port = (ports \<and> ip4_pdst u \<noteq> 0),
      w_proto_en = ports, w_proto = (case flow_proto (flow_type fsp) of Some p \<Rightarrow> p | None \<Rightarrow> 0),
      w_queue_en = (ring_cookie fsp \<noteq> RX_CLS_FLOW_DISC),
      w_queue = (if ring_cookie fsp = RX_CLS_FLOW_DISC then 0 else ucast (ring_cookie fsp)),
      w_action = (if ring_cookie fsp = RX_CLS_FLOW_DISC then HW_ATL_RX_DISCARD else HW_ATL_RX_HOST)\<rparr>)"

lemma bit_BIT: "bit (BIT n) k \<longleftrightarrow> k = n \<and> n < 32"
  by (auto simp: BIT_def bit_simps dest: bit_imp_le_length)

definition cmd_queue :: "ethtool_rx_flow_spec \<Rightarrow> u32" where
  "cmd_queue fsp = (if ring_cookie fsp \<noteq> RX_CLS_FLOW_DISC
     then BIT 16 OR ucast (push_bit 8 (ring_cookie fsp)) OR BIT 23 else 0)"

lemma bit_cmd_queue:
  assumes "ring_cookie fsp = RX_CLS_FLOW_DISC \<or> unat (ring_cookie fsp) < 32"
  shows "bit (cmd_queue fsp) k \<longleftrightarrow> ring_cookie fsp \<noteq> RX_CLS_FLOW_DISC \<and> k < 32 \<and>
    (k = 16 \<or> k = 23 \<or> (8 \<le> k \<and> k < 13 \<and> bit (ring_cookie fsp) (k - 8)))"
proof -
  have low: "k < 13" if "unat (ring_cookie fsp) < 32" "bit (ring_cookie fsp) (k - 8)"
  proof -
    have "take_bit 5 (ring_cookie fsp) = ring_cookie fsp"
      using that(1) by (simp add: word_unat_eq_iff unsigned_take_bit_eq take_bit_nat_eq_self)
    then have "k - 8 < 5" using that(2) by (metis bit_take_bit_iff)
    then show ?thesis by simp
  qed
  show ?thesis using assms
    by (auto simp: cmd_queue_def bit_or_iff bit_push_bit_iff bit_BIT bit_ucast_iff dest: low)
qed

lemma or_cmd_sel [simp]:
  "l3_cmd (or_cmd m d) = l3_cmd d OR m" "l3_location (or_cmd m d) = l3_location d"
  "ip_dst (or_cmd m d) = ip_dst d" "ip_src (or_cmd m d) = ip_src d" "p_dst (or_cmd m d) = p_dst d"
  "p_src (or_cmd m d) = p_src d" "l3_is_ipv6 (or_cmd m d) = l3_is_ipv6 d"
  by (simp_all add: or_cmd_def)

lemma upd_if_sel: "sel (upd_if b f x) = (if b then sel (f x) else sel x)"
  by (simp add: upd_if_def)

definition v4_ports :: "u32 \<Rightarrow> bool" where
  "v4_ports t \<longleftrightarrow> t \<in> {TCP_V4_FLOW, UDP_V4_FLOW, SCTP_V4_FLOW}"

lemma v4_flow_cases:
  assumes "t \<in> v4_flows"
  shows "t \<notin> {TCP_V6_FLOW, UDP_V6_FLOW, SCTP_V6_FLOW}"
    "v4_ports t \<Longrightarrow> \<exists>p \<in> {0, 1, 2}. flow_proto t = Some p" "\<not> v4_ports t \<Longrightarrow> flow_proto t = None"
  using assms by (auto simp: v4_flows_def v4_ports_def flow_proto_def flow_defs)

definition proto_bits :: "u32 \<Rightarrow> u32" where
  "proto_bits t = (case flow_proto t of None \<Rightarrow> 0 | Some p \<Rightarrow> p OR BIT 25)"

lemma proto_stage:
  assumes "t \<in> v4_flows"
  shows "l3_cmd (l3l4_proto t d) = l3_cmd d OR proto_bits t"
    "l3_location (l3l4_proto t d) = l3_location d" "ip_dst (l3l4_proto t d) = ip_dst d"
    "ip_src (l3l4_proto t d) = ip_src d" "p_dst (l3l4_proto t d) = p_dst d"
    "p_src (l3l4_proto t d) = p_src d" "l3_is_ipv6 (l3l4_proto t d) = l3_is_ipv6 d"
  by (simp_all add: l3l4_proto_def proto_bits_def flow_proto_def HW_ATL_RX_ENABLE_CMP_PROT_L4_def
      HW_ATL_RX_UDP_def HW_ATL_RX_SCTP_def or.assoc)

lemma ports_stage:
  assumes "t \<in> v4_flows"
  shows "l3l4_ports t u d = (if v4_ports t then d\<lparr>p_dst := ip4_pdst u, p_src := ip4_psrc u\<rparr> else d)"
  using v4_flow_cases(1) [OF assms] by (simp add: l3l4_ports_def upd_if_def v4_ports_def)

lemma compare_stage:
  "l3_cmd (l3l4_compare False d) = (((l3_cmd d OR (if ip_src d ! 0 \<noteq> 0 then BIT 29 else 0)) OR
     (if ip_dst d ! 0 \<noteq> 0 then BIT 28 else 0)) OR (if p_dst d \<noteq> 0 then BIT 26 else 0)) OR
     (if p_src d \<noteq> 0 then BIT 27 else 0)"
  "l3_location (l3l4_compare v6 d) = l3_location d" "ip_dst (l3l4_compare v6 d) = ip_dst d"
  "ip_src (l3l4_compare v6 d) = ip_src d" "p_dst (l3l4_compare v6 d) = p_dst d"
  "p_src (l3l4_compare v6 d) = p_src d" "l3_is_ipv6 (l3l4_compare v6 d) = l3_is_ipv6 d"
  by (simp_all add: l3l4_compare_def upd_if_sel Let_def HW_ATL_RX_ENABLE_CMP_SRC_ADDR_L3_def
      HW_ATL_RX_ENABLE_CMP_DEST_ADDR_L3_def HW_ATL_RX_ENABLE_CMP_DEST_PORT_L4_def
      HW_ATL_RX_ENABLE_CMP_SRC_PORT_L4_def)

lemma action_stage:
  "l3_cmd (l3l4_action (ring_cookie fsp) d) = l3_cmd d OR cmd_queue fsp"
  "l3_location (l3l4_action c d) = l3_location d" "ip_dst (l3l4_action c d) = ip_dst d"
  "ip_src (l3l4_action c d) = ip_src d" "p_dst (l3l4_action c d) = p_dst d"
  "p_src (l3l4_action c d) = p_src d" "l3_is_ipv6 (l3l4_action c d) = l3_is_ipv6 d"
  by (simp_all add: l3l4_action_def cmd_queue_def HW_ATL_RX_BOFFSET_QUEUE_FL3L4_def
      HW_ATL_RX_BOFFSET_ACTION_FL3F4_def HW_ATL_RX_HOST_def HW_ATL_RX_DISCARD_def
      HW_ATL_RX_ENABLE_QUEUE_L3L4_def BIT_def or.assoc)

lemma v4_cmd:
  assumes "\<not> fl_is_ipv6 fl" "flow_type (aq_fsp rule) \<in> v4_flows"
    and "ring_cookie (aq_fsp rule) = RX_CLS_FLOW_DISC \<or> unat (ring_cookie (aq_fsp rule)) < 32"
  defines "d \<equiv> fst (aq_set_data_fl3l4 fl rule True)"
  shows "l3_decode (l3_cmd d) = v4_word (aq_fsp rule)" "l3_cmd d \<noteq> 0" "\<not> l3_is_ipv6 d"
    "ip_src d ! 0 = ip4src (h_u (aq_fsp rule))" "ip_dst d ! 0 = ip4dst (h_u (aq_fsp rule))"
    "l3_location d = of_nat (unat (ucast (location (aq_fsp rule) - AQ_RX_FIRST_LOC_FL3L4) :: u8))"
    "p_src d = (if v4_ports (flow_type (aq_fsp rule)) then ip4_psrc (h_u (aq_fsp rule)) else 0)"
    "p_dst d = (if v4_ports (flow_type (aq_fsp rule)) then ip4_pdst (h_u (aq_fsp rule)) else 0)"
proof -
  let ?f = "aq_fsp rule" let ?t = "flow_type (aq_fsp rule)" let ?u = "h_u (aq_fsp rule)"
  note st = proto_stage [OF assms(2)] ports_stage [OF assms(2)] compare_stage action_stage l3l4_addrs_def
    l3l4_zero_def aq_set_data_fl3l4_def HW_ATL_RX_ENABLE_FLTR_L3L4_def
  show "\<not> l3_is_ipv6 d" "ip_src d ! 0 = ip4src ?u" "ip_dst d ! 0 = ip4dst ?u"
    "l3_location d = of_nat (unat (ucast (location ?f - AQ_RX_FIRST_LOC_FL3L4) :: u8))"
    "p_src d = (if v4_ports ?t then ip4_psrc ?u else 0)" "p_dst d = (if v4_ports ?t then ip4_pdst ?u else 0)"
    using assms(1) by (simp_all add: d_def Let_def st)
  have c: "l3_cmd d = ((((((BIT 31 OR proto_bits ?t) OR
      (if ip4src ?u \<noteq> 0 then BIT 29 else 0)) OR (if ip4dst ?u \<noteq> 0 then BIT 28 else 0)) OR
      (if v4_ports ?t \<and> ip4_pdst ?u \<noteq> 0 then BIT 26 else 0)) OR
      (if v4_ports ?t \<and> ip4_psrc ?u \<noteq> 0 then BIT 27 else 0)) OR cmd_queue ?f)"
    using assms(1) by (simp add: d_def Let_def st)
  have b: "bit (l3_cmd d) k \<longleftrightarrow> (\<exists>p. flow_proto ?t = Some p \<and> bit p k) \<or> k = 31 \<or> (v4_ports ?t \<and> k = 25) \<or>
      (ip4src ?u \<noteq> 0 \<and> k = 29) \<or> (ip4dst ?u \<noteq> 0 \<and> k = 28) \<or> (v4_ports ?t \<and> ip4_pdst ?u \<noteq> 0 \<and> k = 26) \<or>
      (v4_ports ?t \<and> ip4_psrc ?u \<noteq> 0 \<and> k = 27) \<or> bit (cmd_queue ?f) k" for k
    using v4_flow_cases(2,3) [OF assms(2)] unfolding c
    by (cases "v4_ports ?t") (auto simp: bit_or_iff bit_BIT proto_bits_def)
  show "l3_cmd d \<noteq> 0" using b [of 31] by auto
  have two: "(2 :: u32) = BIT 1" by (simp add: BIT_def)
  define p where "p = (case flow_proto ?t of Some p \<Rightarrow> p | None \<Rightarrow> 0)"
  have p: "p \<in> {0, 1, 2}" "(\<exists>q. flow_proto ?t = Some q \<and> bit q k) \<longleftrightarrow> bit p k" for k
    using v4_flow_cases(2,3) [OF assms(2)] by (cases "v4_ports ?t"; auto simp: p_def)+
  have low: "bit p k \<Longrightarrow> k < 2" for k using p(1) unfolding two by (auto simp: bit_1_iff bit_BIT)
  note q = bit_cmd_queue [OF assms(3)]
  note b = b [unfolded p(2) q]
  have "slice_get 0 3 (l3_cmd d) = p"
    by (intro bit_word_eqI) (auto simp: bit_slice_get b dest: low)
  moreover have "slice_get 8 5 (l3_cmd d) = (if ring_cookie ?f = RX_CLS_FLOW_DISC then 0 else ucast (ring_cookie ?f))"
  proof (intro bit_word_eqI)
    fix k
    have "bit (ring_cookie ?f) k \<Longrightarrow> ring_cookie ?f \<noteq> RX_CLS_FLOW_DISC \<Longrightarrow> k < 5"
    proof -
      assume k: "bit (ring_cookie ?f) k" "ring_cookie ?f \<noteq> RX_CLS_FLOW_DISC"
      then have "take_bit 5 (ring_cookie ?f) = ring_cookie ?f"
        using assms(3) by (simp add: word_unat_eq_iff unsigned_take_bit_eq take_bit_nat_eq_self)
      then show "k < 5" using k(1) by (metis bit_take_bit_iff)
    qed
    then show "bit (slice_get 8 5 (l3_cmd d)) k =
        bit (if ring_cookie ?f = RX_CLS_FLOW_DISC then 0 else ucast (ring_cookie ?f) :: u32) k"
      by (auto simp: bit_slice_get b bit_ucast_iff dest: low)
  qed
  moreover have "slice_get 16 3 (l3_cmd d) = (if ring_cookie ?f = RX_CLS_FLOW_DISC then HW_ATL_RX_DISCARD else HW_ATL_RX_HOST)"
    by (intro bit_word_eqI) (auto simp: bit_slice_get b HW_ATL_RX_DISCARD_def HW_ATL_RX_HOST_def bit_1_iff dest: low)
  moreover have "\<not> bit p k" if "2 \<le> k" for k using low that by fastforce
  ultimately show "l3_decode (l3_cmd d) = v4_word (aq_fsp rule)"
    by (auto simp: l3_decode_def v4_word_def Let_def b v4_ports_def p_def [symmetric])
qed


subsection \<open>Programming an IPv4 rule\<close>

lemma v4_rule_on_chip:
  assumes "chip_hw (flt_hw nic)" "\<not> fl_is_ipv6 (rx_fltrs nic)" "flow_type (aq_fsp rule) \<in> v4_flows"
    and loc: "AQ_RX_FIRST_LOC_FL3L4 \<le> location (aq_fsp rule)" "location (aq_fsp rule) \<le> AQ_RX_LAST_LOC_FL3L4"
    and cookie: "ring_cookie (aq_fsp rule) = RX_CLS_FLOW_DISC \<or> unat (ring_cookie (aq_fsp rule)) < 32"
    and run: "aq_add_del_fl3l4 b0_filter_ops nic rule True = (err, nic')"
  shows "chip_hw (flt_hw nic') \<and> err = aq_hw_err_from_flags (flt_hw nic) \<and>
    (let n = l3_slot (aq_fsp rule); u = h_u (aq_fsp rule); r = regs (flt_hw nic');
         ports = v4_ports (flow_type (aq_fsp rule)) in
     l3_decode (r (l3_ctrl n)) = v4_word (aq_fsp rule) \<and> r (l3_srca n) = ip4src u \<and> r (l3_desta n) = ip4dst u \<and>
     r (l4_sport n) AND 0xFFFF = ucast (if ports then ip4_psrc u else 0) \<and>
     r (l4_dport n) AND 0xFFFF = ucast (if ports then ip4_pdst u else 0) \<and>
     (\<forall>a. a \<notin> l3l4_regs n \<longrightarrow> r a = regs (flt_hw nic) a))"
proof -
  let ?f = "aq_fsp rule" let ?n = "l3_slot ?f"
  define d where "d = fst (aq_set_data_fl3l4 (rx_fltrs nic) rule True)"
  note v = v4_cmd [OF assms(2,3) cookie, folded d_def]
  have nl: "\<not> (location ?f < AQ_RX_FIRST_LOC_FL3L4 \<or> location ?f > AQ_RX_LAST_LOC_FL3L4)"
    using loc by (simp add: not_less)
  note l = l3_loc [OF nl]
  have dl: "unat (l3_location d) = ?n"
    using l(2) by (simp add: v(6) l(1) unsigned_of_nat take_bit_nat_eq_self)
  obtain hw' where h: "hw_atl_b0_hw_fl3l4_set (flt_hw nic) d = (err, hw')" "flt_hw nic' = hw'"
    using run nl by (auto simp: aq_add_del_fl3l4_def Let_def aq_set_fl3l4_def b0_filter_ops_def
        d_def split: prod.splits)
  note b = b0_l3l4_v4 [OF assms(1) v(3) dl l(2) v(2) h(1)]
  note ne = l3_adr_ne [OF l(2)]
  have ports: "regs hw' (l4_sport ?n) AND 0xFFFF = ucast (p_src d)" "regs hw' (l4_dport ?n) AND 0xFFFF = ucast (p_dst d)"
    using ne by (auto simp: b(4) with_port_low)
  then show ?thesis
    using ne b(1,2) v(1,4,5,7,8) by (auto simp: h(2) Let_def b(4) l3l4_regs_def)
qed

subsection \<open>Ethertype filters\<close>

text \<open>
  Ethertype filter \<open>i\<close> of the chip: off, or the ethertype, the priority if one is compared,
  the action, and the receive queue if one is assigned.
\<close>

definition chip_etht :: "aq_hw_s \<Rightarrow> nat \<Rightarrow> (u32 \<times> u32 option \<times> u32 \<times> u32 option) option" where
  "chip_etht hw i =
     (if fget hw HW_ATL_RPF_ET_ENF i = 0 then None
      else Some (fget hw HW_ATL_RPF_ET_VALF i,
        (if fget hw HW_ATL_RPF_ET_UPFEN i = 0 then None else Some (fget hw HW_ATL_RPF_ET_UPF i)),
        fget hw HW_ATL_RPF_ET_ACTF i,
        (if fget hw HW_ATL_RPF_ET_RXQFEN i = 0 then None else Some (fget hw HW_ATL_RPF_ET_RXQF i))))"

lemma etht_fields_distinct: "distinct etht_fields"
  by (simp add: etht_fields_def HW_ATL_RPF_ET_ENF_def HW_ATL_RPF_ET_UPFEN_def HW_ATL_RPF_ET_RXQFEN_def
      HW_ATL_RPF_ET_UPF_def HW_ATL_RPF_ET_RXQF_def HW_ATL_RPF_ET_ACTF_def HW_ATL_RPF_ET_VALF_def)

lemma etht_field_in [simp]:
  "HW_ATL_RPF_ET_ENF \<in> set etht_fields" "HW_ATL_RPF_ET_UPFEN \<in> set etht_fields"
  "HW_ATL_RPF_ET_RXQFEN \<in> set etht_fields" "HW_ATL_RPF_ET_UPF \<in> set etht_fields"
  "HW_ATL_RPF_ET_RXQF \<in> set etht_fields" "HW_ATL_RPF_ET_ACTF \<in> set etht_fields"
  "HW_ATL_RPF_ET_VALF \<in> set etht_fields"
  by (simp_all add: etht_fields_def)

lemma etht_ne [simp]:
  "HW_ATL_RPF_ET_ENF \<noteq> HW_ATL_RPF_ET_UPFEN"
  "HW_ATL_RPF_ET_ENF \<noteq> HW_ATL_RPF_ET_RXQFEN" "HW_ATL_RPF_ET_ENF \<noteq> HW_ATL_RPF_ET_UPF"
  "HW_ATL_RPF_ET_ENF \<noteq> HW_ATL_RPF_ET_RXQF" "HW_ATL_RPF_ET_ENF \<noteq> HW_ATL_RPF_ET_ACTF"
  "HW_ATL_RPF_ET_ENF \<noteq> HW_ATL_RPF_ET_VALF" "HW_ATL_RPF_ET_UPFEN \<noteq> HW_ATL_RPF_ET_RXQFEN" "HW_ATL_RPF_ET_UPFEN \<noteq> HW_ATL_RPF_ET_UPF"
  "HW_ATL_RPF_ET_UPFEN \<noteq> HW_ATL_RPF_ET_RXQF" "HW_ATL_RPF_ET_UPFEN \<noteq> HW_ATL_RPF_ET_ACTF"
  "HW_ATL_RPF_ET_UPFEN \<noteq> HW_ATL_RPF_ET_VALF" "HW_ATL_RPF_ET_RXQFEN \<noteq> HW_ATL_RPF_ET_UPF"
  "HW_ATL_RPF_ET_RXQFEN \<noteq> HW_ATL_RPF_ET_RXQF" "HW_ATL_RPF_ET_RXQFEN \<noteq> HW_ATL_RPF_ET_ACTF"
  "HW_ATL_RPF_ET_RXQFEN \<noteq> HW_ATL_RPF_ET_VALF" "HW_ATL_RPF_ET_UPF \<noteq> HW_ATL_RPF_ET_RXQF" "HW_ATL_RPF_ET_UPF \<noteq> HW_ATL_RPF_ET_ACTF"
  "HW_ATL_RPF_ET_UPF \<noteq> HW_ATL_RPF_ET_VALF" "HW_ATL_RPF_ET_RXQF \<noteq> HW_ATL_RPF_ET_ACTF"
  "HW_ATL_RPF_ET_RXQF \<noteq> HW_ATL_RPF_ET_VALF" "HW_ATL_RPF_ET_ACTF \<noteq> HW_ATL_RPF_ET_VALF"
  using etht_fields_distinct by (simp_all add: etht_fields_def)

lemma etht_value_fits [simp]:
  "unat x < 2 \<Longrightarrow> field_fits HW_ATL_RPF_ET_ENF x" "unat x < 2 \<Longrightarrow> field_fits HW_ATL_RPF_ET_UPFEN x"
  "unat x < 2 \<Longrightarrow> field_fits HW_ATL_RPF_ET_RXQFEN x" "unat x < 8 \<Longrightarrow> field_fits HW_ATL_RPF_ET_UPF x"
  "unat x < 32 \<Longrightarrow> field_fits HW_ATL_RPF_ET_RXQF x" "unat x < 8 \<Longrightarrow> field_fits HW_ATL_RPF_ET_ACTF x"
  "unat x < 65536 \<Longrightarrow> field_fits HW_ATL_RPF_ET_VALF x"
proof -
  note f = fits_width [OF filter_banks(2)]
  show "unat x < 2 \<Longrightarrow> field_fits HW_ATL_RPF_ET_ENF x"
    by (rule f [where w = 1], simp, simp add: HW_ATL_RPF_ET_ENF_def, simp)
  show "unat x < 2 \<Longrightarrow> field_fits HW_ATL_RPF_ET_UPFEN x"
    by (rule f [where w = 1], simp, simp add: HW_ATL_RPF_ET_UPFEN_def, simp)
  show "unat x < 2 \<Longrightarrow> field_fits HW_ATL_RPF_ET_RXQFEN x"
    by (rule f [where w = 1], simp, simp add: HW_ATL_RPF_ET_RXQFEN_def, simp)
  show "unat x < 8 \<Longrightarrow> field_fits HW_ATL_RPF_ET_UPF x"
    by (rule f [where w = 3], simp, simp add: HW_ATL_RPF_ET_UPF_def, simp)
  show "unat x < 32 \<Longrightarrow> field_fits HW_ATL_RPF_ET_RXQF x"
    by (rule f [where w = 5], simp, simp add: HW_ATL_RPF_ET_RXQF_def, simp)
  show "unat x < 8 \<Longrightarrow> field_fits HW_ATL_RPF_ET_ACTF x"
    by (rule f [where w = 3], simp, simp add: HW_ATL_RPF_ET_ACTF_def, simp)
  show "unat x < 65536 \<Longrightarrow> field_fits HW_ATL_RPF_ET_VALF x"
    by (rule f [where w = 16], simp, simp add: HW_ATL_RPF_ET_VALF_def, simp)
qed

lemmas etht_write = bank_write [OF filter_banks(2)]

lemma b0_fl2_set:
  assumes "chip_hw hw" "unat (l2_location d) = i" "i < 16" "unat (user_priority d) < 8"
    and "0 \<le>s l2_queue d \<Longrightarrow> unat (l2_queue d) < 32" and "hw_atl_b0_hw_fl2_set hw d = (err, hw')"
  shows "chip_hw hw' \<and> err = aq_hw_err_from_flags hw \<and>
    chip_etht hw' i = Some (ucast (ethertype d),
      (if user_priority_en d then Some (ucast (user_priority d)) else None),
      (if 0 \<le>s l2_queue d then 1 else 0), (if 0 \<le>s l2_queue d then Some (ucast (l2_queue d)) else None)) \<and>
    (\<forall>j < 16. j \<noteq> i \<longrightarrow> chip_etht hw' j = chip_etht hw j)"
proof -
  have loc: "ucast (l2_location d) = (of_nat i :: u32)"
    using assms(2) unat_u8_less [of "l2_location d"]
    by (simp add: word_unat_eq_iff unsigned_ucast_eq unsigned_of_nat unsigned_take_bit_eq take_bit_nat_eq_self)
  define q :: u32 where "q = scast (l2_queue d)"
  have q: "q = ucast (l2_queue d)" "unat q < 32" if "0 \<le>s l2_queue d"
  proof -
    have u: "unat (l2_queue d) < 32" using assms(5) that by blast
    have "scast (l2_queue d) = (ucast (l2_queue d) :: u32)"
    proof (rule bit_word_eqI)
      fix k
      have "take_bit 5 (l2_queue d) = l2_queue d"
        using u by (simp add: word_unat_eq_iff unsigned_take_bit_eq take_bit_nat_eq_self)
      then have "bit (l2_queue d) n \<Longrightarrow> n < 5" for n by (metis bit_take_bit_iff)
      then have "\<not> bit (l2_queue d) 7" "7 \<le> k \<Longrightarrow> \<not> bit (l2_queue d) k" by fastforce+
      then show "bit (scast (l2_queue d) :: u32) k = bit (ucast (l2_queue d) :: u32) k"
        by (cases "k < 7") (auto simp: bit_signed_iff bit_ucast_iff min_def)
    qed
    then show "q = ucast (l2_queue d)" by (simp add: q_def)
    then show "unat q < 32" using u by (simp add: unsigned_ucast_eq take_bit_nat_eq_self)
  qed
  have neg: "l2_queue d <s 0 \<longleftrightarrow> \<not> 0 \<le>s l2_queue d" by (simp add: word_sle_eq word_sless_alt not_le)
  have prio: "unat (ucast (user_priority d) :: u32) < 8" and et: "unat (ucast (ethertype d) :: u32) < 65536"
    using assms(4) unat_u16_less [of "ethertype d"]
    by (simp_all add: unsigned_ucast_eq take_bit_nat_eq_self)
  note dd = hw_atl_b0_hw_fl2_set_def Let_def hw_atl_rpf_etht_flr_en_set_def hw_atl_rpf_etht_flr_set_def
    hw_atl_rpf_etht_user_priority_en_set_def hw_atl_rpf_etht_user_priority_set_def
    hw_atl_rpf_etht_flr_act_set_def hw_atl_rpf_etht_rx_queue_en_set_def hw_atl_rpf_etht_rx_queue_set_def
  have e: "hw' = snd (hw_atl_b0_hw_fl2_set hw d)" "err = fst (hw_atl_b0_hw_fl2_set hw d)"
    using assms(6) by simp_all
  show ?thesis
    unfolding e chip_etht_def using assms(1,3) prio et q
    by (cases "user_priority_en d"; cases "0 \<le>s l2_queue d";
      simp add: dd loc neg q_def [symmetric] etht_write etht_ne [symmetric])
qed

end
