(* ===== verification/Filter_Props.thy ===== *)
theory Filter_Props
  imports B0_Rules Samples
begin

section \<open>Properties of the receive filters\<close>

text \<open>
  The table of flow rules as a map, its invariant in every reachable state, what the checks
  guarantee, which VLANs the chip passes, and what its filter registers hold after a rule was
  programmed. The concrete states at the start instantiate the hypotheses.
\<close>

definition ext0 :: ethtool_flow_ext where
  "ext0 = \<lparr>ext_h_dest = [], vlan_etype = 0, vlan_tci = 0, ext_data = (0, 0)\<rparr>"

text \<open>A TCP over IPv4 rule for 10.0.0.1 port 80, at a location, to a queue.\<close>

definition fsp0 :: "u32 \<Rightarrow> u64 \<Rightarrow> ethtool_rx_flow_spec" where
  "fsp0 l q = \<lparr>flow_type = TCP_V4_FLOW, h_u = [0, 0, 0, 0, 10, 0, 0, 1, 0, 0, 0, 80] @ replicate 40 0,
     h_ext = ext0, m_u = replicate 52 0, m_ext = ext0, ring_cookie = q, location = l\<rparr>"

definition rule0 :: "u32 \<Rightarrow> u64 \<Rightarrow> aq_rx_filter" where
  "rule0 l q = \<lparr>rule_type = aq_rx_filter_l3l4, aq_fsp = fsp0 l q\<rparr>"

text \<open>Hardware operations that do nothing and report success.\<close>

definition quiet_ops :: filter_ops where
  "quiet_ops = \<lparr>hw_filter_l2_set = Some (\<lambda>hw d. (0, hw)), hw_filter_l2_clear = Some (\<lambda>hw d. (0, hw)),
     hw_filter_l3l4_set = Some (\<lambda>hw d. (0, hw)), hw_filter_vlan_set = Some (\<lambda>hw d. (0, hw)),
     hw_filter_vlan_ctrl = Some (\<lambda>hw d. (0, hw))\<rparr>"

definition fnic0 :: "aq_hw_s \<Rightarrow> filter_nic" where
  "fnic0 hw = \<lparr>flt_hw = hw, rx_fltrs = fltrs0, active_vlans = (\<lambda>v. False), ntuple_on = True,
     vlan_filter_on = True, online_cpus = 4\<rparr>"

definition fnic1 :: "aq_hw_s \<Rightarrow> filter_nic" where
  "fnic1 hw = snd (aq_add_rxnfc_rule quiet_ops True (fnic0 hw) (fsp0 33 2))"

lemma fnic0_reach [simp]: "fltr_reach ops (fnic0 hw)"
  by (rule fltr_reach.init) (simp add: fnic0_def)

lemma fnic1_reach [simp]: "fltr_reach quiet_ops (fnic1 hw)"
  unfolding fnic1_def by (rule fltr_reach.step [OF fnic0_reach fltr_step.add_rule]) (rule surjective_pairing)

lemma fnic1_rules: "rules (fnic1 hw) = [rule0 33 2]" "fst (aq_add_rxnfc_rule quiet_ops True (fnic0 hw) (fsp0 33 2)) = 0"
  by code_simp+

lemma hw0_chip [simp]: "chip_hw hw0"
  by (simp add: chip_hw_def)


subsection \<open>The rule table\<close>





text \<open>
  Deleting the rule at a location takes exactly that location out of the map, whatever
  the hardware reports; where there is no rule the request is refused with \<open>-EINVAL\<close> and
  nothing changes.
\<close>

theorem del_rule_refines_map:
  assumes "fltr_reach ops nic" "aq_del_rxnfc_rule ops nic l = (err, nic')"
  shows "rule_map (rules nic') = (rule_map (rules nic))(l := None) \<and>
    (rule_map (rules nic) l = None \<longrightarrow> err = - EINVAL \<and> nic' = nic) \<and> active_vlans nic' = active_vlans nic"
  using del_rule_spec [OF fltr_reach_ok [OF assms(1)] assms(2)] by blast

theorem del_rule_refines_map_witness:
  "rule_map (rules (snd (aq_del_rxnfc_rule quiet_ops (fnic1 hw0) 33))) 33 = None"
  using del_rule_refines_map [OF fnic1_reach surjective_pairing, of hw0 33] by simp

text \<open>
  Reading the table. A query for a location returns the map's entry or \<open>-EINVAL\<close>; the list
  of all locations is the domain of the map in ascending order, or \<open>-EMSGSIZE\<close> when the caller's
  array is too short for it.
\<close>

theorem queries_read_map:
  assumes "fltr_reach ops nic"
  shows "aq_get_rxnfc_rule nic l =
      (case rule_map (rules nic) l of None \<Rightarrow> Inl (- EINVAL) | Some fsp \<Rightarrow> Inr fsp) \<and>
    (if length (rules nic) \<le> cnt
     then \<exists>ls. aq_get_rxnfc_all_rules nic cnt = Inr ls \<and> sorted_wrt (<) ls \<and> set ls = dom (rule_map (rules nic))
     else aq_get_rxnfc_all_rules nic cnt = Inl (- EMSGSIZE))"
proof -
  have s: "by_loc (rules nic)" using fltr_reach_ok [OF assms] by (simp add: table_ok_def)
  show ?thesis using get_rule_spec [OF s] get_all_spec [OF s] by simp
qed

theorem queries_read_map_witness:
  "aq_get_rxnfc_all_rules (fnic1 hw0) 0 = Inl (- EMSGSIZE)"
  using queries_read_map [OF fnic1_reach, of hw0 33 0] by (simp add: fnic1_rules)

text \<open>
  A rule that replaces another one is lost together with it when the hardware refuses the
  new one: the old rule has been taken out before the new one is tried and is not put back.
\<close>

theorem failed_replace_loses_rule:
  assumes "fltr_reach ops nic" "aq_add_rxnfc_rule ops True nic fsp = (err, nic')"
    and "fst (aq_check_rule nic fsp) = 0" "err \<noteq> 0" "rule_map (rules nic) (location fsp) = Some old"
  shows "rule_map (rules nic') = (rule_map (rules nic))(location fsp := None) \<and>
    rule_map (rules nic') \<noteq> rule_map (rules nic)"
  using add_rule_spec [OF fltr_reach_ok [OF assms(1)] assms(2)] assms(3-5)
  by (auto simp: fun_eq_iff split: if_splits)

theorem failed_replace_loses_rule_witness:
  "rule_map (rules (snd (aq_add_rxnfc_rule quiet_ops True (fnic1 hw0) ((fsp0 33 1)\<lparr>flow_type := IPV4_FLOW\<rparr>)))) 33 = None"
proof -
  let ?f = "(fsp0 33 1)\<lparr>flow_type := IPV4_FLOW\<rparr>"
  have "fst (aq_check_rule (fnic1 hw) ?f) = 0" "fst (aq_add_rxnfc_rule quiet_ops True (fnic1 hw) ?f) = - EINVAL" for hw
    by code_simp+
  then have "fst (aq_check_rule (fnic1 hw0) ?f) = 0" "fst (aq_add_rxnfc_rule quiet_ops True (fnic1 hw0) ?f) \<noteq> 0"
    by (simp_all add: errno_defs)
  moreover have "rule_map (rules (fnic1 hw0)) (location ?f) = Some (fsp0 33 2)"
    by (simp add: fnic1_rules rule_map_def rule_loc_def rule0_def fsp0_def)
  ultimately show ?thesis
    using failed_replace_loses_rule [OF fnic1_reach surjective_pairing, of hw0 ?f] by (simp add: fsp0_def)
qed

text \<open>
  Unregistering a VLAN removes the first rule whose tag field holds the VLAN number,
  whatever kind of rule it is. With VLAN 0 that is the first rule that has no tag at all.
\<close>

theorem kill_vid_removes_any_rule:
  assumes "fltr_reach ops nic" "hw_filter_vlan_set ops \<noteq> None"
    and "rules nic = pre @ r # post" "\<forall>x \<in> set pre. vlan_tci (h_ext (aq_fsp x)) \<noteq> vid"
    and "vlan_tci (h_ext (aq_fsp r)) = vid" "aq_ndo_vlan_rx_kill_vid ops nic vid = (err, nic')"
  shows "rule_map (rules nic') = (rule_map (rules nic))(rule_loc r := None)"
proof -
  let ?n = "nic\<lparr>active_vlans := (active_vlans nic)(unat vid := False)\<rparr>"
  obtain e n where d: "aq_del_rxnfc_rule ops ?n (rule_loc r) = (e, n)" by fastforce
  have "find (\<lambda>r. vlan_tci (h_ext (aq_fsp r)) = vid) (rules nic) = Some r"
    unfolding assms(3) using assms(4,5) by (induction pre) auto
  then have "aq_del_fvlan_by_vlan ops ?n vid = (e, n)"
    using d by (simp add: aq_del_fvlan_by_vlan_def rules_def)
  moreover have "table_ok ?n" using fltr_reach_ok [OF assms(1)] by simp
  note s = del_rule_spec(1,3) [OF this d]
  ultimately show ?thesis
    using assms(2,6) vlans_update_ok [of ops n err nic'] s
    by (auto simp: aq_ndo_vlan_rx_kill_vid_def Let_def split: if_splits)
qed

theorem kill_vid_removes_any_rule_witness:
  "rule_map (rules (snd (aq_ndo_vlan_rx_kill_vid quiet_ops (fnic1 hw0) 0))) 33 = None"
  using kill_vid_removes_any_rule [OF fnic1_reach, of hw0 "[]" "rule0 33 2" "[]" 0]
  by (simp add: fnic1_rules quiet_ops_def rule0_def fsp0_def ext0_def rule_loc_def prod_eq_iff)


text \<open>
  What a rule that passes the checks satisfies: its location is at most 39 and lies in the
  range of its kind (an IPv6 rule at 32 or 36), its queue is below the number of online CPUs
  unless it discards, and a VLAN rule is for a registered VLAN and a queue of at most the
  number of receive queues. A refused rule changes nothing but the flag for the IP version,
  and the error is one of three.
\<close>

theorem checked_rule_bounds:
  assumes "fltr_reach ops nic" "aq_check_rule nic fsp = (err, nic')"
  shows "err \<in> {0, - EINVAL, - EOPNOTSUPP, - EEXIST} \<and> (\<exists>b. nic' = set_v6 b nic) \<and>
    (err = 0 \<longrightarrow> unat (location fsp) \<le> 39 \<and>
       (ring_cookie fsp = RX_CLS_FLOW_DISC \<or> ring_cookie fsp < ucast (online_cpus nic)) \<and>
       (rule_kind fsp = Some aq_rx_filter_vlan \<longrightarrow> unat (location fsp) \<le> 15 \<and>
          active_vlans nic (unat (vlan_tci (h_ext fsp))) \<and>
          ring_cookie fsp \<le> ucast (num_rss_queues (aq_nic_cfg (flt_hw nic)))) \<and>
       (rule_kind fsp = Some aq_rx_filter_ethertype \<longrightarrow> 16 \<le> unat (location fsp) \<and> unat (location fsp) \<le> 31) \<and>
       (flow_type fsp AND FLOW_EXT = 0 \<and> flow_type fsp \<in> v6_flows \<longrightarrow> unat (location fsp) \<in> {32, 36}))"
proof -
  have ex: "ip_excl (rx_fltrs nic)" using fltr_reach_ok [OF assms(1)] by (simp add: table_ok_def)
  obtain b where b: "nic' = set_v6 b nic" "err \<in> {0, - EINVAL, - EOPNOTSUPP, - EEXIST}"
    and ok: "err = 0 \<Longrightarrow> checked nic' fsp"
    using check_rule_spec [OF assms(2) ex] by blast
  have v6: "rule_kind fsp = Some aq_rx_filter_l3l4" if "flow_type fsp AND FLOW_EXT = 0" "flow_type fsp \<in> v6_flows"
    using that by (auto simp: rule_kind_def v6_flows_def v4_flows_def flow_defs)
  have cpus: "online_cpus (set_v6 b nic) = online_cpus nic" by (simp add: set_v6_def)
  show ?thesis
    using b ok v6 cpus
    by (auto simp: checked_def placed_def kind_ok_def loc_defs word_le_nat_alt)
qed

theorem checked_rule_bounds_witness:
  "fst (aq_check_rule (fnic1 hw0) (fsp0 40 2)) \<noteq> 0"
  using checked_rule_bounds [OF fnic1_reach surjective_pairing, of hw0 "fsp0 40 2"] by (auto simp: fsp0_def)

subsection \<open>VLAN filtering\<close>

text \<open>
  C11: The double loop of \<open>aq_fvlan_rebuild\<close> computes the reference: slots pinned by a rule stay,
  the others receive in order the registered VLANs no rule has taken, and what is left over is
  switched off.
\<close>

theorem fvlan_rebuild_matches_reference:
  assumes "length vl = HW_ATL_VLAN_MAX_FILTERS"
  shows "aq_fvlan_rebuild bm vl =
    fvlan_fill (filter (\<lambda>w. bm w \<and> \<not> vlan_busy vl w) [0..<VLAN_N_VID]) vl"
  using assms by (rule rebuild_fill)

theorem fvlan_rebuild_matches_reference_witness:
  "aq_fvlan_rebuild (\<lambda>w. False) (replicate 16 vlan_zero) = replicate 16 (vlan_none vlan_zero)"
proof -
  have "fvlan_fill [] (replicate n vlan_zero) = replicate n (vlan_none vlan_zero)" for n
    by (induction n) (simp_all add: vlan_pinned_def vlan_zero_def)
  then show ?thesis
    using fvlan_rebuild_matches_reference [of "replicate 16 vlan_zero" "\<lambda>w. False"]
    by (simp add: HW_ATL_VLAN_MAX_FILTERS_def)
qed

text \<open>
  C8: On the B0 chip no registered VLAN is ever filtered out: after \<open>aq_filters_vlans_update\<close>,
  failed or not, the chip passes every VLAN the kernel has registered. When it succeeds with at
  most sixteen of them the chip passes exactly these, and the VLANs of rules go to the rule's
  queue.
\<close>

theorem registered_vlans_pass:
  assumes "chip_hw (flt_hw nic)" "vlan_table_ok (active_vlans nic) (aq_vlans (rx_fltrs nic))"
    and "aq_filters_vlans_update b0_filter_ops nic = (err, nic')"
  shows "(\<forall>w < VLAN_N_VID. active_vlans nic w \<longrightarrow> chip_passes (flt_hw nic') w) \<and>
    (err = 0 \<and> hweight (active_vlans nic) \<le> HW_ATL_VLAN_MAX_FILTERS \<longrightarrow>
      (\<forall>w < VLAN_N_VID. chip_passes (flt_hw nic') w \<longleftrightarrow> active_vlans nic w)) \<and>
    (err = 0 \<longrightarrow> (\<forall>i < HW_ATL_VLAN_MAX_FILTERS. let v = aq_vlans (rx_fltrs nic) ! i in vlan_pinned v \<longrightarrow>
      chip_vlan (flt_hw nic') i = Some (ucast (vlan_id v), 1, Some (ucast (vf_queue v)))))"
proof -
  have "0 < VLAN_N_VID" by (simp add: VLAN_N_VID_def)
  then show ?thesis
    using vlans_update_passes(1,2) [OF assms] vlans_update_passes(3) [OF assms] by (auto simp: Let_def)
qed

theorem registered_vlans_pass_witness:
  "chip_passes (flt_hw (snd (aq_filters_vlans_update b0_filter_ops
     ((fnic0 hw0)\<lparr>active_vlans := (\<lambda>w. w = 7)\<rparr>)))) 7"
proof -
  let ?n = "(fnic0 hw0)\<lparr>active_vlans := (\<lambda>w. w = 7)\<rparr>"
  have "vlan_table_ok (active_vlans ?n) (aq_vlans (rx_fltrs ?n))"
    by (simp add: vlan_table_ok_def pinned_ids_def fnic0_def fltrs0_def list_all_iff vlan_pinned_def vlan_zero_def)
  moreover have "chip_hw (flt_hw ?n)" by (simp add: fnic0_def)
  ultimately show ?thesis
    using registered_vlans_pass [OF _ _ surjective_pairing, of ?n] by (simp add: VLAN_N_VID_def)
qed

subsection \<open>Rules on the chip\<close>




text \<open>
  Programming an IPv6 filter. It takes four filter slots: the first control register gets
  the command, the other three are cleared, the eight address registers hold the two addresses
  word by word, the ports are set, and the registers of the other four slots are as before.
\<close>

theorem v6_filter_programs_chip:
  assumes "chip_hw hw" "l3_is_ipv6 d" "unat (l3_location d) = n" "n \<in> {0, 4}" "l3_cmd d \<noteq> 0"
    and "hw_atl_b0_hw_fl3l4_set hw d = (err, hw')"
  shows "regs hw' (l3_ctrl n) = l3_cmd d \<and> (\<forall>i \<in> {1, 2, 3}. regs hw' (l3_ctrl (n + i)) = 0) \<and>
    (\<forall>j \<in> {0, 1, 2, 3}. regs hw' (l3_srca (n + j)) = ip_src d ! j \<and> regs hw' (l3_desta (n + j)) = ip_dst d ! j) \<and>
    regs hw' (l4_sport n) AND 0xFFFF = ucast (p_src d) \<and> regs hw' (l4_dport n) AND 0xFFFF = ucast (p_dst d) \<and>
    (\<forall>a. a \<notin> \<Union> (l3l4_regs ` {n, n + 1, n + 2, n + 3}) \<longrightarrow> regs hw' a = regs hw a) \<and>
    aq_hw_err_from_flags hw' = aq_hw_err_from_flags hw"
  using b0_l3l4_v6 [OF assms] by (auto simp: effect_def with_port_low)

theorem v6_filter_programs_chip_witness:
  "regs (snd (hw_atl_b0_hw_fl3l4_set hw0 (l3l4_zero\<lparr>l3_is_ipv6 := True, l3_location := 4, l3_cmd := 0xC0000000\<rparr>)))
     (l3_ctrl 4) = 0xC0000000"
  using v6_filter_programs_chip [OF hw0_chip _ _ _ _ surjective_pairing,
      of "l3l4_zero\<lparr>l3_is_ipv6 := True, l3_location := 4, l3_cmd := 0xC0000000\<rparr>" 4]
  by simp

text \<open>
  Programming an ethertype rule. Filter \<open>location - 16\<close> of the chip is on, matches the
  rule's ethertype and, if the rule gives one, the VLAN priority, and delivers to the rule's
  queue or discards; the other ethertype filters are untouched.
\<close>

theorem etht_rule_programs_chip:
  assumes "chip_hw (flt_hw nic)" "kind_ok aq_rx_filter_ethertype (aq_fsp rule)"
    and "ring_cookie (aq_fsp rule) = RX_CLS_FLOW_DISC \<or> unat (ring_cookie (aq_fsp rule)) < 32"
    and "aq_add_del_fether b0_filter_ops nic rule True = (err, nic')"
  shows "err = aq_hw_err_from_flags (flt_hw nic) \<and>
    (let fsp = aq_fsp rule; i = unat (location fsp) - 16; q = ring_cookie fsp in
     chip_etht (flt_hw nic') i = Some (ucast (ether_h_proto (h_u fsp)),
       (if vlan_tci (m_ext fsp) = VLAN_PRIO_MASK then Some (ucast (drop_bit 13 (vlan_tci (h_ext fsp)))) else None),
       (if q = RX_CLS_FLOW_DISC then 0 else 1), (if q = RX_CLS_FLOW_DISC then None else Some (ucast q))) \<and>
     (\<forall>j < 16. j \<noteq> i \<longrightarrow> chip_etht (flt_hw nic') j = chip_etht (flt_hw nic) j))"
proof -
  let ?f = "aq_fsp rule" let ?d = "aq_set_data_fl2 rule"
  have b: "16 \<le> unat (location ?f)" "unat (location ?f) \<le> 31"
    using assms(2) by (simp_all add: kind_ok_def loc_defs word_le_nat_alt)
  then have "unat (location ?f - 16) = unat (location ?f) - 16" by (simp add: unat_sub word_le_nat_alt)
  then have loc: "unat (l2_location ?d) = unat (location ?f) - 16" "unat (location ?f) - 16 < 16"
    using b by (simp_all add: aq_set_data_fl2_def Let_def loc_defs unsigned_ucast_eq take_bit_nat_eq_self)
  have prio: "drop_bit 13 (t AND VLAN_PRIO_MASK) = drop_bit 13 t" for t
  proof (rule bit_word_eqI)
    fix k
    have m: "VLAN_PRIO_MASK = push_bit 13 (mask 3)" by (simp add: VLAN_PRIO_MASK_def mask_eq_exp_minus_1)
    show "bit (drop_bit 13 (t AND VLAN_PRIO_MASK)) k = bit (drop_bit 13 t) k"
      unfolding m by (auto simp: bit_drop_bit_eq bit_and_iff bit_push_bit_iff bit_mask_iff dest: bit_imp_le_length)
  qed
  have p8: "unat (drop_bit 13 t) < 8" for t :: u16
    using unat_u16_less [of t] by (simp add: drop_bit_eq_div unat_div)
  have up: "unat (user_priority ?d) < 8" "(ucast (user_priority ?d) :: u32) = ucast (drop_bit 13 (vlan_tci (h_ext ?f)))"
  proof -
    have "user_priority ?d = ucast (drop_bit 13 (vlan_tci (h_ext ?f)))"
      by (simp add: aq_set_data_fl2_def Let_def VLAN_PRIO_SHIFT_def prio del: drop_bit_and)
    then show "unat (user_priority ?d) < 8" "(ucast (user_priority ?d) :: u32) = ucast (drop_bit 13 (vlan_tci (h_ext ?f)))"
      using p8 [of "vlan_tci (h_ext ?f)"]
      by (simp_all add: word_unat_eq_iff unsigned_ucast_eq unsigned_take_bit_eq take_bit_nat_eq_self)
  qed
  have q: "0 \<le>s l2_queue ?d \<longleftrightarrow> ring_cookie ?f \<noteq> RX_CLS_FLOW_DISC"
      "0 \<le>s l2_queue ?d \<Longrightarrow> unat (l2_queue ?d) < 32 \<and> (ucast (l2_queue ?d) :: u32) = ucast (ring_cookie ?f)"
  proof -
    have "0 \<le>s (ucast c :: 8 word) \<and> unat (ucast c :: 8 word) < 32 \<and> (ucast (ucast c :: 8 word) :: u32) = ucast c"
      if "unat (c :: u64) < 32" for c
    proof -
      have t: "take_bit 5 c = c" using that by (simp add: word_unat_eq_iff unsigned_take_bit_eq take_bit_nat_eq_self)
      then have "\<not> bit c 7" using bit_take_bit_iff [of 5 c 7] by simp
      then have "\<not> bit (ucast c :: 8 word) 7" by (auto simp: bit_ucast_iff)
      then have "0 \<le> sint (ucast c :: 8 word)" using bit_last_iff [of "ucast c :: 8 word"] by simp
      moreover have "(ucast (ucast c :: 8 word) :: u32) = ucast c"
        using that by (simp add: word_unat_eq_iff unsigned_ucast_eq unsigned_take_bit_eq take_bit_nat_eq_self)
      ultimately show ?thesis using that
        by (simp add: word_sle_eq unsigned_ucast_eq take_bit_nat_eq_self)
    qed
    then show "0 \<le>s l2_queue ?d \<longleftrightarrow> ring_cookie ?f \<noteq> RX_CLS_FLOW_DISC"
      "0 \<le>s l2_queue ?d \<Longrightarrow> unat (l2_queue ?d) < 32 \<and> (ucast (l2_queue ?d) :: u32) = ucast (ring_cookie ?f)"
      using assms(3) by (auto simp: aq_set_data_fl2_def Let_def word_sle_eq)
  qed
  obtain hw' where h: "hw_atl_b0_hw_fl2_set (flt_hw nic) ?d = (err, hw')" "flt_hw nic' = hw'"
    using assms(4) by (auto simp: aq_add_del_fether_def Let_def b0_filter_ops_def split: prod.splits)
  note r = b0_fl2_set [OF assms(1) loc(1,2) up(1) _ h(1)]
  then show ?thesis
    using q up(2) by (auto simp: h(2) Let_def aq_set_data_fl2_def)
qed

theorem etht_rule_programs_chip_witness:
  "chip_etht (flt_hw (snd (aq_add_del_fether b0_filter_ops (fnic0 hw0)
     ((rule0 18 2)\<lparr>rule_type := aq_rx_filter_ethertype\<rparr>) True))) 2 =
   Some (ucast (ether_h_proto (h_u (fsp0 18 2))), None, 1, Some 2)"
  using etht_rule_programs_chip [OF _ _ _ surjective_pairing, of "fnic0 hw0" "(rule0 18 2)\<lparr>rule_type := aq_rx_filter_ethertype\<rparr>"]
  by (simp add: fnic0_def rule0_def kind_ok_def loc_defs Let_def RX_CLS_FLOW_DISC_def)
    (simp add: fsp0_def ext0_def VLAN_PRIO_MASK_def)

end
