(* ===== verification/Rx_Ring.thy ===== *)
theory Rx_Ring
  imports Tx_Map
begin

section \<open>Receive buffers (aq_ring.c): pages, filling and emptying a receive ring\<close>

text \<open>
  The receive half of a ring on the Linux build: \<open>aq_free_rxpage\<close>, \<open>aq_get_rxpage\<close>,
  \<open>aq_get_rxpages\<close>, \<open>aq_ring_rx_fill\<close>, \<open>aq_ring_rx_deinit\<close>. A receive buffer is
  a 2 KB piece of a page; the page is handed out piece by piece while the stack still holds
  earlier pieces, and started over when the ring is its only user. The page allocator, the
  page reference counts and the DMA mapping are the kernel's (\<open>kern\<close>).
\<close>

subsection \<open>Pages\<close>

text \<open>The page size of the x86-64 machines the driver is built for.\<close>

definition PAGE_SIZE :: u32 where "PAGE_SIZE = 4096"

definition page_bytes :: "u32 \<Rightarrow> u32" where
  "page_bytes order = push_bit (unat order) PAGE_SIZE"

definition dev_alloc_pages :: "u32 \<Rightarrow> kern \<Rightarrow> u64 option \<times> kern" where
  "dev_alloc_pages order k =
     (let a = page_answer k (page_calls k); k = k\<lparr>page_calls := Suc (page_calls k)\<rparr> in
      case a of None \<Rightarrow> (None, k)
      | Some p \<Rightarrow> (Some p, klogs (Alloc_page p order) (k\<lparr>page_refs := (page_refs k)(p := 1)\<rparr>)))"

definition free_pages :: "u64 \<Rightarrow> u32 \<Rightarrow> kern \<Rightarrow> kern" where
  "free_pages p order k =
     klogs (Free_page p order) (k\<lparr>page_refs := (page_refs k)(p := page_refs k p - 1)\<rparr>)"

definition aq_free_rxpage :: "aq_ring_buff_s \<Rightarrow> kern \<Rightarrow> aq_ring_buff_s \<times> kern" where
  "aq_free_rxpage rxpage k =
     (let k = klogs (Unmap_page (rx_daddr rxpage) (page_bytes (rx_order rxpage))) k;
          k = free_pages (page rxpage) (rx_order rxpage) k
      in (set_page 0 rxpage, k))"

definition aq_get_rxpage :: "aq_ring_buff_s \<Rightarrow> u32 \<Rightarrow> kern \<Rightarrow> int \<times> aq_ring_buff_s \<times> kern" where
  "aq_get_rxpage rxpage order k =
     (case dev_alloc_pages order k of
        (None, k) \<Rightarrow> (- ENOMEM, rxpage, k)
      | (Some p, k) \<Rightarrow>
          (case dma_map (\<lambda>a. Map_page a p (page_bytes order)) k of
             (None, k) \<Rightarrow> (- ENOMEM, rxpage, free_pages p order k)
           | (Some daddr, k) \<Rightarrow>
               (0, (set_page p rxpage)\<lparr>rx_daddr := daddr, rx_order := order, rx_pg_off := 0\<rparr>, k)))"

text \<open>
  The reuse of the page a buffer already has: the next piece when somebody else still holds
  the page, the page given up when it has no further piece, the first piece again otherwise.
\<close>

definition upd_stats :: "(aq_ring_stats_s \<Rightarrow> aq_ring_stats_s) \<Rightarrow> aq_ring_s \<Rightarrow> aq_ring_s" where
  "upd_stats f self = self\<lparr>ring_stats := f (ring_stats self)\<rparr>"

definition reuse_rxpage :: "aq_ring_s \<Rightarrow> aq_ring_buff_s \<Rightarrow> u32 \<Rightarrow> kern \<Rightarrow>
    aq_ring_s \<times> aq_ring_buff_s \<times> kern" where
  "reuse_rxpage self rxbuf order k =
     (if page_refs k (page rxbuf) > 1
      then let rxbuf = rxbuf\<lparr>rx_pg_off := rx_pg_off rxbuf + AQ_CFG_RX_FRAME_MAX\<rparr> in
        if rx_pg_off rxbuf + AQ_CFG_RX_FRAME_MAX \<le> page_bytes order
        then (upd_stats (\<lambda>s. s\<lparr>st_pg_flips := st_pg_flips s + 1\<rparr>) self, rxbuf, k)
        else case aq_free_rxpage rxbuf k of
          (rxbuf, k) \<Rightarrow> (upd_stats (\<lambda>s. s\<lparr>st_pg_losts := st_pg_losts s + 1\<rparr>) self, rxbuf, k)
      else (upd_stats (\<lambda>s. s\<lparr>st_pg_reuses := st_pg_reuses s + 1\<rparr>) self, rxbuf\<lparr>rx_pg_off := 0\<rparr>, k))"

definition aq_get_rxpages :: "aq_ring_s \<Rightarrow> aq_ring_buff_s \<Rightarrow> u32 \<Rightarrow> kern \<Rightarrow>
    int \<times> aq_ring_s \<times> aq_ring_buff_s \<times> kern" where
  "aq_get_rxpages self rxbuf order k =
     (case (if page rxbuf \<noteq> 0 then reuse_rxpage self rxbuf order k else (self, rxbuf, k)) of
        (self, rxbuf, k) \<Rightarrow>
          if page rxbuf = 0
          then case aq_get_rxpage rxbuf order k of (ret, rxbuf, k) \<Rightarrow> (ret, self, rxbuf, k)
          else (0, self, rxbuf, k))"

subsection \<open>Filling and emptying the ring\<close>

fun rx_fill_loop :: "nat \<Rightarrow> aq_ring_s \<Rightarrow> kern \<Rightarrow> int \<times> aq_ring_s \<times> kern" where
  "rx_fill_loop 0 self k = (0, self, k)"
| "rx_fill_loop (Suc i) self k =
     (let self = upd_buff self (sw_tail self) (\<lambda>b. (clear_flags b)\<lparr>len := ucast AQ_CFG_RX_FRAME_MAX\<rparr>) in
      case aq_get_rxpages self (buff_ring self ! unat (sw_tail self)) (page_order self) k of
        (err, self, buff, k) \<Rightarrow>
          let self = upd_buff self (sw_tail self) (\<lambda>_. buff) in
          if err \<noteq> 0 then (err, self, k)
          else
            let self = upd_buff self (sw_tail self) (\<lambda>b. set_pa (aq_buf_daddr b) b);
                self = self\<lparr>sw_tail := aq_ring_next_dx self (sw_tail self)\<rparr>
            in rx_fill_loop i self k)"

text \<open>\<open>thres\<close> is the module parameter \<open>aq_rx_refill_thres\<close>.\<close>

definition aq_ring_rx_fill :: "u32 \<Rightarrow> aq_ring_s \<Rightarrow> kern \<Rightarrow> int \<times> aq_ring_s \<times> kern" where
  "aq_ring_rx_fill thres self k =
     (if aq_ring_avail_dx self < min thres (ring_size self div 2) then (0, self, k)
      else rx_fill_loop (unat (aq_ring_avail_dx self)) self k)"

text \<open>
  \<open>aq_ring_rx_deinit\<close> frees the page of every pending buffer; the loop ends because each
  step brings the head one place nearer to the tail (\<open>rx_deinit_pending\<close> below).
\<close>

fun rx_deinit_loop :: "nat \<Rightarrow> aq_ring_s \<Rightarrow> kern \<Rightarrow> aq_ring_s \<times> kern" where
  "rx_deinit_loop 0 self k = (self, k)"
| "rx_deinit_loop (Suc n) self k =
     (if sw_head self \<noteq> sw_tail self then
        case aq_free_rxpage (buff_ring self ! unat (sw_head self)) k of
          (b, k) \<Rightarrow>
            let self = upd_buff self (sw_head self) (\<lambda>_. b) in
            rx_deinit_loop n (self\<lparr>sw_head := aq_ring_next_dx self (sw_head self)\<rparr>) k
      else (self, k))"

definition aq_ring_rx_deinit :: "aq_ring_s \<Rightarrow> kern \<Rightarrow> aq_ring_s \<times> kern" where
  "aq_ring_rx_deinit self k = rx_deinit_loop (unat (ring_size self)) self k"


subsection \<open>What a refill does to one buffer\<close>

definition rx_piece_fits :: "u32 \<Rightarrow> aq_ring_buff_s \<Rightarrow> bool" where
  "rx_piece_fits order b \<longleftrightarrow> rx_pg_off b + AQ_CFG_RX_FRAME_MAX \<le> page_bytes order"

lemma page_set_page [simp]: "page (set_page p b) = p" "rx_pg_off (set_page p b) = rx_pg_off b"
  "rx_order (set_page p b) = rx_order b" "rx_daddr (set_page p b) = rx_daddr b"
  by (simp_all add: page_def set_page_def)

lemma page_upd [simp]: "page (b\<lparr>rx_pg_off := x\<rparr>) = page b" "page (b\<lparr>rx_daddr := d\<rparr>) = page b"
  "page (b\<lparr>rx_order := y\<rparr>) = page b" "page (b\<lparr>len := l\<rparr>) = page b" "page (set_pa a b) = page b"
  "page (clear_flags b) = page b"
  by (simp_all add: page_def set_pa_def clear_flags_def)

text \<open>The three ways a buffer gets its piece, and the failure.\<close>

lemma get_rxpage_cases:
  assumes "aq_get_rxpage b order k = (ret, b', k')" "\<forall>n. page_answer k n \<noteq> Some 0"
  shows "ret = 0 \<and> page b' \<noteq> 0 \<and> page_refs k' (page b') = 1 \<and>
      page_answer k (page_calls k) = Some (page b') \<and> rx_pg_off b' = 0 \<and> rx_order b' = order \<or>
    ret = - ENOMEM \<and> b' = b"
    and "page_answer k' = page_answer k"
  using assms
  by (auto simp: aq_get_rxpage_def dev_alloc_pages_def dma_map_def free_pages_def klogs_def Let_def
      split: option.splits)

lemma get_rxpages_cases:
  assumes "aq_get_rxpages r b order k = (ret, r', b', k')" "\<forall>n. page_answer k n \<noteq> Some 0"
  shows "ret = 0 \<and> page b' = page b \<and> page b \<noteq> 0 \<and> page_refs k (page b) > 1 \<and> k' = k \<and>
      rx_order b' = rx_order b \<and>
      rx_pg_off b' = rx_pg_off b + AQ_CFG_RX_FRAME_MAX \<and> rx_piece_fits order b' \<or>
    ret = 0 \<and> page b' = page b \<and> page b \<noteq> 0 \<and> page_refs k (page b) \<le> 1 \<and> k' = k \<and>
      rx_order b' = rx_order b \<and> rx_pg_off b' = 0 \<or>
    ret = 0 \<and> page b' \<noteq> 0 \<and> page_refs k' (page b') = 1 \<and>
      page_answer k (page_calls k) = Some (page b') \<and> rx_pg_off b' = 0 \<and> rx_order b' = order \<or>
    ret = - ENOMEM \<and> page b' = 0"
    and "page_answer k' = page_answer k"
proof -
  have m: "aq_free_rxpage c k = (set_page 0 c, snd (aq_free_rxpage c k)) \<and>
    page_answer (snd (aq_free_rxpage c k)) = page_answer k \<and>
    page_calls (snd (aq_free_rxpage c k)) = page_calls k" for c k
    by (simp add: aq_free_rxpage_def free_pages_def klogs_def)
  note u = assms(1)[unfolded aq_get_rxpages_def]
  consider (none) "page b = 0" | (reset) "page b \<noteq> 0" "\<not> page_refs k (page b) > 1"
    | (flip) "page b \<noteq> 0" "page_refs k (page b) > 1"
        "rx_pg_off b + AQ_CFG_RX_FRAME_MAX + AQ_CFG_RX_FRAME_MAX \<le> page_bytes order"
    | (lost) "page b \<noteq> 0" "page_refs k (page b) > 1"
        "\<not> rx_pg_off b + AQ_CFG_RX_FRAME_MAX + AQ_CFG_RX_FRAME_MAX \<le> page_bytes order"
    by blast
  then have "(ret = 0 \<and> page b' = page b \<and> page b \<noteq> 0 \<and> page_refs k (page b) > 1 \<and> k' = k \<and>
      rx_order b' = rx_order b \<and>
      rx_pg_off b' = rx_pg_off b + AQ_CFG_RX_FRAME_MAX \<and> rx_piece_fits order b' \<or>
    ret = 0 \<and> page b' = page b \<and> page b \<noteq> 0 \<and> page_refs k (page b) \<le> 1 \<and> k' = k \<and>
      rx_order b' = rx_order b \<and> rx_pg_off b' = 0 \<or>
    ret = 0 \<and> page b' \<noteq> 0 \<and> page_refs k' (page b') = 1 \<and>
      page_answer k (page_calls k) = Some (page b') \<and> rx_pg_off b' = 0 \<and> rx_order b' = order \<or>
    ret = - ENOMEM \<and> page b' = 0) \<and> page_answer k' = page_answer k"
  proof cases
    case none
    obtain ret' c k1 where g: "aq_get_rxpage b order k = (ret', c, k1)" by (metis prod_cases3)
    show ?thesis using u none get_rxpage_cases [OF g assms(2)] by (auto simp: g)
  next
    case reset
    then show ?thesis using u by (auto simp: reuse_rxpage_def Let_def)
  next
    case flip
    then show ?thesis using u by (auto simp: reuse_rxpage_def rx_piece_fits_def Let_def)
  next
    case lost
    define c where "c = set_page 0 (b\<lparr>rx_pg_off := rx_pg_off b + AQ_CFG_RX_FRAME_MAX\<rparr>)"
    define k0 where "k0 = snd (aq_free_rxpage (b\<lparr>rx_pg_off := rx_pg_off b + AQ_CFG_RX_FRAME_MAX\<rparr>) k)"
    have k0: "page_answer k0 = page_answer k" "page_calls k0 = page_calls k"
      using m by (simp_all add: k0_def)
    obtain ret' d k1 where g: "aq_get_rxpage c order k0 = (ret', d, k1)" by (metis prod_cases3)
    have f: "aq_free_rxpage (b\<lparr>rx_pg_off := rx_pg_off b + AQ_CFG_RX_FRAME_MAX\<rparr>) k = (c, k0)"
      using m by (simp add: c_def k0_def)
    have a: "\<forall>n. page_answer k0 n \<noteq> Some 0" using assms(2) k0 by simp
    have "page c = 0" by (simp add: c_def)
    then show ?thesis
      using u lost get_rxpage_cases [OF g a] k0 by (auto simp: reuse_rxpage_def f g)
  qed
  then show "ret = 0 \<and> page b' = page b \<and> page b \<noteq> 0 \<and> page_refs k (page b) > 1 \<and> k' = k \<and>
      rx_order b' = rx_order b \<and>
      rx_pg_off b' = rx_pg_off b + AQ_CFG_RX_FRAME_MAX \<and> rx_piece_fits order b' \<or>
    ret = 0 \<and> page b' = page b \<and> page b \<noteq> 0 \<and> page_refs k (page b) \<le> 1 \<and> k' = k \<and>
      rx_order b' = rx_order b \<and> rx_pg_off b' = 0 \<or>
    ret = 0 \<and> page b' \<noteq> 0 \<and> page_refs k' (page b') = 1 \<and>
      page_answer k (page_calls k) = Some (page b') \<and> rx_pg_off b' = 0 \<and> rx_order b' = order \<or>
    ret = - ENOMEM \<and> page b' = 0"
    and "page_answer k' = page_answer k" by blast+
qed


text \<open>Nothing but the page members of the buffer and the statistics of the ring changes.\<close>

lemma get_rxpages_frame:
  assumes "aq_get_rxpages r b order k = (ret, r', b', k')"
  shows "b' = b\<lparr>w1 := w1 b', rx_daddr := rx_daddr b', rx_order := rx_order b', rx_pg_off := rx_pg_off b'\<rparr>"
    and "r' = r\<lparr>ring_stats := ring_stats r'\<rparr>"
proof -
  have "b' = b\<lparr>w1 := w1 b', rx_daddr := rx_daddr b', rx_order := rx_order b', rx_pg_off := rx_pg_off b'\<rparr> \<and>
    r' = r\<lparr>ring_stats := ring_stats r'\<rparr>"
    using assms
    by (auto simp: aq_get_rxpages_def reuse_rxpage_def aq_free_rxpage_def aq_get_rxpage_def upd_stats_def
        set_page_def Let_def split: if_splits option.splits prod.splits)
  then show "b' = b\<lparr>w1 := w1 b', rx_daddr := rx_daddr b', rx_order := rx_order b', rx_pg_off := rx_pg_off b'\<rparr>"
    "r' = r\<lparr>ring_stats := ring_stats r'\<rparr>" by blast+
qed

subsection \<open>What a refill does to the ring\<close>

text \<open>A buffer ready for the chip: 2 KB of a page, its address in place, no flag set.\<close>

definition rx_posted :: "u32 \<Rightarrow> aq_ring_buff_s \<Rightarrow> bool" where
  "rx_posted order b \<longleftrightarrow> page b \<noteq> 0 \<and> pa b = aq_buf_daddr b \<and> rx_piece_fits order b \<and>
     len b = ucast AQ_CFG_RX_FRAME_MAX \<and> clear_flags b = b\<lparr>len := 0\<rparr>"

lemma page_bytes_min: "unat order < 20 \<Longrightarrow> AQ_CFG_RX_FRAME_MAX \<le> page_bytes order"
proof -
  assume o: "unat order < 20"
  have "2048 \<le> (2 :: nat) ^ unat order * 4096" using one_le_power [of "2 :: nat" "unat order"] by linarith
  moreover have "(2 :: nat) ^ unat order * 4096 < 2 ^ 32"
    using o power_strict_increasing_iff [of "2 :: nat" "unat order" 20] by simp
  moreover have "unat (page_bytes order) = take_bit 32 (push_bit (unat order) 4096)"
    unfolding page_bytes_def PAGE_SIZE_def by (subst unsigned_push_bit_eq) simp
  ultimately have "2048 \<le> unat (page_bytes order)"
    by (simp add: push_bit_eq_mult take_bit_nat_eq_self mult.commute)
  then show ?thesis by (simp add: AQ_CFG_RX_FRAME_MAX_def word_le_nat_alt)
qed

lemma get_rxpages_posted:
  assumes "aq_get_rxpages r ((clear_flags c)\<lparr>len := ucast AQ_CFG_RX_FRAME_MAX\<rparr>) order k = (0, r', b', k')"
    and "\<forall>n. page_answer k n \<noteq> Some 0" "unat order < 20"
  shows "rx_posted order (set_pa (aq_buf_daddr b') b')"
proof -
  note c = get_rxpages_cases [OF assms(1,2)]
  have "page b' \<noteq> 0" using c by (auto simp: ENOMEM_def)
  moreover have "rx_piece_fits order b'"
    using c page_bytes_min [OF assms(3)] by (auto simp: ENOMEM_def rx_piece_fits_def)
  ultimately show ?thesis
    by (subst get_rxpages_frame(1) [OF assms(1)])
      (auto simp: rx_posted_def rx_piece_fits_def set_pa_def pa_def aq_buf_daddr_def clear_flags_def page_def)
qed

lemma upd_buff_sel [simp]:
  "sw_tail (upd_buff r i f) = sw_tail r" "sw_head (upd_buff r i f) = sw_head r"
  "hw_head (upd_buff r i f) = hw_head r" "ring_size (upd_buff r i f) = ring_size r"
  "dx_ring (upd_buff r i f) = dx_ring r" "page_order (upd_buff r i f) = page_order r"
  "ring_idx (upd_buff r i f) = ring_idx r" "length (buff_ring (upd_buff r i f)) = length (buff_ring r)"
  by (simp_all add: upd_buff_def)

text \<open>
  \<open>refilled m r r'\<close>: the buffers of \<open>m\<close> places from the tail of \<open>r\<close> on are posted in
  \<open>r'\<close>, the tail is behind them and no other buffer, head or descriptor has changed, with
  the possible exception of the buffer at the new tail if \<open>stuck\<close>.
\<close>

definition refilled :: "bool \<Rightarrow> nat \<Rightarrow> aq_ring_s \<Rightarrow> aq_ring_s \<Rightarrow> bool" where
  "refilled stuck m r r' \<longleftrightarrow>
     sw_tail r' = (ring_next (ring_size r) ^^ m) (sw_tail r) \<and> sw_head r' = sw_head r \<and>
     hw_head r' = hw_head r \<and> ring_size r' = ring_size r \<and> dx_ring r' = dx_ring r \<and>
     page_order r' = page_order r \<and> ring_idx r' = ring_idx r \<and>
     length (buff_ring r') = length (buff_ring r) \<and>
     (\<forall>i \<in> set (ring.walk (ring_size r) (sw_tail r) m). rx_posted (page_order r) (buff_ring r' ! unat i)) \<and>
     (\<forall>i. i < ring_size r \<longrightarrow> i \<notin> set (ring.walk (ring_size r) (sw_tail r) m) \<longrightarrow>
        (stuck \<longrightarrow> i \<noteq> sw_tail r') \<longrightarrow> buff_ring r' ! unat i = buff_ring r ! unat i)"

lemma rx_fill_loop_spec:
  assumes "rx_fill_loop n r k = (err, r', k')"
    and "sw_tail r < ring_size r" "length (buff_ring r) = unat (ring_size r)" "n < unat (ring_size r)"
    and "\<forall>n. page_answer k n \<noteq> Some 0" "unat (page_order r) < 20"
  shows "\<exists>m \<le> n. refilled (err \<noteq> 0) m r r' \<and> (err = 0 \<and> m = n \<or> err = - ENOMEM \<and> m < n)"
  using assms
proof (induction n arbitrary: r k)
  case 0
  then show ?case by (auto simp: refilled_def)
next
  case (Suc n)
  let ?t = "sw_tail r" and ?sz = "ring_size r"
  define r1 where "r1 = upd_buff r ?t (\<lambda>b. (clear_flags b)\<lparr>len := ucast AQ_CFG_RX_FRAME_MAX\<rparr>)"
  have r1po: "page_order r1 = page_order r" by (simp add: r1_def)
  have r1t: "sw_tail r1 = ?t" by (simp add: r1_def)
  have t: "unat ?t < length (buff_ring r)" using Suc.prems(2,3) by (simp add: word_less_nat_alt)
  have b1: "buff_ring r1 ! unat ?t = (clear_flags (buff_ring r ! unat ?t))\<lparr>len := ucast AQ_CFG_RX_FRAME_MAX\<rparr>"
    using t by (simp add: r1_def upd_buff_def)
  obtain e r2 b k1 where g: "aq_get_rxpages r1 (buff_ring r1 ! unat ?t) (page_order r1) k = (e, r2, b, k1)"
    by (metis prod_cases4)
  note c = get_rxpages_cases [OF g Suc.prems(5)]
  note fr = get_rxpages_frame(2) [OF g]
  have r2: "buff_ring r2 = buff_ring r1" "sw_tail r2 = ?t" "ring_size r2 = ?sz" "sw_head r2 = sw_head r"
    "hw_head r2 = hw_head r" "dx_ring r2 = dx_ring r" "page_order r2 = page_order r" "ring_idx r2 = ring_idx r"
    by (subst fr, simp add: r1_def)+
  define r3 where "r3 = upd_buff r2 ?t (\<lambda>_. b)"
  have r3: "sw_tail r3 = ?t" "ring_size r3 = ?sz" "sw_head r3 = sw_head r" "hw_head r3 = hw_head r"
    "dx_ring r3 = dx_ring r" "page_order r3 = page_order r" "ring_idx r3 = ring_idx r"
    "length (buff_ring r3) = length (buff_ring r)"
    by (simp_all add: r3_def r2, simp add: r1_def)
  have nth3: "buff_ring r3 ! unat i = (if i = ?t then b else buff_ring r ! unat i)" for i
    using t by (auto simp: r3_def upd_buff_def r2 r1_def nth_list_update word_unat_eq_iff)
  have step: "rx_fill_loop (Suc n) r k =
    (if e \<noteq> 0 then (e, r3, k1) else
      rx_fill_loop n ((upd_buff r3 ?t (\<lambda>b. set_pa (aq_buf_daddr b) b))
        \<lparr>sw_tail := aq_ring_next_dx (upd_buff r3 ?t (\<lambda>b. set_pa (aq_buf_daddr b) b)) ?t\<rparr>) k1)"
    by (simp only: rx_fill_loop.simps r1_def [symmetric] Let_def) (simp add: r1t g r2 r3_def)
  show ?case
  proof (cases "e = 0")
    case False
    then have "err = e" "r' = r3" "e = - ENOMEM" using Suc.prems(1) step c by (auto split: if_splits)
    then have "refilled True 0 r r'" by (auto simp: refilled_def r3 nth3)
    then show ?thesis using \<open>err = e\<close> \<open>e = - ENOMEM\<close> False by (intro exI [of _ 0]) simp
  next
    case True
    define r4 where "r4 = (upd_buff r3 ?t (\<lambda>b. set_pa (aq_buf_daddr b) b))
        \<lparr>sw_tail := aq_ring_next_dx (upd_buff r3 ?t (\<lambda>b. set_pa (aq_buf_daddr b) b)) ?t\<rparr>"
    have r4: "sw_tail r4 = ring_next ?sz ?t" "ring_size r4 = ?sz" "sw_head r4 = sw_head r" "hw_head r4 = hw_head r"
      "dx_ring r4 = dx_ring r" "page_order r4 = page_order r" "ring_idx r4 = ring_idx r"
      "length (buff_ring r4) = length (buff_ring r)"
      by (simp_all add: r4_def r3 aq_ring_next_dx_def)
    have nth4: "buff_ring r4 ! unat i = (if i = ?t then set_pa (aq_buf_daddr b) b else buff_ring r ! unat i)" for i
      using t nth3 [of i] nth3 [of ?t] r3(8)
      by (auto simp: r4_def upd_buff_def nth_list_update word_unat_eq_iff)
    have p: "rx_posted (page_order r) (buff_ring r4 ! unat ?t)"
      using get_rxpages_posted [OF _ Suc.prems(5,6)] g True r1po by (simp add: nth4 b1)
    have l: "rx_fill_loop n r4 k1 = (err, r', k')"
      using Suc.prems(1) True unfolding step r4_def by simp
    have "\<exists>m \<le> n. refilled (err \<noteq> 0) m r4 r' \<and> (err = 0 \<and> m = n \<or> err = - ENOMEM \<and> m < n)"
      using Suc.prems(2-6) by (intro Suc.IH [OF l]) (auto simp: r4 ring_next_less c(2))
    then obtain m where m: "m \<le> n" "refilled (err \<noteq> 0) m r4 r'" "err = 0 \<and> m = n \<or> err = - ENOMEM \<and> m < n"
      by blast
    have dist: "distinct (ring.walk ?sz ?t (Suc n))" using Suc.prems by (intro ring.walk_gap_distinct) auto
    then have "?t \<notin> set (ring.walk ?sz (ring_next ?sz ?t) n)" by (simp add: ring.walk_Suc)
    moreover have sub: "set (ring.walk ?sz (ring_next ?sz ?t) m) \<subseteq> set (ring.walk ?sz (ring_next ?sz ?t) n)"
      using m(1) by (auto simp: ring.walk_def)
    ultimately have nt: "?t \<notin> set (ring.walk ?sz (ring_next ?sz ?t) m)" by blast
    have st: "err \<noteq> 0 \<Longrightarrow> ?t \<noteq> sw_tail r'"
    proof
      assume "err \<noteq> 0" "?t = sw_tail r'"
      then have "m < n" "?t = (ring_next ?sz ^^ m) (ring_next ?sz ?t)"
        using m by (auto simp: refilled_def r4)
      then have "?t \<in> set (ring.walk ?sz (ring_next ?sz ?t) n)" by (auto simp: ring.walk_def)
      then show False using dist by (simp add: ring.walk_Suc)
    qed
    have keep: "buff_ring r' ! unat ?t = buff_ring r4 ! unat ?t"
      using m(2) nt st Suc.prems(2) by (auto simp: refilled_def r4)
    have "refilled (err \<noteq> 0) (Suc m) r r'"
      using m(2) p keep unfolding refilled_def
      by (auto simp: r4 ring.walk_Suc funpow_swap1 nth4)
    then show ?thesis using m by (intro exI [of _ "Suc m"]) auto
  qed
qed


text \<open>The refill as the driver calls it: it fills the whole free part of the ring or stops at
  the first buffer it has no page for.\<close>

lemma pending_tail:
  assumes "ring_ok r" "m \<le> unat (aq_ring_avail_dx r)"
    and "sw_tail r' = (ring_next (ring_size r) ^^ m) (sw_tail r)" "sw_head r' = sw_head r"
      "ring_size r' = ring_size r" "hw_head r' = hw_head r" "length (buff_ring r') = length (buff_ring r)"
      "length (dx_ring r') = length (dx_ring r)"
  shows "ring_ok r' \<and> pending r' = pending r + m"
  using assms(2,3)
proof -
  let ?sz = "ring_size r"
  have v: "sw_head r < ?sz" "sw_tail r < ?sz" using assms(1) by (auto simp: ring_ok_def)
  have av: "unat (aq_ring_avail_dx r) + pending r = unat ?sz - 1" by (rule avail_pending [OF assms(1)])
  have "ring.gap ?sz (sw_head r) ((ring_next ?sz ^^ j) (sw_tail r)) = pending r + j" if "j \<le> m" for j
    using that
  proof (induction j)
    case 0
    then show ?case by (simp add: pending_def)
  next
    case (Suc j)
    have "ring.gap ?sz (sw_head r) (ring_next ?sz ((ring_next ?sz ^^ j) (sw_tail r))) =
      Suc (ring.gap ?sz (sw_head r) ((ring_next ?sz ^^ j) (sw_tail r)))"
      using Suc v av assms(2) by (intro ring.gap_nxt_right) (auto intro: ring.valid_iter)
    then show ?case using Suc by simp
  qed
  then have "ring.gap ?sz (sw_head r) (sw_tail r') = pending r + m" using assms(3) by simp
  moreover have "sw_tail r' < ?sz" using v assms(3) by (simp add: ring.valid_iter)
  ultimately show ?thesis
    using assms by (simp add: ring_ok_def pending_def)
qed

lemma rx_fill_spec:
  assumes "aq_ring_rx_fill thres r k = (err, r', k')" "ring_ok r"
    and "\<forall>n. page_answer k n \<noteq> Some 0" "unat (page_order r) < 20"
  shows "\<exists>m \<le> unat (aq_ring_avail_dx r). refilled (err \<noteq> 0) m r r' \<and> ring_ok r' \<and> pending r' = pending r + m \<and>
     (err = 0 \<and> m = (if aq_ring_avail_dx r < min thres (ring_size r div 2) then 0 else unat (aq_ring_avail_dx r)) \<or>
      err = - ENOMEM \<and> m < unat (aq_ring_avail_dx r))"
proof (cases "aq_ring_avail_dx r < min thres (ring_size r div 2)")
  case True
  then have "err = 0" "r' = r" using assms(1) by (simp_all add: aq_ring_rx_fill_def)
  then show ?thesis using True assms(2) by (intro exI [of _ 0]) (simp add: refilled_def)
next
  case False
  have l: "rx_fill_loop (unat (aq_ring_avail_dx r)) r k = (err, r', k')"
    using False assms(1) by (simp only: aq_ring_rx_fill_def if_False)
  have n: "unat (aq_ring_avail_dx r) < unat (ring_size r)"
    using avail_pending [OF assms(2)] assms(2) by (auto simp: ring_ok_def word_le_nat_alt)
  have r: "sw_tail r < ring_size r" "length (buff_ring r) = unat (ring_size r)"
    using assms(2) by (auto simp: ring_ok_def)
  obtain m where m: "m \<le> unat (aq_ring_avail_dx r)" "refilled (err \<noteq> 0) m r r'"
    "err = 0 \<and> m = unat (aq_ring_avail_dx r) \<or> err = - ENOMEM \<and> m < unat (aq_ring_avail_dx r)"
    using rx_fill_loop_spec [OF l r n assms(3,4)] by blast
  have "ring_ok r' \<and> pending r' = pending r + m"
    using m(2) by (intro pending_tail [OF assms(2) m(1)]) (auto simp: refilled_def)
  then show ?thesis using m False by auto
qed

subsection \<open>Sharing a page with the stack\<close>

text \<open>
  The life of one receive buffer. \<open>held\<close> are the offsets of the pieces of its page that the
  stack still holds, each with a reference of its own beside the ring's. The stack takes the
  piece of a posted buffer when the driver passes a packet up, drops pieces at any time,
  and the driver refills a buffer that was consumed. The rest of the kernel state, the
  references of other pages included, may change between any two steps. A refill presumes
  what the page allocator promises, that a page it hands out is not in use.
\<close>

record rx_life =
  lf_buff :: aq_ring_buff_s
  lf_kern :: kern
  lf_held :: "u32 set"
  lf_posted :: bool

inductive life_step :: "u32 \<Rightarrow> rx_life \<Rightarrow> rx_life \<Rightarrow> bool" for order where
  take_piece: "lf_posted s \<Longrightarrow>
    life_step order s (s\<lparr>lf_posted := False, lf_held := insert (rx_pg_off (lf_buff s)) (lf_held s),
      lf_kern := (lf_kern s)\<lparr>page_refs := (page_refs (lf_kern s))
        (page (lf_buff s) := Suc (page_refs (lf_kern s) (page (lf_buff s))))\<rparr>\<rparr>)"
| drop_piece: "off \<in> lf_held s \<Longrightarrow>
    life_step order s (s\<lparr>lf_held := lf_held s - {off},
      lf_kern := (lf_kern s)\<lparr>page_refs := (page_refs (lf_kern s))
        (page (lf_buff s) := page_refs (lf_kern s) (page (lf_buff s)) - 1)\<rparr>\<rparr>)"
| consume: "life_step order s (s\<lparr>lf_posted := False\<rparr>)"
| refill: "\<not> lf_posted s \<Longrightarrow>
    (\<forall>p. page_answer (lf_kern s) (page_calls (lf_kern s)) = Some p \<longrightarrow> page_refs (lf_kern s) p = 0) \<Longrightarrow>
    aq_get_rxpages r (lf_buff s) order (lf_kern s) = (err, r', b', k') \<Longrightarrow>
    life_step order s (s\<lparr>lf_buff := b', lf_kern := k', lf_posted := err = 0,
      lf_held := (if page b' = page (lf_buff s) then lf_held s else {})\<rparr>)"
| elsewhere: "page_answer k' = page_answer (lf_kern s) \<Longrightarrow>
    page_refs k' (page (lf_buff s)) = page_refs (lf_kern s) (page (lf_buff s)) \<Longrightarrow>
    life_step order s (s\<lparr>lf_kern := k'\<rparr>)"


definition life_start :: "kern \<Rightarrow> rx_life \<Rightarrow> bool" where
  "life_start k s \<longleftrightarrow> page (lf_buff s) = 0 \<and> lf_kern s = k \<and> lf_held s = {} \<and> \<not> lf_posted s"

definition life_ok :: "u32 \<Rightarrow> rx_life \<Rightarrow> bool" where
  "life_ok order s \<longleftrightarrow> (\<forall>n. page_answer (lf_kern s) n \<noteq> Some 0) \<and> finite (lf_held s) \<and>
     (if page (lf_buff s) = 0 then lf_held s = {} \<and> \<not> lf_posted s
      else page_refs (lf_kern s) (page (lf_buff s)) = Suc (card (lf_held s)) \<and>
        2048 dvd unat (rx_pg_off (lf_buff s)) \<and>
        unat (rx_pg_off (lf_buff s)) + 2048 \<le> unat (page_bytes order) \<and>
        (\<forall>off \<in> lf_held s. 2048 dvd unat off \<and> off \<le> rx_pg_off (lf_buff s) \<and>
           (lf_posted s \<longrightarrow> off \<noteq> rx_pg_off (lf_buff s))))"

lemma next_piece:
  assumes "2048 dvd unat (x :: u32)" "unat x + 2048 \<le> unat (page_bytes order)" "unat order < 20"
    and "x + AQ_CFG_RX_FRAME_MAX + AQ_CFG_RX_FRAME_MAX \<le> page_bytes order"
  shows "unat (x + AQ_CFG_RX_FRAME_MAX) = unat x + 2048"
    and "unat (x + AQ_CFG_RX_FRAME_MAX) + 2048 \<le> unat (page_bytes order)"
proof -
  have pb: "unat (page_bytes order) \<le> 2 ^ 31"
  proof -
    have "(2 :: nat) ^ unat order \<le> 2 ^ 19" using assms(3) by (intro power_increasing) auto
    moreover have "unat (page_bytes order) = take_bit 32 (push_bit (unat order) 4096)"
      unfolding page_bytes_def PAGE_SIZE_def by (subst unsigned_push_bit_eq) simp
    ultimately show ?thesis by (simp add: push_bit_eq_mult take_bit_nat_eq_self)
  qed
  show "unat (x + AQ_CFG_RX_FRAME_MAX) = unat x + 2048"
    using pb assms(2) by (simp add: AQ_CFG_RX_FRAME_MAX_def unat_word_ariths)
  then show "unat (x + AQ_CFG_RX_FRAME_MAX) + 2048 \<le> unat (page_bytes order)"
    using pb assms(2,4) by (simp add: AQ_CFG_RX_FRAME_MAX_def word_le_nat_alt unat_word_ariths)
qed

lemma life_refill_ok:
  assumes ok: "life_ok order s" and np: "\<not> lf_posted s" and o: "unat order < 20"
    and fresh: "\<forall>p. page_answer (lf_kern s) (page_calls (lf_kern s)) = Some p \<longrightarrow> page_refs (lf_kern s) p = 0"
    and g: "aq_get_rxpages r (lf_buff s) order (lf_kern s) = (err, r', b', k')"
  shows "life_ok order (s\<lparr>lf_buff := b', lf_kern := k', lf_posted := err = 0,
      lf_held := (if page b' = page (lf_buff s) then lf_held s else {})\<rparr>)"
proof -
  let ?b = "lf_buff s" and ?k = "lf_kern s"
  have a: "\<forall>n. page_answer ?k n \<noteq> Some 0" using ok by (simp add: life_ok_def)
  note c = get_rxpages_cases [OF g a]
  have min: "2048 \<le> unat (page_bytes order)"
    using page_bytes_min [OF o] by (simp add: AQ_CFG_RX_FRAME_MAX_def word_le_nat_alt)
  from c(1) consider
    (flip) "err = 0" "page b' = page ?b" "page ?b \<noteq> 0" "k' = ?k"
      "rx_pg_off b' = rx_pg_off ?b + AQ_CFG_RX_FRAME_MAX" "rx_piece_fits order b'"
  | (reset) "err = 0" "page b' = page ?b" "page ?b \<noteq> 0" "page_refs ?k (page ?b) \<le> 1" "k' = ?k"
      "rx_pg_off b' = 0"
  | (new) "err = 0" "page b' \<noteq> 0" "page_refs k' (page b') = 1" "rx_pg_off b' = 0"
      "page_answer ?k (page_calls ?k) = Some (page b')"
  | (fail) "err = - ENOMEM" "page b' = 0"
    by blast
  then show ?thesis
  proof cases
    case flip
    have x: "2048 dvd unat (rx_pg_off ?b)" "unat (rx_pg_off ?b) + 2048 \<le> unat (page_bytes order)"
      using ok flip(3) by (auto simp: life_ok_def)
    have y: "rx_pg_off ?b + AQ_CFG_RX_FRAME_MAX + AQ_CFG_RX_FRAME_MAX \<le> page_bytes order"
      using flip(5,6) by (simp add: rx_piece_fits_def)
    note n = next_piece [OF x o y]
    have "off \<le> rx_pg_off b' \<and> off \<noteq> rx_pg_off b'" if "off \<in> lf_held s" for off
    proof -
      have "unat off \<le> unat (rx_pg_off ?b)" using ok flip(3) that by (auto simp: life_ok_def word_le_nat_alt)
      then have "unat off < unat (rx_pg_off b')" using n flip(5) by simp
      then show ?thesis by (auto simp: word_le_nat_alt)
    qed
    moreover have "2048 dvd unat (rx_pg_off b')" using n(1) x(1) flip(5) by simp
    ultimately show ?thesis using ok flip n by (auto simp: life_ok_def)
  next
    case reset
    then have "card (lf_held s) = 0" using ok by (auto simp: life_ok_def)
    then have "lf_held s = {}" using ok by (auto simp: life_ok_def)
    then show ?thesis using ok reset min by (auto simp: life_ok_def)
  next
    case new
    have "page_refs ?k (page b') = 0" using fresh new(5) by simp
    then have "page b' \<noteq> page ?b" using ok new(2) by (auto simp: life_ok_def)
    then show ?thesis using new min a c(2) by (auto simp: life_ok_def)
  next
    case fail
    then show ?thesis using a c(2) ok by (auto simp: life_ok_def ENOMEM_def)
  qed
qed

lemma life_step_ok:
  assumes "life_step order s s'" "life_ok order s" "unat order < 20"
  shows "life_ok order s'"
  using assms
proof (induction rule: life_step.induct)
  case (take_piece s)
  then have p: "page (lf_buff s) \<noteq> 0" by (auto simp: life_ok_def)
  then have "rx_pg_off (lf_buff s) \<notin> lf_held s" using take_piece by (auto simp: life_ok_def)
  then show ?case using p take_piece by (auto simp: life_ok_def)
next
  case (drop_piece off s)
  then have p: "page (lf_buff s) \<noteq> 0" "finite (lf_held s)" by (auto simp: life_ok_def)
  have "card (lf_held s) = Suc (card (lf_held s - {off}))"
    using card_Suc_Diff1 [OF p(2)] drop_piece(1) by metis
  then show ?case using p drop_piece by (auto simp: life_ok_def)
next
  case (consume s)
  then show ?case by (auto simp: life_ok_def)
next
  case (refill s r err r' b' k')
  then show ?case by (intro life_refill_ok) auto
next
  case (elsewhere k' s)
  then show ?case by (auto simp: life_ok_def)
qed

definition life_reach :: "kern \<Rightarrow> u32 \<Rightarrow> rx_life \<Rightarrow> bool" where
  "life_reach k order s \<longleftrightarrow> (\<exists>s0. life_start k s0 \<and> (life_step order)\<^sup>*\<^sup>* s0 s)"

lemma life_reach_ok:
  assumes "life_reach k order s" "\<forall>n. page_answer k n \<noteq> Some 0" "unat order < 20"
  shows "life_ok order s"
proof -
  obtain s0 where s0: "life_start k s0" "(life_step order)\<^sup>*\<^sup>* s0 s" using assms(1) by (auto simp: life_reach_def)
  from s0(2) show ?thesis
  proof (induction rule: rtranclp_induct)
    case base
    then show ?case using s0(1) assms(2) by (auto simp: life_start_def life_ok_def)
  next
    case (step y z)
    then show ?case using life_step_ok [OF _ _ assms(3)] by blast
  qed
qed

lemma multiple_gap: "2048 dvd (a :: nat) \<Longrightarrow> 2048 dvd b \<Longrightarrow> a < b \<Longrightarrow> a + 2048 \<le> b"
proof -
  assume "2048 dvd a" "2048 dvd b" "a < b"
  then have "2048 dvd b - a" "0 < b - a" by (auto intro: dvd_diff_nat)
  then have "2048 \<le> b - a" by (rule dvd_imp_le)
  then show ?thesis using \<open>a < b\<close> by linarith
qed

text \<open>The piece of a posted buffer lies behind every piece of the page the stack holds.\<close>

lemma life_piece_apart:
  assumes "life_ok order s" "lf_posted s" "off \<in> lf_held s"
  shows "unat off + 2048 \<le> unat (rx_pg_off (lf_buff s))"
proof -
  have "page (lf_buff s) \<noteq> 0" using assms by (auto simp: life_ok_def)
  then have "2048 dvd unat off" "2048 dvd unat (rx_pg_off (lf_buff s))" "off < rx_pg_off (lf_buff s)"
    using assms by (auto simp: life_ok_def)
  then show ?thesis by (intro multiple_gap) (auto simp: word_less_nat_alt)
qed

subsection \<open>Emptying the ring\<close>

definition page_release :: "aq_ring_buff_s \<Rightarrow> kevent list" where
  "page_release b = [Unmap_page (rx_daddr b) (page_bytes (rx_order b)), Free_page (page b) (rx_order b)]"

definition pending_pages :: "aq_ring_s \<Rightarrow> aq_ring_buff_s list" where
  "pending_pages r = map (\<lambda>i. buff_ring r ! unat i) (ring.walk (ring_size r) (sw_head r) (pending r))"

lemma rx_deinit_loop_spec:
  assumes "rx_deinit_loop n r k = (r', k')" "sw_head r < ring_size r" "sw_tail r < ring_size r"
    "length (buff_ring r) = unat (ring_size r)" "pending r \<le> n"
  shows "klog k' = klog k @ concat (map page_release (pending_pages r)) \<and> sw_head r' = sw_tail r \<and>
    sw_tail r' = sw_tail r \<and> ring_size r' = ring_size r \<and>
    (\<forall>i < ring_size r. buff_ring r' ! unat i = (if i \<in> set (ring.walk (ring_size r) (sw_head r) (pending r))
       then set_page 0 (buff_ring r ! unat i) else buff_ring r ! unat i))"
  using assms
proof (induction n arbitrary: r k)
  case 0
  then have "sw_head r = sw_tail r" by (simp add: pending_def ring.gap_0_iff)
  then show ?case using 0 by (auto simp: pending_pages_def)
next
  case (Suc n)
  show ?case
  proof (cases "sw_head r = sw_tail r")
    case True
    then have "pending r = 0" using Suc.prems by (simp add: pending_def ring.gap_0_iff)
    then show ?thesis using True Suc.prems by (auto simp: pending_pages_def)
  next
    case False
    let ?h = "sw_head r" and ?sz = "ring_size r"
    have h: "unat ?h < length (buff_ring r)" using Suc.prems by (simp add: word_less_nat_alt)
    have p: "pending r = Suc (ring.gap ?sz (ring_next ?sz ?h) (sw_tail r))"
      using ring.gap_nxt_left [of ?h ?sz "sw_tail r"] Suc.prems False by (simp add: pending_def)
    define k1 where "k1 = snd (aq_free_rxpage (buff_ring r ! unat ?h) k)"
    define r1 where "r1 = (upd_buff r ?h (\<lambda>_. set_page 0 (buff_ring r ! unat ?h)))\<lparr>sw_head := ring_next ?sz ?h\<rparr>"
    have k1: "klog k1 = klog k @ page_release (buff_ring r ! unat ?h)"
      by (simp add: k1_def aq_free_rxpage_def free_pages_def klogs_def page_release_def)
    have l: "rx_deinit_loop n r1 k1 = (r', k')"
      using Suc.prems(1) False
      by (simp add: r1_def k1_def aq_free_rxpage_def aq_ring_next_dx_def Let_def)
    have r1: "sw_head r1 = ring_next ?sz ?h" "sw_tail r1 = sw_tail r" "ring_size r1 = ?sz"
      "length (buff_ring r1) = length (buff_ring r)"
      by (simp_all add: r1_def)
    have n1: "buff_ring r1 ! unat i = (if i = ?h then set_page 0 (buff_ring r ! unat i) else buff_ring r ! unat i)" for i
      using h by (auto simp: r1_def upd_buff_def nth_list_update word_unat_eq_iff)
    have p1: "pending r = Suc (pending r1)" using p by (simp add: pending_def r1)
    have "pending r1 < unat ?sz" using Suc.prems by (simp add: pending_def r1 ring.gap_less ring_next_less)
    then have "distinct (ring.walk ?sz ?h (Suc (pending r1)))"
      using Suc.prems by (intro ring.walk_gap_distinct) auto
    then have nh: "?h \<notin> set (ring.walk ?sz (ring_next ?sz ?h) (pending r1))" by (simp add: ring.walk_Suc)
    then have pp: "pending_pages r = (buff_ring r ! unat ?h) # pending_pages r1"
      by (auto simp: pending_pages_def p1 ring.walk_Suc r1 n1)
    have "pending r1 \<le> n" using p1 Suc.prems(5) by simp
    then show ?thesis
      using Suc.IH [OF l] Suc.prems nh unfolding pp p1
      by (auto simp: r1 ring_next_less k1 n1 ring.walk_Suc)
  qed
qed

end
