(* ===== verification/B0_Rx.thy ===== *)
theory B0_Rx
  imports B0_Tx Rx_Ring
begin

section \<open>Receiving on the B0 chip (hw_atl_b0.c)\<close>

text \<open>
  The ring operations of hw_atl_ops_b0 other than transmission: the receive descriptors
  the driver posts and the write-backs of the chip it decodes, the transmit head, and the
  start, stop and set-up of a ring. A descriptor of the shared ring is two 64-bit words; a
  write-back overwrites the posted addresses in place.
\<close>

subsection \<open>Descriptor layout (hw_atl_utils.h, hw_atl_b0_internal.h)\<close>

definition HW_ATL_B0_RXD_WB_STAT_PKTTYPE :: u32 where "HW_ATL_B0_RXD_WB_STAT_PKTTYPE = 0x00000FF0"
definition HW_ATL_B0_RXD_WB_STAT_PKTTYPE_SHIFT :: nat where "HW_ATL_B0_RXD_WB_STAT_PKTTYPE_SHIFT = 4"
definition HW_ATL_B0_RXD_WB_PKTTYPE_VLAN :: u32 where "HW_ATL_B0_RXD_WB_PKTTYPE_VLAN = push_bit 5 1"
definition HW_ATL_B0_RXD_WB_PKTTYPE_VLAN_DOUBLE :: u32 where
  "HW_ATL_B0_RXD_WB_PKTTYPE_VLAN_DOUBLE = push_bit 6 1"
definition HW_ATL_B0_RXD_WB_STAT2_EOP :: u16 where "HW_ATL_B0_RXD_WB_STAT2_EOP = 0x0002"
definition HW_ATL_B0_RXD_WB_STAT2_RSCCNT :: u16 where "HW_ATL_B0_RXD_WB_STAT2_RSCCNT = 0xF000"

text \<open>\<open>hw_atl_rxd_s\<close>, as posted.\<close>

definition rxd_words :: "u64 \<Rightarrow> u64 \<Rightarrow> u64 \<times> u64" where
  "rxd_words buf hdr = (buf, hdr)"

text \<open>\<open>hw_atl_rxd_wb_s\<close>, as written back.\<close>

record hw_atl_rxd_wb_s =
  wb_type :: u32
  wb_rss_hash :: u32
  wb_status :: u16
  wb_pkt_len :: u16
  wb_next_desc_ptr :: u16
  wb_vlan :: u16

definition rxd_wb :: "u64 \<times> u64 \<Rightarrow> hw_atl_rxd_wb_s" where
  "rxd_wb d = \<lparr>wb_type = ucast (fst d), wb_rss_hash = ucast (drop_bit 32 (fst d)),
     wb_status = ucast (snd d), wb_pkt_len = ucast (drop_bit 16 (snd d)),
     wb_next_desc_ptr = ucast (drop_bit 32 (snd d)), wb_vlan = ucast (drop_bit 48 (snd d))\<rparr>"

text \<open>The third word of a time-stamp write-back, \<open>sec_lw0\<close> of \<open>hw_atl_rxd_hwts_wb_s\<close>.\<close>

definition hwts_sec_lw0 :: "u64 \<times> u64 \<Rightarrow> u32" where
  "hwts_sec_lw0 d = ucast (snd d)"

subsection \<open>Posting receive buffers\<close>

text \<open>
  The loop of \<open>hw_atl_b0_hw_ring_rx_fill\<close> from \<open>sw_tail_old\<close> to the tail: at most one
  round of the ring when both are positions of it.
\<close>

fun b0_rx_fill_loop :: "nat \<Rightarrow> aq_ring_s \<Rightarrow> u32 \<Rightarrow> aq_ring_s \<times> u32" where
  "b0_rx_fill_loop 0 ring sw_tail_old = (ring, sw_tail_old)"
| "b0_rx_fill_loop (Suc n) ring sw_tail_old =
     (if sw_tail_old \<noteq> sw_tail ring then
        let buff = buff_ring ring ! unat sw_tail_old;
            ring = ring\<lparr>dx_ring := (dx_ring ring)[unat sw_tail_old := rxd_words (pa buff) 0]\<rparr>
        in b0_rx_fill_loop n ring (aq_ring_next_dx ring sw_tail_old)
      else (ring, sw_tail_old))"

definition hw_atl_b0_hw_ring_rx_fill :: "aq_hw_s \<Rightarrow> aq_ring_s \<Rightarrow> u32 \<Rightarrow> int \<times> aq_hw_s \<times> aq_ring_s" where
  "hw_atl_b0_hw_ring_rx_fill self ring sw_tail_old =
     (case b0_rx_fill_loop (unat (ring_size ring)) ring sw_tail_old of (ring, sw_tail_old) \<Rightarrow>
        let self = hw_atl_reg_rx_dma_desc_tail_ptr_set self sw_tail_old (ring_idx ring)
        in (aq_hw_err_from_flags self, self, ring))"

fun b0_hwts_fill_loop :: "nat \<Rightarrow> aq_ring_s \<Rightarrow> aq_ring_s" where
  "b0_hwts_fill_loop 0 ring = ring"
| "b0_hwts_fill_loop (Suc i) ring =
     (let ring = ring\<lparr>dx_ring := (dx_ring ring)[unat (sw_tail ring) :=
            rxd_words (dx_ring_pa ring + ucast (ring_size ring * dx_size ring)) 0]\<rparr>
      in b0_hwts_fill_loop i (ring\<lparr>sw_tail := aq_ring_next_dx ring (sw_tail ring)\<rparr>))"

definition hw_atl_b0_hw_ring_hwts_rx_fill :: "aq_hw_s \<Rightarrow> aq_ring_s \<Rightarrow> int \<times> aq_hw_s \<times> aq_ring_s" where
  "hw_atl_b0_hw_ring_hwts_rx_fill self ring =
     (let ring = b0_hwts_fill_loop (unat (aq_ring_avail_dx ring)) ring;
          self = hw_atl_reg_rx_dma_desc_tail_ptr_set self (sw_tail ring) (ring_idx ring)
      in (aq_hw_err_from_flags self, self, ring))"

fun b0_hwts_receive_loop :: "nat \<Rightarrow> aq_ring_s \<Rightarrow> aq_ring_s" where
  "b0_hwts_receive_loop 0 ring = ring"
| "b0_hwts_receive_loop (Suc n) ring =
     (if hw_head ring \<noteq> sw_tail ring then
        if hwts_sec_lw0 (dx_ring ring ! unat (hw_head ring)) AND 1 = 0 then ring
        else b0_hwts_receive_loop n (ring\<lparr>hw_head := aq_ring_next_dx ring (hw_head ring)\<rparr>)
      else ring)"

definition hw_atl_b0_hw_ring_hwts_rx_receive :: "aq_hw_s \<Rightarrow> aq_ring_s \<Rightarrow> int \<times> aq_hw_s \<times> aq_ring_s" where
  "hw_atl_b0_hw_ring_hwts_rx_receive self ring =
     (let ring = b0_hwts_receive_loop (unat (ring_size ring)) ring
      in (aq_hw_err_from_flags self, self, ring))"

definition hw_atl_b0_hw_ring_tx_head_update :: "aq_hw_s \<Rightarrow> aq_ring_s \<Rightarrow> int \<times> aq_hw_s \<times> aq_ring_s" where
  "hw_atl_b0_hw_ring_tx_head_update self ring =
     (case hw_atl_tdm_tx_desc_head_ptr_get self (ring_idx ring) of (hw_head_, self) \<Rightarrow>
        if aq_utils_obj_test self AQ_HW_FLAG_ERR_UNPLUG then (- ENXIO, self, ring)
        else (aq_hw_err_from_flags self, self, ring\<lparr>hw_head := hw_head_\<rparr>))"

subsection \<open>Decoding a write-back\<close>

definition wb_rx_stat :: "hw_atl_rxd_wb_s \<Rightarrow> u8" where
  "wb_rx_stat w = ucast (drop_bit 2 (0x003C AND wb_status w))"

definition wb_csum_enabled :: "hw_atl_rxd_wb_s \<Rightarrow> u32" where
  "wb_csum_enabled w = drop_bit 19 (wb_type w) AND 3"

definition wb_pkt_type :: "hw_atl_rxd_wb_s \<Rightarrow> u32" where
  "wb_pkt_type w = drop_bit HW_ATL_B0_RXD_WB_STAT_PKTTYPE_SHIFT (wb_type w AND HW_ATL_B0_RXD_WB_STAT_PKTTYPE)"

definition rx_l4_ok :: "u8 \<Rightarrow> bool" where
  "rx_l4_ok rx_stat \<longleftrightarrow> (if rx_stat AND ucast (BIT 2) \<noteq> 0 then False else rx_stat AND ucast (BIT 3) \<noteq> 0)"

definition rx_checksum :: "hw_atl_rxd_wb_s \<Rightarrow> aq_ring_buff_s \<Rightarrow> aq_ring_buff_s" where
  "rx_checksum w buff =
     (let rx_stat = wb_rx_stat w; enabled = wb_csum_enabled w; pkt_type = wb_pkt_type w;
          buff = (if enabled AND BIT 0 \<noteq> 0 \<and> 0 = pkt_type AND 3
                  then buff\<lparr>is_ip_cso := rx_stat AND ucast (BIT 1) = 0\<rparr> else buff);
          buff = (if enabled AND BIT 1 \<noteq> 0
                  then if 4 = pkt_type AND 0x1C then buff\<lparr>is_udp_cso := rx_l4_ok rx_stat\<rparr>
                       else if 0 = pkt_type AND 0x1C then buff\<lparr>is_tcp_cso := rx_l4_ok rx_stat\<rparr>
                       else buff
                  else buff);
          buff = buff\<lparr>is_cso_err := rx_stat AND 6 \<noteq> 0\<rparr>
      in if wb_pkt_len w \<le> 60 then buff\<lparr>is_ip_cso := False, is_cso_err := False\<rparr> else buff)"

definition rx_tag_error :: "aq_nic_cfg_s \<Rightarrow> hw_atl_rxd_wb_s \<Rightarrow> aq_ring_buff_s \<Rightarrow> aq_ring_buff_s" where
  "rx_tag_error cfg w buff =
     (let buff = (if is_vlan_rx_strip cfg \<and>
                     (wb_pkt_type w AND HW_ATL_B0_RXD_WB_PKTTYPE_VLAN \<noteq> 0 \<or>
                      wb_pkt_type w AND HW_ATL_B0_RXD_WB_PKTTYPE_VLAN_DOUBLE \<noteq> 0)
                  then buff\<lparr>is_vlan := True, vlan_rx_tag := wb_vlan w\<rparr> else buff)
      in if wb_rx_stat w AND ucast (BIT 0) \<noteq> 0 \<or> wb_type w AND 0x1000 \<noteq> 0
         then buff\<lparr>is_error := True\<rparr> else buff)"

definition rx_hash :: "aq_nic_cfg_s \<Rightarrow> hw_atl_rxd_wb_s \<Rightarrow> aq_ring_buff_s \<Rightarrow> aq_ring_buff_s" where
  "rx_hash cfg w buff =
     (if is_rss cfg then
        let rss_type = ucast (wb_type w AND 0xF) :: u16 in
        if rss_type \<noteq> 0 \<and> rss_type < 8
        then set_rss_hash (wb_rss_hash w) (set_is_hash_l4 (of_flag (rss_type = 4 \<or> rss_type = 5)) buff)
        else buff
      else buff)"

definition rx_length :: "hw_atl_rxd_wb_s \<Rightarrow> aq_ring_s \<Rightarrow> aq_ring_buff_s \<Rightarrow> aq_ring_s \<times> aq_ring_buff_s" where
  "rx_length w ring buff =
     (if HW_ATL_B0_RXD_WB_STAT2_EOP AND wb_status w \<noteq> 0
      then let buff = buff\<lparr>len := wb_pkt_len w mod ucast AQ_CFG_RX_FRAME_MAX\<rparr>;
               buff = buff\<lparr>len := (if len buff \<noteq> 0 then len buff else ucast AQ_CFG_RX_FRAME_MAX)\<rparr>;
               buff = set_next_ix 0 buff
           in (ring, buff\<lparr>is_eop := True\<rparr>)
      else let buff = buff\<lparr>len := (if wb_pkt_len w > ucast AQ_CFG_RX_FRAME_MAX
                                     then ucast AQ_CFG_RX_FRAME_MAX else wb_pkt_len w)\<rparr>
           in if HW_ATL_B0_RXD_WB_STAT2_RSCCNT AND wb_status w \<noteq> 0
              then (upd_stats (\<lambda>s. s\<lparr>st_lro_packets := st_lro_packets s + 1\<rparr>) ring,
                    set_next_ix (wb_next_desc_ptr w) buff)
              else (upd_stats (\<lambda>s. s\<lparr>st_jumbo_packets := st_jumbo_packets s + 1\<rparr>) ring,
                    set_next_ix (ucast (aq_ring_next_dx ring (hw_head ring))) buff))"

fun b0_rx_receive_loop :: "nat \<Rightarrow> aq_nic_cfg_s \<Rightarrow> aq_ring_s \<Rightarrow> aq_ring_s" where
  "b0_rx_receive_loop 0 cfg ring = ring"
| "b0_rx_receive_loop (Suc n) cfg ring =
     (if hw_head ring \<noteq> sw_tail ring then
        let w = rxd_wb (dx_ring ring ! unat (hw_head ring)) in
        if wb_status w AND 1 = 0 then ring
        else
          let buff = buff_ring ring ! unat (hw_head ring);
              buff = set_is_hash_l4 0 (clear_flags buff);
              buff = rx_checksum w buff;
              buff = rx_tag_error cfg w buff;
              buff = rx_hash cfg w buff
          in case rx_length w ring buff of (ring, buff) \<Rightarrow>
            let ring = upd_buff ring (hw_head ring) (\<lambda>_. buff)
            in b0_rx_receive_loop n cfg (ring\<lparr>hw_head := aq_ring_next_dx ring (hw_head ring)\<rparr>)
      else ring)"

definition hw_atl_b0_hw_ring_rx_receive :: "aq_hw_s \<Rightarrow> aq_ring_s \<Rightarrow> int \<times> aq_hw_s \<times> aq_ring_s" where
  "hw_atl_b0_hw_ring_rx_receive self ring =
     (let ring = b0_rx_receive_loop (unat (ring_size ring)) (aq_nic_cfg self) ring
      in (aq_hw_err_from_flags self, self, ring))"


subsection \<open>What a received descriptor becomes\<close>

definition wb_done :: "u64 \<times> u64 \<Rightarrow> bool" where
  "wb_done d \<longleftrightarrow> wb_status (rxd_wb d) AND 1 \<noteq> 0"

definition wb_eop :: "u64 \<times> u64 \<Rightarrow> bool" where
  "wb_eop d \<longleftrightarrow> HW_ATL_B0_RXD_WB_STAT2_EOP AND wb_status (rxd_wb d) \<noteq> 0"

definition wb_lro :: "u64 \<times> u64 \<Rightarrow> bool" where
  "wb_lro d \<longleftrightarrow> HW_ATL_B0_RXD_WB_STAT2_RSCCNT AND wb_status (rxd_wb d) \<noteq> 0"

definition wb_len :: "u64 \<times> u64 \<Rightarrow> u16" where
  "wb_len d =
     (let l = wb_pkt_len (rxd_wb d) in
      if wb_eop d then if l mod 2048 \<noteq> 0 then l mod 2048 else 2048 else min l 2048)"

definition rx_flags :: "aq_nic_cfg_s \<Rightarrow> u64 \<times> u64 \<Rightarrow> aq_ring_buff_s \<Rightarrow> aq_ring_buff_s" where
  "rx_flags cfg d b =
     rx_hash cfg (rxd_wb d) (rx_tag_error cfg (rxd_wb d) (rx_checksum (rxd_wb d) (set_is_hash_l4 0 (clear_flags b))))"

text \<open>The buffer at position \<open>i\<close> of a ring of \<open>sz\<close> after descriptor \<open>d\<close> was decoded into it.\<close>

definition rx_decoded :: "aq_nic_cfg_s \<Rightarrow> u32 \<Rightarrow> u32 \<Rightarrow> u64 \<times> u64 \<Rightarrow> aq_ring_buff_s \<Rightarrow> aq_ring_buff_s" where
  "rx_decoded cfg sz i d b =
     (set_next_ix (if wb_eop d then 0 else if wb_lro d then wb_next_desc_ptr (rxd_wb d) else ucast (ring_next sz i))
        (rx_flags cfg d b))\<lparr>len := wb_len d, is_eop := wb_eop d\<rparr>"

lemma frame_max_u16 [simp]: "(ucast AQ_CFG_RX_FRAME_MAX :: u16) = 2048"
  by (simp add: AQ_CFG_RX_FRAME_MAX_def)

text \<open>The stages keep what they are not about.\<close>

lemma rx_hash_sel:
  "w1 (rx_hash cfg w b) = w1 b" "rx_daddr (rx_hash cfg w b) = rx_daddr b" "rx_order (rx_hash cfg w b) = rx_order b"
  "rx_pg_off (rx_hash cfg w b) = rx_pg_off b" "is_eop (rx_hash cfg w b) = is_eop b"
  "is_cleaned (rx_hash cfg w b) = is_cleaned b" "is_error (rx_hash cfg w b) = is_error b"
  "is_vlan (rx_hash cfg w b) = is_vlan b" "vlan_rx_tag (rx_hash cfg w b) = vlan_rx_tag b"
  "is_cso_err (rx_hash cfg w b) = is_cso_err b" "is_ip_cso (rx_hash cfg w b) = is_ip_cso b"
  "is_udp_cso (rx_hash cfg w b) = is_udp_cso b" "is_tcp_cso (rx_hash cfg w b) = is_tcp_cso b"
  by (simp_all add: rx_hash_def set_rss_hash_def set_is_hash_l4_def Let_def)

lemma rx_tag_error_sel:
  "w0 (rx_tag_error cfg w b) = w0 b" "w1 (rx_tag_error cfg w b) = w1 b"
  "rx_daddr (rx_tag_error cfg w b) = rx_daddr b" "rx_order (rx_tag_error cfg w b) = rx_order b"
  "rx_pg_off (rx_tag_error cfg w b) = rx_pg_off b" "is_eop (rx_tag_error cfg w b) = is_eop b"
  "is_cleaned (rx_tag_error cfg w b) = is_cleaned b" "is_cso_err (rx_tag_error cfg w b) = is_cso_err b"
  "is_ip_cso (rx_tag_error cfg w b) = is_ip_cso b" "is_udp_cso (rx_tag_error cfg w b) = is_udp_cso b"
  "is_tcp_cso (rx_tag_error cfg w b) = is_tcp_cso b"
  by (simp_all add: rx_tag_error_def Let_def)

lemma rx_checksum_sel:
  "w0 (rx_checksum w b) = w0 b" "w1 (rx_checksum w b) = w1 b" "rx_daddr (rx_checksum w b) = rx_daddr b"
  "rx_order (rx_checksum w b) = rx_order b" "rx_pg_off (rx_checksum w b) = rx_pg_off b"
  "is_eop (rx_checksum w b) = is_eop b" "is_cleaned (rx_checksum w b) = is_cleaned b"
  "is_error (rx_checksum w b) = is_error b" "is_vlan (rx_checksum w b) = is_vlan b"
  by (simp_all add: rx_checksum_def Let_def)

lemma cleared_sel:
  "w0 (set_is_hash_l4 v (clear_flags b)) = slice_set 48 8 (ucast v) (w0 b)"
  "w1 (set_is_hash_l4 v (clear_flags b)) = w1 b" "rx_daddr (set_is_hash_l4 v (clear_flags b)) = rx_daddr b"
  "rx_order (set_is_hash_l4 v (clear_flags b)) = rx_order b"
  "rx_pg_off (set_is_hash_l4 v (clear_flags b)) = rx_pg_off b"
  "\<not> is_eop (set_is_hash_l4 v (clear_flags b))" "\<not> is_cleaned (set_is_hash_l4 v (clear_flags b))"
  "\<not> is_error (set_is_hash_l4 v (clear_flags b))" "\<not> is_vlan (set_is_hash_l4 v (clear_flags b))"
  "\<not> is_ip_cso (set_is_hash_l4 v (clear_flags b))" "\<not> is_udp_cso (set_is_hash_l4 v (clear_flags b))"
  "\<not> is_tcp_cso (set_is_hash_l4 v (clear_flags b))"
  by (simp_all add: set_is_hash_l4_def clear_flags_def)

lemmas rx_stage_sel = rx_hash_sel rx_tag_error_sel rx_checksum_sel cleared_sel

lemma rx_flags_not_eop: "is_eop (rx_flags cfg d b) = False"
  by (simp add: rx_flags_def rx_stage_sel)

lemma rx_length_decoded:
  "snd (rx_length (rxd_wb d) r (rx_flags cfg d b)) = rx_decoded cfg (ring_size r) (hw_head r) d b"
  "fst (rx_length (rxd_wb d) r c) = r\<lparr>ring_stats := ring_stats (fst (rx_length (rxd_wb d) r c))\<rparr>"
  using rx_flags_not_eop [of cfg d b]
  by (auto simp: rx_length_def rx_decoded_def wb_len_def wb_eop_def wb_lro_def set_next_ix_def upd_stats_def
      aq_ring_next_dx_def min_def not_le Let_def)

text \<open>The done descriptors from the hardware head on, up to the tail.\<close>

definition rx_done :: "aq_ring_s \<Rightarrow> u32 list" where
  "rx_done r = takeWhile (\<lambda>i. wb_done (dx_ring r ! unat i))
     (ring.walk (ring_size r) (hw_head r) (ring.gap (ring_size r) (hw_head r) (sw_tail r)))"

lemma rx_done_end:
  assumes "hw_head r < ring_size r" "sw_tail r < ring_size r"
  shows "rx_done r = (if hw_head r = sw_tail r \<or> \<not> wb_done (dx_ring r ! unat (hw_head r)) then []
    else hw_head r # rx_done (r\<lparr>hw_head := ring_next (ring_size r) (hw_head r)\<rparr>))"
proof (cases "hw_head r = sw_tail r")
  case True
  then show ?thesis using assms by (simp add: rx_done_def ring.gap_0_iff [THEN iffD2])
next
  case False
  have "ring.gap (ring_size r) (hw_head r) (sw_tail r) =
    Suc (ring.gap (ring_size r) (ring_next (ring_size r) (hw_head r)) (sw_tail r))"
    using ring.gap_nxt_left [of "hw_head r" "ring_size r" "sw_tail r"] assms False by simp
  then show ?thesis using False by (simp add: rx_done_def ring.walk_Suc)
qed

lemma touched_stats_trans:
  assumes "c = b\<lparr>hw_head := hw_head c, buff_ring := buff_ring c, ring_stats := ring_stats c\<rparr>"
    and "b = a\<lparr>hw_head := hw_head b, buff_ring := buff_ring b, ring_stats := ring_stats b\<rparr>"
  shows "c = a\<lparr>hw_head := hw_head c, buff_ring := buff_ring c, ring_stats := ring_stats c\<rparr>"
  by (cases a; cases b; cases c) (use assms in simp)

lemma b0_rx_receive_loop_spec:
  assumes "hw_head r < ring_size r" "sw_tail r < ring_size r" "length (buff_ring r) = unat (ring_size r)"
    "ring.gap (ring_size r) (hw_head r) (sw_tail r) \<le> n" "r' = b0_rx_receive_loop n cfg r"
  shows "r' = r\<lparr>hw_head := hw_head r', buff_ring := buff_ring r', ring_stats := ring_stats r'\<rparr>"
    and "hw_head r' = (ring_next (ring_size r) ^^ length (rx_done r)) (hw_head r)"
    and "length (buff_ring r') = length (buff_ring r)"
    and "\<forall>i < ring_size r. buff_ring r' ! unat i =
      (if i \<in> set (rx_done r) then rx_decoded cfg (ring_size r) i (dx_ring r ! unat i) (buff_ring r ! unat i)
       else buff_ring r ! unat i)"
proof -
  have "r' = r\<lparr>hw_head := hw_head r', buff_ring := buff_ring r', ring_stats := ring_stats r'\<rparr> \<and>
    hw_head r' = (ring_next (ring_size r) ^^ length (rx_done r)) (hw_head r) \<and>
    length (buff_ring r') = length (buff_ring r) \<and>
    (\<forall>i < ring_size r. buff_ring r' ! unat i =
      (if i \<in> set (rx_done r) then rx_decoded cfg (ring_size r) i (dx_ring r ! unat i) (buff_ring r ! unat i)
       else buff_ring r ! unat i))"
    using assms
  proof (induction n arbitrary: r)
    case 0
    then have "rx_done r = []" by (simp add: rx_done_def)
    then show ?case using 0 by simp
  next
    case (Suc n)
    let ?h = "hw_head r" and ?sz = "ring_size r"
    show ?case
    proof (cases "?h = sw_tail r \<or> \<not> wb_done (dx_ring r ! unat ?h)")
      case True
      then have "r' = r" using Suc.prems(5) by (auto simp: wb_done_def Let_def)
      then show ?thesis using True rx_done_end [of r] Suc.prems by simp
    next
      case False
      define d where "d = dx_ring r ! unat ?h"
      define b where "b = buff_ring r ! unat ?h"
      obtain q c where qc: "rx_length (rxd_wb d) r (rx_flags cfg d b) = (q, c)" by (metis prod.exhaust)
      have c: "c = rx_decoded cfg ?sz ?h d b" using rx_length_decoded(1) [of d r cfg b] qc by simp
      obtain st where q: "q = r\<lparr>ring_stats := st\<rparr>"
        using rx_length_decoded(2) [of d r "rx_flags cfg d b"] qc by (metis fst_conv)
      have qs: "hw_head q = ?h" "ring_size q = ?sz" "buff_ring q = buff_ring r" by (simp_all add: q)
      define r1 where "r1 = (upd_buff q ?h (\<lambda>_. c))\<lparr>hw_head := ring_next ?sz ?h\<rparr>"
      have r1: "r1 = r\<lparr>hw_head := hw_head r1, buff_ring := buff_ring r1, ring_stats := ring_stats r1\<rparr>"
        by (simp add: r1_def upd_buff_def q)
      have r1s: "hw_head r1 = ring_next ?sz ?h" "ring_size r1 = ?sz" "sw_tail r1 = sw_tail r"
        "dx_ring r1 = dx_ring r" "length (buff_ring r1) = length (buff_ring r)"
        by (simp_all add: r1_def q upd_buff_def)
      have h: "unat ?h < length (buff_ring r)" using Suc.prems by (simp add: word_less_nat_alt)
      have n1: "buff_ring r1 ! unat i = (if i = ?h then c else buff_ring r ! unat i)" for i
        using h by (auto simp: r1_def upd_buff_def qs nth_list_update word_unat_eq_iff)
      have l: "r' = b0_rx_receive_loop n cfg r1"
        using Suc.prems(5) False
        by (simp add: wb_done_def d_def [symmetric] b_def [symmetric] rx_flags_def [symmetric] Let_def qc)
          (simp add: r1_def aq_ring_next_dx_def qs)
      have g: "Suc (ring.gap ?sz (ring_next ?sz ?h) (sw_tail r)) = ring.gap ?sz ?h (sw_tail r)"
        using False Suc.prems(1,2) by (intro ring.gap_nxt_left) auto
      have dn: "rx_done r = ?h # rx_done r1"
        using False rx_done_end [of r] Suc.prems(1,2) by (simp add: rx_done_def r1s)
      have "ring.walk ?sz (ring_next ?sz ?h) (ring.gap ?sz (ring_next ?sz ?h) (sw_tail r)) =
        tl (ring.walk ?sz ?h (ring.gap ?sz ?h (sw_tail r)))"
        using g by (simp add: ring.walk_Suc flip: g)
      moreover have "distinct (?h # ring.walk ?sz (ring_next ?sz ?h) (ring.gap ?sz (ring_next ?sz ?h) (sw_tail r)))"
      proof -
        have "ring.gap ?sz ?h (sw_tail r) < unat ?sz" using Suc.prems by (intro ring.gap_less) auto
        then have "distinct (ring.walk ?sz ?h (ring.gap ?sz ?h (sw_tail r)))"
          using Suc.prems by (intro ring.walk_gap_distinct) auto
        then show ?thesis by (simp add: ring.walk_Suc flip: g)
      qed
      ultimately have nh: "?h \<notin> set (rx_done r1)"
        by (auto simp: rx_done_def r1s dest: set_takeWhileD)
      have IH: "r' = r1\<lparr>hw_head := hw_head r', buff_ring := buff_ring r', ring_stats := ring_stats r'\<rparr> \<and>
        hw_head r' = (ring_next (ring_size r1) ^^ length (rx_done r1)) (hw_head r1) \<and>
        length (buff_ring r') = length (buff_ring r1) \<and>
        (\<forall>i < ring_size r1. buff_ring r' ! unat i =
          (if i \<in> set (rx_done r1) then rx_decoded cfg (ring_size r1) i (dx_ring r1 ! unat i) (buff_ring r1 ! unat i)
           else buff_ring r1 ! unat i))"
        using Suc.prems g by (intro Suc.IH [OF _ _ _ _ l]) (auto simp: r1s ring_next_less)
      have "r' = r\<lparr>hw_head := hw_head r', buff_ring := buff_ring r', ring_stats := ring_stats r'\<rparr>"
        using touched_stats_trans [OF _ r1] IH by blast
      then show ?thesis
        using IH nh unfolding dn by (auto simp: r1s funpow_swap1 n1 c d_def b_def)
    qed
  qed
  then show "r' = r\<lparr>hw_head := hw_head r', buff_ring := buff_ring r', ring_stats := ring_stats r'\<rparr>"
    "hw_head r' = (ring_next (ring_size r) ^^ length (rx_done r)) (hw_head r)"
    "length (buff_ring r') = length (buff_ring r)"
    "\<forall>i < ring_size r. buff_ring r' ! unat i =
      (if i \<in> set (rx_done r) then rx_decoded cfg (ring_size r) i (dx_ring r ! unat i) (buff_ring r ! unat i)
       else buff_ring r ! unat i)" by blast+
qed


lemma rx_done_walk: "set (rx_done r) \<subseteq> set (ring.walk (ring_size r) (hw_head r) (ring.gap (ring_size r) (hw_head r) (sw_tail r)))"
  by (auto simp: rx_done_def dest: set_takeWhileD)

lemma length_rx_done: "length (rx_done r) \<le> ring.gap (ring_size r) (hw_head r) (sw_tail r)"
proof -
  have "length (rx_done r) \<le> length (ring.walk (ring_size r) (hw_head r) (ring.gap (ring_size r) (hw_head r) (sw_tail r)))"
    unfolding rx_done_def by (rule length_takeWhile_le)
  then show ?thesis by (simp add: ring.walk_def)
qed

text \<open>The hardware head moves towards the tail and never past it.\<close>

lemma head_between:
  assumes "ring_ok r" "n \<le> ring.gap (ring_size r) (hw_head r) (sw_tail r)"
    "r' = r\<lparr>hw_head := (ring_next (ring_size r) ^^ n) (hw_head r), buff_ring := bs, ring_stats := st\<rparr>"
    "length bs = length (buff_ring r)"
  shows "ring_ok r'"
proof -
  let ?sz = "ring_size r"
  have v: "sw_head r < ?sz" "sw_tail r < ?sz" "hw_head r < ?sz"
    and le: "ring.gap ?sz (sw_head r) (hw_head r) \<le> ring.gap ?sz (sw_head r) (sw_tail r)"
    using assms(1) by (auto simp: ring_ok_def)
  have s: "ring.gap ?sz (hw_head r) (sw_tail r) =
    ring.gap ?sz (sw_head r) (sw_tail r) - ring.gap ?sz (sw_head r) (hw_head r)"
    by (rule ring.gap_split [OF v(1,3,2) le])
  have lt: "ring.gap ?sz (sw_head r) (sw_tail r) < unat ?sz" by (rule ring.gap_less [OF v(1)])
  have "ring.gap ?sz (sw_head r) ((ring_next ?sz ^^ j) (hw_head r)) = ring.gap ?sz (sw_head r) (hw_head r) + j"
    if "j \<le> n" for j using that
  proof (induction j)
    case (Suc j)
    have "ring.gap ?sz (sw_head r) (ring_next ?sz ((ring_next ?sz ^^ j) (hw_head r))) =
      Suc (ring.gap ?sz (sw_head r) ((ring_next ?sz ^^ j) (hw_head r)))"
      using Suc v lt s assms(2) by (intro ring.gap_nxt_right) (auto intro: ring.valid_iter)
    then show ?case using Suc by simp
  qed simp
  then have "ring.gap ?sz (sw_head r) ((ring_next ?sz ^^ n) (hw_head r)) \<le> ring.gap ?sz (sw_head r) (sw_tail r)"
    using s assms(2) le by simp
  then show ?thesis using assms v by (simp add: ring_ok_def ring.valid_iter)
qed

lemma b0_rx_receive_spec:
  assumes "hw_atl_b0_hw_ring_rx_receive hw r = (err, hw', r')" "ring_ok r"
  shows "err = aq_hw_err_from_flags hw" "hw' = hw" "ring_ok r'"
    and "r' = r\<lparr>hw_head := hw_head r', buff_ring := buff_ring r', ring_stats := ring_stats r'\<rparr>"
    and "hw_head r' = (ring_next (ring_size r) ^^ length (rx_done r)) (hw_head r)"
    and "\<forall>i < ring_size r. buff_ring r' ! unat i =
      (if i \<in> set (rx_done r)
       then rx_decoded (aq_nic_cfg hw) (ring_size r) i (dx_ring r ! unat i) (buff_ring r ! unat i)
       else buff_ring r ! unat i)"
proof -
  have v: "hw_head r < ring_size r" "sw_tail r < ring_size r" "length (buff_ring r) = unat (ring_size r)"
    using assms(2) by (auto simp: ring_ok_def)
  have l: "r' = b0_rx_receive_loop (unat (ring_size r)) (aq_nic_cfg hw) r"
    and e: "err = aq_hw_err_from_flags hw" "hw' = hw"
    using assms(1) by (auto simp: hw_atl_b0_hw_ring_rx_receive_def Let_def)
  have "ring.gap (ring_size r) (hw_head r) (sw_tail r) \<le> unat (ring_size r)"
    using ring.gap_less [OF v(1), of "sw_tail r"] by simp
  note sp = b0_rx_receive_loop_spec [OF v this l]
  show "err = aq_hw_err_from_flags hw" "hw' = hw" by (fact e)+
  show r': "r' = r\<lparr>hw_head := hw_head r', buff_ring := buff_ring r', ring_stats := ring_stats r'\<rparr>"
    by (fact sp(1))
  show h: "hw_head r' = (ring_next (ring_size r) ^^ length (rx_done r)) (hw_head r)" by (fact sp(2))
  show "\<forall>i < ring_size r. buff_ring r' ! unat i =
      (if i \<in> set (rx_done r)
       then rx_decoded (aq_nic_cfg hw) (ring_size r) i (dx_ring r ! unat i) (buff_ring r ! unat i)
       else buff_ring r ! unat i)" by (fact sp(4))
  show "ring_ok r'"
    by (rule head_between [OF assms(2) length_rx_done _ sp(3)]) (use r' h in simp)
qed

text \<open>The meaning of the decoded members.\<close>

lemma wb_len_range: "wb_len d \<le> 2048" "wb_eop d \<Longrightarrow> 0 < wb_len d"
proof -
  have "l mod 2048 \<le> 2048" for l :: u16
    using word_mod_less_divisor [of "2048 :: u16" l] by simp
  then show "wb_len d \<le> 2048" by (simp add: wb_len_def Let_def)
  show "wb_eop d \<Longrightarrow> 0 < wb_len d" by (simp add: wb_len_def Let_def word_gt_0)
qed

lemma rx_flags_page:
  "w1 (rx_flags cfg d b) = w1 b" "rx_daddr (rx_flags cfg d b) = rx_daddr b"
  "rx_order (rx_flags cfg d b) = rx_order b" "rx_pg_off (rx_flags cfg d b) = rx_pg_off b"
  "is_cleaned (rx_flags cfg d b) = False"
  by (simp_all add: rx_flags_def rx_stage_sel)

lemma rx_decoded_sel [simp]:
  "len (rx_decoded cfg sz i d b) = wb_len d" "is_eop (rx_decoded cfg sz i d b) = wb_eop d"
  "page (rx_decoded cfg sz i d b) = page b" "rx_daddr (rx_decoded cfg sz i d b) = rx_daddr b"
  "rx_order (rx_decoded cfg sz i d b) = rx_order b" "rx_pg_off (rx_decoded cfg sz i d b) = rx_pg_off b"
  "is_cleaned (rx_decoded cfg sz i d b) = False"
  "is_error (rx_decoded cfg sz i d b) = is_error (rx_flags cfg d b)"
  "is_vlan (rx_decoded cfg sz i d b) = is_vlan (rx_flags cfg d b)"
  "is_ip_cso (rx_decoded cfg sz i d b) = is_ip_cso (rx_flags cfg d b)"
  "is_tcp_cso (rx_decoded cfg sz i d b) = is_tcp_cso (rx_flags cfg d b)"
  "is_udp_cso (rx_decoded cfg sz i d b) = is_udp_cso (rx_flags cfg d b)"
  "is_cso_err (rx_decoded cfg sz i d b) = is_cso_err (rx_flags cfg d b)"
  "vlan_rx_tag (rx_decoded cfg sz i d b) = vlan_rx_tag (rx_flags cfg d b)"
  by (simp_all add: rx_decoded_def set_next_ix_def page_def rx_flags_page)

lemma next_ix_set: "next_ix (set_next_ix v b) = v"
  by (intro bit_word_eqI)
    (auto simp: next_ix_def set_next_ix_def bit_slice_set bit_unsigned_iff bit_drop_bit_eq dest: bit_imp_le_length)

lemma next_ix_upd [simp]: "next_ix (b\<lparr>len := x, is_eop := y\<rparr>) = next_ix b"
  by (simp add: next_ix_def)

lemma rx_decoded_next:
  "next_ix (rx_decoded cfg sz i d b) =
     (if wb_eop d then 0 else if wb_lro d then wb_next_desc_ptr (rxd_wb d) else ucast (ring_next sz i))"
  by (simp add: rx_decoded_def next_ix_set)

lemma low32_next: "ucast (slice_set 32 16 v w :: u64) = (ucast w :: u32)"
  by (intro bit_word_eqI) (auto simp: bit_slice_set bit_unsigned_iff)

lemma rss_hash_next: "rss_hash (rx_decoded cfg sz i d b) = rss_hash (rx_flags cfg d b)"
  by (simp add: rx_decoded_def rss_hash_def set_next_ix_def low32_next)

lemma low32_hash_l4: "ucast (slice_set 48 8 v w :: u64) = (ucast w :: u32)"
  by (intro bit_word_eqI) (auto simp: bit_slice_set bit_unsigned_iff)

lemma low32_rss: "ucast (slice_set 0 32 (ucast v) w :: u64) = (v :: u32)"
  by (intro bit_word_eqI) (auto simp: bit_slice_set bit_unsigned_iff)

definition wb_rss_type :: "u64 \<times> u64 \<Rightarrow> u16" where
  "wb_rss_type d = ucast (wb_type (rxd_wb d) AND 0xF)"

lemma rx_flags_hash:
  "rss_hash (rx_flags cfg d b) =
     (if is_rss cfg \<and> wb_rss_type d \<noteq> 0 \<and> wb_rss_type d < 8 then wb_rss_hash (rxd_wb d) else ucast (pa b))"
proof -
  define c where "c = rx_tag_error cfg (rxd_wb d) (rx_checksum (rxd_wb d) (set_is_hash_l4 0 (clear_flags b)))"
  have "w0 c = slice_set 48 8 0 (w0 b)" by (simp add: c_def rx_stage_sel)
  moreover have "rx_flags cfg d b = rx_hash cfg (rxd_wb d) c" by (simp add: rx_flags_def c_def)
  ultimately show ?thesis
    by (simp add: rx_hash_def rss_hash_def set_rss_hash_def set_is_hash_l4_def low32_hash_l4 low32_rss
        wb_rss_type_def pa_def Let_def)
qed

lemma rx_flags_error:
  "is_error (rx_flags cfg d b) \<longleftrightarrow> wb_rx_stat (rxd_wb d) AND 1 \<noteq> 0 \<or> wb_type (rxd_wb d) AND 0x1000 \<noteq> 0"
  "is_vlan (rx_flags cfg d b) \<longleftrightarrow> is_vlan_rx_strip cfg \<and> wb_pkt_type (rxd_wb d) AND 0x60 \<noteq> 0"
  "is_vlan (rx_flags cfg d b) \<Longrightarrow> vlan_rx_tag (rx_flags cfg d b) = wb_vlan (rxd_wb d)"
  "is_cso_err (rx_flags cfg d b) \<longleftrightarrow> wb_rx_stat (rxd_wb d) AND 6 \<noteq> 0 \<and> 60 < wb_pkt_len (rxd_wb d)"
proof -
  have v: "(p AND 0x60 \<noteq> 0) = (p AND 0x20 \<noteq> 0 \<or> p AND 0x40 \<noteq> (0 :: u32))" for p
  proof -
    have "p AND 0x60 = (p AND 0x20) OR (p AND 0x40)" by (simp flip: bit.conj_disj_distrib)
    then show ?thesis by (simp add: or_eq_0_iff)
  qed
  define c where "c = rx_checksum (rxd_wb d) (set_is_hash_l4 0 (clear_flags b))"
  have c: "\<not> is_error c" "\<not> is_vlan c"
    "is_cso_err c \<longleftrightarrow> wb_rx_stat (rxd_wb d) AND 6 \<noteq> 0 \<and> 60 < wb_pkt_len (rxd_wb d)"
    by (auto simp: c_def rx_checksum_def set_is_hash_l4_def clear_flags_def not_less Let_def)
  have r: "rx_flags cfg d b = rx_hash cfg (rxd_wb d) (rx_tag_error cfg (rxd_wb d) c)"
    by (simp add: rx_flags_def c_def)
  show "is_error (rx_flags cfg d b) \<longleftrightarrow> wb_rx_stat (rxd_wb d) AND 1 \<noteq> 0 \<or> wb_type (rxd_wb d) AND 0x1000 \<noteq> 0"
    by (simp add: r rx_hash_sel c rx_tag_error_def BIT_def Let_def)
  show "is_vlan (rx_flags cfg d b) \<longleftrightarrow> is_vlan_rx_strip cfg \<and> wb_pkt_type (rxd_wb d) AND 0x60 \<noteq> 0"
    unfolding v by (simp add: r rx_hash_sel c rx_tag_error_def HW_ATL_B0_RXD_WB_PKTTYPE_VLAN_def
        HW_ATL_B0_RXD_WB_PKTTYPE_VLAN_DOUBLE_def Let_def)
  show "is_vlan (rx_flags cfg d b) \<Longrightarrow> vlan_rx_tag (rx_flags cfg d b) = wb_vlan (rxd_wb d)"
    using c by (auto simp: r rx_hash_sel rx_tag_error_def Let_def split: if_splits)
  show "is_cso_err (rx_flags cfg d b) \<longleftrightarrow> wb_rx_stat (rxd_wb d) AND 6 \<noteq> 0 \<and> 60 < wb_pkt_len (rxd_wb d)"
    by (simp add: r rx_hash_sel c rx_tag_error_def Let_def)
qed

text \<open>A checksum is vouched for only when the chip checked it and found it right.\<close>

lemma rx_flags_csum:
  "is_ip_cso (rx_flags cfg d b) \<longleftrightarrow> bit (wb_csum_enabled (rxd_wb d)) 0 \<and> wb_pkt_type (rxd_wb d) AND 3 = 0 \<and>
     \<not> bit (wb_rx_stat (rxd_wb d)) 1 \<and> 60 < wb_pkt_len (rxd_wb d)"
  "is_udp_cso (rx_flags cfg d b) \<longleftrightarrow> bit (wb_csum_enabled (rxd_wb d)) 1 \<and> wb_pkt_type (rxd_wb d) AND 0x1C = 4 \<and>
     \<not> bit (wb_rx_stat (rxd_wb d)) 2 \<and> bit (wb_rx_stat (rxd_wb d)) 3"
  "is_tcp_cso (rx_flags cfg d b) \<longleftrightarrow> bit (wb_csum_enabled (rxd_wb d)) 1 \<and> wb_pkt_type (rxd_wb d) AND 0x1C = 0 \<and>
     \<not> bit (wb_rx_stat (rxd_wb d)) 2 \<and> bit (wb_rx_stat (rxd_wb d)) 3"
proof -
  have e: "w AND BIT n = 0 \<longleftrightarrow> \<not> bit w n" if "n < 32" for w :: u32 and n
    using that by (simp add: BIT_def bit_iff_and_push_bit_not_eq_0)
  have f: "x AND 2 = 0 \<longleftrightarrow> \<not> bit x 1" "x AND 4 = 0 \<longleftrightarrow> \<not> bit x 2" "x AND 8 = 0 \<longleftrightarrow> \<not> bit x 3" for x :: u8
    by (simp_all add: bit_iff_and_push_bit_not_eq_0)
  have u: "(ucast (BIT 1) :: u8) = 2" "(ucast (BIT 2) :: u8) = 4" "(ucast (BIT 3) :: u8) = 8"
    by (simp_all add: BIT_def)
  define c where "c = set_is_hash_l4 0 (clear_flags b)"
  have c0: "\<not> is_ip_cso c" "\<not> is_udp_cso c" "\<not> is_tcp_cso c"
    by (simp_all add: c_def cleared_sel)
  have r: "is_ip_cso (rx_flags cfg d b) = is_ip_cso (rx_checksum (rxd_wb d) c)"
    "is_udp_cso (rx_flags cfg d b) = is_udp_cso (rx_checksum (rxd_wb d) c)"
    "is_tcp_cso (rx_flags cfg d b) = is_tcp_cso (rx_checksum (rxd_wb d) c)"
    by (simp_all add: rx_flags_def c_def rx_stage_sel)
  show "is_ip_cso (rx_flags cfg d b) \<longleftrightarrow> bit (wb_csum_enabled (rxd_wb d)) 0 \<and> wb_pkt_type (rxd_wb d) AND 3 = 0 \<and>
     \<not> bit (wb_rx_stat (rxd_wb d)) 1 \<and> 60 < wb_pkt_len (rxd_wb d)"
    "is_udp_cso (rx_flags cfg d b) \<longleftrightarrow> bit (wb_csum_enabled (rxd_wb d)) 1 \<and> wb_pkt_type (rxd_wb d) AND 0x1C = 4 \<and>
     \<not> bit (wb_rx_stat (rxd_wb d)) 2 \<and> bit (wb_rx_stat (rxd_wb d)) 3"
    "is_tcp_cso (rx_flags cfg d b) \<longleftrightarrow> bit (wb_csum_enabled (rxd_wb d)) 1 \<and> wb_pkt_type (rxd_wb d) AND 0x1C = 0 \<and>
     \<not> bit (wb_rx_stat (rxd_wb d)) 2 \<and> bit (wb_rx_stat (rxd_wb d)) 3"
    unfolding r by (auto simp: c0 e f u [unfolded One_nat_def] f [unfolded One_nat_def] rx_checksum_def
        rx_l4_ok_def not_le Let_def)
qed

subsection \<open>What posting writes\<close>

lemma b0_rx_fill_loop_spec:
  assumes "i < ring_size r" "sw_tail r < ring_size r" "length (dx_ring r) = unat (ring_size r)"
    "ring.gap (ring_size r) i (sw_tail r) \<le> n" "b0_rx_fill_loop n r i = (r', j)"
  shows "j = sw_tail r \<and> r' = r\<lparr>dx_ring := dx_ring r'\<rparr> \<and> length (dx_ring r') = length (dx_ring r) \<and>
    (\<forall>p < ring_size r. dx_ring r' ! unat p =
      (if p \<in> set (ring.walk (ring_size r) i (ring.gap (ring_size r) i (sw_tail r)))
       then (pa (buff_ring r ! unat p), 0) else dx_ring r ! unat p))"
  using assms
proof (induction n arbitrary: r i)
  case 0
  then have "ring.gap (ring_size r) i (sw_tail r) = 0" by simp
  moreover have "i = sw_tail r" using 0 by (simp add: ring.gap_0_iff)
  moreover have "r' = r" "j = i" using 0(5) by simp_all
  ultimately show ?case by simp
next
  case (Suc n)
  let ?sz = "ring_size r"
  show ?case
  proof (cases "i = sw_tail r")
    case True
    then have "ring.gap ?sz i (sw_tail r) = 0" using Suc.prems by (simp add: ring.gap_0_iff)
    moreover have "r' = r" "j = sw_tail r" using Suc.prems(5) True by auto
    ultimately show ?thesis by simp
  next
    case False
    define r1 where "r1 = r\<lparr>dx_ring := (dx_ring r)[unat i := (pa (buff_ring r ! unat i), 0)]\<rparr>"
    have r1: "ring_size r1 = ?sz" "sw_tail r1 = sw_tail r" "length (dx_ring r1) = length (dx_ring r)"
      "buff_ring r1 = buff_ring r" by (simp_all add: r1_def)
    have l: "b0_rx_fill_loop n r1 (ring_next ?sz i) = (r', j)"
      using Suc.prems(5) False by (simp add: r1_def rxd_words_def aq_ring_next_dx_def Let_def)
    have g: "Suc (ring.gap ?sz (ring_next ?sz i) (sw_tail r)) = ring.gap ?sz i (sw_tail r)"
      using False Suc.prems by (intro ring.gap_nxt_left) auto
    have n1: "dx_ring r1 ! unat p = (if p = i then (pa (buff_ring r ! unat i), 0) else dx_ring r ! unat p)" for p
      using Suc.prems by (auto simp: r1_def nth_list_update word_less_nat_alt word_unat_eq_iff)
    have IH: "j = sw_tail r1 \<and> r' = r1\<lparr>dx_ring := dx_ring r'\<rparr> \<and> length (dx_ring r') = length (dx_ring r1) \<and>
      (\<forall>p < ring_size r1. dx_ring r' ! unat p =
        (if p \<in> set (ring.walk (ring_size r1) (ring_next ?sz i) (ring.gap (ring_size r1) (ring_next ?sz i) (sw_tail r1)))
         then (pa (buff_ring r1 ! unat p), 0) else dx_ring r1 ! unat p))"
      using Suc.prems g by (intro Suc.IH [OF _ _ _ _ l]) (auto simp: r1 ring_next_less)
    have "r' = r\<lparr>dx_ring := dx_ring r'\<rparr>" using IH unfolding r1_def by (cases r; cases r') simp
    then show ?thesis using IH by (auto simp: r1 n1 ring.walk_Suc simp flip: g)
  qed
qed


lemma b0_rx_fill_spec:
  assumes "hw_atl_b0_hw_ring_rx_fill hw r old = (err, hw', r')" "ring_ok r" "old < ring_size r"
  shows "hw' = hw_atl_reg_rx_dma_desc_tail_ptr_set hw (sw_tail r) (ring_idx r)"
    and "err = aq_hw_err_from_flags hw'" and "r' = r\<lparr>dx_ring := dx_ring r'\<rparr>" "ring_ok r'"
    and "\<forall>p < ring_size r. dx_ring r' ! unat p =
      (if p \<in> set (ring.walk (ring_size r) old (ring.gap (ring_size r) old (sw_tail r)))
       then (pa (buff_ring r ! unat p), 0) else dx_ring r ! unat p)"
proof -
  have v: "sw_tail r < ring_size r" "length (dx_ring r) = unat (ring_size r)"
    using assms(2) by (auto simp: ring_ok_def)
  obtain q j where qj: "b0_rx_fill_loop (unat (ring_size r)) r old = (q, j)" by (metis prod.exhaust)
  have "ring.gap (ring_size r) old (sw_tail r) \<le> unat (ring_size r)"
    using ring.gap_less [OF assms(3), of "sw_tail r"] by simp
  note sp = b0_rx_fill_loop_spec [OF assms(3) v this qj]
  obtain dx where dx: "q = r\<lparr>dx_ring := dx\<rparr>" using sp by metis
  then have q: "ring_idx q = ring_idx r" by simp
  have r': "r' = q" "hw' = hw_atl_reg_rx_dma_desc_tail_ptr_set hw j (ring_idx q)" "err = aq_hw_err_from_flags hw'"
    using assms(1) by (auto simp: hw_atl_b0_hw_ring_rx_fill_def qj Let_def)
  show "hw' = hw_atl_reg_rx_dma_desc_tail_ptr_set hw (sw_tail r) (ring_idx r)" "err = aq_hw_err_from_flags hw'"
    using r' sp q by simp_all
  show e: "r' = r\<lparr>dx_ring := dx_ring r'\<rparr>" using sp r' by simp
  show "ring_ok r'" using assms(2) sp by (simp add: ring_ok_def r'(1) dx)
  show "\<forall>p < ring_size r. dx_ring r' ! unat p =
      (if p \<in> set (ring.walk (ring_size r) old (ring.gap (ring_size r) old (sw_tail r)))
       then (pa (buff_ring r ! unat p), 0) else dx_ring r ! unat p)"
    using sp r' by simp
qed

subsection \<open>Setting up, starting and stopping a ring\<close>

record aq_ring_param_s =
  vec_idx :: u32
  param_cpu :: u32

definition hw_atl_b0_hw_ring_rx_init :: "aq_hw_s \<Rightarrow> aq_ring_s \<Rightarrow> aq_ring_param_s \<Rightarrow> int \<times> aq_hw_s" where
  "hw_atl_b0_hw_ring_rx_init self aq_ring aq_ring_param =
     (let dma_desc_addr_lsw = ucast (dx_ring_pa aq_ring);
          dma_desc_addr_msw = ucast (drop_bit 32 (dx_ring_pa aq_ring));
          vlan_rx_stripping = is_vlan_rx_strip (aq_nic_cfg self);
          self = hw_atl_rdm_rx_desc_en_set self 0 (ring_idx aq_ring);
          self = hw_atl_reg_rx_dma_desc_base_addresslswset self dma_desc_addr_lsw (ring_idx aq_ring);
          self = hw_atl_reg_rx_dma_desc_base_addressmswset self dma_desc_addr_msw (ring_idx aq_ring);
          self = hw_atl_rdm_rx_desc_len_set self (ring_size aq_ring div 8) (ring_idx aq_ring);
          self = hw_atl_rdm_rx_desc_data_buff_size_set self (AQ_CFG_RX_FRAME_MAX div 1024) (ring_idx aq_ring);
          self = hw_atl_rdm_rx_desc_head_buff_size_set self 0 (ring_idx aq_ring);
          self = hw_atl_rdm_rx_desc_head_splitting_set self 0 (ring_idx aq_ring);
          self = hw_atl_rpo_rx_desc_vlan_stripping_set self (of_flag vlan_rx_stripping) (ring_idx aq_ring);
          self = hw_atl_itr_irq_map_rx_set self (vec_idx aq_ring_param) (ring_idx aq_ring);
          self = hw_atl_itr_irq_map_en_rx_set self 1 (ring_idx aq_ring);
          self = hw_atl_rdm_cpu_id_set self (param_cpu aq_ring_param) (ring_idx aq_ring);
          self = hw_atl_rdm_rx_desc_dca_en_set self 0 (ring_idx aq_ring);
          self = hw_atl_rdm_rx_head_dca_en_set self 0 (ring_idx aq_ring);
          self = hw_atl_rdm_rx_pld_dca_en_set self 0 (ring_idx aq_ring)
      in (aq_hw_err_from_flags self, self))"

definition hw_atl_b0_hw_ring_tx_init :: "aq_hw_s \<Rightarrow> aq_ring_s \<Rightarrow> aq_ring_param_s \<Rightarrow> int \<times> aq_hw_s" where
  "hw_atl_b0_hw_ring_tx_init self aq_ring aq_ring_param =
     (let dma_desc_lsw_addr = ucast (dx_ring_pa aq_ring);
          dma_desc_msw_addr = ucast (drop_bit 32 (dx_ring_pa aq_ring));
          self = hw_atl_reg_tx_dma_desc_base_addresslswset self dma_desc_lsw_addr (ring_idx aq_ring);
          self = hw_atl_reg_tx_dma_desc_base_addressmswset self dma_desc_msw_addr (ring_idx aq_ring);
          self = hw_atl_tdm_tx_desc_len_set self (ring_size aq_ring div 8) (ring_idx aq_ring);
          self = snd (hw_atl_b0_hw_tx_ring_tail_update self aq_ring);
          self = hw_atl_tdm_tx_desc_wr_wb_threshold_set self 0 (ring_idx aq_ring);
          self = hw_atl_itr_irq_map_tx_set self (vec_idx aq_ring_param) (ring_idx aq_ring);
          self = hw_atl_itr_irq_map_en_tx_set self 1 (ring_idx aq_ring);
          self = hw_atl_tdm_cpu_id_set self (param_cpu aq_ring_param) (ring_idx aq_ring);
          self = hw_atl_tdm_tx_desc_dca_en_set self 0 (ring_idx aq_ring)
      in (aq_hw_err_from_flags self, self))"

definition hw_atl_b0_hw_ring_tx_start :: "aq_hw_s \<Rightarrow> aq_ring_s \<Rightarrow> int \<times> aq_hw_s" where
  "hw_atl_b0_hw_ring_tx_start self ring =
     (let self = hw_atl_tdm_tx_desc_en_set self 1 (ring_idx ring) in (aq_hw_err_from_flags self, self))"

definition hw_atl_b0_hw_ring_rx_start :: "aq_hw_s \<Rightarrow> aq_ring_s \<Rightarrow> int \<times> aq_hw_s" where
  "hw_atl_b0_hw_ring_rx_start self ring =
     (let self = hw_atl_rdm_rx_desc_en_set self 1 (ring_idx ring) in (aq_hw_err_from_flags self, self))"

definition hw_atl_b0_hw_ring_tx_stop :: "aq_hw_s \<Rightarrow> aq_ring_s \<Rightarrow> int \<times> aq_hw_s" where
  "hw_atl_b0_hw_ring_tx_stop self ring =
     (let self = hw_atl_tdm_tx_desc_en_set self 0 (ring_idx ring) in (aq_hw_err_from_flags self, self))"

definition hw_atl_b0_hw_ring_rx_stop :: "aq_hw_s \<Rightarrow> aq_ring_s \<Rightarrow> int \<times> aq_hw_s" where
  "hw_atl_b0_hw_ring_rx_stop self ring =
     (let self = hw_atl_rdm_rx_desc_en_set self 0 (ring_idx ring) in (aq_hw_err_from_flags self, self))"


subsection \<open>Interrupts\<close>

definition LODWORD :: "u64 \<Rightarrow> u32" where "LODWORD a = ucast a"

definition hw_atl_b0_hw_irq_enable :: "aq_hw_s \<Rightarrow> u64 \<Rightarrow> int \<times> aq_hw_s" where
  "hw_atl_b0_hw_irq_enable self msk =
     (let self = hw_atl_itr_irq_msk_setlsw_set self (LODWORD msk) in (aq_hw_err_from_flags self, self))"

definition hw_atl_b0_hw_irq_disable :: "aq_hw_s \<Rightarrow> u64 \<Rightarrow> int \<times> aq_hw_s" where
  "hw_atl_b0_hw_irq_disable self msk =
     (let self = hw_atl_itr_irq_msk_clearlsw_set self (LODWORD msk);
          self = hw_atl_itr_irq_status_clearlsw_set self (LODWORD msk);
          self = self\<lparr>dpc := dpc self + 1\<rparr>
      in (aq_hw_err_from_flags self, self))"

definition hw_atl_b0_hw_irq_read :: "aq_hw_s \<Rightarrow> int \<times> u64 \<times> aq_hw_s" where
  "hw_atl_b0_hw_irq_read self =
     (case hw_atl_itr_irq_statuslsw_get self of (irqs, self) \<Rightarrow>
        (aq_hw_err_from_flags self, ucast irqs, self))"

end
