(* ===== verification/Rx_Clean.thy ===== *)
theory Rx_Clean
  imports Rx_Ring
begin

section \<open>Passing received packets up (aq_ring_rx_clean)\<close>

text \<open>
  \<open>aq_ring_rx_clean\<close> of aq_ring.c on the Linux build (kernels from 4.6 on): it walks the
  decoded buffers from the software to the hardware head, follows the chain of a packet of
  several buffers, drops packets with an error and builds a socket buffer for the others.

  The socket buffer is what the kernel calls leave in it: the bytes of its linear part, by
  the place they are taken from, the page fragments by slot, the padding, the tag, the
  number of checksums vouched for, the hash and the queue. \<open>napi_s\<close> stands for the rest
  of the kernel: whether the \<open>n\<close>-th allocation of a socket buffer succeeds, the length
  \<open>eth_get_headlen\<close> finds at a place in memory, the size of \<open>skb_shared_info\<close>
  (\<open>AQ_SKB_ALIGN\<close>), whether the device has receive checksums on, and the packets
  passed up so far. \<open>dma_sync_single_range_for_cpu\<close> has no counterpart.

  The chains follow the \<open>next\<close> member, which comes from the chip for coalesced packets, and
  may not end: the walks are partial functions, and \<open>None\<close> is a walk that never returns.
\<close>

definition AQ_CFG_RX_HDR_SIZE :: u16 where "AQ_CFG_RX_HDR_SIZE = 256"

record rx_skb =
  sk_linear :: "u64 \<times> u32 \<times> u16"
  sk_pad :: nat
  sk_frags :: "(u64 \<times> u32 \<times> u32) option list"
  sk_len :: u32
  sk_vlan :: "u16 option"
  sk_csums :: nat
  sk_hash :: u32
  sk_hash_l4 :: bool
  sk_queue :: u32

record napi_s =
  skb_answer :: "nat \<Rightarrow> bool"
  skb_calls :: nat
  eth_headlen :: "u64 \<Rightarrow> u32 \<Rightarrow> u16"
  AQ_SKB_ALIGN :: u32
  ndev_rxcsum :: bool
  received :: "rx_skb list"

type_synonym rx_hook = "(u64 \<Rightarrow> u32 \<Rightarrow> u16 \<Rightarrow> u16) option"

definition alloc_skb :: "napi_s \<Rightarrow> bool \<times> napi_s" where
  "alloc_skb napi = (skb_answer napi (skb_calls napi), napi\<lparr>skb_calls := Suc (skb_calls napi)\<rparr>)"

definition page_ref_inc :: "u64 \<Rightarrow> kern \<Rightarrow> kern" where
  "page_ref_inc p k = k\<lparr>page_refs := (page_refs k)(p := Suc (page_refs k p))\<rparr>"

text \<open>
  \<open>skb_add_rx_frag\<close> fills slot \<open>i\<close> and makes it the last one; slots below that were never
  filled hold whatever was there (\<open>None\<close>).
\<close>

definition skb_add_rx_frag :: "nat \<Rightarrow> u64 \<Rightarrow> u32 \<Rightarrow> u32 \<Rightarrow> rx_skb \<Rightarrow> rx_skb" where
  "skb_add_rx_frag i p off n s =
     s\<lparr>sk_frags := take i (sk_frags s @ replicate (i - length (sk_frags s)) None) @ [Some (p, off, n)],
       sk_len := sk_len s + n\<rparr>"

definition buff_at :: "aq_ring_s \<Rightarrow> u32 \<Rightarrow> aq_ring_buff_s" where
  "buff_at self i = buff_ring self ! unat i"

definition next_of :: "aq_ring_s \<Rightarrow> u32 \<Rightarrow> u32" where
  "next_of self i = ucast (next_ix (buff_at self i))"

subsection \<open>The three walks along a chain\<close>

text \<open>Is the whole packet there, and is one of its buffers in error?\<close>

partial_function (option) rsc_scan :: "aq_ring_s \<Rightarrow> u32 \<Rightarrow> bool \<Rightarrow> (bool \<times> bool) option" where
  "rsc_scan self cur is_err =
     (let nxt = next_of self cur in
      if \<not> aq_ring_dx_in_range (sw_head self) nxt (hw_head self) then Some (False, is_err)
      else
        let is_err = is_err \<or> is_error (buff_at self nxt) in
        if is_eop (buff_at self nxt) then Some (True, is_err) else rsc_scan self nxt is_err)"

definition set_cleaned :: "aq_ring_buff_s \<Rightarrow> aq_ring_buff_s" where
  "set_cleaned b = b\<lparr>is_cleaned := True\<rparr>"

partial_function (option) rsc_drop :: "aq_ring_s \<Rightarrow> u32 \<Rightarrow> aq_ring_s option" where
  "rsc_drop self cur =
     (let nxt = next_of self cur;
          self = upd_buff self nxt set_cleaned in
      if is_eop (buff_at self nxt) then Some self else rsc_drop self nxt)"

definition csum_join :: "aq_ring_buff_s \<Rightarrow> aq_ring_buff_s \<Rightarrow> aq_ring_buff_s" where
  "csum_join nb b = b\<lparr>is_ip_cso := is_ip_cso b \<and> is_ip_cso nb, is_udp_cso := is_udp_cso b \<and> is_udp_cso nb,
     is_tcp_cso := is_tcp_cso b \<and> is_tcp_cso nb, is_cso_err := is_cso_err b \<or> is_cso_err nb\<rparr>"

partial_function (option) rsc_frags :: "aq_ring_s \<Rightarrow> kern \<Rightarrow> rx_skb \<Rightarrow> nat \<Rightarrow> u32 \<Rightarrow> u32 \<Rightarrow>
    (aq_ring_s \<times> kern \<times> rx_skb) option" where
  "rsc_frags self k s i head cur =
     (let nxt = next_of self cur; nb = buff_at self nxt;
          s = skb_add_rx_frag i (page nb) (rx_pg_off nb) (ucast (len nb)) s;
          k = page_ref_inc (page nb) k;
          self = upd_buff self nxt set_cleaned;
          self = upd_buff self head (csum_join (buff_at self nxt)) in
      if is_eop (buff_at self nxt) then Some (self, k, s) else rsc_frags self k s (Suc i) head nxt)"

subsection \<open>One packet\<close>

definition hook_len :: "rx_hook \<Rightarrow> aq_ring_buff_s \<Rightarrow> u16" where
  "hook_len hook b = (case hook of None \<Rightarrow> len b | Some f \<Rightarrow> len b - f (page b) (rx_pg_off b) (len b))"

definition skb_start :: "u64 \<Rightarrow> u32 \<Rightarrow> u16 \<Rightarrow> rx_skb" where
  "skb_start p off n = \<lparr>sk_linear = (p, off, n), sk_pad = 0, sk_frags = [], sk_len = ucast n, sk_vlan = None,
     sk_csums = 0, sk_hash = 0, sk_hash_l4 = False, sk_queue = 0\<rparr>"

text \<open>A short single buffer is used in place (\<open>build_skb\<close>).\<close>

definition skb_in_place :: "napi_s \<Rightarrow> aq_ring_buff_s \<Rightarrow> bool" where
  "skb_in_place napi b \<longleftrightarrow> is_eop b \<and> ucast (len b) \<le> AQ_CFG_RX_FRAME_MAX - AQ_SKB_ALIGN napi"

text \<open>Otherwise the header is copied, the rest of the buffer and the chain become fragments.\<close>

definition skb_header :: "napi_s \<Rightarrow> aq_ring_buff_s \<Rightarrow> rx_skb" where
  "skb_header napi b =
     (let hdr_len = (if len b > AQ_CFG_RX_HDR_SIZE then eth_headlen napi (page b) (rx_pg_off b) else len b);
          s = skb_start (page b) (rx_pg_off b) hdr_len;
          s = (if len b < 60 then s\<lparr>sk_pad := 60 - unat (len b), sk_len := sk_len s + (60 - ucast (len b))\<rparr> else s)
      in if len b > hdr_len
         then skb_add_rx_frag 0 (page b) (rx_pg_off b + ucast hdr_len) (ucast (len b - hdr_len)) s else s)"

definition skb_body :: "aq_ring_s \<Rightarrow> kern \<Rightarrow> napi_s \<Rightarrow> u32 \<Rightarrow> (aq_ring_s \<times> kern \<times> rx_skb) option" where
  "skb_body self k napi head =
     (let b = buff_at self head; s = skb_header napi b;
          k = (if sk_frags s = [] then k else page_ref_inc (page b) k) in
      if is_eop b then Some (self, k, s) else rsc_frags self k s 1 head head)"

definition aq_rx_checksum :: "napi_s \<Rightarrow> aq_ring_buff_s \<Rightarrow> aq_ring_s \<times> rx_skb \<Rightarrow> aq_ring_s \<times> rx_skb" where
  "aq_rx_checksum napi b = (\<lambda>(self, s).
     if \<not> ndev_rxcsum napi then (self, s)
     else if is_cso_err b then (upd_stats (\<lambda>st. st\<lparr>st_errors := st_errors st + 1\<rparr>) self, s\<lparr>sk_csums := 0\<rparr>)
     else
       let s = (if is_ip_cso b then s\<lparr>sk_csums := Suc (sk_csums s)\<rparr> else s\<lparr>sk_csums := 0\<rparr>)
       in (self, if is_udp_cso b \<or> is_tcp_cso b then s\<lparr>sk_csums := Suc (sk_csums s)\<rparr> else s))"

text \<open>\<open>eth_type_trans\<close> takes the Ethernet header off the packet before its length is counted.\<close>

definition eth_pull :: "rx_skb \<Rightarrow> u32" where
  "eth_pull s = (if sk_len s < 14 then sk_len s else sk_len s - 14)"

definition skb_finish :: "rx_hook \<Rightarrow> napi_s \<Rightarrow> aq_ring_s \<Rightarrow> u32 \<Rightarrow> rx_skb \<Rightarrow> aq_ring_s \<times> napi_s" where
  "skb_finish hook napi self head s =
     (let b = buff_at self head;
          s = (if is_vlan b then s\<lparr>sk_vlan := Some (vlan_rx_tag b)\<rparr> else s) in
      case aq_rx_checksum napi b (self, s) of (self, s) \<Rightarrow>
        let s = s\<lparr>sk_hash := rss_hash b, sk_hash_l4 := is_hash_l4 b \<noteq> 0\<rparr>;
            s = s\<lparr>sk_queue := (if hook \<noteq> None then 0 else ring_idx self)\<rparr>;
            self = upd_stats (\<lambda>st. st\<lparr>st_packets := st_packets st + 1, st_bytes := st_bytes st + ucast (eth_pull s)\<rparr>) self
        in (self, napi\<lparr>received := received napi @ [s]\<rparr>))"

text \<open>
  Building and passing up the packet at \<open>head\<close>. The first component of the result is
  \<open>Some err\<close> when the function leaves its loop with \<open>err\<close>, \<open>None\<close> when it goes on.
\<close>

definition rx_deliver :: "rx_hook \<Rightarrow> aq_ring_s \<Rightarrow> kern \<Rightarrow> napi_s \<Rightarrow> u32 \<Rightarrow>
    (int option \<times> aq_ring_s \<times> kern \<times> napi_s) option" where
  "rx_deliver hook self k napi head =
     (let in_place = skb_in_place napi (buff_at self head) in
      case alloc_skb napi of (ok, napi) \<Rightarrow>
        if \<not> ok then Some (Some (- ENOMEM), self, k, napi)
        else
          let self = upd_buff self head (\<lambda>b. b\<lparr>len := hook_len hook b\<rparr>); b = buff_at self head in
          case (if in_place
                then Some (self, page_ref_inc (page b) k, skb_start (page b) (rx_pg_off b) (len b))
                else skb_body self k napi head) of
            None \<Rightarrow> None
          | Some (self, k, s) \<Rightarrow>
              (case skb_finish hook napi self head s of (self, napi) \<Rightarrow> Some (None, self, k, napi)))"

definition count_error :: "aq_ring_s \<Rightarrow> aq_ring_s" where
  "count_error self = upd_stats (\<lambda>st. st\<lparr>st_errors := st_errors st + 1\<rparr>) self"

definition rx_clean_packet :: "rx_hook \<Rightarrow> aq_ring_s \<Rightarrow> kern \<Rightarrow> napi_s \<Rightarrow>
    (int option \<times> aq_ring_s \<times> kern \<times> napi_s) option" where
  "rx_clean_packet hook self k napi =
     (let head = sw_head self; b = buff_at self head in
      if is_cleaned b then Some (None, self, k, napi)
      else if \<not> is_eop b then
        (case rsc_scan self head (is_error b) of
           None \<Rightarrow> None
         | Some (is_rsc_completed, is_err) \<Rightarrow>
             let self = upd_buff self head (\<lambda>b. b\<lparr>is_error := is_err\<rparr>) in
             if \<not> is_rsc_completed then Some (Some 0, self, k, napi)
             else if is_err then
               (case rsc_drop self head of
                  None \<Rightarrow> None
                | Some self \<Rightarrow> Some (None, count_error self, k, napi))
             else rx_deliver hook self k napi head)
      else if is_error b then Some (None, count_error self, k, napi)
      else rx_deliver hook self k napi head)"

fun rx_clean_loop :: "nat \<Rightarrow> rx_hook \<Rightarrow> nat \<Rightarrow> aq_ring_s \<Rightarrow> kern \<Rightarrow> napi_s \<Rightarrow>
    (int \<times> nat \<times> aq_ring_s \<times> kern \<times> napi_s) option" where
  "rx_clean_loop 0 hook work_done self k napi = Some (0, work_done, self, k, napi)"
| "rx_clean_loop (Suc budget) hook work_done self k napi =
     (if sw_head self \<noteq> hw_head self then
        (case rx_clean_packet hook self k napi of
           None \<Rightarrow> None
         | Some (Some err, self, k, napi) \<Rightarrow> Some (err, work_done, self, k, napi)
         | Some (None, self, k, napi) \<Rightarrow>
             rx_clean_loop budget hook (Suc work_done)
               (self\<lparr>sw_head := aq_ring_next_dx self (sw_head self)\<rparr>) k napi)
      else Some (0, work_done, self, k, napi))"

definition aq_ring_rx_clean :: "aq_ring_s \<Rightarrow> kern \<Rightarrow> napi_s \<Rightarrow> nat \<Rightarrow> nat \<Rightarrow> rx_hook \<Rightarrow>
    (int \<times> nat \<times> aq_ring_s \<times> kern \<times> napi_s) option" where
  "aq_ring_rx_clean self k napi work_done budget hook = rx_clean_loop budget hook work_done self k napi"


subsection \<open>Chains\<close>

text \<open>\<open>chain self cur is\<close>: the buffers after \<open>cur\<close> up to the end of its packet are \<open>is\<close>.\<close>

fun chain :: "aq_ring_s \<Rightarrow> u32 \<Rightarrow> u32 list \<Rightarrow> bool" where
  "chain self cur [] = False"
| "chain self cur (i # is) = (i = next_of self cur \<and>
     (if is = [] then is_eop (buff_at self i) else \<not> is_eop (buff_at self i) \<and> chain self i is))"

definition in_pending :: "aq_ring_s \<Rightarrow> u32 \<Rightarrow> bool" where
  "in_pending self i \<longleftrightarrow> aq_ring_dx_in_range (sw_head self) i (hw_head self)"

lemma rsc_scan_chain:
  "chain self cur is \<Longrightarrow> (\<forall>i \<in> set is. in_pending self i) \<Longrightarrow>
   rsc_scan self cur e = Some (True, e \<or> (\<exists>i \<in> set is. is_error (buff_at self i)))"
proof (induction "is" arbitrary: cur e)
  case (Cons i "is")
  then show ?case
    by (subst rsc_scan.simps) (auto simp: in_pending_def Let_def split: if_splits)
qed simp

text \<open>Updates that keep the links and the ends of packets keep the chains.\<close>

definition same_links :: "aq_ring_s \<Rightarrow> aq_ring_s \<Rightarrow> bool" where
  "same_links r r' \<longleftrightarrow> (\<forall>i. next_of r' i = next_of r i \<and> is_eop (buff_at r' i) = is_eop (buff_at r i))"

lemma chain_cong: "same_links r r' \<Longrightarrow> chain r' cur is = chain r cur is"
  by (induction "is" arbitrary: cur) (auto simp: same_links_def)

lemma buff_at_upd:
  "buff_at (upd_buff r i f) j =
     (if unat i = unat j \<and> unat i < length (buff_ring r) then f (buff_at r j) else buff_at r j)"
  by (cases "unat i = unat j"; cases "unat i < length (buff_ring r)") (auto simp: buff_at_def upd_buff_def list_update_beyond)

lemma buff_at_upd_in:
  "i < ring_size r \<Longrightarrow> length (buff_ring r) = unat (ring_size r) \<Longrightarrow>
   buff_at (upd_buff r i f) j = (if j = i then f (buff_at r j) else buff_at r j)"
  by (auto simp: buff_at_upd word_less_nat_alt word_unat_eq_iff)

lemma same_links_upd:
  assumes "\<And>b. next_ix (f b) = next_ix b" "\<And>b. is_eop (f b) = is_eop b"
  shows "same_links r (upd_buff r i f)"
  by (simp add: same_links_def next_of_def buff_at_upd assms)

lemma same_links_trans: "same_links a b \<Longrightarrow> same_links b c \<Longrightarrow> same_links a c"
  by (simp add: same_links_def)

lemma set_cleaned_sel [simp]:
  "next_ix (set_cleaned b) = next_ix b" "is_eop (set_cleaned b) = is_eop b" "page (set_cleaned b) = page b"
  "rx_pg_off (set_cleaned b) = rx_pg_off b" "len (set_cleaned b) = len b" "is_cleaned (set_cleaned b)"
  "is_error (set_cleaned b) = is_error b" "is_ip_cso (set_cleaned b) = is_ip_cso b"
  "is_udp_cso (set_cleaned b) = is_udp_cso b" "is_tcp_cso (set_cleaned b) = is_tcp_cso b"
  "is_cso_err (set_cleaned b) = is_cso_err b"
  by (simp_all add: set_cleaned_def next_ix_def page_def)

lemma csum_join_sel [simp]:
  "next_ix (csum_join c b) = next_ix b" "is_eop (csum_join c b) = is_eop b" "page (csum_join c b) = page b"
  "rx_pg_off (csum_join c b) = rx_pg_off b" "len (csum_join c b) = len b"
  "is_cleaned (csum_join c b) = is_cleaned b" "is_error (csum_join c b) = is_error b"
  "is_vlan (csum_join c b) = is_vlan b" "vlan_rx_tag (csum_join c b) = vlan_rx_tag b"
  "rss_hash (csum_join c b) = rss_hash b" "is_hash_l4 (csum_join c b) = is_hash_l4 b"
  by (simp_all add: csum_join_def next_ix_def page_def rss_hash_def is_hash_l4_def)

lemma csum_join_cleaned [simp]: "csum_join (set_cleaned c) b = csum_join c b"
  by (simp add: csum_join_def)

subsection \<open>What the walks do\<close>

definition clean_all :: "u32 list \<Rightarrow> aq_ring_s \<Rightarrow> aq_ring_s" where
  "clean_all is r = fold (\<lambda>i r. upd_buff r i set_cleaned) is r"

lemma rsc_drop_chain: "chain r cur is \<Longrightarrow> rsc_drop r cur = Some (clean_all is r)"
proof (induction "is" arbitrary: cur r)
  case (Cons i "is")
  have sl: "same_links r (upd_buff r i set_cleaned)" by (rule same_links_upd) simp_all
  have i: "next_of r cur = i" and e: "is_eop (buff_at r i) \<longleftrightarrow> is = []"
    and c: "is \<noteq> [] \<Longrightarrow> chain r i is" using Cons.prems by (auto split: if_splits)
  have step: "rsc_drop r cur = (if is = [] then Some (upd_buff r i set_cleaned)
      else rsc_drop (upd_buff r i set_cleaned) i)"
    using sl by (subst rsc_drop.simps) (simp add: i e same_links_def Let_def)
  show ?case
  proof (cases "is = []")
    case False
    then have "rsc_drop (upd_buff r i set_cleaned) i = Some (clean_all is (upd_buff r i set_cleaned))"
      by (intro Cons.IH) (simp add: chain_cong [OF sl] c)
    then show ?thesis using step False by (simp add: clean_all_def)
  qed (simp add: step clean_all_def)
qed simp

definition join_all :: "u32 \<Rightarrow> u32 list \<Rightarrow> aq_ring_s \<Rightarrow> aq_ring_s" where
  "join_all head is r =
     fold (\<lambda>i r. upd_buff (upd_buff r i set_cleaned) head (csum_join (buff_at (upd_buff r i set_cleaned) i))) is r"

definition frag_at :: "aq_ring_s \<Rightarrow> u32 \<Rightarrow> u64 \<times> u32 \<times> u32" where
  "frag_at r i = (page (buff_at r i), rx_pg_off (buff_at r i), ucast (len (buff_at r i)))"

definition same_pieces :: "aq_ring_s \<Rightarrow> aq_ring_s \<Rightarrow> bool" where
  "same_pieces r r' \<longleftrightarrow> (\<forall>i. frag_at r' i = frag_at r i)"

lemma same_pieces_upd:
  assumes "\<And>b. page (f b) = page b" "\<And>b. rx_pg_off (f b) = rx_pg_off b" "\<And>b. len (f b) = len b"
  shows "same_pieces r (upd_buff r i f)"
  by (simp add: same_pieces_def frag_at_def buff_at_upd assms)

definition ref_all :: "aq_ring_s \<Rightarrow> u32 list \<Rightarrow> kern \<Rightarrow> kern" where
  "ref_all r is k = fold page_ref_inc (map (\<lambda>i. page (buff_at r i)) is) k"

lemma rsc_frags_chain:
  assumes "chain r cur is" "length (sk_frags s) = n"
  shows "rsc_frags r k s n head cur =
    Some (join_all head is r, ref_all r is k,
      s\<lparr>sk_frags := sk_frags s @ map (\<lambda>i. Some (frag_at r i)) is,
        sk_len := sk_len s + (\<Sum>i\<leftarrow>is. ucast (len (buff_at r i)))\<rparr>)"
  using assms
proof (induction "is" arbitrary: cur r k s n)
  case (Cons i "is")
  let ?b = "buff_at r i"
  define r1 where "r1 = upd_buff (upd_buff r i set_cleaned) head (csum_join (buff_at (upd_buff r i set_cleaned) i))"
  define s1 where "s1 = skb_add_rx_frag n (page ?b) (rx_pg_off ?b) (ucast (len ?b)) s"
  define k1 where "k1 = page_ref_inc (page ?b) k"
  have i: "next_of r cur = i" and eop: "is_eop ?b \<longleftrightarrow> is = []" and c: "is \<noteq> [] \<Longrightarrow> chain r i is"
    using Cons.prems(1) by (auto split: if_splits)
  have sl: "same_links r r1" unfolding r1_def
    by (rule same_links_trans; rule same_links_upd) simp_all
  have sp: "same_pieces r r1"
    unfolding r1_def same_pieces_def frag_at_def by (simp add: buff_at_upd)
  have s1: "sk_frags s1 = sk_frags s @ [Some (frag_at r i)]" "sk_len s1 = sk_len s + ucast (len ?b)"
    "s1 = s\<lparr>sk_frags := sk_frags s1, sk_len := sk_len s1\<rparr>"
    using Cons.prems(2) by (simp_all add: s1_def skb_add_rx_frag_def frag_at_def)
  have e: "is_eop (buff_at r1 i) = is_eop ?b" using sl by (simp add: same_links_def)
  have step: "rsc_frags r k s n head cur =
    (if is_eop ?b then Some (r1, k1, s1) else rsc_frags r1 k1 s1 (Suc n) head i)"
    by (subst rsc_frags.simps) (simp add: i Let_def e [unfolded r1_def] r1_def s1_def k1_def)
  show ?case
  proof (cases "is = []")
    case True
    have "Some (r1, k1, s1) = Some (join_all head [i] r, ref_all r [i] k,
      s\<lparr>sk_frags := sk_frags s @ [Some (frag_at r i)], sk_len := sk_len s + ucast (len ?b)\<rparr>)"
      using s1 by (simp add: join_all_def r1_def ref_all_def k1_def)
    then show ?thesis using step eop True by simp
  next
    case False
    have len: "(\<Sum>j\<leftarrow>is. ucast (len (buff_at r1 j))) = (\<Sum>j\<leftarrow>is. ucast (len (buff_at r j)) :: u32)"
      using sp by (intro arg_cong [where f = sum_list] map_cong) (simp_all add: same_pieces_def frag_at_def)
    have ref: "ref_all r1 is k1 = ref_all r is k1"
      using sp by (simp add: ref_all_def same_pieces_def frag_at_def)
    have "rsc_frags r1 k1 s1 (Suc n) head i = Some (join_all head is r1, ref_all r1 is k1,
      s1\<lparr>sk_frags := sk_frags s1 @ map (\<lambda>i. Some (frag_at r1 i)) is,
        sk_len := sk_len s1 + (\<Sum>j\<leftarrow>is. ucast (len (buff_at r1 j)))\<rparr>)"
      using False Cons.prems(2) by (intro Cons.IH) (simp_all add: chain_cong [OF sl] c s1(1))
    moreover have "\<not> is_eop ?b" using False eop by simp
    moreover have "join_all head is r1 = join_all head (i # is) r" by (simp add: join_all_def r1_def)
    moreover have "ref_all r is k1 = ref_all r (i # is) k" by (simp add: ref_all_def k1_def)
    ultimately show ?thesis
      using step len ref s1 sp by (simp add: same_pieces_def add.assoc)
  qed
qed simp


text \<open>\<open>touched\<close>: only buffers and statistics of the ring have changed.\<close>

definition touched :: "aq_ring_s \<Rightarrow> aq_ring_s \<Rightarrow> bool" where
  "touched r r' \<longleftrightarrow> length (buff_ring r') = length (buff_ring r) \<and>
     r' = r\<lparr>buff_ring := buff_ring r', ring_stats := ring_stats r'\<rparr>"

lemma touched_refl [simp]: "touched r r"
  by (simp add: touched_def)

lemma touched_trans: "touched a b \<Longrightarrow> touched b c \<Longrightarrow> touched a c"
  by (cases a; cases b; cases c) (simp add: touched_def)

lemma touched_upd [simp]: "touched r (upd_buff r i f)" "touched r (upd_stats g r)" "touched r (count_error r)"
  by (simp_all add: touched_def upd_buff_def upd_stats_def count_error_def)

lemma touched_sel:
  "touched r r' \<Longrightarrow> sw_head r' = sw_head r \<and> sw_tail r' = sw_tail r \<and> hw_head r' = hw_head r \<and>
     ring_size r' = ring_size r \<and> ring_idx r' = ring_idx r \<and> dx_ring r' = dx_ring r \<and>
     length (buff_ring r') = length (buff_ring r)"
  by (cases r; cases r') (simp add: touched_def)

lemma touched_fold: "(\<And>i r. touched r (f i r)) \<Longrightarrow> touched r (fold f is r)"
  by (induction "is" arbitrary: r) (auto intro: touched_trans)

lemma touched_clean_all: "touched r (clean_all is r)"
  unfolding clean_all_def by (rule touched_fold) simp

lemma touched_join_all: "touched r (join_all head is r)"
  unfolding join_all_def by (rule touched_fold) (rule touched_trans [OF touched_upd(1) touched_upd(1)])

lemma buff_at_stats [simp]: "buff_at (upd_stats g r) i = buff_at r i" "buff_at (count_error r) i = buff_at r i"
  by (simp_all add: buff_at_def upd_stats_def count_error_def)

definition ring_len_ok :: "aq_ring_s \<Rightarrow> bool" where
  "ring_len_ok r \<longleftrightarrow> length (buff_ring r) = unat (ring_size r)"

lemma ring_len_ok_touched: "touched r r' \<Longrightarrow> ring_len_ok r \<Longrightarrow> ring_len_ok r'"
  using touched_sel [of r r'] by (simp add: ring_len_ok_def)

lemma clean_all_at:
  "ring_len_ok r \<Longrightarrow> (\<forall>i \<in> set is. i < ring_size r) \<Longrightarrow>
   buff_at (clean_all is r) j = (if j \<in> set is then set_cleaned (buff_at r j) else buff_at r j)"
proof (induction "is" arbitrary: r)
  case (Cons i "is")
  have "ring_len_ok (upd_buff r i set_cleaned)" by (rule ring_len_ok_touched [OF _ Cons.prems(1)]) simp
  then show ?case
    using Cons.IH [of "upd_buff r i set_cleaned"] Cons.prems
    by (simp add: clean_all_def buff_at_upd_in ring_len_ok_def set_cleaned_def)
qed (simp add: clean_all_def)

lemma join_all_at:
  assumes "ring_len_ok r" "\<forall>i \<in> set is. i < ring_size r" "head < ring_size r" "head \<notin> set is"
  shows "buff_at (join_all head is r) j =
    (if j = head then fold csum_join (map (buff_at r) is) (buff_at r head)
     else if j \<in> set is then set_cleaned (buff_at r j) else buff_at r j)"
  using assms
proof (induction "is" arbitrary: r)
  case (Cons i "is")
  let ?r0 = "upd_buff r i set_cleaned"
  define r1 where "r1 = upd_buff ?r0 head (csum_join (buff_at ?r0 i))"
  have l: "length (buff_ring r) = unat (ring_size r)" using Cons.prems(1) by (simp add: ring_len_ok_def)
  have t: "touched r r1" unfolding r1_def by (rule touched_trans [OF touched_upd(1) touched_upd(1)])
  note ts = touched_sel [OF t]
  have at1: "buff_at r1 j = (if j = head then csum_join (buff_at r i) (buff_at r head)
      else if j = i then set_cleaned (buff_at r j) else buff_at r j)" for j
    using Cons.prems l by (simp add: r1_def buff_at_upd_in)
  have "buff_at (join_all head is r1) j =
    (if j = head then fold csum_join (map (buff_at r1) is) (buff_at r1 head)
     else if j \<in> set is then set_cleaned (buff_at r1 j) else buff_at r1 j)"
    using Cons.prems ts ring_len_ok_touched [OF t] by (intro Cons.IH) auto
  moreover have "fold csum_join (map (buff_at r1) is) b = fold csum_join (map (buff_at r) is) b" for b
  proof -
    have "head \<notin> set is" using Cons.prems by simp
    then show ?thesis
      by (induction "is" arbitrary: b) (auto simp: at1)
  qed
  ultimately show ?case
    by (simp add: join_all_def r1_def [symmetric] at1) (simp add: set_cleaned_def)
qed (simp add: join_all_def)

subsection \<open>The bytes of a packet\<close>

text \<open>A byte is named by its page and its offset; a piece is a run of bytes.\<close>

definition piece_bytes :: "u64 \<Rightarrow> u32 \<Rightarrow> nat \<Rightarrow> (u64 \<times> u32) list" where
  "piece_bytes p off n = map (\<lambda>j. (p, off + of_nat j)) [0..<n]"

definition buff_bytes :: "aq_ring_buff_s \<Rightarrow> (u64 \<times> u32) list" where
  "buff_bytes b = piece_bytes (page b) (rx_pg_off b) (unat (len b))"

definition skb_bytes :: "rx_skb \<Rightarrow> (u64 \<times> u32) list" where
  "skb_bytes s = (case sk_linear s of (p, off, n) \<Rightarrow> piece_bytes p off (unat n)) @
     concat (map (\<lambda>f. case f of None \<Rightarrow> [] | Some (p, off, n) \<Rightarrow> piece_bytes p off (unat n)) (sk_frags s))"

lemma piece_bytes_append: "piece_bytes p off (m + n) = piece_bytes p off m @ piece_bytes p (off + of_nat m) n"
proof -
  have "[m..<m + n] = map (\<lambda>j. j + m) [0..<n]" by (subst add.commute) (rule map_add_upt [symmetric])
  moreover have "[0..<m + n] = [0..<m] @ [m..<m + n]" by (rule upt_add_eq_append) simp
  ultimately have "piece_bytes p off (m + n) = piece_bytes p off m @
      map (\<lambda>j. (p, off + of_nat (j + m))) [0..<n]"
    unfolding piece_bytes_def by (simp only: map_append map_map o_def)
  moreover have "off + of_nat (j + m) = off + of_nat m + of_nat j" for j by (simp add: add.assoc add.commute)
  ultimately show ?thesis by (simp add: piece_bytes_def)
qed

lemma unat_u16_u32 [simp]: "unat (ucast (x :: u16) :: u32) = unat x"
  using unat_u16_less [of x] by (simp add: unsigned_ucast_eq take_bit_nat_eq_self)

definition csums_vouched :: "napi_s \<Rightarrow> aq_ring_buff_s list \<Rightarrow> nat" where
  "csums_vouched napi bs =
     (if \<not> ndev_rxcsum napi \<or> (\<exists>b \<in> set bs. is_cso_err b) then 0
      else of_bool (\<forall>b \<in> set bs. is_ip_cso b) +
        of_bool ((\<forall>b \<in> set bs. is_udp_cso b) \<or> (\<forall>b \<in> set bs. is_tcp_cso b)))"

text \<open>
  \<open>carries napi q bs s\<close>: the socket buffer \<open>s\<close> holds exactly the bytes of the buffers \<open>bs\<close>, in
  order, no fragment slot is left open, and tag, hash and checksum state are those of \<open>bs\<close>.
\<close>

definition carries :: "napi_s \<Rightarrow> u32 \<Rightarrow> aq_ring_buff_s list \<Rightarrow> rx_skb \<Rightarrow> bool" where
  "carries napi q bs s \<longleftrightarrow>
     skb_bytes s = concat (map buff_bytes bs) \<and> None \<notin> set (sk_frags s) \<and> sk_pad s = 0 \<and>
     sk_len s = (\<Sum>b\<leftarrow>bs. ucast (len b)) \<and>
     sk_vlan s = (if is_vlan (hd bs) then Some (vlan_rx_tag (hd bs)) else None) \<and>
     sk_hash s = rss_hash (hd bs) \<and> (sk_hash_l4 s \<longleftrightarrow> is_hash_l4 (hd bs) \<noteq> 0) \<and>
     sk_csums s = csums_vouched napi bs \<and> sk_queue s = q"

definition napi_ok :: "napi_s \<Rightarrow> bool" where
  "napi_ok napi \<longleftrightarrow> (\<forall>p off. eth_headlen napi p off \<le> AQ_CFG_RX_HDR_SIZE) \<and> AQ_SKB_ALIGN napi \<le> 1024"

lemma fold_csum_join:
  "is_ip_cso (fold csum_join bs b) \<longleftrightarrow> is_ip_cso b \<and> (\<forall>c \<in> set bs. is_ip_cso c)"
  "is_udp_cso (fold csum_join bs b) \<longleftrightarrow> is_udp_cso b \<and> (\<forall>c \<in> set bs. is_udp_cso c)"
  "is_tcp_cso (fold csum_join bs b) \<longleftrightarrow> is_tcp_cso b \<and> (\<forall>c \<in> set bs. is_tcp_cso c)"
  "is_cso_err (fold csum_join bs b) \<longleftrightarrow> is_cso_err b \<or> (\<exists>c \<in> set bs. is_cso_err c)"
  "is_vlan (fold csum_join bs b) = is_vlan b" "vlan_rx_tag (fold csum_join bs b) = vlan_rx_tag b"
  "rss_hash (fold csum_join bs b) = rss_hash b" "is_hash_l4 (fold csum_join bs b) = is_hash_l4 b"
  "is_eop (fold csum_join bs b) = is_eop b" "next_ix (fold csum_join bs b) = next_ix b"
  by (induction bs arbitrary: b) (auto simp: csum_join_def next_ix_def rss_hash_def is_hash_l4_def)


subsection \<open>What becomes of one packet\<close>

text \<open>The finishing step: the buffer at the head decides tag, hash and checksum state.\<close>

lemma skb_finish_spec:
  assumes "skb_finish None napi r head s = (r', napi')" "sk_vlan s = None" "sk_csums s = 0"
  shows "touched r r' \<and> (\<forall>i. buff_at r' i = buff_at r i) \<and>
    (\<exists>s'. napi' = napi\<lparr>received := received napi @ [s']\<rparr> \<and> sk_linear s' = sk_linear s \<and> sk_pad s' = sk_pad s \<and>
      sk_frags s' = sk_frags s \<and> sk_len s' = sk_len s \<and>
      sk_vlan s' = (if is_vlan (buff_at r head) then Some (vlan_rx_tag (buff_at r head)) else None) \<and>
      sk_hash s' = rss_hash (buff_at r head) \<and> (sk_hash_l4 s' \<longleftrightarrow> is_hash_l4 (buff_at r head) \<noteq> 0) \<and>
      sk_queue s' = ring_idx r \<and>
      sk_csums s' = (let b = buff_at r head in
        if \<not> ndev_rxcsum napi \<or> is_cso_err b then 0
        else of_bool (is_ip_cso b) + of_bool (is_udp_cso b \<or> is_tcp_cso b)))"
proof -
  let ?b = "buff_at r head"
  define s1 where "s1 = (if is_vlan ?b then s\<lparr>sk_vlan := Some (vlan_rx_tag ?b)\<rparr> else s)"
  obtain r2 s2 where c: "aq_rx_checksum napi ?b (r, s1) = (r2, s2)" by (metis prod.exhaust)
  have r2: "touched r r2" "\<And>i. buff_at r2 i = buff_at r i" "ring_idx r2 = ring_idx r"
    using c by (auto simp: aq_rx_checksum_def upd_stats_def touched_def buff_at_def Let_def split: if_splits)
  have s2: "sk_linear s2 = sk_linear s" "sk_pad s2 = sk_pad s" "sk_frags s2 = sk_frags s" "sk_len s2 = sk_len s"
    "sk_vlan s2 = (if is_vlan ?b then Some (vlan_rx_tag ?b) else None)"
    "sk_csums s2 = (if \<not> ndev_rxcsum napi \<or> is_cso_err ?b then 0
        else of_bool (is_ip_cso ?b) + of_bool (is_udp_cso ?b \<or> is_tcp_cso ?b))"
    using c assms(2,3) by (auto simp: aq_rx_checksum_def s1_def Let_def split: if_splits)
  define s3 where "s3 = s2\<lparr>sk_hash := rss_hash ?b, sk_hash_l4 := is_hash_l4 ?b \<noteq> 0, sk_queue := ring_idx r2\<rparr>"
  have "r' = upd_stats (\<lambda>st. st\<lparr>st_packets := st_packets st + 1, st_bytes := st_bytes st + ucast (eth_pull s3)\<rparr>) r2"
    "napi' = napi\<lparr>received := received napi @ [s3]\<rparr>"
    using assms(1) by (simp_all add: skb_finish_def s1_def [symmetric] c s3_def Let_def)
  then have fin: "touched r r'" "\<forall>i. buff_at r' i = buff_at r i" "napi' = napi\<lparr>received := received napi @ [s3]\<rparr>"
    using r2(2) touched_trans [OF r2(1) touched_upd(2)] by simp_all
  have "sk_linear s3 = sk_linear s2" "sk_pad s3 = sk_pad s2" "sk_frags s3 = sk_frags s2" "sk_len s3 = sk_len s2"
    "sk_vlan s3 = sk_vlan s2" "sk_csums s3 = sk_csums s2" "sk_hash s3 = rss_hash ?b"
    "sk_hash_l4 s3 \<longleftrightarrow> is_hash_l4 ?b \<noteq> 0" "sk_queue s3 = ring_idx r"
    by (simp_all add: s3_def r2(3))
  then show ?thesis
    using s2 by (intro conjI exI [of _ s3] fin) (simp_all only: Let_def)
qed

lemma skb_bytes_frags:
  "skb_bytes (s\<lparr>sk_frags := fs @ map (\<lambda>i. Some (frag_at r i)) is, sk_len := l\<rparr>) =
   skb_bytes (s\<lparr>sk_frags := fs\<rparr>) @ concat (map (\<lambda>i. buff_bytes (buff_at r i)) is)"
  by (simp add: skb_bytes_def frag_at_def buff_bytes_def o_def)

lemma skb_header_bytes:
  assumes "napi_ok napi" "AQ_CFG_RX_HDR_SIZE < len b"
  shows "skb_bytes (skb_header napi b) = buff_bytes b" "length (sk_frags (skb_header napi b)) = 1"
    "None \<notin> set (sk_frags (skb_header napi b))" "sk_pad (skb_header napi b) = 0"
    "sk_len (skb_header napi b) = ucast (len b)" "sk_vlan (skb_header napi b) = None"
    "sk_csums (skb_header napi b) = 0"
proof -
  define h where "h = eth_headlen napi (page b) (rx_pg_off b)"
  have h: "h \<le> 256" "h < len b" "\<not> len b < 60"
    using assms by (auto simp: napi_ok_def h_def AQ_CFG_RX_HDR_SIZE_def word_less_nat_alt word_le_nat_alt
        intro: le_less_trans)
  have d: "unat (len b - h) = unat (len b) - unat h" using h(2) by (simp add: unat_sub word_le_nat_alt word_less_nat_alt)
  have eq: "skb_header napi b =
    skb_add_rx_frag 0 (page b) (rx_pg_off b + ucast h) (ucast (len b - h)) (skb_start (page b) (rx_pg_off b) h)"
    using assms(2) h by (simp add: skb_header_def h_def [symmetric] AQ_CFG_RX_HDR_SIZE_def Let_def)
  have sp: "unat (len b) = unat h + (unat (len b) - unat h)" using h(2) by (simp add: word_less_nat_alt)
  have "buff_bytes b = piece_bytes (page b) (rx_pg_off b) (unat h) @
    piece_bytes (page b) (rx_pg_off b + of_nat (unat h)) (unat (len b) - unat h)"
    unfolding buff_bytes_def by (subst sp) (rule piece_bytes_append)
  moreover have "(of_nat (unat h) :: u32) = ucast h" by (simp add: unsigned_of_nat word_unat_eq_iff unsigned_ucast_eq)
  ultimately show "skb_bytes (skb_header napi b) = buff_bytes b"
    by (simp add: eq skb_bytes_def skb_add_rx_frag_def skb_start_def d)
  have "(ucast h + ucast (len b - h) :: u32) = ucast (len b)"
    using h(2) d unat_u16_less [of "len b"] by (simp add: word_unat_eq_iff unat_word_ariths word_less_nat_alt)
  then show "sk_len (skb_header napi b) = ucast (len b)"
    by (simp add: eq skb_add_rx_frag_def skb_start_def)
  show "length (sk_frags (skb_header napi b)) = 1" "None \<notin> set (sk_frags (skb_header napi b))"
    "sk_pad (skb_header napi b) = 0" "sk_vlan (skb_header napi b) = None" "sk_csums (skb_header napi b) = 0"
    by (simp_all add: eq skb_add_rx_frag_def skb_start_def)
qed

text \<open>
  The packet made of the buffer at \<open>h\<close> and the chain \<open>is\<close> behind it (no chain when it ends
  at \<open>h\<close>).
\<close>

definition packet_at :: "aq_ring_s \<Rightarrow> u32 \<Rightarrow> u32 list \<Rightarrow> bool" where
  "packet_at r h is \<longleftrightarrow> h < ring_size r \<and> (\<forall>i \<in> set is. i < ring_size r) \<and> h \<notin> set is \<and>
     (if is = [] then is_eop (buff_at r h) else \<not> is_eop (buff_at r h) \<and> chain r h is)"

definition took :: "napi_s \<Rightarrow> rx_skb \<Rightarrow> napi_s" where
  "took napi s = napi\<lparr>skb_calls := Suc (skb_calls napi), received := received napi @ [s]\<rparr>"

lemma upd_buff_same: "upd_buff r i (\<lambda>b. b\<lparr>len := hook_len None b\<rparr>) = r"
  by (simp add: upd_buff_def hook_len_def)

lemma rx_deliver_spec:
  assumes "ring_len_ok r" "packet_at r h is" "napi_ok napi" "skb_answer napi (skb_calls napi)"
    and "is \<noteq> [] \<Longrightarrow> AQ_CFG_RX_HDR_SIZE < len (buff_at r h)"
  shows "\<exists>r' s. rx_deliver None r k napi h = Some (None, r', ref_all r (h # is) k, took napi s) \<and>
    touched r r' \<and> carries napi (ring_idx r) (map (buff_at r) (h # is)) s \<and>
    (\<forall>j. j \<noteq> h \<longrightarrow> buff_at r' j = (if j \<in> set is then set_cleaned (buff_at r j) else buff_at r j)) \<and>
    buff_at r' h = fold csum_join (map (buff_at r) is) (buff_at r h)"
proof -
  let ?b = "buff_at r h" and ?napi = "napi\<lparr>skb_calls := Suc (skb_calls napi)\<rparr>"
  have vouch: "csums_vouched napi (map (buff_at r) (h # is)) =
    (let b = fold csum_join (map (buff_at r) is) ?b in
     if \<not> ndev_rxcsum napi \<or> is_cso_err b then 0
     else of_bool (is_ip_cso b) + of_bool (is_udp_cso b \<or> is_tcp_cso b))"
    by (simp add: csums_vouched_def fold_csum_join Let_def)
  have nap: "napi_ok ?napi" using assms(3) by (simp add: napi_ok_def)
  define body where "body = (if skb_in_place napi ?b
      then Some (r, page_ref_inc (page ?b) k, skb_start (page ?b) (rx_pg_off ?b) (len ?b))
      else skb_body r k ?napi h)"
  have "\<exists>r1 s. body = Some (r1, ref_all r (h # is) k, s) \<and> touched r r1 \<and>
    (\<forall>j. j \<noteq> h \<longrightarrow> buff_at r1 j = (if j \<in> set is then set_cleaned (buff_at r j) else buff_at r j)) \<and>
    buff_at r1 h = fold csum_join (map (buff_at r) is) ?b \<and>
    skb_bytes s = concat (map buff_bytes (map (buff_at r) (h # is))) \<and> None \<notin> set (sk_frags s) \<and> sk_pad s = 0 \<and>
    sk_len s = (\<Sum>b\<leftarrow>map (buff_at r) (h # is). ucast (len b)) \<and> sk_vlan s = None \<and> sk_csums s = 0"
  proof (cases "skb_in_place napi ?b")
    case True
    then have "is = []" using assms(2) by (auto simp: packet_at_def skb_in_place_def split: if_splits)
    then show ?thesis using True
      by (intro exI [of _ r] exI [of _ "skb_start (page ?b) (rx_pg_off ?b) (len ?b)"])
        (simp add: body_def ref_all_def skb_start_def skb_bytes_def buff_bytes_def)
  next
    case False
    have big: "AQ_CFG_RX_HDR_SIZE < len ?b"
    proof (cases "is = []")
      case True
      then have "\<not> ucast (len ?b) \<le> AQ_CFG_RX_FRAME_MAX - AQ_SKB_ALIGN napi"
        using False assms(2) by (auto simp: packet_at_def skb_in_place_def)
      moreover have "1024 \<le> unat (AQ_CFG_RX_FRAME_MAX - AQ_SKB_ALIGN napi)"
      proof -
        have a: "unat (AQ_SKB_ALIGN napi) \<le> 1024" using assms(3) by (auto simp: napi_ok_def word_le_nat_alt)
        then have "AQ_SKB_ALIGN napi \<le> AQ_CFG_RX_FRAME_MAX" by (simp add: AQ_CFG_RX_FRAME_MAX_def word_le_nat_alt)
        then have "unat (AQ_CFG_RX_FRAME_MAX - AQ_SKB_ALIGN napi) = 2048 - unat (AQ_SKB_ALIGN napi)"
          by (simp add: unat_sub AQ_CFG_RX_FRAME_MAX_def)
        then show ?thesis using a by linarith
      qed
      ultimately have "1024 < unat (ucast (len ?b) :: u32)" by (simp only: word_le_nat_alt)
      then show ?thesis by (simp add: AQ_CFG_RX_HDR_SIZE_def word_less_nat_alt)
    qed (rule assms(5))
    define s0 where "s0 = skb_header ?napi ?b"
    note hd = skb_header_bytes [OF nap big, folded s0_def]
    have nf: "sk_frags s0 \<noteq> []" using hd(2) by auto
    show ?thesis
    proof (cases "is = []")
      case True
      then have "body = Some (r, page_ref_inc (page ?b) k, s0)"
        using False assms(2) nf by (simp add: body_def skb_body_def s0_def packet_at_def Let_def)
      then show ?thesis using True hd by (intro exI [of _ r] exI [of _ s0]) (simp add: ref_all_def)
    next
      case ch: False
      then have c: "chain r h is" "\<not> is_eop ?b" "h < ring_size r" "\<forall>i \<in> set is. i < ring_size r" "h \<notin> set is"
        using assms(2) by (auto simp: packet_at_def)
      define s1 where "s1 = s0\<lparr>sk_frags := sk_frags s0 @ map (\<lambda>i. Some (frag_at r i)) is,
        sk_len := sk_len s0 + (\<Sum>i\<leftarrow>is. ucast (len (buff_at r i)))\<rparr>"
      have "body = Some (join_all h is r, ref_all r is (page_ref_inc (page ?b) k), s1)"
        using False c(2) nf rsc_frags_chain [OF c(1) hd(2)]
        by (simp add: body_def skb_body_def s0_def [symmetric] s1_def Let_def)
      moreover have "ref_all r is (page_ref_inc (page ?b) k) = ref_all r (h # is) k" by (simp add: ref_all_def)
      moreover have "skb_bytes s1 = concat (map buff_bytes (map (buff_at r) (h # is)))"
        using hd(1) by (simp add: s1_def skb_bytes_frags o_def)
      moreover have "None \<notin> set (sk_frags s1)" "sk_pad s1 = 0" "sk_vlan s1 = None" "sk_csums s1 = 0"
        "sk_len s1 = (\<Sum>b\<leftarrow>map (buff_at r) (h # is). ucast (len b))"
        using hd by (auto simp: s1_def o_def)
      ultimately show ?thesis
        using touched_join_all [of r h "is"] join_all_at [OF assms(1) c(4,3,5)] by auto
    qed
  qed
  then obtain r1 s where b: "body = Some (r1, ref_all r (h # is) k, s)" "touched r r1"
    "\<forall>j. j \<noteq> h \<longrightarrow> buff_at r1 j = (if j \<in> set is then set_cleaned (buff_at r j) else buff_at r j)"
    "buff_at r1 h = fold csum_join (map (buff_at r) is) ?b"
    "skb_bytes s = concat (map buff_bytes (map (buff_at r) (h # is)))" "None \<notin> set (sk_frags s)" "sk_pad s = 0"
    "sk_len s = (\<Sum>b\<leftarrow>map (buff_at r) (h # is). ucast (len b))" "sk_vlan s = None" "sk_csums s = 0" by blast
  obtain r2 napi2 where f: "skb_finish None ?napi r1 h s = (r2, napi2)" by (metis prod.exhaust)
  from skb_finish_spec [OF f b(9,10)] obtain s' where s': "touched r1 r2" "\<forall>i. buff_at r2 i = buff_at r1 i"
    "napi2 = ?napi\<lparr>received := received ?napi @ [s']\<rparr>" "sk_linear s' = sk_linear s" "sk_pad s' = sk_pad s"
    "sk_frags s' = sk_frags s" "sk_len s' = sk_len s"
    "sk_vlan s' = (if is_vlan (buff_at r1 h) then Some (vlan_rx_tag (buff_at r1 h)) else None)"
    "sk_hash s' = rss_hash (buff_at r1 h)" "sk_hash_l4 s' \<longleftrightarrow> is_hash_l4 (buff_at r1 h) \<noteq> 0"
    "sk_queue s' = ring_idx r1"
    "sk_csums s' = (let b = buff_at r1 h in
        if \<not> ndev_rxcsum ?napi \<or> is_cso_err b then 0
        else of_bool (is_ip_cso b) + of_bool (is_udp_cso b \<or> is_tcp_cso b))" by blast
  have "skb_bytes s' = skb_bytes s" by (simp add: skb_bytes_def s'(4,6))
  then have "carries napi (ring_idx r) (map (buff_at r) (h # is)) s'"
    unfolding carries_def vouch using b s' touched_sel [OF b(2)] by (simp add: fold_csum_join)
  moreover have "rx_deliver None r k napi h = Some (None, r2, ref_all r (h # is) k, took napi s')"
    using assms(4) b(1) f s'(3)
    by (simp add: rx_deliver_def alloc_skb_def upd_buff_same body_def [symmetric] took_def Let_def)
  ultimately show ?thesis using s'(1,2) b(2-4) touched_trans by (intro exI [of _ r2] exI [of _ s']) auto
qed


definition rx_ok :: "aq_ring_s \<Rightarrow> bool" where
  "rx_ok r \<longleftrightarrow> sw_head r < ring_size r \<and> hw_head r < ring_size r \<and> ring_len_ok r"

definition ahead :: "aq_ring_s \<Rightarrow> u32 \<Rightarrow> nat" where
  "ahead r i = ring.gap (ring_size r) (sw_head r) i"

lemma in_pending_iff:
  "rx_ok r \<Longrightarrow> sw_head r \<noteq> hw_head r \<Longrightarrow> i < ring_size r \<Longrightarrow>
   in_pending r i \<longleftrightarrow> 0 < ahead r i \<and> ahead r i < ahead r (hw_head r)"
  by (simp add: in_pending_def ahead_def rx_ok_def dx_in_range_iff)

text \<open>
  \<open>links_ok\<close>: a link that points into the pending part of the ring points to a place of the
  ring further on. The driver's own links do, those of the chip are expected to.
\<close>

definition links_ok :: "aq_ring_s \<Rightarrow> bool" where
  "links_ok r \<longleftrightarrow> (\<forall>i < ring_size r. i = sw_head r \<or> in_pending r i \<longrightarrow> \<not> is_eop (buff_at r i) \<longrightarrow>
     in_pending r (next_of r i) \<longrightarrow> next_of r i < ring_size r \<and> ahead r i < ahead r (next_of r i))"

lemma chain_or_break:
  assumes "rx_ok r" "links_ok r" "sw_head r \<noteq> hw_head r" "cur < ring_size r"
    and "cur = sw_head r \<or> in_pending r cur" "\<not> is_eop (buff_at r cur)"
  shows "(\<exists>is. is \<noteq> [] \<and> chain r cur is \<and> (\<forall>i \<in> set is. in_pending r i \<and> i < ring_size r \<and> ahead r cur < ahead r i)) \<or>
    (\<forall>e. \<exists>e'. rsc_scan r cur e = Some (False, e'))"
  using assms(4-6)
proof (induction "ahead r (hw_head r) - ahead r cur" arbitrary: cur rule: less_induct)
  case less
  let ?n = "next_of r cur"
  show ?case
  proof (cases "in_pending r ?n")
    case False
    then have "rsc_scan r cur e = Some (False, e)" for e
      by (subst rsc_scan.simps) (simp add: in_pending_def)
    then show ?thesis by blast
  next
    case True
    then have n: "?n < ring_size r" "ahead r cur < ahead r ?n"
      using assms(2) less.prems by (auto simp: links_ok_def)
    show ?thesis
    proof (cases "is_eop (buff_at r ?n)")
      case eop: True
      then show ?thesis using True n by (intro disjI1 exI [of _ "[?n]"]) auto
    next
      case False
      have "ahead r ?n < ahead r (hw_head r)" using True n(1) assms(1,3) by (simp add: in_pending_iff)
      then have "ahead r (hw_head r) - ahead r ?n < ahead r (hw_head r) - ahead r cur" using n(2) by linarith
      note IH = less.hyps [OF this n(1) _ False]
      show ?thesis
      proof (cases "\<exists>is. is \<noteq> [] \<and> chain r ?n is \<and> (\<forall>i \<in> set is. in_pending r i \<and> i < ring_size r \<and> ahead r ?n < ahead r i)")
        case ch: True
        then obtain "is" where i: "is \<noteq> []" "chain r ?n is"
          "\<forall>i \<in> set is. in_pending r i \<and> i < ring_size r \<and> ahead r ?n < ahead r i" by blast
        then show ?thesis using True False n
          by (intro disjI1 exI [of _ "?n # is"]) (auto intro: less_trans)
      next
        case nch: False
        then have "\<forall>e. \<exists>e'. rsc_scan r ?n e = Some (False, e')" using IH True by blast
        moreover have "rsc_scan r cur e = rsc_scan r ?n (e \<or> is_error (buff_at r ?n))" for e
          using True False by (subst rsc_scan.simps) (simp add: in_pending_def Let_def)
        ultimately show ?thesis by auto
      qed
    qed
  qed
qed

text \<open>The packet at the head is whole, or it is not all there yet.\<close>

lemma head_cases:
  assumes "rx_ok r" "links_ok r" "sw_head r \<noteq> hw_head r"
  obtains (whole) "is" where "packet_at r (sw_head r) is" "\<forall>i \<in> set is. in_pending r i"
  | (part) "\<not> is_eop (buff_at r (sw_head r))" "\<forall>e. \<exists>e'. rsc_scan r (sw_head r) e = Some (False, e')"
proof (cases "is_eop (buff_at r (sw_head r))")
  case True
  then show ?thesis using assms(1) by (intro whole [of "[]"]) (auto simp: packet_at_def rx_ok_def)
next
  case False
  have h: "sw_head r < ring_size r" using assms(1) by (simp add: rx_ok_def)
  have z: "ahead r (sw_head r) = 0" using h by (simp add: ahead_def ring.gap_0_iff)
  from chain_or_break [OF assms h disjI1 [OF refl] False] show ?thesis
  proof (elim disjE exE conjE)
    fix "is" assume i: "is \<noteq> []" "chain r (sw_head r) is"
      "\<forall>i\<in>set is. in_pending r i \<and> i < ring_size r \<and> ahead r (sw_head r) < ahead r i"
    then have "packet_at r (sw_head r) is" using False h z by (auto simp: packet_at_def)
    then show ?thesis using i by (intro whole) auto
  qed (auto intro: part [OF False])
qed

text \<open>What one round of the loop can do, whatever the allocations.\<close>

definition kept :: "aq_ring_s \<Rightarrow> aq_ring_s \<Rightarrow> bool" where
  "kept r r' \<longleftrightarrow> touched r r' \<and> same_links r r' \<and> same_pieces r r'"

lemma kept_refl [simp]: "kept r r"
  by (simp add: kept_def same_links_def same_pieces_def)

lemma kept_trans: "kept a b \<Longrightarrow> kept b c \<Longrightarrow> kept a c"
  unfolding kept_def by (auto intro: touched_trans simp: same_links_def same_pieces_def)

lemma kept_upd:
  "(\<And>b. next_ix (f b) = next_ix b \<and> is_eop (f b) = is_eop b \<and> page (f b) = page b \<and>
     rx_pg_off (f b) = rx_pg_off b \<and> len (f b) = len b) \<Longrightarrow> kept r (upd_buff r i f)"
  by (simp add: kept_def same_links_upd same_pieces_upd)

lemma kept_stats [simp]: "kept r (upd_stats g r)" "kept r (count_error r)"
  by (simp_all add: kept_def same_links_def same_pieces_def next_of_def frag_at_def)

lemma kept_clean_all: "kept r (clean_all is r)"
  unfolding clean_all_def
proof (induction "is" arbitrary: r)
  case (Cons i "is")
  have "kept r (upd_buff r i set_cleaned)" by (rule kept_upd) simp
  then show ?case using Cons kept_trans by fastforce
qed simp

definition set_err :: "bool \<Rightarrow> aq_ring_buff_s \<Rightarrow> aq_ring_buff_s" where
  "set_err e b = b\<lparr>is_error := e\<rparr>"

lemma set_err_sel [simp]:
  "next_ix (set_err e b) = next_ix b" "is_eop (set_err e b) = is_eop b" "page (set_err e b) = page b"
  "rx_pg_off (set_err e b) = rx_pg_off b" "len (set_err e b) = len b" "is_error (set_err e b) = e"
  "is_cleaned (set_err e b) = is_cleaned b"
  by (simp_all add: set_err_def next_ix_def page_def)

lemma set_err_id [simp]: "is_error b = e \<Longrightarrow> set_err e b = b"
  by (simp add: set_err_def)

lemma kept_err: "kept r (upd_buff r i (set_err e))"
  by (rule kept_upd) simp

lemma packet_at_kept: "kept r r' \<Longrightarrow> packet_at r' h is = packet_at r h is"
  using touched_sel [of r r'] chain_cong [of r r'] by (auto simp: kept_def packet_at_def same_links_def)

definition long_heads :: "aq_ring_s \<Rightarrow> bool" where
  "long_heads r \<longleftrightarrow> (\<forall>i < ring_size r. \<not> is_eop (buff_at r i) \<longrightarrow> AQ_CFG_RX_HDR_SIZE < len (buff_at r i))"

lemma rx_clean_packet_cases:
  assumes "rx_ok r" "links_ok r" "sw_head r \<noteq> hw_head r" "rx_clean_packet None r k napi = res"
    and "napi_ok napi" "long_heads r"
  obtains (skip) "is_cleaned (buff_at r (sw_head r))" "res = Some (None, r, k, napi)"
  | (part) r' where "\<not> is_cleaned (buff_at r (sw_head r))" "\<not> is_eop (buff_at r (sw_head r))"
      "\<forall>e. \<exists>e'. rsc_scan r (sw_head r) e = Some (False, e')" "res = Some (Some 0, r', k, napi)" "kept r r'"
  | (drop) "is" r' where "\<not> is_cleaned (buff_at r (sw_head r))" "packet_at r (sw_head r) is"
      "\<forall>i \<in> set is. in_pending r i" "\<exists>i \<in> set (sw_head r # is). is_error (buff_at r i)" "res = Some (None, r', k, napi)" "kept r r'"
      "\<forall>j. j \<noteq> sw_head r \<longrightarrow> buff_at r' j = (if j \<in> set is then set_cleaned (buff_at r j) else buff_at r j)"
  | (deliver) "is" r' s where "\<not> is_cleaned (buff_at r (sw_head r))" "packet_at r (sw_head r) is"
      "\<forall>i \<in> set is. in_pending r i" "\<forall>i \<in> set (sw_head r # is). \<not> is_error (buff_at r i)" "skb_answer napi (skb_calls napi)"
      "res = Some (None, r', ref_all r (sw_head r # is) k, took napi s)" "kept r r'"
      "carries napi (ring_idx r) (map (buff_at r) (sw_head r # is)) s"
      "\<forall>j. j \<noteq> sw_head r \<longrightarrow> buff_at r' j = (if j \<in> set is then set_cleaned (buff_at r j) else buff_at r j)"
  | (nomem) r' where "\<not> is_cleaned (buff_at r (sw_head r))" "\<not> skb_answer napi (skb_calls napi)"
      "res = Some (Some (- ENOMEM), r', k, napi\<lparr>skb_calls := Suc (skb_calls napi)\<rparr>)" "kept r r'"
proof (cases "is_cleaned (buff_at r (sw_head r))")
  case True
  then show ?thesis using assms(4) by (intro skip) (simp_all add: rx_clean_packet_def Let_def)
next
  case nc: False
  let ?h = "sw_head r"
  have len: "ring_len_ok r" "?h < ring_size r" using assms(1) by (auto simp: rx_ok_def)
  have seterr: "(\<lambda>b. b\<lparr>is_error := e\<rparr>) = set_err e" for e by (rule ext) (simp add: set_err_def)
  show ?thesis
  proof (cases rule: head_cases [OF assms(1-3), case_names whole part])
    case part0: part
    then obtain e' where e': "rsc_scan r ?h (is_error (buff_at r ?h)) = Some (False, e')" by blast
    have "res = Some (Some 0, upd_buff r ?h (set_err e'), k, napi)"
      using assms(4) nc part0(1) e' by (simp add: rx_clean_packet_def seterr Let_def)
    then show ?thesis using nc part0 kept_err by (intro part)
  next
    case (whole "is")
    define bad where "bad \<longleftrightarrow> (\<exists>i \<in> set (?h # is). is_error (buff_at r i))"
    define r0 where "r0 = (if is = [] then r else upd_buff r ?h (set_err bad))"
    have k0: "kept r r0" by (simp add: r0_def kept_err)
    have p0: "packet_at r0 ?h is" using whole(1) packet_at_kept [OF k0] by simp
    have at0: "buff_at r0 j = (if j = ?h \<and> is \<noteq> [] then set_err bad (buff_at r j) else buff_at r j)" for j
      using len by (simp add: r0_def ring_len_ok_def buff_at_upd_in)
    have l0: "ring_len_ok r0" using k0 len(1) by (auto simp: kept_def intro: ring_len_ok_touched)
    have rng: "\<forall>i \<in> set is. i < ring_size r0" "sw_head r0 = ?h" "ring_size r0 = ring_size r" "ring_idx r0 = ring_idx r"
      using p0 touched_sel [of r r0] k0 by (auto simp: packet_at_def kept_def)
    have nh: "?h \<notin> set is" using p0 by (simp add: packet_at_def)
    have red: "rx_clean_packet None r k napi = (if bad
      then Some (None, count_error (clean_all is r0), k, napi) else rx_deliver None r0 k napi ?h)"
    proof (cases "is = []")
      case True
      then have "is_eop (buff_at r ?h)" using whole(1) by (simp add: packet_at_def)
      then show ?thesis using True nc
        by (simp add: rx_clean_packet_def bad_def r0_def clean_all_def Let_def)
    next
      case False
      then have c: "\<not> is_eop (buff_at r ?h)" "chain r ?h is" "chain r0 ?h is"
        using whole(1) p0 by (auto simp: packet_at_def)
      have sc: "rsc_scan r ?h (is_error (buff_at r ?h)) = Some (True, bad)"
        using rsc_scan_chain [OF c(2) whole(2)] by (simp add: bad_def)
      show ?thesis
        using False nc c(1) sc rsc_drop_chain [OF c(3)]
        by (cases bad) (simp_all add: rx_clean_packet_def seterr r0_def Let_def)
    qed
    show ?thesis
    proof (cases bad)
      case True
      have "kept r (count_error (clean_all is r0))"
        by (rule kept_trans [OF k0 kept_trans [OF kept_clean_all kept_stats(2)]])
      moreover have "\<forall>j. j \<noteq> ?h \<longrightarrow> buff_at (count_error (clean_all is r0)) j =
          (if j \<in> set is then set_cleaned (buff_at r j) else buff_at r j)"
        using clean_all_at [OF l0 rng(1)] by (simp add: at0)
      ultimately show ?thesis
        using True nc whole red assms(4) by (intro drop [of "is" "count_error (clean_all is r0)"]) (auto simp: bad_def)
    next
      case False
      show ?thesis
      proof (cases "skb_answer napi (skb_calls napi)")
        case ans: False
        then have "res = Some (Some (- ENOMEM), r0, k, napi\<lparr>skb_calls := Suc (skb_calls napi)\<rparr>)"
          using False red assms(4) by (simp add: rx_deliver_def alloc_skb_def Let_def)
        then show ?thesis using ans nc k0 by (intro nomem)
      next
        case ans: True
        have id0: "buff_at r0 = buff_at r" using False by (intro ext) (simp add: at0 bad_def)
        have "is \<noteq> [] \<Longrightarrow> AQ_CFG_RX_HDR_SIZE < len (buff_at r0 ?h)"
          using whole(1) len assms(6) by (auto simp: id0 packet_at_def long_heads_def)
        from rx_deliver_spec [OF l0 p0 assms(5) ans this, of k]
        obtain r' s where d: "rx_deliver None r0 k napi ?h = Some (None, r', ref_all r0 (?h # is) k, took napi s)"
          "touched r0 r'" "carries napi (ring_idx r0) (map (buff_at r0) (?h # is)) s"
          "\<forall>j. j \<noteq> ?h \<longrightarrow> buff_at r' j = (if j \<in> set is then set_cleaned (buff_at r0 j) else buff_at r0 j)"
          "buff_at r' ?h = fold csum_join (map (buff_at r0) is) (buff_at r0 ?h)" by blast
        have fl: "page (fold csum_join bs b) = page b \<and> rx_pg_off (fold csum_join bs b) = rx_pg_off b \<and>
          len (fold csum_join bs b) = len b" for bs b
          by (induction bs arbitrary: b) simp_all
        have "same_links r0 r'" "same_pieces r0 r'"
          unfolding same_links_def same_pieces_def next_of_def frag_at_def
          using d(4,5) fl by (auto simp: fold_csum_join(9,10)) (metis set_cleaned_sel(1-5) fold_csum_join(9,10))+
        then have "kept r0 r'" using d(2) by (simp add: kept_def)
        then have "kept r r'" by (rule kept_trans [OF k0])
        moreover have "ref_all r0 (?h # is) k = ref_all r (?h # is) k" by (simp add: ref_all_def id0)
        ultimately show ?thesis
          using False nc whole ans d red assms(4) by (intro deliver [of "is" r' s]) (auto simp: bad_def id0 rng)
      qed
    qed
  qed
qed


subsection \<open>The loop\<close>

definition advance :: "aq_ring_s \<Rightarrow> aq_ring_s" where
  "advance r = r\<lparr>sw_head := ring_next (ring_size r) (sw_head r)\<rparr>"

lemma advance_sel [simp]:
  "sw_head (advance r) = ring_next (ring_size r) (sw_head r)" "hw_head (advance r) = hw_head r"
  "ring_size (advance r) = ring_size r" "buff_at (advance r) i = buff_at r i" "ring_idx (advance r) = ring_idx r"
  "ring_len_ok (advance r) = ring_len_ok r" "next_of (advance r) i = next_of r i"
  by (simp_all add: advance_def buff_at_def ring_len_ok_def next_of_def)

lemma rx_ok_advance: "rx_ok r \<Longrightarrow> rx_ok (advance r)"
  by (simp add: rx_ok_def ring_next_less)

lemma ahead_advance:
  assumes "rx_ok r" "i < ring_size r" "i \<noteq> sw_head r"
  shows "ahead r i = Suc (ahead (advance r) i)"
  using assms ring.gap_nxt_left [of "sw_head r" "ring_size r" i] by (simp add: ahead_def rx_ok_def)

lemma in_pending_advance:
  assumes "rx_ok r" "sw_head r \<noteq> hw_head r" "sw_head (advance r) \<noteq> hw_head r" "in_pending (advance r) j"
  shows "in_pending r j"
proof -
  have "sw_head r < ring_size r" "hw_head r < ring_size r" using assms(1) by (auto simp: rx_ok_def)
  then have "unat (ring_next (ring_size r) (sw_head r)) =
      (if Suc (unat (sw_head r)) = unat (ring_size r) then 0 else Suc (unat (sw_head r)))"
    "unat (hw_head r) < unat (ring_size r)" "unat (sw_head r) < unat (ring_size r)"
    "unat (sw_head r) \<noteq> unat (hw_head r)" "unat (ring_next (ring_size r) (sw_head r)) \<noteq> unat (hw_head r)"
    using ring.nxt_cases [of "sw_head r" "ring_size r"] assms(2,3)
    by (auto simp: word_less_nat_alt word_unat_eq_iff)
  then show ?thesis
    using assms(4) by (auto simp: in_pending_def aq_ring_dx_in_range_def word_less_nat_alt split: if_splits)
qed

lemma links_ok_kept:
  assumes "links_ok r" "kept r r'"
  shows "links_ok r'"
proof -
  have "sw_head r' = sw_head r" "hw_head r' = hw_head r" "ring_size r' = ring_size r"
    "\<And>i. next_of r' i = next_of r i" "\<And>i. is_eop (buff_at r' i) = is_eop (buff_at r i)"
    using assms(2) touched_sel [of r r'] by (auto simp: kept_def same_links_def)
  then show ?thesis using assms(1) by (simp add: links_ok_def in_pending_def ahead_def)
qed

lemma links_ok_advance:
  assumes "rx_ok r" "links_ok r" "sw_head r \<noteq> hw_head r" "sw_head (advance r) \<noteq> hw_head r"
  shows "links_ok (advance r)"
  unfolding links_ok_def
proof (intro allI impI)
  fix i assume i: "i < ring_size (advance r)" "i = sw_head (advance r) \<or> in_pending (advance r) i"
    "\<not> is_eop (buff_at (advance r) i)" "in_pending (advance r) (next_of (advance r) i)"
  have hr: "sw_head r < ring_size r" "sw_head (advance r) < ring_size r"
    using assms(1) by (auto simp: rx_ok_def ring_next_less)
  have ne: "sw_head (advance r) \<noteq> sw_head r"
  proof
    assume e: "sw_head (advance r) = sw_head r"
    have "Suc (ring.gap (ring_size r) (sw_head (advance r)) (hw_head r)) = ring.gap (ring_size r) (sw_head r) (hw_head r)"
      using ring.gap_nxt_left [of "sw_head r" "ring_size r" "hw_head r"] assms(1,3) by (simp add: rx_ok_def)
    then show False using e by simp
  qed
  have pend: "in_pending r (next_of r i)" using i(4) in_pending_advance [OF assms(1,3,4)] by simp
  have hd: "in_pending r (sw_head (advance r))"
  proof -
    have t: "hw_head r < ring_size r" using assms(1) by (simp add: rx_ok_def)
    have "ahead (advance r) (sw_head (advance r)) = 0" using hr by (simp add: ahead_def ring.gap_0_iff)
    moreover have "ahead (advance r) (hw_head r) \<noteq> 0"
      using hr t assms(4) by (simp add: ahead_def ring.gap_0_iff)
    ultimately show ?thesis
      using ahead_advance [OF assms(1) hr(2) ne] ahead_advance [OF assms(1) t] hr(2) assms(1,3)
      by (simp add: in_pending_iff)
  qed
  have ip: "in_pending r i"
    using i(2) hd in_pending_advance [OF assms(1,3,4)] by auto
  then have n: "next_of r i < ring_size r" "ahead r i < ahead r (next_of r i)"
    using assms(2) i pend by (auto simp: links_ok_def)
  have nz: "next_of r i \<noteq> sw_head r" "i \<noteq> sw_head r"
    using pend ip by (auto simp: in_pending_def aq_ring_dx_in_range_def split: if_splits)
  show "next_of (advance r) i < ring_size (advance r) \<and> ahead (advance r) i < ahead (advance r) (next_of (advance r) i)"
    using n i(1) ahead_advance [OF assms(1) _ nz(1)] ahead_advance [OF assms(1) _ nz(2)] by simp
qed

lemma ahead_hw_advance:
  "rx_ok r \<Longrightarrow> sw_head r \<noteq> hw_head r \<Longrightarrow> ahead r (hw_head r) = Suc (ahead (advance r) (hw_head r))"
  using ahead_advance [of r "hw_head r"] by (simp add: rx_ok_def)

lemma advance_kept:
  "kept r r' \<Longrightarrow> advance r' = r'\<lparr>sw_head := aq_ring_next_dx r' (sw_head r')\<rparr>"
  by (simp add: advance_def aq_ring_next_dx_def)

lemma long_heads_kept: "kept r r' \<Longrightarrow> long_heads r \<Longrightarrow> long_heads r'"
  using touched_sel [of r r'] unfolding long_heads_def kept_def same_links_def same_pieces_def frag_at_def
  by (metis Pair_inject unat_u16_u32 word_unat_eq_iff)

text \<open>
  The loop returns, whatever the allocations do, and consumes between none and all of the
  pending buffers, one unit of budget each.
\<close>

definition moved :: "nat \<Rightarrow> aq_ring_s \<Rightarrow> aq_ring_s \<Rightarrow> bool" where
  "moved w r r' \<longleftrightarrow> w \<le> ahead r (hw_head r) \<and> ring_size r' = ring_size r \<and> hw_head r' = hw_head r \<and>
     sw_tail r' = sw_tail r \<and> dx_ring r' = dx_ring r \<and> ring_idx r' = ring_idx r \<and>
     length (buff_ring r') = length (buff_ring r) \<and>
     sw_head r' = (ring_next (ring_size r) ^^ w) (sw_head r) \<and> same_links r r' \<and> same_pieces r r'"

lemma moved_0: "kept r r' \<Longrightarrow> moved 0 r r'"
  using touched_sel [of r r'] by (auto simp: moved_def kept_def)

lemma moved_Suc:
  assumes "kept r r1" "moved w (advance r1) r'" "rx_ok r" "sw_head r \<noteq> hw_head r"
  shows "moved (Suc w) r r'"
proof -
  have t: "sw_head r1 = sw_head r" "hw_head r1 = hw_head r" "ring_size r1 = ring_size r" "sw_tail r1 = sw_tail r"
    "dx_ring r1 = dx_ring r" "ring_idx r1 = ring_idx r" "length (buff_ring r1) = length (buff_ring r)"
    using assms(1) touched_sel [of r r1] by (auto simp: kept_def)
  have a: "ahead (advance r1) (hw_head r) = ahead (advance r) (hw_head r)" by (simp add: ahead_def t)
  show ?thesis
    using assms(1,2) ahead_hw_advance [OF assms(3,4)] a
    by (auto simp: moved_def kept_def t funpow_swap1 same_links_def same_pieces_def advance_def next_of_def buff_at_def
        frag_at_def)
qed

lemma rx_clean_loop_returns:
  assumes "rx_ok r" "links_ok r" "napi_ok napi" "long_heads r"
  shows "\<exists>err w r' k' napi'. rx_clean_loop budget None wd r k napi = Some (err, wd + w, r', k', napi') \<and>
    (err = 0 \<or> err = - ENOMEM) \<and> w \<le> budget \<and> moved w r r'"
  using assms
proof (induction budget arbitrary: wd r k napi)
  case 0
  then show ?case by (auto intro: moved_0)
next
  case (Suc budget)
  show ?case
  proof (cases "sw_head r = hw_head r")
    case True
    then show ?thesis by (auto intro: moved_0)
  next
    case ne: False
    note ok = Suc.prems
    have go: ?thesis if res: "rx_clean_packet None r k napi = Some (None, r1, k1, napi1)" and kp: "kept r r1"
      and na: "napi_ok napi1" for r1 k1 napi1
    proof -
      have r1: "rx_ok r1" "links_ok r1" "sw_head r1 \<noteq> hw_head r1" "long_heads r1"
        using ok ne kp touched_sel [of r r1] links_ok_kept long_heads_kept ring_len_ok_touched
        by (auto simp: kept_def rx_ok_def)
      have "\<exists>err w r' k' napi'. rx_clean_loop budget None (Suc wd) (advance r1) k1 napi1 =
          Some (err, Suc wd + w, r', k', napi') \<and> (err = 0 \<or> err = - ENOMEM) \<and> w \<le> budget \<and> moved w (advance r1) r'"
      proof (cases "sw_head (advance r1) = hw_head r1")
        case True
        then have "rx_clean_loop budget None (Suc wd) (advance r1) k1 napi1 = Some (0, Suc wd, advance r1, k1, napi1)"
          by (cases budget) simp_all
        then show ?thesis by (auto intro: moved_0)
      next
        case False
        have "long_heads (advance r1)" using r1(4) by (simp add: long_heads_def)
        then show ?thesis
          using Suc.IH [of "advance r1" napi1 "Suc wd" k1] rx_ok_advance [OF r1(1)] links_ok_advance [OF r1(1-3) False] na
          by simp
      qed
      then obtain err w r' k' napi' where l: "rx_clean_loop budget None (Suc wd) (advance r1) k1 napi1 =
          Some (err, Suc wd + w, r', k', napi')" "err = 0 \<or> err = - ENOMEM" "w \<le> budget" "moved w (advance r1) r'"
        by blast
      have "rx_clean_loop (Suc budget) None wd r k napi = Some (err, wd + Suc w, r', k', napi')"
        using ne res l(1) advance_kept [OF kp] by simp
      then show ?thesis using l(2,3) moved_Suc [OF kp l(4) ok(1) ne] by (intro exI conjI) auto
    qed
    show ?thesis
    proof (cases rule: rx_clean_packet_cases [OF ok(1,2) ne refl ok(3,4), of k, case_names skip part drop deliver nomem])
      case skip
      then show ?thesis using ok(3) by (intro go [of r k napi]) auto
    next
      case (part r')
      then show ?thesis using ne by (auto intro!: exI [of _ 0] moved_0)
    next
      case (drop "is" r')
      then show ?thesis using ok(3) by (intro go [of r' k napi]) auto
    next
      case (deliver "is" r' s)
      then show ?thesis using ok(3) by (intro go [of r' "ref_all r (sw_head r # is) k" "took napi s"])
          (auto simp: napi_ok_def took_def)
    next
      case (nomem r')
      then show ?thesis using ne by (auto intro!: exI [of _ 0] moved_0)
    qed
  qed
qed


subsection \<open>The loop and a reference\<close>

text \<open>
  The reference reads the pending buffers as a list: it skips the buffers already passed up,
  cuts the list after each end of a packet, drops the packets with an error and stops at a
  packet that has no end yet. \<open>rx_left\<close> is what is left to do then.
\<close>

fun split_eop :: "aq_ring_buff_s list \<Rightarrow> (aq_ring_buff_s list \<times> aq_ring_buff_s list) option" where
  "split_eop [] = None"
| "split_eop (b # bs) = (if is_eop b then Some ([b], bs)
     else case split_eop bs of None \<Rightarrow> None | Some (g, rest) \<Rightarrow> Some (b # g, rest))"

definition split_packet :: "aq_ring_buff_s \<Rightarrow> aq_ring_buff_s list \<Rightarrow>
    (aq_ring_buff_s list \<times> aq_ring_buff_s list) option" where
  "split_packet b bs = (if is_eop b then Some ([b], bs)
     else case split_eop bs of None \<Rightarrow> None | Some (g, rest) \<Rightarrow> Some (b # g, rest))"

lemma split_eop_length: "split_eop bs = Some (g, rest) \<Longrightarrow> length rest < length bs"
  by (induction bs arbitrary: g rest) (auto split: if_splits option.splits)

lemma split_packet_length: "split_packet b bs = Some (g, rest) \<Longrightarrow> length rest \<le> length bs"
  by (auto simp: split_packet_def dest: split_eop_length split: if_splits option.splits)

function rx_packets :: "aq_ring_buff_s list \<Rightarrow> aq_ring_buff_s list list" where
  "rx_packets [] = []"
| "rx_packets (b # bs) =
     (if is_cleaned b then rx_packets bs
      else case split_packet b bs of
        None \<Rightarrow> []
      | Some (g, rest) \<Rightarrow> (if \<exists>c \<in> set g. is_error c then [] else [g]) @ rx_packets rest)"
  by pat_completeness auto
termination
  by (relation "measure length") (auto dest: split_packet_length)

function rx_left :: "aq_ring_buff_s list \<Rightarrow> aq_ring_buff_s list" where
  "rx_left [] = []"
| "rx_left (b # bs) =
     (if is_cleaned b then rx_left bs
      else case split_packet b bs of None \<Rightarrow> b # bs | Some (g, rest) \<Rightarrow> rx_left rest)"
  by pat_completeness auto
termination
  by (relation "measure length") (auto dest: split_packet_length)

lemma rx_packets_cleaned: "(\<forall>b \<in> set bs. is_cleaned b) \<Longrightarrow> rx_packets (bs @ cs) = rx_packets cs"
  by (induction bs) auto

lemma rx_left_cleaned: "(\<forall>b \<in> set bs. is_cleaned b) \<Longrightarrow> rx_left (bs @ cs) = rx_left cs"
  by (induction bs) auto

definition behind :: "aq_ring_s \<Rightarrow> u32 \<Rightarrow> u32 list" where
  "behind r i = ring.walk (ring_size r) (ring_next (ring_size r) i) (ahead r (hw_head r) - Suc (ahead r i))"

definition pend :: "aq_ring_s \<Rightarrow> aq_ring_buff_s list" where
  "pend r = map (buff_at r) (ring.walk (ring_size r) (sw_head r) (ahead r (hw_head r)))"

text \<open>The driver's own links: each buffer of a packet is followed by its neighbour.\<close>

definition jumbo_links :: "aq_ring_s \<Rightarrow> bool" where
  "jumbo_links r \<longleftrightarrow> (\<forall>i < ring_size r. i = sw_head r \<or> in_pending r i \<longrightarrow> \<not> is_eop (buff_at r i) \<longrightarrow>
     next_of r i = ring_next (ring_size r) i)"

lemma jumbo_next:
  "jumbo_links r \<Longrightarrow> i < ring_size r \<Longrightarrow> i = sw_head r \<or> in_pending r i \<Longrightarrow> \<not> is_eop (buff_at r i) \<Longrightarrow>
   next_of r i = ring_next (ring_size r) i"
  unfolding jumbo_links_def by blast

lemma ahead_next:
  assumes "rx_ok r" "i < ring_size r" "ahead r i < ahead r (hw_head r)"
  shows "ahead r (ring_next (ring_size r) i) = Suc (ahead r i)"
proof -
  have "ahead r (hw_head r) < unat (ring_size r)"
    using assms(1) by (simp add: ahead_def rx_ok_def ring.gap_less)
  then show ?thesis
    using assms ring.gap_nxt_right [of "sw_head r" "ring_size r" i] by (simp add: ahead_def rx_ok_def)
qed

lemma ahead_pend: "rx_ok r \<Longrightarrow> sw_head r \<noteq> hw_head r \<Longrightarrow> i < ring_size r \<Longrightarrow> i = sw_head r \<or> in_pending r i \<Longrightarrow>
  ahead r i < ahead r (hw_head r)"
proof -
  assume a: "rx_ok r" "sw_head r \<noteq> hw_head r" "i < ring_size r" "i = sw_head r \<or> in_pending r i"
  have "ahead r (sw_head r) = 0" "ahead r (hw_head r) \<noteq> 0"
    using a(1,2) by (auto simp: ahead_def rx_ok_def ring.gap_0_iff)
  then show ?thesis using a(4) in_pending_iff [OF a(1-3)] by auto
qed

lemma jumbo_links_ok: "rx_ok r \<Longrightarrow> sw_head r \<noteq> hw_head r \<Longrightarrow> jumbo_links r \<Longrightarrow> links_ok r"
  unfolding links_ok_def
proof (intro allI impI)
  fix i assume a: "rx_ok r" "sw_head r \<noteq> hw_head r" "jumbo_links r" "i < ring_size r"
    "i = sw_head r \<or> in_pending r i" "\<not> is_eop (buff_at r i)"
  have "next_of r i = ring_next (ring_size r) i" by (rule jumbo_next [OF a(3-6)])
  then show "next_of r i < ring_size r \<and> ahead r i < ahead r (next_of r i)"
    using ahead_next [OF a(1,4) ahead_pend [OF a(1,2,4,5)]] a(4) by (simp add: ring_next_less)
qed

lemma behind_step:
  assumes "rx_ok r" "sw_head r \<noteq> hw_head r" "i < ring_size r" "i = sw_head r \<or> in_pending r i"
    and "ring_next (ring_size r) i \<noteq> hw_head r"
  shows "behind r i = ring_next (ring_size r) i # behind r (ring_next (ring_size r) i)"
    and "in_pending r (ring_next (ring_size r) i)"
proof -
  let ?j = "ring_next (ring_size r) i"
  have lt: "ahead r i < ahead r (hw_head r)" by (rule ahead_pend [OF assms(1-4)])
  have j: "ahead r ?j = Suc (ahead r i)" by (rule ahead_next [OF assms(1,3) lt])
  have jl: "?j < ring_size r" using assms(3) by (rule ring_next_less)
  have "ahead r ?j \<noteq> ahead r (hw_head r)"
  proof
    assume e: "ahead r ?j = ahead r (hw_head r)"
    have "?j = (ring_next (ring_size r) ^^ ahead r ?j) (sw_head r)"
      "hw_head r = (ring_next (ring_size r) ^^ ahead r (hw_head r)) (sw_head r)"
      using assms(1) jl by (simp_all add: ahead_def ring.iter_gap rx_ok_def)
    then show False using e assms(5) by simp
  qed
  then have l2: "ahead r ?j < ahead r (hw_head r)" using lt j by simp
  then show "in_pending r ?j" using in_pending_iff [OF assms(1,2) jl] j by simp
  have "ahead r (hw_head r) - Suc (ahead r i) = Suc (ahead r (hw_head r) - Suc (ahead r ?j))"
    using l2 j by simp
  then show "behind r i = ?j # behind r ?j" by (simp add: behind_def ring.walk_Suc)
qed

lemma behind_last:
  assumes "rx_ok r" "i < ring_size r" "ahead r i < ahead r (hw_head r)" "ring_next (ring_size r) i = hw_head r"
  shows "behind r i = []"
  using ahead_next [OF assms(1-3)] assms(4) by (simp add: behind_def)

lemma chain_behind:
  assumes "rx_ok r" "sw_head r \<noteq> hw_head r" "jumbo_links r"
    and "chain r cur is" "cur < ring_size r" "cur = sw_head r \<or> in_pending r cur" "\<not> is_eop (buff_at r cur)"
    and "\<forall>i \<in> set is. in_pending r i"
  shows "\<exists>rest. behind r cur = is @ rest \<and>
    split_eop (map (buff_at r) (behind r cur)) = Some (map (buff_at r) is, map (buff_at r) rest)"
  using assms(4-8)
proof (induction "is" arbitrary: cur)
  case (Cons i "is")
  have "next_of r cur = i" and eop: "is_eop (buff_at r i) \<longleftrightarrow> is = []" and ch: "is \<noteq> [] \<Longrightarrow> chain r i is"
    using Cons.prems(1) by (auto split: if_splits)
  then have i: "i = ring_next (ring_size r) cur" using jumbo_next [OF assms(3) Cons.prems(2-4)] by simp
  have ip: "in_pending r i" using Cons.prems by simp
  then have ne: "ring_next (ring_size r) cur \<noteq> hw_head r"
    unfolding i by (auto simp: in_pending_def aq_ring_dx_in_range_def split: if_splits)
  note st = behind_step(1) [OF assms(1,2) Cons.prems(2,3) ne, folded i]
  have il: "i < ring_size r" using Cons.prems(2) i by (simp add: ring_next_less)
  show ?case
  proof (cases "is = []")
    case True
    then show ?thesis using eop st by simp
  next
    case False
    then have c: "\<not> is_eop (buff_at r i)" "chain r i is" using eop ch by auto
    from Cons.IH [OF c(2) il disjI2 [OF ip] c(1)] Cons.prems(5)
    obtain rest where "behind r i = is @ rest"
      "split_eop (map (buff_at r) (behind r i)) = Some (map (buff_at r) is, map (buff_at r) rest)" by auto
    then show ?thesis using c(1) st by (intro exI [of _ rest]) simp
  qed
qed simp

lemma break_behind:
  assumes "rx_ok r" "sw_head r \<noteq> hw_head r" "jumbo_links r"
    and "rsc_scan r cur e = Some (False, e')" "cur < ring_size r" "cur = sw_head r \<or> in_pending r cur"
    "\<not> is_eop (buff_at r cur)"
  shows "split_eop (map (buff_at r) (behind r cur)) = None"
  using assms(4-7)
proof (induction "ahead r (hw_head r) - ahead r cur" arbitrary: cur e rule: less_induct)
  case less
  let ?j = "ring_next (ring_size r) cur"
  have lt: "ahead r cur < ahead r (hw_head r)" by (rule ahead_pend [OF assms(1,2) less.prems(2,3)])
  have n: "next_of r cur = ?j" by (rule jumbo_next [OF assms(3) less.prems(2-4)])
  show ?case
  proof (cases "?j = hw_head r")
    case True
    then show ?thesis using behind_last [OF assms(1) less.prems(2) lt] by simp
  next
    case False
    note st = behind_step [OF assms(1,2) less.prems(2,3) False]
    have sc: "rsc_scan r cur e = (if is_eop (buff_at r ?j) then Some (True, e \<or> is_error (buff_at r ?j))
        else rsc_scan r ?j (e \<or> is_error (buff_at r ?j)))"
      using st(2) n by (subst rsc_scan.simps) (simp add: in_pending_def Let_def)
    then have ne: "\<not> is_eop (buff_at r ?j)" "rsc_scan r ?j (e \<or> is_error (buff_at r ?j)) = Some (False, e')"
      using less.prems(1) by (auto split: if_splits)
    have jl: "?j < ring_size r" using less.prems(2) by (rule ring_next_less)
    have "ahead r (hw_head r) - ahead r ?j < ahead r (hw_head r) - ahead r cur"
      using lt ahead_next [OF assms(1) less.prems(2) lt] by simp
    from less.hyps [OF this ne(2) jl disjI2 [OF st(2)] ne(1)] show ?thesis using st(1) ne(1) by simp
  qed
qed

lemma pend_head:
  assumes "rx_ok r" "sw_head r \<noteq> hw_head r"
  shows "pend r = buff_at r (sw_head r) # map (buff_at r) (behind r (sw_head r))"
proof -
  have "ahead r (sw_head r) = 0" "ahead r (hw_head r) \<noteq> 0"
    using assms by (auto simp: ahead_def rx_ok_def ring.gap_0_iff)
  then have "ahead r (hw_head r) = Suc (ahead r (hw_head r) - Suc (ahead r (sw_head r)))" by simp
  then show ?thesis unfolding pend_def behind_def
    by (metis (no_types, lifting) list.simps(9) ring.walk_Suc)
qed

lemma behind_cong:
  "ring_size r' = ring_size r \<Longrightarrow> sw_head r' = sw_head r \<Longrightarrow> hw_head r' = hw_head r \<Longrightarrow> behind r' i = behind r i"
  by (simp add: behind_def ahead_def)

lemma pend_advance:
  assumes "rx_ok r" "sw_head r \<noteq> hw_head r"
  shows "pend (advance r) = map (buff_at r) (behind r (sw_head r))"
proof -
  have "ahead r (sw_head r) = 0" using assms by (simp add: ahead_def rx_ok_def ring.gap_0_iff)
  then show ?thesis using ahead_hw_advance [OF assms] by (simp add: pend_def behind_def)
qed


lemma jumbo_kept:
  assumes "jumbo_links r" "kept r r'"
  shows "jumbo_links r'"
proof -
  have "sw_head r' = sw_head r" "hw_head r' = hw_head r" "ring_size r' = ring_size r"
    "\<And>i. next_of r' i = next_of r i" "\<And>i. is_eop (buff_at r' i) = is_eop (buff_at r i)"
    using assms(2) touched_sel [of r r'] by (auto simp: kept_def same_links_def)
  then show ?thesis using assms(1) by (simp add: jumbo_links_def in_pending_def)
qed

lemma jumbo_advance:
  assumes "rx_ok r" "jumbo_links r" "sw_head r \<noteq> hw_head r" "sw_head (advance r) \<noteq> hw_head r"
  shows "jumbo_links (advance r)"
proof -
  have "in_pending r (sw_head (advance r))"
    using behind_step(2) [OF assms(1,3) _ disjI1 [OF refl]] assms(1,4) by (simp add: rx_ok_def)
  then show ?thesis
    using assms(2) in_pending_advance [OF assms(1,3,4)] unfolding jumbo_links_def by auto
qed

lemma carries_cong:
  "ndev_rxcsum napi' = ndev_rxcsum napi \<Longrightarrow> carries napi' q bs s = carries napi q bs s"
  by (simp add: carries_def csums_vouched_def)

lemma split_packet_at:
  assumes "rx_ok r" "sw_head r \<noteq> hw_head r" "jumbo_links r" "packet_at r (sw_head r) is" "\<forall>i \<in> set is. in_pending r i"
  obtains rest where "behind r (sw_head r) = is @ rest"
    "split_packet (buff_at r (sw_head r)) (map (buff_at r) (behind r (sw_head r))) =
       Some (map (buff_at r) (sw_head r # is), map (buff_at r) rest)"
proof (cases "is = []")
  case True
  then have "is_eop (buff_at r (sw_head r))" using assms(4) by (simp add: packet_at_def)
  then show ?thesis using True by (intro that [of "behind r (sw_head r)"]) (simp_all add: split_packet_def)
next
  case False
  then have c: "\<not> is_eop (buff_at r (sw_head r))" "chain r (sw_head r) is" "sw_head r < ring_size r"
    using assms(4) by (auto simp: packet_at_def)
  from chain_behind [OF assms(1-3) c(2,3) disjI1 [OF refl] c(1) assms(5)]
  obtain rest where "behind r (sw_head r) = is @ rest"
    "split_eop (map (buff_at r) (behind r (sw_head r))) = Some (map (buff_at r) is, map (buff_at r) rest)" by blast
  then show ?thesis using c(1) by (intro that [of rest]) (simp_all add: split_packet_def)
qed

text \<open>After a packet was dealt with its followers are marked and the reference skips them.\<close>

lemma pend_after:
  assumes "rx_ok r" "sw_head r \<noteq> hw_head r" "kept r r1" "behind r (sw_head r) = is @ rest"
    and "\<forall>j. j \<noteq> sw_head r \<longrightarrow> buff_at r1 j = (if j \<in> set is then set_cleaned (buff_at r j) else buff_at r j)"
  shows "rx_packets (pend (advance r1)) = rx_packets (map (buff_at r) rest)"
    and "rx_left (pend (advance r1)) = rx_left (map (buff_at r) rest)"
proof -
  have t: "ring_size r1 = ring_size r" "sw_head r1 = sw_head r" "hw_head r1 = hw_head r"
    using assms(3) touched_sel [of r r1] by (auto simp: kept_def)
  have ok1: "rx_ok r1" using assms(1,3) t ring_len_ok_touched by (auto simp: rx_ok_def kept_def)
  have h: "sw_head r < ring_size r" "ahead r (sw_head r) = 0"
    using assms(1) by (simp_all add: rx_ok_def ahead_def ring.gap_0_iff)
  have lt: "ahead r (hw_head r) < unat (ring_size r)" using assms(1) by (simp add: ahead_def rx_ok_def ring.gap_less)
  have "ahead r (hw_head r) \<noteq> 0" using assms(1,2) by (simp add: ahead_def rx_ok_def ring.gap_0_iff)
  then have "sw_head r # behind r (sw_head r) = ring.walk (ring_size r) (sw_head r) (ahead r (hw_head r))"
    using h by (simp add: behind_def flip: ring.walk_Suc)
  moreover have "distinct (ring.walk (ring_size r) (sw_head r) (ahead r (hw_head r)))"
    using h lt by (intro ring.walk_gap_distinct) auto
  ultimately have d: "distinct (sw_head r # is @ rest)" using assms(4) by simp
  have "pend (advance r1) = map (buff_at r1) (is @ rest)"
    using pend_advance [OF ok1] assms(2,4) t behind_cong [OF t] by simp
  also have "\<dots> = map (buff_at r1) is @ map (buff_at r1) rest" by simp
  also have "map (buff_at r1) rest = map (buff_at r) rest"
  proof (rule map_cong [OF refl])
    fix x assume "x \<in> set rest"
    then have "x \<noteq> sw_head r" "x \<notin> set is" using d by auto
    then show "buff_at r1 x = buff_at r x" using assms(5) by simp
  qed
  finally have p: "pend (advance r1) = map (buff_at r1) is @ map (buff_at r) rest" .
  have "\<forall>i \<in> set is. is_cleaned (buff_at r1 i)"
  proof
    fix i assume "i \<in> set is"
    moreover from this have "i \<noteq> sw_head r" using d by auto
    ultimately show "is_cleaned (buff_at r1 i)" using assms(5) by simp
  qed
  then have "\<forall>b \<in> set (map (buff_at r1) is). is_cleaned b" by simp
  then show "rx_packets (pend (advance r1)) = rx_packets (map (buff_at r) rest)"
    "rx_left (pend (advance r1)) = rx_left (map (buff_at r) rest)"
    unfolding p by (rule rx_packets_cleaned, rule rx_left_cleaned)
qed

lemma pend_nil: "rx_ok r \<Longrightarrow> sw_head r = hw_head r \<Longrightarrow> pend r = []"
  by (simp add: pend_def ahead_def rx_ok_def ring.gap_0_iff [THEN iffD2])

lemma length_pend: "length (pend r) = ahead r (hw_head r)"
  by (simp add: pend_def ring.walk_def)

lemma rx_clean_loop_packets:
  assumes "rx_ok r" "jumbo_links r" "napi_ok napi" "long_heads r" "\<forall>n. skb_answer napi n"
    and "ahead r (hw_head r) \<le> budget"
  shows "\<exists>w r' k' napi' skbs. rx_clean_loop budget None wd r k napi = Some (0, wd + w, r', k', napi') \<and>
    received napi' = received napi @ skbs \<and> list_all2 (carries napi (ring_idx r)) (rx_packets (pend r)) skbs \<and>
    w + length (rx_left (pend r)) = ahead r (hw_head r)"
  using assms
proof (induction budget arbitrary: wd r k napi)
  case 0
  then have "sw_head r = hw_head r" by (simp add: ahead_def rx_ok_def ring.gap_0_iff)
  then show ?case using 0 by (simp add: pend_nil)
next
  case (Suc budget)
  note ok = Suc.prems
  show ?case
  proof (cases "sw_head r = hw_head r")
    case True
    then show ?thesis using ok length_pend [of r] by (simp add: pend_nil)
  next
    case ne: False
    have lk: "links_ok r" by (rule jumbo_links_ok [OF ok(1) ne ok(2)])
    define bs where "bs = map (buff_at r) (behind r (sw_head r))"
    have pd: "pend r = buff_at r (sw_head r) # bs" using pend_head [OF ok(1) ne] by (simp add: bs_def)
    have go: ?thesis if res: "rx_clean_packet None r k napi = Some (None, r1, k1, napi1)" and kp: "kept r r1"
      and na: "napi_ok napi1" "skb_answer napi1 = skb_answer napi" "ndev_rxcsum napi1 = ndev_rxcsum napi"
      and new: "received napi1 = received napi @ new" "list_all2 (carries napi (ring_idx r)) ps new"
      and ref: "rx_packets (pend r) = ps @ rx_packets (pend (advance r1))"
      and lft: "rx_left (pend r) = rx_left (pend (advance r1))" for r1 k1 napi1 new ps
    proof -
      have t: "ring_size r1 = ring_size r" "sw_head r1 = sw_head r" "hw_head r1 = hw_head r" "ring_idx r1 = ring_idx r"
        using kp touched_sel [of r r1] by (auto simp: kept_def)
      have r1: "rx_ok r1" "jumbo_links r1" "sw_head r1 \<noteq> hw_head r1" "long_heads r1"
        using ok ne kp t jumbo_kept long_heads_kept ring_len_ok_touched by (auto simp: kept_def rx_ok_def)
      have a: "ahead r (hw_head r) = Suc (ahead (advance r1) (hw_head (advance r1)))"
        using ahead_hw_advance [OF r1(1,3)] by (simp add: ahead_def t)
      have "\<exists>w r' k' napi' skbs. rx_clean_loop budget None (Suc wd) (advance r1) k1 napi1 =
          Some (0, Suc wd + w, r', k', napi') \<and> received napi' = received napi1 @ skbs \<and>
          list_all2 (carries napi1 (ring_idx (advance r1))) (rx_packets (pend (advance r1))) skbs \<and>
          w + length (rx_left (pend (advance r1))) = ahead (advance r1) (hw_head (advance r1))"
      proof (cases "sw_head (advance r1) = hw_head r1")
        case True
        then have "rx_clean_loop budget None (Suc wd) (advance r1) k1 napi1 = Some (0, Suc wd, advance r1, k1, napi1)"
          by (cases budget) simp_all
        then show ?thesis
          using True pend_nil [OF rx_ok_advance [OF r1(1)]] length_pend [of "advance r1"] by simp
      next
        case False
        have "long_heads (advance r1)" using r1(4) by (simp add: long_heads_def)
        moreover have "ahead (advance r1) (hw_head (advance r1)) \<le> budget" using a ok(6) by simp
        ultimately show ?thesis
          using rx_ok_advance [OF r1(1)] jumbo_advance [OF r1(1-3) False] na(1,2) ok(5)
          by (intro Suc.IH) auto
      qed
      then obtain w r' k' napi' skbs where l: "rx_clean_loop budget None (Suc wd) (advance r1) k1 napi1 =
          Some (0, Suc wd + w, r', k', napi')" "received napi' = received napi1 @ skbs"
          "list_all2 (carries napi1 (ring_idx (advance r1))) (rx_packets (pend (advance r1))) skbs"
          "w + length (rx_left (pend (advance r1))) = ahead (advance r1) (hw_head (advance r1))" by blast
      have "rx_clean_loop (Suc budget) None wd r k napi = Some (0, wd + Suc w, r', k', napi')"
        using ne res l(1) advance_kept [OF kp] by simp
      moreover have "list_all2 (carries napi (ring_idx r)) (rx_packets (pend (advance r1))) skbs"
      proof -
        have "carries napi1 q = carries napi q" for q by (intro ext) (rule carries_cong [OF na(3)])
        then show ?thesis using l(3) by (simp add: t)
      qed
      then have "list_all2 (carries napi (ring_idx r)) (rx_packets (pend r)) (new @ skbs)"
        unfolding ref using new(2) by (rule list_all2_appendI [rotated])
      moreover have "received napi' = received napi @ (new @ skbs)" using l(2) new(1) by simp
      moreover have "Suc w + length (rx_left (pend r)) = ahead r (hw_head r)" using l(4) a lft by simp
      ultimately show ?thesis by blast
    qed
    show ?thesis
    proof (cases rule: rx_clean_packet_cases [OF ok(1) lk ne refl ok(3,4), of k, case_names skip part drop deliver nomem])
      case skip
      then show ?thesis
        using ok(3) pd pend_advance [OF ok(1) ne]
        by (intro go [of r k napi "[]" "[]"]) (auto simp: bs_def)
    next
      case (part r')
      then obtain e' where "rsc_scan r (sw_head r) True = Some (False, e')" by blast
      then have "split_eop bs = None"
        using break_behind [OF ok(1) ne ok(2)] ok(1) part(2) by (simp add: bs_def rx_ok_def)
      then have "rx_packets (pend r) = []" "rx_left (pend r) = pend r"
        using part(1,2) by (simp_all add: pd split_packet_def)
      then show ?thesis using ne part(4) length_pend [of r] by simp
    next
      case (drop "is" r')
      obtain rest where sp: "behind r (sw_head r) = is @ rest"
        "split_packet (buff_at r (sw_head r)) bs = Some (map (buff_at r) (sw_head r # is), map (buff_at r) rest)"
        using split_packet_at [OF ok(1) ne ok(2) drop(2,3)] unfolding bs_def by blast
      note pa = pend_after [OF ok(1) ne drop(6) sp(1) drop(7)]
      show ?thesis
        using ok(3) drop sp(2) by (intro go [of r' k napi "[]" "[]"]) (auto simp: pd pa)
    next
      case (deliver "is" r' s)
      obtain rest where sp: "behind r (sw_head r) = is @ rest"
        "split_packet (buff_at r (sw_head r)) bs = Some (map (buff_at r) (sw_head r # is), map (buff_at r) rest)"
        using split_packet_at [OF ok(1) ne ok(2) deliver(2,3)] unfolding bs_def by blast
      note pa = pend_after [OF ok(1) ne deliver(7) sp(1) deliver(9)]
      show ?thesis
        using ok(3) deliver sp(2)
        by (intro go [of r' "ref_all r (sw_head r # is) k" "took napi s" "[s]" "[map (buff_at r) (sw_head r # is)]"])
          (auto simp: pd pa napi_ok_def took_def)
    next
      case (nomem r')
      then show ?thesis using ok(5) by simp
    qed
  qed
qed


subsection \<open>Chains that are not chains\<close>

text \<open>Links of the chip that lead around in a circle keep the walk going for ever.\<close>

definition circling :: "aq_ring_s \<Rightarrow> u32 set \<Rightarrow> bool" where
  "circling r S \<longleftrightarrow> (\<forall>i \<in> S. next_of r i \<in> S \<and> in_pending r (next_of r i) \<and> \<not> is_eop (buff_at r (next_of r i)))"

lemma rsc_scan_circle:
  assumes "circling r S" "cur \<in> S"
  shows "rsc_scan r cur e = None"
proof (rule ccontr)
  assume "rsc_scan r cur e \<noteq> None"
  then obtain y where y: "rsc_scan r cur e = Some y" by blast
  have "\<forall>S. cur \<in> S \<longrightarrow> \<not> circling r S"
  proof (rule rsc_scan.raw_induct [where P = "\<lambda>r cur e y. \<forall>S. cur \<in> S \<longrightarrow> \<not> circling r S", OF _ y])
    fix scan r cur e y
    assume IH: "\<And>r cur e y. scan r cur e = Some y \<Longrightarrow> \<forall>S. cur \<in> S \<longrightarrow> \<not> circling r S"
      and sc: "(let nxt = next_of r cur in
        if \<not> aq_ring_dx_in_range (sw_head r) nxt (hw_head r) then Some (False, e)
        else let e = e \<or> is_error (buff_at r nxt) in
          if is_eop (buff_at r nxt) then Some (True, e) else scan r nxt e) = Some y"
    show "\<forall>S. cur \<in> S \<longrightarrow> \<not> circling r S"
    proof (intro allI impI notI)
      fix S assume S: "cur \<in> S" "circling r S"
      then have n: "next_of r cur \<in> S" "in_pending r (next_of r cur)" "\<not> is_eop (buff_at r (next_of r cur))"
        by (auto simp: circling_def)
      then have "scan r (next_of r cur) (e \<or> is_error (buff_at r (next_of r cur))) = Some y"
        using sc by (simp add: in_pending_def Let_def)
      then show False using IH n(1) S(2) by blast
    qed
  qed
  then show False using assms by blast
qed

text \<open>A first buffer of at most 256 bytes that goes on leaves the first fragment slot open.\<close>

lemma short_first_buffer_open_slot:
  assumes "chain r h is" "len (buff_at r h) \<le> AQ_CFG_RX_HDR_SIZE" "\<not> is_eop (buff_at r h)"
  shows "\<exists>r' k' s. skb_body r k napi h = Some (r', k', s) \<and> sk_frags s = None # map (\<lambda>i. Some (frag_at r i)) is"
proof (cases "is")
  case Nil
  then show ?thesis using assms(1) by simp
next
  case (Cons i js)
  let ?b = "buff_at r h"
  define s0 where "s0 = skb_header napi ?b"
  have "\<not> AQ_CFG_RX_HDR_SIZE < len ?b" using assms(2) by (simp add: not_less)
  then have s0: "sk_frags s0 = []" by (simp add: s0_def skb_header_def skb_start_def Let_def)
  have i: "next_of r h = i" and eop: "is_eop (buff_at r i) \<longleftrightarrow> js = []" and c: "js \<noteq> [] \<Longrightarrow> chain r i js"
    using assms(1) Cons by (auto split: if_splits)
  define r1 where "r1 = upd_buff (upd_buff r i set_cleaned) h (csum_join (buff_at (upd_buff r i set_cleaned) i))"
  define s1 where "s1 = skb_add_rx_frag 1 (page (buff_at r i)) (rx_pg_off (buff_at r i)) (ucast (len (buff_at r i))) s0"
  define k1 where "k1 = page_ref_inc (page (buff_at r i)) k"
  have sl: "same_links r r1" unfolding r1_def
    by (rule same_links_trans; rule same_links_upd) simp_all
  have sp: "same_pieces r r1"
    unfolding r1_def same_pieces_def frag_at_def by (simp add: buff_at_upd)
  have s1: "sk_frags s1 = [None, Some (frag_at r i)]" by (simp add: s1_def skb_add_rx_frag_def s0 frag_at_def)
  have e: "is_eop (buff_at r1 i) = is_eop (buff_at r i)" using sl by (simp add: same_links_def)
  have "rsc_frags r k s0 1 h h = (if js = [] then Some (r1, k1, s1) else rsc_frags r1 k1 s1 2 h i)"
    by (subst rsc_frags.simps)
      (simp add: i eop Let_def e [unfolded r1_def] r1_def s1_def k1_def numeral_2_eq_2)
  then have step: "skb_body r k napi h = (if js = [] then Some (r1, k1, s1) else rsc_frags r1 k1 s1 2 h i)"
    using assms(3) by (simp add: skb_body_def s0_def [symmetric] s0 Let_def)
  show ?thesis
  proof (cases "js = []")
    case True
    then show ?thesis using step s1 Cons by simp
  next
    case False
    have "chain r1 i js" using c [OF False] chain_cong [OF sl] by simp
    from rsc_frags_chain [OF this, of s1 2 k1 h] step s1 False Cons sp
    show ?thesis by (simp add: same_pieces_def)
  qed
qed

end
