(* ===== verification/Vec.thy ===== *)
theory Vec
  imports B0_Rx Rx_Clean
begin

section \<open>Queue vectors (aq_vec.c)\<close>

text \<open>
  A vector is a group of ring pairs, one pair per traffic class, with one interrupt and one
  NAPI context: polling (\<open>aq_vec_poll\<close>), set-up, start, stop and release of its rings, its
  interrupt handlers and its statistics. The chip is reached through \<open>aq_hw_ops\<close>
  (\<open>vec_ops\<close>); \<open>b0_vec_ops\<close> are the operations of hw_atl_ops_b0. The rings of the vector
  stand in a list, transmit ring first; \<open>tx_rings\<close> is its length. The null checks on the
  vector itself have no counterpart.
\<close>

record vec_ops =
  hw_ring_tx_head_update :: "(aq_hw_s \<Rightarrow> aq_ring_s \<Rightarrow> int \<times> aq_hw_s \<times> aq_ring_s) option"
  hw_ring_rx_receive :: "aq_hw_s \<Rightarrow> aq_ring_s \<Rightarrow> int \<times> aq_hw_s \<times> aq_ring_s"
  hw_ring_rx_fill :: "aq_hw_s \<Rightarrow> aq_ring_s \<Rightarrow> u32 \<Rightarrow> int \<times> aq_hw_s \<times> aq_ring_s"
  hw_ring_tx_init :: "aq_hw_s \<Rightarrow> aq_ring_s \<Rightarrow> aq_ring_param_s \<Rightarrow> int \<times> aq_hw_s"
  hw_ring_rx_init :: "aq_hw_s \<Rightarrow> aq_ring_s \<Rightarrow> aq_ring_param_s \<Rightarrow> int \<times> aq_hw_s"
  hw_ring_tx_start :: "aq_hw_s \<Rightarrow> aq_ring_s \<Rightarrow> int \<times> aq_hw_s"
  hw_ring_rx_start :: "aq_hw_s \<Rightarrow> aq_ring_s \<Rightarrow> int \<times> aq_hw_s"
  hw_ring_tx_stop :: "aq_hw_s \<Rightarrow> aq_ring_s \<Rightarrow> int \<times> aq_hw_s"
  hw_ring_rx_stop :: "aq_hw_s \<Rightarrow> aq_ring_s \<Rightarrow> int \<times> aq_hw_s"
  hw_irq_enable :: "aq_hw_s \<Rightarrow> u64 \<Rightarrow> int \<times> aq_hw_s"
  hw_irq_disable :: "aq_hw_s \<Rightarrow> u64 \<Rightarrow> int \<times> aq_hw_s"
  hw_irq_read :: "aq_hw_s \<Rightarrow> int \<times> u64 \<times> aq_hw_s"

definition b0_vec_ops :: vec_ops where
  "b0_vec_ops = \<lparr>hw_ring_tx_head_update = Some hw_atl_b0_hw_ring_tx_head_update,
     hw_ring_rx_receive = hw_atl_b0_hw_ring_rx_receive, hw_ring_rx_fill = hw_atl_b0_hw_ring_rx_fill,
     hw_ring_tx_init = hw_atl_b0_hw_ring_tx_init, hw_ring_rx_init = hw_atl_b0_hw_ring_rx_init,
     hw_ring_tx_start = hw_atl_b0_hw_ring_tx_start, hw_ring_rx_start = hw_atl_b0_hw_ring_rx_start,
     hw_ring_tx_stop = hw_atl_b0_hw_ring_tx_stop, hw_ring_rx_stop = hw_atl_b0_hw_ring_rx_stop,
     hw_irq_enable = hw_atl_b0_hw_irq_enable, hw_irq_disable = hw_atl_b0_hw_irq_disable,
     hw_irq_read = hw_atl_b0_hw_irq_read\<rparr>"

text \<open>
  The state a poll works on: the hardware context, the rings, the kernel's pages and
  mappings, the socket buffers, the stopped transmit queues and the NAPI state (scheduled
  from the interrupt until \<open>napi_complete\<close>, enabled between start and stop).
\<close>

record aq_vec_s =
  vec_hw :: aq_hw_s
  vec_ring :: "(aq_ring_s \<times> aq_ring_s) list"
  aq_ring_param :: aq_ring_param_s
  vec_kern :: kern
  vec_napi :: napi_s
  vec_queues :: netdev_queues
  napi_scheduled :: bool
  napi_enabled :: bool

definition vec_tx :: "aq_vec_s \<Rightarrow> nat \<Rightarrow> aq_ring_s" where "vec_tx self i = fst (vec_ring self ! i)"
definition vec_rx :: "aq_vec_s \<Rightarrow> nat \<Rightarrow> aq_ring_s" where "vec_rx self i = snd (vec_ring self ! i)"

definition set_tx :: "nat \<Rightarrow> aq_ring_s \<Rightarrow> aq_vec_s \<Rightarrow> aq_vec_s" where
  "set_tx i r self = self\<lparr>vec_ring := (vec_ring self)[i := (r, vec_rx self i)]\<rparr>"
definition set_rx :: "nat \<Rightarrow> aq_ring_s \<Rightarrow> aq_vec_s \<Rightarrow> aq_vec_s" where
  "set_rx i r self = self\<lparr>vec_ring := (vec_ring self)[i := (vec_tx self i, r)]\<rparr>"

subsection \<open>Polling\<close>

text \<open>
  The transmit half of one pair: the result says whether the poll is left with an error,
  and whether the cleaning got to the end (unchanged when there was nothing to clean).
\<close>

definition poll_tx :: "vec_ops \<Rightarrow> nat \<Rightarrow> bool \<Rightarrow> aq_vec_s \<Rightarrow> bool \<times> bool \<times> aq_vec_s" where
  "poll_tx ops i was_tx_cleaned self =
     (let (err, self) =
        (case hw_ring_tx_head_update ops of
           None \<Rightarrow> (0, self)
         | Some f \<Rightarrow> (case f (vec_hw self) (vec_tx self i) of
             (err, hw, tx) \<Rightarrow> (err, set_tx i tx (self\<lparr>vec_hw := hw\<rparr>)))) in
      if err < 0 then (True, was_tx_cleaned, self)
      else if sw_head (vec_tx self i) \<noteq> hw_head (vec_tx self i)
      then (case aq_ring_tx_clean (vec_tx self i) (vec_kern self) of (cleaned, tx, k) \<Rightarrow>
          case aq_ring_update_queue_state tx (vec_queues self) of (tx, q) \<Rightarrow>
            (False, cleaned, set_tx i tx (self\<lparr>vec_kern := k, vec_queues := q\<rparr>)))
      else (False, was_tx_cleaned, self))"

text \<open>
  The receive half. \<open>thres\<close> is the refill threshold. \<open>None\<close> is a chain of descriptors that
  never ends. NAPI's budget is positive and the work done never passes it.
\<close>

definition poll_refill :: "vec_ops \<Rightarrow> u32 \<Rightarrow> nat \<Rightarrow> aq_vec_s \<Rightarrow> bool \<times> aq_vec_s" where
  "poll_refill ops thres i self =
     (let sw_tail_old = sw_tail (vec_rx self i) in
      case aq_ring_rx_fill thres (vec_rx self i) (vec_kern self) of (err, rx, k) \<Rightarrow>
        let self = set_rx i rx (self\<lparr>vec_kern := k\<rparr>) in
        if err < 0 then (True, self)
        else case hw_ring_rx_fill ops (vec_hw self) (vec_rx self i) sw_tail_old of (err, hw, rx) \<Rightarrow>
          (err < 0, set_rx i rx (self\<lparr>vec_hw := hw\<rparr>)))"

definition poll_rx :: "vec_ops \<Rightarrow> u32 \<Rightarrow> nat \<Rightarrow> nat \<Rightarrow> nat \<Rightarrow> aq_vec_s \<Rightarrow> (bool \<times> nat \<times> aq_vec_s) option" where
  "poll_rx ops thres budget i work_done self =
     (case hw_ring_rx_receive ops (vec_hw self) (vec_rx self i) of (err, hw, rx) \<Rightarrow>
        let self = set_rx i rx (self\<lparr>vec_hw := hw\<rparr>) in
        if err < 0 then Some (True, work_done, self)
        else if sw_head (vec_rx self i) \<noteq> hw_head (vec_rx self i)
        then (case aq_ring_rx_clean (vec_rx self i) (vec_kern self) (vec_napi self) work_done
                (budget - work_done) None of
            None \<Rightarrow> None
          | Some (err, work_done, rx, k, napi) \<Rightarrow>
              let self = set_rx i rx (self\<lparr>vec_kern := k, vec_napi := napi\<rparr>) in
              if err < 0 then Some (True, work_done, self)
              else (case poll_refill ops thres i self of (stop, self) \<Rightarrow> Some (stop, work_done, self)))
        else Some (False, work_done, self))"

fun poll_loop :: "nat \<Rightarrow> vec_ops \<Rightarrow> u32 \<Rightarrow> nat \<Rightarrow> nat \<Rightarrow> bool \<Rightarrow> nat \<Rightarrow> aq_vec_s \<Rightarrow>
    (bool \<times> bool \<times> nat \<times> aq_vec_s) option" where
  "poll_loop 0 ops thres budget i was_tx_cleaned work_done self =
     Some (False, was_tx_cleaned, work_done, self)"
| "poll_loop (Suc n) ops thres budget i was_tx_cleaned work_done self =
     (case poll_tx ops i was_tx_cleaned self of (stop, was_tx_cleaned, self) \<Rightarrow>
        if stop then Some (True, was_tx_cleaned, work_done, self)
        else case poll_rx ops thres budget i work_done self of
          None \<Rightarrow> None
        | Some (stop, work_done, self) \<Rightarrow>
            if stop then Some (True, was_tx_cleaned, work_done, self)
            else poll_loop n ops thres budget (Suc i) was_tx_cleaned work_done self)"

definition vec_irq_bit :: "aq_vec_s \<Rightarrow> u64" where
  "vec_irq_bit self = ucast (push_bit (unat (vec_idx (aq_ring_param self))) 1 :: u32)"

definition aq_vec_poll :: "vec_ops \<Rightarrow> u32 \<Rightarrow> aq_vec_s \<Rightarrow> nat \<Rightarrow> (nat \<times> aq_vec_s) option" where
  "aq_vec_poll ops thres self budget =
     (case poll_loop (length (vec_ring self)) ops thres budget 0 True 0 self of
        None \<Rightarrow> None
      | Some (stop, was_tx_cleaned, work_done, self) \<Rightarrow>
          if stop then Some (work_done, self)
          else
            let work_done = (if \<not> was_tx_cleaned then budget else work_done) in
            if work_done < budget
            then let self = self\<lparr>napi_scheduled := False\<rparr>
              in Some (work_done, self\<lparr>vec_hw := snd (hw_irq_enable ops (vec_hw self) (vec_irq_bit self))\<rparr>)
            else Some (work_done, self))"

subsection \<open>Set-up, start, stop, release\<close>

definition vec_init_ring :: "vec_ops \<Rightarrow> u32 \<Rightarrow> nat \<Rightarrow> aq_vec_s \<Rightarrow> int \<times> aq_vec_s" where
  "vec_init_ring ops thres i self =
     (let self = set_tx i (aq_ring_init (vec_tx self i)) self in
      case hw_ring_tx_init ops (vec_hw self) (vec_tx self i) (aq_ring_param self) of (err, hw) \<Rightarrow>
        let self = self\<lparr>vec_hw := hw\<rparr> in
        if err < 0 then (err, self)
        else
          let self = set_rx i (aq_ring_init (vec_rx self i)) self in
          case hw_ring_rx_init ops (vec_hw self) (vec_rx self i) (aq_ring_param self) of (err, hw) \<Rightarrow>
            let self = self\<lparr>vec_hw := hw\<rparr> in
            if err < 0 then (err, self)
            else case aq_ring_rx_fill thres (vec_rx self i) (vec_kern self) of (err, rx, k) \<Rightarrow>
              let self = set_rx i rx (self\<lparr>vec_kern := k\<rparr>) in
              if err < 0 then (err, self)
              else case hw_ring_rx_fill ops (vec_hw self) (vec_rx self i) 0 of (err, hw, rx) \<Rightarrow>
                (err, set_rx i rx (self\<lparr>vec_hw := hw\<rparr>)))"

fun vec_for_rings :: "nat \<Rightarrow> nat \<Rightarrow> (nat \<Rightarrow> aq_vec_s \<Rightarrow> int \<times> aq_vec_s) \<Rightarrow> int \<Rightarrow> aq_vec_s \<Rightarrow> int \<times> aq_vec_s" where
  "vec_for_rings 0 i f err self = (err, self)"
| "vec_for_rings (Suc n) i f err self =
     (case f i self of (err, self) \<Rightarrow>
        if err < 0 then (err, self) else vec_for_rings n (Suc i) f err self)"

definition aq_vec_init :: "vec_ops \<Rightarrow> u32 \<Rightarrow> aq_vec_s \<Rightarrow> int \<times> aq_vec_s" where
  "aq_vec_init ops thres self = vec_for_rings (length (vec_ring self)) 0 (vec_init_ring ops thres) 0 self"

definition vec_start_ring :: "vec_ops \<Rightarrow> nat \<Rightarrow> aq_vec_s \<Rightarrow> int \<times> aq_vec_s" where
  "vec_start_ring ops i self =
     (case hw_ring_tx_start ops (vec_hw self) (vec_tx self i) of (err, hw) \<Rightarrow>
        let self = self\<lparr>vec_hw := hw\<rparr> in
        if err < 0 then (err, self)
        else case hw_ring_rx_start ops (vec_hw self) (vec_rx self i) of (err, hw) \<Rightarrow> (err, self\<lparr>vec_hw := hw\<rparr>))"

definition aq_vec_start :: "vec_ops \<Rightarrow> aq_vec_s \<Rightarrow> int \<times> aq_vec_s" where
  "aq_vec_start ops self =
     (case vec_for_rings (length (vec_ring self)) 0 (vec_start_ring ops) 0 self of (err, self) \<Rightarrow>
        if err < 0 then (err, self) else (err, self\<lparr>napi_enabled := True\<rparr>))"

fun vec_stop_loop :: "nat \<Rightarrow> nat \<Rightarrow> vec_ops \<Rightarrow> aq_vec_s \<Rightarrow> aq_vec_s" where
  "vec_stop_loop 0 i ops self = self"
| "vec_stop_loop (Suc n) i ops self =
     (let self = self\<lparr>vec_hw := snd (hw_ring_tx_stop ops (vec_hw self) (vec_tx self i))\<rparr>;
          self = self\<lparr>vec_hw := snd (hw_ring_rx_stop ops (vec_hw self) (vec_rx self i))\<rparr>
      in vec_stop_loop n (Suc i) ops self)"

definition aq_vec_stop :: "vec_ops \<Rightarrow> aq_vec_s \<Rightarrow> aq_vec_s" where
  "aq_vec_stop ops self = (vec_stop_loop (length (vec_ring self)) 0 ops self)\<lparr>napi_enabled := False\<rparr>"

fun vec_deinit_loop :: "nat \<Rightarrow> nat \<Rightarrow> aq_vec_s \<Rightarrow> aq_vec_s" where
  "vec_deinit_loop 0 i self = self"
| "vec_deinit_loop (Suc n) i self =
     (case aq_ring_tx_clean (vec_tx self i) (vec_kern self) of (cleaned, tx, k) \<Rightarrow>
        let self = set_tx i tx (self\<lparr>vec_kern := k\<rparr>) in
        case aq_ring_rx_deinit (vec_rx self i) (vec_kern self) of (rx, k) \<Rightarrow>
          vec_deinit_loop n (Suc i) (set_rx i rx (self\<lparr>vec_kern := k\<rparr>)))"

definition aq_vec_deinit :: "aq_vec_s \<Rightarrow> aq_vec_s" where
  "aq_vec_deinit self = vec_deinit_loop (length (vec_ring self)) 0 self"

subsection \<open>Interrupts\<close>

text \<open>
  The handlers. \<open>irqreturn_t\<close> is an enumeration without negative members, for which the
  compilers of the driver use an unsigned type: \<open>err\<close> is a 32-bit word in the legacy handler,
  and a signed \<open>int\<close> in the other.
\<close>

definition IRQ_NONE :: u32 where "IRQ_NONE = 0"
definition IRQ_HANDLED :: u32 where "IRQ_HANDLED = 1"

definition aq_vec_isr :: "aq_vec_s \<Rightarrow> u32 \<times> aq_vec_s" where
  "aq_vec_isr self =
     (let err = 0 :: int; self = self\<lparr>napi_scheduled := True\<rparr> in
      (if 0 \<le> err then IRQ_HANDLED else IRQ_NONE, self))"

definition aq_vec_isr_legacy :: "vec_ops \<Rightarrow> aq_vec_s \<Rightarrow> u32 \<times> aq_vec_s" where
  "aq_vec_isr_legacy ops self =
     (case hw_irq_read ops (vec_hw self) of (ret, irq_mask, hw) \<Rightarrow>
        let self = self\<lparr>vec_hw := hw\<rparr>; err = word_of_int ret :: u32 in
        if err < 0 then (if 0 \<le> err then IRQ_HANDLED else IRQ_NONE, self)
        else
          let (err, self) =
            (if irq_mask \<noteq> 0
             then (err, self\<lparr>vec_hw := snd (hw_irq_disable ops (vec_hw self) (vec_irq_bit self)),
                     napi_scheduled := True\<rparr>)
             else (IRQ_NONE, self\<lparr>vec_hw := snd (hw_irq_enable ops (vec_hw self) 1)\<rparr>))
          in (if 0 \<le> err then IRQ_HANDLED else IRQ_NONE, self))"

subsection \<open>Statistics\<close>

definition add_rx_stats :: "aq_ring_stats_s \<Rightarrow> aq_ring_stats_s \<Rightarrow> aq_ring_stats_s" where
  "add_rx_stats t rx = t\<lparr>st_packets := st_packets t + st_packets rx, st_bytes := st_bytes t + st_bytes rx,
     st_errors := st_errors t + st_errors rx, st_jumbo_packets := st_jumbo_packets t + st_jumbo_packets rx,
     st_lro_packets := st_lro_packets t + st_lro_packets rx, st_pg_losts := st_pg_losts t + st_pg_losts rx,
     st_pg_flips := st_pg_flips t + st_pg_flips rx, st_pg_reuses := st_pg_reuses t + st_pg_reuses rx\<rparr>"

definition add_tx_stats :: "aq_ring_stats_s \<Rightarrow> aq_ring_stats_s \<Rightarrow> aq_ring_stats_s" where
  "add_tx_stats t tx = t\<lparr>st_packets := st_packets t + st_packets tx, st_bytes := st_bytes t + st_bytes tx,
     st_errors := st_errors t + st_errors tx, st_queue_restarts := st_queue_restarts t + st_queue_restarts tx\<rparr>"

definition zero_stats :: aq_ring_stats_s where
  "zero_stats = \<lparr>st_errors = 0, st_packets = 0, st_bytes = 0, st_lro_packets = 0, st_jumbo_packets = 0,
     st_pg_losts = 0, st_pg_flips = 0, st_pg_reuses = 0, st_queue_restarts = 0\<rparr>"

definition aq_vec_add_stats :: "aq_vec_s \<Rightarrow> aq_ring_stats_s \<times> aq_ring_stats_s \<Rightarrow> aq_ring_stats_s \<times> aq_ring_stats_s" where
  "aq_vec_add_stats self = fold (\<lambda>(tx, rx) (stats_rx, stats_tx).
     (add_rx_stats stats_rx (ring_stats rx), add_tx_stats stats_tx (ring_stats tx))) (vec_ring self)"

text \<open>The counters are added to the first six entries of \<open>data\<close>; the count is returned beside it.\<close>

definition aq_vec_get_sw_stats :: "aq_vec_s \<Rightarrow> u64 list \<Rightarrow> u64 list \<times> nat" where
  "aq_vec_get_sw_stats self data =
     (case aq_vec_add_stats self (zero_stats, zero_stats) of (stats_rx, stats_tx) \<Rightarrow>
        let data = data[0 := data ! 0 + st_packets stats_rx];
            data = data[1 := data ! 1 + st_packets stats_tx];
            data = data[2 := data ! 2 + st_queue_restarts stats_tx];
            data = data[3 := data ! 3 + st_jumbo_packets stats_rx];
            data = data[4 := data ! 4 + st_lro_packets stats_rx];
            data = data[5 := data ! 5 + st_errors stats_rx]
        in (data, 6))"


subsection \<open>Set-up posts every receive buffer\<close>

lemma vec_ring_sel [simp]:
  "vec_kern (set_tx i r self) = vec_kern self" "vec_kern (set_rx i r self) = vec_kern self"
  "vec_hw (set_tx i r self) = vec_hw self" "vec_hw (set_rx i r self) = vec_hw self"
  "aq_ring_param (set_tx i r self) = aq_ring_param self" "aq_ring_param (set_rx i r self) = aq_ring_param self"
  "length (vec_ring (set_tx i r self)) = length (vec_ring self)"
  "length (vec_ring (set_rx i r self)) = length (vec_ring self)"
  "napi_scheduled (set_tx i r self) = napi_scheduled self" "napi_scheduled (set_rx i r self) = napi_scheduled self"
  by (simp_all add: set_tx_def set_rx_def)

lemma vec_rx_set:
  "i < length (vec_ring self) \<Longrightarrow> vec_rx (set_rx i r self) j = (if j = i then r else vec_rx self j)"
  "vec_rx (set_tx i r self) j = vec_rx self j"
  "i < length (vec_ring self) \<Longrightarrow> vec_tx (set_tx i r self) j = (if j = i then r else vec_tx self j)"
  by (auto simp: set_rx_def set_tx_def vec_rx_def vec_tx_def nth_list_update)
    (metis list_update_beyond not_le nth_list_update snd_conv)

lemma vec_upd_sel [simp]:
  "vec_rx (self\<lparr>vec_hw := h\<rparr>) i = vec_rx self i" "vec_rx (self\<lparr>vec_kern := k\<rparr>) i = vec_rx self i"
  "vec_tx (self\<lparr>vec_hw := h\<rparr>) i = vec_tx self i" "vec_tx (self\<lparr>vec_kern := k\<rparr>) i = vec_tx self i"
  by (simp_all add: vec_rx_def vec_tx_def)

text \<open>A receive ring as allocated, and one whose buffers are all with the chip.\<close>

definition rx_fresh :: "aq_ring_s \<Rightarrow> bool" where
  "rx_fresh r \<longleftrightarrow> 2 \<le> ring_size r \<and> length (buff_ring r) = unat (ring_size r) \<and>
     length (dx_ring r) = unat (ring_size r) \<and> unat (page_order r) < 20"

definition rx_primed :: "aq_ring_s \<Rightarrow> bool" where
  "rx_primed r \<longleftrightarrow> ring_ok r \<and> sw_head r = 0 \<and> hw_head r = 0 \<and> sw_tail r = ring_size r - 1 \<and>
     (\<forall>p < ring_size r - 1. rx_posted (page_order r) (buff_ring r ! unat p) \<and>
        dx_ring r ! unat p = (pa (buff_ring r ! unat p), 0))"

lemma iter_from_0:
  assumes "n < unat (sz :: u32)"
  shows "(ring_next sz ^^ n) 0 = of_nat n" "p < sz \<Longrightarrow> p \<in> set (ring.walk sz 0 n) \<longleftrightarrow> unat p < n"
proof -
  have z: "(0 :: u32) < sz" using assms by (simp add: word_gt_0) (metis not_less_zero unat_0)
  have lt: "n < 4294967296" using assms unat_u32_less [of sz] by linarith
  have "unat ((ring_next sz ^^ n) 0) = n" using ring.pos_iter [OF z, of n] assms by simp
  then show "(ring_next sz ^^ n) 0 = of_nat n"
    using lt by (simp add: word_unat_eq_iff unsigned_of_nat take_bit_nat_eq_self)
  show "p < sz \<Longrightarrow> p \<in> set (ring.walk sz 0 n) \<longleftrightarrow> unat p < n"
    using ring.in_walk_iff [OF z _ less_imp_le [OF assms]] ring.gap_cases [OF z, of p] by simp
qed

lemma refill_from_start:
  assumes "rx_fresh r0" "sw_head r0 = 0" "hw_head r0 = 0" "sw_tail r0 = 0"
    and "aq_ring_rx_fill thres r0 k = (0, r1, k')" "\<forall>n. page_answer k n \<noteq> Some 0"
    and "hw_atl_b0_hw_ring_rx_fill hw r1 0 = (err, hw', r2)"
  shows "rx_primed r2"
proof -
  let ?sz = "ring_size r0"
  have z: "(0 :: u32) < ?sz" using assms(1) by (auto simp: rx_fresh_def word_less_nat_alt word_le_nat_alt)
  have ok: "ring_ok r0"
    using assms(1-4) z by (simp add: ring_ok_def rx_fresh_def ring.gap_0_iff [THEN iffD2])
  have av: "unat (aq_ring_avail_dx r0) = unat ?sz - 1"
    using avail_pending [OF ok] assms(2,4) z by (simp add: pending_def ring.gap_0_iff [THEN iffD2])
  have sz2: "2 \<le> unat ?sz" using assms(1) by (simp add: rx_fresh_def word_le_nat_alt)
  have "\<not> aq_ring_avail_dx r0 < min thres (?sz div 2)"
  proof -
    have "unat (min thres (?sz div 2)) \<le> unat (?sz div 2)" by (simp flip: word_le_nat_alt)
    also have "\<dots> = unat ?sz div 2" by (simp add: unat_div)
    also have "\<dots> \<le> unat ?sz - 1" using sz2 by linarith
    finally show ?thesis using av by (simp add: word_less_nat_alt)
  qed
  with rx_fill_spec [OF assms(5) ok assms(6)] assms(1)
  have f: "refilled False (unat ?sz - 1) r0 r1" "ring_ok r1"
    by (auto simp: rx_fresh_def av ENOMEM_def)
  have t1: "sw_tail r1 = of_nat (unat ?sz - 1)" "ring_size r1 = ?sz" "page_order r1 = page_order r0"
    "sw_head r1 = 0" "hw_head r1 = 0"
    using f(1) iter_from_0 [of "unat ?sz - 1" ?sz] sz2 assms(2-4) by (auto simp: refilled_def)
  have tail: "sw_tail r1 = ?sz - 1" using sz2 by (simp add: t1(1) of_nat_diff)
  have ut: "unat (?sz - 1) = unat ?sz - 1" using sz2 by (simp add: unat_sub word_le_nat_alt)
  have posted: "rx_posted (page_order r0) (buff_ring r1 ! unat p)" if "p < ?sz - 1" for p
  proof -
    have "p < ?sz" "unat p < unat ?sz - 1" using that ut sz2 by (auto simp: word_less_nat_alt)
    then have "p \<in> set (ring.walk ?sz (sw_tail r0) (unat ?sz - 1))"
      using iter_from_0(2) [of "unat ?sz - 1" ?sz p] sz2 assms(4) by simp
    then show ?thesis using f(1) by (auto simp: refilled_def)
  qed
  note b = b0_rx_fill_spec [OF assms(7) f(2), unfolded t1, OF z]
  have gap: "ring.gap ?sz 0 (?sz - 1) = unat ?sz - 1"
    using ring.gap_cases [OF z, of "?sz - 1"] ut sz2 by (simp add: word_less_nat_alt)
  have dx: "dx_ring r2 ! unat p = (pa (buff_ring r1 ! unat p), 0)" if "p < ?sz - 1" for p
  proof -
    have "p < ?sz" "unat p < unat ?sz - 1" using that ut sz2 by (auto simp: word_less_nat_alt)
    then have "p \<in> set (ring.walk ?sz 0 (ring.gap ?sz 0 (?sz - 1)))"
      using iter_from_0(2) [of "unat ?sz - 1" ?sz p] sz2 gap by simp
    then show ?thesis using b(5) \<open>p < ?sz\<close> tail t1(1) by simp
  qed
  obtain dxs where r2: "r2 = r1\<lparr>dx_ring := dxs\<rparr>" using b(3) by metis
  have "buff_ring r2 = buff_ring r1" "sw_tail r2 = ?sz - 1" "ring_size r2 = ?sz" "sw_head r2 = 0" "hw_head r2 = 0"
    "page_order r2 = page_order r0" using t1 tail by (simp_all add: r2)
  then show ?thesis using b(4) posted dx by (simp add: rx_primed_def)
qed


lemma rx_fill_loop_answers:
  "rx_fill_loop n r k = (err, r', k') \<Longrightarrow> \<forall>n. page_answer k n \<noteq> Some 0 \<Longrightarrow> page_answer k' = page_answer k"
proof (induction n arbitrary: r k)
  case (Suc n)
  define r1 where "r1 = upd_buff r (sw_tail r) (\<lambda>b. (clear_flags b)\<lparr>len := ucast AQ_CFG_RX_FRAME_MAX\<rparr>)"
  obtain e r2 b k1 where g: "aq_get_rxpages r1 (buff_ring r1 ! unat (sw_tail r1)) (page_order r1) k = (e, r2, b, k1)"
    by (metis prod_cases4)
  have k1: "page_answer k1 = page_answer k" by (rule get_rxpages_cases(2) [OF g Suc.prems(2)])
  show ?case
  proof (cases "e = 0")
    case True
    then obtain r3 where "rx_fill_loop n r3 k1 = (err, r', k')"
      using Suc.prems(1) g by (simp only: rx_fill_loop.simps r1_def [symmetric] Let_def) auto
    then show ?thesis using Suc.IH [of r3 k1] Suc.prems(2) k1 by simp
  next
    case False
    then have "k' = k1" using Suc.prems(1) g by (simp only: rx_fill_loop.simps r1_def [symmetric] Let_def) auto
    then show ?thesis using k1 by simp
  qed
qed simp

lemma rx_fill_answers:
  "aq_ring_rx_fill thres r k = (err, r', k') \<Longrightarrow> \<forall>n. page_answer k n \<noteq> Some 0 \<Longrightarrow> page_answer k' = page_answer k"
  by (auto simp: aq_ring_rx_fill_def dest: rx_fill_loop_answers split: if_splits)

definition primes :: "nat \<Rightarrow> aq_vec_s \<Rightarrow> aq_vec_s \<Rightarrow> bool" where
  "primes i st st' \<longleftrightarrow> rx_primed (vec_rx st' i) \<and> (\<forall>j. j \<noteq> i \<longrightarrow> vec_rx st' j = vec_rx st j) \<and>
     length (vec_ring st') = length (vec_ring st) \<and> page_answer (vec_kern st') = page_answer (vec_kern st)"

lemma rx_fill_negative: "rx_fill_loop n r k = (err, r', k') \<Longrightarrow> err \<le> 0"
proof (induction n arbitrary: r k)
  case (Suc n)
  then show ?case
    by (auto simp: aq_get_rxpages_def aq_get_rxpage_def ENOMEM_def Let_def split: prod.splits if_splits option.splits)
qed simp

lemma vec_init_ring_primes:
  assumes "i < length (vec_ring st)" "rx_fresh (vec_rx st i)" "\<forall>n. page_answer (vec_kern st) n \<noteq> Some 0"
    and "vec_init_ring b0_vec_ops thres i st = (err, st')" "\<not> err < 0"
  shows "primes i st st'"
proof -
  define s1 where "s1 = set_tx i (aq_ring_init (vec_tx st i)) st"
  obtain e1 h1 where i1: "hw_atl_b0_hw_ring_tx_init (vec_hw s1) (vec_tx s1 i) (aq_ring_param s1) = (e1, h1)"
    by (metis prod.exhaust)
  define s2 where "s2 = set_rx i (aq_ring_init (vec_rx (s1\<lparr>vec_hw := h1\<rparr>) i)) (s1\<lparr>vec_hw := h1\<rparr>)"
  obtain e2 h2 where i2: "hw_atl_b0_hw_ring_rx_init (vec_hw s2) (vec_rx s2 i) (aq_ring_param s2) = (e2, h2)"
    by (metis prod.exhaust)
  define s3 where "s3 = s2\<lparr>vec_hw := h2\<rparr>"
  obtain e3 rx3 k3 where i3: "aq_ring_rx_fill thres (vec_rx s3 i) (vec_kern s3) = (e3, rx3, k3)"
    by (metis prod_cases3)
  define s4 where "s4 = set_rx i rx3 (s3\<lparr>vec_kern := k3\<rparr>)"
  obtain e4 h4 rx4 where i4: "hw_atl_b0_hw_ring_rx_fill (vec_hw s4) (vec_rx s4 i) 0 = (e4, h4, rx4)"
    by (metis prod_cases3)
  have ops: "hw_ring_tx_init b0_vec_ops = hw_atl_b0_hw_ring_tx_init" "hw_ring_rx_init b0_vec_ops = hw_atl_b0_hw_ring_rx_init"
    "hw_ring_rx_fill b0_vec_ops = hw_atl_b0_hw_ring_rx_fill"
    by (simp_all add: b0_vec_ops_def)
  have "vec_init_ring b0_vec_ops thres i st =
    (if e1 < 0 then (e1, s1\<lparr>vec_hw := h1\<rparr>) else if e2 < 0 then (e2, s3) else if e3 < 0 then (e3, s4)
     else (e4, set_rx i rx4 (s4\<lparr>vec_hw := h4\<rparr>)))"
    by (simp only: vec_init_ring_def Let_def s1_def [symmetric] ops i1 prod.case s2_def [symmetric] i2
        s3_def [symmetric] i3 s4_def [symmetric] i4)
  then have e: "\<not> e3 < 0" "st' = set_rx i rx4 (s4\<lparr>vec_hw := h4\<rparr>)"
    using assms(4,5) by (auto split: if_splits)
  have l: "i < length (vec_ring s1)" "i < length (vec_ring s2)" "i < length (vec_ring s3)" "i < length (vec_ring s4)"
    using assms(1) by (simp_all add: s1_def s2_def s3_def s4_def)
  have rx3: "vec_rx s3 i = aq_ring_init (vec_rx st i)"
    using l by (simp add: s3_def s2_def s1_def vec_rx_set)
  have k3: "vec_kern s3 = vec_kern st" by (simp add: s3_def s2_def s1_def)
  have fr: "rx_fresh (vec_rx s3 i)" "sw_head (vec_rx s3 i) = 0" "hw_head (vec_rx s3 i) = 0" "sw_tail (vec_rx s3 i) = 0"
    using assms(2) by (simp_all add: rx3 rx_fresh_def aq_ring_init_def)
  have "e3 \<le> 0" using i3 rx_fill_negative by (auto simp: aq_ring_rx_fill_def split: if_splits)
  then have "e3 = 0" using e(1) by simp
  moreover have rx4: "vec_rx s4 i = rx3" using l by (simp add: s4_def vec_rx_set)
  ultimately have "rx_primed rx4"
    using refill_from_start [OF fr _ _ i4 [unfolded rx4]] i3 assms(3) by (simp add: k3)
  moreover have "page_answer k3 = page_answer (vec_kern st)"
    using rx_fill_answers [OF i3] assms(3) by (simp add: k3)
  ultimately show ?thesis
    unfolding primes_def e(2) using l
    by (simp add: vec_rx_set) (simp add: s4_def s3_def s2_def s1_def vec_rx_set)
qed

lemma vec_init_primes:
  assumes "vec_for_rings n i (vec_init_ring b0_vec_ops thres) e0 st = (err, st')" "\<not> err < 0"
    and "i + n \<le> length (vec_ring st)" "\<forall>j. i \<le> j \<and> j < i + n \<longrightarrow> rx_fresh (vec_rx st j)"
    and "\<forall>n. page_answer (vec_kern st) n \<noteq> Some 0"
  shows "(\<forall>j. i \<le> j \<and> j < i + n \<longrightarrow> rx_primed (vec_rx st' j)) \<and> (\<forall>j < i. vec_rx st' j = vec_rx st j)"
  using assms
proof (induction n arbitrary: i e0 st)
  case (Suc n)
  obtain e s1 where s1: "vec_init_ring b0_vec_ops thres i st = (e, s1)" by (metis prod.exhaust)
  have e: "\<not> e < 0" "vec_for_rings n (Suc i) (vec_init_ring b0_vec_ops thres) e s1 = (err, st')"
    using Suc.prems(1,2) s1 by (auto split: if_splits)
  have p: "primes i st s1"
    using Suc.prems(3-5) by (intro vec_init_ring_primes [OF _ _ _ s1 e(1)]) auto
  have "(\<forall>j. Suc i \<le> j \<and> j < Suc i + n \<longrightarrow> rx_primed (vec_rx st' j)) \<and> (\<forall>j < Suc i. vec_rx st' j = vec_rx s1 j)"
    using Suc.prems(2-5) p by (intro Suc.IH [OF e(2)]) (auto simp: primes_def)
  then show ?case using p by (auto simp: primes_def le_less_Suc_eq not_le dest: le_neq_implies_less)
qed auto


subsection \<open>A refill that fails half-way\<close>

text \<open>
  \<open>poll_refill\<close> gives up when a page cannot be had, with the tail already moved past the
  buffers it did fill. The next refill starts posting at that tail, so the descriptors of
  the buffers in between are published as they are.
\<close>

lemma poll_refill_ring:
  assumes "i < length (vec_ring st)" "poll_refill b0_vec_ops thres i st = (stop, st')"
    and "aq_ring_rx_fill thres (vec_rx st i) (vec_kern st) = (err, rx, k)"
  shows "vec_rx st' i = (if err < 0 then rx
      else snd (snd (hw_atl_b0_hw_ring_rx_fill (vec_hw st) rx (sw_tail (vec_rx st i)))))"
    and "err < 0 \<Longrightarrow> stop \<and> vec_hw st' = vec_hw st"
  using assms by (auto simp: poll_refill_def b0_vec_ops_def vec_rx_set Let_def split: prod.splits if_splits)

lemma half_refill_stale:
  assumes r: "ring_ok r" "unat (page_order r) < 20"
    and one: "aq_ring_rx_fill thres r k = (err1, r1, k1)" "err1 < 0" "\<forall>n. page_answer k n \<noteq> Some 0"
    and two: "aq_ring_rx_fill thres r1 k2 = (0, r2, k3)" "\<forall>n. page_answer k2 n \<noteq> Some 0"
    and fill: "hw_atl_b0_hw_ring_rx_fill hw r2 (sw_tail r1) = (err, hw', r3)"
    and p: "p < ring_size r" "ring.gap (ring_size r) (sw_tail r) p < ring.gap (ring_size r) (sw_tail r) (sw_tail r1)"
  shows "dx_ring r3 ! unat p = dx_ring r ! unat p" "rx_posted (page_order r) (buff_ring r3 ! unat p)"
    and "pending r \<le> ring.gap (ring_size r) (sw_head r) p" "ring.gap (ring_size r) (sw_head r) p < pending r3"
    and "hw' = hw_atl_reg_rx_dma_desc_tail_ptr_set hw (sw_tail r2) (ring_idx r2)" "sw_tail r3 = sw_tail r2"
proof -
  let ?sz = "ring_size r"
  obtain m where m: "m \<le> unat (aq_ring_avail_dx r)" "refilled True m r r1" "ring_ok r1" "pending r1 = pending r + m"
    using rx_fill_spec [OF one(1) r(1) one(3) r(2)] one(2) by (auto simp: ENOMEM_def)
  have s1: "ring_size r1 = ?sz" "sw_head r1 = sw_head r" "dx_ring r1 = dx_ring r" "page_order r1 = page_order r"
    "sw_tail r1 = (ring_next ?sz ^^ m) (sw_tail r)"
    using m(2) by (auto simp: refilled_def)
  have po: "unat (page_order r1) < 20" using r(2) s1 by simp
  obtain n where n: "n \<le> unat (aq_ring_avail_dx r1)" "refilled False n r1 r2" "ring_ok r2" "pending r2 = pending r1 + n"
    using rx_fill_spec [OF two(1) m(3) two(2) po] by auto
  have s2: "ring_size r2 = ?sz" "sw_head r2 = sw_head r" "dx_ring r2 = dx_ring r" "page_order r2 = page_order r"
    using n(2) s1 by (auto simp: refilled_def)
  have v: "sw_tail r < ?sz" "sw_head r < ?sz" "sw_tail r1 < ?sz" "sw_tail r2 < ?sz"
    using r(1) m(3) n(3) s1 s2 by (auto simp: ring_ok_def)
  have lt: "m < unat ?sz" "pending r + m + n < unat ?sz"
    using m n avail_pending [OF r(1)] avail_pending [OF m(3)] s1 r(1)
    by (auto simp: ring_ok_def word_le_nat_alt)
  have g1: "ring.gap ?sz (sw_tail r) (sw_tail r1) = m"
    unfolding s1(5) using v lt by (intro ring.gap_iter) auto
  have pm: "ring.gap ?sz (sw_tail r) p < m" using p(2) g1 by simp
  then have pw: "p \<in> set (ring.walk ?sz (sw_tail r) m)"
    using ring.in_walk_iff [OF v(1) p(1)] lt by simp
  have hp: "ring.gap ?sz (sw_head r) p = pending r + ring.gap ?sz (sw_tail r) p"
  proof -
    define j where "j = ring.gap ?sz (sw_tail r) p"
    have "(ring_next ?sz ^^ j) (sw_tail r) = p" unfolding j_def by (rule ring.iter_gap [OF v(1) p(1)])
    moreover have "(ring_next ?sz ^^ pending r) (sw_head r) = sw_tail r"
      unfolding pending_def by (rule ring.iter_gap [OF v(2,1)])
    ultimately have "p = (ring_next ?sz ^^ (j + pending r)) (sw_head r)" by (simp add: funpow_add)
    then have "ring.gap ?sz (sw_head r) p = j + pending r"
      using ring.gap_iter [OF v(2), of "j + pending r"] pm lt by (simp add: j_def)
    then show ?thesis by (simp add: j_def)
  qed
  have b1: "rx_posted (page_order r) (buff_ring r1 ! unat p)" using m(2) pw by (auto simp: refilled_def)
  have t1: "sw_tail r1 = (ring_next ?sz ^^ (pending r + m)) (sw_head r)"
    using ring.iter_gap [OF v(2,3)] m(4) by (simp add: pending_def s1)
  have np: "p \<notin> set (ring.walk ?sz (sw_tail r1) n)"
  proof
    assume "p \<in> set (ring.walk ?sz (sw_tail r1) n)"
    then obtain j where j: "j < n" "p = (ring_next ?sz ^^ j) (sw_tail r1)" by (auto simp: ring.walk_def)
    then have "p = (ring_next ?sz ^^ (j + (pending r + m))) (sw_head r)" by (simp add: t1 funpow_add)
    then have "ring.gap ?sz (sw_head r) p = j + (pending r + m)"
      using ring.gap_iter [OF v(2), of "j + (pending r + m)"] j(1) lt by simp
    then show False using hp pm by simp
  qed
  have b2: "buff_ring r2 ! unat p = buff_ring r1 ! unat p"
    using n(2) np p(1) s1 by (auto simp: refilled_def)
  have t2: "sw_tail r2 = (ring_next ?sz ^^ n) (sw_tail r1)" using n(2) s1 by (simp add: refilled_def)
  have g2: "ring.gap ?sz (sw_tail r1) (sw_tail r2) = n"
    unfolding t2 using v lt by (intro ring.gap_iter) auto
  note f = b0_rx_fill_spec [OF fill n(3), unfolded s2, OF v(3)]
  obtain dxs where r3: "r3 = r2\<lparr>dx_ring := dxs\<rparr>" using f(3) by metis
  show "dx_ring r3 ! unat p = dx_ring r ! unat p" using f(5) p(1) np g2 by simp
  show "rx_posted (page_order r) (buff_ring r3 ! unat p)" using b1 b2 by (simp add: r3)
  show "pending r \<le> ring.gap ?sz (sw_head r) p" using hp by simp
  have "pending r3 = pending r2" by (simp add: pending_def r3)
  then show "ring.gap ?sz (sw_head r) p < pending r3" using hp pm n(4) m(4) by simp
  show "hw' = hw_atl_reg_rx_dma_desc_tail_ptr_set hw (sw_tail r2) (ring_idx r2)" by (fact f(1))
  show "sw_tail r3 = sw_tail r2" by (simp add: r3)
qed

subsection \<open>From descriptors to packets\<close>

text \<open>
  Write-backs of uncoalesced packets: no LRO chain, and only the last descriptor of a packet
  is not full.
\<close>

definition plain_wb :: "u64 \<times> u64 \<Rightarrow> bool" where
  "plain_wb d \<longleftrightarrow> \<not> wb_eop d \<longrightarrow> \<not> wb_lro d \<and> 2048 \<le> wb_pkt_len (rxd_wb d)"

lemma rx_done_positions:
  assumes "ring_ok r"
  shows "rx_done r = ring.walk (ring_size r) (hw_head r) (length (rx_done r))"
proof -
  let ?w = "ring.walk (ring_size r) (hw_head r) (ring.gap (ring_size r) (hw_head r) (sw_tail r))"
  have "rx_done r = take (length (rx_done r)) ?w" unfolding rx_done_def by (rule takeWhile_eq_take)
  also have "\<dots> = ring.walk (ring_size r) (hw_head r) (length (rx_done r))"
    using length_rx_done [of r] by (simp add: ring.walk_def take_map)
  finally show ?thesis .
qed

lemma b0_receive_pend:
  assumes ok: "ring_ok r" "sw_head r = hw_head r" "ring_size r \<le> 0x10000"
    and rec: "hw_atl_b0_hw_ring_rx_receive hw r = (err, hw', r')"
    and wb: "\<forall>i < ring_size r. wb_done (dx_ring r ! unat i) \<longrightarrow> plain_wb (dx_ring r ! unat i)"
    and old: "\<forall>i < ring_size r. is_eop (buff_at r i) \<or> AQ_CFG_RX_HDR_SIZE < len (buff_at r i)"
  shows "rx_ok r'" "sw_head r' \<noteq> hw_head r' \<Longrightarrow> jumbo_links r'" "long_heads r'" "ahead r' (hw_head r') = length (rx_done r)"
    and "pend r' = map (\<lambda>i. rx_decoded (aq_nic_cfg hw) (ring_size r) i (dx_ring r ! unat i) (buff_at r i)) (rx_done r)"
proof -
  let ?sz = "ring_size r" and ?n = "length (rx_done r)"
  note sp = b0_rx_receive_spec [OF rec ok(1)]
  have s: "ring_size r' = ?sz" "sw_head r' = sw_head r" by (subst sp(4), simp)+
  have at: "buff_at r' i = (if i \<in> set (rx_done r)
      then rx_decoded (aq_nic_cfg hw) ?sz i (dx_ring r ! unat i) (buff_at r i) else buff_at r i)" if "i < ?sz" for i
    using sp(6) that by (simp add: buff_at_def)
  have h: "hw_head r < ?sz" "sw_tail r < ?sz" using ok(1) by (auto simp: ring_ok_def)
  have n: "?n < unat ?sz" using length_rx_done [of r] ring.gap_less [OF h(1), of "sw_tail r"] by simp
  show rok: "rx_ok r'" using sp(3) by (auto simp: rx_ok_def ring_len_ok_def ring_ok_def)
  show ah: "ahead r' (hw_head r') = ?n"
    using ring.gap_iter [OF h(1) n] by (simp add: ahead_def s ok(2) sp(5))
  have dn: "i \<in> set (rx_done r) \<Longrightarrow> i < ?sz \<and> wb_done (dx_ring r ! unat i)" for i
  proof -
    assume i: "i \<in> set (rx_done r)"
    then have "wb_done (dx_ring r ! unat i)" by (auto simp: rx_done_def dest: set_takeWhileD)
    moreover have "i \<in> set (ring.walk ?sz (hw_head r) ?n)" using i rx_done_positions [OF ok(1)] by simp
    then have "i < ?sz" using h(1) by (auto simp: ring.walk_def ring.valid_iter)
    ultimately show ?thesis by simp
  qed
  have pl: "i \<in> set (rx_done r) \<Longrightarrow> plain_wb (dx_ring r ! unat i)" for i using dn wb by blast
  show "pend r' = map (\<lambda>i. rx_decoded (aq_nic_cfg hw) ?sz i (dx_ring r ! unat i) (buff_at r i)) (rx_done r)"
    unfolding pend_def ah s(1) s(2) ok(2)
    by (subst rx_done_positions [OF ok(1), symmetric], rule map_cong) (use at dn in auto)
  have lead: "i \<in> set (rx_done r)" if "i < ?sz" "i = sw_head r' \<or> in_pending r' i" "sw_head r' \<noteq> hw_head r'" for i
  proof -
    have "ahead r' i < ?n" using ahead_pend [OF rok that(3)] that ah by (simp add: s)
    then have "i \<in> set (ring.walk ?sz (hw_head r) ?n)"
      using ring.in_walk_iff [OF h(1) that(1)] n by (simp add: ahead_def s ok(2))
    then show ?thesis using rx_done_positions [OF ok(1)] by simp
  qed
  show "long_heads r'"
    unfolding long_heads_def
  proof (intro allI impI)
    fix i assume i: "i < ring_size r'" "\<not> is_eop (buff_at r' i)"
    show "AQ_CFG_RX_HDR_SIZE < len (buff_at r' i)"
    proof (cases "i \<in> set (rx_done r)")
      case True
      then have "\<not> wb_eop (dx_ring r ! unat i)" "plain_wb (dx_ring r ! unat i)" using i at pl by (auto simp: s)
      then have "wb_len (dx_ring r ! unat i) = 2048" by (auto simp: plain_wb_def wb_len_def min_def Let_def intro: order.antisym)
      then show ?thesis using True i at by (simp add: s AQ_CFG_RX_HDR_SIZE_def)
    next
      case False
      then show ?thesis using i at old by (auto simp: s)
    qed
  qed
  show "jumbo_links r'" if False: "sw_head r' \<noteq> hw_head r'"
    unfolding jumbo_links_def
  proof (intro allI impI)
      fix i assume i: "i < ring_size r'" "i = sw_head r' \<or> in_pending r' i" "\<not> is_eop (buff_at r' i)"
      have d: "i \<in> set (rx_done r)" using lead i False by (simp add: s)
      then have w: "\<not> wb_eop (dx_ring r ! unat i)" "\<not> wb_lro (dx_ring r ! unat i)"
        using i at pl by (auto simp: s plain_wb_def)
      have "ring_next ?sz i < ?sz" using i by (simp add: s ring_next_less)
      then have "unat (ring_next ?sz i) < 65536" using ok(3) by (simp add: word_less_nat_alt word_le_nat_alt)
      then have "(ucast (ucast (ring_next ?sz i) :: u16) :: u32) = ring_next ?sz i"
        by (simp add: word_unat_eq_iff unsigned_ucast_eq unsigned_take_bit_eq take_bit_nat_eq_self)
      then show "next_of r' i = ring_next (ring_size r') i"
        using i d w at by (simp add: next_of_def s rx_decoded_next)
    qed
qed


text \<open>Decoding and passing up together: the packets are those of the descriptors.\<close>

definition wb_packets :: "aq_hw_s \<Rightarrow> aq_ring_s \<Rightarrow> aq_ring_buff_s list list" where
  "wb_packets hw r = rx_packets
     (map (\<lambda>i. rx_decoded (aq_nic_cfg hw) (ring_size r) i (dx_ring r ! unat i) (buff_at r i)) (rx_done r))"

lemma receive_and_clean:
  assumes "ring_ok r" "sw_head r = hw_head r" "ring_size r \<le> 0x10000"
    and rec: "hw_atl_b0_hw_ring_rx_receive hw r = (err, hw', r1)"
    and "\<forall>i < ring_size r. wb_done (dx_ring r ! unat i) \<longrightarrow> plain_wb (dx_ring r ! unat i)"
    and "\<forall>i < ring_size r. is_eop (buff_at r i) \<or> AQ_CFG_RX_HDR_SIZE < len (buff_at r i)"
    and "napi_ok napi" "\<forall>n. skb_answer napi n" "length (rx_done r) \<le> budget"
  shows "\<exists>w r2 k2 napi2 skbs. aq_ring_rx_clean r1 k napi wd budget None = Some (0, wd + w, r2, k2, napi2) \<and>
    received napi2 = received napi @ skbs \<and> list_all2 (carries napi (ring_idx r)) (wb_packets hw r) skbs"
proof -
  note p = b0_receive_pend [OF assms(1-6)]
  have idx: "ring_idx r1 = ring_idx r" by (subst b0_rx_receive_spec(4) [OF rec assms(1)]) simp
  show ?thesis
  proof (cases "sw_head r1 = hw_head r1")
    case True
    then have "ahead r1 (hw_head r1) = 0" using p(1) by (simp add: ahead_def rx_ok_def ring.gap_0_iff)
    then have "rx_done r = []" using p(4) by simp
    then show ?thesis using True
      by (cases budget) (simp_all add: aq_ring_rx_clean_def wb_packets_def)
  next
    case False
    show ?thesis
      using rx_clean_loop_packets [OF p(1) p(2) [OF False] assms(7) p(3) assms(8), of budget wd k] assms(9) p(4,5)
      by (auto simp: aq_ring_rx_clean_def wb_packets_def idx)
  qed
qed

end
