(* ===== verification/Vec_Mem.thy ===== *)
theory Vec_Mem
  imports Rx_Ring
begin

section \<open>Memory of rings and vectors (aq_ring.c, aq_vec.c)\<close>

text \<open>
  Allocating and freeing the memory of rings (\<open>aq_ring_alloc\<close>, \<open>aq_ring_tx_alloc\<close>,
  \<open>aq_ring_rx_alloc\<close>, \<open>aq_ring_hwts_rx_alloc\<close>, \<open>aq_ring_free\<close>) and of a vector
  (\<open>aq_vec_alloc\<close>, \<open>aq_vec_free\<close>). Blocks are addresses, 0 is NULL; \<open>mem\<close> answers the
  \<open>n\<close>-th allocation with a block or a failure and records what is allocated and freed.
  The null checks on \<open>self\<close> and the registrations with the network stack
  (\<open>netif_napi_add\<close>, \<open>cpumask_set_cpu\<close>, \<open>aq_nic_set_tx_ring\<close>) have no counterpart.
\<close>

datatype mevent = Kalloc u64 | Kfree u64 | Dma_alloc u64 nat | Dma_free u64 nat

record mem =
  mem_answer :: "nat \<Rightarrow> u64 option"
  mem_calls :: nat
  mem_log :: "mevent list"

definition mem_logs :: "mevent \<Rightarrow> mem \<Rightarrow> mem" where
  "mem_logs e m = m\<lparr>mem_log := mem_log m @ [e]\<rparr>"

definition mem_get :: "(u64 \<Rightarrow> mevent) \<Rightarrow> mem \<Rightarrow> u64 \<times> mem" where
  "mem_get ev m =
     (let a = mem_answer m (mem_calls m); m = m\<lparr>mem_calls := Suc (mem_calls m)\<rparr> in
      case a of None \<Rightarrow> (0, m) | Some p \<Rightarrow> (p, mem_logs (ev p) m))"

text \<open>The members of \<open>aq_ring_s\<close> that allocation deals with.\<close>

record ring_mem =
  rm_buff_ring :: u64
  rm_dx_ring :: u64
  rm_idx :: u32
  rm_size :: u32
  rm_dx_size :: u32
  rm_page_order :: u32

definition ring_mem0 :: ring_mem where
  "ring_mem0 = \<lparr>rm_buff_ring = 0, rm_dx_ring = 0, rm_idx = 0, rm_size = 0, rm_dx_size = 0, rm_page_order = 0\<rparr>"

definition AQ_CFG_RXDS_DEF :: nat where "AQ_CFG_RXDS_DEF = 2048"

definition dx_bytes :: "ring_mem \<Rightarrow> nat" where
  "dx_bytes self = unat (rm_size self * rm_dx_size self)"

definition aq_ring_free :: "ring_mem \<Rightarrow> mem \<Rightarrow> mem" where
  "aq_ring_free self m =
     (let m = (if rm_buff_ring self \<noteq> 0 then mem_logs (Kfree (rm_buff_ring self)) m else m)
      in if rm_dx_ring self \<noteq> 0 then mem_logs (Dma_free (rm_dx_ring self) (dx_bytes self)) m else m)"

definition aq_ring_alloc :: "ring_mem \<Rightarrow> mem \<Rightarrow> bool \<times> ring_mem \<times> mem" where
  "aq_ring_alloc self m =
     (case mem_get Kalloc m of (p, m) \<Rightarrow>
        let self = self\<lparr>rm_buff_ring := p\<rparr> in
        if rm_buff_ring self = 0 then (False, self, aq_ring_free self m)
        else case mem_get (\<lambda>p. Dma_alloc p (dx_bytes self)) m of (p, m) \<Rightarrow>
          let self = self\<lparr>rm_dx_ring := p\<rparr> in
          if rm_dx_ring self = 0 then (False, self, aq_ring_free self m) else (True, self, m))"

definition aq_ring_tx_alloc :: "ring_mem \<Rightarrow> u32 \<Rightarrow> aq_nic_cfg_s \<Rightarrow> mem \<Rightarrow> bool \<times> ring_mem \<times> mem" where
  "aq_ring_tx_alloc self idx cfg m =
     (let self = self\<lparr>rm_idx := idx, rm_size := txds cfg, rm_dx_size := ucast (caps_txd_size (aq_hw_caps cfg))\<rparr>
      in aq_ring_alloc self m)"

text \<open>The kernel's \<open>fls\<close>: the position of the highest bit set, counted from 1.\<close>

fun fls :: "nat \<Rightarrow> nat" where
  "fls n = (if n = 0 then 0 else Suc (fls (n div 2)))"

declare fls.simps [simp del]

definition rx_page_order :: u32 where
  "rx_page_order = of_nat (fls (unat (AQ_CFG_RX_FRAME_MAX div PAGE_SIZE +
     (if AQ_CFG_RX_FRAME_MAX mod PAGE_SIZE \<noteq> 0 then 1 else 0)))) - 1"

definition aq_ring_rx_alloc :: "ring_mem \<Rightarrow> u32 \<Rightarrow> aq_nic_cfg_s \<Rightarrow> mem \<Rightarrow> bool \<times> ring_mem \<times> mem" where
  "aq_ring_rx_alloc self idx cfg m =
     (let self = self\<lparr>rm_idx := idx, rm_size := rxds cfg, rm_dx_size := ucast (caps_rxd_size (aq_hw_caps cfg)),
            rm_page_order := rx_page_order\<rparr>;
          self = (if rxpageorder cfg > rm_page_order self then self\<lparr>rm_page_order := rxpageorder cfg\<rparr> else self)
      in aq_ring_alloc self m)"

definition aq_ring_hwts_rx_alloc :: "u32 \<Rightarrow> u32 \<Rightarrow> u32 \<Rightarrow> mem \<Rightarrow> bool \<times> ring_mem \<times> mem" where
  "aq_ring_hwts_rx_alloc idx sz dx_sz m =
     (let self = ring_mem0\<lparr>rm_idx := idx, rm_size := sz, rm_dx_size := dx_sz\<rparr>;
          n = unat (sz * dx_sz + of_nat AQ_CFG_RXDS_DEF) in
      case mem_get (\<lambda>p. Dma_alloc p n) m of (p, m) \<Rightarrow>
        let self = self\<lparr>rm_dx_ring := p\<rparr> in
        if rm_dx_ring self = 0 then (False, self, aq_ring_free self m) else (True, self, m))"

subsection \<open>Vectors\<close>

record vec_mem =
  vm_self :: u64
  vm_ring :: "(ring_mem \<times> ring_mem) list"
  vm_tx_rings :: nat
  vm_rx_rings :: nat

definition AQ_NIC_TCVEC2RING :: "u32 \<Rightarrow> u32 \<Rightarrow> u32" where
  "AQ_NIC_TCVEC2RING tc vec = tc * AQ_CFG_TCS_MAX + vec"

fun vec_free_loop :: "(ring_mem \<times> ring_mem) list \<Rightarrow> mem \<Rightarrow> mem" where
  "vec_free_loop [] m = m"
| "vec_free_loop ((tx, rx) # rs) m = vec_free_loop rs (aq_ring_free rx (aq_ring_free tx m))"

definition aq_vec_free :: "vec_mem \<Rightarrow> mem \<Rightarrow> mem" where
  "aq_vec_free self m =
     mem_logs (Kfree (vm_self self)) (vec_free_loop (take (vm_tx_rings self) (vm_ring self)) m)"

fun vec_alloc_loop :: "nat \<Rightarrow> nat \<Rightarrow> u32 \<Rightarrow> aq_nic_cfg_s \<Rightarrow> vec_mem \<Rightarrow> mem \<Rightarrow> bool \<times> vec_mem \<times> mem" where
  "vec_alloc_loop 0 i idx cfg self m = (True, self, m)"
| "vec_alloc_loop (Suc n) i idx cfg self m =
     (let idx_ring = AQ_NIC_TCVEC2RING (of_nat (vm_tx_rings self)) idx in
      case aq_ring_tx_alloc (fst (vm_ring self ! i)) idx_ring cfg m of (ok, tx, m) \<Rightarrow>
        let self = self\<lparr>vm_ring := (vm_ring self)[i := (tx, snd (vm_ring self ! i))]\<rparr> in
        if \<not> ok then (False, self, m)
        else
          let self = self\<lparr>vm_tx_rings := Suc (vm_tx_rings self)\<rparr> in
          case aq_ring_rx_alloc (snd (vm_ring self ! i)) idx_ring cfg m of (ok, rx, m) \<Rightarrow>
            let self = self\<lparr>vm_ring := (vm_ring self)[i := (fst (vm_ring self ! i), rx)]\<rparr> in
            if \<not> ok then (False, self, m)
            else vec_alloc_loop n (Suc i) idx cfg (self\<lparr>vm_rx_rings := Suc (vm_rx_rings self)\<rparr>) m)"

definition aq_vec_alloc :: "u32 \<Rightarrow> aq_nic_cfg_s \<Rightarrow> mem \<Rightarrow> vec_mem option \<times> mem" where
  "aq_vec_alloc idx cfg m =
     (case mem_get Kalloc m of (p, m) \<Rightarrow>
        if p = 0 then (None, m)
        else
          let self = \<lparr>vm_self = p, vm_ring = replicate (unat AQ_CFG_TCS_MAX) (ring_mem0, ring_mem0),
                vm_tx_rings = 0, vm_rx_rings = 0\<rparr> in
          case vec_alloc_loop (unat (tcs cfg)) 0 idx cfg self m of (ok, self, m) \<Rightarrow>
            if ok then (Some self, m) else (None, aq_vec_free self m))"

subsection \<open>Balance\<close>

text \<open>What is allocated and not yet freed, block by block.\<close>

fun blocks_in :: "mevent \<Rightarrow> u64 \<Rightarrow> int" where
  "blocks_in (Kalloc p) q = of_bool (p = q)"
| "blocks_in (Dma_alloc p n) q = of_bool (p = q)"
| "blocks_in (Kfree p) q = - of_bool (p = q)"
| "blocks_in (Dma_free p n) q = - of_bool (p = q)"

definition balance :: "mem \<Rightarrow> u64 \<Rightarrow> int" where
  "balance m q = (\<Sum>e\<leftarrow>mem_log m. blocks_in e q)"

lemma balance_logs [simp]: "balance (mem_logs e m) q = balance m q + blocks_in e q"
  by (simp add: balance_def mem_logs_def)

lemma balance_calls [simp]: "balance (m\<lparr>mem_calls := c\<rparr>) q = balance m q"
  by (simp add: balance_def)

definition held_by :: "ring_mem \<Rightarrow> u64 \<Rightarrow> int" where
  "held_by r q = of_bool (rm_buff_ring r = q \<and> q \<noteq> 0) + of_bool (rm_dx_ring r = q \<and> q \<noteq> 0)"

lemma balance_free: "balance (aq_ring_free r m) q = balance m q - held_by r q"
  by (auto simp: aq_ring_free_def held_by_def Let_def)

lemma balance_get:
  assumes "mem_get ev m = (p, m')" "\<And>p. blocks_in (ev p) = (\<lambda>q. of_bool (p = q))" "mem_answer m (mem_calls m) \<noteq> Some 0"
  shows "balance m' q = balance m q + of_bool (p = q \<and> q \<noteq> 0)"
  using assms(1,3) by (auto simp: mem_get_def assms(2) Let_def split: option.splits)


lemma get_keeps: "mem_get ev m = (p, m') \<Longrightarrow> mem_answer m' = mem_answer m"
  by (auto simp: mem_get_def mem_logs_def Let_def split: option.splits)

text \<open>A ring either holds exactly what its allocation took, or nothing was kept.\<close>

lemma ring_alloc_balance:
  assumes "aq_ring_alloc r m = (ok, r', m')" "rm_dx_ring r = 0" "\<forall>n. mem_answer m n \<noteq> Some 0"
  shows "balance m' q = balance m q + (if ok then held_by r' q else 0)" "mem_answer m' = mem_answer m"
proof -
  obtain p m1 where g1: "mem_get Kalloc m = (p, m1)" by (metis prod.exhaust)
  define r1 where "r1 = r\<lparr>rm_buff_ring := p\<rparr>"
  obtain d m2 where g2: "mem_get (\<lambda>p. Dma_alloc p (dx_bytes r1)) m1 = (d, m2)" by (metis prod.exhaust)
  have b1: "balance m1 q = balance m q + of_bool (p = q \<and> q \<noteq> 0)"
    using assms(3) by (intro balance_get [OF g1]) auto
  have k: "mem_answer m1 = mem_answer m" "mem_answer m2 = mem_answer m"
    using get_keeps [OF g1] get_keeps [OF g2] by auto
  have b2: "balance m2 q = balance m1 q + of_bool (d = q \<and> q \<noteq> 0)"
    using assms(3) k by (intro balance_get [OF g2]) auto
  have f: "mem_answer (aq_ring_free x y) = mem_answer y" for x y by (simp add: aq_ring_free_def mem_logs_def Let_def)
  have res: "aq_ring_alloc r m = (if p = 0 then (False, r1, aq_ring_free r1 m1)
      else if d = 0 then (False, r1\<lparr>rm_dx_ring := d\<rparr>, aq_ring_free (r1\<lparr>rm_dx_ring := d\<rparr>) m2)
      else (True, r1\<lparr>rm_dx_ring := d\<rparr>, m2))"
    by (simp add: aq_ring_alloc_def g1 r1_def [symmetric] g2 Let_def) (simp add: r1_def)
  then show "balance m' q = balance m q + (if ok then held_by r' q else 0)"
    using assms(1,2) b1 b2 by (auto simp: balance_free held_by_def r1_def split: if_splits)
  show "mem_answer m' = mem_answer m" using assms(1) res k f by (auto split: if_splits)
qed

definition pair_held :: "ring_mem \<times> ring_mem \<Rightarrow> u64 \<Rightarrow> int" where
  "pair_held p q = held_by (fst p) q + held_by (snd p) q"

lemma vec_free_loop_balance:
  "balance (vec_free_loop rs m) q = balance m q - (\<Sum>p\<leftarrow>rs. pair_held p q)"
  by (induction rs m rule: vec_free_loop.induct) (simp_all add: balance_free pair_held_def)

lemma vec_alloc_loop_balance:
  assumes "vec_alloc_loop n i idx cfg v m = (True, v', m')" "i + n \<le> length (vm_ring v)" "vm_tx_rings v = i"
    and "\<forall>j. i \<le> j \<and> j < length (vm_ring v) \<longrightarrow> vm_ring v ! j = (ring_mem0, ring_mem0)"
    and "\<forall>n. mem_answer m n \<noteq> Some 0"
  shows "vm_tx_rings v' = i + n \<and> length (vm_ring v') = length (vm_ring v) \<and> vm_self v' = vm_self v \<and>
    take i (vm_ring v') = take i (vm_ring v) \<and>
    balance m' q = balance m q + (\<Sum>p\<leftarrow>drop i (take (i + n) (vm_ring v')). pair_held p q)"
  using assms
proof (induction n arbitrary: i v m)
  case (Suc n)
  let ?idx = "AQ_NIC_TCVEC2RING (of_nat (vm_tx_rings v)) idx"
  have z: "vm_ring v ! i = (ring_mem0, ring_mem0)" "i < length (vm_ring v)" using Suc.prems(2,4) by auto
  obtain ok1 tx m1 where a1: "aq_ring_tx_alloc ring_mem0 ?idx cfg m = (ok1, tx, m1)" by (metis prod_cases3)
  obtain ok2 rx m2 where a2: "aq_ring_rx_alloc ring_mem0 ?idx cfg m1 = (ok2, rx, m2)" by (metis prod_cases3)
  define v1 where "v1 = v\<lparr>vm_tx_rings := Suc (vm_tx_rings v), vm_ring := (vm_ring v)[i := (tx, rx)],
    vm_rx_rings := Suc (vm_rx_rings v)\<rparr>"
  have nx: "ok1" "ok2" "vec_alloc_loop n (Suc i) idx cfg v1 m2 = (True, v', m')"
    using Suc.prems(1) z a1 a2 by (auto simp: v1_def Let_def split: if_splits)
  have dx0: "rm_dx_ring ring_mem0 = 0" by (simp add: ring_mem0_def)
  have tx: "balance m1 q = balance m q + held_by tx q" "mem_answer m1 = mem_answer m"
    using a1 nx(1) ring_alloc_balance [of _ m True tx m1] Suc.prems(5)
    by (auto simp: aq_ring_tx_alloc_def dx0 Let_def)
  have rx: "balance m2 q = balance m1 q + held_by rx q" "mem_answer m2 = mem_answer m1"
    using a2 nx(2) ring_alloc_balance [of _ m1 True rx m2] Suc.prems(5) tx(2)
    by (auto simp: aq_ring_rx_alloc_def dx0 Let_def split: if_splits)
  have IH: "vm_tx_rings v' = Suc i + n \<and> length (vm_ring v') = length (vm_ring v1) \<and> vm_self v' = vm_self v1 \<and>
    take (Suc i) (vm_ring v') = take (Suc i) (vm_ring v1) \<and>
    balance m' q = balance m2 q + (\<Sum>p\<leftarrow>drop (Suc i) (take (Suc i + n) (vm_ring v')). pair_held p q)"
    using Suc.prems tx(2) rx(2) by (intro Suc.IH [OF nx(3)]) (auto simp: v1_def)
  then have t: "take (Suc i) (vm_ring v') = take (Suc i) (vm_ring v1)" "length (vm_ring v') = length (vm_ring v)"
    by (simp_all add: v1_def)
  have at: "vm_ring v' ! i = (tx, rx)"
  proof -
    have "vm_ring v' ! i = take (Suc i) (vm_ring v') ! i" by simp
    also have "\<dots> = (tx, rx)" using t(1) z(2) by (simp add: v1_def)
    finally show ?thesis .
  qed
  have "take i (take (Suc i) (vm_ring v')) = take i (take (Suc i) (vm_ring v1))" using t(1) by simp
  then have ti: "take i (vm_ring v') = take i (vm_ring v)" by (simp add: v1_def min_def)
  have "drop i (take (i + Suc n) (vm_ring v')) = (tx, rx) # drop (Suc i) (take (Suc i + n) (vm_ring v'))"
    using at z(2) t(2) by (simp add: Cons_nth_drop_Suc [symmetric])
  then show ?case using IH ti tx(1) rx(1) by (simp add: v1_def pair_held_def)
qed simp

lemma vec_alloc_free:
  assumes "aq_vec_alloc idx cfg m = (Some v, m')" "tcs cfg \<le> 8" "\<forall>n. mem_answer m n \<noteq> Some 0"
  shows "balance (aq_vec_free v m') q = balance m q"
proof -
  obtain p m1 where g: "mem_get Kalloc m = (p, m1)" by (metis prod.exhaust)
  define v0 where "v0 = \<lparr>vm_self = p, vm_ring = replicate (unat AQ_CFG_TCS_MAX) (ring_mem0, ring_mem0),
                vm_tx_rings = 0, vm_rx_rings = 0\<rparr>"
  have p: "p \<noteq> 0" "vec_alloc_loop (unat (tcs cfg)) 0 idx cfg v0 m1 = (True, v, m')"
    using assms(1) by (auto simp: aq_vec_alloc_def g v0_def [symmetric] Let_def split: if_splits prod.splits)
  have t: "unat (tcs cfg) \<le> 8" using assms(2) by (simp add: word_le_nat_alt)
  have l: "length (vm_ring v0) = 8" "vm_tx_rings v0 = 0" "vm_self v0 = p"
    "\<forall>j. 0 \<le> j \<and> j < length (vm_ring v0) \<longrightarrow> vm_ring v0 ! j = (ring_mem0, ring_mem0)"
    by (simp_all add: v0_def AQ_CFG_TCS_MAX_def)
  have a: "\<forall>n. mem_answer m1 n \<noteq> Some 0" using assms(3) get_keeps [OF g] by simp
  have b1: "balance m1 q = balance m q + of_bool (p = q \<and> q \<noteq> 0)"
    using assms(3) by (intro balance_get [OF g]) auto
  have "0 + unat (tcs cfg) \<le> length (vm_ring v0)" using t l by simp
  from vec_alloc_loop_balance [OF p(2) this l(2,4) a, of q]
  have "vm_tx_rings v = unat (tcs cfg)" "vm_self v = p"
    "balance m' q = balance m1 q + (\<Sum>x\<leftarrow>take (unat (tcs cfg)) (vm_ring v). pair_held x q)" by (auto simp: l(3))
  then show ?thesis using b1 p(1) by (auto simp: aq_vec_free_def vec_free_loop_balance)
qed

text \<open>
  When the descriptors of a receive ring cannot be had, its buffer array is freed twice:
  once by \<open>aq_ring_alloc\<close>, which leaves the pointer in place, and once by \<open>aq_vec_free\<close>,
  for which the ring already counts.
\<close>

lemma vec_alloc_double_free:
  assumes "tcs cfg = 1" "mem_calls m = c"
    and "mem_answer m c = Some v" "mem_answer m (c + 1) = Some tb" "mem_answer m (c + 2) = Some td"
      "mem_answer m (c + 3) = Some rb" "mem_answer m (c + 4) = None"
    and "0 \<notin> {v, tb, td, rb}"
  shows "\<exists>n. aq_vec_alloc idx cfg m = (None, m\<lparr>mem_calls := c + 5, mem_log := mem_log m @
    [Kalloc v, Kalloc tb, Dma_alloc td n, Kalloc rb, Kfree rb, Kfree tb, Dma_free td n, Kfree rb, Kfree v]\<rparr>)"
proof -
  have e: "c + 2 = Suc (Suc c)" "c + 3 = Suc (Suc (Suc c))" "c + 4 = Suc (Suc (Suc (Suc c)))"
    "c + 5 = Suc (Suc (Suc (Suc (Suc c))))" "c + 1 = Suc c" by simp_all
  have r: "replicate (unat AQ_CFG_TCS_MAX) x = x # replicate 7 x" for x :: "ring_mem \<times> ring_mem"
  proof -
    have u: "unat AQ_CFG_TCS_MAX = Suc 7" by (simp add: AQ_CFG_TCS_MAX_def)
    show ?thesis unfolding u by (rule replicate_Suc)
  qed
  have n: "unat (tcs cfg) = Suc 0" using assms(1) by simp
  show ?thesis
    using assms(2-8) unfolding e
    by (intro exI [of _ "unat (txds cfg * ucast (caps_txd_size (aq_hw_caps cfg)))"])
      (simp add: aq_vec_alloc_def mem_get_def mem_logs_def r n aq_ring_tx_alloc_def aq_ring_rx_alloc_def
        aq_ring_alloc_def aq_ring_free_def ring_mem0_def aq_vec_free_def dx_bytes_def Let_def)
qed

end
