(* ===== verification/Rx_Props.thy ===== *)
theory Rx_Props
  imports Vec Vec_Mem Samples
begin

section \<open>Properties of the receive path and of the vectors\<close>

subsection \<open>Sample states\<close>

text \<open>A kernel with all pages free, and one whose second page cannot be had.\<close>

definition kern_one :: kern where
  "kern_one = kern0\<lparr>page_refs := (\<lambda>p. 0), page_answer := (\<lambda>n. if n = 0 then Some 0x5000 else None)\<rparr>"

definition kern_page :: kern where
  "kern_page = kern0\<lparr>page_refs := (\<lambda>p. 0), page_answer := (\<lambda>n. if n < 2 then Some (0x5000 + of_nat n * 0x1000) else Some 0x7000)\<rparr>"

definition napi0 :: napi_s where
  "napi0 = \<lparr>skb_answer = (\<lambda>n. True), skb_calls = 0, eth_headlen = (\<lambda>p off. 66), AQ_SKB_ALIGN = 320,
     ndev_rxcsum = True, received = []\<rparr>"

text \<open>
  A ring of eight whose first six buffers are with the chip, which has written back a packet
  of two buffers.
\<close>

definition rx_buff0 :: aq_ring_buff_s where
  "rx_buff0 = buff0\<lparr>w0 := 0x1000, w1 := 0x5000, rx_daddr := 0x1000, len := 2048\<rparr>"

definition rx_ring0 :: aq_ring_s where
  "rx_ring0 = (ring0 8 0)\<lparr>sw_tail := 6, buff_ring := replicate 8 rx_buff0,
     dx_ring := [(0, 0x08000001), (0, 0x08640003)] @ replicate 6 (0x1000, 0)\<rparr>"

lemma rx_ring0_sel [simp]:
  "sw_head rx_ring0 = 0" "hw_head rx_ring0 = 0" "sw_tail rx_ring0 = 6" "ring_size rx_ring0 = 8"
  "length (buff_ring rx_ring0) = 8" "length (dx_ring rx_ring0) = 8" "page_order rx_ring0 = 0" "ring_idx rx_ring0 = 0"
  by (simp_all add: rx_ring0_def ring0_def)

lemma rx_ring0_ok: "ring_ok rx_ring0"
  by (simp add: ring_ok_def ring.gap_0_iff [THEN iffD2])

lemma napi0_ok: "napi_ok napi0" "skb_answer napi0 n"
  by (simp_all add: napi_ok_def napi0_def AQ_CFG_RX_HDR_SIZE_def)

lemma kern_answers: "page_answer kern_page n \<noteq> Some 0" "page_answer kern_one n \<noteq> Some 0"
  by (auto simp: kern_page_def kern_one_def less_2_cases_iff)

subsection \<open>Pages shared with the stack\<close>

text \<open>
  C13: In every reachable state of a receive buffer, with the stack taking and dropping
  pieces of its page in any order and any number of refills, failed ones included, a buffer
  that is posted to the chip has a page, its piece lies inside the page, and the piece
  does not overlap any piece of the page that the stack still holds.
\<close>

theorem posted_piece_unshared:
  assumes "life_reach k order s" "\<forall>n. page_answer k n \<noteq> Some 0" "unat order < 20" "lf_posted s"
  shows "page (lf_buff s) \<noteq> 0 \<and>
    unat (rx_pg_off (lf_buff s)) + 2048 \<le> unat (page_bytes order) \<and>
    (\<forall>off \<in> lf_held s. unat off + 2048 \<le> unat (rx_pg_off (lf_buff s)))"
proof -
  have ok: "life_ok order s" by (rule life_reach_ok [OF assms(1-3)])
  then have p: "page (lf_buff s) \<noteq> 0" using assms(4) by (auto simp: life_ok_def)
  then have "unat (rx_pg_off (lf_buff s)) + 2048 \<le> unat (page_bytes order)"
    using ok by (simp add: life_ok_def)
  then show ?thesis using p life_piece_apart [OF ok assms(4)] by blast
qed

text \<open>A buffer that was posted, taken up by the stack and posted again.\<close>

definition life0 :: rx_life where
  "life0 = \<lparr>lf_buff = buff0, lf_kern = kern_page, lf_held = {}, lf_posted = False\<rparr>"

definition life1 :: rx_life where
  "life1 = (case aq_get_rxpages rx_ring0 (lf_buff life0) 0 (lf_kern life0) of (err, r, b, k) \<Rightarrow>
     life0\<lparr>lf_buff := b, lf_kern := k, lf_posted := err = 0,
       lf_held := (if page b = page (lf_buff life0) then lf_held life0 else {})\<rparr>)"

definition life2 :: rx_life where
  "life2 = life1\<lparr>lf_posted := False, lf_held := insert (rx_pg_off (lf_buff life1)) (lf_held life1),
      lf_kern := (lf_kern life1)\<lparr>page_refs := (page_refs (lf_kern life1))
        (page (lf_buff life1) := Suc (page_refs (lf_kern life1) (page (lf_buff life1))))\<rparr>\<rparr>"

definition life3 :: rx_life where
  "life3 = (case aq_get_rxpages rx_ring0 (lf_buff life2) 0 (lf_kern life2) of (err, r, b, k) \<Rightarrow>
     life2\<lparr>lf_buff := b, lf_kern := k, lf_posted := err = 0,
       lf_held := (if page b = page (lf_buff life2) then lf_held life2 else {})\<rparr>)"

lemma page_buff0: "page buff0 = 0"
  by (simp add: page_def buff0_def)

lemma life1_val:
  "page (lf_buff life1) = 0x5000" "rx_pg_off (lf_buff life1) = 0" "lf_posted life1" "lf_held life1 = {}"
  "page_refs (lf_kern life1) = (\<lambda>p. if p = 0x5000 then 1 else 0)" "page_answer (lf_kern life1) = page_answer kern_page" "page_calls (lf_kern life1) = 1"
  by (auto simp: life1_def life0_def aq_get_rxpages_def page_buff0 aq_get_rxpage_def dev_alloc_pages_def
      dma_map_def kern_page_def kern0_def klogs_def Let_def fun_eq_iff)

lemma life2_val:
  "page (lf_buff life2) = 0x5000" "rx_pg_off (lf_buff life2) = 0" "\<not> lf_posted life2" "lf_held life2 = {0}"
  "page_refs (lf_kern life2) 0x5000 = 2"
  by (simp_all add: life2_def life1_val)

lemma life3_val: "lf_posted life3" "lf_held life3 = {0}" "rx_pg_off (lf_buff life3) = 2048"
  by (simp_all add: life3_def aq_get_rxpages_def reuse_rxpage_def life2_val AQ_CFG_RX_FRAME_MAX_def
      page_bytes_def PAGE_SIZE_def)

lemma refill_step:
  assumes "\<not> lf_posted s" "page_refs (lf_kern s) (the (page_answer (lf_kern s) (page_calls (lf_kern s)))) = 0"
  shows "life_step 0 s (case aq_get_rxpages rx_ring0 (lf_buff s) 0 (lf_kern s) of (err, r, b, k) \<Rightarrow>
     s\<lparr>lf_buff := b, lf_kern := k, lf_posted := err = 0,
       lf_held := (if page b = page (lf_buff s) then lf_held s else {})\<rparr>)"
proof -
  obtain err r b k where g: "aq_get_rxpages rx_ring0 (lf_buff s) 0 (lf_kern s) = (err, r, b, k)"
    by (metis prod_cases4)
  show ?thesis unfolding g prod.case by (rule life_step.refill [OF assms(1) _ g]) (use assms(2) in auto)
qed

lemma life3_reach: "life_reach kern_page 0 life3"
proof -
  have "life_step 0 life0 life1"
    unfolding life1_def by (rule refill_step) (simp_all add: life0_def kern_page_def)
  moreover have "life_step 0 life1 life2" unfolding life2_def by (rule life_step.take_piece) (rule life1_val)
  moreover have "life_step 0 life2 life3"
    unfolding life3_def by (rule refill_step) (simp_all add: life2_val life2_def life1_val, simp add: kern_page_def)
  ultimately have "(life_step 0)\<^sup>*\<^sup>* life0 life3"
    by (metis (no_types, lifting) converse_rtranclp_into_rtranclp r_into_rtranclp)
  moreover have "life_start kern_page life0" by (simp add: life_start_def life0_def page_buff0)
  ultimately show ?thesis by (auto simp: life_reach_def)
qed

theorem posted_piece_unshared_witness:
  "lf_held life3 = {0} \<and> 2048 \<le> unat (rx_pg_off (lf_buff life3))"
  using posted_piece_unshared [OF life3_reach _ _ life3_val(1)] life3_val by (simp add: kern_answers)

subsection \<open>Refilling\<close>

text \<open>
  C16: A refill posts as many buffers from the tail on as it reports through the new tail: each has
  a piece inside a page of its own, the address of that piece, 2 KB of length and no flag set.
  Heads, descriptors and all other buffers keep their state. It fills the whole free part of
  the ring or stops at the first buffer it has no page for, with -ENOMEM.
\<close>

theorem rx_refill_posts:
  assumes "aq_ring_rx_fill thres r k = (err, r', k')" "ring_ok r"
    and "\<forall>n. page_answer k n \<noteq> Some 0" "unat (page_order r) < 20"
  shows "\<exists>m \<le> unat (aq_ring_avail_dx r). refilled (err \<noteq> 0) m r r' \<and> ring_ok r' \<and> pending r' = pending r + m \<and>
     (err = 0 \<and> m = (if aq_ring_avail_dx r < min thres (ring_size r div 2) then 0 else unat (aq_ring_avail_dx r)) \<or>
      err = - ENOMEM \<and> m < unat (aq_ring_avail_dx r))"
  by (rule rx_fill_spec [OF assms])

lemma ring8_page_order: "page_order (ring0 n p) = 0"
  by (simp add: ring0_def)

theorem rx_refill_posts_witness:
  "\<exists>err r' k' m. aq_ring_rx_fill 32 (ring0 8 0) kern_one = (err, r', k') \<and> m \<le> 7 \<and>
     refilled (err \<noteq> 0) m (ring0 8 0) r' \<and> pending r' = m"
proof -
  obtain err r' k' where f: "aq_ring_rx_fill 32 (ring0 8 0) kern_one = (err, r', k')" by (metis prod_cases3)
  have av: "aq_ring_avail_dx (ring0 8 0) = 7" "pending (ring0 8 0) = 0"
    by (simp_all add: aq_ring_avail_dx_def ring_avail_def pending_def ring.gap_0_iff [THEN iffD2])
  show ?thesis
    using rx_refill_posts [OF f ring0_ok] by (auto simp: f av kern_answers ring8_page_order)
qed

subsection \<open>Receiving\<close>

text \<open>
  The B0 receive function consumes exactly the written-back descriptors from the hardware
  head on, never passing the tail: it decodes each into its buffer, puts the hardware head
  behind them, and changes no other buffer, no descriptor and no register. The ring stays
  well-formed, and the result is the sticky error of the hardware context.
\<close>

theorem b0_rx_receive_exact:
  assumes "hw_atl_b0_hw_ring_rx_receive hw r = (err, hw', r')" "ring_ok r"
  shows "err = aq_hw_err_from_flags hw \<and> hw' = hw \<and> ring_ok r' \<and>
    r' = r\<lparr>hw_head := hw_head r', buff_ring := buff_ring r', ring_stats := ring_stats r'\<rparr> \<and>
    hw_head r' = (ring_next (ring_size r) ^^ length (rx_done r)) (hw_head r) \<and>
    (\<forall>i < ring_size r. buff_ring r' ! unat i =
      (if i \<in> set (rx_done r)
       then rx_decoded (aq_nic_cfg hw) (ring_size r) i (dx_ring r ! unat i) (buff_ring r ! unat i)
       else buff_ring r ! unat i))"
  using b0_rx_receive_spec [OF assms] by blast

lemma rx_done0: "rx_done rx_ring0 = [0, 1]"
proof -
  have g: "ring.gap 8 0 (6 :: u32) = 6" using ring.gap_cases [of "0 :: u32" 8 6] by simp
  have w: "ring.walk 8 (0 :: u32) 6 = [0, 1, 2, 3, 4, 5]"
  proof -
    have "ring.walk 8 (0 :: u32) 6 = map of_nat [0..<6]"
      unfolding ring.walk_def by (rule map_cong) (simp_all add: iter_from_0)
    then show ?thesis by (simp add: upt_rec)
  qed
  show ?thesis
    unfolding rx_done_def rx_ring0_sel g w
    by (simp add: rx_ring0_def wb_done_def rxd_wb_def)
qed

theorem b0_rx_receive_exact_witness:
  "\<exists>err hw' r'. hw_atl_b0_hw_ring_rx_receive hw0 rx_ring0 = (err, hw', r') \<and> hw_head r' = 2 \<and>
     len (buff_ring r' ! 0) = 2048 \<and> len (buff_ring r' ! 1) = 100 \<and> is_eop (buff_ring r' ! 1)"
proof -
  obtain err hw' r' where f: "hw_atl_b0_hw_ring_rx_receive hw0 rx_ring0 = (err, hw', r')" by (metis prod_cases3)
  note p = b0_rx_receive_exact [OF f rx_ring0_ok, unfolded rx_done0 rx_ring0_sel]
  have d: "wb_len (0, 0x08000001) = 2048" "wb_len (0, 0x08640003) = 100" "wb_eop (0, 0x08640003)"
    by (simp_all add: wb_len_def wb_eop_def rxd_wb_def HW_ATL_B0_RXD_WB_STAT2_EOP_def Let_def)
  have x: "dx_ring rx_ring0 ! 0 = (0, 0x08000001)" "dx_ring rx_ring0 ! Suc 0 = (0, 0x08640003)"
    by (simp_all add: rx_ring0_def)
  have "buff_ring r' ! unat i = rx_decoded (aq_nic_cfg hw0) 8 i (dx_ring rx_ring0 ! unat i) (buff_ring rx_ring0 ! unat i)"
    if "i = 0 \<or> i = 1" for i
    using p [THEN conjunct2, THEN conjunct2, THEN conjunct2, THEN conjunct2, THEN conjunct2, rule_format, of i] that
    by (auto simp: word_less_nat_alt)
  from this [of 0] this [of 1] show ?thesis using f p by (simp add: x d ring_next_def word_le_nat_alt Let_def)
qed



subsection \<open>Passing packets up\<close>

text \<open>Two received buffers of one packet, in a ring of eight.\<close>

definition rx_ring1 :: aq_ring_s where
  "rx_ring1 = rx_ring0\<lparr>hw_head := 2, buff_ring :=
     [set_next_ix 1 rx_buff0, rx_buff0\<lparr>len := 100, is_eop := True\<rparr>] @ replicate 6 rx_buff0\<rparr>"

lemma all8: "(\<forall>i < (8 :: u32). P i) \<longleftrightarrow> P 0 \<and> P 1 \<and> P 2 \<and> P 3 \<and> P 4 \<and> P 5 \<and> P 6 \<and> P 7"
proof
  assume p: "P 0 \<and> P 1 \<and> P 2 \<and> P 3 \<and> P 4 \<and> P 5 \<and> P 6 \<and> P 7"
  show "\<forall>i < 8. P i"
  proof (intro allI impI)
    fix i :: u32 assume "i < 8"
    then have "unat i < 8" by (simp add: word_less_nat_alt)
    then have "unat i = 0 \<or> unat i = 1 \<or> unat i = 2 \<or> unat i = 3 \<or> unat i = 4 \<or> unat i = 5 \<or> unat i = 6 \<or> unat i = 7"
      by arith
    then have "i \<in> {0, 1, 2, 3, 4, 5, 6, 7}" by (auto simp: word_unat_eq_iff)
    then show "P i" using p by auto
  qed
qed (simp add: word_less_nat_alt)

lemma rx_ring1_ok:
  "rx_ok rx_ring1" "jumbo_links rx_ring1" "long_heads rx_ring1" "ahead rx_ring1 (hw_head rx_ring1) = 2"
proof -
  have at: "buff_at rx_ring1 0 = set_next_ix 1 rx_buff0" "buff_at rx_ring1 1 = rx_buff0\<lparr>len := 100, is_eop := True\<rparr>"
    by (simp_all add: buff_at_def rx_ring1_def)
  have at8: "i < 8 \<Longrightarrow> i \<noteq> 0 \<Longrightarrow> i \<noteq> 1 \<Longrightarrow> buff_at rx_ring1 i = rx_buff0" for i
    using all8 [of "\<lambda>i. i \<noteq> 0 \<longrightarrow> i \<noteq> 1 \<longrightarrow> buff_at rx_ring1 i = rx_buff0"]
    by (auto simp: buff_at_def rx_ring1_def nth_Cons')
  have s: "ring_size rx_ring1 = 8" "sw_head rx_ring1 = 0" "hw_head rx_ring1 = 2" by (simp_all add: rx_ring1_def)
  show ok: "rx_ok rx_ring1" by (simp add: rx_ok_def ring_len_ok_def s) (simp add: rx_ring1_def)
  show ah: "ahead rx_ring1 (hw_head rx_ring1) = 2"
    using ring.gap_cases [of "0 :: u32" 8 2] by (simp add: ahead_def s)
  have "next_of rx_ring1 0 = 1" by (simp add: next_of_def at next_ix_set)
  moreover have in01: "i = 0 \<or> i = 1" if "i < 8" "i = 0 \<or> in_pending rx_ring1 i" for i
    using that all8 [of "\<lambda>i. i = 0 \<or> i = 1 \<or> \<not> in_pending rx_ring1 i"]
    by (auto simp: in_pending_def s aq_ring_dx_in_range_def)
  moreover have "is_eop (buff_at rx_ring1 1)" "ring_next 8 0 = 1"
    by (simp_all add: at ring_next_def word_le_nat_alt Let_def)
  ultimately show "jumbo_links rx_ring1" unfolding jumbo_links_def s by metis
  show "long_heads rx_ring1"
    unfolding long_heads_def s
  proof (intro allI impI)
    fix i assume i: "i < 8" "\<not> is_eop (buff_at rx_ring1 i)"
    have l: "len rx_buff0 = 2048" "len (set_next_ix 1 rx_buff0) = 2048" "is_eop (buff_at rx_ring1 1)"
      by (simp_all add: rx_buff0_def set_next_ix_def at(2))
    have "i \<noteq> 1" using i(2) l(3) by metis
    then have "len (buff_at rx_ring1 i) = 2048" using at(1) at8 [OF i(1)] l by (cases "i = 0") simp_all
    then show "AQ_CFG_RX_HDR_SIZE < len (buff_at rx_ring1 i)" by (simp add: AQ_CFG_RX_HDR_SIZE_def)
  qed
qed

text \<open>
  C15: Cleaning a receive ring always returns, whatever the allocations of socket buffers do, as
  long as links into the pending part lead forward and only last buffers are short: with 0 or
  -ENOMEM, having moved the head over at most the budget and at most the pending buffers, and
  leaving links, pages and descriptors as they were.
\<close>

theorem rx_clean_returns:
  assumes "rx_ok r" "links_ok r" "napi_ok napi" "long_heads r"
  shows "\<exists>err w r' k' napi'. aq_ring_rx_clean r k napi wd budget None = Some (err, wd + w, r', k', napi') \<and>
    (err = 0 \<or> err = - ENOMEM) \<and> w \<le> budget \<and> moved w r r'"
  unfolding aq_ring_rx_clean_def by (rule rx_clean_loop_returns [OF assms])

theorem rx_clean_returns_witness:
  "\<exists>err w r' k' napi'. aq_ring_rx_clean rx_ring1 kern_page napi0 0 64 None = Some (err, w, r', k', napi') \<and> w \<le> 64"
proof -
  have "links_ok rx_ring1" by (rule jumbo_links_ok [OF rx_ring1_ok(1) _ rx_ring1_ok(2)]) (simp add: rx_ring1_def)
  from rx_clean_returns [OF rx_ring1_ok(1) this napi0_ok(1) rx_ring1_ok(3), of kern_page 0 64]
  show ?thesis by auto
qed

text \<open>
  C14: Cleaning is equivalent to a reference on lists. With the driver's own links, enough budget
  and socket buffers to be had, the packets passed up are, in order, those the reference cuts
  out of the list of pending buffers: cleaned buffers skipped, packets in error dropped, each
  packet carrying exactly the bytes, tag, hash and checksum state of its buffers; the head
  stops in front of a packet whose end has not arrived.
\<close>

theorem rx_clean_matches_reference:
  assumes "rx_ok r" "jumbo_links r" "napi_ok napi" "long_heads r" "\<forall>n. skb_answer napi n"
    and "ahead r (hw_head r) \<le> budget"
  shows "\<exists>w r' k' napi' skbs. aq_ring_rx_clean r k napi wd budget None = Some (0, wd + w, r', k', napi') \<and>
    received napi' = received napi @ skbs \<and> list_all2 (carries napi (ring_idx r)) (rx_packets (pend r)) skbs \<and>
    w + length (rx_left (pend r)) = ahead r (hw_head r)"
  unfolding aq_ring_rx_clean_def by (rule rx_clean_loop_packets [OF assms])

lemma pend_ring1: "pend rx_ring1 = [set_next_ix 1 rx_buff0, rx_buff0\<lparr>len := 100, is_eop := True\<rparr>]"
proof -
  have "ring.walk 8 (0 :: u32) 2 = map of_nat [0..<2]"
    unfolding ring.walk_def by (rule map_cong) (simp_all add: iter_from_0)
  then show ?thesis
    unfolding pend_def rx_ring1_ok(4)
    by (simp add: upt_rec rx_ring1_def buff_at_def)
qed

theorem rx_clean_matches_reference_witness:
  "\<exists>r' k' napi' s. aq_ring_rx_clean rx_ring1 kern_page napi0 0 64 None = Some (0, 2, r', k', napi') \<and>
     received napi' = [s] \<and> sk_len s = 2148"
proof -
  have p: "rx_packets (pend rx_ring1) = [pend rx_ring1]" "rx_left (pend rx_ring1) = []"
    by (simp_all add: pend_ring1 split_packet_def) (simp_all add: rx_buff0_def buff0_def set_next_ix_def)
  have e: "received napi0 = []" by (simp add: napi0_def)
  have "\<exists>w r' k' napi' skbs. aq_ring_rx_clean rx_ring1 kern_page napi0 0 64 None = Some (0, 0 + w, r', k', napi') \<and>
    received napi' = received napi0 @ skbs \<and>
    list_all2 (carries napi0 (ring_idx rx_ring1)) (rx_packets (pend rx_ring1)) skbs \<and>
    w + length (rx_left (pend rx_ring1)) = ahead rx_ring1 (hw_head rx_ring1)"
    using napi0_ok(2) by (intro rx_clean_matches_reference [OF rx_ring1_ok(1,2) napi0_ok(1) rx_ring1_ok(3)])
      (simp_all add: rx_ring1_ok(4))
  then obtain r' k' napi' s where w: "aq_ring_rx_clean rx_ring1 kern_page napi0 0 64 None = Some (0, 2, r', k', napi')"
    "received napi' = [s]" "carries napi0 (ring_idx rx_ring1) (pend rx_ring1) s"
    by (auto simp: p e rx_ring1_ok(4) list_all2_Cons1)
  from w(3) have "sk_len s = 2148" by (simp add: carries_def pend_ring1) (simp add: rx_buff0_def set_next_ix_def)
  then show ?thesis using w by blast
qed

subsection \<open>From descriptors to packets\<close>

text \<open>
  C12: Receiving and cleaning together refine the contract "the stack gets the packets of the
  written-back descriptors": for uncoalesced traffic, whatever the descriptors say otherwise,
  the socket buffers passed up are, in order, one for each packet of the reference reading
  of the done descriptors that has no error, with exactly its bytes, tag, hash and checksum state.
\<close>

theorem b0_receive_delivers:
  assumes "ring_ok r" "sw_head r = hw_head r" "ring_size r \<le> 0x10000"
    and "hw_atl_b0_hw_ring_rx_receive hw r = (err, hw', r1)"
    and "\<forall>d \<in> set (dx_ring r). wb_done d \<longrightarrow> plain_wb d"
    and "\<forall>b \<in> set (buff_ring r). is_eop b \<or> AQ_CFG_RX_HDR_SIZE < len b"
    and "napi_ok napi" "\<forall>n. skb_answer napi n" "length (rx_done r) \<le> budget"
  shows "\<exists>w r2 k2 napi2 skbs. aq_ring_rx_clean r1 k napi wd budget None = Some (0, wd + w, r2, k2, napi2) \<and>
    received napi2 = received napi @ skbs \<and> list_all2 (carries napi (ring_idx r)) (wb_packets hw r) skbs"
proof -
  have l: "length (dx_ring r) = unat (ring_size r)" "length (buff_ring r) = unat (ring_size r)"
    using assms(1) by (simp_all add: ring_ok_def)
  have d: "\<forall>i < ring_size r. wb_done (dx_ring r ! unat i) \<longrightarrow> plain_wb (dx_ring r ! unat i)"
    using assms(5) l(1) by (simp add: word_less_nat_alt)
  have b: "\<forall>i < ring_size r. is_eop (buff_at r i) \<or> AQ_CFG_RX_HDR_SIZE < len (buff_at r i)"
    using assms(6) l(2) by (simp add: word_less_nat_alt buff_at_def)
  show ?thesis by (rule receive_and_clean [OF assms(1-4) d b assms(7-9)])
qed

theorem b0_receive_delivers_witness:
  "\<exists>r1 r2 k2 napi2 s w. hw_atl_b0_hw_ring_rx_receive hw0 rx_ring0 = (aq_hw_err_from_flags hw0, hw0, r1) \<and>
     aq_ring_rx_clean r1 kern_page napi0 0 64 None = Some (0, w, r2, k2, napi2) \<and>
     received napi2 = [s] \<and> sk_len s = 2148"
proof -
  obtain err hw' r1 where f: "hw_atl_b0_hw_ring_rx_receive hw0 rx_ring0 = (err, hw', r1)" by (metis prod_cases3)
  have e: "err = aq_hw_err_from_flags hw0" "hw' = hw0" using b0_rx_receive_spec(1,2) [OF f rx_ring0_ok] by blast+
  have x: "dx_ring rx_ring0 = [(0, 0x08000001), (0, 0x08640003)] @ replicate 6 (0x1000, 0)"
    "buff_ring rx_ring0 = replicate 8 rx_buff0" by (simp_all add: rx_ring0_def)
  have d: "wb_len (0, 0x08000001) = 2048" "wb_len (0, 0x08640003) = 100" "wb_eop (0, 0x08640003)"
    "\<not> wb_eop (0, 0x08000001)" "\<not> wb_done (0x1000, 0)" "plain_wb (0, 0x08000001)" "plain_wb (0, 0x08640003)"
    by (simp_all add: wb_len_def wb_eop_def wb_done_def wb_lro_def plain_wb_def rxd_wb_def
        HW_ATL_B0_RXD_WB_STAT2_EOP_def HW_ATL_B0_RXD_WB_STAT2_RSCCNT_def Let_def)
  have ne: "\<not> is_error (rx_flags cfg (0, 0x08000001) b)" "\<not> is_error (rx_flags cfg (0, 0x08640003) b)" for cfg b
    by (simp_all add: rx_flags_error wb_rx_stat_def rxd_wb_def)
  have "\<exists>w r2 k2 napi2 skbs. aq_ring_rx_clean r1 kern_page napi0 0 64 None = Some (0, 0 + w, r2, k2, napi2) \<and>
    received napi2 = received napi0 @ skbs \<and> list_all2 (carries napi0 (ring_idx rx_ring0)) (wb_packets hw0 rx_ring0) skbs"
  proof (rule b0_receive_delivers [OF rx_ring0_ok _ _ f _ _ napi0_ok(1)])
    show "\<forall>d \<in> set (dx_ring rx_ring0). wb_done d \<longrightarrow> plain_wb d" by (auto simp: x d)
    show "\<forall>b \<in> set (buff_ring rx_ring0). is_eop b \<or> AQ_CFG_RX_HDR_SIZE < len b"
      by (simp add: x rx_buff0_def AQ_CFG_RX_HDR_SIZE_def)
  qed (simp_all add: napi0_ok(2) rx_done0)
  then obtain w r2 k2 napi2 skbs where w: "aq_ring_rx_clean r1 kern_page napi0 0 64 None = Some (0, w, r2, k2, napi2)"
    "received napi2 = received napi0 @ skbs" "list_all2 (carries napi0 (ring_idx rx_ring0)) (wb_packets hw0 rx_ring0) skbs"
    by auto
  let ?dec = "\<lambda>i. rx_decoded (aq_nic_cfg hw0) 8 i (dx_ring rx_ring0 ! unat i) (buff_at rx_ring0 i)"
  have "wb_packets hw0 rx_ring0 = rx_packets [?dec 0, ?dec 1]" by (simp add: wb_packets_def rx_done0)
  also have "\<dots> = [[?dec 0, ?dec 1]]" by (simp add: split_packet_def x d ne)
  finally obtain s where s: "skbs = [s]" "carries napi0 (ring_idx rx_ring0) [?dec 0, ?dec 1] s"
    using w(3) by (auto simp: list_all2_Cons1)
  have "sk_len s = 2148" using s(2) by (simp add: carries_def x d)
  then show ?thesis using w(1,2) s(1) f e by (auto simp: napi0_def)
qed

subsection \<open>Vectors\<close>

text \<open>
  A card whose registers read as zero whatever is written: enough for the set-up functions,
  which look at nothing but the sticky error flags.
\<close>

primcorec quiet :: device where
  "dev_val quiet = (\<lambda>a. 0)"
| "dev_read quiet = (\<lambda>a. quiet)"
| "dev_write quiet = (\<lambda>a v. quiet)"

definition quiet_hw :: "aq_hw_s \<Rightarrow> bool" where
  "quiet_hw hw \<longleftrightarrow> mmio hw = quiet \<and> flags hw = 0"

lemma quiet_write: "quiet_hw hw \<Longrightarrow> quiet_hw (aq_hw_write_reg hw a v)"
  by (simp add: quiet_hw_def aq_hw_write_reg_def writel_def)

lemma quiet_read: "quiet_hw hw \<Longrightarrow> aq_hw_read_reg hw a = (0, hw\<lparr>mmio := quiet\<rparr>)"
  by (simp add: quiet_hw_def aq_hw_read_reg_def readl_def)

lemma quiet_write_bit: "quiet_hw hw \<Longrightarrow> quiet_hw (aq_hw_write_reg_bit hw a m s v)"
  using quiet_write by (auto simp: aq_hw_write_reg_bit_def quiet_read Let_def) (auto simp: quiet_hw_def)

lemma quiet_field: "quiet_hw hw \<Longrightarrow> quiet_hw (write_field hw f i v)"
  by (simp add: write_field_def quiet_write_bit)

lemma quiet_no_error: "quiet_hw hw \<Longrightarrow> aq_hw_err_from_flags hw = 0"
  by (simp add: quiet_hw_def aq_hw_err_from_flags_def aq_utils_obj_test_def)

lemmas quiet_ops = quiet_write quiet_write_bit quiet_field llh_set_defs

lemma quiet_init:
  assumes "quiet_hw hw"
  shows "quiet_hw (snd (hw_atl_b0_hw_ring_tx_init hw r p))" "fst (hw_atl_b0_hw_ring_tx_init hw r p) = 0"
    and "quiet_hw (snd (hw_atl_b0_hw_ring_rx_init hw r p))" "fst (hw_atl_b0_hw_ring_rx_init hw r p) = 0"
    and "fst (hw_atl_b0_hw_ring_rx_fill hw r t) = 0"
  using assms
  by (simp_all add: hw_atl_b0_hw_ring_tx_init_def hw_atl_b0_hw_ring_rx_init_def hw_atl_b0_hw_ring_rx_fill_def
      hw_atl_b0_hw_tx_ring_tail_update_def quiet_ops quiet_no_error Let_def split: prod.splits)

text \<open>A kernel that grants every page and every mapping lets every refill succeed.\<close>

definition generous :: "kern \<Rightarrow> bool" where
  "generous k \<longleftrightarrow> (\<forall>n. page_answer k n \<noteq> None) \<and> (\<forall>n. dma_answer k n \<noteq> None)"

lemma generous_step:
  assumes "aq_get_rxpages r b order k = (err, r', b', k')" "generous k"
  shows "err = 0 \<and> generous k'"
proof -
  have "page_answer k n \<noteq> None" "dma_answer k n \<noteq> None" for n using assms(2) by (simp_all add: generous_def)
  then obtain p d where "page_answer k (page_calls k) = Some p" "dma_answer k (dma_calls k) = Some d" by blast
  then show ?thesis
    using assms
    by (auto simp: aq_get_rxpages_def reuse_rxpage_def aq_free_rxpage_def aq_get_rxpage_def dev_alloc_pages_def
        dma_map_def free_pages_def klogs_def generous_def Let_def split: if_splits)
qed

lemma generous_fill: "generous k \<Longrightarrow> fst (rx_fill_loop n r k) = 0"
proof (induction n arbitrary: r k)
  case (Suc n)
  show ?case using generous_step [OF _ Suc.prems] Suc.IH by (auto simp: Let_def split: prod.splits)
qed simp

lemma generous_kern: "generous kern_page" "generous kern0"
  by (auto simp: generous_def kern_page_def kern0_def)

lemma generous_refill: "generous k \<Longrightarrow> fst (aq_ring_rx_fill thres r k) = 0"
  by (simp add: aq_ring_rx_fill_def generous_fill)

text \<open>
  C18: When the set-up of a vector succeeds, every receive ring of it is ready for the chip: all
  positions but one are posted with a piece of a page of their own, each descriptor holds the
  address of its buffer, both heads are 0 and the tail stands behind the last posted buffer.
\<close>

theorem vec_init_primes_rings:
  assumes "aq_vec_init b0_vec_ops thres st = (err, st')" "0 \<le> err"
    and "\<forall>p \<in> set (vec_ring st). rx_fresh (snd p)" "\<forall>n. page_answer (vec_kern st) n \<noteq> Some 0"
  shows "\<forall>j < length (vec_ring st). rx_primed (vec_rx st' j)"
proof -
  have "\<forall>j. 0 \<le> j \<and> j < 0 + length (vec_ring st) \<longrightarrow> rx_fresh (vec_rx st j)"
    using assms(3) by (simp add: vec_rx_def)
  then show ?thesis
    using vec_init_primes [OF assms(1) [unfolded aq_vec_init_def]] assms(2,4) by auto
qed

definition vec0 :: aq_vec_s where
  "vec0 = \<lparr>vec_hw = hw0\<lparr>mmio := quiet\<rparr>, vec_ring = [(ring0 8 0, ring0 8 0)],
     aq_ring_param = \<lparr>vec_idx = 0, param_cpu = 0\<rparr>, vec_kern = kern_page, vec_napi = napi0,
     vec_queues = (\<lambda>q. False), napi_scheduled = False, napi_enabled = False\<rparr>"

lemma vec_init_ring_succeeds:
  assumes "quiet_hw (vec_hw st)" "generous (vec_kern st)" "i < length (vec_ring st)"
  shows "fst (vec_init_ring b0_vec_ops thres i st) = 0"
proof -
  define s1 where "s1 = set_tx i (aq_ring_init (vec_tx st i)) st"
  have h1: "quiet_hw (vec_hw s1)" "vec_kern s1 = vec_kern st" using assms(1) by (simp_all add: s1_def)
  define h where "h = snd (hw_atl_b0_hw_ring_tx_init (vec_hw s1) (vec_tx s1 i) (aq_ring_param s1))"
  have i1: "hw_atl_b0_hw_ring_tx_init (vec_hw s1) (vec_tx s1 i) (aq_ring_param s1) = (0, h)"
    and h: "quiet_hw h" unfolding h_def using quiet_init(1,2) [OF h1(1)] by (auto simp: prod_eq_iff)
  define s2 where "s2 = set_rx i (aq_ring_init (vec_rx (s1\<lparr>vec_hw := h\<rparr>) i)) (s1\<lparr>vec_hw := h\<rparr>)"
  have h2: "quiet_hw (vec_hw s2)" "vec_kern s2 = vec_kern st" using h h1(2) by (simp_all add: s2_def)
  define g where "g = snd (hw_atl_b0_hw_ring_rx_init (vec_hw s2) (vec_rx s2 i) (aq_ring_param s2))"
  have i2: "hw_atl_b0_hw_ring_rx_init (vec_hw s2) (vec_rx s2 i) (aq_ring_param s2) = (0, g)"
    and g: "quiet_hw g" unfolding g_def using quiet_init(3,4) [OF h2(1)] by (auto simp: prod_eq_iff)
  define s3 where "s3 = s2\<lparr>vec_hw := g\<rparr>"
  have h3: "quiet_hw (vec_hw s3)" "vec_kern s3 = vec_kern st" using g h2(2) by (simp_all add: s3_def)
  obtain rx k where i3: "aq_ring_rx_fill thres (vec_rx s3 i) (vec_kern s3) = (0, rx, k)"
    using generous_refill [OF assms(2)] h3(2) by (metis fst_conv prod_cases3)
  define s4 where "s4 = set_rx i rx (s3\<lparr>vec_kern := k\<rparr>)"
  obtain e hw r where i4: "hw_atl_b0_hw_ring_rx_fill (vec_hw s4) (vec_rx s4 i) 0 = (e, hw, r)" by (metis prod_cases3)
  have "quiet_hw (vec_hw s4)" using h3 by (simp add: s4_def)
  then have e: "e = 0" using quiet_init(5) i4 by (metis fst_conv)
  have ops: "hw_ring_tx_init b0_vec_ops = hw_atl_b0_hw_ring_tx_init" "hw_ring_rx_init b0_vec_ops = hw_atl_b0_hw_ring_rx_init"
    "hw_ring_rx_fill b0_vec_ops = hw_atl_b0_hw_ring_rx_fill"
    by (simp_all add: b0_vec_ops_def)
  have "vec_init_ring b0_vec_ops thres i st = (e, set_rx i r (s4\<lparr>vec_hw := hw\<rparr>))"
    by (simp only: vec_init_ring_def Let_def s1_def [symmetric] ops i1 prod.case s2_def [symmetric] i2
        s3_def [symmetric] i3 s4_def [symmetric] i4) simp
  then show ?thesis by (simp add: e)
qed

theorem vec_init_primes_rings_witness:
  "\<exists>st'. aq_vec_init b0_vec_ops 32 vec0 = (0, st') \<and> rx_primed (vec_rx st' 0) \<and> sw_tail (vec_rx st' 0) = ring_size (vec_rx st' 0) - 1"
proof -
  have v: "quiet_hw (vec_hw vec0)" "generous (vec_kern vec0)" "length (vec_ring vec0) = 1"
    "\<forall>p \<in> set (vec_ring vec0). rx_fresh (snd p)" "vec_kern vec0 = kern_page"
    by (simp_all add: vec0_def quiet_hw_def hw0_def generous_kern rx_fresh_def ring8_page_order)
  obtain st' where i: "vec_init_ring b0_vec_ops 32 0 vec0 = (0, st')"
    using vec_init_ring_succeeds [OF v(1,2), of 0 32] v(3) by (metis fst_conv less_one prod.exhaust)
  then have a: "aq_vec_init b0_vec_ops 32 vec0 = (0, st')" by (simp add: aq_vec_init_def v(3))
  have "rx_primed (vec_rx st' 0)"
    using vec_init_primes_rings [OF a _ v(4)] v(3,5) by (simp add: kern_answers)
  then show ?thesis using a by (auto simp: rx_primed_def)
qed

text \<open>
  When a refill runs out of pages half-way, the poll gives up with the tail of the ring
  already behind the buffers it did fill, and no descriptor is written for them. The next
  refill starts writing at that tail: a buffer filled in the first round keeps the descriptor
  of the packet it held before, though it now stands in the part of the ring the chip is told
  to use by the tail register.
\<close>

theorem half_refill_publishes_stale:
  assumes "ring_ok r" "unat (page_order r) < 20"
    and "aq_ring_rx_fill thres r k = (err1, r1, k1)" "err1 < 0" "\<forall>n. page_answer k n \<noteq> Some 0"
    and "aq_ring_rx_fill thres r1 k2 = (0, r2, k3)" "\<forall>n. page_answer k2 n \<noteq> Some 0"
    and "hw_atl_b0_hw_ring_rx_fill hw r2 (sw_tail r1) = (err, hw', r3)"
    and "p < ring_size r" "ring.gap (ring_size r) (sw_tail r) p < ring.gap (ring_size r) (sw_tail r) (sw_tail r1)"
  shows "dx_ring r3 ! unat p = dx_ring r ! unat p \<and> rx_posted (page_order r) (buff_ring r3 ! unat p) \<and>
    ring.gap (ring_size r) (sw_head r) p < pending r3 \<and> sw_tail r3 = sw_tail r2 \<and>
    hw' = hw_atl_reg_rx_dma_desc_tail_ptr_set hw (sw_tail r2) (ring_idx r2)"
  using half_refill_stale [OF assms] by blast

lemma first_fill:
  "fst (aq_ring_rx_fill 32 (ring0 4 0) kern_one) = - ENOMEM"
  "sw_tail (fst (snd (aq_ring_rx_fill 32 (ring0 4 0) kern_one))) = 1"
  by code_simp+

theorem half_refill_publishes_stale_witness:
  "\<exists>r1 k1 r2 k3 err hw' r3. aq_ring_rx_fill 32 (ring0 4 0) kern_one = (- ENOMEM, r1, k1) \<and>
     aq_ring_rx_fill 32 r1 kern_page = (0, r2, k3) \<and>
     hw_atl_b0_hw_ring_rx_fill hw0 r2 (sw_tail r1) = (err, hw', r3) \<and>
     dx_ring r3 ! 0 = dx_ring (ring0 4 0) ! 0 \<and> rx_posted 0 (buff_ring r3 ! 0)"
proof -
  obtain r1 k1 where f: "aq_ring_rx_fill 32 (ring0 4 0) kern_one = (- ENOMEM, r1, k1)" "sw_tail r1 = 1"
    using first_fill by (metis fst_conv prod_cases3 snd_conv)
  obtain r2 k3 where g: "aq_ring_rx_fill 32 r1 kern_page = (0, r2, k3)"
    using generous_refill [OF generous_kern(1)] by (metis fst_conv prod_cases3)
  obtain err hw' r3 where h: "hw_atl_b0_hw_ring_rx_fill hw0 r2 (sw_tail r1) = (err, hw', r3)" by (metis prod_cases3)
  have gap: "ring.gap 4 0 (0 :: u32) < ring.gap 4 0 (1 :: u32)"
    using ring.gap_cases [of "0 :: u32" 4 0] ring.gap_cases [of "0 :: u32" 4 1] by simp
  show ?thesis
    using half_refill_publishes_stale [OF ring0_ok _ f(1) _ _ g _ h, of 0] f g h gap
    by (auto simp: kern_answers ring8_page_order ENOMEM_def)
qed

subsection \<open>Memory of vectors\<close>

text \<open>
  What \<open>aq_vec_free\<close> gives back is what a successful \<open>aq_vec_alloc\<close> took: for every block of
  memory the number of allocations less the number of releases is the same before and after.
\<close>

theorem vec_alloc_free_balanced:
  assumes "aq_vec_alloc idx cfg m = (Some v, m')" "tcs cfg \<le> 8" "\<forall>n. mem_answer m n \<noteq> Some 0"
  shows "balance (aq_vec_free v m') q = balance m q"
  by (rule vec_alloc_free [OF assms])

definition mem0 :: "(nat \<Rightarrow> u64 option) \<Rightarrow> mem" where
  "mem0 f = \<lparr>mem_answer = f, mem_calls = 0, mem_log = []\<rparr>"

definition five_blocks :: "nat \<Rightarrow> u64 option" where
  "five_blocks n = (if n < 5 then Some (of_nat n + 1) else None)"

lemma five_blocks_not_null: "five_blocks n \<noteq> Some 0"
proof -
  have "(of_nat n + 1 :: u64) \<noteq> 0" if "n < 5"
  proof -
    have "unat (of_nat n + 1 :: u64) = n + 1" using that by (simp add: unat_word_ariths unsigned_of_nat take_bit_nat_eq_self)
    then show ?thesis by (metis add_is_0 one_neq_zero unat_0)
  qed
  then show ?thesis by (simp add: five_blocks_def)
qed

lemma vec_alloc_one: "\<exists>v m'. aq_vec_alloc 0 cfg0 (mem0 five_blocks) = (Some v, m')"
proof -
  have r: "replicate (unat AQ_CFG_TCS_MAX) x = x # replicate 7 x" for x :: "ring_mem \<times> ring_mem"
  proof -
    have u: "unat AQ_CFG_TCS_MAX = Suc 7" by (simp add: AQ_CFG_TCS_MAX_def)
    show ?thesis unfolding u by (rule replicate_Suc)
  qed
  have n: "unat (tcs cfg0) = Suc 0" by (simp add: cfg0_def)
  show ?thesis
    by (simp add: aq_vec_alloc_def mem0_def mem_get_def mem_logs_def r n aq_ring_tx_alloc_def aq_ring_rx_alloc_def
        aq_ring_alloc_def ring_mem0_def five_blocks_def Let_def)
qed

theorem vec_alloc_free_balanced_witness:
  "\<exists>v m'. aq_vec_alloc 0 cfg0 (mem0 five_blocks) = (Some v, m') \<and> balance (aq_vec_free v m') 1 = 0"
proof -
  obtain v m' where a: "aq_vec_alloc 0 cfg0 (mem0 five_blocks) = (Some v, m')" using vec_alloc_one by blast
  have "balance (aq_vec_free v m') 1 = balance (mem0 five_blocks) 1"
    by (rule vec_alloc_free_balanced [OF a]) (simp_all add: cfg0_def mem0_def five_blocks_not_null)
  then show ?thesis using a by (auto simp: balance_def mem0_def)
qed

text \<open>
  C19: When the descriptors of the receive ring of a vector cannot be had, its buffer array is
  given back twice: once by \<open>aq_ring_alloc\<close>, which leaves the pointer in place, and again by
  \<open>aq_vec_free\<close>, for which the ring already counts.
\<close>

theorem vec_alloc_frees_twice:
  assumes "tcs cfg = 1" "mem_calls m = c"
    and "mem_answer m c = Some v" "mem_answer m (c + 1) = Some tb" "mem_answer m (c + 2) = Some td"
      "mem_answer m (c + 3) = Some rb" "mem_answer m (c + 4) = None"
    and "0 \<notin> {v, tb, td, rb}"
  shows "\<exists>n. aq_vec_alloc idx cfg m = (None, m\<lparr>mem_calls := c + 5, mem_log := mem_log m @
    [Kalloc v, Kalloc tb, Dma_alloc td n, Kalloc rb, Kfree rb, Kfree tb, Dma_free td n, Kfree rb, Kfree v]\<rparr>)"
  by (rule vec_alloc_double_free [OF assms])

theorem vec_alloc_frees_twice_witness:
  "\<exists>n m'. aq_vec_alloc 0 cfg0 (mem0 (\<lambda>n. if n < 4 then Some (of_nat n + 1) else None)) = (None, m') \<and>
     mem_log m' = [Kalloc 1, Kalloc 2, Dma_alloc 3 n, Kalloc 4, Kfree 4, Kfree 2, Dma_free 3 n, Kfree 4, Kfree 1]"
  using vec_alloc_frees_twice [of cfg0 "mem0 (\<lambda>n. if n < 4 then Some (of_nat n + 1) else None)" 0 1 2 3 4 0]
  by (auto simp: mem0_def cfg0_def)

end
