(* ===== verification/Drain.thy ===== *)
theory Drain
  imports B0_Tx Samples
begin

section \<open>A transmit ring in operation\<close>

text \<open>
  The runs of one transmit ring: packets are mapped and posted (or refused half-way), the chip
  completes descriptors, \<open>aq_ring_tx_clean\<close> reclaims. In all of them the packets on the ring
  end on the ring, so that once the chip has completed what was posted, repeated cleaning
  empties it.
\<close>

subsection \<open>Packets that end on the ring\<close>

text \<open>A buffer at which the clean-up looks for the end of the packet before it goes on.\<close>

definition looks_ahead :: "aq_ring_buff_s \<Rightarrow> bool" where
  "looks_ahead b \<longleftrightarrow> is_mapped b \<and> is_sop b \<and> \<not> is_eop b \<and> eop_index b \<noteq> 0xffff"

definition ends_in :: "aq_ring_s \<Rightarrow> u32 \<Rightarrow> nat \<Rightarrow> bool" where
  "ends_in r p n \<longleftrightarrow> (\<forall>j<n. looks_ahead (buff_ring r ! unat (slot r p j)) \<longrightarrow>
     (\<exists>i<n. j < i \<and> ucast (eop_index (buff_ring r ! unat (slot r p j))) = slot r p i))"

definition ends_ok :: "aq_ring_s \<Rightarrow> bool" where
  "ends_ok r \<longleftrightarrow> ends_in r (sw_head r) (pending r)"

lemma held_looks_ahead:
  "held r \<longleftrightarrow> looks_ahead (buff_ring r ! unat (sw_head r)) \<and>
     \<not> aq_ring_dx_in_range (sw_head r) (ucast (eop_index (buff_ring r ! unat (sw_head r)))) (hw_head r)"
  by (auto simp: held_def looks_ahead_def Let_def)

lemma ends_in_posted:
  "posted r' p n = posted r p n \<Longrightarrow> slot r' = slot r \<Longrightarrow> ends_in r' p n = ends_in r p n"
proof -
  assume eq: "posted r' p n = posted r p n" and s: "slot r' = slot r"
  have "buff_ring r' ! unat (slot r' p j) = buff_ring r ! unat (slot r p j)" if "j < n" for j
    using that arg_cong [OF eq, of "\<lambda>xs. xs ! j"] by (simp add: posted_nth)
  then show ?thesis by (simp add: ends_in_def s)
qed

lemma ends_in_add:
  assumes "ends_in r p m" "ends_in r (slot r p m) n"
  shows "ends_in r p (m + n)"
  unfolding ends_in_def
proof (intro allI impI)
  fix j assume j: "j < m + n" "looks_ahead (buff_ring r ! unat (slot r p j))"
  show "\<exists>i<m + n. j < i \<and> ucast (eop_index (buff_ring r ! unat (slot r p j))) = slot r p i"
  proof (cases "j < m")
    case True
    with assms(1) j(2) show ?thesis unfolding ends_in_def by (meson less_le_trans le_add1)
  next
    case False
    then have jm: "slot r p j = slot r (slot r p m) (j - m)" "j - m < n" using j(1) by (auto simp: slot_slot)
    then obtain i where "i < n" "j - m < i"
      "ucast (eop_index (buff_ring r ! unat (slot r p j))) = slot r (slot r p m) i"
      using assms(2) j(2) unfolding ends_in_def by metis
    then show ?thesis using False by (intro exI [of _ "m + i"]) (auto simp: slot_slot)
  qed
qed

lemma ends_in_drop:
  assumes "ends_in r p (m + n)"
  shows "ends_in r (slot r p m) n"
  unfolding ends_in_def
proof (intro allI impI)
  fix j assume j: "j < n" "looks_ahead (buff_ring r ! unat (slot r (slot r p m) j))"
  then obtain i where "i < m + n" "m + j < i"
    "ucast (eop_index (buff_ring r ! unat (slot r p (m + j)))) = slot r p i"
    using assms unfolding ends_in_def slot_slot by (meson add_less_cancel_left)
  then show "\<exists>i<n. j < i \<and> ucast (eop_index (buff_ring r ! unat (slot r (slot r p m) j))) =
      slot r (slot r p m) i"
    by (intro exI [of _ "i - m"]) (auto simp: slot_slot)
qed

text \<open>Once the chip has completed what is posted, no packet on such a ring holds up the clean-up.\<close>

lemma ends_ok_not_held:
  assumes ok: "ring_ok r" and e: "ends_ok r" and hw: "hw_head r = sw_tail r" and p: "pending r \<noteq> 0"
  shows "\<not> held r"
proof
  assume "held r"
  then have la: "looks_ahead (buff_ring r ! unat (sw_head r))"
    and out: "\<not> aq_ring_dx_in_range (sw_head r) (ucast (eop_index (buff_ring r ! unat (sw_head r)))) (hw_head r)"
    by (auto simp: held_looks_ahead)
  have "looks_ahead (buff_ring r ! unat (slot r (sw_head r) 0))" using la by simp
  then obtain i where i: "i < pending r" "0 < i"
    "ucast (eop_index (buff_ring r ! unat (sw_head r))) = slot r (sw_head r) i"
    using e p unfolding ends_ok_def ends_in_def by (metis neq0_conv slot_0)
  have h: "sw_head r < ring_size r" "hw_head r < ring_size r" using ok by (auto simp: ring_ok_def)
  have "i < unat (ring_size r)" using i(1) pending_less [OF ok] by simp
  then have "ring.gap (ring_size r) (sw_head r) (slot r (sw_head r) i) = i" using gap_slot [OF h(1)] by simp
  moreover have "ring.gap (ring_size r) (sw_head r) (hw_head r) = pending r" by (simp add: pending_def hw)
  moreover have "sw_head r \<noteq> hw_head r" using p calculation(2) ring.gap_0_iff [OF h] by simp
  ultimately have "aq_ring_dx_in_range (sw_head r) (slot r (sw_head r) i) (hw_head r)"
    using dx_in_range_iff [OF h(1) slot_less [OF h(1)] h(2)] i by simp
  with out i(3) show False by simp
qed

subsection \<open>Cleaning until the ring is empty\<close>

lemma clean_ends:
  assumes "ring_ok r" "ends_ok r" "aq_ring_tx_clean r k = (again, r', k')"
  shows "ring_ok r'" "ends_ok r'"
proof -
  from tx_clean_queue [OF assms(1,3)] obtain m where m: "ring_ok r'" "pending r = m + pending r'"
    "sw_head r' = slot r (sw_head r) m" "ring_size r' = ring_size r"
    "posted r' (sw_head r') (pending r') = drop m (posted r (sw_head r) (pending r))"
    by metis
  have s: "slot r' = slot r" using m(4) by (simp add: slot_def fun_eq_iff)
  have "posted r' (sw_head r') (pending r') = posted r (sw_head r') (pending r')"
    using m(5) by (simp add: m(2,3) posted_add)
  with ends_in_posted [OF this s] show "ends_ok r'"
    using ends_in_drop [of r "sw_head r" m "pending r'"] assms(2) m(2,3) by (simp add: ends_ok_def)
  show "ring_ok r'" using m(1) .
qed

fun tx_clean_times :: "nat \<Rightarrow> aq_ring_s \<Rightarrow> kern \<Rightarrow> aq_ring_s \<times> kern" where
  "tx_clean_times 0 r k = (r, k)"
| "tx_clean_times (Suc n) r k = (case aq_ring_tx_clean r k of (again, r, k) \<Rightarrow> tx_clean_times n r k)"

lemma tx_clean_times_drains:
  assumes "ring_ok r" "ends_ok r" "hw_head r = sw_tail r" "pending r < 256 * n" "tx_clean_times n r k = (r', k')"
  shows "pending r' = 0 \<and> klog k' = klog k @ owed r \<and> sw_tail r' = sw_tail r \<and> sw_head r' = sw_tail r'"
  using assms
proof (induction n arbitrary: r k)
  case (Suc n)
  obtain again r1 k1 where c: "aq_ring_tx_clean r k = (again, r1, k1)" by (metis prod.exhaust)
  from tx_clean_queue [OF Suc.prems(1) c] obtain m rel where m: "m \<le> 256" "owed r = rel @ owed r1"
    "k1 = k\<lparr>klog := klog k @ rel\<rparr>" "ring_ok r1" "pending r = m + pending r1"
    "hw_head r1 = hw_head r" "sw_tail r1 = sw_tail r"
    "m < 256 \<longrightarrow> again \<and> (sw_head r1 = hw_head r \<or> held r1)"
    by metis
  note e1 = clean_ends [OF Suc.prems(1,2) c]
  have hw1: "hw_head r1 = sw_tail r1" using m(6,7) Suc.prems(3) by simp
  have t: "tx_clean_times n r1 k1 = (r', k')" using Suc.prems(5) c by simp
  show ?case
  proof (cases "pending r1 = 0")
    case True
    then have emp: "owed r1 = []" by (simp add: owed_def releases_def)
    have "tx_clean_times n r1 k1 = (r1, k1) \<or> 0 < n" by (cases n) simp_all
    moreover have "0 < n \<Longrightarrow> pending r1 < 256 * n" using True by simp
    ultimately show ?thesis
      using Suc.IH [OF e1 hw1 _ t] m(2,3,7) t emp True ring.gap_0_iff [of "sw_head r1" "ring_size r1" "sw_tail r1"] m(4)
      by (auto simp: pending_def ring_ok_def)
  next
    case False
    have "sw_head r1 \<noteq> hw_head r"
      using False m(4,6) hw1 ring.gap_0_iff [of "sw_head r1" "ring_size r1" "sw_tail r1"]
      by (auto simp: pending_def ring_ok_def)
    then have "\<not> m < 256" using m(8) ends_ok_not_held [OF e1 hw1 False] by blast
    then have "pending r1 < 256 * n" using Suc.prems(4) m(5) by simp
    then show ?thesis using Suc.IH [OF e1 hw1 _ t] m(2,3,7) by simp
  qed
qed simp

subsection \<open>Runs of a ring\<close>

text \<open>Publishing posted buffers that end among themselves.\<close>

lemma ends_publish:
  assumes ok: "ring_ok r" "pending r + n < unat (ring_size r)" and same: "ring_same r r1"
    and pub: "published r1 n r2"
    and old: "posted r1 (sw_head r) (pending r) = posted r (sw_head r) (pending r)"
    and e: "ends_ok r" and new: "ends_in r1 (sw_tail r) n"
  shows "ring_ok r2" "ends_ok r2"
proof -
  note sel = ring_same_sel [OF same]
  have v: "sw_head r < ring_size r" "sw_tail r < ring_size r" "hw_head r < ring_size r"
    using ok(1) by (simp_all add: ring_ok_def)
  obtain ds st where r2: "r2 = r1\<lparr>dx_ring := ds, sw_tail := slot r (sw_tail r) n, ring_stats := st\<rparr>"
      "length ds = length (dx_ring r1)"
    using pub sel unfolding published_def by auto
  have len1: "length (buff_ring r1) = length (buff_ring r)" using same by (auto simp: ring_same_def)
  have t: "slot r (sw_tail r) n < ring_size r" using v(2) by (rule slot_less)
  have g: "ring.gap (ring_size r) (sw_head r) (slot r (sw_tail r) n) = pending r + n"
    using gap_add [OF v(1,2)] ok(2) by (simp add: pending_def)
  show "ring_ok r2" using ok(1) r2 sel len1 t g unfolding ring_ok_def pending_def by auto
  have s2: "slot r2 = slot r1" "posted r2 = posted r1" "pending r2 = pending r + n" "sw_head r2 = sw_head r"
    using r2(1) sel g by (auto simp: slot_def posted_def pending_def fun_eq_iff)
  have "ends_in r1 (sw_head r) (pending r)"
    using ends_in_posted [OF old] e sel by (simp add: ends_ok_def)
  moreover have "ends_in r1 (slot r1 (sw_head r) (pending r)) n"
    using new slot_pending [OF ok(1)] sel by simp
  ultimately have "ends_in r1 (sw_head r) (pending r + n)" by (rule ends_in_add)
  then show "ends_ok r2" using ends_in_posted [of r2 "sw_head r" "pending r + n" r1] s2 by (simp add: ends_ok_def)
qed

lemma packet_ends:
  assumes ok: "p < ring_size r" "unat (ring_size r) \<le> 65536"
    and post: "posted r p n = cs @ ps" and cs: "\<forall>b \<in> set cs. context_buff vi s b"
    and pk: "packet (ucast (slot r p (n - 1))) ps"
  shows "ends_in r p n"
  unfolding ends_in_def
proof (intro allI impI)
  fix j assume j: "j < n" and la: "looks_ahead (buff_ring r ! unat (slot r p j))"
  let ?b = "(cs @ ps) ! j"
  have b: "buff_ring r ! unat (slot r p j) = ?b" using posted_nth [OF j, of r p] post by simp
  have lenc: "length cs + length ps = n" using arg_cong [OF post, of length] by simp
  have jc: "\<not> j < length cs"
  proof
    assume a: "j < length cs"
    then have "?b \<in> set cs" by (simp add: nth_append)
    with cs la b show False by (auto simp: context_buff_def looks_ahead_def)
  qed
  then have bp: "?b = ps ! (j - length cs)" "j - length cs < length ps"
    using j lenc by (auto simp: nth_append)
  then have j0: "j = length cs" "length ps \<noteq> 1"
    using pk la b jc by (auto simp: packet_def looks_ahead_def)
  let ?e = "slot r p (n - 1)"
  have "?e < ring_size r" using ok(1) by (rule slot_less)
  then have "unat ?e < 2 ^ 16" using ok(2) by (simp add: word_less_nat_alt)
  then have "ucast (ucast ?e :: u16) = ?e"
    by (simp add: word_unat_eq_iff unsigned_ucast_eq unsigned_take_bit_eq take_bit_nat_eq_self)
  moreover have "eop_index ?b = ucast ?e" using pk bp j0 by (auto simp: packet_def hd_conv_nth)
  moreover have "j < n - 1" using j0 lenc j by linarith
  ultimately show "\<exists>i<n. j < i \<and> ucast (eop_index (buff_ring r ! unat (slot r p j))) = slot r p i"
    unfolding b by (intro exI [of _ "n - 1"]) simp
qed

text \<open>
  \<open>tx_send\<close>: what \<open>aq_nic_xmit\<close> does to the ring after its guard found room: map, and transmit
  unless nothing was posted.
\<close>

inductive tx_send :: "bool \<Rightarrow> bool \<Rightarrow> sk_buff \<Rightarrow> aq_ring_s \<times> kern \<Rightarrow> aq_ring_s \<times> kern \<Rightarrow> bool" for vmk vi s where
  send: "pending r + descs_needed vmk vi s < unat (ring_size r) \<Longrightarrow>
    aq_nic_map_skb vmk vi s r k = (n, r1, k1) \<Longrightarrow> n \<noteq> 0 \<Longrightarrow>
    hw_atl_b0_hw_ring_tx_xmit hw r1 n = (err, hw', r2) \<Longrightarrow> tx_send vmk vi s (r, k) (r2, k1)"
| refused: "pending r + descs_needed vmk vi s < unat (ring_size r) \<Longrightarrow>
    aq_nic_map_skb vmk vi s r k = (0, r1, k1) \<Longrightarrow> tx_send vmk vi s (r, k) (r1, k1)"

text \<open>A step of a run; the chip moves its head up to the tail, and the kernel's answers may change.\<close>

inductive tx_step :: "aq_ring_s \<times> kern \<Rightarrow> aq_ring_s \<times> kern \<Rightarrow> bool" where
  step_send: "tx_send vmk vi s st st' \<Longrightarrow> tx_step st st'"
| step_chip: "c \<le> ring.gap (ring_size r) (hw_head r) (sw_tail r) \<Longrightarrow>
    tx_step (r, k) (r\<lparr>hw_head := slot r (hw_head r) c\<rparr>, k)"
| step_clean: "aq_ring_tx_clean r k = (again, r', k') \<Longrightarrow> tx_step (r, k) (r', k')"
| step_kernel: "tx_step (r, k) (r, k\<lparr>dma_answer := f\<rparr>)"

subsection \<open>Every run keeps the packets on the ring whole\<close>

definition ring_whole :: "aq_ring_s \<Rightarrow> bool" where
  "ring_whole r \<longleftrightarrow> ring_ok r \<and> ends_ok r \<and> unat (ring_size r) \<le> 65536"

lemma published_size: "published r n r' \<Longrightarrow> ring_size r' = ring_size r"
  by (auto simp: published_def)

lemma unpublished_whole:
  assumes "ring_whole r" "ring_same r r1" "pending r + n \<le> unat (ring_size r)"
    and "drop n (window r1 (sw_tail r)) = drop n (window r (sw_tail r))"
  shows "ring_whole r1"
proof -
  note sel = ring_same_sel [OF assms(2)]
  have ok: "ring_ok r" using assms(1) by (simp add: ring_whole_def)
  have p: "pending r1 = pending r" using sel by (simp add: pending_def)
  have "ends_ok r1"
    using ends_in_posted [OF posted_before [OF ok assms(2-4)]] assms(1) sel p
    by (simp add: ring_whole_def ends_ok_def)
  then show ?thesis using owed_same(1) [OF ok assms(2-4)] assms(1) sel by (simp add: ring_whole_def)
qed

lemma sent_whole:
  assumes w: "ring_whole r" and same: "ring_same r r1" and room: "pending r + m \<le> unat (ring_size r)"
      "n \<le> m" "pending r + n < unat (ring_size r)"
    and win: "drop m (window r1 (sw_tail r)) = drop m (window r (sw_tail r))"
    and new: "ends_in r1 (sw_tail r) n"
    and x: "hw_atl_b0_hw_ring_tx_xmit hw r1 n = (err, hw', r2)"
  shows "ring_whole r2"
proof -
  note sel = ring_same_sel [OF same]
  have ok: "ring_ok r" "ends_ok r" "unat (ring_size r) \<le> 65536" using w by (auto simp: ring_whole_def)
  have pub: "published r1 n r2"
    by (rule b0_tx.publishes [OF _ _ _ x]) (use ok(1) sel room in \<open>auto simp: ring_ok_def\<close>)
  note e = ends_publish [OF ok(1) room(3) same pub posted_before [OF ok(1) same room(1) win] ok(2) new]
  then show ?thesis using ok(3) published_size [OF pub] sel by (simp add: ring_whole_def)
qed

lemma send_whole:
  assumes "tx_send vmk vi s (r, k) (r', k')" "ring_whole r"
  shows "ring_whole r'"
  using assms(1)
proof cases
  case (send n r1 hw err hw')
  have ok: "ring_ok r" "unat (ring_size r) \<le> 65536" using assms(2) by (auto simp: ring_whole_def)
  have sz: "sized r (sw_tail r)" "2 \<le> unat (ring_size r)" "descs_needed vmk vi s \<le> unat (ring_size r)"
    using ring_ok_sized [OF ok(1)] send(1) by auto
  have t: "sw_tail r < ring_size r" using ok(1) by (simp add: ring_ok_def)
  show ?thesis
  proof (cases "dma_answer k (dma_calls k)")
    case None
    note h = map_skb_head_refused [OF sz(1,2) None send(2)]
    have c: "needs_context vi s" "n = 1" using h(1) send(3) by (auto split: if_splits)
    have two: "2 \<le> descs_needed vmk vi s" using c by (simp add: descs_needed_def)
    have sel: "slot r1 = slot r" using ring_same_sel [OF h(2)] by simp
    have "ends_in r1 (sw_tail r) 1"
    proof -
      have "window r1 (sw_tail r) ! 0 = buff_ring r1 ! unat (sw_tail r)"
        using sz(2) ring_same_sel [OF h(2)] by (simp add: window_nth)
      then show ?thesis using h(5) [OF c(1)] by (simp add: ends_in_def looks_ahead_def context_buff_def)
    qed
    then show ?thesis
      using sent_whole [OF assms(2) h(2) _ _ _ h(4) _ send(4)] send(1) c(2) two by simp
  next
    case (Some a)
    show ?thesis
    proof (rule map_skb_outcomes [OF sz Some send(2)], goal_cases posted refused)
      case (posted cs ps evs)
      note sel = ring_same_sel [OF posted(1)]
      have le: "pending r + n < unat (ring_size r)" using send(1) posted(2) by simp
      have w: "window r1 (sw_tail r) = (cs @ ps) @ drop n (window r (sw_tail r))" using posted(5) by simp
      have post: "posted r1 (sw_tail r) n = cs @ ps"
        using posted_window [of n r1 "sw_tail r"] w posted(6) le sel by simp
      have "ends_in r1 (sw_tail r) n"
        by (rule packet_ends [OF _ _ post posted(8)]) (use t ok(2) sel posted(9) in auto)
      moreover have "drop n (window r1 (sw_tail r)) = drop n (window r (sw_tail r))"
        using w posted(6) by simp
      ultimately show ?case using sent_whole [OF assms(2) posted(1) _ le_refl le _ _ send(4)] le by simp
    qed (use send(3) in simp)
  qed
next
  case refused
  have ok: "ring_ok r" using assms(2) by (simp add: ring_whole_def)
  have sz: "sized r (sw_tail r)" "2 \<le> unat (ring_size r)" "descs_needed vmk vi s \<le> unat (ring_size r)"
    using ring_ok_sized [OF ok] refused(1) by auto
  show ?thesis
  proof (cases "dma_answer k (dma_calls k)")
    case None
    note h = map_skb_head_refused [OF sz(1,2) None refused(2)]
    have c: "\<not> needs_context vi s" using h(1) by (auto split: if_splits)
    have room: "pending r + 2 \<le> unat (ring_size r) \<or> pending r + 1 = unat (ring_size r)"
      using pending_less [OF ok] by linarith
    have "descs_needed vmk vi s \<ge> 1" by (simp add: descs_needed_def)
    with refused(1) have "pending r + 2 \<le> unat (ring_size r)" by linarith
    then show ?thesis using unpublished_whole [OF assms(2) h(2) _ h(4)] by simp
  next
    case (Some a)
    show ?thesis
    proof (rule map_skb_outcomes [OF sz Some refused(2)], goal_cases posted refused')
      case (posted cs ps evs)
      then show ?case by (simp add: packet_def)
    next
      case (refused' evs)
      then show ?case using unpublished_whole [OF assms(2) refused'(1) _ refused'(5)] refused(1) by simp
    qed
  qed
qed

lemma chip_whole:
  assumes "ring_whole r" "c \<le> ring.gap (ring_size r) (hw_head r) (sw_tail r)"
  shows "ring_whole (r\<lparr>hw_head := slot r (hw_head r) c\<rparr>)"
proof -
  let ?r = "r\<lparr>hw_head := slot r (hw_head r) c\<rparr>" and ?g = "ring.gap (ring_size r)"
  have v: "sw_head r < ring_size r" "sw_tail r < ring_size r" "hw_head r < ring_size r"
    "?g (sw_head r) (hw_head r) \<le> ?g (sw_head r) (sw_tail r)"
    using assms(1) by (auto simp: ring_whole_def ring_ok_def)
  have same: "slot ?r = slot r" "posted ?r = posted r" "pending ?r = pending r"
    by (auto simp: slot_def posted_def pending_def fun_eq_iff)
  have tl: "slot r (hw_head r) (?g (hw_head r) (sw_tail r)) = sw_tail r" using slot_gap v by simp
  have "?g (sw_head r) (hw_head r) + ?g (hw_head r) (sw_tail r) = ?g (sw_head r) (sw_tail r)"
    using ring.gap_split [OF v(1,3,2,4)] v(4) by simp
  then have le: "?g (sw_head r) (hw_head r) + c \<le> ?g (sw_head r) (sw_tail r)" using assms(2) by simp
  have "?g (sw_head r) (sw_tail r) < unat (ring_size r)" using v(1) by (rule ring.gap_less)
  then have "?g (sw_head r) (slot r (hw_head r) c) = ?g (sw_head r) (hw_head r) + c"
    using gap_add [OF v(1,3)] le by simp
  then have "ring_ok ?r" using assms(1) le slot_less [OF v(3)] by (auto simp: ring_whole_def ring_ok_def)
  moreover have "ends_ok ?r"
    using assms(1) same by (simp add: ring_whole_def ends_ok_def ends_in_def)
  ultimately show ?thesis using assms(1) by (simp add: ring_whole_def)
qed

lemma step_whole: "tx_step st st' \<Longrightarrow> ring_whole (fst st) \<Longrightarrow> ring_whole (fst st')"
proof (induction rule: tx_step.induct)
  case (step_send vmk vi s st st')
  then show ?case using send_whole [of vmk vi s "fst st" "snd st" "fst st'" "snd st'"] by simp
next
  case (step_clean r k again r' k')
  then have w: "ring_ok r" "ends_ok r" "unat (ring_size r) \<le> 65536" by (auto simp: ring_whole_def)
  have "ring_size r' = ring_size r" using tx_clean_queue [OF w(1) step_clean.hyps] by blast
  with clean_ends [OF w(1,2) step_clean.hyps] w(3) show ?case by (simp add: ring_whole_def)
qed (simp_all add: chip_whole)

lemma run_whole: "tx_step\<^sup>*\<^sup>* st st' \<Longrightarrow> ring_whole (fst st) \<Longrightarrow> ring_whole (fst st')"
  by (induction rule: rtranclp_induct) (auto dest: step_whole)

lemma empty_whole:
  "ring_ok r \<Longrightarrow> sw_head r = sw_tail r \<Longrightarrow> unat (ring_size r) \<le> 65536 \<Longrightarrow> ring_whole r"
  using ring.gap_0_iff [of "sw_tail r" "ring_size r" "sw_tail r"]
  by (simp add: ring_whole_def ends_ok_def ends_in_def pending_def ring_ok_def)

text \<open>
  C24: A transmit ring never gets stuck. Take any run that starts with an empty ring: packets
  sent, packets refused by the kernel at any point, descriptors completed by the chip,
  clean-ups. If the chip then completes everything posted, pending / 256 + 1 further calls of
  aq_ring_tx_clean leave the ring empty and have performed, in order, exactly the releases
  that were owed.
\<close>

theorem tx_ring_drains:
  assumes "ring_ok r0" "sw_head r0 = sw_tail r0" "unat (ring_size r0) \<le> 65536"
    and run: "tx_step\<^sup>*\<^sup>* (r0, k0) (r, k)"
    and clean: "tx_clean_times (Suc (pending r div 256)) (r\<lparr>hw_head := sw_tail r\<rparr>) k = (r', k')"
  shows "pending r' = 0 \<and> sw_head r' = sw_tail r' \<and> sw_tail r' = sw_tail r \<and> klog k' = klog k @ owed r"
proof -
  let ?r = "r\<lparr>hw_head := sw_tail r\<rparr>"
  have w: "ring_whole r" using run_whole [OF run] empty_whole [OF assms(1-3)] by simp
  have "slot r (hw_head r) (ring.gap (ring_size r) (hw_head r) (sw_tail r)) = sw_tail r"
    using w slot_gap by (simp add: ring_whole_def ring_ok_def)
  then have w': "ring_whole ?r" using chip_whole [OF w le_refl] by simp
  have p: "pending ?r = pending r" "owed ?r = owed r"
    by (auto simp: pending_def owed_def posted_def)
  have "pending ?r < 256 * Suc (pending r div 256)" unfolding p by simp
  then show ?thesis
    using tx_clean_times_drains [OF _ _ _ _ clean] w' p by (simp add: ring_whole_def)
qed

lemma drain_sample: "fst (aq_nic_map_skb False True skb0 (ring0 8 6) kern0) = 4" "descs_needed False True skb0 = 4"
  by code_simp+

theorem tx_ring_drains_witness:
  "\<exists>r k r' k'. tx_step\<^sup>*\<^sup>* (ring0 8 6, kern0) (r, k) \<and> pending r = 4 \<and>
     tx_clean_times 1 (r\<lparr>hw_head := sw_tail r\<rparr>) k = (r', k') \<and> pending r' = 0"
proof -
  obtain r1 k where m: "aq_nic_map_skb False True skb0 (ring0 8 6) kern0 = (4, r1, k)"
    using drain_sample(1) by (metis fst_conv prod.exhaust)
  obtain err hw' r where x: "hw_atl_b0_hw_ring_tx_xmit hw0 r1 4 = (err, hw', r)" by (metis prod.exhaust)
  have ok: "ring_ok (ring0 8 6)" "sw_head (ring0 8 6) = sw_tail (ring0 8 6)" "unat (ring_size (ring0 8 6)) \<le> 65536"
    by (simp_all add: ring0_ok)
  have p0: "pending (ring0 8 6) = 0" using ok(1,2) by (simp add: pending_def ring.gap_0_iff ring_ok_def)
  have fits: "pending (ring0 8 6) + descs_needed False True skb0 < unat (ring_size (ring0 8 6))"
    by (simp add: p0 drain_sample(2))
  have "tx_step (ring0 8 6, kern0) (r, k)"
    by (rule step_send [of False True skb0], rule send [OF fits m _ x]) simp
  then have run: "tx_step\<^sup>*\<^sup>* (ring0 8 6, kern0) (r, k)" by (rule r_into_rtranclp)
  have "dma_answer kern0 (dma_calls kern0) \<noteq> None" by (simp add: kern0_def)
  then obtain a where a: "dma_answer kern0 (dma_calls kern0) = Some a" by blast
  have p: "pending r = 4"
    by (rule b0_packet_published [OF ok(1) fits a m _ x]) (simp_all add: p0)
  obtain r' k' where c: "tx_clean_times (Suc (pending r div 256)) (r\<lparr>hw_head := sw_tail r\<rparr>) k = (r', k')"
    by (metis prod.exhaust)
  with tx_ring_drains [OF ok run c] run p show ?thesis by auto
qed

end
