(* ===== verification/Firmware.thy ===== *)
theory Firmware
  imports Llh_Ops
begin

section \<open>The firmware mailbox (hw_atl_utils.c)\<close>

text \<open>
  The register protocol between the driver and the card's firmware: the semaphore-guarded
  download and upload of words through the memory interface, the remote procedure calls, the
  MAC state, link status, statistics, MAC address and reset sequences of the 1.x firmware.
  Sleeps have no effect on the state. \<open>struct hw_aq_atl_utils_fw_rpc\<close> and the mailbox are the
  lists of their 32-bit words (both structs are packed, the CPU little-endian). A local
  variable the C code does not initialise is an argument (\<open>stack\<close>), and so is the
  result of \<open>get_random_bytes\<close> (\<open>rnd\<close>).
\<close>

subsection \<open>Constants\<close>

definition EBUSY :: int where "EBUSY = 16"
definition ENOTSUPP :: int where "ENOTSUPP = 524"

definition HW_ATL_UCP_0X370_REG :: u32 where "HW_ATL_UCP_0X370_REG = 0x0370"
definition HW_ATL_MIF_CMD :: u32 where "HW_ATL_MIF_CMD = 0x0200"
definition HW_ATL_MIF_ADDR :: u32 where "HW_ATL_MIF_ADDR = 0x0208"
definition HW_ATL_MIF_VAL :: u32 where "HW_ATL_MIF_VAL = 0x020C"
definition HW_ATL_FW_SM_MSM :: u32 where "HW_ATL_FW_SM_MSM = 1"
definition HW_ATL_FW_SM_RAM :: u32 where "HW_ATL_FW_SM_RAM = 2"
definition HW_ATL_MPI_FW_VERSION :: u32 where "HW_ATL_MPI_FW_VERSION = 0x18"
definition HW_ATL_MPI_CONTROL_ADR :: u32 where "HW_ATL_MPI_CONTROL_ADR = 0x0368"
definition HW_ATL_MPI_STATE_ADR :: u32 where "HW_ATL_MPI_STATE_ADR = 0x036C"
definition HW_ATL_MPI_STATE_MSK :: u32 where "HW_ATL_MPI_STATE_MSK = 0x00FF"
definition HW_ATL_MPI_SPEED_MSK :: u32 where "HW_ATL_MPI_SPEED_MSK = 0x00FF0000"
definition HW_ATL_MPI_SPEED_SHIFT :: nat where "HW_ATL_MPI_SPEED_SHIFT = 16"
definition HW_ATL_MPI_DIRTY_WAKE_MSK :: u32 where "HW_ATL_MPI_DIRTY_WAKE_MSK = 0x02000000"
definition HW_ATL_MPI_DAISY_CHAIN_STATUS :: u32 where "HW_ATL_MPI_DAISY_CHAIN_STATUS = 0x704"
definition HW_ATL_MPI_BOOT_EXIT_CODE :: u32 where "HW_ATL_MPI_BOOT_EXIT_CODE = 0x388"
definition HW_ATL_MAC_PHY_CONTROL :: u32 where "HW_ATL_MAC_PHY_CONTROL = 0x4000"
definition HW_ATL_MAC_PHY_MPI_RESET_BIT :: nat where "HW_ATL_MAC_PHY_MPI_RESET_BIT = 0x1D"
definition HW_ATL_FW_VER_1X :: u32 where "HW_ATL_FW_VER_1X = 0x01050006"
definition HW_ATL_FW_VER_2X :: u32 where "HW_ATL_FW_VER_2X = 0x02000000"
definition HW_ATL_FW_VER_3X :: u32 where "HW_ATL_FW_VER_3X = 0x03000000"
definition FORCE_FLASHLESS :: bool where "FORCE_FLASHLESS = False"
definition HW_ATL_RPC_CONTROL_ADR :: u32 where "HW_ATL_RPC_CONTROL_ADR = 0x0338"
definition HW_ATL_RPC_STATE_ADR :: u32 where "HW_ATL_RPC_STATE_ADR = 0x033C"

definition HAL_ATLANTIC_UTILS_CHIP_MIPS :: u32 where "HAL_ATLANTIC_UTILS_CHIP_MIPS = 0x00000001"
definition HAL_ATLANTIC_UTILS_CHIP_TPO2 :: u32 where "HAL_ATLANTIC_UTILS_CHIP_TPO2 = 0x00000002"
definition HAL_ATLANTIC_UTILS_CHIP_RPF2 :: u32 where "HAL_ATLANTIC_UTILS_CHIP_RPF2 = 0x00000004"
definition HAL_ATLANTIC_UTILS_CHIP_MPI_AQ :: u32 where "HAL_ATLANTIC_UTILS_CHIP_MPI_AQ = 0x00000010"
definition HAL_ATLANTIC_UTILS_CHIP_REVISION_A0 :: u32 where
  "HAL_ATLANTIC_UTILS_CHIP_REVISION_A0 = 0x01000000"
definition HAL_ATLANTIC_UTILS_CHIP_REVISION_B0 :: u32 where
  "HAL_ATLANTIC_UTILS_CHIP_REVISION_B0 = 0x02000000"
definition HAL_ATLANTIC_UTILS_CHIP_REVISION_B1 :: u32 where
  "HAL_ATLANTIC_UTILS_CHIP_REVISION_B1 = 0x04000000"

definition IS_CHIP_FEATURE :: "u32 \<Rightarrow> aq_hw_s \<Rightarrow> bool" where
  "IS_CHIP_FEATURE f self \<longleftrightarrow> f AND chip_features self \<noteq> 0"

text \<open>\<open>enum hal_atl_utils_fw_state_e\<close>.\<close>

datatype fw_state = MPI_DEINIT | MPI_RESET | MPI_INIT | MPI_POWER

fun fw_state_code :: "fw_state \<Rightarrow> u32" where
  "fw_state_code MPI_DEINIT = 0"
| "fw_state_code MPI_RESET = 1"
| "fw_state_code MPI_INIT = 2"
| "fw_state_code MPI_POWER = 4"

definition HAL_ATLANTIC_RATE_10G :: u32 where "HAL_ATLANTIC_RATE_10G = BIT 0"
definition HAL_ATLANTIC_RATE_5G :: u32 where "HAL_ATLANTIC_RATE_5G = BIT 1"
definition HAL_ATLANTIC_RATE_5GSR :: u32 where "HAL_ATLANTIC_RATE_5GSR = BIT 2"
definition HAL_ATLANTIC_RATE_2GS :: u32 where "HAL_ATLANTIC_RATE_2GS = BIT 3"
definition HAL_ATLANTIC_RATE_1G :: u32 where "HAL_ATLANTIC_RATE_1G = BIT 4"
definition HAL_ATLANTIC_RATE_100M :: u32 where "HAL_ATLANTIC_RATE_100M = BIT 5"

definition HAL_ATLANTIC_UTILS_FW_MSG_WOL_ADD :: u32 where "HAL_ATLANTIC_UTILS_FW_MSG_WOL_ADD = 4"
definition HAL_ATLANTIC_UTILS_FW_MSG_WOL_DEL :: u32 where "HAL_ATLANTIC_UTILS_FW_MSG_WOL_DEL = 5"
definition HAL_ATLANTIC_UTILS_FW_MSG_ENABLE_WAKEUP :: u32 where
  "HAL_ATLANTIC_UTILS_FW_MSG_ENABLE_WAKEUP = 6"
definition AQ_NIC_WOL_ENABLED :: u32 where "AQ_NIC_WOL_ENABLED = BIT 0"

subsection \<open>Waiting for a register\<close>

definition reg_is :: "u32 \<Rightarrow> (u32 \<Rightarrow> bool) \<Rightarrow> aq_hw_s \<Rightarrow> bool \<times> aq_hw_s" where
  "reg_is a P self = (case aq_hw_read_reg self a of (v, self) \<Rightarrow> (P v, self))"

definition etime :: "bool \<Rightarrow> int \<Rightarrow> int" where
  "etime late err = (if late then - ETIME else err)"

text \<open>\<open>for (k = 0; k < n; k++) { if (B) break; }\<close>: whether the loop was left by the break.\<close>

fun poll_until :: "('s \<Rightarrow> bool \<times> 's) \<Rightarrow> nat \<Rightarrow> 's \<Rightarrow> bool \<times> 's" where
  "poll_until B 0 s = (False, s)"
| "poll_until B (Suc n) s = (case B s of (b, s) \<Rightarrow> if b then (True, s) else poll_until B n s)"

subsection \<open>Words through the memory interface\<close>

text \<open>
  Downloading \<open>cnt\<close> words from address \<open>a\<close> of the firmware's memory to \<open>p\<close>. After a time-out
  of the semaphore the driver releases it and asks once more; \<open>err\<close> stays \<open>-ETIME\<close>.
\<close>

definition mif_done :: "u32 \<Rightarrow> aq_hw_s \<Rightarrow> bool \<times> aq_hw_s" where
  "mif_done a self =
     (if IS_CHIP_FEATURE HAL_ATLANTIC_UTILS_CHIP_REVISION_B1 self
      then AQ_HW_WAIT_FOR (reg_is HW_ATL_MIF_ADDR (\<lambda>v. a \<noteq> v)) 1000 self
      else AQ_HW_WAIT_FOR (reg_is HW_ATL_MIF_CMD (\<lambda>v. 0x100 AND v = 0)) 1000 self)"

fun downld_loop :: "nat \<Rightarrow> nat \<Rightarrow> u32 \<Rightarrow> int \<Rightarrow> aq_hw_s \<Rightarrow> u32 list \<Rightarrow> int \<times> aq_hw_s \<times> u32 list" where
  "downld_loop 0 i a err self p = (err, self, p)"
| "downld_loop (Suc cnt) i a err self p =
     (if err \<noteq> 0 then (err, self, p)
      else
        let self = aq_hw_write_reg self HW_ATL_MIF_CMD 0x00008000 in
        case mif_done a self of (late, self) \<Rightarrow>
        case aq_hw_read_reg self HW_ATL_MIF_VAL of (v, self) \<Rightarrow>
          downld_loop cnt (Suc i) (a + 4) (etime late err) self (p[i := v]))"

definition sem_taken :: "u32 \<Rightarrow> aq_hw_s \<Rightarrow> bool \<times> aq_hw_s" where
  "sem_taken sem self = (case hw_atl_reg_glb_cpu_sem_get self sem of (v, self) \<Rightarrow> (v = 1, self))"

definition downld_locked :: "int \<Rightarrow> aq_hw_s \<Rightarrow> u32 \<Rightarrow> u32 list \<Rightarrow> nat \<Rightarrow> int \<times> aq_hw_s \<times> u32 list" where
  "downld_locked err self a p cnt =
     (let self = aq_hw_write_reg self HW_ATL_MIF_ADDR a in
      case downld_loop cnt 0 a err self p of (err, self, p) \<Rightarrow>
        (err, hw_atl_reg_glb_cpu_sem_set self 1 HW_ATL_FW_SM_RAM, p))"

definition hw_atl_utils_fw_downld_dwords :: "aq_hw_s \<Rightarrow> u32 \<Rightarrow> u32 list \<Rightarrow> nat \<Rightarrow> int \<times> aq_hw_s \<times> u32 list" where
  "hw_atl_utils_fw_downld_dwords self a p cnt =
     (case AQ_HW_WAIT_FOR (sem_taken HW_ATL_FW_SM_RAM) 10000 self of (late, self) \<Rightarrow>
        if late then
          let self = hw_atl_reg_glb_cpu_sem_set self 1 HW_ATL_FW_SM_RAM in
          case hw_atl_reg_glb_cpu_sem_get self HW_ATL_FW_SM_RAM of (is_locked, self) \<Rightarrow>
            if is_locked = 0 then (- ETIME, self, p) else downld_locked (- ETIME) self a p cnt
        else downld_locked 0 self a p cnt)"

text \<open>Uploading, word by word; the B1 chip has a mailbox register of its own for it.\<close>

definition upload_b1 :: "u32 list \<Rightarrow> nat \<Rightarrow> int \<times> aq_hw_s \<Rightarrow> int \<times> aq_hw_s" where
  "upload_b1 p offset = (\<lambda>(err, self).
     let self = aq_hw_write_reg self 0x328 (p ! offset);
         self = aq_hw_write_reg self 0x32C (0x80000000 OR (0xFFFF AND (of_nat offset * 4)));
         self = mcp_up_force_intr_set self 1 in
     case AQ_HW_WAIT_FOR (reg_is 0x32C (\<lambda>v. v AND 0xF0000000 \<noteq> 0x80000000)) 1000 self of
       (late, self) \<Rightarrow> (etime late err, self))"

definition upload_mif :: "u32 list \<Rightarrow> nat \<Rightarrow> int \<times> aq_hw_s \<Rightarrow> int \<times> aq_hw_s" where
  "upload_mif p offset = (\<lambda>(err, self).
     let self = aq_hw_write_reg self 0x20C (p ! offset);
         self = aq_hw_write_reg self 0x200 0xC000 in
     case AQ_HW_WAIT_FOR (reg_is 0x200 (\<lambda>v. v AND 0x100 = 0)) 1000 self of
       (late, self) \<Rightarrow> (etime late err, self))"

definition hw_atl_utils_fw_upload_dwords :: "aq_hw_s \<Rightarrow> u32 \<Rightarrow> u32 list \<Rightarrow> nat \<Rightarrow> int \<times> aq_hw_s" where
  "hw_atl_utils_fw_upload_dwords self a p cnt =
     (case hw_atl_reg_glb_cpu_sem_get self HW_ATL_FW_SM_RAM of (is_locked, self) \<Rightarrow>
        if is_locked = 0 then (- ETIME, self)
        else case (if IS_CHIP_FEATURE HAL_ATLANTIC_UTILS_CHIP_REVISION_B1 self
                   then fold (upload_b1 p) [0..<cnt] (0, self)
                   else fold (upload_mif p) [0..<cnt] (0, aq_hw_write_reg self 0x208 a)) of
          (err, self) \<Rightarrow> (err, hw_atl_reg_glb_cpu_sem_set self 1 HW_ATL_FW_SM_RAM))"

definition hw_atl_utils_ver_match :: "u32 \<Rightarrow> u32 \<Rightarrow> int" where
  "hw_atl_utils_ver_match ver_expected ver_actual =
     (if 0xff000000 AND (ver_expected XOR ver_actual) \<noteq> 0 then - EOPNOTSUPP
      else if 0x00ffffff AND ver_expected > 0x00ffffff AND ver_actual then - EOPNOTSUPP else 0)"

subsection \<open>Remote procedure calls\<close>

definition hw_atl_utils_init_ucp :: "u32 \<Rightarrow> aq_hw_s \<Rightarrow> int \<times> aq_hw_s" where
  "hw_atl_utils_init_ucp rnd self =
     (case aq_hw_read_reg self 0x370 of (v, self) \<Rightarrow>
      let self = (if v = 0 then aq_hw_write_reg self HW_ATL_UCP_0X370_REG
                                  (0x02020202 OR (0xFEFEFEFE AND rnd))
                  else self);
          self = hw_atl_reg_glb_cpu_scratch_scp_set self 0 25 in
      case AQ_HW_WAIT_FOR (\<lambda>self. case aq_hw_read_reg self 0x360 of (v, self) \<Rightarrow>
             (v \<noteq> 0, self\<lparr>mbox_addr := v\<rparr>)) 10 self of (late1, self) \<Rightarrow>
      case AQ_HW_WAIT_FOR (\<lambda>self. case aq_hw_read_reg self 0x334 of (v, self) \<Rightarrow>
             (v \<noteq> 0, self\<lparr>rpc_addr := v\<rparr>)) 100 self of (late2, self) \<Rightarrow>
        (etime late2 (etime late1 0), self))"

text \<open>\<open>struct aq_hw_atl_utils_fw_rpc_tid_s\<close>: the transaction in the low half, the length in the high one.\<close>

definition rpc_tid_of :: "u32 \<Rightarrow> u16" where
  "rpc_tid_of v = ucast v"

definition rpc_len_of :: "u32 \<Rightarrow> u16" where
  "rpc_len_of v = ucast (drop_bit 16 v)"

definition rpc_val :: "u16 \<Rightarrow> u16 \<Rightarrow> u32" where
  "rpc_val tid l = ucast tid OR push_bit 16 (ucast l)"

text \<open>Whole words of \<open>rpc_size\<close> bytes: \<open>(rpc_size + sizeof(u32) - sizeof(u8)) / sizeof(u32)\<close>.\<close>

definition rpc_words :: "nat \<Rightarrow> nat" where
  "rpc_words rpc_size = (rpc_size + 4 - 1) div 4"

definition hw_atl_utils_fw_rpc_call :: "aq_hw_s \<Rightarrow> u32 \<Rightarrow> int \<times> aq_hw_s" where
  "hw_atl_utils_fw_rpc_call self rpc_size =
     (if \<not> IS_CHIP_FEATURE HAL_ATLANTIC_UTILS_CHIP_MIPS self then (- 1, self)
      else case hw_atl_utils_fw_upload_dwords self (rpc_addr self) (fw_rpc self)
                  (rpc_words (unat rpc_size)) of (err, self) \<Rightarrow>
        if err < 0 then (err, self)
        else let self = self\<lparr>rpc_tid := rpc_tid self + 1\<rparr> in
          (err, aq_hw_write_reg self HW_ATL_RPC_CONTROL_ADR
                  (rpc_val (ucast (0xFFFF AND rpc_tid self)) (ucast rpc_size))))"

text \<open>
  The do-while loop of \<open>hw_atl_utils_fw_rpc_wait\<close>: a firmware that answers every call with
  length 0xFFFF keeps the driver in it for ever (None). A call that ends gives the firmware's
  last status word \<open>fw\<close>.
\<close>

definition rpc_answered :: "u16 \<Rightarrow> u32 \<times> aq_hw_s \<Rightarrow> bool \<times> u32 \<times> aq_hw_s" where
  "rpc_answered tid = (\<lambda>(fw, self).
     case aq_hw_read_reg self HW_ATL_RPC_STATE_ADR of (fw, self) \<Rightarrow> (tid = rpc_tid_of fw, fw, self))"

text \<open>One turn of the loop; the first component is the loop condition.\<close>

definition rpc_turn :: "aq_hw_s \<Rightarrow> bool \<times> int \<times> u32 \<times> aq_hw_s" where
  "rpc_turn self =
     (case aq_hw_read_reg self HW_ATL_RPC_CONTROL_ADR of (sw, self) \<Rightarrow>
      let self = self\<lparr>rpc_tid := ucast (rpc_tid_of sw)\<rparr> in
      case AQ_HW_WAIT_FOR (rpc_answered (rpc_tid_of sw)) 100 (0, self) of (late, fw, self) \<Rightarrow>
      if late then (False, - ETIME, fw, self)
      else if rpc_len_of fw = 0xFFFF then
        case hw_atl_utils_fw_rpc_call self (ucast (rpc_len_of sw)) of (err, self) \<Rightarrow>
          (\<not> err < 0, err, fw, self)
      else (rpc_tid_of sw \<noteq> rpc_tid_of fw, 0, fw, self))"

partial_function (option) rpc_sync :: "aq_hw_s \<Rightarrow> (int \<times> u32 \<times> aq_hw_s) option" where
  "rpc_sync self =
     (case rpc_turn self of (again, err, fw, self) \<Rightarrow>
        if again then rpc_sync self else Some (err, fw, self))"

text \<open>
  \<open>want\<close> is \<open>rpc != NULL\<close>: the answer's \<open>len\<close> bytes are copied over \<open>self->rpc\<close>, however
  many the device says there are. (Words beyond the list are dropped here; in C they land
  behind the struct.)
\<close>

definition hw_atl_utils_fw_rpc_wait :: "aq_hw_s \<Rightarrow> bool \<Rightarrow> (int \<times> aq_hw_s) option" where
  "hw_atl_utils_fw_rpc_wait self want =
     (case rpc_sync self of
        None \<Rightarrow> None
      | Some (err, fw, self) \<Rightarrow>
          if err < 0 \<or> \<not> want \<or> rpc_len_of fw = 0 then Some (err, self)
          else case hw_atl_utils_fw_downld_dwords self (rpc_addr self) (fw_rpc self)
                      (rpc_words (unat (rpc_len_of fw))) of (err, self, p) \<Rightarrow>
            Some (err, self\<lparr>fw_rpc := p\<rparr>))"

definition hw_atl_utils_mpi_create :: "u32 \<Rightarrow> aq_hw_s \<Rightarrow> (int \<times> aq_hw_s) option" where
  "hw_atl_utils_mpi_create rnd self =
     (case hw_atl_utils_init_ucp rnd self of (err, self) \<Rightarrow>
        if err < 0 then Some (err, self) else hw_atl_utils_fw_rpc_wait self False)"

subsection \<open>The mailbox, the MAC state and the link\<close>

text \<open>
  The header of the mailbox (version, transaction_id, error) is three words, the whole
  mailbox 73: header, the 15 statistics, then \<open>struct hw_aq_info\<close> from byte 72 on.
\<close>

definition hw_atl_utils_mpi_read_mbox :: "aq_hw_s \<Rightarrow> u32 list \<Rightarrow> int \<times> aq_hw_s \<times> u32 list" where
  "hw_atl_utils_mpi_read_mbox self pmbox =
     hw_atl_utils_fw_downld_dwords self (mbox_addr self) pmbox 3"

definition mbox_transaction_id :: "u32 list \<Rightarrow> u32" where
  "mbox_transaction_id mbox = mbox ! 1"

definition hw_atl_utils_mpi_read_stats :: "aq_hw_s \<Rightarrow> u32 list \<Rightarrow> aq_hw_s \<times> u32 list" where
  "hw_atl_utils_mpi_read_stats self pmbox =
     (case hw_atl_utils_fw_downld_dwords self (mbox_addr self) pmbox 73 of (err, self, pmbox) \<Rightarrow>
        if err < 0 then (self, pmbox)
        else if IS_CHIP_FEATURE HAL_ATLANTIC_UTILS_CHIP_REVISION_B0 self
        then (self, pmbox[17 := dpc self]) else (self, pmbox))"

definition hw_atl_utils_mpi_set_speed :: "aq_hw_s \<Rightarrow> u32 \<Rightarrow> int \<times> aq_hw_s" where
  "hw_atl_utils_mpi_set_speed self speed =
     (case aq_hw_read_reg self HW_ATL_MPI_CONTROL_ADR of (val, self) \<Rightarrow>
      (0, aq_hw_write_reg self HW_ATL_MPI_CONTROL_ADR
            ((val AND NOT HW_ATL_MPI_SPEED_MSK) OR push_bit HW_ATL_MPI_SPEED_SHIFT speed)))"

text \<open>
  For \<open>MPI_RESET\<close> the driver waits until the transaction number in the mailbox changes; the
  outcome of the downloads themselves is not looked at, so after a failed one \<open>mbox\<close> is
  what it was.
\<close>

definition mbox_moved :: "u32 \<Rightarrow> u32 list \<times> aq_hw_s \<Rightarrow> bool \<times> u32 list \<times> aq_hw_s" where
  "mbox_moved transaction_id = (\<lambda>(mbox, self).
     case hw_atl_utils_mpi_read_mbox self mbox of (err, self, mbox) \<Rightarrow>
       (transaction_id \<noteq> mbox_transaction_id mbox, mbox, self))"

definition mpi_reset_wait :: "aq_hw_s \<Rightarrow> u32 list \<Rightarrow> int \<times> aq_hw_s" where
  "mpi_reset_wait self mbox =
     (case hw_atl_utils_mpi_read_mbox self mbox of (err, self, mbox) \<Rightarrow>
      case AQ_HW_WAIT_FOR (mbox_moved (mbox_transaction_id mbox)) 100 (mbox, self) of
        (late, mbox, self) \<Rightarrow> (etime late 0, self))"

definition mpi_state_val :: "fw_state \<Rightarrow> u32 \<Rightarrow> u32" where
  "mpi_state_val state val =
     (let val = (if state = MPI_DEINIT \<or> state = MPI_POWER then val OR HW_ATL_MPI_DIRTY_WAKE_MSK
                 else val AND NOT HW_ATL_MPI_DIRTY_WAKE_MSK)
      in (val AND NOT HW_ATL_MPI_STATE_MSK) OR (fw_state_code state AND HW_ATL_MPI_STATE_MSK))"

definition hw_atl_utils_mpi_set_state :: "u32 list \<Rightarrow> aq_hw_s \<Rightarrow> fw_state \<Rightarrow> int \<times> aq_hw_s" where
  "hw_atl_utils_mpi_set_state stack self state =
     (case aq_hw_read_reg self HW_ATL_MPI_CONTROL_ADR of (val, self) \<Rightarrow>
      case (if state = MPI_RESET then mpi_reset_wait self stack else (0, self)) of (err, self) \<Rightarrow>
        if err < 0 then (err, self)
        else (err, aq_hw_write_reg self HW_ATL_MPI_CONTROL_ADR (mpi_state_val state val)))"

definition link_mbps_of :: "u32 \<Rightarrow> u32 option" where
  "link_mbps_of m =
     (if m = HAL_ATLANTIC_RATE_10G then Some 10000
      else if m = HAL_ATLANTIC_RATE_5G \<or> m = HAL_ATLANTIC_RATE_5GSR then Some 5000
      else if m = HAL_ATLANTIC_RATE_2GS then Some 2500
      else if m = HAL_ATLANTIC_RATE_1G then Some 1000
      else if m = HAL_ATLANTIC_RATE_100M then Some 100
      else None)"

definition hw_atl_utils_mpi_get_link_status :: "aq_hw_s \<Rightarrow> int \<times> aq_hw_s" where
  "hw_atl_utils_mpi_get_link_status self =
     (case aq_hw_read_reg self HW_ATL_MPI_STATE_ADR of (cp0x036C, self) \<Rightarrow>
      let link_speed_mask = drop_bit HW_ATL_MPI_SPEED_SHIFT cp0x036C in
      if link_speed_mask = 0 then (0, self\<lparr>link_mbps := 0\<rparr>)
      else case link_mbps_of link_speed_mask of
             Some mbps \<Rightarrow> (0, self\<lparr>link_mbps := mbps\<rparr>) | None \<Rightarrow> (- EBUSY, self))"

subsection \<open>The MAC address\<close>

definition u32_byte :: "nat \<Rightarrow> u32 \<Rightarrow> u8" where
  "u32_byte i v = ucast (drop_bit (8 * i) v)"

definition swab32 :: "u32 \<Rightarrow> u32" where
  "swab32 v = push_bit 24 (ucast (u32_byte 0 v)) OR push_bit 16 (ucast (u32_byte 1 v)) OR
              push_bit 8 (ucast (u32_byte 2 v)) OR ucast (u32_byte 3 v)"

text \<open>\<open>ether_addr_copy(mac, (u8 *)mac_addr)\<close>: the first six bytes of the two words.\<close>

definition mac_bytes :: "u32 list \<Rightarrow> u8 list" where
  "mac_bytes mac_addr = map (\<lambda>i. u32_byte (i mod 4) (mac_addr ! (i div 4))) [0..<6]"

definition mac_unusable :: "u8 list \<Rightarrow> bool" where
  "mac_unusable mac \<longleftrightarrow> mac ! 0 AND 1 \<noteq> 0 \<or> (mac ! 0 OR mac ! 1) OR mac ! 2 = 0"

text \<open>The fallback address is built from \<open>l = 0xE3000000 | (0xFFFF & x)\<close> and \<open>h = 0x8001300E\<close>.\<close>

definition fallback_mac :: "u32 \<Rightarrow> u8 list" where
  "fallback_mac x =
     (let l = 0xE3000000 OR (0xFFFF AND x); h = (0x8001300E :: u32)
      in [u32_byte 1 h, u32_byte 0 h, u32_byte 3 l, u32_byte 2 l, u32_byte 1 l, u32_byte 0 l])"

text \<open>Both words of \<open>mac_addr\<close> are written by a download that does not fail.\<close>

definition hw_atl_utils_get_mac_permanent :: "u32 \<Rightarrow> aq_hw_s \<Rightarrow> int \<times> aq_hw_s \<times> u8 list" where
  "hw_atl_utils_get_mac_permanent rnd self =
     (case aq_hw_read_reg self HW_ATL_UCP_0X370_REG of (v, self) \<Rightarrow>
      let self = (if v = 0 then aq_hw_write_reg self HW_ATL_UCP_0X370_REG
                                  (0x02020202 OR (0xFEFEFEFE AND rnd))
                  else self) in
      case aq_hw_read_reg self 0x374 of (base, self) \<Rightarrow>
      case hw_atl_utils_fw_downld_dwords self (base + 40 * 4) [0, 0] 2 of (err, self, p) \<Rightarrow>
      let mac = mac_bytes (if err < 0 then [0, 0] else map swab32 p) in
      if mac_unusable mac
      then case aq_hw_read_reg self HW_ATL_UCP_0X370_REG of (x, self) \<Rightarrow>
             (0, self, fallback_mac x)
      else (0, self, mac))"

definition hw_atl_utils_mbps_2_speed_index :: "u32 \<Rightarrow> u32" where
  "hw_atl_utils_mbps_2_speed_index mbps =
     (if mbps = 100 then 5
      else if mbps = 1000 then 4
      else if mbps = 2500 then 3
      else if mbps = 5000 then 1
      else if mbps = 10000 then 0
      else 0)"

definition hw_atl_utils_hw_chip_features_init :: "aq_hw_s \<Rightarrow> aq_hw_s" where
  "hw_atl_utils_hw_chip_features_init self =
     (case hw_atl_reg_glb_mif_id_get self of (val, self) \<Rightarrow>
      let mif_rev = val AND 0xFF in
      self\<lparr>chip_features :=
        (if 0xF AND mif_rev = 1
         then HAL_ATLANTIC_UTILS_CHIP_REVISION_A0 OR HAL_ATLANTIC_UTILS_CHIP_MPI_AQ OR
              HAL_ATLANTIC_UTILS_CHIP_MIPS
         else if 0xF AND mif_rev = 2
         then HAL_ATLANTIC_UTILS_CHIP_REVISION_B0 OR HAL_ATLANTIC_UTILS_CHIP_MPI_AQ OR
              HAL_ATLANTIC_UTILS_CHIP_MIPS OR HAL_ATLANTIC_UTILS_CHIP_TPO2 OR
              HAL_ATLANTIC_UTILS_CHIP_RPF2
         else if 0xF AND mif_rev = 0xA
         then HAL_ATLANTIC_UTILS_CHIP_REVISION_B1 OR HAL_ATLANTIC_UTILS_CHIP_MPI_AQ OR
              HAL_ATLANTIC_UTILS_CHIP_MIPS OR HAL_ATLANTIC_UTILS_CHIP_TPO2 OR
              HAL_ATLANTIC_UTILS_CHIP_RPF2
         else 0)\<rparr>)"

definition hw_atl_fw1x_deinit :: "u32 list \<Rightarrow> aq_hw_s \<Rightarrow> int \<times> aq_hw_s" where
  "hw_atl_fw1x_deinit stack self =
     (case hw_atl_utils_mpi_set_speed self 0 of (err, self) \<Rightarrow>
      case hw_atl_utils_mpi_set_state stack self MPI_DEINIT of (err, self) \<Rightarrow> (0, self))"

subsection \<open>Statistics and registers\<close>

text \<open>\<open>mbox.stats\<close>: words 3 to 17 of the mailbox, in the order of \<open>struct hw_atl_stats_s\<close>.\<close>

definition mbox_stats :: "u32 list \<Rightarrow> hw_atl_stats_s" where
  "mbox_stats m =
     \<lparr>hs_uprc = m ! 3, hs_mprc = m ! 4, hs_bprc = m ! 5, hs_erpt = m ! 6, hs_uptc = m ! 7,
      hs_mptc = m ! 8, hs_bptc = m ! 9, hs_erpr = m ! 10, hs_mbtc = m ! 11, hs_bbtc = m ! 12,
      hs_mbrc = m ! 13, hs_bbrc = m ! 14, hs_ubrc = m ! 15, hs_ubtc = m ! 16, hs_dpc = m ! 17\<rparr>"

text \<open>
  \<open>AQ_SDELTA\<close>: the 32-bit difference (modulo \<open>2 ^ 32\<close>) is added to the 64-bit counter.
\<close>

definition AQ_SDELTA :: "u64 \<Rightarrow> u32 \<Rightarrow> u32 \<Rightarrow> u64" where
  "AQ_SDELTA c x l = c + ucast (x - l)"

definition add_deltas :: "aq_stats_s \<Rightarrow> hw_atl_stats_s \<Rightarrow> hw_atl_stats_s \<Rightarrow> aq_stats_s" where
  "add_deltas c m l = c\<lparr>
     cs_uprc := AQ_SDELTA (cs_uprc c) (hs_uprc m) (hs_uprc l),
     cs_mprc := AQ_SDELTA (cs_mprc c) (hs_mprc m) (hs_mprc l),
     cs_bprc := AQ_SDELTA (cs_bprc c) (hs_bprc m) (hs_bprc l),
     cs_erpt := AQ_SDELTA (cs_erpt c) (hs_erpt m) (hs_erpt l),
     cs_uptc := AQ_SDELTA (cs_uptc c) (hs_uptc m) (hs_uptc l),
     cs_mptc := AQ_SDELTA (cs_mptc c) (hs_mptc m) (hs_mptc l),
     cs_bptc := AQ_SDELTA (cs_bptc c) (hs_bptc m) (hs_bptc l),
     cs_erpr := AQ_SDELTA (cs_erpr c) (hs_erpr m) (hs_erpr l),
     cs_ubrc := AQ_SDELTA (cs_ubrc c) (hs_ubrc m) (hs_ubrc l),
     cs_ubtc := AQ_SDELTA (cs_ubtc c) (hs_ubtc m) (hs_ubtc l),
     cs_mbrc := AQ_SDELTA (cs_mbrc c) (hs_mbrc m) (hs_mbrc l),
     cs_mbtc := AQ_SDELTA (cs_mbtc c) (hs_mbtc m) (hs_mbtc l),
     cs_bbrc := AQ_SDELTA (cs_bbrc c) (hs_bbrc m) (hs_bbrc l),
     cs_bbtc := AQ_SDELTA (cs_bbtc c) (hs_bbtc m) (hs_bbtc l),
     cs_dpc := AQ_SDELTA (cs_dpc c) (hs_dpc m) (hs_dpc l)\<rparr>"

definition u64_counter :: "(aq_hw_s \<Rightarrow> u32 \<times> aq_hw_s) \<Rightarrow> (aq_hw_s \<Rightarrow> u32 \<times> aq_hw_s) \<Rightarrow> aq_hw_s \<Rightarrow> u64 \<times> aq_hw_s" where
  "u64_counter lsw msw self =
     (case lsw self of (l, self) \<Rightarrow> case msw self of (m, self) \<Rightarrow>
       (ucast l + push_bit 32 (ucast m), self))"

text \<open>
  The mailbox is a local variable (\<open>stack\<close>): when the download fails, what the stack
  held is taken for the card's counters.
\<close>

definition hw_atl_utils_update_stats :: "u32 list \<Rightarrow> aq_hw_s \<Rightarrow> int \<times> aq_hw_s" where
  "hw_atl_utils_update_stats stack self =
     (case hw_atl_utils_mpi_read_stats self stack of (self, mbox) \<Rightarrow>
      let m = mbox_stats mbox;
          self = (if link_mbps self \<noteq> 0
                  then self\<lparr>curr_stats := add_deltas (curr_stats self) m (last_stats self)\<rparr> else self) in
      case u64_counter hw_atl_stats_rx_dma_good_pkt_counterlsw_get
             hw_atl_stats_rx_dma_good_pkt_countermsw_get self of (rxp, self) \<Rightarrow>
      case u64_counter hw_atl_stats_tx_dma_good_pkt_counterlsw_get
             hw_atl_stats_tx_dma_good_pkt_countermsw_get self of (txp, self) \<Rightarrow>
      case u64_counter hw_atl_stats_rx_dma_good_octet_counterlsw_get
             hw_atl_stats_rx_dma_good_octet_countermsw_get self of (rxo, self) \<Rightarrow>
      case u64_counter hw_atl_stats_tx_dma_good_octet_counterlsw_get
             hw_atl_stats_tx_dma_good_octet_countermsw_get self of (txo, self) \<Rightarrow>
        (0, self\<lparr>curr_stats := (curr_stats self)\<lparr>cs_dma_pkt_rc := rxp, cs_dma_pkt_tc := txp,
                     cs_dma_oct_rc := rxo, cs_dma_oct_tc := txo\<rparr>,
                   last_stats := m\<rparr>))"

definition hw_atl_utils_get_hw_stats :: "aq_hw_s \<Rightarrow> aq_stats_s" where
  "hw_atl_utils_get_hw_stats self = curr_stats self"

definition hw_atl_utils_hw_mac_regs :: "u32 list" where
  "hw_atl_utils_hw_mac_regs =
     [0x5580, 0x5590, 0x55B0, 0x55B4, 0x55C0, 0x5B00, 0x5B04, 0x5B08,
      0x5B0C, 0x5B10, 0x5B14, 0x5B18, 0x5B1C, 0x5B20, 0x5B24, 0x5B28,
      0x5B2C, 0x5B30, 0x5B34, 0x5B38, 0x5B3C, 0x5B40, 0x5B44, 0x5B48,
      0x5B4C, 0x5B50, 0x5B54, 0x5B58, 0x5B5C, 0x5B60, 0x5B64, 0x5B68,
      0x5B6C, 0x5B70, 0x5B74, 0x5B78, 0x5B7C, 0x7C00, 0x7C04, 0x7C08,
      0x7C0C, 0x7C10, 0x7C14, 0x7C18, 0x7C1C, 0x7C20, 0x7C40, 0x7C44,
      0x7C48, 0x7C4C, 0x7C50, 0x7C54, 0x7C58, 0x7C5C, 0x7C60, 0x7C80,
      0x7C84, 0x7C88, 0x7C8C, 0x7C90, 0x7C94, 0x7C98, 0x7C9C, 0x7CA0,
      0x7CC0, 0x7CC4, 0x7CC8, 0x7CCC, 0x7CD0, 0x7CD4, 0x7CD8, 0x7CDC,
      0x7CE0, 0x300, 0x304, 0x308, 0x30C, 0x310, 0x314, 0x318,
      0x31C, 0x360, 0x364, 0x368, 0x36C, 0x370, 0x374, 0x6900]"

fun get_regs_loop :: "nat list \<Rightarrow> aq_hw_s \<Rightarrow> u32 list \<Rightarrow> aq_hw_s \<times> u32 list" where
  "get_regs_loop [] self regs_buff = (self, regs_buff)"
| "get_regs_loop (i # is) self regs_buff =
     (case aq_hw_read_reg self (hw_atl_utils_hw_mac_regs ! i) of (v, self) \<Rightarrow>
        get_regs_loop is self (regs_buff[i := v]))"

definition hw_atl_utils_hw_get_regs :: "aq_hw_s \<Rightarrow> aq_hw_caps_s \<Rightarrow> u32 list \<Rightarrow> int \<times> aq_hw_s \<times> u32 list" where
  "hw_atl_utils_hw_get_regs self caps regs_buff =
     (0, get_regs_loop [0..<unat (caps_mac_regs_count caps)] self regs_buff)"

definition hw_atl_utils_get_fw_version :: "aq_hw_s \<Rightarrow> aq_hw_s" where
  "hw_atl_utils_get_fw_version self =
     (case aq_hw_read_reg self 0x18 of (v, self) \<Rightarrow> self\<lparr>fw_ver_actual := v\<rparr>)"

subsection \<open>Wake on LAN and power states of the 1.x firmware\<close>

text \<open>
  The words of \<open>struct hw_aq_atl_utils_fw_rpc\<close> (1524 bytes): msg_id is word 0; of msg_wol,
  priority, wol_packet_type and pattern_id are words 1 to 3 and the pattern's MAC address the
  six bytes from word 5 on; pattern_mask of msg_enable_wakeup is word 1. sizeof(msg_wol) = 56,
  sizeof(msg_del_id) = 4, sizeof(msg_enable_wakeup) = 8.
\<close>

definition FW_RPC_WORDS :: nat where "FW_RPC_WORDS = 381"

definition u32_of_bytes :: "u8 \<Rightarrow> u8 \<Rightarrow> u8 \<Rightarrow> u8 \<Rightarrow> u32" where
  "u32_of_bytes a b c d = ucast a OR push_bit 8 (ucast b) OR push_bit 16 (ucast c) OR push_bit 24 (ucast d)"

text \<open>Six bytes copied over a word and the low half of the one after it.\<close>

definition put_mac :: "nat \<Rightarrow> u8 list \<Rightarrow> u32 list \<Rightarrow> u32 list" where
  "put_mac i mac p =
     p[i := u32_of_bytes (mac ! 0) (mac ! 1) (mac ! 2) (mac ! 3),
       Suc i := (p ! Suc i AND 0xFFFF0000) OR u32_of_bytes (mac ! 4) (mac ! 5) 0 0]"

definition fw1x_wol_msg :: "bool \<Rightarrow> u8 list \<Rightarrow> u32 list \<times> u32" where
  "fw1x_wol_msg wol_enabled mac =
     (let z = replicate FW_RPC_WORDS 0 in
      if wol_enabled
      then (put_mac 5 mac (z[0 := HAL_ATLANTIC_UTILS_FW_MSG_WOL_ADD, 1 := 0x10000000, 3 := 1, 2 := 2]), 60)
      else (z[0 := HAL_ATLANTIC_UTILS_FW_MSG_WOL_DEL, 3 := 1], 8))"

definition aq_fw1x_set_wol :: "aq_hw_s \<Rightarrow> bool \<Rightarrow> u8 list \<Rightarrow> (int \<times> aq_hw_s) option" where
  "aq_fw1x_set_wol self wol_enabled mac =
     (case hw_atl_utils_fw_rpc_wait self True of
        None \<Rightarrow> None
      | Some (err, self) \<Rightarrow>
          if err < 0 then Some (err, self)
          else case fw1x_wol_msg wol_enabled mac of (msg, rpc_size) \<Rightarrow>
            Some (hw_atl_utils_fw_rpc_call (self\<lparr>fw_rpc := msg\<rparr>) rpc_size))"

definition aq_fw1x_wakeup :: "aq_hw_s \<Rightarrow> u8 list \<Rightarrow> (int \<times> aq_hw_s) option" where
  "aq_fw1x_wakeup self mac =
     (case aq_fw1x_set_wol self True mac of
        None \<Rightarrow> None
      | Some (err, self) \<Rightarrow>
          if err < 0 then Some (err, self)
          else (case hw_atl_utils_fw_rpc_wait self True of
             None \<Rightarrow> None
           | Some (err, self) \<Rightarrow>
               if err < 0 then Some (err, self)
               else Some (hw_atl_utils_fw_rpc_call
                      (self\<lparr>fw_rpc := [HAL_ATLANTIC_UTILS_FW_MSG_ENABLE_WAKEUP, 2, 0] @ drop 3 (fw_rpc self)\<rparr>)
                      12)))"

definition aq_fw1x_set_power :: "u32 list \<Rightarrow> aq_hw_s \<Rightarrow> u8 list \<Rightarrow> (int \<times> aq_hw_s) option" where
  "aq_fw1x_set_power stack self mac =
     (case (if wol (aq_nic_cfg self) AND AQ_NIC_WOL_ENABLED \<noteq> 0 then aq_fw1x_wakeup self mac
            else Some (0, self)) of
        None \<Rightarrow> None
      | Some (err, self) \<Rightarrow>
          if err < 0 then Some (err, self)
          else case hw_atl_utils_mpi_set_speed self 0 of (e, self) \<Rightarrow>
               case hw_atl_utils_mpi_set_state stack self MPI_POWER of (e, self) \<Rightarrow> Some (err, self))"

subsection \<open>MSM registers\<close>

definition hw_atl_msm_wait :: "aq_hw_s \<Rightarrow> int \<times> aq_hw_s" where
  "hw_atl_msm_wait self =
     (case AQ_HW_WAIT_FOR (\<lambda>self. case hw_atl_msm_reg_access_status_get self of (v, self) \<Rightarrow> (v = 0, self))
             1000 self of (late, self) \<Rightarrow> (etime late 0, self))"

definition hw_atl_atl_msm_read :: "aq_hw_s \<Rightarrow> u32 \<Rightarrow> u32 \<Rightarrow> int \<times> aq_hw_s \<times> u32" where
  "hw_atl_atl_msm_read self addr val =
     (let self = hw_atl_msm_reg_addr_for_indirect_addr_set self (drop_bit 2 addr);
          self = hw_atl_msm_reg_rd_strobe_set self 1 in
      case hw_atl_msm_wait self of (err, self) \<Rightarrow>
        if err \<noteq> 0 then (err, self, val)
        else case hw_atl_msm_reg_rd_data_get self of (v, self) \<Rightarrow> (0, self, v))"

definition hw_atl_msm_read :: "aq_hw_s \<Rightarrow> u32 \<Rightarrow> u32 \<Rightarrow> int \<times> aq_hw_s \<times> u32" where
  "hw_atl_msm_read self addr val =
     (case AQ_HW_WAIT_FOR (sem_taken HW_ATL_FW_SM_MSM) 1000 self of (late, self) \<Rightarrow>
        if late then (- ETIME, self, val)
        else case hw_atl_atl_msm_read self addr val of (err, self, val) \<Rightarrow>
          (err, hw_atl_reg_glb_cpu_sem_set self 1 HW_ATL_FW_SM_MSM, val))"

definition hw_atl_msm_read_lpi_timer :: "aq_hw_s \<Rightarrow> u32 \<Rightarrow> int \<times> aq_hw_s \<times> u32" where
  "hw_atl_msm_read_lpi_timer self val = hw_atl_msm_read self HW_ATL_MAC_MSM_TX_LPI_DELAY_ADR val"

subsection \<open>Reset\<close>

definition HW_ATL_GLB_SOFT_RES_ADR :: u32 where "HW_ATL_GLB_SOFT_RES_ADR = 0"

definition spi_cleanup :: "aq_hw_s \<Rightarrow> u32 \<times> aq_hw_s" where
  "spi_cleanup self =
     (case aq_hw_read_reg self 0x53C of (val, self) \<Rightarrow>
        (val, aq_hw_write_reg self 0x53C (val OR 0x10)))"

definition global_soft_reset :: "u32 \<Rightarrow> aq_hw_s \<Rightarrow> aq_hw_s" where
  "global_soft_reset msk self =
     (case aq_hw_read_reg self HW_ATL_GLB_SOFT_RES_ADR of (gsr, self) \<Rightarrow>
        aq_hw_write_reg self HW_ATL_GLB_SOFT_RES_ADR ((gsr AND msk) OR 0x8000))"

definition datapath_reset :: "u32 \<Rightarrow> aq_hw_s \<Rightarrow> aq_hw_s" where
  "datapath_reset msk self =
     (let self = hw_atl_rx_rx_reg_res_dis_set self 0;
          self = hw_atl_tx_tx_reg_res_dis_set self 0;
          self = aq_hw_write_reg_bit self HW_ATL_MAC_PHY_CONTROL (BIT HW_ATL_MAC_PHY_MPI_RESET_BIT)
                   HW_ATL_MAC_PHY_MPI_RESET_BIT 0
      in global_soft_reset msk self)"

definition wait_fw_started :: "aq_hw_s \<Rightarrow> int \<times> aq_hw_s" where
  "wait_fw_started self =
     (case poll_until (reg_is HW_ATL_MPI_FW_VERSION (\<lambda>v. v \<noteq> 0)) 1000 self of (started, self) \<Rightarrow>
        (if started then 0 else - EIO, self))"

text \<open>The MAC kickstart, skipped when \<open>fast_start_enabled\<close>: False when it failed.\<close>

definition mac_kickstart :: "aq_hw_s \<Rightarrow> bool \<times> aq_hw_s" where
  "mac_kickstart self =
     (let self = aq_hw_write_reg self 0x404 0x180e0 in
      case poll_until (reg_is HW_ATL_MPI_DAISY_CHAIN_STATUS (\<lambda>v. v AND 0x10 \<noteq> 0)) 1000 self of
        (ok, self) \<Rightarrow> (ok, if ok then aq_hw_write_reg self 0x404 0x80e0 else self))"

definition hw_atl_utils_soft_reset_flb :: "aq_hw_s \<Rightarrow> int \<times> aq_hw_s" where
  "hw_atl_utils_soft_reset_flb self =
     (let self = aq_hw_write_reg self 0x404 0x40e1 in
      case spi_cleanup self of (_, self) \<Rightarrow>
      let self = global_soft_reset 0xBFFF self;
          self = aq_hw_write_reg self 0x404 0x80e0;
          self = aq_hw_write_reg self 0x32a8 0;
          self = (if \<not> fast_start_enabled self then aq_hw_write_reg self 0x520 1 else self) in
      case spi_cleanup self of (val, self) \<Rightarrow>
      let self = aq_hw_write_reg self 0x53C (val AND NOT 0x10) in
      case (if \<not> fast_start_enabled self then mac_kickstart self else (True, self)) of (ok, self) \<Rightarrow>
        if \<not> ok then (- EIO, self)
        else wait_fw_started (datapath_reset 0xBFFF (aq_hw_write_reg self 0x3a0 1)))"

definition rbl_booted :: "u32 \<times> aq_hw_s \<Rightarrow> bool \<times> u32 \<times> aq_hw_s" where
  "rbl_booted = (\<lambda>(rbl_status, self). case aq_hw_read_reg self 0x388 of (v, self) \<Rightarrow>
     let rbl_status = v AND 0xFFFF in (rbl_status \<noteq> 0 \<and> rbl_status \<noteq> 0xDEAD, rbl_status, self))"

definition hw_atl_utils_soft_reset_rbl :: "aq_hw_s \<Rightarrow> int \<times> aq_hw_s" where
  "hw_atl_utils_soft_reset_rbl self =
     (let self = aq_hw_write_reg self 0x404 0x40e1;
          self = aq_hw_write_reg self 0x3a0 1;
          self = aq_hw_write_reg self 0x32a8 0;
          self = aq_hw_write_reg self 0x388 0xDEAD in
      case spi_cleanup self of (_, self) \<Rightarrow>
      let self = datapath_reset 0xFFFFBFFF self;
          self = (if FORCE_FLASHLESS then aq_hw_write_reg self 0x534 0 else self);
          self = aq_hw_write_reg self 0x404 0x40e0 in
      case poll_until rbl_booted 1000 (0, self) of (_, rbl_status, self) \<Rightarrow>
        if rbl_status = 0 \<or> rbl_status = 0xDEAD then (- EIO, self)
        else
          let self = (if FORCE_FLASHLESS then aq_hw_write_reg self 0x534 0xA0 else self) in
          if rbl_status = 0xF1A7 then (- ENOTSUPP, self) else wait_fw_started self)"

text \<open>Which boot loader runs: the loop of \<open>hw_atl_utils_soft_reset\<close> with its boot exit code.\<close>

definition boot_seen :: "u32 \<times> aq_hw_s \<Rightarrow> bool \<times> u32 \<times> aq_hw_s" where
  "boot_seen = (\<lambda>(boot_exit_code, self).
     case aq_hw_read_reg self HW_ATL_MPI_DAISY_CHAIN_STATUS of (flb_status, self) \<Rightarrow>
     case aq_hw_read_reg self HW_ATL_MPI_BOOT_EXIT_CODE of (boot_exit_code, self) \<Rightarrow>
       (flb_status \<noteq> 0x06000000 \<or> boot_exit_code \<noteq> 0, boot_exit_code, self))"

definition version_read :: "u32 \<times> aq_hw_s \<Rightarrow> bool \<times> u32 \<times> aq_hw_s" where
  "version_read = (\<lambda>(ver, self).
     case aq_hw_read_reg self HW_ATL_MPI_FW_VERSION of (ver, self) \<Rightarrow> (ver \<noteq> 0, ver, self))"

definition reset_by_boot_loader :: "u32 list \<Rightarrow> u32 \<Rightarrow> aq_hw_s \<Rightarrow> int \<times> aq_hw_s" where
  "reset_by_boot_loader stack ver self =
     (let self =
        (if hw_atl_utils_ver_match HW_ATL_FW_VER_1X ver = 0
         then case hw_atl_utils_mpi_set_state stack self MPI_DEINIT of (_, self) \<Rightarrow>
              case AQ_HW_WAIT_FOR (reg_is HW_ATL_MPI_STATE_ADR
                     (\<lambda>v. v AND HW_ATL_MPI_STATE_MSK = fw_state_code MPI_DEINIT)) 1000 self of
                (_, self) \<Rightarrow> self
         else self)
      in if rbl_enabled self then hw_atl_utils_soft_reset_rbl self
         else hw_atl_utils_soft_reset_flb self)"

definition hw_atl_utils_soft_reset :: "u32 list \<Rightarrow> aq_hw_s \<Rightarrow> int \<times> aq_hw_s" where
  "hw_atl_utils_soft_reset stack self =
     (case aq_hw_read_reg self HW_ATL_MPI_FW_VERSION of (ver, self) \<Rightarrow>
      case poll_until boot_seen 1000 (0, self) of (seen, boot_exit_code, self) \<Rightarrow>
        if \<not> seen then (- EOPNOTSUPP, self)
        else
          let self = self\<lparr>rbl_enabled := boot_exit_code \<noteq> 0\<rparr> in
          if fast_start_enabled self \<and> ver = 0 then
            case AQ_HW_WAIT_FOR version_read 1000 (ver, self) of (late, ver, self) \<Rightarrow>
              if \<not> late then (0, self) else reset_by_boot_loader stack ver self
          else reset_by_boot_loader stack ver self)"

end
