(* ===== verification/Card_Model.thy ===== *)
theory Card_Model
  imports Firmware
begin

section \<open>Driver code against a model of the card\<close>

text \<open>
  The interface between the register protocols of the driver and a card that answers them. A
  card is a state machine: \<open>val\<close> is what a register shows, \<open>rd\<close> and \<open>wr\<close> what an access does
  to it. The laws of the locale say that \<open>dev\<close> is that machine as a device and that the
  alive-check register 0x10 is not touched by the protocol. The lemmas, proved once, carry a
  read, a write and a wait for a register over to the machine alone.
\<close>

text \<open>\<open>self\<close> has the card \<open>m\<close> behind it, alive, and the software state of \<open>s0\<close>.\<close>

definition card_at :: "('m \<Rightarrow> device) \<Rightarrow> ('m \<Rightarrow> u32 \<Rightarrow> u32) \<Rightarrow> aq_hw_s \<Rightarrow> aq_hw_s \<Rightarrow> 'm \<Rightarrow> bool" where
  "card_at dev val s0 self m \<longleftrightarrow> mmio self = dev m \<and> alive_adr self = 0x10 \<and> val m 0x10 \<noteq> NOT 0 \<and>
     same_sw s0 self \<and> flags self = flags s0"

text \<open>Polling a register, as a run of the card alone.\<close>

definition card_poll :: "('m \<Rightarrow> u32 \<Rightarrow> u32) \<Rightarrow> ('m \<Rightarrow> u32 \<Rightarrow> 'm) \<Rightarrow> u32 \<Rightarrow> (u32 \<Rightarrow> bool) \<Rightarrow> nat \<Rightarrow> 'm \<Rightarrow> bool \<times> 'm" where
  "card_poll val rd a P = AQ_HW_WAIT_FOR (\<lambda>m. (P (val m a), rd m a))"

lemma card_poll_step:
  "card_poll val rd a P (Suc n) m =
     (if P (val m a) then (False, rd m a) else card_poll val rd a P n (rd m a))"
  by (simp add: card_poll_def)

lemma card_poll_0: "card_poll val rd a P 0 m = (True, rd m a)"
  by (simp add: card_poll_def)

lemma card_at_sw:
  "card_at dev val s0 self m \<Longrightarrow> same_sw s0 self"
  "card_at dev val s0 self m \<Longrightarrow> chip_features self = chip_features s0"
  "card_at dev val s0 self m \<Longrightarrow> flags self = flags s0"
  by (simp_all add: card_at_def same_sw_def)

lemma reg_is_read: "aq_hw_read_reg self a = (v, self') \<Longrightarrow> reg_is a P self = (P v, self')"
  by (simp add: reg_is_def)

locale card =
  fixes dev :: "'m \<Rightarrow> device" and val :: "'m \<Rightarrow> u32 \<Rightarrow> u32"
    and rd :: "'m \<Rightarrow> u32 \<Rightarrow> 'm" and wr :: "'m \<Rightarrow> u32 \<Rightarrow> u32 \<Rightarrow> 'm"
  assumes dev_shows: "dev_val (dev m) = val m"
    and dev_reads: "dev_read (dev m) a = dev (rd m a)"
    and dev_writes: "dev_write (dev m) a v = dev (wr m a v)"
    and alive_read: "rd m 0x10 = m"
    and alive_kept: "val (rd m a) 0x10 = val m 0x10"
    and alive_write: "a \<noteq> 0x10 \<Longrightarrow> val (wr m a v) 0x10 = val m 0x10"
begin

lemma card_read:
  assumes "card_at dev val s0 self m"
  obtains self' where "aq_hw_read_reg self a = (val m a, self')" "card_at dev val s0 self' (rd m a)"
proof
  show "aq_hw_read_reg self a = (val m a, self\<lparr>mmio := dev (rd m a)\<rparr>)"
    using assms
    by (simp add: hw_simps card_at_def alive_adr_def dev_shows dev_reads alive_read alive_kept)
  show "card_at dev val s0 (self\<lparr>mmio := dev (rd m a)\<rparr>) (rd m a)"
    using assms by (auto simp: card_at_def alive_adr_def same_sw_def alive_kept)
qed

lemma card_write:
  assumes "card_at dev val s0 self m" "a \<noteq> 0x10"
  shows "card_at dev val s0 (aq_hw_write_reg self a v) (wr m a v)"
  using assms
  by (auto simp: hw_simps card_at_def alive_adr_def same_sw_def alive_write dev_writes)

lemma card_wait:
  assumes "card_at dev val s0 self m"
  obtains self' where "AQ_HW_WAIT_FOR (reg_is a P) n self = (fst (card_poll val rd a P n m), self')"
    "card_at dev val s0 self' (snd (card_poll val rd a P n m))"
  using assms
proof (induction n arbitrary: self m thesis)
  case 0
  obtain self' where r: "aq_hw_read_reg self a = (val m a, self')" "card_at dev val s0 self' (rd m a)"
    using card_read [OF "0.prems"(2)] .
  show ?case by (rule "0.prems"(1) [of self']) (simp_all add: reg_is_read [OF r(1)] card_poll_0 r)
next
  case (Suc n)
  obtain s1 where r: "aq_hw_read_reg self a = (val m a, s1)" "card_at dev val s0 s1 (rd m a)"
    using card_read [OF Suc.prems(2)] .
  show ?case
  proof (cases "P (val m a)")
    case True
    with r(2) show ?thesis
      by (intro Suc.prems(1) [of s1]) (simp_all add: reg_is_read [OF r(1)] card_poll_step)
  next
    case False
    obtain s2 where "AQ_HW_WAIT_FOR (reg_is a P) n s1 = (fst (card_poll val rd a P n (rd m a)), s2)"
      "card_at dev val s0 s2 (snd (card_poll val rd a P n (rd m a)))"
      using Suc.IH [OF _ r(2)] .
    with False show ?thesis
      by (intro Suc.prems(1) [of s2]) (simp_all add: reg_is_read [OF r(1)] card_poll_step)
  qed
qed

text \<open>A masked write of a field that does not cover the whole register.\<close>

lemma card_write_field:
  assumes "card_at dev val s0 self m" "fld_adr f i \<noteq> 0x10" "fld_msk f \<noteq> NOT 0"
    and same: "val m (fld_adr f i) = w \<Longrightarrow> wr (rd m (fld_adr f i)) (fld_adr f i) w = rd m (fld_adr f i)"
    and w: "w = (val m (fld_adr f i) AND NOT (fld_msk f)) OR push_bit (fld_shift f) v"
  shows "card_at dev val s0 (write_field self f i v) (wr (rd m (fld_adr f i)) (fld_adr f i) w)"
proof -
  obtain s1 where r: "aq_hw_read_reg self (fld_adr f i) = (val m (fld_adr f i), s1)"
    "card_at dev val s0 s1 (rd m (fld_adr f i))"
    using card_read [OF assms(1)] .
  have "fld_msk f XOR NOT 0 \<noteq> 0" using assms(3) by (simp add: bit_eq_iff bit_simps)
  then show ?thesis
    using r card_write [OF r(2) assms(2), of w] same w
    by (auto simp: write_field_def aq_hw_write_reg_bit_def Let_def)
qed

end

end
