(* ===== verification/Mailbox.thy ===== *)
theory Mailbox
  imports Card_Model
begin

section \<open>A card that answers the memory interface\<close>

text \<open>
  A model of the card's side of the protocol in theory Firmware, against which the download
  and upload routines are proved: the firmware's memory, the hardware semaphore that a read of
  1 takes and a write of 1 gives back, and the address, data and command registers. A command
  is busy for a number of polls and then moves one word and advances the address by 4; while
  it is busy neither has happened.
\<close>

record mif_state =
  m_mem :: "u32 \<Rightarrow> u32"
  m_regs :: "u32 \<Rightarrow> u32"
  m_wait :: nat
  m_held :: bool
  m_addr :: u32
  m_val :: u32
  m_store :: bool
  m_busy :: nat
  m_lat :: nat

definition RAM_SEM :: u32 where "RAM_SEM = HW_ATL_GLB_CPU_SEM_ADR HW_ATL_FW_SM_RAM"

lemma RAM_SEM_eq [simp]: "HW_ATL_GLB_CPU_SEM_ADR HW_ATL_FW_SM_RAM = 0x3A8" "RAM_SEM = 0x3A8"
  by (simp_all add: RAM_SEM_def HW_ATL_GLB_CPU_SEM_ADR_def HW_ATL_FW_SM_RAM_def)

definition mif_val :: "mif_state \<Rightarrow> u32 \<Rightarrow> u32" where
  "mif_val m a =
     (if a = RAM_SEM then of_bool (\<not> m_held m \<and> m_wait m = 0)
      else if a = HW_ATL_MIF_CMD then (if m_busy m = 0 then 0 else 0x100)
      else if a = HW_ATL_MIF_ADDR then m_addr m
      else if a = HW_ATL_MIF_VAL then m_val m
      else m_regs m a)"

definition mif_finish :: "mif_state \<Rightarrow> mif_state" where
  "mif_finish m =
     (if m_store m then m\<lparr>m_busy := 0, m_mem := (m_mem m)(m_addr m := m_val m), m_addr := m_addr m + 4\<rparr>
      else m\<lparr>m_busy := 0, m_val := m_mem m (m_addr m), m_addr := m_addr m + 4\<rparr>)"

definition mif_step :: "mif_state \<Rightarrow> mif_state" where
  "mif_step m =
     (case m_busy m of 0 \<Rightarrow> m | Suc 0 \<Rightarrow> mif_finish m | Suc (Suc b) \<Rightarrow> m\<lparr>m_busy := Suc b\<rparr>)"

definition mif_rd :: "mif_state \<Rightarrow> u32 \<Rightarrow> mif_state" where
  "mif_rd m a =
     (if a = RAM_SEM then (if m_wait m = 0 then m\<lparr>m_held := True\<rparr> else m\<lparr>m_wait := m_wait m - 1\<rparr>)
      else if a = HW_ATL_MIF_CMD \<or> a = HW_ATL_MIF_ADDR then mif_step m
      else m)"

definition mif_wr :: "mif_state \<Rightarrow> u32 \<Rightarrow> u32 \<Rightarrow> mif_state" where
  "mif_wr m a v =
     (if a = RAM_SEM then (if v = 1 then m\<lparr>m_held := False, m_wait := 0\<rparr> else m)
      else if a = HW_ATL_MIF_CMD then
        (if v AND 0x8000 \<noteq> 0 then m\<lparr>m_store := v AND 0x4000 \<noteq> 0, m_busy := Suc (m_lat m)\<rparr> else m)
      else if a = HW_ATL_MIF_ADDR then m\<lparr>m_addr := v\<rparr>
      else if a = HW_ATL_MIF_VAL then m\<lparr>m_val := v\<rparr>
      else m\<lparr>m_regs := (m_regs m)(a := v)\<rparr>)"

primcorec mif :: "mif_state \<Rightarrow> device" where
  "dev_val (mif m) = mif_val m"
| "dev_read (mif m) = (\<lambda>a. mif (mif_rd m a))"
| "dev_write (mif m) = (\<lambda>a v. mif (mif_wr m a v))"

lemmas mif_adr = HW_ATL_MIF_CMD_def HW_ATL_MIF_ADDR_def HW_ATL_MIF_VAL_def

lemma mif_val_alive: "mif_val m 0x10 = m_regs m 0x10"
  by (simp add: mif_val_def mif_adr)

lemma mif_rd_regs: "m_regs (mif_rd m a) = m_regs m"
  by (simp add: mif_rd_def mif_step_def mif_finish_def split: nat.split)

lemma mif_wr_alive: "a \<noteq> 0x10 \<Longrightarrow> m_regs (mif_wr m a v) 0x10 = m_regs m 0x10"
  by (simp add: mif_wr_def)

interpretation memcard: card mif mif_val mif_rd mif_wr
  by unfold_locales (simp_all add: mif_val_alive mif_rd_regs mif_wr_alive, simp add: mif_rd_def mif_adr)

abbreviation mif_at :: "aq_hw_s \<Rightarrow> aq_hw_s \<Rightarrow> mif_state \<Rightarrow> bool" where
  "mif_at \<equiv> card_at mif mif_val"

abbreviation mif_poll :: "u32 \<Rightarrow> (u32 \<Rightarrow> bool) \<Rightarrow> nat \<Rightarrow> mif_state \<Rightarrow> bool \<times> mif_state" where
  "mif_poll \<equiv> card_poll mif_val mif_rd"

text \<open>A busy command is finished by enough polls of the command or the address register.\<close>

lemma finish_busy [simp]: "m_busy (mif_finish m) = 0" "m_lat (mif_finish m) = m_lat m"
  "m_held (mif_finish m) = m_held m" "m_wait (mif_finish m) = m_wait m" "m_store (mif_finish m) = m_store m"
  "m_addr (mif_finish m) = m_addr m + 4" "m_regs (mif_finish m) = m_regs m"
  by (simp_all add: mif_finish_def)

lemma finish_shift [simp]: "mif_finish (m\<lparr>m_busy := b\<rparr>) = mif_finish m"
  by (simp add: mif_finish_def)

lemma poll_cmd:
  "m_busy m = Suc b \<Longrightarrow> Suc b < n \<Longrightarrow>
   mif_poll HW_ATL_MIF_CMD (\<lambda>v. 0x100 AND v = 0) n m = (False, mif_finish m)"
proof (induction b arbitrary: m n)
  case 0
  then obtain k where "n = Suc (Suc k)" by (metis One_nat_def Suc_less_eq less_imp_Suc_add add_Suc)
  with 0 show ?case
    by (simp add: card_poll_step mif_val_def mif_rd_def mif_step_def mif_adr)
next
  case (Suc b)
  then obtain k where n: "n = Suc k" by (cases n) auto
  have "mif_rd m HW_ATL_MIF_CMD = m\<lparr>m_busy := Suc b\<rparr>"
    using Suc.prems by (simp add: mif_rd_def mif_step_def mif_adr)
  moreover have "0x100 AND mif_val m HW_ATL_MIF_CMD \<noteq> 0"
    using Suc.prems by (simp add: mif_val_def mif_adr)
  ultimately show ?case
    using Suc.IH [of "m\<lparr>m_busy := Suc b\<rparr>" k] Suc.prems n by (simp add: card_poll_step)
qed

lemma poll_addr:
  "m_busy m = Suc b \<Longrightarrow> Suc b < n \<Longrightarrow>
   mif_poll HW_ATL_MIF_ADDR (\<lambda>v. m_addr m \<noteq> v) n m = (False, mif_finish m)"
proof (induction b arbitrary: m n)
  case 0
  then obtain k where "n = Suc (Suc k)" by (metis One_nat_def Suc_less_eq less_imp_Suc_add add_Suc)
  with 0 show ?case
    by (simp add: card_poll_step mif_val_def mif_rd_def mif_step_def mif_adr)
next
  case (Suc b)
  then obtain k where n: "n = Suc k" by (cases n) auto
  have "mif_rd m HW_ATL_MIF_ADDR = m\<lparr>m_busy := Suc b\<rparr>"
    using Suc.prems by (simp add: mif_rd_def mif_step_def mif_adr)
  moreover have "mif_val m HW_ATL_MIF_ADDR = m_addr m"
    by (simp add: mif_val_def mif_adr)
  ultimately show ?case
    using Suc.IH [of "m\<lparr>m_busy := Suc b\<rparr>" k] Suc.prems n by (simp add: card_poll_step)
qed

lemma poll_sem:
  "\<not> m_held m \<Longrightarrow> m_wait m < n \<Longrightarrow>
   mif_poll RAM_SEM (\<lambda>v. v = 1) n m = (False, m\<lparr>m_wait := 0, m_held := True\<rparr>)"
proof (induction "m_wait m" arbitrary: m n)
  case 0
  then obtain k where "n = Suc k" by (cases n) auto
  with 0 show ?case by (simp add: card_poll_step mif_val_def mif_rd_def)
next
  case (Suc w)
  then obtain k where n: "n = Suc k" by (cases n) auto
  have "mif_rd m RAM_SEM = m\<lparr>m_wait := w\<rparr>"
    using Suc.hyps(2) by (simp add: mif_rd_def flip: Suc.hyps(2))
  moreover have "mif_val m RAM_SEM = 0"
    using Suc.hyps(2) by (simp add: mif_val_def)
  ultimately show ?case
    using Suc.hyps(1) [of "m\<lparr>m_wait := w\<rparr>" k] Suc.prems Suc.hyps(2) [symmetric] n by (simp add: card_poll_step)
qed

subsection \<open>Downloading\<close>

definition mem_words :: "(u32 \<Rightarrow> u32) \<Rightarrow> u32 \<Rightarrow> nat \<Rightarrow> u32 list" where
  "mem_words mem a n = map (\<lambda>i. mem (a + 4 * of_nat i)) [0..<n]"

lemma mem_words_Suc: "mem_words mem a (Suc n) = mem a # mem_words mem (a + 4) n"
  by (simp add: mem_words_def upt_conv_Cons map_Suc_upt [symmetric] algebra_simps comp_def
      del: upt_Suc map_Suc_upt)

lemma length_mem_words [simp]: "length (mem_words mem a n) = n"
  by (simp add: mem_words_def)

text \<open>What a transfer leaves of the card: everything but its address, data and command registers.\<close>

definition same_card :: "mif_state \<Rightarrow> mif_state \<Rightarrow> bool" where
  "same_card m m' \<longleftrightarrow> m_mem m' = m_mem m \<and> m_held m' = m_held m \<and> m_wait m' = m_wait m \<and> m_lat m' = m_lat m"

lemma same_card_refl [simp]: "same_card m m"
  and same_card_trans: "same_card m m' \<Longrightarrow> same_card m' m'' \<Longrightarrow> same_card m m''"
  by (simp_all add: same_card_def)

lemma mif_done_reg:
  "mif_done a self =
     (if IS_CHIP_FEATURE HAL_ATLANTIC_UTILS_CHIP_REVISION_B1 self
      then AQ_HW_WAIT_FOR (reg_is HW_ATL_MIF_ADDR (\<lambda>v. a \<noteq> v)) 1000 self
      else AQ_HW_WAIT_FOR (reg_is HW_ATL_MIF_CMD (\<lambda>v. 0x100 AND v = 0)) 1000 self)"
  by (simp add: mif_done_def)

lemma mif_done_finishes:
  assumes at: "mif_at s0 self m" and busy: "m_busy m = Suc b" "Suc b < 1000" and a: "a = m_addr m"
  obtains self' where "mif_done a self = (False, self')" "mif_at s0 self' (mif_finish m)"
proof (cases "IS_CHIP_FEATURE HAL_ATLANTIC_UTILS_CHIP_REVISION_B1 self")
  case True
  obtain s1 where "AQ_HW_WAIT_FOR (reg_is HW_ATL_MIF_ADDR (\<lambda>v. m_addr m \<noteq> v)) 1000 self =
      (fst (mif_poll HW_ATL_MIF_ADDR (\<lambda>v. m_addr m \<noteq> v) 1000 m), s1)"
    "mif_at s0 s1 (snd (mif_poll HW_ATL_MIF_ADDR (\<lambda>v. m_addr m \<noteq> v) 1000 m))"
    using memcard.card_wait [OF at] .
  with True busy a show ?thesis by (intro that [of s1]) (simp_all add: mif_done_def poll_addr)
next
  case False
  obtain s1 where "AQ_HW_WAIT_FOR (reg_is HW_ATL_MIF_CMD (\<lambda>v. 0x100 AND v = 0)) 1000 self =
      (fst (mif_poll HW_ATL_MIF_CMD (\<lambda>v. 0x100 AND v = 0) 1000 m), s1)"
    "mif_at s0 s1 (snd (mif_poll HW_ATL_MIF_CMD (\<lambda>v. 0x100 AND v = 0) 1000 m))"
    using memcard.card_wait [OF at] .
  with False busy show ?thesis by (intro that [of s1]) (simp_all add: mif_done_def poll_cmd)
qed

lemma downld_loop_card:
  assumes "mif_at s0 self m" "m_addr m = a" "m_lat m < 999" "i + cnt \<le> length p"
  shows "\<exists>self' m'. downld_loop cnt i a 0 self p =
           (0, self', take i p @ mem_words (m_mem m) a cnt @ drop (i + cnt) p) \<and>
         mif_at s0 self' m' \<and> same_card m m'"
  using assms
proof (induction cnt arbitrary: i a self m p)
  case 0
  then show ?case by (auto simp: mem_words_def intro!: exI [of _ self] exI [of _ m])
next
  case (Suc cnt)
  let ?m1 = "m\<lparr>m_store := False, m_busy := Suc (m_lat m)\<rparr>"
  have at1: "mif_at s0 (aq_hw_write_reg self HW_ATL_MIF_CMD 0x8000) ?m1"
    using memcard.card_write [OF Suc.prems(1), of HW_ATL_MIF_CMD "0x8000"] by (simp add: mif_wr_def mif_adr)
  obtain s2 where d: "mif_done a (aq_hw_write_reg self HW_ATL_MIF_CMD 0x8000) = (False, s2)"
    and at2: "mif_at s0 s2 (mif_finish ?m1)"
    using mif_done_finishes [OF at1, of "m_lat m" a] Suc.prems(2,3) by auto
  obtain s3 where r: "aq_hw_read_reg s2 HW_ATL_MIF_VAL = (mif_val (mif_finish ?m1) HW_ATL_MIF_VAL, s3)"
    and at3: "mif_at s0 s3 (mif_rd (mif_finish ?m1) HW_ATL_MIF_VAL)"
    using memcard.card_read [OF at2] .
  have v: "mif_val (mif_finish ?m1) HW_ATL_MIF_VAL = m_mem m a"
    using Suc.prems(2) by (simp add: mif_val_def mif_finish_def mif_adr)
  have m3: "mif_rd (mif_finish ?m1) HW_ATL_MIF_VAL = mif_finish ?m1"
    by (simp add: mif_rd_def mif_adr)
  have card: "same_card m (mif_finish ?m1)" by (simp add: same_card_def mif_finish_def)
  obtain s4 m' where l: "downld_loop cnt (Suc i) (a + 4) 0 s3 (p[i := m_mem m a]) =
      (0, s4, take (Suc i) (p[i := m_mem m a]) @ mem_words (m_mem m) (a + 4) cnt @
              drop (Suc i + cnt) (p[i := m_mem m a]))"
    and at4: "mif_at s0 s4 m'" "same_card (mif_finish ?m1) m'"
    using Suc.IH [OF at3 [unfolded m3], of "a + 4" "Suc i" "p[i := m_mem m a]"] Suc.prems(2-4) card
    by (auto simp: same_card_def)
  have "i < length p" using Suc.prems(4) by simp
  then have "take (Suc i) (p[i := m_mem m a]) @ mem_words (m_mem m) (a + 4) cnt @
        drop (Suc i + cnt) (p[i := m_mem m a]) =
      take i p @ mem_words (m_mem m) a (Suc cnt) @ drop (i + Suc cnt) p"
    by (simp add: mem_words_Suc take_Suc_conv_app_nth)
  with l have "downld_loop (Suc cnt) i a 0 self p =
      (0, s4, take i p @ mem_words (m_mem m) a (Suc cnt) @ drop (i + Suc cnt) p)"
    by (simp add: d r v [simplified] etime_def Let_def)
  with at4 card show ?case by (blast intro: same_card_trans)
qed

lemma sem_taken_reg: "sem_taken HW_ATL_FW_SM_RAM = reg_is RAM_SEM (\<lambda>v. v = 1)"
  by (simp add: sem_taken_def reg_is_def fun_eq_iff hw_atl_reg_glb_cpu_sem_get_def)

lemma sem_give:
  assumes "mif_at s0 self m"
  shows "mif_at s0 (hw_atl_reg_glb_cpu_sem_set self 1 HW_ATL_FW_SM_RAM) (m\<lparr>m_held := False, m_wait := 0\<rparr>)"
  using memcard.card_write [OF assms, of "0x3A8" 1] by (simp add: hw_atl_reg_glb_cpu_sem_set_def mif_wr_def)

theorem downld_card:
  assumes at: "mif_at s0 self m" and free: "\<not> m_held m" "m_wait m < 10000"
    and lat: "m_lat m < 999" and l: "cnt \<le> length p"
  shows "\<exists>self' m'. hw_atl_utils_fw_downld_dwords self a p cnt =
           (0, self', mem_words (m_mem m) a cnt @ drop cnt p) \<and> mif_at s0 self' m' \<and>
         m_mem m' = m_mem m \<and> \<not> m_held m' \<and> m_wait m' = 0 \<and> m_lat m' = m_lat m"
proof -
  let ?m1 = "m\<lparr>m_wait := 0, m_held := True\<rparr>"
  obtain s1 where w: "AQ_HW_WAIT_FOR (sem_taken HW_ATL_FW_SM_RAM) 10000 self = (False, s1)"
    and at1: "mif_at s0 s1 ?m1"
    using memcard.card_wait [OF at, of RAM_SEM "\<lambda>v. v = 1" 10000] poll_sem [OF free]
    by (metis fst_conv sem_taken_reg snd_conv)
  let ?s2 = "aq_hw_write_reg s1 HW_ATL_MIF_ADDR a"
  have at2: "mif_at s0 ?s2 (?m1\<lparr>m_addr := a\<rparr>)"
    using memcard.card_write [OF at1, of HW_ATL_MIF_ADDR a] by (simp add: mif_wr_def mif_adr)
  obtain s3 m3 where d: "downld_loop cnt 0 a 0 ?s2 p = (0, s3, mem_words (m_mem m) a cnt @ drop cnt p)"
    and at3: "mif_at s0 s3 m3" "same_card (?m1\<lparr>m_addr := a\<rparr>) m3"
    using downld_loop_card [OF at2, of a 0 cnt p] lat l by auto
  have "hw_atl_utils_fw_downld_dwords self a p cnt =
      (0, hw_atl_reg_glb_cpu_sem_set s3 1 HW_ATL_FW_SM_RAM, mem_words (m_mem m) a cnt @ drop cnt p)"
    by (simp add: hw_atl_utils_fw_downld_dwords_def w downld_locked_def d)
  moreover have "mif_at s0 (hw_atl_reg_glb_cpu_sem_set s3 1 HW_ATL_FW_SM_RAM) (m3\<lparr>m_held := False, m_wait := 0\<rparr>)"
    using sem_give [OF at3(1)] .
  ultimately show ?thesis using at3(2) by (auto simp: same_card_def)
qed

text \<open>A card whose semaphore is not given within 10000 polls: nothing is read.\<close>

lemma poll_sem_late:
  "\<not> m_held m \<Longrightarrow> n \<le> m_wait m \<Longrightarrow>
   mif_poll RAM_SEM (\<lambda>v. v = 1) n m =
     (True, if n = m_wait m then m\<lparr>m_wait := 0, m_held := True\<rparr> else m\<lparr>m_wait := m_wait m - Suc n\<rparr>)"
proof (induction n arbitrary: m)
  case 0
  then show ?case by (simp add: card_poll_0 mif_rd_def)
next
  case (Suc n)
  then have "mif_rd m RAM_SEM = m\<lparr>m_wait := m_wait m - 1\<rparr>" "mif_val m RAM_SEM = 0"
    by (simp_all add: mif_rd_def mif_val_def)
  then show ?case
    using Suc.IH [of "m\<lparr>m_wait := m_wait m - 1\<rparr>"] Suc.prems by (simp add: card_poll_step)
qed

subsection \<open>Uploading\<close>

fun mem_store :: "(u32 \<Rightarrow> u32) \<Rightarrow> u32 \<Rightarrow> u32 list \<Rightarrow> u32 \<Rightarrow> u32" where
  "mem_store mem a [] = mem"
| "mem_store mem a (w # ws) = mem_store (mem(a := w)) (a + 4) ws"

lemma mem_store_other:
  "(\<And>i. i < length ws \<Longrightarrow> x \<noteq> a + 4 * of_nat i) \<Longrightarrow> mem_store mem a ws x = mem x"
proof (induction ws arbitrary: mem a)
  case (Cons w ws)
  have "x \<noteq> a" using Cons.prems [of 0] by simp
  moreover have "x \<noteq> a + 4 + 4 * of_nat i" if "i < length ws" for i
    using Cons.prems [of "Suc i"] that by (simp add: algebra_simps)
  ultimately show ?case using Cons.IH by simp
qed simp

lemma word_offsets_differ:
  assumes "Suc i < 2 ^ 30"
  shows "a \<noteq> a + 4 + 4 * (of_nat i :: u32)"
proof
  assume "a = a + 4 + 4 * (of_nat i :: u32)"
  then have "a = a + of_nat (4 * Suc i)" by (simp add: algebra_simps)
  then have e: "(of_nat (4 * Suc i) :: u32) = 0" by simp
  have "unat (of_nat (4 * Suc i) :: u32) = 4 * Suc i"
    using assms by (simp only: unsigned_of_nat) (subst take_bit_nat_eq_self, simp_all)
  with e show False by (metis mult_is_0 unat_0 zero_neq_numeral nat.distinct(1))
qed

lemma mem_words_cong: "(\<And>i. i < n \<Longrightarrow> mem' (a + 4 * of_nat i) = mem (a + 4 * of_nat i)) \<Longrightarrow>
    mem_words mem' a n = mem_words mem a n"
  by (simp add: mem_words_def)

lemma mem_store_words: "length ws < 2 ^ 30 \<Longrightarrow> mem_words (mem_store mem a ws) a (length ws) = ws"
proof (induction ws arbitrary: mem a)
  case (Cons w ws)
  have "a \<noteq> a + 4 + 4 * of_nat i" if "i < length ws" for i
    using word_offsets_differ [of i a] that Cons.prems by simp
  then have "mem_store (mem(a := w)) (a + 4) ws a = w"
    by (subst mem_store_other) simp_all
  with Cons show ?case by (simp add: mem_words_Suc)
qed (simp add: mem_words_def)

lemma upload_mif_card:
  assumes at: "mif_at s0 self m" and lat: "m_lat m < 999"
  shows "\<exists>self' m'. upload_mif p k (0, self) = (0, self') \<and> mif_at s0 self' m' \<and>
           m_mem m' = (m_mem m)(m_addr m := p ! k) \<and> m_addr m' = m_addr m + 4 \<and>
           m_held m' = m_held m \<and> m_wait m' = m_wait m \<and> m_lat m' = m_lat m"
proof -
  let ?m2 = "m\<lparr>m_val := p ! k, m_store := True, m_busy := Suc (m_lat m)\<rparr>"
  let ?s2 = "aq_hw_write_reg (aq_hw_write_reg self 0x20C (p ! k)) 0x200 0xC000"
  have at2: "mif_at s0 ?s2 ?m2"
    using memcard.card_write [OF memcard.card_write [OF at, of "0x20C" "p ! k"], of "0x200" "0xC000"]
    by (simp add: mif_wr_def mif_adr)
  have poll: "mif_poll 0x200 (\<lambda>v. v AND 0x100 = 0) 1000 ?m2 = (False, mif_finish ?m2)"
    using poll_cmd [of ?m2 "m_lat m" 1000] lat by (simp add: mif_adr and.commute)
  obtain s3 where "AQ_HW_WAIT_FOR (reg_is 0x200 (\<lambda>v. v AND 0x100 = 0)) 1000 ?s2 = (False, s3)"
    "mif_at s0 s3 (mif_finish ?m2)"
    using memcard.card_wait [OF at2, of "0x200" "\<lambda>v. v AND 0x100 = 0" 1000] poll by auto
  then show ?thesis
    by (intro exI [of _ s3] exI [of _ "mif_finish ?m2"]) (simp add: upload_mif_def etime_def mif_finish_def)
qed

lemma upload_loop_card:
  assumes "mif_at s0 self m" "m_lat m < 999" "k \<le> n" "n \<le> length p"
  shows "\<exists>self' m'. fold (upload_mif p) [k..<n] (0, self) = (0, self') \<and> mif_at s0 self' m' \<and>
           m_mem m' = mem_store (m_mem m) (m_addr m) (drop k (take n p)) \<and>
           m_held m' = m_held m \<and> m_wait m' = m_wait m \<and> m_lat m' = m_lat m"
  using assms(3,1,2,4)
proof (induction k arbitrary: self m rule: inc_induct)
  case base
  then show ?case by auto
next
  case (step k)
  obtain s1 m1 where u: "upload_mif p k (0, self) = (0, s1)" and at1: "mif_at s0 s1 m1"
    and m1: "m_mem m1 = (m_mem m)(m_addr m := p ! k)" "m_addr m1 = m_addr m + 4"
      "m_held m1 = m_held m" "m_wait m1 = m_wait m" "m_lat m1 = m_lat m"
    using upload_mif_card [OF step.prems(1,2), of p k] by auto
  have "drop k (take n p) = p ! k # drop (Suc k) (take n p)"
    using step.hyps step.prems(3) by (metis Cons_nth_drop_Suc length_take min.absorb2 nth_take)
  then show ?case
    using step.IH [OF at1] step.prems(2,3) step.hyps(2) m1 u by (simp add: upt_conv_Cons fun_upd_def)
qed

theorem upload_card:
  assumes at: "mif_at s0 self m" and free: "\<not> m_held m" "m_wait m = 0" and lat: "m_lat m < 999"
    and l: "cnt \<le> length p" and b1: "\<not> IS_CHIP_FEATURE HAL_ATLANTIC_UTILS_CHIP_REVISION_B1 s0"
  shows "\<exists>self' m'. hw_atl_utils_fw_upload_dwords self a p cnt = (0, self') \<and> mif_at s0 self' m' \<and>
           m_mem m' = mem_store (m_mem m) a (take cnt p) \<and> \<not> m_held m' \<and> m_wait m' = 0 \<and>
           m_lat m' = m_lat m"
proof -
  have sem: "mif_val m 0x3A8 = 1" "mif_rd m 0x3A8 = m\<lparr>m_held := True\<rparr>"
    using free by (simp_all add: mif_val_def mif_rd_def)
  obtain s1 where g: "hw_atl_reg_glb_cpu_sem_get self HW_ATL_FW_SM_RAM = (1, s1)"
    and at1: "mif_at s0 s1 (m\<lparr>m_held := True\<rparr>)"
    using memcard.card_read [OF at, of "0x3A8"] sem by (auto simp: hw_atl_reg_glb_cpu_sem_get_def)
  have "\<not> IS_CHIP_FEATURE HAL_ATLANTIC_UTILS_CHIP_REVISION_B1 s1"
    using b1 card_at_sw(2) [OF at1] by (simp add: IS_CHIP_FEATURE_def)
  moreover
  have at2: "mif_at s0 (aq_hw_write_reg s1 0x208 a) (m\<lparr>m_held := True, m_addr := a\<rparr>)"
    using memcard.card_write [OF at1, of "0x208" a] by (simp add: mif_wr_def mif_adr)
  obtain s3 m3 where u: "fold (upload_mif p) [0..<cnt] (0, aq_hw_write_reg s1 0x208 a) = (0, s3)"
    and at3: "mif_at s0 s3 m3" "m_mem m3 = mem_store (m_mem m) a (take cnt p)" "m_lat m3 = m_lat m"
    using upload_loop_card [OF at2, of 0 cnt p] lat l by auto
  ultimately have "hw_atl_utils_fw_upload_dwords self a p cnt =
      (0, hw_atl_reg_glb_cpu_sem_set s3 1 HW_ATL_FW_SM_RAM)"
    by (simp add: hw_atl_utils_fw_upload_dwords_def g u)
  with at3 sem_give [OF at3(1)] show ?thesis by auto
qed

end
