(* ===== verification/Fw2x.thy ===== *)
theory Fw2x
  imports Firmware
begin

section \<open>The 2.x and 3.x firmware (hw_atl_utils_fw2x.c) and the choice between the two\<close>

text \<open>
  The operations of \<open>aq_fw_2x_ops\<close>: link speed, energy-efficient Ethernet, flow control,
  statistics, temperature and wake on LAN through the control and state words 0x368 to 0x37C
  and the mailbox of theory Firmware; then the dispatch over the two tables of operations and
  \<open>hw_atl_utils_initfw\<close>, which picks one by the firmware's version.
\<close>

subsection \<open>Constants\<close>

definition HW_ATL_FW2X_MPI_EFUSE_ADDR :: u32 where "HW_ATL_FW2X_MPI_EFUSE_ADDR = 0x364"
definition HW_ATL_FW2X_MPI_MBOX_ADDR :: u32 where "HW_ATL_FW2X_MPI_MBOX_ADDR = 0x360"
definition HW_ATL_FW2X_MPI_RPC_ADDR :: u32 where "HW_ATL_FW2X_MPI_RPC_ADDR = 0x334"
definition HW_ATL_FW2X_MPI_CONTROL_ADDR :: u32 where "HW_ATL_FW2X_MPI_CONTROL_ADDR = 0x368"
definition HW_ATL_FW2X_MPI_CONTROL2_ADDR :: u32 where "HW_ATL_FW2X_MPI_CONTROL2_ADDR = 0x36C"
definition HW_ATL_FW2X_MPI_LED_ADDR :: u32 where "HW_ATL_FW2X_MPI_LED_ADDR = 0x31c"
definition HW_ATL_FW2X_MPI_STATE_ADDR :: u32 where "HW_ATL_FW2X_MPI_STATE_ADDR = 0x370"
definition HW_ATL_FW2X_MPI_STATE2_ADDR :: u32 where "HW_ATL_FW2X_MPI_STATE2_ADDR = 0x374"
definition HW_ATL_FW3X_EXT_CONTROL_ADDR :: u32 where "HW_ATL_FW3X_EXT_CONTROL_ADDR = 0x378"
definition HW_ATL_FW3X_EXT_STATE_ADDR :: u32 where "HW_ATL_FW3X_EXT_STATE_ADDR = 0x37c"

definition CTRL_PAUSE :: nat where "CTRL_PAUSE = 3"
definition CTRL_ASYMMETRIC_PAUSE :: nat where "CTRL_ASYMMETRIC_PAUSE = 4"
definition CTRL_TEMPERATURE :: nat where "CTRL_TEMPERATURE = 18"
definition CTRL_LINK_DROP :: nat where "CTRL_LINK_DROP = 22"
definition CTRL_SLEEP_PROXY :: nat where "CTRL_SLEEP_PROXY = 23"
definition CTRL_WOL :: nat where "CTRL_WOL = 24"
definition CTRL_EXT_LOOPBACK :: nat where "CTRL_EXT_LOOPBACK = 26"
definition CTRL_INT_LOOPBACK :: nat where "CTRL_INT_LOOPBACK = 27"
definition CTRL_STATISTICS :: nat where "CTRL_STATISTICS = 30"
definition CTRL_FORCE_RECONNECT :: nat where "CTRL_FORCE_RECONNECT = 31"
definition CAPS_HI_PAUSE :: nat where "CAPS_HI_PAUSE = 3"
definition CAPS_HI_ASYMMETRIC_PAUSE :: nat where "CAPS_HI_ASYMMETRIC_PAUSE = 4"
definition CAPS_HI_1000BASET_FD_EEE :: nat where "CAPS_HI_1000BASET_FD_EEE = 8"
definition CAPS_HI_2P5GBASET_FD_EEE :: nat where "CAPS_HI_2P5GBASET_FD_EEE = 9"
definition CAPS_HI_5GBASET_FD_EEE :: nat where "CAPS_HI_5GBASET_FD_EEE = 10"
definition CAPS_HI_10GBASET_FD_EEE :: nat where "CAPS_HI_10GBASET_FD_EEE = 11"
definition CAPS_HI_FW_REQUEST :: nat where "CAPS_HI_FW_REQUEST = 12"
definition CAPS_EX_PHY_PTP_EN :: nat where "CAPS_EX_PHY_PTP_EN = 16"
definition CAPS_EX_PTP_GPIO_EN :: nat where "CAPS_EX_PTP_GPIO_EN = 20"

definition HW_ATL_FW2X_CTRL_SLEEP_PROXY :: u32 where
  "HW_ATL_FW2X_CTRL_SLEEP_PROXY = BIT CTRL_SLEEP_PROXY"
definition HW_ATL_FW2X_CTRL_WOL :: u32 where "HW_ATL_FW2X_CTRL_WOL = BIT CTRL_WOL"
definition HW_ATL_FW2X_CTRL_LINK_DROP :: u32 where "HW_ATL_FW2X_CTRL_LINK_DROP = BIT CTRL_LINK_DROP"
definition HW_ATL_FW2X_CTRL_TEMPERATURE :: u32 where
  "HW_ATL_FW2X_CTRL_TEMPERATURE = BIT CTRL_TEMPERATURE"
definition HW_ATL_FW2X_CTRL_STATISTICS :: u32 where
  "HW_ATL_FW2X_CTRL_STATISTICS = BIT CTRL_STATISTICS"
definition HW_ATL_FW2X_CTRL_PAUSE :: u32 where "HW_ATL_FW2X_CTRL_PAUSE = BIT CTRL_PAUSE"
definition HW_ATL_FW2X_CTRL_ASYMMETRIC_PAUSE :: u32 where
  "HW_ATL_FW2X_CTRL_ASYMMETRIC_PAUSE = BIT CTRL_ASYMMETRIC_PAUSE"
definition HW_ATL_FW2X_CTRL_INT_LOOPBACK :: u32 where
  "HW_ATL_FW2X_CTRL_INT_LOOPBACK = BIT CTRL_INT_LOOPBACK"
definition HW_ATL_FW2X_CTRL_EXT_LOOPBACK :: u32 where
  "HW_ATL_FW2X_CTRL_EXT_LOOPBACK = BIT CTRL_EXT_LOOPBACK"
definition HW_ATL_FW2X_CTRL_FORCE_RECONNECT :: u32 where
  "HW_ATL_FW2X_CTRL_FORCE_RECONNECT = BIT CTRL_FORCE_RECONNECT"
definition HW_ATL_FW2X_CAP_EEE_1G_MASK :: u32 where
  "HW_ATL_FW2X_CAP_EEE_1G_MASK = BIT CAPS_HI_1000BASET_FD_EEE"
definition HW_ATL_FW2X_CAP_EEE_2G5_MASK :: u32 where
  "HW_ATL_FW2X_CAP_EEE_2G5_MASK = BIT CAPS_HI_2P5GBASET_FD_EEE"
definition HW_ATL_FW2X_CAP_EEE_5G_MASK :: u32 where
  "HW_ATL_FW2X_CAP_EEE_5G_MASK = BIT CAPS_HI_5GBASET_FD_EEE"
definition HW_ATL_FW2X_CAP_EEE_10G_MASK :: u32 where
  "HW_ATL_FW2X_CAP_EEE_10G_MASK = BIT CAPS_HI_10GBASET_FD_EEE"
definition HW_ATL_FW2X_CAP_PAUSE :: u32 where "HW_ATL_FW2X_CAP_PAUSE = BIT CAPS_HI_PAUSE"
definition HW_ATL_FW2X_CAP_ASYM_PAUSE :: u32 where
  "HW_ATL_FW2X_CAP_ASYM_PAUSE = BIT CAPS_HI_ASYMMETRIC_PAUSE"

definition HAL_ATLANTIC_UTILS_FW2X_MSG_WOL :: u32 where "HAL_ATLANTIC_UTILS_FW2X_MSG_WOL = 0x0E"
definition HW_ATL_FW_VER_LED :: u32 where "HW_ATL_FW_VER_LED = 0x03010026"

definition FW2X_RATE_100M :: u32 where "FW2X_RATE_100M = 0x20"
definition FW2X_RATE_1G :: u32 where "FW2X_RATE_1G = 0x100"
definition FW2X_RATE_2G5 :: u32 where "FW2X_RATE_2G5 = 0x200"
definition FW2X_RATE_5G :: u32 where "FW2X_RATE_5G = 0x400"
definition FW2X_RATE_10G :: u32 where "FW2X_RATE_10G = 0x800"

definition AQ_NIC_RATE_10G :: u32 where "AQ_NIC_RATE_10G = BIT 0"
definition AQ_NIC_RATE_5G :: u32 where "AQ_NIC_RATE_5G = BIT 1"
definition AQ_NIC_RATE_5GSR :: u32 where "AQ_NIC_RATE_5GSR = BIT 2"
definition AQ_NIC_RATE_2GS :: u32 where "AQ_NIC_RATE_2GS = BIT 3"
definition AQ_NIC_RATE_1G :: u32 where "AQ_NIC_RATE_1G = BIT 4"
definition AQ_NIC_RATE_100M :: u32 where "AQ_NIC_RATE_100M = BIT 5"
definition AQ_NIC_RATE_EEE_10G :: u32 where "AQ_NIC_RATE_EEE_10G = BIT 6"
definition AQ_NIC_RATE_EEE_5G :: u32 where "AQ_NIC_RATE_EEE_5G = BIT 7"
definition AQ_NIC_RATE_EEE_2GS :: u32 where "AQ_NIC_RATE_EEE_2GS = BIT 8"
definition AQ_NIC_RATE_EEE_1G :: u32 where "AQ_NIC_RATE_EEE_1G = BIT 9"
definition AQ_NIC_FC_TX :: u32 where "AQ_NIC_FC_TX = 1"
definition AQ_NIC_FC_RX :: u32 where "AQ_NIC_FC_RX = 2"

text \<open>\<open>enum\<close> of the loopback modes in aq_hw.h.\<close>

definition AQ_HW_LOOPBACK_DMA_SYS :: u32 where "AQ_HW_LOOPBACK_DMA_SYS = 0"
definition AQ_HW_LOOPBACK_PKT_SYS :: u32 where "AQ_HW_LOOPBACK_PKT_SYS = 1"
definition AQ_HW_LOOPBACK_DMA_NET :: u32 where "AQ_HW_LOOPBACK_DMA_NET = 2"
definition AQ_HW_LOOPBACK_PHYINT_SYS :: u32 where "AQ_HW_LOOPBACK_PHYINT_SYS = 3"
definition AQ_HW_LOOPBACK_PHYEXT_SYS :: u32 where "AQ_HW_LOOPBACK_PHYEXT_SYS = 4"

lemmas fw2x_bits =
  HW_ATL_FW2X_CTRL_SLEEP_PROXY_def HW_ATL_FW2X_CTRL_WOL_def HW_ATL_FW2X_CTRL_LINK_DROP_def
  HW_ATL_FW2X_CTRL_TEMPERATURE_def HW_ATL_FW2X_CTRL_STATISTICS_def HW_ATL_FW2X_CTRL_PAUSE_def
  HW_ATL_FW2X_CTRL_ASYMMETRIC_PAUSE_def HW_ATL_FW2X_CTRL_INT_LOOPBACK_def
  HW_ATL_FW2X_CTRL_EXT_LOOPBACK_def HW_ATL_FW2X_CTRL_FORCE_RECONNECT_def
  CTRL_PAUSE_def CTRL_ASYMMETRIC_PAUSE_def CTRL_TEMPERATURE_def CTRL_LINK_DROP_def
  CTRL_SLEEP_PROXY_def CTRL_WOL_def CTRL_EXT_LOOPBACK_def CTRL_INT_LOOPBACK_def
  CTRL_STATISTICS_def CTRL_FORCE_RECONNECT_def

lemmas fw2x_caps =
  HW_ATL_FW2X_CAP_EEE_1G_MASK_def HW_ATL_FW2X_CAP_EEE_2G5_MASK_def HW_ATL_FW2X_CAP_EEE_5G_MASK_def
  HW_ATL_FW2X_CAP_EEE_10G_MASK_def HW_ATL_FW2X_CAP_PAUSE_def HW_ATL_FW2X_CAP_ASYM_PAUSE_def
  CAPS_HI_1000BASET_FD_EEE_def CAPS_HI_2P5GBASET_FD_EEE_def CAPS_HI_5GBASET_FD_EEE_def
  CAPS_HI_10GBASET_FD_EEE_def CAPS_HI_PAUSE_def CAPS_HI_ASYMMETRIC_PAUSE_def
  AQ_NIC_RATE_EEE_10G_def AQ_NIC_RATE_EEE_5G_def AQ_NIC_RATE_EEE_2GS_def AQ_NIC_RATE_EEE_1G_def
  AQ_NIC_FC_TX_def AQ_NIC_FC_RX_def

subsection \<open>Masks and rates\<close>

definition link_speed_mask_2fw2x_ratemask :: "u32 \<Rightarrow> u32" where
  "link_speed_mask_2fw2x_ratemask speed =
     (if speed AND AQ_NIC_RATE_10G \<noteq> 0 then FW2X_RATE_10G else 0) OR
     (if speed AND AQ_NIC_RATE_5G \<noteq> 0 then FW2X_RATE_5G else 0) OR
     (if speed AND AQ_NIC_RATE_5GSR \<noteq> 0 then FW2X_RATE_5G else 0) OR
     (if speed AND AQ_NIC_RATE_2GS \<noteq> 0 then FW2X_RATE_2G5 else 0) OR
     (if speed AND AQ_NIC_RATE_1G \<noteq> 0 then FW2X_RATE_1G else 0) OR
     (if speed AND AQ_NIC_RATE_100M \<noteq> 0 then FW2X_RATE_100M else 0)"

definition fw2x_to_eee_mask :: "u32 \<Rightarrow> u32" where
  "fw2x_to_eee_mask speed =
     (if speed AND HW_ATL_FW2X_CAP_EEE_10G_MASK \<noteq> 0 then AQ_NIC_RATE_EEE_10G else 0) OR
     (if speed AND HW_ATL_FW2X_CAP_EEE_5G_MASK \<noteq> 0 then AQ_NIC_RATE_EEE_5G else 0) OR
     (if speed AND HW_ATL_FW2X_CAP_EEE_2G5_MASK \<noteq> 0 then AQ_NIC_RATE_EEE_2GS else 0) OR
     (if speed AND HW_ATL_FW2X_CAP_EEE_1G_MASK \<noteq> 0 then AQ_NIC_RATE_EEE_1G else 0)"

definition eee_mask_to_fw2x :: "u32 \<Rightarrow> u32" where
  "eee_mask_to_fw2x speed =
     (if speed AND AQ_NIC_RATE_EEE_10G \<noteq> 0 then HW_ATL_FW2X_CAP_EEE_10G_MASK else 0) OR
     (if speed AND AQ_NIC_RATE_EEE_5G \<noteq> 0 then HW_ATL_FW2X_CAP_EEE_5G_MASK else 0) OR
     (if speed AND AQ_NIC_RATE_EEE_2GS \<noteq> 0 then HW_ATL_FW2X_CAP_EEE_2G5_MASK else 0) OR
     (if speed AND AQ_NIC_RATE_EEE_1G \<noteq> 0 then HW_ATL_FW2X_CAP_EEE_1G_MASK else 0)"

definition aq_fw2x_upd_flow_control_bits :: "u32 \<Rightarrow> u32 \<Rightarrow> u32" where
  "aq_fw2x_upd_flow_control_bits mpi_state fc =
     (let s = (if fc AND AQ_NIC_FC_RX \<noteq> 0 then mpi_state OR HW_ATL_FW2X_CTRL_PAUSE
               else mpi_state AND NOT HW_ATL_FW2X_CTRL_PAUSE)
      in if fc AND AQ_NIC_FC_TX \<noteq> 0 then s OR HW_ATL_FW2X_CTRL_ASYMMETRIC_PAUSE
         else s AND NOT HW_ATL_FW2X_CTRL_ASYMMETRIC_PAUSE)"

definition aq_fw2x_upd_eee_rate_bits :: "u32 \<Rightarrow> u32 \<Rightarrow> u32" where
  "aq_fw2x_upd_eee_rate_bits mpi_opts speeds =
     (mpi_opts AND NOT (HW_ATL_FW2X_CAP_EEE_1G_MASK OR HW_ATL_FW2X_CAP_EEE_2G5_MASK OR
                        HW_ATL_FW2X_CAP_EEE_5G_MASK OR HW_ATL_FW2X_CAP_EEE_10G_MASK)) OR
     eee_mask_to_fw2x speeds"

subsection \<open>Operations on the control and state words\<close>

text \<open>Read a register, change it, write it back.\<close>

definition reg_modify :: "u32 \<Rightarrow> (u32 \<Rightarrow> u32) \<Rightarrow> aq_hw_s \<Rightarrow> aq_hw_s" where
  "reg_modify a f self = (case aq_hw_read_reg self a of (v, self) \<Rightarrow> aq_hw_write_reg self a (f v))"

definition aq_fw2x_init :: "aq_hw_s \<Rightarrow> int \<times> aq_hw_s" where
  "aq_fw2x_init self =
     (case AQ_HW_WAIT_FOR (\<lambda>self. case aq_hw_read_reg self HW_ATL_FW2X_MPI_MBOX_ADDR of (v, self) \<Rightarrow>
             (v \<noteq> 0, self\<lparr>mbox_addr := v\<rparr>)) 10 self of (late1, self) \<Rightarrow>
      case AQ_HW_WAIT_FOR (\<lambda>self. case aq_hw_read_reg self HW_ATL_FW2X_MPI_RPC_ADDR of (v, self) \<Rightarrow>
             (v \<noteq> 0, self\<lparr>rpc_addr := v\<rparr>)) 100 self of (late2, self) \<Rightarrow>
        (etime late2 (etime late1 0), self))"

definition aq_fw2x_set_link_speed :: "aq_hw_s \<Rightarrow> u32 \<Rightarrow> int \<times> aq_hw_s" where
  "aq_fw2x_set_link_speed self speed =
     (0, aq_hw_write_reg self HW_ATL_FW2X_MPI_CONTROL_ADDR (link_speed_mask_2fw2x_ratemask speed))"

fun fw2x_state_val :: "aq_hw_s \<Rightarrow> fw_state \<Rightarrow> u32 \<Rightarrow> u32" where
  "fw2x_state_val self MPI_INIT mpi_state =
     aq_fw2x_upd_flow_control_bits
       (aq_fw2x_upd_eee_rate_bits (mpi_state AND NOT HW_ATL_FW2X_CTRL_LINK_DROP)
          (eee_speeds (aq_nic_cfg self)))
       (flow_control (aq_nic_cfg self))"
| "fw2x_state_val self MPI_DEINIT mpi_state = mpi_state OR HW_ATL_FW2X_CTRL_LINK_DROP"
| "fw2x_state_val self MPI_RESET mpi_state = mpi_state"
| "fw2x_state_val self MPI_POWER mpi_state = mpi_state"

definition aq_fw2x_set_state :: "aq_hw_s \<Rightarrow> fw_state \<Rightarrow> int \<times> aq_hw_s" where
  "aq_fw2x_set_state self state =
     (0, reg_modify HW_ATL_FW2X_MPI_CONTROL2_ADDR (fw2x_state_val self state) self)"

definition aq_fw2x_deinit :: "aq_hw_s \<Rightarrow> int \<times> aq_hw_s" where
  "aq_fw2x_deinit self =
     (case aq_fw2x_set_link_speed self 0 of (err, self) \<Rightarrow>
        if err = 0 then aq_fw2x_set_state self MPI_DEINIT else (err, self))"

definition fw2x_mbps :: "u32 \<Rightarrow> u32" where
  "fw2x_mbps speed =
     (if speed = 0 then 0
      else if speed AND FW2X_RATE_10G \<noteq> 0 then 10000
      else if speed AND FW2X_RATE_5G \<noteq> 0 then 5000
      else if speed AND FW2X_RATE_2G5 \<noteq> 0 then 2500
      else if speed AND FW2X_RATE_1G \<noteq> 0 then 1000
      else if speed AND FW2X_RATE_100M \<noteq> 0 then 100
      else 10000)"

definition aq_fw2x_update_link_status :: "aq_hw_s \<Rightarrow> int \<times> aq_hw_s" where
  "aq_fw2x_update_link_status self =
     (case aq_hw_read_reg self HW_ATL_FW2X_MPI_STATE_ADDR of (mpi_state, self) \<Rightarrow>
      let speed = mpi_state AND (FW2X_RATE_100M OR FW2X_RATE_1G OR FW2X_RATE_2G5 OR
                                 FW2X_RATE_5G OR FW2X_RATE_10G)
      in (0, self\<lparr>link_mbps := fw2x_mbps speed\<rparr>))"

text \<open>\<open>mac\<close> is the caller's buffer: a failed download leaves it as it is.\<close>

definition aq_fw2x_get_mac_permanent :: "u32 \<Rightarrow> aq_hw_s \<Rightarrow> u8 list \<Rightarrow> int \<times> aq_hw_s \<times> u8 list" where
  "aq_fw2x_get_mac_permanent rnd self mac =
     (case aq_hw_read_reg self HW_ATL_FW2X_MPI_EFUSE_ADDR of (efuse_addr, self) \<Rightarrow>
      case (if efuse_addr \<noteq> 0
            then case hw_atl_utils_fw_downld_dwords self (efuse_addr + 40 * 4) [0, 0] 2 of
                   (err, self, p) \<Rightarrow> (err, self, map swab32 p)
            else (0, self, [0, 0])) of (err, self, mac_addr) \<Rightarrow>
        if err \<noteq> 0 then (err, self, mac)
        else let mac = mac_bytes mac_addr in
          (0, self, if mac_unusable mac then fallback_mac rnd else mac))"

text \<open>
  Toggle a bit of the second control word and wait for the second state word to follow: the
  result says whether the wait timed out.
\<close>

definition toggle_and_wait :: "u32 \<Rightarrow> aq_hw_s \<Rightarrow> bool \<times> aq_hw_s" where
  "toggle_and_wait b self =
     (case aq_hw_read_reg self HW_ATL_FW2X_MPI_CONTROL2_ADDR of (mpi_opts, self) \<Rightarrow>
      let orig = mpi_opts AND b;
          self = aq_hw_write_reg self HW_ATL_FW2X_MPI_CONTROL2_ADDR (mpi_opts XOR b)
      in AQ_HW_WAIT_FOR (reg_is HW_ATL_FW2X_MPI_STATE2_ADDR (\<lambda>v. orig \<noteq> v AND b)) 10000 self)"

definition aq_fw2x_update_stats :: "u32 list \<Rightarrow> aq_hw_s \<Rightarrow> int \<times> aq_hw_s" where
  "aq_fw2x_update_stats stack self =
     (case toggle_and_wait HW_ATL_FW2X_CTRL_STATISTICS self of (late, self) \<Rightarrow>
        if late then (- ETIME, self) else hw_atl_utils_update_stats stack self)"

text \<open>One word of the mailbox at byte \<open>ofs\<close>.\<close>

definition mbox_word :: "aq_hw_s \<Rightarrow> u32 \<Rightarrow> int \<times> aq_hw_s \<times> u32" where
  "mbox_word self ofs =
     (case hw_atl_utils_fw_downld_dwords self (mbox_addr self + ofs) [0] 1 of
        (err, self, p) \<Rightarrow> (err, self, p ! 0))"

text \<open>
  phy_temperature is the 16-bit field at byte 80 of the mailbox; cable_len and a reserved
  byte are the upper half of the same word. The result of the wait is overwritten.
\<close>

definition aq_fw2x_get_temp :: "aq_hw_s \<Rightarrow> int \<Rightarrow> int \<times> aq_hw_s \<times> int" where
  "aq_fw2x_get_temp self temp =
     (case toggle_and_wait HW_ATL_FW2X_CTRL_TEMPERATURE self of (late, self) \<Rightarrow>
      case mbox_word self (72 + 8) of (err, self, temp_res) \<Rightarrow>
        if err \<noteq> 0 then (err, self, temp) else (0, self, uint (temp_res * 100 div 256)))"

definition aq_fw2x_get_cable_len :: "aq_hw_s \<Rightarrow> int \<Rightarrow> int \<times> aq_hw_s \<times> int" where
  "aq_fw2x_get_cable_len self cable_len =
     (case mbox_word self (72 + 8) of (err, self, cable_len_res) \<Rightarrow>
        if err \<noteq> 0 then (err, self, cable_len)
        else (0, self, uint (drop_bit 16 cable_len_res AND 0xFF)))"

subsection \<open>Wake on LAN\<close>

text \<open>
  \<open>struct offload_info\<close> is 84 bytes after msg_id: len is word 2 of the call and mac_addr starts
  at word 3. \<open>struct fw2x_msg_wol\<close> is 184 bytes: hw_addr starts at word 1 and
  magic_packet_enabled is the third byte of word 2; the rest of the message is what the last
  answer left in \<open>self->rpc\<close>.
\<close>

definition sleep_proxy_msg :: "u8 list \<Rightarrow> u32 list \<Rightarrow> u32 list" where
  "sleep_proxy_msg mac p = (put_mac 3 mac (replicate 22 0 @ drop 22 p))[2 := 84]"

definition wol_params_msg :: "u8 list \<Rightarrow> u32 list \<Rightarrow> u32 list" where
  "wol_params_msg mac p =
     put_mac 1 mac (p[0 := HAL_ATLANTIC_UTILS_FW2X_MSG_WOL, 2 := (p ! 2 AND 0xFF00FFFF) OR 0x00010000])"

text \<open>Both functions: answer awaited, message built, \<open>clear\<close> cleared, call, \<open>set\<close> set and awaited.\<close>

definition fw2x_wol_call :: "(u32 list \<Rightarrow> u32 list) \<Rightarrow> u32 \<Rightarrow> u32 \<Rightarrow> u32 \<Rightarrow> aq_hw_s \<Rightarrow> (int \<times> aq_hw_s) option" where
  "fw2x_wol_call msg clr on rpc_size self =
     (case hw_atl_utils_fw_rpc_wait self True of
        None \<Rightarrow> None
      | Some (err, self) \<Rightarrow>
          if err < 0 then Some (err, self)
          else
            let self = self\<lparr>fw_rpc := msg (fw_rpc self)\<rparr> in
            case aq_hw_read_reg self HW_ATL_FW2X_MPI_CONTROL2_ADDR of (mpi_opts, self) \<Rightarrow>
            let mpi_opts = mpi_opts AND NOT clr;
                self = aq_hw_write_reg self HW_ATL_FW2X_MPI_CONTROL2_ADDR mpi_opts in
            case hw_atl_utils_fw_rpc_call self rpc_size of (err, self) \<Rightarrow>
            if err < 0 then Some (err, self)
            else
              let self = aq_hw_write_reg self HW_ATL_FW2X_MPI_CONTROL2_ADDR (mpi_opts OR on) in
              case AQ_HW_WAIT_FOR (reg_is HW_ATL_FW2X_MPI_STATE2_ADDR (\<lambda>v. v AND on \<noteq> 0)) 10000 self of
                (late, self) \<Rightarrow> Some (etime late err, self))"

definition aq_fw2x_set_sleep_proxy :: "aq_hw_s \<Rightarrow> u8 list \<Rightarrow> (int \<times> aq_hw_s) option" where
  "aq_fw2x_set_sleep_proxy self mac =
     fw2x_wol_call (sleep_proxy_msg mac) (HW_ATL_FW2X_CTRL_SLEEP_PROXY OR HW_ATL_FW2X_CTRL_LINK_DROP)
       HW_ATL_FW2X_CTRL_SLEEP_PROXY 88 self"

definition aq_fw2x_set_wol_params :: "aq_hw_s \<Rightarrow> u8 list \<Rightarrow> (int \<times> aq_hw_s) option" where
  "aq_fw2x_set_wol_params self mac =
     fw2x_wol_call (wol_params_msg mac) (HW_ATL_FW2X_CTRL_SLEEP_PROXY OR HW_ATL_FW2X_CTRL_WOL)
       HW_ATL_FW2X_CTRL_WOL 184 self"

definition aq_fw2x_set_power :: "aq_hw_s \<Rightarrow> u8 list \<Rightarrow> (int \<times> aq_hw_s) option" where
  "aq_fw2x_set_power self mac =
     (if wol (aq_nic_cfg self) AND AQ_NIC_WOL_ENABLED \<noteq> 0
      then (case aq_fw2x_set_sleep_proxy self mac of
              None \<Rightarrow> None
            | Some (err, self) \<Rightarrow>
                if err < 0 then Some (err, self) else aq_fw2x_set_wol_params self mac)
      else Some (0, self))"

subsection \<open>Requests, LEDs, energy-efficient Ethernet, flow control, loopback\<close>

definition aq_fw2x_send_fw_request :: "aq_hw_s \<Rightarrow> u32 list \<Rightarrow> nat \<Rightarrow> int \<times> aq_hw_s" where
  "aq_fw2x_send_fw_request self fw_req sz =
     (let dword_cnt = sz div 4 + (if sz mod 4 \<noteq> 0 then 1 else 0) in
      case aq_hw_read_reg self HW_ATL_FW2X_MPI_RPC_ADDR of (a, self) \<Rightarrow>
      case hw_atl_utils_fw_upload_dwords self a fw_req dword_cnt of (err, self) \<Rightarrow>
        if err < 0 then (err, self)
        else case toggle_and_wait (BIT CAPS_HI_FW_REQUEST) self of (late, self) \<Rightarrow>
          (etime late err, self))"

definition aq_fw3x_enable_ptp :: "aq_hw_s \<Rightarrow> bool \<Rightarrow> aq_hw_s" where
  "aq_fw3x_enable_ptp self enable =
     (case aq_hw_read_reg self HW_ATL_FW3X_EXT_STATE_ADDR of (ptp_opts, self) \<Rightarrow>
      let all_ptp_features = BIT CAPS_EX_PHY_PTP_EN OR BIT CAPS_EX_PTP_GPIO_EN
      in aq_hw_write_reg self HW_ATL_FW3X_EXT_CONTROL_ADDR
           (if enable then ptp_opts OR all_ptp_features else ptp_opts AND NOT all_ptp_features))"

definition aq_fw2x_led_control :: "aq_hw_s \<Rightarrow> u32 \<Rightarrow> int \<times> aq_hw_s" where
  "aq_fw2x_led_control self mode =
     (if HW_ATL_FW_VER_LED > fw_ver_actual self then (- EOPNOTSUPP, self)
      else (0, aq_hw_write_reg self HW_ATL_FW2X_MPI_LED_ADDR mode))"

definition aq_fw2x_set_eee_rate :: "aq_hw_s \<Rightarrow> u32 \<Rightarrow> int \<times> aq_hw_s" where
  "aq_fw2x_set_eee_rate self speed =
     (0, reg_modify HW_ATL_FW2X_MPI_CONTROL2_ADDR (\<lambda>v. aq_fw2x_upd_eee_rate_bits v speed) self)"

definition HW_ATL_CLOCK_TO_US :: "u32 \<Rightarrow> u32" where
  "HW_ATL_CLOCK_TO_US clk = clk * 32 div 10000"

definition aq_fw2x_get_eee_rate :: "aq_hw_s \<Rightarrow> u32 \<Rightarrow> u32 \<Rightarrow> u32 \<Rightarrow> int \<times> aq_hw_s \<times> u32 \<times> u32 \<times> u32" where
  "aq_fw2x_get_eee_rate self rate supported_rates lpi_timer =
     (case mbox_word self (72 + 64) of (err, self, caps_hi) \<Rightarrow>
        if err \<noteq> 0 then (err, self, rate, supported_rates, lpi_timer)
        else
          let supported_rates = fw2x_to_eee_mask caps_hi in
          case aq_hw_read_reg self HW_ATL_FW2X_MPI_STATE2_ADDR of (mpi_state, self) \<Rightarrow>
          let rate = fw2x_to_eee_mask mpi_state in
          case hw_atl_msm_read_lpi_timer self 0 of (err, self, lpi) \<Rightarrow>
            if err \<noteq> 0 then (err, self, rate, supported_rates, lpi_timer)
            else (0, self, rate, supported_rates, HW_ATL_CLOCK_TO_US lpi))"

definition aq_fw2x_renegotiate :: "aq_hw_s \<Rightarrow> int \<times> aq_hw_s" where
  "aq_fw2x_renegotiate self =
     (0, reg_modify HW_ATL_FW2X_MPI_CONTROL2_ADDR (\<lambda>v. v OR HW_ATL_FW2X_CTRL_FORCE_RECONNECT) self)"

definition aq_fw2x_set_flow_control :: "aq_hw_s \<Rightarrow> int \<times> aq_hw_s" where
  "aq_fw2x_set_flow_control self =
     (0, reg_modify HW_ATL_FW2X_MPI_CONTROL2_ADDR
           (\<lambda>v. aq_fw2x_upd_flow_control_bits v (flow_control (aq_nic_cfg self))) self)"

definition aq_fw2x_get_flow_control :: "aq_hw_s \<Rightarrow> aq_hw_s \<times> u32" where
  "aq_fw2x_get_flow_control self =
     (case aq_hw_read_reg self HW_ATL_FW2X_MPI_STATE2_ADDR of (mpi_state, self) \<Rightarrow>
        (self, (if mpi_state AND HW_ATL_FW2X_CAP_PAUSE \<noteq> 0 then AQ_NIC_FC_RX else 0) OR
               (if mpi_state AND HW_ATL_FW2X_CAP_ASYM_PAUSE \<noteq> 0 then AQ_NIC_FC_TX else 0)))"

definition loopback_bit :: "u32 \<Rightarrow> bool \<Rightarrow> u32 \<Rightarrow> u32" where
  "loopback_bit b enable v = (if enable then v OR b else v AND NOT b)"

definition aq_fw2x_set_phyloopback :: "aq_hw_s \<Rightarrow> u32 \<Rightarrow> bool \<Rightarrow> int \<times> aq_hw_s" where
  "aq_fw2x_set_phyloopback self mode enable =
     (if mode = AQ_HW_LOOPBACK_PHYINT_SYS
      then (0, reg_modify HW_ATL_FW2X_MPI_CONTROL2_ADDR (loopback_bit HW_ATL_FW2X_CTRL_INT_LOOPBACK enable) self)
      else if mode = AQ_HW_LOOPBACK_PHYEXT_SYS
      then (0, reg_modify HW_ATL_FW2X_MPI_CONTROL2_ADDR (loopback_bit HW_ATL_FW2X_CTRL_EXT_LOOPBACK enable) self)
      else (- EINVAL, self))"

subsection \<open>The two tables of operations\<close>

text \<open>
  A call through \<open>self->aq_fw_ops\<close> is a case distinction over the tables. \<open>rnd\<close> and \<open>stack\<close>
  are the random number and the uninitialised local of the operations that have one; the
  operations missing from the 1.x table (NULL) are not called through it here.
\<close>

fun fw_init :: "u32 \<Rightarrow> fw_table \<Rightarrow> aq_hw_s \<Rightarrow> (int \<times> aq_hw_s) option" where
  "fw_init rnd aq_fw_1x_ops self = hw_atl_utils_mpi_create rnd self"
| "fw_init rnd aq_fw_2x_ops self = Some (aq_fw2x_init self)"

fun fw_deinit :: "u32 list \<Rightarrow> fw_table \<Rightarrow> aq_hw_s \<Rightarrow> int \<times> aq_hw_s" where
  "fw_deinit stack aq_fw_1x_ops self = hw_atl_fw1x_deinit stack self"
| "fw_deinit stack aq_fw_2x_ops self = aq_fw2x_deinit self"

fun fw_get_mac_permanent :: "u32 \<Rightarrow> fw_table \<Rightarrow> aq_hw_s \<Rightarrow> u8 list \<Rightarrow> int \<times> aq_hw_s \<times> u8 list" where
  "fw_get_mac_permanent rnd aq_fw_1x_ops self mac = hw_atl_utils_get_mac_permanent rnd self"
| "fw_get_mac_permanent rnd aq_fw_2x_ops self mac = aq_fw2x_get_mac_permanent rnd self mac"

fun fw_set_link_speed :: "fw_table \<Rightarrow> aq_hw_s \<Rightarrow> u32 \<Rightarrow> int \<times> aq_hw_s" where
  "fw_set_link_speed aq_fw_1x_ops self speed = hw_atl_utils_mpi_set_speed self speed"
| "fw_set_link_speed aq_fw_2x_ops self speed = aq_fw2x_set_link_speed self speed"

fun fw_set_state :: "u32 list \<Rightarrow> fw_table \<Rightarrow> aq_hw_s \<Rightarrow> fw_state \<Rightarrow> int \<times> aq_hw_s" where
  "fw_set_state stack aq_fw_1x_ops self state = hw_atl_utils_mpi_set_state stack self state"
| "fw_set_state stack aq_fw_2x_ops self state = aq_fw2x_set_state self state"

fun fw_update_link_status :: "fw_table \<Rightarrow> aq_hw_s \<Rightarrow> int \<times> aq_hw_s" where
  "fw_update_link_status aq_fw_1x_ops self = hw_atl_utils_mpi_get_link_status self"
| "fw_update_link_status aq_fw_2x_ops self = aq_fw2x_update_link_status self"

fun fw_update_stats :: "u32 list \<Rightarrow> fw_table \<Rightarrow> aq_hw_s \<Rightarrow> int \<times> aq_hw_s" where
  "fw_update_stats stack aq_fw_1x_ops self = hw_atl_utils_update_stats stack self"
| "fw_update_stats stack aq_fw_2x_ops self = aq_fw2x_update_stats stack self"

fun fw_set_power :: "u32 list \<Rightarrow> fw_table \<Rightarrow> aq_hw_s \<Rightarrow> u8 list \<Rightarrow> (int \<times> aq_hw_s) option" where
  "fw_set_power stack aq_fw_1x_ops self mac = aq_fw1x_set_power stack self mac"
| "fw_set_power stack aq_fw_2x_ops self mac = aq_fw2x_set_power self mac"

definition fw_table_for :: "u32 \<Rightarrow> fw_table option" where
  "fw_table_for ver =
     (if hw_atl_utils_ver_match HW_ATL_FW_VER_1X ver = 0 then Some aq_fw_1x_ops
      else if hw_atl_utils_ver_match HW_ATL_FW_VER_2X ver = 0 then Some aq_fw_2x_ops
      else if hw_atl_utils_ver_match HW_ATL_FW_VER_3X ver = 0 then Some aq_fw_2x_ops
      else None)"

definition hw_atl_utils_initfw :: "u32 \<Rightarrow> u32 list \<Rightarrow> aq_hw_s \<Rightarrow> (int \<times> aq_hw_s) option" where
  "hw_atl_utils_initfw rnd stack self =
     (case hw_atl_utils_soft_reset stack self of (err, self) \<Rightarrow>
        if err \<noteq> 0 then Some (err, self)
        else
          let self = hw_atl_utils_get_fw_version (hw_atl_utils_hw_chip_features_init self) in
          case fw_table_for (fw_ver_actual self) of
            None \<Rightarrow> Some (- EOPNOTSUPP, self)
          | Some t \<Rightarrow> fw_init rnd t (self\<lparr>aq_fw_ops := Some t\<rparr>))"

end
