(* ===== verification/B0_Setup.thy ===== *)
theory B0_Setup
  imports Fw2x B0_Rx
begin

section \<open>Setting the B0 chip up and down (hw_atl_b0.c)\<close>

text \<open>
  Reset, initialisation, start and stop of the chip: buffers and schedulers, RSS, offloads,
  receive filters by MAC address, interrupt moderation; and the PTP datapath and clock. A NULL
  \<open>aq_fw_ops\<close> is the result None of the two operations that call through it. NETIF_F_RXCSUM
  is a bit of the kernel's headers and an argument (\<open>rxcsum\<close>); the random number and
  uninitialised locals of the firmware operations are arguments as in theory Firmware.
\<close>

subsection \<open>Constants\<close>

definition HW_ATL_B0_TXBUF_MAX :: u32 where "HW_ATL_B0_TXBUF_MAX = 160"
definition HW_ATL_B0_PTP_TXBUF_SIZE :: u32 where "HW_ATL_B0_PTP_TXBUF_SIZE = 8"
definition HW_ATL_B0_RXBUF_MAX :: u32 where "HW_ATL_B0_RXBUF_MAX = 320"
definition HW_ATL_B0_PTP_RXBUF_SIZE :: u32 where "HW_ATL_B0_PTP_RXBUF_SIZE = 16"
definition HW_ATL_B0_RSS_REDIRECTION_MAX :: nat where "HW_ATL_B0_RSS_REDIRECTION_MAX = 64"
definition HW_ATL_B0_RSS_REDIRECTION_BITS :: nat where "HW_ATL_B0_RSS_REDIRECTION_BITS = 3"
definition HW_ATL_B0_RINGS_MAX :: nat where "HW_ATL_B0_RINGS_MAX = 32"
definition HW_ATL_B0_MAC :: u32 where "HW_ATL_B0_MAC = 0"
definition HW_ATL_B0_MAC_MIN :: u32 where "HW_ATL_B0_MAC_MIN = 1"
definition HW_ATL_B0_MAC_MAX :: u32 where "HW_ATL_B0_MAC_MAX = 33"
definition HW_ATL_B0_LRO_RXD_MAX :: u32 where "HW_ATL_B0_LRO_RXD_MAX = 16"
definition HW_ATL_B0_ERR_INT :: u32 where "HW_ATL_B0_ERR_INT = 8"
definition HW_ATL_B0_INT_MASK :: u32 where "HW_ATL_B0_INT_MASK = 0xFFFFFFFF"
definition L2_FILTER_ACTION_HOST :: u32 where "L2_FILTER_ACTION_HOST = 1"
definition HW_ATL_RX_UDP :: u32 where "HW_ATL_RX_UDP = 1"
definition HW_ATL_INTR_MODER_MAX :: int where "HW_ATL_INTR_MODER_MAX = 0x1FF"
definition HW_ATL_INTR_MODER_MIN :: int where "HW_ATL_INTR_MODER_MIN = 0xFF"
definition AQ_CFG_INTERRUPT_MODERATION_OFF :: u32 where "AQ_CFG_INTERRUPT_MODERATION_OFF = 0"
definition AQ_CFG_INTERRUPT_MODERATION_ON :: u32 where "AQ_CFG_INTERRUPT_MODERATION_ON = 1"
definition AQ_CFG_INTERRUPT_MODERATION_AUTO :: u32 where "AQ_CFG_INTERRUPT_MODERATION_AUTO = 0xFFFF"
definition AQ_CFG_UDP_RSS_DISABLE :: bool where "AQ_CFG_UDP_RSS_DISABLE = False"

text \<open>Interface flags and an Ethernet type of the kernel's user-visible headers.\<close>

definition IFF_BROADCAST :: u32 where "IFF_BROADCAST = 0x2"
definition IFF_PROMISC :: u32 where "IFF_PROMISC = 0x100"
definition IFF_ALLMULTI :: u32 where "IFF_ALLMULTI = 0x200"
definition IFF_MULTICAST :: u32 where "IFF_MULTICAST = 0x1000"
definition ETH_P_1588 :: u16 where "ETH_P_1588 = 0x88F7"

subsection \<open>Flow control and quality of service\<close>

definition hw_atl_b0_set_fc :: "aq_hw_s \<Rightarrow> u32 \<Rightarrow> u32 \<Rightarrow> int \<times> aq_hw_s" where
  "hw_atl_b0_set_fc self fc tc =
     (0, hw_atl_rpb_rx_xoff_en_per_tc_set self (of_bool (fc AND AQ_NIC_FC_RX \<noteq> 0)) tc)"

text \<open>\<open>for (i = n; i--;)\<close>: the indices from \<open>n - 1\<close> down to 0.\<close>

definition downto0 :: "nat \<Rightarrow> u32 list" where
  "downto0 n = rev (map of_nat [0..<n])"

definition hw_atl_b0_hw_qos_set :: "aq_hw_s \<Rightarrow> int \<times> aq_hw_s" where
  "hw_atl_b0_hw_qos_set self =
     (let self = hw_atl_tps_tx_pkt_shed_desc_rate_curr_time_res_set self 0;
          self = hw_atl_tps_tx_pkt_shed_desc_rate_lim_set self 0xA;
          self = hw_atl_tps_tx_pkt_shed_desc_vm_arb_mode_set self 0;
          self = hw_atl_tps_tx_pkt_shed_desc_tc_arb_mode_set self 0;
          self = hw_atl_tps_tx_pkt_shed_data_arb_mode_set self 0;
          tc = 0;
          self = hw_atl_tps_tx_pkt_shed_tc_data_max_credit_set self 0xFFF tc;
          self = hw_atl_tps_tx_pkt_shed_tc_data_weight_set self 0x64 tc;
          self = hw_atl_tps_tx_pkt_shed_desc_tc_max_credit_set self 0x50 tc;
          self = hw_atl_tps_tx_pkt_shed_desc_tc_weight_set self 0x1E tc;
          buff_size = HW_ATL_B0_TXBUF_MAX - HW_ATL_B0_PTP_TXBUF_SIZE;
          self = hw_atl_tpb_tx_pkt_buff_size_per_tc_set self buff_size tc;
          self = hw_atl_tpb_tx_buff_hi_threshold_per_tc_set self
                   ((buff_size * (1024 div 32) * 66) div 100) tc;
          self = hw_atl_tpb_tx_buff_lo_threshold_per_tc_set self
                   ((buff_size * (1024 div 32) * 50) div 100) tc;
          tc = 2;
          self = hw_atl_tpb_tx_pkt_buff_size_per_tc_set self HW_ATL_B0_PTP_TXBUF_SIZE tc;
          tc = 0;
          buff_size = HW_ATL_B0_RXBUF_MAX - HW_ATL_B0_PTP_RXBUF_SIZE;
          self = hw_atl_rpb_rx_pkt_buff_size_per_tc_set self buff_size tc;
          self = hw_atl_rpb_rx_buff_hi_threshold_per_tc_set self
                   ((buff_size * (1024 div 32) * 66) div 100) tc;
          self = hw_atl_rpb_rx_buff_lo_threshold_per_tc_set self
                   ((buff_size * (1024 div 32) * 50) div 100) tc;
          self = snd (hw_atl_b0_set_fc self (flow_control (aq_nic_cfg self)) tc);
          tc = 2;
          self = hw_atl_rpb_rx_pkt_buff_size_per_tc_set self HW_ATL_B0_PTP_RXBUF_SIZE tc;
          self = hw_atl_rpb_rx_xoff_en_per_tc_set self 0 tc;
          self = fold (\<lambda>i_priority self. hw_atl_rpf_rpb_user_priority_tc_map_set self i_priority 0)
                   (downto0 8) self
      in (aq_hw_err_from_flags self, self))"

subsection \<open>RSS\<close>

text \<open>Data, address and write strobe of one table entry; the chip clears the strobe when it is done.\<close>

definition rss_key_write :: "u32 \<Rightarrow> u32 \<Rightarrow> aq_hw_s \<Rightarrow> bool \<times> aq_hw_s" where
  "rss_key_write key_data addr self =
     (let self = hw_atl_rpf_rss_key_wr_data_set self key_data;
          self = hw_atl_rpf_rss_key_addr_set self addr;
          self = hw_atl_rpf_rss_key_wr_en_set self 1
      in AQ_HW_WAIT_FOR (\<lambda>self. case hw_atl_rpf_rss_key_wr_en_get self of (v, self) \<Rightarrow> (v = 0, self)) 10 self)"

fun rss_key_loop :: "aq_rss_parameters \<Rightarrow> nat \<Rightarrow> u32 \<Rightarrow> aq_hw_s \<Rightarrow> int \<times> aq_hw_s" where
  "rss_key_loop rss 0 addr self = (aq_hw_err_from_flags self, self)"
| "rss_key_loop rss (Suc i) addr self =
     (case rss_key_write (if is_rss (aq_nic_cfg self) then swab32 (hash_secret_key rss ! i) else 0)
             addr self of (late, self) \<Rightarrow>
        if late then (- ETIME, self) else rss_key_loop rss i (addr + 1) self)"

definition hw_atl_b0_hw_rss_hash_set :: "aq_hw_s \<Rightarrow> aq_rss_parameters \<Rightarrow> int \<times> aq_hw_s" where
  "hw_atl_b0_hw_rss_hash_set self rss_params = rss_key_loop rss_params 10 0 self"

text \<open>
  The indirection table is packed, three bits an entry, into twelve half-words by 32-bit
  accesses at half-word addresses (the CPU is little-endian). For the last half-word the
  access goes two bytes past \<open>bitary\<close>; the bits or-ed there are 0 as long as an entry is
  below 8.
\<close>

definition rss_pack :: "u8 list \<Rightarrow> u32 \<Rightarrow> nat \<Rightarrow> u16 list \<Rightarrow> u16 list" where
  "rss_pack table nq i bitary =
     (let k = i * 3 div 16;
          v = push_bit (i * 3 mod 16) (ucast (table ! i) mod nq)
      in bitary[k := bitary ! k OR ucast v, Suc k := bitary ! Suc k OR ucast (drop_bit 16 v)])"

definition rss_bitary :: "u8 list \<Rightarrow> u32 \<Rightarrow> u16 list" where
  "rss_bitary table nq =
     fold (rss_pack table nq) (rev [0..<HW_ATL_B0_RSS_REDIRECTION_MAX])
       (replicate (HW_ATL_B0_RSS_REDIRECTION_MAX * HW_ATL_B0_RSS_REDIRECTION_BITS div 16) 0)"

definition rss_redir_write :: "u16 \<Rightarrow> u32 \<Rightarrow> aq_hw_s \<Rightarrow> bool \<times> aq_hw_s" where
  "rss_redir_write d addr self =
     (let self = hw_atl_rpf_rss_redir_tbl_wr_data_set self (ucast d);
          self = hw_atl_rpf_rss_redir_tbl_addr_set self addr;
          self = hw_atl_rpf_rss_redir_wr_en_set self 1
      in AQ_HW_WAIT_FOR (\<lambda>self. case hw_atl_rpf_rss_redir_wr_en_get self of (v, self) \<Rightarrow> (v = 0, self)) 10 self)"

fun rss_redir_loop :: "u16 list \<Rightarrow> nat \<Rightarrow> aq_hw_s \<Rightarrow> int \<times> aq_hw_s" where
  "rss_redir_loop bitary 0 self = (aq_hw_err_from_flags self, self)"
| "rss_redir_loop bitary (Suc i) self =
     (case rss_redir_write (bitary ! i) (of_nat i) self of (late, self) \<Rightarrow>
        if late then (- ETIME, self) else rss_redir_loop bitary i self)"

definition hw_atl_b0_hw_rss_set :: "aq_hw_s \<Rightarrow> aq_rss_parameters \<Rightarrow> int \<times> aq_hw_s" where
  "hw_atl_b0_hw_rss_set self rss_params =
     (let num_queues = max 1 (num_rss_queues (aq_nic_cfg self));
          bitary = rss_bitary (indirection_table rss_params) num_queues
      in rss_redir_loop bitary 12 self)"

subsection \<open>Offloads and the two datapaths\<close>

definition hw_atl_b0_hw_offload_set :: "u64 \<Rightarrow> aq_hw_s \<Rightarrow> aq_nic_cfg_s \<Rightarrow> int \<times> aq_hw_s" where
  "hw_atl_b0_hw_offload_set rxcsum self cfg =
     (let csum = of_bool (features cfg AND rxcsum \<noteq> 0);
          lro = (if is_lro cfg then 0xFFFFFFFF else 0);
          val = (if 8 < HW_ATL_B0_LRO_RXD_MAX then 3
                 else if 4 < HW_ATL_B0_LRO_RXD_MAX then 2
                 else if 2 < HW_ATL_B0_LRO_RXD_MAX then 1 else 0);
          self = hw_atl_tpo_ipv4header_crc_offload_en_set self 1;
          self = hw_atl_tpo_tcp_udp_crc_offload_en_set self 1;
          self = hw_atl_rpo_ipv4header_crc_offload_en_set self csum;
          self = hw_atl_rpo_tcp_udp_crc_offload_en_set self csum;
          self = hw_atl_tdm_large_send_offload_en_set self 0xFFFFFFFF;
          self = hw_atl_rpo_outer_vlan_tag_mode_set self 1;
          self = fold (\<lambda>i self. hw_atl_rpo_lro_max_num_of_descriptors_set self val (of_nat i))
                   [0..<HW_ATL_B0_RINGS_MAX] self;
          self = hw_atl_rpo_lro_time_base_divider_set self 0x61A;
          self = hw_atl_rpo_lro_inactive_interval_set self 0;
          self = hw_atl_rpo_lro_max_coalescing_interval_set self 50;
          self = hw_atl_rpo_lro_qsessions_lim_set self 1;
          self = hw_atl_rpo_lro_total_desc_lim_set self 2;
          self = hw_atl_rpo_lro_patch_optimization_en_set self 1;
          self = hw_atl_rpo_lro_min_pay_of_first_pkt_set self 10;
          self = hw_atl_rpo_lro_pkt_lim_set self 1;
          self = hw_atl_rpo_lro_en_set self lro;
          self = hw_atl_itr_rsc_en_set self lro;
          self = hw_atl_itr_rsc_delay_set self 1
      in (aq_hw_err_from_flags self, self))"

definition hw_atl_b0_hw_init_tx_path :: "aq_hw_s \<Rightarrow> int \<times> aq_hw_s" where
  "hw_atl_b0_hw_init_tx_path self =
     (let self = hw_atl_rpb_tps_tx_tc_mode_set self 1;
          self = hw_atl_thm_lso_tcp_flag_of_first_pkt_set self 0x0FF6;
          self = hw_atl_thm_lso_tcp_flag_of_middle_pkt_set self 0x0FF6;
          self = hw_atl_thm_lso_tcp_flag_of_last_pkt_set self 0x0F7F;
          self = hw_atl_tdm_tx_desc_wr_wb_irq_en_set self 1;
          self = aq_hw_write_reg self 0x00007040
                   (if IS_CHIP_FEATURE HAL_ATLANTIC_UTILS_CHIP_TPO2 self then 0x00010000 else 0);
          self = hw_atl_tdm_tx_dca_en_set self 0;
          self = hw_atl_tdm_tx_dca_mode_set self 0;
          self = hw_atl_tpb_tx_path_scp_ins_en_set self 1
      in (aq_hw_err_from_flags self, self))"

definition uc_filter_reset :: "u32 \<Rightarrow> aq_hw_s \<Rightarrow> aq_hw_s" where
  "uc_filter_reset i self =
     hw_atl_rpfl2unicast_flr_act_set (hw_atl_rpfl2_uc_flr_en_set self (of_bool (i = 0)) i) 1 i"

text \<open>The part under \<open>AQ_CFG_UDP_RSS_DISABLE\<close>, which this configuration leaves out.\<close>

definition udp_rss_disable :: "aq_hw_s \<Rightarrow> aq_hw_s" where
  "udp_rss_disable self =
     (let self = hw_atl_rpf_l3_l4_enf_set self 1 0;
          self = hw_atl_rpf_l4_protf_en_set self 1 0;
          self = hw_atl_rpf_l3_l4_rxqf_en_set self 1 0;
          self = hw_atl_rpf_l3_l4_actf_set self L2_FILTER_ACTION_HOST 0;
          self = hw_atl_rpf_l3_l4_rxqf_set self 0 0
      in hw_atl_rpf_l4_protf_set self HW_ATL_RX_UDP 0)"

definition hw_atl_b0_hw_init_rx_path :: "aq_hw_s \<Rightarrow> int \<times> aq_hw_s" where
  "hw_atl_b0_hw_init_rx_path self =
     (let self = hw_atl_rpb_rpf_rx_traf_class_mode_set self 1;
          self = hw_atl_rpb_rx_flow_ctl_mode_set self 1;
          self = hw_atl_reg_rx_flr_rss_control1set self (if is_rss (aq_nic_cfg self) then 0xB3333333 else 0);
          self = fold uc_filter_reset (downto0 (unat HW_ATL_B0_MAC_MAX)) self;
          self = hw_atl_reg_rx_flr_mcst_flr_msk_set self 0;
          self = hw_atl_reg_rx_flr_mcst_flr_set self 0x00010FFF 0;
          self = hw_atl_rpf_vlan_outer_etht_set self 0x88A8;
          self = hw_atl_rpf_vlan_inner_etht_set self 0x8100;
          self = hw_atl_rpf_vlan_prom_mode_en_set self 1;
          self = hw_atl_rpf_vlan_accept_untagged_packets_set self 1;
          self = hw_atl_rpf_vlan_untagged_act_set self 1;
          self = hw_atl_rdm_rx_desc_wr_wb_irq_en_set self 1;
          control_reg_val = (if IS_CHIP_FEATURE HAL_ATLANTIC_UTILS_CHIP_RPF2 self then 0x000F0000 else 0);
          self = aq_hw_write_reg self 0x00005040 (control_reg_val OR 0x1E);
          self = (if AQ_CFG_UDP_RSS_DISABLE then udp_rss_disable self else self);
          self = hw_atl_rpfl2broadcast_flr_act_set self 1;
          self = hw_atl_rpfl2broadcast_count_threshold_set self (0xFFFF AND (NOT 0 div 256));
          self = hw_atl_rdm_rx_dca_en_set self 0;
          self = hw_atl_rdm_rx_dca_mode_set self 0
      in (aq_hw_err_from_flags self, self))"

subsection \<open>MAC addresses\<close>

definition mac_h :: "u8 list \<Rightarrow> u32" where
  "mac_h mac = push_bit 8 (ucast (mac ! 0)) OR ucast (mac ! 1)"

definition mac_l :: "u8 list \<Rightarrow> u32" where
  "mac_l mac = push_bit 24 (ucast (mac ! 2)) OR push_bit 16 (ucast (mac ! 3)) OR
               push_bit 8 (ucast (mac ! 4)) OR ucast (mac ! 5)"

text \<open>One unicast filter: switched off, its address set, then the state \<open>en\<close>.\<close>

definition uc_filter_set :: "u32 \<Rightarrow> u32 \<Rightarrow> u8 list \<Rightarrow> aq_hw_s \<Rightarrow> aq_hw_s" where
  "uc_filter_set en i mac self =
     (let self = hw_atl_rpfl2_uc_flr_en_set self 0 i;
          self = hw_atl_rpfl2unicast_dest_addresslsw_set self (mac_l mac) i;
          self = hw_atl_rpfl2unicast_dest_addressmsw_set self (mac_h mac) i
      in hw_atl_rpfl2_uc_flr_en_set self en i)"

definition hw_atl_b0_hw_mac_addr_set :: "aq_hw_s \<Rightarrow> u8 list option \<Rightarrow> int \<times> aq_hw_s" where
  "hw_atl_b0_hw_mac_addr_set self mac_addr =
     (case mac_addr of
        None \<Rightarrow> (- EINVAL, self)
      | Some mac \<Rightarrow>
          let self = uc_filter_set 1 HW_ATL_B0_MAC mac self in (aq_hw_err_from_flags self, self))"

definition IS_FILTER_ENABLED :: "u32 \<Rightarrow> u32 \<Rightarrow> u32" where
  "IS_FILTER_ENABLED packet_filter f = (if packet_filter AND f \<noteq> 0 then 1 else 0)"

definition set_mc_list_enabled :: "u16 \<Rightarrow> aq_hw_s \<Rightarrow> aq_hw_s" where
  "set_mc_list_enabled v self = self\<lparr>aq_nic_cfg := (aq_nic_cfg self)\<lparr>is_mc_list_enabled := v\<rparr>\<rparr>"

definition set_mc_list_count :: "u16 \<Rightarrow> aq_hw_s \<Rightarrow> aq_hw_s" where
  "set_mc_list_count v self = self\<lparr>aq_nic_cfg := (aq_nic_cfg self)\<lparr>mc_list_count := v\<rparr>\<rparr>"

definition mc_filter_enable :: "nat \<Rightarrow> aq_hw_s \<Rightarrow> aq_hw_s" where
  "mc_filter_enable i self =
     (let cfg = aq_nic_cfg self
      in hw_atl_rpfl2_uc_flr_en_set self
           (if is_mc_list_enabled cfg \<noteq> 0 \<and> i \<le> unat (mc_list_count cfg) then 1 else 0) (of_nat i))"

definition hw_atl_b0_hw_packet_filter_set :: "aq_hw_s \<Rightarrow> u32 \<Rightarrow> int \<times> aq_hw_s" where
  "hw_atl_b0_hw_packet_filter_set self packet_filter =
     (let self = hw_atl_rpfl2promiscuous_mode_en_set self (IS_FILTER_ENABLED packet_filter IFF_PROMISC);
          self = hw_atl_rpfl2multicast_flr_en_set self (IS_FILTER_ENABLED packet_filter IFF_ALLMULTI) 0;
          self = hw_atl_rpfl2_accept_all_mc_packets_set self (IS_FILTER_ENABLED packet_filter IFF_ALLMULTI);
          self = hw_atl_rpfl2broadcast_en_set self (IS_FILTER_ENABLED packet_filter IFF_BROADCAST);
          self = set_mc_list_enabled (ucast (IS_FILTER_ENABLED packet_filter IFF_MULTICAST)) self;
          self = fold mc_filter_enable [unat HW_ATL_B0_MAC_MIN..<unat HW_ATL_B0_MAC_MAX] self
      in (aq_hw_err_from_flags self, self))"

text \<open>The counter of the loop over the addresses is the configuration's \<open>mc_list_count\<close>.\<close>

fun mc_list_loop :: "u8 list list \<Rightarrow> nat \<Rightarrow> nat \<Rightarrow> aq_hw_s \<Rightarrow> aq_hw_s" where
  "mc_list_loop ar_mac i 0 self = set_mc_list_count (of_nat i) self"
| "mc_list_loop ar_mac i (Suc n) self =
     (let self = set_mc_list_count (of_nat i) self
      in mc_list_loop ar_mac (Suc i) n
           (uc_filter_set (ucast (is_mc_list_enabled (aq_nic_cfg self))) (HW_ATL_B0_MAC_MIN + of_nat i)
              (ar_mac ! i) self))"

definition hw_atl_b0_hw_multicast_list_set :: "aq_hw_s \<Rightarrow> u8 list list \<Rightarrow> u32 \<Rightarrow> int \<times> aq_hw_s" where
  "hw_atl_b0_hw_multicast_list_set self ar_mac count =
     (if count > HW_ATL_B0_MAC_MAX - HW_ATL_B0_MAC_MIN then (- EBADRQC, self)
      else let self = mc_list_loop ar_mac 0 (unat count) self in (aq_hw_err_from_flags self, self))"

subsection \<open>Interrupt moderation\<close>

text \<open>Timer values in the chip's units of 2 us; the table index is the speed index.\<close>

definition hw_atl_b0_timers_table_tx :: "(u32 \<times> u32) list" where
  "hw_atl_b0_timers_table_tx =
     [(0xf, 0xff), (0xf, 0x1ff), (0xf, 0x1ff), (0xf, 0x1ff), (0xf, 0x1ff), (0xf, 0x1ff)]"

definition hw_atl_b0_timers_table_rx :: "(u32 \<times> u32) list" where
  "hw_atl_b0_timers_table_rx =
     [(0x6, 0x38), (0xC, 0x70), (0xC, 0x70), (0x18, 0xE0), (0x30, 0x80), (0x4, 0x50)]"

definition itr_word :: "u32 \<Rightarrow> u32 \<Rightarrow> u32" where
  "itr_word min_timer max_timer = 2 OR push_bit 8 min_timer OR push_bit 16 max_timer"

text \<open>The moderation word for a user's time in us: \<open>int\<close> arithmetic, halved twice and clamped.\<close>

definition itr_user :: "u16 \<Rightarrow> u32" where
  "itr_user us =
     (let max_timer = uint us div 2; min_timer = max_timer div 2
      in itr_word (of_int (min HW_ATL_INTR_MODER_MIN min_timer))
           (of_int (min HW_ATL_INTR_MODER_MAX max_timer)))"

definition moderation_enable :: "u32 \<Rightarrow> aq_hw_s \<Rightarrow> aq_hw_s" where
  "moderation_enable on self =
     (let self = hw_atl_tdm_tx_desc_wr_wb_irq_en_set self (1 - on);
          self = hw_atl_tdm_tdm_intr_moder_en_set self on;
          self = hw_atl_rdm_rx_desc_wr_wb_irq_en_set self (1 - on)
      in hw_atl_rdm_rdm_intr_moder_en_set self on)"

definition auto_moderation :: "aq_hw_s \<Rightarrow> u32 \<times> u32 \<times> aq_hw_s" where
  "auto_moderation self =
     (let speed_index = unat (hw_atl_utils_mbps_2_speed_index (link_mbps self));
          (tx_min, tx_max) = hw_atl_b0_timers_table_tx ! speed_index;
          (rx_min, rx_max) = hw_atl_b0_timers_table_rx ! speed_index
      in (itr_word tx_min tx_max, itr_word rx_min rx_max,
          self\<lparr>aq_nic_cfg := (aq_nic_cfg self)\<lparr>tx_itr := ucast (tx_max * 2), rx_itr := ucast (rx_max * 2)\<rparr>\<rparr>))"

definition itr_values :: "aq_hw_s \<Rightarrow> u32 \<times> u32 \<times> aq_hw_s" where
  "itr_values self =
     (let m = itr (aq_nic_cfg self)
      in if m = AQ_CFG_INTERRUPT_MODERATION_ON
         then let self = moderation_enable 1 self
              in (itr_user (tx_itr (aq_nic_cfg self)), itr_user (rx_itr (aq_nic_cfg self)), self)
         else if m = AQ_CFG_INTERRUPT_MODERATION_AUTO then auto_moderation (moderation_enable 1 self)
         else if m = AQ_CFG_INTERRUPT_MODERATION_OFF then (0, 0, moderation_enable 0 self)
         else (2, 2, self))"

definition hw_atl_b0_hw_interrupt_moderation_set :: "aq_hw_s \<Rightarrow> int \<times> aq_hw_s" where
  "hw_atl_b0_hw_interrupt_moderation_set self =
     (case itr_values self of (itr_tx, itr_rx, self) \<Rightarrow>
      let self = fold (\<lambda>i self. hw_atl_reg_rx_intr_moder_ctrl_set
                           (hw_atl_reg_tx_intr_moder_ctrl_set self itr_tx i) itr_rx i)
                   (downto0 HW_ATL_B0_RINGS_MAX) self
      in (aq_hw_err_from_flags self, self))"

subsection \<open>Reset, initialisation, start and stop\<close>

definition hw_atl_b0_hw_reset :: "u32 list \<Rightarrow> aq_hw_s \<Rightarrow> (int \<times> aq_hw_s) option" where
  "hw_atl_b0_hw_reset stack self =
     (case hw_atl_utils_soft_reset stack self of (err, self) \<Rightarrow>
        if err \<noteq> 0 then Some (err, self)
        else case aq_fw_ops self of
               None \<Rightarrow> None
             | Some t \<Rightarrow>
                 let self = (if t = aq_fw_2x_ops
                             then aq_fw3x_enable_ptp self (aq_utils_obj_test self AQ_HW_PTP_AVAILABLE)
                             else self);
                     self = snd (fw_set_state stack t self MPI_RESET)
                 in Some (aq_hw_err_from_flags self, self))"

definition aq_hw_atl_igcr_table :: "(u32 \<times> u32) list" where
  "aq_hw_atl_igcr_table =
     [(0x20000000, 0x20000000), (0x20000080, 0x20000080),
      (0x20000021, 0x20000025), (0x20000022, 0x20000026)]"

text \<open>The interrupt part of the initialisation.\<close>

definition hw_init_interrupts :: "aq_hw_s \<Rightarrow> aq_hw_s" where
  "hw_init_interrupts self =
     (let cfg = aq_nic_cfg self;
          igcr = aq_hw_atl_igcr_table ! unat (irq_type cfg);
          self = hw_atl_reg_irq_glb_ctl_set self (if vecs cfg > 1 then snd igcr else fst igcr);
          self = hw_atl_itr_irq_auto_masklsw_set self (caps_irq_mask (aq_hw_caps cfg));
          self = hw_atl_reg_gen_irq_map_set self
                   ((push_bit 0x18 HW_ATL_B0_ERR_INT OR push_bit 0x1F 1) OR
                    (push_bit 0x10 HW_ATL_B0_ERR_INT OR push_bit 0x17 1)) 0
      in if link_irq_vec cfg \<noteq> 0
         then hw_atl_reg_gen_irq_map_set self (BIT 7 OR link_irq_vec cfg) 3 else self)"

definition hw_atl_b0_hw_init :: "u64 \<Rightarrow> u32 list \<Rightarrow> aq_hw_s \<Rightarrow> u8 list option \<Rightarrow> (int \<times> aq_hw_s) option" where
  "hw_atl_b0_hw_init rxcsum stack self mac_addr =
     (let cfg = aq_nic_cfg self;
          self = snd (hw_atl_b0_hw_init_tx_path self);
          self = snd (hw_atl_b0_hw_init_rx_path self);
          self = snd (hw_atl_b0_hw_mac_addr_set self mac_addr)
      in case aq_fw_ops self of
           None \<Rightarrow> None
         | Some t \<Rightarrow>
             let self = snd (fw_set_link_speed t self (link_speed_msk cfg));
                 self = snd (fw_set_state stack t self MPI_INIT);
                 self = snd (hw_atl_b0_hw_qos_set self);
                 self = snd (hw_atl_b0_hw_rss_set self (aq_rss cfg));
                 self = snd (hw_atl_b0_hw_rss_hash_set self (aq_rss cfg));
                 self = reg_modify HW_ATL_PCI_REG_CONTROL6_ADR (\<lambda>val. (val AND NOT 0x707) OR 0x404) self;
                 self = aq_hw_write_reg self HW_ATL_TX_DMA_TOTAL_REQ_LIMIT_ADR 24;
                 self = self\<lparr>link_mbps := 0\<rparr>;
                 self = snd (fw_update_stats stack t self);
                 err = aq_hw_err_from_flags self
             in if err < 0 then Some (err, self)
                else Some (err, snd (hw_atl_b0_hw_offload_set rxcsum (hw_init_interrupts self) cfg)))"

definition hw_atl_b0_hw_start :: "aq_hw_s \<Rightarrow> int \<times> aq_hw_s" where
  "hw_atl_b0_hw_start self =
     (let self = hw_atl_tpb_tx_buff_en_set self 1;
          self = hw_atl_rpb_rx_buff_en_set self 1
      in (aq_hw_err_from_flags self, self))"

definition hw_atl_b0_hw_stop :: "aq_hw_s \<Rightarrow> int \<times> aq_hw_s" where
  "hw_atl_b0_hw_stop self =
     (let self = snd (hw_atl_b0_hw_irq_disable self (ucast HW_ATL_B0_INT_MASK));
          self = hw_atl_rdm_rx_dma_desc_cache_init_set self 1
      in (aq_hw_err_from_flags self, self))"

definition hw_atl_b0_tx_tc_mode_get :: "aq_hw_s \<Rightarrow> int \<times> aq_hw_s \<times> u32" where
  "hw_atl_b0_tx_tc_mode_get self =
     (case hw_atl_rpb_tps_tx_tc_mode_get self of (tc_mode, self) \<Rightarrow>
        (aq_hw_err_from_flags self, self, tc_mode))"

definition hw_atl_b0_rx_tc_mode_get :: "aq_hw_s \<Rightarrow> int \<times> aq_hw_s \<times> u32" where
  "hw_atl_b0_rx_tc_mode_get self =
     (case hw_atl_rpb_rpf_rx_traf_class_mode_get self of (tc_mode, self) \<Rightarrow>
        (aq_hw_err_from_flags self, self, tc_mode))"

end
