(* ===== verification/Rss_Table.thy ===== *)
theory Rss_Table
  imports B0_Setup Card_Model
begin

section \<open>The RSS indirection table\<close>

text \<open>
  What \<open>hw_atl_b0_hw_rss_set\<close> leaves in the chip: the packing of 64 three-bit entries into
  twelve half-words, entry by entry, and the write protocol of the table against a chip that
  takes an entry when its write strobe is set and clears the strobe some polls later.
\<close>

subsection \<open>Packing\<close>

definition tab_bit :: "(nat \<Rightarrow> u16) \<Rightarrow> nat \<Rightarrow> bool" where
  "tab_bit tab b = bit (tab (b div 16)) (b mod 16)"

text \<open>The queue the chip reads for slot \<open>i\<close>: bits \<open>3 i\<close> to \<open>3 i + 2\<close> of the table.\<close>

definition rss_slot :: "(nat \<Rightarrow> u16) \<Rightarrow> nat \<Rightarrow> nat" where
  "rss_slot tab i = (\<Sum>j<3. of_bool (tab_bit tab (3 * i + j)) * 2 ^ j)"

lemma length_rss_pack [simp]: "length (rss_pack table n i bs) = length bs"
  by (simp add: rss_pack_def Let_def)

lemma three_bits: "(v :: u32) < 8 \<Longrightarrow> bit v k \<Longrightarrow> k < 3"
proof (rule ccontr)
  assume v: "v < 8" "bit v k" and k: "\<not> k < 3"
  from v(1) have "take_bit 3 v = v"
    by (simp add: word_less_nat_alt word_unat_eq_iff unsigned_take_bit_eq take_bit_nat_eq_self)
  with v(2) have "bit (take_bit 3 v) k" by simp
  with k show False by (simp add: bit_take_bit_iff)
qed

lemma rss_pack_bit:
  assumes i: "i < 64" and l: "length bs = 12" and b: "b < 192"
    and v: "v = ucast (table ! i) mod n" "v < 8"
  shows "tab_bit (nth (rss_pack table n i bs)) b =
           (tab_bit (nth bs) b \<or> 3 * i \<le> b \<and> bit v (b - 3 * i))"
proof -
  let ?k = "i * 3 div 16" and ?s = "i * 3 mod 16" and ?q = "b div 16" and ?r = "b mod 16"
  have q: "?q < 12" using b by simp
  have pos: "3 * i = 16 * ?k + ?s" "b = 16 * ?q + ?r" by simp_all
  have r: "?r < 16" "?s < 16" by simp_all
  have three: "bit v j \<Longrightarrow> j < 3" for j using three_bits v(2) by blast
  have lo: "bit (ucast (push_bit ?s v) :: u16) ?r = (?s \<le> ?r \<and> bit v (?r - ?s))"
    using r less_trans [OF r(1), of 32] by (auto simp: bit_simps)
  have hi: "bit (ucast (drop_bit 16 (push_bit ?s v)) :: u16) ?r = bit v (16 + ?r - ?s)"
    using r three [of "16 + ?r - ?s"] by (auto simp: bit_simps)
  consider "?q = ?k" | "?q = Suc ?k" | "?q \<noteq> ?k" "?q \<noteq> Suc ?k" by blast
  then show ?thesis
  proof cases
    case 1
    then have "3 * i \<le> b \<longleftrightarrow> ?s \<le> ?r" "b - 3 * i = ?r - ?s" using pos by linarith+
    then show ?thesis using 1 q l lo v(1) by (auto simp: tab_bit_def rss_pack_def Let_def bit_or_iff)
  next
    case 2
    then have "3 * i \<le> b" "b - 3 * i = 16 + ?r - ?s" using pos r by linarith+
    then show ?thesis using 2 q l hi v(1) by (auto simp: tab_bit_def rss_pack_def Let_def bit_or_iff)
  next
    case 3
    have "\<not> (3 * i \<le> b \<and> bit v (b - 3 * i))"
    proof
      assume a: "3 * i \<le> b \<and> bit v (b - 3 * i)"
      then have "b < 3 * i + 3" using three [of "b - 3 * i"] by linarith
      with a 3 pos r show False by linarith
    qed
    then show ?thesis using 3 v(1) by (auto simp: tab_bit_def rss_pack_def Let_def)
  qed
qed

lemma rss_pack_fold:
  assumes "\<forall>i\<in>set is. i < 64" "\<And>i. i < 64 \<Longrightarrow> ucast (table ! i) mod n < (8 :: u32)"
    and "length bs = 12" "b < 192"
  shows "tab_bit (nth (fold (rss_pack table n) is bs)) b =
           (tab_bit (nth bs) b \<or> (\<exists>i\<in>set is. 3 * i \<le> b \<and> bit (ucast (table ! i) mod n :: u32) (b - 3 * i)))"
  using assms
proof (induction "is" arbitrary: bs)
  case (Cons i "is")
  then show ?case by (auto simp: rss_pack_bit [OF _ _ _ refl])
qed simp

lemma rss_bitary_bit:
  assumes "\<And>i. i < 64 \<Longrightarrow> ucast (table ! i) mod n < (8 :: u32)" "b < 192"
  shows "tab_bit (nth (rss_bitary table n)) b = bit (ucast (table ! (b div 3)) mod n :: u32) (b mod 3)"
proof -
  let ?v = "\<lambda>i. ucast (table ! i) mod n :: u32"
  have "tab_bit (nth (replicate 12 (0 :: u16))) b = False"
    using assms(2) by (simp add: tab_bit_def)
  then have "tab_bit (nth (rss_bitary table n)) b =
      (\<exists>i<64. 3 * i \<le> b \<and> bit (?v i) (b - 3 * i))"
    using assms(1,2)
    by (simp add: rss_bitary_def HW_ATL_B0_RSS_REDIRECTION_MAX_def HW_ATL_B0_RSS_REDIRECTION_BITS_def
        rss_pack_fold Bex_def)
  also have "\<dots> = bit (?v (b div 3)) (b mod 3)"
  proof
    assume "\<exists>i<64. 3 * i \<le> b \<and> bit (?v i) (b - 3 * i)"
    then obtain i where i: "i < 64" "3 * i \<le> b" "bit (?v i) (b - 3 * i)" by blast
    with three_bits [OF assms(1)] have "b - 3 * i < 3" by blast
    with i(2) have "i = b div 3" "b - 3 * i = b mod 3" by presburger+
    with i(3) show "bit (?v (b div 3)) (b mod 3)" by simp
  next
    assume a: "bit (?v (b div 3)) (b mod 3)"
    have "b - 3 * (b div 3) = b mod 3" by (simp add: minus_mult_div_eq_mod)
    with a assms(2) show "\<exists>i<64. 3 * i \<le> b \<and> bit (?v i) (b - 3 * i)"
      by (intro exI [of _ "b div 3"]) simp
  qed
  finally show ?thesis .
qed

lemma three_bit_sum:
  assumes "(v :: u32) < 8"
  shows "(\<Sum>j<3. of_bool (bit v j) * 2 ^ j) = unat v"
proof -
  have u: "unat v < 8" using assms by (simp add: word_less_nat_alt)
  have b: "bit v j = odd (unat v div 2 ^ j)" for j
    proof -
    have "bit (unat v) j = bit v j" by (simp add: bit_unsigned_iff)
    then show ?thesis by (simp add: bit_iff_odd [of "unat v"])
  qed
  have "(\<Sum>j<3. of_bool (bit v j) * 2 ^ j) =
      of_bool (odd (unat v)) + 2 * of_bool (odd (unat v div 2)) + (4 :: nat) * of_bool (odd (unat v div 4))"
    by (simp add: b numeral_3_eq_3)
  also have "\<dots> = unat v" using u by (simp add: of_bool_def) presburger
  finally show ?thesis .
qed

theorem rss_bitary_slot:
  assumes "\<And>i. i < 64 \<Longrightarrow> ucast (table ! i) mod n < (8 :: u32)" "i < 64"
  shows "rss_slot (nth (rss_bitary table n)) i = unat (ucast (table ! i) mod n :: u32)"
proof -
  let ?v = "ucast (table ! i) mod n :: u32"
  have "tab_bit (nth (rss_bitary table n)) (3 * i + j) = bit ?v j" if "j < 3" for j
    using rss_bitary_bit [OF assms(1), of "3 * i + j"] assms(2) that by simp
  then have "rss_slot (nth (rss_bitary table n)) i = (\<Sum>j<3. of_bool (bit ?v j) * 2 ^ j)"
    unfolding rss_slot_def by (intro sum.cong) auto
  with three_bit_sum [OF assms(1) [OF assms(2)]] show ?thesis by simp
qed

subsection \<open>A chip with an indirection table\<close>

text \<open>
  Register 0x54E0 holds the entry's address (bits 0 to 3) and the write strobe (bit 4), 0x54E4
  the data. After the strobe the entry is written, and the strobe cleared, at the \<open>r_lat + 1\<close>st
  read of 0x54E0.
\<close>

record rt_state =
  r_tab :: "nat \<Rightarrow> u16"
  r_regs :: "u32 \<Rightarrow> u32"
  r_busy :: nat
  r_lat :: nat

definition RT_CTL :: u32 where "RT_CTL = 0x54E0"
definition RT_DATA :: u32 where "RT_DATA = 0x54E4"

definition rt_commit :: "rt_state \<Rightarrow> rt_state" where
  "rt_commit t =
     t\<lparr>r_tab := (r_tab t)(unat (r_regs t RT_CTL AND 0xF) := ucast (r_regs t RT_DATA)),
       r_regs := (r_regs t)(RT_CTL := r_regs t RT_CTL AND NOT 0x10), r_busy := 0\<rparr>"

definition rt_rd :: "rt_state \<Rightarrow> u32 \<Rightarrow> rt_state" where
  "rt_rd t a =
     (if a = RT_CTL
      then (case r_busy t of 0 \<Rightarrow> t | Suc 0 \<Rightarrow> rt_commit t | Suc (Suc b) \<Rightarrow> t\<lparr>r_busy := Suc b\<rparr>)
      else t)"

definition rt_wr :: "rt_state \<Rightarrow> u32 \<Rightarrow> u32 \<Rightarrow> rt_state" where
  "rt_wr t a v =
     (let t = t\<lparr>r_regs := (r_regs t)(a := v)\<rparr>
      in if a = RT_CTL \<and> v AND 0x10 \<noteq> 0 then t\<lparr>r_busy := Suc (r_lat t)\<rparr> else t)"

primcorec rtdev :: "rt_state \<Rightarrow> device" where
  "dev_val (rtdev t) = r_regs t"
| "dev_read (rtdev t) = (\<lambda>a. rtdev (rt_rd t a))"
| "dev_write (rtdev t) = (\<lambda>a v. rtdev (rt_wr t a v))"

lemma rt_rd_other: "a \<noteq> RT_CTL \<Longrightarrow> rt_rd t a = t"
  by (simp add: rt_rd_def)

lemma rt_rd_idle: "r_busy t = 0 \<Longrightarrow> rt_rd t a = t"
  by (simp add: rt_rd_def)

lemma rt_alive: "r_regs (rt_rd t a) 0x10 = r_regs t 0x10" "a \<noteq> 0x10 \<Longrightarrow> r_regs (rt_wr t a v) 0x10 = r_regs t 0x10"
  "rt_rd t 0x10 = t"
  by (auto simp: rt_rd_def rt_wr_def rt_commit_def RT_CTL_def Let_def split: nat.split)

interpretation rtcard: card rtdev r_regs rt_rd rt_wr
  by unfold_locales (simp_all add: rt_alive)

abbreviation rt_at :: "aq_hw_s \<Rightarrow> aq_hw_s \<Rightarrow> rt_state \<Rightarrow> bool" where
  "rt_at \<equiv> card_at rtdev r_regs"

abbreviation rt_poll :: "u32 \<Rightarrow> (u32 \<Rightarrow> bool) \<Rightarrow> nat \<Rightarrow> rt_state \<Rightarrow> bool \<times> rt_state" where
  "rt_poll \<equiv> card_poll r_regs rt_rd"

text \<open>An idle chip, its strobe cleared: what one table write needs and leaves.\<close>

definition rt_idle :: "rt_state \<Rightarrow> bool" where
  "rt_idle t \<longleftrightarrow> r_busy t = 0 \<and> r_regs t RT_CTL AND 0x10 = 0"

lemma rt_field:
  assumes "rt_at s0 self t" "rt_idle t" "fld_msk f \<noteq> NOT 0" "fld_adr f i \<noteq> 0x10"
    and w: "w = (r_regs t (fld_adr f i) AND NOT (fld_msk f)) OR push_bit (fld_shift f) v"
  shows "rt_at s0 (write_field self f i v)
           (if r_regs t (fld_adr f i) = w then t else rt_wr t (fld_adr f i) w)"
proof -
  have "rt_rd t (fld_adr f i) = t" using assms(2) by (simp add: rt_rd_idle rt_idle_def)
  moreover have "rt_wr t (fld_adr f i) w = t" if "r_regs t (fld_adr f i) = w"
    using that assms(2) by (auto simp: rt_wr_def rt_idle_def Let_def)
  ultimately show ?thesis
    using rtcard.card_write_field [OF assms(1,4,3) _ w] by auto
qed

lemma strobe_zero: "drop_bit 4 (x AND 0x10) = 0 \<longleftrightarrow> \<not> bit (x :: u32) 4"
  "x AND 0x10 = 0 \<longleftrightarrow> \<not> bit (x :: u32) 4"
proof -
  have "drop_bit 4 (x AND 0x10) = of_bool (bit x 4)"
    by (simp add: drop_bit_and and_one_eq mod2_eq_if bit_iff_odd_drop_bit)
  then show "drop_bit 4 (x AND 0x10) = 0 \<longleftrightarrow> \<not> bit x 4" by simp
  show "x AND 0x10 = 0 \<longleftrightarrow> \<not> bit x 4"
    using and_exp_eq_0_iff_not_bit [of x 4] by simp
qed

lemma rt_poll_strobe:
  "r_busy t = Suc b \<Longrightarrow> Suc b < n \<Longrightarrow> r_regs t RT_CTL AND 0x10 \<noteq> 0 \<Longrightarrow>
   rt_poll RT_CTL (\<lambda>v. drop_bit 4 (v AND 0x10) = 0) n t = (False, rt_commit t)"
proof (induction b arbitrary: t n)
  case 0
  then obtain k where n: "n = Suc (Suc k)" by (metis One_nat_def Suc_less_eq less_imp_Suc_add add_Suc)
  have rd: "rt_rd t RT_CTL = rt_commit t" using 0 by (simp add: rt_rd_def)
  have busy: "drop_bit 4 (r_regs t RT_CTL AND 0x10) \<noteq> 0"
    using 0(3) by (simp only: strobe_zero not_not)
  have c: "rt_rd (rt_commit t) RT_CTL = rt_commit t" "drop_bit 4 (r_regs (rt_commit t) RT_CTL AND 0x10) = 0"
    by (simp_all only: strobe_zero) (simp_all add: rt_rd_idle rt_commit_def bit_simps)
  show ?case using n rd busy c by (simp add: card_poll_step)
next
  case (Suc b)
  then obtain k where n: "n = Suc k" by (cases n) auto
  have rd: "rt_rd t RT_CTL = t\<lparr>r_busy := Suc b\<rparr>" using Suc.prems by (simp add: rt_rd_def)
  have busy: "drop_bit 4 (r_regs t RT_CTL AND 0x10) \<noteq> 0"
    using Suc.prems(3) by (simp only: strobe_zero not_not)
  have "rt_commit (t\<lparr>r_busy := Suc b\<rparr>) = rt_commit t" by (simp add: rt_commit_def)
  then show ?case
    using Suc.IH [of "t\<lparr>r_busy := Suc b\<rparr>" k] Suc.prems n rd busy by (simp add: card_poll_step)
qed

text \<open>One table entry, whatever the registers held before.\<close>

lemma low_field:
  assumes "take_bit k y = (y :: u32)"
  shows "take_bit k ((x AND NOT (mask k)) OR y) = y"
proof (rule bit_eqI)
  fix n
  have "bit y n \<Longrightarrow> n < k" using assms by (metis bit_take_bit_iff)
  then show "bit (take_bit k ((x AND NOT (mask k)) OR y)) n = bit y n"
    by (auto simp: bit_simps)
qed

lemma ucast_low:
  assumes "take_bit 16 w = (ucast (d :: u16) :: u32)"
  shows "ucast w = d"
proof (rule bit_eqI)
  fix n assume "possible_bit TYPE(16 word) n"
  then have n: "n < 16" by simp
  then have "bit w n = bit (take_bit 16 w) n" by (simp add: bit_take_bit_iff)
  then show "bit (ucast w :: u16) n = bit d n" using assms n by (simp add: bit_simps)
qed

lemma rt_data_step:
  assumes "rt_at s0 self t" "rt_idle t"
  obtains t' where "rt_at s0 (hw_atl_rpf_rss_redir_tbl_wr_data_set self (ucast (d :: u16))) t'"
    "rt_idle t'" "ucast (r_regs t' RT_DATA) = d" "r_tab t' = r_tab t" "r_lat t' = r_lat t"
proof -
  let ?f = HW_ATL_RPF_RSS_REDIR_WR_DATA and ?w = "(r_regs t RT_DATA AND NOT 0xFFFF) OR ucast d"
  have f: "fld_adr ?f 0 = RT_DATA" "fld_msk ?f = 0xFFFF" "fld_shift ?f = 0"
    by (simp_all add: HW_ATL_RPF_RSS_REDIR_WR_DATA_def fld_adr_def RT_DATA_def)
  have at: "rt_at s0 (hw_atl_rpf_rss_redir_tbl_wr_data_set self (ucast d))
      (if r_regs t RT_DATA = ?w then t else rt_wr t RT_DATA ?w)"
    unfolding hw_atl_rpf_rss_redir_tbl_wr_data_set_def
    by (rule rt_field [OF assms, of ?f 0 ?w "ucast d", unfolded f]) (simp_all add: RT_DATA_def)
  have m: "(0xFFFF :: u32) = mask 16" by (simp add: mask_eq_exp_minus_1)
  have "take_bit 16 (ucast d :: u32) = ucast d"
    by (rule bit_eqI) (auto simp: bit_simps dest: bit_imp_possible_bit)
  then have "take_bit 16 ?w = ucast d" unfolding m by (rule low_field)
  then have d: "ucast ?w = d" by (rule ucast_low)
  show ?thesis
    by (rule that [OF at])
      (use assms(2) d in \<open>auto simp: rt_wr_def rt_idle_def RT_CTL_def RT_DATA_def Let_def\<close>)
qed

lemma rt_addr_step:
  assumes "rt_at s0 self t" "rt_idle t" and k: "k < 16"
  obtains t' where "rt_at s0 (hw_atl_rpf_rss_redir_tbl_addr_set self (of_nat k)) t'"
    "rt_idle t'" "unat (r_regs t' RT_CTL AND 0xF) = k" "r_regs t' RT_DATA = r_regs t RT_DATA"
    "r_tab t' = r_tab t" "r_lat t' = r_lat t"
proof -
  let ?f = HW_ATL_RPF_RSS_REDIR_ADDR and ?w = "(r_regs t RT_CTL AND NOT 0xF) OR of_nat k"
  have f: "fld_adr ?f 0 = RT_CTL" "fld_msk ?f = 0xF" "fld_shift ?f = 0"
    by (simp_all add: HW_ATL_RPF_RSS_REDIR_ADDR_def fld_adr_def RT_CTL_def)
  have at: "rt_at s0 (hw_atl_rpf_rss_redir_tbl_addr_set self (of_nat k))
      (if r_regs t RT_CTL = ?w then t else rt_wr t RT_CTL ?w)"
    unfolding hw_atl_rpf_rss_redir_tbl_addr_set_def
    by (rule rt_field [OF assms(1,2), of ?f 0 ?w "of_nat k", unfolded f]) (simp_all add: RT_CTL_def)
  have m: "(0xF :: u32) = mask 4" by (simp add: mask_eq_exp_minus_1)
  have tk: "take_bit 4 (of_nat k :: u32) = of_nat k"
    using k by (simp add: take_bit_of_nat take_bit_nat_eq_self)
  have w: "?w AND 0xF = of_nat k"
    unfolding m take_bit_eq_mask [symmetric] by (rule low_field [OF tk])
  have nk: "\<not> bit (of_nat k :: u32) 4"
  proof
    assume "bit (of_nat k :: u32) 4"
    then have "bit (take_bit 4 (of_nat k) :: u32) 4" using tk by simp
    then show False by (simp add: bit_take_bit_iff)
  qed
  have strobe: "?w AND 0x10 = 0"
    using assms(2) nk by (simp only: rt_idle_def strobe_zero) (simp add: bit_simps)
  show ?thesis
  proof (rule that [OF at])
    show "rt_idle (if r_regs t RT_CTL = ?w then t else rt_wr t RT_CTL ?w)"
      using assms(2) strobe by (simp only: rt_idle_def rt_wr_def Let_def) simp
    have "unat (of_nat k :: u32) = k" using k by (simp add: unsigned_of_nat take_bit_nat_eq_self)
    moreover have "r_regs (if r_regs t RT_CTL = ?w then t else rt_wr t RT_CTL ?w) RT_CTL = ?w"
      by (cases "r_regs t RT_CTL = ?w") (simp_all add: rt_wr_def Let_def)
    ultimately show "unat (r_regs (if r_regs t RT_CTL = ?w then t else rt_wr t RT_CTL ?w) RT_CTL AND 0xF) = k"
      using w by metis
  qed (simp_all add: rt_wr_def Let_def RT_CTL_def RT_DATA_def)
qed

lemma bit_15: "bit (0xF :: u32) n \<longleftrightarrow> n < 4"
  using bit_mask_iff [where ?'a = u32, of 4 n] by (auto simp: mask_eq_exp_minus_1)

lemma bit_16: "bit (0x10 :: u32) n \<longleftrightarrow> n = 4"
  using bit_exp_iff [where ?'a = u32, of 4 n] by auto

lemma strobe_addr: "((x AND NOT 0x10) OR push_bit 4 1) AND 0xF = x AND (0xF :: u32)"
  by (rule bit_eqI, simp only: bit_and_iff bit_or_iff bit_not_iff bit_15 bit_16 bit_push_bit_iff bit_1_iff) auto

lemma rt_strobe_step:
  assumes at: "rt_at s0 self t" and idle: "rt_idle t" and lat: "r_lat t < 9"
    and k: "unat (r_regs t RT_CTL AND 0xF) = k" "k < 16" and d: "ucast (r_regs t RT_DATA) = d"
  obtains self' t' where
    "AQ_HW_WAIT_FOR (\<lambda>self. case hw_atl_rpf_rss_redir_wr_en_get self of (v, self) \<Rightarrow> (v = 0, self)) 10
       (hw_atl_rpf_rss_redir_wr_en_set self 1) = (False, self')"
    "rt_at s0 self' t'" "rt_idle t'" "r_tab t' = (r_tab t)(k := d)" "r_lat t' = r_lat t"
proof -
  let ?f = HW_ATL_RPF_RSS_REDIR_WR_ENI
  let ?w = "(r_regs t RT_CTL AND NOT 0x10) OR push_bit 4 1" and ?t1 = "rt_wr t RT_CTL ((r_regs t RT_CTL AND NOT 0x10) OR push_bit 4 1)"
  have f: "fld_adr ?f 0 = RT_CTL" "fld_msk ?f = 0x10" "fld_shift ?f = 4"
    by (simp_all add: HW_ATL_RPF_RSS_REDIR_WR_ENI_def fld_adr_def RT_CTL_def)
  have on: "bit ?w 4" by (simp add: bit_simps)
  then have on': "?w AND 0x10 \<noteq> 0" by (simp only: strobe_zero not_not)
  have "r_regs t RT_CTL \<noteq> ?w" using idle on' by (metis rt_idle_def)
  then have at1: "rt_at s0 (hw_atl_rpf_rss_redir_wr_en_set self 1) ?t1"
    unfolding hw_atl_rpf_rss_redir_wr_en_set_def
    using rt_field [OF at idle, of ?f 0 ?w 1, unfolded f] by (simp add: RT_CTL_def)
  have t1: "r_busy ?t1 = Suc (r_lat t)" "r_regs ?t1 = (r_regs t)(RT_CTL := ?w)" "r_tab ?t1 = r_tab t" "r_lat ?t1 = r_lat t"
    using on' by (simp_all only: rt_wr_def Let_def) simp_all
  have poll: "rt_poll RT_CTL (\<lambda>v. drop_bit 4 (v AND 0x10) = 0) 10 ?t1 = (False, rt_commit ?t1)"
    using rt_poll_strobe [OF t1(1), of 10] lat on' t1(2) by simp
  have get: "(\<lambda>self. case hw_atl_rpf_rss_redir_wr_en_get self of (v, self) \<Rightarrow> (v = 0, self)) =
      reg_is RT_CTL (\<lambda>v. drop_bit 4 (v AND 0x10) = 0)"
    by (simp add: fun_eq_iff hw_atl_rpf_rss_redir_wr_en_get_def read_field_def aq_hw_read_reg_bit_def f
        reg_is_def split: prod.split)
  obtain s2 where w: "AQ_HW_WAIT_FOR (reg_is RT_CTL (\<lambda>v. drop_bit 4 (v AND 0x10) = 0)) 10
      (hw_atl_rpf_rss_redir_wr_en_set self 1) = (False, s2)" and at2: "rt_at s0 s2 (rt_commit ?t1)"
    using rtcard.card_wait [OF at1, of RT_CTL "\<lambda>v. drop_bit 4 (v AND 0x10) = 0" 10] poll by (metis fst_conv snd_conv)
  have "?w AND 0xF = r_regs t RT_CTL AND 0xF" by (rule strobe_addr)
  then have "r_tab (rt_commit ?t1) = (r_tab t)(k := d)"
    using k d t1 by (simp add: rt_commit_def RT_CTL_def RT_DATA_def)
  moreover have "rt_idle (rt_commit ?t1)"
    by (simp add: rt_idle_def rt_commit_def and.assoc)
  ultimately show ?thesis
    using that [of s2 "rt_commit ?t1"] w at2 t1(4) unfolding get by (simp add: rt_commit_def)
qed

lemma rss_redir_loop_card:
  assumes "rt_at s0 self t" "rt_idle t" "r_lat t < 9" "n \<le> 12"
  shows "\<exists>self' t'. rss_redir_loop bs n self = (aq_hw_err_from_flags s0, self') \<and> rt_at s0 self' t' \<and>
           (\<forall>k. r_tab t' k = (if k < n then bs ! k else r_tab t k))"
  using assms
proof (induction n arbitrary: self t)
  case 0
  then show ?case by (auto simp: aq_hw_err_from_flags_def aq_utils_obj_test_def dest: card_at_sw(3))
next
  case (Suc n)
  obtain t1 where t1: "rt_at s0 (hw_atl_rpf_rss_redir_tbl_wr_data_set self (ucast (bs ! n))) t1"
    "rt_idle t1" "ucast (r_regs t1 RT_DATA) = bs ! n" "r_tab t1 = r_tab t" "r_lat t1 = r_lat t"
    using rt_data_step [OF Suc.prems(1,2)] .
  have n: "n < 16" using Suc.prems(4) by simp
  obtain t2 where t2: "rt_at s0 (hw_atl_rpf_rss_redir_tbl_addr_set
        (hw_atl_rpf_rss_redir_tbl_wr_data_set self (ucast (bs ! n))) (of_nat n)) t2"
    "rt_idle t2" "unat (r_regs t2 RT_CTL AND 0xF) = n" "r_regs t2 RT_DATA = r_regs t1 RT_DATA"
    "r_tab t2 = r_tab t1" "r_lat t2 = r_lat t1"
    using rt_addr_step [OF t1(1,2) n] .
  have lat: "r_lat t2 < 9" using Suc.prems(3) t1(5) t2(6) by simp
  have d: "ucast (r_regs t2 RT_DATA) = bs ! n" using t1(3) t2(4) by simp
  obtain s3 t3 where w: "rss_redir_write (bs ! n) (of_nat n) self = (False, s3)"
    and t3: "rt_at s0 s3 t3" "rt_idle t3" "r_tab t3 = (r_tab t2)(n := bs ! n)" "r_lat t3 = r_lat t2"
    using rt_strobe_step [OF t2(1,2) lat t2(3) n d] by (auto simp: rss_redir_write_def)
  obtain s4 t4 where "rss_redir_loop bs n s3 = (aq_hw_err_from_flags s0, s4)" "rt_at s0 s4 t4"
    "\<forall>k. r_tab t4 k = (if k < n then bs ! k else r_tab t3 k)"
    using Suc.IH [OF t3(1,2)] Suc.prems(4) lat t3(4) by auto
  then show ?case using w t3(3) t2(5) t1(4) by (intro exI [of _ s4] exI [of _ t4]) (auto simp: less_Suc_eq)
qed

end
