(* ===== verification/Link.thy ===== *)
theory Link
  imports B0_Setup
begin

section \<open>The link speed as a value of its own type\<close>

text \<open>
  \<open>aq_link_status.mbps\<close> indexes the interrupt moderation tables, so it must stay one of the
  speeds the driver knows whatever the card's registers say. The lemmas show which operations
  leave it alone, for every device; the step relation collects the operations that run between
  two uses of it.
\<close>

subsection \<open>Operations that do not change the speed\<close>

lemma link_read [simp]: "link_mbps (snd (aq_hw_read_reg self a)) = link_mbps self"
  using same_sw_read_reg [of self a] by (simp add: same_sw_def)

lemma link_write [simp]: "link_mbps (aq_hw_write_reg self a v) = link_mbps self"
  using same_sw_write_reg [of self a v] by (simp add: same_sw_def)

lemma link_write_bit [simp]: "link_mbps (aq_hw_write_reg_bit self a m k v) = link_mbps self"
  using same_sw_write_reg_bit [of self a m k v] by (simp add: same_sw_def)

lemma link_write_field [simp]: "link_mbps (write_field self f i v) = link_mbps self"
  using same_sw_write_reg_bit [of self] by (simp add: same_sw_def write_field_def)

lemma link_read_field [simp]: "link_mbps (snd (read_field self f i)) = link_mbps self"
  using same_sw_read_reg_bit [of self] by (simp add: same_sw_def read_field_def)

lemma wait_keeps:
  "(\<And>s. f (snd (B s)) = f s) \<Longrightarrow> f (snd (AQ_HW_WAIT_FOR B n s)) = f s"
  by (induction n arbitrary: s) (simp_all add: split_beta Let_def)

lemma fold_keeps: "(\<And>x s. f (g x s) = f s) \<Longrightarrow> f (fold g xs s) = f s"
  by (induction xs arbitrary: s) simp_all

lemma link_wait_reg [simp]: "link_mbps (snd (AQ_HW_WAIT_FOR (reg_is a P) n self)) = link_mbps self"
  by (rule wait_keeps) (simp add: reg_is_def split_beta)

lemma link_sem [simp]:
  "link_mbps (snd (hw_atl_reg_glb_cpu_sem_get self k)) = link_mbps self"
  "link_mbps (hw_atl_reg_glb_cpu_sem_set self v k) = link_mbps self"
  "link_mbps (snd (AQ_HW_WAIT_FOR (sem_taken k) n self)) = link_mbps self"
  by (simp_all add: hw_atl_reg_glb_cpu_sem_get_def hw_atl_reg_glb_cpu_sem_set_def)
    (rule wait_keeps, simp add: sem_taken_def split_beta hw_atl_reg_glb_cpu_sem_get_def)

lemma link_mif_done [simp]: "link_mbps (snd (mif_done a self)) = link_mbps self"
  by (simp add: mif_done_def)

lemma link_downld_loop [simp]: "link_mbps (fst (snd (downld_loop n i a err self p))) = link_mbps self"
  by (induction n arbitrary: i a err self p) (simp_all add: split_beta Let_def)

lemma link_downld [simp]: "link_mbps (fst (snd (hw_atl_utils_fw_downld_dwords self a p n))) = link_mbps self"
  by (simp add: hw_atl_utils_fw_downld_dwords_def downld_locked_def split_beta Let_def)

lemma link_set_speed [simp]: "link_mbps (snd (fw_set_link_speed t self v)) = link_mbps self"
  by (cases t) (simp_all add: hw_atl_utils_mpi_set_speed_def aq_fw2x_set_link_speed_def split_beta)

lemma link_mpi_reset_wait [simp]: "link_mbps (snd (mpi_reset_wait self mbox)) = link_mbps self"
proof -
  have "link_mbps (snd (snd (mbox_moved t s))) = link_mbps (snd s)" for t s
    by (simp add: mbox_moved_def hw_atl_utils_mpi_read_mbox_def split_beta)
  then have "link_mbps (snd (snd (AQ_HW_WAIT_FOR (mbox_moved t) n s))) = link_mbps (snd s)" for t n s
    using wait_keeps [where f = "\<lambda>s. link_mbps (snd s)" and B = "mbox_moved t"] by blast
  then show ?thesis
    by (simp add: mpi_reset_wait_def hw_atl_utils_mpi_read_mbox_def split_beta)
qed

lemma link_reg_modify [simp]: "link_mbps (reg_modify a f self) = link_mbps self"
  by (simp add: reg_modify_def split_beta)

lemma link_set_state [simp]: "link_mbps (snd (fw_set_state stack t self st)) = link_mbps self"
  by (cases t) (simp_all add: hw_atl_utils_mpi_set_state_def aq_fw2x_set_state_def split_beta)

lemma link_u64_counter:
  "(\<And>s. link_mbps (snd (lsw s)) = link_mbps s) \<Longrightarrow> (\<And>s. link_mbps (snd (msw s)) = link_mbps s) \<Longrightarrow>
   link_mbps (snd (u64_counter lsw msw self)) = link_mbps self"
  by (simp add: u64_counter_def split_beta)

lemma link_toggle [simp]: "link_mbps (snd (toggle_and_wait b self)) = link_mbps self"
  by (simp add: toggle_and_wait_def split_beta Let_def)

lemma link_update_stats_1x [simp]: "link_mbps (snd (hw_atl_utils_update_stats stack self)) = link_mbps self"
  by (simp add: hw_atl_utils_update_stats_def hw_atl_utils_mpi_read_stats_def split_beta Let_def
      link_u64_counter llh_get_defs)

lemma link_update_stats [simp]: "link_mbps (snd (fw_update_stats stack t self)) = link_mbps self"
  by (cases t) (simp_all add: aq_fw2x_update_stats_def split_beta)

lemma link_writes [simp]:
  "link_mbps (moderation_enable on self) = link_mbps self"
  "link_mbps (hw_atl_reg_rx_intr_moder_ctrl_set self v i) = link_mbps self"
  "link_mbps (hw_atl_reg_tx_intr_moder_ctrl_set self v i) = link_mbps self"
  "link_mbps (hw_init_interrupts self) = link_mbps self"
  by (simp_all add: moderation_enable_def hw_init_interrupts_def Let_def llh_set_defs)

lemma link_offload [simp]: "link_mbps (snd (hw_atl_b0_hw_offload_set rxcsum self cfg)) = link_mbps self"
proof -
  have lro: "link_mbps (fold (\<lambda>i s. hw_atl_rpo_lro_max_num_of_descriptors_set s v (of_nat i)) is s) = link_mbps s"
    for v "is" s
    by (rule fold_keeps) (simp add: llh_set_defs)
  show ?thesis
    unfolding hw_atl_b0_hw_offload_set_def Let_def snd_conv
    by (simp only: llh_set_defs link_write link_write_bit link_write_field lro [unfolded llh_set_defs])
qed

lemma link_moderation [simp]: "link_mbps (snd (hw_atl_b0_hw_interrupt_moderation_set self)) = link_mbps self"
proof -
  have "link_mbps (fold (\<lambda>i s. hw_atl_reg_rx_intr_moder_ctrl_set
      (hw_atl_reg_tx_intr_moder_ctrl_set s tx i) rx i) is s) = link_mbps s" for tx rx "is" s
    by (rule fold_keeps) simp
  moreover have "link_mbps (snd (snd (itr_values self))) = link_mbps self"
    by (simp add: itr_values_def auto_moderation_def Let_def split_beta)
  ultimately show ?thesis
    by (simp add: hw_atl_b0_hw_interrupt_moderation_set_def split_beta Let_def)
qed

subsection \<open>The speeds\<close>

definition link_speeds :: "u32 set" where
  "link_speeds = {0, 100, 1000, 2500, 5000, 10000}"

lemma link_mbps_of_speeds: "link_mbps_of x = Some s \<Longrightarrow> s \<in> link_speeds"
  by (auto simp: link_mbps_of_def link_speeds_def split: if_splits)

lemma update_link_status_speeds:
  assumes "link_mbps self \<in> link_speeds"
  shows "link_mbps (snd (fw_update_link_status t self)) \<in> link_speeds"
proof (cases t)
  case aq_fw_1x_ops
  then show ?thesis
    using assms
    by (auto simp: hw_atl_utils_mpi_get_link_status_def split_beta Let_def
        dest: link_mbps_of_speeds split: option.split) (simp_all add: link_speeds_def)
next
  case aq_fw_2x_ops
  then show ?thesis
    by (simp add: aq_fw2x_update_link_status_def fw2x_mbps_def split_beta Let_def link_speeds_def)
qed

lemma hw_init_speeds:
  "hw_atl_b0_hw_init rxcsum stack self mac = Some (err, self') \<Longrightarrow> link_mbps self' = 0"
  by (auto simp: hw_atl_b0_hw_init_def Let_def split: option.splits if_splits)

text \<open>The operations between a driver's uses of the link speed, as steps on the context.\<close>

inductive link_step :: "aq_hw_s \<Rightarrow> aq_hw_s \<Rightarrow> bool" where
  step_update_link: "fw_update_link_status t self = (err, self') \<Longrightarrow> link_step self self'"
| step_set_speed: "fw_set_link_speed t self v = (err, self') \<Longrightarrow> link_step self self'"
| step_set_state: "fw_set_state stack t self st = (err, self') \<Longrightarrow> link_step self self'"
| step_update_stats: "fw_update_stats stack t self = (err, self') \<Longrightarrow> link_step self self'"
| step_moderation: "hw_atl_b0_hw_interrupt_moderation_set self = (err, self') \<Longrightarrow> link_step self self'"
| step_init: "hw_atl_b0_hw_init rxcsum stack self mac = Some (err, self') \<Longrightarrow> link_step self self'"
| step_read: "aq_hw_read_reg self a = (v, self') \<Longrightarrow> link_step self self'"
| step_write: "link_step self (aq_hw_write_reg self a v)"

inductive_simps link_step_simps: "link_step self self'"

lemma link_step_speeds:
  assumes "link_step self self'" "link_mbps self \<in> link_speeds"
  shows "link_mbps self' \<in> link_speeds"
  using assms
proof (induction rule: link_step.induct)
  case (step_update_link t self err self')
  then show ?case using update_link_status_speeds [of self t] by simp
next
  case (step_init rxcsum stack self mac err self')
  then show ?case by (simp add: hw_init_speeds link_speeds_def)
qed (metis link_set_speed link_set_state link_update_stats link_moderation link_read link_write snd_conv)+

lemma link_steps_speeds:
  "link_step\<^sup>*\<^sup>* self self' \<Longrightarrow> link_mbps self \<in> link_speeds \<Longrightarrow> link_mbps self' \<in> link_speeds"
  by (induction rule: rtranclp_induct) (auto intro: link_step_speeds)

end
