(* ===== verification/Fw_Props.thy ===== *)
theory Fw_Props
  imports Mailbox Rss_Table Link Samples
begin

section \<open>Properties of the firmware interface and the chip's set-up\<close>

subsection \<open>The RSS indirection table\<close>

lemma rss_slot_cong:
  assumes "\<And>k. k < 12 \<Longrightarrow> tab k = tab' k" "i < 64"
  shows "rss_slot tab i = rss_slot tab' i"
proof -
  have "tab_bit tab (3 * i + j) = tab_bit tab' (3 * i + j)" if "j < 3" for j
    using assms that by (simp add: tab_bit_def)
  then show ?thesis by (simp add: rss_slot_def)
qed

lemma mod_queues:
  assumes "1 \<le> nq" "nq \<le> (8 :: u32)"
  shows "(v :: u32) mod nq < 8"
proof -
  have "unat (v mod nq) < unat nq"
    using assms(1) by (simp add: unat_mod word_le_nat_alt)
  with assms(2) show ?thesis by (simp add: word_less_nat_alt word_le_nat_alt)
qed

lemma unat_byte: "unat (ucast (x :: u8) :: u32) = unat x"
proof -
  have "unat x < 2 ^ 32" using unsigned_less [of x, where ?'a = nat] by simp
  then show ?thesis by (simp add: unsigned_ucast_eq take_bit_nat_eq_self)
qed

text \<open>
  C20: After hw_atl_b0_hw_rss_set, on a chip that takes a table entry within nine polls of its
  write strobe, the chip reads for every one of the 64 hash slots the queue number the
  driver's indirection table holds there, modulo the number of RSS queues (at least 1, at most
  8); the result is that of the error flags and the software state is unchanged.
\<close>

theorem rss_table_exact:
  assumes card: "card_at rtdev r_regs self self t" and idle: "rt_idle t" and lat: "r_lat t < 9"
    and nq: "num_rss_queues (aq_nic_cfg self) \<le> 8"
  shows "\<exists>self' t'. hw_atl_b0_hw_rss_set self rss = (aq_hw_err_from_flags self, self') \<and>
           card_at rtdev r_regs self self' t' \<and>
           (\<forall>i<64. rss_slot (r_tab t') i =
              unat (indirection_table rss ! i) mod max 1 (unat (num_rss_queues (aq_nic_cfg self))))"
proof -
  let ?nq = "max 1 (num_rss_queues (aq_nic_cfg self))"
  let ?bs = "rss_bitary (indirection_table rss) ?nq"
  have n: "1 \<le> ?nq" "?nq \<le> 8" using nq by simp_all
  obtain self' t' where r: "rss_redir_loop ?bs 12 self = (aq_hw_err_from_flags self, self')"
    "card_at rtdev r_regs self self' t'" "\<forall>k. r_tab t' k = (if k < 12 then ?bs ! k else r_tab t k)"
    using rss_redir_loop_card [OF card idle lat, of 12 ?bs] by auto
  have "rss_slot (r_tab t') i = unat (indirection_table rss ! i) mod max 1 (unat (num_rss_queues (aq_nic_cfg self)))"
    if i: "i < 64" for i
  proof -
    have "rss_slot (r_tab t') i = rss_slot (nth ?bs) i"
      using r(3) by (intro rss_slot_cong [OF _ i]) auto
    also have "\<dots> = unat (ucast (indirection_table rss ! i) mod ?nq :: u32)"
      by (rule rss_bitary_slot [OF mod_queues [OF n] i])
    also have "\<dots> = unat (indirection_table rss ! i) mod unat ?nq"
      by (simp add: unat_mod unat_byte)
    also have "unat ?nq = max 1 (unat (num_rss_queues (aq_nic_cfg self)))"
      by (simp add: max_def word_le_nat_alt)
    finally show ?thesis .
  qed
  with r(1,2) show ?thesis by (auto simp: hw_atl_b0_hw_rss_set_def Let_def)
qed

text \<open>A chip whose table holds nothing yet, with eight queues configured on it.\<close>

definition rss_hw0 :: aq_hw_s where
  "rss_hw0 = hw0\<lparr>mmio := rtdev \<lparr>r_tab = \<lambda>k. 0, r_regs = \<lambda>a. 0, r_busy = 0, r_lat = 3\<rparr>,
                 aq_nic_cfg := cfg0\<lparr>num_rss_queues := 8\<rparr>\<rparr>"

definition rss0 :: aq_rss_parameters where
  "rss0 = \<lparr>base_cpu_number = 0, indirection_table_size = 64, hash_secret_key_size = 40,
     hash_secret_key = replicate 10 0, indirection_table = map of_nat [0..<64]\<rparr>"

lemma rss_hw0_at:
  "card_at rtdev r_regs rss_hw0 rss_hw0 \<lparr>r_tab = \<lambda>k. 0, r_regs = \<lambda>a. 0, r_busy = 0, r_lat = 3\<rparr>"
  "aq_nic_cfg rss_hw0 = cfg0\<lparr>num_rss_queues := 8\<rparr>" "aq_hw_err_from_flags rss_hw0 = 0"
  by (simp_all add: card_at_def rss_hw0_def alive_adr_def hw0_def cfg0_def caps0_def
      aq_hw_err_from_flags_def aq_utils_obj_test_def)

theorem rss_table_exact_witness:
  "\<exists>self' t'. hw_atl_b0_hw_rss_set rss_hw0 rss0 = (0, self') \<and> card_at rtdev r_regs rss_hw0 self' t' \<and>
     rss_slot (r_tab t') 13 = 5"
proof -
  obtain self' t' where "hw_atl_b0_hw_rss_set rss_hw0 rss0 = (0, self')"
    "card_at rtdev r_regs rss_hw0 self' t'"
    "\<forall>i<64. rss_slot (r_tab t') i =
       unat (indirection_table rss0 ! i) mod max 1 (unat (num_rss_queues (aq_nic_cfg rss_hw0)))"
    using rss_table_exact [OF rss_hw0_at(1), of rss0] rss_hw0_at(2,3)
    by (auto simp: rt_idle_def)
  moreover have "unat (indirection_table rss0 ! 13) = 13"
    by (simp add: rss0_def)
  ultimately show ?thesis using rss_hw0_at(2) by (intro exI [of _ self'] exI [of _ t']) simp
qed

subsection \<open>Words through the memory interface\<close>

text \<open>
  C21: hw_atl_utils_fw_downld_dwords reads memory exactly. If the card gives its semaphore within
  10000 polls and answers a command within 1000, the call returns 0, the first cnt words of the
  buffer are the words of the card's memory from the address on, on either chip revision, the
  rest of the buffer and the software state are unchanged, and the semaphore is free again.
\<close>

theorem fw_download_exact:
  assumes "card_at mif mif_val self self m" "\<not> m_held m" "m_wait m < 10000" "m_lat m < 999"
    and "cnt \<le> length p"
  shows "\<exists>self' m'. hw_atl_utils_fw_downld_dwords self a p cnt =
           (0, self', map (\<lambda>i. m_mem m (a + 4 * of_nat i)) [0..<cnt] @ drop cnt p) \<and>
         card_at mif mif_val self self' m' \<and> m_mem m' = m_mem m \<and> mif_val m' RAM_SEM = 1"
proof -
  obtain self' m' where "hw_atl_utils_fw_downld_dwords self a p cnt =
      (0, self', mem_words (m_mem m) a cnt @ drop cnt p)"
    "card_at mif mif_val self self' m'" "m_mem m' = m_mem m" "\<not> m_held m'" "m_wait m' = 0"
    using downld_card [OF assms] by blast
  then show ?thesis by (auto simp: mem_words_def mif_val_def)
qed

text \<open>A card with word \<open>3 a\<close> at address \<open>a\<close>, slow with its semaphore and its commands.\<close>

definition mif0 :: mif_state where
  "mif0 = \<lparr>m_mem = \<lambda>a. 3 * a, m_regs = \<lambda>a. 0, m_wait = 7, m_held = False, m_addr = 0, m_val = 0,
     m_store = False, m_busy = 0, m_lat = 5\<rparr>"

definition mif_hw0 :: "nat \<Rightarrow> aq_hw_s" where
  "mif_hw0 w = hw0\<lparr>mmio := mif (mif0\<lparr>m_wait := w\<rparr>), mbox_addr := 0x8000\<rparr>"

lemma mif_hw0_at: "card_at mif mif_val (mif_hw0 w) (mif_hw0 w) (mif0\<lparr>m_wait := w\<rparr>)"
  by (simp add: card_at_def mif_hw0_def mif0_def alive_adr_def hw0_def cfg0_def caps0_def mif_val_def mif_adr)

theorem fw_download_exact_witness:
  "\<exists>self' m'. hw_atl_utils_fw_downld_dwords (mif_hw0 7) 100 [1, 2, 9] 2 = (0, self', [300, 312, 9]) \<and>
     mif_val m' RAM_SEM = 1"
  using fw_download_exact [OF mif_hw0_at [of 7], of 2 "[1, 2, 9]" 100]
  by (auto simp: mif0_def numeral_2_eq_2)



text \<open>
  A card that gives its semaphore too late: the driver takes it by force and gives it back, but
  the error code it has set by then keeps the copy loop from reading a single word.
\<close>

theorem forced_semaphore_reads_nothing:
  assumes "fst (AQ_HW_WAIT_FOR (sem_taken HW_ATL_FW_SM_RAM) 10000 self)"
  shows "\<exists>self'. hw_atl_utils_fw_downld_dwords self a p cnt = (- ETIME, self', p)"
proof -
  obtain s1 where w: "AQ_HW_WAIT_FOR (sem_taken HW_ATL_FW_SM_RAM) 10000 self = (True, s1)"
    using assms by (cases "AQ_HW_WAIT_FOR (sem_taken HW_ATL_FW_SM_RAM) 10000 self") auto
  have loop: "downld_loop n i a (- ETIME) s p = (- ETIME, s, p)" for n i a s p
    by (cases n) (simp_all add: ETIME_def)
  show ?thesis
    by (auto simp: hw_atl_utils_fw_downld_dwords_def w downld_locked_def loop Let_def split: prod.splits)
qed

text \<open>
  The temperature of the 2.x firmware: the low half of the word read is phy_temperature, the
  byte above it the cable length, and all of it is scaled. The acknowledgement the function
  waits for is not needed for its success: this card never gives it.
\<close>

theorem get_temp_counts_cable:
  assumes "card_at mif mif_val self self m" "\<not> m_held m" "m_wait m < 10000" "m_lat m < 999"
  shows "\<exists>self'. aq_fw2x_get_temp self t =
           (0, self', uint (m_mem m (mbox_addr self + 80) * 100 div 256))"
proof -
  let ?b = HW_ATL_FW2X_CTRL_TEMPERATURE
  obtain s1 where r: "aq_hw_read_reg self HW_ATL_FW2X_MPI_CONTROL2_ADDR =
      (mif_val m HW_ATL_FW2X_MPI_CONTROL2_ADDR, s1)"
    and at1: "card_at mif mif_val self s1 (mif_rd m HW_ATL_FW2X_MPI_CONTROL2_ADDR)"
    using memcard.card_read [OF assms(1)] .
  let ?v = "mif_val m HW_ATL_FW2X_MPI_CONTROL2_ADDR"
  let ?m2 = "mif_wr (mif_rd m HW_ATL_FW2X_MPI_CONTROL2_ADDR) HW_ATL_FW2X_MPI_CONTROL2_ADDR (?v XOR ?b)"
  have at2: "card_at mif mif_val self (aq_hw_write_reg s1 HW_ATL_FW2X_MPI_CONTROL2_ADDR (?v XOR ?b)) ?m2"
    using memcard.card_write [OF at1] by (simp add: HW_ATL_FW2X_MPI_CONTROL2_ADDR_def)
  have keep: "m_mem (snd (mif_poll HW_ATL_FW2X_MPI_STATE2_ADDR P n k)) = m_mem k \<and>
      m_held (snd (mif_poll HW_ATL_FW2X_MPI_STATE2_ADDR P n k)) = m_held k \<and>
      m_wait (snd (mif_poll HW_ATL_FW2X_MPI_STATE2_ADDR P n k)) = m_wait k \<and>
      m_lat (snd (mif_poll HW_ATL_FW2X_MPI_STATE2_ADDR P n k)) = m_lat k" for P n k
  proof -
    have "mif_rd k HW_ATL_FW2X_MPI_STATE2_ADDR = k"
      by (simp add: mif_rd_def mif_adr HW_ATL_FW2X_MPI_STATE2_ADDR_def)
    then have "snd (mif_poll HW_ATL_FW2X_MPI_STATE2_ADDR P n k) = k"
      by (induction n) (simp_all add: card_poll_0 card_poll_step)
    then show ?thesis by simp
  qed
  obtain late s3 m3 where w: "toggle_and_wait ?b self = (late, s3)" and at3: "card_at mif mif_val self s3 m3"
    and m3: "m_mem m3 = m_mem m" "\<not> m_held m3" "m_wait m3 < 10000" "m_lat m3 < 999"
  proof -
    let ?P = "\<lambda>v. (?v AND ?b) \<noteq> v AND ?b"
    obtain s3 where "AQ_HW_WAIT_FOR (reg_is HW_ATL_FW2X_MPI_STATE2_ADDR ?P) 10000
        (aq_hw_write_reg s1 HW_ATL_FW2X_MPI_CONTROL2_ADDR (?v XOR ?b)) =
        (fst (mif_poll HW_ATL_FW2X_MPI_STATE2_ADDR ?P 10000 ?m2), s3)"
      "card_at mif mif_val self s3 (snd (mif_poll HW_ATL_FW2X_MPI_STATE2_ADDR ?P 10000 ?m2))"
      using memcard.card_wait [OF at2] .
    moreover have "m_mem ?m2 = m_mem m" "m_held ?m2 = m_held m" "m_wait ?m2 = m_wait m" "m_lat ?m2 = m_lat m"
      by (simp_all add: mif_wr_def mif_rd_def mif_adr HW_ATL_FW2X_MPI_CONTROL2_ADDR_def)
    ultimately show ?thesis
      using that [of _ s3] keep assms(2-4) by (simp add: toggle_and_wait_def r Let_def)
  qed
  have mb: "mbox_addr s3 = mbox_addr self" using card_at_sw(1) [OF at3] by (simp add: same_sw_def)
  obtain s4 where "hw_atl_utils_fw_downld_dwords s3 (mbox_addr self + 80) [0] 1 =
      (0, s4, mem_words (m_mem m) (mbox_addr self + 80) 1)"
    using downld_card [OF at3 m3(2-4), of 1 "[0]" "mbox_addr self + 80"] m3(1) by auto
  then show ?thesis by (auto simp: aq_fw2x_get_temp_def w mbox_word_def mb mem_words_def)
qed

subsection \<open>The link speed\<close>

text \<open>
  C23: The link speed the driver keeps is always one it knows. Whatever the card's registers
  answer, after any sequence of link updates, speed and state settings, statistics updates,
  moderation settings, initialisations and register accesses through either firmware table,
  the speed is 0, 100, 1000, 2500, 5000 or 10000, its index lies inside the interrupt
  moderation tables, and for a link that is up the index names the rate bit of that speed.
\<close>

theorem link_speed_type:
  assumes "link_mbps self \<in> link_speeds" "link_step\<^sup>*\<^sup>* self self'"
  defines "ix \<equiv> unat (hw_atl_utils_mbps_2_speed_index (link_mbps self'))"
  shows "link_mbps self' \<in> {0, 100, 1000, 2500, 5000, 10000} \<and>
    ix < length hw_atl_b0_timers_table_tx \<and> ix < length hw_atl_b0_timers_table_rx \<and>
    (link_mbps self' \<noteq> 0 \<longrightarrow> link_mbps_of (BIT ix) = Some (link_mbps self'))"
proof -
  have s: "link_mbps self' \<in> {0, 100, 1000, 2500, 5000, 10000}"
    using link_steps_speeds [OF assms(2,1)] by (simp add: link_speeds_def)
  then show ?thesis
    by (auto simp: ix_def hw_atl_utils_mbps_2_speed_index_def hw_atl_b0_timers_table_tx_def
        hw_atl_b0_timers_table_rx_def link_mbps_of_def BIT_def HAL_ATLANTIC_RATE_10G_def
        HAL_ATLANTIC_RATE_5G_def HAL_ATLANTIC_RATE_5GSR_def HAL_ATLANTIC_RATE_2GS_def
        HAL_ATLANTIC_RATE_1G_def HAL_ATLANTIC_RATE_100M_def)
qed

theorem link_speed_type_witness:
  "link_mbps (snd (fw_update_link_status aq_fw_1x_ops (mif_hw0 0))) \<in> {0, 100, 1000, 2500, 5000, 10000}"
proof -
  obtain err self' where u: "fw_update_link_status aq_fw_1x_ops (mif_hw0 0) = (err, self')" by (metis prod.exhaust)
  have "link_step\<^sup>*\<^sup>* (mif_hw0 0) self'" using step_update_link [OF u] by blast
  moreover have "link_mbps (mif_hw0 0) \<in> link_speeds" by (simp add: mif_hw0_def hw0_def link_speeds_def)
  ultimately show ?thesis using link_speed_type [of "mif_hw0 0" self'] u by simp
qed

end
