(* ===== verification/B0_Ptp.thy ===== *)
theory B0_Ptp
  imports B0_Setup "HOL-Library.Signed_Division"
begin

section \<open>The PTP datapath and clock of the B0 chip (hw_atl_b0.c)\<close>

text \<open>
  Filters that steer PTP packets to their own ring, the hardware clock, its adjustment through
  firmware requests, and the time stamps appended to received packets or written back by the
  chip. The file's global \<open>ptp_clk_offset\<close> is a state argument (\<open>ofs\<close>). \<open>s64\<close> arithmetic
  wraps (the kernel is built with -fno-strict-overflow); a buffer is the list of its bytes.
\<close>

definition PTP_EVENT_MESSAGE_PORT :: u16 where "PTP_EVENT_MESSAGE_PORT = 319"
definition AQ_HW_MAC_COUNTER_HZ :: int where "AQ_HW_MAC_COUNTER_HZ = 312500000"
definition AQ_HW_PHY_COUNTER_HZ :: int where "AQ_HW_PHY_COUNTER_HZ = 160000000"
definition HW_AQ_FW_REQUEST_PTP_GPIO_CTRL :: u32 where "HW_AQ_FW_REQUEST_PTP_GPIO_CTRL = 0x11"
definition HW_AQ_FW_REQUEST_PTP_ADJ_FREQ :: u32 where "HW_AQ_FW_REQUEST_PTP_ADJ_FREQ = 0x12"

subsection \<open>Filters\<close>

definition hw_atl_b0_hw_rx_l3l4_udp_filter_set :: "aq_hw_s \<Rightarrow> u32 \<Rightarrow> u16 \<Rightarrow> u16 \<Rightarrow> int \<times> aq_hw_s" where
  "hw_atl_b0_hw_rx_l3l4_udp_filter_set self num_filter queue udp_port =
     (let self = hw_atl_rpf_l4_dpd_set self (ucast udp_port) num_filter;
          self = hw_atl_rpf_l4_dpf_en_set self 1 num_filter;
          self = hw_atl_rpf_l4_protf_en_set self 1 num_filter;
          self = hw_atl_rpf_l3_l4_rxqf_en_set self 1 num_filter;
          self = hw_atl_rpf_l3_l4_actf_set self 1 num_filter;
          self = hw_atl_rpf_l3_l4_rxqf_set self (ucast queue) num_filter;
          self = hw_atl_rpf_l4_protf_set self 1 num_filter;
          self = hw_atl_rpf_l3_l4_enf_set self 1 num_filter
      in (aq_hw_err_from_flags self, self))"

definition hw_atl_b0_hw_rx_ethtype_filter_set :: "aq_hw_s \<Rightarrow> u32 \<Rightarrow> u16 \<Rightarrow> u16 \<Rightarrow> int \<times> aq_hw_s" where
  "hw_atl_b0_hw_rx_ethtype_filter_set self num_filter queue ethtype =
     (let self = hw_atl_rpf_etht_rx_queue_en_set self 1 num_filter;
          self = hw_atl_rpf_etht_rx_queue_set self (ucast queue) num_filter;
          self = hw_atl_rpf_etht_flr_act_set self 1 num_filter;
          self = hw_atl_rpf_etht_flr_set self (ucast ethtype) num_filter;
          self = hw_atl_rpf_etht_flr_en_set self 1 num_filter
      in (aq_hw_err_from_flags self, self))"

definition hw_atl_b0_ptp_enable_set :: "aq_hw_s \<Rightarrow> u16 \<Rightarrow> int \<times> aq_hw_s" where
  "hw_atl_b0_ptp_enable_set self rx_queue =
     (let self = snd (hw_atl_b0_hw_rx_l3l4_udp_filter_set self 0 rx_queue PTP_EVENT_MESSAGE_PORT);
          self = snd (hw_atl_b0_hw_rx_ethtype_filter_set self 0 rx_queue ETH_P_1588)
      in (aq_hw_err_from_flags self, self))"

definition hw_atl_b0_ptp_disable_set :: "aq_hw_s \<Rightarrow> u16 \<Rightarrow> int \<times> aq_hw_s" where
  "hw_atl_b0_ptp_disable_set self rx_queue =
     (let self = hw_atl_rpf_l3_l4_enf_set self 0 0;
          self = hw_atl_rpf_etht_flr_en_set self 0 0
      in (aq_hw_err_from_flags self, self))"

definition hw_atl_b0_ptp_dpath_enable :: "aq_hw_s \<Rightarrow> u32 \<Rightarrow> u16 \<Rightarrow> int \<times> aq_hw_s" where
  "hw_atl_b0_ptp_dpath_enable self enable rx_queue =
     (if enable \<noteq> 0 then hw_atl_b0_ptp_enable_set self rx_queue
      else hw_atl_b0_ptp_disable_set self rx_queue)"

subsection \<open>The clock\<close>

definition get_ptp_ts_val_u64 :: "aq_hw_s \<Rightarrow> u32 \<Rightarrow> u64 \<times> aq_hw_s" where
  "get_ptp_ts_val_u64 self indx =
     (case hw_atl_pcs_ptp_clock_get self indx of (v, self) \<Rightarrow> (ucast (v AND 0xffff), self))"

definition hw_atl_b0_get_ptp_ts :: "u64 \<Rightarrow> aq_hw_s \<Rightarrow> u64 \<times> aq_hw_s" where
  "hw_atl_b0_get_ptp_ts ofs self =
     (let self = hw_atl_pcs_ptp_clock_read_enable self 1;
          self = hw_atl_pcs_ptp_clock_read_enable self 0 in
      case get_ptp_ts_val_u64 self 0 of (s0, self) \<Rightarrow>
      case get_ptp_ts_val_u64 self 1 of (s1, self) \<Rightarrow>
      case get_ptp_ts_val_u64 self 3 of (n0, self) \<Rightarrow>
      case get_ptp_ts_val_u64 self 4 of (n1, self) \<Rightarrow>
      let ns = (s0 + push_bit 16 s1) * 1000000000 + (n0 + push_bit 16 n1)
      in (ns + ofs, self))"

definition hw_atl_b0_adj_sys_clock :: "u64 \<Rightarrow> u64 \<Rightarrow> int \<times> u64" where
  "hw_atl_b0_adj_sys_clock ofs delta = (0, ofs + delta)"

text \<open>
  The clock period in ns and \<open>2 ^ -32\<close> ns. \<open>freq\<close> is unsigned, so the division that gives
  \<open>base_ns\<close> is an unsigned one; its quotient is below \<open>2 ^ 63\<close>.
\<close>

definition hw_atl_b0_adj_params_get :: "int \<Rightarrow> int \<Rightarrow> u32 \<times> u32" where
  "hw_atl_b0_adj_params_get freq adj =
     (let base_ns = ((adj + 1000000000) * 1000000000) mod 2 ^ 64 div freq;
          nsi = word_of_int (base_ns div 1000000000) :: u32
      in if base_ns \<noteq> uint nsi * 1000000000
         then let divisor = 1000000000000000000 div (base_ns - uint nsi * 1000000000)
              in (nsi, word_of_int (0x100000000 * 1000000000 div divisor))
         else (nsi, 0))"

definition s64 :: "int \<Rightarrow> int" where
  "s64 x = sint (word_of_int x :: u64)"

definition hw_atl_b0_mac_adj_param_calc :: "u32 \<Rightarrow> u32 \<Rightarrow> u32 \<Rightarrow> u32 \<Rightarrow> int \<Rightarrow> int \<Rightarrow> u32 \<times> u32" where
  "hw_atl_b0_mac_adj_param_calc ns_mac fns_mac ns_phy fns_phy phyfreq macfreq =
     (let fns_in_sec_phy = s64 (phyfreq * (uint fns_phy + 0x100000000 * uint ns_phy));
          fns_in_sec_mac = s64 (macfreq * (uint fns_mac + 0x100000000 * uint ns_mac));
          fault_in_sec_phy = s64 (0x100000000 * 1000000000 - fns_in_sec_phy);
          fault_in_sec_mac = s64 (0x100000000 * 1000000000 - fns_in_sec_mac);
          diff_in_mcp_overflow =
            s64 (s64 (fault_in_sec_mac - fault_in_sec_phy) * 0x400000000) sdiv AQ_HW_MAC_COUNTER_HZ;
          adj_fns_val = s64 (uint fns_mac + 0x100000000 * uint ns_mac + diff_in_mcp_overflow);
          mac_ns_adj = word_of_int (adj_fns_val sdiv 0x100000000) :: u32
      in (mac_ns_adj, word_of_int (adj_fns_val - uint mac_ns_adj * 0x100000000)))"

text \<open>
  The request: msg_id and the six words of \<open>struct hw_fw_request_ptp_adj_freq\<close>. The 1.x
  table has no \<open>send_fw_request\<close> (None).
\<close>

definition send_fw_request :: "aq_hw_s \<Rightarrow> u32 list \<Rightarrow> nat \<Rightarrow> (int \<times> aq_hw_s) option" where
  "send_fw_request self fwreq sz =
     (if aq_fw_ops self = Some aq_fw_2x_ops then Some (aq_fw2x_send_fw_request self fwreq sz) else None)"

definition adj_freq_request :: "int \<Rightarrow> u32 list" where
  "adj_freq_request ppb =
     (case hw_atl_b0_adj_params_get AQ_HW_MAC_COUNTER_HZ ppb of (ns_mac, fns_mac) \<Rightarrow>
      case hw_atl_b0_adj_params_get AQ_HW_PHY_COUNTER_HZ ppb of (ns_phy, fns_phy) \<Rightarrow>
      case hw_atl_b0_mac_adj_param_calc ns_mac fns_mac ns_phy fns_phy AQ_HW_PHY_COUNTER_HZ
             AQ_HW_MAC_COUNTER_HZ of (mac_ns_adj, mac_fns_adj) \<Rightarrow>
        [HW_AQ_FW_REQUEST_PTP_ADJ_FREQ, ns_mac, fns_mac, ns_phy, fns_phy, mac_ns_adj, mac_fns_adj])"

definition hw_atl_b0_adj_clock_freq :: "aq_hw_s \<Rightarrow> 32 word \<Rightarrow> (int \<times> aq_hw_s) option" where
  "hw_atl_b0_adj_clock_freq self ppb = send_fw_request self (adj_freq_request (sint ppb)) 28"

definition hw_atl_b0_gpio_pulse :: "u64 \<Rightarrow> aq_hw_s \<Rightarrow> u32 \<Rightarrow> u64 \<Rightarrow> u32 \<Rightarrow> (int \<times> aq_hw_s) option" where
  "hw_atl_b0_gpio_pulse ofs self index start period =
     (let s = start - ofs
      in send_fw_request self
           [HW_AQ_FW_REQUEST_PTP_GPIO_CTRL, index, period, ucast s, ucast (drop_bit 32 s), 0, 0] 20)"

subsection \<open>Time stamps\<close>

definition be_bytes :: "u8 list \<Rightarrow> u64" where
  "be_bytes bs = fold (\<lambda>b v. push_bit 8 v OR ucast b) bs 0"

text \<open>
  A received packet ends with 8 bytes of seconds, 4 of nanoseconds (both big-endian) and a
  stream id. The result is the number of bytes to cut off and the stamp, None if none is read.
\<close>

definition hw_atl_b0_rx_extract_ts :: "u64 \<Rightarrow> u8 list \<Rightarrow> nat \<Rightarrow> u16 \<times> u64 option" where
  "hw_atl_b0_rx_extract_ts ofs p l =
     (if l \<le> 14 then (0, None)
      else
        let ptr = drop (l - 14) p;
            sec = be_bytes (take 8 ptr) AND 0xffffffffffff;
            ns = be_bytes (take 4 (drop 8 ptr))
        in (if be_bytes [p ! 12, p ! 13] = ucast ETH_P_1588 then 12 else 14,
            Some (sec * 1000000000 + ns + ofs)))"

text \<open>The four words of \<open>struct hw_atl_rxd_hwts_wb_s\<close>: sec_hw, ns, sec_lw0, sec_lw1.\<close>

definition hw_atl_b0_extract_hwts :: "u64 \<Rightarrow> u32 \<Rightarrow> u32 \<Rightarrow> u32 \<Rightarrow> u32 \<Rightarrow> u64" where
  "hw_atl_b0_extract_hwts ofs sec_hw ns sec_lw0 sec_lw1 =
     (let sec = ucast (drop_bit 2 sec_lw0 AND 0x3ff);
          sec = sec + push_bit 10 (ucast (drop_bit 16 sec_lw1 AND 0xffff));
          sec = sec + push_bit 26 (ucast (sec_hw AND 0xfff));
          sec = sec + push_bit 38 (ucast (drop_bit 22 sec_hw AND 0x3ff))
      in sec * 1000000000 + ucast ns + ofs)"

end
