(* ===== verification/A0_Setup.thy ===== *)
theory A0_Setup
  imports B0_Setup Filters
begin

section \<open>The A0 chip: set-up (hw_atl_a0.c)\<close>

text \<open>
  The first revision of the chip. It has no table of operations for VLAN or ethertype filters,
  PTP or time stamps, and its datapaths know fewer offloads than B0. Where hw_atl_a0.c repeats
  hw_atl_b0.c word by word (the RSS tables, the unicast filters, the multicast list) the
  definitions of theory B0_Setup are used again.
\<close>

subsection \<open>Constants (hw_atl_a0_internal.h, aq_cfg.h)\<close>

definition HW_ATL_A0_TXBUF_MAX :: u32 where "HW_ATL_A0_TXBUF_MAX = 160"
definition HW_ATL_A0_RXBUF_MAX :: u32 where "HW_ATL_A0_RXBUF_MAX = 320"
definition HW_ATL_A0_RINGS_MAX :: nat where "HW_ATL_A0_RINGS_MAX = 32"
definition HW_ATL_A0_MAC :: u32 where "HW_ATL_A0_MAC = 0"
definition HW_ATL_A0_MAC_MIN :: u32 where "HW_ATL_A0_MAC_MIN = 1"
definition HW_ATL_A0_MAC_MAX :: u32 where "HW_ATL_A0_MAC_MAX = 33"
definition HW_ATL_A0_ERR_INT :: nat where "HW_ATL_A0_ERR_INT = 8"
definition HW_ATL_A0_INT_MASK :: u32 where "HW_ATL_A0_INT_MASK = 0xFFFFFFFF"
definition AQ_CFG_IRQ_MASK :: u32 where "AQ_CFG_IRQ_MASK = 0x3FF"

definition HW_ATL_FLUSH :: "aq_hw_s \<Rightarrow> aq_hw_s" where
  "HW_ATL_FLUSH self = snd (aq_hw_read_reg self 0x10)"

subsection \<open>Reset\<close>

definition a0_soft_reset_done :: "aq_hw_s \<Rightarrow> bool \<times> aq_hw_s" where
  "a0_soft_reset_done self = (case hw_atl_glb_soft_res_get self of (v, self) \<Rightarrow> (v = 0, self))"

definition a0_irq_reset_done :: "aq_hw_s \<Rightarrow> bool \<times> aq_hw_s" where
  "a0_irq_reset_done self = (case hw_atl_itr_res_irq_get self of (v, self) \<Rightarrow> (v = 0, self))"

definition hw_atl_a0_hw_reset :: "u32 list \<Rightarrow> aq_hw_s \<Rightarrow> (int \<times> aq_hw_s) option" where
  "hw_atl_a0_hw_reset stack self =
     (let self = hw_atl_glb_glb_reg_res_dis_set self 1;
          self = hw_atl_pci_pci_reg_res_dis_set self 0;
          self = hw_atl_rx_rx_reg_res_dis_set self 0;
          self = hw_atl_tx_tx_reg_res_dis_set self 0;
          self = HW_ATL_FLUSH self;
          self = hw_atl_glb_soft_res_set self 1
      in case AQ_HW_WAIT_FOR a0_soft_reset_done 10 self of (late, self) \<Rightarrow>
         if late then Some (- ETIME, self)
         else
           let self = hw_atl_itr_irq_reg_res_dis_set self 0;
               self = hw_atl_itr_res_irq_set self 1
           in case AQ_HW_WAIT_FOR a0_irq_reset_done 10 self of (late, self) \<Rightarrow>
              if late then Some (- ETIME, self)
              else case aq_fw_ops self of
                     None \<Rightarrow> None
                   | Some t \<Rightarrow> let self = snd (fw_set_state stack t self MPI_RESET)
                                in Some (aq_hw_err_from_flags self, self))"

subsection \<open>Quality of service and RSS\<close>

definition hw_atl_a0_hw_qos_set :: "aq_hw_s \<Rightarrow> int \<times> aq_hw_s" where
  "hw_atl_a0_hw_qos_set self =
     (let self = hw_atl_tps_tx_pkt_shed_desc_rate_curr_time_res_set self 0;
          self = hw_atl_tps_tx_pkt_shed_desc_rate_lim_set self 0xA;
          self = hw_atl_tps_tx_pkt_shed_desc_vm_arb_mode_set self 0;
          self = hw_atl_tps_tx_pkt_shed_desc_tc_arb_mode_set self 0;
          self = hw_atl_tps_tx_pkt_shed_data_arb_mode_set self 0;
          self = hw_atl_tps_tx_pkt_shed_tc_data_max_credit_set self 0xFFF 0;
          self = hw_atl_tps_tx_pkt_shed_tc_data_weight_set self 0x64 0;
          self = hw_atl_tps_tx_pkt_shed_desc_tc_max_credit_set self 0x50 0;
          self = hw_atl_tps_tx_pkt_shed_desc_tc_weight_set self 0x1E 0;
          tc = 0;
          buff_size = HW_ATL_A0_TXBUF_MAX;
          self = hw_atl_tpb_tx_pkt_buff_size_per_tc_set self buff_size tc;
          self = hw_atl_tpb_tx_buff_hi_threshold_per_tc_set self
                   ((buff_size * (1024 div 32) * 66) div 100) tc;
          self = hw_atl_tpb_tx_buff_lo_threshold_per_tc_set self
                   ((buff_size * (1024 div 32) * 50) div 100) tc;
          is_rx_flow_control = (AQ_NIC_FC_RX AND flow_control (aq_nic_cfg self) \<noteq> 0);
          buff_size = HW_ATL_A0_RXBUF_MAX;
          self = hw_atl_rpb_rx_pkt_buff_size_per_tc_set self buff_size tc;
          self = hw_atl_rpb_rx_buff_hi_threshold_per_tc_set self
                   ((buff_size * (1024 div 32) * 66) div 100) tc;
          self = hw_atl_rpb_rx_buff_lo_threshold_per_tc_set self
                   ((buff_size * (1024 div 32) * 50) div 100) tc;
          self = hw_atl_rpb_rx_xoff_en_per_tc_set self (if is_rx_flow_control then 1 else 0) tc;
          self = fold (\<lambda>i_priority self. hw_atl_rpf_rpb_user_priority_tc_map_set self i_priority 0)
                   (downto0 8) self
      in (aq_hw_err_from_flags self, self))"

definition hw_atl_a0_hw_rss_hash_set :: "aq_hw_s \<Rightarrow> aq_rss_parameters \<Rightarrow> int \<times> aq_hw_s" where
  "hw_atl_a0_hw_rss_hash_set self rss_params = rss_key_loop rss_params 10 0 self"

definition hw_atl_a0_hw_rss_set :: "aq_hw_s \<Rightarrow> aq_rss_parameters \<Rightarrow> int \<times> aq_hw_s" where
  "hw_atl_a0_hw_rss_set self rss_params =
     (let num_queues = max 1 (num_rss_queues (aq_nic_cfg self));
          bitary = rss_bitary (indirection_table rss_params) num_queues
      in rss_redir_loop bitary 12 self)"

subsection \<open>Offloads and the two datapaths\<close>

definition hw_atl_a0_hw_offload_set :: "aq_hw_s \<Rightarrow> aq_nic_cfg_s \<Rightarrow> int \<times> aq_hw_s" where
  "hw_atl_a0_hw_offload_set self cfg =
     (let self = hw_atl_tpo_ipv4header_crc_offload_en_set self 1;
          self = hw_atl_tpo_tcp_udp_crc_offload_en_set self 1;
          self = hw_atl_rpo_ipv4header_crc_offload_en_set self 1;
          self = hw_atl_rpo_tcp_udp_crc_offload_en_set self 1;
          self = hw_atl_tdm_large_send_offload_en_set self 0xFFFFFFFF
      in (aq_hw_err_from_flags self, self))"

definition hw_atl_a0_hw_init_tx_path :: "aq_hw_s \<Rightarrow> int \<times> aq_hw_s" where
  "hw_atl_a0_hw_init_tx_path self =
     (let self = hw_atl_thm_lso_tcp_flag_of_first_pkt_set self 0x0FF6;
          self = hw_atl_thm_lso_tcp_flag_of_middle_pkt_set self 0x0FF6;
          self = hw_atl_thm_lso_tcp_flag_of_last_pkt_set self 0x0F7F;
          self = hw_atl_tdm_tx_desc_wr_wb_irq_en_set self 1;
          self = aq_hw_write_reg self 0x00007040
                   (if IS_CHIP_FEATURE HAL_ATLANTIC_UTILS_CHIP_TPO2 self then 0x00010000 else 0);
          self = hw_atl_tdm_tx_dca_en_set self 0;
          self = hw_atl_tdm_tx_dca_mode_set self 0;
          self = hw_atl_tpb_tx_path_scp_ins_en_set self 1
      in (aq_hw_err_from_flags self, self))"

definition hw_atl_a0_hw_init_rx_path :: "aq_hw_s \<Rightarrow> int \<times> aq_hw_s" where
  "hw_atl_a0_hw_init_rx_path self =
     (let self = hw_atl_rpb_rpf_rx_traf_class_mode_set self 1;
          self = hw_atl_rpb_rx_flow_ctl_mode_set self 1;
          self = hw_atl_reg_rx_flr_rss_control1set self (if is_rss (aq_nic_cfg self) then 0xB3333333 else 0);
          self = fold uc_filter_reset (downto0 (unat HW_ATL_A0_MAC_MAX)) self;
          self = hw_atl_reg_rx_flr_mcst_flr_msk_set self 0;
          self = hw_atl_reg_rx_flr_mcst_flr_set self 0x00010FFF 0;
          self = hw_atl_rpf_vlan_outer_etht_set self 0x88A8;
          self = hw_atl_rpf_vlan_inner_etht_set self 0x8100;
          self = hw_atl_rpf_vlan_prom_mode_en_set self 1;
          self = hw_atl_rdm_rx_desc_wr_wb_irq_en_set self 1;
          self = hw_atl_rpfl2broadcast_flr_act_set self 1;
          self = hw_atl_rpfl2broadcast_count_threshold_set self (0xFFFF AND (NOT 0 div 256));
          self = hw_atl_rdm_rx_dca_en_set self 0;
          self = hw_atl_rdm_rx_dca_mode_set self 0
      in (aq_hw_err_from_flags self, self))"

subsection \<open>MAC addresses\<close>

definition hw_atl_a0_hw_mac_addr_set :: "aq_hw_s \<Rightarrow> u8 list option \<Rightarrow> int \<times> aq_hw_s" where
  "hw_atl_a0_hw_mac_addr_set self mac_addr =
     (case mac_addr of
        None \<Rightarrow> (- EINVAL, self)
      | Some mac \<Rightarrow>
          let self = uc_filter_set 1 HW_ATL_A0_MAC mac self in (aq_hw_err_from_flags self, self))"

definition hw_atl_a0_hw_packet_filter_set :: "aq_hw_s \<Rightarrow> u32 \<Rightarrow> int \<times> aq_hw_s" where
  "hw_atl_a0_hw_packet_filter_set self packet_filter =
     (let self = hw_atl_rpfl2promiscuous_mode_en_set self (IS_FILTER_ENABLED packet_filter IFF_PROMISC);
          self = hw_atl_rpfl2multicast_flr_en_set self (IS_FILTER_ENABLED packet_filter IFF_MULTICAST) 0;
          self = hw_atl_rpfl2broadcast_en_set self (IS_FILTER_ENABLED packet_filter IFF_BROADCAST);
          self = set_mc_list_enabled (ucast (IS_FILTER_ENABLED packet_filter IFF_MULTICAST)) self;
          self = fold mc_filter_enable [unat HW_ATL_A0_MAC_MIN..<unat HW_ATL_A0_MAC_MAX] self
      in (aq_hw_err_from_flags self, self))"

text \<open>The error of a list that is too long is positive here.\<close>

definition hw_atl_a0_hw_multicast_list_set :: "aq_hw_s \<Rightarrow> u8 list list \<Rightarrow> u32 \<Rightarrow> int \<times> aq_hw_s" where
  "hw_atl_a0_hw_multicast_list_set self ar_mac count =
     (if count > HW_ATL_A0_MAC_MAX - HW_ATL_A0_MAC_MIN then (EBADRQC, self)
      else let self = mc_list_loop ar_mac 0 (unat count) self in (aq_hw_err_from_flags self, self))"

subsection \<open>Interrupts\<close>

definition hw_atl_a0_hw_irq_enable :: "aq_hw_s \<Rightarrow> u64 \<Rightarrow> int \<times> aq_hw_s" where
  "hw_atl_a0_hw_irq_enable self msk =
     (let self = hw_atl_itr_irq_msk_setlsw_set self (LODWORD msk OR push_bit HW_ATL_A0_ERR_INT 1)
      in (aq_hw_err_from_flags self, self))"

definition hw_atl_a0_hw_irq_disable :: "aq_hw_s \<Rightarrow> u64 \<Rightarrow> int \<times> aq_hw_s" where
  "hw_atl_a0_hw_irq_disable self msk =
     (let self = hw_atl_itr_irq_msk_clearlsw_set self (LODWORD msk);
          self = hw_atl_itr_irq_status_clearlsw_set self (LODWORD msk)
      in case hw_atl_reg_gen_irq_status_get self of (v, self) \<Rightarrow>
         let self = (if push_bit 16 1 AND v \<noteq> 0 then self\<lparr>dpc := dpc self + 1\<rparr> else self)
         in (aq_hw_err_from_flags self, self))"

definition hw_atl_a0_hw_irq_read :: "aq_hw_s \<Rightarrow> int \<times> u64 \<times> aq_hw_s" where
  "hw_atl_a0_hw_irq_read self =
     (case hw_atl_itr_irq_statuslsw_get self of (irqs, self) \<Rightarrow>
        (aq_hw_err_from_flags self, ucast irqs, self))"

definition hw_timers_tbl :: "u32 list" where
  "hw_timers_tbl = [0x01C, 0x039, 0x039, 0x073, 0x120, 0x1FF]"

text \<open>The throttling word of automatic moderation: none while fewer interrupts than the link speed were counted.\<close>

definition a0_itr_auto :: "aq_hw_s \<Rightarrow> u32 \<times> aq_hw_s" where
  "a0_itr_auto self =
     (case aq_hw_read_reg self 0x00002A00 of (v, self) \<Rightarrow>
        let n = 0xFFFF AND v;
            itr_rx = (if n < link_mbps self then 0
                      else let speed_index = unat (hw_atl_utils_mbps_2_speed_index (link_mbps self))
                           in 0x80000000 OR push_bit 0x10 (hw_timers_tbl ! speed_index));
            self = aq_hw_write_reg self 0x00002A00 0x40000000;
            self = aq_hw_write_reg self 0x00002A00 0x8D000000
        in (itr_rx, self))"

definition a0_itr_value :: "aq_hw_s \<Rightarrow> u32 \<times> aq_hw_s" where
  "a0_itr_value self =
     (let m = itr (aq_nic_cfg self)
      in if m \<noteq> 0 then
           if m \<noteq> AQ_CFG_INTERRUPT_MODERATION_AUTO then
             let t = drop_bit 1 m;
                 t = min AQ_CFG_IRQ_MASK t
             in (0x80000000 OR push_bit 0x10 t, self)
           else a0_itr_auto self
         else (0, self))"

definition hw_atl_a0_hw_interrupt_moderation_set :: "aq_hw_s \<Rightarrow> int \<times> aq_hw_s" where
  "hw_atl_a0_hw_interrupt_moderation_set self =
     (case a0_itr_value self of (itr_rx, self) \<Rightarrow>
        let self = fold (\<lambda>i self. hw_atl_reg_irq_thr_set self itr_rx i) (downto0 HW_ATL_A0_RINGS_MAX) self
        in (aq_hw_err_from_flags self, self))"

subsection \<open>Initialisation, start and stop\<close>

definition a0_init_interrupts :: "aq_hw_s \<Rightarrow> aq_hw_s" where
  "a0_init_interrupts self =
     (let cfg = aq_nic_cfg self;
          igcr = aq_hw_atl_igcr_table ! unat (irq_type cfg);
          e = of_nat HW_ATL_A0_ERR_INT;
          self = hw_atl_reg_irq_glb_ctl_set self (if vecs cfg > 1 then snd igcr else fst igcr);
          self = hw_atl_itr_irq_auto_masklsw_set self (caps_irq_mask (aq_hw_caps cfg))
      in hw_atl_reg_gen_irq_map_set self
           ((push_bit 0x18 e OR push_bit 0x1F 1) OR (push_bit 0x10 e OR push_bit 0x17 1) OR
            (push_bit 8 e OR push_bit 0xF 1) OR (e OR push_bit 0x7 1)) 0)"

definition hw_atl_a0_hw_init :: "u32 list \<Rightarrow> aq_hw_s \<Rightarrow> u8 list option \<Rightarrow> (int \<times> aq_hw_s) option" where
  "hw_atl_a0_hw_init stack self mac_addr =
     (let cfg = aq_nic_cfg self;
          self = snd (hw_atl_a0_hw_init_tx_path self);
          self = snd (hw_atl_a0_hw_init_rx_path self);
          self = snd (hw_atl_a0_hw_mac_addr_set self mac_addr)
      in case aq_fw_ops self of
           None \<Rightarrow> None
         | Some t \<Rightarrow>
             let self = snd (fw_set_link_speed t self (link_speed_msk cfg));
                 self = snd (fw_set_state stack t self MPI_INIT);
                 self = hw_atl_reg_tx_dma_debug_ctl_set self 0x800000b8;
                 self = hw_atl_reg_tx_dma_debug_ctl_set self 0x000000b8;
                 self = snd (hw_atl_a0_hw_qos_set self);
                 self = snd (hw_atl_a0_hw_rss_set self (aq_rss cfg));
                 self = snd (hw_atl_a0_hw_rss_hash_set self (aq_rss cfg));
                 self = self\<lparr>link_mbps := 0\<rparr>;
                 self = snd (fw_update_stats stack t self);
                 err = aq_hw_err_from_flags self
             in if err < 0 then Some (err, self)
                else Some (err, snd (hw_atl_a0_hw_offload_set (a0_init_interrupts self) cfg)))"

definition hw_atl_a0_hw_start :: "aq_hw_s \<Rightarrow> int \<times> aq_hw_s" where
  "hw_atl_a0_hw_start self =
     (let self = hw_atl_tpb_tx_buff_en_set self 1;
          self = hw_atl_rpb_rx_buff_en_set self 1
      in (aq_hw_err_from_flags self, self))"

definition hw_atl_a0_hw_stop :: "aq_hw_s \<Rightarrow> int \<times> aq_hw_s" where
  "hw_atl_a0_hw_stop self =
     (let self = snd (hw_atl_a0_hw_irq_disable self (ucast HW_ATL_A0_INT_MASK))
      in (aq_hw_err_from_flags self, self))"

subsection \<open>Layer 3 and 4 filters\<close>

definition hw_atl_a0_hw_fl3l4_clear :: "aq_hw_s \<Rightarrow> aq_rx_filter_l3l4_s \<Rightarrow> int \<times> aq_hw_s" where
  "hw_atl_a0_hw_fl3l4_clear self data =
     (let loc = l3_location data;
          self = (if \<not> l3_is_ipv6 data then
                  let self = hw_atl_rpfl3l4_cmd_clear self loc;
                      self = hw_atl_rpf_l4_spd_set self 0 (ucast loc);
                      self = hw_atl_rpf_l4_dpd_set self 0 (ucast loc);
                      self = hw_atl_rpfl3l4_ipv4_src_addr_clear self loc
                  in hw_atl_rpfl3l4_ipv4_dest_addr_clear self loc
                else
                  let self = foldl (\<lambda>self i.
                        let self = hw_atl_rpfl3l4_cmd_clear self (loc + of_nat i);
                            self = hw_atl_rpf_l4_spd_set self 0 (ucast loc + of_nat i)
                        in hw_atl_rpf_l4_dpd_set self 0 (ucast loc + of_nat i))
                      self [0..<HW_ATL_RX_CNT_REG_ADDR_IPV6];
                      self = hw_atl_rpfl3l4_ipv6_src_addr_clear self loc
                  in hw_atl_rpfl3l4_ipv6_dest_addr_clear self loc)
      in (aq_hw_err_from_flags self, self))"

definition hw_atl_a0_hw_fl3l4_set :: "aq_hw_s \<Rightarrow> aq_rx_filter_l3l4_s \<Rightarrow> int \<times> aq_hw_s" where
  "hw_atl_a0_hw_fl3l4_set self data =
     (let loc = l3_location data;
          self = snd (hw_atl_a0_hw_fl3l4_clear self data);
          self = (if l3_cmd data \<noteq> 0 then
                  if \<not> l3_is_ipv6 data then
                    hw_atl_rpfl3l4_ipv4_src_addr_set
                      (hw_atl_rpfl3l4_ipv4_dest_addr_set self loc (ip_dst data ! 0))
                      loc (ip_src data ! 0)
                  else
                    hw_atl_rpfl3l4_ipv6_src_addr_set
                      (hw_atl_rpfl3l4_ipv6_dest_addr_set self loc (ip_dst data))
                      loc (ip_src data)
                else self);
          self = hw_atl_rpf_l4_dpd_set self (ucast (p_dst data)) (ucast loc);
          self = hw_atl_rpf_l4_spd_set self (ucast (p_src data)) (ucast loc);
          self = hw_atl_rpfl3l4_cmd_set self loc (l3_cmd data)
      in (aq_hw_err_from_flags self, self))"

definition hw_atl_a0_hw_fl3l4_ctrl :: "aq_hw_s \<Rightarrow> u32 \<Rightarrow> bool \<Rightarrow> int \<times> aq_hw_s" where
  "hw_atl_a0_hw_fl3l4_ctrl self loc enable =
     (let self = hw_atl_rpf_l3_l4_enf_set self (if enable then 1 else 0) loc
      in (aq_hw_err_from_flags self, self))"

end
