(* ===== verification/A0_Ring.thy ===== *)
theory A0_Ring
  imports A0_Setup
begin

section \<open>The A0 chip: rings (hw_atl_a0.c)\<close>

text \<open>
  Transmit and receive rings of the A0 chip. It knows neither VLAN contexts nor IPv6
  segmentation, and its receive side has two workarounds: a stalled descriptor engine is reset,
  and a first descriptor that the chip has passed by without a write-back is completed by the
  driver. The descriptor layouts are those of theories B0_Tx and B0_Rx.
\<close>

subsection \<open>Transmission\<close>

definition HW_ATL_A0_TXD_CTL2_LEN :: u32 where "HW_ATL_A0_TXD_CTL2_LEN = 0xFFFFC000"
definition HW_ATL_A0_TXD_CTL2_CTX_EN :: u32 where "HW_ATL_A0_TXD_CTL2_CTX_EN = 0x00002000"
definition HW_ATL_A0_TXD_CTL_DESC_TYPE_TXD :: u32 where "HW_ATL_A0_TXD_CTL_DESC_TYPE_TXD = 0x00000001"
definition HW_ATL_A0_TXD_CTL_DESC_TYPE_TXC :: u32 where "HW_ATL_A0_TXD_CTL_DESC_TYPE_TXC = 0x00000002"
definition HW_ATL_A0_TXD_CTL_BLEN :: u32 where "HW_ATL_A0_TXD_CTL_BLEN = 0x000FFFF0"
definition HW_ATL_A0_TXD_CTL_EOP :: u32 where "HW_ATL_A0_TXD_CTL_EOP = 0x00200000"
definition HW_ATL_A0_TXD_CTL_CMD_IPCSO :: u32 where "HW_ATL_A0_TXD_CTL_CMD_IPCSO = BIT 24"
definition HW_ATL_A0_TXD_CTL_CMD_TUCSO :: u32 where "HW_ATL_A0_TXD_CTL_CMD_TUCSO = BIT 25"
definition HW_ATL_A0_TXD_CTL_CMD_LSO :: u32 where "HW_ATL_A0_TXD_CTL_CMD_LSO = BIT 26"
definition HW_ATL_A0_TXD_CTL_CMD_WB :: u32 where "HW_ATL_A0_TXD_CTL_CMD_WB = BIT 27"
definition HW_ATL_A0_TXD_CTL_CMD_TCP :: u32 where "HW_ATL_A0_TXD_CTL_CMD_TCP = BIT 22"
definition HW_ATL_A0_RXD_WB_STAT2_EOP :: u16 where "HW_ATL_A0_RXD_WB_STAT2_EOP = 0x0002"

lemmas a0_txd_consts = HW_ATL_A0_TXD_CTL2_LEN_def HW_ATL_A0_TXD_CTL2_CTX_EN_def
  HW_ATL_A0_TXD_CTL_DESC_TYPE_TXD_def HW_ATL_A0_TXD_CTL_DESC_TYPE_TXC_def
  HW_ATL_A0_TXD_CTL_BLEN_def HW_ATL_A0_TXD_CTL_EOP_def HW_ATL_A0_TXD_CTL_CMD_IPCSO_def
  HW_ATL_A0_TXD_CTL_CMD_TUCSO_def HW_ATL_A0_TXD_CTL_CMD_LSO_def HW_ATL_A0_TXD_CTL_CMD_WB_def
  HW_ATL_A0_TXD_CTL_CMD_TCP_def

text \<open>The state of the loop: the payload length to announce and whether a context is open.\<close>

definition a0_txd_context :: "aq_ring_buff_s \<Rightarrow> u32 \<Rightarrow> u32 \<times> hw_atl_txd_s" where
  "a0_txd_context buff pktlen =
     (pktlen - (ucast (len_l4 buff) + ucast (len_l3 buff) + ucast (len_l2 buff)),
      \<lparr>buf_addr = 0,
       ctl = push_bit 31 (ucast (len_l3 buff)) OR push_bit 24 (ucast (len_l2 buff)) OR
             HW_ATL_A0_TXD_CTL_CMD_TCP OR HW_ATL_A0_TXD_CTL_DESC_TYPE_TXC,
       ctl2 = push_bit 16 (mss buff) OR push_bit 8 (ucast (len_l4 buff)) OR
              drop_bit 1 (ucast (len_l3 buff))\<rparr>)"

definition a0_txd_data :: "aq_ring_buff_s \<Rightarrow> u32 \<Rightarrow> bool \<Rightarrow> hw_atl_txd_s" where
  "a0_txd_data buff pktlen in_ctx =
     (let txd = \<lparr>buf_addr = pa buff, ctl = HW_ATL_A0_TXD_CTL_BLEN AND push_bit 4 (ucast (len buff)), ctl2 = 0\<rparr>;
          txd = txd\<lparr>ctl := ctl txd OR HW_ATL_A0_TXD_CTL_DESC_TYPE_TXD\<rparr>;
          txd = txd\<lparr>ctl2 := ctl2 txd OR (HW_ATL_A0_TXD_CTL2_LEN AND push_bit 14 pktlen)\<rparr>;
          txd = txd\<lparr>ctl := or_if in_ctx HW_ATL_A0_TXD_CTL_CMD_LSO (ctl txd),
                    ctl2 := or_if in_ctx HW_ATL_A0_TXD_CTL2_CTX_EN (ctl2 txd)\<rparr>;
          txd = txd\<lparr>ctl := or_if (is_ip_cso buff) HW_ATL_A0_TXD_CTL_CMD_IPCSO (ctl txd)\<rparr>;
          txd = txd\<lparr>ctl := or_if (is_udp_cso buff \<or> is_tcp_cso buff) HW_ATL_A0_TXD_CTL_CMD_TUCSO (ctl txd)\<rparr>
      in txd\<lparr>ctl := or_if (is_eop buff) HW_ATL_A0_TXD_CTL_CMD_WB
                       (or_if (is_eop buff) HW_ATL_A0_TXD_CTL_EOP (ctl txd))\<rparr>)"

fun a0_xmit_loop :: "nat \<Rightarrow> aq_ring_s \<Rightarrow> u32 \<Rightarrow> bool \<Rightarrow> aq_ring_s" where
  "a0_xmit_loop 0 ring pktlen in_ctx = ring"
| "a0_xmit_loop (Suc frags) ring pktlen in_ctx =
     (let buff = buff_ring ring ! unat (sw_tail ring);
          (pktlen, in_ctx, txd) =
            (if is_gso buff then case a0_txd_context buff pktlen of (pktlen, txd) \<Rightarrow> (pktlen, True, txd)
             else (pktlen, in_ctx, a0_txd_data buff pktlen in_ctx));
          ring = ring\<lparr>dx_ring := (dx_ring ring)[unat (sw_tail ring) := txd_words txd]\<rparr>;
          ring = ring\<lparr>sw_tail := aq_ring_next_dx ring (sw_tail ring)\<rparr>
      in a0_xmit_loop frags ring pktlen in_ctx)"

definition hw_atl_a0_hw_tx_ring_tail_update :: "aq_hw_s \<Rightarrow> aq_ring_s \<Rightarrow> int \<times> aq_hw_s" where
  "hw_atl_a0_hw_tx_ring_tail_update self ring =
     (0, hw_atl_reg_tx_dma_desc_tail_ptr_set self (sw_tail ring) (ring_idx ring))"

definition hw_atl_a0_hw_ring_tx_xmit :: "aq_hw_s \<Rightarrow> aq_ring_s \<Rightarrow> nat \<Rightarrow> int \<times> aq_hw_s \<times> aq_ring_s" where
  "hw_atl_a0_hw_ring_tx_xmit self ring frags =
     (let buff = buff_ring ring ! unat (sw_tail ring);
          len0 = (if is_eop buff \<and> is_sop buff then ucast (len buff) else len_pkt buff);
          ring = a0_xmit_loop frags ring len0 False;
          self = snd (hw_atl_a0_hw_tx_ring_tail_update self ring)
      in (aq_hw_err_from_flags self, self, ring))"

subsection \<open>Setting up, starting and stopping a ring\<close>

definition hw_atl_a0_hw_ring_rx_init :: "aq_hw_s \<Rightarrow> aq_ring_s \<Rightarrow> aq_ring_param_s \<Rightarrow> int \<times> aq_hw_s" where
  "hw_atl_a0_hw_ring_rx_init self aq_ring aq_ring_param =
     (let dma_desc_addr_lsw = ucast (dx_ring_pa aq_ring);
          dma_desc_addr_msw = ucast (drop_bit 32 (dx_ring_pa aq_ring));
          self = hw_atl_rdm_rx_desc_en_set self 0 (ring_idx aq_ring);
          self = hw_atl_rdm_rx_desc_head_splitting_set self 0 (ring_idx aq_ring);
          self = hw_atl_reg_rx_dma_desc_base_addresslswset self dma_desc_addr_lsw (ring_idx aq_ring);
          self = hw_atl_reg_rx_dma_desc_base_addressmswset self dma_desc_addr_msw (ring_idx aq_ring);
          self = hw_atl_rdm_rx_desc_len_set self (ring_size aq_ring div 8) (ring_idx aq_ring);
          self = hw_atl_rdm_rx_desc_data_buff_size_set self (AQ_CFG_RX_FRAME_MAX div 1024) (ring_idx aq_ring);
          self = hw_atl_rdm_rx_desc_head_buff_size_set self 0 (ring_idx aq_ring);
          self = hw_atl_rdm_rx_desc_head_splitting_set self 0 (ring_idx aq_ring);
          self = hw_atl_rpo_rx_desc_vlan_stripping_set self 0 (ring_idx aq_ring);
          self = hw_atl_itr_irq_map_rx_set self (vec_idx aq_ring_param) (ring_idx aq_ring);
          self = hw_atl_itr_irq_map_en_rx_set self 1 (ring_idx aq_ring);
          self = hw_atl_rdm_cpu_id_set self (param_cpu aq_ring_param) (ring_idx aq_ring);
          self = hw_atl_rdm_rx_desc_dca_en_set self 0 (ring_idx aq_ring);
          self = hw_atl_rdm_rx_head_dca_en_set self 0 (ring_idx aq_ring);
          self = hw_atl_rdm_rx_pld_dca_en_set self 0 (ring_idx aq_ring)
      in (aq_hw_err_from_flags self, self))"

definition hw_atl_a0_hw_ring_tx_init :: "aq_hw_s \<Rightarrow> aq_ring_s \<Rightarrow> aq_ring_param_s \<Rightarrow> int \<times> aq_hw_s" where
  "hw_atl_a0_hw_ring_tx_init self aq_ring aq_ring_param =
     (let dma_desc_lsw_addr = ucast (dx_ring_pa aq_ring);
          dma_desc_msw_addr = ucast (drop_bit 32 (dx_ring_pa aq_ring));
          self = hw_atl_reg_tx_dma_desc_base_addresslswset self dma_desc_lsw_addr (ring_idx aq_ring);
          self = hw_atl_reg_tx_dma_desc_base_addressmswset self dma_desc_msw_addr (ring_idx aq_ring);
          self = hw_atl_tdm_tx_desc_len_set self (ring_size aq_ring div 8) (ring_idx aq_ring);
          self = snd (hw_atl_a0_hw_tx_ring_tail_update self aq_ring);
          self = hw_atl_tdm_tx_desc_wr_wb_threshold_set self 0 (ring_idx aq_ring);
          self = hw_atl_itr_irq_map_tx_set self (vec_idx aq_ring_param) (ring_idx aq_ring);
          self = hw_atl_itr_irq_map_en_tx_set self 1 (ring_idx aq_ring);
          self = hw_atl_tdm_cpu_id_set self (param_cpu aq_ring_param) (ring_idx aq_ring);
          self = hw_atl_tdm_tx_desc_dca_en_set self 0 (ring_idx aq_ring)
      in (aq_hw_err_from_flags self, self))"

definition hw_atl_a0_hw_ring_tx_start :: "aq_hw_s \<Rightarrow> aq_ring_s \<Rightarrow> int \<times> aq_hw_s" where
  "hw_atl_a0_hw_ring_tx_start self ring =
     (let self = hw_atl_tdm_tx_desc_en_set self 1 (ring_idx ring) in (aq_hw_err_from_flags self, self))"

definition hw_atl_a0_hw_ring_rx_start :: "aq_hw_s \<Rightarrow> aq_ring_s \<Rightarrow> int \<times> aq_hw_s" where
  "hw_atl_a0_hw_ring_rx_start self ring =
     (let self = hw_atl_rdm_rx_desc_en_set self 1 (ring_idx ring) in (aq_hw_err_from_flags self, self))"

definition hw_atl_a0_hw_ring_tx_stop :: "aq_hw_s \<Rightarrow> aq_ring_s \<Rightarrow> int \<times> aq_hw_s" where
  "hw_atl_a0_hw_ring_tx_stop self ring =
     (let self = hw_atl_tdm_tx_desc_en_set self 0 (ring_idx ring) in (aq_hw_err_from_flags self, self))"

definition hw_atl_a0_hw_ring_rx_stop :: "aq_hw_s \<Rightarrow> aq_ring_s \<Rightarrow> int \<times> aq_hw_s" where
  "hw_atl_a0_hw_ring_rx_stop self ring =
     (let self = hw_atl_rdm_rx_desc_en_set self 0 (ring_idx ring) in (aq_hw_err_from_flags self, self))"

subsection \<open>Receiving\<close>

text \<open>The loop that posts the buffers is that of the B0 chip.\<close>

definition hw_atl_a0_hw_ring_rx_fill :: "aq_hw_s \<Rightarrow> aq_ring_s \<Rightarrow> u32 \<Rightarrow> int \<times> aq_hw_s \<times> aq_ring_s" where
  "hw_atl_a0_hw_ring_rx_fill self ring sw_tail_old =
     (case b0_rx_fill_loop (unat (ring_size ring)) ring sw_tail_old of (ring, sw_tail_old) \<Rightarrow>
        let self = hw_atl_reg_rx_dma_desc_tail_ptr_set self sw_tail_old (ring_idx ring)
        in (aq_hw_err_from_flags self, self, ring))"

definition hw_atl_a0_hw_ring_tx_head_update :: "aq_hw_s \<Rightarrow> aq_ring_s \<Rightarrow> int \<times> aq_hw_s \<times> aq_ring_s" where
  "hw_atl_a0_hw_ring_tx_head_update self ring =
     (case hw_atl_tdm_tx_desc_head_ptr_get self (ring_idx ring) of (head, self) \<Rightarrow>
        if aq_utils_obj_test self AQ_HW_FLAG_ERR_UNPLUG then (- ENXIO, self, ring)
        else (aq_hw_err_from_flags self, self, ring\<lparr>hw_head := head\<rparr>))"

text \<open>Writing the status and the packet length of a descriptor in place.\<close>

definition put_wb_status :: "u16 \<Rightarrow> u64 \<times> u64 \<Rightarrow> u64 \<times> u64" where
  "put_wb_status v d = (fst d, slice_set 0 16 (ucast v) (snd d))"

definition put_wb_pkt_len :: "u16 \<Rightarrow> u64 \<times> u64 \<Rightarrow> u64 \<times> u64" where
  "put_wb_pkt_len v d = (fst d, slice_set 16 16 (ucast v) (snd d))"

definition upd_dx :: "aq_ring_s \<Rightarrow> u32 \<Rightarrow> (u64 \<times> u64 \<Rightarrow> u64 \<times> u64) \<Rightarrow> aq_ring_s" where
  "upd_dx ring i f = ring\<lparr>dx_ring := (dx_ring ring)[unat i := f (dx_ring ring ! unat i)]\<rparr>"

definition a0_wb_status :: "aq_ring_s \<Rightarrow> u32 \<Rightarrow> u16" where
  "a0_wb_status ring i = wb_status (rxd_wb (dx_ring ring ! unat i))"

text \<open>The descriptor engine of the ring, when its status shows bit 4, is disabled, reset and enabled.\<close>

definition a0_unstall :: "aq_ring_s \<Rightarrow> aq_hw_s \<Rightarrow> aq_hw_s" where
  "a0_unstall ring self =
     (case hw_atl_reg_rx_dma_desc_status_get self (ring_idx ring) of (v, self) \<Rightarrow>
        if push_bit 4 1 AND v \<noteq> 0 then
          let self = hw_atl_rdm_rx_desc_en_set self 0 (ring_idx ring);
              self = hw_atl_rdm_rx_desc_res_set self 1 (ring_idx ring);
              self = hw_atl_rdm_rx_desc_res_set self 0 (ring_idx ring)
          in hw_atl_rdm_rx_desc_en_set self 1 (ring_idx ring)
        else self)"

text \<open>The descriptor at the head is not done. Is it to be decoded all the same?\<close>

definition a0_not_done :: "aq_hw_s \<Rightarrow> aq_ring_s \<Rightarrow> bool \<times> aq_hw_s \<times> aq_ring_s" where
  "a0_not_done self ring =
     (let self = a0_unstall ring self in
      if hw_head ring \<noteq> 0 then (False, self, ring)
      else case hw_atl_rdm_rx_desc_head_ptr_get self (ring_idx ring) of (head, self) \<Rightarrow>
        if head < 2 then (False, self, ring)
        else if a0_wb_status ring (hw_head ring) AND 1 = 0 then
          if a0_wb_status ring 1 AND 1 \<noteq> 0
          then (True, self, upd_dx ring (hw_head ring) (\<lambda>d. put_wb_status 3 (put_wb_pkt_len 1514 d)))
          else (False, self, ring)
        else (True, self, ring))"

definition a0_rx_checksum :: "u16 \<Rightarrow> hw_atl_rxd_wb_s \<Rightarrow> aq_ring_buff_s \<Rightarrow> aq_ring_buff_s" where
  "a0_rx_checksum is_err w buff =
     (let is_rx_check_sum_enabled = wb_type w AND push_bit 19 3;
          pkt_type = 0xFF AND drop_bit 4 (wb_type w)
      in if is_rx_check_sum_enabled \<noteq> 0 then
           let buff = (if 0 = pkt_type AND 3 then buff\<lparr>is_ip_cso := is_err AND 0x08 = 0\<rparr> else buff);
               buff = (if 4 = pkt_type AND 0x1C then buff\<lparr>is_udp_cso := is_err AND 0x10 = 0\<rparr>
                       else if 0 = pkt_type AND 0x1C then buff\<lparr>is_tcp_cso := is_err AND 0x10 = 0\<rparr>
                       else buff)
           in if wb_pkt_len w \<le> 60 then buff\<lparr>is_ip_cso := False, is_cso_err := False\<rparr> else buff
         else buff)"

definition a0_rx_length :: "hw_atl_rxd_wb_s \<Rightarrow> aq_ring_s \<Rightarrow> aq_ring_buff_s \<Rightarrow> aq_ring_s \<times> aq_ring_buff_s" where
  "a0_rx_length w ring buff =
     (if HW_ATL_A0_RXD_WB_STAT2_EOP AND wb_status w \<noteq> 0
      then let buff = buff\<lparr>len := wb_pkt_len w mod ucast AQ_CFG_RX_FRAME_MAX\<rparr>;
               buff = buff\<lparr>len := (if len buff \<noteq> 0 then len buff else ucast AQ_CFG_RX_FRAME_MAX)\<rparr>;
               buff = set_next_ix 0 buff
           in (ring, buff\<lparr>is_eop := True\<rparr>)
      else (upd_stats (\<lambda>s. s\<lparr>st_jumbo_packets := st_jumbo_packets s + 1\<rparr>) ring,
            set_next_ix (ucast (aq_ring_next_dx ring (hw_head ring))) buff))"

text \<open>Decoding the descriptor at the head into its buffer.\<close>

definition a0_rx_decode :: "aq_nic_cfg_s \<Rightarrow> aq_ring_s \<Rightarrow> aq_ring_s" where
  "a0_rx_decode cfg ring =
     (let h = hw_head ring;
          ring = (if 3 \<noteq> a0_wb_status ring h AND 3
                  then upd_dx ring h (put_wb_status (a0_wb_status ring h OR 4)) else ring);
          w = rxd_wb (dx_ring ring ! unat h);
          is_err = 0x1C AND wb_status w;
          buff = a0_rx_checksum is_err w (buff_ring ring ! unat h);
          is_err = is_err AND NOT 0x18;
          is_err = is_err AND NOT 0x04
      in if is_err \<noteq> 0 \<or> wb_type w AND 0x1000 \<noteq> 0
         then upd_buff ring h (\<lambda>_. buff\<lparr>is_error := True\<rparr>)
         else case a0_rx_length w ring (rx_hash cfg w buff) of (ring, buff) \<Rightarrow>
              upd_buff ring h (\<lambda>_. buff))"

text \<open>
  The loop from the hardware head to the tail. Every turn moves the head, so one round of the
  ring is fuel enough.
\<close>

fun a0_rx_receive_loop :: "nat \<Rightarrow> aq_hw_s \<Rightarrow> aq_ring_s \<Rightarrow> aq_hw_s \<times> aq_ring_s" where
  "a0_rx_receive_loop 0 self ring = (self, ring)"
| "a0_rx_receive_loop (Suc n) self ring =
     (if hw_head ring \<noteq> sw_tail ring then
        case (if a0_wb_status ring (hw_head ring) AND 5 = 0 then a0_not_done self ring
              else (True, self, ring)) of (go_on, self, ring) \<Rightarrow>
          if go_on then
            let ring = a0_rx_decode (aq_nic_cfg self) ring
            in a0_rx_receive_loop n self (ring\<lparr>hw_head := aq_ring_next_dx ring (hw_head ring)\<rparr>)
          else (self, ring)
      else (self, ring))"

definition hw_atl_a0_hw_ring_rx_receive :: "aq_hw_s \<Rightarrow> aq_ring_s \<Rightarrow> int \<times> aq_hw_s \<times> aq_ring_s" where
  "hw_atl_a0_hw_ring_rx_receive self ring =
     (case a0_rx_receive_loop (unat (ring_size ring)) self ring of (self, ring) \<Rightarrow>
        (aq_hw_err_from_flags self, self, ring))"

end
