(* ===== verification/A0_Props.thy ===== *)
theory A0_Props
  imports A0_Ring Samples Tx_Props
begin

section \<open>The A0 chip against the B0 chip\<close>

text \<open>
  Both chips read the same descriptors; what the older one is told of a packet it can handle
  is what the newer one is told.
\<close>

lemma a0_const_eq:
  "HW_ATL_A0_TXD_CTL2_LEN = HW_ATL_B0_TXD_CTL2_LEN" "HW_ATL_A0_TXD_CTL2_CTX_EN = HW_ATL_B0_TXD_CTL2_CTX_EN"
  "HW_ATL_A0_TXD_CTL_DESC_TYPE_TXD = HW_ATL_B0_TXD_CTL_DESC_TYPE_TXD"
  "HW_ATL_A0_TXD_CTL_BLEN = HW_ATL_B0_TXD_CTL_BLEN" "HW_ATL_A0_TXD_CTL_EOP = HW_ATL_B0_TXD_CTL_EOP"
  "HW_ATL_A0_TXD_CTL_CMD_IPCSO = HW_ATL_B0_TXD_CTL_CMD_IPCSO"
  "HW_ATL_A0_TXD_CTL_CMD_TUCSO = HW_ATL_B0_TXD_CTL_CMD_TUCSO"
  "HW_ATL_A0_TXD_CTL_CMD_LSO = HW_ATL_B0_TXD_CTL_CMD_LSO" "HW_ATL_A0_TXD_CTL_CMD_WB = HW_ATL_B0_TXD_CTL_CMD_WB"
  by (simp_all add: a0_txd_consts txd_consts)

lemma a0_data_eq:
  assumes "\<not> is_gso b" "\<not> is_vlan b" "\<not> in_vlan st"
  shows "snd (txd_of b st) = a0_txd_data b (pkt_len st) (in_gso st)"
  using txd_of_data_eq [OF assms(1,2), of st] assms(3)
  by (simp add: a0_txd_data_def data_ctl_def a0_const_eq Let_def or_if_def [of False])

lemma a0_context_eq:
  assumes "is_gso b" "\<not> is_vlan b" "\<not> is_ipv6 b"
  shows "(pkt_len (fst (txd_of b st)), snd (txd_of b st)) = a0_txd_context b (pkt_len st)"
proof -
  have c: "HW_ATL_A0_TXD_CTL_CMD_TCP = push_bit 22 1" "HW_ATL_A0_TXD_CTL_DESC_TYPE_TXC = push_bit 1 1"
    by (simp_all add: a0_txd_consts BIT_def)
  have "push_bit 31 (ucast (len_l3 b)) OR push_bit 24 (ucast (len_l2 b)) OR HW_ATL_A0_TXD_CTL_CMD_TCP OR
      HW_ATL_A0_TXD_CTL_DESC_TYPE_TXC = ctx_ctl b"
    unfolding ctx_ctl_def or_if_def c using assms
    by (simp only: simp_thms if_True if_False or.left_neutral or.right_neutral or.assoc or.commute or.left_commute)
  then show ?thesis
    using txd_of_context_eq [of b st] txd_of_context_state [of b st] assms
    by (simp add: a0_txd_context_def context_state_def gso_hdrs_def ctx_ctl2_def or.assoc)
qed

text \<open>Buffers the A0 chip is told of as the B0 chip is: no tags, IPv4 segmentation only, one packet.\<close>

fun a0_able :: "aq_ring_buff_s list \<Rightarrow> bool" where
  "a0_able [] = True"
| "a0_able (b # bs) = (\<not> is_vlan b \<and> (is_gso b \<longrightarrow> \<not> is_ipv6 b) \<and> (is_eop b \<longrightarrow> bs = []) \<and> a0_able bs)"

lemma a0_able_append: "a0_able cs \<Longrightarrow> (\<forall>c\<in>set cs. \<not> is_eop c) \<Longrightarrow> a0_able ps \<Longrightarrow> a0_able (cs @ ps)"
  by (induction cs) auto

lemma a0_xmit_loop_eq:
  assumes "a0_able (posted r (sw_tail r) n)" "\<not> in_vlan st"
  shows "a0_xmit_loop n r (pkt_len st) (in_gso st) = b0_xmit_loop n r st"
  using assms
proof (induction n arbitrary: r st)
  case (Suc n)
  define b where "b = buff_ring r ! unat (sw_tail r)"
  define r1 where "r1 = r\<lparr>dx_ring := (dx_ring r)[unat (sw_tail r) := txd_words (snd (txd_of b st))],
    sw_tail := aq_ring_next_dx r (sw_tail r)\<rparr>"
  define st1 where "st1 = fst (txd_of b st)"
  have b: "\<not> is_vlan b" "is_gso b \<Longrightarrow> \<not> is_ipv6 b" "is_eop b \<Longrightarrow> n = 0"
    and rest: "a0_able (posted r (aq_ring_next_dx r (sw_tail r)) n)"
    using Suc.prems(1) by (auto simp: posted_Suc b_def dest: arg_cong [where f = length])
  have p: "posted r1 (sw_tail r1) n = posted r (aq_ring_next_dx r (sw_tail r)) n"
    by (simp add: r1_def posted_def)
  have right: "b0_xmit_loop (Suc n) r st = b0_xmit_loop n r1 st1"
    by (simp add: b_def r1_def st1_def split_beta Let_def aq_ring_next_dx_def)
  show ?case
  proof (cases "is_gso b")
    case True
    then have st1: "in_gso st1" "\<not> in_vlan st1"
      using txd_of_context_state [of b st] b(1) Suc.prems(2) by (simp_all add: st1_def context_state_def)
    have "a0_txd_context b (pkt_len st) = (pkt_len st1, snd (txd_of b st))"
      using a0_context_eq [OF True b(1) b(2), of st] True by (simp add: st1_def)
    then have "a0_xmit_loop (Suc n) r (pkt_len st) (in_gso st) = a0_xmit_loop n r1 (pkt_len st1) (in_gso st1)"
      using True st1 by (simp add: b_def r1_def Let_def aq_ring_next_dx_def)
    then show ?thesis using Suc.IH [of r1 st1] p rest st1 right by simp
  next
    case False
    have s: "st1 = data_state b st" using txd_of_data_eq [OF False b(1), of st] by (simp add: st1_def)
    have left: "a0_xmit_loop (Suc n) r (pkt_len st) (in_gso st) = a0_xmit_loop n r1 (pkt_len st) (in_gso st)"
      using False a0_data_eq [OF False b(1) Suc.prems(2)] by (simp add: b_def r1_def Let_def aq_ring_next_dx_def)
    show ?thesis
    proof (cases "is_eop b")
      case True
      then show ?thesis using left right b(3) by simp
    next
      case False
      then have "st1 = st" using s by (simp add: data_state_def)
      then show ?thesis using left right Suc.IH [of r1 st1] p rest Suc.prems(2) by simp
    qed
  qed
qed simp

lemma a0_xmit_eq:
  assumes "a0_able (posted r (sw_tail r) n)"
  shows "hw_atl_a0_hw_ring_tx_xmit hw r n = hw_atl_b0_hw_ring_tx_xmit hw r n"
  using a0_xmit_loop_eq [OF assms, of "\<lparr>pkt_len = l, in_gso = False, in_vlan = False\<rparr>" for l]
  by (simp add: hw_atl_a0_hw_ring_tx_xmit_def hw_atl_b0_hw_ring_tx_xmit_def Let_def
      hw_atl_a0_hw_tx_ring_tail_update_def hw_atl_b0_hw_tx_ring_tail_update_def)

lemma packet_a0_able:
  assumes "packet e ps"
  shows "a0_able ps"
proof -
  have "a0_able ps \<longleftrightarrow> (\<forall>i < length ps. \<not> is_vlan (ps ! i) \<and> (is_gso (ps ! i) \<longrightarrow> \<not> is_ipv6 (ps ! i)) \<and>
      (is_eop (ps ! i) \<longrightarrow> Suc i = length ps))" for ps
    by (induction ps) (auto simp: All_less_Suc2)
  then show ?thesis using assms by (simp add: packet_def)
qed

text \<open>
  C25: On the A0 chip a packet goes out as on the B0 chip: for every packet that
  aq_nic_map_skb accepts on a ring with room and that is neither tagged nor segmented over
  IPv6, hw_atl_a0_hw_ring_tx_xmit writes the same descriptors, moves the tail by the same
  register write and returns the same as hw_atl_b0_hw_ring_tx_xmit.
\<close>

theorem a0_sends_like_b0:
  assumes "ring_ok r" "pending r + descs_needed vmk vi s < unat (ring_size r)"
    and "dma_answer k (dma_calls k) = Some a"
    and m: "aq_nic_map_skb vmk vi s r k = (n, r1, k1)" and n: "n \<noteq> 0"
    and plain: "\<not> (vi \<and> skb_vlan_present s)" "\<not> (skb_is_gso s \<and> skb_ip_version s = 6)"
  shows "hw_atl_a0_hw_ring_tx_xmit hw r1 n = hw_atl_b0_hw_ring_tx_xmit hw r1 n"
proof -
  obtain err hw' r2 where x: "hw_atl_b0_hw_ring_tx_xmit hw r1 n = (err, hw', r2)" by (metis prod.exhaust)
  show ?thesis
  proof (rule b0_packet_published [OF assms(1-3) m n x], goal_cases)
    case (1 cs ps evs)
    have sel: "sw_tail r1 = sw_tail r" using ring_same_sel [OF 1(14)] by simp
    have "a0_able cs" "\<forall>c\<in>set cs. \<not> is_eop c"
      using 1(5,6) plain by (cases cs; auto simp: context_buff_def split: if_splits)+
    then have "a0_able (posted r1 (sw_tail r1) n)"
      using packet_a0_able [OF 1(7)] a0_able_append 1(4) sel by simp
    then show ?case by (rule a0_xmit_eq)
  qed
qed

text \<open>A TCP packet of 4066 bytes over IPv4, not tagged, to be segmented.\<close>

definition skb_plain :: sk_buff where
  "skb_plain = skb0\<lparr>skb_len := 4066, skb_frags := [4000], skb_vlan_present := False\<rparr>"

lemma skb_plain_mapped:
  "fst (aq_nic_map_skb False True skb_plain (ring0 8 6) kern0) = 3" "descs_needed False True skb_plain = 3"
  by code_simp+

theorem a0_sends_like_b0_witness:
  "hw_atl_a0_hw_ring_tx_xmit hw0 (fst (snd (aq_nic_map_skb False True skb_plain (ring0 8 6) kern0))) 3 =
   hw_atl_b0_hw_ring_tx_xmit hw0 (fst (snd (aq_nic_map_skb False True skb_plain (ring0 8 6) kern0))) 3"
proof -
  obtain r1 k1 where m: "aq_nic_map_skb False True skb_plain (ring0 8 6) kern0 = (3, r1, k1)"
    using skb_plain_mapped(1) by (metis fst_conv prod.exhaust)
  have ok: "ring_ok (ring0 8 6)" by (simp add: ring0_ok)
  have p0: "pending (ring0 8 6) = 0" using ok by (simp add: pending_def ring.gap_0_iff ring_ok_def)
  have d: "dma_answer kern0 (dma_calls kern0) = Some 0x1000" by (simp add: kern0_def)
  have s: "\<not> (True \<and> skb_vlan_present skb_plain)" "\<not> (skb_is_gso skb_plain \<and> skb_ip_version skb_plain = 6)"
    by (simp_all add: skb_plain_def skb0_def)
  show ?thesis
    using a0_sends_like_b0 [OF ok _ d m _ s, of hw0] by (simp add: m p0 skb_plain_mapped(2))
qed

text \<open>
  The error bits of a write-back's status are taken out again before they are tested: on the A0
  chip only a DMA error marks a buffer, a packet with a checksum or MAC error is passed on.
\<close>

lemma a0_error_bits: "((0x1C AND w) AND - 25) AND - 5 = (0 :: u16)"
proof -
  have "((0x1C AND w) AND - 25) AND - 5 = w AND ((0x1C AND - 25) AND - 5)"
    by (simp only: and.assoc and.commute and.left_commute)
  then show ?thesis by simp
qed

theorem a0_status_errors_ignored:
  assumes "wb_type (rxd_wb (dx_ring r ! unat (hw_head r))) AND 0x1000 = 0"
    and "hw_head r < ring_size r" "length (buff_ring r) = unat (ring_size r)" "length (dx_ring r) = unat (ring_size r)"
  shows "is_error (buff_ring (a0_rx_decode cfg r) ! unat (hw_head r)) = is_error (buff_ring r ! unat (hw_head r))"
proof -
  have i: "unat (hw_head r) < length (buff_ring r)" "unat (hw_head r) < length (dx_ring r)"
    using assms(2-4) by (simp_all add: word_less_nat_alt)
  have c: "is_error (a0_rx_checksum e w b) = is_error b" for e w b
    by (simp add: a0_rx_checksum_def Let_def)
  have l: "is_error (snd (a0_rx_length w q b)) = is_error b" "buff_ring (fst (a0_rx_length w q b)) = buff_ring q" for w q b
    by (simp_all add: a0_rx_length_def Let_def upd_stats_def set_next_ix_def)
  have t: "wb_type (rxd_wb (put_wb_status v d)) = wb_type (rxd_wb d)" for v d
    by (simp add: rxd_wb_def put_wb_status_def)
  show ?thesis
    using assms(1) i
    by (simp add: a0_rx_decode_def Let_def a0_error_bits upd_dx_def t upd_buff_def split_beta l c rx_hash_sel)
qed

end
