(* ===== verification/Phy.thy ===== *)
theory Phy
  imports Firmware
begin

section \<open>PHY registers over MDIO (aq_phy.c)\<close>

text \<open>
  Reading and writing the 16-bit registers of the PHY through the chip's MDIO master, the scan
  for the PHY's address and the workaround that switches its PTP block off. The header places
  the MDIO bit-fields at 0x284, 0x288 and 0x28C; the interface registers the functions write
  start at 0x276 and are four bytes apart, so they are other addresses.
\<close>

definition HW_ATL_FW_SM_MDIO :: u32 where "HW_ATL_FW_SM_MDIO = 0"
definition HW_ATL_PTP_DISABLE_MSK :: u16 where "HW_ATL_PTP_DISABLE_MSK = push_bit 0xA 1"
definition HW_ATL_PHY_ID_MAX :: u16 where "HW_ATL_PHY_ID_MAX = 32"

text \<open>Device numbers of the kernel's linux/mdio.h.\<close>

definition MDIO_MMD_PMAPMD :: u16 where "MDIO_MMD_PMAPMD = 1"
definition MDIO_MMD_VEND1 :: u16 where "MDIO_MMD_VEND1 = 30"

definition mdio_idle :: "aq_hw_s \<Rightarrow> bool \<times> aq_hw_s" where
  "mdio_idle aq_hw = (case hw_atl_mdio_busy_get aq_hw of (v, aq_hw) \<Rightarrow> (v = 0, aq_hw))"

definition aq_mdio_busy_wait :: "aq_hw_s \<Rightarrow> bool \<times> aq_hw_s" where
  "aq_mdio_busy_wait aq_hw = (case AQ_HW_WAIT_FOR mdio_idle 1000 aq_hw of (late, aq_hw) \<Rightarrow> (\<not> late, aq_hw))"

text \<open>A command word: the operation mode and the PHY and device address.\<close>

definition mdio_command :: "u32 \<Rightarrow> u16 \<Rightarrow> u32" where
  "mdio_command mode phy_addr =
     fld_msk HW_ATL_MDIO_EXECUTE_OPERATION OR push_bit (fld_shift HW_ATL_MDIO_OP_MODE) mode OR
     push_bit (fld_shift HW_ATL_MDIO_PHY_ADDRESS) (ucast phy_addr AND fld_msk HW_ATL_MDIO_PHY_ADDRESS)"

definition mdio_phy_addr :: "aq_hw_s \<Rightarrow> u16 \<Rightarrow> u16" where
  "mdio_phy_addr aq_hw mmd = push_bit 5 (phy_id aq_hw) OR mmd"

definition mdio_send_address :: "aq_hw_s \<Rightarrow> u16 \<Rightarrow> u16 \<Rightarrow> aq_hw_s" where
  "mdio_send_address aq_hw phy_addr addr =
     (let aq_hw = hw_atl_glb_mdio_iface4_set aq_hw
            (push_bit (fld_shift HW_ATL_MDIO_ADDRESS) (ucast addr AND fld_msk HW_ATL_MDIO_ADDRESS));
          aq_hw = hw_atl_glb_mdio_iface2_set aq_hw (mdio_command 3 phy_addr)
      in snd (aq_mdio_busy_wait aq_hw))"

definition aq_mdio_read_word :: "aq_hw_s \<Rightarrow> u16 \<Rightarrow> u16 \<Rightarrow> u16 \<times> aq_hw_s" where
  "aq_mdio_read_word aq_hw mmd addr =
     (let phy_addr = mdio_phy_addr aq_hw mmd;
          aq_hw = mdio_send_address aq_hw phy_addr addr;
          aq_hw = hw_atl_glb_mdio_iface2_set aq_hw (mdio_command 1 phy_addr);
          aq_hw = snd (aq_mdio_busy_wait aq_hw)
      in case hw_atl_glb_mdio_iface5_get aq_hw of (v, aq_hw) \<Rightarrow> (ucast v, aq_hw))"

definition aq_mdio_write_word :: "aq_hw_s \<Rightarrow> u16 \<Rightarrow> u16 \<Rightarrow> u16 \<Rightarrow> aq_hw_s" where
  "aq_mdio_write_word aq_hw mmd addr data =
     (let phy_addr = mdio_phy_addr aq_hw mmd;
          aq_hw = mdio_send_address aq_hw phy_addr addr;
          aq_hw = hw_atl_glb_mdio_iface3_set aq_hw
            (push_bit (fld_shift HW_ATL_MDIO_WRITE_DATA) (ucast data AND fld_msk HW_ATL_MDIO_WRITE_DATA));
          aq_hw = hw_atl_glb_mdio_iface2_set aq_hw (mdio_command 2 phy_addr)
      in snd (aq_mdio_busy_wait aq_hw))"

definition aq_phy_read_reg :: "aq_hw_s \<Rightarrow> u16 \<Rightarrow> u16 \<Rightarrow> u16 \<times> aq_hw_s" where
  "aq_phy_read_reg aq_hw mmd address =
     (case AQ_HW_WAIT_FOR (sem_taken HW_ATL_FW_SM_MDIO) 1000 aq_hw of (late, aq_hw) \<Rightarrow>
        if late then (0xFFFF, aq_hw)
        else case aq_mdio_read_word aq_hw mmd address of (v, aq_hw) \<Rightarrow>
          (v, hw_atl_reg_glb_cpu_sem_set aq_hw 1 HW_ATL_FW_SM_MDIO))"

definition aq_phy_write_reg :: "aq_hw_s \<Rightarrow> u16 \<Rightarrow> u16 \<Rightarrow> u16 \<Rightarrow> aq_hw_s" where
  "aq_phy_write_reg aq_hw mmd address data =
     (case AQ_HW_WAIT_FOR (sem_taken HW_ATL_FW_SM_MDIO) 1000 aq_hw of (late, aq_hw) \<Rightarrow>
        if late then aq_hw
        else hw_atl_reg_glb_cpu_sem_set (aq_mdio_write_word aq_hw mmd address data) 1 HW_ATL_FW_SM_MDIO)"

text \<open>The scan from \<open>phy_id\<close> up: at most \<open>n\<close> more addresses.\<close>

fun phy_scan :: "nat \<Rightarrow> aq_hw_s \<Rightarrow> bool \<times> aq_hw_s" where
  "phy_scan 0 aq_hw = (False, aq_hw)"
| "phy_scan (Suc n) aq_hw =
     (case aq_phy_read_reg aq_hw MDIO_MMD_PMAPMD 3 of (val, aq_hw) \<Rightarrow>
        if val \<noteq> 0xFFFF then (True, aq_hw)
        else phy_scan n (aq_hw\<lparr>phy_id := phy_id aq_hw + 1\<rparr>))"

definition aq_phy_init_phy_id :: "aq_hw_s \<Rightarrow> bool \<times> aq_hw_s" where
  "aq_phy_init_phy_id aq_hw = phy_scan (unat HW_ATL_PHY_ID_MAX) (aq_hw\<lparr>phy_id := 0\<rparr>)"

definition phy_identify :: "aq_hw_s \<Rightarrow> bool \<times> aq_hw_s" where
  "phy_identify aq_hw =
     (case aq_phy_read_reg aq_hw MDIO_MMD_PMAPMD 2 of (msw, aq_hw) \<Rightarrow>
      case aq_phy_read_reg aq_hw MDIO_MMD_PMAPMD 3 of (lsw, aq_hw) \<Rightarrow>
        let dev_id = push_bit 16 (ucast msw) OR ucast lsw :: u32
        in if dev_id = 0xFFFFFFFF then (False, aq_hw\<lparr>phy_id := HW_ATL_PHY_ID_MAX\<rparr>) else (True, aq_hw))"

definition aq_phy_init :: "aq_hw_s \<Rightarrow> bool \<times> aq_hw_s" where
  "aq_phy_init aq_hw =
     (if phy_id aq_hw = HW_ATL_PHY_ID_MAX then
        case aq_phy_init_phy_id aq_hw of (found, aq_hw) \<Rightarrow>
          if found then phy_identify aq_hw else (False, aq_hw)
      else phy_identify aq_hw)"

definition ptp_registers :: "u16 list" where
  "ptp_registers = [0x031E, 0x031D, 0x031C, 0x031B]"

definition phy_clear_ptp :: "u16 \<Rightarrow> aq_hw_s \<Rightarrow> aq_hw_s" where
  "phy_clear_ptp r aq_hw =
     (case aq_phy_read_reg aq_hw MDIO_MMD_VEND1 r of (val, aq_hw) \<Rightarrow>
        aq_phy_write_reg aq_hw MDIO_MMD_VEND1 r (val AND NOT HW_ATL_PTP_DISABLE_MSK))"

definition aq_phy_disable_ptp :: "aq_hw_s \<Rightarrow> aq_hw_s" where
  "aq_phy_disable_ptp aq_hw = fold phy_clear_ptp ptp_registers aq_hw"

subsection \<open>What a PHY write does to the chip\<close>

definition logs :: "u32 set \<Rightarrow> aq_hw_s \<Rightarrow> aq_hw_s \<Rightarrow> bool" where
  "logs A hw hw' \<longleftrightarrow> (\<exists>ws. hw_log hw' = hw_log hw @ ws \<and> fst ` set ws \<subseteq> A)"

lemma logs_refl: "logs A hw hw"
  by (simp add: logs_def)

lemma logs_trans: "logs A a b \<Longrightarrow> logs A b c \<Longrightarrow> logs A a c"
  by (fastforce simp: logs_def)

lemma logs_write: "a \<in> A \<Longrightarrow> logs A hw (aq_hw_write_reg hw a v)"
  by (simp add: logs_def aq_hw_write_reg_def writel_def)

lemma logs_read: "logs A hw (snd (aq_hw_read_reg hw a))"
  by (simp add: logs_def aq_hw_read_reg_def readl_def aq_utils_obj_set_def Let_def split: prod.splits)

lemma logs_wait:
  assumes "\<And>s. logs A s (snd (B s))"
  shows "logs A s (snd (AQ_HW_WAIT_FOR B n s))"
  by (induction n arbitrary: s) (auto simp: assms split_beta intro: logs_trans [OF assms])

text \<open>The registers a PHY access writes: interfaces 2, 3 and 4 and the semaphore.\<close>

definition phy_writes :: "u32 set" where
  "phy_writes = {HW_ATL_GLB_MDIO_IFACE_N_ADR 2, HW_ATL_GLB_MDIO_IFACE_N_ADR 3,
     HW_ATL_GLB_MDIO_IFACE_N_ADR 4, HW_ATL_GLB_CPU_SEM_ADR HW_ATL_FW_SM_MDIO}"

definition mdio_registers :: "u32 set" where
  "mdio_registers = {fld_adr HW_ATL_MDIO_EXECUTE_OPERATION 0, fld_adr HW_ATL_MDIO_WRITE_DATA 0,
     fld_adr HW_ATL_MDIO_ADDRESS 0}"

lemma phy_writes_miss: "phy_writes \<inter> mdio_registers = {}"
  by (simp add: phy_writes_def mdio_registers_def HW_ATL_GLB_MDIO_IFACE_N_ADR_def HW_ATL_GLB_CPU_SEM_ADR_def
      HW_ATL_GLB_MDIO_IFACE_ADDR_BEGIN_def HW_ATL_FW_SM_MDIO_def fld_adr_def
      HW_ATL_MDIO_EXECUTE_OPERATION_def HW_ATL_MDIO_WRITE_DATA_def HW_ATL_MDIO_ADDRESS_def)

lemma logs_busy_wait: "logs A hw (snd (aq_mdio_busy_wait hw))"
proof -
  have "logs A s (snd (mdio_idle s))" for s
    using logs_read by (auto simp: mdio_idle_def hw_atl_mdio_busy_get_def read_field_def
        aq_hw_read_reg_bit_def split: prod.splits) (metis snd_conv)
  then have "logs A hw (snd (AQ_HW_WAIT_FOR mdio_idle 1000 hw))" by (rule logs_wait)
  then show ?thesis by (simp add: aq_mdio_busy_wait_def split_beta)
qed

lemma logs_sem_wait: "logs A hw (snd (AQ_HW_WAIT_FOR (sem_taken k) n hw))"
proof (rule logs_wait)
  show "logs A s (snd (sem_taken k s))" for s
    using logs_read [of A s "HW_ATL_GLB_CPU_SEM_ADR k"]
    by (simp add: sem_taken_def hw_atl_reg_glb_cpu_sem_get_def split_beta)
qed

lemma logs_sem_set: "logs phy_writes hw (hw_atl_reg_glb_cpu_sem_set hw v HW_ATL_FW_SM_MDIO)"
  unfolding hw_atl_reg_glb_cpu_sem_set_def by (rule logs_write) (simp add: phy_writes_def)

lemma logs_iface:
  "logs phy_writes hw (hw_atl_glb_mdio_iface2_set hw v)" "logs phy_writes hw (hw_atl_glb_mdio_iface3_set hw v)"
  "logs phy_writes hw (hw_atl_glb_mdio_iface4_set hw v)"
  unfolding hw_atl_glb_mdio_iface2_set_def hw_atl_glb_mdio_iface3_set_def hw_atl_glb_mdio_iface4_set_def
  by (rule logs_write; simp add: phy_writes_def)+

lemmas logs_then = logs_trans [OF _ logs_read] logs_trans [OF _ logs_busy_wait] logs_trans [OF _ logs_sem_wait]
  logs_trans [OF _ logs_sem_set] logs_trans [OF _ logs_iface(1)] logs_trans [OF _ logs_iface(2)]
  logs_trans [OF _ logs_iface(3)] logs_refl

lemma logs_read_word: "logs phy_writes hw (snd (aq_mdio_read_word hw mmd a))"
  unfolding aq_mdio_read_word_def mdio_send_address_def Let_def hw_atl_glb_mdio_iface5_get_def split_beta snd_conv
  by (rule logs_then)+

lemma logs_write_word: "logs phy_writes hw (aq_mdio_write_word hw mmd a d)"
  unfolding aq_mdio_write_word_def mdio_send_address_def Let_def
  by (rule logs_then)+

lemma logs_phy_read: "logs phy_writes hw (snd (aq_phy_read_reg hw mmd a))"
  by (auto simp: aq_phy_read_reg_def split_beta intro: logs_sem_wait logs_sem_set
      logs_trans [OF logs_sem_wait logs_trans [OF logs_read_word logs_sem_set]])

lemma logs_phy_write: "logs phy_writes hw (aq_phy_write_reg hw mmd a d)"
  by (auto simp: aq_phy_write_reg_def split_beta intro: logs_sem_wait
      logs_trans [OF logs_sem_wait logs_trans [OF logs_write_word logs_sem_set]])

lemma logs_disable_ptp: "logs phy_writes hw (aq_phy_disable_ptp hw)"
proof -
  have "logs phy_writes s (phy_clear_ptp r s)" for r s
    by (auto simp: phy_clear_ptp_def split_beta intro: logs_trans [OF logs_phy_read logs_phy_write])
  then have "logs phy_writes s (fold phy_clear_ptp rs s)" for rs s
    by (induction rs arbitrary: s) (auto intro: logs_refl logs_trans)
  then show ?thesis by (simp add: aq_phy_disable_ptp_def)
qed

text \<open>
  Whatever the card answers, the workaround that is meant to switch the PHY's PTP block off
  writes none of the registers the header gives for the MDIO master.
\<close>

theorem disable_ptp_misses_mdio:
  "fst ` set (drop (length (hw_log hw)) (hw_log (aq_phy_disable_ptp hw))) \<inter> mdio_registers = {}"
proof -
  obtain ws where "hw_log (aq_phy_disable_ptp hw) = hw_log hw @ ws" "fst ` set ws \<subseteq> phy_writes"
    using logs_disable_ptp [of hw] by (auto simp: logs_def)
  then show ?thesis using phy_writes_miss by auto
qed

end
