(* ===== verification/Boards.thy ===== *)
theory Boards
  imports A0_Ring B0_Ptp Vec B0_Filters
begin

section \<open>Boards and their operations (aq_pci_func.c, hw_atl_a0.c, hw_atl_b0.c)\<close>

text \<open>
  The capability tables of the two chips, the board table that selects one by PCI device and
  revision, and the dispatch through \<open>aq_hw_ops\<close>. The feature bits of network devices belong
  to the kernel and are an argument (\<open>netif_bits\<close>). An operation that one of the tables leaves
  NULL is optional.
\<close>

subsection \<open>Capabilities\<close>

record netif_bits =
  NETIF_F_HW_CSUM :: u64
  NETIF_F_RXCSUM :: u64
  NETIF_F_SG :: u64
  NETIF_F_TSO :: u64
  NETIF_F_RXHASH :: u64
  NETIF_F_LRO :: u64
  NETIF_F_NTUPLE :: u64
  NETIF_F_HW_VLAN_CTAG_FILTER :: u64
  NETIF_F_HW_VLAN_CTAG_RX :: u64
  NETIF_F_HW_VLAN_CTAG_TX :: u64
  IFF_UNICAST_FLT :: u32

definition AQ_HW_MEDIA_TYPE_TP :: u32 where "AQ_HW_MEDIA_TYPE_TP = 1"
definition AQ_HW_MEDIA_TYPE_FIBRE :: u32 where "AQ_HW_MEDIA_TYPE_FIBRE = 2"
definition AQ_NIC_QUIRK_BAD_PTP :: u32 where "AQ_NIC_QUIRK_BAD_PTP = BIT 0"

definition HW_ATL_A0_MTU_JUMBO :: u32 where "HW_ATL_A0_MTU_JUMBO = 9014"
definition HW_ATL_B0_MTU_JUMBO :: u32 where "HW_ATL_B0_MTU_JUMBO = 16352"
definition HW_ATL_A0_MAX_RXD :: u32 where "HW_ATL_A0_MAX_RXD = 8184"
definition HW_ATL_A0_MAX_TXD :: u32 where "HW_ATL_A0_MAX_TXD = 8184"
definition HW_ATL_B0_MAX_RXD :: u32 where "HW_ATL_B0_MAX_RXD = 8184"
definition HW_ATL_B0_MAX_TXD :: u32 where "HW_ATL_B0_MAX_TXD = 8184"

text \<open>The kernel's \<open>ALIGN(x, a)\<close>, for a power of two.\<close>

definition align_up :: "u32 \<Rightarrow> u32 \<Rightarrow> u32" where
  "align_up x a = (x + (a - 1)) AND NOT (a - 1)"

definition HW_ATL_A0_MIN_RXD :: u32 where "HW_ATL_A0_MIN_RXD = align_up (AQ_CFG_SKB_FRAGS_MAX + 1) 8"
definition HW_ATL_B0_MIN_RXD :: u32 where "HW_ATL_B0_MIN_RXD = align_up (AQ_CFG_SKB_FRAGS_MAX + 1) 8"
definition HW_ATL_B0_MIN_TXD :: u32 where "HW_ATL_B0_MIN_TXD = align_up (AQ_CFG_SKB_FRAGS_MAX + 1) 8"

definition DEFAULT_A0_BOARD_BASIC_CAPABILITIES :: "netif_bits \<Rightarrow> u32 \<Rightarrow> u64 \<Rightarrow> aq_hw_caps_s" where
  "DEFAULT_A0_BOARD_BASIC_CAPABILITIES nf media speeds =
     \<lparr>caps_hw_features = NETIF_F_HW_CSUM nf OR NETIF_F_RXHASH nf OR NETIF_F_RXCSUM nf OR NETIF_F_SG nf OR
        NETIF_F_TSO nf OR NETIF_F_NTUPLE nf OR NETIF_F_HW_VLAN_CTAG_FILTER nf,
      caps_link_speed_msk = speeds, caps_hw_priv_flags = IFF_UNICAST_FLT nf, caps_media_type = media,
      caps_rxds_max = HW_ATL_A0_MAX_RXD, caps_txds_max = HW_ATL_A0_MAX_TXD,
      caps_rxds_min = HW_ATL_A0_MIN_RXD, caps_txds_min = HW_ATL_A0_MIN_RXD,
      caps_txhwb_alignment = 4096, caps_irq_mask = NOT 0, caps_vecs = 8, caps_mtu = HW_ATL_A0_MTU_JUMBO,
      caps_mac_regs_count = 88, caps_hw_alive_check_addr = 0x10, caps_msix_irqs = 4, caps_tcs = 1,
      caps_rxd_alignment = 1, caps_rxd_size = 16, caps_txd_alignment = 1, caps_txd_size = 16,
      caps_tx_rings = 4, caps_rx_rings = 4, caps_flow_control = True, caps_is_64_dma = True,
      caps_quirks = 0\<rparr>"

definition DEFAULT_B0_BOARD_BASIC_CAPABILITIES :: "netif_bits \<Rightarrow> u32 \<Rightarrow> u64 \<Rightarrow> aq_hw_caps_s" where
  "DEFAULT_B0_BOARD_BASIC_CAPABILITIES nf media speeds =
     \<lparr>caps_hw_features = NETIF_F_HW_CSUM nf OR NETIF_F_RXCSUM nf OR NETIF_F_SG nf OR NETIF_F_TSO nf OR
        NETIF_F_RXHASH nf OR NETIF_F_LRO nf OR NETIF_F_NTUPLE nf OR NETIF_F_HW_VLAN_CTAG_FILTER nf OR
        NETIF_F_HW_VLAN_CTAG_RX nf OR NETIF_F_HW_VLAN_CTAG_TX nf,
      caps_link_speed_msk = speeds, caps_hw_priv_flags = IFF_UNICAST_FLT nf, caps_media_type = media,
      caps_rxds_max = HW_ATL_B0_MAX_RXD, caps_txds_max = HW_ATL_B0_MAX_TXD,
      caps_rxds_min = HW_ATL_B0_MIN_RXD, caps_txds_min = HW_ATL_B0_MIN_TXD,
      caps_txhwb_alignment = 4096, caps_irq_mask = NOT 0, caps_vecs = 8, caps_mtu = HW_ATL_B0_MTU_JUMBO,
      caps_mac_regs_count = 88, caps_hw_alive_check_addr = 0x10, caps_msix_irqs = 8, caps_tcs = 1,
      caps_rxd_alignment = 1, caps_rxd_size = 16, caps_txd_alignment = 1, caps_txd_size = 16,
      caps_tx_rings = 4, caps_rx_rings = 4, caps_flow_control = True, caps_is_64_dma = True,
      caps_quirks = 0\<rparr>"

definition rates :: "u32 list \<Rightarrow> u64" where
  "rates rs = ucast (foldr (OR) rs 0)"

definition hw_atl_a0_caps_aqc100 :: "netif_bits \<Rightarrow> aq_hw_caps_s" where
  "hw_atl_a0_caps_aqc100 nf = DEFAULT_A0_BOARD_BASIC_CAPABILITIES nf AQ_HW_MEDIA_TYPE_FIBRE
     (rates [AQ_NIC_RATE_5G, AQ_NIC_RATE_2GS, AQ_NIC_RATE_1G, AQ_NIC_RATE_100M])"

definition hw_atl_a0_caps_aqc107 :: "netif_bits \<Rightarrow> aq_hw_caps_s" where
  "hw_atl_a0_caps_aqc107 nf = DEFAULT_A0_BOARD_BASIC_CAPABILITIES nf AQ_HW_MEDIA_TYPE_TP
     (rates [AQ_NIC_RATE_10G, AQ_NIC_RATE_5G, AQ_NIC_RATE_2GS, AQ_NIC_RATE_1G, AQ_NIC_RATE_100M])"

definition hw_atl_a0_caps_aqc108 :: "netif_bits \<Rightarrow> aq_hw_caps_s" where
  "hw_atl_a0_caps_aqc108 nf = DEFAULT_A0_BOARD_BASIC_CAPABILITIES nf AQ_HW_MEDIA_TYPE_TP
     (rates [AQ_NIC_RATE_5G, AQ_NIC_RATE_2GS, AQ_NIC_RATE_1G, AQ_NIC_RATE_100M])"

definition hw_atl_a0_caps_aqc109 :: "netif_bits \<Rightarrow> aq_hw_caps_s" where
  "hw_atl_a0_caps_aqc109 nf = DEFAULT_A0_BOARD_BASIC_CAPABILITIES nf AQ_HW_MEDIA_TYPE_TP
     (rates [AQ_NIC_RATE_2GS, AQ_NIC_RATE_1G, AQ_NIC_RATE_100M])"

definition hw_atl_b0_caps_aqc100 :: "netif_bits \<Rightarrow> aq_hw_caps_s" where
  "hw_atl_b0_caps_aqc100 nf = DEFAULT_B0_BOARD_BASIC_CAPABILITIES nf AQ_HW_MEDIA_TYPE_FIBRE
     (rates [AQ_NIC_RATE_10G, AQ_NIC_RATE_5G, AQ_NIC_RATE_2GS, AQ_NIC_RATE_1G, AQ_NIC_RATE_100M])"

definition hw_atl_b0_caps_aqc107 :: "netif_bits \<Rightarrow> aq_hw_caps_s" where
  "hw_atl_b0_caps_aqc107 nf = DEFAULT_B0_BOARD_BASIC_CAPABILITIES nf AQ_HW_MEDIA_TYPE_TP
     (rates [AQ_NIC_RATE_10G, AQ_NIC_RATE_5G, AQ_NIC_RATE_2GS, AQ_NIC_RATE_1G, AQ_NIC_RATE_100M])"

definition hw_atl_b0_caps_aqc108 :: "netif_bits \<Rightarrow> aq_hw_caps_s" where
  "hw_atl_b0_caps_aqc108 nf = DEFAULT_B0_BOARD_BASIC_CAPABILITIES nf AQ_HW_MEDIA_TYPE_TP
     (rates [AQ_NIC_RATE_5G, AQ_NIC_RATE_2GS, AQ_NIC_RATE_1G, AQ_NIC_RATE_100M])"

definition hw_atl_b0_caps_aqc109 :: "netif_bits \<Rightarrow> aq_hw_caps_s" where
  "hw_atl_b0_caps_aqc109 nf = DEFAULT_B0_BOARD_BASIC_CAPABILITIES nf AQ_HW_MEDIA_TYPE_TP
     (rates [AQ_NIC_RATE_2GS, AQ_NIC_RATE_1G, AQ_NIC_RATE_100M])"

definition hw_atl_b0_caps_aqc111 :: "netif_bits \<Rightarrow> aq_hw_caps_s" where
  "hw_atl_b0_caps_aqc111 nf = (DEFAULT_B0_BOARD_BASIC_CAPABILITIES nf AQ_HW_MEDIA_TYPE_TP
     (rates [AQ_NIC_RATE_5G, AQ_NIC_RATE_2GS, AQ_NIC_RATE_1G, AQ_NIC_RATE_100M]))
     \<lparr>caps_quirks := AQ_NIC_QUIRK_BAD_PTP\<rparr>"

definition hw_atl_b0_caps_aqc112 :: "netif_bits \<Rightarrow> aq_hw_caps_s" where
  "hw_atl_b0_caps_aqc112 nf = (DEFAULT_B0_BOARD_BASIC_CAPABILITIES nf AQ_HW_MEDIA_TYPE_TP
     (rates [AQ_NIC_RATE_2GS, AQ_NIC_RATE_1G, AQ_NIC_RATE_100M]))
     \<lparr>caps_quirks := AQ_NIC_QUIRK_BAD_PTP\<rparr>"

subsection \<open>The tables of operations\<close>

text \<open>\<open>hw_atl_ops_b1\<close> is another name of \<open>hw_atl_ops_b0\<close>.\<close>

datatype hw_table = hw_atl_ops_a0 | hw_atl_ops_b0

definition a0_vec_ops :: vec_ops where
  "a0_vec_ops = \<lparr>hw_ring_tx_head_update = Some hw_atl_a0_hw_ring_tx_head_update,
     hw_ring_rx_receive = hw_atl_a0_hw_ring_rx_receive, hw_ring_rx_fill = hw_atl_a0_hw_ring_rx_fill,
     hw_ring_tx_init = hw_atl_a0_hw_ring_tx_init, hw_ring_rx_init = hw_atl_a0_hw_ring_rx_init,
     hw_ring_tx_start = hw_atl_a0_hw_ring_tx_start, hw_ring_rx_start = hw_atl_a0_hw_ring_rx_start,
     hw_ring_tx_stop = hw_atl_a0_hw_ring_tx_stop, hw_ring_rx_stop = hw_atl_a0_hw_ring_rx_stop,
     hw_irq_enable = hw_atl_a0_hw_irq_enable, hw_irq_disable = hw_atl_a0_hw_irq_disable,
     hw_irq_read = hw_atl_a0_hw_irq_read\<rparr>"

definition vec_ops_of :: "hw_table \<Rightarrow> vec_ops" where
  "vec_ops_of t = (case t of hw_atl_ops_a0 \<Rightarrow> a0_vec_ops | hw_atl_ops_b0 \<Rightarrow> b0_vec_ops)"

definition hw_set_mac_address :: "hw_table \<Rightarrow> aq_hw_s \<Rightarrow> u8 list option \<Rightarrow> int \<times> aq_hw_s" where
  "hw_set_mac_address t =
     (case t of hw_atl_ops_a0 \<Rightarrow> hw_atl_a0_hw_mac_addr_set | hw_atl_ops_b0 \<Rightarrow> hw_atl_b0_hw_mac_addr_set)"

definition hw_init :: "hw_table \<Rightarrow> netif_bits \<Rightarrow> u32 list \<Rightarrow> aq_hw_s \<Rightarrow> u8 list option \<Rightarrow> (int \<times> aq_hw_s) option" where
  "hw_init t nf stack =
     (case t of hw_atl_ops_a0 \<Rightarrow> hw_atl_a0_hw_init stack
      | hw_atl_ops_b0 \<Rightarrow> hw_atl_b0_hw_init (NETIF_F_RXCSUM nf) stack)"

definition hw_reset :: "hw_table \<Rightarrow> u32 list \<Rightarrow> aq_hw_s \<Rightarrow> (int \<times> aq_hw_s) option" where
  "hw_reset t = (case t of hw_atl_ops_a0 \<Rightarrow> hw_atl_a0_hw_reset | hw_atl_ops_b0 \<Rightarrow> hw_atl_b0_hw_reset)"

definition hw_start :: "hw_table \<Rightarrow> aq_hw_s \<Rightarrow> int \<times> aq_hw_s" where
  "hw_start t = (case t of hw_atl_ops_a0 \<Rightarrow> hw_atl_a0_hw_start | hw_atl_ops_b0 \<Rightarrow> hw_atl_b0_hw_start)"

definition hw_stop :: "hw_table \<Rightarrow> aq_hw_s \<Rightarrow> int \<times> aq_hw_s" where
  "hw_stop t = (case t of hw_atl_ops_a0 \<Rightarrow> hw_atl_a0_hw_stop | hw_atl_ops_b0 \<Rightarrow> hw_atl_b0_hw_stop)"

definition hw_packet_filter_set :: "hw_table \<Rightarrow> aq_hw_s \<Rightarrow> u32 \<Rightarrow> int \<times> aq_hw_s" where
  "hw_packet_filter_set t =
     (case t of hw_atl_ops_a0 \<Rightarrow> hw_atl_a0_hw_packet_filter_set | hw_atl_ops_b0 \<Rightarrow> hw_atl_b0_hw_packet_filter_set)"

definition hw_multicast_list_set :: "hw_table \<Rightarrow> aq_hw_s \<Rightarrow> u8 list list \<Rightarrow> u32 \<Rightarrow> int \<times> aq_hw_s" where
  "hw_multicast_list_set t =
     (case t of hw_atl_ops_a0 \<Rightarrow> hw_atl_a0_hw_multicast_list_set | hw_atl_ops_b0 \<Rightarrow> hw_atl_b0_hw_multicast_list_set)"

definition hw_interrupt_moderation_set :: "hw_table \<Rightarrow> aq_hw_s \<Rightarrow> int \<times> aq_hw_s" where
  "hw_interrupt_moderation_set t =
     (case t of hw_atl_ops_a0 \<Rightarrow> hw_atl_a0_hw_interrupt_moderation_set
      | hw_atl_ops_b0 \<Rightarrow> hw_atl_b0_hw_interrupt_moderation_set)"

definition hw_rss_set :: "hw_table \<Rightarrow> aq_hw_s \<Rightarrow> aq_rss_parameters \<Rightarrow> int \<times> aq_hw_s" where
  "hw_rss_set t = (case t of hw_atl_ops_a0 \<Rightarrow> hw_atl_a0_hw_rss_set | hw_atl_ops_b0 \<Rightarrow> hw_atl_b0_hw_rss_set)"

definition hw_set_fc :: "hw_table \<Rightarrow> (aq_hw_s \<Rightarrow> u32 \<Rightarrow> u32 \<Rightarrow> int \<times> aq_hw_s) option" where
  "hw_set_fc t = (case t of hw_atl_ops_a0 \<Rightarrow> None | hw_atl_ops_b0 \<Rightarrow> Some hw_atl_b0_set_fc)"

definition hw_set_offload :: "hw_table \<Rightarrow> netif_bits \<Rightarrow> (aq_hw_s \<Rightarrow> aq_nic_cfg_s \<Rightarrow> int \<times> aq_hw_s) option" where
  "hw_set_offload t nf =
     (case t of hw_atl_ops_a0 \<Rightarrow> None | hw_atl_ops_b0 \<Rightarrow> Some (hw_atl_b0_hw_offload_set (NETIF_F_RXCSUM nf)))"

text \<open>Loopback inside the chip.\<close>

definition hw_atl_b0_set_loopback :: "aq_hw_s \<Rightarrow> u32 \<Rightarrow> bool \<Rightarrow> int \<times> aq_hw_s" where
  "hw_atl_b0_set_loopback self mode enable =
     (if mode = AQ_HW_LOOPBACK_DMA_SYS then
        (0, hw_atl_rpb_dma_sys_lbk_set (hw_atl_tpb_tx_dma_sys_lbk_en_set self (of_flag enable)) (of_flag enable))
      else if mode = AQ_HW_LOOPBACK_PKT_SYS then
        (0, hw_atl_rpf_tpo_to_rpf_sys_lbk_set (hw_atl_tpo_tx_pkt_sys_lbk_en_set self (of_flag enable)) (of_flag enable))
      else if mode = AQ_HW_LOOPBACK_DMA_NET then
        (0, hw_atl_rpb_dma_net_lbk_set (hw_atl_tpb_tx_dma_net_lbk_en_set self (of_flag enable)) (of_flag enable))
      else (- EINVAL, self))"

definition hw_set_loopback :: "hw_table \<Rightarrow> (aq_hw_s \<Rightarrow> u32 \<Rightarrow> bool \<Rightarrow> int \<times> aq_hw_s) option" where
  "hw_set_loopback t = (case t of hw_atl_ops_a0 \<Rightarrow> None | hw_atl_ops_b0 \<Rightarrow> Some hw_atl_b0_set_loopback)"

subsection \<open>The board table\<close>

definition AQ_HWREV_ANY :: u16 where "AQ_HWREV_ANY = 0"
definition AQ_HWREV_1 :: u16 where "AQ_HWREV_1 = 1"
definition AQ_HWREV_2 :: u16 where "AQ_HWREV_2 = 2"
definition PCI_VENDOR_ID_AQUANTIA :: u16 where "PCI_VENDOR_ID_AQUANTIA = 0x1D6A"

record aq_board_revision_s =
  devid :: u16
  revision :: u16
  board_ops :: hw_table
  board_caps :: aq_hw_caps_s

definition hw_atl_boards :: "netif_bits \<Rightarrow> aq_board_revision_s list" where
  "hw_atl_boards nf =
     map (\<lambda>(d, caps). \<lparr>devid = d, revision = AQ_HWREV_1, board_ops = hw_atl_ops_a0, board_caps = caps nf\<rparr>)
       [(0x0001, hw_atl_a0_caps_aqc107), (0xD100, hw_atl_a0_caps_aqc100), (0xD107, hw_atl_a0_caps_aqc107),
        (0xD108, hw_atl_a0_caps_aqc108), (0xD109, hw_atl_a0_caps_aqc109)] @
     map (\<lambda>(d, caps). \<lparr>devid = d, revision = AQ_HWREV_2, board_ops = hw_atl_ops_b0, board_caps = caps nf\<rparr>)
       [(0x0001, hw_atl_b0_caps_aqc107), (0xD100, hw_atl_b0_caps_aqc100), (0xD107, hw_atl_b0_caps_aqc107),
        (0xD108, hw_atl_b0_caps_aqc108), (0xD109, hw_atl_b0_caps_aqc109)] @
     map (\<lambda>(d, caps). \<lparr>devid = d, revision = AQ_HWREV_ANY, board_ops = hw_atl_ops_b0, board_caps = caps nf\<rparr>)
       [(0x00B1, hw_atl_b0_caps_aqc107), (0x07B1, hw_atl_b0_caps_aqc107), (0x08B1, hw_atl_b0_caps_aqc108),
        (0x09B1, hw_atl_b0_caps_aqc109), (0x11B1, hw_atl_b0_caps_aqc111), (0x12B1, hw_atl_b0_caps_aqc112),
        (0x80B1, hw_atl_b0_caps_aqc100), (0x87B1, hw_atl_b0_caps_aqc107), (0x88B1, hw_atl_b0_caps_aqc108),
        (0x89B1, hw_atl_b0_caps_aqc109), (0x91B1, hw_atl_b0_caps_aqc111), (0x92B1, hw_atl_b0_caps_aqc112)]"

text \<open>\<open>aq_pci_tbl\<close>: the device numbers the driver registers for.\<close>

definition aq_pci_tbl :: "u16 list" where
  "aq_pci_tbl = [0x0001, 0xD100, 0xD107, 0xD108, 0xD109, 0x00B1, 0x07B1, 0x08B1, 0x09B1, 0x11B1, 0x12B1,
     0x80B1, 0x87B1, 0x88B1, 0x89B1, 0x91B1, 0x92B1]"

definition aq_pci_probe_get_hw_by_id :: "netif_bits \<Rightarrow> u16 \<Rightarrow> u16 \<Rightarrow> u8 \<Rightarrow> int + hw_table \<times> aq_hw_caps_s" where
  "aq_pci_probe_get_hw_by_id nf vendor device rev_id =
     (if vendor \<noteq> PCI_VENDOR_ID_AQUANTIA then Inl (- EINVAL)
      else case find (\<lambda>b. devid b = device \<and> (revision b = AQ_HWREV_ANY \<or> revision b = ucast rev_id))
                  (hw_atl_boards nf) of
             None \<Rightarrow> Inl (- EINVAL)
           | Some b \<Rightarrow> Inr (board_ops b, board_caps b))"

end
