(* ===== verification/Nic_Cfg.thy ===== *)
theory Nic_Cfg
  imports Boards Samples
begin

section \<open>The configuration of the adapter (aq_nic.c)\<close>

text \<open>
  \<open>aq_nic_cfg_start\<close> derives the configuration from the board's capabilities, the module
  parameters, the number of processors and the interrupt vectors the kernel has granted:
  ring sizes, vectors, RSS queues and the vector of the link interrupt.
\<close>

subsection \<open>Constants (aq_cfg.h, aq_hw.h)\<close>

definition AQ_CFG_TCS_DEF :: u8 where "AQ_CFG_TCS_DEF = 1"
definition AQ_CFG_TXDS_DEF :: u32 where "AQ_CFG_TXDS_DEF = 4096"
definition AQ_CFG_RXDS_DEF :: u32 where "AQ_CFG_RXDS_DEF = 2048"
definition AQ_CFG_IS_POLLING_DEF :: bool where "AQ_CFG_IS_POLLING_DEF = False"
definition AQ_CFG_IS_LRO_DEF :: bool where "AQ_CFG_IS_LRO_DEF = True"
definition AQ_CFG_IS_RSS_DEF :: bool where "AQ_CFG_IS_RSS_DEF = True"
definition AQ_CFG_RSS_BASE_CPU_NUM_DEF :: u16 where "AQ_CFG_RSS_BASE_CPU_NUM_DEF = 0"
definition AQ_NIC_FC_FULL :: u32 where "AQ_NIC_FC_FULL = 3"
definition AQ_CFG_FC_MODE :: u32 where "AQ_CFG_FC_MODE = AQ_NIC_FC_FULL"
definition AQ_CFG_WOL_MODE :: u32 where "AQ_CFG_WOL_MODE = AQ_NIC_WOL_ENABLED"
definition AQ_CFG_SPEED_MSK :: u32 where "AQ_CFG_SPEED_MSK = 0xFFFF"
definition AQ_CFG_IS_AUTONEG_DEF :: bool where "AQ_CFG_IS_AUTONEG_DEF = True"
definition AQ_CFG_MTU_DEF :: u32 where "AQ_CFG_MTU_DEF = 1514"
definition AQ_HW_IRQ_LEGACY :: u32 where "AQ_HW_IRQ_LEGACY = 1"
definition AQ_HW_IRQ_MSI :: u32 where "AQ_HW_IRQ_MSI = 2"
definition AQ_HW_IRQ_MSIX :: u32 where "AQ_HW_IRQ_MSIX = 3"
definition AQ_HW_SERVICE_IRQS :: u32 where "AQ_HW_SERVICE_IRQS = 1"

text \<open>The module parameters.\<close>

record aq_params =
  aq_itr :: u32
  aq_itr_tx :: u32
  aq_itr_rx :: u32
  aq_rxpageorder :: u32
  aq_rx_refill_thres :: u32

subsection \<open>Receive-side scaling\<close>

definition rss_key :: "u8 list" where
  "rss_key =
     [0x1e, 0xad, 0x71, 0x87, 0x65, 0xfc, 0x26, 0x7d, 0x0d, 0x45, 0x67, 0x74, 0xcd, 0x06, 0x1a, 0x18,
      0xb6, 0xc1, 0xf0, 0xc7, 0xbb, 0x18, 0xbe, 0xf8, 0x19, 0x13, 0x4b, 0xa9, 0xd0, 0x3e, 0xfe, 0x70,
      0x25, 0x03, 0xab, 0x50, 0x6a, 0x8b, 0x82, 0x0c]"

definition aq_nic_rss_init :: "u32 \<Rightarrow> aq_nic_cfg_s \<Rightarrow> aq_nic_cfg_s" where
  "aq_nic_rss_init n cfg =
     cfg\<lparr>aq_rss := (aq_rss cfg)
       \<lparr>hash_secret_key_size := of_nat (length rss_key),
        hash_secret_key := map (\<lambda>i. u32_of_bytes (rss_key ! (4 * i)) (rss_key ! (4 * i + 1))
          (rss_key ! (4 * i + 2)) (rss_key ! (4 * i + 3))) [0..<10],
        indirection_table_size := of_nat AQ_CFG_RSS_INDIRECTION_TABLE_MAX,
        indirection_table := map (\<lambda>i. ucast (of_nat i AND (n - 1))) [0..<AQ_CFG_RSS_INDIRECTION_TABLE_MAX]\<rparr>\<rparr>"

subsection \<open>The configuration\<close>

text \<open>\<open>cfg->vecs\<close>: what the chip, the processors and the interrupt vectors allow, rounded down to a power of two.\<close>

definition cfg_vecs :: "u32 \<Rightarrow> u32 \<Rightarrow> u32 \<Rightarrow> u32" where
  "cfg_vecs caps cpus irqvecs =
     (let v = min caps AQ_CFG_VECS_DEF;
          v = min v cpus;
          v = (if irqvecs > AQ_HW_SERVICE_IRQS then min v (irqvecs - AQ_HW_SERVICE_IRQS) else v)
      in if v \<ge> 8 then 8 else if v \<ge> 4 then 4 else if v \<ge> 2 then 2 else 1)"

definition cfg_defaults :: "aq_params \<Rightarrow> aq_nic_cfg_s \<Rightarrow> aq_nic_cfg_s" where
  "cfg_defaults p cfg =
     cfg\<lparr>tcs := AQ_CFG_TCS_DEF, is_polling := AQ_CFG_IS_POLLING_DEF, itr := aq_itr p,
         tx_itr := ucast (aq_itr_tx p), rx_itr := ucast (aq_itr_rx p), rxpageorder := aq_rxpageorder p,
         is_rss := AQ_CFG_IS_RSS_DEF, num_rss_queues := AQ_CFG_NUM_RSS_QUEUES_DEF,
         aq_rss := (aq_rss cfg)\<lparr>base_cpu_number := AQ_CFG_RSS_BASE_CPU_NUM_DEF\<rparr>,
         flow_control := AQ_CFG_FC_MODE, wol := AQ_CFG_WOL_MODE, mtu := AQ_CFG_MTU_DEF,
         link_speed_msk := AQ_CFG_SPEED_MSK, is_autoneg := AQ_CFG_IS_AUTONEG_DEF, is_lro := AQ_CFG_IS_LRO_DEF,
         rxds := min (caps_rxds_max (aq_hw_caps cfg)) AQ_CFG_RXDS_DEF,
         txds := min (caps_txds_max (aq_hw_caps cfg)) AQ_CFG_TXDS_DEF\<rparr>"

definition aq_nic_cfg_start :: "aq_params \<Rightarrow> u32 \<Rightarrow> u32 \<Rightarrow> u32 \<Rightarrow> aq_nic_cfg_s \<Rightarrow> aq_nic_cfg_s" where
  "aq_nic_cfg_start p cpus irqvecs irqtype cfg =
     (let caps = aq_hw_caps cfg;
          cfg = cfg_defaults p cfg;
          cfg = cfg\<lparr>vecs := cfg_vecs (caps_vecs caps) cpus irqvecs\<rparr>;
          cfg = cfg\<lparr>num_rss_queues := min (vecs cfg) AQ_CFG_NUM_RSS_QUEUES_DEF\<rparr>;
          cfg = aq_nic_rss_init (num_rss_queues cfg) cfg;
          cfg = cfg\<lparr>irq_type := irqtype\<rparr>;
          cfg = (if irq_type cfg = AQ_HW_IRQ_LEGACY \<or> caps_vecs caps = 1 \<or> vecs cfg = 1
                 then cfg\<lparr>is_rss := False, vecs := 1\<rparr> else cfg);
          cfg = cfg\<lparr>link_irq_vec := (if AQ_HW_SERVICE_IRQS > 0 \<and> vecs cfg + 1 \<le> irqvecs then vecs cfg else 0)\<rparr>;
          cfg = cfg\<lparr>link_speed_msk := link_speed_msk cfg AND ucast (caps_link_speed_msk caps)\<rparr>
      in cfg\<lparr>features := caps_hw_features caps\<rparr>)"

subsection \<open>What the configuration guarantees\<close>

lemma cfg_vecs_pow2: "cfg_vecs caps cpus irqvecs \<in> {1, 2, 4, 8}"
  by (simp add: cfg_vecs_def Let_def)

lemma cfg_vecs_le:
  assumes "0 < cpus" "0 < caps"
  shows "cfg_vecs caps cpus irqvecs \<le> cpus" "cfg_vecs caps cpus irqvecs \<le> caps"
    "1 < irqvecs \<Longrightarrow> cfg_vecs caps cpus irqvecs \<le> irqvecs - 1"
proof -
  define m where "m = min (min caps AQ_CFG_VECS_DEF) cpus"
  define v where "v = (if irqvecs > AQ_HW_SERVICE_IRQS then min m (irqvecs - AQ_HW_SERVICE_IRQS) else m)"
  have i: "1 < irqvecs \<Longrightarrow> 0 < irqvecs - 1" by (simp add: word_less_nat_alt unat_sub word_le_nat_alt)
  have "0 < m" using assms by (simp add: m_def AQ_CFG_VECS_DEF_def)
  then have "0 < v" using i by (simp add: v_def AQ_HW_SERVICE_IRQS_def)
  then have "(if v \<ge> 8 then 8 else if v \<ge> 4 then 4 else if v \<ge> 2 then 2 else 1) \<le> v"
    by (simp add: word_less_nat_alt word_le_nat_alt)
  then have "cfg_vecs caps cpus irqvecs \<le> v" unfolding cfg_vecs_def Let_def m_def v_def .
  moreover have "v \<le> m" "1 < irqvecs \<Longrightarrow> v \<le> irqvecs - 1" by (simp_all add: v_def AQ_HW_SERVICE_IRQS_def)
  moreover have "m \<le> caps" "m \<le> cpus" by (auto simp: m_def min_le_iff_disj)
  ultimately show "cfg_vecs caps cpus irqvecs \<le> cpus" "cfg_vecs caps cpus irqvecs \<le> caps"
    "1 < irqvecs \<Longrightarrow> cfg_vecs caps cpus irqvecs \<le> irqvecs - 1"
    by (meson order_trans)+
qed

lemma mask_mod:
  assumes "n \<in> {1, 2, 4, 8 :: u32}"
  shows "unat (ucast (of_nat i AND (n - 1)) :: u8) = i mod unat n"
proof -
  have "of_nat i AND (2 ^ k - 1) = (of_nat (i mod 2 ^ k) :: u32)" for k
    by (simp flip: mask_eq_exp_minus_1 take_bit_eq_mask take_bit_eq_mod add: take_bit_of_nat)
  note this [of 0] this [of 1] this [of 2] this [of 3]
  then show ?thesis using assms
    by (auto simp: unsigned_of_nat unsigned_ucast_eq take_bit_nat_eq_self)
qed


definition params0 :: aq_params where
  "params0 = \<lparr>aq_itr = 0xFFFF, aq_itr_tx = 0, aq_itr_rx = 0, aq_rxpageorder = 0, aq_rx_refill_thres = 32\<rparr>"


text \<open>
  The count of granted vectors bounds the queues only when it is above the service vector. With
  a single vector (MSI, a type the driver does not take for legacy) the eight vectors of the
  configuration have one interrupt between them.
\<close>

lemma single_vector_ignored: "vecs (aq_nic_cfg_start params0 8 1 AQ_HW_IRQ_MSI cfg0) = 8"
  by code_simp

text \<open>With a legacy interrupt the RSS table still spreads over queues whose vector is not served.\<close>

lemma legacy_keeps_rss_queues:
  "vecs (aq_nic_cfg_start params0 8 1 AQ_HW_IRQ_LEGACY cfg0) = 1"
  "num_rss_queues (aq_nic_cfg_start params0 8 1 AQ_HW_IRQ_LEGACY cfg0) = 8"
  "\<not> is_rss (aq_nic_cfg_start params0 8 1 AQ_HW_IRQ_LEGACY cfg0)"
  by code_simp+

end
