(* ===== verification/Ptp_Skb.thy ===== *)
theory Ptp_Skb
  imports Ring Vec_Mem
begin

section \<open>Packets that wait for their time stamp (aq_ptp.c)\<close>

text \<open>
  \<open>ptp_skb_ring\<close> keeps the packets sent through the PTP ring until the chip reports when each
  left: a circular buffer with a free place between head and tail. Against the interface
  \<open>bounded_fifo\<close> it is a first-in first-out queue of at most \<open>size - 1\<close> packets. The spin lock
  around each operation has no counterpart: an operation is one step. Packets are the
  addresses of their socket buffers; \<open>sr_ptr\<close> is the block that holds the entries (0 is NULL).
\<close>

record ptp_skb_ring =
  sr_ptr :: u64
  sr_buff :: "u64 list"
  sr_size :: u32
  sr_head :: u32
  sr_tail :: u32

definition aq_ptp_skb_put :: "ptp_skb_ring \<Rightarrow> u64 \<Rightarrow> int \<times> ptp_skb_ring" where
  "aq_ptp_skb_put r s =
     (let next_head = (sr_head r + 1) mod sr_size r in
      if next_head = sr_tail r then (- 1, r)
      else (0, r\<lparr>sr_buff := (sr_buff r)[unat (sr_head r) := s], sr_head := next_head\<rparr>))"

definition aq_ptp_skb_get :: "ptp_skb_ring \<Rightarrow> u64 option \<times> ptp_skb_ring" where
  "aq_ptp_skb_get r =
     (if sr_tail r = sr_head r then (None, r)
      else (Some (sr_buff r ! unat (sr_tail r)), r\<lparr>sr_tail := (sr_tail r + 1) mod sr_size r\<rparr>))"

definition aq_ptp_skb_buf_len :: "ptp_skb_ring \<Rightarrow> u32" where
  "aq_ptp_skb_buf_len r =
     (if sr_head r \<ge> sr_tail r then sr_head r - sr_tail r else sr_size r - sr_tail r + sr_head r)"

text \<open>The entries of a fresh block (\<open>stale\<close>) are whatever is in its memory.\<close>

definition aq_ptp_skb_ring_init :: "u64 list \<Rightarrow> ptp_skb_ring \<Rightarrow> u32 \<Rightarrow> mem \<Rightarrow> int \<times> ptp_skb_ring \<times> mem" where
  "aq_ptp_skb_ring_init stale r sz m =
     (case mem_get Kalloc m of (p, m) \<Rightarrow>
        if p = 0 then (- ENOMEM, r, m)
        else (0, r\<lparr>sr_ptr := p, sr_buff := take (unat sz) (stale @ replicate (unat sz) 0),
                   sr_size := sz, sr_head := 0, sr_tail := 0\<rparr>, m))"

text \<open>
  Emptying the ring: the result lists the packets freed, oldest first. A ring of \<open>n\<close> entries
  is empty after \<open>n\<close> turns at the latest.
\<close>

fun skb_clean_loop :: "nat \<Rightarrow> ptp_skb_ring \<Rightarrow> u64 list \<times> ptp_skb_ring" where
  "skb_clean_loop 0 r = ([], r)"
| "skb_clean_loop (Suc n) r =
     (case aq_ptp_skb_get r of
        (None, r) \<Rightarrow> ([], r)
      | (Some s, r) \<Rightarrow> (case skb_clean_loop n r of (ss, r) \<Rightarrow> (s # ss, r)))"

definition aq_ptp_skb_ring_clean :: "ptp_skb_ring \<Rightarrow> u64 list \<times> ptp_skb_ring" where
  "aq_ptp_skb_ring_clean r = skb_clean_loop (unat (sr_size r)) r"

definition aq_ptp_skb_ring_release :: "ptp_skb_ring \<Rightarrow> mem \<Rightarrow> u64 list \<times> ptp_skb_ring \<times> mem" where
  "aq_ptp_skb_ring_release r m =
     (if sr_ptr r \<noteq> 0
      then (case aq_ptp_skb_ring_clean r of (ss, r) \<Rightarrow> (ss, r\<lparr>sr_ptr := 0\<rparr>, mem_logs (Kfree (sr_ptr r)) m))
      else ([], r, m))"

subsection \<open>The interface of a bounded queue\<close>

text \<open>
  What a sequence of operations (\<open>Some x\<close> puts, \<open>None\<close> gets) does to a queue of at most
  \<open>cap\<close> entries, and the results of the gets.
\<close>

fun fifo_spec :: "nat \<Rightarrow> 'a option list \<Rightarrow> 'a list \<Rightarrow> 'a option list \<times> 'a list" where
  "fifo_spec cap [] xs = ([], xs)"
| "fifo_spec cap (Some x # ops) xs = fifo_spec cap ops (if length xs < cap then xs @ [x] else xs)"
| "fifo_spec cap (None # ops) xs =
     (case xs of [] \<Rightarrow> (case fifo_spec cap ops [] of (ys, xs) \<Rightarrow> (None # ys, xs))
      | x # xs \<Rightarrow> (case fifo_spec cap ops xs of (ys, xs) \<Rightarrow> (Some x # ys, xs)))"

locale bounded_fifo =
  fixes ok :: "'q \<Rightarrow> bool"
    and items :: "'q \<Rightarrow> 'a list"
    and room :: "'q \<Rightarrow> nat"
    and put :: "'q \<Rightarrow> 'a \<Rightarrow> int \<times> 'q"
    and get :: "'q \<Rightarrow> 'a option \<times> 'q"
  assumes fits: "ok q \<Longrightarrow> length (items q) \<le> room q"
    and put_fits: "ok q \<Longrightarrow> length (items q) < room q \<Longrightarrow> put q x = (e, q') \<Longrightarrow>
      e = 0 \<and> ok q' \<and> items q' = items q @ [x] \<and> room q' = room q"
    and put_full: "ok q \<Longrightarrow> length (items q) = room q \<Longrightarrow> put q x = (- 1, q)"
    and get_some: "ok q \<Longrightarrow> get q = (y, q') \<Longrightarrow>
      ok q' \<and> room q' = room q \<and>
      (case items q of [] \<Rightarrow> y = None \<and> q' = q | x # xs \<Rightarrow> y = Some x \<and> items q' = xs)"
begin

text \<open>The same run on the implementation.\<close>

fun run :: "'a option list \<Rightarrow> 'q \<Rightarrow> 'a option list \<times> 'q" where
  "run [] q = ([], q)"
| "run (Some x # ops) q = (case put q x of (e, q) \<Rightarrow> run ops q)"
| "run (None # ops) q = (case get q of (y, q) \<Rightarrow> case run ops q of (ys, q) \<Rightarrow> (y # ys, q))"

lemma put_cases:
  assumes "ok q" "put q x = (e, q')"
  shows "ok q'" "room q' = room q"
    "items q' = (if length (items q) < room q then items q @ [x] else items q)"
    "e = (if length (items q) < room q then 0 else - 1)"
proof -
  have "length (items q) < room q \<or> length (items q) = room q" using fits [OF assms(1)] by linarith
  then show "ok q'" "room q' = room q"
    "items q' = (if length (items q) < room q then items q @ [x] else items q)"
    "e = (if length (items q) < room q then 0 else - 1)"
    using put_fits [OF assms(1) _ assms(2)] put_full [OF assms(1), of x] assms by auto
qed

theorem run_refines:
  "ok q \<Longrightarrow> run ops q = (ys, q') \<Longrightarrow> ok q' \<and> room q' = room q \<and> fifo_spec (room q) ops (items q) = (ys, items q')"
proof (induction ops arbitrary: q ys q')
  case (Cons a ops)
  show ?case
  proof (cases a)
    case None
    obtain y q1 where g: "get q = (y, q1)" by fastforce
    obtain zs q2 where r: "run ops q1 = (zs, q2)" by fastforce
    have "ok q1" "room q1 = room q" using get_some [OF Cons.prems(1) g] by simp_all
    with Cons.IH [OF _ r] have "ok q2 \<and> room q2 = room q \<and> fifo_spec (room q) ops (items q1) = (zs, items q2)" by simp
    then show ?thesis using None get_some [OF Cons.prems(1) g] Cons.prems(2) g r by (auto split: list.splits)
  next
    case (Some x)
    obtain e q1 where p: "put q x = (e, q1)" by fastforce
    then have "run ops q1 = (ys, q')" using Some Cons.prems(2) by simp
    then show ?thesis using Cons.IH [of q1 ys q'] put_cases [OF Cons.prems(1) p] Some by simp
  qed
qed simp

end

subsection \<open>The ring of packets is one\<close>

lemma skb_step: "p < sz \<Longrightarrow> (p + 1) mod sz = ring_next sz p"
proof -
  assume p: "p < sz"
  then have "unat (p + 1) = Suc (unat p)"
    using unat_u32_less [of sz] by (simp add: unat_plus_if' word_less_nat_alt)
  then show ?thesis using unat_ring_next [OF p] by (simp add: word_unat_eq_iff unat_mod)
qed

definition skbs :: "ptp_skb_ring \<Rightarrow> u64 list" where
  "skbs r = map (\<lambda>p. sr_buff r ! unat p)
     (ring.walk (sr_size r) (sr_tail r) (ring.gap (sr_size r) (sr_tail r) (sr_head r)))"

definition skb_ring_ok :: "ptp_skb_ring \<Rightarrow> bool" where
  "skb_ring_ok r \<longleftrightarrow> sr_head r < sr_size r \<and> sr_tail r < sr_size r \<and> length (sr_buff r) = unat (sr_size r)"

definition skb_room :: "ptp_skb_ring \<Rightarrow> nat" where
  "skb_room r = unat (sr_size r) - 1"

interpretation skb_fifo: bounded_fifo skb_ring_ok skbs skb_room aq_ptp_skb_put aq_ptp_skb_get
proof
  fix q q' :: ptp_skb_ring and x e y
  let ?n = "ring.gap (sr_size q) (sr_tail q) (sr_head q)"
  assume q: "skb_ring_ok q"
  then have pos: "sr_tail q < sr_size q" "sr_head q < sr_size q" and len: "length (sr_buff q) = unat (sr_size q)"
    by (auto simp: skb_ring_ok_def)
  have n: "length (skbs q) = ?n" "?n < unat (sr_size q)"
    using ring.gap_less [OF pos(1)] by (simp_all add: skbs_def ring.walk_def)
  show "length (skbs q) \<le> skb_room q" using n by (simp add: skb_room_def)
  note nxt = skb_step [OF pos(2)] skb_step [OF pos(1)]
  have full: "ring_next (sr_size q) (sr_head q) = sr_tail q" if "?n = skb_room q"
  proof (rule ring.pos_inj [of _ "sr_size q"])
    have "ring_next (sr_size q) (sr_head q) = (ring_next (sr_size q) ^^ Suc ?n) (sr_tail q)"
      using ring.iter_gap [OF pos] by simp
    then have "unat (ring_next (sr_size q) (sr_head q)) = (unat (sr_tail q) + Suc ?n) mod unat (sr_size q)"
      by (simp only: ring.pos_iter [OF pos(1)])
    moreover have "Suc ?n = unat (sr_size q)" using that n(2) by (simp add: skb_room_def)
    ultimately show "unat (ring_next (sr_size q) (sr_head q)) = unat (sr_tail q)"
      using pos(1) by (simp add: word_less_nat_alt)
  qed (use pos in \<open>simp_all add: ring_next_less\<close>)
  show "aq_ptp_skb_put q x = (- 1, q)" if "length (skbs q) = skb_room q"
    using full that by (simp add: n aq_ptp_skb_put_def nxt)
  show "e = 0 \<and> skb_ring_ok q' \<and> skbs q' = skbs q @ [x] \<and> skb_room q' = skb_room q"
    if less: "length (skbs q) < skb_room q" and put: "aq_ptp_skb_put q x = (e, q')"
  proof -
    have g: "ring.gap (sr_size q) (sr_tail q) (ring_next (sr_size q) (sr_head q)) = Suc ?n"
      using less n by (intro ring.gap_nxt_right [OF pos]) (simp add: skb_room_def)
    then have "ring_next (sr_size q) (sr_head q) \<noteq> sr_tail q"
      using ring.gap_0_iff [OF pos(1) pos(1)] by auto
    then have q': "e = 0" "q' = q\<lparr>sr_buff := (sr_buff q)[unat (sr_head q) := x], sr_head := ring_next (sr_size q) (sr_head q)\<rparr>"
      using put by (simp_all add: aq_ptp_skb_put_def nxt)
    have "sr_head q \<notin> set (ring.walk (sr_size q) (sr_tail q) ?n)"
      using ring.in_walk_iff [OF pos] n(2) by simp
    then have "map (\<lambda>p. (sr_buff q)[unat (sr_head q) := x] ! unat p) (ring.walk (sr_size q) (sr_tail q) ?n) = skbs q"
      unfolding skbs_def by (intro map_cong refl) (metis nth_list_update_neq unsigned_word_eqI)
    moreover have "ring.walk (sr_size q) (sr_tail q) (Suc ?n) = ring.walk (sr_size q) (sr_tail q) ?n @ [sr_head q]"
      using ring.iter_gap [OF pos] by (simp add: ring.walk_def)
    ultimately have "skbs q' = skbs q @ [x]"
      using len pos(2) unfolding skbs_def [of q'] by (simp add: q'(2) g word_less_nat_alt)
    then show ?thesis using pos len q'(1) by (simp add: q'(2) skb_ring_ok_def skb_room_def ring_next_less)
  qed
  show "skb_ring_ok q' \<and> skb_room q' = skb_room q \<and>
      (case skbs q of [] \<Rightarrow> y = None \<and> q' = q | x # xs \<Rightarrow> y = Some x \<and> skbs q' = xs)"
    if get: "aq_ptp_skb_get q = (y, q')"
  proof (cases "sr_tail q = sr_head q")
    case True
    then have "skbs q = []" using ring.gap_0_iff [OF pos] by (simp add: skbs_def)
    then show ?thesis using get q True by (simp add: aq_ptp_skb_get_def)
  next
    case False
    have g: "?n = Suc (ring.gap (sr_size q) (ring_next (sr_size q) (sr_tail q)) (sr_head q))"
      using ring.gap_nxt_left [OF pos False] by simp
    have q': "y = Some (sr_buff q ! unat (sr_tail q))" "q' = q\<lparr>sr_tail := ring_next (sr_size q) (sr_tail q)\<rparr>"
      using get False by (auto simp: aq_ptp_skb_get_def nxt)
    have "skbs q = sr_buff q ! unat (sr_tail q) # skbs q'"
      unfolding skbs_def g q' by (simp add: ring.walk_Suc)
    then show ?thesis using q' pos len by (simp add: skb_ring_ok_def skb_room_def ring_next_less)
  qed
qed

fun skb_run :: "u64 option list \<Rightarrow> ptp_skb_ring \<Rightarrow> u64 option list \<times> ptp_skb_ring" where
  "skb_run [] r = ([], r)"
| "skb_run (Some x # ops) r = (case aq_ptp_skb_put r x of (e, r) \<Rightarrow> skb_run ops r)"
| "skb_run (None # ops) r = (case aq_ptp_skb_get r of (y, r) \<Rightarrow> case skb_run ops r of (ys, r) \<Rightarrow> (y # ys, r))"

lemma skb_run_eq: "skb_run ops r = skb_fifo.run ops r"
  by (induction ops r rule: skb_run.induct) (auto split: prod.splits)

lemma skb_buf_len: "skb_ring_ok r \<Longrightarrow> unat (aq_ptp_skb_buf_len r) = length (skbs r)"
proof -
  assume "skb_ring_ok r"
  then have pos: "sr_tail r < sr_size r" "sr_head r < sr_size r" by (auto simp: skb_ring_ok_def)
  let ?h = "unat (sr_head r)" and ?t = "unat (sr_tail r)" and ?s = "unat (sr_size r)"
  have l: "length (skbs r) = ring.gap (sr_size r) (sr_tail r) (sr_head r)" by (simp add: skbs_def ring.walk_def)
  have b: "?t < ?s" "?h < ?s" using pos by (simp_all add: word_less_nat_alt)
  show ?thesis
  proof (cases "sr_tail r \<le> sr_head r")
    case True
    then show ?thesis
      unfolding aq_ptp_skb_buf_len_def l ring.gap_cases [OF pos] by (simp add: word_le_nat_alt unat_sub)
  next
    case False
    then have lt: "?h < ?t" by (simp add: word_le_nat_alt)
    have d: "unat (sr_size r - sr_tail r) = ?s - ?t" using b by (simp add: unat_sub word_le_nat_alt)
    have "unat (sr_size r - sr_tail r + sr_head r) = ?s - ?t + ?h"
    proof -
      have "?s - ?t + ?h < 4294967296" using b lt unat_u32_less [of "sr_size r"] by linarith
      then show ?thesis by (simp add: unat_plus_if' d)
    qed
    then show ?thesis
      using False b lt by (simp add: aq_ptp_skb_buf_len_def l ring.gap_cases [OF pos])
  qed
qed

lemma skb_clean_loop_ptr: "skb_clean_loop n r = (ss, r') \<Longrightarrow> sr_ptr r' = sr_ptr r"
proof (induction n arbitrary: r ss)
  case (Suc n)
  then show ?case by (auto simp: aq_ptp_skb_get_def split: if_splits prod.splits dest: Suc.IH)
qed simp

lemma skb_clean_loop_all:
  "skb_ring_ok r \<Longrightarrow> length (skbs r) \<le> n \<Longrightarrow> skb_clean_loop n r = (ss, r') \<Longrightarrow>
     ss = skbs r \<and> skbs r' = [] \<and> skb_ring_ok r' \<and> skb_room r' = skb_room r \<and> sr_ptr r' = sr_ptr r"
proof (induction n arbitrary: r ss r')
  case (Suc n)
  obtain y r1 where g: "aq_ptp_skb_get r = (y, r1)" by fastforce
  note s = skb_fifo.get_some [OF Suc.prems(1) g]
  have ptr: "sr_ptr r1 = sr_ptr r" using g by (auto simp: aq_ptp_skb_get_def split: if_splits)
  obtain zs r2 where l: "skb_clean_loop n r1 = (zs, r2)" by fastforce
  show ?case
  proof (cases "skbs r")
    case Nil
    then have "y = None" "r1 = r" using s by simp_all
    then show ?thesis using Nil Suc.prems(1,3) g by simp
  next
    case (Cons x xs)
    then have s1: "skb_ring_ok r1" "skb_room r1 = skb_room r" "y = Some x" "skbs r1 = xs" using s by simp_all
    then have "zs = skbs r1 \<and> skbs r2 = [] \<and> skb_ring_ok r2 \<and> skb_room r2 = skb_room r1 \<and> sr_ptr r2 = sr_ptr r1"
      using Suc.IH [OF s1(1) _ l] Suc.prems(2) Cons by simp
    moreover have "ss = x # zs" "r' = r2" using Suc.prems(3) g l s1(3) by simp_all
    ultimately show ?thesis using s1 Cons ptr by simp
  qed
qed simp

lemma skb_ring_clean_all:
  assumes "skb_ring_ok r" "aq_ptp_skb_ring_clean r = (ss, r')"
  shows "ss = skbs r" "skbs r' = []" "skb_ring_ok r'" "skb_room r' = skb_room r" "sr_ptr r' = sr_ptr r"
proof -
  have "length (skbs r) \<le> unat (sr_size r)" using skb_fifo.fits [OF assms(1)] by (simp add: skb_room_def)
  then show "ss = skbs r" "skbs r' = []" "skb_ring_ok r'" "skb_room r' = skb_room r" "sr_ptr r' = sr_ptr r"
    using skb_clean_loop_all [OF assms(1) _ assms(2) [unfolded aq_ptp_skb_ring_clean_def]] by blast+
qed

end
