(* ===== verification/Ptp.thy ===== *)
theory Ptp
  imports Ptp_Skb Boards Vec Nic_Tx
begin

section \<open>The PTP clock and its rings (aq_ptp.c)\<close>

text \<open>
  The clock the driver registers with the kernel, the configuration of hardware time stamps,
  the transmit ring of PTP packets with the ring of their time-stamp write-backs, and the
  receive ring of PTP packets. Only hw_atl_ops_b0 has a clock, so its operations are called
  directly. \<open>aq_nic->aq_ptp\<close> is an option, None when PTP is not available.

  \<open>pnic\<close> is what the functions reach beside the PTP state: the hardware context, the kernel's
  pages and mappings (\<open>p_kern\<close>), allocator (\<open>p_mem\<close>), interrupts, receive path, time and
  memory of received packets, the flags of the adapter, and the driver's global variables
  \<open>ptp_clk_offset\<close>, \<open>ptp_offset\<close>, \<open>aq_ptp_pd\<close> and \<open>aq_ptp_clock\<close>, of which there is one for
  all adapters. References the ring takes on a packet and stamps delivered for it are recorded
  in \<open>p_log\<close>.
\<close>

subsection \<open>State\<close>

datatype ptp_event = Skb_get u64 | Skb_tstamp u64 u64

datatype irq_arg = Irq_vec nat | Irq_ptp | Irq_nic
datatype irq_event = Request_irq u32 irq_arg | Free_irq u32 irq_arg

record ptp_pin_desc =
  pin_name :: string
  pin_index :: u32
  pin_perout :: bool
  pin_chan :: u32

record ptp_tm_offset =
  off_mbps :: u32
  off_egress :: "32 word"
  off_ingress :: "32 word"

record pnic =
  p_hw :: aq_hw_s
  p_kern :: kern
  p_mem :: mem
  p_napi :: napi_s
  p_flags :: u32
  p_log :: "ptp_event list"
  rx_mem :: "u64 \<Rightarrow> u32 \<Rightarrow> u8 list"
  jiffies :: u64
  HZ :: u64
  real_time :: "int \<times> int"
  msi_enabled :: bool
  irq_answer :: "nat \<Rightarrow> int"
  irq_calls :: nat
  irq_log :: "irq_event list"
  ptp_clk_offset :: u64
  ptp_offset :: "ptp_tm_offset list"
  aq_ptp_pd :: "ptp_pin_desc list"
  clock_n_pins :: u32
  clock_n_per_out :: u32

record hwtstamp_config =
  ts_flags :: u32
  ts_tx_type :: u32
  ts_rx_filter :: u32

record ptp_tx_timeout =
  to_active :: bool
  to_start :: u64

record aq_ptp_s =
  ptp_self :: u64
  hwtstamp_config :: hwtstamp_config
  n_pins :: u32
  n_per_out :: u32
  offset_egress :: "32 word"
  offset_ingress :: "32 word"
  ptp_ring_param :: aq_ring_param_s
  ptp_tx_timeout :: ptp_tx_timeout
  idx_vector :: u32
  ptp_napi_scheduled :: bool
  ptp_napi_enabled :: bool
  ptp_tx :: aq_ring_s
  ptp_rx :: aq_ring_s
  hwts_rx :: aq_ring_s
  ptp_tx_mem :: ring_mem
  ptp_rx_mem :: ring_mem
  hwts_rx_mem :: ring_mem
  skb_ring :: ptp_skb_ring

definition dev_kfree_skb_any :: "u64 \<Rightarrow> pnic \<Rightarrow> pnic" where
  "dev_kfree_skb_any s nic = nic\<lparr>p_kern := klogs (Kfree_skb s) (p_kern nic)\<rparr>"

definition plogs :: "ptp_event \<Rightarrow> pnic \<Rightarrow> pnic" where
  "plogs e nic = nic\<lparr>p_log := p_log nic @ [e]\<rparr>"

definition EFAULT :: int where "EFAULT = 14"
definition ERANGE :: int where "ERANGE = 34"
definition EREMOTEIO :: int where "EREMOTEIO = 121"

subsection \<open>Latency of the PHY at each speed\<close>

fun find_offset :: "u32 \<Rightarrow> ptp_tm_offset list \<Rightarrow> (32 word) \<times> (32 word)" where
  "find_offset mbps [] = (0, 0)"
| "find_offset mbps (o' # os) = (if mbps = off_mbps o' then (off_egress o', off_ingress o') else find_offset mbps os)"

definition aq_ptp_tm_offset_set :: "pnic \<Rightarrow> aq_ptp_s option \<Rightarrow> u32 \<Rightarrow> aq_ptp_s option" where
  "aq_ptp_tm_offset_set nic p mbps =
     (case p of None \<Rightarrow> None
      | Some p \<Rightarrow> (case find_offset mbps (ptp_offset nic) of (egress, ingress) \<Rightarrow>
          Some (p\<lparr>offset_egress := egress, offset_ingress := ingress\<rparr>)))"

definition aq_ptp_tm_offset_egress_get :: "aq_ptp_s \<Rightarrow> u64" where
  "aq_ptp_tm_offset_egress_get p = scast (offset_egress p)"

definition aq_ptp_tm_offset_ingress_get :: "aq_ptp_s \<Rightarrow> u64" where
  "aq_ptp_tm_offset_ingress_get p = scast (offset_ingress p)"

text \<open>
  The table is filled from the firmware's words (\<open>struct hw_aq_ptp_offset\<close>: for each speed
  the ingress latency in the low and the egress latency in the high half) and from the module
  parameters (egress in the high half), a parameter of 0 leaving what is there unless forced.
\<close>

record ptp_params =
  aq_ptp_offset_forced :: u32
  aq_ptp_offset_100 :: u32
  aq_ptp_offset_1000 :: u32
  aq_ptp_offset_2500 :: u32
  aq_ptp_offset_5000 :: u32
  aq_ptp_offset_10000 :: u32

definition ptp_offset_init :: "nat \<Rightarrow> u32 \<Rightarrow> u32 \<Rightarrow> u32 \<Rightarrow> ptp_tm_offset list \<Rightarrow> ptp_tm_offset list" where
  "ptp_offset_init i mbps egress ingress t = t[i := \<lparr>off_mbps = mbps, off_egress = egress, off_ingress = ingress\<rparr>]"

definition offset_from_fw :: "nat \<Rightarrow> u32 \<Rightarrow> u32 \<Rightarrow> ptp_tm_offset list \<Rightarrow> ptp_tm_offset list" where
  "offset_from_fw i mbps w = ptp_offset_init i mbps (drop_bit 16 w) (w AND 0xffff)"

definition aq_ptp_offset_init_from_fw :: "u32 list \<Rightarrow> ptp_tm_offset list \<Rightarrow> ptp_tm_offset list" where
  "aq_ptp_offset_init_from_fw offsets t =
     (let t = offset_from_fw 1 100 (offsets ! 0) t;
          t = offset_from_fw 2 1000 (offsets ! 1) t;
          t = offset_from_fw 3 2500 (offsets ! 2) t;
          t = offset_from_fw 4 5000 (offsets ! 3) t
      in offset_from_fw 5 10000 (offsets ! 4) t)"

definition offset_from_param :: "bool \<Rightarrow> nat \<Rightarrow> u32 \<Rightarrow> u32 \<Rightarrow> ptp_tm_offset list \<Rightarrow> ptp_tm_offset list" where
  "offset_from_param force i mbps v t =
     (if force \<or> v \<noteq> 0 then ptp_offset_init i mbps (drop_bit 16 v AND 0xffff) (v AND 0xffff) t else t)"

definition aq_ptp_offset_init_from_params :: "ptp_params \<Rightarrow> bool \<Rightarrow> ptp_tm_offset list \<Rightarrow> ptp_tm_offset list" where
  "aq_ptp_offset_init_from_params m force t =
     (let t = offset_from_param force 1 100 (aq_ptp_offset_100 m) t;
          t = offset_from_param force 2 1000 (aq_ptp_offset_1000 m) t;
          t = offset_from_param force 3 2500 (aq_ptp_offset_2500 m) t;
          t = offset_from_param force 4 5000 (aq_ptp_offset_5000 m) t
      in offset_from_param force 5 10000 (aq_ptp_offset_10000 m) t)"

definition aq_ptp_offset_init :: "ptp_params \<Rightarrow> u32 list \<Rightarrow> ptp_tm_offset list" where
  "aq_ptp_offset_init m offsets =
     (let t = replicate 6 \<lparr>off_mbps = 0, off_egress = 0, off_ingress = 0\<rparr> in
      if aq_ptp_offset_forced m \<noteq> 0 then aq_ptp_offset_init_from_params m True t
      else aq_ptp_offset_init_from_params m False (aq_ptp_offset_init_from_fw offsets t))"

subsection \<open>The clock\<close>

text \<open>
  A \<open>timespec64\<close> is a pair of seconds and nanoseconds; the conversions are those of the
  kernel. An operation missing from the firmware's table (None) is a NULL pointer called.
\<close>

definition timespec64_to_ns :: "int \<times> int \<Rightarrow> u64" where
  "timespec64_to_ns ts = word_of_int (fst ts * 1000000000 + snd ts)"

definition ns_to_timespec64 :: "u64 \<Rightarrow> int \<times> int" where
  "ns_to_timespec64 ns = (sint ns div 1000000000, sint ns mod 1000000000)"

definition hw_get_ptp_ts :: "pnic \<Rightarrow> u64 \<times> pnic" where
  "hw_get_ptp_ts nic = (case hw_atl_b0_get_ptp_ts (ptp_clk_offset nic) (p_hw nic) of (ns, hw) \<Rightarrow> (ns, nic\<lparr>p_hw := hw\<rparr>))"

definition hw_adj_sys_clock :: "u64 \<Rightarrow> pnic \<Rightarrow> pnic" where
  "hw_adj_sys_clock delta nic = nic\<lparr>ptp_clk_offset := snd (hw_atl_b0_adj_sys_clock (ptp_clk_offset nic) delta)\<rparr>"

definition aq_ptp_adjfreq :: "pnic \<Rightarrow> 32 word \<Rightarrow> (int \<times> pnic) option" where
  "aq_ptp_adjfreq nic ppb =
     (case hw_atl_b0_adj_clock_freq (p_hw nic) ppb of
        None \<Rightarrow> None | Some (err, hw) \<Rightarrow> Some (0, nic\<lparr>p_hw := hw\<rparr>))"

definition aq_ptp_adjtime :: "pnic \<Rightarrow> u64 \<Rightarrow> int \<times> pnic" where
  "aq_ptp_adjtime nic delta = (0, hw_adj_sys_clock delta nic)"

definition aq_ptp_gettime :: "pnic \<Rightarrow> int \<times> pnic \<times> (int \<times> int)" where
  "aq_ptp_gettime nic = (case hw_get_ptp_ts nic of (ns, nic) \<Rightarrow> (0, nic, ns_to_timespec64 ns))"

definition aq_ptp_settime :: "pnic \<Rightarrow> int \<times> int \<Rightarrow> int \<times> pnic" where
  "aq_ptp_settime nic ts =
     (let ns = timespec64_to_ns ts in
      case hw_get_ptp_ts nic of (now, nic) \<Rightarrow> (0, hw_adj_sys_clock (ns - now) nic))"

definition aq_ptp_clock_init :: "pnic \<Rightarrow> pnic" where
  "aq_ptp_clock_init nic = snd (aq_ptp_settime nic (real_time nic))"

subsection \<open>Pulses on the GPIO pins\<close>

datatype ptp_clock_request =
    PTP_CLK_REQ_EXTTS
  | PTP_CLK_REQ_PEROUT u32 "int \<times> u32" "int \<times> u32"   \<comment> \<open>index, start, period\<close>
  | PTP_CLK_REQ_PPS

definition ptp_clock_time :: "int \<times> u32 \<Rightarrow> u64" where
  "ptp_clock_time t = word_of_int (fst t * 1000000000) + ucast (snd t)"

text \<open>The pin, the start and the period of a request, or the error it is refused with.\<close>

definition pps_start :: "u64 \<Rightarrow> u64" where
  "pps_start now =
     (let rest = now mod 1000000000
      in now - rest + 1000000000 * (if rest > 990000000 then 2 else 1))"

definition pulse_of :: "ptp_clock_request \<Rightarrow> bool \<Rightarrow> pnic \<Rightarrow> (int + u32 \<times> u64 \<times> u64) \<times> pnic" where
  "pulse_of rq on nic =
     (case rq of
        PTP_CLK_REQ_EXTTS \<Rightarrow> (Inl (- ENOTSUPP), nic)
      | PTP_CLK_REQ_PEROUT index s t \<Rightarrow>
          if fst t > 4 \<or> fst t < 0 then (Inl (- ERANGE), nic)
          else
            let period = (if on then ptp_clock_time t else 0) in
            if period > 0xffffffff then (Inl (- ERANGE), nic)
            else (Inr (index, if on then ptp_clock_time s else 0, period), nic)
      | PTP_CLK_REQ_PPS \<Rightarrow>
          (case hw_get_ptp_ts nic of (now, nic) \<Rightarrow>
             (Inr (0, if on then pps_start now else 0, if on then 1000000000 else 0), nic)))"

definition aq_ptp_gpio_feature_enable :: "pnic \<Rightarrow> aq_ptp_s \<Rightarrow> ptp_clock_request \<Rightarrow> bool \<Rightarrow> (int \<times> pnic) option" where
  "aq_ptp_gpio_feature_enable nic p rq on =
     (case pulse_of rq on nic of
        (Inl err, nic) \<Rightarrow> Some (err, nic)
      | (Inr (index, start, period), nic) \<Rightarrow>
          if index \<ge> n_per_out p then Some (- EINVAL, nic)
          else (case hw_atl_b0_gpio_pulse (ptp_clk_offset nic) (p_hw nic) index start (ucast period) of
                  None \<Rightarrow> None | Some (err, hw) \<Rightarrow> Some (0, nic\<lparr>p_hw := hw\<rparr>)))"

text \<open>\<open>aq_ptp_verify\<close>: a pin keeps its channel and its function (\<open>perout\<close>: periodic output).\<close>

definition aq_ptp_verify :: "pnic \<Rightarrow> aq_ptp_s \<Rightarrow> u32 \<Rightarrow> bool \<Rightarrow> u32 \<Rightarrow> int" where
  "aq_ptp_verify nic p pin perout chan =
     (if pin \<ge> n_pins p then - EINVAL
      else if chan \<noteq> pin_chan (aq_ptp_pd nic ! unat pin) then - EINVAL
      else if perout \<noteq> pin_perout (aq_ptp_pd nic ! unat pin) then - EINVAL
      else 0)"

definition GPIO_PIN_FUNCTION_PTP0 :: u32 where "GPIO_PIN_FUNCTION_PTP0 = 8"
definition MAX_PTP_GPIO_COUNT :: nat where "MAX_PTP_GPIO_COUNT = 3"

definition aq_ptp_pd0 :: "ptp_pin_desc list" where
  "aq_ptp_pd0 = [\<lparr>pin_name = ''AQ_GPIO0'', pin_index = 0, pin_perout = True, pin_chan = 0\<rparr>,
     \<lparr>pin_name = ''AQ_GPIO1'', pin_index = 1, pin_perout = True, pin_chan = 1\<rparr>,
     \<lparr>pin_name = ''AQ_GPIO2'', pin_index = 2, pin_perout = True, pin_chan = 2\<rparr>]"

definition set_pin :: "nat \<Rightarrow> ptp_pin_desc \<Rightarrow> ptp_pin_desc" where
  "set_pin i d = d\<lparr>pin_name := (pin_name d)[7 := char_of (48 + i)], pin_index := of_nat i, pin_chan := of_nat i\<rparr>"

fun gpio_init_loop :: "u32 list \<Rightarrow> nat \<Rightarrow> nat \<Rightarrow> ptp_pin_desc list \<Rightarrow> nat \<times> ptp_pin_desc list" where
  "gpio_init_loop [] i ncount pd = (ncount, pd)"
| "gpio_init_loop (g # gs) i ncount pd =
     (if g = GPIO_PIN_FUNCTION_PTP0 + of_nat ncount
      then gpio_init_loop gs (Suc i) (Suc ncount) (pd[ncount := set_pin i (pd ! ncount)])
      else gpio_init_loop gs (Suc i) ncount pd)"

definition aq_ptp_gpio_init :: "u32 list \<Rightarrow> pnic \<Rightarrow> pnic" where
  "aq_ptp_gpio_init gpio_pin nic =
     (case gpio_init_loop (take MAX_PTP_GPIO_COUNT gpio_pin) 0 0 (aq_ptp_pd nic) of (ncount, pd) \<Rightarrow>
        nic\<lparr>aq_ptp_pd := pd, clock_n_pins := of_nat ncount, clock_n_per_out := of_nat ncount\<rparr>)"

subsection \<open>Packets that wait too long\<close>

definition AQ_PTP_TX_TIMEOUT :: "pnic \<Rightarrow> u64" where "AQ_PTP_TX_TIMEOUT nic = HZ nic * 10"

definition time_is_before_jiffies :: "pnic \<Rightarrow> u64 \<Rightarrow> bool" where
  "time_is_before_jiffies nic a \<longleftrightarrow> sint (a - jiffies nic) < 0"

definition aq_ptp_tx_timeout_init :: "ptp_tx_timeout \<Rightarrow> ptp_tx_timeout" where
  "aq_ptp_tx_timeout_init t = t\<lparr>to_active := False\<rparr>"

definition aq_ptp_tx_timeout_start :: "pnic \<Rightarrow> aq_ptp_s \<Rightarrow> aq_ptp_s" where
  "aq_ptp_tx_timeout_start nic p = p\<lparr>ptp_tx_timeout := \<lparr>to_active = True, to_start = jiffies nic\<rparr>\<rparr>"

definition aq_ptp_tx_timeout_update :: "aq_ptp_s \<Rightarrow> aq_ptp_s" where
  "aq_ptp_tx_timeout_update p =
     (if aq_ptp_skb_buf_len (skb_ring p) = 0
      then p\<lparr>ptp_tx_timeout := (ptp_tx_timeout p)\<lparr>to_active := False\<rparr>\<rparr> else p)"

definition aq_ptp_tx_timeout_check :: "pnic \<Rightarrow> aq_ptp_s \<Rightarrow> pnic \<times> aq_ptp_s" where
  "aq_ptp_tx_timeout_check nic p =
     (let t = ptp_tx_timeout p;
          timeout_flag = to_active t \<and> time_is_before_jiffies nic (to_start t + AQ_PTP_TX_TIMEOUT nic);
          p = (if timeout_flag then p\<lparr>ptp_tx_timeout := t\<lparr>to_active := False\<rparr>\<rparr> else p)
      in if timeout_flag
         then (case aq_ptp_skb_ring_clean (skb_ring p) of (ss, r) \<Rightarrow>
                 (fold dev_kfree_skb_any ss nic, p\<lparr>skb_ring := r\<rparr>))
         else (nic, p))"

definition aq_ptp_service_task :: "pnic \<Rightarrow> aq_ptp_s option \<Rightarrow> pnic \<times> aq_ptp_s option" where
  "aq_ptp_service_task nic p =
     (case p of None \<Rightarrow> (nic, None)
      | Some p \<Rightarrow> (case aq_ptp_tx_timeout_check nic p of (nic, p) \<Rightarrow> (nic, Some p)))"

subsection \<open>Time stamps\<close>

definition aq_ptp_tx_hwtstamp :: "u64 \<Rightarrow> pnic \<Rightarrow> aq_ptp_s \<Rightarrow> pnic \<times> aq_ptp_s" where
  "aq_ptp_tx_hwtstamp timestamp nic p =
     (case aq_ptp_skb_get (skb_ring p) of
        (None, r) \<Rightarrow> (nic, p\<lparr>skb_ring := r\<rparr>)
      | (Some s, r) \<Rightarrow>
          let p = p\<lparr>skb_ring := r\<rparr>;
              timestamp = timestamp + aq_ptp_tm_offset_egress_get p;
              nic = dev_kfree_skb_any s (plogs (Skb_tstamp s timestamp) nic)
          in (nic, aq_ptp_tx_timeout_update p))"

definition extract_hwts :: "u64 \<Rightarrow> u64 \<times> u64 \<Rightarrow> u64" where
  "extract_hwts ofs d = hw_atl_b0_extract_hwts ofs (ucast (fst d)) (ucast (drop_bit 32 (fst d)))
     (ucast (snd d)) (ucast (drop_bit 32 (snd d)))"

fun hwts_clean_loop :: "nat \<Rightarrow> pnic \<Rightarrow> aq_ptp_s \<Rightarrow> pnic \<times> aq_ptp_s" where
  "hwts_clean_loop 0 nic p = (nic, p)"
| "hwts_clean_loop (Suc n) nic p =
     (if sw_head (hwts_rx p) \<noteq> hw_head (hwts_rx p) then
        let ns = extract_hwts (ptp_clk_offset nic) (dx_ring (hwts_rx p) ! unat (sw_head (hwts_rx p))) in
        case aq_ptp_tx_hwtstamp ns nic p of (nic, p) \<Rightarrow>
          hwts_clean_loop n nic
            (p\<lparr>hwts_rx := (hwts_rx p)\<lparr>sw_head := aq_ring_next_dx (hwts_rx p) (sw_head (hwts_rx p))\<rparr>\<rparr>)
      else (nic, p))"

definition aq_ring_hwts_rx_clean :: "pnic \<Rightarrow> aq_ptp_s \<Rightarrow> pnic \<times> aq_ptp_s" where
  "aq_ring_hwts_rx_clean nic p = hwts_clean_loop (unat (ring_size (hwts_rx p))) nic p"

text \<open>
  The hook for a received packet: how many bytes of the buffer are a stamp, and the stamp that
  is put into the packet.
\<close>

definition aq_ptp_pdata_rx_hook :: "pnic \<Rightarrow> aq_ptp_s \<Rightarrow> u8 list \<Rightarrow> nat \<Rightarrow> u16 \<times> u64 option" where
  "aq_ptp_pdata_rx_hook nic p bytes n =
     (case hw_atl_b0_rx_extract_ts (ptp_clk_offset nic) bytes n of (ret, ts) \<Rightarrow>
        (ret, if ret > 0 then map_option (\<lambda>t. t - aq_ptp_tm_offset_ingress_get p) ts else None))"

definition HWTSTAMP_TX_OFF :: u32 where "HWTSTAMP_TX_OFF = 0"
definition HWTSTAMP_TX_ON :: u32 where "HWTSTAMP_TX_ON = 1"
definition HWTSTAMP_FILTER_NONE :: u32 where "HWTSTAMP_FILTER_NONE = 0"
definition HWTSTAMP_FILTER_PTP_V2_L4_EVENT :: u32 where "HWTSTAMP_FILTER_PTP_V2_L4_EVENT = 6"
definition HWTSTAMP_FILTER_PTP_V2_EVENT :: u32 where "HWTSTAMP_FILTER_PTP_V2_EVENT = 12"
definition HWTSTAMP_FILTER_PTP_V2_DELAY_REQ :: u32 where "HWTSTAMP_FILTER_PTP_V2_DELAY_REQ = 14"
definition AQ_NIC_PTP_DPATH_UP :: u32 where "AQ_NIC_PTP_DPATH_UP = 0x02000000"

definition aq_ptp_hwtstamp_config_get :: "aq_ptp_s \<Rightarrow> hwtstamp_config" where
  "aq_ptp_hwtstamp_config_get p = hwtstamp_config p"

definition aq_ptp_hwtstamp_config_set :: "pnic \<Rightarrow> aq_ptp_s \<Rightarrow> hwtstamp_config \<Rightarrow> int \<times> pnic \<times> aq_ptp_s" where
  "aq_ptp_hwtstamp_config_set nic p config =
     (let on = ts_tx_type config = HWTSTAMP_TX_ON \<or> ts_rx_filter config = HWTSTAMP_FILTER_PTP_V2_EVENT in
      case hw_atl_b0_ptp_dpath_enable (p_hw nic) (of_flag on) (ucast (ring_idx (ptp_rx p))) of (err, hw) \<Rightarrow>
        let nic = nic\<lparr>p_hw := hw, p_flags := (if on then p_flags nic OR AQ_NIC_PTP_DPATH_UP
                                             else p_flags nic AND NOT AQ_NIC_PTP_DPATH_UP)\<rparr>
        in if err \<noteq> 0 then (- EREMOTEIO, nic, p) else (0, nic, p\<lparr>hwtstamp_config := config\<rparr>))"

text \<open>
  \<open>aq_ndev_config_hwtstamp\<close> (aq_main.c) rounds the filters of version 2 messages up to all of
  their events; the names of the kernel's filters 6 to 14 stand for themselves.
\<close>

definition aq_ndev_config_hwtstamp :: "pnic \<Rightarrow> aq_ptp_s \<Rightarrow> hwtstamp_config \<Rightarrow> int \<times> pnic \<times> aq_ptp_s \<times> hwtstamp_config" where
  "aq_ndev_config_hwtstamp nic p config =
     (if ts_flags config \<noteq> 0 then (- EINVAL, nic, p, config)
      else if ts_tx_type config \<notin> {HWTSTAMP_TX_OFF, HWTSTAMP_TX_ON} then (- ERANGE, nic, p, config)
      else if HWTSTAMP_FILTER_PTP_V2_L4_EVENT \<le> ts_rx_filter config \<and> ts_rx_filter config \<le> HWTSTAMP_FILTER_PTP_V2_DELAY_REQ
      then
        let config = config\<lparr>ts_rx_filter := HWTSTAMP_FILTER_PTP_V2_EVENT\<rparr>
        in case aq_ptp_hwtstamp_config_set nic p config of (err, nic, p) \<Rightarrow> (err, nic, p, config)
      else if ts_rx_filter config = HWTSTAMP_FILTER_NONE
      then case aq_ptp_hwtstamp_config_set nic p config of (err, nic, p) \<Rightarrow> (err, nic, p, config)
      else (- ERANGE, nic, p, config))"

subsection \<open>The datapath\<close>

text \<open>
  Polling. \<open>thres\<close> is the refill threshold; the result is the work done. \<open>None\<close> is a chain
  of receive descriptors that never ends.
\<close>

definition ptp_poll_tx :: "pnic \<Rightarrow> aq_ptp_s \<Rightarrow> bool \<times> bool \<times> pnic \<times> aq_ptp_s" where
  "ptp_poll_tx nic p =
     (case hw_atl_b0_hw_ring_tx_head_update (p_hw nic) (ptp_tx p) of (err, hw, r) \<Rightarrow>
        let nic = nic\<lparr>p_hw := hw\<rparr>; p = p\<lparr>ptp_tx := r\<rparr> in
        if err < 0 then (True, False, nic, p)
        else if sw_head (ptp_tx p) \<noteq> hw_head (ptp_tx p)
        then (case aq_ring_tx_clean (ptp_tx p) (p_kern nic) of (left, r, k) \<Rightarrow>
                (False, True, nic\<lparr>p_kern := k\<rparr>, p\<lparr>ptp_tx := r\<rparr>))
        else (False, False, nic, p))"

definition ptp_poll_hwts :: "bool \<Rightarrow> pnic \<Rightarrow> aq_ptp_s \<Rightarrow> bool \<times> bool \<times> pnic \<times> aq_ptp_s" where
  "ptp_poll_hwts was_cleaned nic p =
     (case hw_atl_b0_hw_ring_hwts_rx_receive (p_hw nic) (hwts_rx p) of (err, hw, r) \<Rightarrow>
        let nic = nic\<lparr>p_hw := hw\<rparr>; p = p\<lparr>hwts_rx := r\<rparr> in
        if err < 0 then (True, was_cleaned, nic, p)
        else if sw_head (hwts_rx p) \<noteq> hw_head (hwts_rx p)
        then (case aq_ring_hwts_rx_clean nic p of (nic, p) \<Rightarrow>
              case hw_atl_b0_hw_ring_hwts_rx_fill (p_hw nic) (hwts_rx p) of (err, hw, r) \<Rightarrow>
                (False, True, nic\<lparr>p_hw := hw\<rparr>, p\<lparr>hwts_rx := r\<rparr>))
        else (False, was_cleaned, nic, p))"

definition ptp_rx_hook :: "pnic \<Rightarrow> aq_ptp_s \<Rightarrow> rx_hook" where
  "ptp_rx_hook nic p = Some (\<lambda>pg off n. fst (aq_ptp_pdata_rx_hook nic p (rx_mem nic pg off) (unat n)))"

definition ptp_refill :: "u32 \<Rightarrow> pnic \<Rightarrow> aq_ptp_s \<Rightarrow> bool \<times> pnic \<times> aq_ptp_s" where
  "ptp_refill thres nic p =
     (let sw_tail_old = sw_tail (ptp_rx p) in
      case aq_ring_rx_fill thres (ptp_rx p) (p_kern nic) of (err, r, k) \<Rightarrow>
        let nic = nic\<lparr>p_kern := k\<rparr>; p = p\<lparr>ptp_rx := r\<rparr> in
        if err < 0 then (True, nic, p)
        else case hw_atl_b0_hw_ring_rx_fill (p_hw nic) (ptp_rx p) sw_tail_old of (err, hw, r) \<Rightarrow>
          (err < 0, nic\<lparr>p_hw := hw\<rparr>, p\<lparr>ptp_rx := r\<rparr>))"

definition ptp_poll_rx :: "u32 \<Rightarrow> nat \<Rightarrow> pnic \<Rightarrow> aq_ptp_s \<Rightarrow> (bool \<times> nat \<times> pnic \<times> aq_ptp_s) option" where
  "ptp_poll_rx thres budget nic p =
     (case hw_atl_b0_hw_ring_rx_receive (p_hw nic) (ptp_rx p) of (err, hw, r) \<Rightarrow>
        let nic = nic\<lparr>p_hw := hw\<rparr>; p = p\<lparr>ptp_rx := r\<rparr> in
        if err < 0 then Some (True, 0, nic, p)
        else if sw_head (ptp_rx p) \<noteq> hw_head (ptp_rx p)
        then (case aq_ring_rx_clean (ptp_rx p) (p_kern nic) (p_napi nic) 0 budget (ptp_rx_hook nic p) of
            None \<Rightarrow> None
          | Some (err, work_done, r, k, napi) \<Rightarrow>
              let nic = nic\<lparr>p_kern := k, p_napi := napi\<rparr>; p = p\<lparr>ptp_rx := r\<rparr> in
              if err < 0 then Some (True, work_done, nic, p)
              else (case ptp_refill thres nic p of (stop, nic, p) \<Rightarrow> Some (stop, work_done, nic, p)))
        else Some (False, 0, nic, p))"

definition aq_ptp_poll :: "u32 \<Rightarrow> nat \<Rightarrow> pnic \<Rightarrow> aq_ptp_s \<Rightarrow> (nat \<times> pnic \<times> aq_ptp_s) option" where
  "aq_ptp_poll thres budget nic p =
     (case ptp_poll_tx nic p of (stop, was_cleaned, nic, p) \<Rightarrow>
        if stop then Some (0, nic, p)
        else case ptp_poll_hwts was_cleaned nic p of (stop, was_cleaned, nic, p) \<Rightarrow>
          if stop then Some (0, nic, p)
          else case ptp_poll_rx thres budget nic p of
            None \<Rightarrow> None
          | Some (stop, work_done, nic, p) \<Rightarrow>
              if stop then Some (work_done, nic, p)
              else
                let work_done = (if was_cleaned then budget else work_done) in
                if work_done < budget
                then Some (work_done,
                       nic\<lparr>p_hw := snd (hw_atl_b0_hw_irq_enable (p_hw nic)
                         (scast (push_bit (unat (vec_idx (ptp_ring_param p))) 1 :: u32)))\<rparr>,
                       p\<lparr>ptp_napi_scheduled := False\<rparr>)
                else Some (work_done, nic, p))"

definition aq_ptp_isr :: "aq_ptp_s \<Rightarrow> u32 \<times> aq_ptp_s" where
  "aq_ptp_isr p = (let err = 0 :: int; p = p\<lparr>ptp_napi_scheduled := True\<rparr>
                   in (if 0 \<le> err then IRQ_HANDLED else IRQ_NONE, p))"

text \<open>
  Sending. The ring of waiting packets takes a reference of its own (\<open>skb_get\<close>) before the
  packet is mapped.
\<close>

definition aq_ptp_xmit :: "pnic \<Rightarrow> aq_ptp_s \<Rightarrow> sk_buff \<Rightarrow> int \<times> pnic \<times> aq_ptp_s" where
  "aq_ptp_xmit nic p s =
     (if skb_len s \<le> 0 then (NETDEV_TX_OK, dev_kfree_skb_any (skb_ptr s) nic, p)
      else
        let frags = of_nat (length (skb_frags s)) + 1 in
        if frags > AQ_CFG_SKB_FRAGS_MAX \<or> frags > aq_ring_avail_dx (ptp_tx p)
        then (NETDEV_TX_OK, dev_kfree_skb_any (skb_ptr s) nic, p)
        else case aq_ptp_skb_put (skb_ring p) (skb_ptr s) of (err, r) \<Rightarrow>
          let p = p\<lparr>skb_ring := r\<rparr> in
          if err \<noteq> 0 then (NETDEV_TX_BUSY, nic, p)
          else
            let nic = plogs (Skb_get (skb_ptr s)) nic;
                p = aq_ptp_tx_timeout_start nic p in
            case aq_nic_map_skb False (is_vlan_tx_insert (aq_nic_cfg (p_hw nic))) s (ptp_tx p) (p_kern nic) of
              (frags, ring, k) \<Rightarrow>
                let nic = nic\<lparr>p_kern := k\<rparr>; p = p\<lparr>ptp_tx := ring\<rparr> in
                if frags \<noteq> 0
                then (case hw_atl_b0_hw_ring_tx_xmit (p_hw nic) (ptp_tx p) frags of (err, hw, ring) \<Rightarrow>
                        (err, nic\<lparr>p_hw := hw\<rparr>, p\<lparr>ptp_tx := if err \<ge> 0 then tx_count s ring else ring\<rparr>))
                else (NETDEV_TX_BUSY, nic, p))"

subsection \<open>Interrupt and rings\<close>

definition request_irq :: "u32 \<Rightarrow> irq_arg \<Rightarrow> pnic \<Rightarrow> int \<times> pnic" where
  "request_irq i arg nic =
     (let err = irq_answer nic (irq_calls nic); nic = nic\<lparr>irq_calls := Suc (irq_calls nic)\<rparr>
      in (err, if err < 0 then nic else nic\<lparr>irq_log := irq_log nic @ [Request_irq i arg]\<rparr>))"

definition free_irq :: "u32 \<Rightarrow> irq_arg \<Rightarrow> pnic \<Rightarrow> pnic" where
  "free_irq i arg nic = nic\<lparr>irq_log := irq_log nic @ [Free_irq i arg]\<rparr>"

definition aq_ptp_irq_alloc :: "pnic \<Rightarrow> aq_ptp_s option \<Rightarrow> int \<times> pnic" where
  "aq_ptp_irq_alloc nic p =
     (case p of None \<Rightarrow> (0, nic)
      | Some p \<Rightarrow> if msi_enabled nic then request_irq (idx_vector p) Irq_ptp nic else (- EINVAL, nic))"

definition aq_ptp_irq_free :: "pnic \<Rightarrow> aq_ptp_s option \<Rightarrow> pnic" where
  "aq_ptp_irq_free nic p = (case p of None \<Rightarrow> nic | Some p \<Rightarrow> free_irq (idx_vector p) Irq_ptp nic)"

definition ptp_init_tx :: "pnic \<Rightarrow> aq_ptp_s \<Rightarrow> int \<times> pnic \<times> aq_ptp_s" where
  "ptp_init_tx nic p =
     (let p = p\<lparr>ptp_tx := aq_ring_init (ptp_tx p)\<rparr> in
      case hw_atl_b0_hw_ring_tx_init (p_hw nic) (ptp_tx p) (ptp_ring_param p) of (err, hw) \<Rightarrow>
        (err, nic\<lparr>p_hw := hw\<rparr>, p))"

definition ptp_init_rx :: "u32 \<Rightarrow> pnic \<Rightarrow> aq_ptp_s \<Rightarrow> int \<times> pnic \<times> aq_ptp_s" where
  "ptp_init_rx thres nic p =
     (let p = p\<lparr>ptp_rx := aq_ring_init (ptp_rx p)\<rparr> in
      case hw_atl_b0_hw_ring_rx_init (p_hw nic) (ptp_rx p) (ptp_ring_param p) of (err, hw) \<Rightarrow>
        let nic = nic\<lparr>p_hw := hw\<rparr> in
        if err < 0 then (err, nic, p)
        else case aq_ring_rx_fill thres (ptp_rx p) (p_kern nic) of (err, r, k) \<Rightarrow>
          let nic = nic\<lparr>p_kern := k\<rparr>; p = p\<lparr>ptp_rx := r\<rparr> in
          if err < 0 then (err, nic, p)
          else case hw_atl_b0_hw_ring_rx_fill (p_hw nic) (ptp_rx p) 0 of (err, hw, r) \<Rightarrow>
            (err, nic\<lparr>p_hw := hw\<rparr>, p\<lparr>ptp_rx := r\<rparr>))"

definition ptp_init_hwts :: "pnic \<Rightarrow> aq_ptp_s \<Rightarrow> int \<times> pnic \<times> aq_ptp_s" where
  "ptp_init_hwts nic p =
     (let p = p\<lparr>hwts_rx := aq_ring_init (hwts_rx p)\<rparr> in
      case hw_atl_b0_hw_ring_rx_init (p_hw nic) (hwts_rx p) (ptp_ring_param p) of (err, hw) \<Rightarrow>
        let nic = nic\<lparr>p_hw := hw\<rparr> in
        if err < 0 then (err, nic, p)
        else case hw_atl_b0_hw_ring_hwts_rx_fill (p_hw nic) (hwts_rx p) of (err, hw, r) \<Rightarrow>
          (err, nic\<lparr>p_hw := hw\<rparr>, p\<lparr>hwts_rx := r\<rparr>))"

definition aq_ptp_ring_init :: "u32 \<Rightarrow> pnic \<Rightarrow> aq_ptp_s option \<Rightarrow> int \<times> pnic \<times> aq_ptp_s option" where
  "aq_ptp_ring_init thres nic p =
     (case p of None \<Rightarrow> (0, nic, None)
      | Some p \<Rightarrow>
          (case ptp_init_tx nic p of (err, nic, p) \<Rightarrow>
             if err < 0 then (err, nic, Some p)
             else case ptp_init_rx thres nic p of (err, nic, p) \<Rightarrow>
               if err < 0 then (err, nic, Some p)
               else case ptp_init_hwts nic p of (err, nic, p) \<Rightarrow> (err, nic, Some p)))"

definition aq_ptp_ring_start :: "pnic \<Rightarrow> aq_ptp_s option \<Rightarrow> int \<times> pnic \<times> aq_ptp_s option" where
  "aq_ptp_ring_start nic p =
     (case p of None \<Rightarrow> (0, nic, None)
      | Some p \<Rightarrow>
          (case hw_atl_b0_hw_ring_tx_start (p_hw nic) (ptp_tx p) of (err, hw) \<Rightarrow>
             let nic = nic\<lparr>p_hw := hw\<rparr> in
             if err < 0 then (err, nic, Some p)
             else case hw_atl_b0_hw_ring_rx_start (p_hw nic) (ptp_rx p) of (err, hw) \<Rightarrow>
               let nic = nic\<lparr>p_hw := hw\<rparr> in
               if err < 0 then (err, nic, Some p)
               else case hw_atl_b0_hw_ring_rx_start (p_hw nic) (hwts_rx p) of (err, hw) \<Rightarrow>
                 let nic = nic\<lparr>p_hw := hw\<rparr> in
                 if err < 0 then (err, nic, Some p) else (err, nic, Some (p\<lparr>ptp_napi_enabled := True\<rparr>))))"

definition aq_ptp_ring_stop :: "pnic \<Rightarrow> aq_ptp_s option \<Rightarrow> pnic \<times> aq_ptp_s option" where
  "aq_ptp_ring_stop nic p =
     (case p of None \<Rightarrow> (nic, None)
      | Some p \<Rightarrow>
          let hw = snd (hw_atl_b0_hw_ring_tx_stop (p_hw nic) (ptp_tx p));
              hw = snd (hw_atl_b0_hw_ring_rx_stop hw (ptp_rx p));
              hw = snd (hw_atl_b0_hw_ring_rx_stop hw (hwts_rx p))
          in (nic\<lparr>p_hw := hw\<rparr>, Some (p\<lparr>ptp_napi_enabled := False\<rparr>)))"

text \<open>The two checks of \<open>ring.aq_nic\<close> ask whether the rings have ever been allocated.\<close>

definition aq_ptp_ring_deinit :: "pnic \<Rightarrow> aq_ptp_s option \<Rightarrow> pnic \<times> aq_ptp_s option" where
  "aq_ptp_ring_deinit nic p =
     (case p of None \<Rightarrow> (nic, None)
      | Some p \<Rightarrow>
          if rm_size (ptp_tx_mem p) = 0 \<or> rm_size (ptp_rx_mem p) = 0 then (nic, Some p)
          else case aq_ring_tx_clean (ptp_tx p) (p_kern nic) of (left, r, k) \<Rightarrow>
            let p = p\<lparr>ptp_tx := r\<rparr> in
            case aq_ring_rx_deinit (ptp_rx p) k of (r, k) \<Rightarrow>
              (nic\<lparr>p_kern := k\<rparr>, Some (p\<lparr>ptp_rx := r\<rparr>)))"

subsection \<open>Memory of the rings\<close>

text \<open>
  \<open>ring_made\<close>: what a successful allocation (theory Vec_Mem) leaves in the ring itself: index
  and sizes, cleared buffers, fresh descriptors (\<open>dxs\<close>) and their address. The positions stay
  until \<open>aq_ring_init\<close>.
\<close>

definition buff_zero :: aq_ring_buff_s where
  "buff_zero = \<lparr>w0 = 0, w1 = 0, rx_daddr = 0, rx_order = 0, rx_pg_off = 0, vlan_rx_tag = 0, len = 0,
     is_ip_cso = False, is_udp_cso = False, is_tcp_cso = False, is_cso_err = False, is_sop = False,
     is_eop = False, is_gso = False, is_mapped = False, is_cleaned = False, is_error = False,
     is_vlan = False, eop_index = 0\<rparr>"

definition ring_made :: "(u64 \<times> u64) list \<Rightarrow> ring_mem \<Rightarrow> aq_ring_s \<Rightarrow> aq_ring_s" where
  "ring_made dxs m r = r\<lparr>buff_ring := replicate (unat (rm_size m)) buff_zero,
     dx_ring := take (unat (rm_size m)) (dxs @ replicate (unat (rm_size m)) (0, 0)), ring_idx := rm_idx m,
     ring_size := rm_size m, dx_size := rm_dx_size m, page_order := rm_page_order m, dx_ring_pa := rm_dx_ring m\<rparr>"

definition PTP_8TC_RING_IDX :: u32 where "PTP_8TC_RING_IDX = 8"
definition PTP_4TC_RING_IDX :: u32 where "PTP_4TC_RING_IDX = 16"
definition PTP_HWST_RING_IDX :: u32 where "PTP_HWST_RING_IDX = 31"

definition ptp_ring_idx :: "u32 \<Rightarrow> u32" where
  "ptp_ring_idx tc_mode = (if tc_mode = 0 then PTP_8TC_RING_IDX else PTP_4TC_RING_IDX)"

text \<open>\<open>stale\<close> is the previous contents of the block for the waiting packets.\<close>

definition aq_ptp_ring_alloc :: "(u64 \<times> u64) list \<Rightarrow> u64 list \<Rightarrow> pnic \<Rightarrow> aq_ptp_s option \<Rightarrow> int \<times> pnic \<times> aq_ptp_s option" where
  "aq_ptp_ring_alloc dxs stale nic p =
     (case p of None \<Rightarrow> (0, nic, None)
      | Some p \<Rightarrow>
        let cfg = aq_nic_cfg (p_hw nic) in
        case hw_atl_b0_tx_tc_mode_get (p_hw nic) of (err, hw, tx_tc_mode) \<Rightarrow>
        case aq_ring_tx_alloc (ptp_tx_mem p) (ptp_ring_idx tx_tc_mode) cfg (p_mem nic) of (tx_got, tx, m) \<Rightarrow>
        let nic = nic\<lparr>p_hw := hw, p_mem := m\<rparr>; p = p\<lparr>ptp_tx_mem := tx\<rparr> in
        if \<not> tx_got then (- ENOMEM, nic, Some p)
        else
          let p = p\<lparr>ptp_tx := ring_made dxs tx (ptp_tx p)\<rparr> in
          case hw_atl_b0_rx_tc_mode_get (p_hw nic) of (err, hw, rx_tc_mode) \<Rightarrow>
          case aq_ring_rx_alloc (ptp_rx_mem p) (ptp_ring_idx rx_tc_mode) cfg (p_mem nic) of (rx_got, rx, m) \<Rightarrow>
          let nic = nic\<lparr>p_hw := hw, p_mem := m\<rparr>; p = p\<lparr>ptp_rx_mem := rx\<rparr> in
          if \<not> rx_got then (- ENOMEM, nic\<lparr>p_mem := aq_ring_free tx (p_mem nic)\<rparr>, Some p)
          else
            let p = p\<lparr>ptp_rx := ring_made dxs rx (ptp_rx p)\<rparr> in
            case aq_ring_hwts_rx_alloc PTP_HWST_RING_IDX (rxds cfg) (ucast (caps_rxd_size (aq_hw_caps cfg))) (p_mem nic) of
              (hwts_got, hwts, m) \<Rightarrow>
            let nic = nic\<lparr>p_mem := m\<rparr>; p = p\<lparr>hwts_rx_mem := hwts\<rparr> in
            if \<not> hwts_got then (- ENOMEM, nic\<lparr>p_mem := aq_ring_free tx (aq_ring_free rx (p_mem nic))\<rparr>, Some p)
            else
              let p = p\<lparr>hwts_rx := ring_made dxs hwts (hwts_rx p)\<rparr> in
              case aq_ptp_skb_ring_init stale (skb_ring p) (rxds cfg) (p_mem nic) of (err, r, m) \<Rightarrow>
              let nic = nic\<lparr>p_mem := m\<rparr>; p = p\<lparr>skb_ring := r\<rparr> in
              if err \<noteq> 0
              then (- ENOMEM, nic\<lparr>p_mem := aq_ring_free tx (aq_ring_free rx (aq_ring_free hwts (p_mem nic)))\<rparr>, Some p)
              else (0, nic, Some (p\<lparr>ptp_ring_param := \<lparr>vec_idx = idx_vector p,
                      param_cpu = idx_vector p + ucast (base_cpu_number (aq_rss cfg))\<rparr>\<rparr>)))"

definition aq_ptp_ring_free :: "pnic \<Rightarrow> aq_ptp_s option \<Rightarrow> pnic \<times> aq_ptp_s option" where
  "aq_ptp_ring_free nic p =
     (case p of None \<Rightarrow> (nic, None)
      | Some p \<Rightarrow>
          let m = aq_ring_free (hwts_rx_mem p) (aq_ring_free (ptp_rx_mem p) (aq_ring_free (ptp_tx_mem p) (p_mem nic)))
          in case aq_ptp_skb_ring_release (skb_ring p) m of (ss, r, m) \<Rightarrow>
               (fold dev_kfree_skb_any ss (nic\<lparr>p_mem := m\<rparr>), Some (p\<lparr>skb_ring := r\<rparr>)))"

subsection \<open>Probing and removing\<close>

text \<open>
  \<open>aq_ptp_init\<close>: \<open>clock\<close> says whether the table of the chip has a clock, \<open>stack\<close> is the mailbox
  structure before it is read, \<open>registered\<close> whether the kernel accepts the clock. The state of a
  fresh \<open>aq_ptp_s\<close> is all zero (\<open>kzalloc\<close>).
\<close>

definition ring_zero :: aq_ring_s where
  "ring_zero = \<lparr>buff_ring = [], dx_ring = [], ring_idx = 0, hw_head = 0, sw_head = 0, sw_tail = 0,
     ring_size = 0, dx_size = 0, page_order = 0, ring_stats = zero_stats, dx_ring_pa = 0\<rparr>"

definition ptp_zero :: "u64 \<Rightarrow> aq_ptp_s" where
  "ptp_zero a = \<lparr>ptp_self = a, hwtstamp_config = \<lparr>ts_flags = 0, ts_tx_type = 0, ts_rx_filter = 0\<rparr>, n_pins = 0,
     n_per_out = 0, offset_egress = 0, offset_ingress = 0, ptp_ring_param = \<lparr>vec_idx = 0, param_cpu = 0\<rparr>,
     ptp_tx_timeout = \<lparr>to_active = False, to_start = 0\<rparr>, idx_vector = 0, ptp_napi_scheduled = False,
     ptp_napi_enabled = False, ptp_tx = ring_zero, ptp_rx = ring_zero, hwts_rx = ring_zero,
     ptp_tx_mem = ring_mem0, ptp_rx_mem = ring_mem0, hwts_rx_mem = ring_mem0,
     skb_ring = \<lparr>sr_ptr = 0, sr_buff = [], sr_size = 0, sr_head = 0, sr_tail = 0\<rparr>\<rparr>"

definition hw_has_clock :: "hw_table \<Rightarrow> bool" where
  "hw_has_clock t = (case t of hw_atl_ops_a0 \<Rightarrow> False | hw_atl_ops_b0 \<Rightarrow> True)"

definition fw_enable_ptp :: "aq_hw_s \<Rightarrow> bool \<Rightarrow> aq_hw_s" where
  "fw_enable_ptp hw enable = (if aq_fw_ops hw = Some aq_fw_2x_ops then aq_fw3x_enable_ptp hw enable else hw)"

text \<open>Words of \<open>struct hw_aq_atl_utils_mbox\<close>: \<open>info.caps_ex\<close>, \<open>info.ptp_offset\<close>, \<open>info.gpio_pin\<close>.\<close>

definition mbox_caps_ex :: "u32 list \<Rightarrow> u32" where "mbox_caps_ex m = m ! 69"
definition mbox_ptp_offset :: "u32 list \<Rightarrow> u32 list" where "mbox_ptp_offset m = take 5 (drop 25 m)"
definition mbox_gpio_pin :: "u32 list \<Rightarrow> u32 list" where "mbox_gpio_pin m = take 3 (drop 70 m)"

definition aq_ptp_init :: "hw_table \<Rightarrow> ptp_params \<Rightarrow> u32 list \<Rightarrow> bool \<Rightarrow> u32 \<Rightarrow> pnic \<Rightarrow> int \<times> pnic \<times> aq_ptp_s option" where
  "aq_ptp_init t par stack registered idx_vec nic =
     (if \<not> hw_has_clock t then (0, nic, None)
      else if aq_fw_ops (p_hw nic) \<noteq> Some aq_fw_2x_ops then (0, nic, None)
      else case hw_atl_utils_mpi_read_stats (p_hw nic) stack of (hw, mbox) \<Rightarrow>
        let nic = nic\<lparr>p_hw := hw\<rparr> in
        if mbox_caps_ex mbox AND BIT CAPS_EX_PHY_PTP_EN = 0 then (0, nic, None)
        else
          let nic = nic\<lparr>ptp_offset := aq_ptp_offset_init par (mbox_ptp_offset mbox)\<rparr> in
          case mem_get Kalloc (p_mem nic) of (a, m) \<Rightarrow>
          let nic = nic\<lparr>p_mem := m\<rparr> in
          if a = 0 then (- ENOMEM, nic, None)
          else
            let nic = aq_ptp_gpio_init (mbox_gpio_pin mbox) nic in
            if \<not> registered then (- EFAULT, nic, None)
            else
              let p = (ptp_zero a)\<lparr>n_pins := clock_n_pins nic, n_per_out := clock_n_per_out nic,
                    ptp_tx_timeout := aq_ptp_tx_timeout_init (ptp_tx_timeout (ptp_zero a)), idx_vector := idx_vec\<rparr>;
                  hw = aq_utils_obj_set AQ_HW_PTP_AVAILABLE (p_hw nic);
                  nic = nic\<lparr>p_hw := fw_enable_ptp hw True\<rparr>
              in (0, aq_ptp_clock_init nic, Some p))"

definition aq_ptp_free :: "pnic \<Rightarrow> aq_ptp_s option \<Rightarrow> pnic \<times> aq_ptp_s option" where
  "aq_ptp_free nic p =
     (case p of None \<Rightarrow> (nic, None)
      | Some p \<Rightarrow> (nic\<lparr>p_hw := fw_enable_ptp (p_hw nic) False, p_mem := mem_logs (Kfree (ptp_self p)) (p_mem nic)\<rparr>, None))"

end
