(* ===== verification/Nic_Dev.thy ===== *)
theory Nic_Dev
  imports Ptp Nic_Cfg Phy B0_Rules Fw2x
begin

section \<open>The network device: link, service task and settings (aq_nic.c)\<close>

text \<open>
  \<open>nic_dev\<close> is the driver's \<open>aq_nic_s\<close> as a whole with what it uses of the kernel's
  \<open>net_device\<close>. What the PTP functions reach (hardware context, kernel memory, interrupts, flags)
  is its member \<open>pn\<close>; the vectors and the flow rules keep no copy of the hardware context of their
  own: \<open>on_vec\<close> and \<open>on_rules\<close> lend it to their functions. The configuration is the one the
  hardware context points to. Timers are the time they are armed for, work items whether they are
  queued. Calls through the table of firmware operations go through \<open>fw_call\<close>, where None is the
  call of a null pointer (the table is set by \<open>aq_nic_ndev_register\<close>).

  \<open>nic_env\<close> holds what the code takes from outside: uninitialised locals (\<open>env_stack\<close>), random
  numbers, previous contents of memory, module parameters, feature bits of the kernel and the
  answers of the functions of the kernel that can fail.
\<close>

record net_device =
  dev_addr :: "u8 list"
  nd_flags :: u32
  nd_features :: u64
  nd_hw_features :: u64
  nd_priv_flags :: u32
  nd_mtu :: u32
  nd_max_mtu :: u32
  uc_list :: "u8 list list"
  mc_addrs :: "u8 list list"
  nd_carrier :: bool
  nd_running :: bool
  nd_present :: bool
  nd_registered :: bool
  nd_stats :: "u64 list"

record nic_env =
  env_nf :: netif_bits
  env_stack :: "u32 list"
  env_rnd :: u32
  env_thres :: u32
  env_dxs :: "(u64 \<times> u64) list"
  env_stale :: "u64 list"
  env_ptp :: ptp_params
  real_num_tx :: int
  real_num_rx :: int
  register_answer :: int
  clock_answer :: bool

record nic_dev =
  nd :: net_device
  pn :: pnic
  aq_ptp :: "aq_ptp_s option"
  aq_vec :: "aq_vec_s list"
  aq_vec_mem :: "vec_mem list"
  aq_hw_ops :: hw_table
  flt :: filter_nic
  queues :: netdev_queues
  packet_filter :: u32
  power_state :: u32
  mc_count :: u32
  mc_ar :: "u8 list list"
  link_status :: u32
  msix_entry_mask :: u32
  irqvecs :: u32
  service_timer :: "u64 option"
  polling_timer :: "u64 option"
  service_work :: bool
  link_work :: bool

definition hwc :: "nic_dev \<Rightarrow> aq_hw_s" where "hwc d = p_hw (pn d)"
definition set_hwc :: "aq_hw_s \<Rightarrow> nic_dev \<Rightarrow> nic_dev" where "set_hwc hw d = d\<lparr>pn := (pn d)\<lparr>p_hw := hw\<rparr>\<rparr>"
definition cfg :: "nic_dev \<Rightarrow> aq_nic_cfg_s" where "cfg d = aq_nic_cfg (hwc d)"
definition upd_cfg :: "(aq_nic_cfg_s \<Rightarrow> aq_nic_cfg_s) \<Rightarrow> nic_dev \<Rightarrow> nic_dev" where
  "upd_cfg f d = set_hwc ((hwc d)\<lparr>aq_nic_cfg := f (cfg d)\<rparr>) d"
definition upd_nd :: "(net_device \<Rightarrow> net_device) \<Rightarrow> nic_dev \<Rightarrow> nic_dev" where "upd_nd f d = d\<lparr>nd := f (nd d)\<rparr>"

definition hw_call :: "(aq_hw_s \<Rightarrow> int \<times> aq_hw_s) \<Rightarrow> nic_dev \<Rightarrow> int \<times> nic_dev" where
  "hw_call f d = (case f (hwc d) of (err, hw) \<Rightarrow> (err, set_hwc hw d))"

definition fw_call :: "(fw_table \<Rightarrow> aq_hw_s \<Rightarrow> int \<times> aq_hw_s) \<Rightarrow> nic_dev \<Rightarrow> (int \<times> nic_dev) option" where
  "fw_call f d = map_option (\<lambda>t. hw_call (f t) d) (aq_fw_ops (hwc d))"

definition on_vec :: "nat \<Rightarrow> (aq_vec_s \<Rightarrow> int \<times> aq_vec_s) \<Rightarrow> nic_dev \<Rightarrow> int \<times> nic_dev" where
  "on_vec i f d =
     (case f ((aq_vec d ! i)\<lparr>vec_hw := hwc d, vec_kern := p_kern (pn d), vec_napi := p_napi (pn d), vec_queues := queues d\<rparr>) of
        (err, v) \<Rightarrow> (err, d\<lparr>aq_vec := (aq_vec d)[i := v], queues := vec_queues v,
           pn := (pn d)\<lparr>p_hw := vec_hw v, p_kern := vec_kern v, p_napi := vec_napi v\<rparr>\<rparr>))"

definition on_rules :: "nic_env \<Rightarrow> (filter_nic \<Rightarrow> int \<times> filter_nic) \<Rightarrow> nic_dev \<Rightarrow> int \<times> nic_dev" where
  "on_rules env f d =
     (case f ((flt d)\<lparr>flt_hw := hwc d, ntuple_on := (nd_features (nd d) AND NETIF_F_NTUPLE (env_nf env) \<noteq> 0),
        vlan_filter_on := (nd_features (nd d) AND NETIF_F_HW_VLAN_CTAG_FILTER (env_nf env) \<noteq> 0)\<rparr>) of (err, r) \<Rightarrow> (err, set_hwc (flt_hw r) (d\<lparr>flt := r\<rparr>)))"

text \<open>\<open>goto err_exit\<close> on a negative result, for steps that may crash (None) or not.\<close>

definition andthen :: "(int \<times> nic_dev) option \<Rightarrow> (nic_dev \<Rightarrow> (int \<times> nic_dev) option) \<Rightarrow> (int \<times> nic_dev) option" where
  "andthen r f = (case r of None \<Rightarrow> None | Some (err, d) \<Rightarrow> if err < 0 then Some (err, d) else f d)"

subsection \<open>Queues and carrier\<close>

definition netif_tx_disable :: "nic_dev \<Rightarrow> nic_dev" where "netif_tx_disable d = d\<lparr>queues := (\<lambda>q. True)\<rparr>"
definition netif_tx_wake_all_queues :: "nic_dev \<Rightarrow> nic_dev" where "netif_tx_wake_all_queues d = d\<lparr>queues := (\<lambda>q. False)\<rparr>"
definition netif_carrier :: "bool \<Rightarrow> nic_dev \<Rightarrow> nic_dev" where "netif_carrier on = upd_nd (\<lambda>n. n\<lparr>nd_carrier := on\<rparr>)"
definition nic_flag_set :: "u32 \<Rightarrow> nic_dev \<Rightarrow> nic_dev" where
  "nic_flag_set f d = d\<lparr>pn := (pn d)\<lparr>p_flags := p_flags (pn d) OR f\<rparr>\<rparr>"
definition nic_flag_clear :: "u32 \<Rightarrow> nic_dev \<Rightarrow> nic_dev" where
  "nic_flag_clear f d = d\<lparr>pn := (pn d)\<lparr>p_flags := p_flags (pn d) AND NOT f\<rparr>\<rparr>"

definition AQ_NIC_FLAG_STARTED :: u32 where "AQ_NIC_FLAG_STARTED = 0x00000004"
definition AQ_NIC_LINK_DOWN :: u32 where "AQ_NIC_LINK_DOWN = 0x04000000"
definition AQ_NIC_FLAGS_IS_NOT_READY :: u32 where "AQ_NIC_FLAGS_IS_NOT_READY = 0xC0000038"
definition AQ_HW_POWER_STATE_D0 :: u32 where "AQ_HW_POWER_STATE_D0 = 0"
definition AQ_HW_POWER_STATE_D3 :: u32 where "AQ_HW_POWER_STATE_D3 = 3"

subsection \<open>Link state and the service task\<close>

definition aq_nic_update_interrupt_moderation_settings :: "nic_dev \<Rightarrow> int \<times> nic_dev" where
  "aq_nic_update_interrupt_moderation_settings d = hw_call (hw_interrupt_moderation_set (aq_hw_ops d)) d"

text \<open>The table of the first firmware has no \<open>get_flow_control\<close>: \<open>fc\<close> stays 0.\<close>

definition nic_get_flow_control :: "nic_dev \<Rightarrow> u32 \<times> nic_dev" where
  "nic_get_flow_control d =
     (if aq_fw_ops (hwc d) = Some aq_fw_2x_ops
      then case aq_fw2x_get_flow_control (hwc d) of (hw, fc) \<Rightarrow> (fc, set_hwc hw d) else (0, d))"

definition link_changed :: "nic_dev \<Rightarrow> nic_dev" where
  "link_changed d =
     (let d = snd (aq_nic_update_interrupt_moderation_settings d);
          d = (if aq_ptp d \<noteq> None
               then d\<lparr>pn := aq_ptp_clock_init (pn d),
                      aq_ptp := aq_ptp_tm_offset_set (pn d) (aq_ptp d) (link_mbps (hwc d))\<rparr> else d)
      in case nic_get_flow_control d of (fc, d) \<Rightarrow>
        case hw_set_fc (aq_hw_ops d) of None \<Rightarrow> d | Some set_fc \<Rightarrow> snd (hw_call (\<lambda>hw. set_fc hw fc 0) d))"

definition nic_link_up :: "nic_dev \<Rightarrow> nic_dev" where
  "nic_link_up d =
     (if \<not> nd_carrier (nd d) \<and> link_status d \<noteq> 0
      then netif_tx_wake_all_queues (netif_carrier True (nic_flag_clear AQ_NIC_LINK_DOWN (nic_flag_set AQ_NIC_FLAG_STARTED d)))
      else d)"

definition nic_link_down :: "nic_dev \<Rightarrow> nic_dev" where
  "nic_link_down d =
     (if nd_carrier (nd d) \<and> link_status d = 0
      then nic_flag_set AQ_NIC_LINK_DOWN (netif_tx_disable (netif_carrier False d))
      else d)"

definition aq_nic_update_link_status :: "nic_dev \<Rightarrow> (int \<times> nic_dev) option" where
  "aq_nic_update_link_status d =
     (case fw_call fw_update_link_status d of
        None \<Rightarrow> None
      | Some (err, d) \<Rightarrow>
          if err \<noteq> 0 then Some (err, d)
          else
            let d = (if link_status d \<noteq> link_mbps (hwc d) then link_changed d else d);
                d = d\<lparr>link_status := link_mbps (hwc d)\<rparr>
            in Some (0, nic_link_down (nic_link_up d)))"

definition aq_nic_update_link_task_cb :: "nic_dev \<Rightarrow> nic_dev option" where
  "aq_nic_update_link_task_cb d =
     map_option (\<lambda>(err, d). snd (hw_call (\<lambda>hw. hw_irq_enable (vec_ops_of (aq_hw_ops d)) hw
       (push_bit (unat (link_irq_vec (cfg d))) 1)) (d\<lparr>link_work := False\<rparr>))) (aq_nic_update_link_status d)"

definition aq_linkstate_isr :: "nic_dev \<Rightarrow> u32 \<times> nic_dev" where
  "aq_linkstate_isr d = (IRQ_HANDLED, d\<lparr>link_work := True\<rparr>)"

text \<open>
  Statistics of the interface: rx_packets, rx_bytes, rx_errors, rx_dropped, tx_packets, tx_bytes,
  tx_errors, multicast.
\<close>

definition aq_nic_update_ndev_stats :: "nic_dev \<Rightarrow> nic_dev" where
  "aq_nic_update_ndev_stats d =
     (let s = hw_atl_utils_get_hw_stats (hwc d)
      in upd_nd (\<lambda>n. n\<lparr>nd_stats := [cs_dma_pkt_rc s, cs_dma_oct_rc s, cs_erpr s, cs_dpc s, cs_dma_pkt_tc s,
                                       cs_dma_oct_tc s, cs_erpt s, cs_mprc s]\<rparr>) d)"

definition aq_nic_service_task :: "nic_env \<Rightarrow> nic_dev \<Rightarrow> nic_dev option" where
  "aq_nic_service_task env d =
     (case aq_ptp_service_task (pn d) (aq_ptp d) of (n, p) \<Rightarrow>
        let d = d\<lparr>pn := n, aq_ptp := p, service_work := False\<rparr> in
        if p_flags (pn d) AND AQ_NIC_FLAGS_IS_NOT_READY \<noteq> 0 then Some d
        else case aq_nic_update_link_status d of
          None \<Rightarrow> None
        | Some (err, d) \<Rightarrow>
            if err \<noteq> 0 then Some d
            else map_option (\<lambda>(err, d). aq_nic_update_ndev_stats d) (fw_call (fw_update_stats (env_stack env)) d))"

definition aq_ndev_service_event_schedule :: "nic_dev \<Rightarrow> nic_dev" where
  "aq_ndev_service_event_schedule d = d\<lparr>service_work := True\<rparr>"

definition AQ_CFG_SERVICE_TIMER_INTERVAL :: "nic_dev \<Rightarrow> u64" where "AQ_CFG_SERVICE_TIMER_INTERVAL d = HZ (pn d)"
definition AQ_CFG_POLLING_TIMER_INTERVAL :: "nic_dev \<Rightarrow> u64" where "AQ_CFG_POLLING_TIMER_INTERVAL d = 2 * HZ (pn d)"

definition aq_nic_service_timer_cb :: "nic_dev \<Rightarrow> nic_dev" where
  "aq_nic_service_timer_cb d =
     (let ctimer = AQ_CFG_SERVICE_TIMER_INTERVAL d;
          ctimer = (if \<not> nd_carrier (nd d) then max (ctimer div 2) 1 else ctimer)
      in aq_ndev_service_event_schedule (d\<lparr>service_timer := Some (jiffies (pn d) + ctimer)\<rparr>))"

definition aq_nic_polling_timer_cb :: "nic_dev \<Rightarrow> nic_dev" where
  "aq_nic_polling_timer_cb d =
     (fold (\<lambda>i d. snd (on_vec i (\<lambda>v. (0, snd (aq_vec_isr v))) d)) [0..<length (aq_vec d)] d)
       \<lparr>polling_timer := Some (jiffies (pn d) + AQ_CFG_POLLING_TIMER_INTERVAL d)\<rparr>"

subsection \<open>Receive mode\<close>

definition aq_nic_set_packet_filter :: "nic_dev \<Rightarrow> u32 \<Rightarrow> int \<times> nic_dev" where
  "aq_nic_set_packet_filter d fl =
     (case hw_call (\<lambda>hw. hw_packet_filter_set (aq_hw_ops d) hw fl) d of (err, d) \<Rightarrow>
        (err, if err < 0 then d else d\<lparr>packet_filter := fl\<rparr>))"

definition AQ_HW_MULTICAST_ADDRESS_MAX :: nat where "AQ_HW_MULTICAST_ADDRESS_MAX = 32"

text \<open>One of the two copying loops: it stops when the table is full.\<close>

fun mc_copy :: "u8 list list \<Rightarrow> nat \<Rightarrow> u8 list list \<Rightarrow> nat \<times> u8 list list" where
  "mc_copy [] i ar = (i, ar)"
| "mc_copy (a # as) i ar =
     (let ar = ar[i := a]; i = Suc i
      in if i \<ge> AQ_HW_MULTICAST_ADDRESS_MAX then (i, ar) else mc_copy as i ar)"

text \<open>A list that does not fit any more is not copied: \<open>fl\<close> makes the chip let such packets pass.\<close>

definition mc_take :: "u32 \<Rightarrow> u8 list list \<Rightarrow> nat \<times> u8 list list \<times> u32 \<Rightarrow> nat \<times> u8 list list \<times> u32" where
  "mc_take fl as st =
     (case st of (i, ar, filt) \<Rightarrow>
        if i + length as > AQ_HW_MULTICAST_ADDRESS_MAX then (i, ar, filt OR fl)
        else case mc_copy as i ar of (i, ar) \<Rightarrow> (i, ar, filt))"

definition aq_nic_set_multicast_list :: "nic_dev \<Rightarrow> int \<times> nic_dev" where
  "aq_nic_set_multicast_list d =
     (case mc_take IFF_ALLMULTI (mc_addrs (nd d)) (mc_take IFF_PROMISC (uc_list (nd d)) (0, mc_ar d, packet_filter d)) of
        (i, ar, filt) \<Rightarrow>
          let d = d\<lparr>mc_count := 0, mc_ar := ar\<rparr> in
          if i > 0 \<and> i \<le> AQ_HW_MULTICAST_ADDRESS_MAX
          then let d = d\<lparr>mc_count := of_nat i\<rparr>;
                   d = snd (hw_call (\<lambda>hw. hw_multicast_list_set (aq_hw_ops d) hw (mc_ar d) (mc_count d)) d)
               in aq_nic_set_packet_filter d (filt OR IFF_MULTICAST)
          else aq_nic_set_packet_filter d filt)"

definition aq_ndev_set_multicast_settings :: "nic_dev \<Rightarrow> nic_dev" where
  "aq_ndev_set_multicast_settings d =
     (case aq_nic_set_packet_filter d (nd_flags (nd d)) of (err, d) \<Rightarrow>
        if err < 0 then d else snd (aq_nic_set_multicast_list d))"

subsection \<open>Settings\<close>

definition aq_nic_set_mtu :: "nic_dev \<Rightarrow> u32 \<Rightarrow> int \<times> nic_dev" where
  "aq_nic_set_mtu d new_mtu = (0, upd_cfg (\<lambda>c. c\<lparr>mtu := new_mtu\<rparr>) d)"

definition ETH_FCS_LEN :: u32 where "ETH_FCS_LEN = 4"

definition aq_ndev_change_mtu :: "nic_dev \<Rightarrow> u32 \<Rightarrow> int \<times> nic_dev" where
  "aq_ndev_change_mtu d new_mtu =
     (case aq_nic_set_mtu d (new_mtu + ucast ETH_HLEN) of (err, d) \<Rightarrow>
        if err < 0 then (err, d) else (err, upd_nd (\<lambda>n. n\<lparr>nd_mtu := new_mtu\<rparr>) d))"

definition aq_nic_set_mac :: "nic_dev \<Rightarrow> int \<times> nic_dev" where
  "aq_nic_set_mac d = hw_call (\<lambda>hw. hw_set_mac_address (aq_hw_ops d) hw (Some (dev_addr (nd d)))) d"

text \<open>\<open>answer\<close> is the result of the kernel's \<open>eth_mac_addr\<close>, which stores the address unless it refuses it.\<close>

definition aq_ndev_set_mac_address :: "int \<Rightarrow> nic_dev \<Rightarrow> u8 list \<Rightarrow> int \<times> nic_dev" where
  "aq_ndev_set_mac_address answer d a =
     (if answer < 0 then (answer, d) else aq_nic_set_mac (upd_nd (\<lambda>n. n\<lparr>dev_addr := a\<rparr>) d))"

definition aq_nic_get_link_speed :: "nic_dev \<Rightarrow> u32" where "aq_nic_get_link_speed d = link_status d"

definition aq_nic_get_regs :: "nic_dev \<Rightarrow> u32 list \<Rightarrow> int \<times> nic_dev \<times> u32 list" where
  "aq_nic_get_regs d regs_buff =
     (case hw_atl_utils_hw_get_regs (hwc d) (aq_hw_caps (cfg d)) regs_buff of (err, hw, r) \<Rightarrow> (err, set_hwc hw d, r))"

definition aq_nic_get_regs_count :: "nic_dev \<Rightarrow> u32" where
  "aq_nic_get_regs_count d = caps_mac_regs_count (aq_hw_caps (cfg d))"

definition aq_nic_get_fw_version :: "nic_dev \<Rightarrow> u32 \<times> nic_dev" where
  "aq_nic_get_fw_version d =
     (let hw = hw_atl_utils_get_fw_version (hwc d) in (fw_ver_actual hw, set_hwc hw d))"

text \<open>The counters of \<open>ethtool -S\<close>: those of the card, then six per vector, added to what the buffer holds.\<close>

definition stat_values :: "aq_stats_s \<Rightarrow> u64 list" where
  "stat_values s = [cs_uprc s + cs_mprc s + cs_bprc s, cs_uprc s, cs_mprc s, cs_bprc s, cs_erpt s,
     cs_uptc s + cs_mptc s + cs_bptc s, cs_uptc s, cs_mptc s, cs_bptc s, cs_ubrc s, cs_ubtc s, cs_mbrc s, cs_mbtc s,
     cs_bbrc s, cs_bbtc s, cs_ubrc s + cs_mbrc s + cs_bbrc s, cs_ubtc s + cs_mbtc s + cs_bbtc s, cs_dma_pkt_rc s,
     cs_dma_pkt_tc s, cs_dma_oct_rc s, cs_dma_oct_tc s, cs_dpc s]"

fun vec_stats_loop :: "aq_vec_s list \<Rightarrow> nat \<Rightarrow> nat \<Rightarrow> u64 list \<Rightarrow> u64 list" where
  "vec_stats_loop [] off count dat = dat"
| "vec_stats_loop (v # vs) off count dat =
     (let off = off + count in
      case aq_vec_get_sw_stats v (drop off dat) of (seg, count) \<Rightarrow> vec_stats_loop vs off count (take off dat @ seg))"

definition aq_nic_get_stats :: "nic_env \<Rightarrow> nic_dev \<Rightarrow> u64 list \<Rightarrow> (nic_dev \<times> u64 list) option" where
  "aq_nic_get_stats env d dat =
     map_option (\<lambda>(err, d).
       let vs = stat_values (hw_atl_utils_get_hw_stats (hwc d));
           dat = vs @ drop (length vs) dat
       in (d, vec_stats_loop (aq_vec d) (length vs) 0 dat)) (fw_call (fw_update_stats (env_stack env)) d)"

subsection \<open>Link settings\<close>

datatype link_mode = Full_10000 | Full_5000 | Full_2500 | Full_1000 | Full_100 | Pause | Asym_Pause | Autoneg | FIBRE | TP

record link_ksettings =
  ks_fibre :: bool
  ks_autoneg :: bool
  ks_speed :: u32
  ks_supported :: "link_mode list"
  ks_advertising :: "link_mode list"

definition rate_modes :: "u64 \<Rightarrow> link_mode list" where
  "rate_modes msk =
     (if msk AND ucast AQ_NIC_RATE_10G \<noteq> 0 then [Full_10000] else []) @
     (if msk AND ucast AQ_NIC_RATE_5G \<noteq> 0 then [Full_5000] else []) @
     (if msk AND ucast AQ_NIC_RATE_2GS \<noteq> 0 then [Full_2500] else []) @
     (if msk AND ucast AQ_NIC_RATE_1G \<noteq> 0 then [Full_1000] else []) @
     (if msk AND ucast AQ_NIC_RATE_100M \<noteq> 0 then [Full_100] else [])"

definition aq_nic_get_link_ksettings :: "nic_dev \<Rightarrow> u32 \<Rightarrow> link_ksettings" where
  "aq_nic_get_link_ksettings d speed =
     (let c = cfg d; caps = aq_hw_caps c;
          port = (if caps_media_type caps = AQ_HW_MEDIA_TYPE_FIBRE then FIBRE else TP);
          tx = flow_control c AND AQ_NIC_FC_TX \<noteq> 0; rx = flow_control c AND AQ_NIC_FC_RX \<noteq> 0
      in \<lparr>ks_fibre = (caps_media_type caps = AQ_HW_MEDIA_TYPE_FIBRE), ks_autoneg = is_autoneg c, ks_speed = speed,
          ks_supported = rate_modes (caps_link_speed_msk caps) @ (if caps_flow_control caps then [Pause] else []) @ [Autoneg, port],
          ks_advertising = (if is_autoneg c then [Autoneg] else []) @ rate_modes (ucast (link_speed_msk c)) @
            (if rx then [Pause] else []) @ (if tx \<noteq> rx then [Asym_Pause] else []) @ [port]\<rparr>)"

definition speed_rate :: "u32 \<Rightarrow> u32 option" where
  "speed_rate speed =
     (if speed = 100 then Some AQ_NIC_RATE_100M else if speed = 1000 then Some AQ_NIC_RATE_1G
      else if speed = 2500 then Some AQ_NIC_RATE_2GS else if speed = 5000 then Some AQ_NIC_RATE_5G
      else if speed = 10000 then Some AQ_NIC_RATE_10G else None)"

definition aq_nic_apply_rate :: "u32 \<Rightarrow> nic_dev \<Rightarrow> (int \<times> nic_dev) option" where
  "aq_nic_apply_rate rate d =
     (case fw_call (\<lambda>t hw. fw_set_link_speed t hw rate) d of
        None \<Rightarrow> None
      | Some (err, d) \<Rightarrow> Some (err, if err < 0 then d else upd_cfg (\<lambda>c. c\<lparr>link_speed_msk := rate\<rparr>) d))"

definition aq_nic_set_link_ksettings :: "nic_dev \<Rightarrow> link_ksettings \<Rightarrow> (int \<times> nic_dev) option" where
  "aq_nic_set_link_ksettings d cmd =
     (let caps = aq_hw_caps (cfg d) in
      if ks_autoneg cmd
      then aq_nic_apply_rate (ucast (caps_link_speed_msk caps)) (upd_cfg (\<lambda>c. c\<lparr>is_autoneg := True\<rparr>) d)
      else case speed_rate (ks_speed cmd) of
        None \<Rightarrow> Some (- 1, d)
      | Some rate \<Rightarrow>
          if caps_link_speed_msk caps AND ucast rate = 0 then Some (- 1, d)
          else aq_nic_apply_rate rate (upd_cfg (\<lambda>c. c\<lparr>is_autoneg := False\<rparr>) d))"

subsection \<open>Loopback\<close>

definition AQ_HW_LOOPBACK_MASK :: u32 where "AQ_HW_LOOPBACK_MASK = 0x1F"

definition aq_nic_getloopback :: "nic_dev \<Rightarrow> u32" where "aq_nic_getloopback d = test_loopback (cfg d)"

definition loopback_on :: "u32 \<Rightarrow> u32 \<Rightarrow> bool" where
  "loopback_on fl mode \<longleftrightarrow> fl AND push_bit (unat mode) 1 \<noteq> 0"

definition aq_nic_setloopback :: "nic_dev \<Rightarrow> u32 \<Rightarrow> int \<times> nic_dev" where
  "aq_nic_setloopback d fl =
     (case hw_set_loopback (aq_hw_ops d) of
        None \<Rightarrow> (- ENOTSUPP, d)
      | Some set_lb \<Rightarrow>
          if aq_fw_ops (hwc d) \<noteq> Some aq_fw_2x_ops then (- ENOTSUPP, d)
          else
            let d = fold (\<lambda>m d. snd (hw_call (\<lambda>hw. set_lb hw m (loopback_on fl m)) d))
                      [AQ_HW_LOOPBACK_DMA_SYS, AQ_HW_LOOPBACK_PKT_SYS, AQ_HW_LOOPBACK_DMA_NET] d;
                d = fold (\<lambda>m d. snd (hw_call (\<lambda>hw. aq_fw2x_set_phyloopback hw m (loopback_on fl m)) d))
                      [AQ_HW_LOOPBACK_PHYINT_SYS, AQ_HW_LOOPBACK_PHYEXT_SYS] d
            in (0, upd_cfg (\<lambda>c. c\<lparr>test_loopback := fl AND AQ_HW_LOOPBACK_MASK\<rparr>) d))"

end
