(* ===== verification/Nic_Life.thy ===== *)
theory Nic_Life
  imports Nic_Dev B0_Filters
begin

section \<open>The life cycle of the device (aq_nic.c, aq_main.c, aq_pci_func.c)\<close>

text \<open>
  Initialising, starting, stopping and taking down the adapter; its interrupts; power management;
  the entry points of the kernel that open and close the interface, change its features and send
  a packet. A result None is a call through a null pointer or a wait for the firmware that does
  not end.
\<close>

subsection \<open>Interrupts (aq_pci_func.c)\<close>

text \<open>\<open>i\<close> is the number of the vector; the handler follows from the argument.\<close>

definition aq_pci_func_alloc_irq :: "nic_dev \<Rightarrow> nat \<Rightarrow> irq_arg \<Rightarrow> int \<times> nic_dev" where
  "aq_pci_func_alloc_irq d i arg =
     (case request_irq (of_nat i) arg (pn d) of (err, n) \<Rightarrow>
        let d = d\<lparr>pn := n\<rparr> in
        (err, if err \<ge> 0 then d\<lparr>msix_entry_mask := msix_entry_mask d OR push_bit i 1\<rparr> else d))"

definition irq_data :: "nic_dev \<Rightarrow> nat \<Rightarrow> irq_arg option" where
  "irq_data d i =
     (if link_irq_vec (cfg d) \<noteq> 0 \<and> of_nat i = link_irq_vec (cfg d) then Some Irq_nic
      else if i < 8 then Some (Irq_vec i) else None)"

fun free_irqs_loop :: "nat \<Rightarrow> nic_dev \<Rightarrow> nic_dev" where
  "free_irqs_loop 0 d = d"
| "free_irqs_loop (Suc i) d =
     free_irqs_loop i
       (if push_bit i 1 AND msix_entry_mask d = 0 then d
        else case irq_data d i of
          None \<Rightarrow> d
        | Some a \<Rightarrow> d\<lparr>pn := free_irq (of_nat i) a (pn d), msix_entry_mask := msix_entry_mask d AND NOT (push_bit i 1)\<rparr>)"

definition aq_pci_func_free_irqs :: "nic_dev \<Rightarrow> nic_dev" where
  "aq_pci_func_free_irqs d = free_irqs_loop 32 d"

subsection \<open>Initialisation\<close>

definition nic_hw_reset :: "nic_env \<Rightarrow> nic_dev \<Rightarrow> (int \<times> nic_dev) option" where
  "nic_hw_reset env d =
     map_option (\<lambda>(err, hw). (err, set_hwc hw d)) (hw_reset (aq_hw_ops d) (env_stack env) (hwc d))"

definition nic_hw_init :: "nic_env \<Rightarrow> nic_dev \<Rightarrow> (int \<times> nic_dev) option" where
  "nic_hw_init env d =
     map_option (\<lambda>(err, hw). (err, set_hwc hw d))
       (hw_init (aq_hw_ops d) (env_nf env) (env_stack env) (hwc d) (Some (dev_addr (nd d))))"

definition nic_disable_phy_ptp :: "nic_dev \<Rightarrow> nic_dev" where
  "nic_disable_phy_ptp d =
     (if caps_quirks (aq_hw_caps (cfg d)) AND AQ_NIC_QUIRK_BAD_PTP \<noteq> 0
      then case aq_phy_init ((hwc d)\<lparr>phy_id := HW_ATL_PHY_ID_MAX\<rparr>) of (found, hw) \<Rightarrow>
        set_hwc (if found then aq_phy_disable_ptp hw else hw) d
      else d)"

definition nic_init_vecs :: "nic_env \<Rightarrow> nic_dev \<Rightarrow> nic_dev" where
  "nic_init_vecs env d =
     fold (\<lambda>i d. snd (on_vec i (aq_vec_init (vec_ops_of (aq_hw_ops d)) (env_thres env)) d)) [0..<length (aq_vec d)] d"

definition on_ptp :: "(pnic \<Rightarrow> aq_ptp_s option \<Rightarrow> int \<times> pnic \<times> aq_ptp_s option) \<Rightarrow> nic_dev \<Rightarrow> int \<times> nic_dev" where
  "on_ptp f d = (case f (pn d) (aq_ptp d) of (err, n, p) \<Rightarrow> (err, d\<lparr>pn := n, aq_ptp := p\<rparr>))"

definition aq_nic_init :: "nic_env \<Rightarrow> nic_dev \<Rightarrow> (int \<times> nic_dev) option" where
  "aq_nic_init env d =
     andthen (nic_hw_reset env (d\<lparr>power_state := AQ_HW_POWER_STATE_D0\<rparr>)) (\<lambda>d.
     andthen (nic_hw_init env d) (\<lambda>d.
     let d = nic_init_vecs env (nic_disable_phy_ptp d) in
     andthen (Some (on_ptp (aq_ptp_ring_alloc (env_dxs env) (env_stale env)) d)) (\<lambda>d.
     case on_ptp (aq_ptp_ring_init (env_thres env)) d of (err, d) \<Rightarrow>
       Some (err, if err < 0 then d else netif_carrier False (d\<lparr>link_work := False\<rparr>)))))"

subsection \<open>Starting\<close>

fun start_vecs :: "nat \<Rightarrow> nat \<Rightarrow> nic_dev \<Rightarrow> (int \<times> nic_dev) option" where
  "start_vecs 0 i d = Some (0, d)"
| "start_vecs (Suc n) i d =
     andthen (Some (on_vec i (aq_vec_start (vec_ops_of (aq_hw_ops d))) d)) (start_vecs n (Suc i))"

fun alloc_vec_irqs :: "nat \<Rightarrow> nat \<Rightarrow> nic_dev \<Rightarrow> (int \<times> nic_dev) option" where
  "alloc_vec_irqs 0 i d = Some (0, d)"
| "alloc_vec_irqs (Suc n) i d =
     andthen (Some (aq_pci_func_alloc_irq d i (Irq_vec i))) (alloc_vec_irqs n (Suc i))"

definition nic_ptp_irq_alloc :: "nic_dev \<Rightarrow> int \<times> nic_dev" where
  "nic_ptp_irq_alloc d = (case aq_ptp_irq_alloc (pn d) (aq_ptp d) of (err, n) \<Rightarrow> (err, d\<lparr>pn := n\<rparr>))"

definition nic_link_irq_alloc :: "nic_dev \<Rightarrow> int \<times> nic_dev" where
  "nic_link_irq_alloc d =
     (if link_irq_vec (cfg d) \<noteq> 0 then aq_pci_func_alloc_irq d (unat (link_irq_vec (cfg d))) Irq_nic else (0, d))"

definition nic_request_irqs :: "nic_dev \<Rightarrow> (int \<times> nic_dev) option" where
  "nic_request_irqs d =
     (if is_polling (cfg d)
      then Some (0, d\<lparr>polling_timer := Some (jiffies (pn d) + AQ_CFG_POLLING_TIMER_INTERVAL d)\<rparr>)
      else
        andthen (alloc_vec_irqs (length (aq_vec d)) 0 d) (\<lambda>d.
        andthen (Some (nic_ptp_irq_alloc d)) (\<lambda>d.
        andthen (Some (nic_link_irq_alloc d)) (\<lambda>d.
        Some (hw_call (\<lambda>hw. hw_irq_enable (vec_ops_of (aq_hw_ops d)) hw (ucast AQ_CFG_IRQ_MASK)) d)))))"

definition nic_start_service :: "nic_dev \<Rightarrow> nic_dev" where
  "nic_start_service d =
     (let d = d\<lparr>service_work := False\<rparr>;
          d = snd (aq_nic_setloopback d (test_loopback (cfg d)))
      in aq_nic_service_timer_cb d)"

definition aq_nic_start :: "nic_env \<Rightarrow> nic_dev \<Rightarrow> (int \<times> nic_dev) option" where
  "aq_nic_start env d =
     andthen (Some (hw_call (\<lambda>hw. hw_multicast_list_set (aq_hw_ops d) hw (mc_ar d) (mc_count d)) d)) (\<lambda>d.
     andthen (Some (hw_call (\<lambda>hw. hw_packet_filter_set (aq_hw_ops d) hw (packet_filter d)) d)) (\<lambda>d.
     andthen (start_vecs (length (aq_vec d)) 0 d) (\<lambda>d.
     andthen (Some (on_ptp aq_ptp_ring_start d)) (\<lambda>d.
     andthen (Some (hw_call (hw_start (aq_hw_ops d)) d)) (\<lambda>d.
     case aq_nic_update_interrupt_moderation_settings d of (err, d) \<Rightarrow>
       if err \<noteq> 0 then Some (err, d)
       else
         andthen (nic_request_irqs (nic_start_service d)) (\<lambda>d.
         andthen (Some (real_num_tx env, d)) (\<lambda>d.
         andthen (Some (real_num_rx env, d)) (\<lambda>d.
         Some (real_num_rx env, netif_tx_wake_all_queues d)))))))))"

subsection \<open>Stopping\<close>

definition nic_stop_vecs :: "nic_dev \<Rightarrow> nic_dev" where
  "nic_stop_vecs d = fold (\<lambda>i d. snd (on_vec i (\<lambda>v. (0, aq_vec_stop (vec_ops_of (aq_hw_ops d)) v)) d)) [0..<length (aq_vec d)] d"

definition aq_nic_stop :: "nic_dev \<Rightarrow> int \<times> nic_dev" where
  "aq_nic_stop d =
     (let d = netif_carrier False (netif_tx_disable d);
          d = d\<lparr>service_timer := None, service_work := False, link_work := False\<rparr>;
          d = snd (hw_call (\<lambda>hw. hw_irq_disable (vec_ops_of (aq_hw_ops d)) hw (ucast AQ_CFG_IRQ_MASK)) d);
          d = d\<lparr>pn := aq_ptp_irq_free (pn d) (aq_ptp d)\<rparr>;
          d = nic_stop_vecs d;
          d = snd (on_ptp (\<lambda>n p. case aq_ptp_ring_stop n p of (n, p) \<Rightarrow> (0, n, p)) d);
          d = (if is_polling (cfg d) then d\<lparr>polling_timer := None\<rparr> else aq_pci_func_free_irqs d)
      in hw_call (hw_stop (aq_hw_ops d)) d)"

definition nic_deinit_vecs :: "nic_dev \<Rightarrow> nic_dev" where
  "nic_deinit_vecs d = fold (\<lambda>i d. snd (on_vec i (\<lambda>v. (0, aq_vec_deinit v)) d)) [0..<length (aq_vec d)] d"

text \<open>\<open>likely(self->aq_fw_ops->deinit)\<close> and \<open>set_power\<close> are in both tables.\<close>

definition nic_set_power :: "nic_env \<Rightarrow> nic_dev \<Rightarrow> nic_dev option" where
  "nic_set_power env d =
     (if power_state d \<noteq> AQ_HW_POWER_STATE_D0 \<or> wol (cfg d) \<noteq> 0
      then case aq_fw_ops (hwc d) of
        None \<Rightarrow> None
      | Some t \<Rightarrow> map_option (\<lambda>(err, hw). set_hwc hw d) (fw_set_power (env_stack env) t (hwc d) (dev_addr (nd d)))
      else Some d)"

definition aq_nic_deinit :: "nic_env \<Rightarrow> nic_dev \<Rightarrow> nic_dev option" where
  "aq_nic_deinit env d =
     (let d = nic_deinit_vecs d;
          d = snd (on_ptp (\<lambda>n p. case aq_ptp_ring_deinit n p of (n, p) \<Rightarrow> (0, n, p)) d)
      in case fw_call (fw_deinit (env_stack env)) d of
           None \<Rightarrow> None
         | Some (err, d) \<Rightarrow> nic_set_power env d)"

subsection \<open>The entry points of the kernel (aq_main.c)\<close>

definition aq_ndev_open :: "nic_env \<Rightarrow> nic_dev \<Rightarrow> (int \<times> nic_dev) option" where
  "aq_ndev_open env d =
     (case andthen (aq_nic_init env d) (aq_nic_start env) of
        None \<Rightarrow> None
      | Some (err, d) \<Rightarrow>
          if err < 0 then map_option (\<lambda>d. (err, d)) (aq_nic_deinit env d) else Some (err, d))"

definition aq_ndev_close :: "nic_env \<Rightarrow> nic_dev \<Rightarrow> (int \<times> nic_dev) option" where
  "aq_ndev_close env d =
     (case aq_nic_stop d of (err, d) \<Rightarrow>
        if err < 0 then Some (err, d) else map_option (\<lambda>d. (err, d)) (aq_nic_deinit env d))"

definition hw_ring_tx_xmit_of :: "hw_table \<Rightarrow> tx_xmit" where
  "hw_ring_tx_xmit_of t =
     (case t of hw_atl_ops_a0 \<Rightarrow> hw_atl_a0_hw_ring_tx_xmit | hw_atl_ops_b0 \<Rightarrow> hw_atl_b0_hw_ring_tx_xmit)"

text \<open>
  \<open>aq_ring_tx\<close>: the pointers of \<open>aq_nic_set_tx_ring\<close>, as the table of the rings they point to.
\<close>

definition tx_table :: "nic_dev \<Rightarrow> aq_ring_s list" where
  "tx_table d = map (\<lambda>k. let v = k mod 8; tc = k div 8 in
     if v < length (aq_vec d) \<and> tc < length (vec_ring (aq_vec d ! v)) then vec_tx (aq_vec d ! v) tc else ring_zero) [0..<64]"

definition put_tx_table :: "aq_ring_s list \<Rightarrow> nic_dev \<Rightarrow> nic_dev" where
  "put_tx_table rs d = d\<lparr>aq_vec := map (\<lambda>(i, v). v\<lparr>vec_ring :=
     map (\<lambda>(tc, tx, rx). (rs ! (8 * tc + i), rx)) (enumerate 0 (vec_ring v))\<rparr>) (enumerate 0 (aq_vec d))\<rparr>"

definition nic_xmit :: "nic_dev \<Rightarrow> sk_buff \<Rightarrow> int \<times> nic_dev" where
  "nic_xmit d s =
     (case aq_nic_xmit False (hw_ring_tx_xmit_of (aq_hw_ops d))
        \<lparr>aq_hw = hwc d, aq_ring_tx = tx_table d, stopped_queues = queues d, nic_kern = p_kern (pn d)\<rparr> s of
        (err, n) \<Rightarrow> (err, put_tx_table (aq_ring_tx n)
          (d\<lparr>queues := stopped_queues n, pn := (pn d)\<lparr>p_hw := aq_hw n, p_kern := nic_kern n\<rparr>\<rparr>)))"

text \<open>PTP packets: UDP over IPv4 to port 319 or 320, and the ethertype of IEEE 1588.\<close>

definition is_ptp_packet :: "sk_buff \<Rightarrow> u16 \<Rightarrow> u16 \<Rightarrow> bool" where
  "is_ptp_packet s udp_dest h_proto \<longleftrightarrow>
     skb_ip_version s = 4 \<and> skb_ip_protocol s = 17 \<and> (udp_dest = 319 \<or> udp_dest = 320) \<or> h_proto = ETH_P_1588"

definition aq_ndev_start_xmit :: "nic_dev \<Rightarrow> sk_buff \<Rightarrow> u16 \<Rightarrow> u16 \<Rightarrow> (int \<times> nic_dev) option" where
  "aq_ndev_start_xmit d s udp_dest h_proto =
     (if p_flags (pn d) AND AQ_NIC_PTP_DPATH_UP \<noteq> 0 \<and> is_ptp_packet s udp_dest h_proto
      then case aq_ptp d of
        None \<Rightarrow> None
      | Some p \<Rightarrow> (case aq_ptp_xmit (pn d) p s of (err, n, p) \<Rightarrow> Some (err, d\<lparr>pn := n, aq_ptp := Some p\<rparr>))
      else Some (nic_xmit d s))"

subsection \<open>Features\<close>

definition filter_ops_of :: "hw_table \<Rightarrow> filter_ops" where
  "filter_ops_of t =
     (case t of
        hw_atl_ops_a0 \<Rightarrow> \<lparr>hw_filter_l2_set = None, hw_filter_l2_clear = None, hw_filter_l3l4_set = None,
          hw_filter_vlan_set = None, hw_filter_vlan_ctrl = None\<rparr>
      | hw_atl_ops_b0 \<Rightarrow> b0_filter_ops)"

definition set_ntuple :: "nic_env \<Rightarrow> u64 \<Rightarrow> nic_dev \<Rightarrow> int \<times> nic_dev" where
  "set_ntuple env fs d =
     (if fs AND NETIF_F_NTUPLE (env_nf env) = 0 \<and> nd_features (nd d) AND NETIF_F_NTUPLE (env_nf env) \<noteq> 0
      then on_rules env (aq_clear_rxnfc_all_rules (filter_ops_of (aq_hw_ops d))) d else (0, d))"

definition set_vlan_filter :: "nic_env \<Rightarrow> u64 \<Rightarrow> nic_dev \<Rightarrow> int \<times> nic_dev" where
  "set_vlan_filter env fs d =
     (let bit = NETIF_F_HW_VLAN_CTAG_FILTER (env_nf env); was = nd_features (nd d) AND bit \<noteq> 0; ops = filter_ops_of (aq_hw_ops d) in
      if fs AND bit \<noteq> 0 then (if \<not> was then on_rules env (aq_filters_vlans_on ops) d else (0, d))
      else if was then on_rules env (aq_filters_vlans_off ops) d else (0, d))"

definition set_rxcsum :: "nic_env \<Rightarrow> u64 \<Rightarrow> nic_dev \<Rightarrow> (int \<times> nic_dev) option" where
  "set_rxcsum env fs d =
     (if (nd_features (nd d) XOR fs) AND NETIF_F_RXCSUM (env_nf env) \<noteq> 0
      then map_option (\<lambda>f. hw_call (\<lambda>hw. f hw (cfg d)) d) (hw_set_offload (aq_hw_ops d) (env_nf env))
      else Some (0, d))"

definition set_lro :: "nic_env \<Rightarrow> u64 \<Rightarrow> nic_dev \<Rightarrow> bool \<times> nic_dev" where
  "set_lro env fs d =
     (if caps_hw_features (aq_hw_caps (cfg d)) AND NETIF_F_LRO (env_nf env) \<noteq> 0 then
        let lro = fs AND NETIF_F_LRO (env_nf env) \<noteq> 0 in
        if is_lro (cfg d) \<noteq> lro then (True, upd_cfg (\<lambda>c. c\<lparr>is_lro := lro\<rparr>) d) else (False, d)
      else (False, d))"

definition set_vlan_offload :: "nic_env \<Rightarrow> u64 \<Rightarrow> nic_dev \<Rightarrow> bool \<times> nic_dev" where
  "set_vlan_offload env fs d =
     (let strip = fs AND NETIF_F_HW_VLAN_CTAG_RX (env_nf env) \<noteq> 0; ins = fs AND NETIF_F_HW_VLAN_CTAG_TX (env_nf env) \<noteq> 0;
          restart = (is_vlan_rx_strip (cfg d) \<noteq> strip \<or> is_vlan_tx_insert (cfg d) \<noteq> ins)
      in (restart, upd_cfg (\<lambda>c. c\<lparr>is_vlan_rx_strip := strip, is_vlan_tx_insert := ins\<rparr>) d))"

definition aq_ndev_set_features :: "nic_env \<Rightarrow> nic_dev \<Rightarrow> u64 \<Rightarrow> (int \<times> nic_dev) option" where
  "aq_ndev_set_features env d fs =
     (case set_ntuple env fs d of (err, d) \<Rightarrow>
        if err \<noteq> 0 then Some (err, d)
        else case set_vlan_filter env fs d of (err, d) \<Rightarrow>
          if err \<noteq> 0 then Some (err, d)
          else case set_lro env fs (upd_cfg (\<lambda>c. c\<lparr>features := fs\<rparr>) d) of (restart1, d) \<Rightarrow>
            case set_rxcsum env fs d of
              None \<Rightarrow> None
            | Some (err, d) \<Rightarrow>
                if err \<noteq> 0 then Some (err, d)
                else case set_vlan_offload env fs d of (restart2, d) \<Rightarrow>
                  if (restart1 \<or> restart2) \<and> nd_running (nd d)
                  then (case aq_ndev_close env d of
                          None \<Rightarrow> None
                        | Some (err, d) \<Rightarrow> map_option (\<lambda>(err, d). (0, d)) (aq_ndev_open env d))
                  else Some (0, d))"

subsection \<open>Time-stamp requests of a user\<close>

definition nic_hwtstamp_set :: "nic_dev \<Rightarrow> hwtstamp_config \<Rightarrow> int \<times> nic_dev \<times> hwtstamp_config" where
  "nic_hwtstamp_set d config =
     (case aq_ptp d of
        None \<Rightarrow> (- EOPNOTSUPP, d, config)
      | Some p \<Rightarrow> (case aq_ndev_config_hwtstamp (pn d) p config of (err, n, p, config) \<Rightarrow>
          (err, d\<lparr>pn := n, aq_ptp := Some p\<rparr>, config)))"

definition nic_hwtstamp_get :: "nic_dev \<Rightarrow> int + hwtstamp_config" where
  "nic_hwtstamp_get d =
     (case aq_ptp d of None \<Rightarrow> Inl (- EOPNOTSUPP) | Some p \<Rightarrow> Inr (aq_ptp_hwtstamp_config_get p))"

subsection \<open>Power management\<close>

definition aq_nic_change_pm_state :: "nic_env \<Rightarrow> nic_dev \<Rightarrow> bool \<Rightarrow> (int \<times> nic_dev) option" where
  "aq_nic_change_pm_state env d sleep =
     (if \<not> nd_running (nd d) then Some (0, d)
      else if sleep then
        let d = netif_tx_disable (upd_nd (\<lambda>n. n\<lparr>nd_present := False\<rparr>) (d\<lparr>power_state := AQ_HW_POWER_STATE_D3\<rparr>)) in
        case aq_nic_stop d of (err, d) \<Rightarrow>
          if err < 0 then Some (err, d) else map_option (\<lambda>d. (err, d)) (aq_nic_deinit env d)
      else
        andthen (aq_nic_init env d) (\<lambda>d.
        case aq_nic_start env d of
          None \<Rightarrow> None
        | Some (err, d) \<Rightarrow>
            if err < 0 then Some (err, d)
            else Some (err, netif_tx_wake_all_queues (upd_nd (\<lambda>n. n\<lparr>nd_present := True\<rparr>) d))))"

definition aq_pci_suspend :: "nic_env \<Rightarrow> nic_dev \<Rightarrow> bool \<Rightarrow> (int \<times> nic_dev) option" where
  "aq_pci_suspend env d sleep = aq_nic_change_pm_state env d sleep"

definition aq_pci_resume :: "nic_env \<Rightarrow> nic_dev \<Rightarrow> (int \<times> nic_dev) option" where
  "aq_pci_resume env d = aq_nic_change_pm_state env d False"

definition aq_nic_shutdown :: "nic_env \<Rightarrow> nic_dev \<Rightarrow> nic_dev option" where
  "aq_nic_shutdown env d =
     (let d = upd_nd (\<lambda>n. n\<lparr>nd_present := False\<rparr>) d in
      if nd_running (nd d)
      then (case aq_nic_stop d of (err, d) \<Rightarrow> if err < 0 then Some d else aq_nic_deinit env d)
      else aq_nic_deinit env d)"

end
