(* ===== verification/Pci_Probe.thy ===== *)
theory Pci_Probe
  imports Nic_Life
begin

section \<open>Probing and removing the card (aq_pci_func.c, aq_main.c)\<close>

text \<open>
  \<open>aq_pci_probe\<close> takes one resource after the other and gives back what it holds when a step
  fails; \<open>aq_pci_remove\<close> gives back everything. What is taken and given back is the list of
  \<open>pci_event\<close>s. \<open>pci_env\<close> holds the answers of the kernel and the resources of the card. The memory
  behind the registers and of the adapter itself is that of the model; \<open>adapter\<close> is a fresh
  \<open>aq_nic_s\<close> (zeroed by \<open>alloc_etherdev_mq\<close>).
\<close>

datatype pci_event =
    Enable_device | Disable_device | Request_regions | Release_regions
  | Alloc_netdev | Free_netdev | Alloc_hw | Free_hw | Map_bar u64 | Unmap_bar
  | Alloc_irqvecs nat | Free_irqvecs | Register_netdev | Unregister_netdev | Unregister_clock

record pci_bar =
  bar_mem :: bool
  bar_start :: u64
  bar_len :: u64

record pci_env =
  pci_enable :: int
  dma_mask_64 :: int
  dma_coherent_64 :: int
  dma_mask_32 :: int
  dma_coherent_32 :: int
  pci_regions :: int
  netdev_given :: bool
  hw_given :: bool
  bars :: "pci_bar list"
  ioremap_given :: bool
  irqvecs_answer :: int
  pci_vendor :: u16
  pci_device :: u16
  pci_revision :: u8
  cpus_online :: u32
  pci_msix :: bool
  pci_msi :: bool
  dev_params :: aq_params
  power_off :: bool

definition ENOSR :: int where "ENOSR = 63"

definition pci_dma_masks :: "pci_env \<Rightarrow> int" where
  "pci_dma_masks pe =
     (let err = (if dma_mask_64 pe = 0 then dma_coherent_64 pe else dma_mask_64 pe) in
      if err \<noteq> 0 then (if dma_mask_32 pe = 0 then dma_coherent_32 pe else dma_mask_32 pe) else err)"

definition aq_pci_func_init :: "pci_env \<Rightarrow> int \<times> pci_event list" where
  "aq_pci_func_init pe =
     (if pci_dma_masks pe \<noteq> 0 then (- ENOSR, [])
      else if pci_regions pe < 0 then (pci_regions pe, []) else (0, [Request_regions]))"

text \<open>The first memory resource among the first four must have an address and more than 24 bytes.\<close>

fun find_bar :: "pci_bar list \<Rightarrow> bool \<Rightarrow> int + u64" where
  "find_bar [] io_ok = Inl (- EIO)"
| "find_bar (b # bs) io_ok =
     (if bar_mem b then
        if bar_start b = 0 \<or> bar_len b \<le> 24 \<or> \<not> io_ok then Inl (- EIO) else Inr (bar_start b)
      else find_bar bs io_ok)"

definition wanted_vecs :: "pci_env \<Rightarrow> aq_hw_caps_s \<Rightarrow> u32" where
  "wanted_vecs pe caps = min (ucast (min (ucast AQ_CFG_VECS_DEF) (caps_msix_irqs caps))) (cpus_online pe) + 1 + AQ_HW_SERVICE_IRQS"

definition aq_pci_func_get_irq_type :: "pci_env \<Rightarrow> u32" where
  "aq_pci_func_get_irq_type pe =
     (if pci_msix pe then AQ_HW_IRQ_MSIX else if pci_msi pe then AQ_HW_IRQ_MSI else AQ_HW_IRQ_LEGACY)"

subsection \<open>Registering the network device (aq_nic.c)\<close>

definition vec_made :: "nic_env \<Rightarrow> nat \<Rightarrow> nic_dev \<Rightarrow> vec_mem \<Rightarrow> aq_vec_s" where
  "vec_made env i d vm =
     \<lparr>vec_hw = hwc d,
      vec_ring = map (\<lambda>(tx, rx). (ring_made (env_dxs env) tx ring_zero, ring_made (env_dxs env) rx ring_zero))
        (take (vm_tx_rings vm) (vm_ring vm)),
      aq_ring_param = \<lparr>vec_idx = of_nat i, param_cpu = of_nat i + ucast (base_cpu_number (aq_rss (cfg d)))\<rparr>,
      vec_kern = p_kern (pn d), vec_napi = p_napi (pn d), vec_queues = queues d, napi_scheduled = False, napi_enabled = False\<rparr>"

fun alloc_vecs :: "nic_env \<Rightarrow> nat \<Rightarrow> nat \<Rightarrow> nic_dev \<Rightarrow> int \<times> nic_dev" where
  "alloc_vecs env 0 i d = (0, d)"
| "alloc_vecs env (Suc n) i d =
     (case aq_vec_alloc (of_nat i) (cfg d) (p_mem (pn d)) of (vm, m) \<Rightarrow>
        let d = d\<lparr>pn := (pn d)\<lparr>p_mem := m\<rparr>\<rparr> in
        case vm of None \<Rightarrow> (- ENOMEM, d)
        | Some vm \<Rightarrow> alloc_vecs env n (Suc i)
            (d\<lparr>aq_vec := aq_vec d @ [vec_made env i d vm], aq_vec_mem := aq_vec_mem d @ [vm]\<rparr>))"

definition aq_nic_ndev_register :: "nic_env \<Rightarrow> nic_dev \<Rightarrow> (int \<times> pci_event list \<times> nic_dev) option" where
  "aq_nic_ndev_register env d =
     (case hw_atl_utils_initfw (env_rnd env) (env_stack env) (hwc d) of
        None \<Rightarrow> None
      | Some (err, hw) \<Rightarrow>
          let d = set_hwc hw d in
          if err \<noteq> 0 then Some (err, [], d)
          else case aq_fw_ops (hwc d) of
            None \<Rightarrow> None
          | Some t \<Rightarrow>
              (case fw_get_mac_permanent (env_rnd env) t (hwc d) (dev_addr (nd d)) of (err, hw, mac) \<Rightarrow>
                 let d = upd_nd (\<lambda>n. n\<lparr>dev_addr := mac\<rparr>) (set_hwc hw d) in
                 if err \<noteq> 0 then Some (err, [], d)
                 else case alloc_vecs env (unat (vecs (cfg d))) 0 (d\<lparr>aq_vec := [], aq_vec_mem := []\<rparr>) of (err, d) \<Rightarrow>
                   if err \<noteq> 0 then Some (err, [], d)
                   else
                     let d = netif_tx_disable (netif_carrier False d);
                         err = register_answer env
                     in if err \<noteq> 0 then Some (err, [], d)
                        else Some (0, [Register_netdev], upd_nd (\<lambda>n. n\<lparr>nd_registered := True\<rparr>) d)))"

definition IFF_LIVE_ADDR_CHANGE :: u32 where "IFF_LIVE_ADDR_CHANGE = 0x8000"

definition aq_nic_ndev_init :: "nic_dev \<Rightarrow> nic_dev" where
  "aq_nic_ndev_init d =
     (let caps = aq_hw_caps (cfg d)
      in upd_nd (\<lambda>n. n\<lparr>nd_hw_features := nd_hw_features n OR caps_hw_features caps, nd_features := caps_hw_features caps,
           nd_priv_flags := caps_hw_priv_flags caps OR IFF_LIVE_ADDR_CHANGE, nd_mtu := mtu (cfg d) - ucast ETH_HLEN,
           nd_max_mtu := caps_mtu caps - ETH_FCS_LEN - ucast ETH_HLEN\<rparr>) d)"

definition aq_nic_free_vectors :: "nic_dev \<Rightarrow> nic_dev" where
  "aq_nic_free_vectors d =
     d\<lparr>pn := (pn d)\<lparr>p_mem := fold aq_vec_free (rev (aq_vec_mem d)) (p_mem (pn d))\<rparr>, aq_vec := [], aq_vec_mem := []\<rparr>"

subsection \<open>Probing\<close>

definition nic_ptp_init :: "nic_env \<Rightarrow> nic_dev \<Rightarrow> int \<times> nic_dev" where
  "nic_ptp_init env d =
     on_ptp (\<lambda>n p. aq_ptp_init (aq_hw_ops d) (env_ptp env) (env_stack env) (clock_answer env) (irqvecs d - 1) n) d"

text \<open>The exits of the function, from the innermost label outwards.\<close>

definition err_pci_func :: "pci_event list" where "err_pci_func = [Disable_device]"
definition err_ndev :: "pci_event list" where "err_ndev = Release_regions # err_pci_func"
definition err_ioremap :: "pci_event list" where "err_ioremap = Free_netdev # err_ndev"
definition err_free_aq_hw :: "pci_event list" where "err_free_aq_hw = Free_hw # err_ioremap"
definition err_hwinit :: "pci_event list" where "err_hwinit = Unmap_bar # err_free_aq_hw"
definition err_register :: "pci_event list" where "err_register = Free_irqvecs # err_hwinit"

type_synonym probed = "int \<times> pci_event list \<times> nic_dev"

definition probe_register :: "nic_env \<Rightarrow> pci_event list \<Rightarrow> nic_dev \<Rightarrow> probed option" where
  "probe_register env evs d =
     (case aq_nic_ndev_register env (aq_nic_ndev_init d) of
        None \<Rightarrow> None
      | Some (err, reg, d) \<Rightarrow>
          if err < 0 then Some (err, evs @ reg @ err_register, aq_nic_free_vectors d)
          else case nic_ptp_init env d of (err, d) \<Rightarrow>
            if err < 0 then Some (err, evs @ reg @ err_register, aq_nic_free_vectors d)
            else Some (0, evs @ reg, d))"

definition probe_configure :: "pci_env \<Rightarrow> hw_table \<Rightarrow> aq_hw_caps_s \<Rightarrow> u32 \<Rightarrow> nic_dev \<Rightarrow> nic_dev" where
  "probe_configure pe t caps numvecs d =
     upd_cfg (\<lambda>c. aq_nic_cfg_start (dev_params pe) (cpus_online pe) numvecs (aq_pci_func_get_irq_type pe) (c\<lparr>aq_hw_caps := caps\<rparr>))
       (d\<lparr>aq_hw_ops := t, irqvecs := numvecs, pn := (pn d)\<lparr>msi_enabled := (pci_msix pe \<or> pci_msi pe)\<rparr>\<rparr>)"

definition probe_card :: "nic_env \<Rightarrow> pci_env \<Rightarrow> pci_event list \<Rightarrow> nic_dev \<Rightarrow> probed option" where
  "probe_card env pe evs d =
     (case aq_pci_probe_get_hw_by_id (env_nf env) (pci_vendor pe) (pci_device pe) (pci_revision pe) of
        Inl err \<Rightarrow> Some (err, evs @ err_ioremap, d)
      | Inr (t, caps) \<Rightarrow>
          if \<not> hw_given pe then Some (- ENOMEM, evs @ err_ioremap, d)
          else
            let evs = evs @ [Alloc_hw] in
            case find_bar (take 4 (bars pe)) (ioremap_given pe) of
              Inl err \<Rightarrow> Some (err, evs @ err_free_aq_hw, d)
            | Inr a \<Rightarrow>
                let evs = evs @ [Map_bar a] in
                if irqvecs_answer pe < 0 then Some (irqvecs_answer pe, evs @ err_hwinit, d)
                else
                  let numvecs = word_of_int (irqvecs_answer pe) in
                  probe_register env (evs @ [Alloc_irqvecs (unat (wanted_vecs pe caps))]) (probe_configure pe t caps numvecs d))"

definition aq_pci_probe :: "nic_env \<Rightarrow> pci_env \<Rightarrow> nic_dev \<Rightarrow> probed option" where
  "aq_pci_probe env pe adapter =
     (if pci_enable pe \<noteq> 0 then Some (pci_enable pe, [], adapter)
      else
        let evs = [Enable_device] in
        case aq_pci_func_init pe of (err, regions) \<Rightarrow>
          let evs = evs @ regions in
          if err \<noteq> 0 then Some (err, evs @ err_pci_func, adapter)
          else if \<not> netdev_given pe then Some (- ENOMEM, evs @ err_ndev, adapter)
          else probe_card env pe (evs @ [Alloc_netdev]) adapter)"

subsection \<open>Removing and shutting down\<close>

text \<open>\<open>unregister_netdev\<close> of the kernel closes an interface that is up.\<close>

definition unregister_netdev :: "nic_env \<Rightarrow> nic_dev \<Rightarrow> (pci_event list \<times> nic_dev) option" where
  "unregister_netdev env d =
     (let gone = (\<lambda>d. ([Unregister_netdev], upd_nd (\<lambda>n. n\<lparr>nd_registered := False, nd_running := False\<rparr>) d)) in
      if nd_running (nd d) then map_option (\<lambda>(err, d). gone d) (aq_ndev_close env d) else Some (gone d))"

definition nic_ptp_release :: "nic_dev \<Rightarrow> nic_dev" where
  "nic_ptp_release d =
     (case aq_ptp_ring_free (pn d) (aq_ptp d) of (n, p) \<Rightarrow>
      case aq_ptp_free n p of (n, p) \<Rightarrow> d\<lparr>pn := n, aq_ptp := p\<rparr>)"

definition aq_pci_remove :: "nic_env \<Rightarrow> nic_dev \<Rightarrow> (pci_event list \<times> nic_dev) option" where
  "aq_pci_remove env d =
     (let clock = (if aq_ptp d = None then [] else [Unregister_clock]);
          d = snd (on_rules env (aq_clear_rxnfc_all_rules (filter_ops_of (aq_hw_ops d))) d)
      in case (if nd_registered (nd d) then unregister_netdev env d else Some ([], d)) of
           None \<Rightarrow> None
         | Some (evs, d) \<Rightarrow>
             Some (clock @ evs @ [Free_irqvecs, Unmap_bar, Free_hw, Release_regions, Free_netdev, Disable_device],
               aq_nic_free_vectors (nic_ptp_release d)))"

text \<open>\<open>aq_pci_shutdown\<close>: whether the card may wake the machine is returned when the power goes off.\<close>

definition aq_pci_shutdown :: "nic_env \<Rightarrow> pci_env \<Rightarrow> nic_dev \<Rightarrow> (pci_event list \<times> bool option \<times> nic_dev) option" where
  "aq_pci_shutdown env pe d =
     map_option (\<lambda>d. ([Disable_device], if power_off pe then Some (wol (cfg d) \<noteq> 0) else None, d)) (aq_nic_shutdown env d)"

end
