(* ===== verification/Ptp_Props.thy ===== *)
theory Ptp_Props
  imports Ptp Rx_Props Tx_Props
begin

section \<open>Properties of the PTP clock and its rings\<close>

text \<open>
  The clock follows the counter of the chip from the time it was set to; pulses start on a
  whole second; stamps are handed out in the order in which the packets were sent; what the
  error paths leave behind.
\<close>

subsection \<open>Concrete states\<close>

definition hwp :: aq_hw_s where
  "hwp = hw0\<lparr>mmio := quiet, aq_fw_ops := Some aq_fw_2x_ops\<rparr>"

definition skbr0 :: "u64 list \<Rightarrow> ptp_skb_ring" where
  "skbr0 ss = \<lparr>sr_ptr = 0x700, sr_buff = ss @ [0, 0, 0, 0], sr_size = of_nat (length ss) + 4, sr_head = of_nat (length ss), sr_tail = 0\<rparr>"

definition ptp0 :: "u64 list \<Rightarrow> aq_ptp_s" where
  "ptp0 ss = (ptp_zero 0x900)\<lparr>n_pins := 1, n_per_out := 1, ptp_tx := ring0 8 6, skb_ring := skbr0 ss,
     hwts_rx := (ring0 4 3)\<lparr>hw_head := 1\<rparr>, ptp_tx_timeout := \<lparr>to_active = True, to_start = 5\<rparr>\<rparr>"

definition np0 :: "kern \<Rightarrow> pnic" where
  "np0 k = \<lparr>p_hw = hwp, p_kern = k, p_mem = mem0 five_blocks, p_napi = napi0, p_flags = 0, p_log = [],
     rx_mem = (\<lambda>p o'. []), jiffies = 5000, HZ = 100, real_time = (5, 7), msi_enabled = True, irq_answer = (\<lambda>n. 0),
     irq_calls = 0, irq_log = [], ptp_clk_offset = 0, ptp_offset = [], aq_ptp_pd = aq_ptp_pd0,
     clock_n_pins = 1, clock_n_per_out = 1\<rparr>"

lemma skbr0_ok [simp]:
  "skb_ring_ok (skbr0 [])" "skb_ring_ok (skbr0 [11])" "skbs (skbr0 []) = []" "skbs (skbr0 [11]) = [11]"
  "skb_room (skbr0 []) = 3"
  by (simp_all add: skb_ring_ok_def skbs_def skb_room_def skbr0_def ring.gap_cases ring.walk_def)

lemma np0_sel [simp]:
  "p_hw (np0 k) = hwp" "p_kern (np0 k) = k" "p_log (np0 k) = []" "jiffies (np0 k) = 5000" "HZ (np0 k) = 100"
  "ptp_clk_offset (np0 k) = 0" "p_mem (np0 k) = mem0 five_blocks" "aq_nic_cfg hwp = cfg0" "aq_fw_ops hwp = Some aq_fw_2x_ops"
  by (simp_all add: np0_def hwp_def hw0_def)

lemma ptp0_sel [simp]:
  "ptp_tx (ptp0 ss) = ring0 8 6" "skb_ring (ptp0 ss) = skbr0 ss" "hwts_rx (ptp0 ss) = (ring0 4 3)\<lparr>hw_head := 1\<rparr>"
  "n_per_out (ptp0 ss) = 1" "ptp_tx_timeout (ptp0 ss) = \<lparr>to_active = True, to_start = 5\<rparr>"
  by (simp_all add: ptp0_def)

lemma hwp_quiet: "quiet_hw hwp"
  by (simp add: quiet_hw_def hwp_def hw0_def)

lemma ops_write_field: "aq_fw_ops (write_field hw f i v) = aq_fw_ops hw"
  by (simp add: write_field_def aq_hw_write_reg_bit_def hw_simps aq_utils_obj_set_def Let_def split: prod.splits)

lemma quiet_clock:
  assumes "quiet_hw hw"
  shows "\<exists>hw'. hw_atl_b0_get_ptp_ts 0 hw = (0, hw') \<and> aq_fw_ops hw' = aq_fw_ops hw"
proof -
  let ?h = "hw_atl_pcs_ptp_clock_read_enable (hw_atl_pcs_ptp_clock_read_enable hw 1) 0"
  have q: "quiet_hw ?h" using assms by (simp add: quiet_ops)
  have q': "quiet_hw (h\<lparr>mmio := quiet\<rparr>)" if "quiet_hw h" for h using that by (simp add: quiet_hw_def)
  have g: "get_ptp_ts_val_u64 h i = (0, h\<lparr>mmio := quiet\<rparr>)" if "quiet_hw h" for h i
    using that by (simp add: get_ptp_ts_val_u64_def hw_atl_pcs_ptp_clock_get_def quiet_read)
  have "hw_atl_b0_get_ptp_ts 0 hw = (0, ?h\<lparr>mmio := quiet\<rparr>)"
    using q by (simp add: hw_atl_b0_get_ptp_ts_def g q' Let_def)
  moreover have "aq_fw_ops (?h\<lparr>mmio := quiet\<rparr>) = aq_fw_ops hw"
    by (simp add: hw_atl_pcs_ptp_clock_read_enable_def ops_write_field)
  ultimately show ?thesis by blast
qed

subsection \<open>The clock\<close>

definition ptp_counter :: "pnic \<Rightarrow> u64" where
  "ptp_counter nic = fst (hw_atl_b0_get_ptp_ts 0 (p_hw nic))"

lemma hw_get_ptp_ts_counter:
  "hw_get_ptp_ts nic = (t, nic') \<Longrightarrow> t = ptp_counter nic + ptp_clk_offset nic \<and> ptp_clk_offset nic' = ptp_clk_offset nic"
  by (auto simp: hw_get_ptp_ts_def hw_atl_b0_get_ptp_ts_def ptp_counter_def Let_def split: prod.splits)

lemma settime_offset:
  assumes "aq_ptp_settime nic ts = (err, nic')"
  shows "ptp_clk_offset nic' = timespec64_to_ns ts - ptp_counter nic"
proof -
  obtain now nic1 where g: "hw_get_ptp_ts nic = (now, nic1)" by fastforce
  show ?thesis
    using assms hw_get_ptp_ts_counter [OF g]
    by (auto simp: aq_ptp_settime_def g hw_adj_sys_clock_def hw_atl_b0_adj_sys_clock_def Let_def)
qed

lemma gettime_counter:
  assumes "aq_ptp_gettime nic = (err, nic', ts)"
  shows "err = 0" "ts = ns_to_timespec64 (ptp_counter nic + ptp_clk_offset nic)"
proof -
  obtain now nic1 where g: "hw_get_ptp_ts nic = (now, nic1)" by fastforce
  show "err = 0" "ts = ns_to_timespec64 (ptp_counter nic + ptp_clk_offset nic)"
    using assms hw_get_ptp_ts_counter [OF g] by (auto simp: aq_ptp_gettime_def g)
qed

lemma sint_word_of_int_s64: "- (2 ^ 63) \<le> x \<Longrightarrow> x < 2 ^ 63 \<Longrightarrow> sint (word_of_int x :: u64) = x"
  by (simp add: signed_of_int signed_take_bit_int_eq_self)

text \<open>
  C32: The clock goes on from the time it was set to. After aq_ptp_settime, and however long
  after, aq_ptp_gettime returns the time set plus the nanoseconds the chip's counter has gone on
  by since, plus the corrections aq_ptp_adjtime has made meanwhile, as seconds and nanoseconds
  below a thousand million: read back at once it is the very time that was set.
\<close>

theorem ptp_clock_set:
  assumes set: "aq_ptp_settime nic ts = (err, nic1)"
    and adj: "snd (aq_ptp_adjtime nic2 delta) = nic3" "ptp_clk_offset nic2 = ptp_clk_offset nic1"
    and get: "aq_ptp_gettime nic4 = (err4, nic5, now)" "ptp_clk_offset nic4 = ptp_clk_offset nic3"
    and gone: "ptp_counter nic4 - ptp_counter nic = word_of_int elapsed" "delta = word_of_int d"
    and range: "t = fst ts * 1000000000 + snd ts + elapsed + d" "- (2 ^ 63) \<le> t" "t < 2 ^ 63"
  shows "err4 = 0 \<and> fst now * 1000000000 + snd now = t \<and> 0 \<le> snd now \<and> snd now < 1000000000 \<and>
    (elapsed = 0 \<and> d = 0 \<and> 0 \<le> snd ts \<and> snd ts < 1000000000 \<longrightarrow> now = ts)"
proof -
  have "ptp_clk_offset nic4 = timespec64_to_ns ts - ptp_counter nic + delta"
    using settime_offset [OF set] adj get(2)
    by (auto simp: aq_ptp_adjtime_def hw_adj_sys_clock_def hw_atl_b0_adj_sys_clock_def)
  then have "ptp_counter nic4 + ptp_clk_offset nic4 = timespec64_to_ns ts + word_of_int elapsed + word_of_int d"
    using gone by (simp flip: gone(1))
  also have "\<dots> = word_of_int t" by (simp add: timespec64_to_ns_def range(1))
  finally have "now = (t div 1000000000, t mod 1000000000)"
    using gettime_counter(2) [OF get(1)] sint_word_of_int_s64 [OF range(2,3)]
    by (simp add: ns_to_timespec64_def)
  then show ?thesis using gettime_counter(1) [OF get(1)] by (auto simp: range(1) prod_eq_iff)
qed

theorem ptp_clock_set_witness:
  "snd (snd (aq_ptp_gettime (snd (aq_ptp_adjtime (snd (aq_ptp_settime (np0 kern0) (5, 7))) 0)\<lparr>p_hw := hwp\<rparr>))) = (5, 7)"
proof -
  let ?s = "aq_ptp_settime (np0 kern0) (5, 7)"
  let ?n = "snd (aq_ptp_adjtime (snd ?s) 0)\<lparr>p_hw := hwp\<rparr>"
  obtain e n t where g: "aq_ptp_gettime ?n = (e, n, t)" by (rule prod_cases3)
  have c: "ptp_counter ?n - ptp_counter (np0 kern0) = word_of_int 0" by (simp add: ptp_counter_def)
  have "e = 0 \<and> fst t * 1000000000 + snd t = 5000000007 \<and> 0 \<le> snd t \<and> snd t < 1000000000 \<and>
      ((0 :: int) = 0 \<and> (0 :: int) = 0 \<and> 0 \<le> snd (5 :: int, 7 :: int) \<and> snd (5 :: int, 7 :: int) < 1000000000 \<longrightarrow> t = (5, 7))"
    by (rule ptp_clock_set [OF _ _ _ g _ c, of "(5, 7)" "fst ?s" "snd ?s" "snd ?s" 0]) simp_all
  then show ?thesis using g by simp
qed

subsection \<open>Pulses\<close>

lemma pps_start_bounds:
  assumes "unat now + 2000000000 < 2 ^ 64"
  shows "unat (pps_start now) mod 1000000000 = 0 \<and> unat now + 10000000 \<le> unat (pps_start now) \<and>
    unat (pps_start now) < unat now + 1010000000"
proof -
  define q r where "q = unat now div 1000000000" and "r = unat now mod 1000000000"
  have n: "unat now = 1000000000 * q + r" and r: "r < 1000000000" by (simp_all add: q_def r_def)
  have m: "unat (now mod 1000000000) = r" by (simp add: unat_mod r_def)
  have s: "unat (now - now mod 1000000000) = 1000000000 * q"
    using n by (subst unat_sub) (simp_all add: m word_le_nat_alt)
  define k where "k = (if r > 990000000 then 2 else 1 :: nat)"
  have "pps_start now = now - now mod 1000000000 + 1000000000 * of_nat k"
    by (simp add: pps_start_def Let_def k_def word_less_nat_alt m)
  moreover have "unat (now - now mod 1000000000 + 1000000000 * of_nat k) = 1000000000 * (q + k)"
    using assms n by (auto simp: unat_plus_if' s k_def)
  ultimately have "unat (pps_start now) = 1000000000 * (q + k)" by simp
  then show ?thesis using n r by (auto simp: k_def split: if_splits)
qed

text \<open>
  One pulse per second starts on the second. Switching the pulse per second on programs
  pin 0 with a period of one second and a start that is a whole number of seconds of the clock,
  at least 10 ms and less than 1.01 s after the time read from it; switching it off programs
  period and start 0.
\<close>

theorem pps_starts_on_second:
  assumes e: "aq_ptp_gpio_feature_enable nic p PTP_CLK_REQ_PPS on = Some (err, nic')"
    and now: "hw_get_ptp_ts nic = (now, nic1)" "unat now + 2000000000 < 2 ^ 64"
  shows "(n_per_out p = 0 \<longrightarrow> err = - EINVAL \<and> nic' = nic1) \<and>
    (n_per_out p \<noteq> 0 \<longrightarrow> err = 0 \<and>
      (\<exists>start period fe. hw_atl_b0_gpio_pulse (ptp_clk_offset nic) (p_hw nic1) 0 start period = Some (fe, p_hw nic') \<and>
        (if on then period = 1000000000 \<and> unat start mod 1000000000 = 0 \<and>
           unat now + 10000000 \<le> unat start \<and> unat start < unat now + 1010000000
         else period = 0 \<and> start = 0)))"
proof -
  have o: "ptp_clk_offset nic1 = ptp_clk_offset nic" using hw_get_ptp_ts_counter [OF now(1)] by simp
  have z: "n_per_out p \<le> 0 \<longleftrightarrow> n_per_out p = 0" by (rule word_le_0_iff)
  let ?s = "if on then pps_start now else 0" and ?t = "if on then 1000000000 else 0 :: u32"
  have "aq_ptp_gpio_feature_enable nic p PTP_CLK_REQ_PPS on =
      (if n_per_out p = 0 then Some (- EINVAL, nic1)
       else case hw_atl_b0_gpio_pulse (ptp_clk_offset nic) (p_hw nic1) 0 ?s ?t of
              None \<Rightarrow> None | Some (fe, hw) \<Rightarrow> Some (0, nic1\<lparr>p_hw := hw\<rparr>))"
    by (simp add: aq_ptp_gpio_feature_enable_def pulse_of_def now(1) o z)
  with e have r: "n_per_out p = 0 \<Longrightarrow> err = - EINVAL \<and> nic' = nic1"
    "n_per_out p \<noteq> 0 \<Longrightarrow> err = 0 \<and> (\<exists>fe. hw_atl_b0_gpio_pulse (ptp_clk_offset nic) (p_hw nic1) 0 ?s ?t = Some (fe, p_hw nic'))"
    by (auto split: option.splits)
  let ?ok = "\<lambda>start period. if on then period = 1000000000 \<and> unat start mod 1000000000 = 0 \<and>
      unat now + 10000000 \<le> unat start \<and> unat start < unat now + 1010000000
    else period = (0 :: u32) \<and> start = (0 :: u64)"
  have ok: "?ok ?s ?t" using pps_start_bounds [OF now(2)] by simp
  show ?thesis
  proof (cases "n_per_out p = 0")
    case False
    then obtain fe where "err = 0" "hw_atl_b0_gpio_pulse (ptp_clk_offset nic) (p_hw nic1) 0 ?s ?t = Some (fe, p_hw nic')"
      using r(2) by blast
    then have "err = 0 \<and> (\<exists>start period fe.
        hw_atl_b0_gpio_pulse (ptp_clk_offset nic) (p_hw nic1) 0 start period = Some (fe, p_hw nic') \<and> ?ok start period)"
      using ok by blast
    then show ?thesis using False by blast
  qed (use r(1) in blast)
qed

theorem pps_starts_on_second_witness:
  "\<exists>nic' start period fe hw. aq_ptp_gpio_feature_enable (np0 kern0) (ptp0 []) PTP_CLK_REQ_PPS True = Some (0, nic') \<and>
     hw_atl_b0_gpio_pulse 0 hw 0 start period = Some (fe, p_hw nic') \<and> unat start mod 1000000000 = 0"
proof -
  obtain hw where c: "hw_atl_b0_get_ptp_ts 0 hwp = (0, hw)" "aq_fw_ops hw = Some aq_fw_2x_ops"
    using quiet_clock [OF hwp_quiet] by auto
  then have g: "hw_get_ptp_ts (np0 kern0) = (0, (np0 kern0)\<lparr>p_hw := hw\<rparr>)" by (simp add: hw_get_ptp_ts_def)
  obtain err nic' where e: "aq_ptp_gpio_feature_enable (np0 kern0) (ptp0 []) PTP_CLK_REQ_PPS True = Some (err, nic')"
    using c(2) by (cases "aq_fw2x_send_fw_request hw [HW_AQ_FW_REQUEST_PTP_GPIO_CTRL, 0, 1000000000,
        ucast (pps_start 0), ucast (drop_bit 32 (pps_start 0)), 0, 0] 20") (auto simp: aq_ptp_gpio_feature_enable_def pulse_of_def g hw_atl_b0_gpio_pulse_def send_fw_request_def
        word_le_0_iff Let_def split: prod.splits)
  have n: "n_per_out (ptp0 []) \<noteq> 0" "ptp_clk_offset (np0 kern0) = 0" "unat (0 :: u64) + 2000000000 < 2 ^ 64" by simp_all
  from pps_starts_on_second [OF e g n(3)] n obtain start period fe where z: "err = 0"
    and w: "hw_atl_b0_gpio_pulse 0 hw 0 start period = Some (fe, p_hw nic')" "unat start mod 1000000000 = 0"
    by auto
  show ?thesis
    by (intro exI [of _ nic'] exI [of _ start] exI [of _ period] exI [of _ fe] exI [of _ hw] conjI w e [unfolded z])
qed

subsection \<open>Stamps of sent packets\<close>

definition hwts_done :: "aq_ring_s \<Rightarrow> (u64 \<times> u64) list" where
  "hwts_done r = map (\<lambda>i. dx_ring r ! unat i)
     (ring.walk (ring_size r) (sw_head r) (ring.gap (ring_size r) (sw_head r) (hw_head r)))"

definition stamped :: "pnic \<Rightarrow> aq_ptp_s \<Rightarrow> u64 list \<Rightarrow> (u64 \<times> u64) list \<Rightarrow> ptp_event list" where
  "stamped nic p ss ds =
     map (\<lambda>(s, d). Skb_tstamp s (extract_hwts (ptp_clk_offset nic) d + aq_ptp_tm_offset_egress_get p)) (zip ss ds)"

lemma fold_free_log:
  "fold dev_kfree_skb_any ss nic = nic\<lparr>p_kern := (p_kern nic)\<lparr>klog := klog (p_kern nic) @ map Kfree_skb ss\<rparr>\<rparr>"
  by (induction ss arbitrary: nic) (simp_all add: dev_kfree_skb_any_def klogs_def)

lemma tx_hwtstamp_step:
  assumes "skb_ring_ok (skb_ring p)" "aq_ptp_tx_hwtstamp t nic p = (nic', p')"
  shows "skb_ring_ok (skb_ring p') \<and> hwts_rx p' = hwts_rx p \<and> offset_egress p' = offset_egress p \<and>
    skbs (skb_ring p') = drop 1 (skbs (skb_ring p)) \<and> ptp_clk_offset nic' = ptp_clk_offset nic \<and>
    p_log nic' = p_log nic @ map (\<lambda>s. Skb_tstamp s (t + aq_ptp_tm_offset_egress_get p)) (take 1 (skbs (skb_ring p))) \<and>
    klog (p_kern nic') = klog (p_kern nic) @ map Kfree_skb (take 1 (skbs (skb_ring p)))"
proof -
  obtain y r where g: "aq_ptp_skb_get (skb_ring p) = (y, r)" by fastforce
  show ?thesis
    using skb_fifo.get_some [OF assms(1) g] assms(2)
    by (auto simp: aq_ptp_tx_hwtstamp_def g plogs_def dev_kfree_skb_any_def klogs_def aq_ptp_tx_timeout_update_def
        aq_ptp_tm_offset_egress_get_def Let_def split: list.splits option.splits if_splits)
qed

lemma hwts_clean_loop_spec:
  assumes "hw_head (hwts_rx p) < ring_size (hwts_rx p)" "sw_head (hwts_rx p) < ring_size (hwts_rx p)"
    and "skb_ring_ok (skb_ring p)"
    and "ring.gap (ring_size (hwts_rx p)) (sw_head (hwts_rx p)) (hw_head (hwts_rx p)) \<le> n"
    and "hwts_clean_loop n nic p = (nic', p')"
  shows "p_log nic' = p_log nic @ stamped nic p (skbs (skb_ring p)) (hwts_done (hwts_rx p)) \<and>
    klog (p_kern nic') = klog (p_kern nic) @ map Kfree_skb (take (length (hwts_done (hwts_rx p))) (skbs (skb_ring p))) \<and>
    skbs (skb_ring p') = drop (length (hwts_done (hwts_rx p))) (skbs (skb_ring p)) \<and>
    sw_head (hwts_rx p') = hw_head (hwts_rx p)"
  using assms
proof (induction n arbitrary: nic p)
  case 0
  then have "sw_head (hwts_rx p) = hw_head (hwts_rx p)" by (simp add: ring.gap_0_iff)
  then show ?case using 0 by (simp add: stamped_def hwts_done_def)
next
  case (Suc n)
  let ?r = "hwts_rx p"
  show ?case
  proof (cases "sw_head ?r = hw_head ?r")
    case True
    then have "hwts_done ?r = []" using Suc.prems(1,2) by (simp add: hwts_done_def ring.gap_0_iff ring.walk_def)
    moreover have "nic' = nic" "p' = p" using Suc.prems(5) True by auto
    ultimately show ?thesis using True by (simp add: stamped_def)
  next
    case False
    let ?d = "dx_ring ?r ! unat (sw_head ?r)"
    obtain nic1 p1 where st: "aq_ptp_tx_hwtstamp (extract_hwts (ptp_clk_offset nic) ?d) nic p = (nic1, p1)" by fastforce
    note s = tx_hwtstamp_step [OF Suc.prems(3) st]
    define p2 where "p2 = p1\<lparr>hwts_rx := ?r\<lparr>sw_head := ring_next (ring_size ?r) (sw_head ?r)\<rparr>\<rparr>"
    have g: "Suc (ring.gap (ring_size ?r) (ring_next (ring_size ?r) (sw_head ?r)) (hw_head ?r)) =
        ring.gap (ring_size ?r) (sw_head ?r) (hw_head ?r)"
      using False Suc.prems by (intro ring.gap_nxt_left) auto
    have d: "hwts_done ?r = ?d # hwts_done (hwts_rx p2)"
      by (simp add: hwts_done_def g [symmetric] ring.walk_Suc p2_def)
    have l: "hwts_clean_loop n nic1 p2 = (nic', p')"
      using Suc.prems(5) False s by (simp add: Let_def st p2_def aq_ring_next_dx_def)
    have "p_log nic' = p_log nic1 @ stamped nic1 p2 (skbs (skb_ring p2)) (hwts_done (hwts_rx p2)) \<and>
        klog (p_kern nic') = klog (p_kern nic1) @ map Kfree_skb (take (length (hwts_done (hwts_rx p2))) (skbs (skb_ring p2))) \<and>
        skbs (skb_ring p') = drop (length (hwts_done (hwts_rx p2))) (skbs (skb_ring p2)) \<and>
        sw_head (hwts_rx p') = hw_head (hwts_rx p2)"
      using Suc.prems(1,2,4) s g by (intro Suc.IH [OF _ _ _ _ l]) (auto simp: p2_def ring_next_less)
    moreover have "stamped nic p (skbs (skb_ring p)) (hwts_done ?r) =
        map (\<lambda>s. Skb_tstamp s (extract_hwts (ptp_clk_offset nic) ?d + aq_ptp_tm_offset_egress_get p)) (take 1 (skbs (skb_ring p))) @
        stamped nic1 p2 (skbs (skb_ring p2)) (hwts_done (hwts_rx p2))"
      using s by (cases "skbs (skb_ring p)") (simp_all add: stamped_def d p2_def aq_ptp_tm_offset_egress_get_def)
    ultimately show ?thesis
      using s by (cases "skbs (skb_ring p)") (simp_all add: d p2_def)
  qed
qed

text \<open>
  C27: Time stamps go to the packets in the order in which they were sent. aq_ring_hwts_rx_clean
  takes every write-back between the heads of its ring, oldest first; each gives the packet that
  has waited longest the chip's time plus the egress latency of the link and frees the
  reference held on it, once; write-backs without a packet are skipped, packets without a
  write-back go on waiting, and the timeout is off as soon as none waits.
\<close>

theorem stamps_in_order:
  assumes h: "hw_head (hwts_rx p) < ring_size (hwts_rx p)" "sw_head (hwts_rx p) < ring_size (hwts_rx p)"
    and q: "skb_ring_ok (skb_ring p)" "ss = skbs (skb_ring p)"
    and c: "aq_ring_hwts_rx_clean nic p = (nic', p')" "ds = hwts_done (hwts_rx p)"
  shows "p_log nic' = p_log nic @ stamped nic p ss ds \<and>
    klog (p_kern nic') = klog (p_kern nic) @ map Kfree_skb (take (length ds) ss) \<and>
    skbs (skb_ring p') = drop (length ds) ss \<and> sw_head (hwts_rx p') = hw_head (hwts_rx p)"
proof -
  have "p_log nic' = p_log nic @ stamped nic p (skbs (skb_ring p)) (hwts_done (hwts_rx p)) \<and>
      klog (p_kern nic') = klog (p_kern nic) @ map Kfree_skb (take (length (hwts_done (hwts_rx p))) (skbs (skb_ring p))) \<and>
      skbs (skb_ring p') = drop (length (hwts_done (hwts_rx p))) (skbs (skb_ring p)) \<and>
      sw_head (hwts_rx p') = hw_head (hwts_rx p)"
    using ring.gap_less [OF h(2), of "hw_head (hwts_rx p)"] c(1)
    by (intro hwts_clean_loop_spec [OF h q(1)]) (auto simp: aq_ring_hwts_rx_clean_def)
  then show ?thesis by (simp add: q(2) c(2))
qed

theorem stamps_in_order_witness:
  "skbs (skb_ring (snd (aq_ring_hwts_rx_clean (np0 kern0) (ptp0 [11])))) = [] \<and>
   klog (p_kern (fst (aq_ring_hwts_rx_clean (np0 kern0) (ptp0 [11])))) = [Kfree_skb 11]"
proof -
  obtain nic' p' where c: "aq_ring_hwts_rx_clean (np0 kern0) (ptp0 [11]) = (nic', p')" by fastforce
  have l: "length (hwts_done (hwts_rx (ptp0 [11]))) = 2"
    by (simp add: hwts_done_def ring.walk_def ring.gap_cases)
  show ?thesis
    using stamps_in_order [OF _ _ _ refl c refl] c l by (simp add: kern0_def)
qed

subsection \<open>The waiting packets\<close>

text \<open>
  C28: The ring of packets that wait for a stamp is a first-in first-out queue. From its
  initialisation with a size of at least 1 on, whatever sequence of aq_ptp_skb_put and
  aq_ptp_skb_get runs, the gets return what a queue of at most size - 1 entries returns, the ring
  holds what the queue holds, wrap-around included, and aq_ptp_skb_buf_len is its length.
\<close>

theorem ptp_skb_ring_fifo:
  assumes "aq_ptp_skb_ring_init stale r0 n m = (0, r, m')" "0 < n" "skb_run ops r = (ys, r')"
  shows "fifo_spec (unat n - 1) ops [] = (ys, skbs r') \<and> unat (aq_ptp_skb_buf_len r') = length (skbs r') \<and>
    length (skbs r') \<le> unat n - 1"
proof -
  have "skb_ring_ok r" "skbs r = []" "skb_room r = unat n - 1"
    using assms(1,2) ring.gap_0_iff [of 0 n 0]
    by (auto simp: aq_ptp_skb_ring_init_def skb_ring_ok_def skbs_def skb_room_def ring.walk_def word_less_nat_alt
        ENOMEM_def split: prod.splits if_splits)
  then show ?thesis
    using skb_fifo.run_refines [of r ops ys r'] skb_buf_len [of r'] skb_fifo.fits [of r'] assms(3)
    by (simp add: skb_run_eq)
qed

theorem ptp_skb_ring_fifo_witness:
  "fst (skb_run [Some 1, Some 2, Some 3, None, Some 4, None, None, None]
     (fst (snd (aq_ptp_skb_ring_init [] (skbr0 []) 3 (mem0 five_blocks))))) = [Some 1, Some 2, Some 4, None]"
proof -
  let ?ops = "[Some 1, Some 2, Some 3, None, Some 4, None, None, None]"
  obtain r m' where i: "aq_ptp_skb_ring_init [] (skbr0 []) 3 (mem0 five_blocks) = (0, r, m')"
    by (auto simp: aq_ptp_skb_ring_init_def mem_get_def mem0_def five_blocks_def)
  obtain ys r' where r: "skb_run ?ops r = (ys, r')" by fastforce
  have "fifo_spec (unat (3 :: u32) - 1) ?ops [] = (ys, skbs r')" using ptp_skb_ring_fifo [OF i _ r] by simp
  moreover have "unat (3 :: u32) - 1 = 2" by simp
  moreover have "fifo_spec 2 ?ops [] = ([Some 1, Some 2, Some 4, None], [])" by simp
  ultimately show ?thesis using i r by simp
qed

definition ptp_waiting_ok :: "aq_ptp_s \<Rightarrow> bool" where
  "ptp_waiting_ok p \<longleftrightarrow> skb_ring_ok (skb_ring p) \<and> (skbs (skb_ring p) \<noteq> [] \<longrightarrow> to_active (ptp_tx_timeout p))"

text \<open>What can happen to the waiting packets: a packet is sent, stamps arrive, time passes, the service task runs.\<close>

inductive ptp_step :: "pnic \<times> aq_ptp_s \<Rightarrow> pnic \<times> aq_ptp_s \<Rightarrow> bool" where
  step_xmit: "aq_ptp_xmit nic p s = (err, nic', p') \<Longrightarrow> ptp_step (nic, p) (nic', p')"
| step_stamps: "aq_ring_hwts_rx_clean nic p = (nic', p') \<Longrightarrow> ptp_step (nic, p) (nic', p')"
| step_service: "aq_ptp_service_task nic (Some p) = (nic', Some p') \<Longrightarrow> ptp_step (nic, p) (nic', p')"
| step_time: "ptp_step (nic, p) (nic\<lparr>jiffies := j\<rparr>, p)"

inductive_cases ptp_stepE: "ptp_step (nic, p) st"

lemma xmit_waiting:
  assumes x: "aq_ptp_xmit nic p s = (err, nic', p')" and ok: "skb_ring_ok (skb_ring p)"
  shows "skb_ring_ok (skb_ring p') \<and> (skbs (skb_ring p') = skbs (skb_ring p) \<and> ptp_tx_timeout p' = ptp_tx_timeout p \<or>
     skbs (skb_ring p') = skbs (skb_ring p) @ [skb_ptr s] \<and> ptp_tx_timeout p' = \<lparr>to_active = True, to_start = jiffies nic\<rparr>)"
proof -
  obtain e r where put: "aq_ptp_skb_put (skb_ring p) (skb_ptr s) = (e, r)" by fastforce
  obtain f g k where m: "aq_nic_map_skb False (is_vlan_tx_insert (aq_nic_cfg (p_hw nic))) s (ptp_tx p) (p_kern nic) = (f, g, k)"
    by (rule prod_cases3)
  obtain e2 hw g2 where t: "hw_atl_b0_hw_ring_tx_xmit (p_hw nic) g f = (e2, hw, g2)" by (rule prod_cases3)
  note c = skb_fifo.put_cases [OF ok put]
  show ?thesis
    using x ok c put
    by (auto simp: aq_ptp_xmit_def m t plogs_def aq_ptp_tx_timeout_start_def Let_def dev_kfree_skb_any_def split: if_splits)
qed

lemma tx_hwtstamp_waiting:
  assumes "aq_ptp_tx_hwtstamp t nic p = (nic', p')" "ptp_waiting_ok p"
  shows "ptp_waiting_ok p'"
proof -
  obtain y r where g: "aq_ptp_skb_get (skb_ring p) = (y, r)" by fastforce
  have ok: "skb_ring_ok (skb_ring p)" using assms(2) by (simp add: ptp_waiting_ok_def)
  note s = skb_fifo.get_some [OF ok g]
  have r: "skb_ring_ok r" using s by blast
  have l: "aq_ptp_skb_buf_len r = 0 \<longleftrightarrow> skbs r = []" using skb_buf_len [OF r] by (metis length_0_conv unat_eq_zero)
  show ?thesis
  proof (cases "skbs (skb_ring p)")
    case Nil
    then show ?thesis using s assms g by (simp add: aq_ptp_tx_hwtstamp_def)
  next
    case (Cons x xs)
    then show ?thesis using s assms g r l
      by (auto simp: aq_ptp_tx_hwtstamp_def ptp_waiting_ok_def aq_ptp_tx_timeout_update_def Let_def split: if_splits)
  qed
qed

lemma hwts_loop_waiting:
  "hwts_clean_loop n nic p = (nic', p') \<Longrightarrow> ptp_waiting_ok p \<Longrightarrow> ptp_waiting_ok p'"
proof (induction n arbitrary: nic p)
  case (Suc n)
  obtain nic1 p1 where st: "aq_ptp_tx_hwtstamp (extract_hwts (ptp_clk_offset nic) (dx_ring (hwts_rx p) ! unat (sw_head (hwts_rx p)))) nic p =
      (nic1, p1)" by fastforce
  have w: "ptp_waiting_ok (p1\<lparr>hwts_rx := x\<rparr>)" for x
    using tx_hwtstamp_waiting [OF st Suc.prems(2)] by (simp add: ptp_waiting_ok_def)
  show ?case using Suc.prems Suc.IH [OF _ w] by (auto simp: st Let_def split: if_splits)
qed simp

definition timed_out :: "pnic \<Rightarrow> aq_ptp_s \<Rightarrow> bool" where
  "timed_out nic p \<longleftrightarrow> to_active (ptp_tx_timeout p) \<and>
     time_is_before_jiffies nic (to_start (ptp_tx_timeout p) + AQ_PTP_TX_TIMEOUT nic)"

lemma service_cases:
  assumes "aq_ptp_service_task nic (Some p) = (nic', p2)" "skb_ring_ok (skb_ring p)"
  obtains (idle) "\<not> timed_out nic p" "nic' = nic" "p2 = Some p"
    | (release) p' where "timed_out nic p" "p2 = Some p'" "skb_ring_ok (skb_ring p')" "skbs (skb_ring p') = []"
        "\<not> to_active (ptp_tx_timeout p')"
        "nic' = nic\<lparr>p_kern := (p_kern nic)\<lparr>klog := klog (p_kern nic) @ map Kfree_skb (skbs (skb_ring p))\<rparr>\<rparr>"
proof (cases "timed_out nic p")
  case True
  obtain ss r where c: "aq_ptp_skb_ring_clean (skb_ring p) = (ss, r)" by fastforce
  note a = skb_ring_clean_all [OF assms(2) c]
  show ?thesis
    using assms(1) True a
    by (intro release) (auto simp: timed_out_def aq_ptp_service_task_def aq_ptp_tx_timeout_check_def c Let_def fold_free_log)
next
  case False
  show ?thesis
    using assms(1) False
    by (intro idle) (auto simp: timed_out_def aq_ptp_service_task_def aq_ptp_tx_timeout_check_def Let_def)
qed

lemma ptp_step_waiting:
  assumes "ptp_step st st'" "ptp_waiting_ok (snd st)"
  shows "ptp_waiting_ok (snd st')"
  using assms
proof (induction rule: ptp_step.induct)
  case (step_xmit nic p s err nic' p')
  then show ?case using xmit_waiting [OF step_xmit(1)] by (auto simp: ptp_waiting_ok_def)
next
  case (step_stamps nic p nic' p')
  then show ?case using hwts_loop_waiting by (auto simp: aq_ring_hwts_rx_clean_def)
next
  case (step_service nic p nic' p')
  have "skb_ring_ok (skb_ring p)" using step_service(2) by (simp add: ptp_waiting_ok_def)
  with step_service(1) show ?case
    by (rule service_cases) (use step_service(2) in \<open>auto simp: ptp_waiting_ok_def\<close>)
qed simp

lemma ptp_steps_waiting: "ptp_step\<^sup>*\<^sup>* st st' \<Longrightarrow> ptp_waiting_ok (snd st) \<Longrightarrow> ptp_waiting_ok (snd st')"
  by (induction rule: rtranclp_induct) (auto intro: ptp_step_waiting)

text \<open>
  C29: No packet waits for a stamp for ever. Whatever has been sent and stamped since the rings
  were set up, once the service task runs more than ten seconds after the last packet was sent
  (the clock of jiffies may wrap around), it frees every packet still waiting, once each, and
  leaves nothing waiting.
\<close>

theorem ptp_waiting_released:
  assumes start: "ptp_waiting_ok p0" "ptp_step\<^sup>*\<^sup>* (n0, p0) (nic, p)"
    and late: "jiffies nic = to_start (ptp_tx_timeout p) + of_nat d" "10 * unat (HZ nic) < d"
      "d - 10 * unat (HZ nic) < 2 ^ 63"
    and run: "aq_ptp_service_task nic (Some p) = (nic', p2)"
  shows "\<exists>p'. p2 = Some p' \<and> skbs (skb_ring p') = [] \<and>
    klog (p_kern nic') = klog (p_kern nic) @ map Kfree_skb (skbs (skb_ring p))"
proof -
  have w: "ptp_waiting_ok p" using ptp_steps_waiting [OF start(2)] start(1) by simp
  define e where "e = d - 10 * unat (HZ nic)"
  have d: "of_nat d = HZ nic * 10 + of_nat e" using late(2) by (simp add: e_def of_nat_diff)
  have "to_start (ptp_tx_timeout p) + AQ_PTP_TX_TIMEOUT nic - jiffies nic = - (of_nat e :: u64)"
    by (simp add: late(1) AQ_PTP_TX_TIMEOUT_def d)
  moreover have "sint (- (of_nat e :: u64)) < 0"
  proof -
    have "(- (of_nat e :: u64)) = word_of_int (- int e)" by simp
    moreover have "sint (word_of_int (- int e) :: u64) = - int e"
      using late(3) by (intro sint_word_of_int_s64) (simp_all add: e_def)
    moreover have "0 < e" using late(2) by (simp add: e_def)
    ultimately show ?thesis by simp
  qed
  ultimately have b: "time_is_before_jiffies nic (to_start (ptp_tx_timeout p) + AQ_PTP_TX_TIMEOUT nic)"
    by (simp add: time_is_before_jiffies_def)
  from run w [unfolded ptp_waiting_ok_def, THEN conjunct1] show ?thesis
  proof (cases rule: service_cases)
    case idle
    then have "skbs (skb_ring p) = []" using b w by (auto simp: timed_out_def ptp_waiting_ok_def)
    then show ?thesis using idle by simp
  qed simp
qed

theorem ptp_waiting_released_witness:
  "\<exists>nic' p'. aq_ptp_service_task (np0 kern0) (Some (ptp0 [11])) = (nic', Some p') \<and> klog (p_kern nic') = [Kfree_skb 11]"
proof -
  obtain nic' p2 where r: "aq_ptp_service_task (np0 kern0) (Some (ptp0 [11])) = (nic', p2)" by fastforce
  have "ptp_waiting_ok (ptp0 [11])" by (simp add: ptp_waiting_ok_def)
  then show ?thesis
    using ptp_waiting_released [OF _ rtranclp.rtrancl_refl _ _ _ r, of 4995] r by (auto simp: samples_kern)
qed

lemma ptp_xmit_put:
  assumes "0 < skb_len s" "length (skb_frags s) < 32" "of_nat (length (skb_frags s)) + 1 \<le> aq_ring_avail_dx (ptp_tx p)"
    and "aq_ptp_skb_put (skb_ring p) (skb_ptr s) = (0, r)"
    and "aq_nic_map_skb False (is_vlan_tx_insert (aq_nic_cfg (p_hw nic))) s (ptp_tx p) (p_kern nic) = (n, g, k)"
    and "aq_ptp_xmit nic p s = (err, nic', p')"
  shows "skb_ring p' = r" "n = 0 \<Longrightarrow> err = NETDEV_TX_BUSY \<and> p_hw nic' = p_hw nic \<and> ptp_tx p' = g"
    "n \<noteq> 0 \<Longrightarrow> err = fst (hw_atl_b0_hw_ring_tx_xmit (p_hw nic) g n)"
proof -
  have "of_nat (length (skb_frags s)) + 1 \<le> (32 :: u32)"
    using assms(2) by (simp add: word_le_nat_alt unat_plus_if' unat_of_nat)
  then have f: "\<not> AQ_CFG_SKB_FRAGS_MAX < of_nat (length (skb_frags s)) + 1"
      "\<not> aq_ring_avail_dx (ptp_tx p) < of_nat (length (skb_frags s)) + 1" "skb_len s \<noteq> 0"
    using assms(1,3) by (auto simp: AQ_CFG_SKB_FRAGS_MAX_def not_less)
  let ?p = "aq_ptp_tx_timeout_start (plogs (Skb_get (skb_ptr s)) nic) (p\<lparr>skb_ring := r\<rparr>)"
  have t: "ptp_tx ?p = ptp_tx p" "skb_ring ?p = r" "p_kern (plogs e nic) = p_kern nic" "p_hw (plogs e nic) = p_hw nic" for e
    by (simp_all add: aq_ptp_tx_timeout_start_def plogs_def)
  show "skb_ring p' = r" "n = 0 \<Longrightarrow> err = NETDEV_TX_BUSY \<and> p_hw nic' = p_hw nic \<and> ptp_tx p' = g"
    "n \<noteq> 0 \<Longrightarrow> err = fst (hw_atl_b0_hw_ring_tx_xmit (p_hw nic) g n)"
    using assms(6) f t by (auto simp: aq_ptp_xmit_def assms(4,5) Let_def split: prod.splits if_splits)
qed

text \<open>
  C30: A packet that cannot be mapped shifts the stamps. When mapping fails, aq_ptp_xmit returns
  busy without putting anything into the descriptor ring but leaves the packet in the ring of
  waiting packets; the stamp of the next packet sent then goes to the packet that was not sent,
  and the packet that was sent goes on waiting.
\<close>

theorem ptp_busy_shifts_stamps:
  assumes ok: "skb_ring_ok (skb_ring p)" "skbs (skb_ring p) = []" "1 < skb_room (skb_ring p)"
    and s: "0 < skb_len s" "length (skb_frags s) < 32" "of_nat (length (skb_frags s)) + 1 \<le> aq_ring_avail_dx (ptp_tx p)"
      "aq_nic_map_skb False (is_vlan_tx_insert (aq_nic_cfg (p_hw nic))) s (ptp_tx p) (p_kern nic) = (0, g, k)"
    and x1: "aq_ptp_xmit nic p s = (err1, nic1, p1)"
    and t: "0 < skb_len t" "length (skb_frags t) < 32" "of_nat (length (skb_frags t)) + 1 \<le> aq_ring_avail_dx (ptp_tx p1)"
      "aq_ptp_xmit nic' p1 t = (0, nic2, p2)"
    and h: "aq_ptp_tx_hwtstamp stamp nic2 p2 = (nic3, p3)"
  shows "err1 = NETDEV_TX_BUSY \<and> p_hw nic1 = p_hw nic \<and> skbs (skb_ring p1) = [skb_ptr s] \<and>
    (\<exists>at. p_log nic3 = p_log nic2 @ [Skb_tstamp (skb_ptr s) at]) \<and> skbs (skb_ring p3) = [skb_ptr t]"
proof -
  obtain e r where put1: "aq_ptp_skb_put (skb_ring p) (skb_ptr s) = (e, r)" by fastforce
  have c1: "e = 0" "skb_ring_ok r" "skbs r = [skb_ptr s]" "skb_room r = skb_room (skb_ring p)"
    using skb_fifo.put_cases [OF ok(1) put1] ok(2,3) by simp_all
  have "aq_ptp_skb_put (skb_ring p) (skb_ptr s) = (0, r)" using put1 c1(1) by simp
  note p1 = ptp_xmit_put [OF s(1-3) this s(4) x1]
  obtain e2 r2 where put2: "aq_ptp_skb_put r (skb_ptr t) = (e2, r2)" by fastforce
  have c2: "e2 = 0" "skb_ring_ok r2" "skbs r2 = [skb_ptr s, skb_ptr t]"
    using skb_fifo.put_cases [OF c1(2) put2] c1 ok(3) by simp_all
  have put: "aq_ptp_skb_put (skb_ring p1) (skb_ptr t) = (0, r2)" using put2 c2(1) p1(1) by simp
  obtain n g2 k2 where "aq_nic_map_skb False (is_vlan_tx_insert (aq_nic_cfg (p_hw nic'))) t (ptp_tx p1) (p_kern nic') = (n, g2, k2)"
    by (rule prod_cases3)
  note p2 = ptp_xmit_put(1) [OF t(1-3) put this t(4)]
  have "p_log nic3 = p_log nic2 @ [Skb_tstamp (skb_ptr s) (stamp + aq_ptp_tm_offset_egress_get p2)]"
    "skbs (skb_ring p3) = [skb_ptr t]"
    using tx_hwtstamp_step [OF _ h] c2 p2 by simp_all
  then show ?thesis using p1 c1 by simp
qed

lemma skb0_ptr: "skb_ptr skb0 = 0xABC0"
  by (simp add: skb0_def)

lemma skb_ptr_t: "skb_ptr (skb0\<lparr>skb_ptr := x\<rparr>) = x"
  by simp

lemma busy_second:
  "fst (aq_nic_map_skb False True (skb0\<lparr>skb_ptr := 0xDEF0\<rparr>)
     (fst (snd (aq_nic_map_skb False True skb0 (ring0 8 6) (kern_refuse 2)))) kern0) \<noteq> 0"
  "aq_ring_avail_dx (fst (snd (aq_nic_map_skb False True skb0 (ring0 8 6) (kern_refuse 2)))) = 7"
  "aq_ring_avail_dx (ring0 8 6) = 7"
  "fst (aq_ptp_skb_put (skbr0 []) 0xABC0) = 0"
  "fst (aq_ptp_skb_put (snd (aq_ptp_skb_put (skbr0 []) 0xABC0)) 0xDEF0) = 0"
  by code_simp+

theorem ptp_busy_shifts_stamps_witness:
  "\<exists>nic1 p1 nic2 p2 nic3 p3 at. aq_ptp_xmit (np0 (kern_refuse 2)) (ptp0 []) skb0 = (NETDEV_TX_BUSY, nic1, p1) \<and>
     aq_ptp_xmit (np0 kern0) p1 (skb0\<lparr>skb_ptr := 0xDEF0\<rparr>) = (0, nic2, p2) \<and>
     aq_ptp_tx_hwtstamp 1000 nic2 p2 = (nic3, p3) \<and>
     p_log nic3 = p_log nic2 @ [Skb_tstamp (skb_ptr skb0) at] \<and> skbs (skb_ring p3) = [0xDEF0]"
  proof -
  let ?t = "skb0\<lparr>skb_ptr := 0xDEF0\<rparr>"
  obtain g k where m: "aq_nic_map_skb False True skb0 (ring0 8 6) (kern_refuse 2) = (0, g, k)"
    using samples_tx(2) by (metis prod.collapse)
  have room: "fst (aq_nic_map_skb False True ?t g kern0) \<noteq> 0" "aq_ring_avail_dx g = 7"
    using busy_second m by simp_all
  obtain err1 nic1 p1 where x1: "aq_ptp_xmit (np0 (kern_refuse 2)) (ptp0 []) skb0 = (err1, nic1, p1)" by (rule prod_cases3)
  obtain err2 nic2 p2 where x2: "aq_ptp_xmit (np0 kern0) p1 ?t = (err2, nic2, p2)" by (rule prod_cases3)
  obtain nic3 p3 where h: "aq_ptp_tx_hwtstamp 1000 nic2 p2 = (nic3, p3)" by fastforce
  have v: "is_vlan_tx_insert (aq_nic_cfg (p_hw (np0 k)))" for k by (simp add: cfg0_def)
  obtain r1 where put1: "aq_ptp_skb_put (skb_ring (ptp0 [])) (skb_ptr skb0) = (0, r1)"
    using busy_second(4) by (metis prod.collapse ptp0_sel(2) skb0_ptr)
  obtain r2 where put2: "aq_ptp_skb_put r1 (skb_ptr ?t) = (0, r2)"
    using busy_second(5) put1 by (metis prod.collapse ptp0_sel(2) skb0_ptr snd_conv skb_ptr_t)
  have s: "0 < skb_len skb0" "length (skb_frags skb0) < 32"
      "of_nat (length (skb_frags skb0)) + 1 \<le> aq_ring_avail_dx (ptp_tx (ptp0 []))"
    using busy_second(3) by (simp_all add: skb0_def)
  have m1: "aq_nic_map_skb False (is_vlan_tx_insert (aq_nic_cfg (p_hw (np0 (kern_refuse 2))))) skb0 (ptp_tx (ptp0 []))
      (p_kern (np0 (kern_refuse 2))) = (0, g, k)" using m v by simp
  note a1 = ptp_xmit_put [OF s put1 m1 x1]
  then have p1: "ptp_tx p1 = g" "skb_ring p1 = r1" "err1 = NETDEV_TX_BUSY" by simp_all
  obtain n g2 k2 where m2: "aq_nic_map_skb False (is_vlan_tx_insert (aq_nic_cfg (p_hw (np0 kern0)))) ?t (ptp_tx p1)
      (p_kern (np0 kern0)) = (n, g2, k2)" by (rule prod_cases3)
  have t: "0 < skb_len ?t" "length (skb_frags ?t) < 32" "of_nat (length (skb_frags ?t)) + 1 \<le> aq_ring_avail_dx (ptp_tx p1)"
    using room p1 by (simp_all add: skb0_def)
  have n: "n \<noteq> 0" using m2 room v by (simp add: p1)
  have "err2 = 0"
    using ptp_xmit_put(3) [OF t put2 [folded p1(2)] m2 x2 n] hwp_quiet
    by (simp add: hw_atl_b0_hw_ring_tx_xmit_def hw_atl_b0_hw_tx_ring_tail_update_def quiet_ops quiet_no_error Let_def)
  then have z: "aq_ptp_xmit (np0 kern0) p1 ?t = (0, nic2, p2)" using x2 by simp
  have "skb_ring_ok (skb_ring (ptp0 []))" "skbs (skb_ring (ptp0 [])) = []" "1 < skb_room (skb_ring (ptp0 []))" by simp_all
  from ptp_busy_shifts_stamps [OF this s m1 x1 t z h] show ?thesis
    using x1 z h p1(3) by (auto simp: skb_ptr_t)
qed

subsection \<open>Memory of the rings\<close>

definition ptp_held :: "aq_ptp_s \<Rightarrow> u64 \<Rightarrow> int" where
  "ptp_held p q = held_by (ptp_tx_mem p) q + held_by (ptp_rx_mem p) q + held_by (hwts_rx_mem p) q +
     of_bool (sr_ptr (skb_ring p) = q \<and> q \<noteq> 0)"

text \<open>An allocation that succeeds takes what the ring then holds; one that fails, in a ring that held nothing, takes nothing.\<close>

definition grows :: "mem \<Rightarrow> mem \<Rightarrow> (u64 \<Rightarrow> int) \<Rightarrow> bool" where
  "grows m m' h \<longleftrightarrow> mem_answer m' = mem_answer m \<and> (\<forall>q. balance m' q = balance m q + h q)"

definition sound_mem :: "mem \<Rightarrow> bool" where
  "sound_mem m \<longleftrightarrow> (\<forall>n. mem_answer m n \<noteq> Some 0)"

lemma grows_sound: "grows m m' h \<Longrightarrow> sound_mem m \<Longrightarrow> sound_mem m'"
  by (simp add: grows_def sound_mem_def)

lemma grows_free: "grows m m' h \<Longrightarrow> grows m (aq_ring_free r m') (\<lambda>q. h q - held_by r q)"
  by (simp add: grows_def balance_free) (simp add: aq_ring_free_def mem_logs_def Let_def)

lemma ring_alloc_grows:
  assumes "aq_ring_alloc r m = (got, r', m')" "sound_mem m" "got \<or> rm_dx_ring r = 0"
  shows "grows m m' (\<lambda>q. if got then held_by r' q else 0)"
proof (cases "rm_dx_ring r = 0")
  case True
  then show ?thesis
    using ring_alloc_balance [OF assms(1) True] assms(2) by (simp add: grows_def sound_mem_def)
next
  case False
  have "aq_ring_alloc (r\<lparr>rm_dx_ring := 0\<rparr>) m = (got, r', m')"
    using assms(1,3) False
    by (auto simp: aq_ring_alloc_def dx_bytes_def Let_def split: prod.splits if_splits)
  from ring_alloc_balance [OF this] show ?thesis using assms(2) by (simp add: grows_def sound_mem_def)
qed

lemma tx_alloc_grows:
  "aq_ring_tx_alloc r i cfg m = (got, r', m') \<Longrightarrow> sound_mem m \<Longrightarrow> got \<or> rm_dx_ring r = 0 \<Longrightarrow>
     grows m m' (\<lambda>q. if got then held_by r' q else 0)"
  unfolding aq_ring_tx_alloc_def Let_def by (erule ring_alloc_grows) simp_all

lemma rx_alloc_grows:
  "aq_ring_rx_alloc r i cfg m = (got, r', m') \<Longrightarrow> sound_mem m \<Longrightarrow> got \<or> rm_dx_ring r = 0 \<Longrightarrow>
     grows m m' (\<lambda>q. if got then held_by r' q else 0)"
  unfolding aq_ring_rx_alloc_def Let_def by (erule ring_alloc_grows) simp_all

lemma hwts_alloc_grows:
  assumes "aq_ring_hwts_rx_alloc i n d m = (got, r', m')" "sound_mem m"
  shows "grows m m' (\<lambda>q. if got then held_by r' q else 0)"
proof -
  obtain p m1 where g: "mem_get (\<lambda>p. Dma_alloc p (unat (n * d + of_nat AQ_CFG_RXDS_DEF))) m = (p, m1)"
    by fastforce
  have b: "balance m1 q = balance m q + of_bool (p = q \<and> q \<noteq> 0)" for q
    using assms(2) by (intro balance_get [OF g]) (auto simp: sound_mem_def)
  have k: "mem_answer m1 = mem_answer m" using get_keeps [OF g] by simp
  show ?thesis
    using assms(1) b k
    by (auto simp: aq_ring_hwts_rx_alloc_def g grows_def ring_mem0_def held_by_def aq_ring_free_def Let_def split: if_splits)
qed

lemma skb_init_grows:
  assumes "aq_ptp_skb_ring_init stale r n m = (err, r', m')" "sound_mem m"
  shows "grows m m' (\<lambda>q. if err = 0 then of_bool (sr_ptr r' = q \<and> q \<noteq> 0) else 0)"
proof -
  obtain p m1 where g: "mem_get Kalloc m = (p, m1)" by fastforce
  have b: "balance m1 q = balance m q + of_bool (p = q \<and> q \<noteq> 0)" for q
    using assms(2) by (intro balance_get [OF g]) (auto simp: sound_mem_def)
  have k: "mem_answer m1 = mem_answer m" using get_keeps [OF g] by simp
  show ?thesis
    using assms(1) b k by (auto simp: aq_ptp_skb_ring_init_def g grows_def ENOMEM_def split: if_splits)
qed

lemma grows_trans: "grows m m1 h \<Longrightarrow> grows m1 m2 k \<Longrightarrow> grows m m2 (\<lambda>q. h q + k q)"
  by (simp add: grows_def)

lemma ptp_ring_alloc_grows:
  assumes a: "aq_ptp_ring_alloc dxs stale nic (Some p) = (err, nic', Some p')" and s: "sound_mem (p_mem nic)"
    and f: "err = 0 \<or> rm_dx_ring (ptp_tx_mem p) = 0 \<and> rm_dx_ring (ptp_rx_mem p) = 0"
  shows "grows (p_mem nic) (p_mem nic') (\<lambda>q. if err = 0 then ptp_held p' q else 0)"
proof -
  let ?cfg = "aq_nic_cfg (p_hw nic)"
  obtain e1 hw1 tc1 where t1: "hw_atl_b0_tx_tc_mode_get (p_hw nic) = (e1, hw1, tc1)" by (rule prod_cases3)
  obtain got1 tx m1 where a1: "aq_ring_tx_alloc (ptp_tx_mem p) (ptp_ring_idx tc1) ?cfg (p_mem nic) = (got1, tx, m1)"
    by (rule prod_cases3)
  obtain e2 hw2 tc2 where t2: "hw_atl_b0_rx_tc_mode_get hw1 = (e2, hw2, tc2)" by (rule prod_cases3)
  obtain got2 rx m2 where a2: "aq_ring_rx_alloc (ptp_rx_mem p) (ptp_ring_idx tc2) ?cfg m1 = (got2, rx, m2)"
    by (rule prod_cases3)
  obtain got3 hwts m3 where a3: "aq_ring_hwts_rx_alloc PTP_HWST_RING_IDX (rxds ?cfg) (ucast (caps_rxd_size (aq_hw_caps ?cfg))) m2 = (got3, hwts, m3)"
    by (rule prod_cases3)
  obtain e4 r m4 where a4: "aq_ptp_skb_ring_init stale (skb_ring p) (rxds ?cfg) m3 = (e4, r, m4)" by (rule prod_cases3)
  have step: "\<not> got1 \<Longrightarrow> err \<noteq> 0 \<and> p_mem nic' = m1"
      "got1 \<Longrightarrow> \<not> got2 \<Longrightarrow> err \<noteq> 0 \<and> p_mem nic' = aq_ring_free tx m2"
      "got1 \<Longrightarrow> got2 \<Longrightarrow> \<not> got3 \<Longrightarrow> err \<noteq> 0 \<and> p_mem nic' = aq_ring_free tx (aq_ring_free rx m3)"
      "got1 \<Longrightarrow> got2 \<Longrightarrow> got3 \<Longrightarrow> e4 \<noteq> 0 \<Longrightarrow> err \<noteq> 0 \<and> p_mem nic' = aq_ring_free tx (aq_ring_free rx (aq_ring_free hwts m4))"
      "got1 \<Longrightarrow> got2 \<Longrightarrow> got3 \<Longrightarrow> e4 = 0 \<Longrightarrow> err = 0 \<and> p_mem nic' = m4 \<and> ptp_tx_mem p' = tx \<and> ptp_rx_mem p' = rx \<and>
         hwts_rx_mem p' = hwts \<and> skb_ring p' = r"
    using a by (auto simp: aq_ptp_ring_alloc_def Let_def t1 a1 t2 a2 a3 a4 ENOMEM_def)
  have n: "got1 \<or> err \<noteq> 0" "got2 \<or> \<not> got1 \<or> err \<noteq> 0" using step by blast+
  have g1: "grows (p_mem nic) m1 (\<lambda>q. if got1 then held_by tx q else 0)"
    using f n by (intro tx_alloc_grows [OF a1 s]) auto
  have g2: "grows m1 m2 (\<lambda>q. if got2 then held_by rx q else 0)" if got1
    using that f n by (intro rx_alloc_grows [OF a2 grows_sound [OF g1 s]]) auto
  have g12: "grows (p_mem nic) m2 (\<lambda>q. held_by tx q + (if got2 then held_by rx q else 0))" if got1
    using grows_trans [OF g1 g2 [OF that]] that by simp
  have g3: "grows (p_mem nic) m3 (\<lambda>q. held_by tx q + held_by rx q + (if got3 then held_by hwts q else 0))" if got1 got2
    using grows_trans [OF g12 [OF that(1)] hwts_alloc_grows [OF a3 grows_sound [OF g12 [OF that(1)] s]]] that by simp
  have g4: "grows (p_mem nic) m4 (\<lambda>q. held_by tx q + held_by rx q + held_by hwts q +
      (if e4 = 0 then of_bool (sr_ptr r = q \<and> q \<noteq> 0) else 0))" if got1 got2 got3
    using grows_trans [OF g3 [OF that(1,2)] skb_init_grows [OF a4 grows_sound [OF g3 [OF that(1,2)] s]]] that by simp
  consider "\<not> got1" | "got1" "\<not> got2" | "got1" "got2" "\<not> got3" | "got1" "got2" "got3" "e4 \<noteq> 0" | "got1" "got2" "got3" "e4 = 0"
    by blast
  then show ?thesis
  proof cases
    case 1
    then show ?thesis using step g1 by auto
  next
    case 2
    then show ?thesis using step grows_free [OF g12, of tx] by auto
  next
    case 3
    then show ?thesis using step grows_free [OF grows_free [OF g3, of rx], of tx] by auto
  next
    case 4
    then show ?thesis
      using step grows_free [OF grows_free [OF grows_free [OF g4, of hwts], of rx], of tx] by auto
  next
    case 5
    then show ?thesis using step g4 by (auto simp: ptp_held_def)
  qed
qed

lemma ptp_ring_free_grows:
  assumes "aq_ptp_ring_free nic (Some p) = (nic', p')"
  shows "grows (p_mem nic) (p_mem nic') (\<lambda>q. - ptp_held p q)"
proof -
  have m: "p_mem (fold dev_kfree_skb_any ss n) = p_mem n" for ss n by (simp add: fold_free_log)
  have k: "mem_answer (aq_ring_free x y) = mem_answer y" for x y by (simp add: aq_ring_free_def mem_logs_def Let_def)
  show ?thesis
    using assms
    by (auto simp: aq_ptp_ring_free_def aq_ptp_skb_ring_release_def grows_def ptp_held_def balance_free m k Let_def
        aq_ptp_skb_ring_clean_def split: prod.splits if_splits dest: skb_clean_loop_ptr) (simp_all add: mem_logs_def k)
qed

text \<open>
  C31: The memory of the PTP rings. An aq_ptp_ring_alloc that fails at any of its four steps
  gives back what the steps before it took; freeing the rings after a successful one gives back
  everything. But closing the interface does not free them while opening it allocates them
  again: after a second allocation the blocks of the first are never given back.
\<close>

theorem ptp_ring_memory:
  assumes m: "\<forall>n. mem_answer (p_mem nic) n \<noteq> Some 0"
    and fresh: "rm_dx_ring (ptp_tx_mem p) = 0" "rm_dx_ring (ptp_rx_mem p) = 0"
    and open1: "aq_ptp_ring_alloc dxs stale nic (Some p) = (err, nic1, Some p1)"
    and open2: "aq_ptp_ring_alloc dxs2 stale2 nic1 (Some p1) = (err2, nic2, Some p2)"
  shows "(err \<noteq> 0 \<longrightarrow> balance (p_mem nic1) q = balance (p_mem nic) q) \<and>
    (err = 0 \<longrightarrow> balance (p_mem (fst (aq_ptp_ring_free nic1 (Some p1)))) q = balance (p_mem nic) q) \<and>
    (err = 0 \<and> err2 = 0 \<longrightarrow>
       balance (p_mem (fst (aq_ptp_ring_free nic2 (Some p2)))) q = balance (p_mem nic) q + ptp_held p1 q)"
proof -
  have s: "sound_mem (p_mem nic)" using m by (simp add: sound_mem_def)
  have g1: "grows (p_mem nic) (p_mem nic1) (\<lambda>q. if err = 0 then ptp_held p1 q else 0)"
    using ptp_ring_alloc_grows [OF open1 s] fresh by simp
  have g2: "grows (p_mem nic1) (p_mem nic2) (ptp_held p2)" if "err2 = 0"
    using ptp_ring_alloc_grows [OF open2 grows_sound [OF g1 s]] that by simp
  have f: "grows (p_mem n) (p_mem (fst (aq_ptp_ring_free n (Some p)))) (\<lambda>q. - ptp_held p q)" for n p
    by (rule ptp_ring_free_grows [where p' = "snd (aq_ptp_ring_free n (Some p))"]) simp
  show ?thesis using g1 g2 f [of nic1 p1] f [of nic2 p2] by (simp add: grows_def)
qed

lemma ptp_ring_alloc_granted:
  assumes c: "mem_calls (p_mem nic) = c"
    and a: "mem_answer (p_mem nic) c = Some b1" "mem_answer (p_mem nic) (Suc c) = Some b2"
      "mem_answer (p_mem nic) (Suc (Suc c)) = Some b3" "mem_answer (p_mem nic) (Suc (Suc (Suc c))) = Some b4"
      "mem_answer (p_mem nic) (Suc (Suc (Suc (Suc c)))) = Some b5"
      "mem_answer (p_mem nic) (Suc (Suc (Suc (Suc (Suc c))))) = Some b6"
    and z: "b1 \<noteq> 0" "b2 \<noteq> 0" "b3 \<noteq> 0" "b4 \<noteq> 0" "b5 \<noteq> 0" "b6 \<noteq> 0"
  shows "\<exists>nic1 p1. aq_ptp_ring_alloc [] [] nic (Some p) = (0, nic1, Some p1) \<and>
    mem_calls (p_mem nic1) = c + 6 \<and> mem_answer (p_mem nic1) = mem_answer (p_mem nic) \<and>
    rm_buff_ring (ptp_tx_mem p1) = b1"
proof -
  obtain e1 hw1 tc1 where t1: "hw_atl_b0_tx_tc_mode_get (p_hw nic) = (e1, hw1, tc1)" by (rule prod_cases3)
  obtain e2 hw2 tc2 where t2: "hw_atl_b0_rx_tc_mode_get hw1 = (e2, hw2, tc2)" by (rule prod_cases3)
  show ?thesis
    by (simp add: aq_ptp_ring_alloc_def t1 t2 aq_ring_tx_alloc_def aq_ring_rx_alloc_def aq_ring_alloc_def
        aq_ring_hwts_rx_alloc_def aq_ptp_skb_ring_init_def mem_get_def mem_logs_def c a z ring_mem0_def Let_def)
qed

definition twelve_blocks :: "nat \<Rightarrow> u64 option" where
  "twelve_blocks n = (if n < 12 then Some (of_nat n + 1) else None)"

lemma twelve_blocks_not_null: "twelve_blocks n \<noteq> Some 0"
proof -
  have "(of_nat n + 1 :: u64) \<noteq> 0" if "n < 12"
    using that by (simp add: word_unat_eq_iff unat_plus_if' unat_of_nat)
  then show ?thesis by (simp add: twelve_blocks_def)
qed

theorem ptp_ring_memory_witness:
  "\<exists>nic1 p1 nic2 p2. aq_ptp_ring_alloc [] [] ((np0 kern0)\<lparr>p_mem := mem0 twelve_blocks\<rparr>) (Some (ptp0 [])) = (0, nic1, Some p1) \<and>
     aq_ptp_ring_alloc [] [] nic1 (Some p1) = (0, nic2, Some p2) \<and>
     balance (p_mem (fst (aq_ptp_ring_free nic2 (Some p2)))) 1 > 0"
proof -
  let ?n = "(np0 kern0)\<lparr>p_mem := mem0 twelve_blocks\<rparr>"
  obtain nic1 p1 where o1: "aq_ptp_ring_alloc [] [] ?n (Some (ptp0 [])) = (0, nic1, Some p1)" "mem_calls (p_mem nic1) = 6"
      "mem_answer (p_mem nic1) = twelve_blocks" "rm_buff_ring (ptp_tx_mem p1) = 1"
    using ptp_ring_alloc_granted [of ?n 0 1 2 3 4 5 6 "ptp0 []"] by (auto simp: mem0_def twelve_blocks_def)
  obtain nic2 p2 where o2: "aq_ptp_ring_alloc [] [] nic1 (Some p1) = (0, nic2, Some p2)"
    using ptp_ring_alloc_granted [of nic1 6 7 8 9 10 11 12 p1] o1(2,3) by (auto simp: twelve_blocks_def)
  have m: "\<forall>n. mem_answer (p_mem ?n) n \<noteq> Some 0" by (simp add: mem0_def twelve_blocks_not_null)
  have f: "rm_dx_ring (ptp_tx_mem (ptp0 [])) = 0" "rm_dx_ring (ptp_rx_mem (ptp0 [])) = 0"
    by (simp_all add: ptp0_def ptp_zero_def ring_mem0_def)
  have "balance (p_mem (fst (aq_ptp_ring_free nic2 (Some p2)))) 1 = balance (p_mem ?n) 1 + ptp_held p1 1"
    using ptp_ring_memory [OF m f o1(1) o2] by simp
  moreover have "ptp_held p1 1 > 0" by (simp add: ptp_held_def held_by_def o1(4))
  moreover have "balance (p_mem ?n) 1 = 0" by (simp add: mem0_def balance_def)
  ultimately show ?thesis using o1(1) o2 by fastforce
qed

end
