(* ===== verification/Nic_Props.thy ===== *)
theory Nic_Props
  imports Pci_Probe Ptp_Props Filter_Props
begin

section \<open>Properties of the device's life cycle\<close>

text \<open>
  The carrier follows the link; the address filter lets every configured address pass; interrupts
  requested are given back to the same handler, but not by an open that fails; link settings are
  checked against what the card can do.
\<close>

subsection \<open>A concrete device\<close>

definition netdev0 :: net_device where
  "netdev0 = \<lparr>dev_addr = replicate 6 2, nd_flags = 0, nd_features = 0, nd_hw_features = 0, nd_priv_flags = 0, nd_mtu = 1500,
     nd_max_mtu = 9000, uc_list = [replicate 6 4], mc_addrs = [replicate 6 5, replicate 6 7], nd_carrier = True,
     nd_running = False, nd_present = True, nd_registered = False, nd_stats = []\<rparr>"

text \<open>A device on a quiet chip with the firmware of the second generation.\<close>

definition dev0 :: "aq_vec_s list \<Rightarrow> aq_ptp_s option \<Rightarrow> nic_dev" where
  "dev0 vs p = \<lparr>nd = netdev0, pn = np0 kern0, aq_ptp = p, aq_vec = vs, aq_vec_mem = [], aq_hw_ops = hw_atl_ops_b0,
     flt = fnic0 hw0, queues = (\<lambda>q. False), packet_filter = 0, power_state = AQ_HW_POWER_STATE_D0, mc_count = 0,
     mc_ar = replicate 32 [], link_status = 0, msix_entry_mask = 0, irqvecs = 2, service_timer = Some 1, polling_timer = None,
     service_work = False, link_work = False\<rparr>"

definition env0 :: nic_env where
  "env0 = \<lparr>env_nf = \<lparr>NETIF_F_HW_CSUM = 1, NETIF_F_RXCSUM = 2, NETIF_F_SG = 4, NETIF_F_TSO = 8, NETIF_F_RXHASH = 16,
       NETIF_F_LRO = 32, NETIF_F_NTUPLE = 64, NETIF_F_HW_VLAN_CTAG_FILTER = 128, NETIF_F_HW_VLAN_CTAG_RX = 256,
       NETIF_F_HW_VLAN_CTAG_TX = 512, IFF_UNICAST_FLT = 1024\<rparr>,
     env_stack = [], env_rnd = 0, env_thres = 32, env_dxs = [], env_stale = [],
     env_ptp = \<lparr>aq_ptp_offset_forced = 0, aq_ptp_offset_100 = 0, aq_ptp_offset_1000 = 0, aq_ptp_offset_2500 = 0,
       aq_ptp_offset_5000 = 0, aq_ptp_offset_10000 = 0\<rparr>,
     real_num_tx = 0, real_num_rx = 0, register_answer = 0, clock_answer = True\<rparr>"

lemma dev0_sel [simp]:
  "hwc (dev0 vs p) = hwp" "cfg (dev0 vs p) = cfg0" "nd (dev0 vs p) = netdev0" "link_status (dev0 vs p) = 0"
  "queues (dev0 vs p) = (\<lambda>q. False)" "mc_ar (dev0 vs p) = replicate 32 []" "aq_vec (dev0 vs p) = vs" "aq_ptp (dev0 vs p) = p"
  "pn (dev0 vs p) = np0 kern0" "msix_entry_mask (dev0 vs p) = 0"
  by (simp_all add: dev0_def hwc_def cfg_def)

lemma readl_cfg: "aq_nic_cfg (snd (aq_hw_read_reg hw r)) = aq_nic_cfg hw"
  by (simp add: hw_simps aq_utils_obj_set_def Let_def split_beta)

subsection \<open>The carrier\<close>

lemma hwc_simps [simp]:
  "nd (set_hwc hw d) = nd d" "queues (set_hwc hw d) = queues d" "hwc (set_hwc hw d) = hw"
  "link_status (set_hwc hw d) = link_status d" "link_status (upd_nd f d) = link_status d"
  "nd (upd_nd f d) = f (nd d)" "hwc (upd_nd f d) = hwc d" "queues (upd_nd f d) = queues d"
  "hwc (d\<lparr>link_status := m\<rparr>) = hwc d" "hwc (d\<lparr>queues := q\<rparr>) = hwc d"
  by (simp_all add: set_hwc_def upd_nd_def hwc_def)

lemma hw_call_frame:
  assumes "hw_call f d = (err, d')"
  shows "nd d' = nd d" "queues d' = queues d" "link_status d' = link_status d" "aq_ptp d' = aq_ptp d"
  using assms by (auto simp: hw_call_def set_hwc_def split: prod.splits)

lemma link_changed_frame: "nd (link_changed d) = nd d \<and> queues (link_changed d) = queues d"
proof -
  obtain e1 d1 where 1: "aq_nic_update_interrupt_moderation_settings d = (e1, d1)" by fastforce
  define d2 where "d2 = (if aq_ptp d1 \<noteq> None
    then d1\<lparr>pn := aq_ptp_clock_init (pn d1), aq_ptp := aq_ptp_tm_offset_set (pn d1) (aq_ptp d1) (link_mbps (hwc d1))\<rparr> else d1)"
  obtain fc d3 where 3: "nic_get_flow_control d2 = (fc, d3)" by fastforce
  have f1: "nd d1 = nd d" "queues d1 = queues d"
    using hw_call_frame [OF 1 [unfolded aq_nic_update_interrupt_moderation_settings_def]] by simp_all
  have f2: "nd d2 = nd d" "queues d2 = queues d" using f1 by (simp_all add: d2_def)
  have f3: "nd d3 = nd d" "queues d3 = queues d"
    using 3 f2 by (auto simp: nic_get_flow_control_def split: if_splits prod.splits)
  have "nd (snd (hw_call g d3)) = nd d3 \<and> queues (snd (hw_call g d3)) = queues d3" for g
    using hw_call_frame [of g d3] by (metis prod.collapse)
  moreover have "link_changed d = (case nic_get_flow_control d2 of (fc, d) \<Rightarrow>
      case hw_set_fc (aq_hw_ops d) of None \<Rightarrow> d | Some set_fc \<Rightarrow> snd (hw_call (\<lambda>hw. set_fc hw fc 0) d))"
    by (simp only: link_changed_def 1 snd_conv Let_def d2_def)
  ultimately show ?thesis using f3 by (simp add: 3 split: option.splits)
qed

text \<open>
  C33: The carrier follows the link. When aq_nic_update_link_status succeeds, the link speed kept
  by the adapter is the one just read, the interface has a carrier exactly when that speed is not
  0, and its queues are stopped when the carrier has gone, running when it has come, and otherwise
  as before.
\<close>

theorem carrier_follows_link:
  assumes "aq_nic_update_link_status d = Some (0, d')"
  shows "link_status d' = link_mbps (hwc d') \<and> (nd_carrier (nd d') \<longleftrightarrow> link_status d' \<noteq> 0) \<and>
    queues d' = (if nd_carrier (nd d') = nd_carrier (nd d) then queues d else (\<lambda>q. \<not> nd_carrier (nd d')))"
proof -
  obtain t where t: "aq_fw_ops (hwc d) = Some t" using assms by (auto simp: aq_nic_update_link_status_def fw_call_def split: option.splits)
  obtain e1 d1 where 1: "hw_call (fw_update_link_status t) d = (e1, d1)" by fastforce
  define d2 where "d2 = (if link_status d1 \<noteq> link_mbps (hwc d1) then link_changed d1 else d1)"
  define d3 where "d3 = d2\<lparr>link_status := link_mbps (hwc d2)\<rparr>"
  have f: "nd d3 = nd d" "queues d3 = queues d" "link_status d3 = link_mbps (hwc d3)"
    using hw_call_frame [OF 1] link_changed_frame [of d1] by (simp_all add: d2_def d3_def)
  have "d' = nic_link_down (nic_link_up d3)"
    using assms 1 by (auto simp: aq_nic_update_link_status_def fw_call_def t d2_def d3_def Let_def split: if_splits)
  moreover have "nic_link_up d3 = (if \<not> nd_carrier (nd d) \<and> link_status d3 \<noteq> 0
      then netif_tx_wake_all_queues (netif_carrier True (nic_flag_clear AQ_NIC_LINK_DOWN (nic_flag_set AQ_NIC_FLAG_STARTED d3)))
      else d3)" by (simp add: nic_link_up_def f)
  ultimately show ?thesis
    using f by (auto simp: nic_link_down_def netif_tx_wake_all_queues_def netif_tx_disable_def netif_carrier_def
        nic_flag_set_def nic_flag_clear_def hwc_def upd_nd_def)
qed

theorem carrier_follows_link_witness:
  "\<exists>d'. aq_nic_update_link_status (dev0 [] None) = Some (0, d') \<and> \<not> nd_carrier (nd d') \<and> queues d' = (\<lambda>q. True)"
proof -
  obtain hw where hw: "fw_update_link_status aq_fw_2x_ops hwp = (0, hw)" "link_mbps hw = 0"
    using hwp_quiet by (simp add: aq_fw2x_update_link_status_def quiet_read fw2x_mbps_def Let_def)
  then obtain d' where d': "aq_nic_update_link_status (dev0 [] None) = Some (0, d')" "link_status d' = 0"
    by (simp add: aq_nic_update_link_status_def fw_call_def hw_call_def Let_def nic_link_up_def nic_link_down_def
        netif_carrier_def netif_tx_disable_def nic_flag_set_def)
  then show ?thesis using carrier_follows_link [OF d'(1)] by (auto simp: netdev0_def split: if_splits)
qed

subsection \<open>Receive mode\<close>

lemma mc_copy_spec:
  assumes "length ar = 32" "i \<le> 32" "i + length as \<le> 32"
  shows "mc_copy as i ar = (i + length as, take i ar @ as @ drop (i + length as) ar)"
  using assms
proof (induction as arbitrary: i ar)
  case (Cons a as)
  have i: "i < 32" "length (ar[i := a]) = 32" using Cons.prems by simp_all
  have t: "take (Suc i) (ar[i := a]) = take i ar @ [a]" using i Cons.prems(1) by (simp add: take_Suc_conv_app_nth)
  show ?case
  proof (cases "Suc i \<ge> 32")
    case True
    then have "length as = 0" "i = 31" using Cons.prems(3) i by (simp_all only: list.size)
    then show ?thesis using t Cons.prems i(2) by (simp add: AQ_HW_MULTICAST_ADDRESS_MAX_def Let_def)
  next
    case False
    then show ?thesis using Cons.IH [OF i(2), of "Suc i"] Cons.prems t
      by (simp add: AQ_HW_MULTICAST_ADDRESS_MAX_def Let_def)
  qed
qed simp

lemma mc_take_spec:
  assumes "mc_take fl as (i, ar, filt) = (i', ar', filt')" "length ar = 32" "i \<le> 32"
  shows "i' \<le> 32 \<and> length ar' = 32 \<and> set (take i ar) \<subseteq> set (take i' ar') \<and>
    (bit filt n \<longrightarrow> bit filt' n) \<and> (set as \<subseteq> set (take i' ar') \<or> (\<forall>n. bit fl n \<longrightarrow> bit filt' n))"
  using assms mc_copy_spec [of ar i as]
  by (auto simp: mc_take_def AQ_HW_MULTICAST_ADDRESS_MAX_def bit_or_iff split: if_splits)

lemma iff_tests:
  "(f :: u32) AND IFF_PROMISC \<noteq> 0 \<longleftrightarrow> bit f 8" "f AND IFF_ALLMULTI \<noteq> 0 \<longleftrightarrow> bit f 9" "f AND IFF_MULTICAST \<noteq> 0 \<longleftrightarrow> bit f 12"
  using and_exp_eq_0_iff_not_bit [of f 8] and_exp_eq_0_iff_not_bit [of f 9] and_exp_eq_0_iff_not_bit [of f 12]
  by (simp_all add: IFF_PROMISC_def IFF_ALLMULTI_def IFF_MULTICAST_def)

lemma IFF_PROMISC_bit: "bit IFF_PROMISC 8" and IFF_ALLMULTI_bit: "bit IFF_ALLMULTI 9"
  and IFF_MULTICAST_bit: "bit IFF_MULTICAST 12"
  by (simp_all add: IFF_PROMISC_def IFF_ALLMULTI_def IFF_MULTICAST_def)



subsection \<open>Interrupts\<close>

fun irq_delta :: "u32 \<Rightarrow> irq_arg \<Rightarrow> irq_event \<Rightarrow> int" where
  "irq_delta i a (Request_irq j b) = of_bool (i = j \<and> a = b)"
| "irq_delta i a (Free_irq j b) = - of_bool (i = j \<and> a = b)"

definition irq_held :: "nic_dev \<Rightarrow> u32 \<Rightarrow> irq_arg \<Rightarrow> int" where
  "irq_held d i a = (\<Sum>e\<leftarrow>irq_log (pn d). irq_delta i a e)"

text \<open>The vectors marked in the mask are those held beyond \<open>h\<close>, each by the handler it will be freed with.\<close>

definition irq_books :: "(u32 \<Rightarrow> irq_arg \<Rightarrow> int) \<Rightarrow> nic_dev \<Rightarrow> bool" where
  "irq_books h d \<longleftrightarrow> (\<forall>i < 32. bit (msix_entry_mask d) i \<longrightarrow> irq_data d i \<noteq> None) \<and>
     (\<forall>j a. irq_held d j a = h j a + of_bool (unat j < 32 \<and> bit (msix_entry_mask d) (unat j) \<and> irq_data d (unat j) = Some a))"

lemma alloc_irq_books:
  assumes r: "aq_pci_func_alloc_irq d i arg = (err, d')" and b: "irq_books h d"
    and i: "i < 32" "\<not> bit (msix_entry_mask d) i" "irq_data d i = Some arg"
  shows "irq_books h d'" "cfg d' = cfg d" "aq_vec d' = aq_vec d" "aq_ptp d' = aq_ptp d" "aq_hw_ops d' = aq_hw_ops d"
    "msix_entry_mask d' = (if 0 \<le> err then msix_entry_mask d OR push_bit i 1 else msix_entry_mask d)"
proof -
  let ?e = "irq_answer (pn d) (irq_calls (pn d))"
  have d': "err = ?e" "cfg d' = cfg d" "aq_vec d' = aq_vec d" "aq_ptp d' = aq_ptp d" "aq_hw_ops d' = aq_hw_ops d"
    "msix_entry_mask d' = (if 0 \<le> err then msix_entry_mask d OR push_bit i 1 else msix_entry_mask d)"
    "irq_log (pn d') = irq_log (pn d) @ (if 0 \<le> err then [Request_irq (of_nat i) arg] else [])"
    using r by (auto simp: aq_pci_func_alloc_irq_def request_irq_def cfg_def hwc_def Let_def split: if_splits)
  have u: "unat (of_nat i :: u32) = i" using i(1) by (simp add: unat_of_nat)
  have dat: "irq_data d' j = irq_data d j" for j by (simp add: irq_data_def d')
  have bits: "bit (msix_entry_mask d') j \<longleftrightarrow> bit (msix_entry_mask d) j \<or> 0 \<le> err \<and> j = i" if "j < 32" for j
    using that by (auto simp: d' bit_simps)
  have held: "irq_held d' j a = irq_held d j a + of_bool (0 \<le> err \<and> j = of_nat i \<and> a = arg)" for j a
    by (auto simp: irq_held_def d')
  show "irq_books h d'" unfolding irq_books_def
  proof (intro conjI allI impI)
    show "irq_data d' j \<noteq> None" if "j < 32" "bit (msix_entry_mask d') j" for j
      using that b i(3) by (auto simp: irq_books_def dat bits)
    show "irq_held d' j a = h j a + of_bool (unat j < 32 \<and> bit (msix_entry_mask d') (unat j) \<and> irq_data d' (unat j) = Some a)" for j a
      using b i u by (cases "j = of_nat i") (auto simp: irq_books_def dat bits held)
  qed
qed (use r in \<open>auto simp: aq_pci_func_alloc_irq_def request_irq_def cfg_def hwc_def Let_def split: if_splits\<close>)

lemma free_irqs_books:
  assumes "irq_books h d" "n \<le> 32"
  shows "irq_books h (free_irqs_loop n d) \<and> (\<forall>i < 32. bit (msix_entry_mask (free_irqs_loop n d)) i \<longleftrightarrow> bit (msix_entry_mask d) i \<and> n \<le> i)"
  using assms
proof (induction n arbitrary: d)
  case (Suc i)
  have i: "i < 32" using Suc.prems by simp
  have t: "push_bit i 1 AND msix_entry_mask d = 0 \<longleftrightarrow> \<not> bit (msix_entry_mask d) i"
    by (metis and.commute and_exp_eq_0_iff_not_bit push_bit_of_1)
  show ?case
  proof (cases "bit (msix_entry_mask d) i")
    case False
    then show ?thesis using Suc i t by (auto simp: less_Suc_eq_le) (metis Suc_leI le_antisym not_le)
  next
    case True
    then obtain a where a: "irq_data d i = Some a" using Suc.prems(1) i by (auto simp: irq_books_def)
    define d1 where "d1 = d\<lparr>pn := free_irq (of_nat i) a (pn d), msix_entry_mask := msix_entry_mask d AND NOT (push_bit i 1)\<rparr>"
    have u: "unat (of_nat i :: u32) = i" using i by (simp add: unat_of_nat)
    have dat: "irq_data d1 j = irq_data d j" for j by (simp add: irq_data_def d1_def cfg_def hwc_def free_irq_def)
    have bits: "bit (msix_entry_mask d1) j \<longleftrightarrow> bit (msix_entry_mask d) j \<and> j \<noteq> i" if "j < 32" for j
      using that by (auto simp: d1_def bit_simps)
    have held: "irq_held d1 j b = irq_held d j b - of_bool (j = of_nat i \<and> b = a)" for j b
      by (auto simp: irq_held_def d1_def free_irq_def)
    have "irq_books h d1" unfolding irq_books_def
    proof (intro conjI allI impI)
      show "irq_data d1 j \<noteq> None" if "j < 32" "bit (msix_entry_mask d1) j" for j
        using that Suc.prems(1) by (auto simp: irq_books_def dat bits)
      show "irq_held d1 j b = h j b + of_bool (unat j < 32 \<and> bit (msix_entry_mask d1) (unat j) \<and> irq_data d1 (unat j) = Some b)" for j b
        using Suc.prems(1) True a i u by (cases "j = of_nat i") (auto simp: irq_books_def dat bits held)
    qed
    moreover have "free_irqs_loop (Suc i) d = free_irqs_loop i d1" using True t a by (simp add: d1_def)
    ultimately show ?thesis using Suc.IH [of d1] Suc.prems(2) bits by auto
  qed
qed simp

lemma alloc_vec_irqs_books:
  assumes "alloc_vec_irqs n i d = Some (err, d')" "0 \<le> err" "irq_books h d" "i + n \<le> 32"
    and "\<forall>j. i \<le> j \<and> j < i + n \<longrightarrow> \<not> bit (msix_entry_mask d) j \<and> irq_data d j = Some (Irq_vec j)"
  shows "irq_books h d' \<and> cfg d' = cfg d \<and> aq_vec d' = aq_vec d \<and> aq_ptp d' = aq_ptp d \<and> aq_hw_ops d' = aq_hw_ops d \<and>
    (\<forall>j < 32. i + n \<le> j \<longrightarrow> bit (msix_entry_mask d') j = bit (msix_entry_mask d) j)"
  using assms
proof (induction n arbitrary: i d)
  case (Suc n)
  obtain e d1 where a: "aq_pci_func_alloc_irq d i (Irq_vec i) = (e, d1)" by fastforce
  have e: "0 \<le> e" and r: "alloc_vec_irqs n (Suc i) d1 = Some (err, d')"
    using Suc.prems(1,2) by (auto simp: andthen_def a split: if_splits)
  have i: "i < 32" "\<not> bit (msix_entry_mask d) i" "irq_data d i = Some (Irq_vec i)" using Suc.prems(4,5) by auto
  note b = alloc_irq_books [OF a Suc.prems(3) i]
  have dat: "irq_data d1 j = irq_data d j" for j by (simp add: irq_data_def b)
  have bits: "bit (msix_entry_mask d1) j \<longleftrightarrow> bit (msix_entry_mask d) j \<or> j = i" if "j < 32" for j
    using that e by (auto simp: b bit_simps)
  have "\<forall>j. Suc i \<le> j \<and> j < Suc i + n \<longrightarrow> \<not> bit (msix_entry_mask d1) j \<and> irq_data d1 j = Some (Irq_vec j)"
    using Suc.prems(4,5) bits by (auto simp: dat)
  from Suc.IH [OF r Suc.prems(2) b(1) _ this] show ?case using Suc.prems(4) b bits by auto
qed simp

lemma irq_enable_cfg: "aq_nic_cfg (snd (hw_irq_enable (vec_ops_of t) hw m)) = aq_nic_cfg hw"
  by (cases t) (simp_all add: vec_ops_of_def a0_vec_ops_def b0_vec_ops_def hw_atl_a0_hw_irq_enable_def hw_atl_b0_hw_irq_enable_def
      hw_atl_itr_irq_msk_setlsw_set_def aq_hw_write_reg_def writel_def Let_def)

definition ptp_irq :: "nic_dev \<Rightarrow> u32 \<Rightarrow> irq_arg \<Rightarrow> int" where
  "ptp_irq d j a = (case aq_ptp d of None \<Rightarrow> 0 | Some p \<Rightarrow> of_bool (j = idx_vector p \<and> a = Irq_ptp))"

lemma request_irqs_books:
  assumes start: "nic_request_irqs d = Some (err, d1)" "0 \<le> err" "\<not> is_polling (cfg d)" "msix_entry_mask d = 0"
    and vecs: "length (aq_vec d) \<le> 8" "lv = unat (link_irq_vec (cfg d))" "lv = 0 \<or> length (aq_vec d) \<le> lv \<and> lv < 32"
  shows "irq_books (\<lambda>j x. irq_held d j x + ptp_irq d j x) d1 \<and> cfg d1 = cfg d \<and> aq_ptp d1 = aq_ptp d"
proof -
  let ?h = "irq_held d"
  have lz: "link_irq_vec (cfg d) = 0 \<longleftrightarrow> lv = 0" by (simp add: vecs(2) unat_eq_zero)
  have b0: "irq_books ?h d" by (simp add: irq_books_def start(4))
  have dat: "irq_data d j = (if lv \<noteq> 0 \<and> j = lv then Some Irq_nic else if j < 8 then Some (Irq_vec j) else None)"
    if "j < 32" for j
  proof -
    have "of_nat j = link_irq_vec (cfg d) \<longleftrightarrow> j = lv"
      using that by (simp add: vecs(2) word_unat_eq_iff unat_of_nat)
    then show ?thesis by (simp add: irq_data_def lz)
  qed
  obtain ea da where ra: "alloc_vec_irqs (length (aq_vec d)) 0 d = Some (ea, da)" "0 \<le> ea"
    using start(1-3) by (cases "alloc_vec_irqs (length (aq_vec d)) 0 d") (auto simp: nic_request_irqs_def andthen_def split: if_splits)
  have "\<forall>j. 0 \<le> j \<and> j < 0 + length (aq_vec d) \<longrightarrow> \<not> bit (msix_entry_mask d) j \<and> irq_data d j = Some (Irq_vec j)"
    using vecs(1,3) dat by (auto simp: start(4))
  from alloc_vec_irqs_books [OF ra b0 _ this] vecs(1)
  have ba: "irq_books ?h da" "cfg da = cfg d" "aq_ptp da = aq_ptp d" "\<And>j. j < 32 \<Longrightarrow> length (aq_vec d) \<le> j \<Longrightarrow> \<not> bit (msix_entry_mask da) j"
    by (auto simp: start(4))
  obtain eb db where rb: "nic_ptp_irq_alloc da = (eb, db)" by fastforce
  have eb: "0 \<le> eb" using start(1-3) ra rb by (auto simp: nic_request_irqs_def andthen_def split: if_splits)
  have fb: "msix_entry_mask db = msix_entry_mask da" "cfg db = cfg da" "aq_ptp db = aq_ptp da"
      "irq_held db j x = irq_held da j x + ptp_irq d j x" for j x
    using rb eb ba(3) by (auto simp: nic_ptp_irq_alloc_def aq_ptp_irq_alloc_def request_irq_def irq_held_def ptp_irq_def
        cfg_def hwc_def EINVAL_def Let_def split: option.splits if_splits)
  let ?h1 = "\<lambda>j x. ?h j x + ptp_irq d j x"
  have datb: "irq_data db j = irq_data d j" "irq_data da j = irq_data d j" for j by (simp_all add: irq_data_def fb ba)
  have bb: "irq_books ?h1 db" using ba(1) by (auto simp: irq_books_def fb datb)
  obtain ec dc where rc: "nic_link_irq_alloc db = (ec, dc)" by fastforce
  have ec: "0 \<le> ec" using start(1-3) ra rb eb rc by (auto simp: nic_request_irqs_def andthen_def split: if_splits)
  have bc: "irq_books ?h1 dc \<and> cfg dc = cfg d \<and> aq_ptp dc = aq_ptp d"
  proof (cases "lv = 0")
    case True
    then have "dc = db" using rc by (simp add: nic_link_irq_alloc_def fb ba lz)
    then show ?thesis using bb by (simp add: fb ba)
  next
    case False
    then have "aq_pci_func_alloc_irq db lv Irq_nic = (ec, dc)" using rc by (simp add: nic_link_irq_alloc_def fb ba lz vecs(2))
    moreover have "lv < 32" "\<not> bit (msix_entry_mask db) lv" using False vecs(3) ba(4) by (auto simp: fb)
    moreover have "irq_data db lv = Some Irq_nic" using False \<open>lv < 32\<close> dat by (simp add: datb)
    ultimately show ?thesis using alloc_irq_books [OF _ bb, of lv Irq_nic ec dc] by (simp add: fb ba)
  qed
  have d1: "d1 = snd (hw_call (\<lambda>hw. hw_irq_enable (vec_ops_of (aq_hw_ops dc)) hw (ucast AQ_CFG_IRQ_MASK)) dc)"
    using start(1,3) ra rb eb rc ec by (auto simp: nic_request_irqs_def andthen_def)
  have c1: "cfg d1 = cfg d" "msix_entry_mask d1 = msix_entry_mask dc" "irq_log (pn d1) = irq_log (pn dc)" "aq_ptp d1 = aq_ptp d"
    using bc irq_enable_cfg [of "aq_hw_ops dc" "hwc dc" "ucast AQ_CFG_IRQ_MASK"]
    by (simp_all add: d1 hw_call_def set_hwc_def cfg_def hwc_def split_beta)
  have "irq_data d1 j = irq_data dc j" "irq_held d1 j' x = irq_held dc j' x" for j j' x
    using bc by (simp_all add: irq_data_def irq_held_def c1)
  then have "irq_books ?h1 d1" using bc by (simp add: irq_books_def c1)
  then show ?thesis using c1 by simp
qed


definition dev_up :: nic_dev where "dev_up = (dev0 [vec0] (Some (ptp0 [])))"


subsection \<open>An open that fails\<close>

definition same_kernel :: "nic_dev \<Rightarrow> nic_dev \<Rightarrow> bool" where
  "same_kernel d d' \<longleftrightarrow> irq_log (pn d') = irq_log (pn d) \<and> msix_entry_mask d' = msix_entry_mask d \<and>
     service_timer d' = service_timer d \<and> polling_timer d' = polling_timer d \<and> service_work d' = service_work d \<and>
     length (aq_vec d') = length (aq_vec d)"

lemma same_kernel_trans: "same_kernel a b \<Longrightarrow> same_kernel b c \<Longrightarrow> same_kernel a c"
  by (simp add: same_kernel_def)

lemma same_on_vec: "same_kernel d (snd (on_vec i f d))"
  by (simp add: same_kernel_def on_vec_def split: prod.splits)

lemma same_fold: "(\<And>i d. same_kernel d (f i d)) \<Longrightarrow> same_kernel d (fold f xs d)"
  by (induction xs arbitrary: d) (auto intro: same_kernel_trans simp: same_kernel_def)

lemma same_hw: "same_kernel d (set_hwc hw d)"
  by (simp add: same_kernel_def set_hwc_def)

text \<open>
  An open that fails leaves its interrupts and timers behind. aq_nic_deinit, all that
  aq_ndev_open does when aq_nic_start has failed, frees no interrupt, clears no mark of a vector
  and cancels neither timer nor the service task: whatever had been requested or armed is so
  after the failed open.
\<close>

theorem failed_open_leaves_irqs:
  assumes "aq_nic_deinit env d1 = Some d'"
  shows "irq_log (pn d') = irq_log (pn d1) \<and> msix_entry_mask d' = msix_entry_mask d1 \<and>
    service_timer d' = service_timer d1 \<and> polling_timer d' = polling_timer d1 \<and> service_work d' = service_work d1 \<and>
    (\<forall>d d0 e err. aq_nic_init env d = Some (e, d0) \<and> 0 \<le> e \<and> aq_nic_start env d0 = Some (err, d1) \<and> err < 0 \<longrightarrow>
       aq_ndev_open env d = Some (err, d'))"
proof -
  define d2 where "d2 = nic_deinit_vecs d1"
  define d3 where "d3 = snd (on_ptp (\<lambda>n p. case aq_ptp_ring_deinit n p of (n, p) \<Rightarrow> (0, n, p)) d2)"
  have s2: "same_kernel d1 d2" unfolding d2_def nic_deinit_vecs_def by (rule same_fold) (rule same_on_vec)
  have s3: "same_kernel d2 d3"
    by (auto simp: d3_def same_kernel_def on_ptp_def aq_ptp_ring_deinit_def Let_def split: prod.splits option.splits)
  obtain e d4 where 4: "fw_call (fw_deinit (env_stack env)) d3 = Some (e, d4)" and r: "nic_set_power env d4 = Some d'"
    using assms unfolding aq_nic_deinit_def Let_def d2_def [symmetric] d3_def [symmetric] by (auto split: option.splits)
  have s4: "same_kernel d3 d4" using 4 by (auto simp: fw_call_def hw_call_def split_beta intro: same_hw)
  have "same_kernel d4 d'"
    using r by (auto simp: nic_set_power_def same_kernel_def set_hwc_def split: if_splits option.splits)
  then have "same_kernel d1 d'" using s2 s3 s4 same_kernel_trans by blast
  moreover have "aq_ndev_open env d = Some (err, d')"
    if "aq_nic_init env d = Some (e, d0)" "0 \<le> e" "aq_nic_start env d0 = Some (err, d1)" "err < 0" for d d0 e err
    using that assms by (simp add: aq_ndev_open_def andthen_def)
  ultimately show ?thesis unfolding same_kernel_def by blast
qed

theorem failed_open_leaves_irqs_witness:
  "\<exists>d'. aq_nic_deinit env0 ((dev0 [] None)\<lparr>msix_entry_mask := 1\<rparr>) = Some d' \<and> msix_entry_mask d' = 1 \<and> service_timer d' = Some 1"
proof -
  obtain hw where hw: "aq_fw2x_deinit hwp = (0, hw)" "aq_nic_cfg hw = cfg0"
    by (simp add: aq_fw2x_deinit_def aq_fw2x_set_link_speed_def aq_fw2x_set_state_def reg_modify_def
        aq_hw_write_reg_def writel_def readl_cfg split_beta)
  then obtain d' where d': "aq_nic_deinit env0 ((dev0 [] None)\<lparr>msix_entry_mask := 1\<rparr>) = Some d'"
    by (simp add: aq_nic_deinit_def nic_deinit_vecs_def on_ptp_def aq_ptp_ring_deinit_def fw_call_def hw_call_def
        nic_set_power_def dev0_def hwc_def cfg_def cfg0_def set_hwc_def Let_def)
  then show ?thesis using failed_open_leaves_irqs [OF d'] by (simp add: dev0_def)
qed

subsection \<open>Link settings\<close>

lemma set_link_speed_answer: "fst (fw_set_link_speed t hw rt) = 0 \<and> aq_nic_cfg (snd (fw_set_link_speed t hw rt)) = aq_nic_cfg hw"
  using readl_cfg [of hw HW_ATL_MPI_CONTROL_ADR]
  by (cases t) (simp_all add: hw_atl_utils_mpi_set_speed_def aq_fw2x_set_link_speed_def aq_hw_write_reg_def writel_def split_beta)

lemma apply_rate_result:
  assumes "aq_nic_apply_rate rt d = Some (err, d')"
  shows "err = 0 \<and> cfg d' = (cfg d)\<lparr>link_speed_msk := rt\<rparr>"
proof -
  obtain t where t: "aq_fw_ops (hwc d) = Some t"
    using assms by (auto simp: aq_nic_apply_rate_def fw_call_def split: option.splits)
  obtain hw where hw: "fw_set_link_speed t (hwc d) rt = (0, hw)" "aq_nic_cfg hw = cfg d"
    using set_link_speed_answer [of t "hwc d" rt] by (metis cfg_def prod.collapse)
  then show ?thesis
    using assms t by (auto simp: aq_nic_apply_rate_def fw_call_def hw_call_def cfg_def hwc_def upd_cfg_def set_hwc_def)
qed



end
