(* ===== verification/Probe_Props.thy ===== *)
theory Probe_Props
  imports Nic_Props
begin

section \<open>Properties of probing and removal\<close>

text \<open>
  Each resource the probe takes is counted: up when it is taken, down when it is given back. The
  labels at the end of \<open>aq_pci_probe\<close> give back what has been taken at each exit, but for a network
  device that has been registered; \<open>aq_pci_remove\<close> gives back everything.
\<close>

datatype pci_res = R_device | R_regions | R_netdev | R_hw | R_bar | R_irqvecs | R_registered

fun pci_delta :: "pci_res \<Rightarrow> pci_event \<Rightarrow> int" where
  "pci_delta r Enable_device = of_bool (r = R_device)"
| "pci_delta r Disable_device = - of_bool (r = R_device)"
| "pci_delta r Request_regions = of_bool (r = R_regions)"
| "pci_delta r Release_regions = - of_bool (r = R_regions)"
| "pci_delta r Alloc_netdev = of_bool (r = R_netdev)"
| "pci_delta r Free_netdev = - of_bool (r = R_netdev)"
| "pci_delta r Alloc_hw = of_bool (r = R_hw)"
| "pci_delta r Free_hw = - of_bool (r = R_hw)"
| "pci_delta r (Map_bar a) = of_bool (r = R_bar)"
| "pci_delta r Unmap_bar = - of_bool (r = R_bar)"
| "pci_delta r (Alloc_irqvecs n) = of_bool (r = R_irqvecs)"
| "pci_delta r Free_irqvecs = - of_bool (r = R_irqvecs)"
| "pci_delta r Register_netdev = of_bool (r = R_registered)"
| "pci_delta r Unregister_netdev = - of_bool (r = R_registered)"
| "pci_delta r Unregister_clock = 0"

definition pci_balance :: "pci_event list \<Rightarrow> pci_res \<Rightarrow> int" where
  "pci_balance evs r = (\<Sum>e\<leftarrow>evs. pci_delta r e)"

lemma balance_simps [simp]:
  "pci_balance [] r = 0" "pci_balance (e # evs) r = pci_delta r e + pci_balance evs r"
  "pci_balance (evs @ evs') r = pci_balance evs r + pci_balance evs' r"
  by (simp_all add: pci_balance_def)

lemmas err_lists = err_pci_func_def err_ndev_def err_ioremap_def err_free_aq_hw_def err_hwinit_def err_register_def

lemma alloc_vecs_nd: "alloc_vecs env n i d = (err, d') \<Longrightarrow> nd d' = nd d"
  by (induction n arbitrary: i d) (auto simp: Let_def split: prod.splits option.splits dest: meta_spec)

lemma ndev_register_events:
  assumes "aq_nic_ndev_register env d = Some (err, reg, d')" "\<not> nd_registered (nd d)"
  shows "reg = [] \<and> \<not> nd_registered (nd d') \<or> reg = [Register_netdev] \<and> nd_registered (nd d') \<and> err = 0"
  using assms alloc_vecs_nd
  by (fastforce simp: aq_nic_ndev_register_def set_hwc_def upd_nd_def netif_carrier_def netif_tx_disable_def Let_def
      split: option.splits prod.splits if_splits)

lemma ptp_init_nd: "nic_ptp_init env d = (err, d') \<Longrightarrow> nd d' = nd d"
  by (auto simp: nic_ptp_init_def on_ptp_def split: prod.splits)

text \<open>What a probe leaves when it had taken everything, or its first resources, before.\<close>

definition holds :: "pci_event list \<Rightarrow> pci_res set \<Rightarrow> bool" where
  "holds evs S \<longleftrightarrow> Register_netdev \<notin> set evs \<and> (\<forall>r. pci_balance evs r = of_bool (r \<in> S))"

definition probe_ok :: "int \<Rightarrow> pci_event list \<Rightarrow> nic_dev \<Rightarrow> bool" where
  "probe_ok err evs d \<longleftrightarrow> (nd_registered (nd d) \<longleftrightarrow> Register_netdev \<in> set evs) \<and>
     (\<forall>r. pci_balance evs r = (if r = R_registered then of_bool (Register_netdev \<in> set evs) else of_bool (err = 0)))"

lemma holds_step: "holds evs S \<Longrightarrow> (\<And>r. pci_delta r e = of_bool (r = x)) \<Longrightarrow> x \<notin> S \<Longrightarrow> e \<noteq> Register_netdev \<Longrightarrow>
    holds (evs @ [e]) (insert x S)"
  by (auto simp: holds_def)

definition backs :: "pci_event list \<Rightarrow> pci_res set \<Rightarrow> bool" where
  "backs evs S \<longleftrightarrow> Register_netdev \<notin> set evs \<and> (\<forall>r. pci_balance evs r = - of_bool (r \<in> S))"

lemma probe_ok_exit:
  assumes "holds evs S" "backs back S" "err \<noteq> 0" "\<not> nd_registered (nd d)"
  shows "probe_ok err (evs @ back) d"
  using assms by (simp add: holds_def backs_def probe_ok_def)

lemma all_res: "(\<forall>r. P r) \<longleftrightarrow> P R_device \<and> P R_regions \<and> P R_netdev \<and> P R_hw \<and> P R_bar \<and> P R_irqvecs \<and> P R_registered"
  by (metis pci_res.exhaust)

lemma err_backs:
  "backs err_pci_func {R_device}" "backs err_ndev {R_device, R_regions}" "backs err_ioremap {R_device, R_regions, R_netdev}"
  "backs err_free_aq_hw {R_device, R_regions, R_netdev, R_hw}" "backs err_hwinit {R_device, R_regions, R_netdev, R_hw, R_bar}"
  "backs err_register {R_device, R_regions, R_netdev, R_hw, R_bar, R_irqvecs}"
  by (simp_all add: err_lists backs_def all_res)

lemma probe_register_ok:
  assumes "probe_register env evs d = Some (err, evs', d')" "\<not> nd_registered (nd d)"
    and h: "holds evs {R_device, R_regions, R_netdev, R_hw, R_bar, R_irqvecs}"
  shows "probe_ok err evs' d'"
proof -
  have n: "\<not> nd_registered (nd (aq_nic_ndev_init d))" using assms(2) by (simp add: aq_nic_ndev_init_def upd_nd_def Let_def)
  obtain e reg d1 where 1: "aq_nic_ndev_register env (aq_nic_ndev_init d) = Some (e, reg, d1)"
    using assms(1) by (auto simp: probe_register_def split: option.splits)
  obtain e2 d2 where 2: "nic_ptp_init env d1 = (e2, d2)" by fastforce
  have f: "nd (aq_nic_free_vectors x) = nd x" for x by (simp add: aq_nic_free_vectors_def)
  have reg: "reg = [] \<and> \<not> nd_registered (nd d1) \<or> reg = [Register_netdev] \<and> nd_registered (nd d1)"
    using ndev_register_events [OF 1 n] by blast
  have b: "\<forall>r. pci_balance evs r = of_bool (r \<noteq> R_registered)" "\<forall>r. pci_balance err_register r = - of_bool (r \<noteq> R_registered)"
    using h err_backs(6) unfolding holds_def backs_def all_res by simp_all
  have br: "pci_balance evs r + pci_balance err_register r = 0" for r using b by simp
  have out: "(err = 0 \<and> evs' = evs @ reg \<or> err \<noteq> 0 \<and> evs' = evs @ reg @ err_register) \<and> nd d' = nd d1"
  proof -
    have s: "(if e < 0 then Some (e, evs @ reg @ err_register, aq_nic_free_vectors d1)
        else if e2 < 0 then Some (e2, evs @ reg @ err_register, aq_nic_free_vectors d2) else Some (0, evs @ reg, d2)) = Some (err, evs', d')"
      using assms(1) unfolding probe_register_def 1 option.case prod.case 2 .
    have n2: "nd d2 = nd d1" by (rule ptp_init_nd [OF 2])
    consider "e < 0" | "\<not> e < 0" "e2 < 0" | "\<not> e < 0" "\<not> e2 < 0" by blast
    then show ?thesis
    proof cases
      case 1
      with s have "err = e" "evs' = evs @ reg @ err_register" "d' = aq_nic_free_vectors d1" by simp_all
      then show ?thesis using 1 by (simp add: f)
    next
      case 2
      with s have "err = e2" "evs' = evs @ reg @ err_register" "d' = aq_nic_free_vectors d2" by simp_all
      then show ?thesis using 2 by (simp add: f n2)
    next
      case 3
      with s have "err = 0" "evs' = evs @ reg" "d' = d2" by simp_all
      then show ?thesis by (simp add: n2)
    qed
  qed
  have nr: "Register_netdev \<notin> set evs" "Register_netdev \<notin> set err_register" 
    using h err_backs(6) unfolding holds_def backs_def by blast+
  show ?thesis
  proof (cases "err = 0")
    case True
    then have "evs' = evs @ reg" "nd d' = nd d1" using out by simp_all
    then show ?thesis using reg nr(1) True b(1) by (elim disjE) (simp_all add: probe_ok_def)
  next
    case False
    then have "evs' = evs @ reg @ err_register" "nd d' = nd d1" using out by simp_all
    then show ?thesis using reg nr False br by (elim disjE) (simp_all add: probe_ok_def algebra_simps)
  qed
qed

lemma probe_card_ok:
  assumes r: "probe_card env pe evs d = Some (err, evs', d')" and n: "\<not> nd_registered (nd d)"
    and h: "holds evs {R_device, R_regions, R_netdev}"
  shows "probe_ok err evs' d'"
proof (cases "aq_pci_probe_get_hw_by_id (env_nf env) (pci_vendor pe) (pci_device pe) (pci_revision pe)")
  case (Inl e)
  then have "e \<noteq> 0" by (auto simp: aq_pci_probe_get_hw_by_id_def EINVAL_def split: if_splits option.splits)
  moreover have "err = e \<and> evs' = evs @ err_ioremap \<and> d' = d" using r Inl by (simp add: probe_card_def)
  ultimately show ?thesis using probe_ok_exit [OF h err_backs(3)] n by blast
next
  case (Inr tc)
  then obtain t caps where tc: "aq_pci_probe_get_hw_by_id (env_nf env) (pci_vendor pe) (pci_device pe) (pci_revision pe) = Inr (t, caps)"
    by (cases tc) simp
  have h1: "holds (evs @ [Alloc_hw]) {R_device, R_regions, R_netdev, R_hw}"
    using holds_step [OF h, of Alloc_hw R_hw] by (simp add: insert_commute)
  show ?thesis
  proof (cases "find_bar (take 4 (bars pe)) (ioremap_given pe)")
    case (Inl e)
    have "find_bar bs io = Inl e \<Longrightarrow> e = - EIO" for bs io
      by (induction bs io rule: find_bar.induct) (auto split: if_splits)
    then have "e \<noteq> 0" using Inl by (auto simp: EIO_def)
    have "err = - ENOMEM \<and> evs' = evs @ err_ioremap \<and> d' = d \<or> err = e \<and> evs' = (evs @ [Alloc_hw]) @ err_free_aq_hw \<and> d' = d"
      using r Inl tc by (auto simp: probe_card_def Let_def split: if_splits)
    moreover have "- ENOMEM \<noteq> 0" by (simp add: ENOMEM_def)
    ultimately show ?thesis
      using probe_ok_exit [OF h err_backs(3), of err d'] probe_ok_exit [OF h1 err_backs(4), of err d'] n \<open>e \<noteq> 0\<close> by fastforce
  next
    case (Inr a)
    have h2: "holds (evs @ [Alloc_hw] @ [Map_bar a]) {R_device, R_regions, R_netdev, R_hw, R_bar}"
      using holds_step [OF h1, of "Map_bar a" R_bar] by (simp add: insert_commute)
    have h3: "holds ((evs @ [Alloc_hw] @ [Map_bar a]) @ [Alloc_irqvecs k]) {R_device, R_regions, R_netdev, R_hw, R_bar, R_irqvecs}" for k
      using holds_step [OF h2, of "Alloc_irqvecs k" R_irqvecs] by (simp add: insert_commute)
    define dp where "dp = probe_configure pe t caps (word_of_int (irqvecs_answer pe)) d"
    have np: "\<not> nd_registered (nd dp)" using n by (simp add: dp_def probe_configure_def upd_cfg_def set_hwc_def)
    consider "err = - ENOMEM" "evs' = evs @ err_ioremap" "d' = d"
      | "err < 0" "evs' = (evs @ [Alloc_hw] @ [Map_bar a]) @ err_hwinit" "d' = d"
      | "probe_register env ((evs @ [Alloc_hw] @ [Map_bar a]) @ [Alloc_irqvecs (unat (wanted_vecs pe caps))]) dp = Some (err, evs', d')"
    proof -
      have "(if \<not> hw_given pe then Some (- ENOMEM, evs @ err_ioremap, d)
          else if irqvecs_answer pe < 0 then Some (irqvecs_answer pe, (evs @ [Alloc_hw] @ [Map_bar a]) @ err_hwinit, d)
          else probe_register env ((evs @ [Alloc_hw] @ [Map_bar a]) @ [Alloc_irqvecs (unat (wanted_vecs pe caps))]) dp) = Some (err, evs', d')"
        using r unfolding probe_card_def tc dp_def Let_def by (simp only: sum.case prod.case Inr append_assoc)
      then show ?thesis using that by (cases "hw_given pe"; cases "irqvecs_answer pe < 0") (simp_all only: if_True if_False not_True_eq_False not_False_eq_True option.inject prod.inject)
    qed
    then show ?thesis
    proof cases
      case 1
      then show ?thesis using probe_ok_exit [OF h err_backs(3)] n by (simp add: ENOMEM_def)
    next
      case 2
      then show ?thesis using probe_ok_exit [OF h2 err_backs(5), of err d'] n by simp
    next
      case 3
      show ?thesis by (rule probe_register_ok [OF 3 np h3])
    qed
  qed
qed

lemma probe_is_ok:
  assumes r: "aq_pci_probe env pe adapter = Some (err, evs, d)" and n: "\<not> nd_registered (nd adapter)"
  shows "evs = [] \<and> err \<noteq> 0 \<or> probe_ok err evs d"
proof -
  obtain e regs where i: "aq_pci_func_init pe = (e, regs)" by fastforce
  have h0: "holds [Enable_device] {R_device}" by (simp add: holds_def)
  have h1: "holds ([Enable_device] @ [Request_regions]) {R_device, R_regions}"
    using holds_step [OF h0, of Request_regions R_regions] by (simp add: insert_commute)
  have h2: "holds (([Enable_device] @ [Request_regions]) @ [Alloc_netdev]) {R_device, R_regions, R_netdev}"
    using holds_step [OF h1, of Alloc_netdev R_netdev] by (simp add: insert_commute)
  have e: "e \<noteq> 0 \<and> regs = [] \<or> e = 0 \<and> regs = [Request_regions]"
    using i by (auto simp: aq_pci_func_init_def ENOSR_def split: if_splits)
  consider "evs = []" "err \<noteq> 0" | "err \<noteq> 0" "evs = [Enable_device] @ err_pci_func" "d = adapter"
    | "err = - ENOMEM" "evs = ([Enable_device] @ [Request_regions]) @ err_ndev" "d = adapter"
    | "probe_card env pe (([Enable_device] @ [Request_regions]) @ [Alloc_netdev]) adapter = Some (err, evs, d)"
    using r e by (auto simp: aq_pci_probe_def i Let_def split: if_splits)
  then show ?thesis
  proof cases
    case 2
    then show ?thesis using probe_ok_exit [OF h0 err_backs(1)] n by blast
  next
    case 3
    then show ?thesis using probe_ok_exit [OF h1 err_backs(2)] n by (simp add: ENOMEM_def)
  next
    case 4
    show ?thesis using probe_card_ok [OF 4 n h2] by blast
  qed simp
qed

lemma remove_events:
  assumes "aq_pci_remove env d = Some (evs, d')"
  shows "pci_balance evs r = - of_bool (r = R_registered \<longrightarrow> nd_registered (nd d))"
proof -
  define dx where "dx = snd (on_rules env (aq_clear_rxnfc_all_rules (filter_ops_of (aq_hw_ops d))) d)"
  have nx: "nd dx = nd d" by (simp add: dx_def on_rules_def set_hwc_def split_beta)
  obtain clk mid where m: "evs = clk @ mid @ [Free_irqvecs, Unmap_bar, Free_hw, Release_regions, Free_netdev, Disable_device]"
      "clk = [] \<or> clk = [Unregister_clock]" "mid = (if nd_registered (nd dx) then [Unregister_netdev] else [])"
    using assms unfolding aq_pci_remove_def dx_def [symmetric] Let_def
    by (auto simp: unregister_netdev_def Let_def split: option.splits if_splits)
  show ?thesis using m(2,3) nx by (cases r) (auto simp: m(1))
qed


subsection \<open>A probe that succeeds\<close>

text \<open>A card that always answers the same, as one whose firmware of version 3.0 runs.\<close>

definition steady_val :: "u32 \<Rightarrow> u32" where
  "steady_val a = (if a = HW_ATL_FW2X_MPI_EFUSE_ADDR then 0 else 0x03001000)"

primcorec steady :: device where
  "dev_val steady = steady_val"
| "dev_read steady = (\<lambda>a. steady)"
| "dev_write steady = (\<lambda>a v. steady)"

definition steady_hw :: "aq_nic_cfg_s \<Rightarrow> aq_hw_s \<Rightarrow> bool" where
  "steady_hw c hw \<longleftrightarrow> mmio hw = steady \<and> flags hw = 0 \<and> aq_nic_cfg hw = c"

lemma steady_write [simp]: "steady_hw c hw \<Longrightarrow> steady_hw c (aq_hw_write_reg hw a v)"
  by (simp add: steady_hw_def aq_hw_write_reg_def writel_def)

lemma steady_read: "steady_hw c hw \<Longrightarrow> aq_hw_read_reg hw a = (steady_val a, hw)"
proof -
  assume s: "steady_hw c hw"
  then have "hw\<lparr>mmio := steady\<rparr> = hw" by (cases hw) (simp add: steady_hw_def)
  then show ?thesis using s by (simp add: steady_hw_def aq_hw_read_reg_def readl_def steady_val_def)
qed

lemma steady_write_bit [simp]: "steady_hw c hw \<Longrightarrow> steady_hw c (aq_hw_write_reg_bit hw a m s v)"
  by (auto simp: aq_hw_write_reg_bit_def steady_read [of c] Let_def)

lemma steady_field [simp]: "steady_hw c hw \<Longrightarrow> steady_hw c (write_field hw f i v)"
  by (simp add: write_field_def)

lemma steady_upd [simp]:
  "steady_hw c hw \<Longrightarrow> steady_hw c (hw\<lparr>rbl_enabled := b\<rparr>)" "steady_hw c hw \<Longrightarrow> steady_hw c (hw\<lparr>chip_features := w\<rparr>)"
  "steady_hw c hw \<Longrightarrow> steady_hw c (hw\<lparr>fw_ver_actual := w\<rparr>)" "steady_hw c hw \<Longrightarrow> steady_hw c (hw\<lparr>aq_fw_ops := x\<rparr>)"
  "steady_hw c hw \<Longrightarrow> steady_hw c (hw\<lparr>mbox_addr := w\<rparr>)" "steady_hw c hw \<Longrightarrow> steady_hw c (hw\<lparr>rpc_addr := w\<rparr>)"
  by (simp_all add: steady_hw_def)

lemma steady_vals [simp]: "a \<noteq> 0x364 \<Longrightarrow> steady_val a = 0x03001000"
  by (simp add: steady_val_def HW_ATL_FW2X_MPI_EFUSE_ADDR_def)

lemma poll_first: "B s = (True, s') \<Longrightarrow> poll_until B (Suc n) s = (True, s')"
  and wait_first: "B s = (True, s') \<Longrightarrow> AQ_HW_WAIT_FOR B (Suc n) s = (False, s')"
  by simp_all

lemma steady_datapath:
  assumes "steady_hw c hw"
  shows "steady_hw c (datapath_reset m hw)"
  using assms steady_write_bit [of c] by (simp add: datapath_reset_def HW_ATL_GLB_SOFT_RES_ADR_def global_soft_reset_def llh_set_defs steady_read [of c] Let_def)

lemma steady_start:
  assumes "steady_hw c hw"
  shows "wait_fw_started hw = (0, hw)"
proof -
  have "poll_until (reg_is HW_ATL_MPI_FW_VERSION (\<lambda>v. v \<noteq> 0)) (Suc 999) hw = (True, hw)"
    by (rule poll_first) (use assms in \<open>simp add: reg_is_def steady_read [of c] HW_ATL_MPI_FW_VERSION_def\<close>)
  then show ?thesis by (simp add: wait_fw_started_def)
qed

lemma steady_rbl:
  assumes "steady_hw c hw"
  shows "\<exists>hw'. hw_atl_utils_soft_reset_rbl hw = (0, hw') \<and> steady_hw c hw'"
proof -
  define h1 where "h1 = aq_hw_write_reg (aq_hw_write_reg (aq_hw_write_reg (aq_hw_write_reg hw 0x404 0x40e1) 0x3a0 1) 0x32a8 0) 0x388 0xDEAD"
  have s1: "steady_hw c h1" using assms by (simp add: h1_def)
  obtain v h2 where 2: "spi_cleanup h1 = (v, h2)" "steady_hw c h2" using s1 by (simp add: spi_cleanup_def steady_read [of c])
  define h3 where "h3 = aq_hw_write_reg (datapath_reset 0xFFFFBFFF h2) 0x404 0x40e0"
  have s3: "steady_hw c h3" using 2(2) by (simp add: h3_def steady_datapath)
  have "poll_until rbl_booted (Suc 999) (0, h3) = (True, 0x1000, h3)"
    by (rule poll_first) (use s3 in \<open>simp add: rbl_booted_def steady_read [of c]\<close>)
  then show ?thesis using 2 s3 steady_start [OF s3]
    by (simp add: hw_atl_utils_soft_reset_rbl_def h1_def [symmetric] h3_def [symmetric] FORCE_FLASHLESS_def Let_def)
qed

lemma steady_reset:
  assumes "steady_hw c hw" "\<not> fast_start_enabled hw"
  shows "\<exists>hw'. hw_atl_utils_soft_reset stack hw = (0, hw') \<and> steady_hw c hw'"
proof -
  have b: "poll_until boot_seen (Suc 999) (0, hw) = (True, 0x03001000, hw)"
    by (rule poll_first) (use assms(1) in \<open>simp add: boot_seen_def steady_read [of c] HW_ATL_MPI_DAISY_CHAIN_STATUS_def HW_ATL_MPI_BOOT_EXIT_CODE_def\<close>)
  have "hw_atl_utils_ver_match HW_ATL_FW_VER_1X 0x03001000 \<noteq> 0"
    by (simp add: hw_atl_utils_ver_match_def HW_ATL_FW_VER_1X_def EOPNOTSUPP_def)
  moreover have "steady_hw c (hw\<lparr>rbl_enabled := True\<rparr>)" using assms by simp
  from steady_rbl [OF this] obtain hw' where "hw_atl_utils_soft_reset_rbl (hw\<lparr>rbl_enabled := True\<rparr>) = (0, hw')" "steady_hw c hw'" by blast
  ultimately show ?thesis using assms b
    by (simp add: hw_atl_utils_soft_reset_def steady_read [of c] HW_ATL_MPI_FW_VERSION_def reset_by_boot_loader_def)
qed

lemma steady_initfw:
  assumes "steady_hw c hw" "\<not> fast_start_enabled hw"
  shows "\<exists>hw'. hw_atl_utils_initfw rnd stack hw = Some (0, hw') \<and> steady_hw c hw' \<and> aq_fw_ops hw' = Some aq_fw_2x_ops"
proof -
  obtain h1 where 1: "hw_atl_utils_soft_reset stack hw = (0, h1)" "steady_hw c h1" using steady_reset [OF assms] by blast
  define h2 where "h2 = hw_atl_utils_get_fw_version (hw_atl_utils_hw_chip_features_init h1)"
  have s2: "steady_hw c h2" "fw_ver_actual h2 = 0x03001000"
    using 1(2) by (simp_all add: h2_def hw_atl_utils_get_fw_version_def hw_atl_utils_hw_chip_features_init_def
        hw_atl_reg_glb_mif_id_get_def steady_read [of c] Let_def)
  have t: "fw_table_for 0x03001000 = Some aq_fw_2x_ops"
    by (simp add: fw_table_for_def hw_atl_utils_ver_match_def HW_ATL_FW_VER_1X_def HW_ATL_FW_VER_2X_def HW_ATL_FW_VER_3X_def EOPNOTSUPP_def)
  define h3 where "h3 = h2\<lparr>aq_fw_ops := Some aq_fw_2x_ops\<rparr>"
  have s3: "steady_hw c h3" "aq_fw_ops h3 = Some aq_fw_2x_ops" using s2(1) by (simp_all add: h3_def)
  have "AQ_HW_WAIT_FOR (\<lambda>self. case aq_hw_read_reg self HW_ATL_FW2X_MPI_MBOX_ADDR of (v, self) \<Rightarrow> (v \<noteq> 0, self\<lparr>mbox_addr := v\<rparr>)) (Suc 9) h3
      = (False, h3\<lparr>mbox_addr := 0x03001000\<rparr>)"
    by (rule wait_first) (use s3(1) in \<open>simp add: steady_read [of c] HW_ATL_FW2X_MPI_MBOX_ADDR_def\<close>)
  moreover have "AQ_HW_WAIT_FOR (\<lambda>self. case aq_hw_read_reg self HW_ATL_FW2X_MPI_RPC_ADDR of (v, self) \<Rightarrow> (v \<noteq> 0, self\<lparr>rpc_addr := v\<rparr>)) (Suc 99)
      (h3\<lparr>mbox_addr := 0x03001000\<rparr>) = (False, h3\<lparr>mbox_addr := 0x03001000, rpc_addr := 0x03001000\<rparr>)"
    by (rule wait_first) (use s3(1) in \<open>simp add: steady_read [of c] HW_ATL_FW2X_MPI_RPC_ADDR_def\<close>)
  ultimately have "aq_fw2x_init h3 = (0, h3\<lparr>mbox_addr := 0x03001000, rpc_addr := 0x03001000\<rparr>)"
    by (simp add: aq_fw2x_init_def etime_def)
  then show ?thesis using 1 s2 s3 t
    by (simp add: hw_atl_utils_initfw_def h2_def [symmetric] h3_def [symmetric])
qed

lemma steady_mac:
  assumes "steady_hw c hw"
  shows "\<exists>mac'. fw_get_mac_permanent rnd aq_fw_2x_ops hw mac = (0, hw, mac')"
  using assms by (simp add: aq_fw2x_get_mac_permanent_def steady_read [of c] steady_val_def Let_def)
definition adapter0 :: nic_dev where
  "adapter0 = (dev0 [] None)\<lparr>pn := (np0 kern0)\<lparr>p_hw := hw0\<lparr>mmio := steady\<rparr>\<rparr>\<rparr>"

definition pci0 :: pci_env where
  "pci0 = \<lparr>pci_enable = 0, dma_mask_64 = 0, dma_coherent_64 = 0, dma_mask_32 = 0, dma_coherent_32 = 0, pci_regions = 0,
     netdev_given = True, hw_given = True, bars = [\<lparr>bar_mem = True, bar_start = 0xF0000000, bar_len = 0x10000\<rparr>],
     ioremap_given = True, irqvecs_answer = 2, pci_vendor = PCI_VENDOR_ID_AQUANTIA, pci_device = 0xD107, pci_revision = 1,
     cpus_online = 1, pci_msix = True, pci_msi = False,
     dev_params = \<lparr>aq_itr = 0, aq_itr_tx = 0, aq_itr_rx = 0, aq_rxpageorder = 0, aq_rx_refill_thres = 32\<rparr>, power_off = False\<rparr>"

lemma board0: "aq_pci_probe_get_hw_by_id nf PCI_VENDOR_ID_AQUANTIA 0xD107 1 = Inr (hw_atl_ops_a0, hw_atl_a0_caps_aqc107 nf)"
  by (simp add: aq_pci_probe_get_hw_by_id_def hw_atl_boards_def AQ_HWREV_ANY_def AQ_HWREV_1_def)

definition dev_c :: nic_dev where
  "dev_c = aq_nic_ndev_init (probe_configure pci0 hw_atl_ops_a0 (hw_atl_a0_caps_aqc107 (env_nf env0)) 2 adapter0)"

lemma dev_c: "\<exists>c. steady_hw c (hwc dev_c) \<and> vecs c = 1 \<and> tcs c = 1" "\<not> fast_start_enabled (hwc dev_c)" "aq_hw_ops dev_c = hw_atl_ops_a0"
  "p_mem (pn dev_c) = mem0 five_blocks" "aq_ptp dev_c = None" "\<not> nd_running (nd dev_c)" "\<not> nd_registered (nd dev_c)"
proof -
  define c where "c = cfg dev_c"
  have d: "nd dev_c = (nd dev_c)\<lparr>nd_running := False, nd_registered := False\<rparr>"
    by (simp add: dev_c_def aq_nic_ndev_init_def upd_nd_def probe_configure_def upd_cfg_def set_hwc_def adapter0_def Let_def)
      (simp add: dev0_def netdev0_def)
  show "\<not> nd_running (nd dev_c)" "\<not> nd_registered (nd dev_c)" by (subst d, simp)+
  show "\<not> fast_start_enabled (hwc dev_c)" "aq_hw_ops dev_c = hw_atl_ops_a0" "p_mem (pn dev_c) = mem0 five_blocks" "aq_ptp dev_c = None"
    by (simp_all add: dev_c_def aq_nic_ndev_init_def upd_nd_def probe_configure_def upd_cfg_def set_hwc_def adapter0_def hwc_def
        dev0_def np0_def hw0_def Let_def)
  have "hwc dev_c = (hwc adapter0)\<lparr>aq_nic_cfg := c\<rparr>"
    by (simp add: c_def dev_c_def cfg_def aq_nic_ndev_init_def upd_nd_def probe_configure_def upd_cfg_def set_hwc_def hwc_def Let_def)
  then have "steady_hw c (hwc dev_c)" by (simp add: steady_hw_def adapter0_def hwc_def hw0_def)
  moreover obtain k where "c = aq_nic_cfg_start (dev_params pci0) 1 2 AQ_HW_IRQ_MSIX k"
    by (simp add: c_def dev_c_def cfg_def aq_nic_ndev_init_def upd_nd_def probe_configure_def upd_cfg_def set_hwc_def hwc_def Let_def
        pci0_def aq_pci_func_get_irq_type_def)
  then have "vecs c = cfg_vecs (caps_vecs (aq_hw_caps k)) 1 2 \<or> vecs c = 1" "tcs c = 1"
    by (simp_all add: aq_nic_cfg_start_def aq_nic_rss_init_def cfg_defaults_def AQ_CFG_TCS_DEF_def Let_def)
  moreover have "cfg_vecs x 1 2 = 1" for x
  proof -
    have "min (min (min x AQ_CFG_VECS_DEF) 1) (2 - AQ_HW_SERVICE_IRQS) \<le> (1 :: u32)" by (simp add: min_le_iff_disj AQ_HW_SERVICE_IRQS_def)
    then have "\<not> 2 \<le> min (min (min x AQ_CFG_VECS_DEF) 1) (2 - AQ_HW_SERVICE_IRQS)" "\<not> 4 \<le> min (min (min x AQ_CFG_VECS_DEF) 1) (2 - AQ_HW_SERVICE_IRQS)"
      "\<not> 8 \<le> min (min (min x AQ_CFG_VECS_DEF) 1) (2 - AQ_HW_SERVICE_IRQS)"
      by (auto simp: word_le_nat_alt)
    then show ?thesis by (simp add: cfg_vecs_def AQ_HW_SERVICE_IRQS_def Let_def)
  qed
  ultimately show "\<exists>c. steady_hw c (hwc dev_c) \<and> vecs c = 1 \<and> tcs c = 1" by auto
qed

lemma alloc_one:
  assumes "tcs c = 1"
  shows "\<exists>vm m. aq_vec_alloc 0 c (mem0 five_blocks) = (Some vm, m)"
proof -
  have "((2::u64) = 0) = False" "((3::u64) = 0) = False" "((4::u64) = 0) = False" "((5::u64) = 0) = False" by simp_all
  then show ?thesis using assms
    by (simp add: aq_vec_alloc_def mem_get_def mem0_def five_blocks_def AQ_CFG_TCS_MAX_def aq_ring_tx_alloc_def aq_ring_rx_alloc_def
        aq_ring_alloc_def mem_logs_def ring_mem0_def Let_def eval_nat_numeral)
qed

lemma register_one:
  "\<exists>d. aq_nic_ndev_register env0 dev_c = Some (0, [Register_netdev], d) \<and> aq_ptp d = None \<and> \<not> nd_running (nd d) \<and>
     nd_registered (nd d) \<and> aq_hw_ops d = hw_atl_ops_a0"
proof -
  obtain c where c: "steady_hw c (hwc dev_c)" "vecs c = 1" "tcs c = 1" using dev_c(1) by blast
  obtain h1 where 1: "hw_atl_utils_initfw (env_rnd env0) (env_stack env0) (hwc dev_c) = Some (0, h1)" "steady_hw c h1"
      "aq_fw_ops h1 = Some aq_fw_2x_ops"
    using steady_initfw [OF c(1) dev_c(2)] by blast
  define d1 where "d1 = set_hwc h1 dev_c"
  have d1: "hwc d1 = h1" by (simp add: d1_def)
  obtain mac where mac: "fw_get_mac_permanent (env_rnd env0) aq_fw_2x_ops h1 (dev_addr (nd d1)) = (0, h1, mac)"
    using steady_mac [OF 1(2)] by blast
  define d2 where "d2 = (upd_nd (\<lambda>n. n\<lparr>dev_addr := mac\<rparr>) (set_hwc h1 d1))\<lparr>aq_vec := [], aq_vec_mem := []\<rparr>"
  have d2: "cfg d2 = c" "p_mem (pn d2) = mem0 five_blocks" "nd d2 = (nd dev_c)\<lparr>dev_addr := mac\<rparr>" "aq_ptp d2 = None"
      "aq_hw_ops d2 = hw_atl_ops_a0"
    using 1(2) dev_c by (simp_all add: d2_def d1_def cfg_def hwc_def upd_nd_def set_hwc_def steady_hw_def)
  obtain vm m where vm: "aq_vec_alloc 0 c (mem0 five_blocks) = (Some vm, m)" using alloc_one [OF c(3)] by blast
  obtain d3 where d3: "alloc_vecs env0 (unat (vecs (cfg d2))) 0 d2 = (0, d3)" "nd d3 = nd d2" "aq_ptp d3 = None" "aq_hw_ops d3 = hw_atl_ops_a0"
    using vm d2 by (simp add: c Let_def)
  have u: "cfg (upd_nd f (set_hwc h1 d1)) = cfg d2" for f
    by (simp add: d2_def cfg_def hwc_def upd_nd_def set_hwc_def)
  show ?thesis
    using d3 1 mac dev_c(6) d2
    by (simp add: aq_nic_ndev_register_def d1_def [symmetric] d1 u d2_def [symmetric] env0_def netif_tx_disable_def netif_carrier_def
        Let_def) (simp add: upd_nd_def)
qed


end
