(* ===== verification/Ethtool.thy ===== *)
theory Ethtool
  imports Pci_Probe
begin

section \<open>The tools' interface (aq_ethtool.c, aq_drvinfo.c)\<close>

text \<open>
  The operations of \<open>aq_ethtool_ops\<close>, one definition each, on the whole device, in the build for
  Linux; a structure the kernel passes in and reads back is a record, a buffer a list. The
  operations the first firmware's table lacks are answered with \<open>-EOPNOTSUPP\<close> there: \<open>fw2\<close> asks for
  the second table. The message level only filters log output and has no counterpart.
\<close>

definition fw2 :: "nic_dev \<Rightarrow> bool" where "fw2 d \<longleftrightarrow> aq_fw_ops (hwc d) = Some aq_fw_2x_ops"

subsection \<open>Registers, link and statistics\<close>

definition aq_ethtool_get_regs :: "nic_dev \<Rightarrow> nic_dev \<times> u32 list" where
  "aq_ethtool_get_regs d =
     (case aq_nic_get_regs d (replicate (unat (aq_nic_get_regs_count d)) 0) of (err, d, p) \<Rightarrow> (d, p))"

definition aq_ethtool_get_regs_len :: "nic_dev \<Rightarrow> u32" where
  "aq_ethtool_get_regs_len d = aq_nic_get_regs_count d * 4"

definition aq_ethtool_get_link_ksettings :: "nic_dev \<Rightarrow> link_ksettings" where
  "aq_ethtool_get_link_ksettings d =
     aq_nic_get_link_ksettings d (if nd_carrier (nd d) then aq_nic_get_link_speed d else 0)"

definition aq_ethtool_set_link_ksettings :: "nic_dev \<Rightarrow> link_ksettings \<Rightarrow> (int \<times> nic_dev) option" where
  "aq_ethtool_set_link_ksettings d cmd = aq_nic_set_link_ksettings d cmd"

definition aq_ethtool_stat_names :: "string list" where
  "aq_ethtool_stat_names =
     [''InPackets'', ''InUCast'', ''InMCast'', ''InBCast'', ''InErrors'', ''OutPackets'', ''OutUCast'', ''OutMCast'',
      ''OutBCast'', ''InUCastOctets'', ''OutUCastOctets'', ''InMCastOctets'', ''OutMCastOctets'', ''InBCastOctets'',
      ''OutBCastOctets'', ''InOctets'', ''OutOctets'', ''InPacketsDma'', ''OutPacketsDma'', ''InOctetsDma'', ''OutOctetsDma'',
      ''InDroppedDma'']"

text \<open>What follows the number of the queue in \<open>aq_ethtool_queue_stat_names\<close>.\<close>

definition aq_ethtool_queue_stat_names :: "string list" where
  "aq_ethtool_queue_stat_names =
     [''] InPackets'', ''] OutPackets'', ''] Restarts'', ''] InJumboPackets'', ''] InLroPackets'', ''] InErrors'']"

definition aq_ethtool_priv_flag_names :: "string list" where
  "aq_ethtool_priv_flag_names =
     [''DMASystemLoopback'', ''PKTSystemLoopback'', ''DMANetworkLoopback'', ''PHYInternalLoopback'', ''PHYExternalLoopback'']"

definition n_stats :: "nic_dev \<Rightarrow> nat" where
  "n_stats d = length aq_ethtool_stat_names + unat (vecs (cfg d)) * length aq_ethtool_queue_stat_names"

definition aq_ethtool_stats :: "nic_env \<Rightarrow> nic_dev \<Rightarrow> (nic_dev \<times> u64 list) option" where
  "aq_ethtool_stats env d = aq_nic_get_stats env d (replicate (n_stats d) 0)"

fun dec :: "nat \<Rightarrow> string" where
  "dec n = (if n < 10 then [char_of (48 + n)] else dec (n div 10) @ [char_of (48 + n mod 10)])"

declare dec.simps [simp del]

datatype string_set = ETH_SS_STATS | ETH_SS_PRIV_FLAGS | ETH_SS_OTHER

text \<open>The strings themselves; each has a field of 32 bytes of its own in the buffer.\<close>

definition aq_ethtool_get_strings :: "nic_dev \<Rightarrow> string_set \<Rightarrow> string list" where
  "aq_ethtool_get_strings d s =
     (case s of
        ETH_SS_STATS \<Rightarrow> aq_ethtool_stat_names @
          concat (map (\<lambda>i. map (\<lambda>x. ''Queue['' @ dec i @ x) aq_ethtool_queue_stat_names) [0..<unat (vecs (cfg d))])
      | ETH_SS_PRIV_FLAGS \<Rightarrow> aq_ethtool_priv_flag_names
      | ETH_SS_OTHER \<Rightarrow> [])"

definition aq_ethtool_get_sset_count :: "nic_dev \<Rightarrow> string_set \<Rightarrow> int" where
  "aq_ethtool_get_sset_count d s =
     (case s of ETH_SS_STATS \<Rightarrow> int (n_stats d) | ETH_SS_PRIV_FLAGS \<Rightarrow> int (length aq_ethtool_priv_flag_names)
      | ETH_SS_OTHER \<Rightarrow> - EOPNOTSUPP)"

text \<open>Of \<open>struct ethtool_drvinfo\<close>: version of the firmware, number of statistics, length of the register dump.\<close>

definition aq_ethtool_get_drvinfo :: "nic_dev \<Rightarrow> nic_dev \<times> string \<times> nat \<times> u32" where
  "aq_ethtool_get_drvinfo d =
     (case aq_nic_get_fw_version d of (v, d) \<Rightarrow>
        (d, dec (unat (drop_bit 24 v)) @ ''.'' @ dec (unat (drop_bit 16 v AND 0xFF)) @ ''.'' @ dec (unat (v AND 0xFFFF)),
         n_stats d, aq_nic_get_regs_count d))"

datatype phys_id = ETHTOOL_ID_ACTIVE | ETHTOOL_ID_INACTIVE | ETHTOOL_ID_OTHER

definition AQ_HW_LED_BLINK :: u32 where "AQ_HW_LED_BLINK = 2"
definition AQ_HW_LED_DEFAULT :: u32 where "AQ_HW_LED_DEFAULT = 0"

definition aq_ethtool_set_phys_id :: "nic_dev \<Rightarrow> phys_id \<Rightarrow> int \<times> nic_dev" where
  "aq_ethtool_set_phys_id d state =
     (if \<not> fw2 d then (- EOPNOTSUPP, d)
      else case state of
        ETHTOOL_ID_ACTIVE \<Rightarrow> hw_call (\<lambda>hw. aq_fw2x_led_control hw
          (AQ_HW_LED_BLINK OR push_bit 2 AQ_HW_LED_BLINK OR push_bit 4 AQ_HW_LED_BLINK)) d
      | ETHTOOL_ID_INACTIVE \<Rightarrow> hw_call (\<lambda>hw. aq_fw2x_led_control hw AQ_HW_LED_DEFAULT) d
      | ETHTOOL_ID_OTHER \<Rightarrow> (0, d))"

subsection \<open>Receive-side scaling and flow rules\<close>

definition ETH_RSS_HASH_NO_CHANGE :: u8 where "ETH_RSS_HASH_NO_CHANGE = 0"
definition ETH_RSS_HASH_TOP :: u8 where "ETH_RSS_HASH_TOP = 1"

definition aq_ethtool_get_rss_indir_size :: nat where
  "aq_ethtool_get_rss_indir_size = AQ_CFG_RSS_INDIRECTION_TABLE_MAX"

definition aq_ethtool_get_rss_key_size :: nat where "aq_ethtool_get_rss_key_size = 40"

definition aq_ethtool_get_rss :: "nic_dev \<Rightarrow> u8 \<times> u32 list \<times> u8 list" where
  "aq_ethtool_get_rss d =
     (let rss = aq_rss (cfg d)
      in (ETH_RSS_HASH_TOP, map (\<lambda>i. ucast (indirection_table rss ! i)) [0..<AQ_CFG_RSS_INDIRECTION_TABLE_MAX],
          concat (map (\<lambda>w. [u32_byte 0 w, u32_byte 1 w, u32_byte 2 w, u32_byte 3 w]) (hash_secret_key rss))))"

definition hw_rss_hash_set :: "hw_table \<Rightarrow> aq_hw_s \<Rightarrow> aq_rss_parameters \<Rightarrow> int \<times> aq_hw_s" where
  "hw_rss_hash_set t = (case t of hw_atl_ops_a0 \<Rightarrow> hw_atl_a0_hw_rss_hash_set | hw_atl_ops_b0 \<Rightarrow> hw_atl_b0_hw_rss_hash_set)"

definition upd_rss :: "(aq_rss_parameters \<Rightarrow> aq_rss_parameters) \<Rightarrow> nic_dev \<Rightarrow> nic_dev" where
  "upd_rss f = upd_cfg (\<lambda>c. c\<lparr>aq_rss := f (aq_rss c)\<rparr>)"

definition key_words :: "u8 list \<Rightarrow> u32 list" where
  "key_words key = map (\<lambda>i. u32_of_bytes (key ! (4 * i)) (key ! (4 * i + 1)) (key ! (4 * i + 2)) (key ! (4 * i + 3))) [0..<10]"

definition set_rss_table :: "u32 list \<Rightarrow> nic_dev \<Rightarrow> nic_dev option" where
  "set_rss_table indir d =
     (let n = unat (indirection_table_size (aq_rss (cfg d))) in
      if list_ex (\<lambda>q. num_rss_queues (cfg d) \<le> q) (take n indir) then None
      else Some (upd_rss (\<lambda>r. r\<lparr>indirection_table := map ucast (take n indir) @ drop n (indirection_table r)\<rparr>) d))"

definition set_rss_key :: "u8 list option \<Rightarrow> nic_dev \<Rightarrow> int \<times> nic_dev" where
  "set_rss_key key d =
     (case key of None \<Rightarrow> (0, d)
      | Some k \<Rightarrow> let d = upd_rss (\<lambda>r. r\<lparr>hash_secret_key := key_words k\<rparr>) d
                  in hw_call (\<lambda>hw. hw_rss_hash_set (aq_hw_ops d) hw (aq_rss (cfg d))) d)"

text \<open>\<open>indir\<close> has \<open>get_rxfh_indir_size\<close> entries; the result of \<open>hw_rss_set\<close> is not looked at.\<close>

definition aq_ethtool_set_rss :: "nic_dev \<Rightarrow> u32 list option \<Rightarrow> u8 list option \<Rightarrow> u8 \<Rightarrow> int \<times> nic_dev" where
  "aq_ethtool_set_rss d indir key hfunc =
     (if hfunc \<noteq> ETH_RSS_HASH_NO_CHANGE \<and> hfunc \<noteq> ETH_RSS_HASH_TOP then (- EOPNOTSUPP, d)
      else case (case indir of None \<Rightarrow> Some d | Some t \<Rightarrow> set_rss_table t d) of
        None \<Rightarrow> (- EINVAL, d)
      | Some d \<Rightarrow>
          (case set_rss_key key d of (err, d) \<Rightarrow>
             (err, snd (hw_call (\<lambda>hw. hw_rss_set (aq_hw_ops d) hw (aq_rss (cfg d))) d))))"

datatype rxnfc_query = ETHTOOL_GRXRINGS | ETHTOOL_GRXCLSRLCNT | ETHTOOL_GRXCLSRULE u32 | ETHTOOL_GRXCLSRLALL nat | Rxnfc_query_other
datatype rxnfc_answer = Rxnfc_data u32 | Rxnfc_count u16 | Rxnfc_rule ethtool_rx_flow_spec | Rxnfc_locs "u32 list"

definition aq_ethtool_get_rxnfc :: "nic_dev \<Rightarrow> rxnfc_query \<Rightarrow> int + rxnfc_answer" where
  "aq_ethtool_get_rxnfc d cmd =
     (case cmd of
        ETHTOOL_GRXRINGS \<Rightarrow> Inr (Rxnfc_data (vecs (cfg d)))
      | ETHTOOL_GRXCLSRLCNT \<Rightarrow> Inr (Rxnfc_count (aq_get_rxnfc_count_all_rules (flt d)))
      | ETHTOOL_GRXCLSRULE l \<Rightarrow> map_sum id Rxnfc_rule (aq_get_rxnfc_rule (flt d) l)
      | ETHTOOL_GRXCLSRLALL cnt \<Rightarrow> map_sum id Rxnfc_locs (aq_get_rxnfc_all_rules (flt d) cnt)
      | Rxnfc_query_other \<Rightarrow> Inl (- EOPNOTSUPP))"

datatype rxnfc_cmd = ETHTOOL_SRXCLSRLINS ethtool_rx_flow_spec | ETHTOOL_SRXCLSRLDEL u32 | Rxnfc_cmd_other

definition aq_ethtool_set_rxnfc :: "nic_env \<Rightarrow> bool \<Rightarrow> nic_dev \<Rightarrow> rxnfc_cmd \<Rightarrow> int \<times> nic_dev" where
  "aq_ethtool_set_rxnfc env alloc d cmd =
     (let ops = filter_ops_of (aq_hw_ops d) in
      case cmd of
        ETHTOOL_SRXCLSRLINS fsp \<Rightarrow> on_rules env (\<lambda>f. aq_add_rxnfc_rule ops alloc f fsp) d
      | ETHTOOL_SRXCLSRLDEL l \<Rightarrow> on_rules env (\<lambda>f. aq_del_rxnfc_rule ops f l) d
      | Rxnfc_cmd_other \<Rightarrow> (- EOPNOTSUPP, d))"

subsection \<open>Interrupt moderation\<close>

record ethtool_coalesce =
  use_adaptive_rx :: bool
  use_adaptive_tx :: bool
  rx_usecs :: u32
  rx_frames :: u32
  rx_usecs_irq :: u32
  rx_frames_irq :: u32
  tx_usecs :: u32
  tx_frames :: u32
  tx_usecs_irq :: u32
  tx_frames_irq :: u32

definition AQ_CFG_INTERRUPT_MODERATION_USEC_MAX :: u32 where "AQ_CFG_INTERRUPT_MODERATION_USEC_MAX = 0x1FF * 2"

definition aq_ethtool_get_coalesce :: "nic_dev \<Rightarrow> ethtool_coalesce \<Rightarrow> ethtool_coalesce" where
  "aq_ethtool_get_coalesce d coal =
     (if itr (cfg d) = AQ_CFG_INTERRUPT_MODERATION_ON \<or> itr (cfg d) = AQ_CFG_INTERRUPT_MODERATION_AUTO
      then coal\<lparr>rx_usecs := ucast (rx_itr (cfg d)), tx_usecs := ucast (tx_itr (cfg d)), rx_frames := 0, tx_frames := 0\<rparr>
      else coal\<lparr>rx_usecs := 0, tx_usecs := 0, rx_frames := 1, tx_frames := 1\<rparr>)"

definition coalesce_unsupported :: "ethtool_coalesce \<Rightarrow> bool" where
  "coalesce_unsupported c \<longleftrightarrow>
     use_adaptive_rx c \<or> use_adaptive_tx c \<or>
     rx_frames c > 1 \<or> rx_usecs_irq c \<noteq> 0 \<or> rx_frames_irq c \<noteq> 0 \<or>
     tx_frames c > 1 \<or> tx_usecs_irq c \<noteq> 0 \<or> tx_frames_irq c \<noteq> 0 \<or>
     rx_frames c \<noteq> of_bool (rx_usecs c = 0) \<or> tx_frames c \<noteq> of_bool (tx_usecs c = 0)"

definition aq_ethtool_set_coalesce :: "nic_dev \<Rightarrow> ethtool_coalesce \<Rightarrow> int \<times> nic_dev" where
  "aq_ethtool_set_coalesce d c =
     (if coalesce_unsupported c then (- EOPNOTSUPP, d)
      else if rx_usecs c > AQ_CFG_INTERRUPT_MODERATION_USEC_MAX \<or> tx_usecs c > AQ_CFG_INTERRUPT_MODERATION_USEC_MAX then (- EINVAL, d)
      else aq_nic_update_interrupt_moderation_settings
        (upd_cfg (\<lambda>cf. cf\<lparr>itr := AQ_CFG_INTERRUPT_MODERATION_ON, rx_itr := ucast (rx_usecs c), tx_itr := ucast (tx_usecs c)\<rparr>) d))"

subsection \<open>Wake on LAN, time stamps, energy-efficient Ethernet, flow control\<close>

definition WAKE_MAGIC :: u32 where "WAKE_MAGIC = BIT 5"

text \<open>Supported and enabled options.\<close>

definition aq_ethtool_get_wol :: "nic_dev \<Rightarrow> u32 \<times> u32" where
  "aq_ethtool_get_wol d = (WAKE_MAGIC, if wol (cfg d) \<noteq> 0 then WAKE_MAGIC else 0)"

text \<open>\<open>answer\<close> is that of the kernel's \<open>device_set_wakeup_enable\<close>.\<close>

definition aq_ethtool_set_wol :: "int \<Rightarrow> nic_dev \<Rightarrow> u32 \<Rightarrow> int \<times> nic_dev" where
  "aq_ethtool_set_wol answer d wolopts =
     (answer, upd_cfg (\<lambda>c. c\<lparr>wol := (if wolopts AND WAKE_MAGIC \<noteq> 0 then wol c OR AQ_NIC_WOL_ENABLED
                                     else wol c AND NOT AQ_NIC_WOL_ENABLED)\<rparr>) d)"

definition HWTSTAMP_FILTER_PTP_V2_L2_EVENT :: u32 where "HWTSTAMP_FILTER_PTP_V2_L2_EVENT = 9"
definition SOF_TIMESTAMPING_TX_HARDWARE :: u32 where "SOF_TIMESTAMPING_TX_HARDWARE = 1"
definition SOF_TIMESTAMPING_RX_HARDWARE :: u32 where "SOF_TIMESTAMPING_RX_HARDWARE = 4"
definition SOF_TIMESTAMPING_RAW_HARDWARE :: u32 where "SOF_TIMESTAMPING_RAW_HARDWARE = 64"

record ethtool_ts_info =
  so_timestamping :: u32
  tx_types :: u32
  rx_filters :: u32
  phc_index :: int

text \<open>\<open>sw\<close> is what \<open>ethtool_op_get_ts_info\<close> offers, \<open>index\<close> the number of the registered clock.\<close>

definition aq_ethtool_get_ts_info :: "u32 \<Rightarrow> int \<Rightarrow> nic_dev \<Rightarrow> ethtool_ts_info" where
  "aq_ethtool_get_ts_info sw index d =
     \<lparr>so_timestamping = sw OR (SOF_TIMESTAMPING_TX_HARDWARE OR SOF_TIMESTAMPING_RX_HARDWARE OR SOF_TIMESTAMPING_RAW_HARDWARE),
      tx_types = BIT (unat HWTSTAMP_TX_OFF) OR BIT (unat HWTSTAMP_TX_ON),
      rx_filters = BIT (unat HWTSTAMP_FILTER_NONE) OR
        (if aq_ptp d \<noteq> None
         then BIT (unat HWTSTAMP_FILTER_PTP_V2_L4_EVENT) OR BIT (unat HWTSTAMP_FILTER_PTP_V2_L2_EVENT) OR
              BIT (unat HWTSTAMP_FILTER_PTP_V2_EVENT)
         else 0),
      phc_index = (if aq_ptp d \<noteq> None then index else - 1)\<rparr>"

record ethtool_eee =
  eee_supported :: u32
  eee_advertised :: u32
  eee_lp_advertised :: u32
  eee_active :: bool
  eee_enabled :: bool
  tx_lpi_enabled :: bool
  tx_lpi_timer :: u32

definition SUPPORTED_10000baseT_Full :: u32 where "SUPPORTED_10000baseT_Full = BIT 12"
definition SUPPORTED_1000baseT_Full :: u32 where "SUPPORTED_1000baseT_Full = BIT 5"
definition AQ_NIC_RATE_EEE_MSK :: u32 where
  "AQ_NIC_RATE_EEE_MSK = AQ_NIC_RATE_EEE_10G OR AQ_NIC_RATE_EEE_5G OR AQ_NIC_RATE_EEE_2GS OR AQ_NIC_RATE_EEE_1G"

definition eee_mask_to_ethtool_mask :: "u32 \<Rightarrow> u32" where
  "eee_mask_to_ethtool_mask speed =
     (if speed AND AQ_NIC_RATE_EEE_10G \<noteq> 0 then SUPPORTED_10000baseT_Full else 0) OR
     (if speed AND AQ_NIC_RATE_EEE_1G \<noteq> 0 then SUPPORTED_1000baseT_Full else 0)"

text \<open>The rates are uninitialised locals that a successful call sets; 0 stands for them before it.\<close>

definition aq_ethtool_get_eee :: "nic_dev \<Rightarrow> ethtool_eee \<Rightarrow> int \<times> nic_dev \<times> ethtool_eee" where
  "aq_ethtool_get_eee d eee =
     (if \<not> fw2 d then (- EOPNOTSUPP, d, eee)
      else case aq_fw2x_get_eee_rate (hwc d) 0 0 (tx_lpi_timer eee) of (err, hw, rate, supp, lpi) \<Rightarrow>
        let d = set_hwc hw d; eee = eee\<lparr>tx_lpi_timer := lpi\<rparr> in
        if err < 0 then (err, d, eee)
        else
          let eee = eee\<lparr>eee_supported := eee_mask_to_ethtool_mask supp\<rparr>;
              eee = (if eee_speeds (cfg d) \<noteq> 0 then eee\<lparr>eee_advertised := eee_supported eee\<rparr> else eee);
              eee = eee\<lparr>eee_lp_advertised := eee_mask_to_ethtool_mask rate, eee_enabled := eee_advertised eee \<noteq> 0\<rparr>;
              eee = eee\<lparr>tx_lpi_enabled := eee_enabled eee\<rparr>
          in (0, d, if (supp AND rate) AND AQ_NIC_RATE_EEE_MSK \<noteq> 0 then eee\<lparr>eee_active := True\<rparr> else eee))"

definition aq_ethtool_set_eee :: "nic_dev \<Rightarrow> bool \<Rightarrow> int \<times> nic_dev" where
  "aq_ethtool_set_eee d enabled =
     (if \<not> fw2 d then (- EOPNOTSUPP, d)
      else case aq_fw2x_get_eee_rate (hwc d) 0 0 0 of (err, hw, rate, supp, lpi) \<Rightarrow>
        let d = set_hwc hw d in
        if err < 0 then (err, d)
        else
          let rate = (if enabled then supp else 0);
              d = upd_cfg (\<lambda>c. c\<lparr>eee_speeds := rate\<rparr>) d
          in hw_call (\<lambda>hw. aq_fw2x_set_eee_rate hw rate) d)"

definition aq_ethtool_nway_reset :: "nic_dev \<Rightarrow> int \<times> nic_dev" where
  "aq_ethtool_nway_reset d =
     (if \<not> fw2 d then (- EOPNOTSUPP, d)
      else if nd_running (nd d) then hw_call aq_fw2x_renegotiate d else (0, d))"

text \<open>Pause frames: received and sent.\<close>

definition aq_ethtool_get_pauseparam :: "nic_dev \<Rightarrow> bool \<times> bool" where
  "aq_ethtool_get_pauseparam d = (flow_control (cfg d) AND AQ_NIC_FC_RX \<noteq> 0, flow_control (cfg d) AND AQ_NIC_FC_TX \<noteq> 0)"

definition with_flag :: "bool \<Rightarrow> u32 \<Rightarrow> u32 \<Rightarrow> u32" where
  "with_flag on f v = (if on then v OR f else v AND NOT f)"

definition aq_ethtool_set_pauseparam :: "nic_dev \<Rightarrow> bool \<Rightarrow> bool \<Rightarrow> bool \<Rightarrow> int \<times> nic_dev" where
  "aq_ethtool_set_pauseparam d autoneg rx tx =
     (if \<not> fw2 d then (- EOPNOTSUPP, d)
      else if autoneg then (- EOPNOTSUPP, d)
      else
        let d = upd_cfg (\<lambda>c. c\<lparr>flow_control := with_flag tx AQ_NIC_FC_TX (with_flag rx AQ_NIC_FC_RX (flow_control c))\<rparr>) d
        in hw_call aq_fw2x_set_flow_control d)"

subsection \<open>Ring sizes\<close>

record ethtool_ringparam =
  rx_pending :: u32
  tx_pending :: u32
  rx_mini_pending :: u32
  rx_jumbo_pending :: u32

text \<open>Sizes in use and the largest possible: receive, transmit.\<close>

definition aq_get_ringparam :: "nic_dev \<Rightarrow> (u32 \<times> u32) \<times> u32 \<times> u32" where
  "aq_get_ringparam d =
     (let c = cfg d in ((rxds c, aq_nic_cfg_s.txds c), caps_rxds_max (aq_hw_caps c), caps_txds_max (aq_hw_caps c)))"

text \<open>\<open>ALIGN(x, 8U)\<close>\<close>

definition align8 :: "u32 \<Rightarrow> u32" where "align8 x = (x + (8 - 1)) AND NOT (8 - 1)"

definition set_ring_sizes :: "ethtool_ringparam \<Rightarrow> aq_nic_cfg_s \<Rightarrow> aq_nic_cfg_s" where
  "set_ring_sizes ring c =
     (let caps = aq_hw_caps c
      in c\<lparr>rxds := align8 (min (max (rx_pending ring) (caps_rxds_min caps)) (caps_rxds_max caps)),
           txds := align8 (min (max (tx_pending ring) (caps_txds_min caps)) (caps_txds_max caps))\<rparr>)"

text \<open>The kernel's \<open>dev_close\<close> of an interface that is up, and \<open>dev_open\<close> of one that is down.\<close>

definition dev_close :: "nic_env \<Rightarrow> nic_dev \<Rightarrow> nic_dev option" where
  "dev_close env d = map_option snd (aq_ndev_close env (upd_nd (\<lambda>n. n\<lparr>nd_running := False\<rparr>) d))"

definition dev_open :: "nic_env \<Rightarrow> nic_dev \<Rightarrow> (int \<times> nic_dev) option" where
  "dev_open env d =
     (case aq_ndev_open env (upd_nd (\<lambda>n. n\<lparr>nd_running := True\<rparr>) d) of
        None \<Rightarrow> None
      | Some (err, d) \<Rightarrow> Some (err, if err \<noteq> 0 then upd_nd (\<lambda>n. n\<lparr>nd_running := False\<rparr>) d else d))"

definition aq_set_ringparam :: "nic_env \<Rightarrow> nic_dev \<Rightarrow> ethtool_ringparam \<Rightarrow> (int \<times> nic_dev) option" where
  "aq_set_ringparam env d ring =
     (if rx_mini_pending ring \<noteq> 0 \<or> rx_jumbo_pending ring \<noteq> 0 then Some (- EOPNOTSUPP, d)
      else
        let running = nd_running (nd d) in
        case (if running then dev_close env d else Some d) of
          None \<Rightarrow> None
        | Some d \<Rightarrow>
            let d = upd_cfg (set_ring_sizes ring) (aq_nic_free_vectors d) in
            case alloc_vecs env (unat (vecs (cfg d))) 0 d of (err, d) \<Rightarrow>
              if err \<noteq> 0 then Some (err, d)
              else if running then dev_open env d else Some (0, d))"

subsection \<open>Loopback and sensors\<close>

definition aq_ethtool_get_priv_flags :: "nic_dev \<Rightarrow> u32" where
  "aq_ethtool_get_priv_flags d = aq_nic_getloopback d AND AQ_HW_LOOPBACK_MASK"

definition aq_ethtool_set_priv_flags :: "nic_dev \<Rightarrow> u32 \<Rightarrow> int \<times> nic_dev" where
  "aq_ethtool_set_priv_flags d fl = aq_nic_setloopback d (fl AND AQ_HW_LOOPBACK_MASK)"

text \<open>The number printed: thousandths of a degree, metres of cable.\<close>

definition temperature_show :: "nic_dev \<Rightarrow> (int + int) \<times> nic_dev" where
  "temperature_show d =
     (if \<not> fw2 d then (Inl (- ENXIO), d)
      else case aq_fw2x_get_temp (hwc d) 0 of (err, hw, temp) \<Rightarrow>
        (if err = 0 then Inr (temp * 10) else Inl (- ENXIO), set_hwc hw d))"

definition cable_show :: "nic_dev \<Rightarrow> (int + int) \<times> nic_dev" where
  "cable_show d =
     (if \<not> fw2 d then (Inl (- ENXIO), d)
      else case aq_fw2x_get_cable_len (hwc d) 0 of (err, hw, cable_len) \<Rightarrow>
        (if err = 0 then Inr cable_len else Inl (- ENXIO), set_hwc hw d))"

end
