(* ===== verification/Ethtool_Props.thy ===== *)
theory Ethtool_Props
  imports Ethtool Nic_Props
begin

section \<open>Properties of the tools' interface\<close>

text \<open>
  What is asked for through the tools is checked, kept in the configuration and reported back:
  interrupt moderation, receive-side scaling, ring sizes.
\<close>

subsection \<open>The configuration survives the chip operations\<close>

lemma cfg_access [simp]:
  "aq_nic_cfg (write_field hw f i v) = aq_nic_cfg hw" "aq_nic_cfg (snd (read_field hw f i)) = aq_nic_cfg hw"
  "aq_nic_cfg (aq_hw_write_reg hw a v) = aq_nic_cfg hw" "aq_nic_cfg (snd (aq_hw_read_reg hw a)) = aq_nic_cfg hw"
  "aq_nic_cfg (aq_hw_write_reg_bit hw a m s v) = aq_nic_cfg hw"
  by (rule same_sw_cfg, simp)+

lemma cfg_fold: "(\<And>x s. aq_nic_cfg (f x s) = aq_nic_cfg s) \<Longrightarrow> aq_nic_cfg (fold f xs s) = aq_nic_cfg s"
  by (induction xs arbitrary: s) simp_all

lemma cfg_poll_field: "aq_nic_cfg (snd (AQ_HW_WAIT_FOR (\<lambda>s. case read_field s f i of (v, s) \<Rightarrow> (P v, s)) n s)) = aq_nic_cfg s"
  by (rule same_sw_cfg, rule same_sw_wait_for) (simp add: split_beta)

lemma cfg_moderation: "itr (aq_nic_cfg hw) = AQ_CFG_INTERRUPT_MODERATION_ON \<Longrightarrow> aq_nic_cfg (snd (hw_interrupt_moderation_set t hw)) = aq_nic_cfg hw"
proof -
  assume on: "itr (aq_nic_cfg hw) = AQ_CFG_INTERRUPT_MODERATION_ON"
  show ?thesis
  proof (cases t)
  case hw_atl_ops_a0
  have "aq_nic_cfg (fold (\<lambda>i s. hw_atl_reg_irq_thr_set s v i) is s) = aq_nic_cfg s" for v "is" s
    by (rule cfg_fold) (simp add: llh_set_defs)
  then show ?thesis
    by (simp add: hw_atl_ops_a0 hw_interrupt_moderation_set_def hw_atl_a0_hw_interrupt_moderation_set_def
        a0_itr_value_def a0_itr_auto_def split_beta Let_def)
next
  case hw_atl_ops_b0
  have "aq_nic_cfg (fold (\<lambda>i s. hw_atl_reg_rx_intr_moder_ctrl_set (hw_atl_reg_tx_intr_moder_ctrl_set s tx i) rx i) is s) = aq_nic_cfg s"
    for tx rx "is" s by (rule cfg_fold) (simp add: llh_set_defs)
  moreover have "aq_nic_cfg (snd (snd (itr_values hw))) = aq_nic_cfg hw"
    using on by (simp add: itr_values_def moderation_enable_def llh_set_defs AQ_CFG_INTERRUPT_MODERATION_ON_def
        AQ_CFG_INTERRUPT_MODERATION_OFF_def AQ_CFG_INTERRUPT_MODERATION_AUTO_def Let_def split_beta)
  ultimately show ?thesis
    by (simp add: hw_atl_ops_b0 hw_interrupt_moderation_set_def hw_atl_b0_hw_interrupt_moderation_set_def llh_set_defs split_beta Let_def)
  qed
qed

lemma cfg_rss_key: "aq_nic_cfg (snd (rss_key_loop rss n a hw)) = aq_nic_cfg hw"
proof (induction n arbitrary: a hw)
  case 0
  then show ?case by simp
next
  case (Suc n)
  have "aq_nic_cfg (snd (rss_key_write w a hw)) = aq_nic_cfg hw" for w
    by (simp add: rss_key_write_def llh_set_defs hw_atl_rpf_rss_key_wr_en_get_def cfg_poll_field)
  then show ?case using Suc by (simp add: split_beta)
qed

lemma cfg_rss_redir: "aq_nic_cfg (snd (rss_redir_loop b n hw)) = aq_nic_cfg hw"
proof (induction n arbitrary: hw)
  case 0
  then show ?case by simp
next
  case (Suc n)
  have "aq_nic_cfg (snd (rss_redir_write w a hw)) = aq_nic_cfg hw" for w a
    by (simp add: rss_redir_write_def llh_set_defs hw_atl_rpf_rss_redir_wr_en_get_def cfg_poll_field)
  then show ?case using Suc by (simp add: split_beta)
qed

lemma cfg_rss [simp]:
  "aq_nic_cfg (snd (hw_rss_hash_set t hw r)) = aq_nic_cfg hw" "aq_nic_cfg (snd (hw_rss_set t hw r)) = aq_nic_cfg hw"
  by (cases t; simp add: hw_rss_hash_set_def hw_rss_set_def hw_atl_a0_hw_rss_hash_set_def hw_atl_b0_hw_rss_hash_set_def
      hw_atl_a0_hw_rss_set_def hw_atl_b0_hw_rss_set_def cfg_rss_key cfg_rss_redir Let_def)+

subsection \<open>Interrupt moderation\<close>


definition coalesce0 :: ethtool_coalesce where
  "coalesce0 = \<lparr>use_adaptive_rx = False, use_adaptive_tx = False, rx_usecs = 50, rx_frames = 0, rx_usecs_irq = 0, rx_frames_irq = 0,
     tx_usecs = 0, tx_frames = 1, tx_usecs_irq = 0, tx_frames_irq = 0\<rparr>"


subsection \<open>Receive-side scaling\<close>

lemma byte_word:
  "u32_byte 0 (u32_of_bytes a b c e) = a" "u32_byte 1 (u32_of_bytes a b c e) = b"
  "u32_byte 2 (u32_of_bytes a b c e) = c" "u32_byte 3 (u32_of_bytes a b c e) = e"
  by (rule bit_word_eqI; auto simp: u32_byte_def u32_of_bytes_def bit_simps dest: bit_imp_le_length)+

lemma quads: "4 * n \<le> length k \<Longrightarrow> concat (map (\<lambda>i. [k ! (4 * i), k ! (4 * i + 1), k ! (4 * i + 2), k ! (4 * i + 3)]) [0..<n]) = take (4 * n) k"
proof (induction n)
  case (Suc n)
  have "take (4 * Suc n) k = take (4 * n) k @ [k ! (4 * n), k ! (4 * n + 1), k ! (4 * n + 2), k ! (4 * n + 3)]"
    using Suc.prems by (simp add: take_Suc_conv_app_nth eval_nat_numeral)
  then show ?case using Suc by simp
qed simp

text \<open>
  C39: Receive-side scaling. A redirection table that names a queue the adapter does not use for
  receiving is refused with -EINVAL and changes nothing. Otherwise the table and the key of the
  request, of the sizes the tools are told, are what is reported from then on, whatever the chip
  answers; a request without a table or without a key leaves that part as it was.
\<close>

theorem rss_request_kept:
  assumes "aq_ethtool_set_rss d (Some tbl) (Some key) hfunc = (err, d')" "hfunc \<in> {0, 1}"
    and "length tbl = aq_ethtool_get_rss_indir_size" "length key = aq_ethtool_get_rss_key_size"
    and "indirection_table_size (aq_rss (cfg d)) = 64" "num_rss_queues (cfg d) \<le> 8"
  shows "(\<exists>q\<in>set tbl. num_rss_queues (cfg d) \<le> q) \<and> err = - EINVAL \<and> d' = d \<or>
    (\<forall>q\<in>set tbl. q < num_rss_queues (cfg d)) \<and> aq_ethtool_get_rss d' = (ETH_RSS_HASH_TOP, tbl, key)"
proof (cases "\<exists>q\<in>set tbl. num_rss_queues (cfg d) \<le> q")
  case True
  then have "set_rss_table tbl d = None"
    using assms(3,5) by (auto simp: set_rss_table_def aq_ethtool_get_rss_indir_size_def AQ_CFG_RSS_INDIRECTION_TABLE_MAX_def list_ex_iff)
  then show ?thesis using assms(1,2) True
    by (auto simp: aq_ethtool_set_rss_def ETH_RSS_HASH_NO_CHANGE_def ETH_RSS_HASH_TOP_def)
next
  case False
  have c: "cfg (upd_cfg f x) = f (cfg x)" for f x by (simp add: cfg_def upd_cfg_def hwc_def set_hwc_def)
  have h: "cfg (snd (hw_call f x)) = cfg x" if "\<And>hw. aq_nic_cfg (snd (f hw)) = aq_nic_cfg hw" for f x
    using that [of "hwc x"] by (simp add: hw_call_def cfg_def hwc_def set_hwc_def split_beta)
  have n: "length tbl = 64" using assms(3) by (simp add: aq_ethtool_get_rss_indir_size_def AQ_CFG_RSS_INDIRECTION_TABLE_MAX_def)
  define d1 where "d1 = upd_rss (\<lambda>r. r\<lparr>indirection_table := map ucast tbl @ drop 64 (indirection_table r)\<rparr>) d"
  have "set_rss_table tbl d = Some d1"
    using False n assms(5) by (auto simp: set_rss_table_def d1_def list_ex_iff)
  then have "cfg d' = cfg (snd (set_rss_key (Some key) d1))"
    using assms(1,2) by (auto simp: aq_ethtool_set_rss_def ETH_RSS_HASH_NO_CHANGE_def ETH_RSS_HASH_TOP_def h split: prod.splits)
  then have r: "aq_rss (cfg d') = (aq_rss (cfg d1))\<lparr>hash_secret_key := key_words key\<rparr>"
    by (simp add: set_rss_key_def Let_def h upd_rss_def c)
  have u: "ucast (ucast q :: u8) = q" if "q \<in> set tbl" for q :: u32
  proof -
    have "q < 8" using that False assms(6) by fastforce
    then show ?thesis by (simp add: word_less_nat_alt word_unat_eq_iff unsigned_ucast_eq unsigned_take_bit_eq take_bit_nat_eq_self)
  qed
  have t: "map (\<lambda>i. ucast ((map ucast tbl @ xs) ! i :: u8)) [0..<AQ_CFG_RSS_INDIRECTION_TABLE_MAX] = tbl" for xs
    by (rule nth_equalityI) (auto simp: n AQ_CFG_RSS_INDIRECTION_TABLE_MAX_def nth_append u)
  have "concat (map (\<lambda>w. [u32_byte 0 w, u32_byte 1 w, u32_byte 2 w, u32_byte 3 w]) (key_words key)) = key"
  proof -
    have "concat (map (\<lambda>w. [u32_byte 0 w, u32_byte 1 w, u32_byte 2 w, u32_byte 3 w]) (key_words key)) = take (4 * 10) key"
      using quads [of 10 key] assms(4) by (simp add: key_words_def byte_word byte_word [unfolded One_nat_def] comp_def aq_ethtool_get_rss_key_size_def)
    also have "\<dots> = key" using assms(4) by (simp add: aq_ethtool_get_rss_key_size_def)
    finally show ?thesis .
  qed
  then show ?thesis using False r t
    by (auto simp: aq_ethtool_get_rss_def upd_rss_def c d1_def Let_def not_le)
qed

theorem rss_request_kept_witness:
  "\<exists>err d'. aq_ethtool_set_rss (dev0 [] None) (Some (replicate 64 0)) (Some (replicate 40 7)) 1 = (err, d') \<and>
     aq_ethtool_get_rss d' = (1, replicate 64 0, replicate 40 7)"
proof -
  obtain err d' where r: "aq_ethtool_set_rss (dev0 [] None) (Some (replicate 64 0)) (Some (replicate 40 7)) 1 = (err, d')" by fastforce
  have "num_rss_queues cfg0 = 1" "indirection_table_size (aq_rss cfg0) = 64" by (simp_all add: cfg0_def rss0_def)
  then show ?thesis using rss_request_kept [OF r] r
    by (simp add: aq_ethtool_get_rss_indir_size_def aq_ethtool_get_rss_key_size_def AQ_CFG_RSS_INDIRECTION_TABLE_MAX_def ETH_RSS_HASH_TOP_def
        word_le_nat_alt)
qed

subsection \<open>Ring sizes\<close>

lemma align8_unat:
  assumes "unat x + 7 < 2 ^ 32"
  shows "unat (align8 x) = (unat x + 7) div 8 * 8"
proof -
  have "align8 x = push_bit 3 (drop_bit 3 (x + 7))"
  proof -
    have m: "(8 - 1 :: u32) = mask 3" "mask 3 = (7 :: u32)" by (simp_all add: mask_eq_exp_minus_1)
    have "align8 x = push_bit 3 (drop_bit 3 (x + mask 3))"
      unfolding align8_def m(1) by (rule bit_word_eqI) (auto simp: bit_simps)
    then show ?thesis by (simp add: m(2))
  qed
  moreover have "unat (x + 7) = unat x + 7" using assms by (simp add: unat_word_ariths)
  moreover have "unat ((x + 7) div 8 * 8) = unat (x + 7) div 8 * 8 mod 2 ^ 32" by (simp add: unat_word_ariths unat_div_distrib)
  moreover have "(unat x + 7) div 8 * 8 < 2 ^ 32" using assms by simp
  ultimately show ?thesis by (simp add: push_bit_eq_mult drop_bit_eq_div)
qed

lemma ring_size_range:
  assumes "lo \<le> hi" "8 dvd unat hi"
  shows "lo \<le> align8 (min (max n lo) hi) \<and> align8 (min (max n lo) hi) \<le> hi \<and> 8 dvd unat (align8 (min (max n lo) hi)) \<and>
    (lo \<le> n \<and> n \<le> hi \<and> 8 dvd unat n \<longrightarrow> align8 (min (max n lo) hi) = n)"
proof -
  define x where "x = min (max n lo) hi"
  have x: "lo \<le> x" "x \<le> hi" "lo \<le> n \<and> n \<le> hi \<longrightarrow> x = n" using assms(1) by (auto simp: x_def)
  obtain m where m: "unat hi = 8 * m" using assms(2) by blast
  have "unat hi < 2 ^ 32" using unsigned_less [of hi] by simp
  then have b: "unat x + 7 < 2 ^ 32" using x(2) m by (simp add: word_le_nat_alt)
  have "unat (align8 x) = (unat x + 7) div 8 * 8" by (rule align8_unat [OF b])
  then show ?thesis
    using x m unfolding x_def [symmetric] by (auto simp: word_le_nat_alt word_unat_eq_iff)
qed

lemma alloc_vecs_result:
  assumes "alloc_vecs env n i d = (err, d')"
  shows "cfg d' = cfg d \<and>
    (err = 0 \<and> length (aq_vec d') = length (aq_vec d) + n \<or> err = - ENOMEM \<and> length (aq_vec d') < length (aq_vec d) + n)"
  using assms
proof (induction n arbitrary: i d)
  case (Suc n)
  obtain vm m where 1: "aq_vec_alloc (of_nat i) (cfg d) (p_mem (pn d)) = (vm, m)" by fastforce
  have c: "cfg (d\<lparr>pn := (pn d)\<lparr>p_mem := m\<rparr>, aq_vec := v, aq_vec_mem := w\<rparr>) = cfg d" for v w by (simp add: cfg_def hwc_def)
  have c1: "cfg (d\<lparr>pn := (pn d)\<lparr>p_mem := m\<rparr>\<rparr>) = cfg d" by (simp add: cfg_def hwc_def)
  show ?case
  proof (cases vm)
    case None
    then show ?thesis using Suc.prems 1 c1 by (auto simp: Let_def)
  next
    case (Some v)
    then show ?thesis using Suc.prems Suc.IH 1 c by (fastforce simp: Let_def)
  qed
qed simp



end
