(* ===== verification/Spec2Isabelle.thy ===== *)
theory Spec2Isabelle
  imports Hw_Props Tx_Props Filter_Props Rx_Props Drain Fw_Props B0_Ptp A0_Props Phy Nic_Cfg Probe_Props Ethtool_Props
begin

text \<open>
  The aQuantia AQtion network driver for Linux and ESXi: a model of its C code and what can be
  proved of it.

  \<^bold>\<open>The program.\<close> The kernel probes a card (aq_pci_func.c): the board tables pick the operations of
  the chip (\<open>aq_hw_ops\<close>: hw_atl/hw_atl_a0.c or hw_atl/hw_atl_b0.c) and the firmware's version those
  of the firmware (\<open>aq_fw_ops\<close>: hw_atl/hw_atl_utils.c or hw_atl/hw_atl_utils_fw2x.c). The adapter
  (aq_nic.c) owns vectors (aq_vec.c), a vector the rings of its queues (aq_ring.c). A packet to send
  goes through \<open>aq_nic_xmit\<close>: it is mapped for DMA and described in the ring, the chip's operation
  writes descriptors and moves the tail, and the poll of the vector reclaims what the chip reports
  as sent. On reception the ring is filled with pieces of pages, the chip's operation decodes
  write-backs, and the clean-up builds socket buffers and passes them up. Flow rules and VLANs
  (aq_filters.c) become filter registers. PTP packets (aq_ptp.c) have rings of their own, whose
  stamps come from the chip's clock. All registers are reached through aq_hw_utils.c and the
  functions of hw_atl/hw_atl_llh.c, with the bit-fields of hw_atl/hw_atl_llh_internal.h.

  \<^bold>\<open>The build.\<close> The code is the one a Linux kernel of version 4.11 or later (not ESXi) compiles; branches
  for older kernels are left out. Only \<open>aq_nic_map_skb\<close> takes the build (\<open>vmk\<close>) as an argument,
  because its ESXi branch is an algorithm of its own.
\<close>

section \<open>The theories\<close>

text \<open>
  \<^bold>\<open>Registers.\<close>
  \<^item> Prelude: C types as words, errno values, words and lists.
  \<^item> Hw_Access: \<open>aq_hw_s\<close>, aq_hw_utils.c, the polling macro; the chip is any \<open>device\<close> (a codatatype
    that answers reads and may change at every access); the interface \<open>reg_bank\<close>.
  \<^item> Llh_Regs, Llh_Ops: every bit-field of hw_atl_llh_internal.h and every function of hw_atl_llh.c,
    and that fields of one register are the same or disjoint.
  \<^item> Chip: what a sequence of writes leaves in a register file. Hw_Props: fields read back exactly,
    polls succeed exactly when the condition was seen in time, errors are not lost.

  \<^bold>\<open>Sending.\<close>
  \<^item> Ring: the ring of aq_ring.h, its positions and index arithmetic (interface \<open>circular\<close>).
  \<^item> Tx_Map: \<open>aq_nic_map_skb\<close> and \<open>aq_ring_tx_clean\<close>. Nic_Tx: \<open>aq_nic_xmit\<close> against the interface
    \<open>tx_hw\<close> of the chip's transmit operation: the ring is a first-in first-out queue of what it owes
    the kernel. B0_Tx: the descriptors of the B0 chip and its proof of \<open>tx_hw\<close>.
  \<^item> Samples, Tx_Props, Drain: concrete states; the properties; the runs of a ring as a step relation.

  \<^bold>\<open>Receiving.\<close>
  \<^item> Rx_Ring: pages and filling. B0_Rx: descriptors and write-backs of B0. Rx_Clean: building socket
    buffers, equal to a reference that walks each packet once. Vec: \<open>aq_vec_s\<close>, its poll, start, stop
    and interrupts. Vec_Mem: memory of rings and vectors. Rx_Props: the properties.

  \<^bold>\<open>Flow rules.\<close>
  \<^item> Filters: aq_filters.c. Rule_Table: the list of rules as a finite map, with its reachable states.
    Vlan_Table: the sixteen VLAN slots, against a one-pass reference. B0_Filters, B0_Rules: the
    filter registers, rule by rule (interface \<open>vlan_filter_hw\<close>). Filter_Props: the properties.

  \<^bold>\<open>Firmware and chips.\<close>
  \<^item> Firmware: hw_atl_utils.c (mailbox, remote calls, state, statistics). Fw2x: \<open>aq_fw_2x_ops\<close>.
    Link: the link speed is always one the moderation tables know.
  \<^item> Card_Model: the interface \<open>card\<close> between a register protocol and the card that answers it.
    Mailbox: the memory interface as such a card. Rss_Table: the redirection table as another.
  \<^item> B0_Setup, B0_Ptp: the rest of hw_atl_b0.c. A0_Setup, A0_Ring, A0_Props: hw_atl_a0.c; both chips
    are told the same of a packet. Phy: aq_phy.c. Boards: capabilities, the board table and the
    dispatch over the two tables of operations. Fw_Props: the properties.

  \<^bold>\<open>The adapter.\<close>
  \<^item> Nic_Cfg: \<open>aq_nic_cfg_start\<close>. Nic_Dev: \<open>nic_dev\<close>, the adapter as a whole; link, service task,
    receive mode, link settings, statistics. Nic_Life: opening, closing, interrupts, power
    management, features, the entry points of aq_main.c. Pci_Probe: probing and removal with every
    exit. Nic_Props, Probe_Props: the properties.
  \<^item> Ptp_Skb, Ptp, Ptp_Props: aq_ptp.c: the ring of waiting packets (interface \<open>bounded_fifo\<close>), the
    clock, stamps, pins, rings, set-up.
  \<^item> Ethtool, Ethtool_Props: the operations of aq_ethtool.c and the sensors of aq_drvinfo.c.
\<close>

section \<open>How the code is rendered\<close>

text \<open>
  \<^item> A C function is a definition of its name (one clashing with HOL gets a suffix), a structure a
    record, an enumeration a datatype, an \<open>unsigned int\<close> a word of its width. A function that
    returns an error code returns an \<open>int\<close>, negative for an error, beside the new state. What a
    function changes it takes and returns.
  \<^item> What the code takes from outside is an argument: uninitialised locals (\<open>stack\<close>), random numbers
    (\<open>rnd\<close>), the kernel's feature bits (\<open>netif_bits\<close>), allocators and DMA (\<open>kern\<close>, \<open>mem\<close>), the
    other answers of the kernel (\<open>nic_env\<close>, \<open>pci_env\<close>), time. What the kernel is told is recorded
    (\<open>klog\<close>, \<open>p_log\<close>, events, register writes in \<open>hw_log\<close>), so that properties count it.
  \<^item> A null pointer called or read is the value None; so is a wait that need not end. Globals of a C
    file are state arguments (\<open>ptp_clk_offset\<close>). Locks have no counterpart: an operation is one step.
    A sleep has no effect but where a timer is read.
  \<^item> A table of operations is called through a dispatch on the chip (Boards); a member that is NULL
    is an absent operation, as the code tests it.

  \<^bold>\<open>Loops, bounds and fuel.\<close> Loops over lists and counts are structural. The loops over fragments and
  the slots of the VLAN table end by a measure. \<open>aq_ring_tx_clean\<close> ends by its budget of 256; loops
  that advance round a ring (\<open>rx_deinit\<close>, \<open>rx_receive\<close>, \<open>rx_fill\<close>, the time-stamp ring, the ring of
  waiting packets) take the size of the ring as fuel, which is enough because the gap between
  two positions is below it. The C loops that need not end are partial functions: the walks along
  a chain of receive buffers (\<open>rsc_scan\<close>, \<open>rsc_drop\<close>, \<open>rsc_frags\<close>), proved to return for what the chip
  writes, and \<open>rpc_sync\<close>. \<open>AQ_HW_WAIT_FOR\<close> looks N + 1 times; the loops it does not cover have the
  counts of the code (10000 for the mailbox semaphore, 1000 for its commands, 32 addresses
  of the PHY, 32 interrupt vectors, four BARs). Theorems on a card that answers assume it does so
  within these counts: the semaphore before 10000 polls, a command before 999, a strobe of the RSS
  table within nine.
\<close>

section \<open>What is shown\<close>

text \<open>
  \<^item> Sending (Tx_Props, Drain, A0_Props): a sent packet adds exactly its releases to what the ring
    owes, its descriptors describe it fragment by fragment, its memory is unmapped and freed once
    and only when the chip is done; a failed mapping is undone; a ring drains; A0 and B0 agree.
  \<^item> Receiving (Rx_Props): what is passed up is what the chip wrote, compared with a reference; a
    piece of a page is never posted while another owner holds it; every clean-up returns; refilling
    posts all free places; what start-up leaves, and the double free when a vector cannot be had.
  \<^item> Rules (Filter_Props): every reachable table is sorted, counted and free of mixed IP versions;
    insertion refines a map update; every registered VLAN passes; the registers of a rule.
  \<^item> Registers and firmware (Hw_Props, Fw_Props): fields, the redirection table, download and upload
    of words, link speeds.
  \<^item> Adapter (Nic_Cfg, Nic_Props, Probe_Props, Ethtool_Props): the configuration is within the chip's
    limits; carrier and queues follow the link; the receive mode passes every configured
    address; interrupts and resources are given back, with the exceptions the code has; what the
    tools ask for is checked, kept and reported.
  \<^item> PTP (Ptp_Props): the clock shows what it was set to, moved on by the chip's counter; stamps go to
    the packets in the order they were sent, until a packet that cannot be mapped shifts them;
    waiting packets are released after the time-out; the memory of the rings.

  Several theorems say what the code does where it is probably not what was meant (a vector's rings
  freed twice, a temperature that includes the cable length, MDIO accesses beside the MDIO
  registers, ...); their text says so. In the step relation of the rules, deleting all of them is a
  step only when it succeeds; an abandoned deletion is covered by the lemmas on the operation.
\<close>

section \<open>Not modelled\<close>

text \<open>
  \<^item> Module entry and exit, the tables of operations handed to the kernel, device attributes: data of
    the kernel's registration. The scheduling of tasklets and NAPI beside the calls themselves.
  \<^item> aq_compat.h, aq_compat_ethtool.h and the branches for other kernels and ESXi, with them
    \<open>aq_nic_get_link_settings\<close> and \<open>aq_nic_set_link_settings\<close>: the kernels of this build use the
    \<open>ksettings\<close> operations.
  \<^item> aq_trace.h (trace events), log output and the message level.
  \<^item> \<open>hw_tx_ptp_ring_init\<close> and \<open>hw_rx_ptp_ring_init\<close>: no table of operations sets them, so they are
    never called.
  \<^item> Concurrency: interrupt handlers, polls and the service task are steps that do not overlap.
  \<^item> The kernel and the card themselves; the cards of Mailbox and Rss_Table serve as instances.
\<close>

end
